(* ===== verification/Isa_Prelude.thy ===== *)
theory Isa_Prelude
  imports Main "HOL-Library.Word" "HOL-Library.AList"
begin

text \<open>
  Shared vocabulary of the development: the integer types of \<^verbatim>\<open>typedef.h\<close> as words of their
  width, byte-addressed memory with the facts that encoders and parsers of the stack share, the
  service feedback codes of \<^verbatim>\<open>sfc.h\<close>, association lists that stand for \<^verbatim>\<open>std::map\<close>, and
  the named collections the component theories draw on.

  \<^verbatim>\<open>uint32\<close> is \<^verbatim>\<open>unsigned long\<close> in \<^verbatim>\<open>typedef.h\<close>; the model fixes it to the 32 bits it has on
  the access-point targets the stack is built for.
\<close>

unbundle bit_operations_syntax

named_theorems wire_simps \<open>evaluation of byte-level reads and writes\<close>
named_theorems codec_defs \<open>definitions of the field encoders and parsers\<close>
named_theorems mask_bits \<open>the bits of constant masks\<close>
named_theorems fit_simps \<open>values that fit a narrower field survive the cast\<close>

type_synonym u8 = "8 word"
type_synonym u16 = "16 word"
type_synonym u32 = "32 word"
type_synonym addr = nat
type_synonym mem = "addr \<Rightarrow> u8"

section \<open>Service feedback codes (sfc.h)\<close>

abbreviation (input) SFC_SUCCESS :: u8 where "SFC_SUCCESS \<equiv> 0"
abbreviation (input) SFC_FAILURE :: u8 where "SFC_FAILURE \<equiv> 1"
abbreviation (input) SFC_INVALID_ARGUMENT :: u8 where "SFC_INVALID_ARGUMENT \<equiv> 3"
abbreviation (input) SFC_INVALID_ATTRIBUTE :: u8 where "SFC_INVALID_ATTRIBUTE \<equiv> 6"
abbreviation (input) SFC_INVALID_ELEMENT_INDEX :: u8 where "SFC_INVALID_ELEMENT_INDEX \<equiv> 7"
abbreviation (input) SFC_READ_ONLY_ATTRIBUTE :: u8 where "SFC_READ_ONLY_ATTRIBUTE \<equiv> 8"
abbreviation (input) SFC_INCOMPATIBLE_MODE :: u8 where "SFC_INCOMPATIBLE_MODE \<equiv> 11"
abbreviation (input) SFC_INVALID_SIZE :: u8 where "SFC_INVALID_SIZE \<equiv> 14"
abbreviation (input) SFC_INVALID_METHOD :: u8 where "SFC_INVALID_METHOD \<equiv> 16"
abbreviation (input) SFC_INCONSISTENT_CONTENT :: u8 where "SFC_INCONSISTENT_CONTENT \<equiv> 18"
abbreviation (input) SFC_INSUFFICIENT_DEVICE_RESOURCES :: u8
  where "SFC_INSUFFICIENT_DEVICE_RESOURCES \<equiv> 27"
abbreviation (input) SFC_TIMEOUT :: u8 where "SFC_TIMEOUT \<equiv> 129"
abbreviation (input) SFC_ELEMENT_NOT_FOUND :: u8 where "SFC_ELEMENT_NOT_FOUND \<equiv> 132"
abbreviation (input) SFC_NO_CONTRACT :: u8 where "SFC_NO_CONTRACT \<equiv> 138"
abbreviation (input) SFC_NO_KEY :: u8 where "SFC_NO_KEY \<equiv> 139"

section \<open>Byte-addressed memory\<close>

text \<open>
  A pointer is an address; \<open>mem_bytes m a n\<close> is what \<^verbatim>\<open>memcpy\<close> of \<open>n\<close> bytes from \<open>a\<close> reads.
  \<open>holds m a bs\<close> says that the bytes \<open>bs\<close> stand in memory from \<open>a\<close> on.
\<close>

definition mem_bytes :: "mem \<Rightarrow> addr \<Rightarrow> nat \<Rightarrow> u8 list" where
  "mem_bytes m a n = map m [a..<a + n]"

fun holds :: "mem \<Rightarrow> addr \<Rightarrow> u8 list \<Rightarrow> bool" where
  "holds m a [] = True"
| "holds m a (b # bs) = (m a = b \<and> holds m (Suc a) bs)"

text \<open>The memory that starts with \<open>bs\<close> at address 0 and is \<open>z\<close> elsewhere.\<close>

definition mem_of :: "u8 list \<Rightarrow> mem" where
  "mem_of bs a = (if a < length bs then bs ! a else 0)"

lemma holds_append [simp]:
  "holds m a (xs @ ys) \<longleftrightarrow> holds m a xs \<and> holds m (a + length xs) ys"
  by (induction xs arbitrary: a) auto

lemma holds_iff_nth: "holds m a bs \<longleftrightarrow> (\<forall>k<length bs. m (a + k) = bs ! k)"
proof (induction bs arbitrary: a)
  case (Cons b bs)
  show ?case by (auto simp: Cons.IH less_Suc_eq_0_disj)
qed simp

lemma length_mem_bytes [simp]: "length (mem_bytes m a n) = n"
  by (simp add: mem_bytes_def)

lemma mem_bytes_0 [simp]: "mem_bytes m a 0 = []"
  by (simp add: mem_bytes_def)

lemma nth_mem_bytes [simp]: "k < n \<Longrightarrow> mem_bytes m a n ! k = m (a + k)"
  by (simp add: mem_bytes_def)

lemma mem_bytes_eq_iff_nth:
  "mem_bytes m a n = bs \<longleftrightarrow> length bs = n \<and> (\<forall>k<n. m (a + k) = bs ! k)"
  by (subst list_eq_iff_nth_eq) auto

lemma holds_iff_mem_bytes: "holds m a bs \<longleftrightarrow> mem_bytes m a (length bs) = bs"
  by (simp add: holds_iff_nth mem_bytes_eq_iff_nth)

lemma holds_mem_bytes_eq:
  "holds m a (mem_bytes m' a' n) \<longleftrightarrow> mem_bytes m a n = mem_bytes m' a' n"
  by (simp add: holds_iff_mem_bytes)

lemma mem_bytes_add: "mem_bytes m a (n + k) = mem_bytes m a n @ mem_bytes m (a + n) k"
  by (simp add: mem_bytes_eq_iff_nth nth_append)

lemma mem_bytes_cong:
  "(\<And>k. a \<le> k \<Longrightarrow> k < a + n \<Longrightarrow> m k = m' k) \<Longrightarrow> mem_bytes m a n = mem_bytes m' a n"
  by (simp add: mem_bytes_def)

lemma holds_mem_of: "holds (mem_of bs) 0 bs"
  by (simp add: holds_iff_nth mem_of_def)

lemma holds_mem_of_append: "holds (mem_of (xs @ ys)) (length xs) ys"
  by (simp add: holds_iff_nth mem_of_def nth_append)

text \<open>Two memories agree on an address range.\<close>

definition agree :: "mem \<Rightarrow> mem \<Rightarrow> addr \<Rightarrow> addr \<Rightarrow> bool" where
  "agree m m' a b \<longleftrightarrow> (\<forall>k. a \<le> k \<and> k < b \<longrightarrow> m k = m' k)"

lemma agreeD: "agree m m' a b \<Longrightarrow> a \<le> k \<Longrightarrow> k < b \<Longrightarrow> m' k = m k"
  by (simp add: agree_def)

lemma agree_sub: "agree m m' a b \<Longrightarrow> a \<le> c \<Longrightarrow> d \<le> b \<Longrightarrow> agree m m' c d"
  by (auto simp: agree_def)

lemma agree_sym: "agree m m' a b \<Longrightarrow> agree m' m a b"
  by (simp add: agree_def)

section \<open>Words\<close>

lemma bit_of_fitting:
  fixes x :: "'a::len word"
  assumes "take_bit n x = x" and "bit x k"
  shows "k < n"
proof -
  from assms have "bit (take_bit n x) k" by simp
  then show ?thesis by (simp add: bit_simps)
qed

lemma take_bit_eq_self_if_less:
  fixes x :: "'a::len word"
  assumes "x < 2 ^ n"
  shows "take_bit n x = x"
proof (cases "n < LENGTH('a)")
  case True
  then have "unat (word_of_nat (2 ^ n) :: 'a word) = 2 ^ n"
    by (simp only: unsigned_of_nat take_bit_nat_eq_self power_strict_increasing_iff one_less_numeral_iff
        semiring_norm of_nat_id)
  then have "unat ((2 :: 'a word) ^ n) = 2 ^ n" by simp
  with assms have "unat x < 2 ^ n" by (simp add: word_less_nat_alt)
  then show ?thesis
    by (simp add: word_unat_eq_iff unsigned_take_bit_eq take_bit_nat_eq_self)
next
  case False
  then show ?thesis by (simp add: take_bit_word_eq_self)
qed

text \<open>
  The bits of the masks the sources use. The simplifier moves \<open>bit\<close> of a word numeral to the integer
  numeral, so the facts are stated there.
\<close>

lemma bit_low_mask: "x + 1 = 2 ^ k \<Longrightarrow> bit (x :: int) n \<longleftrightarrow> n < k"
  by (metis add_diff_cancel_right' bit_mask_iff mask_eq_exp_minus_1 possible_bit_int)

lemma bit_0x80 [mask_bits]: "bit (0x80 :: int) n \<longleftrightarrow> n = 7"
  using bit_exp_iff [where ?'a = int, of 7 n] by (auto simp: possible_bit_def)

lemma bit_shifted_3: "x = push_bit k 3 \<Longrightarrow> bit (x :: int) n \<longleftrightarrow> n = k \<or> n = Suc k"
  using bit_low_mask [of 3 2 "n - k"] by (auto simp: bit_push_bit_iff)

lemma two_bit_masks [mask_bits]:
  shows "bit (0xC0 :: int) n \<longleftrightarrow> n = 6 \<or> n = 7" and "bit (0x60 :: int) n \<longleftrightarrow> n = 5 \<or> n = 6"
    and "bit (0x30 :: int) n \<longleftrightarrow> n = 4 \<or> n = 5" and "bit (0x0C :: int) n \<longleftrightarrow> n = 2 \<or> n = 3"
  using bit_shifted_3 [of "0xC0" 6 n] bit_shifted_3 [of "0x60" 5 n] bit_shifted_3 [of "0x30" 4 n]
    bit_shifted_3 [of "0x0C" 2 n] by simp_all

lemma low_mask_bits [mask_bits]:
  shows "bit (0x03 :: int) n \<longleftrightarrow> n < 2" and "bit (0x0F :: int) n \<longleftrightarrow> n < 4" and "bit (0x1F :: int) n \<longleftrightarrow> n < 5"
    and "bit (0x3F :: int) n \<longleftrightarrow> n < 6" and "bit (0xFF :: int) n \<longleftrightarrow> n < 8"
    and "bit (0x0FFF :: int) n \<longleftrightarrow> n < 12" and "bit (0x7FFF :: int) n \<longleftrightarrow> n < 15"
  by (rule bit_low_mask, simp)+

lemma bit_0x9F [mask_bits]: "bit (0x9F :: int) n \<longleftrightarrow> n < 5 \<or> n = 7"
proof -
  have "(0x9F :: int) = 0x80 OR 0x1F" by simp
  then show ?thesis by (simp only: bit_or_iff mask_bits) auto
qed

lemma and_0x80_zero_iff: "(x :: u8) AND 0x80 = 0 \<longleftrightarrow> \<not> bit x 7"
proof
  assume "x AND 0x80 = 0"
  then have "bit (x AND 0x80) 7 = bit (0 :: u8) 7" by (simp only:)
  then show "\<not> bit x 7" by (simp add: bit_and_iff mask_bits)
next
  assume "\<not> bit x 7"
  then show "x AND 0x80 = 0" by (intro bit_word_eqI) (auto simp: bit_and_iff mask_bits)
qed

lemma ucast_u16_u8_u16 [fit_simps]:
  fixes x :: u16
  assumes "x < 0x100"
  shows "ucast (ucast x :: u8) = x"
proof -
  have "take_bit 8 x = x" using assms by (intro take_bit_eq_self_if_less) simp
  then show ?thesis
    by (intro bit_word_eqI) (auto simp: bit_simps dest: bit_of_fitting)
qed

lemma join_bytes_u16 [wire_simps]:
  fixes w :: u16
  shows "push_bit 8 (ucast (ucast (drop_bit 8 w) :: u8)) OR ucast (ucast w :: u8) = w"
  by (rule bit_word_eqI) (auto simp: bit_simps)

lemma join_bytes_u32 [wire_simps]:
  fixes w :: u32
  shows "push_bit 24 (ucast (ucast (drop_bit 24 w) :: u8)) OR push_bit 16 (ucast (ucast (drop_bit 16 w) :: u8))
     OR push_bit 8 (ucast (ucast (drop_bit 8 w) :: u8)) OR ucast (ucast w :: u8) = w"
proof (rule bit_word_eqI)
  fix n assume "n < LENGTH(32)"
  then consider "n < 8" | "8 \<le> n" "n < 16" | "16 \<le> n" "n < 24" | "24 \<le> n" "n < 32"
    by fastforce
  then show "bit (push_bit 24 (ucast (ucast (drop_bit 24 w) :: u8) :: u32) OR
      push_bit 16 (ucast (ucast (drop_bit 16 w) :: u8)) OR push_bit 8 (ucast (ucast (drop_bit 8 w) :: u8))
      OR ucast (ucast w :: u8)) n = bit w n"
    by cases (auto simp: bit_simps)
qed

lemma split_join_u16 [wire_simps]:
  fixes a b :: u8
  shows "ucast (drop_bit 8 (push_bit 8 (ucast a :: u16) OR ucast b)) = a"
    and "ucast (push_bit 8 (ucast a :: u16) OR ucast b) = b"
  by (rule bit_word_eqI; auto simp: bit_simps dest: bit_imp_le_length)+

lemma split_join_u32 [wire_simps]:
  fixes a b c d :: u8
  defines "w \<equiv> push_bit 24 (ucast a) OR push_bit 16 (ucast b) OR push_bit 8 (ucast c) OR ucast d :: u32"
  shows "ucast (drop_bit 24 w) = a" and "ucast (drop_bit 16 w) = b"
    and "ucast (drop_bit 8 w) = c" and "ucast w = d"
  unfolding w_def by (rule bit_word_eqI; auto simp: bit_simps dest: bit_imp_le_length)+

lemma addr_numeral [wire_simps]:
  fixes a :: addr
  shows "a + 3 = Suc (Suc (Suc a))" and "a + 4 = Suc (Suc (Suc (Suc a)))"
    and "a + 5 = Suc (Suc (Suc (Suc (Suc a))))"
  by simp_all

lemma unat_u8_less: "unat (x :: u8) < 256"
  using unsigned_less [of x] by simp

lemma unat_u16_less: "unat (x :: u16) < 65536"
  using unsigned_less [of x] by simp

lemma u16_of_nat_le:
  assumes "n < 65536"
  shows "(word_of_nat n :: u16) \<le> w \<longleftrightarrow> n \<le> unat w"
  using assms by (simp add: word_le_nat_alt unat_of_nat take_bit_eq_mod)

lemma u16_less_nat: "(x :: u16) < y \<longleftrightarrow> unat x < unat y"
  by (simp add: word_less_nat_alt)

section \<open>Association lists as std::map\<close>

text \<open>
  A \<^verbatim>\<open>std::map\<close> is an association list with distinct keys; \<^verbatim>\<open>size()\<close> is its length. The order
  of the entries carries no meaning for the operations modelled.
\<close>

abbreviation keys_of :: "('k \<times> 'v) list \<Rightarrow> 'k list" where
  "keys_of al \<equiv> map fst al"

definition wf_alist :: "('k \<times> 'v) list \<Rightarrow> bool" where
  "wf_alist al \<longleftrightarrow> distinct (keys_of al)"

lemma wf_alist_Nil [simp]: "wf_alist []"
  by (simp add: wf_alist_def)

lemma wf_alist_update [intro]: "wf_alist al \<Longrightarrow> wf_alist (AList.update k v al)"
  by (simp add: wf_alist_def distinct_update)

lemma wf_alist_delete [intro]: "wf_alist al \<Longrightarrow> wf_alist (AList.delete k al)"
  by (simp add: wf_alist_def distinct_delete)

lemma length_alist_update:
  "wf_alist al \<Longrightarrow>
     length (AList.update k v al) = (if map_of al k = None then Suc (length al) else length al)"
proof (induction al)
  case (Cons x al)
  then show ?case by (cases x) (auto simp: wf_alist_def)
qed simp

lemma length_alist_delete:
  "wf_alist al \<Longrightarrow>
     length (AList.delete k al) = (if map_of al k = None then length al else length al - 1)"
proof (induction al)
  case (Cons x al)
  obtain k' v where x: "x = (k', v)" by (cases x)
  show ?case
  proof (cases "k' = k")
    case True
    with Cons.prems x have "map_of al k = None" by (simp add: wf_alist_def map_of_eq_None_iff)
    moreover from Cons.prems x have "wf_alist al" by (simp add: wf_alist_def)
    ultimately have "length (AList.delete k al) = length al" using Cons.IH by simp
    with True x show ?thesis by (simp add: AList.delete_eq)
  next
    case False
    moreover from Cons.prems x have wf: "wf_alist al" by (simp add: wf_alist_def)
    moreover have "map_of al k \<noteq> None \<Longrightarrow> 0 < length al" by (cases al) auto
    ultimately show ?thesis using Cons.IH x by (auto simp: AList.delete_eq)
  qed
qed simp

lemma length_alist_delete_le: "length (AList.delete k al) \<le> length al"
  by (simp add: AList.delete_eq)

lemma wf_alist_size_card: "wf_alist al \<Longrightarrow> length al = card (dom (map_of al))"
  using distinct_card [of "keys_of al"] by (simp add: wf_alist_def dom_map_of_conv_image_fst)

end
