(* ===== verification/Field_Codec.thy ===== *)
theory Field_Codec
  imports Isa_Prelude
begin

text \<open>
  The contract between the byte encoders of the stack (functions that append bytes to an output
  buffer) and its parsers (functions that read at a moving pointer). A codec promises that the
  parser recovers what the encoder wrote, that it always moves forward, and that its result
  depends only on the bytes it consumed. Prefix-freeness and parsing of whole sequences follow
  once and for all. The parsers of the services add a check against the length the caller gave;
  their contract is the locale \<open>bounded_parser\<close>.
\<close>

section \<open>Codecs of single fields\<close>

fun parse_seq :: "(mem \<Rightarrow> addr \<Rightarrow> 'a \<times> addr) \<Rightarrow> mem \<Rightarrow> addr \<Rightarrow> nat \<Rightarrow> 'a list \<times> addr" where
  "parse_seq ext m a 0 = ([], a)"
| "parse_seq ext m a (Suc n) =
     (let (x, b) = ext m a; (xs, c) = parse_seq ext m b n in (x # xs, c))"

locale field_codec =
  fixes ins :: "'a \<Rightarrow> u8 list"
    and ext :: "mem \<Rightarrow> addr \<Rightarrow> 'a \<times> addr"
    and ok :: "'a \<Rightarrow> bool"
  assumes ext_ins: "ok x \<Longrightarrow> holds m a (ins x) \<Longrightarrow> ext m a = (x, a + length (ins x))"
    and ext_progress: "a < snd (ext m a)"
    and ext_local: "agree m m' a (snd (ext m a)) \<Longrightarrow> ext m' a = ext m a"
begin

lemma ins_nonempty: "ok x \<Longrightarrow> ins x \<noteq> []"
  using ext_ins [of x "mem_of (ins x)" 0] ext_progress [of 0 "mem_of (ins x)"]
  by (auto simp: holds_mem_of)

lemma prefix_free:
  assumes "ok x" and "ok y" and "ins x @ u = ins y @ v"
  shows "x = y \<and> u = v"
proof -
  have "holds (mem_of (ins x @ u)) 0 (ins x @ u)" by (rule holds_mem_of)
  then have "ext (mem_of (ins x @ u)) 0 = (x, length (ins x))"
    using assms(1) ext_ins by fastforce
  moreover have "holds (mem_of (ins y @ v)) 0 (ins y @ v)" by (rule holds_mem_of)
  then have "ext (mem_of (ins y @ v)) 0 = (y, length (ins y))"
    using assms(2) ext_ins by fastforce
  ultimately show ?thesis using assms(3) by simp
qed

lemma parse_seq_ins:
  assumes "list_all ok xs" and "holds m a (concat (map ins xs))"
  shows "parse_seq ext m a (length xs) = (xs, a + length (concat (map ins xs)))"
  using assms
proof (induction xs arbitrary: a)
  case (Cons x xs)
  then have "ext m a = (x, a + length (ins x))" by (simp add: ext_ins)
  moreover have "parse_seq ext m (a + length (ins x)) (length xs) =
      (xs, a + length (ins x) + length (concat (map ins xs)))"
    using Cons by simp
  ultimately show ?case by simp
qed simp

end

section \<open>Parsers that check the caller's length\<close>

text \<open>
  Every \<^verbatim>\<open>ASLSRVC_get...Obj\<close> ends with the comparison
  \<^verbatim>\<open>(uint16)(p_pData - pDataStart) <= p_unDataLen\<close>; \<open>enough_bytes\<close> is that comparison, with the
  16-bit truncation, and the pointer or \<^verbatim>\<open>NULL\<close> that is returned.
\<close>

definition enough_bytes :: "addr \<Rightarrow> addr \<Rightarrow> u16 \<Rightarrow> addr option" where
  "enough_bytes pDataStart p_pData p_unDataLen =
     (if (word_of_nat (p_pData - pDataStart) :: u16) \<le> p_unDataLen then Some p_pData else None)"

lemma enough_bytes_eq:
  assumes "a \<le> b" and "b - a < 65536"
  shows "enough_bytes a b len = (if b \<le> a + unat len then Some b else None)"
proof -
  have "(word_of_nat (b - a) :: u16) \<le> len \<longleftrightarrow> b - a \<le> unat len"
    using assms(2) by (rule u16_of_nat_le)
  with assms(1) show ?thesis by (simp del: of_nat_diff add: enough_bytes_def) linarith
qed

locale bounded_parser =
  fixes get :: "mem \<Rightarrow> addr \<Rightarrow> u16 \<Rightarrow> 'o \<Rightarrow> 'o \<times> addr option"
  assumes get_within: "get m a len obj = (obj', Some b) \<Longrightarrow> a < b \<and> b \<le> a + unat len"
    and get_local: "get m a len obj = (obj', Some b) \<Longrightarrow> agree m m' a b \<Longrightarrow>
      get m' a len obj = (obj', Some b)"
    and get_longer: "get m a len obj = (obj', Some b) \<Longrightarrow> len \<le> len' \<Longrightarrow>
      get m a len' obj = (obj', Some b)"
begin

lemma zero_length_rejected: "snd (get m a 0 obj) = None"
proof (cases "get m a 0 obj")
  case (Pair obj' r)
  then show ?thesis using get_within [of m a 0 obj obj'] by (cases r) auto
qed

lemma stale_bytes_ignored:
  assumes "agree m m' a (a + unat len)" and "snd (get m a len obj) \<noteq> None"
  shows "get m' a len obj = get m a len obj"
proof -
  obtain obj' b where g: "get m a len obj = (obj', Some b)"
    using assms(2) by (cases "get m a len obj") auto
  then have "b \<le> a + unat len" using get_within by blast
  with assms(1) have "agree m m' a b" using agree_sub by blast
  then have "get m' a len obj = (obj', Some b)" by (rule get_local [OF g])
  with g show ?thesis by simp
qed

end

section \<open>Parsers as sequences of field readers\<close>

text \<open>
  Every statement of an \<^verbatim>\<open>ASLSRVC_get...Obj\<close> reads a field at the moving pointer and stores it in
  the object: a \<open>reader\<close>. A parser is a list of readers run one after the other and the length check
  at the end.
\<close>

type_synonym 'o reader = "mem \<Rightarrow> addr \<Rightarrow> 'o \<Rightarrow> 'o \<times> addr"

fun read_fields :: "'o reader list \<Rightarrow> 'o reader" where
  "read_fields [] m p x = (x, p)"
| "read_fields (r # rs) m p x = (let (x, p) = r m p x in read_fields rs m p x)"

definition get_object :: "'o reader list \<Rightarrow> mem \<Rightarrow> addr \<Rightarrow> u16 \<Rightarrow> 'o \<Rightarrow> 'o \<times> addr option" where
  "get_object rs m p_pData p_unDataLen p_pObj =
     (let (x, p) = read_fields rs m p_pData p_pObj in (x, enough_bytes p_pData p p_unDataLen))"

text \<open>\<open>r\<close> consumes between \<open>lo\<close> and \<open>hi\<close> bytes and depends on no others.\<close>

definition bounded_reader :: "nat \<Rightarrow> nat \<Rightarrow> 'o reader \<Rightarrow> bool" where
  "bounded_reader lo hi r \<longleftrightarrow> (\<forall>m p x y b. r m p x = (y, b) \<longrightarrow>
     p + lo \<le> b \<and> b \<le> p + hi \<and> (\<forall>m'. agree m m' p b \<longrightarrow> r m' p x = (y, b)))"

text \<open>On the bytes \<open>bs\<close>, \<open>r\<close> turns the object at \<open>x\<close> into \<open>f p x\<close> and consumes exactly \<open>bs\<close>.\<close>

definition reads :: "'o reader \<Rightarrow> u8 list \<Rightarrow> (addr \<Rightarrow> 'o \<Rightarrow> 'o) \<Rightarrow> bool" where
  "reads r bs f \<longleftrightarrow> (\<forall>m p x. holds m p bs \<longrightarrow> r m p x = (f p x, p + length bs))"

lemma bounded_readerI:
  assumes "\<And>m p x y b. r m p x = (y, b) \<Longrightarrow> p + lo \<le> b \<and> b \<le> p + hi"
    and "\<And>m m' p x y b. r m p x = (y, b) \<Longrightarrow> agree m m' p b \<Longrightarrow> r m' p x = (y, b)"
  shows "bounded_reader lo hi r"
  using assms unfolding bounded_reader_def by blast

lemma bounded_readerD:
  assumes "bounded_reader lo hi r" and "r m p x = (y, b)"
  shows "p + lo \<le> b" and "b \<le> p + hi" and "agree m m' p b \<Longrightarrow> r m' p x = (y, b)"
  using assms unfolding bounded_reader_def by blast+

lemma bounded_reader_Nil: "bounded_reader 0 0 (read_fields [])"
  by (rule bounded_readerI) auto

lemma bounded_reader_Cons:
  assumes r: "bounded_reader lo hi r" and rs: "bounded_reader lo' hi' (read_fields rs)"
  shows "bounded_reader (lo + lo') (hi + hi') (read_fields (r # rs))"
proof (rule bounded_readerI)
  fix m p x y b
  assume e: "read_fields (r # rs) m p x = (y, b)"
  obtain x1 p1 where 1: "r m p x = (x1, p1)" by fastforce
  with e have 2: "read_fields rs m p1 x1 = (y, b)" by simp
  show "p + (lo + lo') \<le> b \<and> b \<le> p + (hi + hi')"
    using bounded_readerD(1,2) [OF r 1] bounded_readerD(1,2) [OF rs 2] by linarith
next
  fix m m' p x y b
  assume e: "read_fields (r # rs) m p x = (y, b)" and ag: "agree m m' p b"
  obtain x1 p1 where 1: "r m p x = (x1, p1)" by fastforce
  with e have 2: "read_fields rs m p1 x1 = (y, b)" by simp
  have "p \<le> p1" "p1 \<le> b"
    using bounded_readerD(1) [OF r 1] bounded_readerD(1) [OF rs 2] by linarith+
  with ag have "agree m m' p p1" "agree m m' p1 b" by (auto elim: agree_sub)
  then have "r m' p x = (x1, p1)" "read_fields rs m' p1 x1 = (y, b)"
    using bounded_readerD(3) [OF r 1] bounded_readerD(3) [OF rs 2] by blast+
  then show "read_fields (r # rs) m' p x = (y, b)" by simp
qed

lemma reads_Nil: "reads (read_fields []) [] (\<lambda>p x. x)"
  by (simp add: reads_def)

lemma reads_Cons:
  assumes "reads r bs f" and "reads (read_fields rs) cs g"
  shows "reads (read_fields (r # rs)) (bs @ cs) (\<lambda>p x. g (p + length bs) (f p x))"
  using assms by (simp add: reads_def)

lemma reads_single: "reads r bs f \<Longrightarrow> reads (read_fields [r]) bs f"
  by (simp add: reads_def)

lemma get_object_bounded:
  assumes "bounded_reader lo hi (read_fields rs)" and "0 < lo" and "hi < 65536"
  shows "bounded_parser (get_object rs)"
proof
  fix m m' :: mem and a b :: addr and len len' :: u16 and x y
  assume g: "get_object rs m a len x = (y, Some b)"
  obtain z c where zc: "read_fields rs m a x = (z, c)" by fastforce
  have c: "a < c" "c - a < 65536"
    using bounded_readerD(1,2) [OF assms(1) zc] assms(2,3) by linarith+
  then have e: "enough_bytes a c l = (if c \<le> a + unat l then Some c else None)" for l
    by (intro enough_bytes_eq) simp_all
  from g zc e have yb: "y = z" "b = c" "c \<le> a + unat len"
    by (auto simp: get_object_def split: if_splits)
  show "a < b \<and> b \<le> a + unat len" using yb c by simp
  show "agree m m' a b \<Longrightarrow> get_object rs m' a len x = (y, Some b)"
    using bounded_readerD(3) [OF assms(1) zc] yb e by (simp add: get_object_def)
  show "len \<le> len' \<Longrightarrow> get_object rs m a len' x = (y, Some b)"
    using zc yb e [of len'] by (simp add: get_object_def word_le_nat_alt)
qed

lemma get_object_reads:
  assumes "reads (read_fields rs) bs f" and "holds m a bs" and "length bs \<le> unat len"
  shows "get_object rs m a len x = (f a x, Some (a + length bs))"
proof -
  have "length bs < 65536" using assms(3) unat_u16_less [of len] by linarith
  then have "enough_bytes a (a + length bs) len = Some (a + length bs)"
    using assms(3) by (subst enough_bytes_eq) simp_all
  then show ?thesis using assms(1,2) by (simp add: get_object_def reads_def)
qed

end
