(* ===== verification/Dmap_Utils.thy ===== *)
theory Dmap_Utils
  imports Field_Codec
begin

text \<open>
  \<^verbatim>\<open>dmap_utils.cpp\<close>: big-endian integers on the wire and the attribute tables through which the
  management objects (ASLMO, DSMO, \<^verbatim>\<open>...\<close>) are read and written. A read function returns the
  bytes it stores in the response buffer together with the size it leaves in \<^verbatim>\<open>*p_ucSize\<close>; a
  write function reads the request buffer in memory. \<^verbatim>\<open>m_pValue\<close> with its cast becomes the
  getter or setter of the attribute on the object's state \<open>'s\<close>; a write to \<^verbatim>\<open>const\<close> storage
  has no result (\<open>None\<close>).
\<close>

section \<open>Integers on the wire\<close>

definition DMAP_InsertUint32 :: "u32 \<Rightarrow> u8 list" where [codec_defs]:
  "DMAP_InsertUint32 v =
     [ucast (drop_bit 24 v), ucast (drop_bit 16 v), ucast (drop_bit 8 v), ucast v]"

definition DMAP_ExtractUint32 :: "mem \<Rightarrow> addr \<Rightarrow> u32 \<times> addr" where [codec_defs]:
  "DMAP_ExtractUint32 m p =
     (push_bit 24 (ucast (m p)) OR push_bit 16 (ucast (m (p + 1))) OR push_bit 8 (ucast (m (p + 2)))
        OR ucast (m (p + 3)), p + 4)"

definition DMAP_InsertUint16 :: "u16 \<Rightarrow> u8 list" where [codec_defs]:
  "DMAP_InsertUint16 v = [ucast (drop_bit 8 v), ucast v]"

definition DMAP_ExtractUint16 :: "mem \<Rightarrow> addr \<Rightarrow> u16 \<times> addr" where [codec_defs]:
  "DMAP_ExtractUint16 m p = (push_bit 8 (ucast (m p)) OR ucast (m (p + 1)), p + 2)"

definition DMAP_GetAlignedLength :: "u16 \<Rightarrow> u16" where
  "DMAP_GetAlignedLength p_unLen =
     (let unRemainder = p_unLen AND 3
      in if unRemainder \<noteq> 0 then p_unLen + (4 - unRemainder) else p_unLen)"

interpretation uint32_codec: field_codec DMAP_InsertUint32 DMAP_ExtractUint32 "\<lambda>_. True"
proof
  fix x :: u32 and m :: mem and a
  assume "holds m a (DMAP_InsertUint32 x)"
  then show "DMAP_ExtractUint32 m a = (x, a + length (DMAP_InsertUint32 x))"
    by (simp add: codec_defs wire_simps)
next
  fix m m' :: mem and a
  assume "agree m m' a (snd (DMAP_ExtractUint32 m a))"
  then show "DMAP_ExtractUint32 m' a = DMAP_ExtractUint32 m a"
    by (simp add: codec_defs agree_def)
qed (simp add: codec_defs)

interpretation uint16_codec: field_codec DMAP_InsertUint16 DMAP_ExtractUint16 "\<lambda>_. True"
proof
  fix x :: u16 and m :: mem and a
  assume "holds m a (DMAP_InsertUint16 x)"
  then show "DMAP_ExtractUint16 m a = (x, a + length (DMAP_InsertUint16 x))"
    by (simp add: codec_defs wire_simps)
next
  fix m m' :: mem and a
  assume "agree m m' a (snd (DMAP_ExtractUint16 m a))"
  then show "DMAP_ExtractUint16 m' a = DMAP_ExtractUint16 m a"
    by (simp add: codec_defs agree_def)
qed (simp add: codec_defs)

section \<open>Attribute accessors\<close>

record APP_ALERT_DESCRIPTOR =
  m_bAlertReportDisabled :: u8
  m_ucPriority :: u8

definition DMAP_EmptyReadFunc :: "u8 \<Rightarrow> u8 list \<times> u8" where
  "DMAP_EmptyReadFunc sz = ([], sz)"

definition DMAP_ReadUint8 :: "u8 \<Rightarrow> u8 \<Rightarrow> u8 list \<times> u8" where
  "DMAP_ReadUint8 v sz = ([v], sz)"

definition DMAP_WriteUint8 :: "mem \<Rightarrow> addr \<Rightarrow> u8" where
  "DMAP_WriteUint8 m p = m p"

definition DMAP_ReadUint16 :: "u16 \<Rightarrow> u8 \<Rightarrow> u8 list \<times> u8" where
  "DMAP_ReadUint16 v sz = ([ucast (drop_bit 8 v), ucast v], sz)"

definition DMAP_WriteUint16 :: "mem \<Rightarrow> addr \<Rightarrow> u16" where
  "DMAP_WriteUint16 m p = push_bit 8 (ucast (m p)) OR ucast (m (p + 1))"

definition DMAP_ReadUint32 :: "u32 \<Rightarrow> u8 \<Rightarrow> u8 list \<times> u8" where
  "DMAP_ReadUint32 v sz =
     ([ucast (drop_bit 24 v), ucast (drop_bit 16 v), ucast (drop_bit 8 v), ucast v], sz)"

definition DMAP_WriteUint32 :: "mem \<Rightarrow> addr \<Rightarrow> u32" where
  "DMAP_WriteUint32 m p =
     push_bit 24 (ucast (m p)) OR push_bit 16 (ucast (m (p + 1))) OR push_bit 8 (ucast (m (p + 2)))
       OR ucast (m (p + 3))"

definition DMAP_ReadAlertDescriptor :: "APP_ALERT_DESCRIPTOR \<Rightarrow> u8 \<Rightarrow> u8 list \<times> u8" where
  "DMAP_ReadAlertDescriptor d sz = ([m_bAlertReportDisabled d, m_ucPriority d], 2)"

definition DMAP_WriteAlertDescriptor :: "mem \<Rightarrow> addr \<Rightarrow> APP_ALERT_DESCRIPTOR" where
  "DMAP_WriteAlertDescriptor m p = \<lparr>m_bAlertReportDisabled = m p, m_ucPriority = m (p + 1)\<rparr>"

text \<open>The compressed form keeps "report enabled" in bit 7 and the priority in the low nibble.\<close>

definition DMAP_ReadCompressAlertDescriptor :: "u8 \<Rightarrow> u8 list \<times> u8" where
  "DMAP_ReadCompressAlertDescriptor v = ([if v AND 0x80 = 0 then 1 else 0, v AND 0x0F], 2)"

definition DMAP_WriteCompressAlertDescriptor :: "mem \<Rightarrow> addr \<Rightarrow> u8" where
  "DMAP_WriteCompressAlertDescriptor m p =
     (let v = m (p + 1) AND 0x0F in if m p = 0 then v OR 0x80 else v)"

section \<open>Attribute tables\<close>

record 's DMAP_FCT_STRUCT =
  m_ucSize :: u8
  m_pReadFct :: "'s \<Rightarrow> u8 \<Rightarrow> u8 list \<times> u8"
  m_pWriteFct :: "('s \<Rightarrow> mem \<Rightarrow> addr \<Rightarrow> 's option) option"

text \<open>
  \<^verbatim>\<open>DMAP_ReadAttr\<close> returns the feedback code and, on success, the bytes stored and the response
  size; the table index is checked against \<^verbatim>\<open>p_ucAttrNo\<close> first. \<^verbatim>\<open>DMAP_WriteAttr\<close> does not look
  at \<^verbatim>\<open>p_ucBufferSize\<close>.
\<close>

definition DMAP_ReadAttr ::
    "u16 \<Rightarrow> 's \<Rightarrow> 's DMAP_FCT_STRUCT list \<Rightarrow> u8 \<times> (u8 list \<times> u16) option" where
  "DMAP_ReadAttr p_unAttrID s tbl =
     (if p_unAttrID = 0 \<or> length tbl \<le> unat p_unAttrID then (SFC_INVALID_ATTRIBUTE, None)
      else let f = tbl ! unat p_unAttrID; (bs, ucSize) = m_pReadFct f s (m_ucSize f)
           in (SFC_SUCCESS, Some (bs, ucast ucSize)))"

datatype 's write_result = Written u8 's | Fault

definition DMAP_WriteAttr ::
    "u16 \<Rightarrow> u8 \<Rightarrow> mem \<Rightarrow> addr \<Rightarrow> 's \<Rightarrow> 's DMAP_FCT_STRUCT list \<Rightarrow> 's write_result" where
  "DMAP_WriteAttr p_unAttrID p_ucBufferSize m p_pucBuffer s tbl =
     (if p_unAttrID = 0 \<or> length tbl \<le> unat p_unAttrID then Written SFC_INVALID_ATTRIBUTE s
      else case m_pWriteFct (tbl ! unat p_unAttrID) of
             None \<Rightarrow> Written SFC_READ_ONLY_ATTRIBUTE s
           | Some w \<Rightarrow> (case w s m p_pucBuffer of
                 None \<Rightarrow> Fault
               | Some s' \<Rightarrow> Written SFC_SUCCESS s'))"

section \<open>Facts\<close>

lemma write_read_uint8 [wire_simps]: "holds m p (fst (DMAP_ReadUint8 v n)) \<Longrightarrow> DMAP_WriteUint8 m p = v"
  by (simp add: DMAP_ReadUint8_def DMAP_WriteUint8_def)

lemma write_read_uint16 [wire_simps]:
  "holds m p (fst (DMAP_ReadUint16 v n)) \<Longrightarrow> DMAP_WriteUint16 m p = v"
  by (simp add: DMAP_ReadUint16_def DMAP_WriteUint16_def join_bytes_u16)

lemma write_read_uint32 [wire_simps]:
  "holds m p (fst (DMAP_ReadUint32 v n)) \<Longrightarrow> DMAP_WriteUint32 m p = v"
  by (simp add: DMAP_ReadUint32_def DMAP_WriteUint32_def wire_simps)

lemma write_read_alert_descriptor [wire_simps]:
  "holds m p (fst (DMAP_ReadAlertDescriptor d n)) \<Longrightarrow> DMAP_WriteAlertDescriptor m p = d"
  by (simp add: DMAP_ReadAlertDescriptor_def DMAP_WriteAlertDescriptor_def)

lemma read_write_bytes [wire_simps]:
  "DMAP_ReadUint8 (DMAP_WriteUint8 m p) n = ([m p], n)"
  "DMAP_ReadUint16 (DMAP_WriteUint16 m p) n = ([m p, m (p + 1)], n)"
  "DMAP_ReadUint32 (DMAP_WriteUint32 m p) n = ([m p, m (p + 1), m (p + 2), m (p + 3)], n)"
  "DMAP_ReadAlertDescriptor (DMAP_WriteAlertDescriptor m p) n = ([m p, m (p + 1)], 2)"
  by (simp_all only: DMAP_ReadUint8_def DMAP_WriteUint8_def DMAP_ReadUint16_def DMAP_WriteUint16_def
      DMAP_ReadUint32_def DMAP_WriteUint32_def DMAP_ReadAlertDescriptor_def
      DMAP_WriteAlertDescriptor_def split_join_u16 split_join_u32 APP_ALERT_DESCRIPTOR.simps)

text \<open>
  Reading a compressed descriptor back after it was written gives the two bytes that were written
  whenever they are in the range the object model allows (a boolean and a priority of four bits).
\<close>

lemma read_write_compressed:
  assumes "m p \<le> 1" and "m (p + 1) < 0x10"
  shows "DMAP_ReadCompressAlertDescriptor (DMAP_WriteCompressAlertDescriptor m p) =
     ([m p, m (p + 1)], 2)"
proof -
  have "take_bit 4 (m (p + 1)) = m (p + 1)"
    using assms(2) by (intro take_bit_eq_self_if_less) simp
  moreover have "(0x0F :: u8) = mask 4" by (simp add: mask_eq_exp_minus_1)
  ultimately have pr: "m (p + 1) AND 0x0F = m (p + 1)" by (simp add: take_bit_eq_mask)
  have z: "m (p + 1) AND 0x80 = 0"
    using \<open>take_bit 4 (m (p + 1)) = m (p + 1)\<close> by (auto simp: and_0x80_zero_iff dest: bit_of_fitting)
  have "m p = 0 \<or> m p = 1" using assms(1) by (metis word_le_0_iff order_le_less linorder_not_less word_less_1)
  then show ?thesis
    using pr z
    by (auto simp: DMAP_ReadCompressAlertDescriptor_def DMAP_WriteCompressAlertDescriptor_def
        bit.conj_disj_distrib2)
qed

lemma aligned_length_eq:
  assumes "unat p_unLen \<le> 65532"
  shows "unat (DMAP_GetAlignedLength p_unLen) = 4 * ((unat p_unLen + 3) div 4)"
proof -
  have m3: "(3 :: u16) = mask 2" by (simp add: mask_eq_exp_minus_1)
  have "unat (take_bit 2 p_unLen) = take_bit 2 (unat p_unLen)"
    by (simp add: unsigned_take_bit_eq)
  then have rem: "unat (p_unLen AND 3) = unat p_unLen mod 4"
    by (simp only: m3 take_bit_eq_mask [symmetric]) (simp add: take_bit_eq_mod)
  show ?thesis
  proof (cases "p_unLen AND 3 = 0")
    case True
    then have "unat p_unLen mod 4 = 0" using rem by simp
    moreover have "(n::nat) mod 4 = 0 \<Longrightarrow> 4 * ((n + 3) div 4) = n" for n by presburger
    ultimately show ?thesis using True by (simp add: DMAP_GetAlignedLength_def)
  next
    case False
    let ?r = "unat p_unLen mod 4"
    have r: "?r < 4" "?r \<noteq> 0" using False rem by (auto simp: unat_eq_0 [symmetric])
    have "unat (4 - (p_unLen AND 3)) = 4 - ?r"
      using r rem by (subst unat_sub) (simp_all add: word_le_nat_alt)
    moreover have "unat p_unLen + (4 - ?r) < 65536" using assms r by linarith
    ultimately have "unat (p_unLen + (4 - (p_unLen AND 3))) = unat p_unLen + (4 - ?r)"
      by (simp add: unat_plus_if_size word_size)
    moreover have "(n::nat) mod 4 \<noteq> 0 \<Longrightarrow> n + (4 - n mod 4) = 4 * ((n + 3) div 4)" for n
      by presburger
    ultimately show ?thesis using False r by (simp add: DMAP_GetAlignedLength_def Let_def)
  qed
qed

end
