(* ===== verification/Asl_Fields.thy ===== *)
theory Asl_Fields
  imports Dmap_Utils
begin

text \<open>
  The three field formats every ASL service is made of (\<^verbatim>\<open>aslsrvc.cpp\<close>): the APDU header with its
  object-identifier addressing modes, the extensible value (one octet below 128, else two) and the
  extensible attribute identifier (6 or 12 bits, with up to two indices).
\<close>

section \<open>Constants (aslde.h)\<close>

abbreviation (input) SRVC_REQUEST :: u8 where "SRVC_REQUEST \<equiv> 0"
abbreviation (input) SRVC_RESPONSE :: u8 where "SRVC_RESPONSE \<equiv> 1"
abbreviation (input) SRVC_TYPE_PUBLISH :: u8 where "SRVC_TYPE_PUBLISH \<equiv> 0"
abbreviation (input) SRVC_TYPE_ALERT_REP :: u8 where "SRVC_TYPE_ALERT_REP \<equiv> 1"
abbreviation (input) SRVC_TYPE_ALERT_ACK :: u8 where "SRVC_TYPE_ALERT_ACK \<equiv> 2"
abbreviation (input) SRVC_TYPE_READ :: u8 where "SRVC_TYPE_READ \<equiv> 3"
abbreviation (input) SRVC_TYPE_WRITE :: u8 where "SRVC_TYPE_WRITE \<equiv> 4"
abbreviation (input) SRVC_TYPE_EXECUTE :: u8 where "SRVC_TYPE_EXECUTE \<equiv> 5"
abbreviation (input) SRVC_TYPE_TUNNEL :: u8 where "SRVC_TYPE_TUNNEL \<equiv> 6"
abbreviation (input) OID_COMPACT :: u8 where "OID_COMPACT \<equiv> 0"
abbreviation (input) OID_MID_SIZE :: u8 where "OID_MID_SIZE \<equiv> 1"
abbreviation (input) OID_FULL_SIZE :: u8 where "OID_FULL_SIZE \<equiv> 2"
abbreviation (input) ATTR_NO_INDEX :: u8 where "ATTR_NO_INDEX \<equiv> 0"
abbreviation (input) ATTR_ONE_INDEX :: u8 where "ATTR_ONE_INDEX \<equiv> 1"
abbreviation (input) ATTR_TWO_INDEX :: u8 where "ATTR_TWO_INDEX \<equiv> 2"

section \<open>Extensible values\<close>

definition ASLSRVC_insertExtensibleValue :: "u16 \<Rightarrow> u8 list" where [codec_defs]:
  "ASLSRVC_insertExtensibleValue p_unValue =
     (if 0x80 \<le> p_unValue then [ucast (drop_bit 8 p_unValue) OR 0x80, ucast p_unValue]
      else [ucast p_unValue])"

definition ASLSRVC_extractExtensibleValue :: "mem \<Rightarrow> addr \<Rightarrow> u16 \<times> addr" where [codec_defs]:
  "ASLSRVC_extractExtensibleValue m p =
     (if m p AND 0x80 = 0 then (ucast (m p), p + 1)
      else ((push_bit 8 (ucast (m p)) OR ucast (m (p + 1))) AND 0x7FFF, p + 2))"

lemma ext_value_roundtrip:
  assumes "v \<le> 0x7FFF" and "holds m a (ASLSRVC_insertExtensibleValue v)"
  shows "ASLSRVC_extractExtensibleValue m a = (v, a + length (ASLSRVC_insertExtensibleValue v))"
proof (cases "0x80 \<le> v")
  case True
  have v: "take_bit 15 v = v"
    using assms(1) by (intro take_bit_eq_self_if_less) (simp add: word_le_nat_alt word_less_nat_alt)
  from True assms(2) have "m a = ucast (drop_bit 8 v) OR 0x80" and "m (Suc a) = ucast v"
    by (simp_all add: ASLSRVC_insertExtensibleValue_def)
  moreover have "(push_bit 8 (ucast (ucast (drop_bit 8 v) OR 0x80 :: u8)) OR ucast (ucast v :: u8)) AND 0x7FFF = v"
    by (rule bit_word_eqI) (use v in \<open>auto simp: bit_simps mask_bits dest: bit_of_fitting\<close>)
  ultimately show ?thesis
    using True by (simp add: codec_defs and_0x80_zero_iff bit_or_iff)
next
  case False
  then have "v < 2 ^ 7" by simp
  then have v: "take_bit 7 v = v" by (rule take_bit_eq_self_if_less)
  from False assms(2) have m: "m a = ucast v"
    by (simp add: ASLSRVC_insertExtensibleValue_def)
  have "\<not> bit (ucast v :: u8) 7" using v by (auto simp: bit_simps dest: bit_of_fitting)
  moreover have "ucast (ucast v :: u8) = v"
    by (rule bit_word_eqI) (use v in \<open>auto simp: bit_simps dest: bit_of_fitting\<close>)
  ultimately show ?thesis using False m by (simp add: codec_defs and_0x80_zero_iff)
qed

lemma extract_value_bounds:
  "ASLSRVC_extractExtensibleValue m a = (v, b) \<Longrightarrow> a < b \<and> b \<le> a + 2 \<and> v \<le> 0x7FFF"
proof -
  assume e: "ASLSRVC_extractExtensibleValue m a = (v, b)"
  have "(x :: u16) AND 0x7FFF \<le> 0x7FFF" for x by (rule word_and_le1)
  moreover have "ucast (m a) \<le> (0x7FFF :: u16)"
    using unat_u8_less [of "m a"] by (simp add: word_le_nat_alt unsigned_ucast_eq take_bit_nat_eq_self)
  ultimately show ?thesis using e by (auto simp: codec_defs split: if_splits)
qed

lemma extract_value_local:
  "ASLSRVC_extractExtensibleValue m a = (v, b) \<Longrightarrow> agree m m' a b \<Longrightarrow>
     ASLSRVC_extractExtensibleValue m' a = (v, b)"
  by (auto simp: codec_defs agree_def split: if_splits)

interpretation ext_value: field_codec ASLSRVC_insertExtensibleValue ASLSRVC_extractExtensibleValue
  "\<lambda>v. v \<le> 0x7FFF"
proof
  show "a < snd (ASLSRVC_extractExtensibleValue m a)" for m a
    using extract_value_bounds by (cases "ASLSRVC_extractExtensibleValue m a") auto
  show "agree m m' a (snd (ASLSRVC_extractExtensibleValue m a)) \<Longrightarrow>
      ASLSRVC_extractExtensibleValue m' a = ASLSRVC_extractExtensibleValue m a" for m m' a
    using extract_value_local [of m a, OF prod.collapse [symmetric]] by simp
qed (rule ext_value_roundtrip)

section \<open>The APDU header\<close>

text \<open>
  Bit 7 of the first octet is the primitive, bits 6 and 5 the addressing mode, bits 4 to 0 the
  service type. In the inferred mode the parser leaves the identifiers it was given.
\<close>

definition ASLSRVC_insertAPDUHeader :: "u8 \<Rightarrow> u8 \<Rightarrow> u16 \<Rightarrow> u16 \<Rightarrow> u8 list" where [codec_defs]:
  "ASLSRVC_insertAPDUHeader p_ucSrvPrimitive p_ucSrvType p_unSrcOID p_unDstOID =
     (let b = push_bit 7 p_ucSrvPrimitive OR p_ucSrvType
      in if p_unSrcOID < 0x000F \<and> p_unDstOID < 0x000F then
           [b OR push_bit 5 OID_COMPACT, ucast (push_bit 4 p_unSrcOID OR p_unDstOID)]
         else if p_unSrcOID < 0x00FF \<and> p_unDstOID < 0x00FF then
           [b OR push_bit 5 OID_MID_SIZE, ucast p_unSrcOID, ucast p_unDstOID]
         else
           [b OR push_bit 5 OID_FULL_SIZE, ucast (drop_bit 8 p_unSrcOID), ucast p_unSrcOID,
            ucast (drop_bit 8 p_unDstOID), ucast p_unDstOID])"

definition ASLSRVC_extractAPDUHeader :: "u16 \<times> u16 \<Rightarrow> mem \<Rightarrow> addr \<Rightarrow> (u16 \<times> u16) \<times> addr"
    where [codec_defs]:
  "ASLSRVC_extractAPDUHeader old m p =
     (let ucOIDMode = drop_bit 5 (m p AND 0x60); p = p + 1
      in if ucOIDMode = OID_COMPACT then
           ((ucast (drop_bit 4 (m p)), ucast (m p AND 0x0F)), p + 1)
         else if ucOIDMode = OID_MID_SIZE then
           ((ucast (m p), ucast (m (p + 1))), p + 2)
         else if ucOIDMode = OID_FULL_SIZE then
           ((push_bit 8 (ucast (m p)) OR ucast (m (p + 1)),
             push_bit 8 (ucast (m (p + 2))) OR ucast (m (p + 3))), p + 4)
         else (old, p))"

lemma header_octet_mode:
  fixes prim ty mode :: u8
  assumes "ty < 0x20" and "mode < 4"
  shows "drop_bit 5 ((push_bit 7 prim OR ty OR push_bit 5 mode) AND 0x60) = mode"
proof (rule bit_word_eqI)
  fix n assume "n < LENGTH(8)"
  have t: "take_bit 5 ty = ty" and md: "take_bit 2 mode = mode"
    using assms by (auto intro!: take_bit_eq_self_if_less)
  show "bit (drop_bit 5 ((push_bit 7 prim OR ty OR push_bit 5 mode) AND 0x60)) n = bit mode n"
    using t md by (auto simp: bit_simps mask_bits dest: bit_of_fitting)
qed

lemma header_octet_type:
  fixes prim ty mode :: u8
  assumes "ty < 0x20" and "mode < 4"
  shows "(push_bit 7 prim OR ty OR push_bit 5 mode) AND 0x9F = push_bit 7 prim OR ty"
proof (rule bit_word_eqI)
  fix n assume n: "n < LENGTH(8)"
  have t: "take_bit 5 ty = ty" and md: "take_bit 2 mode = mode"
    using assms by (auto intro!: take_bit_eq_self_if_less)
  show "bit ((push_bit 7 prim OR ty OR push_bit 5 mode) AND 0x9F) n = bit (push_bit 7 prim OR ty) n"
    using t md n by (auto simp: bit_simps mask_bits dest: bit_of_fitting)
qed

lemma compact_oids:
  fixes s d :: u16
  assumes "s < 0xF" and "d < 0xF"
  defines "b \<equiv> ucast (push_bit 4 s OR d) :: u8"
  shows "ucast (drop_bit 4 b) = s" and "ucast (b AND 0x0F) = d"
proof -
  have s: "take_bit 4 s = s" and d: "take_bit 4 d = d"
    using assms(1,2) by (auto intro!: take_bit_eq_self_if_less simp: word_less_nat_alt)
  show "ucast (drop_bit 4 b) = s"
    by (rule bit_word_eqI) (use s d in \<open>auto simp: b_def bit_simps mask_bits dest: bit_of_fitting\<close>)
  show "ucast (b AND 0x0F) = d"
    by (intro bit_word_eqI) (use s d in \<open>auto simp: b_def bit_simps mask_bits dest: bit_of_fitting\<close>)
qed

lemma header_roundtrip:
  assumes ty: "ty < 0x20" and h: "holds m a (ASLSRVC_insertAPDUHeader prim ty s d)"
  shows "ASLSRVC_extractAPDUHeader old m a =
     ((s, d), a + length (ASLSRVC_insertAPDUHeader prim ty s d))"
proof -
  note mode = header_octet_mode [OF ty, of _ prim]
  consider "s < 0xF \<and> d < 0xF" | "\<not> (s < 0xF \<and> d < 0xF)" "s < 0xFF \<and> d < 0xFF"
    | "\<not> (s < 0xF \<and> d < 0xF)" "\<not> (s < 0xFF \<and> d < 0xFF)" by blast
  then show ?thesis
  proof cases
    case 1
    with h have "m a = push_bit 7 prim OR ty OR push_bit 5 0" "m (Suc a) = ucast (push_bit 4 s OR d)"
      by (simp_all add: ASLSRVC_insertAPDUHeader_def Let_def)
    with 1 mode [of 0] show ?thesis by (simp add: codec_defs Let_def compact_oids)
  next
    case 2
    have "s < 0x100" "d < 0x100" using 2 by (auto simp: word_less_nat_alt)
    moreover from 2 h have "m a = push_bit 7 prim OR ty OR push_bit 5 1" "m (Suc a) = ucast s"
      "m (Suc (Suc a)) = ucast d"
      by (auto simp: ASLSRVC_insertAPDUHeader_def Let_def or.assoc)
    ultimately show ?thesis using 2 mode [of 1] by (auto simp: codec_defs Let_def fit_simps)
  next
    case 3
    with h have "m a = push_bit 7 prim OR ty OR push_bit 5 2"
      "m (Suc a) = ucast (drop_bit 8 s)" "m (Suc (Suc a)) = ucast s"
      "m (Suc (Suc (Suc a))) = ucast (drop_bit 8 d)" "m (Suc (Suc (Suc (Suc a)))) = ucast d"
      by (auto simp: ASLSRVC_insertAPDUHeader_def Let_def or.assoc)
    with 3 mode [of 2] show ?thesis by (auto simp: codec_defs Let_def wire_simps)
  qed
qed

lemma extract_header_bounds:
  "ASLSRVC_extractAPDUHeader old m a = (x, b) \<Longrightarrow> a < b \<and> b \<le> a + 5"
  by (auto simp: codec_defs Let_def split: if_splits)

lemma extract_header_local:
  "ASLSRVC_extractAPDUHeader old m a = (x, b) \<Longrightarrow> agree m m' a b \<Longrightarrow>
     ASLSRVC_extractAPDUHeader old m' a = (x, b)"
  by (auto simp: codec_defs Let_def agree_def split: if_splits)

interpretation apdu_header: field_codec
  "\<lambda>(s, d). ASLSRVC_insertAPDUHeader prim (ty AND 0x1F) s d"
  "ASLSRVC_extractAPDUHeader old" "\<lambda>_. True" for prim ty :: u8 and old
proof
  have "ty AND 0x1F < 0x20" using word_and_le1 [of ty "0x1F"] by (rule le_less_trans) simp
  then show "holds m a (case x of (s, d) \<Rightarrow> ASLSRVC_insertAPDUHeader prim (ty AND 0x1F) s d) \<Longrightarrow>
      ASLSRVC_extractAPDUHeader old m a =
        (x, a + length (case x of (s, d) \<Rightarrow> ASLSRVC_insertAPDUHeader prim (ty AND 0x1F) s d))" for x m a
    by (cases x) (simp add: header_roundtrip)
  show "a < snd (ASLSRVC_extractAPDUHeader old m a)" for m a
    using extract_header_bounds by (cases "ASLSRVC_extractAPDUHeader old m a") auto
  show "agree m m' a (snd (ASLSRVC_extractAPDUHeader old m a)) \<Longrightarrow>
      ASLSRVC_extractAPDUHeader old m' a = ASLSRVC_extractAPDUHeader old m a" for m m' a
    using extract_header_local [of old m a, OF prod.collapse [symmetric]] by simp
qed

lemma insert_header_first:
  assumes "ty < 0x20"
  shows "\<exists>b bs. ASLSRVC_insertAPDUHeader prim ty s d = b # bs \<and> b AND 0x9F = push_bit 7 prim OR ty"
  using header_octet_type [OF assms, of 0 prim] header_octet_type [OF assms, of 1 prim]
    header_octet_type [OF assms, of 2 prim]
  by (simp add: ASLSRVC_insertAPDUHeader_def Let_def or.assoc)

lemma insert_header_length: "length (ASLSRVC_insertAPDUHeader prim ty s d) \<le> 5"
  by (simp add: ASLSRVC_insertAPDUHeader_def Let_def)

section \<open>Attribute identifiers\<close>

record ATTR_IDTF =
  m_ucAttrFormat :: u8
  m_unAttrID :: u16
  m_unIndex1 :: u16
  m_unIndex2 :: u16

definition ASLSRVC_insertAID :: "ATTR_IDTF \<Rightarrow> u8 list option" where
  "ASLSRVC_insertAID x =
     (if 0x0FFF < m_unAttrID x then None
      else if ATTR_NO_INDEX < m_ucAttrFormat x \<and> 0x7FFF < m_unIndex1 x then None
      else if m_ucAttrFormat x = ATTR_TWO_INDEX \<and> 0x7FFF < m_unIndex2 x then None
      else let ucTwelveBitID = \<not> m_unAttrID x \<le> 0x003F; i = m_unAttrID x
           in Some (if m_ucAttrFormat x = ATTR_NO_INDEX then
                      (if ucTwelveBitID then [ucast (drop_bit 8 i) OR 0xC0, ucast i] else [ucast i])
                    else if m_ucAttrFormat x = ATTR_ONE_INDEX then
                      (if ucTwelveBitID then [ucast (drop_bit 8 i) OR 0xD0, ucast i] else [ucast i OR 0x40])
                      @ ASLSRVC_insertExtensibleValue (m_unIndex1 x)
                    else if m_ucAttrFormat x = ATTR_TWO_INDEX then
                      (if ucTwelveBitID then [ucast (drop_bit 8 i) OR 0xE0, ucast i] else [ucast i OR 0x80])
                      @ ASLSRVC_insertExtensibleValue (m_unIndex1 x)
                      @ ASLSRVC_insertExtensibleValue (m_unIndex2 x)
                    else []))"

text \<open>
  The two groups of indices that follow an identifier; the parser leaves \<^verbatim>\<open>m_ucAttrFormat\<close> and the
  indices that are absent as it found them.
\<close>

definition extract_one_index :: "mem \<Rightarrow> addr \<Rightarrow> ATTR_IDTF \<Rightarrow> ATTR_IDTF \<times> addr" where
  "extract_one_index m p x =
     (let (v, p) = ASLSRVC_extractExtensibleValue m p in (x\<lparr>m_unIndex1 := v\<rparr>, p))"

definition extract_two_index :: "mem \<Rightarrow> addr \<Rightarrow> ATTR_IDTF \<Rightarrow> ATTR_IDTF \<times> addr" where
  "extract_two_index m p x =
     (let (v, p) = ASLSRVC_extractExtensibleValue m p; (w, p) = ASLSRVC_extractExtensibleValue m p
      in (x\<lparr>m_unIndex1 := v, m_unIndex2 := w\<rparr>, p))"

definition ASLSRVC_extractAID :: "ATTR_IDTF \<Rightarrow> mem \<Rightarrow> addr \<Rightarrow> ATTR_IDTF \<times> addr" where
  "ASLSRVC_extractAID x m p =
     (let ucAttrForm = drop_bit 6 (m p); x6 = x\<lparr>m_unAttrID := ucast (m p AND 0x3F)\<rparr>
      in if ucAttrForm = 0 then (x6, p + 1)
         else if ucAttrForm = 1 then extract_one_index m (p + 1) x6
         else if ucAttrForm = 2 then extract_two_index m (p + 1) x6
         else let ucAIDForm = drop_bit 4 (m p AND 0x30);
                  x12 = x\<lparr>m_unAttrID := push_bit 8 (ucast (m p AND 0x0F)) OR ucast (m (p + 1))\<rparr>
              in if ucAIDForm = 0 then (x12, p + 2)
                 else if ucAIDForm = 1 then extract_one_index m (p + 2) x12
                 else if ucAIDForm = 2 then extract_two_index m (p + 2) x12
                 else (x12\<lparr>m_unAttrID := 0\<rparr>, p + 2))"

text \<open>What a parser that was given \<open>old\<close> holds after reading the identifier \<open>x\<close>.\<close>

definition aid_read :: "ATTR_IDTF \<Rightarrow> ATTR_IDTF \<Rightarrow> ATTR_IDTF" where
  "aid_read old x = old\<lparr>m_unAttrID := m_unAttrID x,
     m_unIndex1 := (if m_ucAttrFormat x = ATTR_NO_INDEX then m_unIndex1 old else m_unIndex1 x),
     m_unIndex2 := (if m_ucAttrFormat x = ATTR_TWO_INDEX then m_unIndex2 x else m_unIndex2 old)\<rparr>"

definition wf_aid :: "ATTR_IDTF \<Rightarrow> bool" where
  "wf_aid x \<longleftrightarrow> m_ucAttrFormat x \<le> ATTR_TWO_INDEX \<and> m_unAttrID x \<le> 0x0FFF \<and>
     (m_ucAttrFormat x \<noteq> ATTR_NO_INDEX \<longrightarrow> m_unIndex1 x \<le> 0x7FFF) \<and>
     (m_ucAttrFormat x = ATTR_TWO_INDEX \<longrightarrow> m_unIndex2 x \<le> 0x7FFF)"

lemma u8_le_2_cases: "(f :: u8) \<le> 2 \<longleftrightarrow> f = 0 \<or> f = 1 \<or> f = 2"
  by (auto simp: word_le_nat_alt word_unat_eq_iff)

lemma insertAID_Some_iff: "m_ucAttrFormat x \<le> ATTR_TWO_INDEX \<Longrightarrow> ASLSRVC_insertAID x \<noteq> None \<longleftrightarrow> wf_aid x"
  by (auto simp: ASLSRVC_insertAID_def wf_aid_def u8_le_2_cases Let_def)

lemma aid_octet6:
  fixes i :: u16 and t :: u8
  assumes "i \<le> 0x3F" and "t < 4"
  shows "drop_bit 6 (ucast i OR push_bit 6 t :: u8) = t"
    and "ucast ((ucast i OR push_bit 6 t :: u8) AND 0x3F) = i"
proof -
  have i: "take_bit 6 i = i" and t: "take_bit 2 t = t"
    using assms by (auto intro!: take_bit_eq_self_if_less simp: word_less_nat_alt word_le_nat_alt)
  show "drop_bit 6 (ucast i OR push_bit 6 t :: u8) = t"
    by (rule bit_word_eqI) (use i t in \<open>auto simp: bit_simps dest: bit_of_fitting\<close>)
  show "ucast ((ucast i OR push_bit 6 t :: u8) AND 0x3F) = i"
    by (rule bit_word_eqI) (use i t in \<open>auto simp: bit_simps mask_bits dest: bit_of_fitting\<close>)
qed

lemma aid_octet12:
  fixes i :: u16 and t :: u8
  assumes "i \<le> 0xFFF" and "t < 4"
  defines "b \<equiv> ucast (drop_bit 8 i) OR (0xC0 OR push_bit 4 t) :: u8"
  shows "drop_bit 6 b = 3" and "drop_bit 4 (b AND 0x30) = t"
    and "push_bit 8 (ucast (b AND 0x0F)) OR ucast (ucast i :: u8) = i"
proof -
  have i: "take_bit 12 i = i" and t: "take_bit 2 t = t"
    using assms(1,2) by (auto intro!: take_bit_eq_self_if_less simp: word_less_nat_alt word_le_nat_alt)
  show "drop_bit 6 b = 3"
    by (rule bit_word_eqI) (use i t in \<open>auto simp: b_def bit_simps mask_bits dest: bit_of_fitting\<close>)
  show "drop_bit 4 (b AND 0x30) = t"
    by (rule bit_word_eqI) (use i t in \<open>auto simp: b_def bit_simps mask_bits dest: bit_of_fitting\<close>)
  show "push_bit 8 (ucast (b AND 0x0F)) OR ucast (ucast i :: u8) = i"
    by (rule bit_word_eqI) (use i t in \<open>auto simp: b_def bit_simps mask_bits dest: bit_of_fitting\<close>)
qed

lemma insertAID_octets:
  assumes "ASLSRVC_insertAID x = Some bs" and "m_ucAttrFormat x \<le> ATTR_TWO_INDEX"
  shows "bs = (if m_unAttrID x \<le> 0x3F then [ucast (m_unAttrID x) OR push_bit 6 (m_ucAttrFormat x)]
       else [ucast (drop_bit 8 (m_unAttrID x)) OR (0xC0 OR push_bit 4 (m_ucAttrFormat x)),
             ucast (m_unAttrID x)])
     @ (if m_ucAttrFormat x = ATTR_NO_INDEX then [] else ASLSRVC_insertExtensibleValue (m_unIndex1 x))
     @ (if m_ucAttrFormat x = ATTR_TWO_INDEX then ASLSRVC_insertExtensibleValue (m_unIndex2 x) else [])"
  using assms by (auto simp: ASLSRVC_insertAID_def u8_le_2_cases Let_def split: if_splits)

text \<open>
  Both the short and the long form end in the same group of indices; \<open>extract_by_format\<close> and
  \<open>index_octets\<close> name it for the proofs.
\<close>

definition extract_by_format :: "u8 \<Rightarrow> mem \<Rightarrow> addr \<Rightarrow> ATTR_IDTF \<Rightarrow> ATTR_IDTF \<times> addr" where
  "extract_by_format f m p x =
     (if f = 0 then (x, p) else if f = 1 then extract_one_index m p x
      else if f = 2 then extract_two_index m p x else (x\<lparr>m_unAttrID := 0\<rparr>, p))"

definition index_octets :: "ATTR_IDTF \<Rightarrow> u8 list" where
  "index_octets x =
     (if m_ucAttrFormat x = ATTR_NO_INDEX then [] else ASLSRVC_insertExtensibleValue (m_unIndex1 x))
     @ (if m_ucAttrFormat x = ATTR_TWO_INDEX then ASLSRVC_insertExtensibleValue (m_unIndex2 x) else [])"

lemma extract_by_format_octets:
  assumes "wf_aid x" and "holds m p (index_octets x)"
  shows "extract_by_format (m_ucAttrFormat x) m p (old\<lparr>m_unAttrID := m_unAttrID x\<rparr>) =
     (aid_read old x, p + length (index_octets x))"
proof -
  have "m_ucAttrFormat x = 0 \<or> m_ucAttrFormat x = 1 \<or> m_ucAttrFormat x = 2"
    using assms(1) by (simp add: wf_aid_def u8_le_2_cases)
  then show ?thesis using assms ext_value_roundtrip [of "m_unIndex1 x" m p]
      ext_value_roundtrip [of "m_unIndex2 x" m "p + length (ASLSRVC_insertExtensibleValue (m_unIndex1 x))"]
    by (elim disjE) (simp_all add: extract_by_format_def index_octets_def aid_read_def wf_aid_def
        extract_one_index_def extract_two_index_def)
qed

lemma extractAID_short:
  assumes "drop_bit 6 (m a) < 3"
  shows "ASLSRVC_extractAID x m a =
     extract_by_format (drop_bit 6 (m a)) m (a + 1) (x\<lparr>m_unAttrID := ucast (m a AND 0x3F)\<rparr>)"
proof -
  have "(w :: u8) < 3 \<Longrightarrow> w = 0 \<or> w = 1 \<or> w = 2" for w
    by (auto simp: word_less_nat_alt word_unat_eq_iff)
  from this [OF assms] show ?thesis
    by (auto simp: ASLSRVC_extractAID_def extract_by_format_def Let_def)
qed

lemma extractAID_long:
  assumes "\<not> drop_bit 6 (m a) < 3"
  shows "ASLSRVC_extractAID x m a =
     extract_by_format (drop_bit 4 (m a AND 0x30)) m (a + 2)
       (x\<lparr>m_unAttrID := push_bit 8 (ucast (m a AND 0x0F)) OR ucast (m (a + 1))\<rparr>)"
proof -
  have "drop_bit 6 (m a) \<noteq> 0" "drop_bit 6 (m a) \<noteq> 1" "drop_bit 6 (m a) \<noteq> 2" using assms by auto
  then show ?thesis by (simp add: ASLSRVC_extractAID_def extract_by_format_def Let_def)
qed

lemma aid_roundtrip:
  assumes ins: "ASLSRVC_insertAID x = Some bs" and fmt: "m_ucAttrFormat x \<le> ATTR_TWO_INDEX"
    and h: "holds m a bs"
  shows "ASLSRVC_extractAID old m a = (aid_read old x, a + length bs)"
proof -
  note bs = insertAID_octets [OF ins fmt, folded index_octets_def]
  have wf: "wf_aid x" using ins fmt insertAID_Some_iff by auto
  have f: "m_ucAttrFormat x < 3" "m_ucAttrFormat x < 4" using fmt by (auto simp: u8_le_2_cases)
  show ?thesis
  proof (cases "m_unAttrID x \<le> 0x3F")
    case True
    from h bs True have m: "m a = ucast (m_unAttrID x) OR push_bit 6 (m_ucAttrFormat x)"
      and i: "holds m (a + 1) (index_octets x)" by auto
    have "drop_bit 6 (m a) = m_ucAttrFormat x" "ucast (m a AND 0x3F) = m_unAttrID x"
      unfolding m using aid_octet6 [OF True f(2)] by simp_all
    then show ?thesis using True bs f(1) extract_by_format_octets [OF wf i] by (simp add: extractAID_short)
  next
    case False
    have le: "m_unAttrID x \<le> 0xFFF" using wf by (simp add: wf_aid_def)
    from h bs False have m: "m a = ucast (drop_bit 8 (m_unAttrID x)) OR (0xC0 OR push_bit 4 (m_ucAttrFormat x))"
      and m1: "m (a + 1) = ucast (m_unAttrID x)" and i: "holds m (a + 2) (index_octets x)" by auto
    have "drop_bit 6 (m a) = 3" "drop_bit 4 (m a AND 0x30) = m_ucAttrFormat x"
      "push_bit 8 (ucast (m a AND 0x0F)) OR ucast (m (a + 1)) = m_unAttrID x"
      unfolding m m1 using aid_octet12 [OF le f(2)] by simp_all
    then show ?thesis using False bs extract_by_format_octets [OF wf i] by (simp add: extractAID_long)
  qed
qed

lemma extract_by_format_bounds: "extract_by_format f m p x = (y, b) \<Longrightarrow> p \<le> b \<and> b \<le> p + 4"
  by (auto simp: extract_by_format_def extract_one_index_def extract_two_index_def
      split: prod.splits if_splits dest!: extract_value_bounds)

lemma extract_aid_bounds: "ASLSRVC_extractAID x m a = (y, b) \<Longrightarrow> a < b \<and> b \<le> a + 6"
  by (cases "drop_bit 6 (m a) < 3")
    (auto simp: extractAID_short extractAID_long dest!: extract_by_format_bounds)

lemma extract_two_values_local:
  assumes v: "ASLSRVC_extractExtensibleValue m p = (v, c)"
    and w: "ASLSRVC_extractExtensibleValue m c = (w, b)" and ag: "agree m m' p b"
  shows "ASLSRVC_extractExtensibleValue m' p = (v, c) \<and> ASLSRVC_extractExtensibleValue m' c = (w, b)"
proof -
  have "p < c" "c < b" using extract_value_bounds v w by blast+
  with ag have "agree m m' p c" "agree m m' c b" by (auto elim: agree_sub)
  with v w show ?thesis using extract_value_local by blast
qed

lemma extract_by_format_local:
  assumes e: "extract_by_format f m p x = (y, b)" and ag: "agree m m' p b"
  shows "extract_by_format f m' p x = (y, b)"
proof -
  obtain v c where v: "ASLSRVC_extractExtensibleValue m p = (v, c)" by fastforce
  obtain w d where w: "ASLSRVC_extractExtensibleValue m c = (w, d)" by fastforce
  consider "f = 1" | "f = 2" | "f \<noteq> 1" "f \<noteq> 2" by blast
  then show ?thesis
  proof cases
    case 1
    with e v have "b = c" by (simp add: extract_by_format_def extract_one_index_def)
    with 1 e v ag extract_value_local [of m p v c m'] show ?thesis
      by (simp add: extract_by_format_def extract_one_index_def)
  next
    case 2
    with e v w have "b = d" by (simp add: extract_by_format_def extract_two_index_def)
    with 2 e v w ag extract_two_values_local [of m p v c w d m'] show ?thesis
      by (simp add: extract_by_format_def extract_two_index_def)
  next
    case 3
    with e show ?thesis by (simp add: extract_by_format_def split: if_splits)
  qed
qed

lemma extract_aid_local:
  assumes e: "ASLSRVC_extractAID x m a = (y, b)" and ag: "agree m m' a b"
  shows "ASLSRVC_extractAID x m' a = (y, b)"
proof -
  have ma: "m' a = m a" using extract_aid_bounds [OF e] ag by (auto simp: agree_def)
  show ?thesis
  proof (cases "drop_bit 6 (m a) < 3")
    case True
    have "agree m m' (a + 1) b" using ag by (auto elim: agree_sub)
    then show ?thesis
      using extract_by_format_local [OF e [unfolded extractAID_short [of m a, OF True]]] True ma
      by (simp add: extractAID_short)
  next
    case False
    note e' = e [unfolded extractAID_long [of m a, OF False]]
    have "a + 2 \<le> b" using extract_by_format_bounds [OF e'] by simp
    then have "m' (a + 1) = m (a + 1)" "agree m m' (a + 2) b"
      using ag by (auto simp: agree_def)
    then show ?thesis using extract_by_format_local [OF e'] False ma by (simp add: extractAID_long)
  qed
qed

end
