(* ===== verification/Aslmo.thy ===== *)
theory Aslmo
  imports Dmap_Utils
begin

text \<open>
  The application sublayer management object of \<^verbatim>\<open>aslde.cpp\<close>: its attribute table, the table of
  malformed-APDU counters with their alert, the one-second upkeep of the counters and the reset
  method. The counter array is a function from indices; reading it past its
  \<^verbatim>\<open>MAX_ASLMO_COUNTER_N0\<close> elements has no result. Alerts handed to \<^verbatim>\<open>ARMO_AddAlertToQueue\<close> are
  collected in the order they are raised.
\<close>

section \<open>State\<close>

text \<open>\<open>ALERT_INFO\<close> holds the fields of \<^verbatim>\<open>ALERT\<close> that the layer raising an alert fills in.\<close>

record ALERT_INFO =
  m_unDetObjTLPort :: u16
  m_unDetObjID :: u16
  m_ucClass :: u8
  m_ucDirection :: u8
  m_ucCategory :: u8
  m_ucType :: u8
  m_ucPriority :: u8
  m_unSize :: u16

type_synonym raised_alert = "ALERT_INFO \<times> u8 list"

record ASLMO_STRUCT =
  m_ulCountingPeriod :: u32
  m_stAlertDescriptor :: APP_ALERT_DESCRIPTOR
  m_unMalformedAPDUThreshold :: u16
  m_bMalformedAPDUAdvise :: u8

record MALFORMED_APDU_COUNTER =
  m_auc128BitAddr :: "u8 list"
  m_ulThresholdExceedTime :: u32
  m_ulResetCounter :: u32
  m_unMalformedAPDUCounter :: u16

record aslmo_state =
  g_stASLMO :: ASLMO_STRUCT
  g_astASLMOCounters :: "nat \<Rightarrow> MALFORMED_APDU_COUNTER"
  g_unCounterNo :: u16
  aslmo_alerts :: "raised_alert list"

abbreviation (input) MAX_ASLMO_COUNTER_N0 :: nat where "MAX_ASLMO_COUNTER_N0 \<equiv> 8000"

definition zero_counter :: MALFORMED_APDU_COUNTER where
  "zero_counter = \<lparr>m_auc128BitAddr = replicate 16 0, m_ulThresholdExceedTime = 0, m_ulResetCounter = 0,
     m_unMalformedAPDUCounter = 0\<rparr>"

section \<open>Operations\<close>

text \<open>The ASLMO part of \<^verbatim>\<open>ASLDE_Init\<close>; it clears the counters and leaves their number.\<close>

definition ASLDE_Init_aslmo :: "aslmo_state \<Rightarrow> aslmo_state" where
  "ASLDE_Init_aslmo s = s\<lparr>
     g_stASLMO := \<lparr>m_ulCountingPeriod = 0,
       m_stAlertDescriptor = \<lparr>m_bAlertReportDisabled = 0, m_ucPriority = 7\<rparr>,
       m_unMalformedAPDUThreshold = 0, m_bMalformedAPDUAdvise = 0\<rparr>,
     g_astASLMOCounters := (\<lambda>_. zero_counter)\<rparr>"

definition ASLMO_reset :: "u8 \<Rightarrow> aslmo_state \<Rightarrow> aslmo_state \<times> u8" where
  "ASLMO_reset p_ucResetType s =
     (if p_ucResetType = 4 then
        (s\<lparr>g_astASLMOCounters := (\<lambda>_. zero_counter), g_unCounterNo := 0\<rparr>, SFC_SUCCESS)
      else if p_ucResetType = 1 \<or> p_ucResetType = 2 \<or> p_ucResetType = 3 then (s, SFC_FAILURE)
      else (s, SFC_INVALID_ARGUMENT))"

definition ASLMO_Execute :: "u8 \<Rightarrow> u16 \<Rightarrow> mem \<Rightarrow> addr \<Rightarrow> aslmo_state \<Rightarrow> aslmo_state \<times> u8" where
  "ASLMO_Execute p_ucMethID p_unReqSize m p_pReqBuf s =
     (if p_ucMethID \<noteq> 1 then (s, SFC_INVALID_METHOD)
      else let ucResetType = m p_pReqBuf
           in if p_unReqSize \<noteq> 1 \<or> ucResetType = 0 \<or> 4 < ucResetType then (s, SFC_INVALID_ARGUMENT)
              else ASLMO_reset ucResetType s)"

text \<open>The search loop: the index of the counter of an address, or the number of counters.\<close>

fun find_counter :: "(nat \<Rightarrow> MALFORMED_APDU_COUNTER) \<Rightarrow> u8 list \<Rightarrow> nat \<Rightarrow> nat \<Rightarrow> nat" where
  "find_counter f a i 0 = i"
| "find_counter f a i (Suc n) = (if m_auc128BitAddr (f i) = a then i else find_counter f a (Suc i) n)"

definition malformed_alert :: "aslmo_state \<Rightarrow> MALFORMED_APDU_COUNTER \<Rightarrow> raised_alert" where
  "malformed_alert s c =
     (\<lparr>m_unDetObjTLPort = 0xF0B0, m_unDetObjID = 7, m_ucClass = 0, m_ucDirection = 0, m_ucCategory = 1,
       m_ucType = 0, m_ucPriority = APP_ALERT_DESCRIPTOR.m_ucPriority (m_stAlertDescriptor (g_stASLMO s)) AND 0x7F,
       m_unSize = 22\<rparr>,
      m_auc128BitAddr c @ DMAP_InsertUint16 (m_unMalformedAPDUCounter c) @
        DMAP_InsertUint32 (m_ulThresholdExceedTime c))"

definition ASLMO_AddMalformedAPDU :: "u8 list option \<Rightarrow> aslmo_state \<Rightarrow> aslmo_state option" where
  "ASLMO_AddMalformedAPDU p_pSrcAddr128 s =
     (case p_pSrcAddr128 of
        None \<Rightarrow> Some s
      | Some a \<Rightarrow>
          if m_bMalformedAPDUAdvise (g_stASLMO s) = 0 \<or> m_unMalformedAPDUThreshold (g_stASLMO s) = 0 \<or>
             m_ulCountingPeriod (g_stASLMO s) = 0 then Some s
          else
            let n = unat (g_unCounterNo s);
                unIdx = find_counter (g_astASLMOCounters s) a 0 n;
                c = g_astASLMOCounters s unIdx;
                s = (if unIdx < n then s\<lparr>g_astASLMOCounters := (g_astASLMOCounters s)
                       (unIdx := c\<lparr>m_unMalformedAPDUCounter := m_unMalformedAPDUCounter c + 1\<rparr>)\<rparr>
                     else if unIdx < MAX_ASLMO_COUNTER_N0 then
                       s\<lparr>g_astASLMOCounters := (g_astASLMOCounters s)
                           (unIdx := c\<lparr>m_unMalformedAPDUCounter := 1,
                              m_ulResetCounter := m_ulCountingPeriod (g_stASLMO s), m_auc128BitAddr := a\<rparr>),
                         g_unCounterNo := g_unCounterNo s + 1\<rparr>
                     else s)
            in if MAX_ASLMO_COUNTER_N0 \<le> unIdx then None
               else if m_unMalformedAPDUThreshold (g_stASLMO s)
                         \<le> m_unMalformedAPDUCounter (g_astASLMOCounters s unIdx) \<and>
                       m_bAlertReportDisabled (m_stAlertDescriptor (g_stASLMO s)) = 0
                    then Some (s\<lparr>aslmo_alerts :=
                           aslmo_alerts s @ [malformed_alert s (g_astASLMOCounters s unIdx)]\<rparr>)
                    else Some s)"

definition counter_second :: "ASLMO_STRUCT \<Rightarrow> MALFORMED_APDU_COUNTER \<Rightarrow> MALFORMED_APDU_COUNTER" where
  "counter_second cfg c =
     (if m_unMalformedAPDUCounter c \<noteq> 0 then
        let c = (if m_ulResetCounter c \<noteq> 0 then c\<lparr>m_ulResetCounter := m_ulResetCounter c - 1\<rparr>
                 else c\<lparr>m_unMalformedAPDUCounter := 0, m_ulThresholdExceedTime := 0,
                        m_ulResetCounter := m_ulCountingPeriod cfg\<rparr>)
        in if m_unMalformedAPDUThreshold cfg \<le> m_unMalformedAPDUCounter c then
             c\<lparr>m_ulThresholdExceedTime := m_ulThresholdExceedTime c + 1,
               m_ulResetCounter := m_ulCountingPeriod cfg\<rparr>
           else c
      else c)"

text \<open>The loop of \<^verbatim>\<open>ASLDE_PerformOneSecondOperations\<close> over the counters in use.\<close>

definition ASLDE_OneSecond_aslmo :: "aslmo_state \<Rightarrow> aslmo_state" where
  "ASLDE_OneSecond_aslmo s = s\<lparr>g_astASLMOCounters :=
     (\<lambda>i. if i < unat (g_unCounterNo s) then counter_second (g_stASLMO s) (g_astASLMOCounters s i)
          else g_astASLMOCounters s i)\<rparr>"

text \<open>Attribute 5 is the \<^verbatim>\<open>const\<close> number of counters: its write function stores into constant data.\<close>

definition c_aASLMOFct :: "aslmo_state DMAP_FCT_STRUCT list" where
  "c_aASLMOFct =
     [\<lparr>m_ucSize = 0, m_pReadFct = (\<lambda>s. DMAP_EmptyReadFunc), m_pWriteFct = None\<rparr>,
      \<lparr>m_ucSize = 1, m_pReadFct = (\<lambda>s. DMAP_ReadUint8 (m_bMalformedAPDUAdvise (g_stASLMO s))),
       m_pWriteFct = Some (\<lambda>s m p. Some (s\<lparr>g_stASLMO :=
         (g_stASLMO s)\<lparr>m_bMalformedAPDUAdvise := DMAP_WriteUint8 m p\<rparr>\<rparr>))\<rparr>,
      \<lparr>m_ucSize = 4, m_pReadFct = (\<lambda>s. DMAP_ReadUint32 (m_ulCountingPeriod (g_stASLMO s))),
       m_pWriteFct = Some (\<lambda>s m p. Some (s\<lparr>g_stASLMO :=
         (g_stASLMO s)\<lparr>m_ulCountingPeriod := DMAP_WriteUint32 m p\<rparr>\<rparr>))\<rparr>,
      \<lparr>m_ucSize = 2, m_pReadFct = (\<lambda>s. DMAP_ReadUint16 (m_unMalformedAPDUThreshold (g_stASLMO s))),
       m_pWriteFct = Some (\<lambda>s m p. Some (s\<lparr>g_stASLMO :=
         (g_stASLMO s)\<lparr>m_unMalformedAPDUThreshold := DMAP_WriteUint16 m p\<rparr>\<rparr>))\<rparr>,
      \<lparr>m_ucSize = 2, m_pReadFct = (\<lambda>s. DMAP_ReadAlertDescriptor (m_stAlertDescriptor (g_stASLMO s))),
       m_pWriteFct = Some (\<lambda>s m p. Some (s\<lparr>g_stASLMO :=
         (g_stASLMO s)\<lparr>m_stAlertDescriptor := DMAP_WriteAlertDescriptor m p\<rparr>\<rparr>))\<rparr>,
      \<lparr>m_ucSize = 2, m_pReadFct = (\<lambda>s. DMAP_ReadUint16 8000), m_pWriteFct = Some (\<lambda>s m p. None)\<rparr>]"

section \<open>The table as a map from addresses to counts\<close>

text \<open>
  \<open>malformed_count s a\<close> is the count kept for an address: the abstract contract of the table. The
  invariant says that the table is within its array and that no address has two counters.
\<close>

definition aslmo_inv :: "aslmo_state \<Rightarrow> bool" where
  "aslmo_inv s \<longleftrightarrow> unat (g_unCounterNo s) \<le> MAX_ASLMO_COUNTER_N0 \<and>
     distinct (map (\<lambda>i. m_auc128BitAddr (g_astASLMOCounters s i)) [0..<unat (g_unCounterNo s)])"

definition malformed_count :: "aslmo_state \<Rightarrow> u8 list \<Rightarrow> u16 option" where
  "malformed_count s a =
     (let i = find_counter (g_astASLMOCounters s) a 0 (unat (g_unCounterNo s))
      in if i < unat (g_unCounterNo s) then Some (m_unMalformedAPDUCounter (g_astASLMOCounters s i))
         else None)"

definition counting_enabled :: "aslmo_state \<Rightarrow> bool" where
  "counting_enabled s \<longleftrightarrow> m_bMalformedAPDUAdvise (g_stASLMO s) \<noteq> 0 \<and>
     m_unMalformedAPDUThreshold (g_stASLMO s) \<noteq> 0 \<and> m_ulCountingPeriod (g_stASLMO s) \<noteq> 0"

lemma find_counter_bounds: "i \<le> find_counter f a i n \<and> find_counter f a i n \<le> i + n"
  by (induction n arbitrary: i) (auto, (metis Suc_leD, metis add_Suc))

lemma find_counter_hit: "find_counter f a i n < i + n \<Longrightarrow> m_auc128BitAddr (f (find_counter f a i n)) = a"
  by (induction n arbitrary: i) auto

lemma find_counter_before:
  "i \<le> k \<Longrightarrow> k < find_counter f a i n \<Longrightarrow> m_auc128BitAddr (f k) \<noteq> a"
proof (induction n arbitrary: i)
  case (Suc n)
  show ?case
  proof (cases "k = i")
    case True
    with Suc.prems show ?thesis by (auto split: if_splits)
  next
    case False
    with Suc.prems have "Suc i \<le> k" "k < find_counter f a (Suc i) n" by (auto split: if_splits)
    then show ?thesis by (rule Suc.IH)
  qed
qed simp

lemma find_counter_eqI:
  assumes "i \<le> k" "k < i + n" "m_auc128BitAddr (f k) = a"
    and "\<And>j. i \<le> j \<Longrightarrow> j < k \<Longrightarrow> m_auc128BitAddr (f j) \<noteq> a"
  shows "find_counter f a i n = k"
  using find_counter_before [of i k f a n] find_counter_hit [of f a i n]
    find_counter_bounds [of i f a n] assms
  by (metis linorder_neqE_nat order.strict_trans)

lemma find_counter_none:
  "(\<And>j. i \<le> j \<Longrightarrow> j < i + n \<Longrightarrow> m_auc128BitAddr (f j) \<noteq> a) \<Longrightarrow> find_counter f a i n = i + n"
  using find_counter_hit [of f a i n] find_counter_bounds [of i f a n] by (metis le_neq_implies_less)

lemma find_counter_cong:
  "(\<And>j. i \<le> j \<Longrightarrow> j < i + n \<Longrightarrow> m_auc128BitAddr (f j) = m_auc128BitAddr (g j)) \<Longrightarrow>
     find_counter f a i n = find_counter g a i n"
  by (induction n arbitrary: i) simp_all

lemma find_counter_found_or_new:
  "find_counter f a 0 n < n \<or> (find_counter f a 0 n = n \<and> (\<forall>j<n. m_auc128BitAddr (f j) \<noteq> a))"
  using find_counter_bounds [of 0 f a n] find_counter_before [of 0 _ f a n] by fastforce

lemma aslmo_invI:
  assumes "unat (g_unCounterNo s) \<le> MAX_ASLMO_COUNTER_N0"
    and "\<And>i j. i < j \<Longrightarrow> j < unat (g_unCounterNo s) \<Longrightarrow>
      m_auc128BitAddr (g_astASLMOCounters s i) \<noteq> m_auc128BitAddr (g_astASLMOCounters s j)"
  shows "aslmo_inv s"
  using assms by (auto simp: aslmo_inv_def distinct_map inj_on_def) (metis linorder_neqE_nat)

lemma aslmo_invD:
  assumes "aslmo_inv s" "i < j" "j < unat (g_unCounterNo s)"
  shows "m_auc128BitAddr (g_astASLMOCounters s i) \<noteq> m_auc128BitAddr (g_astASLMOCounters s j)"
proof -
  have "i \<in> {0..<unat (g_unCounterNo s)}" "j \<in> {0..<unat (g_unCounterNo s)}" using assms by auto
  with assms show ?thesis by (metis aslmo_inv_def distinct_map inj_on_def nat_neq_iff set_upt)
qed

text \<open>The effect of one malformed APDU on the table, before the alert is considered.\<close>

definition bump_counter :: "u8 list \<Rightarrow> aslmo_state \<Rightarrow> aslmo_state" where
  "bump_counter a s =
     (let n = unat (g_unCounterNo s); i = find_counter (g_astASLMOCounters s) a 0 n;
          c = g_astASLMOCounters s i
      in if i < n then s\<lparr>g_astASLMOCounters := (g_astASLMOCounters s)
             (i := c\<lparr>m_unMalformedAPDUCounter := m_unMalformedAPDUCounter c + 1\<rparr>)\<rparr>
         else s\<lparr>g_astASLMOCounters := (g_astASLMOCounters s)
             (i := c\<lparr>m_unMalformedAPDUCounter := 1,
                m_ulResetCounter := m_ulCountingPeriod (g_stASLMO s), m_auc128BitAddr := a\<rparr>),
             g_unCounterNo := g_unCounterNo s + 1\<rparr>)"

lemma unat_Suc_u16: "unat (x :: u16) < 65535 \<Longrightarrow> unat (x + 1) = Suc (unat x)"
  by (simp add: unat_plus_if_size word_size)

lemma bump_counter_inv:
  assumes inv: "aslmo_inv s" and room: "malformed_count s a \<noteq> None \<or> unat (g_unCounterNo s) < MAX_ASLMO_COUNTER_N0"
  shows "aslmo_inv (bump_counter a s)"
proof (cases "find_counter (g_astASLMOCounters s) a 0 (unat (g_unCounterNo s)) < unat (g_unCounterNo s)")
  case True
  show ?thesis
    by (rule aslmo_invI) (use True inv in \<open>auto simp: bump_counter_def Let_def aslmo_inv_def [of s]
        dest: aslmo_invD [OF inv]\<close>)
next
  case False
  then have new: "find_counter (g_astASLMOCounters s) a 0 (unat (g_unCounterNo s)) = unat (g_unCounterNo s)"
      "\<forall>j<unat (g_unCounterNo s). m_auc128BitAddr (g_astASLMOCounters s j) \<noteq> a"
    using find_counter_found_or_new by blast+
  have n: "unat (g_unCounterNo s) < MAX_ASLMO_COUNTER_N0"
    using room False by (auto simp: malformed_count_def Let_def split: if_splits)
  then have "unat (g_unCounterNo s + 1) = Suc (unat (g_unCounterNo s))" by (intro unat_Suc_u16) simp
  then show ?thesis
    by (intro aslmo_invI) (use False new n in \<open>auto simp: bump_counter_def Let_def less_Suc_eq
        dest: aslmo_invD [OF inv]\<close>)
qed

lemma bump_counter_count:
  assumes inv: "aslmo_inv s" and room: "malformed_count s a \<noteq> None \<or> unat (g_unCounterNo s) < MAX_ASLMO_COUNTER_N0"
  shows "malformed_count (bump_counter a s) =
     (malformed_count s)(a \<mapsto> (case malformed_count s a of None \<Rightarrow> 1 | Some c \<Rightarrow> c + 1))"
proof (rule ext)
  fix b
  let ?f = "g_astASLMOCounters s" and ?n = "unat (g_unCounterNo s)"
  let ?i = "find_counter ?f a 0 ?n"
  show "malformed_count (bump_counter a s) b =
     ((malformed_count s)(a \<mapsto> (case malformed_count s a of None \<Rightarrow> 1 | Some c \<Rightarrow> c + 1))) b"
  proof (cases "?i < ?n")
    case True
    let ?g = "?f(?i := (?f ?i)\<lparr>m_unMalformedAPDUCounter := m_unMalformedAPDUCounter (?f ?i) + 1\<rparr>)"
    have g: "find_counter ?g c 0 ?n = find_counter ?f c 0 ?n" for c
      by (rule find_counter_cong) simp
    have ne: "find_counter ?f b 0 ?n \<noteq> ?i" if "b \<noteq> a"
      using find_counter_hit [of ?f b 0 ?n] find_counter_hit [of ?f a 0 ?n] True that by force
    show ?thesis
    proof (cases "b = a")
      case True
      with \<open>?i < ?n\<close> show ?thesis by (simp add: malformed_count_def bump_counter_def Let_def g)
    next
      case False
      with \<open>?i < ?n\<close> ne show ?thesis by (simp add: malformed_count_def bump_counter_def Let_def g)
    qed
  next
    case False
    then have new: "?i = ?n" "\<forall>j<?n. m_auc128BitAddr (?f j) \<noteq> a"
      using find_counter_found_or_new by blast+
    have n: "?n < MAX_ASLMO_COUNTER_N0"
      using room False by (auto simp: malformed_count_def Let_def split: if_splits)
    then have sz: "unat (g_unCounterNo s + 1) = Suc ?n" by (intro unat_Suc_u16) simp
    let ?c = "(?f ?n)\<lparr>m_unMalformedAPDUCounter := 1,
                m_ulResetCounter := m_ulCountingPeriod (g_stASLMO s), m_auc128BitAddr := a\<rparr>"
    let ?g = "?f(?n := ?c)"
    have ga: "find_counter ?g a 0 (Suc ?n) = ?n"
      by (rule find_counter_eqI) (use new in auto)
    have gb: "find_counter ?g b 0 (Suc ?n) =
        (if find_counter ?f b 0 ?n < ?n then find_counter ?f b 0 ?n else Suc ?n)" if "b \<noteq> a"
    proof (cases "find_counter ?f b 0 ?n < ?n")
      case True
      then have "find_counter ?g b 0 (Suc ?n) = find_counter ?f b 0 ?n"
        using find_counter_hit [of ?f b 0 ?n] find_counter_before [of 0 _ ?f b ?n]
        by (intro find_counter_eqI) auto
      with True show ?thesis by simp
    next
      case False
      then have "\<forall>j<?n. m_auc128BitAddr (?f j) \<noteq> b" using find_counter_found_or_new by blast
      then have "find_counter ?g b 0 (Suc ?n) = 0 + Suc ?n"
        using that by (intro find_counter_none) (auto simp: less_Suc_eq)
      with False show ?thesis by simp
    qed
    show ?thesis using False new(1) sz ga gb
      by (auto simp: malformed_count_def bump_counter_def Let_def)
  qed
qed

lemma AddMalformedAPDU_eq:
  assumes "counting_enabled s" and "aslmo_inv s"
    and "malformed_count s a \<noteq> None \<or> unat (g_unCounterNo s) < MAX_ASLMO_COUNTER_N0"
  shows "\<exists>as. ASLMO_AddMalformedAPDU (Some a) s = Some ((bump_counter a s)\<lparr>aslmo_alerts := as\<rparr>)"
proof -
  let ?n = "unat (g_unCounterNo s)"
  let ?i = "find_counter (g_astASLMOCounters s) a 0 ?n"
  have "?i < MAX_ASLMO_COUNTER_N0" "\<not> ?i < ?n \<Longrightarrow> ?i < MAX_ASLMO_COUNTER_N0"
    using assms(2,3) find_counter_found_or_new [of "g_astASLMOCounters s" a ?n]
    by (auto simp: aslmo_inv_def malformed_count_def Let_def split: if_splits)
  moreover have "\<exists>as. t = t\<lparr>aslmo_alerts := as\<rparr>" for t :: aslmo_state
    by (rule exI [of _ "aslmo_alerts t"]) simp
  ultimately show ?thesis using assms(1)
    unfolding ASLMO_AddMalformedAPDU_def counting_enabled_def bump_counter_def Let_def
    by (auto simp del: fun_upd_apply)
qed

lemma alerts_irrelevant [simp]:
  "malformed_count (s\<lparr>aslmo_alerts := as\<rparr>) = malformed_count s"
  "aslmo_inv (s\<lparr>aslmo_alerts := as\<rparr>) = aslmo_inv s"
  by (rule ext, simp add: malformed_count_def Let_def) (simp add: aslmo_inv_def)

lemma AddMalformedAPDU_alert_step:
  assumes "counting_enabled s"
    and "ASLMO_AddMalformedAPDU (Some a) s = Some s'"
    and "malformed_count s a \<noteq> None \<or> unat (g_unCounterNo s) < MAX_ASLMO_COUNTER_N0"
  defines "t \<equiv> bump_counter a s"
  defines "c \<equiv> g_astASLMOCounters t (find_counter (g_astASLMOCounters s) a 0 (unat (g_unCounterNo s)))"
  shows "aslmo_alerts s' = aslmo_alerts s @
     (if m_unMalformedAPDUThreshold (g_stASLMO s) \<le> m_unMalformedAPDUCounter c \<and>
         m_bAlertReportDisabled (m_stAlertDescriptor (g_stASLMO s)) = 0
      then [malformed_alert s c] else [])"
proof -
  let ?n = "unat (g_unCounterNo s)"
  let ?i = "find_counter (g_astASLMOCounters s) a 0 ?n"
  have "\<not> MAX_ASLMO_COUNTER_N0 \<le> ?i \<and> (?i < ?n \<or> ?i < MAX_ASLMO_COUNTER_N0)"
    using assms(1,2) by (auto simp: ASLMO_AddMalformedAPDU_def counting_enabled_def Let_def
        split: if_splits)
  then show ?thesis using assms(1,2)
    unfolding ASLMO_AddMalformedAPDU_def counting_enabled_def c_def t_def bump_counter_def Let_def
    by (auto simp: malformed_alert_def split: if_splits)
qed

lemma bump_counter_entry:
  assumes "malformed_count s a \<noteq> None \<or> unat (g_unCounterNo s) < MAX_ASLMO_COUNTER_N0"
    and "aslmo_inv s"
  defines "t \<equiv> bump_counter a s"
  defines "c \<equiv> g_astASLMOCounters t (find_counter (g_astASLMOCounters s) a 0 (unat (g_unCounterNo s)))"
  shows "m_auc128BitAddr c = a" and "malformed_count t a = Some (m_unMalformedAPDUCounter c)"
proof -
  show "m_auc128BitAddr c = a"
    using find_counter_hit [of "g_astASLMOCounters s" a 0 "unat (g_unCounterNo s)"]
    by (auto simp: c_def t_def bump_counter_def Let_def)
  have "malformed_count s a = (if find_counter (g_astASLMOCounters s) a 0 (unat (g_unCounterNo s))
      < unat (g_unCounterNo s) then Some (m_unMalformedAPDUCounter (g_astASLMOCounters s
        (find_counter (g_astASLMOCounters s) a 0 (unat (g_unCounterNo s))))) else None)"
    by (simp add: malformed_count_def Let_def)
  then show "malformed_count t a = Some (m_unMalformedAPDUCounter c)"
    using bump_counter_count [OF assms(2,1)]
    by (auto simp: c_def t_def bump_counter_def Let_def)
qed

section \<open>Properties\<close>

text \<open>
  A malformed APDU from a known address, or from a new one while the table has room, adds one to
  the count of exactly that address (modulo the 16 bits of the counter; a new address starts at one)
  and keeps the table well formed.
\<close>
lemma malformed_counter_refinement:
  assumes "counting_enabled s" and "aslmo_inv s"
    and "malformed_count s a \<noteq> None \<or> unat (g_unCounterNo s) < MAX_ASLMO_COUNTER_N0"
  shows "\<exists>s'. ASLMO_AddMalformedAPDU (Some a) s = Some s' \<and> aslmo_inv s' \<and>
     malformed_count s' = (malformed_count s)(a \<mapsto> (case malformed_count s a of None \<Rightarrow> 1 | Some c \<Rightarrow> c + 1))"
proof -
  obtain as where as: "ASLMO_AddMalformedAPDU (Some a) s = Some ((bump_counter a s)\<lparr>aslmo_alerts := as\<rparr>)"
    using AddMalformedAPDU_eq [OF assms] by blast
  have "malformed_count ((bump_counter a s)\<lparr>aslmo_alerts := as\<rparr>) =
      (malformed_count s)(a \<mapsto> (case malformed_count s a of None \<Rightarrow> 1 | Some c \<Rightarrow> c + 1))"
    using bump_counter_count [OF assms(2,3)] by simp
  moreover have "aslmo_inv ((bump_counter a s)\<lparr>aslmo_alerts := as\<rparr>)"
    using bump_counter_inv [OF assms(2,3)] by simp
  ultimately show ?thesis using as by blast
qed

definition sample_aslmo :: aslmo_state where
  "sample_aslmo = \<lparr>g_stASLMO = \<lparr>m_ulCountingPeriod = 60,
       m_stAlertDescriptor = \<lparr>m_bAlertReportDisabled = 0, m_ucPriority = 7\<rparr>,
       m_unMalformedAPDUThreshold = 2, m_bMalformedAPDUAdvise = 1\<rparr>,
     g_astASLMOCounters = (\<lambda>_. zero_counter)(0 := zero_counter\<lparr>m_auc128BitAddr := replicate 16 1,
       m_unMalformedAPDUCounter := 1\<rparr>), g_unCounterNo = 1, aslmo_alerts = []\<rparr>"

lemma sample_aslmo_ok: "counting_enabled sample_aslmo" "aslmo_inv sample_aslmo"
  "malformed_count sample_aslmo (replicate 16 1) = Some 1"
  by (simp_all add: sample_aslmo_def counting_enabled_def aslmo_inv_def malformed_count_def)

lemma malformed_counter_refinement_sample:
  "\<exists>s'. ASLMO_AddMalformedAPDU (Some (replicate 16 1)) sample_aslmo = Some s' \<and>
     malformed_count s' (replicate 16 1) = Some 2"
  using AddMalformedAPDU_eq [OF sample_aslmo_ok(1,2), of "replicate 16 1"]
    bump_counter_count [OF sample_aslmo_ok(2), of "replicate 16 1"] sample_aslmo_ok(3) by fastforce

theorem malformed_counter_refinement_witness:
  "\<exists>s'. ASLMO_AddMalformedAPDU (Some (replicate 16 1)) sample_aslmo = Some s' \<and>
     malformed_count s' (replicate 16 1) = Some 2"
  using malformed_counter_refinement [OF sample_aslmo_ok(1,2), of "replicate 16 1"] sample_aslmo_ok(3)
  by fastforce

text \<open>
  When the table is full, a malformed APDU from an address without a counter makes
  \<^verbatim>\<open>ASLMO_AddMalformedAPDU\<close> read the element after the last one of the counter array; this is the
  only case without a result, so a table that satisfies its invariant fails in no other way.
\<close>
lemma malformed_table_overrun:
  assumes "aslmo_inv s"
  shows "ASLMO_AddMalformedAPDU src s = None \<longleftrightarrow>
     (\<exists>a. src = Some a \<and> counting_enabled s \<and> malformed_count s a = None \<and>
        unat (g_unCounterNo s) = MAX_ASLMO_COUNTER_N0)"
proof (cases src)
  case None
  then show ?thesis by (simp add: ASLMO_AddMalformedAPDU_def)
next
  case (Some a)
  let ?n = "unat (g_unCounterNo s)"
  let ?i = "find_counter (g_astASLMOCounters s) a 0 ?n"
  have i: "?i < ?n \<or> ?i = ?n" using find_counter_found_or_new by blast
  have le: "?n \<le> MAX_ASLMO_COUNTER_N0" using assms by (simp add: aslmo_inv_def)
  have "ASLMO_AddMalformedAPDU (Some a) s = None \<longleftrightarrow> counting_enabled s \<and> MAX_ASLMO_COUNTER_N0 \<le> ?i"
    by (auto simp: ASLMO_AddMalformedAPDU_def counting_enabled_def Let_def)
  also have "\<dots> \<longleftrightarrow> counting_enabled s \<and> malformed_count s a = None \<and> ?n = MAX_ASLMO_COUNTER_N0"
    using i le by (auto simp: malformed_count_def Let_def)
  finally show ?thesis using Some by simp
qed

theorem malformed_table_overrun_witness:
  "ASLMO_AddMalformedAPDU (Some (replicate 16 2)) sample_aslmo \<noteq> None"
  using malformed_table_overrun [OF sample_aslmo_ok(2), of "Some (replicate 16 2)"]
  by (simp add: sample_aslmo_def)

text \<open>
  The alert of the ASLMO is raised exactly when, after the APDU is counted, the count of its source
  reaches the configured threshold and reporting is not disabled; the alert carries that source
  address and its count.
\<close>
lemma malformed_alert_threshold:
  assumes "counting_enabled s" and "aslmo_inv s"
    and "malformed_count s a \<noteq> None \<or> unat (g_unCounterNo s) < MAX_ASLMO_COUNTER_N0"
    and "ASLMO_AddMalformedAPDU (Some a) s = Some s'"
  shows "\<exists>k info t. malformed_count s' a = Some k \<and>
     aslmo_alerts s' = aslmo_alerts s @
       (if m_unMalformedAPDUThreshold (g_stASLMO s) \<le> k \<and>
           m_bAlertReportDisabled (m_stAlertDescriptor (g_stASLMO s)) = 0
        then [(info, a @ DMAP_InsertUint16 k @ DMAP_InsertUint32 t)] else [])"
proof -
  obtain as where "s' = (bump_counter a s)\<lparr>aslmo_alerts := as\<rparr>"
    using AddMalformedAPDU_eq [OF assms(1-3)] assms(4) by auto
  then have "malformed_count s' = malformed_count (bump_counter a s)" by simp
  then show ?thesis
    using bump_counter_entry [OF assms(3,2)] AddMalformedAPDU_alert_step [OF assms(1,4,3)]
    by (auto simp: malformed_alert_def)
qed

theorem malformed_alert_threshold_witness:
  "\<exists>s' al. ASLMO_AddMalformedAPDU (Some (replicate 16 1)) sample_aslmo = Some s' \<and>
     aslmo_alerts s' = [al] \<and> take 18 (snd al) = replicate 16 1 @ [0, 2]"
proof -
  obtain s' where s': "ASLMO_AddMalformedAPDU (Some (replicate 16 1)) sample_aslmo = Some s'"
      "malformed_count s' (replicate 16 1) = Some 2"
    using malformed_counter_refinement_sample by blast
  then show ?thesis
    using malformed_alert_threshold [OF sample_aslmo_ok(1,2) _ s'(1)] sample_aslmo_ok(3)
    by (fastforce simp: sample_aslmo_def DMAP_InsertUint16_def)
qed

text \<open>
  Writing an attribute of the ASLMO and reading it back through the attribute table returns the bytes
  written, for each of its four writable attributes, whatever the size argument says.
\<close>
lemma aslmo_write_read:
  assumes "(i, n) \<in> {(1, 1), (2, 4), (3, 2), (4, 2)}"
  shows "\<exists>s'. DMAP_WriteAttr i sz m p s c_aASLMOFct = Written SFC_SUCCESS s' \<and>
     DMAP_ReadAttr i s' c_aASLMOFct = (SFC_SUCCESS, Some (mem_bytes m p n, word_of_nat n))"
proof -
  have "mem_bytes m p 4 = [m p, m (p + 1), m (p + 2), m (p + 3)]" "mem_bytes m p 2 = [m p, m (p + 1)]"
    "mem_bytes m p 1 = [m p]" by (simp_all add: mem_bytes_def upt_rec addr_numeral)
  then show ?thesis using assms
    by (auto simp: c_aASLMOFct_def DMAP_WriteAttr_def DMAP_ReadAttr_def read_write_bytes)
qed

theorem aslmo_write_read_witness:
  "\<exists>s'. DMAP_WriteAttr 3 2 (mem_of [1, 2]) 0 sample_aslmo c_aASLMOFct = Written SFC_SUCCESS s' \<and>
     DMAP_ReadAttr 3 s' c_aASLMOFct = (SFC_SUCCESS, Some ([1, 2], 2))"
  using aslmo_write_read [of 3 2 2 "mem_of [1, 2]" 0 sample_aslmo]
  by (simp add: mem_bytes_def mem_of_def upt_rec)

end
