(* ===== verification/Asl_Services.thy ===== *)
theory Asl_Services
  imports Asl_Fields Aslmo
begin

text \<open>
  The service primitives of \<^verbatim>\<open>aslsrvc.cpp\<close>: for each of the eleven ASL services its structure
  (\<^verbatim>\<open>aslde.h\<close>), the binarizer \<^verbatim>\<open>ASLSRVC_set...Obj\<close> and the parser \<^verbatim>\<open>ASLSRVC_get...Obj\<close>, and the
  dispatcher \<^verbatim>\<open>ASLSRVC_GetGenericObject\<close>. A binarizer takes the memory its payload pointer points
  into and returns the bytes it stores, or \<open>None\<close> for \<^verbatim>\<open>NULL\<close>. A parser takes the object it fills,
  since fields that are not on the wire keep their values, and returns it with the next position.
\<close>

section \<open>Structures (aslde.h)\<close>

record SRVC_OIDS =
  m_unSrcOID :: u16
  m_unDstOID :: u16

record SRVC_REQID = SRVC_OIDS +
  m_ucReqID :: u8

record READ_REQ_SRVC = SRVC_REQID +
  m_stAttrIdtf :: ATTR_IDTF

record READ_RSP_SRVC = SRVC_REQID +
  m_ucFECCE :: u8
  m_ucSFC :: u8
  m_unLen :: u16
  m_pRspData :: addr

record WRITE_REQ_SRVC = SRVC_REQID +
  m_stAttrIdtf :: ATTR_IDTF
  m_unLen :: u16
  p_pReqData :: addr

record WRITE_RSP_SRVC = SRVC_REQID +
  m_ucFECCE :: u8
  m_ucSFC :: u8

record EXEC_REQ_SRVC = SRVC_REQID +
  m_ucMethID :: u8
  m_unLen :: u16
  p_pReqData :: addr

record EXEC_RSP_SRVC = SRVC_REQID +
  m_ucFECCE :: u8
  m_ucSFC :: u8
  m_unLen :: u16
  p_pRspData :: addr

record TUNNEL_REQ_SRVC = SRVC_OIDS +
  m_unLen :: u16
  m_pReqData :: addr

record TUNNEL_RSP_SRVC = SRVC_OIDS +
  m_ucFECCE :: u8
  m_unLen :: u16
  m_pRspData :: addr

record PUBLISH_SRVC =
  m_unPubOID :: u16
  m_unSubOID :: u16
  m_ucNativePublish :: u8
  m_ucContentVersion :: u8
  m_ucFreqSeqNo :: u8
  m_unSize :: u16
  m_pData :: addr

record ALERT = ALERT_INFO +
  m_ulNextSendTAI :: u32
  m_ulSeconds :: u32
  m_unFract :: u16
  m_ucID :: u8

record ALERT_REP_SRVC = SRVC_OIDS +
  m_stAlertInfo :: ALERT
  m_pAlertValue :: addr

record ALERT_ACK_SRVC = SRVC_OIDS +
  m_ucAlertID :: u8

section \<open>Readers of single fields\<close>

definition read_oids :: "'a SRVC_OIDS_scheme reader" where
  "read_oids m p x =
     (let ((s, d), p) = ASLSRVC_extractAPDUHeader (m_unSrcOID x, m_unDstOID x) m p
      in (x\<lparr>m_unSrcOID := s, m_unDstOID := d\<rparr>, p))"

definition read_u8 :: "(u8 \<Rightarrow> 'o \<Rightarrow> 'o) \<Rightarrow> 'o reader" where
  "read_u8 put m p x = (put (m p) x, p + 1)"

definition read_u16 :: "(u16 \<Rightarrow> 'o \<Rightarrow> 'o) \<Rightarrow> 'o reader" where
  "read_u16 put m p x = (let (v, p) = DMAP_ExtractUint16 m p in (put v x, p))"

definition read_u32 :: "(u32 \<Rightarrow> 'o \<Rightarrow> 'o) \<Rightarrow> 'o reader" where
  "read_u32 put m p x = (let (v, p) = DMAP_ExtractUint32 m p in (put v x, p))"

definition read_aid :: "('o \<Rightarrow> ATTR_IDTF) \<Rightarrow> (ATTR_IDTF \<Rightarrow> 'o \<Rightarrow> 'o) \<Rightarrow> 'o reader" where
  "read_aid get put m p x = (let (v, p) = ASLSRVC_extractAID (get x) m p in (put v x, p))"

text \<open>A length, the pointer to the data and the skip over the data.\<close>

definition read_payload :: "(u16 \<Rightarrow> 'o \<Rightarrow> 'o) \<Rightarrow> (addr \<Rightarrow> 'o \<Rightarrow> 'o) \<Rightarrow> 'o reader" where
  "read_payload put_len put_ptr m p x =
     (let (n, p) = ASLSRVC_extractExtensibleValue m p in (put_ptr p (put_len n x), p + unat n))"

text \<open>The same when the pointer is set only for a length other than zero.\<close>

definition read_payload_if :: "(u16 \<Rightarrow> 'o \<Rightarrow> 'o) \<Rightarrow> (addr \<Rightarrow> 'o \<Rightarrow> 'o) \<Rightarrow> 'o reader" where
  "read_payload_if put_len put_ptr m p x =
     (let (n, p) = ASLSRVC_extractExtensibleValue m p
      in if n \<noteq> 0 then (put_ptr p (put_len n x), p + unat n) else (put_len n x, p))"

section \<open>Binarizers and parsers\<close>

subsection \<open>Read\<close>

definition ASLSRVC_setReadReqObj :: "READ_REQ_SRVC \<Rightarrow> u16 \<Rightarrow> u8 list option" where
  "ASLSRVC_setReadReqObj x p_unOutBufLen =
     (if unat p_unOutBufLen < 5 + 1 + 6 then None
      else map_option (\<lambda>aid.
             ASLSRVC_insertAPDUHeader SRVC_REQUEST SRVC_TYPE_READ (m_unSrcOID x) (m_unDstOID x)
             @ [m_ucReqID x] @ aid)
           (ASLSRVC_insertAID (READ_REQ_SRVC.m_stAttrIdtf x)))"

definition ASLSRVC_getReadReqObj ::
    "mem \<Rightarrow> addr \<Rightarrow> u16 \<Rightarrow> READ_REQ_SRVC \<Rightarrow> READ_REQ_SRVC \<times> addr option" where
  "ASLSRVC_getReadReqObj = get_object
     [read_oids,
      read_u8 (\<lambda>v x. x\<lparr>m_ucReqID := v\<rparr>),
      read_aid READ_REQ_SRVC.m_stAttrIdtf (\<lambda>v x. x\<lparr>READ_REQ_SRVC.m_stAttrIdtf := v\<rparr>)]"

text \<open>The binarizer of a read response clears \<^verbatim>\<open>m_unLen\<close> of a failed response in the caller's object.\<close>

definition ASLSRVC_setReadRspObj ::
    "mem \<Rightarrow> READ_RSP_SRVC \<Rightarrow> u16 \<Rightarrow> READ_RSP_SRVC \<times> u8 list option" where
  "ASLSRVC_setReadRspObj m x p_unOutBufLen =
     (let x = (if READ_RSP_SRVC.m_ucSFC x \<noteq> SFC_SUCCESS then x\<lparr>READ_RSP_SRVC.m_unLen := 0\<rparr> else x)
      in (x, if unat p_unOutBufLen < 5 + 1 + 1 + 1 + 2 + unat (READ_RSP_SRVC.m_unLen x) then None
             else Some (
               ASLSRVC_insertAPDUHeader SRVC_RESPONSE SRVC_TYPE_READ (m_unSrcOID x) (m_unDstOID x)
               @ [m_ucReqID x] @ [READ_RSP_SRVC.m_ucFECCE x AND 1] @ [READ_RSP_SRVC.m_ucSFC x]
               @ (if READ_RSP_SRVC.m_ucSFC x = SFC_SUCCESS then
                    ASLSRVC_insertExtensibleValue (READ_RSP_SRVC.m_unLen x)
                    @ mem_bytes m (READ_RSP_SRVC.m_pRspData x) (unat (READ_RSP_SRVC.m_unLen x))
                  else []))))"

definition read_rsp_data :: "READ_RSP_SRVC reader" where
  "read_rsp_data m p x =
     (if READ_RSP_SRVC.m_ucSFC x = SFC_SUCCESS then
        read_payload (\<lambda>n x. x\<lparr>READ_RSP_SRVC.m_unLen := n\<rparr>) (\<lambda>q x. x\<lparr>READ_RSP_SRVC.m_pRspData := q\<rparr>) m p x
      else (x, p))"

definition ASLSRVC_getReadRspObj ::
    "mem \<Rightarrow> addr \<Rightarrow> u16 \<Rightarrow> READ_RSP_SRVC \<Rightarrow> READ_RSP_SRVC \<times> addr option" where
  "ASLSRVC_getReadRspObj = get_object
     [read_oids,
      read_u8 (\<lambda>v x. x\<lparr>m_ucReqID := v\<rparr>),
      read_u8 (\<lambda>v x. x\<lparr>READ_RSP_SRVC.m_ucFECCE := v\<rparr>),
      read_u8 (\<lambda>v x. x\<lparr>READ_RSP_SRVC.m_ucSFC := v\<rparr>),
      read_rsp_data]"

subsection \<open>Write\<close>

definition ASLSRVC_setWriteReqObj :: "mem \<Rightarrow> WRITE_REQ_SRVC \<Rightarrow> u16 \<Rightarrow> u8 list option" where
  "ASLSRVC_setWriteReqObj m x p_unOutBufLen =
     (if unat p_unOutBufLen < 5 + 1 + 6 + unat (WRITE_REQ_SRVC.m_unLen x) then None
      else map_option (\<lambda>aid.
             ASLSRVC_insertAPDUHeader SRVC_REQUEST SRVC_TYPE_WRITE (m_unSrcOID x) (m_unDstOID x)
             @ [m_ucReqID x] @ aid @ ASLSRVC_insertExtensibleValue (WRITE_REQ_SRVC.m_unLen x)
             @ mem_bytes m (WRITE_REQ_SRVC.p_pReqData x) (unat (WRITE_REQ_SRVC.m_unLen x)))
           (ASLSRVC_insertAID (WRITE_REQ_SRVC.m_stAttrIdtf x)))"

definition ASLSRVC_getWriteReqObj ::
    "mem \<Rightarrow> addr \<Rightarrow> u16 \<Rightarrow> WRITE_REQ_SRVC \<Rightarrow> WRITE_REQ_SRVC \<times> addr option" where
  "ASLSRVC_getWriteReqObj = get_object
     [read_oids,
      read_u8 (\<lambda>v x. x\<lparr>m_ucReqID := v\<rparr>),
      read_aid WRITE_REQ_SRVC.m_stAttrIdtf (\<lambda>v x. x\<lparr>WRITE_REQ_SRVC.m_stAttrIdtf := v\<rparr>),
      read_payload (\<lambda>n x. x\<lparr>WRITE_REQ_SRVC.m_unLen := n\<rparr>) (\<lambda>q x. x\<lparr>WRITE_REQ_SRVC.p_pReqData := q\<rparr>)]"

definition ASLSRVC_setWriteRspObj :: "WRITE_RSP_SRVC \<Rightarrow> u16 \<Rightarrow> u8 list option" where
  "ASLSRVC_setWriteRspObj x p_unOutBufLen =
     (if unat p_unOutBufLen < 5 + 1 + 1 + 1 then None
      else Some (
        ASLSRVC_insertAPDUHeader SRVC_RESPONSE SRVC_TYPE_WRITE (m_unSrcOID x) (m_unDstOID x)
        @ [m_ucReqID x] @ [WRITE_RSP_SRVC.m_ucFECCE x AND 1] @ [WRITE_RSP_SRVC.m_ucSFC x]))"

definition ASLSRVC_getWriteRspObj ::
    "mem \<Rightarrow> addr \<Rightarrow> u16 \<Rightarrow> WRITE_RSP_SRVC \<Rightarrow> WRITE_RSP_SRVC \<times> addr option" where
  "ASLSRVC_getWriteRspObj = get_object
     [read_oids,
      read_u8 (\<lambda>v x. x\<lparr>m_ucReqID := v\<rparr>),
      read_u8 (\<lambda>v x. x\<lparr>WRITE_RSP_SRVC.m_ucFECCE := v\<rparr>),
      read_u8 (\<lambda>v x. x\<lparr>WRITE_RSP_SRVC.m_ucSFC := v\<rparr>)]"

subsection \<open>Execute\<close>

definition ASLSRVC_setExecuteReqObj :: "mem \<Rightarrow> EXEC_REQ_SRVC \<Rightarrow> u16 \<Rightarrow> u8 list option" where
  "ASLSRVC_setExecuteReqObj m x p_unOutBufLen =
     (if unat p_unOutBufLen < 5 + 1 + 3 + unat (EXEC_REQ_SRVC.m_unLen x) then None
      else Some (
        ASLSRVC_insertAPDUHeader SRVC_REQUEST SRVC_TYPE_EXECUTE (m_unSrcOID x) (m_unDstOID x)
        @ [m_ucReqID x] @ [m_ucMethID x] @ ASLSRVC_insertExtensibleValue (EXEC_REQ_SRVC.m_unLen x)
        @ mem_bytes m (EXEC_REQ_SRVC.p_pReqData x) (unat (EXEC_REQ_SRVC.m_unLen x))))"

definition ASLSRVC_getExecuteReqObj ::
    "mem \<Rightarrow> addr \<Rightarrow> u16 \<Rightarrow> EXEC_REQ_SRVC \<Rightarrow> EXEC_REQ_SRVC \<times> addr option" where
  "ASLSRVC_getExecuteReqObj = get_object
     [read_oids,
      read_u8 (\<lambda>v x. x\<lparr>m_ucReqID := v\<rparr>),
      read_u8 (\<lambda>v x. x\<lparr>m_ucMethID := v\<rparr>),
      read_payload (\<lambda>n x. x\<lparr>EXEC_REQ_SRVC.m_unLen := n\<rparr>) (\<lambda>q x. x\<lparr>EXEC_REQ_SRVC.p_pReqData := q\<rparr>)]"

definition ASLSRVC_setExecuteRspObj :: "mem \<Rightarrow> EXEC_RSP_SRVC \<Rightarrow> u16 \<Rightarrow> u8 list option" where
  "ASLSRVC_setExecuteRspObj m x p_unOutBufLen =
     (if unat p_unOutBufLen < 5 + 1 + 1 + 1 + 2 + unat (EXEC_RSP_SRVC.m_unLen x) then None
      else Some (
        ASLSRVC_insertAPDUHeader SRVC_RESPONSE SRVC_TYPE_EXECUTE (m_unSrcOID x) (m_unDstOID x)
        @ [m_ucReqID x] @ [EXEC_RSP_SRVC.m_ucFECCE x AND 1] @ [EXEC_RSP_SRVC.m_ucSFC x]
        @ ASLSRVC_insertExtensibleValue (EXEC_RSP_SRVC.m_unLen x)
        @ (if EXEC_RSP_SRVC.m_unLen x \<noteq> 0
           then mem_bytes m (EXEC_RSP_SRVC.p_pRspData x) (unat (EXEC_RSP_SRVC.m_unLen x)) else [])))"

definition ASLSRVC_getExecuteRspObj ::
    "mem \<Rightarrow> addr \<Rightarrow> u16 \<Rightarrow> EXEC_RSP_SRVC \<Rightarrow> EXEC_RSP_SRVC \<times> addr option" where
  "ASLSRVC_getExecuteRspObj = get_object
     [read_oids,
      read_u8 (\<lambda>v x. x\<lparr>m_ucReqID := v\<rparr>),
      read_u8 (\<lambda>v x. x\<lparr>EXEC_RSP_SRVC.m_ucFECCE := v\<rparr>),
      read_u8 (\<lambda>v x. x\<lparr>EXEC_RSP_SRVC.m_ucSFC := v\<rparr>),
      read_payload_if (\<lambda>n x. x\<lparr>EXEC_RSP_SRVC.m_unLen := n\<rparr>) (\<lambda>q x. x\<lparr>EXEC_RSP_SRVC.p_pRspData := q\<rparr>)]"

subsection \<open>Tunnel\<close>

text \<open>Both tunnel binarizers put the type \<^verbatim>\<open>SRVC_TYPE_EXECUTE\<close> in the header.\<close>

definition ASLSRVC_setTunnelReqObj :: "mem \<Rightarrow> TUNNEL_REQ_SRVC \<Rightarrow> u16 \<Rightarrow> u8 list option" where
  "ASLSRVC_setTunnelReqObj m x p_unOutBufLen =
     (if unat p_unOutBufLen < 5 + 1 + 3 + unat (TUNNEL_REQ_SRVC.m_unLen x) then None
      else Some (
        ASLSRVC_insertAPDUHeader SRVC_REQUEST SRVC_TYPE_EXECUTE (m_unSrcOID x) (m_unDstOID x)
        @ ASLSRVC_insertExtensibleValue (TUNNEL_REQ_SRVC.m_unLen x)
        @ mem_bytes m (TUNNEL_REQ_SRVC.m_pReqData x) (unat (TUNNEL_REQ_SRVC.m_unLen x))))"

definition ASLSRVC_getTunnelReqObj ::
    "mem \<Rightarrow> addr \<Rightarrow> u16 \<Rightarrow> TUNNEL_REQ_SRVC \<Rightarrow> TUNNEL_REQ_SRVC \<times> addr option" where
  "ASLSRVC_getTunnelReqObj = get_object
     [read_oids,
      read_payload (\<lambda>n x. x\<lparr>TUNNEL_REQ_SRVC.m_unLen := n\<rparr>) (\<lambda>q x. x\<lparr>TUNNEL_REQ_SRVC.m_pReqData := q\<rparr>)]"

definition ASLSRVC_setTunnelRspObj :: "mem \<Rightarrow> TUNNEL_RSP_SRVC \<Rightarrow> u16 \<Rightarrow> u8 list option" where
  "ASLSRVC_setTunnelRspObj m x p_unOutBufLen =
     (if unat p_unOutBufLen < 5 + 1 + 1 + 1 + 2 + unat (TUNNEL_RSP_SRVC.m_unLen x) then None
      else Some (
        ASLSRVC_insertAPDUHeader SRVC_RESPONSE SRVC_TYPE_EXECUTE (m_unSrcOID x) (m_unDstOID x)
        @ [TUNNEL_RSP_SRVC.m_ucFECCE x AND 1]
        @ ASLSRVC_insertExtensibleValue (TUNNEL_RSP_SRVC.m_unLen x)
        @ (if TUNNEL_RSP_SRVC.m_unLen x \<noteq> 0
           then mem_bytes m (TUNNEL_RSP_SRVC.m_pRspData x) (unat (TUNNEL_RSP_SRVC.m_unLen x)) else [])))"

definition ASLSRVC_getTunnelRspObj ::
    "mem \<Rightarrow> addr \<Rightarrow> u16 \<Rightarrow> TUNNEL_RSP_SRVC \<Rightarrow> TUNNEL_RSP_SRVC \<times> addr option" where
  "ASLSRVC_getTunnelRspObj = get_object
     [read_oids,
      read_u8 (\<lambda>v x. x\<lparr>TUNNEL_RSP_SRVC.m_ucFECCE := v\<rparr>),
      read_payload_if (\<lambda>n x. x\<lparr>TUNNEL_RSP_SRVC.m_unLen := n\<rparr>)
        (\<lambda>q x. x\<lparr>TUNNEL_RSP_SRVC.m_pRspData := q\<rparr>)]"

subsection \<open>Alerts\<close>

text \<open>Class, direction, category and priority share an octet, packed \<^verbatim>\<open>xyzzwwww\<close>.\<close>

definition alert_octet :: "'a ALERT_INFO_scheme \<Rightarrow> u8" where
  "alert_octet x =
     push_bit 7 (m_ucClass x) OR (push_bit 6 (m_ucDirection x) AND 0x40)
     OR (push_bit 4 (m_ucCategory x) AND 0x30) OR (ALERT_INFO.m_ucPriority x AND 0x0F)"

definition ASLSRVC_setAlertRepObj :: "mem \<Rightarrow> ALERT_REP_SRVC \<Rightarrow> u16 \<Rightarrow> u8 list option" where
  "ASLSRVC_setAlertRepObj m x p_unOutBufLen =
     (let i = m_stAlertInfo x
      in if unat p_unOutBufLen < 5 + 1 + 2 + 2 + 6 + 1 + 1 + 2 + unat (ALERT_INFO.m_unSize i) then None
         else Some (
           ASLSRVC_insertAPDUHeader SRVC_REQUEST SRVC_TYPE_ALERT_REP (m_unSrcOID x) (m_unDstOID x)
           @ [m_ucID i]
           @ [ucast (drop_bit 8 (m_unDetObjTLPort i)), ucast (m_unDetObjTLPort i)]
           @ [ucast (drop_bit 8 (m_unDetObjID i)), ucast (m_unDetObjID i)]
           @ [ucast (drop_bit 24 (m_ulSeconds i)), ucast (drop_bit 16 (m_ulSeconds i)),
              ucast (drop_bit 8 (m_ulSeconds i)), ucast (m_ulSeconds i)]
           @ [ucast (drop_bit 8 (m_unFract i)), ucast (m_unFract i)]
           @ [alert_octet i]
           @ [m_ucType i]
           @ ASLSRVC_insertExtensibleValue (ALERT_INFO.m_unSize i)
           @ mem_bytes m (m_pAlertValue x) (unat (ALERT_INFO.m_unSize i))))"

definition put_alert_octet :: "u8 \<Rightarrow> ALERT \<Rightarrow> ALERT" where
  "put_alert_octet b i = i\<lparr>
     m_ucClass := drop_bit 7 (b AND 0x80), m_ucDirection := drop_bit 6 (b AND 0x40),
     m_ucCategory := drop_bit 4 (b AND 0x30), ALERT_INFO.m_ucPriority := b AND 0x0F\<rparr>"

abbreviation in_alert :: "('v \<Rightarrow> ALERT \<Rightarrow> ALERT) \<Rightarrow> 'v \<Rightarrow> ALERT_REP_SRVC \<Rightarrow> ALERT_REP_SRVC" where
  "in_alert put v x \<equiv> x\<lparr>m_stAlertInfo := put v (m_stAlertInfo x)\<rparr>"

definition ASLSRVC_getAlertRepObj ::
    "mem \<Rightarrow> addr \<Rightarrow> u16 \<Rightarrow> ALERT_REP_SRVC \<Rightarrow> ALERT_REP_SRVC \<times> addr option" where
  "ASLSRVC_getAlertRepObj = get_object
     [read_oids,
      read_u8 (in_alert (\<lambda>v i. i\<lparr>m_ucID := v\<rparr>)),
      read_u16 (in_alert (\<lambda>v i. i\<lparr>m_unDetObjTLPort := v\<rparr>)),
      read_u16 (in_alert (\<lambda>v i. i\<lparr>m_unDetObjID := v\<rparr>)),
      read_u32 (in_alert (\<lambda>v i. i\<lparr>m_ulSeconds := v\<rparr>)),
      read_u16 (in_alert (\<lambda>v i. i\<lparr>m_unFract := v\<rparr>)),
      read_u8 (in_alert put_alert_octet),
      read_u8 (in_alert (\<lambda>v i. i\<lparr>m_ucType := v\<rparr>)),
      read_payload (in_alert (\<lambda>v i. i\<lparr>ALERT_INFO.m_unSize := v\<rparr>)) (\<lambda>q x. x\<lparr>m_pAlertValue := q\<rparr>)]"

definition ASLSRVC_setAlertAckObj :: "ALERT_ACK_SRVC \<Rightarrow> u16 \<Rightarrow> u8 list option" where
  "ASLSRVC_setAlertAckObj x p_unOutBufLen =
     (if unat p_unOutBufLen < 5 + 1 then None
      else Some (
        ASLSRVC_insertAPDUHeader SRVC_REQUEST SRVC_TYPE_ALERT_ACK (m_unSrcOID x) (m_unDstOID x)
        @ [m_ucAlertID x]))"

definition ASLSRVC_getAlertAckObj ::
    "mem \<Rightarrow> addr \<Rightarrow> u16 \<Rightarrow> ALERT_ACK_SRVC \<Rightarrow> ALERT_ACK_SRVC \<times> addr option" where
  "ASLSRVC_getAlertAckObj = get_object [read_oids, read_u8 (\<lambda>v x. x\<lparr>m_ucAlertID := v\<rparr>)]"

subsection \<open>Publish\<close>

text \<open>
  The publish binarizer marks its APDU as a response and stores the length of the data; the parser
  takes everything after the header as data and never returns \<^verbatim>\<open>NULL\<close>.
\<close>

definition ASLSRVC_setPublishObj :: "mem \<Rightarrow> PUBLISH_SRVC \<Rightarrow> u16 \<Rightarrow> u8 list option" where
  "ASLSRVC_setPublishObj m x p_unOutBufLen =
     (if unat p_unOutBufLen < 5 + 1 + 2 + unat (PUBLISH_SRVC.m_unSize x) then None
      else Some (
        ASLSRVC_insertAPDUHeader SRVC_RESPONSE SRVC_TYPE_PUBLISH (m_unPubOID x) (m_unSubOID x)
        @ (if m_ucNativePublish x \<noteq> 0 then [m_ucContentVersion x] else [])
        @ [m_ucFreqSeqNo x]
        @ ASLSRVC_insertExtensibleValue (PUBLISH_SRVC.m_unSize x)
        @ mem_bytes m (m_pData x) (unat (PUBLISH_SRVC.m_unSize x))))"

definition ASLSRVC_getPublishObj ::
    "u8 \<Rightarrow> mem \<Rightarrow> addr \<Rightarrow> u16 \<Rightarrow> PUBLISH_SRVC \<Rightarrow> PUBLISH_SRVC \<times> addr option" where
  "ASLSRVC_getPublishObj g_bNativePublish m p_pData p_unDataLen x =
     (let pDataStart = p_pData;
          ((s, d), p_pData) = ASLSRVC_extractAPDUHeader (m_unPubOID x, m_unSubOID x) m p_pData;
          x = x\<lparr>m_unPubOID := s, m_unSubOID := d, m_ucNativePublish := g_bNativePublish,
                PUBLISH_SRVC.m_unSize := p_unDataLen - word_of_nat (p_pData - pDataStart), m_pData := p_pData\<rparr>;
          (x, p_pData) = (if g_bNativePublish \<noteq> 0
             then (x\<lparr>m_ucContentVersion := m p_pData\<rparr>, p_pData + 1) else (x, p_pData));
          x = x\<lparr>m_ucFreqSeqNo := m p_pData\<rparr>
      in (x, Some (pDataStart + unat p_unDataLen)))"

end
