(* ===== verification/Asl_Codecs.thy ===== *)
theory Asl_Codecs
  imports Asl_Services
begin

text \<open>
  Correctness of the ASL codecs. Each field reader is bounded and reads back what the binarizer
  stores; by composition every parser satisfies the contract \<open>bounded_parser\<close> (it returns a position
  inside the caller's length, and its result does not depend on any byte behind that position), and
  every service is recovered by its parser from what its binarizer stored.
\<close>

section \<open>Bounds of the field readers\<close>

named_theorems reader_bounds \<open>bounds of the field readers\<close>

lemma bounded_read_oids [reader_bounds]: "bounded_reader 1 5 read_oids"
proof (rule bounded_readerI)
  fix m p and x y :: "'a SRVC_OIDS_scheme" and b
  assume "read_oids m p x = (y, b)"
  then show "p + 1 \<le> b \<and> b \<le> p + 5"
    using extract_header_bounds by (fastforce simp: read_oids_def split: prod.splits)
next
  fix m m' p and x y :: "'a SRVC_OIDS_scheme" and b
  assume e: "read_oids m p x = (y, b)" and "agree m m' p b"
  moreover obtain s d where "ASLSRVC_extractAPDUHeader (m_unSrcOID x, m_unDstOID x) m p = ((s, d), b)"
    using e by (auto simp: read_oids_def split: prod.splits)
  ultimately show "read_oids m' p x = (y, b)"
    using extract_header_local [of "(m_unSrcOID x, m_unDstOID x)" m p "(s, d)" b m'] by (simp add: read_oids_def)
qed

lemma bounded_read_u8 [reader_bounds]: "bounded_reader 1 1 (read_u8 put)"
  by (rule bounded_readerI) (auto simp: read_u8_def agree_def)

lemma bounded_read_u16 [reader_bounds]: "bounded_reader 2 2 (read_u16 put)"
  by (rule bounded_readerI) (auto simp: read_u16_def DMAP_ExtractUint16_def agree_def)

lemma bounded_read_u32 [reader_bounds]: "bounded_reader 4 4 (read_u32 put)"
  by (rule bounded_readerI) (auto simp: read_u32_def DMAP_ExtractUint32_def agree_def)

lemma bounded_read_aid [reader_bounds]: "bounded_reader 1 6 (read_aid get put)"
proof (rule bounded_readerI)
  fix m p x y b
  assume "read_aid get put m p x = (y, b)"
  then show "p + 1 \<le> b \<and> b \<le> p + 6"
    using extract_aid_bounds by (fastforce simp: read_aid_def split: prod.splits)
next
  fix m m' p x y b
  assume e: "read_aid get put m p x = (y, b)" and "agree m m' p b"
  moreover obtain v where "ASLSRVC_extractAID (get x) m p = (v, b)"
    using e by (auto simp: read_aid_def split: prod.splits)
  ultimately show "read_aid get put m' p x = (y, b)"
    using extract_aid_local [of "get x" m p v b m'] by (simp add: read_aid_def)
qed

lemma extract_value_le: "ASLSRVC_extractExtensibleValue m p = (n, c) \<Longrightarrow> unat n \<le> 32767"
  using extract_value_bounds [of m p n c] by (simp add: word_le_nat_alt)

lemma bounded_read_payload [reader_bounds]: "bounded_reader 1 32769 (read_payload put_len put_ptr)"
proof (rule bounded_readerI)
  fix m p x y b
  assume "read_payload put_len put_ptr m p x = (y, b)"
  then show "p + 1 \<le> b \<and> b \<le> p + 32769"
    using extract_value_bounds [of m p] extract_value_le [of m p]
    by (fastforce simp: read_payload_def split: prod.splits)
next
  fix m m' p x y b
  assume e: "read_payload put_len put_ptr m p x = (y, b)" and ag: "agree m m' p b"
  obtain n c where v: "ASLSRVC_extractExtensibleValue m p = (n, c)" by fastforce
  with e have "c \<le> b" by (auto simp: read_payload_def)
  with ag have "agree m m' p c" by (auto elim: agree_sub)
  then show "read_payload put_len put_ptr m' p x = (y, b)"
    using e v extract_value_local [OF v] by (simp add: read_payload_def)
qed

lemma bounded_read_payload_if [reader_bounds]: "bounded_reader 1 32769 (read_payload_if put_len put_ptr)"
proof (rule bounded_readerI)
  fix m p x y b
  assume "read_payload_if put_len put_ptr m p x = (y, b)"
  then show "p + 1 \<le> b \<and> b \<le> p + 32769"
    using extract_value_bounds [of m p] extract_value_le [of m p]
    by (fastforce simp: read_payload_if_def split: prod.splits if_splits)
next
  fix m m' p x y b
  assume e: "read_payload_if put_len put_ptr m p x = (y, b)" and ag: "agree m m' p b"
  obtain n c where v: "ASLSRVC_extractExtensibleValue m p = (n, c)" by fastforce
  with e have "c \<le> b" by (auto simp: read_payload_if_def split: if_splits)
  with ag have "agree m m' p c" by (auto elim: agree_sub)
  then show "read_payload_if put_len put_ptr m' p x = (y, b)"
    using e v extract_value_local [OF v] by (simp add: read_payload_if_def)
qed

lemma bounded_read_rsp_data [reader_bounds]: "bounded_reader 0 32769 read_rsp_data"
proof (rule bounded_readerI)
  fix m p x y b
  assume "read_rsp_data m p x = (y, b)"
  then show "p + 0 \<le> b \<and> b \<le> p + 32769"
    using bounded_readerD [OF bounded_read_payload]
    by (fastforce simp: read_rsp_data_def split: if_splits)
next
  fix m m' p x y b
  assume "read_rsp_data m p x = (y, b)" "agree m m' p b"
  then show "read_rsp_data m' p x = (y, b)"
    using bounded_readerD(3) [OF bounded_read_payload]
    by (auto simp: read_rsp_data_def split: if_splits)
qed

section \<open>Every parser is a bounded parser\<close>

text \<open>The parser of the publish service takes no part: it accepts any length.\<close>

interpretation read_req: bounded_parser ASLSRVC_getReadReqObj
  unfolding ASLSRVC_getReadReqObj_def
  by (rule get_object_bounded, (rule bounded_reader_Cons bounded_reader_Nil reader_bounds)+) simp_all

interpretation read_rsp: bounded_parser ASLSRVC_getReadRspObj
  unfolding ASLSRVC_getReadRspObj_def
  by (rule get_object_bounded, (rule bounded_reader_Cons bounded_reader_Nil reader_bounds)+) simp_all

interpretation write_req: bounded_parser ASLSRVC_getWriteReqObj
  unfolding ASLSRVC_getWriteReqObj_def
  by (rule get_object_bounded, (rule bounded_reader_Cons bounded_reader_Nil reader_bounds)+) simp_all

interpretation write_rsp: bounded_parser ASLSRVC_getWriteRspObj
  unfolding ASLSRVC_getWriteRspObj_def
  by (rule get_object_bounded, (rule bounded_reader_Cons bounded_reader_Nil reader_bounds)+) simp_all

interpretation execute_req: bounded_parser ASLSRVC_getExecuteReqObj
  unfolding ASLSRVC_getExecuteReqObj_def
  by (rule get_object_bounded, (rule bounded_reader_Cons bounded_reader_Nil reader_bounds)+) simp_all

interpretation execute_rsp: bounded_parser ASLSRVC_getExecuteRspObj
  unfolding ASLSRVC_getExecuteRspObj_def
  by (rule get_object_bounded, (rule bounded_reader_Cons bounded_reader_Nil reader_bounds)+) simp_all

interpretation tunnel_req: bounded_parser ASLSRVC_getTunnelReqObj
  unfolding ASLSRVC_getTunnelReqObj_def
  by (rule get_object_bounded, (rule bounded_reader_Cons bounded_reader_Nil reader_bounds)+) simp_all

interpretation tunnel_rsp: bounded_parser ASLSRVC_getTunnelRspObj
  unfolding ASLSRVC_getTunnelRspObj_def
  by (rule get_object_bounded, (rule bounded_reader_Cons bounded_reader_Nil reader_bounds)+) simp_all

interpretation alert_rep: bounded_parser ASLSRVC_getAlertRepObj
  unfolding ASLSRVC_getAlertRepObj_def
  by (rule get_object_bounded, (rule bounded_reader_Cons bounded_reader_Nil reader_bounds)+) simp_all

interpretation alert_ack: bounded_parser ASLSRVC_getAlertAckObj
  unfolding ASLSRVC_getAlertAckObj_def
  by (rule get_object_bounded, (rule bounded_reader_Cons bounded_reader_Nil reader_bounds)+) simp_all

section \<open>What the field readers recover\<close>

named_theorems reader_values \<open>what the field readers recover from the binarizers' bytes\<close>

lemma reads_oids:
  "ty < 0x20 \<Longrightarrow> reads read_oids (ASLSRVC_insertAPDUHeader prim ty s d)
     (\<lambda>p x. x\<lparr>m_unSrcOID := s, m_unDstOID := d\<rparr>)"
  by (simp add: reads_def read_oids_def header_roundtrip)

lemma reads_u8: "reads (read_u8 put) [v] (\<lambda>p. put v)"
  by (simp add: reads_def read_u8_def)

lemma reads_u16: "reads (read_u16 put) [ucast (drop_bit 8 v), ucast v] (\<lambda>p. put v)"
  using uint16_codec.ext_ins by (simp add: reads_def read_u16_def DMAP_InsertUint16_def)

lemma reads_u32:
  "reads (read_u32 put) [ucast (drop_bit 24 v), ucast (drop_bit 16 v), ucast (drop_bit 8 v), ucast v]
     (\<lambda>p. put v)"
  using uint32_codec.ext_ins by (simp add: reads_def read_u32_def DMAP_InsertUint32_def)

lemma reads_aid:
  assumes "ASLSRVC_insertAID a = Some bs" and "m_ucAttrFormat a \<le> ATTR_TWO_INDEX"
  shows "reads (read_aid get put) bs (\<lambda>p x. put (aid_read (get x) a) x)"
  using aid_roundtrip [OF assms] by (simp add: reads_def read_aid_def)

lemma reads_payload:
  assumes "n \<le> 0x7FFF" and "length bs = unat n"
  shows "reads (read_payload put_len put_ptr) (ASLSRVC_insertExtensibleValue n @ bs)
     (\<lambda>p x. put_ptr (p + length (ASLSRVC_insertExtensibleValue n)) (put_len n x))"
  using ext_value_roundtrip [OF assms(1)] assms(2) by (auto simp: reads_def read_payload_def)

lemma reads_payload_if:
  assumes "n \<le> 0x7FFF" and "length bs = unat n"
  shows "reads (read_payload_if put_len put_ptr) (ASLSRVC_insertExtensibleValue n @ bs)
     (\<lambda>p x. if n = 0 then put_len n x
            else put_ptr (p + length (ASLSRVC_insertExtensibleValue n)) (put_len n x))"
  using ext_value_roundtrip [OF assms(1)] assms(2) by (auto simp: reads_def read_payload_if_def)

lemma reads_sfc_data:
  assumes "sfc = SFC_SUCCESS \<Longrightarrow> n \<le> 0x7FFF \<and> length bs = unat n"
  shows "reads (read_fields [read_u8 (\<lambda>v x. x\<lparr>READ_RSP_SRVC.m_ucSFC := v\<rparr>), read_rsp_data])
     ([sfc] @ (if sfc = SFC_SUCCESS then ASLSRVC_insertExtensibleValue n @ bs else []))
     (\<lambda>p x. if sfc = SFC_SUCCESS
        then x\<lparr>READ_RSP_SRVC.m_ucSFC := sfc, READ_RSP_SRVC.m_unLen := n,
               READ_RSP_SRVC.m_pRspData := p + 1 + length (ASLSRVC_insertExtensibleValue n)\<rparr>
        else x\<lparr>READ_RSP_SRVC.m_ucSFC := sfc\<rparr>)"
proof (cases "sfc = SFC_SUCCESS")
  case True
  with assms have n: "n \<le> 0x7FFF" "length bs = unat n" by simp_all
  then show ?thesis using True ext_value_roundtrip [OF n(1)]
    by (auto simp: reads_def read_u8_def read_rsp_data_def read_payload_def)
next
  case False
  then show ?thesis by (simp add: reads_def read_u8_def read_rsp_data_def)
qed

section \<open>Round trips of the services\<close>

lemma readReq_roundtrip:
  assumes set: "ASLSRVC_setReadReqObj x n = Some bs"
    and fmt: "m_ucAttrFormat (READ_REQ_SRVC.m_stAttrIdtf x) \<le> ATTR_TWO_INDEX"
    and h: "holds m a bs" and len: "length bs \<le> unat len"
  shows "ASLSRVC_getReadReqObj m a len old =
     (x\<lparr>READ_REQ_SRVC.m_stAttrIdtf := aid_read (READ_REQ_SRVC.m_stAttrIdtf old) (READ_REQ_SRVC.m_stAttrIdtf x)\<rparr>,
      Some (a + length bs))"
proof -
  obtain aid where aid: "ASLSRVC_insertAID (READ_REQ_SRVC.m_stAttrIdtf x) = Some aid"
      and bs: "bs = ASLSRVC_insertAPDUHeader 0 3 (m_unSrcOID x) (m_unDstOID x) @ [m_ucReqID x] @ aid"
    using set by (auto simp: ASLSRVC_setReadReqObj_def split: if_splits)
  note r = get_object_reads [OF reads_Cons [OF reads_oids
        reads_Cons [OF reads_u8 reads_single [OF reads_aid [OF aid fmt]]]] h [unfolded bs] len [unfolded bs]]
  show ?thesis unfolding ASLSRVC_getReadReqObj_def bs by (simp add: r)
qed

lemma writeReq_roundtrip:
  assumes set: "ASLSRVC_setWriteReqObj src x n = Some bs"
    and fmt: "m_ucAttrFormat (WRITE_REQ_SRVC.m_stAttrIdtf x) \<le> ATTR_TWO_INDEX"
    and n15: "WRITE_REQ_SRVC.m_unLen x \<le> 0x7FFF"
    and h: "holds m a bs" and len: "length bs \<le> unat len"
  shows "ASLSRVC_getWriteReqObj m a len old =
      (x\<lparr>WRITE_REQ_SRVC.m_stAttrIdtf := aid_read (WRITE_REQ_SRVC.m_stAttrIdtf old) (WRITE_REQ_SRVC.m_stAttrIdtf x),
         WRITE_REQ_SRVC.p_pReqData := a + length bs - unat (WRITE_REQ_SRVC.m_unLen x)\<rparr>, Some (a + length bs))"
    and "holds m (a + length bs - unat (WRITE_REQ_SRVC.m_unLen x)) (mem_bytes src (WRITE_REQ_SRVC.p_pReqData x) (unat (WRITE_REQ_SRVC.m_unLen x)))"
proof -
  obtain aid where aid: "ASLSRVC_insertAID (WRITE_REQ_SRVC.m_stAttrIdtf x) = Some aid"
      and bs: "bs = ASLSRVC_insertAPDUHeader 0 4 (m_unSrcOID x) (m_unDstOID x) @ [m_ucReqID x] @ aid @
         ASLSRVC_insertExtensibleValue (WRITE_REQ_SRVC.m_unLen x) @ mem_bytes src (WRITE_REQ_SRVC.p_pReqData x) (unat (WRITE_REQ_SRVC.m_unLen x))"
    using set by (auto simp: ASLSRVC_setWriteReqObj_def split: if_splits)
  note r = get_object_reads [OF reads_Cons [OF reads_oids reads_Cons [OF reads_u8
        reads_Cons [OF reads_aid [OF aid fmt] reads_single [OF reads_payload [OF n15]]]]] h [unfolded bs] len [unfolded bs]]
  show "ASLSRVC_getWriteReqObj m a len old =
      (x\<lparr>WRITE_REQ_SRVC.m_stAttrIdtf := aid_read (WRITE_REQ_SRVC.m_stAttrIdtf old) (WRITE_REQ_SRVC.m_stAttrIdtf x),
         WRITE_REQ_SRVC.p_pReqData := a + length bs - unat (WRITE_REQ_SRVC.m_unLen x)\<rparr>, Some (a + length bs))"
    unfolding ASLSRVC_getWriteReqObj_def bs by (simp add: r)
  show "holds m (a + length bs - unat (WRITE_REQ_SRVC.m_unLen x)) (mem_bytes src (WRITE_REQ_SRVC.p_pReqData x) (unat (WRITE_REQ_SRVC.m_unLen x)))"
    using h unfolding bs by (simp add: add.assoc eval_nat_numeral)
qed

lemma executeReq_roundtrip:
  assumes set: "ASLSRVC_setExecuteReqObj src x n = Some bs"
    and n15: "EXEC_REQ_SRVC.m_unLen x \<le> 0x7FFF"
    and h: "holds m a bs" and len: "length bs \<le> unat len"
  shows "ASLSRVC_getExecuteReqObj m a len old =
      (x\<lparr>EXEC_REQ_SRVC.p_pReqData := a + length bs - unat (EXEC_REQ_SRVC.m_unLen x)\<rparr>, Some (a + length bs))"
    and "holds m (a + length bs - unat (EXEC_REQ_SRVC.m_unLen x)) (mem_bytes src (EXEC_REQ_SRVC.p_pReqData x) (unat (EXEC_REQ_SRVC.m_unLen x)))"
proof -
  have bs: "bs = ASLSRVC_insertAPDUHeader 0 5 (m_unSrcOID x) (m_unDstOID x) @ [m_ucReqID x] @ [m_ucMethID x] @
         ASLSRVC_insertExtensibleValue (EXEC_REQ_SRVC.m_unLen x) @ mem_bytes src (EXEC_REQ_SRVC.p_pReqData x) (unat (EXEC_REQ_SRVC.m_unLen x))"
    using set by (auto simp: ASLSRVC_setExecuteReqObj_def split: if_splits)
  note r = get_object_reads [OF reads_Cons [OF reads_oids reads_Cons [OF reads_u8
        reads_Cons [OF reads_u8 reads_single [OF reads_payload [OF n15]]]]] h [unfolded bs] len [unfolded bs]]
  show "ASLSRVC_getExecuteReqObj m a len old =
      (x\<lparr>EXEC_REQ_SRVC.p_pReqData := a + length bs - unat (EXEC_REQ_SRVC.m_unLen x)\<rparr>, Some (a + length bs))"
    unfolding ASLSRVC_getExecuteReqObj_def bs by (simp add: r)
  show "holds m (a + length bs - unat (EXEC_REQ_SRVC.m_unLen x)) (mem_bytes src (EXEC_REQ_SRVC.p_pReqData x) (unat (EXEC_REQ_SRVC.m_unLen x)))"
    using h unfolding bs by (simp add: add.assoc eval_nat_numeral)
qed

lemma executeRsp_roundtrip:
  assumes set: "ASLSRVC_setExecuteRspObj src x n = Some bs"
    and n15: "EXEC_RSP_SRVC.m_unLen x \<le> 0x7FFF"
    and h: "holds m a bs" and len: "length bs \<le> unat len"
  shows "ASLSRVC_getExecuteRspObj m a len old =
      (x\<lparr>EXEC_RSP_SRVC.m_ucFECCE := EXEC_RSP_SRVC.m_ucFECCE x AND 1,
         EXEC_RSP_SRVC.p_pRspData := (if EXEC_RSP_SRVC.m_unLen x = 0 then EXEC_RSP_SRVC.p_pRspData old
           else a + length bs - unat (EXEC_RSP_SRVC.m_unLen x))\<rparr>, Some (a + length bs))"
    and "holds m (a + length bs - unat (EXEC_RSP_SRVC.m_unLen x)) (mem_bytes src (EXEC_RSP_SRVC.p_pRspData x) (unat (EXEC_RSP_SRVC.m_unLen x)))"
proof -
  have bs: "bs = ASLSRVC_insertAPDUHeader 1 5 (m_unSrcOID x) (m_unDstOID x) @ [m_ucReqID x] @ [EXEC_RSP_SRVC.m_ucFECCE x AND 1] @ [EXEC_RSP_SRVC.m_ucSFC x] @
         ASLSRVC_insertExtensibleValue (EXEC_RSP_SRVC.m_unLen x) @ mem_bytes src (EXEC_RSP_SRVC.p_pRspData x) (unat (EXEC_RSP_SRVC.m_unLen x))"
    using set by (auto simp: ASLSRVC_setExecuteRspObj_def split: if_splits)
  note r = get_object_reads [OF reads_Cons [OF reads_oids reads_Cons [OF reads_u8
        reads_Cons [OF reads_u8 reads_Cons [OF reads_u8 reads_single [OF reads_payload_if [OF n15]]]]]] h [unfolded bs] len [unfolded bs]]
  show "ASLSRVC_getExecuteRspObj m a len old =
      (x\<lparr>EXEC_RSP_SRVC.m_ucFECCE := EXEC_RSP_SRVC.m_ucFECCE x AND 1,
         EXEC_RSP_SRVC.p_pRspData := (if EXEC_RSP_SRVC.m_unLen x = 0 then EXEC_RSP_SRVC.p_pRspData old
           else a + length bs - unat (EXEC_RSP_SRVC.m_unLen x))\<rparr>, Some (a + length bs))"
    unfolding ASLSRVC_getExecuteRspObj_def bs by (simp add: r)
  show "holds m (a + length bs - unat (EXEC_RSP_SRVC.m_unLen x)) (mem_bytes src (EXEC_RSP_SRVC.p_pRspData x) (unat (EXEC_RSP_SRVC.m_unLen x)))"
    using h unfolding bs by (simp add: add.assoc eval_nat_numeral)
qed

lemma tunnelReq_roundtrip:
  assumes set: "ASLSRVC_setTunnelReqObj src x n = Some bs"
    and n15: "TUNNEL_REQ_SRVC.m_unLen x \<le> 0x7FFF"
    and h: "holds m a bs" and len: "length bs \<le> unat len"
  shows "ASLSRVC_getTunnelReqObj m a len old =
      (x\<lparr>TUNNEL_REQ_SRVC.m_pReqData := a + length bs - unat (TUNNEL_REQ_SRVC.m_unLen x)\<rparr>, Some (a + length bs))"
    and "holds m (a + length bs - unat (TUNNEL_REQ_SRVC.m_unLen x)) (mem_bytes src (TUNNEL_REQ_SRVC.m_pReqData x) (unat (TUNNEL_REQ_SRVC.m_unLen x)))"
proof -
  have bs: "bs = ASLSRVC_insertAPDUHeader 0 5 (m_unSrcOID x) (m_unDstOID x) @ 
         ASLSRVC_insertExtensibleValue (TUNNEL_REQ_SRVC.m_unLen x) @ mem_bytes src (TUNNEL_REQ_SRVC.m_pReqData x) (unat (TUNNEL_REQ_SRVC.m_unLen x))"
    using set by (auto simp: ASLSRVC_setTunnelReqObj_def split: if_splits)
  note r = get_object_reads [OF reads_Cons [OF reads_oids reads_single [OF reads_payload [OF n15]]] h [unfolded bs] len [unfolded bs]]
  show "ASLSRVC_getTunnelReqObj m a len old =
      (x\<lparr>TUNNEL_REQ_SRVC.m_pReqData := a + length bs - unat (TUNNEL_REQ_SRVC.m_unLen x)\<rparr>, Some (a + length bs))"
    unfolding ASLSRVC_getTunnelReqObj_def bs by (simp add: r)
  show "holds m (a + length bs - unat (TUNNEL_REQ_SRVC.m_unLen x)) (mem_bytes src (TUNNEL_REQ_SRVC.m_pReqData x) (unat (TUNNEL_REQ_SRVC.m_unLen x)))"
    using h unfolding bs by (simp add: add.assoc eval_nat_numeral)
qed

lemma tunnelRsp_roundtrip:
  assumes set: "ASLSRVC_setTunnelRspObj src x n = Some bs"
    and n15: "TUNNEL_RSP_SRVC.m_unLen x \<le> 0x7FFF"
    and h: "holds m a bs" and len: "length bs \<le> unat len"
  shows "ASLSRVC_getTunnelRspObj m a len old =
      (x\<lparr>TUNNEL_RSP_SRVC.m_ucFECCE := TUNNEL_RSP_SRVC.m_ucFECCE x AND 1,
         TUNNEL_RSP_SRVC.m_pRspData := (if TUNNEL_RSP_SRVC.m_unLen x = 0 then TUNNEL_RSP_SRVC.m_pRspData old
           else a + length bs - unat (TUNNEL_RSP_SRVC.m_unLen x))\<rparr>, Some (a + length bs))"
    and "holds m (a + length bs - unat (TUNNEL_RSP_SRVC.m_unLen x)) (mem_bytes src (TUNNEL_RSP_SRVC.m_pRspData x) (unat (TUNNEL_RSP_SRVC.m_unLen x)))"
proof -
  have bs: "bs = ASLSRVC_insertAPDUHeader 1 5 (m_unSrcOID x) (m_unDstOID x) @ [TUNNEL_RSP_SRVC.m_ucFECCE x AND 1] @
         ASLSRVC_insertExtensibleValue (TUNNEL_RSP_SRVC.m_unLen x) @ mem_bytes src (TUNNEL_RSP_SRVC.m_pRspData x) (unat (TUNNEL_RSP_SRVC.m_unLen x))"
    using set by (auto simp: ASLSRVC_setTunnelRspObj_def split: if_splits)
  note r = get_object_reads [OF reads_Cons [OF reads_oids reads_Cons [OF reads_u8 reads_single [OF reads_payload_if [OF n15]]]] h [unfolded bs] len [unfolded bs]]
  show "ASLSRVC_getTunnelRspObj m a len old =
      (x\<lparr>TUNNEL_RSP_SRVC.m_ucFECCE := TUNNEL_RSP_SRVC.m_ucFECCE x AND 1,
         TUNNEL_RSP_SRVC.m_pRspData := (if TUNNEL_RSP_SRVC.m_unLen x = 0 then TUNNEL_RSP_SRVC.m_pRspData old
           else a + length bs - unat (TUNNEL_RSP_SRVC.m_unLen x))\<rparr>, Some (a + length bs))"
    unfolding ASLSRVC_getTunnelRspObj_def bs by (simp add: r)
  show "holds m (a + length bs - unat (TUNNEL_RSP_SRVC.m_unLen x)) (mem_bytes src (TUNNEL_RSP_SRVC.m_pRspData x) (unat (TUNNEL_RSP_SRVC.m_unLen x)))"
    using h unfolding bs by (simp add: add.assoc eval_nat_numeral)
qed

lemma writeRsp_roundtrip:
  assumes set: "ASLSRVC_setWriteRspObj x n = Some bs"
    and h: "holds m a bs" and len: "length bs \<le> unat len"
  shows "ASLSRVC_getWriteRspObj m a len old =
     (x\<lparr>WRITE_RSP_SRVC.m_ucFECCE := WRITE_RSP_SRVC.m_ucFECCE x AND 1\<rparr>, Some (a + length bs))"
proof -
  have bs: "bs = ASLSRVC_insertAPDUHeader 1 4 (m_unSrcOID x) (m_unDstOID x) @ [m_ucReqID x]
      @ [WRITE_RSP_SRVC.m_ucFECCE x AND 1] @ [WRITE_RSP_SRVC.m_ucSFC x]"
    using set by (auto simp: ASLSRVC_setWriteRspObj_def split: if_splits)
  note r = get_object_reads [OF reads_Cons [OF reads_oids reads_Cons [OF reads_u8
        reads_Cons [OF reads_u8 reads_single [OF reads_u8]]]] h [unfolded bs] len [unfolded bs]]
  show ?thesis unfolding ASLSRVC_getWriteRspObj_def bs by (simp add: r)
qed

lemma alertAck_roundtrip:
  assumes set: "ASLSRVC_setAlertAckObj x n = Some bs"
    and h: "holds m a bs" and len: "length bs \<le> unat len"
  shows "ASLSRVC_getAlertAckObj m a len old = (x, Some (a + length bs))"
proof -
  have bs: "bs = ASLSRVC_insertAPDUHeader 0 2 (m_unSrcOID x) (m_unDstOID x) @ [m_ucAlertID x]"
    using set by (auto simp: ASLSRVC_setAlertAckObj_def split: if_splits)
  note r = get_object_reads [OF reads_Cons [OF reads_oids reads_single [OF reads_u8]] h [unfolded bs] len [unfolded bs]]
  show ?thesis unfolding ASLSRVC_getAlertAckObj_def bs by (simp add: r)
qed

lemma readRsp_roundtrip:
  assumes set: "ASLSRVC_setReadRspObj src x n = (x', Some bs)"
    and n15: "READ_RSP_SRVC.m_ucSFC x = SFC_SUCCESS \<longrightarrow> READ_RSP_SRVC.m_unLen x \<le> 0x7FFF"
    and h: "holds m a bs" and len: "length bs \<le> unat len"
  shows "ASLSRVC_getReadRspObj m a len old =
     (if READ_RSP_SRVC.m_ucSFC x = SFC_SUCCESS
      then x\<lparr>READ_RSP_SRVC.m_ucFECCE := READ_RSP_SRVC.m_ucFECCE x AND 1,
             READ_RSP_SRVC.m_pRspData := a + length bs - unat (READ_RSP_SRVC.m_unLen x)\<rparr>
      else x\<lparr>READ_RSP_SRVC.m_ucFECCE := READ_RSP_SRVC.m_ucFECCE x AND 1,
             READ_RSP_SRVC.m_unLen := READ_RSP_SRVC.m_unLen old,
             READ_RSP_SRVC.m_pRspData := READ_RSP_SRVC.m_pRspData old\<rparr>, Some (a + length bs))"
    and "READ_RSP_SRVC.m_ucSFC x = SFC_SUCCESS \<longrightarrow>
      holds m (a + length bs - unat (READ_RSP_SRVC.m_unLen x))
        (mem_bytes src (READ_RSP_SRVC.m_pRspData x) (unat (READ_RSP_SRVC.m_unLen x)))"
proof -
  have bs: "bs = ASLSRVC_insertAPDUHeader 1 3 (m_unSrcOID x) (m_unDstOID x) @ [m_ucReqID x]
      @ [READ_RSP_SRVC.m_ucFECCE x AND 1] @ [READ_RSP_SRVC.m_ucSFC x]
      @ (if READ_RSP_SRVC.m_ucSFC x = SFC_SUCCESS then
           ASLSRVC_insertExtensibleValue (READ_RSP_SRVC.m_unLen x)
           @ mem_bytes src (READ_RSP_SRVC.m_pRspData x) (unat (READ_RSP_SRVC.m_unLen x)) else [])"
    using set by (auto simp: ASLSRVC_setReadRspObj_def Let_def split: if_splits)
  have "READ_RSP_SRVC.m_ucSFC x = SFC_SUCCESS \<Longrightarrow> READ_RSP_SRVC.m_unLen x \<le> 0x7FFF \<and>
      length (mem_bytes src (READ_RSP_SRVC.m_pRspData x) (unat (READ_RSP_SRVC.m_unLen x))) =
        unat (READ_RSP_SRVC.m_unLen x)"
    using n15 by simp
  note r = get_object_reads [OF reads_Cons [OF reads_oids reads_Cons [OF reads_u8 reads_Cons [OF reads_u8 reads_sfc_data [OF this]]]]
      h [unfolded bs] len [unfolded bs]]
  show "ASLSRVC_getReadRspObj m a len old =
     (if READ_RSP_SRVC.m_ucSFC x = SFC_SUCCESS
      then x\<lparr>READ_RSP_SRVC.m_ucFECCE := READ_RSP_SRVC.m_ucFECCE x AND 1,
             READ_RSP_SRVC.m_pRspData := a + length bs - unat (READ_RSP_SRVC.m_unLen x)\<rparr>
      else x\<lparr>READ_RSP_SRVC.m_ucFECCE := READ_RSP_SRVC.m_ucFECCE x AND 1,
             READ_RSP_SRVC.m_unLen := READ_RSP_SRVC.m_unLen old,
             READ_RSP_SRVC.m_pRspData := READ_RSP_SRVC.m_pRspData old\<rparr>, Some (a + length bs))"
    unfolding ASLSRVC_getReadRspObj_def bs by (simp add: r)
  show "READ_RSP_SRVC.m_ucSFC x = SFC_SUCCESS \<longrightarrow>
      holds m (a + length bs - unat (READ_RSP_SRVC.m_unLen x))
        (mem_bytes src (READ_RSP_SRVC.m_pRspData x) (unat (READ_RSP_SRVC.m_unLen x)))"
    using h unfolding bs
    by (cases "READ_RSP_SRVC.m_ucSFC x = SFC_SUCCESS") (simp_all add: add.assoc eval_nat_numeral)
qed

text \<open>The packed octet of an alert carries the low bits of its four fields.\<close>

lemma alert_octet_fields:
  fixes i :: "'a ALERT_INFO_scheme"
  assumes "m_ucClass i < 2" "m_ucDirection i < 2" "m_ucCategory i < 4" "ALERT_INFO.m_ucPriority i < 16"
  shows "drop_bit 7 (alert_octet i AND 0x80) = m_ucClass i"
    and "drop_bit 6 (alert_octet i AND 0x40) = m_ucDirection i"
    and "drop_bit 4 (alert_octet i AND 0x30) = m_ucCategory i"
    and "alert_octet i AND 0x0F = ALERT_INFO.m_ucPriority i"
proof -
  have t: "take_bit 1 (m_ucClass i) = m_ucClass i" "take_bit 1 (m_ucDirection i) = m_ucDirection i"
      "take_bit 2 (m_ucCategory i) = m_ucCategory i"
      "take_bit 4 (ALERT_INFO.m_ucPriority i) = ALERT_INFO.m_ucPriority i"
    by (rule take_bit_eq_self_if_less, use assms in simp)+
  note f = t [THEN bit_of_fitting]
  show "drop_bit 7 (alert_octet i AND 0x80) = m_ucClass i"
    by (rule bit_word_eqI) (auto simp: alert_octet_def bit_simps mask_bits dest: f)
  show "drop_bit 6 (alert_octet i AND 0x40) = m_ucDirection i"
    by (rule bit_word_eqI) (auto simp: alert_octet_def bit_simps mask_bits dest: f)
  show "drop_bit 4 (alert_octet i AND 0x30) = m_ucCategory i"
    by (rule bit_word_eqI) (auto simp: alert_octet_def bit_simps mask_bits dest: f)
  show "alert_octet i AND 0x0F = ALERT_INFO.m_ucPriority i"
    by (rule bit_word_eqI) (auto simp: alert_octet_def bit_simps mask_bits dest: f)
qed

lemma put_alert_octet_alert_octet:
  assumes "m_ucClass i < 2" "m_ucDirection i < 2" "m_ucCategory i < 4" "ALERT_INFO.m_ucPriority i < 16"
  shows "put_alert_octet (alert_octet i) j = j\<lparr>m_ucClass := m_ucClass i, m_ucDirection := m_ucDirection i,
     m_ucCategory := m_ucCategory i, ALERT_INFO.m_ucPriority := ALERT_INFO.m_ucPriority i\<rparr>"
  unfolding put_alert_octet_def alert_octet_fields [OF assms] by (rule refl)

lemma alertRep_roundtrip:
  assumes set: "ASLSRVC_setAlertRepObj src x n = Some bs"
    and n15: "ALERT_INFO.m_unSize (m_stAlertInfo x) \<le> 0x7FFF"
    and oct: "m_ucClass (m_stAlertInfo x) < 2" "m_ucDirection (m_stAlertInfo x) < 2"
      "m_ucCategory (m_stAlertInfo x) < 4" "ALERT_INFO.m_ucPriority (m_stAlertInfo x) < 16"
    and h: "holds m a bs" and len: "length bs \<le> unat len"
  shows "ASLSRVC_getAlertRepObj m a len old =
     (x\<lparr>m_stAlertInfo := (m_stAlertInfo x)\<lparr>m_ulNextSendTAI := m_ulNextSendTAI (m_stAlertInfo old)\<rparr>,
        m_pAlertValue := a + length bs - unat (ALERT_INFO.m_unSize (m_stAlertInfo x))\<rparr>, Some (a + length bs))"
    and "holds m (a + length bs - unat (ALERT_INFO.m_unSize (m_stAlertInfo x)))
      (mem_bytes src (m_pAlertValue x) (unat (ALERT_INFO.m_unSize (m_stAlertInfo x))))"
proof -
  let ?i = "m_stAlertInfo x"
  have bs: "bs = ASLSRVC_insertAPDUHeader 0 1 (m_unSrcOID x) (m_unDstOID x) @ [m_ucID ?i]
      @ [ucast (drop_bit 8 (m_unDetObjTLPort ?i)), ucast (m_unDetObjTLPort ?i)]
      @ [ucast (drop_bit 8 (m_unDetObjID ?i)), ucast (m_unDetObjID ?i)]
      @ [ucast (drop_bit 24 (m_ulSeconds ?i)), ucast (drop_bit 16 (m_ulSeconds ?i)),
         ucast (drop_bit 8 (m_ulSeconds ?i)), ucast (m_ulSeconds ?i)]
      @ [ucast (drop_bit 8 (m_unFract ?i)), ucast (m_unFract ?i)] @ [alert_octet ?i] @ [m_ucType ?i]
      @ ASLSRVC_insertExtensibleValue (ALERT_INFO.m_unSize ?i)
      @ mem_bytes src (m_pAlertValue x) (unat (ALERT_INFO.m_unSize ?i))"
    using set by (auto simp: ASLSRVC_setAlertRepObj_def Let_def split: if_splits)
  note r = get_object_reads [OF reads_Cons [OF reads_oids reads_Cons [OF reads_u8 reads_Cons [OF reads_u16
      reads_Cons [OF reads_u16 reads_Cons [OF reads_u32 reads_Cons [OF reads_u16 reads_Cons [OF reads_u8
      reads_Cons [OF reads_u8 reads_single [OF reads_payload [OF n15]]]]]]]]]] h [unfolded bs] len [unfolded bs]]
  show "ASLSRVC_getAlertRepObj m a len old =
     (x\<lparr>m_stAlertInfo := ?i\<lparr>m_ulNextSendTAI := m_ulNextSendTAI (m_stAlertInfo old)\<rparr>,
        m_pAlertValue := a + length bs - unat (ALERT_INFO.m_unSize ?i)\<rparr>, Some (a + length bs))"
    unfolding ASLSRVC_getAlertRepObj_def bs
    by (simp add: r put_alert_octet_alert_octet oct)
  show "holds m (a + length bs - unat (ALERT_INFO.m_unSize ?i))
      (mem_bytes src (m_pAlertValue x) (unat (ALERT_INFO.m_unSize ?i)))"
    using h unfolding bs by (simp add: add.assoc eval_nat_numeral)
qed


end
