(* ===== verification/Asl_Dispatch.thy ===== *)
theory Asl_Dispatch
  imports Asl_Codecs
begin

text \<open>
  The generic entry points of \<^verbatim>\<open>aslsrvc.cpp\<close> over all services: the switch that binarizes an object
  by its service type and \<^verbatim>\<open>ASLSRVC_GetGenericObject\<close>, which parses the next object of a buffer and
  counts malformed ones. The union \<^verbatim>\<open>m_stSRVC\<close> is a datatype with one constructor per member;
  \<open>SRVC_UNION\<close> says how the bytes that are in the union before the call read as each member, since a
  parser keeps the fields that are not on the wire.
\<close>

section \<open>The union of the services\<close>

datatype ASL_SRVC =
    ReadReq READ_REQ_SRVC
  | ReadRsp READ_RSP_SRVC
  | WriteReq WRITE_REQ_SRVC
  | WriteRsp WRITE_RSP_SRVC
  | ExecReq EXEC_REQ_SRVC
  | ExecRsp EXEC_RSP_SRVC
  | TunnelReq TUNNEL_REQ_SRVC
  | TunnelRsp TUNNEL_RSP_SRVC
  | AlertRep ALERT_REP_SRVC
  | AlertAck ALERT_ACK_SRVC
  | Publish PUBLISH_SRVC

record SRVC_UNION =
  m_stReadReq :: READ_REQ_SRVC
  m_stReadRsp :: READ_RSP_SRVC
  m_stWriteReq :: WRITE_REQ_SRVC
  m_stWriteRsp :: WRITE_RSP_SRVC
  m_stExecReq :: EXEC_REQ_SRVC
  m_stExecRsp :: EXEC_RSP_SRVC
  m_stTunnelReq :: TUNNEL_REQ_SRVC
  m_stTunnelRsp :: TUNNEL_RSP_SRVC
  m_stAlertRep :: ALERT_REP_SRVC
  m_stAlertAck :: ALERT_ACK_SRVC
  m_stPublish :: PUBLISH_SRVC

abbreviation (input) SRVC_PUBLISH :: u8 where "SRVC_PUBLISH \<equiv> 0x00"
abbreviation (input) SRVC_ALERT_REP :: u8 where "SRVC_ALERT_REP \<equiv> 0x01"
abbreviation (input) SRVC_ALERT_ACK :: u8 where "SRVC_ALERT_ACK \<equiv> 0x02"
abbreviation (input) SRVC_READ_REQ :: u8 where "SRVC_READ_REQ \<equiv> 0x03"
abbreviation (input) SRVC_WRITE_REQ :: u8 where "SRVC_WRITE_REQ \<equiv> 0x04"
abbreviation (input) SRVC_EXEC_REQ :: u8 where "SRVC_EXEC_REQ \<equiv> 0x05"
abbreviation (input) SRVC_TUNNEL_REQ :: u8 where "SRVC_TUNNEL_REQ \<equiv> 0x06"
abbreviation (input) SRVC_READ_RSP :: u8 where "SRVC_READ_RSP \<equiv> 0x83"
abbreviation (input) SRVC_WRITE_RSP :: u8 where "SRVC_WRITE_RSP \<equiv> 0x84"
abbreviation (input) SRVC_EXEC_RSP :: u8 where "SRVC_EXEC_RSP \<equiv> 0x85"
abbreviation (input) SRVC_TUNNEL_RSP :: u8 where "SRVC_TUNNEL_RSP \<equiv> 0x86"

fun service_type :: "ASL_SRVC \<Rightarrow> u8" where
  "service_type (ReadReq x) = SRVC_READ_REQ"
| "service_type (ReadRsp x) = SRVC_READ_RSP"
| "service_type (WriteReq x) = SRVC_WRITE_REQ"
| "service_type (WriteRsp x) = SRVC_WRITE_RSP"
| "service_type (ExecReq x) = SRVC_EXEC_REQ"
| "service_type (ExecRsp x) = SRVC_EXEC_RSP"
| "service_type (TunnelReq x) = SRVC_TUNNEL_REQ"
| "service_type (TunnelRsp x) = SRVC_TUNNEL_RSP"
| "service_type (AlertRep x) = SRVC_ALERT_REP"
| "service_type (AlertAck x) = SRVC_ALERT_ACK"
| "service_type (Publish x) = SRVC_PUBLISH"

text \<open>The switch of \<^verbatim>\<open>ASLSRVC_AddGenericObjectEncryptableCore\<close> over the binarizers.\<close>

fun ASLSRVC_binarize :: "mem \<Rightarrow> ASL_SRVC \<Rightarrow> u16 \<Rightarrow> u8 list option" where
  "ASLSRVC_binarize m (ReadRsp x) n = snd (ASLSRVC_setReadRspObj m x n)"
| "ASLSRVC_binarize m (WriteRsp x) n = ASLSRVC_setWriteRspObj x n"
| "ASLSRVC_binarize m (ExecRsp x) n = ASLSRVC_setExecuteRspObj m x n"
| "ASLSRVC_binarize m (TunnelRsp x) n = ASLSRVC_setTunnelRspObj m x n"
| "ASLSRVC_binarize m (ReadReq x) n = ASLSRVC_setReadReqObj x n"
| "ASLSRVC_binarize m (WriteReq x) n = ASLSRVC_setWriteReqObj m x n"
| "ASLSRVC_binarize m (ExecReq x) n = ASLSRVC_setExecuteReqObj m x n"
| "ASLSRVC_binarize m (TunnelReq x) n = ASLSRVC_setTunnelReqObj m x n"
| "ASLSRVC_binarize m (Publish x) n = ASLSRVC_setPublishObj m x n"
| "ASLSRVC_binarize m (AlertRep x) n = ASLSRVC_setAlertRepObj m x n"
| "ASLSRVC_binarize m (AlertAck x) n = ASLSRVC_setAlertAckObj x n"

text \<open>
  The switch of \<^verbatim>\<open>ASLSRVC_GetGenericObject\<close> over the parsers: the member that was filled (none for an
  unknown type) and \<^verbatim>\<open>pNext\<close>.
\<close>

definition get_by_type ::
    "u8 \<Rightarrow> u8 \<Rightarrow> mem \<Rightarrow> addr \<Rightarrow> u16 \<Rightarrow> SRVC_UNION \<Rightarrow> ASL_SRVC option \<times> addr option" where
  "get_by_type g_bNativePublish t m p n u =
     (if t = SRVC_READ_RSP then
        apfst (\<lambda>x. Some (ReadRsp x)) (ASLSRVC_getReadRspObj m p n (m_stReadRsp u))
      else if t = SRVC_WRITE_RSP then
        apfst (\<lambda>x. Some (WriteRsp x)) (ASLSRVC_getWriteRspObj m p n (m_stWriteRsp u))
      else if t = SRVC_EXEC_RSP then
        apfst (\<lambda>x. Some (ExecRsp x)) (ASLSRVC_getExecuteRspObj m p n (m_stExecRsp u))
      else if t = SRVC_TUNNEL_RSP then
        apfst (\<lambda>x. Some (TunnelRsp x)) (ASLSRVC_getTunnelRspObj m p n (m_stTunnelRsp u))
      else if t = SRVC_READ_REQ then
        apfst (\<lambda>x. Some (ReadReq x)) (ASLSRVC_getReadReqObj m p n (m_stReadReq u))
      else if t = SRVC_WRITE_REQ then
        apfst (\<lambda>x. Some (WriteReq x)) (ASLSRVC_getWriteReqObj m p n (m_stWriteReq u))
      else if t = SRVC_EXEC_REQ then
        apfst (\<lambda>x. Some (ExecReq x)) (ASLSRVC_getExecuteReqObj m p n (m_stExecReq u))
      else if t = SRVC_TUNNEL_REQ then
        apfst (\<lambda>x. Some (TunnelReq x)) (ASLSRVC_getTunnelReqObj m p n (m_stTunnelReq u))
      else if t = SRVC_PUBLISH then
        apfst (\<lambda>x. Some (Publish x)) (ASLSRVC_getPublishObj g_bNativePublish m p n (m_stPublish u))
      else if t = SRVC_ALERT_REP then
        apfst (\<lambda>x. Some (AlertRep x)) (ASLSRVC_getAlertRepObj m p n (m_stAlertRep u))
      else if t = SRVC_ALERT_ACK then
        apfst (\<lambda>x. Some (AlertAck x)) (ASLSRVC_getAlertAckObj m p n (m_stAlertAck u))
      else (None, None))"

text \<open>
  The result of \<^verbatim>\<open>ASLSRVC_GetGenericObject\<close>: the type and member left in the object (\<open>None\<close> when
  the buffer is empty), the next position, and the management object after a malformed APDU was
  counted.
\<close>

definition ASLSRVC_GetGenericObject ::
    "u8 \<Rightarrow> mem \<Rightarrow> addr \<Rightarrow> u16 \<Rightarrow> SRVC_UNION \<Rightarrow> u8 list option \<Rightarrow> aslmo_state \<Rightarrow>
     ((u8 \<times> ASL_SRVC option) option \<times> addr option \<times> aslmo_state) option" where
  "ASLSRVC_GetGenericObject g_bNativePublish m p_pInBuffer p_unInBufLen u p_pSrcAddr128 s =
     (if p_unInBufLen = 0 then Some (None, None, s)
      else let ucType = m p_pInBuffer AND 0x9F;
               (x, pNext) = get_by_type g_bNativePublish ucType m p_pInBuffer p_unInBufLen u
           in case pNext of
                Some q \<Rightarrow> Some (Some (ucType, x), pNext, s)
              | None \<Rightarrow> map_option (\<lambda>s. (Some (ucType, x), pNext, s)) (ASLMO_AddMalformedAPDU p_pSrcAddr128 s))"

section \<open>Services that the parser recovers\<close>

text \<open>
  \<open>transportable x\<close>: the payload length fits the 15 bits of an extensible value, the attribute format
  is one of the three defined ones and the packed fields of an alert are within their bits. Tunnel and
  publish services are left out, because their binarizers use the header of another service.
\<close>

fun transportable :: "ASL_SRVC \<Rightarrow> bool" where
  "transportable (ReadReq x) = (m_ucAttrFormat (READ_REQ_SRVC.m_stAttrIdtf x) \<le> ATTR_TWO_INDEX)"
| "transportable (ReadRsp x) = (READ_RSP_SRVC.m_ucSFC x = SFC_SUCCESS \<longrightarrow> READ_RSP_SRVC.m_unLen x \<le> 0x7FFF)"
| "transportable (WriteReq x) = (m_ucAttrFormat (WRITE_REQ_SRVC.m_stAttrIdtf x) \<le> ATTR_TWO_INDEX \<and>
     WRITE_REQ_SRVC.m_unLen x \<le> 0x7FFF)"
| "transportable (WriteRsp x) = True"
| "transportable (ExecReq x) = (EXEC_REQ_SRVC.m_unLen x \<le> 0x7FFF)"
| "transportable (ExecRsp x) = (EXEC_RSP_SRVC.m_unLen x \<le> 0x7FFF)"
| "transportable (AlertRep x) = (ALERT_INFO.m_unSize (m_stAlertInfo x) \<le> 0x7FFF \<and>
     m_ucClass (m_stAlertInfo x) < 2 \<and> m_ucDirection (m_stAlertInfo x) < 2 \<and>
     m_ucCategory (m_stAlertInfo x) < 4 \<and> ALERT_INFO.m_ucPriority (m_stAlertInfo x) < 16)"
| "transportable (AlertAck x) = True"
| "transportable _ = False"

text \<open>
  The object a receiver ends with: the sender's, its payload pointer at \<open>q\<close>, with the fields that are
  not on the wire as the union held them.
\<close>

fun as_received :: "SRVC_UNION \<Rightarrow> addr \<Rightarrow> ASL_SRVC \<Rightarrow> ASL_SRVC" where
  "as_received u q (ReadReq x) = ReadReq (x\<lparr>READ_REQ_SRVC.m_stAttrIdtf :=
     aid_read (READ_REQ_SRVC.m_stAttrIdtf (m_stReadReq u)) (READ_REQ_SRVC.m_stAttrIdtf x)\<rparr>)"
| "as_received u q (ReadRsp x) = ReadRsp (
     if READ_RSP_SRVC.m_ucSFC x = SFC_SUCCESS
     then x\<lparr>READ_RSP_SRVC.m_ucFECCE := READ_RSP_SRVC.m_ucFECCE x AND 1, READ_RSP_SRVC.m_pRspData := q\<rparr>
     else x\<lparr>READ_RSP_SRVC.m_ucFECCE := READ_RSP_SRVC.m_ucFECCE x AND 1,
            READ_RSP_SRVC.m_unLen := READ_RSP_SRVC.m_unLen (m_stReadRsp u),
            READ_RSP_SRVC.m_pRspData := READ_RSP_SRVC.m_pRspData (m_stReadRsp u)\<rparr>)"
| "as_received u q (WriteReq x) = WriteReq (x\<lparr>WRITE_REQ_SRVC.m_stAttrIdtf :=
     aid_read (WRITE_REQ_SRVC.m_stAttrIdtf (m_stWriteReq u)) (WRITE_REQ_SRVC.m_stAttrIdtf x),
     WRITE_REQ_SRVC.p_pReqData := q\<rparr>)"
| "as_received u q (WriteRsp x) = WriteRsp (x\<lparr>WRITE_RSP_SRVC.m_ucFECCE := WRITE_RSP_SRVC.m_ucFECCE x AND 1\<rparr>)"
| "as_received u q (ExecReq x) = ExecReq (x\<lparr>EXEC_REQ_SRVC.p_pReqData := q\<rparr>)"
| "as_received u q (ExecRsp x) = ExecRsp (x\<lparr>EXEC_RSP_SRVC.m_ucFECCE := EXEC_RSP_SRVC.m_ucFECCE x AND 1,
     EXEC_RSP_SRVC.p_pRspData := (if EXEC_RSP_SRVC.m_unLen x = 0
       then EXEC_RSP_SRVC.p_pRspData (m_stExecRsp u) else q)\<rparr>)"
| "as_received u q (AlertRep x) = AlertRep (x\<lparr>m_stAlertInfo :=
     (m_stAlertInfo x)\<lparr>m_ulNextSendTAI := m_ulNextSendTAI (m_stAlertInfo (m_stAlertRep u))\<rparr>,
     m_pAlertValue := q\<rparr>)"
| "as_received u q x = x"

text \<open>The payload a service carries, read in the memory its pointer points into.\<close>

fun payload :: "mem \<Rightarrow> ASL_SRVC \<Rightarrow> u8 list" where
  "payload m (ReadRsp x) = (if READ_RSP_SRVC.m_ucSFC x = SFC_SUCCESS
     then mem_bytes m (READ_RSP_SRVC.m_pRspData x) (unat (READ_RSP_SRVC.m_unLen x)) else [])"
| "payload m (WriteReq x) = mem_bytes m (WRITE_REQ_SRVC.p_pReqData x) (unat (WRITE_REQ_SRVC.m_unLen x))"
| "payload m (ExecReq x) = mem_bytes m (EXEC_REQ_SRVC.p_pReqData x) (unat (EXEC_REQ_SRVC.m_unLen x))"
| "payload m (ExecRsp x) = mem_bytes m (EXEC_RSP_SRVC.p_pRspData x) (unat (EXEC_RSP_SRVC.m_unLen x))"
| "payload m (AlertRep x) =
     mem_bytes m (m_pAlertValue x) (unat (ALERT_INFO.m_unSize (m_stAlertInfo x)))"
| "payload m x = []"

section \<open>Facts about the dispatcher\<close>

lemma apfst_Pair_iff: "apfst f r = (x, b) \<longleftrightarrow> (\<exists>y. r = (y, b) \<and> x = f y)"
  by (cases r) auto

lemmas parser_within =
  read_req.get_within read_rsp.get_within write_req.get_within write_rsp.get_within
  execute_req.get_within execute_rsp.get_within tunnel_req.get_within tunnel_rsp.get_within
  alert_rep.get_within alert_ack.get_within

lemmas parser_local =
  read_req.get_local read_rsp.get_local write_req.get_local write_rsp.get_local
  execute_req.get_local execute_rsp.get_local tunnel_req.get_local tunnel_rsp.get_local
  alert_rep.get_local alert_ack.get_local

lemma publish_next: "snd (ASLSRVC_getPublishObj g m p n x) = Some (p + unat n)"
  by (simp add: ASLSRVC_getPublishObj_def Let_def split: prod.splits)

lemma get_by_type_within:
  assumes "get_by_type g t m p n u = (x, Some q)" and "n \<noteq> 0"
  shows "p < q \<and> q \<le> p + unat n"
proof (cases "t = SRVC_PUBLISH")
  case True
  have "0 < unat n" using assms(2) by (simp add: unat_gt_0)
  then show ?thesis using True assms(1) publish_next [of g m p n "m_stPublish u"]
    by (auto simp: get_by_type_def apfst_Pair_iff)
next
  case False
  then show ?thesis using assms(1)
    unfolding get_by_type_def
    by (auto simp: apfst_Pair_iff split: if_splits dest: parser_within)
qed

lemma get_by_type_local:
  assumes "get_by_type g t m p n u = (x, Some q)" and "t \<noteq> SRVC_PUBLISH" and "agree m m' p q"
  shows "get_by_type g t m' p n u = (x, Some q)"
  using assms(1,2)
  unfolding get_by_type_def
  by (auto simp: apfst_Pair_iff split: if_splits intro: parser_local [OF _ assms(3)])

lemma GetGenericObject_SomeD:
  assumes "ASLSRVC_GetGenericObject g m p n u src s = Some (r, Some q, s')"
  shows "n \<noteq> 0" and "s' = s"
    and "\<exists>x. r = Some (m p AND 0x9F, x) \<and> get_by_type g (m p AND 0x9F) m p n u = (x, Some q)"
  using assms
  by (auto simp: ASLSRVC_GetGenericObject_def Let_def split: if_splits prod.splits option.splits)

lemma GetGenericObject_eqI:
  assumes "n \<noteq> 0" and "get_by_type g (m p AND 0x9F) m p n u = (x, Some q)"
  shows "ASLSRVC_GetGenericObject g m p n u src s = Some (Some (m p AND 0x9F, x), Some q, s)"
  using assms by (simp add: ASLSRVC_GetGenericObject_def Let_def)

section \<open>The processing loop\<close>

text \<open>
  The loop of \<^verbatim>\<open>DMAP_Task\<close> that takes the objects of a received APDU one after the other
  (\<^verbatim>\<open>while ((pNext = ASLSRVC_GetGenericObject(pNext, m_unDataLen - (pNext - pAPDUStart), ...)))\<close>); the
  objects are collected in the order they are dispatched. \<open>us i\<close> is what the union of
  \<^verbatim>\<open>stGenSrvc\<close> holds before the \<open>i\<close>-th call.
\<close>

function parse_apdus :: "u8 \<Rightarrow> mem \<Rightarrow> (nat \<Rightarrow> SRVC_UNION) \<Rightarrow> u8 list option \<Rightarrow> nat \<Rightarrow> addr \<Rightarrow> u16 \<Rightarrow>
    aslmo_state \<Rightarrow> (ASL_SRVC list \<times> aslmo_state) option" where
  "parse_apdus g m us src i p n s =
     (case ASLSRVC_GetGenericObject g m p n (us i) src s of
        Some (Some (t, Some x), Some q, s) \<Rightarrow>
          map_option (apfst (Cons x)) (parse_apdus g m us src (Suc i) q (n - word_of_nat (q - p)) s)
      | Some (_, _, s) \<Rightarrow> Some ([], s)
      | None \<Rightarrow> None)"
  by pat_completeness auto

lemma remaining_length:
  fixes n :: u16
  assumes "p < q" and "q \<le> p + unat n"
  shows "unat (n - word_of_nat (q - p)) = unat n - (q - p)"
proof -
  have "unat (word_of_nat (q - p) :: u16) = q - p"
    using assms unat_u16_less [of n] by (simp add: unsigned_of_nat take_bit_nat_eq_self del: of_nat_diff)
  then show ?thesis using assms by (subst unat_sub) (simp_all add: word_le_nat_alt del: of_nat_diff)
qed

lemma GetGenericObject_within:
  assumes "ASLSRVC_GetGenericObject g m p n u src s = Some (r, Some q, s')"
  shows "p < q" and "q \<le> p + unat n"
  using GetGenericObject_SomeD [OF assms] get_by_type_within by blast+

lemma GetGenericObject_shrinks:
  assumes "ASLSRVC_GetGenericObject g m p n u src s = Some (r, Some q, s')"
  shows "unat (n - word_of_nat (q - p)) < unat n"
  using remaining_length [OF GetGenericObject_within [OF assms]] GetGenericObject_within [OF assms]
  by linarith

termination parse_apdus
  by (relation "measure (\<lambda>(g, m, us, src, i, p, n, s). unat n)")
    (auto simp del: of_nat_diff intro: GetGenericObject_shrinks)

declare parse_apdus.simps [simp del]

section \<open>Round trip through the dispatcher\<close>

text \<open>The type the header of a binarized service really carries.\<close>

fun wire_type :: "ASL_SRVC \<Rightarrow> u8" where
  "wire_type (TunnelReq x) = SRVC_EXEC_REQ"
| "wire_type (TunnelRsp x) = SRVC_EXEC_RSP"
| "wire_type (Publish x) = 0x80"
| "wire_type x = service_type x"

lemma binarize_header:
  assumes "ASLSRVC_binarize src x n = Some bs"
  shows "\<exists>prim ty s d r. bs = ASLSRVC_insertAPDUHeader prim ty s d @ r \<and> ty < 0x20 \<and>
     push_bit 7 prim OR ty = wire_type x"
  using assms
  apply (cases x)
            apply (force simp: ASLSRVC_setReadReqObj_def ASLSRVC_setReadRspObj_def
        ASLSRVC_setWriteReqObj_def ASLSRVC_setWriteRspObj_def ASLSRVC_setExecuteReqObj_def
        ASLSRVC_setExecuteRspObj_def ASLSRVC_setTunnelReqObj_def ASLSRVC_setTunnelRspObj_def
        ASLSRVC_setAlertRepObj_def ASLSRVC_setAlertAckObj_def ASLSRVC_setPublishObj_def Let_def
       split: if_splits)+
  done


lemma get_by_type_roundtrip:
  assumes b: "ASLSRVC_binarize src x n = Some bs" and t: "transportable x"
    and h: "holds m a bs" and len: "length bs \<le> unat len"
  shows "get_by_type g (service_type x) m a len u =
     (Some (as_received u (a + length bs - length (payload src x)) x), Some (a + length bs))"
proof (cases x)
  case (ReadReq y)
  with assms show ?thesis by (simp add: get_by_type_def readReq_roundtrip)
next
  case (ReadRsp y)
  then obtain y' where "ASLSRVC_setReadRspObj src y n = (y', Some bs)"
    using b by (cases "ASLSRVC_setReadRspObj src y n") auto
  from readRsp_roundtrip(1) [OF this _ h len] ReadRsp t show ?thesis by (simp add: get_by_type_def)
next
  case (WriteReq y)
  with assms show ?thesis by (simp add: get_by_type_def writeReq_roundtrip)
next
  case (WriteRsp y)
  with assms show ?thesis by (simp add: get_by_type_def writeRsp_roundtrip)
next
  case (ExecReq y)
  with assms show ?thesis by (simp add: get_by_type_def executeReq_roundtrip)
next
  case (ExecRsp y)
  with assms show ?thesis by (simp add: get_by_type_def executeRsp_roundtrip)
next
  case (AlertRep y)
  with assms show ?thesis by (simp add: get_by_type_def alertRep_roundtrip)
next
  case (AlertAck y)
  with assms show ?thesis by (simp add: get_by_type_def alertAck_roundtrip)
qed (use t in simp_all)

lemma payload_roundtrip:
  fixes len :: u16
  assumes b: "ASLSRVC_binarize src x n = Some bs" and t: "transportable x"
    and h: "holds m a bs" and len: "length bs \<le> unat len"
  shows "payload m (as_received u (a + length bs - length (payload src x)) x) = payload src x"
proof (cases x)
  case (ReadRsp y)
  then obtain y' where y': "ASLSRVC_setReadRspObj src y n = (y', Some bs)"
    using b by (cases "ASLSRVC_setReadRspObj src y n") auto
  have "READ_RSP_SRVC.m_ucSFC y = SFC_SUCCESS \<longrightarrow> READ_RSP_SRVC.m_unLen y \<le> 0x7FFF" using t ReadRsp by simp
  from readRsp_roundtrip(2) [OF y' this h len] ReadRsp show ?thesis by (simp add: holds_mem_bytes_eq)
next
  case (WriteReq y)
  with assms show ?thesis using writeReq_roundtrip(2) [of src y n bs m a len] by (simp add: holds_mem_bytes_eq)
next
  case (ExecReq y)
  with assms show ?thesis using executeReq_roundtrip(2) [of src y n bs m a len] by (simp add: holds_mem_bytes_eq)
next
  case (ExecRsp y)
  with assms show ?thesis using executeRsp_roundtrip(2) [of src y n bs m a len]
    by (cases "EXEC_RSP_SRVC.m_unLen y = 0") (simp_all add: holds_mem_bytes_eq)
next
  case (AlertRep y)
  with assms show ?thesis using alertRep_roundtrip(2) [of src y n bs m a len] by (simp add: holds_mem_bytes_eq)
qed (use t in simp_all)

lemma binarize_nonempty:
  assumes "ASLSRVC_binarize src x n = Some bs"
  shows "0 < length bs"
  using binarize_header [OF assms] by (auto simp: ASLSRVC_insertAPDUHeader_def Let_def split: if_splits)

lemma binarize_first_octet:
  assumes "ASLSRVC_binarize src x n = Some bs" and "holds m a bs"
  shows "m a AND 0x9F = wire_type x"
proof -
  obtain prim ty s d r where bs: "bs = ASLSRVC_insertAPDUHeader prim ty s d @ r" and ty: "ty < 0x20"
      and st: "push_bit 7 prim OR ty = wire_type x"
    using binarize_header [OF assms(1)] by blast
  obtain b c where "ASLSRVC_insertAPDUHeader prim ty s d = b # c" "b AND 0x9F = push_bit 7 prim OR ty"
    using insert_header_first [OF ty, of prim s d] by blast
  then show ?thesis using bs st assms(2) by simp
qed

lemma GetGenericObject_roundtrip:
  assumes "ASLSRVC_binarize src x n = Some bs" and "transportable x"
    and "holds m a bs" and "length bs \<le> unat len"
  shows "ASLSRVC_GetGenericObject g m a len u adr s =
     Some (Some (service_type x, Some (as_received u (a + length bs - length (payload src x)) x)),
           Some (a + length bs), s)"
proof -
  have "len \<noteq> 0" using binarize_nonempty [OF assms(1)] assms(4) by auto
  moreover have "wire_type x = service_type x" using assms(2) by (cases x) simp_all
  ultimately show ?thesis
    using GetGenericObject_eqI [of len g m a u] get_by_type_roundtrip [OF assms]
      binarize_first_octet [OF assms(1,3)] by simp
qed

section \<open>Properties\<close>

text \<open>
  Any read, write, execute or alert service that the stack binarizes is recognised again by
  \<^verbatim>\<open>ASLSRVC_GetGenericObject\<close>, which returns its type, its object (payload pointer into the received
  buffer) and the position right behind it, leaves the malformed-APDU counters alone, and the payload
  the receiver reads is the sender's.
\<close>
lemma generic_object_roundtrip:
  assumes "ASLSRVC_binarize src x n = Some bs" and "transportable x"
    and "holds m a bs" and "length bs \<le> unat len"
  shows "\<exists>q. ASLSRVC_GetGenericObject g m a len u adr s =
       Some (Some (service_type x, Some (as_received u q x)), Some (a + length bs), s) \<and>
     payload m (as_received u q x) = payload src x"
  using GetGenericObject_roundtrip [OF assms] payload_roundtrip [OF assms] by blast

definition sample_exec :: ASL_SRVC where
  "sample_exec = ExecReq (EXEC_REQ_SRVC.make 7 300 9 2 3 0)"

lemma sample_exec_bytes:
  "ASLSRVC_binarize (mem_of [0xAA, 0xBB, 0xCC]) sample_exec 100 =
     Some [0x45, 0, 7, 1, 44, 9, 2, 3, 0xAA, 0xBB, 0xCC]"
  by (simp add: sample_exec_def EXEC_REQ_SRVC.make_def ASLSRVC_setExecuteReqObj_def codec_defs mem_bytes_def mem_of_def upt_rec)

text \<open>A union full of zeros.\<close>

definition zero_aid :: ATTR_IDTF where
  "zero_aid = \<lparr>m_ucAttrFormat = 0, m_unAttrID = 0, m_unIndex1 = 0, m_unIndex2 = 0\<rparr>"

definition zero_union :: SRVC_UNION where
  "zero_union = \<lparr>
     m_stReadReq = READ_REQ_SRVC.make 0 0 0 zero_aid, m_stReadRsp = READ_RSP_SRVC.make 0 0 0 0 0 0 0,
     m_stWriteReq = WRITE_REQ_SRVC.make 0 0 0 zero_aid 0 0, m_stWriteRsp = WRITE_RSP_SRVC.make 0 0 0 0 0,
     m_stExecReq = EXEC_REQ_SRVC.make 0 0 0 0 0 0, m_stExecRsp = EXEC_RSP_SRVC.make 0 0 0 0 0 0 0,
     m_stTunnelReq = TUNNEL_REQ_SRVC.make 0 0 0 0, m_stTunnelRsp = TUNNEL_RSP_SRVC.make 0 0 0 0 0,
     m_stAlertRep = ALERT_REP_SRVC.make 0 0 (ALERT.make 0 0 0 0 0 0 0 0 0 0 0 0) 0,
     m_stAlertAck = ALERT_ACK_SRVC.make 0 0 0, m_stPublish = PUBLISH_SRVC.make 0 0 0 0 0 0 0\<rparr>"

theorem generic_object_roundtrip_witness:
  "\<exists>q. ASLSRVC_GetGenericObject 0 (mem_of [0x45, 0, 7, 1, 44, 9, 2, 3, 0xAA, 0xBB, 0xCC]) 0 11 zero_union None sample_aslmo =
       Some (Some (5, Some (as_received zero_union q sample_exec)), Some 11, sample_aslmo) \<and>
     payload (mem_of [0x45, 0, 7, 1, 44, 9, 2, 3, 0xAA, 0xBB, 0xCC]) (as_received zero_union q sample_exec) =
       [0xAA, 0xBB, 0xCC]"
proof -
  have "transportable sample_exec" "service_type sample_exec = 5"
    "payload (mem_of [0xAA, 0xBB, 0xCC]) sample_exec = [0xAA, 0xBB, 0xCC]"
    by (simp_all add: sample_exec_def EXEC_REQ_SRVC.make_def mem_bytes_def mem_of_def upt_rec)
  with generic_object_roundtrip [OF sample_exec_bytes _ holds_mem_of, of 11 0 zero_union None sample_aslmo]
  show ?thesis by simp (simp add: eval_nat_numeral)
qed



lemma parse_apdus_empty: "parse_apdus g m us adr i a 0 s = Some ([], s)"
  by (subst parse_apdus.simps) (simp add: ASLSRVC_GetGenericObject_def)

lemma parse_apdus_step:
  assumes "ASLSRVC_GetGenericObject g m a len (us i) adr s = Some (Some (t, Some x), Some q, s')"
  shows "parse_apdus g m us adr i a len s =
     map_option (apfst (Cons x)) (parse_apdus g m us adr (Suc i) q (len - word_of_nat (q - a)) s')"
  by (subst parse_apdus.simps) (simp add: assms del: of_nat_diff)

lemma parse_apdus_roundtrip:
  fixes len :: u16
  assumes "list_all2 (\<lambda>x bs. ASLSRVC_binarize src x n = Some bs \<and> transportable x) xs bss"
    and "holds m a (concat bss)" and "unat len = length (concat bss)"
  shows "\<exists>ys. parse_apdus g m us adr i a len s = Some (ys, s) \<and> length ys = length xs \<and>
     (\<forall>k<length xs. \<exists>q. ys ! k = as_received (us (i + k)) q (xs ! k) \<and>
        payload m (ys ! k) = payload src (xs ! k))"
  using assms
proof (induction xs bss arbitrary: i a len rule: list_all2_induct)
  case Nil
  then have "len = 0" by (simp add: unat_eq_0)
  then show ?case by (simp add: parse_apdus_empty)
next
  case (Cons x xs bs bss)
  from Cons.hyps(1) have b: "ASLSRVC_binarize src x n = Some bs" and t: "transportable x" by simp_all
  from Cons.prems have h: "holds m a bs" and h': "holds m (a + length bs) (concat bss)"
    and len: "length bs \<le> unat len" by simp_all
  let ?q = "a + length bs - length (payload src x)"
  note g = GetGenericObject_roundtrip [OF b t h len, of g "us i" adr s]
  have "unat (len - word_of_nat (length bs)) = unat len - length bs"
    using remaining_length [of a "a + length bs" len] binarize_nonempty [OF b] len by simp
  then have l': "unat (len - word_of_nat (length bs)) = length (concat bss)" using Cons.prems(2) by simp
  obtain ys where ys: "parse_apdus g m us adr (Suc i) (a + length bs) (len - word_of_nat (length bs)) s = Some (ys, s)"
      "length ys = length xs"
      and k: "\<forall>k<length xs. \<exists>q. ys ! k = as_received (us (Suc i + k)) q (xs ! k) \<and>
        payload m (ys ! k) = payload src (xs ! k)"
    using Cons.IH [OF h' l', of "Suc i"] by blast
  have e: "parse_apdus g m us adr i a len s = Some (as_received (us i) ?q x # ys, s)"
    using parse_apdus_step [of g m a len us i, OF g] ys(1) by simp
  have "\<exists>q. (as_received (us i) ?q x # ys) ! k = as_received (us (i + k)) q ((x # xs) ! k) \<and>
        payload m ((as_received (us i) ?q x # ys) ! k) = payload src ((x # xs) ! k)"
    if "k < length (x # xs)" for k
    using k that payload_roundtrip [OF b t h len] by (cases k) auto
  with e ys(2) show ?case by auto
qed



text \<open>
  The type octet of a binarized service is the type of that service, except for three: a tunnel
  request or response leaves the stack as an execute request or response, and a publish with the
  response bit set, a type no parser of the stack accepts.
\<close>
lemma binarized_type_octet:
  assumes "ASLSRVC_binarize src x n = Some bs" and "holds m a bs"
  shows "m a AND 0x9F = (case x of TunnelReq y \<Rightarrow> SRVC_EXEC_REQ | TunnelRsp y \<Rightarrow> SRVC_EXEC_RSP
     | Publish y \<Rightarrow> 0x80 | _ \<Rightarrow> service_type x)"
  using binarize_first_octet [OF assms] by (cases x) simp_all

text \<open>
  A publish APDU of this stack is a malformed APDU to it: whatever its contents,
  \<^verbatim>\<open>ASLSRVC_GetGenericObject\<close> returns no object and charges it to the counters of the sender.
\<close>
lemma publish_apdu_rejected:
  assumes "ASLSRVC_binarize src (Publish y) n = Some bs" and "holds m a bs" and "len \<noteq> 0"
  shows "ASLSRVC_GetGenericObject g m a len u adr s =
     map_option (\<lambda>s. (Some (0x80, None), None, s)) (ASLMO_AddMalformedAPDU adr s)"
  using binarize_first_octet [OF assms(1,2)] assms(3)
  by (simp add: ASLSRVC_GetGenericObject_def get_by_type_def)

section \<open>Room in the output buffer\<close>

lemma insert_value_length: "length (ASLSRVC_insertExtensibleValue v) \<le> 2"
  by (simp add: ASLSRVC_insertExtensibleValue_def)

lemma insert_aid_length: "ASLSRVC_insertAID x = Some bs \<Longrightarrow> length bs \<le> 6"
  using insert_value_length [of "m_unIndex1 x"] insert_value_length [of "m_unIndex2 x"]
  by (auto simp: ASLSRVC_insertAID_def Let_def split: if_splits)

text \<open>What the length check of a binarizer does not count: the length field of a write request, one octet of a publish.\<close>

fun uncounted :: "ASL_SRVC \<Rightarrow> nat" where
  "uncounted (WriteReq x) = 2"
| "uncounted (Publish x) = 1"
| "uncounted y = 0"

text \<open>
  A binarized service is not longer than the buffer it is written to, except that a write request may
  be two octets and a publish one octet longer: their checks leave out the length field.
\<close>
lemma binarized_fits_buffer:
  assumes "ASLSRVC_binarize m x n = Some bs"
  shows "length bs \<le> unat n + uncounted x"
  using assms
proof (cases x)
  case (ReadReq y)
  then obtain aid where aid: "ASLSRVC_insertAID (READ_REQ_SRVC.m_stAttrIdtf y) = Some aid"
    using assms by (auto simp: ASLSRVC_setReadReqObj_def split: if_splits)
  with ReadReq show ?thesis using assms aid insert_aid_length [OF aid] insert_header_length [of "SRVC_REQUEST" "SRVC_TYPE_READ" "m_unSrcOID y" "m_unDstOID y"]
    by (auto simp: ASLSRVC_setReadReqObj_def Let_def split: if_splits)
next
  case (ReadRsp y)
  then show ?thesis using assms insert_header_length [of "SRVC_RESPONSE" "SRVC_TYPE_READ" "m_unSrcOID y" "m_unDstOID y"] insert_value_length [of "READ_RSP_SRVC.m_unLen y"]
    by (auto simp: ASLSRVC_setReadRspObj_def Let_def split: if_splits)
next
  case (WriteReq y)
  then obtain aid where aid: "ASLSRVC_insertAID (WRITE_REQ_SRVC.m_stAttrIdtf y) = Some aid"
    using assms by (auto simp: ASLSRVC_setWriteReqObj_def split: if_splits)
  with WriteReq show ?thesis using assms aid insert_aid_length [OF aid] insert_header_length [of "SRVC_REQUEST" "SRVC_TYPE_WRITE" "m_unSrcOID y" "m_unDstOID y"] insert_value_length [of "WRITE_REQ_SRVC.m_unLen y"]
    by (auto simp: ASLSRVC_setWriteReqObj_def Let_def split: if_splits)
next
  case (WriteRsp y)
  then show ?thesis using assms insert_header_length [of "SRVC_RESPONSE" "SRVC_TYPE_WRITE" "m_unSrcOID y" "m_unDstOID y"]
    by (auto simp: ASLSRVC_setWriteRspObj_def Let_def split: if_splits)
next
  case (ExecReq y)
  then show ?thesis using assms insert_header_length [of "SRVC_REQUEST" "SRVC_TYPE_EXECUTE" "m_unSrcOID y" "m_unDstOID y"] insert_value_length [of "EXEC_REQ_SRVC.m_unLen y"]
    by (auto simp: ASLSRVC_setExecuteReqObj_def Let_def split: if_splits)
next
  case (ExecRsp y)
  then show ?thesis using assms insert_header_length [of "SRVC_RESPONSE" "SRVC_TYPE_EXECUTE" "m_unSrcOID y" "m_unDstOID y"] insert_value_length [of "EXEC_RSP_SRVC.m_unLen y"]
    by (auto simp: ASLSRVC_setExecuteRspObj_def Let_def split: if_splits)
next
  case (TunnelReq y)
  then show ?thesis using assms insert_header_length [of "SRVC_REQUEST" "SRVC_TYPE_EXECUTE" "m_unSrcOID y" "m_unDstOID y"] insert_value_length [of "TUNNEL_REQ_SRVC.m_unLen y"]
    by (auto simp: ASLSRVC_setTunnelReqObj_def Let_def split: if_splits)
next
  case (TunnelRsp y)
  then show ?thesis using assms insert_header_length [of "SRVC_RESPONSE" "SRVC_TYPE_EXECUTE" "m_unSrcOID y" "m_unDstOID y"] insert_value_length [of "TUNNEL_RSP_SRVC.m_unLen y"]
    by (auto simp: ASLSRVC_setTunnelRspObj_def Let_def split: if_splits)
next
  case (AlertRep y)
  then show ?thesis using assms insert_header_length [of "SRVC_REQUEST" "SRVC_TYPE_ALERT_REP" "m_unSrcOID y" "m_unDstOID y"] insert_value_length [of "ALERT_INFO.m_unSize (m_stAlertInfo y)"]
    by (auto simp: ASLSRVC_setAlertRepObj_def Let_def split: if_splits)
next
  case (AlertAck y)
  then show ?thesis using assms insert_header_length [of "SRVC_REQUEST" "SRVC_TYPE_ALERT_ACK" "m_unSrcOID y" "m_unDstOID y"]
    by (auto simp: ASLSRVC_setAlertAckObj_def Let_def split: if_splits)
next
  case (Publish y)
  then show ?thesis using assms insert_header_length [of "SRVC_RESPONSE" "SRVC_TYPE_PUBLISH" "m_unPubOID y" "m_unSubOID y"] insert_value_length [of "PUBLISH_SRVC.m_unSize y"]
    by (auto simp: ASLSRVC_setPublishObj_def Let_def split: if_splits)
qed

definition sample_write :: ASL_SRVC where
  "sample_write = WriteReq (WRITE_REQ_SRVC.make 0x1234 0x5678 9
     \<lparr>m_ucAttrFormat = 2, m_unAttrID = 0x123, m_unIndex1 = 0x101, m_unIndex2 = 0x102\<rparr> 3 0)"

theorem binarized_fits_buffer_witness:
  "\<exists>bs. ASLSRVC_binarize (\<lambda>_. 0) sample_exec 100 = Some bs \<and> length bs \<le> 100"
proof -
  obtain bs where "ASLSRVC_binarize (\<lambda>_. 0) sample_exec 100 = Some bs"
    by (auto simp: sample_exec_def EXEC_REQ_SRVC.make_def ASLSRVC_setExecuteReqObj_def)
  with binarized_fits_buffer [OF this] show ?thesis by (simp add: sample_exec_def)
qed

text \<open>
  The exception is real: a write request of three octets passes the check of a 15-octet buffer and takes
  16 octets.
\<close>
lemma write_request_overruns_buffer:
  "\<exists>bs. ASLSRVC_binarize m sample_write 15 = Some bs \<and> length bs = 16"
  by (simp add: sample_write_def WRITE_REQ_SRVC.make_def ASLSRVC_setWriteReqObj_def ASLSRVC_insertAID_def codec_defs)

end
