(* ===== verification/Nlme.thy ===== *)
theory Nlme
  imports Aslmo
begin

text \<open>
  The network layer management entity (\<^verbatim>\<open>nlme.cpp\<close>): route table, contract table and the address
  translation table with its two indices, the row interface through which the system manager reads and
  writes them, and the alert. A \<^verbatim>\<open>std::map\<close> is an association list; a \<^verbatim>\<open>boost::shared_ptr\<close> is the
  object with a reference number that identifies it (two pointers are equal iff their numbers are), and
  \<open>next_ref\<close> is the next unused number. A data buffer is the list of its bytes; the callers check its
  length before a row function looks inside.
\<close>

section \<open>Data (nlme.h)\<close>

type_synonym ipv6 = "u8 list"
type_synonym i16 = "16 word"

record NLME_ROUTE_ATTRIBUTES =
  m_aDestAddress :: ipv6
  m_aNextHopAddress :: ipv6
  m_ucNWK_HopLimit :: u8
  m_bOutgoingInterface :: u8

text \<open>
  The bandwidth of a contract is a union of two structures with the same layout. The names are those of the aperiodic one; a periodic
  contract keeps its period in \<open>m_nComittedBurst\<close>, its deadline in \<open>m_nExcessBurst\<close> and its phase in \<open>m_ucMaxSendWindow\<close>.
\<close>

record DMO_CONTRACT_BANDWIDTH =
  m_nComittedBurst :: i16
  m_nExcessBurst :: i16
  m_ucMaxSendWindow :: u8

record DMO_CONTRACT_ATTRIBUTE =
  m_ulAssignedExpTime :: u32
  m_ulActivationTAI :: u32
  m_unContractID :: u16
  m_unSrcTLPort :: u16
  m_unAssignedMaxNSDUSize :: u16
  m_unDstTLPort :: u16
  m_ucContractStatus :: u8
  m_ucServiceType :: u8
  m_ucReliability :: u8
  m_ucPriority :: u8
  m_aDstAddr128 :: ipv6
  m_stBandwidth :: DMO_CONTRACT_BANDWIDTH
  m_nUsageCount :: u8
  m_ucContractReqType :: u8

record NLME_CONTRACT_ATTRIBUTES =
  m_unContractID :: u16
  m_aDestAddress :: ipv6
  m_bPriority :: u8
  m_bIncludeContractFlag :: u8
  m_bUnused :: u8
  m_nRTO :: int
  m_nSRTT :: u32
  m_nRTTV :: u32
  m_nCrtWndSize :: u8
  m_nInUseWndSize :: u8
  m_nSuccessTransmissions :: u8
  m_ucReqID :: u8
  m_unAssignedMaxNSDUSize :: u16
  m_nComittedBurst :: i16
  m_nExcessBurst :: i16
  m_ucMaxSendWindow :: u8
  m_stSendNoEarlierThan :: "int \<times> int"
  m_unPktCount :: u32

record NLME_ADDR_TRANS_ATTRIBUTES =
  m_aIPV6Addr :: ipv6
  m_aShortAddress :: "u8 list"

type_synonym 'v ref = "nat \<times> 'v"

record NLME_ATRIBUTES =
  m_unFragDatagramTag :: u16
  m_ucFragReassemblyTimeout :: u8
  m_ucEnableDefaultRoute :: u8
  m_aDefaultRouteEntry :: ipv6
  m_oNlmeRoutesMap :: "(ipv6 \<times> NLME_ROUTE_ATTRIBUTES) list"
  m_oContractsMap :: "(u16 \<times> NLME_CONTRACT_ATTRIBUTES ref) list"
  m_oAttMap16toEntry :: "(ipv6 \<times> NLME_ADDR_TRANS_ATTRIBUTES ref) list"
  m_oAttMap2toEntry :: "(u8 list \<times> NLME_ADDR_TRANS_ATTRIBUTES ref) list"
  m_ucAlertDesc :: u8
  next_ref :: nat
  g_nRequestForLinuxBbr :: bool
  g_nATT_TR_Changed :: bool
  nlme_alerts :: "raised_alert list"

abbreviation (input) MAX_ROUTES_NO :: nat where "MAX_ROUTES_NO \<equiv> 5000"
abbreviation (input) MAX_CONTRACT_NO :: nat where "MAX_CONTRACT_NO \<equiv> 5000"
abbreviation (input) MAX_ADDR_TRANSLATIONS_NO :: nat where "MAX_ADDR_TRANSLATIONS_NO \<equiv> 5000"

definition bytes_at :: "nat \<Rightarrow> nat \<Rightarrow> u8 list \<Rightarrow> u8 list" where
  "bytes_at off n bs = take n (drop off bs)"

definition be16 :: "u8 list \<Rightarrow> u16" where
  "be16 bs = push_bit 8 (ucast (bs ! 0)) OR ucast (bs ! 1)"

section \<open>Initialisation\<close>

definition NLME_Init :: "NLME_ATRIBUTES \<Rightarrow> NLME_ATRIBUTES" where
  "NLME_Init s = s\<lparr>m_unFragDatagramTag := 0, m_ucFragReassemblyTimeout := 60, m_ucEnableDefaultRoute := 1,
     m_aDefaultRouteEntry := replicate 16 0, m_oNlmeRoutesMap := [], m_oContractsMap := [],
     m_oAttMap16toEntry := [], m_oAttMap2toEntry := []\<rparr>"

section \<open>Routes\<close>

definition route_of_bytes :: "u8 list \<Rightarrow> NLME_ROUTE_ATTRIBUTES" where
  "route_of_bytes bs = \<lparr>NLME_ROUTE_ATTRIBUTES.m_aDestAddress = bytes_at 0 16 bs, m_aNextHopAddress = bytes_at 16 16 bs,
     m_ucNWK_HopLimit = bs ! 32, m_bOutgoingInterface = bs ! 33\<rparr>"

definition route_bytes :: "NLME_ROUTE_ATTRIBUTES \<Rightarrow> u8 list" where
  "route_bytes r = NLME_ROUTE_ATTRIBUTES.m_aDestAddress r @ m_aNextHopAddress r
     @ [m_ucNWK_HopLimit r, m_bOutgoingInterface r]"

definition NLME_delRoute :: "u8 list \<Rightarrow> NLME_ATRIBUTES \<Rightarrow> NLME_ATRIBUTES \<times> u8" where
  "NLME_delRoute idx s =
     (s\<lparr>m_oNlmeRoutesMap := AList.delete (bytes_at 0 16 idx) (m_oNlmeRoutesMap s)\<rparr>, SFC_SUCCESS)"

definition NLME_setRoute :: "u8 list \<Rightarrow> NLME_ATRIBUTES \<Rightarrow> NLME_ATRIBUTES \<times> u8" where
  "NLME_setRoute p_pData s =
     (let s = (if bytes_at 0 16 p_pData \<noteq> bytes_at 16 16 p_pData then fst (NLME_delRoute p_pData s) else s);
          p_pData = drop 16 p_pData; key = bytes_at 0 16 p_pData
      in if map_of (m_oNlmeRoutesMap s) key = None \<and> MAX_ROUTES_NO \<le> length (m_oNlmeRoutesMap s)
         then (s, SFC_INSUFFICIENT_DEVICE_RESOURCES)
         else (s\<lparr>m_oNlmeRoutesMap := AList.update key (route_of_bytes p_pData) (m_oNlmeRoutesMap s)\<rparr>,
               SFC_SUCCESS))"

definition NLME_AddRoute :: "ipv6 \<Rightarrow> ipv6 \<Rightarrow> u8 \<Rightarrow> u8 \<Rightarrow> NLME_ATRIBUTES \<Rightarrow> NLME_ATRIBUTES \<times> u8" where
  "NLME_AddRoute dest nextHop hopLimit iface s =
     NLME_setRoute (dest @ dest @ nextHop @ [hopLimit, iface]) s"

definition NLME_findRoute :: "ipv6 \<Rightarrow> NLME_ATRIBUTES \<Rightarrow> NLME_ROUTE_ATTRIBUTES option" where
  "NLME_findRoute dest s = map_of (m_oNlmeRoutesMap s) (bytes_at 0 16 dest)"

definition NLME_getRoute :: "u8 list \<Rightarrow> NLME_ATRIBUTES \<Rightarrow> u8 \<times> u8 list" where
  "NLME_getRoute idx s = (case NLME_findRoute idx s of
     None \<Rightarrow> (SFC_INVALID_ELEMENT_INDEX, []) | Some r \<Rightarrow> (SFC_SUCCESS, route_bytes r))"

definition NLME_FindDestinationRoute :: "ipv6 \<Rightarrow> NLME_ATRIBUTES \<Rightarrow> NLME_ROUTE_ATTRIBUTES option" where
  "NLME_FindDestinationRoute dest s =
     (case NLME_findRoute dest s of
        Some r \<Rightarrow> Some r
      | None \<Rightarrow> if m_ucEnableDefaultRoute s \<noteq> 0 then NLME_findRoute (m_aDefaultRouteEntry s) s else None)"

section \<open>Contracts\<close>

definition NLME_FindContract :: "u16 \<Rightarrow> NLME_ATRIBUTES \<Rightarrow> NLME_CONTRACT_ATTRIBUTES option" where
  "NLME_FindContract cid s = map_option snd (map_of (m_oContractsMap s) cid)"

definition NLME_delContract :: "u8 list \<Rightarrow> NLME_ATRIBUTES \<Rightarrow> NLME_ATRIBUTES \<times> u8" where
  "NLME_delContract idx s =
     (s\<lparr>m_oContractsMap := AList.delete (be16 idx) (m_oContractsMap s)\<rparr>, SFC_SUCCESS)"

definition NLME_DeleteContract :: "u16 \<Rightarrow> NLME_ATRIBUTES \<Rightarrow> NLME_ATRIBUTES \<times> u8" where
  "NLME_DeleteContract cid s = NLME_delContract [ucast (drop_bit 8 cid), ucast cid] s"

text \<open>The retry timeout of a new contract: twice the committed burst period, within 3 to 60 seconds.\<close>

definition initial_RTO :: "i16 \<Rightarrow> int" where
  "initial_RTO p_nComittedBurst =
     (let rto = - sint p_nComittedBurst * 2; rto = (if rto < 3 then 3 else rto)
      in if rto > 60 then 60 else rto)"

text \<open>
  \<^verbatim>\<open>NLME_setContract\<close> on the 53 bytes of \<^verbatim>\<open>NLME_CONTRACT_ATTRIBUTES_FOR_SETROW\<close>: the index (identifier
  and own address), then the data (identifier, own address, peer address, flags). \<open>own\<close> is
  \<^verbatim>\<open>g_aIPv6Address\<close> and \<open>rnd\<close> what \<^verbatim>\<open>random()\<close> returns. The identifier is taken from the index, and
  \<^verbatim>\<open>m_cFlags\<close> is not looked at.
\<close>

definition NLME_setContract ::
    "ipv6 \<Rightarrow> u8 \<Rightarrow> u8 list \<Rightarrow> u16 \<Rightarrow> u8 \<Rightarrow> i16 \<Rightarrow> i16 \<Rightarrow> NLME_ATRIBUTES \<Rightarrow> NLME_ATRIBUTES \<times> u8" where
  "NLME_setContract own rnd p_pData p_unAssignedMaxNSDUSize p_ucWndLen p_nComittedBurst p_nExcessBurst s =
     (if bytes_at 20 16 p_pData \<noteq> own then (s, SFC_INVALID_ELEMENT_INDEX)
      else
        let s = (if bytes_at 0 18 p_pData \<noteq> bytes_at 18 18 p_pData then fst (NLME_delContract p_pData s) else s);
            cid = be16 p_pData; old = map_of (m_oContractsMap s) cid
        in if old = None \<and> MAX_CONTRACT_NO \<le> length (m_oContractsMap s)
           then (s, SFC_INSUFFICIENT_DEVICE_RESOURCES)
           else
             let (r, savedReqId, s) = (case old of
                   None \<Rightarrow> (next_ref s, rnd, s\<lparr>next_ref := next_ref s + 1\<rparr>)
                 | Some (r, c) \<Rightarrow> (r, NLME_CONTRACT_ATTRIBUTES.m_ucReqID c, s));
                 c = \<lparr>m_unContractID = cid, m_aDestAddress = bytes_at 36 16 p_pData, m_bPriority = 0,
                      m_bIncludeContractFlag = 0, m_bUnused = 0, m_nRTO = initial_RTO p_nComittedBurst, m_nSRTT = 0,
                      m_nRTTV = 0, m_nCrtWndSize = 1, m_nInUseWndSize = 0, m_nSuccessTransmissions = 0,
                      m_ucReqID = savedReqId, m_unAssignedMaxNSDUSize = p_unAssignedMaxNSDUSize,
                      m_nComittedBurst = p_nComittedBurst, m_nExcessBurst = p_nExcessBurst,
                      m_ucMaxSendWindow = p_ucWndLen, m_stSendNoEarlierThan = (0, 0), m_unPktCount = 0\<rparr>
             in (s\<lparr>m_oContractsMap := AList.update cid (r, c) (m_oContractsMap s)\<rparr>, SFC_SUCCESS))"

definition NLME_AddContract ::
    "ipv6 \<Rightarrow> u8 \<Rightarrow> u16 \<Rightarrow> ipv6 \<Rightarrow> ipv6 \<Rightarrow> u8 \<Rightarrow> bool \<Rightarrow> u16 \<Rightarrow> u8 \<Rightarrow> i16 \<Rightarrow> i16 \<Rightarrow>
     NLME_ATRIBUTES \<Rightarrow> NLME_ATRIBUTES \<times> u8" where
  "NLME_AddContract own rnd cid src dst prio incl maxNSDU wnd committed excess s =
     (let i = [ucast (drop_bit 8 cid), ucast cid] @ src;
          flags = (prio AND 3) OR (if incl then 4 else 0)
      in NLME_setContract own rnd (i @ i @ dst @ [flags]) maxNSDU wnd committed excess s)"

definition NLME_getContract :: "ipv6 \<Rightarrow> u8 list \<Rightarrow> NLME_ATRIBUTES \<Rightarrow> u8 \<times> u8 list" where
  "NLME_getContract own idx s = (case NLME_FindContract (be16 idx) s of
     None \<Rightarrow> (SFC_INVALID_ELEMENT_INDEX, [])
   | Some c \<Rightarrow> (SFC_SUCCESS,
       [ucast (drop_bit 8 (NLME_CONTRACT_ATTRIBUTES.m_unContractID c)), ucast (NLME_CONTRACT_ATTRIBUTES.m_unContractID c)]
       @ own @ NLME_CONTRACT_ATTRIBUTES.m_aDestAddress c
       @ [m_bPriority c OR push_bit 2 (m_bIncludeContractFlag c) OR push_bit 3 (m_bUnused c)]))"

text \<open>
  \<^verbatim>\<open>NLME_AddDmoContract\<close>; \<open>junk\<close> is the object as \<^verbatim>\<open>new\<close> leaves it, of which the fields that are not
  assigned remain.
\<close>

definition NLME_AddDmoContract ::
    "NLME_CONTRACT_ATTRIBUTES \<Rightarrow> u8 \<Rightarrow> DMO_CONTRACT_ATTRIBUTE \<Rightarrow> NLME_ATRIBUTES \<Rightarrow> NLME_ATRIBUTES \<times> u8" where
  "NLME_AddDmoContract junk rnd d s =
     (let cid = DMO_CONTRACT_ATTRIBUTE.m_unContractID d in
      case map_of (m_oContractsMap s) cid of
        Some (r, c) \<Rightarrow>
          (s\<lparr>m_oContractsMap := AList.update cid (r, c\<lparr>
               NLME_CONTRACT_ATTRIBUTES.m_unAssignedMaxNSDUSize := DMO_CONTRACT_ATTRIBUTE.m_unAssignedMaxNSDUSize d,
               NLME_CONTRACT_ATTRIBUTES.m_ucMaxSendWindow := DMO_CONTRACT_BANDWIDTH.m_ucMaxSendWindow (m_stBandwidth d),
               NLME_CONTRACT_ATTRIBUTES.m_nComittedBurst := DMO_CONTRACT_BANDWIDTH.m_nComittedBurst (m_stBandwidth d),
               NLME_CONTRACT_ATTRIBUTES.m_nExcessBurst := DMO_CONTRACT_BANDWIDTH.m_nExcessBurst (m_stBandwidth d),
               m_nRTO := initial_RTO (DMO_CONTRACT_BANDWIDTH.m_nComittedBurst (m_stBandwidth d))\<rparr>) (m_oContractsMap s)\<rparr>,
           SFC_SUCCESS)
      | None \<Rightarrow>
          if MAX_CONTRACT_NO \<le> length (m_oContractsMap s) then (s, SFC_INSUFFICIENT_DEVICE_RESOURCES)
          else (s\<lparr>m_oContractsMap := AList.update cid (next_ref s, junk\<lparr>
               NLME_CONTRACT_ATTRIBUTES.m_unContractID := cid,
               NLME_CONTRACT_ATTRIBUTES.m_aDestAddress := m_aDstAddr128 d,
               m_bPriority := DMO_CONTRACT_ATTRIBUTE.m_ucPriority d AND 3,
               m_bIncludeContractFlag := 0,
               m_nRTO := initial_RTO (DMO_CONTRACT_BANDWIDTH.m_nComittedBurst (m_stBandwidth d)),
               m_nSRTT := 0, m_nRTTV := 0,
               NLME_CONTRACT_ATTRIBUTES.m_unAssignedMaxNSDUSize := DMO_CONTRACT_ATTRIBUTE.m_unAssignedMaxNSDUSize d,
               NLME_CONTRACT_ATTRIBUTES.m_ucMaxSendWindow := DMO_CONTRACT_BANDWIDTH.m_ucMaxSendWindow (m_stBandwidth d),
               m_nCrtWndSize := 1, m_nInUseWndSize := 0, m_nSuccessTransmissions := 0,
               NLME_CONTRACT_ATTRIBUTES.m_ucReqID := rnd,
               NLME_CONTRACT_ATTRIBUTES.m_nComittedBurst := DMO_CONTRACT_BANDWIDTH.m_nComittedBurst (m_stBandwidth d),
               NLME_CONTRACT_ATTRIBUTES.m_nExcessBurst := DMO_CONTRACT_BANDWIDTH.m_nExcessBurst (m_stBandwidth d)\<rparr>)
               (m_oContractsMap s), next_ref := next_ref s + 1\<rparr>, SFC_SUCCESS))"

section \<open>Address translation\<close>

definition NLME_FindATT :: "ipv6 \<Rightarrow> NLME_ATRIBUTES \<Rightarrow> NLME_ADDR_TRANS_ATTRIBUTES option" where
  "NLME_FindATT a s = map_option snd (map_of (m_oAttMap16toEntry s) (bytes_at 0 16 a))"

definition NLME_FindATTByShortAddr :: "u8 list \<Rightarrow> NLME_ATRIBUTES \<Rightarrow> NLME_ADDR_TRANS_ATTRIBUTES option" where
  "NLME_FindATTByShortAddr a s = map_option snd (map_of (m_oAttMap2toEntry s) (bytes_at 0 2 a))"

definition NLME_delATT :: "u8 list \<Rightarrow> NLME_ATRIBUTES \<Rightarrow> NLME_ATRIBUTES \<times> u8" where
  "NLME_delATT idx s =
     (case map_of (m_oAttMap16toEntry s) (bytes_at 0 16 idx) of
        None \<Rightarrow> (s, SFC_INVALID_ELEMENT_INDEX)
      | Some (r, e) \<Rightarrow>
          (s\<lparr>m_oAttMap2toEntry := AList.delete (m_aShortAddress e) (m_oAttMap2toEntry s),
             m_oAttMap16toEntry := AList.delete (bytes_at 0 16 idx) (m_oAttMap16toEntry s)\<rparr>, SFC_SUCCESS))"

definition att_of_bytes :: "u8 list \<Rightarrow> NLME_ADDR_TRANS_ATTRIBUTES" where
  "att_of_bytes bs = \<lparr>m_aIPV6Addr = bytes_at 0 16 bs, m_aShortAddress = bytes_at 16 2 bs\<rparr>"

definition NLME_setATT :: "u8 list \<Rightarrow> NLME_ATRIBUTES \<Rightarrow> NLME_ATRIBUTES \<times> u8" where
  "NLME_setATT p_pData s =
     (let s = (if bytes_at 0 16 p_pData \<noteq> bytes_at 16 16 p_pData then fst (NLME_delATT p_pData s) else s);
          p_pData = drop 16 p_pData; e = att_of_bytes p_pData;
          itShort = map_of (m_oAttMap2toEntry s) (m_aShortAddress e);
          itLong = map_of (m_oAttMap16toEntry s) (m_aIPV6Addr e)
      in if itLong \<noteq> None \<and> itShort \<noteq> None then
           (if fst (the itLong) = fst (the itShort) then (s, SFC_SUCCESS) else (s, SFC_INCONSISTENT_CONTENT))
         else if itShort \<noteq> None then (s, SFC_INCONSISTENT_CONTENT)
         else
           let s = (if itLong \<noteq> None then fst (NLME_delATT p_pData s) else s)
           in if MAX_ADDR_TRANSLATIONS_NO \<le> length (m_oAttMap16toEntry s)
              then (s, SFC_INSUFFICIENT_DEVICE_RESOURCES)
              else (s\<lparr>m_oAttMap16toEntry := AList.update (m_aIPV6Addr e) (next_ref s, e) (m_oAttMap16toEntry s),
                      m_oAttMap2toEntry := AList.update (m_aShortAddress e) (next_ref s, e) (m_oAttMap2toEntry s),
                      next_ref := next_ref s + 1\<rparr>, SFC_SUCCESS))"

text \<open>Both octets of the short address come from its high byte.\<close>

definition NLME_AddATT :: "ipv6 \<Rightarrow> u16 \<Rightarrow> NLME_ATRIBUTES \<Rightarrow> NLME_ATRIBUTES \<times> u8" where
  "NLME_AddATT long short s =
     NLME_setATT (long @ long @ [ucast (drop_bit 8 short), ucast (drop_bit 8 short)]) s"

definition NLME_getATT :: "u8 list \<Rightarrow> NLME_ATRIBUTES \<Rightarrow> u8 \<times> u8 list" where
  "NLME_getATT idx s = (case NLME_FindATT idx s of
     None \<Rightarrow> (SFC_INVALID_ELEMENT_INDEX, [])
   | Some e \<Rightarrow> (SFC_SUCCESS, m_aIPV6Addr e @ m_aShortAddress e))"

section \<open>Rows\<close>

record NLME_ATTRIBUTES_PARAMS =
  m_ucSize :: u8
  m_ucIndexSize :: u8
  m_ucIsReadOnly :: u8

text \<open>The table of attributes 1 to 16; the value pointers are in \<open>mib_bytes\<close> and \<open>mib_write\<close> below.\<close>

definition c_aAttributesParams :: "NLME_ATTRIBUTES_PARAMS list" where
  "c_aAttributesParams = map (\<lambda>(n, i, ro). \<lparr>m_ucSize = n, m_ucIndexSize = i, m_ucIsReadOnly = ro\<rparr>)
     [(1, 0, 1), (1, 0, 1), (2, 0, 1), (16, 0, 1),
      (34, 16, 0), (1, 0, 0), (16, 0, 0), (35, 18, 0), (18, 16, 0),
      (2, 0, 1), (1, 0, 0), (2, 0, 1), (4, 0, 1), (4, 0, 1), (4, 0, 1), (2, 0, 1)]"

text \<open>What the attributes take from elsewhere: the device's addresses, the build flag, \<^verbatim>\<open>random()\<close>.\<close>

record nlme_env =
  g_aIPv6Address :: ipv6
  g_unShortAddr :: u16
  c_ucBackboneCapable :: u8
  random_octet :: u8

text \<open>The bytes of a 16-bit variable in memory; the source's swapped constants presume little endian.\<close>

definition native_u16 :: "u16 \<Rightarrow> u8 list" where
  "native_u16 v = [ucast v, ucast (drop_bit 8 v)]"

definition mib_bytes :: "nlme_env \<Rightarrow> u8 \<Rightarrow> NLME_ATRIBUTES \<Rightarrow> u8 list" where
  "mib_bytes env i s =
     (if i = 1 then [c_ucBackboneCapable env] else if i = 2 then [1]
      else if i = 3 then native_u16 (g_unShortAddr env) else if i = 4 then g_aIPv6Address env
      else if i = 6 then [m_ucEnableDefaultRoute s] else if i = 7 then m_aDefaultRouteEntry s
      else if i = 10 then native_u16 0xBBFF else if i = 11 then [m_ucFragReassemblyTimeout s]
      else if i = 12 then native_u16 (m_unFragDatagramTag s) else [])"

definition mib_write :: "u8 \<Rightarrow> u8 list \<Rightarrow> NLME_ATRIBUTES \<Rightarrow> NLME_ATRIBUTES" where
  "mib_write i bs s =
     (if i = 6 then s\<lparr>m_ucEnableDefaultRoute := bs ! 0\<rparr>
      else if i = 7 then s\<lparr>m_aDefaultRouteEntry := bytes_at 0 16 bs\<rparr>
      else if i = 11 then s\<lparr>m_ucFragReassemblyTimeout := bs ! 0\<rparr> else s)"

definition NLME_SetRowWithDMOContractParams ::
    "nlme_env \<Rightarrow> u8 \<Rightarrow> u8 list \<Rightarrow> u8 \<Rightarrow> u16 \<Rightarrow> u8 \<Rightarrow> i16 \<Rightarrow> i16 \<Rightarrow> NLME_ATRIBUTES \<Rightarrow> NLME_ATRIBUTES \<times> u8" where
  "NLME_SetRowWithDMOContractParams env attr p_pData p_ucDataLen maxNSDU wnd committed excess s =
     (let k = attr - 1 in
      if 16 \<le> k then (s, SFC_INVALID_ATTRIBUTE)
      else let a = c_aAttributesParams ! unat k in
      if m_ucIsReadOnly a \<noteq> 0 then (s, SFC_READ_ONLY_ATTRIBUTE)
      else if unat p_ucDataLen \<noteq> unat (NLME_ATTRIBUTES_PARAMS.m_ucSize a) + unat (m_ucIndexSize a)
      then (s, SFC_INVALID_SIZE)
      else if attr = 5 then NLME_setRoute p_pData s
      else if attr = 8 then NLME_setContract (g_aIPv6Address env) (random_octet env) p_pData maxNSDU wnd committed excess s
      else if attr = 9 then NLME_setATT p_pData s
      else if attr = 16 then
        (s\<lparr>m_ucAlertDesc := DMAP_WriteCompressAlertDescriptor (mem_of p_pData) 0\<rparr>, SFC_SUCCESS)
      else (mib_write attr p_pData s, SFC_SUCCESS))"

definition NLME_SetRow :: "nlme_env \<Rightarrow> u8 \<Rightarrow> u8 list \<Rightarrow> u8 \<Rightarrow> NLME_ATRIBUTES \<Rightarrow> NLME_ATRIBUTES \<times> u8" where
  "NLME_SetRow env attr p_pData p_ucDataLen s =
     NLME_SetRowWithDMOContractParams env attr p_pData p_ucDataLen 65467 0 0 0 s"

text \<open>The feedback code, the bytes stored at \<^verbatim>\<open>p_pData\<close> and what is stored at \<^verbatim>\<open>p_pDataLen\<close>, if anything.\<close>

definition NLME_GetRow ::
    "nlme_env \<Rightarrow> u8 \<Rightarrow> u8 list \<Rightarrow> u8 \<Rightarrow> NLME_ATRIBUTES \<Rightarrow> u8 \<times> u8 list \<times> u8 option" where
  "NLME_GetRow env attr idx p_ucIdxDataLen s =
     (let k = attr - 1 in
      if 16 \<le> k then (SFC_INVALID_ATTRIBUTE, [], None)
      else let a = c_aAttributesParams ! unat k; n = Some (NLME_ATTRIBUTES_PARAMS.m_ucSize a) in
      if p_ucIdxDataLen \<noteq> m_ucIndexSize a then (SFC_INCONSISTENT_CONTENT, [], n)
      else if attr = 5 then (let (c, bs) = NLME_getRoute idx s in (c, bs, n))
      else if attr = 8 then (let (c, bs) = NLME_getContract (g_aIPv6Address env) idx s in (c, bs, n))
      else if attr = 9 then (let (c, bs) = NLME_getATT idx s in (c, bs, n))
      else if attr = 13 then
        (SFC_SUCCESS, DMAP_InsertUint16 (word_of_nat (length (m_oNlmeRoutesMap s))) @ [0x13, 0x88], n)
      else if attr = 14 then
        (SFC_SUCCESS, DMAP_InsertUint16 (word_of_nat (length (m_oContractsMap s))) @ [0x13, 0x88], n)
      else if attr = 15 then
        (SFC_SUCCESS, DMAP_InsertUint16 (word_of_nat (length (m_oAttMap16toEntry s))) @ [0x13, 0x88], n)
      else if attr = 16 then
        (let (bs, sz) = DMAP_ReadCompressAlertDescriptor (m_ucAlertDesc s) in (SFC_SUCCESS, bs, Some sz))
      else (SFC_SUCCESS, mib_bytes env attr s, n))"

definition NLME_DeleteRow :: "u8 \<Rightarrow> u8 list \<Rightarrow> u8 \<Rightarrow> NLME_ATRIBUTES \<Rightarrow> NLME_ATRIBUTES \<times> u8" where
  "NLME_DeleteRow attr idx p_ucIdxDataLen s =
     (let k = attr - 1 in
      if 16 \<le> k then (s, SFC_INVALID_ATTRIBUTE)
      else let a = c_aAttributesParams ! unat k in
      if m_ucIndexSize a \<noteq> 0 then
        if p_ucIdxDataLen \<noteq> m_ucIndexSize a then (s, SFC_INCONSISTENT_CONTENT)
        else if attr = 5 then NLME_delRoute idx s
        else if attr = 8 then NLME_delContract idx s
        else if attr = 9 then NLME_delATT idx s
        else (s, SFC_INCOMPATIBLE_MODE)
      else (s, SFC_INCOMPATIBLE_MODE))"

definition note_bbr_request :: "u16 \<Rightarrow> NLME_ATRIBUTES \<Rightarrow> NLME_ATRIBUTES" where
  "note_bbr_request attr s =
     (if attr = 5 \<or> attr = 9 \<or> attr = 6 \<or> attr = 7
      then s\<lparr>g_nRequestForLinuxBbr := True, g_nATT_TR_Changed := True\<rparr> else s)"

text \<open>
  \<^verbatim>\<open>NLMO_Read\<close> passes its one-byte local as the data buffer and the response buffer as the length
  pointer of \<^verbatim>\<open>NLME_GetRow\<close>. The result: the feedback code, the bytes in the response buffer, the
  response length (none when the request is refused), and how many bytes were stored behind the local.
\<close>

definition NLMO_Read ::
    "nlme_env \<Rightarrow> u16 \<Rightarrow> NLME_ATRIBUTES \<Rightarrow> NLME_ATRIBUTES \<times> u8 \<times> u8 list \<times> u16 option \<times> nat" where
  "NLMO_Read env attr s =
     (let s = note_bbr_request attr s in
      if attr = 5 \<or> attr = 8 \<or> attr = 9 \<or> attr = 14 then (s, SFC_INVALID_ATTRIBUTE, [], None, 0)
      else let (ucSFC, bs, n) = NLME_GetRow env (ucast attr) [] 0 s
           in (s, ucSFC, (case n of None \<Rightarrow> [] | Some b \<Rightarrow> [b]), Some (ucast ucSFC), length bs - 1))"

definition NLMO_Write :: "nlme_env \<Rightarrow> u16 \<Rightarrow> u8 \<Rightarrow> u8 list \<Rightarrow> NLME_ATRIBUTES \<Rightarrow> NLME_ATRIBUTES \<times> u8" where
  "NLMO_Write env attr n bs s = NLME_SetRow env (ucast attr) bs n (note_bbr_request attr s)"

definition NLME_Alert :: "u8 \<Rightarrow> u8 list \<Rightarrow> u8 \<Rightarrow> NLME_ATRIBUTES \<Rightarrow> NLME_ATRIBUTES" where
  "NLME_Alert p_ucAlertValue p_pNpdu p_ucNpduLen s =
     (if m_ucAlertDesc s AND 0x80 \<noteq> 0 then
        let n = (if 38 \<le> p_ucNpduLen then 38 else p_ucNpduLen)
        in s\<lparr>nlme_alerts := nlme_alerts s @
             [(\<lparr>m_unDetObjTLPort = 0xF0B0, m_unDetObjID = 5, m_ucClass = 0, m_ucDirection = 1,
                m_ucCategory = 1, m_ucType = 0, m_ucPriority = m_ucAlertDesc s AND 0x7F, m_unSize = ucast n + 2\<rparr>,
               [n + 2, p_ucAlertValue] @ take (unat n) p_pNpdu)]\<rparr>
      else s)"

end
