(* ===== verification/Asl_Window.thy ===== *)
theory Asl_Window
  imports Nlme "HOL-Library.Signed_Division"
begin

text \<open>
  Flow control of a contract (\<^verbatim>\<open>aslde.cpp\<close>): the retransmission timeout computed from the measured
  round-trip times, the sliding window of outstanding requests, and the bandwidth limit. The arithmetic
  is that of the source: 32-bit unsigned round-trip values in eighths of a second, a signed 32-bit
  timeout, 8-bit window counters.
\<close>

section \<open>Retransmission timeout\<close>

definition rtt_estimate :: "u32 \<Rightarrow> NLME_CONTRACT_ATTRIBUTES \<Rightarrow> NLME_CONTRACT_ATTRIBUTES" where
  "rtt_estimate p_nRTT c =
     (if m_nSRTT c = 0 then c\<lparr>m_nSRTT := p_nRTT, m_nRTTV := drop_bit 1 p_nRTT\<rparr>
      else let nDelta = (if m_nSRTT c < p_nRTT then p_nRTT - m_nSRTT c else m_nSRTT c - p_nRTT)
           in c\<lparr>m_nRTTV := drop_bit 2 (3 * m_nRTTV c) + drop_bit 2 nDelta,
                m_nSRTT := drop_bit 3 (7 * m_nSRTT c) + drop_bit 3 p_nRTT\<rparr>)"

definition retry_seconds :: "u32 \<Rightarrow> u32 \<Rightarrow> int" where
  "retry_seconds srtt rttv =
     (let var = push_bit 2 rttv;
          rto = sint (srtt + (if var \<noteq> 0 then var else 1));
          rto = rto div 8 + (if 0 < rto mod 8 then 1 else 0);
          rto = (if rto < 1 then 1 else rto)
      in if 60 < rto then 60 else rto)"

definition ASLDE_computeTXtimeout :: "u32 \<Rightarrow> NLME_CONTRACT_ATTRIBUTES \<Rightarrow> NLME_CONTRACT_ATTRIBUTES" where
  "ASLDE_computeTXtimeout p_nRTT c =
     (let p_nRTT = (if p_nRTT = 0 then 1 else p_nRTT); c = rtt_estimate (push_bit 3 p_nRTT) c
      in c\<lparr>m_nRTO := retry_seconds (m_nSRTT c) (m_nRTTV c)\<rparr>)"

section \<open>Sliding window\<close>

text \<open>\<^verbatim>\<open>ASLDE_SlidingWindowAllowsTX\<close> also caps the window at the contract's maximum.\<close>

definition ASLDE_SlidingWindowAllowsTX :: "NLME_CONTRACT_ATTRIBUTES \<Rightarrow> NLME_CONTRACT_ATTRIBUTES \<times> bool" where
  "ASLDE_SlidingWindowAllowsTX c =
     (if NLME_CONTRACT_ATTRIBUTES.m_ucMaxSendWindow c = 0 then (c, True)
      else let c = (if NLME_CONTRACT_ATTRIBUTES.m_ucMaxSendWindow c < m_nCrtWndSize c
                    then c\<lparr>m_nCrtWndSize := NLME_CONTRACT_ATTRIBUTES.m_ucMaxSendWindow c\<rparr> else c)
           in (c, m_nInUseWndSize c < m_nCrtWndSize c))"

definition ASLDE_SlidingWindowIncreaseUsage :: "NLME_CONTRACT_ATTRIBUTES \<Rightarrow> NLME_CONTRACT_ATTRIBUTES \<times> bool" where
  "ASLDE_SlidingWindowIncreaseUsage c =
     (if NLME_CONTRACT_ATTRIBUTES.m_ucMaxSendWindow c = 0 then (c, True)
      else let (c, ok) = ASLDE_SlidingWindowAllowsTX c
           in if ok then (c\<lparr>m_nInUseWndSize := m_nInUseWndSize c + 1\<rparr>, True) else (c, False))"

definition ASLDE_ReceiveResponseForSlidingWindow :: "NLME_CONTRACT_ATTRIBUTES \<Rightarrow> NLME_CONTRACT_ATTRIBUTES" where
  "ASLDE_ReceiveResponseForSlidingWindow c =
     (if NLME_CONTRACT_ATTRIBUTES.m_ucMaxSendWindow c = 0 then c
      else let c = (if m_nInUseWndSize c \<noteq> 0 then c\<lparr>m_nInUseWndSize := m_nInUseWndSize c - 1\<rparr> else c);
               c = (if m_nCrtWndSize c \<noteq> 0
                    then c\<lparr>m_nSuccessTransmissions := m_nSuccessTransmissions c + 1\<rparr> else c);
               c = (if m_nInUseWndSize c = 0 \<and> m_nCrtWndSize c = 0 then c\<lparr>m_nCrtWndSize := 1\<rparr> else c)
           in if m_nCrtWndSize c < m_nSuccessTransmissions c
              then c\<lparr>m_nCrtWndSize := m_nCrtWndSize c + 1, m_nSuccessTransmissions := 0\<rparr> else c)"

definition ASLDE_ReceiveTimeoutForSlidingWindow :: "NLME_CONTRACT_ATTRIBUTES \<Rightarrow> NLME_CONTRACT_ATTRIBUTES" where
  "ASLDE_ReceiveTimeoutForSlidingWindow c =
     (if NLME_CONTRACT_ATTRIBUTES.m_ucMaxSendWindow c = 0 then c
      else c\<lparr>m_nCrtWndSize := 0, m_nSuccessTransmissions := 0\<rparr>)"

section \<open>Bandwidth limit\<close>

text \<open>Times are \<^verbatim>\<open>struct timeval\<close>: seconds and microseconds.\<close>

definition ASLDE_BandwidthLimitAllowsTX :: "int \<times> int \<Rightarrow> NLME_CONTRACT_ATTRIBUTES \<Rightarrow> bool" where
  "ASLDE_BandwidthLimitAllowsTX tvNow c =
     (if fst (m_stSendNoEarlierThan c) < fst tvNow then True
      else fst tvNow = fst (m_stSendNoEarlierThan c) \<and> snd (m_stSendNoEarlierThan c) < snd tvNow)"

text \<open>
  The interval of a burst of \<open>n > 0\<close> APDUs per second, or of one APDU in \<open>-n\<close> seconds, in ms. The sum with
  the microseconds is computed in \<^verbatim>\<open>unsigned long\<close> and stored as a \<^verbatim>\<open>long\<close>, both of 32 bits on the
  gateway's processors; the division truncates.
\<close>

definition packet_interval :: "i16 \<Rightarrow> u32" where
  "packet_interval b = word_of_int (if 0 < sint b then 1000 div sint b else - 1000 * sint b)"

definition ASLDE_RecordPacketNextTXTime :: "int \<times> int \<Rightarrow> NLME_CONTRACT_ATTRIBUTES \<Rightarrow> NLME_CONTRACT_ATTRIBUTES" where
  "ASLDE_RecordPacketNextTXTime tvNow c =
     (let usec = sint (word_of_int (snd tvNow) + 1000 * packet_interval (NLME_CONTRACT_ATTRIBUTES.m_nComittedBurst c))
      in c\<lparr>m_stSendNoEarlierThan := (fst tvNow + usec sdiv 1000000, usec smod 1000000)\<rparr>)"

section \<open>Facts\<close>

text \<open>Outstanding requests never exceed the contract's window, and the current window is at most one above.\<close>

definition window_ok :: "NLME_CONTRACT_ATTRIBUTES \<Rightarrow> bool" where
  "window_ok c \<longleftrightarrow> NLME_CONTRACT_ATTRIBUTES.m_ucMaxSendWindow c \<noteq> 0 \<longrightarrow>
     m_nInUseWndSize c \<le> NLME_CONTRACT_ATTRIBUTES.m_ucMaxSendWindow c"

lemma AllowsTX_fields:
  "m_nInUseWndSize (fst (ASLDE_SlidingWindowAllowsTX c)) = m_nInUseWndSize c"
  "NLME_CONTRACT_ATTRIBUTES.m_ucMaxSendWindow (fst (ASLDE_SlidingWindowAllowsTX c)) = NLME_CONTRACT_ATTRIBUTES.m_ucMaxSendWindow c"
  by (simp_all add: ASLDE_SlidingWindowAllowsTX_def Let_def)

lemma AllowsTX_iff:
  "snd (ASLDE_SlidingWindowAllowsTX c) \<longleftrightarrow> NLME_CONTRACT_ATTRIBUTES.m_ucMaxSendWindow c = 0 \<or>
     m_nInUseWndSize c < min (m_nCrtWndSize c) (NLME_CONTRACT_ATTRIBUTES.m_ucMaxSendWindow c)"
  by (auto simp: ASLDE_SlidingWindowAllowsTX_def Let_def min_def)

lemma u8_Suc_unat: "x < (y :: u8) \<Longrightarrow> unat (x + 1) = Suc (unat x)"
  using unat_u8_less [of y] by (simp add: word_less_nat_alt unat_plus_if_size word_size)

lemma u8_pred_unat: "x \<noteq> (0 :: u8) \<Longrightarrow> unat (x - 1) = unat x - 1"
  by (simp add: unat_minus_one)

lemma IncreaseUsage_in_use:
  "unat (m_nInUseWndSize (fst (ASLDE_SlidingWindowIncreaseUsage c))) = unat (m_nInUseWndSize c) +
     (if NLME_CONTRACT_ATTRIBUTES.m_ucMaxSendWindow c \<noteq> 0 \<and> snd (ASLDE_SlidingWindowIncreaseUsage c) then 1 else 0)"
  by (auto simp: ASLDE_SlidingWindowIncreaseUsage_def ASLDE_SlidingWindowAllowsTX_def Let_def
      split: prod.splits intro!: u8_Suc_unat)

lemma IncreaseUsage_window_ok:
  assumes "window_ok c"
  shows "window_ok (fst (ASLDE_SlidingWindowIncreaseUsage c))"
proof (cases "NLME_CONTRACT_ATTRIBUTES.m_ucMaxSendWindow c = 0")
  case True
  then show ?thesis by (simp add: ASLDE_SlidingWindowIncreaseUsage_def window_ok_def)
next
  case False
  show ?thesis
  proof (cases "snd (ASLDE_SlidingWindowAllowsTX c)")
    case True
    then have "m_nInUseWndSize c < NLME_CONTRACT_ATTRIBUTES.m_ucMaxSendWindow c"
      using False by (simp add: AllowsTX_iff)
    then have "m_nInUseWndSize c + 1 \<le> NLME_CONTRACT_ATTRIBUTES.m_ucMaxSendWindow c" by (rule inc_le)
    moreover obtain c' where "ASLDE_SlidingWindowAllowsTX c = (c', True)"
      using True by (cases "ASLDE_SlidingWindowAllowsTX c") simp
    ultimately show ?thesis using False AllowsTX_fields [of c]
      by (simp add: ASLDE_SlidingWindowIncreaseUsage_def window_ok_def)
  next
    case ok: False
    then show ?thesis using False assms AllowsTX_fields [of c]
      by (auto simp: ASLDE_SlidingWindowIncreaseUsage_def window_ok_def split: prod.splits)
  qed
qed

lemma ReceiveResponse_fields:
  "NLME_CONTRACT_ATTRIBUTES.m_ucMaxSendWindow (ASLDE_ReceiveResponseForSlidingWindow c) = NLME_CONTRACT_ATTRIBUTES.m_ucMaxSendWindow c"
  "NLME_CONTRACT_ATTRIBUTES.m_ucMaxSendWindow c \<noteq> 0 \<Longrightarrow>
    unat (m_nInUseWndSize (ASLDE_ReceiveResponseForSlidingWindow c)) = unat (m_nInUseWndSize c) - 1"
  by (simp_all add: ASLDE_ReceiveResponseForSlidingWindow_def Let_def u8_pred_unat unat_eq_0)

lemma ReceiveTimeout_fields:
  "NLME_CONTRACT_ATTRIBUTES.m_ucMaxSendWindow (ASLDE_ReceiveTimeoutForSlidingWindow c) = NLME_CONTRACT_ATTRIBUTES.m_ucMaxSendWindow c"
  "m_nInUseWndSize (ASLDE_ReceiveTimeoutForSlidingWindow c) = m_nInUseWndSize c"
  by (simp_all add: ASLDE_ReceiveTimeoutForSlidingWindow_def)

lemma ReceiveResponse_window_ok: "window_ok c \<Longrightarrow> window_ok (ASLDE_ReceiveResponseForSlidingWindow c)"
  using ReceiveResponse_fields [of c] by (auto simp: window_ok_def word_le_nat_alt)

lemma ReceiveTimeout_window_ok: "window_ok c \<Longrightarrow> window_ok (ASLDE_ReceiveTimeoutForSlidingWindow c)"
  by (simp add: window_ok_def ReceiveTimeout_fields)

text \<open>Counting a success never wraps the window: it grows only while below the success count.\<close>

lemma ReceiveResponse_window_grows:
  assumes "NLME_CONTRACT_ATTRIBUTES.m_ucMaxSendWindow c \<noteq> 0"
  shows "m_nCrtWndSize c \<le> m_nCrtWndSize (ASLDE_ReceiveResponseForSlidingWindow c)"
proof -
  have "x < (y :: u8) \<Longrightarrow> x \<le> x + 1" for x y
    by (simp add: word_le_nat_alt u8_Suc_unat)
  then show ?thesis using assms by (auto simp: ASLDE_ReceiveResponseForSlidingWindow_def Let_def)
qed

section \<open>Histories of a contract\<close>

text \<open>What happens to the window of a contract: a request is to be sent, a response arrives, a request times out.\<close>

datatype wnd_event = WSend | WResponse | WTimeout

fun wnd_apply :: "wnd_event \<Rightarrow> NLME_CONTRACT_ATTRIBUTES \<Rightarrow> NLME_CONTRACT_ATTRIBUTES" where
  "wnd_apply WSend c = fst (ASLDE_SlidingWindowIncreaseUsage c)"
| "wnd_apply WResponse c = ASLDE_ReceiveResponseForSlidingWindow c"
| "wnd_apply WTimeout c = ASLDE_ReceiveTimeoutForSlidingWindow c"

definition wnd_run :: "wnd_event list \<Rightarrow> NLME_CONTRACT_ATTRIBUTES \<Rightarrow> NLME_CONTRACT_ATTRIBUTES" where
  "wnd_run es c = fold wnd_apply es c"

lemma wnd_run_simps [simp]:
  "wnd_run [] c = c" "wnd_run (e # es) c = wnd_run es (wnd_apply e c)"
  "wnd_run (es @ es') c = wnd_run es' (wnd_run es c)"
  by (simp_all add: wnd_run_def)

text \<open>The specification: requests outstanding, one more for each permitted send, one less for each response.\<close>

fun outstanding :: "wnd_event list \<Rightarrow> NLME_CONTRACT_ATTRIBUTES \<Rightarrow> nat \<Rightarrow> nat" where
  "outstanding [] c n = n"
| "outstanding (WSend # es) c n =
     outstanding es (wnd_apply WSend c) (if snd (ASLDE_SlidingWindowIncreaseUsage c) then n + 1 else n)"
| "outstanding (WResponse # es) c n = outstanding es (wnd_apply WResponse c) (n - 1)"
| "outstanding (WTimeout # es) c n = outstanding es (wnd_apply WTimeout c) n"

lemma wnd_apply_max [simp]:
  "NLME_CONTRACT_ATTRIBUTES.m_ucMaxSendWindow (wnd_apply e c) = NLME_CONTRACT_ATTRIBUTES.m_ucMaxSendWindow c"
  by (cases e) (simp_all add: ReceiveResponse_fields ReceiveTimeout_fields AllowsTX_fields
      ASLDE_SlidingWindowIncreaseUsage_def split_def Let_def)

lemma wnd_run_max [simp]:
  "NLME_CONTRACT_ATTRIBUTES.m_ucMaxSendWindow (wnd_run es c) = NLME_CONTRACT_ATTRIBUTES.m_ucMaxSendWindow c"
  by (induction es arbitrary: c) simp_all

lemma wnd_apply_ok: "window_ok c \<Longrightarrow> window_ok (wnd_apply e c)"
  by (cases e) (simp_all add: IncreaseUsage_window_ok ReceiveResponse_window_ok ReceiveTimeout_window_ok)

lemma wnd_run_ok: "window_ok c \<Longrightarrow> window_ok (wnd_run es c)"
  by (induction es arbitrary: c) (simp_all add: wnd_apply_ok)

lemma outstanding_in_use:
  assumes "NLME_CONTRACT_ATTRIBUTES.m_ucMaxSendWindow c \<noteq> 0"
  shows "outstanding es c (unat (m_nInUseWndSize c)) = unat (m_nInUseWndSize (wnd_run es c))"
  using assms
proof (induction es arbitrary: c)
  case (Cons e es)
  show ?case
  proof (cases e)
    case WSend
    have "NLME_CONTRACT_ATTRIBUTES.m_ucMaxSendWindow (wnd_apply WSend c) \<noteq> 0"
      using Cons.prems by (simp del: wnd_apply.simps)
    from Cons.IH [OF this] WSend Cons.prems show ?thesis
      by (cases "snd (ASLDE_SlidingWindowIncreaseUsage c)") (simp_all add: IncreaseUsage_in_use)
  qed (use Cons.IH [of "wnd_apply e c"] Cons.prems in
      \<open>simp_all add: ReceiveResponse_fields ReceiveTimeout_fields\<close>)
qed simp

definition sample_window :: NLME_CONTRACT_ATTRIBUTES where
  "sample_window = \<lparr>m_unContractID = 7, m_aDestAddress = replicate 16 0, m_bPriority = 0, m_bIncludeContractFlag = 0,
     m_bUnused = 0, m_nRTO = 3, m_nSRTT = 0, m_nRTTV = 0, m_nCrtWndSize = 1, m_nInUseWndSize = 0,
     m_nSuccessTransmissions = 0, m_ucReqID = 9, m_unAssignedMaxNSDUSize = 100, m_nComittedBurst = -5,
     m_nExcessBurst = 0, m_ucMaxSendWindow = 3, m_stSendNoEarlierThan = (0, 0), m_unPktCount = 0\<rparr>"

text \<open>C14:
  On a contract with a sliding window, whatever requests, responses and timeouts follow, the 8-bit
  in-use counter is the number of outstanding requests, never more than the contract's maximum: no
  wrap-around and no request beyond the window.
\<close>
theorem sliding_window_refinement:
  assumes "NLME_CONTRACT_ATTRIBUTES.m_ucMaxSendWindow c \<noteq> 0" and "m_nInUseWndSize c = 0"
  shows "unat (m_nInUseWndSize (wnd_run es c)) = outstanding es c 0
    \<and> outstanding es c 0 \<le> unat (NLME_CONTRACT_ATTRIBUTES.m_ucMaxSendWindow c)"
  using outstanding_in_use [OF assms(1), of es] wnd_run_ok [of c es] assms
  by (simp add: window_ok_def word_le_nat_alt)

theorem sliding_window_refinement_witness:
  "unat (m_nInUseWndSize (wnd_run [WSend, WSend, WResponse, WSend, WResponse, WSend, WSend] sample_window))
     = outstanding [WSend, WSend, WResponse, WSend, WResponse, WSend, WSend] sample_window 0
   \<and> outstanding [WSend, WSend, WResponse, WSend, WResponse, WSend, WSend] sample_window 0 \<le> 3
   \<and> outstanding [WSend, WSend, WResponse, WSend, WResponse, WSend, WSend] sample_window 0 = 2"
proof -
  have "outstanding [WSend, WSend, WResponse, WSend, WResponse, WSend, WSend] sample_window 0 = 2"
    by code_simp
  then show ?thesis
    using sliding_window_refinement [of sample_window "[WSend, WSend, WResponse, WSend, WResponse, WSend, WSend]"]
    by (simp add: sample_window_def)
qed

section \<open>Recovery after a timeout\<close>

definition recovering :: "nat \<Rightarrow> NLME_CONTRACT_ATTRIBUTES \<Rightarrow> bool" where
  "recovering n c \<longleftrightarrow> NLME_CONTRACT_ATTRIBUTES.m_ucMaxSendWindow c \<noteq> 0 \<and> m_nCrtWndSize c = 0
     \<and> m_nSuccessTransmissions c = 0 \<and> unat (m_nInUseWndSize c) = n"

lemma recovering_timeout:
  "NLME_CONTRACT_ATTRIBUTES.m_ucMaxSendWindow c \<noteq> 0 \<Longrightarrow> recovering (unat (m_nInUseWndSize c)) (wnd_apply WTimeout c)"
  by (simp add: recovering_def ASLDE_ReceiveTimeoutForSlidingWindow_def)

lemma recovering_blocks: "recovering n c \<Longrightarrow> \<not> snd (ASLDE_SlidingWindowAllowsTX c)"
  by (simp add: recovering_def AllowsTX_iff)

lemma recovering_response:
  assumes "recovering (Suc (Suc n)) c"
  shows "recovering (Suc n) (wnd_apply WResponse c)"
proof -
  have nz: "m_nInUseWndSize c \<noteq> 0" using assms by (auto simp: recovering_def)
  moreover have n: "unat (m_nInUseWndSize c - 1) = Suc n"
    using assms u8_pred_unat [OF nz] by (simp add: recovering_def)
  moreover from n have "m_nInUseWndSize c - 1 \<noteq> 0" by auto
  ultimately show ?thesis using assms
    by (simp add: recovering_def ASLDE_ReceiveResponseForSlidingWindow_def Let_def)
qed

lemma recovering_last:
  assumes "recovering (Suc 0) c"
  shows "m_nCrtWndSize (wnd_apply WResponse c) = 1" "m_nInUseWndSize (wnd_apply WResponse c) = 0"
proof -
  have "m_nInUseWndSize c = 1" using assms by (simp add: recovering_def word_unat_eq_iff)
  then show "m_nCrtWndSize (wnd_apply WResponse c) = 1" "m_nInUseWndSize (wnd_apply WResponse c) = 0"
    using assms by (simp_all add: recovering_def ASLDE_ReceiveResponseForSlidingWindow_def Let_def)
qed

lemma recovering_responses:
  "recovering (Suc k + m) c \<Longrightarrow> recovering (Suc m) (wnd_run (replicate k WResponse) c)"
proof (induction k arbitrary: c)
  case (Suc k)
  have "recovering (Suc k + m) (wnd_apply WResponse c)"
    using Suc.prems by (simp only: add_Suc recovering_response)
  then show ?case using Suc.IH by simp
qed simp

text \<open>
  A timeout closes the window until every outstanding request is answered: with \<open>n > 0\<close> requests
  outstanding, nothing may be sent after fewer than \<open>n\<close> responses, and after the \<open>n\<close>-th the window is
  open again, at size one.
\<close>
lemma timeout_drains_window:
  assumes "NLME_CONTRACT_ATTRIBUTES.m_ucMaxSendWindow c \<noteq> 0" and n: "unat (m_nInUseWndSize c) = Suc n"
  shows "(k \<le> n \<longrightarrow> \<not> snd (ASLDE_SlidingWindowAllowsTX (wnd_run (WTimeout # replicate k WResponse) c)))
    \<and> m_nCrtWndSize (wnd_run (WTimeout # replicate n WResponse @ [WResponse]) c) = 1
    \<and> snd (ASLDE_SlidingWindowAllowsTX (wnd_run (WTimeout # replicate n WResponse @ [WResponse]) c))"
proof -
  have r: "recovering (Suc n) (wnd_apply WTimeout c)" using recovering_timeout [OF assms(1)] n by simp
  have "\<not> snd (ASLDE_SlidingWindowAllowsTX (wnd_run (WTimeout # replicate k WResponse) c))" if "k \<le> n"
    using r recovering_responses [of k "n - k" "wnd_apply WTimeout c"] that
    by (auto dest: recovering_blocks)
  moreover have "recovering (Suc 0) (wnd_run (replicate n WResponse) (wnd_apply WTimeout c))"
    using r recovering_responses [of n 0 "wnd_apply WTimeout c"] by simp
  note last = recovering_last [OF this]
  have "snd (ASLDE_SlidingWindowAllowsTX (wnd_run (WTimeout # replicate n WResponse @ [WResponse]) c))"
    using last assms(1) by (simp add: AllowsTX_iff word_neq_0_conv [symmetric] del: wnd_apply.simps)
  ultimately show ?thesis using last by (simp del: wnd_apply.simps)
qed

theorem timeout_drains_window_witness:
  "\<not> snd (ASLDE_SlidingWindowAllowsTX (wnd_run (WTimeout # replicate 1 WResponse)
       (sample_window\<lparr>m_nCrtWndSize := 3, m_nInUseWndSize := 2\<rparr>)))
   \<and> m_nCrtWndSize (wnd_run (WTimeout # replicate 1 WResponse @ [WResponse])
       (sample_window\<lparr>m_nCrtWndSize := 3, m_nInUseWndSize := 2\<rparr>)) = 1"
  using timeout_drains_window [of "sample_window\<lparr>m_nCrtWndSize := 3, m_nInUseWndSize := 2\<rparr>" 1 1]
  by (simp add: sample_window_def)

text \<open>
  When a timeout comes while nothing of the window is outstanding, the contract is closed for good:
  no sequence of send attempts and further timeouts opens the window, and only a response to a request
  of the window would, of which there is none.
\<close>
lemma idle_timeout_closes_window:
  assumes "NLME_CONTRACT_ATTRIBUTES.m_ucMaxSendWindow c \<noteq> 0" and "m_nInUseWndSize c = 0"
    and "WResponse \<notin> set es"
  shows "\<not> snd (ASLDE_SlidingWindowAllowsTX (wnd_run (WTimeout # es) c))"
proof -
  have "recovering 0 (wnd_run es c')" if "recovering 0 c'" "WResponse \<notin> set es" for c' es
    using that
  proof (induction es arbitrary: c')
    case (Cons e es)
    have "recovering 0 (wnd_apply e c')"
    proof (cases e)
      case WSend
      then show ?thesis using Cons.prems recovering_blocks [of 0 c'] AllowsTX_fields [of c']
        by (auto simp: recovering_def ASLDE_SlidingWindowIncreaseUsage_def ASLDE_SlidingWindowAllowsTX_def Let_def)
    qed (use Cons.prems in \<open>auto simp: recovering_def ASLDE_ReceiveTimeoutForSlidingWindow_def\<close>)
    then show ?case using Cons by simp
  qed simp
  then have "recovering 0 (wnd_run es (wnd_apply WTimeout c))"
    using recovering_timeout [OF assms(1)] assms(2,3) by (simp del: wnd_apply.simps)
  then show ?thesis using recovering_blocks by simp
qed

theorem idle_timeout_closes_window_witness:
  "\<not> snd (ASLDE_SlidingWindowAllowsTX (wnd_run (WTimeout # [WSend, WTimeout, WSend]) sample_window))"
  using idle_timeout_closes_window [of sample_window "[WSend, WTimeout, WSend]"] by (simp add: sample_window_def)

section \<open>Round-trip estimation\<close>

text \<open>The range in which the 32-bit arithmetic of the estimator does not wrap; times are in eighths of a second.\<close>

definition rtt_ok :: "NLME_CONTRACT_ATTRIBUTES \<Rightarrow> bool" where
  "rtt_ok c \<longleftrightarrow> m_nSRTT c < 0x10000000 \<and> m_nRTTV c < 0x10000000"

lemma unat_u32_mult: "unat (k :: u32) * unat x < 2 ^ 32 \<Longrightarrow> unat (k * x) = unat k * unat x"
  by (simp add: unat_word_ariths)

lemma unat_u32_add: "unat (x :: u32) + unat y < 2 ^ 32 \<Longrightarrow> unat (x + y) = unat x + unat y"
  by (simp add: unat_word_ariths)

lemma unat_u32_drop: "unat (drop_bit n (x :: u32)) = unat x div 2 ^ n"
  using drop_bit_eq_div [of n "unat x"] by (simp only: unat_drop_bit_eq)

lemma unat_u32_push:
  "unat (x :: u32) * 8 < 2 ^ 32 \<Longrightarrow> unat (push_bit 3 x) = unat x * 8"
  "unat (x :: u32) * 4 < 2 ^ 32 \<Longrightarrow> unat (push_bit 2 x) = unat x * 4"
  by (simp_all add: push_bit_eq_mult unat_word_ariths)

lemma weighted_mean_bounds:
  fixes S R :: nat
  shows "min S (8 * R) \<le> 7 * S div 8 + R" "7 * S div 8 + R \<le> max S (8 * R)"
  by (auto simp: min_def max_def)

lemma deviation_bound: "V < b \<Longrightarrow> D < b \<Longrightarrow> 3 * V div 4 + D div 4 < (b :: nat)"
  by auto

lemma eighths_round_up:
  fixes t :: int
  shows "t \<le> 8 * (t div 8 + (if 0 < t mod 8 then 1 else 0))"
  by presburger

lemma rtt_delta_bound:
  "R < n \<Longrightarrow> S < n \<Longrightarrow> (if S < R then R - S else S - R) < (n :: u32)"
  by (auto simp: word_less_nat_alt unat_sub_if_size split: if_splits)

lemma computeTXtimeout_estimates:
  assumes ok: "rtt_ok c" and r: "rtt < 0x2000000"
  defines "R \<equiv> unat (if rtt = 0 then 1 else rtt)" and "c' \<equiv> ASLDE_computeTXtimeout rtt c"
  shows "unat (m_nSRTT c') = (if m_nSRTT c = 0 then 8 * R else 7 * unat (m_nSRTT c) div 8 + R)"
    and "unat (m_nRTTV c') < 0x10000000"
proof -
  define x where "x = push_bit 3 (if rtt = 0 then 1 else rtt :: u32)"
  have R: "R < 0x2000000" using r by (auto simp: R_def word_less_nat_alt)
  have x: "unat x = 8 * R" using R by (simp add: x_def R_def unat_u32_push)
  have S: "unat (m_nSRTT c) < 0x10000000" and V: "unat (m_nRTTV c) < 0x10000000"
    using ok by (simp_all add: rtt_ok_def word_less_nat_alt)
  have xb: "x < 0x10000000" using x R by (simp add: word_less_nat_alt)
  show "unat (m_nSRTT c') = (if m_nSRTT c = 0 then 8 * R else 7 * unat (m_nSRTT c) div 8 + R)"
    using x R S
    by (simp add: c'_def ASLDE_computeTXtimeout_def rtt_estimate_def Let_def x_def [symmetric] unat_u32_add unat_u32_drop unat_u32_mult)
  define d where "d = (if m_nSRTT c < x then x - m_nSRTT c else m_nSRTT c - x)"
  have d: "unat d < 0x10000000"
    using rtt_delta_bound [OF xb, of "m_nSRTT c"] ok by (simp add: d_def rtt_ok_def word_less_nat_alt)
  show "unat (m_nRTTV c') < 0x10000000"
  proof (cases "m_nSRTT c = 0")
    case True
    then show ?thesis using x R
      by (simp add: c'_def ASLDE_computeTXtimeout_def rtt_estimate_def Let_def x_def [symmetric] unat_u32_drop)
  next
    case False
    then have "m_nRTTV c' = drop_bit 2 (3 * m_nRTTV c) + drop_bit 2 d"
      by (simp add: c'_def ASLDE_computeTXtimeout_def rtt_estimate_def Let_def x_def [symmetric] d_def)
    then show ?thesis using V d deviation_bound [OF V d] by (simp add: unat_u32_add unat_u32_drop unat_u32_mult)
  qed
qed

lemma sint_u32_small:
  assumes "unat (x :: u32) < 2 ^ 31"
  shows "sint x = int (unat x)"
proof -
  have "uint x < 2 ^ 31" using assms by (simp only: uint_nat of_nat_less_iff [symmetric, where 'a = int]) simp
  then have "signed_take_bit 31 (uint x) = uint x"
    by (intro signed_take_bit_int_eq_self) (simp_all add: order_trans [OF _ uint_ge_0])
  then show ?thesis by (simp add: sint_uint)
qed

lemma retry_seconds_bounds: "1 \<le> retry_seconds S V \<and> retry_seconds S V \<le> 60"
  by (simp add: retry_seconds_def Let_def)

lemma retry_seconds_covers:
  assumes "unat S < 0x10000000" "unat V < 0x10000000"
  shows "retry_seconds S V = 60 \<or> int (unat S) \<le> 8 * retry_seconds S V"
proof -
  define w where "w = S + (if push_bit 2 V \<noteq> 0 then push_bit 2 V else 1)"
  have "unat (push_bit 2 V) = 4 * unat V" using assms by (simp add: unat_u32_push)
  then have "unat w < 2 ^ 31" "unat S \<le> unat w" using assms by (auto simp: w_def unat_u32_add)
  then have "int (unat S) \<le> sint w" by (simp only: sint_u32_small of_nat_le_iff)
  also define q where "q = sint w div 8 + (if 0 < sint w mod 8 then 1 else 0)"
  have "sint w \<le> 8 * q" unfolding q_def by (rule eighths_round_up)
  finally have "int (unat S) \<le> 8 * q" .
  moreover have "retry_seconds S V = 60 \<or> q \<le> retry_seconds S V"
    by (simp add: retry_seconds_def w_def [symmetric] q_def [symmetric] Let_def)
  ultimately show ?thesis by auto
qed

text \<open>
  The round-trip estimator stays in the range where its 32-bit arithmetic is exact: for a measured
  round trip of less than 2^25 seconds the new estimate lies between the old one and the measurement,
  and the retransmission timeout is between 1 and 60 seconds and covers the estimate unless it is 60.
\<close>
lemma retransmission_timeout_sound:
  assumes ok: "rtt_ok c" and r: "rtt < 0x2000000"
  defines "R \<equiv> 8 * unat (if rtt = 0 then 1 else rtt)" and "c' \<equiv> ASLDE_computeTXtimeout rtt c"
  shows "rtt_ok c'
    \<and> (min (if m_nSRTT c = 0 then R else unat (m_nSRTT c)) R \<le> unat (m_nSRTT c')
        \<and> unat (m_nSRTT c') \<le> max (unat (m_nSRTT c)) R)
    \<and> 1 \<le> m_nRTO c' \<and> m_nRTO c' \<le> 60 \<and> (m_nRTO c' = 60 \<or> int (unat (m_nSRTT c')) \<le> 8 * m_nRTO c')"
    (is "_ \<and> ?mean \<and> ?timeout")
proof -
  note e = computeTXtimeout_estimates [OF ok r, folded c'_def]
  have mean: ?mean
    using e(1) weighted_mean_bounds by (simp add: R_def)
  have "R < 0x10000000" using r by (auto simp: R_def word_less_nat_alt)
  then have S: "unat (m_nSRTT c') < 0x10000000" using mean ok by (auto simp: rtt_ok_def word_less_nat_alt max_def split: if_splits)
  then have "rtt_ok c'" using e(2) by (simp add: rtt_ok_def word_less_nat_alt)
  moreover have "m_nRTO c' = retry_seconds (m_nSRTT c') (m_nRTTV c')" by (simp add: c'_def ASLDE_computeTXtimeout_def Let_def)
  then have ?timeout
    using retry_seconds_bounds retry_seconds_covers [OF S e(2)] by simp
  ultimately show ?thesis using mean by blast
qed

theorem retransmission_timeout_sound_witness:
  "rtt_ok (ASLDE_computeTXtimeout 4 (sample_window\<lparr>m_nSRTT := 16, m_nRTTV := 8\<rparr>))
   \<and> m_nRTO (ASLDE_computeTXtimeout 4 (sample_window\<lparr>m_nSRTT := 16, m_nRTTV := 8\<rparr>)) = 8"
proof -
  have "m_nRTO (ASLDE_computeTXtimeout 4 (sample_window\<lparr>m_nSRTT := 16, m_nRTTV := 8\<rparr>)) = 8"
    by code_simp
  then show ?thesis
    using retransmission_timeout_sound [of "sample_window\<lparr>m_nSRTT := 16, m_nRTTV := 8\<rparr>" 4] by (simp add: rtt_ok_def)
qed

section \<open>Spacing of packets\<close>

definition usec_of :: "int \<times> int \<Rightarrow> int" where
  "usec_of t = 1000000 * fst t + snd t"

lemma sint_word_of_int_u32: "- (2 ^ 31) \<le> k \<Longrightarrow> k < 2 ^ 31 \<Longrightarrow> sint (word_of_int k :: u32) = k"
  by (simp add: int_word_sint)

lemma packet_interval_range:
  assumes "- 2146 \<le> sint b"
  shows "0 \<le> (if 0 < sint b then 1000 div sint b else - 1000 * sint b)
       \<and> (if 0 < sint b then 1000 div sint b else - 1000 * sint b) \<le> 2146000"
proof (cases "0 < sint b")
  case True
  then have "1000 div sint b \<le> 1000" using zdiv_mono2 [of 1000 1 "sint b"] by simp
  then show ?thesis using True by (simp add: pos_imp_zdiv_nonneg_iff)
next
  case False
  then show ?thesis using assms by simp
qed

lemma sdiv_smod_nonneg:
  "0 \<le> k \<Longrightarrow> 0 < l \<Longrightarrow> k sdiv l = k div l" "0 \<le> k \<Longrightarrow> 0 < l \<Longrightarrow> k smod l = k mod (l :: int)"
  by (cases "k = 0"; simp add: signed_divide_int_def signed_modulo_int_def)+

lemma usec_order:
  assumes "0 \<le> snd t" "snd t < 1000000" "0 \<le> snd t'" "snd t' < 1000000"
  shows "fst t < fst t' \<or> fst t' = fst t \<and> snd t < snd t' \<longleftrightarrow> usec_of t < usec_of t'"
proof (cases "fst t" "fst t'" rule: linorder_cases)
  case less
  then have "fst t + 1 \<le> fst t'" by simp
  then show ?thesis using less assms unfolding usec_of_def by linarith
next
  case greater
  then have "fst t' + 1 \<le> fst t" by simp
  then show ?thesis using greater assms unfolding usec_of_def by linarith
qed (simp add: usec_of_def)

lemma RecordPacketNextTXTime_time:
  assumes "0 \<le> snd now" "snd now < 1000000" and "- 2146 \<le> sint (NLME_CONTRACT_ATTRIBUTES.m_nComittedBurst c)"
  defines "t \<equiv> m_stSendNoEarlierThan (ASLDE_RecordPacketNextTXTime now c)"
  shows "usec_of t = usec_of now + 1000 * uint (packet_interval (NLME_CONTRACT_ATTRIBUTES.m_nComittedBurst c))"
    and "0 \<le> snd t" "snd t < 1000000"
proof -
  define i where "i = (let b = NLME_CONTRACT_ATTRIBUTES.m_nComittedBurst c in if 0 < sint b then 1000 div sint b else - 1000 * sint b)"
  have i: "0 \<le> i" "i \<le> 2146000" using packet_interval_range [OF assms(3)] by (simp_all add: i_def Let_def)
  have p: "packet_interval (NLME_CONTRACT_ATTRIBUTES.m_nComittedBurst c) = word_of_int i"
    by (simp add: i_def Let_def packet_interval_def)
  have u: "uint (word_of_int i :: u32) = i" using i by (simp add: uint_word_of_int)
  have "sint (word_of_int (snd now + 1000 * i) :: u32) = snd now + 1000 * i"
    using assms(1,2) i by (intro sint_word_of_int_u32) simp_all
  then have "sint (word_of_int (snd now) + 1000 * (word_of_int i :: u32)) = snd now + 1000 * i" by simp
  then have t: "t = (fst now + (snd now + 1000 * i) div 1000000, (snd now + 1000 * i) mod 1000000)"
    using assms(1) i by (simp add: t_def ASLDE_RecordPacketNextTXTime_def p Let_def sdiv_smod_nonneg)
  then show "usec_of t = usec_of now + 1000 * uint (packet_interval (NLME_CONTRACT_ATTRIBUTES.m_nComittedBurst c))"
    by (simp add: p u usec_of_def algebra_simps)
  show "0 \<le> snd t" "snd t < 1000000" by (simp_all add: t)
qed

text \<open>
  After a packet was sent at time \<open>now\<close>, the bandwidth limit allows the next one at exactly the times
  that are more than the contract's packet interval later, for every committed burst down to one packet
  in 2146 seconds.
\<close>
lemma bandwidth_spacing:
  assumes "0 \<le> snd now" "snd now < 1000000" "0 \<le> snd tv" "snd tv < 1000000"
    and "- 2146 \<le> sint (NLME_CONTRACT_ATTRIBUTES.m_nComittedBurst c)"
  shows "ASLDE_BandwidthLimitAllowsTX tv (ASLDE_RecordPacketNextTXTime now c) \<longleftrightarrow>
    usec_of now + 1000 * uint (packet_interval (NLME_CONTRACT_ATTRIBUTES.m_nComittedBurst c)) < usec_of tv"
proof -
  note t = RecordPacketNextTXTime_time [OF assms(1,2,5)]
  have "ASLDE_BandwidthLimitAllowsTX tv (ASLDE_RecordPacketNextTXTime now c) \<longleftrightarrow>
      usec_of (m_stSendNoEarlierThan (ASLDE_RecordPacketNextTXTime now c)) < usec_of tv"
    using usec_order [OF t(2,3) assms(3,4)] by (auto simp: ASLDE_BandwidthLimitAllowsTX_def)
  then show ?thesis by (simp only: t(1))
qed

theorem bandwidth_spacing_witness:
  "\<not> ASLDE_BandwidthLimitAllowsTX (104, 999999) (ASLDE_RecordPacketNextTXTime (100, 500) sample_window)
   \<and> ASLDE_BandwidthLimitAllowsTX (105, 501) (ASLDE_RecordPacketNextTXTime (100, 500) sample_window)"
proof -
  have s: "sint (NLME_CONTRACT_ATTRIBUTES.m_nComittedBurst sample_window) = - 5" by (simp add: sample_window_def)
  then have "uint (packet_interval (NLME_CONTRACT_ATTRIBUTES.m_nComittedBurst sample_window)) = 5000"
    by (simp add: packet_interval_def)
  then show ?thesis
    using bandwidth_spacing [of "(100, 500)" "(104, 999999)" sample_window]
      bandwidth_spacing [of "(100, 500)" "(105, 501)" sample_window] s by (simp add: usec_of_def)
qed

text \<open>
  For longer periods the 32-bit microsecond sum wraps: a contract with one packet in 2400 seconds is
  allowed to send again at once.
\<close>
lemma long_period_not_spaced:
  "ASLDE_BandwidthLimitAllowsTX now
     (ASLDE_RecordPacketNextTXTime (fst now, 0) (c\<lparr>NLME_CONTRACT_ATTRIBUTES.m_nComittedBurst := - 2400\<rparr>))"
  by (simp add: ASLDE_BandwidthLimitAllowsTX_def ASLDE_RecordPacketNextTXTime_def packet_interval_def
      signed_divide_int_def Let_def)

end
