(* ===== verification/Asl_Queue.thy ===== *)
theory Asl_Queue
  imports Asl_Dispatch Asl_Window
begin

text \<open>
  The application sublayer queue (\<^verbatim>\<open>aslde.cpp\<close>, and the enqueueing part of \<^verbatim>\<open>aslsrvc.cpp\<close>): APDUs to
  send with their state, retry and lifetime counters, received APDUs, confirmations of the transport
  layer, and the task that concatenates APDUs of a contract into one TSDU. The \<^verbatim>\<open>weak_ptr\<close> of a message
  is the contract's identifier with the reference number of the contract object; it can be locked while
  the contract table holds that object. Requests to the transport layer and timeout notifications to the
  applications are collected in the order they are issued; the confirmation of a request is the separate
  operation \<^verbatim>\<open>TLDE_DATA_Confirm\<close>, since it touches nothing that the rest of the sending function reads.
  Log messages are left out. The clock does not advance within one operation, which takes the time as an
  argument.
\<close>

section \<open>Data (aslde.h)\<close>

datatype APDU_STATE =
    APDU_NOT_PROCESSED
  | APDU_READY_TO_SEND
  | APDU_READY_TO_SEND_NO_FC
  | APDU_SENT_WAIT_JUST_TL_CNF
  | APDU_SENT_WAIT_CNF_AND_RESPONSE
  | APDU_CONFIRMED_WAIT_RSP
  | APDU_READY_TO_CLEAR

record APDU_IDTF =
  m_aucAddr :: ipv6
  m_ucSrcTSAPID :: u8
  m_ucDstTSAPID :: u8
  m_ucPriorityAndFlags :: u8
  m_ucTransportTime :: u8
  m_ucSecurityCtrl :: u8
  m_unDataLen :: u16
  m_tvTxTime :: "int \<times> int"

record CAslRxMsg =
  m_nRecvTime :: int
  m_ucStatus :: APDU_STATE
  m_stApduIdtf :: APDU_IDTF
  m_oVecData :: "u8 list"

record APDU_IDTF_TX =
  m_ucSrcTSAPID :: u8
  m_ucDstTSAPID :: u8
  m_ucPriorityAndFlags :: u8
  m_ucAllowEncryption :: u8

record APDU_CONFIRM_IDTF =
  m_ucHandle :: u8
  m_ucConfirmStatus :: u8

record ASL_QUEUE_HDR =
  m_ucStatus :: APDU_STATE
  m_unAPDULen :: u16
  m_unTimeout :: u16
  m_ucPriorityAndFlags :: u8
  m_ucSrcSAP :: u8
  m_ucDstSAP :: u8
  m_unSendTime :: u32
  m_unSrcOID :: u16
  m_unDstOID :: u16
  m_unLifetime :: u16
  m_ucConcatHandle :: u8
  m_ucReqID :: u8
  m_ucRetryNo :: u8
  m_unDefTimeout :: u16
  m_unAppHandle :: u16
  m_aucDest :: ipv6
  m_nContractId :: u16
  m_ucAllowEncryption :: u8
  m_ucObeyContractBandwidth :: u8
  m_bInSlidingWindow :: bool
  m_bDelayedBySlidingWnd :: bool
  m_bDelayedByBandLimit :: bool
  m_bNoRspExpected :: bool

type_synonym contract_ref = "u16 \<times> nat"

record CAslTxMsg =
  m_pWeakContract :: contract_ref
  m_stQueueHdr :: ASL_QUEUE_HDR
  m_oTxApduData :: "u8 list"

text \<open>The arguments of a call of \<^verbatim>\<open>TLDE_DATA_Request\<close>, and of \<^verbatim>\<open>UAP_DataTimeout\<close>.\<close>

record TL_REQUEST =
  rq_contract :: contract_ref
  rq_priority :: u8
  rq_data :: "u8 list"
  rq_handle :: u8
  rq_src :: u8
  rq_dst :: u8
  rq_encrypt :: u8

record DATA_TIMEOUT =
  to_app_handle :: u16
  to_src :: u8
  to_dst :: u8
  to_sfc :: u8

text \<open>The settings that the queue reads, and its state.\<close>

record asl_config =
  device_is_bbr :: bool
  g_ucDmapMaxRetry :: u8
  g_ucMaxUAPRetries :: u8
  g_unDmapRetryTout :: u16
  g_unGEspecialTimeout :: u16
  m_aucSysMng128BitAddr :: ipv6
  g_unSysMngContractID :: u16
  g_ucSMLinkTimeoutConf :: u8

record asl_state =
  g_oAslMsgListTx :: "CAslTxMsg list"
  g_oAslMsgListRx :: "CAslRxMsg list"
  g_nAslMsgListRxCount :: u32
  g_astAPDUConf :: "APDU_CONFIRM_IDTF list"
  g_ucHandle :: u8
  g_bNativePublish :: u8
  g_ucSMLinkTimeout :: u8
  g_ucLinkProbed :: u8
  g_stNlme :: NLME_ATRIBUTES
  tl_requests :: "TL_REQUEST list"
  data_timeouts :: "DATA_TIMEOUT list"

abbreviation status_of :: "CAslTxMsg \<Rightarrow> APDU_STATE" where
  "status_of msg \<equiv> ASL_QUEUE_HDR.m_ucStatus (m_stQueueHdr msg)"

definition in_hdr :: "(ASL_QUEUE_HDR \<Rightarrow> ASL_QUEUE_HDR) \<Rightarrow> CAslTxMsg \<Rightarrow> CAslTxMsg" where
  "in_hdr f msg = msg\<lparr>m_stQueueHdr := f (m_stQueueHdr msg)\<rparr>"

definition set_status :: "APDU_STATE \<Rightarrow> CAslTxMsg \<Rightarrow> CAslTxMsg" where
  "set_status st = in_hdr (\<lambda>h. h\<lparr>ASL_QUEUE_HDR.m_ucStatus := st\<rparr>)"

section \<open>Contracts behind weak pointers\<close>

definition find_ref :: "u16 \<Rightarrow> asl_state \<Rightarrow> contract_ref option" where
  "find_ref cid s = map_option (\<lambda>(r, c). (cid, r)) (map_of (m_oContractsMap (g_stNlme s)) cid)"

definition lock :: "contract_ref \<Rightarrow> asl_state \<Rightarrow> NLME_CONTRACT_ATTRIBUTES option" where
  "lock w s = (case map_of (m_oContractsMap (g_stNlme s)) (fst w) of
     None \<Rightarrow> None | Some (r, c) \<Rightarrow> if r = snd w then Some c else None)"

definition store_contract :: "contract_ref \<Rightarrow> NLME_CONTRACT_ATTRIBUTES \<Rightarrow> asl_state \<Rightarrow> asl_state" where
  "store_contract w c s = s\<lparr>g_stNlme := (g_stNlme s)\<lparr>m_oContractsMap :=
     AList.update (fst w) (snd w, c) (m_oContractsMap (g_stNlme s))\<rparr>\<rparr>"

text \<open>Applies an update to the contract if the pointer can be locked.\<close>

definition on_contract ::
    "contract_ref \<Rightarrow> (NLME_CONTRACT_ATTRIBUTES \<Rightarrow> NLME_CONTRACT_ATTRIBUTES) \<Rightarrow> asl_state \<Rightarrow> asl_state" where
  "on_contract w f s = (case lock w s of None \<Rightarrow> s | Some c \<Rightarrow> store_contract w (f c) s)"

section \<open>Initialisation\<close>

definition ASLDE_Init_queues :: "asl_state \<Rightarrow> asl_state" where
  "ASLDE_Init_queues s = s\<lparr>g_astAPDUConf := [], g_oAslMsgListTx := [], g_oAslMsgListRx := [],
     g_nAslMsgListRxCount := 0\<rparr>"

section \<open>Adding an object to the queue (aslsrvc.cpp)\<close>

text \<open>
  The object is a service or, when \<^verbatim>\<open>p_unBinSize\<close> is not zero, that many octets at an address. The code
  reads the object identifiers of either through the layout of a read request: the first two 16-bit
  numbers of the object.
\<close>

datatype asl_object = Service ASL_SRVC | Binarized addr u16

fun service_oids :: "ASL_SRVC \<Rightarrow> u16 \<times> u16" where
  "service_oids (ReadReq x) = (SRVC_OIDS.m_unSrcOID x, SRVC_OIDS.m_unDstOID x)"
| "service_oids (ReadRsp x) = (SRVC_OIDS.m_unSrcOID x, SRVC_OIDS.m_unDstOID x)"
| "service_oids (WriteReq x) = (SRVC_OIDS.m_unSrcOID x, SRVC_OIDS.m_unDstOID x)"
| "service_oids (WriteRsp x) = (SRVC_OIDS.m_unSrcOID x, SRVC_OIDS.m_unDstOID x)"
| "service_oids (ExecReq x) = (SRVC_OIDS.m_unSrcOID x, SRVC_OIDS.m_unDstOID x)"
| "service_oids (ExecRsp x) = (SRVC_OIDS.m_unSrcOID x, SRVC_OIDS.m_unDstOID x)"
| "service_oids (TunnelReq x) = (SRVC_OIDS.m_unSrcOID x, SRVC_OIDS.m_unDstOID x)"
| "service_oids (TunnelRsp x) = (SRVC_OIDS.m_unSrcOID x, SRVC_OIDS.m_unDstOID x)"
| "service_oids (AlertRep x) = (SRVC_OIDS.m_unSrcOID x, SRVC_OIDS.m_unDstOID x)"
| "service_oids (AlertAck x) = (SRVC_OIDS.m_unSrcOID x, SRVC_OIDS.m_unDstOID x)"
| "service_oids (Publish x) = (m_unPubOID x, m_unSubOID x)"

definition native16_at :: "mem \<Rightarrow> addr \<Rightarrow> u16" where
  "native16_at m p = push_bit 8 (ucast (m (p + 1))) OR ucast (m p)"

fun object_oids :: "mem \<Rightarrow> asl_object \<Rightarrow> u16 \<times> u16" where
  "object_oids m (Service x) = service_oids x"
| "object_oids m (Binarized p n) = (native16_at m p, native16_at m (p + 2))"

text \<open>The request identifier of the services that carry one into the queue, and its assignment.\<close>

fun request_id :: "asl_object \<Rightarrow> u8 option" where
  "request_id (Service (ReadReq x)) = Some (SRVC_REQID.m_ucReqID x)"
| "request_id (Service (WriteReq x)) = Some (SRVC_REQID.m_ucReqID x)"
| "request_id (Service (ExecReq x)) = Some (SRVC_REQID.m_ucReqID x)"
| "request_id y = None"

fun assign_request_id :: "u8 \<Rightarrow> asl_object \<Rightarrow> asl_object" where
  "assign_request_id r (Service (ReadReq x)) = Service (ReadReq (x\<lparr>SRVC_REQID.m_ucReqID := r\<rparr>))"
| "assign_request_id r (Service (WriteReq x)) = Service (WriteReq (x\<lparr>SRVC_REQID.m_ucReqID := r\<rparr>))"
| "assign_request_id r (Service (ExecReq x)) = Service (ExecReq (x\<lparr>SRVC_REQID.m_ucReqID := r\<rparr>))"
| "assign_request_id r y = y"

fun is_flow_controlled :: "asl_object \<Rightarrow> bool" where
  "is_flow_controlled (Service (ReadReq x)) = True"
| "is_flow_controlled (Service (WriteReq x)) = True"
| "is_flow_controlled (Service (ExecReq x)) = True"
| "is_flow_controlled (Service (TunnelReq x)) = True"
| "is_flow_controlled y = False"

fun object_apdu :: "mem \<Rightarrow> asl_object \<Rightarrow> u8 list option" where
  "object_apdu m (Service x) = ASLSRVC_binarize m x 65535"
| "object_apdu m (Binarized p n) = Some (mem_bytes m p (unat n))"

text \<open>The activation method of the upload/download object gets a timeout of its own.\<close>

fun is_fw_activation :: "u8 \<Rightarrow> asl_object \<Rightarrow> bool" where
  "is_fw_activation dst (Service (ExecReq x)) \<longleftrightarrow>
     dst = 1 \<and> SRVC_OIDS.m_unDstOID x = 7 \<and> m_ucMethID x = 133"
| "is_fw_activation dst y \<longleftrightarrow> False"

record ADD_ARGS =
  p_ucPriority :: u8
  p_ucSrcTSAPID :: u8
  p_ucDstTSAPID :: u8
  p_unAppHandler :: u16
  p_pDstAddr :: "u8 list option"
  p_unContractID :: u16
  p_ucObeyContractBandwidth :: u8
  p_ucAllowEncryption :: u8
  p_ucNoRspExpected :: u8
  p_unAPDULifetime :: u16

definition queue_header :: "asl_config \<Rightarrow> mem \<Rightarrow> ADD_ARGS \<Rightarrow> asl_object \<Rightarrow> NLME_CONTRACT_ATTRIBUTES \<Rightarrow> u8 list \<Rightarrow> ASL_QUEUE_HDR" where
  "queue_header cfg m a y c apdu =
     (let t = (if is_fw_activation (p_ucDstTSAPID a) y then g_unGEspecialTimeout cfg else word_of_int (m_nRTO c))
      in \<lparr>m_ucStatus = (if is_flow_controlled y \<and> p_ucNoRspExpected a = 0 then APDU_READY_TO_SEND
                        else APDU_READY_TO_SEND_NO_FC),
          m_unAPDULen = word_of_nat (length apdu),
          m_unTimeout = t,
          m_ucPriorityAndFlags = (p_ucPriority a AND 0x0F) OR 0x20,
          m_ucSrcSAP = p_ucSrcTSAPID a, m_ucDstSAP = p_ucDstTSAPID a,
          m_unSendTime = 0,
          m_unSrcOID = fst (object_oids m y), m_unDstOID = snd (object_oids m y),
          m_unLifetime = p_unAPDULifetime a,
          m_ucConcatHandle = 0,
          m_ucReqID = (case request_id y of Some r \<Rightarrow> r | None \<Rightarrow> NLME_CONTRACT_ATTRIBUTES.m_ucReqID c),
          m_ucRetryNo = (if p_ucSrcTSAPID a = 0 then g_ucDmapMaxRetry cfg else g_ucMaxUAPRetries cfg),
          m_unDefTimeout = t,
          m_unAppHandle = p_unAppHandler a,
          m_aucDest = NLME_CONTRACT_ATTRIBUTES.m_aDestAddress c,
          m_nContractId = p_unContractID a,
          m_ucAllowEncryption = ADD_ARGS.p_ucAllowEncryption a,
          m_ucObeyContractBandwidth = ADD_ARGS.p_ucObeyContractBandwidth a,
          m_bInSlidingWindow = False, m_bDelayedBySlidingWnd = False, m_bDelayedByBandLimit = False,
          m_bNoRspExpected = bit (p_ucNoRspExpected a) 0\<rparr>)"

text \<open>
  \<^verbatim>\<open>m_ucConcatHandle\<close> is set when the message is sent and not read before; a new message holds 0 here.
  The look-up of the device's contract table (\<^verbatim>\<open>DMO_FindContract\<close>) at the start of the function only
  guards a call of \<^verbatim>\<open>ASLDE_DiscardAPDU\<close>, whose body is empty.
\<close>

definition ASLSRVC_AddGenericObjectEncryptableCore ::
    "asl_config \<Rightarrow> mem \<Rightarrow> ADD_ARGS \<Rightarrow> asl_object \<Rightarrow> contract_ref option \<Rightarrow> asl_state \<Rightarrow> asl_state \<times> u8" where
  "ASLSRVC_AddGenericObjectEncryptableCore cfg m a y p_pContract s =
     (if device_is_bbr cfg \<and> \<not> g_nRequestForLinuxBbr (g_stNlme s) then (s, SFC_SUCCESS)
      else if p_pDstAddr a \<noteq> None then (s, SFC_FAILURE)
      else case (case p_pContract of Some w \<Rightarrow> Some w | None \<Rightarrow> find_ref (p_unContractID a) s) of
        None \<Rightarrow> (s, SFC_NO_CONTRACT)
      | Some w \<Rightarrow>
          (case lock w s of
             None \<Rightarrow> (s, SFC_NO_CONTRACT)
           | Some c \<Rightarrow>
               let s = (if request_id y = Some (NLME_CONTRACT_ATTRIBUTES.m_ucReqID c)
                        then store_contract w (c\<lparr>NLME_CONTRACT_ATTRIBUTES.m_ucReqID :=
                               NLME_CONTRACT_ATTRIBUTES.m_ucReqID c + 1\<rparr>) s else s)
               in case object_apdu m y of
                    None \<Rightarrow> (s, SFC_INSUFFICIENT_DEVICE_RESOURCES)
                  | Some apdu \<Rightarrow>
                      (s\<lparr>g_oAslMsgListTx := g_oAslMsgListTx s @
                          [\<lparr>m_pWeakContract = w, m_stQueueHdr = queue_header cfg m a y c apdu,
                            m_oTxApduData = apdu\<rparr>]\<rparr>, SFC_SUCCESS)))"

definition ASLSRVC_AddGenericObjectEncryptable ::
    "asl_config \<Rightarrow> mem \<Rightarrow> ADD_ARGS \<Rightarrow> asl_object \<Rightarrow> asl_state \<Rightarrow> asl_state \<times> u8" where
  "ASLSRVC_AddGenericObjectEncryptable cfg m a y s =
     (case find_ref (p_unContractID a) s of
        None \<Rightarrow> (s, SFC_NO_CONTRACT)
      | Some w \<Rightarrow>
          (case lock w s of
             None \<Rightarrow> (s, SFC_NO_CONTRACT)
           | Some c \<Rightarrow> ASLSRVC_AddGenericObjectEncryptableCore cfg m a
                         (assign_request_id (NLME_CONTRACT_ATTRIBUTES.m_ucReqID c) y) (Some w) s))"

definition ASLSRVC_AddGenericObject ::
    "asl_config \<Rightarrow> mem \<Rightarrow> ADD_ARGS \<Rightarrow> asl_object \<Rightarrow> asl_state \<Rightarrow> asl_state \<times> u8" where
  "ASLSRVC_AddGenericObject cfg m a y s =
     ASLSRVC_AddGenericObjectEncryptable cfg m (a\<lparr>ADD_ARGS.p_ucAllowEncryption := 1\<rparr>) y s"

definition ASLSRVC_AddGenericObjectPlain ::
    "asl_config \<Rightarrow> mem \<Rightarrow> ADD_ARGS \<Rightarrow> asl_object \<Rightarrow> asl_state \<Rightarrow> asl_state \<times> u8" where
  "ASLSRVC_AddGenericObjectPlain cfg m a y s =
     ASLSRVC_AddGenericObjectEncryptable cfg m (a\<lparr>ADD_ARGS.p_ucAllowEncryption := 0\<rparr>) y s"

section \<open>Received APDUs\<close>

definition TLDE_DATA_Indication ::
    "asl_config \<Rightarrow> u32 \<Rightarrow> ipv6 \<Rightarrow> u8 \<Rightarrow> u8 \<Rightarrow> u8 list \<Rightarrow> u8 \<Rightarrow> u8 \<Rightarrow> int \<times> int \<Rightarrow> u8 \<Rightarrow> asl_state \<Rightarrow> asl_state" where
  "TLDE_DATA_Indication cfg now p_pSrcAddr p_ucSrcTsap p_ucPriorityAndFlags p_pAppData p_ucDstTsap
       p_ucTransportTime p_ptvTxTime p_ucSecurityCtrl s =
     (if length p_pAppData < 3 then s
      else
        let msg = \<lparr>m_nRecvTime = sint now, m_ucStatus = APDU_NOT_PROCESSED,
              m_stApduIdtf = \<lparr>m_aucAddr = p_pSrcAddr, m_ucSrcTSAPID = p_ucSrcTsap, m_ucDstTSAPID = p_ucDstTsap,
                m_ucPriorityAndFlags = p_ucPriorityAndFlags, m_ucTransportTime = p_ucTransportTime,
                m_ucSecurityCtrl = p_ucSecurityCtrl, m_unDataLen = word_of_nat (length p_pAppData),
                m_tvTxTime = p_ptvTxTime\<rparr>,
              m_oVecData = p_pAppData\<rparr>;
            s = s\<lparr>g_oAslMsgListRx := g_oAslMsgListRx s @ [msg], g_nAslMsgListRxCount := g_nAslMsgListRxCount s + 1\<rparr>
        in if p_pSrcAddr = m_aucSysMng128BitAddr cfg then
             let rto = (case NLME_FindContract (g_unSysMngContractID cfg) (g_stNlme s) of
                          Some c \<Rightarrow> m_nRTO c | None \<Rightarrow> int (unat (g_unDmapRetryTout cfg)));
                 nTimeout = word_of_int (3 * int (unat (g_ucDmapMaxRetry cfg)) * rto) :: u8
             in s\<lparr>g_ucSMLinkTimeout := max (g_ucSMLinkTimeoutConf cfg) nTimeout, g_ucLinkProbed := 0\<rparr>
           else s)"

definition ASLDE_GetMyAPDUfromBuff :: "u8 \<Rightarrow> asl_state \<Rightarrow> asl_state \<times> (APDU_IDTF \<times> u8 list) option" where
  "ASLDE_GetMyAPDUfromBuff p_ucTSAPID s =
     (case List.extract (\<lambda>x. APDU_IDTF.m_ucDstTSAPID (m_stApduIdtf x) = p_ucTSAPID
              \<and> CAslRxMsg.m_ucStatus x = APDU_NOT_PROCESSED) (g_oAslMsgListRx s) of
        None \<Rightarrow> (s, None)
      | Some (before, x, after) \<Rightarrow>
          (s\<lparr>g_bNativePublish := (if APDU_IDTF.m_ucSrcTSAPID (m_stApduIdtf x) = 0 then 0 else 1),
             g_nAslMsgListRxCount := g_nAslMsgListRxCount s - 1,
             g_oAslMsgListRx := before @ after\<rparr>,
           Some (m_stApduIdtf x, take (unat (m_unDataLen (m_stApduIdtf x))) (m_oVecData x))))"

definition ASLDE_CheckAPDUTimeoutCountersOnRX :: "u32 \<Rightarrow> asl_state \<Rightarrow> asl_state" where
  "ASLDE_CheckAPDUTimeoutCountersOnRX now s =
     (let old = takeWhile (\<lambda>x. \<not> sint now < m_nRecvTime x + 60) (g_oAslMsgListRx s)
      in s\<lparr>g_oAslMsgListRx := drop (length old) (g_oAslMsgListRx s),
           g_nAslMsgListRxCount := g_nAslMsgListRxCount s - word_of_nat (length old)\<rparr>)"

section \<open>Responses\<close>

text \<open>The condition under which a queued message is the request that a received response answers.\<close>

definition answers :: "u8 \<Rightarrow> u16 \<Rightarrow> u16 \<Rightarrow> APDU_IDTF \<Rightarrow> asl_state \<Rightarrow> CAslTxMsg \<Rightarrow> bool" where
  "answers p_ucReqID p_unDstObjID p_unSrcObjID idtf s msg \<longleftrightarrow>
     (let h = m_stQueueHdr msg in
      \<not> bit (m_oTxApduData msg ! 0) 7
      \<and> ASL_QUEUE_HDR.m_unDstOID h = p_unDstObjID \<and> ASL_QUEUE_HDR.m_unSrcOID h = p_unSrcObjID
      \<and> ASL_QUEUE_HDR.m_ucReqID h = p_ucReqID
      \<and> m_ucSrcSAP h = APDU_IDTF.m_ucDstTSAPID idtf \<and> m_ucDstSAP h = APDU_IDTF.m_ucSrcTSAPID idtf
      \<and> status_of msg \<noteq> APDU_READY_TO_CLEAR
      \<and> (case lock (m_pWeakContract msg) s of
           None \<Rightarrow> False | Some c \<Rightarrow> NLME_CONTRACT_ATTRIBUTES.m_aDestAddress c = m_aucAddr idtf))"

text \<open>The result: the APDU of the request with its length and application handle.\<close>

definition ASLDE_SearchOriginalRequest ::
    "u32 \<Rightarrow> u8 \<Rightarrow> u16 \<Rightarrow> u16 \<Rightarrow> APDU_IDTF \<Rightarrow> asl_state \<Rightarrow> asl_state \<times> (u8 list \<times> u16 \<times> u16) option" where
  "ASLDE_SearchOriginalRequest now p_ucReqID p_unDstObjID p_unSrcObjID idtf s =
     (case List.extract (answers p_ucReqID p_unDstObjID p_unSrcObjID idtf s) (g_oAslMsgListTx s) of
        None \<Rightarrow> (s, None)
      | Some (before, msg, after) \<Rightarrow>
          let h = m_stQueueHdr msg; w = m_pWeakContract msg;
              s = on_contract w (ASLDE_computeTXtimeout (now - m_unSendTime h)) s;
              s = (if m_bInSlidingWindow h then on_contract w ASLDE_ReceiveResponseForSlidingWindow s else s)
          in (s\<lparr>g_oAslMsgListTx := before @ set_status APDU_READY_TO_CLEAR msg # after\<rparr>,
              Some (m_oTxApduData msg, m_unAPDULen h, m_unAppHandle h)))"

section \<open>Timeouts and retries\<close>

definition UAP_DataTimeout :: "u16 \<Rightarrow> u8 \<Rightarrow> u8 \<Rightarrow> u8 \<Rightarrow> asl_state \<Rightarrow> asl_state" where
  "UAP_DataTimeout handle src dst sfc s = s\<lparr>data_timeouts := data_timeouts s @
     [\<lparr>to_app_handle = handle, to_src = src, to_dst = dst, to_sfc = sfc\<rparr>]\<rparr>"

text \<open>The doubled timeout, at most 60 seconds.\<close>

definition backoff :: "u16 \<Rightarrow> u16" where
  "backoff t = (let t = t * 2 in if 60 < t then 60 else t)"

definition ASLDE_retryMessage :: "CAslTxMsg \<Rightarrow> asl_state \<Rightarrow> CAslTxMsg \<times> asl_state" where
  "ASLDE_retryMessage msg s =
     (let h = m_stQueueHdr msg; w = m_pWeakContract msg;
          s = on_contract w ASLDE_ReceiveTimeoutForSlidingWindow s
      in if m_ucRetryNo h \<noteq> 0 then
           (in_hdr (\<lambda>h. h\<lparr>m_ucRetryNo := m_ucRetryNo h - 1, m_unDefTimeout := backoff (m_unDefTimeout h),
                         m_unTimeout := backoff (m_unDefTimeout h),
                         ASL_QUEUE_HDR.m_ucStatus := APDU_READY_TO_SEND_NO_FC\<rparr>) msg, s)
         else
           let s = (if m_bInSlidingWindow h then on_contract w ASLDE_ReceiveResponseForSlidingWindow s else s)
           in (set_status APDU_READY_TO_CLEAR msg,
               UAP_DataTimeout (m_unAppHandle h) (m_ucSrcSAP h) (m_ucDstSAP h) SFC_TIMEOUT s))"

text \<open>One message of \<^verbatim>\<open>ASLDE_CheckAPDUTimeoutCountersOnTX\<close>: the lifetime, then the retry timer.\<close>

definition expire_lifetime :: "CAslTxMsg \<Rightarrow> asl_state \<Rightarrow> CAslTxMsg \<times> asl_state" where
  "expire_lifetime msg s =
     (if status_of msg = APDU_READY_TO_CLEAR then (msg, s)
      else
        let msg = in_hdr (\<lambda>h. h\<lparr>m_unLifetime := m_unLifetime h - 1\<rparr>) msg; h = m_stQueueHdr msg; w = m_pWeakContract msg
        in if m_unLifetime h \<noteq> 0 then (msg, s)
           else
             let s = (if m_bInSlidingWindow h then on_contract w ASLDE_ReceiveResponseForSlidingWindow s else s)
             in (set_status APDU_READY_TO_CLEAR msg,
                 UAP_DataTimeout (m_unAppHandle h) (m_ucSrcSAP h) (m_ucDstSAP h) SFC_TIMEOUT s))"

definition tx_second :: "CAslTxMsg \<Rightarrow> asl_state \<Rightarrow> CAslTxMsg \<times> asl_state" where
  "tx_second msg s =
     (let (msg, s) = expire_lifetime msg s in
      if status_of msg = APDU_READY_TO_CLEAR \<or> status_of msg = APDU_READY_TO_SEND
         \<or> status_of msg = APDU_READY_TO_SEND_NO_FC then (msg, s)
      else if m_unTimeout (m_stQueueHdr msg) \<noteq> 0
      then (in_hdr (\<lambda>h. h\<lparr>m_unTimeout := m_unTimeout h - 1\<rparr>) msg, s)
      else ASLDE_retryMessage msg s)"

text \<open>A loop over the messages that may change each of them and the rest of the state.\<close>

fun map_state :: "('m \<Rightarrow> 's \<Rightarrow> 'm \<times> 's) \<Rightarrow> 'm list \<Rightarrow> 's \<Rightarrow> 'm list \<times> 's" where
  "map_state f [] s = ([], s)"
| "map_state f (x # xs) s = (let (x, s) = f x s; (xs, s) = map_state f xs s in (x # xs, s))"

definition ASLDE_CheckAPDUTimeoutCountersOnTX :: "asl_state \<Rightarrow> asl_state" where
  "ASLDE_CheckAPDUTimeoutCountersOnTX s =
     (let (xs, s) = map_state tx_second (g_oAslMsgListTx s) s in s\<lparr>g_oAslMsgListTx := xs\<rparr>)"

definition ASLDE_cleanAPDUBuffer :: "asl_state \<Rightarrow> asl_state" where
  "ASLDE_cleanAPDUBuffer s =
     s\<lparr>g_oAslMsgListTx := filter (\<lambda>msg. status_of msg \<noteq> APDU_READY_TO_CLEAR) (g_oAslMsgListTx s)\<rparr>"

text \<open>The queue part of \<^verbatim>\<open>ASLDE_PerformOneSecondOperations\<close>.\<close>

definition ASLDE_OneSecond_queue :: "u32 \<Rightarrow> asl_state \<Rightarrow> asl_state" where
  "ASLDE_OneSecond_queue now s =
     ASLDE_cleanAPDUBuffer (ASLDE_CheckAPDUTimeoutCountersOnTX (ASLDE_CheckAPDUTimeoutCountersOnRX now s))"

section \<open>Confirmations\<close>

definition TLDE_DATA_Confirm :: "u8 \<Rightarrow> u8 \<Rightarrow> asl_state \<Rightarrow> asl_state" where
  "TLDE_DATA_Confirm p_hHandle p_ucStatus s =
     (if length (g_astAPDUConf s) < 5
      then s\<lparr>g_astAPDUConf := g_astAPDUConf s @ [\<lparr>m_ucHandle = p_hHandle, m_ucConfirmStatus = p_ucStatus\<rparr>]\<rparr>
      else s)"

text \<open>The effect of one confirmation on one message; \<open>None\<close> when the message is erased from the list.\<close>

definition confirm_message :: "APDU_CONFIRM_IDTF \<Rightarrow> CAslTxMsg \<Rightarrow> CAslTxMsg option" where
  "confirm_message cnf msg =
     (if (status_of msg = APDU_SENT_WAIT_JUST_TL_CNF \<or> status_of msg = APDU_SENT_WAIT_CNF_AND_RESPONSE)
         \<and> m_ucConcatHandle (m_stQueueHdr msg) = m_ucHandle cnf then
        if m_ucConfirmStatus cnf = SFC_SUCCESS then
          (if status_of msg = APDU_SENT_WAIT_JUST_TL_CNF then None
           else Some (set_status APDU_CONFIRMED_WAIT_RSP msg))
        else if m_ucConfirmStatus cnf = SFC_NO_CONTRACT then None
        else Some (in_hdr (\<lambda>h. h\<lparr>m_unTimeout := 2\<rparr>) msg)
      else Some msg)"

definition ASLDE_checkTLConfirms :: "asl_state \<Rightarrow> asl_state" where
  "ASLDE_checkTLConfirms s =
     s\<lparr>g_oAslMsgListTx := fold (\<lambda>cnf. List.map_filter (confirm_message cnf)) (g_astAPDUConf s) (g_oAslMsgListTx s),
       g_astAPDUConf := []\<rparr>"

section \<open>Sending\<close>

definition ASLDE_loadIDTF :: "ASL_QUEUE_HDR \<Rightarrow> APDU_IDTF_TX" where
  "ASLDE_loadIDTF h = \<lparr>m_ucSrcTSAPID = m_ucSrcSAP h, m_ucDstTSAPID = m_ucDstSAP h,
     m_ucPriorityAndFlags = ASL_QUEUE_HDR.m_ucPriorityAndFlags h,
     m_ucAllowEncryption = ASL_QUEUE_HDR.m_ucAllowEncryption h\<rparr>"

abbreviation ready :: "CAslTxMsg \<Rightarrow> bool" where
  "ready msg \<equiv> status_of msg = APDU_READY_TO_SEND \<or> status_of msg = APDU_READY_TO_SEND_NO_FC"

definition beats :: "CAslTxMsg \<Rightarrow> (APDU_IDTF_TX \<times> contract_ref) option \<Rightarrow> bool" where
  "beats msg best \<longleftrightarrow> (case best of None \<Rightarrow> True
     | Some (i, w) \<Rightarrow> APDU_IDTF_TX.m_ucPriorityAndFlags i AND 0x0F
                       < ASL_QUEUE_HDR.m_ucPriorityAndFlags (m_stQueueHdr msg) AND 0x0F)"

text \<open>
  One message of \<^verbatim>\<open>ASLDE_searchHighestPriority\<close>: the message that stays in the list, if any, the best
  candidate so far and the state.
\<close>

definition consider_message ::
    "int \<times> int \<Rightarrow> CAslTxMsg \<Rightarrow> (APDU_IDTF_TX \<times> contract_ref) option \<Rightarrow> asl_state \<Rightarrow>
     CAslTxMsg option \<times> (APDU_IDTF_TX \<times> contract_ref) option \<times> asl_state" where
  "consider_message tvNow msg best s =
     (let h = m_stQueueHdr msg; w = m_pWeakContract msg in
      if ready msg \<and> beats msg best then
        (case lock w s of
           None \<Rightarrow> (None, best, UAP_DataTimeout (m_unAppHandle h) (m_ucSrcSAP h) (m_ucDstSAP h) SFC_NO_CONTRACT s)
         | Some c \<Rightarrow>
             let (c, allowed) = (if status_of msg = APDU_READY_TO_SEND then ASLDE_SlidingWindowAllowsTX c else (c, True));
                 s = store_contract w c s
             in if \<not> allowed then (Some (in_hdr (\<lambda>h. h\<lparr>m_bDelayedBySlidingWnd := True\<rparr>) msg), best, s)
                else if ASL_QUEUE_HDR.m_ucObeyContractBandwidth h \<noteq> 0 \<and> \<not> ASLDE_BandwidthLimitAllowsTX tvNow c
                then (Some (in_hdr (\<lambda>h. h\<lparr>m_bDelayedByBandLimit := True\<rparr>) msg), best, s)
                else (Some msg, Some (ASLDE_loadIDTF h, w), s))
      else (Some msg, best, s))"

fun search_loop ::
    "int \<times> int \<Rightarrow> CAslTxMsg list \<Rightarrow> (APDU_IDTF_TX \<times> contract_ref) option \<Rightarrow> asl_state \<Rightarrow>
     CAslTxMsg list \<times> (APDU_IDTF_TX \<times> contract_ref) option \<times> asl_state" where
  "search_loop tvNow [] best s = ([], best, s)"
| "search_loop tvNow (msg # msgs) best s =
     (let (kept, best, s) = consider_message tvNow msg best s;
          (msgs, best, s) = search_loop tvNow msgs best s
      in ((case kept of None \<Rightarrow> msgs | Some msg \<Rightarrow> msg # msgs), best, s))"

definition ASLDE_searchHighestPriority ::
    "int \<times> int \<Rightarrow> asl_state \<Rightarrow> asl_state \<times> (APDU_IDTF_TX \<times> contract_ref) option" where
  "ASLDE_searchHighestPriority tvNow s =
     (let (msgs, best, s) = search_loop tvNow (g_oAslMsgListTx s) None s
      in (s\<lparr>g_oAslMsgListTx := msgs\<rparr>, best))"

text \<open>The state a message takes when it is handed to the transport layer.\<close>

definition sent_state :: "CAslTxMsg \<Rightarrow> APDU_STATE" where
  "sent_state msg =
     (let b = m_oTxApduData msg ! 0; t = b AND 0x1F in
      if m_bNoRspExpected (m_stQueueHdr msg) \<or> bit b 7 \<or> t = 1 \<or> t = 2 \<or> t = 0
      then APDU_SENT_WAIT_JUST_TL_CNF else APDU_SENT_WAIT_CNF_AND_RESPONSE)"

definition mark_sent :: "u8 \<Rightarrow> u32 \<Rightarrow> CAslTxMsg \<Rightarrow> CAslTxMsg" where
  "mark_sent p_ucHandle now msg =
     in_hdr (\<lambda>h. h\<lparr>m_ucConcatHandle := p_ucHandle,
                   m_unSendTime := (if m_unSendTime h = 0 then now else m_unSendTime h),
                   m_bInSlidingWindow := (m_bInSlidingWindow h \<or> status_of msg = APDU_READY_TO_SEND),
                   ASL_QUEUE_HDR.m_ucStatus := sent_state msg\<rparr>) msg"

text \<open>
  One message of \<^verbatim>\<open>ASLDE_concatenateAPDUs\<close>: \<open>room\<close> is \<^verbatim>\<open>p_pOutBufEnd - pOrigStart\<close> and \<open>out\<close> what was
  copied so far. \<open>w\<close> is the contract that is sent on.
\<close>

definition concat_message ::
    "u16 \<Rightarrow> int \<Rightarrow> u8 \<Rightarrow> u32 \<Rightarrow> contract_ref \<Rightarrow> CAslTxMsg \<Rightarrow> u8 list \<times> asl_state \<Rightarrow>
     CAslTxMsg \<times> u8 list \<times> asl_state" where
  "concat_message cid room p_ucHandle now w msg = (\<lambda>(out, s).
     let h = m_stQueueHdr msg in
     if ready msg \<and> cid = m_nContractId h then
       if int (unat (m_unAPDULen h)) \<le> room - int (length out) then
         let (s, ok) = (if status_of msg = APDU_READY_TO_SEND then
               (case lock w s of
                  None \<Rightarrow> (s, False)
                | Some c \<Rightarrow> let (c, ok) = ASLDE_SlidingWindowIncreaseUsage c in (store_contract w c s, ok))
               else (s, True))
         in if \<not> ok then (msg, out, s)
            else (mark_sent p_ucHandle now msg, out @ take (unat (m_unAPDULen h)) (m_oTxApduData msg), s)
       else ((if out = [] then set_status APDU_READY_TO_CLEAR msg else msg), out, s)
     else (msg, out, s))"

definition ASLDE_concatenateAPDUs ::
    "u16 \<Rightarrow> int \<Rightarrow> u8 \<Rightarrow> u32 \<Rightarrow> contract_ref \<Rightarrow> asl_state \<Rightarrow> u8 list \<times> asl_state" where
  "ASLDE_concatenateAPDUs cid room p_ucHandle now w s =
     (let (msgs, out, s) = map_state (concat_message cid room p_ucHandle now w) (g_oAslMsgListTx s) ([], s)
      in (out, s\<lparr>g_oAslMsgListTx := msgs\<rparr>))"

definition ASLDE_flushAPDUBuffer :: "int \<times> int \<Rightarrow> asl_state \<Rightarrow> asl_state" where
  "ASLDE_flushAPDUBuffer tvNow s =
     (let (s, best) = ASLDE_searchHighestPriority tvNow s in
      case best of
        None \<Rightarrow> s
      | Some (idtf, w) \<Rightarrow>
          (case lock w s of
             None \<Rightarrow> s
           | Some c \<Rightarrow>
               let (out, s) = ASLDE_concatenateAPDUs (NLME_CONTRACT_ATTRIBUTES.m_unContractID c)
                     (int (unat (NLME_CONTRACT_ATTRIBUTES.m_unAssignedMaxNSDUSize c)) - 16)
                     (g_ucHandle s) (word_of_int (fst tvNow)) w s;
                   s = s\<lparr>tl_requests := tl_requests s @
                         [\<lparr>rq_contract = w, rq_priority = APDU_IDTF_TX.m_ucPriorityAndFlags idtf, rq_data = out,
                           rq_handle = g_ucHandle s, rq_src = APDU_IDTF_TX.m_ucSrcTSAPID idtf,
                           rq_dst = APDU_IDTF_TX.m_ucDstTSAPID idtf,
                           rq_encrypt = APDU_IDTF_TX.m_ucAllowEncryption idtf\<rparr>],
                       g_ucHandle := g_ucHandle s + 1\<rparr>
               in on_contract w (\<lambda>c. (ASLDE_RecordPacketNextTXTime tvNow c)\<lparr>m_unPktCount := m_unPktCount c + 1\<rparr>) s))"

definition ASLDE_ASLTask :: "int \<times> int \<Rightarrow> asl_state \<Rightarrow> asl_state" where
  "ASLDE_ASLTask tvNow s = ASLDE_flushAPDUBuffer tvNow (ASLDE_checkTLConfirms s)"

end
