(* ===== verification/Asl_Accounting.thy ===== *)
theory Asl_Accounting
  imports Asl_Queue
begin

text \<open>
  Window accounting of the transmit queue: in every state that the queue's operations reach, the messages
  of a contract that occupy its sliding window are no more than the contract's in-use counter says, and so
  no more than its maximum. The loops over the queue are instances of one locale, whose law is what one
  message contributes.
\<close>

section \<open>Contracts and messages\<close>

lemma in_hdr_simps [simp]:
  "m_stQueueHdr (in_hdr f msg) = f (m_stQueueHdr msg)" "m_pWeakContract (in_hdr f msg) = m_pWeakContract msg"
  "m_oTxApduData (in_hdr f msg) = m_oTxApduData msg"
  by (simp_all add: in_hdr_def)

lemma set_status_simps [simp]:
  "m_stQueueHdr (set_status st msg) = (m_stQueueHdr msg)\<lparr>ASL_QUEUE_HDR.m_ucStatus := st\<rparr>"
  "m_pWeakContract (set_status st msg) = m_pWeakContract msg" "m_oTxApduData (set_status st msg) = m_oTxApduData msg"
  by (simp_all add: set_status_def)

lemma lock_put [simp]:
  "lock w s = Some c\<^sub>0 \<Longrightarrow> lock v (store_contract w c s) = (if v = w then Some c else lock v s)"
  by (cases v; cases w) (auto simp: lock_def store_contract_def update_conv' split: option.splits prod.splits if_splits)

lemma lock_unique: "lock v s = Some c \<Longrightarrow> lock w s = Some d \<Longrightarrow> fst v = fst w \<Longrightarrow> v = w"
  by (cases v; cases w) (auto simp: lock_def split: option.splits if_splits)

lemma lock_on_contract:
  "lock v (on_contract w f s) = (if v = w then map_option f (lock w s) else lock v s)"
  by (auto simp: on_contract_def split: option.splits)

lemma lock_updates [simp]:
  "lock v (s\<lparr>g_oAslMsgListTx := a\<rparr>) = lock v s" "lock v (s\<lparr>g_oAslMsgListRx := b\<rparr>) = lock v s"
  "lock v (s\<lparr>g_nAslMsgListRxCount := n\<rparr>) = lock v s" "lock v (s\<lparr>g_astAPDUConf := k\<rparr>) = lock v s"
  "lock v (s\<lparr>g_ucHandle := h\<rparr>) = lock v s" "lock v (s\<lparr>g_bNativePublish := h\<rparr>) = lock v s"
  "lock v (s\<lparr>g_ucSMLinkTimeout := h\<rparr>) = lock v s" "lock v (s\<lparr>g_ucLinkProbed := h\<rparr>) = lock v s"
  "lock v (s\<lparr>tl_requests := q\<rparr>) = lock v s" "lock v (s\<lparr>data_timeouts := d\<rparr>) = lock v s"
  "lock v (UAP_DataTimeout x1 x2 x3 x4 s) = lock v s"
  by (simp_all add: lock_def UAP_DataTimeout_def)

abbreviation refs_used :: "asl_state \<Rightarrow> nat" where
  "refs_used s \<equiv> next_ref (g_stNlme s)"

lemma refs_used_updates [simp]:
  "refs_used (store_contract w c s) = refs_used s" "refs_used (on_contract w f s) = refs_used s"
  "refs_used (UAP_DataTimeout x1 x2 x3 x4 s) = refs_used s"
  by (simp_all add: store_contract_def on_contract_def UAP_DataTimeout_def split: option.split)

text \<open>
  A message whose weak pointer has the identifier in its header and a reference below \<open>n\<close>, and whose length
  field is the length of its data.
\<close>

definition msg_ok :: "nat \<Rightarrow> CAslTxMsg \<Rightarrow> bool" where
  "msg_ok n msg \<longleftrightarrow> fst (m_pWeakContract msg) = m_nContractId (m_stQueueHdr msg) \<and> snd (m_pWeakContract msg) < n
     \<and> unat (m_unAPDULen (m_stQueueHdr msg)) = length (m_oTxApduData msg) \<and> m_oTxApduData msg \<noteq> []"

definition occupies :: "contract_ref \<Rightarrow> CAslTxMsg \<Rightarrow> bool" where
  "occupies w msg \<longleftrightarrow> m_pWeakContract msg = w \<and> m_bInSlidingWindow (m_stQueueHdr msg)
     \<and> status_of msg \<noteq> APDU_READY_TO_CLEAR"

definition occupancy :: "contract_ref \<Rightarrow> CAslTxMsg list \<Rightarrow> nat" where
  "occupancy w msgs = length (filter (occupies w) msgs)"

lemma occupancy_simps [simp]:
  "occupancy w [] = 0" "occupancy w (msg # msgs) = (if occupies w msg then 1 else 0) + occupancy w msgs"
  "occupancy w (xs @ ys) = occupancy w xs + occupancy w ys"
  by (simp_all add: occupancy_def)

section \<open>The balance of a step\<close>

text \<open>
  \<open>balanced xs s ys t\<close>: going from messages \<open>xs\<close> in state \<open>s\<close> to messages \<open>ys\<close> in state \<open>t\<close>, the contracts
  that are left are contracts of before with their identifier and window, and the in-use counter of each
  covers the change of its occupancy.
\<close>

definition same_terms :: "NLME_CONTRACT_ATTRIBUTES \<Rightarrow> NLME_CONTRACT_ATTRIBUTES \<Rightarrow> bool" where
  "same_terms c d \<longleftrightarrow> NLME_CONTRACT_ATTRIBUTES.m_unContractID d = NLME_CONTRACT_ATTRIBUTES.m_unContractID c
     \<and> NLME_CONTRACT_ATTRIBUTES.m_ucMaxSendWindow d = NLME_CONTRACT_ATTRIBUTES.m_ucMaxSendWindow c
     \<and> NLME_CONTRACT_ATTRIBUTES.m_aDestAddress d = NLME_CONTRACT_ATTRIBUTES.m_aDestAddress c
     \<and> NLME_CONTRACT_ATTRIBUTES.m_unAssignedMaxNSDUSize d = NLME_CONTRACT_ATTRIBUTES.m_unAssignedMaxNSDUSize c
     \<and> (window_ok c \<longrightarrow> window_ok d)"

abbreviation windowed :: "NLME_CONTRACT_ATTRIBUTES \<Rightarrow> bool" where
  "windowed c \<equiv> NLME_CONTRACT_ATTRIBUTES.m_ucMaxSendWindow c \<noteq> 0"

definition balanced :: "CAslTxMsg list \<Rightarrow> asl_state \<Rightarrow> CAslTxMsg list \<Rightarrow> asl_state \<Rightarrow> bool" where
  "balanced xs s ys t \<longleftrightarrow> refs_used t = refs_used s \<and> (\<forall>w d. lock w t = Some d \<longrightarrow>
     (\<exists>c. lock w s = Some c \<and> same_terms c d \<and>
          (windowed c \<longrightarrow> unat (m_nInUseWndSize c) + occupancy w ys \<le> unat (m_nInUseWndSize d) + occupancy w xs)))"

lemma same_terms_refl [simp]: "same_terms c c"
  by (simp add: same_terms_def)

lemma same_terms_trans: "same_terms c d \<Longrightarrow> same_terms d e \<Longrightarrow> same_terms c e"
  by (simp add: same_terms_def)

lemma balancedI:
  assumes "refs_used t = refs_used s"
    and "\<And>w d. lock w t = Some d \<Longrightarrow> \<exists>c. lock w s = Some c \<and> same_terms c d \<and>
    (windowed c \<longrightarrow> unat (m_nInUseWndSize c) + occupancy w ys \<le> unat (m_nInUseWndSize d) + occupancy w xs)"
  shows "balanced xs s ys t"
  using assms unfolding balanced_def by blast

lemma balanced_locks:
  assumes "refs_used t = refs_used s" and "\<And>w. lock w t = lock w s" and "\<And>w. occupancy w ys \<le> occupancy w xs"
  shows "balanced xs s ys t"
  using assms by (simp add: balanced_def)

lemma balanced_refl: "balanced xs s xs s"
  by (rule balanced_locks) simp_all

lemma balanced_seq:
  assumes "balanced xs s xs' t" and "balanced ys t ys' u"
  shows "balanced (xs @ ys) s (xs' @ ys') u"
proof (rule balancedI)
  show "refs_used u = refs_used s" using assms by (simp add: balanced_def)
next
  fix w e
  assume "lock w u = Some e"
  with assms(2) obtain d where d: "lock w t = Some d" "same_terms d e"
    "windowed d \<longrightarrow> unat (m_nInUseWndSize d) + occupancy w ys' \<le> unat (m_nInUseWndSize e) + occupancy w ys"
    unfolding balanced_def by blast
  with assms(1) obtain c where c: "lock w s = Some c" "same_terms c d"
    "windowed c \<longrightarrow> unat (m_nInUseWndSize c) + occupancy w xs' \<le> unat (m_nInUseWndSize d) + occupancy w xs"
    unfolding balanced_def by blast
  have "windowed c \<longrightarrow> windowed d" using c(2) by (simp add: same_terms_def)
  then show "\<exists>c. lock w s = Some c \<and> same_terms c e \<and> (windowed c \<longrightarrow>
      unat (m_nInUseWndSize c) + occupancy w (xs' @ ys') \<le> unat (m_nInUseWndSize e) + occupancy w (xs @ ys))"
    using c d same_terms_trans [OF c(2) d(2)] by (intro exI [of _ c]) auto
qed

lemma balanced_trans:
  assumes "balanced xs s ys t" and "balanced ys t zs u"
  shows "balanced xs s zs u"
proof (rule balancedI)
  show "refs_used u = refs_used s" using assms by (simp add: balanced_def)
next
  fix w e
  assume "lock w u = Some e"
  with assms(2) obtain d where d: "lock w t = Some d" "same_terms d e"
    "windowed d \<longrightarrow> unat (m_nInUseWndSize d) + occupancy w zs \<le> unat (m_nInUseWndSize e) + occupancy w ys"
    unfolding balanced_def by blast
  with assms(1) obtain c where c: "lock w s = Some c" "same_terms c d"
    "windowed c \<longrightarrow> unat (m_nInUseWndSize c) + occupancy w ys \<le> unat (m_nInUseWndSize d) + occupancy w xs"
    unfolding balanced_def by blast
  have "windowed c \<longrightarrow> windowed d" using c(2) by (simp add: same_terms_def)
  then show "\<exists>c. lock w s = Some c \<and> same_terms c e \<and> (windowed c \<longrightarrow>
      unat (m_nInUseWndSize c) + occupancy w zs \<le> unat (m_nInUseWndSize e) + occupancy w xs)"
    using c d same_terms_trans [OF c(2) d(2)] by (intro exI [of _ c]) auto
qed

text \<open>An update of one contract that keeps its terms and takes at most what the messages gave back.\<close>

lemma balanced_on_contract:
  assumes "\<And>c. lock w s = Some c \<Longrightarrow> same_terms c (f c) \<and> (windowed c \<longrightarrow>
       unat (m_nInUseWndSize c) + occupancy w ys \<le> unat (m_nInUseWndSize (f c)) + occupancy w xs)"
    and "\<And>v. v \<noteq> w \<Longrightarrow> occupancy v ys \<le> occupancy v xs"
  shows "balanced xs s ys (on_contract w f s)"
  using assms by (intro balancedI) (auto simp: lock_on_contract split: if_splits)

section \<open>Loops over the queue\<close>

locale message_loop =
  fixes f :: "CAslTxMsg \<Rightarrow> 's \<Rightarrow> CAslTxMsg \<times> 's" and st :: "'s \<Rightarrow> asl_state" and Inv :: "'s \<Rightarrow> bool" and n :: nat
  assumes message_balanced: "msg_ok n x \<Longrightarrow> Inv s \<Longrightarrow> f x s = (y, t) \<Longrightarrow> balanced [x] (st s) [y] (st t)"
    and message_inv: "msg_ok n x \<Longrightarrow> Inv s \<Longrightarrow> f x s = (y, t) \<Longrightarrow> msg_ok n y \<and> Inv t"
begin

lemma loop_balanced:
  assumes "list_all (msg_ok n) xs" and "Inv s" and "map_state f xs s = (ys, t)"
  shows "balanced xs (st s) ys (st t)"
  using assms
proof (induction xs arbitrary: s ys t)
  case Nil
  then show ?case by (simp add: balanced_locks)
next
  case (Cons x xs)
  obtain y u where f: "f x s = (y, u)" by fastforce
  obtain zs v where m: "map_state f xs u = (zs, v)" by fastforce
  have yt: "ys = y # zs" "t = v" using Cons.prems(3) f m by simp_all
  have x: "msg_ok n x" using Cons.prems(1) by simp
  have "balanced xs (st u) zs (st v)"
    using Cons.IH [OF _ _ m] Cons.prems message_inv [OF x Cons.prems(2) f] by simp
  from balanced_seq [OF message_balanced [OF x Cons.prems(2) f] this] show ?case by (simp add: yt)
qed

lemma loop_ok:
  assumes "list_all (msg_ok n) xs" and "Inv s" and "map_state f xs s = (ys, t)"
  shows "list_all (msg_ok n) ys \<and> Inv t"
  using assms
proof (induction xs arbitrary: s ys t)
  case (Cons x xs)
  obtain y u where f: "f x s = (y, u)" by fastforce
  obtain zs v where m: "map_state f xs u = (zs, v)" by fastforce
  have "ys = y # zs" "t = v" using Cons.prems(3) f m by simp_all
  then show ?case using Cons.IH [OF _ _ m] Cons.prems(1,2) message_inv [OF _ Cons.prems(2) f] by simp
qed simp

end

section \<open>Contract updates\<close>

lemma same_terms_updates:
  "same_terms c (ASLDE_ReceiveResponseForSlidingWindow c)"
  "same_terms c (ASLDE_ReceiveTimeoutForSlidingWindow c)"
  "same_terms c (ASLDE_computeTXtimeout rtt c)"
  "same_terms c ((ASLDE_RecordPacketNextTXTime tv c)\<lparr>m_unPktCount := k\<rparr>)"
  "same_terms c (c\<lparr>NLME_CONTRACT_ATTRIBUTES.m_ucReqID := r\<rparr>)"
  "same_terms c (fst (ASLDE_SlidingWindowAllowsTX c))"
  using ReceiveResponse_window_ok ReceiveTimeout_window_ok
  by (simp_all add: same_terms_def window_ok_def ReceiveResponse_fields ReceiveTimeout_fields
      ASLDE_ReceiveResponseForSlidingWindow_def ASLDE_ReceiveTimeoutForSlidingWindow_def
      ASLDE_computeTXtimeout_def rtt_estimate_def ASLDE_RecordPacketNextTXTime_def
      ASLDE_SlidingWindowAllowsTX_def Let_def)

lemma same_terms_increase: "same_terms c (fst (ASLDE_SlidingWindowIncreaseUsage c))"
  using same_terms_updates(6) [of c] IncreaseUsage_window_ok [of c]
  by (auto simp: same_terms_def ASLDE_SlidingWindowIncreaseUsage_def split_def Let_def)

lemma in_use_updates:
  "m_nInUseWndSize (ASLDE_computeTXtimeout rtt c) = m_nInUseWndSize c"
  "m_nInUseWndSize ((ASLDE_RecordPacketNextTXTime tv c)\<lparr>m_unPktCount := k\<rparr>) = m_nInUseWndSize c"
  "unat (m_nInUseWndSize c) \<le> unat (m_nInUseWndSize (ASLDE_ReceiveResponseForSlidingWindow c)) + 1"
  using ReceiveResponse_fields(2) [of c]
  by (cases "windowed c"; simp add: ASLDE_computeTXtimeout_def rtt_estimate_def ASLDE_RecordPacketNextTXTime_def
      ASLDE_ReceiveResponseForSlidingWindow_def Let_def)+

section \<open>Timers\<close>

lemma balanced_release:
  assumes "occupies w x" and "m_pWeakContract y = w" and "\<not> occupies w y"
  shows "balanced [x] s [y] (on_contract w ASLDE_ReceiveResponseForSlidingWindow s)"
  using assms same_terms_updates(1) in_use_updates(3)
  by (intro balanced_on_contract) (auto simp: occupies_def)

lemma balanced_timeout: "balanced [x] s [x] (on_contract w ASLDE_ReceiveTimeoutForSlidingWindow s)"
  using same_terms_updates(2) by (intro balanced_on_contract) (auto simp: ReceiveTimeout_fields)

lemma balanced_clear:
  assumes "status_of x \<noteq> APDU_READY_TO_CLEAR" and "w = m_pWeakContract x"
  shows "balanced [x] s [set_status APDU_READY_TO_CLEAR x]
    (UAP_DataTimeout a b c d (if m_bInSlidingWindow (m_stQueueHdr x)
       then on_contract w ASLDE_ReceiveResponseForSlidingWindow s else s))"
proof -
  let ?t = "if m_bInSlidingWindow (m_stQueueHdr x) then on_contract w ASLDE_ReceiveResponseForSlidingWindow s else s"
  have "balanced [x] s [set_status APDU_READY_TO_CLEAR x] ?t"
    using balanced_release [of w x "set_status APDU_READY_TO_CLEAR x" s] assms
    by (auto simp: occupies_def intro!: balanced_locks)
  moreover have "balanced ys ?t ys (UAP_DataTimeout a b c d ?t)" for ys by (rule balanced_locks) simp_all
  ultimately show ?thesis by (rule balanced_trans)
qed

lemma retry_balanced:
  assumes "status_of x \<noteq> APDU_READY_TO_CLEAR" and "ASLDE_retryMessage x s = (y, t)"
  shows "balanced [x] s [y] t"
proof (cases "m_ucRetryNo (m_stQueueHdr x) = 0")
  case True
  have eq: "y = set_status APDU_READY_TO_CLEAR x"
    "t = UAP_DataTimeout (m_unAppHandle (m_stQueueHdr x)) (m_ucSrcSAP (m_stQueueHdr x)) (m_ucDstSAP (m_stQueueHdr x)) SFC_TIMEOUT
       (if m_bInSlidingWindow (m_stQueueHdr x)
        then on_contract (m_pWeakContract x) ASLDE_ReceiveResponseForSlidingWindow
               (on_contract (m_pWeakContract x) ASLDE_ReceiveTimeoutForSlidingWindow s)
        else on_contract (m_pWeakContract x) ASLDE_ReceiveTimeoutForSlidingWindow s)"
    using assms(2) True by (simp_all add: ASLDE_retryMessage_def Let_def)
  show ?thesis unfolding eq by (rule balanced_trans [OF balanced_timeout balanced_clear [OF assms(1) refl]])
next
  case False
  have "balanced [x] s [y] (on_contract (m_pWeakContract x) ASLDE_ReceiveTimeoutForSlidingWindow s)"
    using False assms same_terms_updates(2)
    by (intro balanced_on_contract) (auto simp: ASLDE_retryMessage_def Let_def ReceiveTimeout_fields occupies_def)
  then show ?thesis using False assms by (simp add: ASLDE_retryMessage_def Let_def)
qed

lemma expire_balanced: "expire_lifetime x s = (y, t) \<Longrightarrow> balanced [x] s [y] t"
proof -
  assume e: "expire_lifetime x s = (y, t)"
  define x' where "x' = in_hdr (\<lambda>h. h\<lparr>m_unLifetime := m_unLifetime h - 1\<rparr>) x"
  have b: "balanced [x] s [x'] s" by (rule balanced_locks) (auto simp: occupies_def x'_def)
  consider "status_of x = APDU_READY_TO_CLEAR" | "status_of x \<noteq> APDU_READY_TO_CLEAR" "m_unLifetime (m_stQueueHdr x') \<noteq> 0"
    | "status_of x \<noteq> APDU_READY_TO_CLEAR" "m_unLifetime (m_stQueueHdr x') = 0" by blast
  then show ?thesis
  proof cases
    case 1
    then show ?thesis using e by (auto simp: expire_lifetime_def intro: balanced_locks)
  next
    case 2
    then show ?thesis using e b by (simp add: expire_lifetime_def x'_def [symmetric] Let_def)
  next
    case 3
    then have x': "status_of x' \<noteq> APDU_READY_TO_CLEAR" by (simp add: x'_def)
    have eq: "y = set_status APDU_READY_TO_CLEAR x'"
      "t = UAP_DataTimeout (m_unAppHandle (m_stQueueHdr x')) (m_ucSrcSAP (m_stQueueHdr x')) (m_ucDstSAP (m_stQueueHdr x'))
         SFC_TIMEOUT (if m_bInSlidingWindow (m_stQueueHdr x')
          then on_contract (m_pWeakContract x') ASLDE_ReceiveResponseForSlidingWindow s else s)"
      using e 3 by (simp_all add: expire_lifetime_def x'_def [symmetric] Let_def)
    show ?thesis unfolding eq by (rule balanced_trans [OF b balanced_clear [OF x' refl]])
  qed
qed

lemma tx_second_balanced:
  assumes "tx_second x s = (y, t)"
  shows "balanced [x] s [y] t"
proof -
  obtain x' s' where e: "expire_lifetime x s = (x', s')" by fastforce
  note b = expire_balanced [OF e]
  show ?thesis
  proof (cases "status_of x' = APDU_READY_TO_CLEAR \<or> ready x'")
    case True
    then have "y = x' \<and> t = s'" using assms e by (auto simp: tx_second_def)
    then show ?thesis using b by simp
  next
    case False
    show ?thesis
    proof (cases "m_unTimeout (m_stQueueHdr x') = 0")
      case True
      then have "ASLDE_retryMessage x' s' = (y, t)" using assms e False by (simp add: tx_second_def)
      then show ?thesis using balanced_trans [OF b retry_balanced] False by simp
    next
      case nz: False
      then have eq: "y = in_hdr (\<lambda>h. h\<lparr>m_unTimeout := m_unTimeout h - 1\<rparr>) x'" "t = s'"
        using assms e False by (simp_all add: tx_second_def)
      have "balanced [x'] s' [y] s'" by (rule balanced_locks) (simp_all add: occupies_def eq(1))
      then show ?thesis using balanced_trans [OF b] eq by simp
    qed
  qed
qed

lemma msg_ok_in_hdr:
  "msg_ok n x \<Longrightarrow> m_nContractId (f (m_stQueueHdr x)) = m_nContractId (m_stQueueHdr x) \<Longrightarrow>
   m_unAPDULen (f (m_stQueueHdr x)) = m_unAPDULen (m_stQueueHdr x) \<Longrightarrow> msg_ok n (in_hdr f x)"
  by (simp add: msg_ok_def)

lemma msg_ok_set_status: "msg_ok n x \<Longrightarrow> msg_ok n (set_status st x)"
  by (simp add: msg_ok_def)

lemma tx_second_ok:
  assumes "msg_ok n x" and "tx_second x s = (y, t)"
  shows "msg_ok n y"
proof -
  obtain x' s' where e: "expire_lifetime x s = (x', s')" by fastforce
  have "msg_ok n x'" using e assms(1)
    by (auto simp: expire_lifetime_def Let_def split: if_splits intro!: msg_ok_set_status msg_ok_in_hdr)
  then show ?thesis using assms(2) e
    by (auto simp: tx_second_def ASLDE_retryMessage_def Let_def split: if_splits intro!: msg_ok_set_status msg_ok_in_hdr)
qed

interpretation timers: message_loop tx_second "\<lambda>s. s" "\<lambda>s. True" n for n
  by unfold_locales (auto intro: tx_second_balanced tx_second_ok)

section \<open>Concatenation\<close>

lemma occupies_mark_sent:
  "ready x \<Longrightarrow> occupies v (mark_sent h now x) \<longleftrightarrow>
     m_pWeakContract x = v \<and> (m_bInSlidingWindow (m_stQueueHdr x) \<or> status_of x = APDU_READY_TO_SEND)"
  by (auto simp: occupies_def mark_sent_def sent_state_def Let_def)

lemma balanced_put:
  assumes l: "lock w s = Some c" and t: "same_terms c d"
    and u: "windowed c \<longrightarrow> unat (m_nInUseWndSize c) + occupancy w ys \<le> unat (m_nInUseWndSize d) + occupancy w xs"
    and o: "\<And>v. v \<noteq> w \<Longrightarrow> lock v s \<noteq> None \<Longrightarrow> occupancy v ys \<le> occupancy v xs"
  shows "balanced xs s ys (store_contract w d s)"
proof (rule balancedI)
  show "refs_used (store_contract w d s) = refs_used s" by simp
next
  fix v e
  assume v: "lock v (store_contract w d s) = Some e"
  show "\<exists>c. lock v s = Some c \<and> same_terms c e \<and> (windowed c \<longrightarrow>
      unat (m_nInUseWndSize c) + occupancy v ys \<le> unat (m_nInUseWndSize e) + occupancy v xs)"
  proof (cases "v = w")
    case True
    then show ?thesis using v l t u by simp
  next
    case False
    then have "lock v s = Some e" using v l by simp
    then show ?thesis using o [OF False] by auto
  qed
qed

lemma increase_balanced:
  assumes x: "msg_ok n x" "status_of x = APDU_READY_TO_SEND" "m_nContractId (m_stQueueHdr x) = fst w"
    and l: "lock w s = Some c" and i: "ASLDE_SlidingWindowIncreaseUsage c = (d, True)"
  shows "balanced [x] s [mark_sent h now x] (store_contract w d s)"
proof (rule balanced_put [OF l])
  show "same_terms c d" using same_terms_increase [of c] i by simp
  show "windowed c \<longrightarrow> unat (m_nInUseWndSize c) + occupancy w [mark_sent h now x]
      \<le> unat (m_nInUseWndSize d) + occupancy w [x]"
    using IncreaseUsage_in_use [of c] i by simp
  show "occupancy v [mark_sent h now x] \<le> occupancy v [x]" if "v \<noteq> w" "lock v s \<noteq> None" for v
  proof -
    have "m_pWeakContract x \<noteq> v"
    proof
      assume "m_pWeakContract x = v"
      then have "fst v = fst w" using x by (simp add: msg_ok_def)
      then show False using that l lock_unique [of v s _ w c] by blast
    qed
    then show ?thesis using x(2) by (simp add: occupies_mark_sent)
  qed
qed

lemma concat_message_balanced:
  assumes x: "msg_ok n x" and w: "fst w = cid"
    and f: "concat_message cid room h now w x (out, s) = (y, out', t)"
  shows "balanced [x] s [y] t"
proof (cases "ready x \<and> cid = m_nContractId (m_stQueueHdr x)
    \<and> int (unat (m_unAPDULen (m_stQueueHdr x))) \<le> room - int (length out)")
  case False
  have "balanced [x] s [y] s" using False f
    by (intro balanced_locks) (auto simp: concat_message_def Let_def occupies_def split: if_splits)
  then show ?thesis using False f by (simp add: concat_message_def Let_def split: if_splits)
next
  case fits: True
  show ?thesis
  proof (cases "status_of x = APDU_READY_TO_SEND")
    case True
    show ?thesis
    proof (cases "lock w s")
      case None
      then show ?thesis using f fits True by (auto simp: concat_message_def Let_def intro: balanced_locks)
    next
      case l: (Some c)
      obtain d ok where i: "ASLDE_SlidingWindowIncreaseUsage c = (d, ok)" by fastforce
      have eq: "y = (if ok then mark_sent h now x else x)" "t = store_contract w d s"
        using f fits True l i by (cases ok; simp add: concat_message_def Let_def)+
      show ?thesis
      proof (cases ok)
        case True
        then show ?thesis using increase_balanced [OF x \<open>status_of x = _\<close> _ l] i fits w eq by simp
      next
        case False
        have "balanced [x] s [x] (store_contract w d s)"
          using same_terms_increase [of c] IncreaseUsage_in_use [of c] i False by (intro balanced_put [OF l]) simp_all
        then show ?thesis using False eq by simp
      qed
    qed
  next
    case False
    have "balanced [x] s [mark_sent h now x] s"
      using fits False by (intro balanced_locks) (auto simp: occupies_mark_sent, simp add: occupies_def)
    then show ?thesis using f fits False by (simp add: concat_message_def Let_def)
  qed
qed

lemma concat_message_ok:
  assumes "msg_ok n x" and "concat_message cid room h now w x (out, s) = (y, out', t)"
  shows "msg_ok n y"
proof -
  have "y = x \<or> y = mark_sent h now x \<or> y = set_status APDU_READY_TO_CLEAR x"
    using assms(2) by (auto simp: concat_message_def Let_def split: if_splits prod.splits)
  then show ?thesis using assms(1) by (auto simp: msg_ok_set_status mark_sent_def intro: msg_ok_in_hdr)
qed

interpretation concatenation: message_loop "concat_message cid room h now w" snd "\<lambda>_. fst w = cid" n for cid room h now w n
  by unfold_locales (auto intro: concat_message_balanced concat_message_ok)

section \<open>Search, confirmations, responses\<close>

abbreviation opt_list :: "'a option \<Rightarrow> 'a list" where
  "opt_list z \<equiv> (case z of None \<Rightarrow> [] | Some y \<Rightarrow> [y])"

lemma consider_balanced:
  assumes "consider_message tv x best s = (kept, best', t)"
  shows "balanced [x] s (opt_list kept) t"
proof (cases "ready x \<and> beats x best")
  case False
  then have "kept = Some x" "t = s" using assms by (auto simp: consider_message_def Let_def)
  then show ?thesis by (simp add: balanced_refl)
next
  case r: True
  show ?thesis
  proof (cases "lock (m_pWeakContract x) s")
    case None
    then show ?thesis using assms r by (auto simp: consider_message_def Let_def intro: balanced_locks)
  next
    case (Some c)
    define d where "d = (if status_of x = APDU_READY_TO_SEND then fst (ASLDE_SlidingWindowAllowsTX c) else c)"
    have "t = store_contract (m_pWeakContract x) d s"
      using assms r Some by (auto simp: consider_message_def Let_def d_def split_def split: if_splits)
    moreover obtain y where "kept = Some y" "\<And>v. occupies v y = occupies v x"
      using assms r Some that
      by (auto simp: consider_message_def Let_def split_def occupies_def split: if_splits)
    moreover have "same_terms c d" "m_nInUseWndSize d = m_nInUseWndSize c"
      by (simp_all add: d_def same_terms_updates AllowsTX_fields)
    ultimately show ?thesis using balanced_put [OF Some, of d "[y]" "[x]"] by simp
  qed
qed

lemma consider_ok:
  assumes "msg_ok n x" and "consider_message tv x best s = (kept, best', t)"
  shows "list_all (msg_ok n) (opt_list kept)"
  using assms
  by (auto simp: consider_message_def Let_def split: if_splits option.splits prod.splits intro!: msg_ok_in_hdr)

lemma search_balanced:
  "search_loop tv xs best s = (ys, best', t) \<Longrightarrow> balanced xs s ys t"
proof (induction xs arbitrary: best s ys best' t)
  case Nil
  then show ?case by (simp add: balanced_refl)
next
  case (Cons x xs)
  obtain kept b u where c: "consider_message tv x best s = (kept, b, u)" by (metis surj_pair)
  obtain zs b' v where l: "search_loop tv xs b u = (zs, b', v)" by (metis surj_pair)
  have "ys = opt_list kept @ zs" "t = v" using Cons.prems by (auto simp: c l split: option.splits)
  then show ?case using balanced_seq [OF consider_balanced [OF c] Cons.IH [OF l]] by simp
qed

lemma search_ok:
  "search_loop tv xs best s = (ys, best', t) \<Longrightarrow> list_all (msg_ok n) xs \<Longrightarrow> list_all (msg_ok n) ys"
proof (induction xs arbitrary: best s ys best' t)
  case (Cons x xs)
  obtain kept b u where c: "consider_message tv x best s = (kept, b, u)" by (metis surj_pair)
  obtain zs b' v where l: "search_loop tv xs b u = (zs, b', v)" by (metis surj_pair)
  have "ys = opt_list kept @ zs" using Cons.prems by (auto simp: c l split: option.splits)
  then show ?case using consider_ok [OF _ c] Cons.IH [OF l] Cons.prems(2) by simp
qed simp

lemma confirm_message_facts:
  "(if occupies w x then 1 else 0) \<ge> occupancy w (opt_list (confirm_message k x))"
  "msg_ok n x \<Longrightarrow> list_all (msg_ok n) (opt_list (confirm_message k x))"
  by (auto simp: confirm_message_def occupies_def msg_ok_set_status intro: msg_ok_in_hdr)

lemma map_filter_opt: "List.map_filter f (x # xs) = opt_list (f x) @ List.map_filter f xs"
  by (simp add: map_filter_simps split: option.split)

lemma confirms_facts:
  "occupancy w (List.map_filter (confirm_message k) xs) \<le> occupancy w xs"
  "list_all (msg_ok n) xs \<Longrightarrow> list_all (msg_ok n) (List.map_filter (confirm_message k) xs)"
proof (induction xs)
  case (Cons x xs)
  { case 1 show ?case using Cons.IH(1) confirm_message_facts(1) [where w = w and x = x and k = k]
      unfolding map_filter_opt occupancy_simps by linarith }
  { case 2 then show ?case using Cons.IH(2) confirm_message_facts(2) [where n = n and x = x and k = k]
      unfolding map_filter_opt list_all_append by simp }
qed (simp_all add: map_filter_simps)

lemma all_confirms_facts:
  "occupancy w (fold (\<lambda>k. List.map_filter (confirm_message k)) ks xs) \<le> occupancy w xs"
  "list_all (msg_ok n) xs \<Longrightarrow> list_all (msg_ok n) (fold (\<lambda>k. List.map_filter (confirm_message k)) ks xs)"
  by (induction ks arbitrary: xs) (auto intro: order_trans [OF _ confirms_facts(1)] confirms_facts(2))

section \<open>Reachable states\<close>

definition asl_inv :: "asl_state \<Rightarrow> bool" where
  "asl_inv s \<longleftrightarrow> list_all (msg_ok (refs_used s)) (g_oAslMsgListTx s)
     \<and> (\<forall>w c. lock w s = Some c \<longrightarrow> NLME_CONTRACT_ATTRIBUTES.m_unContractID c = fst w \<and> snd w < refs_used s
          \<and> window_ok c \<and> (windowed c \<longrightarrow> occupancy w (g_oAslMsgListTx s) \<le> unat (m_nInUseWndSize c)))
     \<and> g_nAslMsgListRxCount s = word_of_nat (length (g_oAslMsgListRx s))
     \<and> length (g_astAPDUConf s) \<le> 5"

text \<open>What a step keeps of everything but the transmit queue.\<close>

definition same_receive :: "asl_state \<Rightarrow> asl_state \<Rightarrow> bool" where
  "same_receive s t \<longleftrightarrow> g_oAslMsgListRx t = g_oAslMsgListRx s \<and> g_nAslMsgListRxCount t = g_nAslMsgListRxCount s
     \<and> g_astAPDUConf t = g_astAPDUConf s"

lemma asl_inv_balanced:
  assumes "asl_inv s" and b: "balanced (g_oAslMsgListTx s) s (g_oAslMsgListTx t) t"
    and "list_all (msg_ok (refs_used s)) (g_oAslMsgListTx s) \<Longrightarrow> list_all (msg_ok (refs_used s)) (g_oAslMsgListTx t)"
    and "same_receive s t"
  shows "asl_inv t"
proof -
  have "NLME_CONTRACT_ATTRIBUTES.m_unContractID d = fst w \<and> snd w < refs_used t \<and> window_ok d
      \<and> (windowed d \<longrightarrow> occupancy w (g_oAslMsgListTx t) \<le> unat (m_nInUseWndSize d))"
    if l: "lock w t = Some d" for w d
  proof -
    obtain c where c: "lock w s = Some c" "same_terms c d"
      "windowed c \<longrightarrow> unat (m_nInUseWndSize c) + occupancy w (g_oAslMsgListTx t)
         \<le> unat (m_nInUseWndSize d) + occupancy w (g_oAslMsgListTx s)"
      using b l unfolding balanced_def by blast
    moreover have "snd w < refs_used s" "window_ok c" "NLME_CONTRACT_ATTRIBUTES.m_unContractID c = fst w"
      "windowed c \<longrightarrow> occupancy w (g_oAslMsgListTx s) \<le> unat (m_nInUseWndSize c)"
      using assms(1) c(1) unfolding asl_inv_def by blast+
    ultimately show ?thesis using b by (auto simp: same_terms_def balanced_def)
  qed
  then show ?thesis using assms by (simp add: asl_inv_def same_receive_def balanced_def)
qed

end
