(* ===== verification/Row_Table.thy ===== *)
theory Row_Table
  imports Isa_Prelude
begin

text \<open>
  The contract of a management table with a fixed number of rows: a row that is set is what a lookup
  finds, a new row is refused with \<^verbatim>\<open>SFC_INSUFFICIENT_DEVICE_RESOURCES\<close> exactly when the table is
  full, and a deleted row is gone. The specification is a partial map with a capacity; the client lemmas
  carry the contract from single operations to arbitrary sequences of them.
\<close>

section \<open>The specification\<close>

datatype ('k, 'v) row_op = SetRow 'k 'v | DelRow 'k

definition spec_set :: "nat \<Rightarrow> 'k \<Rightarrow> 'v \<Rightarrow> ('k \<rightharpoonup> 'v) \<Rightarrow> ('k \<rightharpoonup> 'v)" where
  "spec_set cap k v m = (if m k = None \<and> cap \<le> card (dom m) then m else m(k \<mapsto> v))"

fun spec_run :: "nat \<Rightarrow> ('k, 'v) row_op list \<Rightarrow> ('k \<rightharpoonup> 'v) \<Rightarrow> ('k \<rightharpoonup> 'v)" where
  "spec_run cap [] m = m"
| "spec_run cap (SetRow k v # ops) m = spec_run cap ops (spec_set cap k v m)"
| "spec_run cap (DelRow k # ops) m = spec_run cap ops (m(k := None))"

fun run_rows :: "('k \<Rightarrow> 'v \<Rightarrow> 's \<Rightarrow> 's \<times> u8) \<Rightarrow> ('k \<Rightarrow> 's \<Rightarrow> 's \<times> u8) \<Rightarrow> ('k, 'v) row_op list \<Rightarrow> 's \<Rightarrow> 's" where
  "run_rows put del [] s = s"
| "run_rows put del (SetRow k v # ops) s = run_rows put del ops (fst (put k v s))"
| "run_rows put del (DelRow k # ops) s = run_rows put del ops (fst (del k s))"

fun op_ok :: "('k \<Rightarrow> 'v \<Rightarrow> bool) \<Rightarrow> ('k \<Rightarrow> bool) \<Rightarrow> ('k, 'v) row_op \<Rightarrow> bool" where
  "op_ok ok key (SetRow k v) = ok k v"
| "op_ok ok key (DelRow k) = key k"

section \<open>The interface\<close>

locale row_table =
  fixes look :: "'s \<Rightarrow> 'k \<Rightarrow> 'v option"
    and count :: "'s \<Rightarrow> nat"
    and put :: "'k \<Rightarrow> 'v \<Rightarrow> 's \<Rightarrow> 's \<times> u8"
    and del :: "'k \<Rightarrow> 's \<Rightarrow> 's \<times> u8"
    and cap :: nat
    and inv :: "'s \<Rightarrow> bool"
    and ok :: "'k \<Rightarrow> 'v \<Rightarrow> bool"
    and key :: "'k \<Rightarrow> bool"
  assumes count_rows: "inv s \<Longrightarrow> finite (dom (look s)) \<and> count s = card (dom (look s)) \<and> count s \<le> cap"
    and put_new: "inv s \<Longrightarrow> ok k v \<Longrightarrow> look s k \<noteq> None \<or> count s < cap \<Longrightarrow>
      look (fst (put k v s)) = (look s)(k \<mapsto> v) \<and> snd (put k v s) = SFC_SUCCESS"
    and put_full: "inv s \<Longrightarrow> ok k v \<Longrightarrow> look s k = None \<Longrightarrow> cap \<le> count s \<Longrightarrow>
      look (fst (put k v s)) = look s \<and> snd (put k v s) = SFC_INSUFFICIENT_DEVICE_RESOURCES"
    and put_inv: "inv s \<Longrightarrow> ok k v \<Longrightarrow> inv (fst (put k v s))"
    and del_row: "inv s \<Longrightarrow> key k \<Longrightarrow> look (fst (del k s)) = (look s)(k := None)"
    and del_inv: "inv s \<Longrightarrow> key k \<Longrightarrow> inv (fst (del k s))"
begin

lemma put_refines:
  assumes "inv s" and "ok k v"
  shows "look (fst (put k v s)) = spec_set cap k v (look s)"
proof (cases "look s k = None \<and> cap \<le> count s")
  case True
  then show ?thesis using put_full [OF assms] count_rows [OF assms(1)] by (simp add: spec_set_def)
next
  case False
  then have "look s k \<noteq> None \<or> count s < cap" by auto
  then show ?thesis using put_new [OF assms] count_rows [OF assms(1)] False by (auto simp: spec_set_def)
qed

lemma put_refused_iff:
  assumes "inv s" and "ok k v"
  shows "snd (put k v s) \<noteq> SFC_SUCCESS \<longleftrightarrow> look s k = None \<and> count s = cap"
  using put_new [OF assms] put_full [OF assms] count_rows [OF assms(1)] by fastforce

lemma run_refines:
  assumes "inv s" and "list_all (op_ok ok key) ops"
  shows "inv (run_rows put del ops s) \<and> look (run_rows put del ops s) = spec_run cap ops (look s)"
  using assms
proof (induction ops arbitrary: s)
  case (Cons op ops)
  show ?case
  proof (cases op)
    case (SetRow k v)
    with Cons.prems have "ok k v" "inv (fst (put k v s))" using put_inv by auto
    with Cons SetRow show ?thesis by (simp add: put_refines)
  next
    case (DelRow k)
    with Cons.prems have "inv (fst (del k s))" using del_inv by auto
    with Cons DelRow show ?thesis by (simp add: del_row)
  qed
qed simp

lemma run_bounded:
  assumes "inv s" and "list_all (op_ok ok key) ops"
  shows "count (run_rows put del ops s) \<le> cap"
  using run_refines [OF assms] count_rows by blast

end

end
