(* ===== verification/Nlme_Tables.thy ===== *)
theory Nlme_Tables
  imports Nlme Row_Table
begin

text \<open>
  Correctness of the network layer tables: the route and contract tables implement the contract
  \<open>row_table\<close>, the two indices of the address translation table stay inverse to each other, and the
  row interface neither reaches beyond its tables nor loses an entry.
\<close>

section \<open>Slices of buffers\<close>

lemma bytes_at_append_fst [simp]: "length xs = n \<Longrightarrow> bytes_at 0 n (xs @ ys) = xs"
  by (simp add: bytes_at_def)

lemma bytes_at_append_snd [simp]: "length xs \<le> off \<Longrightarrow> bytes_at off n (xs @ ys) = bytes_at (off - length xs) n ys"
  by (simp add: bytes_at_def)

lemma bytes_at_all [simp]: "length xs = n \<Longrightarrow> bytes_at 0 n xs = xs"
  by (simp add: bytes_at_def)

lemma length_bytes_at: "off + n \<le> length bs \<Longrightarrow> length (bytes_at off n bs) = n"
  by (simp add: bytes_at_def)

lemma be16_DMAP [simp]: "be16 ([ucast (drop_bit 8 v), ucast v] @ bs) = v" "be16 [ucast (drop_bit 8 v), ucast v] = v"
  by (simp_all add: be16_def join_bytes_u16)

lemma map_of_AList_update: "map_of (AList.update k v al) = (map_of al)(k \<mapsto> v)"
  by (rule update_conv')

lemma map_of_AList_delete: "map_of (AList.delete k al) = (map_of al)(k := None)"
  by (rule delete_conv')

lemma length_update_le:
  "wf_alist al \<Longrightarrow> map_of al k \<noteq> None \<or> length al < n \<Longrightarrow> length al \<le> n \<Longrightarrow> length (AList.update k v al) \<le> n"
  by (auto simp: length_alist_update)

lemma length_delete_bound [simp]: "length al \<le> n \<Longrightarrow> length (AList.delete k al) \<le> n"
  by (rule order_trans [OF length_alist_delete_le])

section \<open>Routes\<close>

definition route_inv :: "NLME_ATRIBUTES \<Rightarrow> bool" where
  "route_inv s \<longleftrightarrow> wf_alist (m_oNlmeRoutesMap s) \<and> length (m_oNlmeRoutesMap s) \<le> MAX_ROUTES_NO"

definition route_ok :: "ipv6 \<Rightarrow> NLME_ROUTE_ATTRIBUTES \<Rightarrow> bool" where
  "route_ok d r \<longleftrightarrow> length d = 16 \<and> NLME_ROUTE_ATTRIBUTES.m_aDestAddress r = d \<and> length (m_aNextHopAddress r) = 16"

definition put_route :: "ipv6 \<Rightarrow> NLME_ROUTE_ATTRIBUTES \<Rightarrow> NLME_ATRIBUTES \<Rightarrow> NLME_ATRIBUTES \<times> u8" where
  "put_route d r = NLME_AddRoute d (m_aNextHopAddress r) (m_ucNWK_HopLimit r) (m_bOutgoingInterface r)"

lemma route_of_bytes_route:
  "route_ok d r \<Longrightarrow> route_of_bytes (d @ m_aNextHopAddress r @ [m_ucNWK_HopLimit r, m_bOutgoingInterface r]) = r"
  by (cases r) (auto simp: route_ok_def route_of_bytes_def nth_append)

lemma put_route_eq:
  assumes "route_ok d r"
  shows "put_route d r s =
     (if map_of (m_oNlmeRoutesMap s) d = None \<and> MAX_ROUTES_NO \<le> length (m_oNlmeRoutesMap s)
      then (s, SFC_INSUFFICIENT_DEVICE_RESOURCES)
      else (s\<lparr>m_oNlmeRoutesMap := AList.update d r (m_oNlmeRoutesMap s)\<rparr>, SFC_SUCCESS))"
proof -
  have "length d = 16" using assms by (simp add: route_ok_def)
  then show ?thesis using route_of_bytes_route [OF assms]
    by (simp add: put_route_def NLME_AddRoute_def NLME_setRoute_def Let_def)
qed

interpretation routes: row_table
  "\<lambda>s. map_of (m_oNlmeRoutesMap s)" "\<lambda>s. length (m_oNlmeRoutesMap s)" put_route NLME_delRoute
  MAX_ROUTES_NO route_inv route_ok "\<lambda>d. length d = 16"
proof
  fix s :: NLME_ATRIBUTES and d r
  assume inv: "route_inv s"
  then show "finite (dom (map_of (m_oNlmeRoutesMap s))) \<and>
      length (m_oNlmeRoutesMap s) = card (dom (map_of (m_oNlmeRoutesMap s))) \<and>
      length (m_oNlmeRoutesMap s) \<le> MAX_ROUTES_NO"
    using wf_alist_size_card [of "m_oNlmeRoutesMap s"] by (auto simp: route_inv_def finite_dom_map_of)
  show "length d = 16 \<Longrightarrow> map_of (m_oNlmeRoutesMap (fst (NLME_delRoute d s))) = (map_of (m_oNlmeRoutesMap s))(d := None)"
    by (simp add: NLME_delRoute_def map_of_AList_delete)
  show "length d = 16 \<Longrightarrow> route_inv (fst (NLME_delRoute d s))"
    using inv length_alist_delete_le [of d "m_oNlmeRoutesMap s"]
    by (simp add: route_inv_def NLME_delRoute_def wf_alist_delete)
  assume ok: "route_ok d r"
  show "map_of (m_oNlmeRoutesMap s) d \<noteq> None \<or> length (m_oNlmeRoutesMap s) < MAX_ROUTES_NO \<Longrightarrow>
      map_of (m_oNlmeRoutesMap (fst (put_route d r s))) = (map_of (m_oNlmeRoutesMap s))(d \<mapsto> r) \<and>
      snd (put_route d r s) = SFC_SUCCESS"
    by (auto simp: put_route_eq [OF ok] map_of_AList_update)
  show "map_of (m_oNlmeRoutesMap s) d = None \<Longrightarrow> MAX_ROUTES_NO \<le> length (m_oNlmeRoutesMap s) \<Longrightarrow>
      map_of (m_oNlmeRoutesMap (fst (put_route d r s))) = map_of (m_oNlmeRoutesMap s) \<and>
      snd (put_route d r s) = SFC_INSUFFICIENT_DEVICE_RESOURCES"
    by (simp add: put_route_eq [OF ok])
  show "route_inv (fst (put_route d r s))"
    using inv length_update_le [of "m_oNlmeRoutesMap s" d MAX_ROUTES_NO r]
    by (auto simp: put_route_eq [OF ok] route_inv_def wf_alist_update)
qed

section \<open>Contracts\<close>

definition contract_inv :: "NLME_ATRIBUTES \<Rightarrow> bool" where
  "contract_inv s \<longleftrightarrow> wf_alist (m_oContractsMap s) \<and> length (m_oContractsMap s) \<le> MAX_CONTRACT_NO"

type_synonym contract_params = "ipv6 \<times> u16 \<times> u8 \<times> i16 \<times> i16"

definition params_of :: "NLME_CONTRACT_ATTRIBUTES ref \<Rightarrow> contract_params" where
  "params_of rc = (let c = snd rc in (NLME_CONTRACT_ATTRIBUTES.m_aDestAddress c,
     NLME_CONTRACT_ATTRIBUTES.m_unAssignedMaxNSDUSize c, NLME_CONTRACT_ATTRIBUTES.m_ucMaxSendWindow c,
     NLME_CONTRACT_ATTRIBUTES.m_nComittedBurst c, NLME_CONTRACT_ATTRIBUTES.m_nExcessBurst c))"

definition look_contract :: "NLME_ATRIBUTES \<Rightarrow> u16 \<Rightarrow> contract_params option" where
  "look_contract s k = map_option params_of (map_of (m_oContractsMap s) k)"

definition put_contract ::
    "ipv6 \<Rightarrow> u8 \<Rightarrow> u8 \<Rightarrow> bool \<Rightarrow> u16 \<Rightarrow> contract_params \<Rightarrow> NLME_ATRIBUTES \<Rightarrow> NLME_ATRIBUTES \<times> u8" where
  "put_contract own rnd prio incl k v = (case v of (dst, maxNSDU, wnd, committed, excess) \<Rightarrow>
     NLME_AddContract own rnd k own dst prio incl maxNSDU wnd committed excess)"

definition contract_ok :: "ipv6 \<Rightarrow> u16 \<Rightarrow> contract_params \<Rightarrow> bool" where
  "contract_ok own k v \<longleftrightarrow> length own = 16 \<and> length (fst v) = 16"

text \<open>The contract that \<^verbatim>\<open>NLME_setContract\<close> stores.\<close>

definition fresh_contract :: "u16 \<Rightarrow> contract_params \<Rightarrow> u8 \<Rightarrow> NLME_CONTRACT_ATTRIBUTES" where
  "fresh_contract k v reqId = (case v of (dst, maxNSDU, wnd, committed, excess) \<Rightarrow>
     \<lparr>m_unContractID = k, m_aDestAddress = dst, m_bPriority = 0, m_bIncludeContractFlag = 0, m_bUnused = 0,
      m_nRTO = initial_RTO committed, m_nSRTT = 0, m_nRTTV = 0, m_nCrtWndSize = 1, m_nInUseWndSize = 0,
      m_nSuccessTransmissions = 0, m_ucReqID = reqId, m_unAssignedMaxNSDUSize = maxNSDU,
      m_nComittedBurst = committed, m_nExcessBurst = excess, m_ucMaxSendWindow = wnd,
      m_stSendNoEarlierThan = (0, 0), m_unPktCount = 0\<rparr>)"

lemma put_contract_eq:
  assumes "contract_ok own k v"
  shows "put_contract own rnd prio incl k v s =
     (case map_of (m_oContractsMap s) k of
        None \<Rightarrow> if MAX_CONTRACT_NO \<le> length (m_oContractsMap s) then (s, SFC_INSUFFICIENT_DEVICE_RESOURCES)
          else (s\<lparr>next_ref := next_ref s + 1,
                  m_oContractsMap := AList.update k (next_ref s, fresh_contract k v rnd) (m_oContractsMap s)\<rparr>, SFC_SUCCESS)
      | Some (r, c) \<Rightarrow> (s\<lparr>m_oContractsMap := AList.update k
          (r, fresh_contract k v (NLME_CONTRACT_ATTRIBUTES.m_ucReqID c)) (m_oContractsMap s)\<rparr>, SFC_SUCCESS))"
proof -
  obtain dst maxNSDU wnd committed excess where v: "v = (dst, maxNSDU, wnd, committed, excess)" by (cases v)
  have l: "length own = 16" "length dst = 16" using assms v by (simp_all add: contract_ok_def)
  let ?f = "(prio AND 3) OR (if incl then 4 else 0)"
  let ?i = "[ucast (drop_bit 8 k), ucast k] @ own"
  let ?d = "?i @ ?i @ dst @ [?f]"
  have "bytes_at 20 16 ?d = own" "bytes_at 0 18 ?d = bytes_at 18 18 ?d" "bytes_at 36 16 ?d = dst" "be16 ?d = k"
    using l by (simp_all add: bytes_at_def be16_def join_bytes_u16)
  then show ?thesis
    by (simp add: put_contract_def NLME_AddContract_def NLME_setContract_def fresh_contract_def v Let_def
        split: option.splits prod.splits)
qed

lemma params_of_fresh: "params_of (r, fresh_contract k v q) = v"
  by (cases v) (simp add: params_of_def fresh_contract_def)

lemma look_contract_update:
  "look_contract (s\<lparr>m_oContractsMap := AList.update k rc (m_oContractsMap s)\<rparr>) = (look_contract s)(k \<mapsto> params_of rc)"
  by (rule ext) (simp add: look_contract_def map_of_AList_update)

lemma look_contract_dom: "dom (look_contract s) = dom (map_of (m_oContractsMap s))"
  by (auto simp: look_contract_def)

interpretation contracts: row_table
  look_contract "\<lambda>s. length (m_oContractsMap s)" "put_contract own rnd prio incl" NLME_DeleteContract
  MAX_CONTRACT_NO contract_inv "contract_ok own" "\<lambda>_. True" for own rnd prio incl
proof
  fix s :: NLME_ATRIBUTES and k v
  assume inv: "contract_inv s"
  then show "finite (dom (look_contract s)) \<and> length (m_oContractsMap s) = card (dom (look_contract s)) \<and>
      length (m_oContractsMap s) \<le> MAX_CONTRACT_NO"
    using wf_alist_size_card [of "m_oContractsMap s"]
    by (auto simp: contract_inv_def look_contract_dom finite_dom_map_of)
  show "look_contract (fst (NLME_DeleteContract k s)) = (look_contract s)(k := None)"
    by (rule ext) (simp add: look_contract_def NLME_DeleteContract_def NLME_delContract_def map_of_AList_delete)
  show "contract_inv (fst (NLME_DeleteContract k s))"
    using inv length_alist_delete_le [of k "m_oContractsMap s"]
    by (simp add: contract_inv_def NLME_DeleteContract_def NLME_delContract_def wf_alist_delete)
  assume ok: "contract_ok own k v"
  show "look_contract s k \<noteq> None \<or> length (m_oContractsMap s) < MAX_CONTRACT_NO \<Longrightarrow>
      look_contract (fst (put_contract own rnd prio incl k v s)) = (look_contract s)(k \<mapsto> v) \<and>
      snd (put_contract own rnd prio incl k v s) = SFC_SUCCESS"
    by (auto simp: put_contract_eq [OF ok] look_contract_update params_of_fresh split: option.splits)
      (auto simp: look_contract_def map_of_AList_update params_of_fresh fun_eq_iff)
  show "look_contract s k = None \<Longrightarrow> MAX_CONTRACT_NO \<le> length (m_oContractsMap s) \<Longrightarrow>
      look_contract (fst (put_contract own rnd prio incl k v s)) = look_contract s \<and>
      snd (put_contract own rnd prio incl k v s) = SFC_INSUFFICIENT_DEVICE_RESOURCES"
    by (simp add: put_contract_eq [OF ok] look_contract_def)
  show "contract_inv (fst (put_contract own rnd prio incl k v s))"
    using inv length_update_le [of "m_oContractsMap s" k MAX_CONTRACT_NO]
    by (auto simp: put_contract_eq [OF ok] contract_inv_def wf_alist_update split: option.splits prod.splits)
qed

section \<open>Address translation\<close>

text \<open>
  The two maps are inverse to each other: an entry is under its own long address in one and under its
  own short address in the other, as the same object, and no object is in two rows.
\<close>

abbreviation att16 :: "NLME_ATRIBUTES \<Rightarrow> ipv6 \<Rightarrow> NLME_ADDR_TRANS_ATTRIBUTES ref option" where
  "att16 s \<equiv> map_of (m_oAttMap16toEntry s)"

abbreviation att2 :: "NLME_ATRIBUTES \<Rightarrow> u8 list \<Rightarrow> NLME_ADDR_TRANS_ATTRIBUTES ref option" where
  "att2 s \<equiv> map_of (m_oAttMap2toEntry s)"

definition att_inv :: "NLME_ATRIBUTES \<Rightarrow> bool" where
  "att_inv s \<longleftrightarrow> wf_alist (m_oAttMap16toEntry s) \<and> wf_alist (m_oAttMap2toEntry s) \<and>
     length (m_oAttMap16toEntry s) \<le> MAX_ADDR_TRANSLATIONS_NO \<and>
     (\<forall>k r e. att16 s k = Some (r, e) \<longrightarrow>
        k = m_aIPV6Addr e \<and> att2 s (m_aShortAddress e) = Some (r, e) \<and> r < next_ref s) \<and>
     (\<forall>k r e. att2 s k = Some (r, e) \<longrightarrow> k = m_aShortAddress e \<and> att16 s (m_aIPV6Addr e) = Some (r, e)) \<and>
     (\<forall>k k' r e e'. att16 s k = Some (r, e) \<longrightarrow> att16 s k' = Some (r, e') \<longrightarrow> k = k')"

lemma att_inv_wf:
  assumes "att_inv s"
  shows "wf_alist (m_oAttMap16toEntry s)" and "wf_alist (m_oAttMap2toEntry s)"
    and "length (m_oAttMap16toEntry s) \<le> MAX_ADDR_TRANSLATIONS_NO"
  using assms unfolding att_inv_def by blast+

lemma att_invD:
  assumes "att_inv s"
  shows "att16 s k = Some (r, e) \<Longrightarrow> k = m_aIPV6Addr e"
    and "att16 s k = Some (r, e) \<Longrightarrow> att2 s (m_aShortAddress e) = Some (r, e)"
    and "att16 s k = Some (r, e) \<Longrightarrow> r < next_ref s"
    and "att2 s k = Some (r, e) \<Longrightarrow> k = m_aShortAddress e"
    and "att2 s k = Some (r, e) \<Longrightarrow> att16 s (m_aIPV6Addr e) = Some (r, e)"
    and "att16 s k = Some (r, e) \<Longrightarrow> att16 s k' = Some (r, e') \<Longrightarrow> k = k'"
  using assms unfolding att_inv_def by blast+

lemma delATT_maps:
  assumes "att16 s (bytes_at 0 16 idx) = Some (r, e)"
  shows "att16 (fst (NLME_delATT idx s)) = (att16 s)(bytes_at 0 16 idx := None)"
    and "att2 (fst (NLME_delATT idx s)) = (att2 s)(m_aShortAddress e := None)"
    and "next_ref (fst (NLME_delATT idx s)) = next_ref s"
  using assms by (simp_all add: NLME_delATT_def map_of_AList_delete)

lemma delATT_inv:
  assumes inv: "att_inv s"
  shows "att_inv (fst (NLME_delATT idx s))"
proof (cases "att16 s (bytes_at 0 16 idx)")
  case None
  then show ?thesis using inv by (simp add: NLME_delATT_def)
next
  case (Some re)
  obtain r e where re: "re = (r, e)" by (cases re)
  note m = delATT_maps [OF Some [unfolded re]]
  let ?t = "fst (NLME_delATT idx s)" and ?k = "bytes_at 0 16 idx"
  have k: "?k = m_aIPV6Addr e" using att_invD(1) [OF inv] Some re by blast
  have "wf_alist (m_oAttMap16toEntry ?t)" "wf_alist (m_oAttMap2toEntry ?t)"
      "length (m_oAttMap16toEntry ?t) \<le> MAX_ADDR_TRANSLATIONS_NO"
    using att_inv_wf [OF inv] Some re length_alist_delete_le [of ?k "m_oAttMap16toEntry s"]
    by (simp_all add: NLME_delATT_def wf_alist_delete)
  moreover have "k' = m_aIPV6Addr e' \<and> att2 ?t (m_aShortAddress e') = Some (r', e') \<and> r' < next_ref ?t"
    if "att16 ?t k' = Some (r', e')" for k' r' e'
  proof -
    from that have k': "k' \<noteq> ?k" "att16 s k' = Some (r', e')" by (auto simp: m split: if_splits)
    have "m_aShortAddress e' \<noteq> m_aShortAddress e"
    proof
      assume "m_aShortAddress e' = m_aShortAddress e"
      then have "Some (r', e') = Some (r, e)"
        using att_invD(2) [OF inv k'(2)] att_invD(2) [OF inv Some [unfolded re]] by (simp only:)
      then have "e' = e" by simp
      then show False using att_invD(1) [OF inv k'(2)] k k'(1) by simp
    qed
    then show ?thesis using att_invD(1-3) [OF inv k'(2)] by (simp add: m)
  qed
  moreover have "k' = m_aShortAddress e' \<and> att16 ?t (m_aIPV6Addr e') = Some (r', e')"
    if "att2 ?t k' = Some (r', e')" for k' r' e'
  proof -
    from that have k': "k' \<noteq> m_aShortAddress e" "att2 s k' = Some (r', e')" by (auto simp: m split: if_splits)
    have "m_aIPV6Addr e' \<noteq> ?k"
    proof
      assume "m_aIPV6Addr e' = ?k"
      then have "Some (r', e') = Some (r, e)" using att_invD(5) [OF inv k'(2)] Some re by (simp only:)
      then have "e' = e" by simp
      then show False using att_invD(4) [OF inv k'(2)] k'(1) by simp
    qed
    then show ?thesis using att_invD(4,5) [OF inv k'(2)] by (simp add: m)
  qed
  moreover have "k1 = k2" if "att16 ?t k1 = Some (r', e1)" "att16 ?t k2 = Some (r', e2)" for k1 k2 r' e1 e2
    using that att_invD(6) [OF inv] by (auto simp: m split: if_splits)
  ultimately show ?thesis unfolding att_inv_def by blast
qed

text \<open>The row that \<^verbatim>\<open>NLME_setATT\<close> inserts last.\<close>

definition insert_att :: "NLME_ADDR_TRANS_ATTRIBUTES \<Rightarrow> NLME_ATRIBUTES \<Rightarrow> NLME_ATRIBUTES" where
  "insert_att e s = s\<lparr>m_oAttMap16toEntry := AList.update (m_aIPV6Addr e) (next_ref s, e) (m_oAttMap16toEntry s),
     m_oAttMap2toEntry := AList.update (m_aShortAddress e) (next_ref s, e) (m_oAttMap2toEntry s),
     next_ref := next_ref s + 1\<rparr>"

lemma insert_att_inv:
  assumes inv: "att_inv s" and new: "att16 s (m_aIPV6Addr e) = None" "att2 s (m_aShortAddress e) = None"
    and room: "length (m_oAttMap16toEntry s) < MAX_ADDR_TRANSLATIONS_NO"
  shows "att_inv (insert_att e s)"
proof -
  let ?t = "insert_att e s"
  have m: "att16 ?t = (att16 s)(m_aIPV6Addr e \<mapsto> (next_ref s, e))"
      "att2 ?t = (att2 s)(m_aShortAddress e \<mapsto> (next_ref s, e))" "next_ref ?t = next_ref s + 1"
    by (simp_all add: insert_att_def map_of_AList_update)
  have "wf_alist (m_oAttMap16toEntry ?t)" "wf_alist (m_oAttMap2toEntry ?t)"
      "length (m_oAttMap16toEntry ?t) \<le> MAX_ADDR_TRANSLATIONS_NO"
    using att_inv_wf [OF inv] room by (auto simp: insert_att_def length_alist_update wf_alist_update)
  moreover have "k' = m_aIPV6Addr e' \<and> att2 ?t (m_aShortAddress e') = Some (r', e') \<and> r' < next_ref ?t"
    if "att16 ?t k' = Some (r', e')" for k' r' e'
    using that att_invD(1-3) [OF inv] new(2) by (fastforce simp: m split: if_splits)
  moreover have "k' = m_aShortAddress e' \<and> att16 ?t (m_aIPV6Addr e') = Some (r', e')"
    if "att2 ?t k' = Some (r', e')" for k' r' e'
    using that att_invD(4,5) [OF inv] new(1) by (fastforce simp: m split: if_splits)
  moreover have "k1 = k2" if "att16 ?t k1 = Some (r', e1)" "att16 ?t k2 = Some (r', e2)" for k1 k2 r' e1 e2
    using that att_invD(3,6) [OF inv] by (fastforce simp: m split: if_splits)
  ultimately show ?thesis unfolding att_inv_def by blast
qed

text \<open>The state after the old index was dropped, and the state in which the row is inserted.\<close>

definition att_reindexed :: "u8 list \<Rightarrow> NLME_ATRIBUTES \<Rightarrow> NLME_ATRIBUTES" where
  "att_reindexed d s = (if bytes_at 0 16 d \<noteq> bytes_at 16 16 d then fst (NLME_delATT d s) else s)"

definition att_cleared :: "u8 list \<Rightarrow> NLME_ATRIBUTES \<Rightarrow> NLME_ATRIBUTES" where
  "att_cleared d s = (let t = att_reindexed d s in
     if att16 t (bytes_at 16 16 d) \<noteq> None then fst (NLME_delATT (drop 16 d) t) else t)"

lemma att_of_drop: "m_aIPV6Addr (att_of_bytes (drop 16 d)) = bytes_at 16 16 d"
    "m_aShortAddress (att_of_bytes (drop 16 d)) = bytes_at 32 2 d"
  by (simp_all add: att_of_bytes_def bytes_at_def)

lemma setATT_cases:
  obtains (both) r e r' e' where "att16 (att_reindexed d s) (bytes_at 16 16 d) = Some (r, e)"
      "att2 (att_reindexed d s) (bytes_at 32 2 d) = Some (r', e')"
      "NLME_setATT d s = (att_reindexed d s, if r = r' then SFC_SUCCESS else SFC_INCONSISTENT_CONTENT)"
  | (short) "att16 (att_reindexed d s) (bytes_at 16 16 d) = None" "att2 (att_reindexed d s) (bytes_at 32 2 d) \<noteq> None"
      "NLME_setATT d s = (att_reindexed d s, SFC_INCONSISTENT_CONTENT)"
  | (full) "att2 (att_reindexed d s) (bytes_at 32 2 d) = None"
      "MAX_ADDR_TRANSLATIONS_NO \<le> length (m_oAttMap16toEntry (att_cleared d s))"
      "NLME_setATT d s = (att_cleared d s, SFC_INSUFFICIENT_DEVICE_RESOURCES)"
  | (new) "att2 (att_reindexed d s) (bytes_at 32 2 d) = None"
      "length (m_oAttMap16toEntry (att_cleared d s)) < MAX_ADDR_TRANSLATIONS_NO"
      "NLME_setATT d s = (insert_att (att_of_bytes (drop 16 d)) (att_cleared d s), SFC_SUCCESS)"
proof (cases "att2 (att_reindexed d s) (bytes_at 32 2 d)")
  case None
  then show ?thesis
    using full new unfolding NLME_setATT_def att_cleared_def insert_att_def
    by (simp add: Let_def att_of_drop flip: att_reindexed_def) (meson not_le)
next
  case (Some b)
  show ?thesis
  proof (cases "att16 (att_reindexed d s) (bytes_at 16 16 d)")
    case None
    then show ?thesis using Some short unfolding NLME_setATT_def
      by (simp add: Let_def att_of_drop flip: att_reindexed_def)
  next
    case (Some a)
    with \<open>att2 (att_reindexed d s) (bytes_at 32 2 d) = Some b\<close> show ?thesis
      using both [of "fst a" "snd a" "fst b" "snd b"] unfolding NLME_setATT_def
      by (simp add: Let_def att_of_drop flip: att_reindexed_def)
  qed
qed

lemma att_reindexed_inv: "att_inv s \<Longrightarrow> att_inv (att_reindexed d s)"
  by (simp add: att_reindexed_def delATT_inv)

lemma att_cleared_inv: "att_inv s \<Longrightarrow> att_inv (att_cleared d s)"
  by (simp add: att_cleared_def Let_def att_reindexed_inv delATT_inv)

lemma att_cleared_maps:
  assumes inv: "att_inv s" and "att2 (att_reindexed d s) k = None"
  shows "att16 (att_cleared d s) (bytes_at 16 16 d) = None" and "att2 (att_cleared d s) k = None"
proof -
  have k: "bytes_at 0 16 (drop 16 d) = bytes_at 16 16 d" by (simp add: bytes_at_def)
  show "att16 (att_cleared d s) (bytes_at 16 16 d) = None" "att2 (att_cleared d s) k = None"
    using assms(2) delATT_maps [of "att_reindexed d s" "drop 16 d"]
    by (cases "att16 (att_reindexed d s) (bytes_at 16 16 d)"; auto simp: att_cleared_def Let_def k)+
qed

lemma setATT_inv:
  assumes inv: "att_inv s"
  shows "att_inv (fst (NLME_setATT d s))"
proof (cases rule: setATT_cases [of d s])
  case new
  note m = att_cleared_maps [OF inv new(1)]
  show ?thesis unfolding new(3) fst_conv
    by (rule insert_att_inv) (use att_cleared_inv [OF inv] m new(2) in \<open>simp_all add: att_of_drop\<close>)
qed (use att_reindexed_inv [OF inv] att_cleared_inv [OF inv] in simp_all)

lemma setATT_success:
  assumes inv: "att_inv s" and ok: "snd (NLME_setATT d s) = SFC_SUCCESS"
  shows "\<exists>r. att16 (fst (NLME_setATT d s)) (bytes_at 16 16 d) = Some (r, att_of_bytes (drop 16 d)) \<and>
     att2 (fst (NLME_setATT d s)) (bytes_at 32 2 d) = Some (r, att_of_bytes (drop 16 d))"
proof (cases rule: setATT_cases [of d s])
  case (both r e r' e')
  then have "r' = r" using ok by (auto split: if_splits)
  note inv' = att_reindexed_inv [OF inv, of d]
  have "att16 (att_reindexed d s) (m_aIPV6Addr e') = Some (r, e')"
    using att_invD(5) [OF inv' both(2)] \<open>r' = r\<close> by simp
  then have "bytes_at 16 16 d = m_aIPV6Addr e'" using att_invD(6) [OF inv' both(1)] by blast
  moreover have "bytes_at 32 2 d = m_aShortAddress e'" using att_invD(4) [OF inv' both(2)] .
  ultimately have e': "e' = att_of_bytes (drop 16 d)" by (cases e') (simp add: att_of_bytes_def bytes_at_def)
  have "e = e'" using both(1) \<open>bytes_at 16 16 d = m_aIPV6Addr e'\<close>
      \<open>att16 (att_reindexed d s) (m_aIPV6Addr e') = Some (r, e')\<close> by simp
  then show ?thesis using both \<open>r' = r\<close> e' by simp
next
  case new
  then show ?thesis by (simp add: insert_att_def map_of_AList_update att_of_drop)
qed (use ok in simp_all)

section \<open>All tables, under every operation\<close>

definition nlme_inv :: "NLME_ATRIBUTES \<Rightarrow> bool" where
  "nlme_inv s \<longleftrightarrow> route_inv s \<and> contract_inv s \<and> att_inv s"

inductive nlme_step :: "NLME_ATRIBUTES \<Rightarrow> NLME_ATRIBUTES \<Rightarrow> bool" where
  set_row: "nlme_step s (fst (NLME_SetRowWithDMOContractParams env attr d n maxNSDU wnd c x s))"
| write_row: "nlme_step s (fst (NLMO_Write env at n d s))"
| read_row: "nlme_step s (fst (NLMO_Read env at s))"
| delete_row: "nlme_step s (fst (NLME_DeleteRow attr idx n s))"
| add_route: "nlme_step s (fst (NLME_AddRoute dest hop lim ifc s))"
| add_contract: "nlme_step s (fst (NLME_AddContract own rnd cid src dst prio incl maxNSDU wnd c x s))"
| delete_contract: "nlme_step s (fst (NLME_DeleteContract cid s))"
| add_dmo_contract: "nlme_step s (fst (NLME_AddDmoContract junk rnd dc s))"
| add_att: "nlme_step s (fst (NLME_AddATT long short s))"
| raise_alert: "nlme_step s (NLME_Alert v npdu n s)"

inductive nlme_reach :: "NLME_ATRIBUTES \<Rightarrow> bool" where
  init: "m_ucAlertDesc s = 0 \<Longrightarrow> nlme_alerts s = [] \<Longrightarrow> nlme_reach (NLME_Init s)"
| step: "nlme_reach s \<Longrightarrow> nlme_step s s' \<Longrightarrow> nlme_reach s'"

lemma setRoute_inv: "route_inv s \<Longrightarrow> route_inv (fst (NLME_setRoute d s))"
  by (auto simp: NLME_setRoute_def NLME_delRoute_def route_inv_def Let_def length_alist_update
      wf_alist_update wf_alist_delete intro!: le_antisym)

lemma setContract_inv: "contract_inv s \<Longrightarrow> contract_inv (fst (NLME_setContract own rnd d a b c e s))"
  by (auto simp: NLME_setContract_def NLME_delContract_def contract_inv_def Let_def length_alist_update
      wf_alist_update wf_alist_delete split: option.splits prod.splits)

lemma AddDmoContract_inv: "contract_inv s \<Longrightarrow> contract_inv (fst (NLME_AddDmoContract junk rnd d s))"
  by (auto simp: NLME_AddDmoContract_def contract_inv_def Let_def length_alist_update wf_alist_update
      split: option.splits)

text \<open>Each operation works on one of the tables and leaves the rest of the state.\<close>

definition nlme_frame :: "NLME_ATRIBUTES \<Rightarrow> NLME_ATRIBUTES \<Rightarrow> bool" where
  "nlme_frame s t \<longleftrightarrow> m_ucAlertDesc t = m_ucAlertDesc s \<and> nlme_alerts t = nlme_alerts s"

lemma nlme_frame_trans: "nlme_frame s t \<Longrightarrow> nlme_frame t u \<Longrightarrow> nlme_frame s u"
  by (simp add: nlme_frame_def)

lemma other_tables:
  "route_inv (s\<lparr>m_oContractsMap := a\<rparr>) = route_inv s" "att_inv (s\<lparr>m_oContractsMap := a\<rparr>) = att_inv s"
  "contract_inv (s\<lparr>m_oNlmeRoutesMap := b\<rparr>) = contract_inv s" "att_inv (s\<lparr>m_oNlmeRoutesMap := b\<rparr>) = att_inv s"
  by (simp_all add: route_inv_def contract_inv_def att_inv_def)

lemma setRoute_other:
  "contract_inv (fst (NLME_setRoute d s)) = contract_inv s" "att_inv (fst (NLME_setRoute d s)) = att_inv s"
  "nlme_frame s (fst (NLME_setRoute d s))"
  by (simp_all add: NLME_setRoute_def NLME_delRoute_def Let_def other_tables nlme_frame_def)

lemma att_inv_mono:
  assumes inv: "att_inv s" and "m_oAttMap16toEntry t = m_oAttMap16toEntry s"
    and "m_oAttMap2toEntry t = m_oAttMap2toEntry s" and "next_ref s \<le> next_ref t"
  shows "att_inv t"
proof -
  have "r < next_ref t" if "att16 s k = Some (r, e)" for k r e
    using att_invD(3) [OF inv that] assms(4) by linarith
  then show ?thesis using inv unfolding att_inv_def assms(2,3) by blast
qed

lemma setContract_other:
  "route_inv (fst (NLME_setContract own rnd d a b c e s)) = route_inv s"
  "att_inv s \<Longrightarrow> att_inv (fst (NLME_setContract own rnd d a b c e s))"
  "nlme_frame s (fst (NLME_setContract own rnd d a b c e s))"
proof -
  show "route_inv (fst (NLME_setContract own rnd d a b c e s)) = route_inv s"
    by (simp add: NLME_setContract_def NLME_delContract_def Let_def route_inv_def split: option.splits prod.splits)
  show "att_inv s \<Longrightarrow> att_inv (fst (NLME_setContract own rnd d a b c e s))"
    by (erule att_inv_mono)
      (simp_all add: NLME_setContract_def NLME_delContract_def Let_def split: option.splits prod.splits)
  show "nlme_frame s (fst (NLME_setContract own rnd d a b c e s))"
    by (simp add: NLME_setContract_def NLME_delContract_def Let_def nlme_frame_def split: option.splits prod.splits)
qed

lemma AddDmoContract_other:
  "route_inv (fst (NLME_AddDmoContract junk rnd d s)) = route_inv s"
  "att_inv s \<Longrightarrow> att_inv (fst (NLME_AddDmoContract junk rnd d s))"
  "nlme_frame s (fst (NLME_AddDmoContract junk rnd d s))"
proof -
  show "att_inv s \<Longrightarrow> att_inv (fst (NLME_AddDmoContract junk rnd d s))"
    by (erule att_inv_mono) (simp_all add: NLME_AddDmoContract_def Let_def split: option.splits)
qed (simp_all add: NLME_AddDmoContract_def Let_def route_inv_def nlme_frame_def split: option.splits)

lemma delATT_other:
  "route_inv (fst (NLME_delATT d s)) = route_inv s" "contract_inv (fst (NLME_delATT d s)) = contract_inv s"
  "nlme_frame s (fst (NLME_delATT d s))"
  by (simp_all add: NLME_delATT_def route_inv_def contract_inv_def nlme_frame_def split: option.splits)

lemma setATT_other:
  "route_inv (fst (NLME_setATT d s)) = route_inv s" "contract_inv (fst (NLME_setATT d s)) = contract_inv s"
  "nlme_frame s (fst (NLME_setATT d s))"
proof -
  have r: "route_inv (att_reindexed d s) = route_inv s" "contract_inv (att_reindexed d s) = contract_inv s"
      "nlme_frame s (att_reindexed d s)"
    by (simp_all add: att_reindexed_def delATT_other nlme_frame_def [of s s])
  then have c: "route_inv (att_cleared d s) = route_inv s" "contract_inv (att_cleared d s) = contract_inv s"
      "nlme_frame s (att_cleared d s)"
    by (auto simp: att_cleared_def Let_def delATT_other intro: nlme_frame_trans)
  have i: "route_inv (insert_att e t) = route_inv t" "contract_inv (insert_att e t) = contract_inv t"
      "nlme_frame t (insert_att e t)" for e t
    by (simp_all add: insert_att_def route_inv_def contract_inv_def nlme_frame_def)
  show "route_inv (fst (NLME_setATT d s)) = route_inv s" "contract_inv (fst (NLME_setATT d s)) = contract_inv s"
      "nlme_frame s (fst (NLME_setATT d s))"
    by (cases rule: setATT_cases [of d s]; use r c i in \<open>auto intro: nlme_frame_trans\<close>)+
qed

lemma row_op_inv:
  assumes "nlme_inv s"
  shows "nlme_inv (fst (NLME_setRoute d s))" "nlme_inv (fst (NLME_setContract own rnd d a b c e s))"
    "nlme_inv (fst (NLME_setATT d s))" "nlme_inv (fst (NLME_delRoute d s))"
    "nlme_inv (fst (NLME_delContract d s))" "nlme_inv (fst (NLME_delATT d s))"
    "nlme_inv (fst (NLME_AddDmoContract junk rnd dc s))"
  using assms
  by (simp_all add: nlme_inv_def setRoute_inv setRoute_other setContract_inv setContract_other setATT_inv
      setATT_other delATT_inv delATT_other AddDmoContract_inv AddDmoContract_other NLME_delRoute_def
      NLME_delContract_def other_tables)
    (simp_all add: route_inv_def contract_inv_def wf_alist_delete)

lemma row_op_frame:
  "nlme_frame s (fst (NLME_delRoute d s))" "nlme_frame s (fst (NLME_delContract d s))"
  by (simp_all add: NLME_delRoute_def NLME_delContract_def nlme_frame_def)

text \<open>Fields other than the tables.\<close>

lemma nlme_inv_fields:
  "nlme_inv (s\<lparr>m_ucAlertDesc := x\<rparr>) = nlme_inv s" "nlme_inv (mib_write i bs s) = nlme_inv s"
  "nlme_inv (note_bbr_request a s) = nlme_inv s" "nlme_inv (NLME_Alert v npdu n s) = nlme_inv s"
  by (simp_all add: nlme_inv_def route_inv_def contract_inv_def att_inv_def mib_write_def note_bbr_request_def
      NLME_Alert_def Let_def)

lemma nlme_frame_fields:
  "nlme_frame s (mib_write i bs s)" "nlme_frame s (note_bbr_request a s)" "nlme_frame s s"
  by (simp_all add: nlme_frame_def mib_write_def note_bbr_request_def)

text \<open>The alert descriptor, row 16, is marked read-only.\<close>

lemma alert_row_read_only: "c_aAttributesParams ! unat ((16 :: u8) - 1) = \<lparr>m_ucSize = 2, m_ucIndexSize = 0, m_ucIsReadOnly = 1\<rparr>"
  by (simp add: c_aAttributesParams_def)

lemma SetRow_inv:
  assumes "nlme_inv s"
  shows "nlme_inv (fst (NLME_SetRowWithDMOContractParams env attr d n a b c e s))"
  using assms by (simp add: NLME_SetRowWithDMOContractParams_def Let_def row_op_inv nlme_inv_fields)

lemma SetRow_frame: "nlme_frame s (fst (NLME_SetRowWithDMOContractParams env attr d n a b c e s))"
proof (cases "attr = 16")
  case True
  then show ?thesis
    by (simp add: NLME_SetRowWithDMOContractParams_def Let_def c_aAttributesParams_def nlme_frame_fields)
next
  case False
  then show ?thesis
    by (simp add: NLME_SetRowWithDMOContractParams_def Let_def setRoute_other setContract_other setATT_other
        nlme_frame_fields)
qed

lemma NLMO_Read_state: "fst (NLMO_Read env a s) = note_bbr_request a s"
  by (simp add: NLMO_Read_def Let_def split: prod.splits)

lemma nlme_step_inv:
  assumes "nlme_step s t" and "nlme_inv s"
  shows "nlme_inv t"
  using assms
  by (cases rule: nlme_step.cases)
    (simp_all add: SetRow_inv NLMO_Write_def NLME_SetRow_def NLMO_Read_state nlme_inv_fields NLME_DeleteRow_def
      NLME_AddRoute_def NLME_AddContract_def NLME_DeleteContract_def NLME_AddATT_def row_op_inv Let_def)

lemma nlme_step_frame:
  assumes "nlme_step s t" and "m_ucAlertDesc s = 0"
  shows "nlme_frame s t"
  using assms
proof (cases rule: nlme_step.cases)
  case (write_row env at n d)
  then show ?thesis using nlme_frame_trans [OF nlme_frame_fields(2) SetRow_frame]
    by (simp add: NLMO_Write_def NLME_SetRow_def)
qed (simp_all add: SetRow_frame NLMO_Read_state nlme_frame_fields NLME_DeleteRow_def
      NLME_AddRoute_def NLME_AddContract_def NLME_DeleteContract_def NLME_AddATT_def Let_def
      setRoute_other setContract_other setATT_other delATT_other row_op_frame AddDmoContract_other NLME_Alert_def)

lemma nlme_init_inv: "nlme_inv (NLME_Init s)"
  by (simp add: nlme_inv_def NLME_Init_def route_inv_def contract_inv_def att_inv_def)

lemma nlme_reach_facts: "nlme_reach s \<Longrightarrow> nlme_inv s \<and> m_ucAlertDesc s = 0 \<and> nlme_alerts s = []"
proof (induction rule: nlme_reach.induct)
  case (init s)
  then show ?case by (simp add: nlme_init_inv) (simp add: NLME_Init_def)
next
  case (step s s')
  then show ?case using nlme_step_inv [OF step.hyps(2)] nlme_step_frame [OF step.hyps(2)]
    by (simp add: nlme_frame_def)
qed

section \<open>Properties\<close>

text \<open>An empty table set, for the concrete instances below.\<close>

definition sample_nlme :: NLME_ATRIBUTES where
  "sample_nlme = NLME_Init \<lparr>m_unFragDatagramTag = 0, m_ucFragReassemblyTimeout = 0, m_ucEnableDefaultRoute = 0,
     m_aDefaultRouteEntry = [], m_oNlmeRoutesMap = [], m_oContractsMap = [], m_oAttMap16toEntry = [],
     m_oAttMap2toEntry = [], m_ucAlertDesc = 0, next_ref = 0, g_nRequestForLinuxBbr = False,
     g_nATT_TR_Changed = False, nlme_alerts = []\<rparr>"

lemma sample_nlme_reach: "nlme_reach sample_nlme"
  unfolding sample_nlme_def by (rule nlme_reach.init) simp_all

text \<open>C12:
  The route table is a map with a capacity: after any sequence of \<^verbatim>\<open>NLME_AddRoute\<close> and
  \<^verbatim>\<open>NLME_delRoute\<close> on 16-byte addresses, a lookup finds what the specification with 5000 rows finds
  (the last route set for the destination, unless the table was full when it was new), and the table
  never exceeds 5000 rows.
\<close>
theorem route_table_refinement:
  assumes "route_inv s" and "list_all (op_ok route_ok (\<lambda>d. length d = 16)) ops"
  shows "map_of (m_oNlmeRoutesMap (run_rows put_route NLME_delRoute ops s)) =
       spec_run MAX_ROUTES_NO ops (map_of (m_oNlmeRoutesMap s)) \<and>
     length (m_oNlmeRoutesMap (run_rows put_route NLME_delRoute ops s)) \<le> MAX_ROUTES_NO"
  using routes.run_refines [OF assms] routes.run_bounded [OF assms] by simp

definition sample_route :: NLME_ROUTE_ATTRIBUTES where
  "sample_route = \<lparr>NLME_ROUTE_ATTRIBUTES.m_aDestAddress = replicate 16 1, m_aNextHopAddress = replicate 16 2,
     m_ucNWK_HopLimit = 64, m_bOutgoingInterface = 1\<rparr>"

theorem route_table_refinement_witness:
  "NLME_findRoute (replicate 16 1) (run_rows put_route NLME_delRoute
     [SetRow (replicate 16 1) sample_route, DelRow (replicate 16 3)] sample_nlme) = Some sample_route"
proof -
  have "route_inv sample_nlme" by (simp add: sample_nlme_def NLME_Init_def route_inv_def)
  then show ?thesis
    using route_table_refinement [of sample_nlme "[SetRow (replicate 16 1) sample_route, DelRow (replicate 16 3)]"]
    by (simp add: route_ok_def sample_route_def NLME_findRoute_def spec_set_def sample_nlme_def NLME_Init_def)
qed

text \<open>C13:
  The contract table is a map with a capacity as well: after any sequence of \<^verbatim>\<open>NLME_AddContract\<close> for
  this device's own address and \<^verbatim>\<open>NLME_DeleteContract\<close>, every identifier has the peer, the sizes and
  the bursts last set for it, and the table never exceeds 5000 rows.
\<close>
theorem contract_table_refinement:
  assumes "contract_inv s" and "list_all (op_ok (contract_ok own) (\<lambda>_. True)) ops"
  shows "look_contract (run_rows (put_contract own rnd prio incl) NLME_DeleteContract ops s) =
       spec_run MAX_CONTRACT_NO ops (look_contract s) \<and>
     length (m_oContractsMap (run_rows (put_contract own rnd prio incl) NLME_DeleteContract ops s)) \<le> MAX_CONTRACT_NO"
  using contracts.run_refines [OF assms] contracts.run_bounded [OF assms] by simp

theorem contract_table_refinement_witness:
  "look_contract (run_rows (put_contract (replicate 16 9) 7 0 False) NLME_DeleteContract
     [SetRow 5 (replicate 16 1, 1000, 4, 1, 2)] sample_nlme) 5 = Some (replicate 16 1, 1000, 4, 1, 2)"
proof -
  have "contract_inv sample_nlme" by (simp add: sample_nlme_def NLME_Init_def contract_inv_def)
  moreover have "look_contract sample_nlme = Map.empty"
    by (rule ext) (simp add: look_contract_def sample_nlme_def NLME_Init_def)
  ultimately show ?thesis
    using contract_table_refinement [of sample_nlme "replicate 16 9"
        "[SetRow 5 (replicate 16 1, 1000, 4, 1, 2)]" 7 0 False]
    by (simp add: contract_ok_def spec_set_def)
qed

text \<open>C11:
  In every state that the operations of the network layer reach, all three tables are within their
  capacity, have one row per key, and the two indices of the address translation table are inverse:
  a long address leads to a short one exactly if the short one leads back, to the same entry.
\<close>
theorem translation_indices_inverse:
  assumes "nlme_reach s" and "length long = 16" and "length short = 2"
  shows "nlme_inv s \<and>
     (NLME_FindATT long s = Some e \<and> m_aShortAddress e = short \<longleftrightarrow>
      NLME_FindATTByShortAddr short s = Some e \<and> m_aIPV6Addr e = long)"
proof -
  have inv: "nlme_inv s" using nlme_reach_facts [OF assms(1)] by simp
  then have a: "att_inv s" by (simp add: nlme_inv_def)
  show ?thesis using inv att_invD [OF a] assms(2,3)
    by (auto simp: NLME_FindATT_def NLME_FindATTByShortAddr_def)
qed

definition sample_att :: NLME_ATRIBUTES where
  "sample_att = fst (NLME_AddATT (replicate 16 1) 0x0707 sample_nlme)"

lemma sample_att_reach: "nlme_reach sample_att"
  unfolding sample_att_def by (rule nlme_reach.step [OF sample_nlme_reach add_att])

theorem translation_indices_inverse_witness:
  "NLME_FindATT (replicate 16 1) sample_att = Some (\<lparr>m_aIPV6Addr = replicate 16 1, m_aShortAddress = [7, 7]\<rparr>) \<and>
   NLME_FindATTByShortAddr [7, 7] sample_att = Some (\<lparr>m_aIPV6Addr = replicate 16 1, m_aShortAddress = [7, 7]\<rparr>)"
proof -
  have "NLME_FindATT (replicate 16 1) sample_att = Some (\<lparr>m_aIPV6Addr = replicate 16 1, m_aShortAddress = [7, 7]\<rparr>)"
    by (simp add: sample_att_def NLME_AddATT_def NLME_setATT_def att_of_bytes_def NLME_FindATT_def sample_nlme_def
        NLME_Init_def Let_def bytes_at_def)
  then show ?thesis
    using translation_indices_inverse [OF sample_att_reach, of "replicate 16 1" "[7, 7]"
        "\<lparr>m_aIPV6Addr = replicate 16 1, m_aShortAddress = [7, 7]\<rparr>"] by simp
qed

text \<open>
  A translation that \<^verbatim>\<open>NLME_setATT\<close> accepts is found afterwards under its long and under its short
  address; the table stays consistent whatever the answer is.
\<close>
lemma set_translation_found:
  assumes "att_inv s" and "length long = 16" and "length short = 2"
    and "snd (NLME_setATT (idx @ long @ short) s) = SFC_SUCCESS" and "length idx = 16"
  shows "att_inv (fst (NLME_setATT (idx @ long @ short) s)) \<and>
     NLME_FindATT long (fst (NLME_setATT (idx @ long @ short) s)) = Some \<lparr>m_aIPV6Addr = long, m_aShortAddress = short\<rparr> \<and>
     NLME_FindATTByShortAddr short (fst (NLME_setATT (idx @ long @ short) s)) =
       Some \<lparr>m_aIPV6Addr = long, m_aShortAddress = short\<rparr>"
proof -
  have "bytes_at 16 16 (idx @ long @ short) = long" "bytes_at 32 2 (idx @ long @ short) = short"
      "att_of_bytes (drop 16 (idx @ long @ short)) = \<lparr>m_aIPV6Addr = long, m_aShortAddress = short\<rparr>"
    using assms by (simp_all add: att_of_bytes_def)
  then show ?thesis using setATT_success [OF assms(1,4)] setATT_inv [OF assms(1)] assms(2,3)
    by (auto simp: NLME_FindATT_def NLME_FindATTByShortAddr_def)
qed

theorem set_translation_found_witness:
  "NLME_FindATTByShortAddr [4, 5] (fst (NLME_setATT (replicate 16 1 @ replicate 16 1 @ [4, 5]) sample_nlme)) =
     Some \<lparr>m_aIPV6Addr = replicate 16 1, m_aShortAddress = [4, 5]\<rparr>"
proof -
  have "att_inv sample_nlme" by (simp add: sample_nlme_def NLME_Init_def att_inv_def)
  moreover have "snd (NLME_setATT (replicate 16 1 @ replicate 16 1 @ [4, 5]) sample_nlme) = SFC_SUCCESS"
    by (simp add: NLME_setATT_def att_of_bytes_def sample_nlme_def NLME_Init_def Let_def)
  ultimately show ?thesis
    using set_translation_found [of sample_nlme "replicate 16 1" "[4, 5]" "replicate 16 1"] by simp
qed

text \<open>
  No network layer alert is ever raised: the descriptor that enables it is zero after start-up, its row
  is marked read-only, and no operation reachable from there changes it.
\<close>
lemma nlme_alert_never_raised:
  assumes "nlme_reach s"
  shows "nlme_alerts s = [] \<and> nlme_alerts (NLME_Alert v npdu n s) = []"
  using nlme_reach_facts [OF assms] by (simp add: NLME_Alert_def)

theorem nlme_alert_never_raised_witness: "nlme_alerts (NLME_Alert 1 [1, 2, 3] 3 sample_att) = []"
  using nlme_alert_never_raised [OF sample_att_reach, of 1 "[1, 2, 3]" 3] by simp

text \<open>
  \<^verbatim>\<open>NLMO_Read\<close> never delivers an attribute: whenever it reports success the response length it
  leaves is zero and the response buffer holds at most the size octet; for the IPv6 address it stores
  the 16 octets over a one-octet local.
\<close>
lemma NLMO_Read_delivers_nothing:
  shows "(\<forall>a t bs n k. NLMO_Read env a s = (t, SFC_SUCCESS, bs, n, k) \<longrightarrow> n = Some 0 \<and> length bs \<le> 1) \<and>
     (length (g_aIPv6Address env) = 16 \<longrightarrow> (\<exists>t. NLMO_Read env 4 s = (t, SFC_SUCCESS, [16], Some 0, 15)))"
  by (auto simp: NLMO_Read_def NLME_GetRow_def c_aAttributesParams_def mib_bytes_def Let_def
      split: prod.splits if_splits option.splits)

theorem NLMO_Read_delivers_nothing_witness:
  "\<exists>t. NLMO_Read \<lparr>g_aIPv6Address = replicate 16 3, g_unShortAddr = 7, c_ucBackboneCapable = 1, random_octet = 0\<rparr>
     4 sample_nlme = (t, SFC_SUCCESS, [16], Some 0, 15)"
  using NLMO_Read_delivers_nothing [of "\<lparr>g_aIPv6Address = replicate 16 3, g_unShortAddr = 7,
    c_ucBackboneCapable = 1, random_octet = 0\<rparr>" sample_nlme] by simp

text \<open>
  \<^verbatim>\<open>NLME_setContract\<close> on an identifier that is in use resets its send window: whatever number of
  requests is outstanding on the contract, the window in use is zero and the window size one afterwards,
  while the contract object (and the request counter) is the one that the outstanding requests refer to.
\<close>
lemma set_contract_resets_window:
  assumes "contract_ok own k v" and "map_of (m_oContractsMap s) k = Some (r, c)"
  shows "\<exists>c'. map_of (m_oContractsMap (fst (put_contract own rnd prio incl k v s))) k = Some (r, c') \<and>
     m_nInUseWndSize c' = 0 \<and> m_nCrtWndSize c' = 1 \<and>
     NLME_CONTRACT_ATTRIBUTES.m_ucReqID c' = NLME_CONTRACT_ATTRIBUTES.m_ucReqID c"
  using assms(2)
  by (simp add: put_contract_eq [OF assms(1)] map_of_AList_update fresh_contract_def split: prod.split)

theorem set_contract_resets_window_witness:
  "\<exists>r c. map_of (m_oContractsMap (fst (put_contract (replicate 16 9) 7 0 False 5 (replicate 16 1, 1000, 4, 1, 2)
     (sample_nlme\<lparr>m_oContractsMap := [(5, 3, (fresh_contract 5 (replicate 16 1, 900, 4, 1, 2) 8)\<lparr>m_nInUseWndSize := 4\<rparr>)]\<rparr>)))) 5
     = Some (r, c) \<and> m_nInUseWndSize c = 0"
  using set_contract_resets_window [of "replicate 16 9" 5 "(replicate 16 1, 1000, 4, 1, 2)"
    "sample_nlme\<lparr>m_oContractsMap := [(5, 3, (fresh_contract 5 (replicate 16 1, 900, 4, 1, 2) 8)\<lparr>m_nInUseWndSize := 4\<rparr>)]\<rparr>"
    3 "(fresh_contract 5 (replicate 16 1, 900, 4, 1, 2) 8)\<lparr>m_nInUseWndSize := 4\<rparr>" 7 0 False]
  by (auto simp: contract_ok_def)

end
