(* ===== verification/Asl_Reach.thy ===== *)
theory Asl_Reach
  imports Asl_Accounting Nlme_Tables
begin

text \<open>
  The application sublayer as a state machine: the steps are its operations, called in any order by the
  applications, the transport layer and the timers, and contracts being set up and torn down. The
  invariant of the queue holds in every reachable state.
\<close>

section \<open>Steps\<close>

text \<open>The octets of an object: at least one, and as many as the 16-bit length field can say.\<close>

definition object_ok :: "mem \<Rightarrow> asl_object \<Rightarrow> bool" where
  "object_ok m y \<longleftrightarrow> (case object_apdu m y of None \<Rightarrow> True | Some bs \<Rightarrow> bs \<noteq> [] \<and> length bs \<le> 65535)"

inductive asl_step :: "asl_config \<Rightarrow> asl_state \<Rightarrow> asl_state \<Rightarrow> bool" for cfg where
  add_object: "object_ok m y \<Longrightarrow> asl_step cfg s (fst (ASLSRVC_AddGenericObject cfg m a y s))"
| add_plain: "object_ok m y \<Longrightarrow> asl_step cfg s (fst (ASLSRVC_AddGenericObjectPlain cfg m a y s))"
| task: "asl_step cfg s (ASLDE_ASLTask tv s)"
| second: "asl_step cfg s (ASLDE_OneSecond_queue now s)"
| response: "asl_step cfg s (fst (ASLDE_SearchOriginalRequest now rid dst src idtf s))"
| confirm: "asl_step cfg s (TLDE_DATA_Confirm h sfc s)"
| indication: "asl_step cfg s (TLDE_DATA_Indication cfg now addr sp pr bs dp tt tx sec s)"
| get: "asl_step cfg s (fst (ASLDE_GetMyAPDUfromBuff sap s))"
| new_contract: "find_ref cid s = None \<Longrightarrow> contract_ok own cid v \<Longrightarrow>
     asl_step cfg s (s\<lparr>g_stNlme := fst (put_contract own rnd prio incl cid v (g_stNlme s))\<rparr>)"
| del_contract: "asl_step cfg s (s\<lparr>g_stNlme := fst (NLME_DeleteContract cid (g_stNlme s))\<rparr>)"

inductive asl_reach :: "asl_config \<Rightarrow> asl_state \<Rightarrow> bool" for cfg where
  init: "m_oContractsMap (g_stNlme s) = [] \<Longrightarrow> asl_reach cfg (ASLDE_Init_queues s)"
| step: "asl_reach cfg s \<Longrightarrow> asl_step cfg s t \<Longrightarrow> asl_reach cfg t"

section \<open>The invariant\<close>

lemma asl_inv_locks:
  assumes "asl_inv s" and "g_oAslMsgListTx t = g_oAslMsgListTx s" and "g_stNlme t = g_stNlme s"
    and "g_nAslMsgListRxCount t = word_of_nat (length (g_oAslMsgListRx t))" and "length (g_astAPDUConf t) \<le> 5"
  shows "asl_inv t"
  using assms by (simp add: asl_inv_def lock_def)

lemma asl_invD:
  assumes "asl_inv s" and "lock w s = Some c"
  shows "NLME_CONTRACT_ATTRIBUTES.m_unContractID c = fst w" "snd w < refs_used s" "window_ok c"
    and "windowed c \<Longrightarrow> occupancy w (g_oAslMsgListTx s) \<le> unat (m_nInUseWndSize c)"
  using assms unfolding asl_inv_def by blast+

lemma same_receive_updates [simp]:
  "same_receive s s" "same_receive s (store_contract w c t) = same_receive s t"
  "same_receive s (on_contract w f t) = same_receive s t" "same_receive s (UAP_DataTimeout x1 x2 x3 x4 t) = same_receive s t"
  "same_receive s (t\<lparr>g_oAslMsgListTx := q\<rparr>) = same_receive s t" "same_receive s (t\<lparr>tl_requests := r\<rparr>) = same_receive s t"
  "same_receive s (t\<lparr>g_ucHandle := h\<rparr>) = same_receive s t"
  by (simp_all add: same_receive_def store_contract_def on_contract_def UAP_DataTimeout_def split: option.split)

lemma same_receive_trans: "same_receive s t \<Longrightarrow> same_receive t u \<Longrightarrow> same_receive s u"
  by (simp add: same_receive_def)

lemma tx_list_updates [simp]:
  "g_oAslMsgListTx (store_contract w c s) = g_oAslMsgListTx s" "g_oAslMsgListTx (on_contract w f s) = g_oAslMsgListTx s"
  "g_oAslMsgListTx (UAP_DataTimeout x1 x2 x3 x4 s) = g_oAslMsgListTx s"
  by (simp_all add: store_contract_def on_contract_def UAP_DataTimeout_def split: option.split)

lemma tx_second_receive: "same_receive s (snd (tx_second x s))"
  by (simp add: tx_second_def expire_lifetime_def ASLDE_retryMessage_def Let_def split_def)

lemma map_state_invariant:
  assumes "\<And>x s. R s (snd (f x s))" and "\<And>s. R s s" and "\<And>s t u. R s t \<Longrightarrow> R t u \<Longrightarrow> R s u"
  shows "R s (snd (map_state f xs s))"
  by (induction xs arbitrary: s) (auto simp: Let_def split_def assms(2) intro: assms(1,3))

lemma CheckTX_inv:
  assumes "asl_inv s"
  shows "asl_inv (ASLDE_CheckAPDUTimeoutCountersOnTX s)"
proof -
  obtain xs t where m: "map_state tx_second (g_oAslMsgListTx s) s = (xs, t)" by fastforce
  have ok: "list_all (msg_ok (refs_used s)) (g_oAslMsgListTx s)" using assms by (simp add: asl_inv_def)
  have "balanced xs t xs (t\<lparr>g_oAslMsgListTx := xs\<rparr>)" by (rule balanced_locks) simp_all
  with timers.loop_balanced [OF ok TrueI m] have "balanced (g_oAslMsgListTx s) s xs (t\<lparr>g_oAslMsgListTx := xs\<rparr>)"
    by (rule balanced_trans)
  moreover have "same_receive s t"
    using map_state_invariant [of same_receive tx_second s "g_oAslMsgListTx s"] tx_second_receive same_receive_trans m
    by (metis same_receive_updates(1) snd_conv)
  ultimately show ?thesis using timers.loop_ok [OF ok TrueI m]
    by (intro asl_inv_balanced [OF assms]) (simp_all add: ASLDE_CheckAPDUTimeoutCountersOnTX_def m)
qed

lemma clean_inv: "asl_inv s \<Longrightarrow> asl_inv (ASLDE_cleanAPDUBuffer s)"
proof (rule asl_inv_balanced)
  have "occupancy w (filter (\<lambda>msg. status_of msg \<noteq> APDU_READY_TO_CLEAR) xs) = occupancy w xs" for w xs
    by (induction xs) (auto simp: occupies_def)
  then show "balanced (g_oAslMsgListTx s) s (g_oAslMsgListTx (ASLDE_cleanAPDUBuffer s)) (ASLDE_cleanAPDUBuffer s)"
    by (intro balanced_locks) (simp_all add: ASLDE_cleanAPDUBuffer_def)
qed (auto simp: ASLDE_cleanAPDUBuffer_def list_all_iff)

lemma CheckRX_inv:
  assumes "asl_inv s"
  shows "asl_inv (ASLDE_CheckAPDUTimeoutCountersOnRX now s)"
proof -
  let ?old = "takeWhile (\<lambda>x. \<not> sint now < m_nRecvTime x + 60) (g_oAslMsgListRx s)"
  have "length ?old \<le> length (g_oAslMsgListRx s)" by (rule length_takeWhile_le)
  then have "(word_of_nat (length (g_oAslMsgListRx s)) :: u32) - word_of_nat (length ?old)
      = word_of_nat (length (g_oAslMsgListRx s) - length ?old)" by (rule of_nat_diff [symmetric])
  then show ?thesis using assms
    by (intro asl_inv_locks [OF assms]) (simp_all add: ASLDE_CheckAPDUTimeoutCountersOnRX_def Let_def asl_inv_def del: of_nat_diff)
qed

lemma second_inv: "asl_inv s \<Longrightarrow> asl_inv (ASLDE_OneSecond_queue now s)"
  by (simp add: ASLDE_OneSecond_queue_def clean_inv CheckTX_inv CheckRX_inv)

lemma confirm_inv: "asl_inv s \<Longrightarrow> asl_inv (TLDE_DATA_Confirm h sfc s)"
  by (rule asl_inv_locks) (simp_all add: TLDE_DATA_Confirm_def asl_inv_def)

lemma indication_inv: "asl_inv s \<Longrightarrow> asl_inv (TLDE_DATA_Indication cfg now addr sp pr bs dp tt tx sec s)"
  by (rule asl_inv_locks) (simp_all add: TLDE_DATA_Indication_def asl_inv_def Let_def)

lemma get_inv:
  assumes "asl_inv s"
  shows "asl_inv (fst (ASLDE_GetMyAPDUfromBuff sap s))"
proof (cases "List.extract (\<lambda>x. APDU_IDTF.m_ucDstTSAPID (m_stApduIdtf x) = sap
    \<and> CAslRxMsg.m_ucStatus x = APDU_NOT_PROCESSED) (g_oAslMsgListRx s)")
  case None
  then show ?thesis using assms by (simp add: ASLDE_GetMyAPDUfromBuff_def)
next
  case (Some r)
  obtain ys x zs where r: "r = (ys, x, zs)" by (cases r)
  then have "g_oAslMsgListRx s = ys @ x # zs" using Some by (simp add: extract_Some_iff)
  then show ?thesis using assms Some r
    by (intro asl_inv_locks [OF assms]) (simp_all add: ASLDE_GetMyAPDUfromBuff_def asl_inv_def)
qed

lemma checkTLConfirms_inv:
  assumes "asl_inv s"
  shows "asl_inv (ASLDE_checkTLConfirms s)"
proof -
  let ?t = "s\<lparr>g_oAslMsgListTx := fold (\<lambda>k. List.map_filter (confirm_message k)) (g_astAPDUConf s) (g_oAslMsgListTx s)\<rparr>"
  have "balanced (g_oAslMsgListTx s) s (g_oAslMsgListTx ?t) ?t"
    by (rule balanced_locks) (simp_all add: all_confirms_facts)
  then have "asl_inv ?t" by (rule asl_inv_balanced [OF assms]) (simp_all add: all_confirms_facts)
  then show ?thesis by (rule asl_inv_locks) (use assms in \<open>simp_all add: ASLDE_checkTLConfirms_def asl_inv_def\<close>)
qed

lemma response_inv:
  assumes "asl_inv s"
  shows "asl_inv (fst (ASLDE_SearchOriginalRequest now rid dst src idtf s))"
proof (cases "List.extract (answers rid dst src idtf s) (g_oAslMsgListTx s)")
  case None
  then show ?thesis using assms by (simp add: ASLDE_SearchOriginalRequest_def)
next
  case (Some r)
  obtain ys x zs where r: "r = (ys, x, zs)" by (cases r)
  then have q: "g_oAslMsgListTx s = ys @ x # zs" and x: "answers rid dst src idtf s x"
    using Some by (simp_all add: extract_Some_iff)
  define w where "w = m_pWeakContract x"
  define s1 where "s1 = on_contract w (ASLDE_computeTXtimeout (now - m_unSendTime (m_stQueueHdr x))) s"
  define s2 where "s2 = (if m_bInSlidingWindow (m_stQueueHdr x) then on_contract w ASLDE_ReceiveResponseForSlidingWindow s1 else s1)"
  let ?y = "set_status APDU_READY_TO_CLEAR x"
  let ?t = "s2\<lparr>g_oAslMsgListTx := ys @ ?y # zs\<rparr>"
  have t: "fst (ASLDE_SearchOriginalRequest now rid dst src idtf s) = ?t"
    using Some r by (simp add: ASLDE_SearchOriginalRequest_def Let_def w_def s1_def s2_def)
  have b1: "balanced [x] s [x] s1" unfolding s1_def
    by (rule balanced_on_contract) (simp_all add: same_terms_updates in_use_updates)
  have "balanced [x] s1 [?y] s2"
  proof (cases "m_bInSlidingWindow (m_stQueueHdr x)")
    case True
    then show ?thesis using x balanced_release [of w x ?y s1]
      by (simp add: s2_def w_def occupies_def answers_def Let_def)
  qed (auto simp: s2_def occupies_def intro!: balanced_locks)
  from balanced_trans [OF b1 this] have "balanced [x] s [?y] s2" .
  from balanced_seq [OF balanced_seq [OF balanced_refl this] balanced_refl]
  have "balanced (ys @ x # zs) s (ys @ ?y # zs) s2" by simp
  from balanced_trans [OF this balanced_locks [of ?t s2 "ys @ ?y # zs"]]
  have "balanced (g_oAslMsgListTx s) s (g_oAslMsgListTx ?t) ?t" by (simp add: q)
  then show ?thesis unfolding t
    by (rule asl_inv_balanced [OF assms]) (simp_all add: q msg_ok_set_status s1_def s2_def)
qed

lemma search_loop_receive: "search_loop tv xs best s = (ys, best', t) \<Longrightarrow> same_receive s t"
proof (induction xs arbitrary: best s ys best' t)
  case (Cons x xs)
  obtain kept b u where c: "consider_message tv x best s = (kept, b, u)" by (metis surj_pair)
  have "same_receive s u" using c
    by (auto simp: consider_message_def Let_def split: if_splits option.splits prod.splits)
  moreover obtain zs b' v where l: "search_loop tv xs b u = (zs, b', v)" by (metis surj_pair)
  moreover have "t = v" using Cons.prems c l by simp
  ultimately show ?case using Cons.IH [OF l] by (auto intro: same_receive_trans)
qed simp

lemma searchHighest_inv:
  assumes "asl_inv s" and r: "ASLDE_searchHighestPriority tv s = (t, best)"
  shows "asl_inv t"
proof -
  obtain ys b u where l: "search_loop tv (g_oAslMsgListTx s) None s = (ys, b, u)" by (metis surj_pair)
  have t: "t = u\<lparr>g_oAslMsgListTx := ys\<rparr>" using r l by (simp add: ASLDE_searchHighestPriority_def)
  have "balanced ys u ys t" unfolding t by (rule balanced_locks) simp_all
  from balanced_trans [OF search_balanced [OF l] this]
  have "balanced (g_oAslMsgListTx s) s (g_oAslMsgListTx t) t" by (simp add: t)
  then show ?thesis
    by (rule asl_inv_balanced [OF assms(1)]) (simp_all add: t search_ok [OF l] search_loop_receive [OF l])
qed

lemma concat_receive: "same_receive (snd z) (snd (snd (concat_message cid room h now w x z)))"
  by (cases z) (auto simp: concat_message_def Let_def split: prod.splits option.splits)

lemma concatenate_inv:
  assumes "asl_inv s" and w: "fst w = cid" and r: "ASLDE_concatenateAPDUs cid room h now w s = (out, t)"
  shows "asl_inv t"
proof -
  obtain ys b u where l: "map_state (concat_message cid room h now w) (g_oAslMsgListTx s) ([], s) = (ys, b, u)"
    by (metis surj_pair)
  have t: "t = u\<lparr>g_oAslMsgListTx := ys\<rparr>" using r l by (simp add: ASLDE_concatenateAPDUs_def)
  have ok: "list_all (msg_ok (refs_used s)) (g_oAslMsgListTx s)" using assms by (simp add: asl_inv_def)
  have "balanced ys u ys t" unfolding t by (rule balanced_locks) simp_all
  from balanced_trans [OF _ this] concatenation.loop_balanced [OF ok w l]
  have "balanced (g_oAslMsgListTx s) s (g_oAslMsgListTx t) t" by (simp add: t)
  moreover have "same_receive s u"
    using map_state_invariant [of "\<lambda>y z. same_receive (snd y) (snd z)" "concat_message cid room h now w" "([], s)"
        "g_oAslMsgListTx s"] concat_receive same_receive_trans l by (metis same_receive_updates(1) snd_conv)
  ultimately show ?thesis using concatenation.loop_ok [OF ok w l]
    by (intro asl_inv_balanced [OF assms(1)]) (simp_all add: t)
qed

lemma flush_inv:
  assumes "asl_inv s"
  shows "asl_inv (ASLDE_flushAPDUBuffer tv s)"
proof -
  obtain t best where b: "ASLDE_searchHighestPriority tv s = (t, best)" by fastforce
  note t = searchHighest_inv [OF assms b]
  show ?thesis
  proof (cases "\<exists>idtf w c. best = Some (idtf, w) \<and> lock w t = Some c")
    case False
    then show ?thesis using b t by (cases best) (auto simp: ASLDE_flushAPDUBuffer_def split: option.split)
  next
    case True
    then obtain idtf w c where w: "best = Some (idtf, w)" "lock w t = Some c" by blast
    let ?cid = "NLME_CONTRACT_ATTRIBUTES.m_unContractID c"
    have cid: "fst w = ?cid" using asl_invD(1) [OF t w(2)] by simp
    obtain out u where o: "ASLDE_concatenateAPDUs ?cid (int (unat (NLME_CONTRACT_ATTRIBUTES.m_unAssignedMaxNSDUSize c)) - 16)
        (g_ucHandle t) (word_of_int (fst tv)) w t = (out, u)" by fastforce
    note u = concatenate_inv [OF t cid o]
    let ?f = "\<lambda>c. (ASLDE_RecordPacketNextTXTime tv c)\<lparr>m_unPktCount := m_unPktCount c + 1\<rparr>"
    obtain q h where f: "ASLDE_flushAPDUBuffer tv s = on_contract w ?f (u\<lparr>tl_requests := q, g_ucHandle := h\<rparr>)"
      using b w o by (simp add: ASLDE_flushAPDUBuffer_def)
    let ?v = "u\<lparr>tl_requests := q, g_ucHandle := h\<rparr>"
    have "asl_inv ?v" by (rule asl_inv_locks [OF u]) (use u in \<open>simp_all add: asl_inv_def\<close>)
    moreover have "balanced (g_oAslMsgListTx ?v) ?v (g_oAslMsgListTx (on_contract w ?f ?v)) (on_contract w ?f ?v)"
      by (rule balanced_on_contract) (simp_all add: same_terms_updates in_use_updates)
    ultimately show ?thesis unfolding f by (rule asl_inv_balanced) simp_all
  qed
qed

lemma task_inv: "asl_inv s \<Longrightarrow> asl_inv (ASLDE_ASLTask tv s)"
  by (simp add: ASLDE_ASLTask_def flush_inv checkTLConfirms_inv)

lemma object_ok_assign [simp]: "object_ok m (assign_request_id r y) = object_ok m y"
proof (cases y)
  case (Service x)
  then show ?thesis
    by (cases x) (auto simp: object_ok_def ASLSRVC_setReadReqObj_def ASLSRVC_setWriteReqObj_def ASLSRVC_setExecuteReqObj_def
        split: option.splits)
qed simp

lemma find_ref_lock: "find_ref cid s = Some w \<Longrightarrow> lock w s \<noteq> None \<and> fst w = cid"
  by (auto simp: find_ref_def lock_def split: prod.splits)

lemma AddCore_inv:
  assumes inv: "asl_inv s" and y: "object_ok m y" and w: "lock w s = Some c" "fst w = p_unContractID a"
  shows "asl_inv (fst (ASLSRVC_AddGenericObjectEncryptableCore cfg m a y (Some w) s))"
proof -
  define s1 where "s1 = (if request_id y = Some (NLME_CONTRACT_ATTRIBUTES.m_ucReqID c)
    then store_contract w (c\<lparr>NLME_CONTRACT_ATTRIBUTES.m_ucReqID := NLME_CONTRACT_ATTRIBUTES.m_ucReqID c + 1\<rparr>) s else s)"
  have "balanced xs s xs s1" for xs
    by (auto simp: s1_def same_terms_updates balanced_refl intro!: balanced_put [OF w(1)])
  moreover have "g_oAslMsgListTx s1 = g_oAslMsgListTx s" "same_receive s s1" by (simp_all add: s1_def)
  ultimately have s1: "asl_inv s1" by (intro asl_inv_balanced [OF inv]) simp_all
  have "asl_inv (s1\<lparr>g_oAslMsgListTx := g_oAslMsgListTx s1 @
      [\<lparr>m_pWeakContract = w, m_stQueueHdr = queue_header cfg m a y c bs, m_oTxApduData = bs\<rparr>]\<rparr>)"
    (is "asl_inv (s1\<lparr>g_oAslMsgListTx := _ @ [?msg]\<rparr>)") if bs: "object_apdu m y = Some bs" for bs
  proof (rule asl_inv_balanced [OF s1])
    have "occupancy v [?msg] = 0" for v by (simp add: occupies_def queue_header_def Let_def)
    then show "balanced (g_oAslMsgListTx s1) s1 (g_oAslMsgListTx (s1\<lparr>g_oAslMsgListTx := g_oAslMsgListTx s1 @ [?msg]\<rparr>))
        (s1\<lparr>g_oAslMsgListTx := g_oAslMsgListTx s1 @ [?msg]\<rparr>)"
      by (intro balanced_locks) simp_all
    have "snd w < refs_used s1" using asl_invD(2) [OF inv w(1)] by (simp add: s1_def)
    moreover have "unat (word_of_nat (length bs) :: u16) = length bs" "bs \<noteq> []"
      using y bs by (simp_all add: object_ok_def unat_of_nat take_bit_nat_eq_self)
    ultimately have "msg_ok (refs_used s1) ?msg" using w(2) by (simp add: msg_ok_def queue_header_def Let_def)
    then show "list_all (msg_ok (refs_used s1)) (g_oAslMsgListTx (s1\<lparr>g_oAslMsgListTx := g_oAslMsgListTx s1 @ [?msg]\<rparr>))"
      if "list_all (msg_ok (refs_used s1)) (g_oAslMsgListTx s1)"
      using that by simp
  qed simp
  then show ?thesis using inv s1 w(1)
    by (auto simp: ASLSRVC_AddGenericObjectEncryptableCore_def s1_def [symmetric] Let_def split: option.split)
qed

lemma Add_inv:
  assumes "asl_inv s" and "object_ok m y"
  shows "asl_inv (fst (ASLSRVC_AddGenericObjectEncryptable cfg m a y s))"
proof (cases "find_ref (p_unContractID a) s")
  case None
  then show ?thesis using assms by (simp add: ASLSRVC_AddGenericObjectEncryptable_def)
next
  case (Some w)
  then obtain c where "lock w s = Some c" "fst w = p_unContractID a" using find_ref_lock by blast
  then show ?thesis using assms Some by (simp add: ASLSRVC_AddGenericObjectEncryptable_def AddCore_inv)
qed

lemma new_contract_inv:
  assumes inv: "asl_inv s" and n: "find_ref cid s = None" and ok: "contract_ok own cid v"
  shows "asl_inv (s\<lparr>g_stNlme := fst (put_contract own rnd prio incl cid v (g_stNlme s))\<rparr>)" (is "asl_inv ?t")
proof (cases "MAX_CONTRACT_NO \<le> length (m_oContractsMap (g_stNlme s))")
  case True
  then have "?t = s" using n put_contract_eq [OF ok, of rnd prio incl "g_stNlme s"] by (simp add: find_ref_def)
  then show ?thesis using inv by simp
next
  case False
  let ?n = "refs_used s"
  have none: "map_of (m_oContractsMap (g_stNlme s)) cid = None" using n by (simp add: find_ref_def)
  have t: "?t = s\<lparr>g_stNlme := (g_stNlme s)\<lparr>next_ref := ?n + 1,
      m_oContractsMap := AList.update cid (?n, fresh_contract cid v rnd) (m_oContractsMap (g_stNlme s))\<rparr>\<rparr>"
    using False none put_contract_eq [OF ok, of rnd prio incl "g_stNlme s"] by simp
  have r: "refs_used ?t = ?n + 1" by (simp only: t) simp
  have old: "list_all (msg_ok ?n) (g_oAslMsgListTx s)" using inv by (simp add: asl_inv_def)
  have l: "lock w ?t = (if w = (cid, ?n) then Some (fresh_contract cid v rnd) else lock w s)" for w
    unfolding t using none by (cases w) (auto simp: lock_def map_of_AList_update)
  have fresh: "occupancy (cid, ?n) (g_oAslMsgListTx s) = 0"
    using old by (auto simp: occupancy_def filter_empty_conv list_all_iff msg_ok_def occupies_def)
  have "NLME_CONTRACT_ATTRIBUTES.m_unContractID c = fst w \<and> snd w < ?n + 1 \<and> window_ok c
      \<and> (windowed c \<longrightarrow> occupancy w (g_oAslMsgListTx s) \<le> unat (m_nInUseWndSize c))"
    if "lock w ?t = Some c" for w c
  proof (cases "w = (cid, ?n)")
    case True
    then have "c = fresh_contract cid v rnd" using that l by simp
    then show ?thesis using True fresh by (cases v) (simp add: fresh_contract_def window_ok_def)
  next
    case False
    then have "lock w s = Some c" using that l by simp
    then show ?thesis using asl_invD [OF inv, of w c] by simp
  qed
  moreover have "list_all (msg_ok (?n + 1)) (g_oAslMsgListTx s)"
    using old by (auto simp: list_all_iff msg_ok_def)
  ultimately show ?thesis using inv unfolding asl_inv_def r by (simp add: asl_inv_def)
qed

lemma del_contract_inv:
  assumes "asl_inv s"
  shows "asl_inv (s\<lparr>g_stNlme := fst (NLME_DeleteContract cid (g_stNlme s))\<rparr>)" (is "asl_inv ?t")
proof (rule asl_inv_balanced [OF assms])
  have "lock w ?t = (if fst w = cid then None else lock w s)" for w
    by (simp add: lock_def NLME_DeleteContract_def NLME_delContract_def map_of_AList_delete)
  then show "balanced (g_oAslMsgListTx s) s (g_oAslMsgListTx ?t) ?t"
    by (auto simp: balanced_def NLME_DeleteContract_def NLME_delContract_def split: if_splits)
qed (simp_all add: same_receive_def)

lemma asl_step_inv: "asl_step cfg s t \<Longrightarrow> asl_inv s \<Longrightarrow> asl_inv t"
  by (induction rule: asl_step.induct)
     (simp_all add: ASLSRVC_AddGenericObject_def ASLSRVC_AddGenericObjectPlain_def Add_inv task_inv second_inv
       response_inv confirm_inv indication_inv get_inv new_contract_inv del_contract_inv)

lemma init_inv: "m_oContractsMap (g_stNlme s) = [] \<Longrightarrow> asl_inv (ASLDE_Init_queues s)"
  by (simp add: asl_inv_def ASLDE_Init_queues_def lock_def)

lemma asl_reach_inv: "asl_reach cfg s \<Longrightarrow> asl_inv s"
  by (induction rule: asl_reach.induct) (simp_all add: init_inv asl_step_inv)

inductive_simps asl_step_simps: "asl_step cfg s t"

section \<open>A session\<close>

definition sample_config :: asl_config where
  "sample_config = \<lparr>device_is_bbr = False, g_ucDmapMaxRetry = 2, g_ucMaxUAPRetries = 2, g_unDmapRetryTout = 30,
     g_unGEspecialTimeout = 120, m_aucSysMng128BitAddr = replicate 16 1, g_unSysMngContractID = 1,
     g_ucSMLinkTimeoutConf = 60\<rparr>"

definition empty_nlme :: NLME_ATRIBUTES where
  "empty_nlme = \<lparr>m_unFragDatagramTag = 0, m_ucFragReassemblyTimeout = 60, m_ucEnableDefaultRoute = 1,
     m_aDefaultRouteEntry = replicate 16 0, m_oNlmeRoutesMap = [], m_oContractsMap = [], m_oAttMap16toEntry = [],
     m_oAttMap2toEntry = [], m_ucAlertDesc = 0, next_ref = 0, g_nRequestForLinuxBbr = False,
     g_nATT_TR_Changed = False, nlme_alerts = []\<rparr>"

definition start_state :: asl_state where
  "start_state = ASLDE_Init_queues \<lparr>g_oAslMsgListTx = [], g_oAslMsgListRx = [], g_nAslMsgListRxCount = 0, g_astAPDUConf = [],
     g_ucHandle = 0, g_bNativePublish = 0, g_ucSMLinkTimeout = 0, g_ucLinkProbed = 0, g_stNlme = empty_nlme,
     tl_requests = [], data_timeouts = []\<rparr>"

definition sample_args :: ADD_ARGS where
  "sample_args = \<lparr>p_ucPriority = 4, p_ucSrcTSAPID = 2, p_ucDstTSAPID = 3, p_unAppHandler = 77, p_pDstAddr = None,
     p_unContractID = 7, p_ucObeyContractBandwidth = 0, p_ucAllowEncryption = 1, p_ucNoRspExpected = 0,
     p_unAPDULifetime = 20\<rparr>"

definition with_contract :: asl_state where
  "with_contract = start_state\<lparr>g_stNlme := fst (put_contract (replicate 16 9) 5 0 False 7
     (replicate 16 3, 100, 2, - 1, 0) (g_stNlme start_state))\<rparr>"

definition with_request :: asl_state where
  "with_request = fst (ASLSRVC_AddGenericObject sample_config (mem_of [0xAA, 0xBB, 0xCC]) sample_args
     (Service sample_exec) with_contract)"

definition with_sent :: asl_state where
  "with_sent = ASLDE_ASLTask (1000, 0) with_request"

lemma with_request_reach: "asl_reach sample_config with_request"
  unfolding with_request_def with_contract_def
proof (intro asl_reach.step [OF _ add_object] asl_reach.step [OF _ new_contract])
  show "asl_reach sample_config start_state"
    unfolding start_state_def by (rule asl_reach.init) (simp add: empty_nlme_def)
  show "find_ref 7 start_state = None" by (simp add: find_ref_def start_state_def ASLDE_Init_queues_def empty_nlme_def)
  show "contract_ok (replicate 16 9) 7 (replicate 16 3, 100, 2, - 1, 0)" by (simp add: contract_ok_def)
  show "object_ok (mem_of [0xAA, 0xBB, 0xCC]) (Service sample_exec)"
    by (simp add: object_ok_def sample_exec_def EXEC_REQ_SRVC.make_def ASLSRVC_setExecuteReqObj_def codec_defs)
qed

lemma with_sent_reach: "asl_reach sample_config with_sent"
  unfolding with_sent_def by (intro asl_reach.step [OF with_request_reach] task)


lemma with_contract_eq:
  "with_contract = start_state\<lparr>g_stNlme := empty_nlme\<lparr>next_ref := 1,
     m_oContractsMap := [(7, 0, fresh_contract 7 (replicate 16 3, 100, 2, - 1, 0) 5)]\<rparr>\<rparr>"
  by (simp add: with_contract_def put_contract_eq contract_ok_def start_state_def ASLDE_Init_queues_def empty_nlme_def)

definition sample_msg :: CAslTxMsg where
  "sample_msg = \<lparr>m_pWeakContract = (7, 0),
     m_stQueueHdr = queue_header sample_config (mem_of [0xAA, 0xBB, 0xCC]) (sample_args\<lparr>ADD_ARGS.p_ucAllowEncryption := 1\<rparr>)
       (Service (ExecReq (EXEC_REQ_SRVC.make 7 300 5 2 3 0))) (fresh_contract 7 (replicate 16 3, 100, 2, - 1, 0) 5)
       [0x45, 0, 7, 1, 44, 5, 2, 3, 0xAA, 0xBB, 0xCC],
     m_oTxApduData = [0x45, 0, 7, 1, 44, 5, 2, 3, 0xAA, 0xBB, 0xCC]\<rparr>"

lemma with_request_eq:
  "with_request = with_contract\<lparr>g_oAslMsgListTx := [sample_msg], g_stNlme := empty_nlme\<lparr>next_ref := 1,
     m_oContractsMap := [(7, 0, fresh_contract 7 (replicate 16 3, 100, 2, - 1, 0) 6)]\<rparr>\<rparr>"
  by (simp add: with_request_def with_contract_eq ASLSRVC_AddGenericObject_def ASLSRVC_AddGenericObjectEncryptable_def
    ASLSRVC_AddGenericObjectEncryptableCore_def find_ref_def lock_def sample_args_def sample_config_def sample_msg_def
    start_state_def ASLDE_Init_queues_def empty_nlme_def store_contract_def sample_exec_def EXEC_REQ_SRVC.make_def
    ASLSRVC_setExecuteReqObj_def codec_defs queue_header_def fresh_contract_def Let_def mem_bytes_def mem_of_def upt_rec)

lemmas with_sent_steps = with_sent_def ASLDE_ASLTask_def with_request_eq with_contract_eq ASLDE_checkTLConfirms_def
  ASLDE_flushAPDUBuffer_def ASLDE_searchHighestPriority_def ASLDE_concatenateAPDUs_def lock_def empty_nlme_def
  start_state_def ASLDE_Init_queues_def consider_message_def beats_def concat_message_def ASLDE_SlidingWindowAllowsTX_def
  ASLDE_SlidingWindowIncreaseUsage_def on_contract_def store_contract_def sample_msg_def sample_args_def sample_config_def
  queue_header_def fresh_contract_def occupies_def mark_sent_def sent_state_def in_hdr_def
  ASLDE_RecordPacketNextTXTime_def Let_def

lemma with_sent_facts:
  "map_option m_nInUseWndSize (lock (7, 0) with_sent) = Some 1" "occupancy (7, 0) (g_oAslMsgListTx with_sent) = 1"
  by (simp_all add: with_sent_steps)

lemma with_sent_max: "map_option NLME_CONTRACT_ATTRIBUTES.m_ucMaxSendWindow (lock (7, 0) with_sent) = Some 2"
  by (simp add: with_sent_steps)


text \<open>C29:
  The bookkeeping of the queues is exact in every reachable state: the receive counter is the length of
  the receive list (as a 32-bit number), at most five confirmations are pending, and every queued APDU
  has at least one octet and the length its header says, so that copying it stays within its data.
\<close>
theorem queue_bookkeeping:
  assumes "asl_reach cfg s"
  shows "g_nAslMsgListRxCount s = word_of_nat (length (g_oAslMsgListRx s))
    \<and> length (g_astAPDUConf s) \<le> 5
    \<and> list_all (\<lambda>x. m_oTxApduData x \<noteq> [] \<and> unat (m_unAPDULen (m_stQueueHdr x)) = length (m_oTxApduData x))
        (g_oAslMsgListTx s)"
  using asl_reach_inv [OF assms] by (auto simp: asl_inv_def msg_ok_def list_all_iff)

theorem queue_bookkeeping_witness:
  "list_all (\<lambda>x. m_oTxApduData x \<noteq> [] \<and> unat (m_unAPDULen (m_stQueueHdr x)) = length (m_oTxApduData x))
     (g_oAslMsgListTx with_sent) \<and> g_oAslMsgListTx with_sent \<noteq> []"
  using queue_bookkeeping [OF with_sent_reach] with_sent_facts by auto

end
