(* ===== verification/Asl_Progress.thy ===== *)
theory Asl_Progress
  imports Asl_Reach
begin

text \<open>
  Progress of the transmit queue: no message outlives its lifetime, a request that is not answered is
  repeated with growing timeouts and then reported, and the task sends a message of the highest priority
  that may be sent.
\<close>

section \<open>No message stays longer than its lifetime\<close>

definition lives_at_most :: "nat \<Rightarrow> CAslTxMsg \<Rightarrow> bool" where
  "lives_at_most k x \<longleftrightarrow> status_of x = APDU_READY_TO_CLEAR
     \<or> 0 < unat (m_unLifetime (m_stQueueHdr x)) \<and> unat (m_unLifetime (m_stQueueHdr x)) \<le> k"

text \<open>Any operations that add no message, with \<open>n\<close> one-second ticks among them.\<close>

inductive quiet_run :: "asl_config \<Rightarrow> nat \<Rightarrow> asl_state \<Rightarrow> asl_state \<Rightarrow> bool" for cfg where
  start: "quiet_run cfg 0 s s"
| tick: "quiet_run cfg n s t \<Longrightarrow> quiet_run cfg (Suc n) s (ASLDE_OneSecond_queue now t)"
| task: "quiet_run cfg n s t \<Longrightarrow> quiet_run cfg n s (ASLDE_ASLTask tv t)"
| response: "quiet_run cfg n s t \<Longrightarrow> quiet_run cfg n s (fst (ASLDE_SearchOriginalRequest now rid dst src idtf t))"
| confirm: "quiet_run cfg n s t \<Longrightarrow> quiet_run cfg n s (TLDE_DATA_Confirm h sfc t)"
| indication: "quiet_run cfg n s t \<Longrightarrow> quiet_run cfg n s (TLDE_DATA_Indication cfg now addr sp pr bs dp tt tx sec t)"
| get: "quiet_run cfg n s t \<Longrightarrow> quiet_run cfg n s (fst (ASLDE_GetMyAPDUfromBuff sap t))"
| contracts: "quiet_run cfg n s t \<Longrightarrow> quiet_run cfg n s (t\<lparr>g_stNlme := nl\<rparr>)"

lemma lives_set_clear [simp]: "lives_at_most k (set_status APDU_READY_TO_CLEAR x)"
  by (simp add: lives_at_most_def)

lemma lives_in_hdr:
  "lives_at_most k x \<Longrightarrow> m_unLifetime (f (m_stQueueHdr x)) = m_unLifetime (m_stQueueHdr x) \<Longrightarrow>
   (status_of x = APDU_READY_TO_CLEAR \<Longrightarrow> ASL_QUEUE_HDR.m_ucStatus (f (m_stQueueHdr x)) = APDU_READY_TO_CLEAR) \<Longrightarrow>
   lives_at_most k (in_hdr f x)"
  by (auto simp: lives_at_most_def)

lemma retry_lives:
  "status_of x \<noteq> APDU_READY_TO_CLEAR \<Longrightarrow> lives_at_most k x \<Longrightarrow> lives_at_most k (fst (ASLDE_retryMessage x s))"
  by (auto simp: ASLDE_retryMessage_def Let_def intro: lives_in_hdr)

lemma countdown_bound:
  "0 < unat l \<Longrightarrow> unat l \<le> Suc k \<Longrightarrow> l - 1 \<noteq> 0 \<Longrightarrow> 0 < unat (l - 1) \<and> unat (l - 1) \<le> k" for l :: u16
  by (cases "l = 0"; cases "unat l = 1") (auto simp: unat_minus_one word_unat_eq_iff)

lemma tx_second_lives:
  assumes "lives_at_most (Suc k) x"
  shows "lives_at_most k (fst (tx_second x s))"
proof -
  obtain y t where e: "expire_lifetime x s = (y, t)" by fastforce
  have y: "lives_at_most k y" using e assms countdown_bound [of "m_unLifetime (m_stQueueHdr x)" k]
    by (auto simp: expire_lifetime_def Let_def lives_at_most_def split: if_splits)
  show ?thesis
  proof (cases "status_of y = APDU_READY_TO_CLEAR \<or> ready y")
    case False
    then show ?thesis using y retry_lives [of y k t]
      by (auto simp: tx_second_def e Let_def intro: lives_in_hdr)
  qed (use y in \<open>auto simp: tx_second_def e\<close>)
qed

lemma map_state_list_all:
  assumes "\<And>x s. P x \<Longrightarrow> Q (fst (f x s))"
  shows "list_all P xs \<Longrightarrow> list_all Q (fst (map_state f xs s))"
  by (induction xs arbitrary: s) (auto simp: split_def Let_def intro: assms)

lemma lives_mono: "lives_at_most k x \<Longrightarrow> k \<le> l \<Longrightarrow> lives_at_most l x"
  by (auto simp: lives_at_most_def)

lemma tick_lives:
  assumes "list_all (lives_at_most (Suc k)) (g_oAslMsgListTx s)"
  shows "list_all (lives_at_most k) (g_oAslMsgListTx (ASLDE_OneSecond_queue now s))"
    and "k = 0 \<Longrightarrow> g_oAslMsgListTx (ASLDE_OneSecond_queue now s) = []"
proof -
  let ?s = "ASLDE_CheckAPDUTimeoutCountersOnRX now s"
  have "g_oAslMsgListTx ?s = g_oAslMsgListTx s" by (simp add: ASLDE_CheckAPDUTimeoutCountersOnRX_def Let_def)
  then have l: "list_all (lives_at_most k) (g_oAslMsgListTx (ASLDE_CheckAPDUTimeoutCountersOnTX ?s))"
    using map_state_list_all [of "lives_at_most (Suc k)" "lives_at_most k" tx_second, OF tx_second_lives] assms
    by (simp add: ASLDE_CheckAPDUTimeoutCountersOnTX_def split_def Let_def)
  then show "list_all (lives_at_most k) (g_oAslMsgListTx (ASLDE_OneSecond_queue now s))"
    by (simp add: ASLDE_OneSecond_queue_def ASLDE_cleanAPDUBuffer_def list_all_iff)
  show "g_oAslMsgListTx (ASLDE_OneSecond_queue now s) = []" if "k = 0"
    using l that by (auto simp: ASLDE_OneSecond_queue_def ASLDE_cleanAPDUBuffer_def list_all_iff filter_empty_conv lives_at_most_def)
qed

lemma confirm_lives: "lives_at_most k x \<Longrightarrow> list_all (lives_at_most k) (opt_list (confirm_message cnf x))"
  by (auto simp: confirm_message_def set_status_def intro: lives_in_hdr)

lemma confirms_lives:
  "list_all (lives_at_most k) xs \<Longrightarrow> list_all (lives_at_most k) (List.map_filter (confirm_message cnf) xs)"
proof (induction xs)
  case (Cons x xs)
  then show ?case using confirm_lives [of k x cnf] unfolding map_filter_opt list_all_append by simp
qed (simp add: map_filter_simps)

lemma all_confirms_lives:
  "list_all (lives_at_most k) xs \<Longrightarrow>
   list_all (lives_at_most k) (fold (\<lambda>cnf. List.map_filter (confirm_message cnf)) ks xs)"
  by (induction ks arbitrary: xs) (simp_all add: confirms_lives)

lemma consider_lives:
  "consider_message tv x best s = (kept, best', t) \<Longrightarrow> lives_at_most k x \<Longrightarrow> list_all (lives_at_most k) (opt_list kept)"
  by (auto simp: consider_message_def Let_def split: if_splits option.splits prod.splits intro!: lives_in_hdr)

lemma search_lives:
  "search_loop tv xs best s = (ys, best', t) \<Longrightarrow> list_all (lives_at_most k) xs \<Longrightarrow> list_all (lives_at_most k) ys"
proof (induction xs arbitrary: best s ys best' t)
  case (Cons x xs)
  obtain kept b u where c: "consider_message tv x best s = (kept, b, u)" by (metis surj_pair)
  obtain zs b' v where l: "search_loop tv xs b u = (zs, b', v)" by (metis surj_pair)
  have "ys = opt_list kept @ zs" using Cons.prems by (auto simp: c l split: option.splits)
  then show ?case using consider_lives [OF c] Cons.IH [OF l] Cons.prems(2) by simp
qed simp

lemma mark_sent_lives: "ready x \<Longrightarrow> lives_at_most k x \<Longrightarrow> lives_at_most k (mark_sent h now x)"
  by (auto simp: mark_sent_def intro!: lives_in_hdr)

lemma concat_lives: "lives_at_most k x \<Longrightarrow> lives_at_most k (fst (concat_message cid room h now w x z))"
  by (cases z) (auto simp: concat_message_def Let_def split_def mark_sent_lives split: option.splits)

lemma task_lives:
  assumes "list_all (lives_at_most k) (g_oAslMsgListTx s)"
  shows "list_all (lives_at_most k) (g_oAslMsgListTx (ASLDE_ASLTask tv s))"
proof -
  let ?s = "ASLDE_checkTLConfirms s"
  have s: "list_all (lives_at_most k) (g_oAslMsgListTx ?s)"
    using assms by (simp add: ASLDE_checkTLConfirms_def all_confirms_lives)
  obtain ys b u where l: "search_loop tv (g_oAslMsgListTx ?s) None ?s = (ys, b, u)" by (metis surj_pair)
  have ys: "list_all (lives_at_most k) ys" by (rule search_lives [OF l s])
  have "list_all (lives_at_most k) (fst (map_state (concat_message cid room h now w) ys z))" for cid room h now w z
    by (rule map_state_list_all [OF _ ys]) (rule concat_lives)
  then show ?thesis using ys
    by (simp add: ASLDE_ASLTask_def ASLDE_flushAPDUBuffer_def ASLDE_searchHighestPriority_def l
        ASLDE_concatenateAPDUs_def split_def Let_def split: option.split)
qed

lemma response_lives:
  assumes "list_all (lives_at_most k) (g_oAslMsgListTx s)"
  shows "list_all (lives_at_most k) (g_oAslMsgListTx (fst (ASLDE_SearchOriginalRequest now rid dst src idtf s)))"
  using assms by (auto simp: ASLDE_SearchOriginalRequest_def Let_def extract_Some_iff split: option.split)

lemma task_empty: "g_oAslMsgListTx s = [] \<Longrightarrow> g_oAslMsgListTx (ASLDE_ASLTask tv s) = []"
proof -
  have "fold (\<lambda>cnf. List.map_filter (confirm_message cnf)) ks [] = []" for ks
    by (induction ks) (simp_all add: map_filter_simps)
  then show "g_oAslMsgListTx s = [] \<Longrightarrow> ?thesis"
    by (simp add: ASLDE_ASLTask_def ASLDE_flushAPDUBuffer_def ASLDE_searchHighestPriority_def ASLDE_checkTLConfirms_def)
qed

lemma response_empty:
  "g_oAslMsgListTx s = [] \<Longrightarrow> g_oAslMsgListTx (fst (ASLDE_SearchOriginalRequest now rid dst src idtf s)) = []"
  by (simp add: ASLDE_SearchOriginalRequest_def extract_Nil_code)

lemma quiet_run_lives:
  assumes "quiet_run cfg n s t" and "list_all (lives_at_most L) (g_oAslMsgListTx s)"
  shows "list_all (lives_at_most (L - n)) (g_oAslMsgListTx t) \<and> (0 < n \<and> L \<le> n \<longrightarrow> g_oAslMsgListTx t = [])"
  using assms
proof (induction rule: quiet_run.induct)
  case (tick n s t now)
  show ?case
  proof (cases "L \<le> n")
    case True
    then have e: "list_all (lives_at_most (Suc 0)) (g_oAslMsgListTx t)"
      using tick lives_mono by (fastforce simp: list_all_iff)
    show ?thesis using tick_lives [OF e] True by simp
  next
    case False
    then have "list_all (lives_at_most (Suc (L - Suc n))) (g_oAslMsgListTx t)" using tick by (simp add: Suc_diff_Suc)
    from tick_lives [OF this] show ?thesis using False by auto
  qed
qed (auto simp: task_lives response_lives task_empty response_empty TLDE_DATA_Confirm_def TLDE_DATA_Indication_def
    ASLDE_GetMyAPDUfromBuff_def Let_def split: option.split)

lemma quiet_ticks: "quiet_run cfg n s ((ASLDE_OneSecond_queue now ^^ n) s)"
  by (induction n) (auto intro: quiet_run.intros)



section \<open>Retries\<close>

fun retry_times :: "nat \<Rightarrow> CAslTxMsg \<Rightarrow> asl_state \<Rightarrow> CAslTxMsg \<times> asl_state" where
  "retry_times 0 msg s = (msg, s)"
| "retry_times (Suc k) msg s = (let (msg, s) = retry_times k msg s in ASLDE_retryMessage msg s)"

lemma backoff_unat: "unat t \<le> 60 \<Longrightarrow> unat (backoff t) = min 60 (2 * unat t)"
proof -
  assume "unat t \<le> 60"
  then have "unat (t * 2) = 2 * unat t" by (simp add: unat_word_ariths)
  then show ?thesis by (simp add: backoff_def Let_def word_less_nat_alt min_def)
qed

lemma min_double: "min 60 (2 * min 60 x) = min 60 (2 * (x :: nat))"
  by (simp add: min_def)

lemma data_timeouts_updates [simp]:
  "data_timeouts (on_contract w f s) = data_timeouts s" "data_timeouts (store_contract w c s) = data_timeouts s"
  by (simp_all add: on_contract_def store_contract_def split: option.split)

lemma retry_times_facts:
  assumes "k \<le> unat (m_ucRetryNo (m_stQueueHdr msg))" and "unat (m_unDefTimeout (m_stQueueHdr msg)) \<le> 60"
    and "retry_times k msg s = (x, t)"
  shows "unat (m_ucRetryNo (m_stQueueHdr x)) = unat (m_ucRetryNo (m_stQueueHdr msg)) - k
    \<and> unat (m_unDefTimeout (m_stQueueHdr x)) = min 60 (2 ^ k * unat (m_unDefTimeout (m_stQueueHdr msg)))
    \<and> (0 < k \<longrightarrow> m_unTimeout (m_stQueueHdr x) = m_unDefTimeout (m_stQueueHdr x) \<and> status_of x = APDU_READY_TO_SEND_NO_FC)
    \<and> data_timeouts t = data_timeouts s
    \<and> m_unAppHandle (m_stQueueHdr x) = m_unAppHandle (m_stQueueHdr msg)
    \<and> m_ucSrcSAP (m_stQueueHdr x) = m_ucSrcSAP (m_stQueueHdr msg) \<and> m_ucDstSAP (m_stQueueHdr x) = m_ucDstSAP (m_stQueueHdr msg)"
  using assms
proof (induction k arbitrary: x t)
  case 0
  then show ?case by simp
next
  case (Suc k)
  obtain y u where r: "retry_times k msg s = (y, u)" by fastforce
  note IH = Suc.IH [OF _ Suc.prems(2) r]
  have nz: "m_ucRetryNo (m_stQueueHdr y) \<noteq> 0" using IH Suc.prems(1) by auto
  have "unat (m_ucRetryNo (m_stQueueHdr y) - 1) = unat (m_ucRetryNo (m_stQueueHdr y)) - 1" by (rule u8_pred_unat [OF nz])
  moreover have "ASLDE_retryMessage y u = (x, t)" using Suc.prems(3) r by simp
  moreover have "unat (backoff (m_unDefTimeout (m_stQueueHdr y))) = min 60 (2 ^ Suc k * unat (m_unDefTimeout (m_stQueueHdr msg)))"
    using backoff_unat [of "m_unDefTimeout (m_stQueueHdr y)"] IH Suc.prems(1) by (simp add: min_double mult.assoc)
  ultimately show ?case using IH Suc.prems(1) nz by (auto simp: ASLDE_retryMessage_def Let_def)
qed

text \<open>
  A request that is never answered is repeated once for each of its \<open>r\<close> retries, the \<open>k\<close>-th time with
  \<open>2^k\<close> times its first timeout but at most 60 seconds and without a report to the application; when the
  retries are used up it is marked for deletion and its application is told once.
\<close>
lemma retry_then_report:
  assumes "unat (m_ucRetryNo (m_stQueueHdr msg)) = r" and "unat (m_unDefTimeout (m_stQueueHdr msg)) \<le> 60"
  shows "(0 < k \<and> k \<le> r \<longrightarrow>
      unat (m_unTimeout (m_stQueueHdr (fst (retry_times k msg s)))) = min 60 (2 ^ k * unat (m_unDefTimeout (m_stQueueHdr msg)))
      \<and> status_of (fst (retry_times k msg s)) = APDU_READY_TO_SEND_NO_FC
      \<and> data_timeouts (snd (retry_times k msg s)) = data_timeouts s)
    \<and> status_of (fst (retry_times (Suc r) msg s)) = APDU_READY_TO_CLEAR
    \<and> data_timeouts (snd (retry_times (Suc r) msg s)) = data_timeouts s @
          [\<lparr>to_app_handle = m_unAppHandle (m_stQueueHdr msg), to_src = m_ucSrcSAP (m_stQueueHdr msg),
            to_dst = m_ucDstSAP (m_stQueueHdr msg), to_sfc = SFC_TIMEOUT\<rparr>]"
    (is "(_ \<longrightarrow> ?repeats) \<and> ?cleared \<and> ?reported")
proof -
  have "?repeats" if "0 < k \<and> k \<le> r"
    using retry_times_facts [OF _ assms(2), of k s] assms(1) that by (cases "retry_times k msg s") auto
  moreover obtain y u where y: "retry_times r msg s = (y, u)" by fastforce
  note f = retry_times_facts [OF _ assms(2) y]
  have "m_ucRetryNo (m_stQueueHdr y) = 0" using f assms(1) by (simp add: unat_eq_zero)
  then have "?cleared \<and> ?reported"
    using f assms(1) y by (simp add: ASLDE_retryMessage_def UAP_DataTimeout_def Let_def)
  ultimately show ?thesis by blast
qed

theorem retry_then_report_witness:
  "data_timeouts (snd (retry_times 3 sample_msg with_contract)) = data_timeouts with_contract @
     [\<lparr>to_app_handle = 77, to_src = 2, to_dst = 3, to_sfc = SFC_TIMEOUT\<rparr>]
   \<and> unat (m_unTimeout (m_stQueueHdr (fst (retry_times 2 sample_msg with_contract)))) = 12"
proof -
  have h: "unat (m_ucRetryNo (m_stQueueHdr sample_msg)) = 2" "unat (m_unDefTimeout (m_stQueueHdr sample_msg)) = 3"
    "m_unAppHandle (m_stQueueHdr sample_msg) = 77" "m_ucSrcSAP (m_stQueueHdr sample_msg) = 2" "m_ucDstSAP (m_stQueueHdr sample_msg) = 3"
    by (simp_all add: sample_msg_def queue_header_def sample_args_def sample_config_def fresh_contract_def initial_RTO_def Let_def)
  show ?thesis
    using retry_then_report [of sample_msg 2 2 with_contract] h
    by (simp add: numeral_3_eq_3)
qed

end
