(* ===== verification/Asl_Transmit.thy ===== *)
theory Asl_Transmit
  imports Asl_Progress
begin

text \<open>
  What the task hands to the transport layer: a message of the highest priority that may be sent decides
  the contract, and the TSDU is the APDUs of that contract in queue order, within the size the contract
  allows. A response is matched with one request.
\<close>

section \<open>Choosing a message\<close>

text \<open>A message that may be sent now: its contract is there, and window and bandwidth allow it.\<close>

definition sendable :: "int \<times> int \<Rightarrow> asl_state \<Rightarrow> CAslTxMsg \<Rightarrow> bool" where
  "sendable tv s x \<longleftrightarrow> ready x \<and> (case lock (m_pWeakContract x) s of None \<Rightarrow> False
     | Some c \<Rightarrow> (status_of x = APDU_READY_TO_SEND \<longrightarrow> snd (ASLDE_SlidingWindowAllowsTX c))
         \<and> (ASL_QUEUE_HDR.m_ucObeyContractBandwidth (m_stQueueHdr x) \<noteq> 0 \<longrightarrow> ASLDE_BandwidthLimitAllowsTX tv c))"

definition priority :: "CAslTxMsg \<Rightarrow> u8" where
  "priority x = ASL_QUEUE_HDR.m_ucPriorityAndFlags (m_stQueueHdr x) AND 0x0F"

lemma AllowsTX_idem:
  "snd (ASLDE_SlidingWindowAllowsTX (fst (ASLDE_SlidingWindowAllowsTX c))) = snd (ASLDE_SlidingWindowAllowsTX c)"
  "ASLDE_BandwidthLimitAllowsTX tv (fst (ASLDE_SlidingWindowAllowsTX c)) = ASLDE_BandwidthLimitAllowsTX tv c"
  by (auto simp: ASLDE_SlidingWindowAllowsTX_def ASLDE_BandwidthLimitAllowsTX_def Let_def)

text \<open>Looking at a message changes no other message's chance.\<close>

lemma consider_sendable:
  assumes "consider_message tv x best s = (kept, best', t)"
  shows "sendable tv t z = sendable tv s z"
proof (cases "ready x \<and> beats x best")
  case False
  then show ?thesis using assms by (auto simp: consider_message_def Let_def)
next
  case r: True
  show ?thesis
  proof (cases "lock (m_pWeakContract x) s")
    case None
    then have "t = UAP_DataTimeout (m_unAppHandle (m_stQueueHdr x)) (m_ucSrcSAP (m_stQueueHdr x)) (m_ucDstSAP (m_stQueueHdr x)) SFC_NO_CONTRACT s"
      using assms r by (simp add: consider_message_def Let_def)
    then show ?thesis by (simp add: sendable_def)
  next
    case (Some c)
    define d where "d = (if status_of x = APDU_READY_TO_SEND then fst (ASLDE_SlidingWindowAllowsTX c) else c)"
    have "t = store_contract (m_pWeakContract x) d s"
      using assms r Some by (auto simp: consider_message_def Let_def d_def split_def split: if_splits)
    then show ?thesis using Some by (simp add: sendable_def d_def AllowsTX_idem)
  qed
qed

text \<open>The candidate after a message: the message itself if it may be sent and beats the candidate before.\<close>

lemma consider_best:
  assumes "consider_message tv x best s = (kept, best', t)"
  shows "best' = (if sendable tv s x \<and> beats x best then Some (ASLDE_loadIDTF (m_stQueueHdr x), m_pWeakContract x) else best)"
proof (cases "ready x \<and> beats x best")
  case False
  then show ?thesis using assms by (auto simp: consider_message_def Let_def sendable_def)
next
  case r: True
  show ?thesis
  proof (cases "lock (m_pWeakContract x) s")
    case None
    then show ?thesis using assms r by (auto simp: consider_message_def Let_def sendable_def)
  next
    case (Some c)
    then show ?thesis using assms r
      by (cases "status_of x = APDU_READY_TO_SEND")
         (auto simp: consider_message_def Let_def sendable_def split_def AllowsTX_idem split: if_splits)
  qed
qed

text \<open>The choice as a specification over the list.\<close>

fun pick :: "(CAslTxMsg \<Rightarrow> bool) \<Rightarrow> CAslTxMsg option \<Rightarrow> CAslTxMsg list \<Rightarrow> CAslTxMsg option" where
  "pick ok best [] = best"
| "pick ok best (x # xs) =
     pick ok (if ok x \<and> (case best of None \<Rightarrow> True | Some b \<Rightarrow> priority b < priority x) then Some x else best) xs"

abbreviation as_candidate :: "CAslTxMsg option \<Rightarrow> (APDU_IDTF_TX \<times> contract_ref) option" where
  "as_candidate b \<equiv> map_option (\<lambda>x. (ASLDE_loadIDTF (m_stQueueHdr x), m_pWeakContract x)) b"

lemma beats_candidate:
  "beats x (as_candidate b) \<longleftrightarrow> (case b of None \<Rightarrow> True | Some y \<Rightarrow> priority y < priority x)"
  by (cases b) (simp_all add: beats_def priority_def ASLDE_loadIDTF_def)

lemma search_pick:
  "search_loop tv xs (as_candidate b) s = (ys, best', t) \<Longrightarrow>
   best' = as_candidate (pick (sendable tv s) b xs) \<and> sendable tv t = sendable tv s"
proof (induction xs arbitrary: b s ys best' t)
  case (Cons x xs)
  obtain kept b1 u where c: "consider_message tv x (as_candidate b) s = (kept, b1, u)" by (rule prod_cases3)
  obtain zs b2 v where l: "search_loop tv xs b1 u = (zs, b2, v)" by (rule prod_cases3)
  have e: "best' = b2" "t = v" using Cons.prems by (simp_all add: c l)
  have u: "sendable tv u = sendable tv s" using consider_sendable [OF c] by blast
  define b' where "b' = (if sendable tv s x \<and> (case b of None \<Rightarrow> True | Some y \<Rightarrow> priority y < priority x) then Some x else b)"
  have b1: "b1 = as_candidate b'" using consider_best [OF c] unfolding beats_candidate b'_def by simp
  show ?case using Cons.IH [OF l [unfolded b1]] e u by (simp add: b'_def)
qed simp

lemma pick_facts:
  "pick ok b xs = Some x \<Longrightarrow> (b = Some x \<or> x \<in> set xs \<and> ok x)
     \<and> (\<forall>y \<in> set xs. ok y \<longrightarrow> priority y \<le> priority x) \<and> (\<forall>y. b = Some y \<longrightarrow> priority y \<le> priority x)"
  "pick ok b xs = None \<Longrightarrow> b = None \<and> (\<forall>y \<in> set xs. \<not> ok y)"
proof (induction xs arbitrary: b)
  case (Cons z xs)
  { case 1
    show ?case using Cons.IH(1) [OF 1 [simplified pick.simps]]
      by (auto split: if_splits option.splits) }
  { case 2
    show ?case using Cons.IH(2) [OF 2 [simplified pick.simps]]
      by (auto split: if_splits option.splits) }
qed simp_all

text \<open>
  The search finds a message iff some queued message may be sent now, and what it finds belongs to a
  queued message that may be sent and whose priority is the highest among all that may.
\<close>
lemma highest_priority_chosen:
  "case snd (ASLDE_searchHighestPriority tv s) of
     None \<Rightarrow> list_all (\<lambda>y. \<not> sendable tv s y) (g_oAslMsgListTx s)
   | Some (idtf, w) \<Rightarrow> list_ex (\<lambda>x. sendable tv s x \<and> w = m_pWeakContract x \<and> idtf = ASLDE_loadIDTF (m_stQueueHdr x)
       \<and> list_all (\<lambda>y. sendable tv s y \<longrightarrow> priority y \<le> priority x) (g_oAslMsgListTx s)) (g_oAslMsgListTx s)"
proof -
  obtain ys best t where l: "search_loop tv (g_oAslMsgListTx s) (as_candidate None) s = (ys, best, t)" by (rule prod_cases3)
  then have r: "snd (ASLDE_searchHighestPriority tv s) = best" by (simp add: ASLDE_searchHighestPriority_def)
  have b: "best = as_candidate (pick (sendable tv s) None (g_oAslMsgListTx s))" using search_pick [OF l] by blast
  show ?thesis
  proof (cases "pick (sendable tv s) None (g_oAslMsgListTx s)")
    case None
    then show ?thesis using r b pick_facts(2) [OF None] by (simp add: list_all_iff)
  next
    case (Some x)
    then show ?thesis using r b pick_facts(1) [OF Some] by (auto simp: list_all_iff list_ex_iff)
  qed
qed

theorem highest_priority_chosen_witness:
  "case snd (ASLDE_searchHighestPriority (1000, 0) with_request) of None \<Rightarrow> False
   | Some (idtf, w) \<Rightarrow> list_ex (\<lambda>x. sendable (1000, 0) with_request x \<and> w = m_pWeakContract x)
       (g_oAslMsgListTx with_request)"
proof -
  have "sendable (1000, 0) with_request sample_msg" "sample_msg \<in> set (g_oAslMsgListTx with_request)"
    by (simp_all add: sendable_def with_sent_steps ASLDE_BandwidthLimitAllowsTX_def)
  then show ?thesis using highest_priority_chosen [of "(1000, 0)" with_request]
    by (auto simp: list_all_iff list_ex_iff split: option.splits)
qed

section \<open>The TSDU\<close>

abbreviation in_flight :: "CAslTxMsg \<Rightarrow> bool" where
  "in_flight x \<equiv> status_of x = APDU_SENT_WAIT_JUST_TL_CNF \<or> status_of x = APDU_SENT_WAIT_CNF_AND_RESPONSE"

text \<open>The messages that were ready in the list before and are in flight in the list after.\<close>

definition newly_sent :: "CAslTxMsg list \<Rightarrow> CAslTxMsg list \<Rightarrow> CAslTxMsg list" where
  "newly_sent xs ys = map snd (filter (\<lambda>(x, y). ready x \<and> in_flight y) (zip xs ys))"

lemma newly_sent_simps [simp]:
  "newly_sent [] [] = []"
  "newly_sent (x # xs) (y # ys) = (if ready x \<and> in_flight y then [y] else []) @ newly_sent xs ys"
  by (simp_all add: newly_sent_def)

lemma mark_sent_facts [simp]:
  "in_flight (mark_sent h now x)" "m_oTxApduData (mark_sent h now x) = m_oTxApduData x"
  "m_ucConcatHandle (m_stQueueHdr (mark_sent h now x)) = h" "m_nContractId (m_stQueueHdr (mark_sent h now x)) = m_nContractId (m_stQueueHdr x)"
  by (simp_all add: mark_sent_def sent_state_def Let_def)

lemma concat_message_out:
  assumes "msg_ok n x" and "concat_message cid room h now w x (out, s) = (y, out', t)"
  shows "out' = out @ (if ready x \<and> in_flight y then m_oTxApduData y else [])
    \<and> (ready x \<and> in_flight y \<longrightarrow> m_ucConcatHandle (m_stQueueHdr y) = h \<and> m_nContractId (m_stQueueHdr y) = cid
        \<and> int (length out') \<le> room)"
proof -
  have "out' = out @ m_oTxApduData y \<and> y = mark_sent h now x \<and> ready x \<and> m_nContractId (m_stQueueHdr x) = cid
          \<and> int (length out') \<le> room
      \<or> out' = out \<and> (y = x \<or> y = set_status APDU_READY_TO_CLEAR x)"
    using assms by (auto simp: concat_message_def Let_def msg_ok_def split: if_splits prod.splits)
  then consider (sent) "out' = out @ m_oTxApduData y" "y = mark_sent h now x" "ready x"
      "m_nContractId (m_stQueueHdr x) = cid" "int (length out') \<le> room"
    | (kept) "out' = out" "y = x" | (dropped) "out' = out" "y = set_status APDU_READY_TO_CLEAR x"
    by blast
  then show ?thesis
  proof cases
    case sent
    then show ?thesis by auto
  next
    case kept
    then show ?thesis by auto
  next
    case dropped
    then show ?thesis by simp
  qed
qed

lemma concat_loop_out:
  assumes "list_all (msg_ok n) xs" and "map_state (concat_message cid room h now w) xs (out, s) = (ys, out', t)"
  shows "out' = out @ concat (map m_oTxApduData (newly_sent xs ys))
    \<and> list_all (\<lambda>y. m_ucConcatHandle (m_stQueueHdr y) = h \<and> m_nContractId (m_stQueueHdr y) = cid) (newly_sent xs ys)
    \<and> int (length out') \<le> max room (int (length out))"
  using assms
proof (induction xs arbitrary: out s ys out' t)
  case (Cons x xs)
  obtain y o1 u where c: "concat_message cid room h now w x (out, s) = (y, o1, u)" by (rule prod_cases3)
  obtain zs o2 v where m: "map_state (concat_message cid room h now w) xs (o1, u) = (zs, o2, v)" by (rule prod_cases3)
  have e: "ys = y # zs" "out' = o2" using Cons.prems(2) c m by simp_all
  have x: "msg_ok n x" and xs: "list_all (msg_ok n) xs" using Cons.prems(1) by simp_all
  show ?case using concat_message_out [OF x c] Cons.IH [OF xs m] by (auto simp: e)
qed simp

lemma room_bound: "int k \<le> max (int n - 16) 0 \<Longrightarrow> k \<le> n - 16"
  by auto

lemma concatenate_out:
  assumes "asl_inv s" and "ASLDE_concatenateAPDUs cid room h now w s = (out, t)"
  shows "out = concat (map m_oTxApduData (newly_sent (g_oAslMsgListTx s) (g_oAslMsgListTx t)))
    \<and> list_all (\<lambda>y. m_ucConcatHandle (m_stQueueHdr y) = h \<and> m_nContractId (m_stQueueHdr y) = cid)
        (newly_sent (g_oAslMsgListTx s) (g_oAslMsgListTx t))
    \<and> int (length out) \<le> max room 0"
proof -
  obtain ys b u where l: "map_state (concat_message cid room h now w) (g_oAslMsgListTx s) ([], s) = (ys, b, u)"
    by (rule prod_cases3)
  have "out = b" "g_oAslMsgListTx t = ys" using assms(2) l by (auto simp: ASLDE_concatenateAPDUs_def)
  moreover have "list_all (msg_ok (refs_used s)) (g_oAslMsgListTx s)" using assms(1) by (simp add: asl_inv_def)
  ultimately show ?thesis using concat_loop_out [OF _ l] by auto
qed

text \<open>Neither loop touches the requests already handed over or the handle.\<close>

definition same_requests :: "asl_state \<Rightarrow> asl_state \<Rightarrow> bool" where
  "same_requests s t \<longleftrightarrow> tl_requests t = tl_requests s \<and> g_ucHandle t = g_ucHandle s"

lemma same_requests_updates [simp]:
  "same_requests s s" "same_requests s (store_contract w c t) = same_requests s t"
  "same_requests s (on_contract w f t) = same_requests s t"
  "same_requests s (UAP_DataTimeout x1 x2 x3 x4 t) = same_requests s t"
  "same_requests s (t\<lparr>g_oAslMsgListTx := q\<rparr>) = same_requests s t"
  by (simp_all add: same_requests_def store_contract_def on_contract_def UAP_DataTimeout_def split: option.split)

lemma same_requests_trans: "same_requests s t \<Longrightarrow> same_requests t u \<Longrightarrow> same_requests s u"
  by (simp add: same_requests_def)

lemma search_loop_requests: "search_loop tv xs best s = (ys, best', t) \<Longrightarrow> same_requests s t"
proof (induction xs arbitrary: best s ys best' t)
  case (Cons x xs)
  obtain kept b u where c: "consider_message tv x best s = (kept, b, u)" by (rule prod_cases3)
  obtain zs b' v where l: "search_loop tv xs b u = (zs, b', v)" by (rule prod_cases3)
  have "same_requests s u" using c
    by (auto simp: consider_message_def Let_def split: if_splits option.splits prod.splits)
  moreover have "t = v" using Cons.prems c l by simp
  ultimately show ?case using Cons.IH [OF l] by (auto intro: same_requests_trans)
qed simp

lemma concat_requests: "same_requests (snd z) (snd (snd (concat_message cid room h now w x z)))"
  by (cases z) (auto simp: concat_message_def Let_def split: prod.splits option.splits)

lemma concatenate_requests:
  assumes "ASLDE_concatenateAPDUs cid room h now w s = (out, t)"
  shows "same_requests s t"
proof -
  let ?l = "map_state (concat_message cid room h now w) (g_oAslMsgListTx s) ([], s)"
  have "same_requests s (snd (snd ?l))"
    using map_state_invariant [of "\<lambda>y z. same_requests (snd y) (snd z)" "concat_message cid room h now w" "([], s)"]
      concat_requests same_requests_trans by fastforce
  then show ?thesis using assms by (auto simp: ASLDE_concatenateAPDUs_def split_def Let_def)
qed

text \<open>C8:
  One run of the sending function hands the transport layer nothing or one TSDU. The TSDU is the
  concatenation, in queue order, of the APDUs of exactly the messages that go from ready to sent; they
  carry the handle of the request and the identifier of its contract; and the TSDU is at most the
  contract's maximum NSDU size less the 16 octets of the transport and security headers and the MIC.
\<close>
theorem tsdu_is_concatenation:
  fixes tv :: "int \<times> int"
  assumes "asl_reach cfg s"
  defines "u \<equiv> fst (ASLDE_searchHighestPriority tv s)" and "t \<equiv> ASLDE_flushAPDUBuffer tv s"
  shows "tl_requests t = tl_requests s \<and> g_ucHandle t = g_ucHandle s \<or>
    (\<exists>rq c. tl_requests t = tl_requests s @ [rq] \<and> g_ucHandle t = g_ucHandle s + 1 \<and> rq_handle rq = g_ucHandle s
       \<and> lock (rq_contract rq) u = Some c
       \<and> rq_data rq = concat (map m_oTxApduData (newly_sent (g_oAslMsgListTx u) (g_oAslMsgListTx t)))
       \<and> list_all (\<lambda>y. m_ucConcatHandle (m_stQueueHdr y) = rq_handle rq \<and> m_nContractId (m_stQueueHdr y) = fst (rq_contract rq))
           (newly_sent (g_oAslMsgListTx u) (g_oAslMsgListTx t))
       \<and> length (rq_data rq) \<le> unat (NLME_CONTRACT_ATTRIBUTES.m_unAssignedMaxNSDUSize c) - 16)"
proof -
  obtain best where b: "ASLDE_searchHighestPriority tv s = (u, best)" by (cases "ASLDE_searchHighestPriority tv s") (simp add: u_def)
  have u: "asl_inv u" by (rule searchHighest_inv [OF asl_reach_inv [OF assms(1)] b])
  obtain ys b' v where l: "search_loop tv (g_oAslMsgListTx s) None s = (ys, b', v)" by (rule prod_cases3)
  have su: "same_requests s u" using search_loop_requests [OF l] b l by (auto simp: ASLDE_searchHighestPriority_def)
  show ?thesis
  proof (cases "\<exists>idtf w c. best = Some (idtf, w) \<and> lock w u = Some c")
    case False
    then have "t = u" using b by (cases best) (auto simp: t_def ASLDE_flushAPDUBuffer_def split: option.split)
    then show ?thesis using su by (simp add: same_requests_def)
  next
    case True
    then obtain idtf w c where w: "best = Some (idtf, w)" "lock w u = Some c" by blast
    let ?cid = "NLME_CONTRACT_ATTRIBUTES.m_unContractID c"
    obtain out v where o: "ASLDE_concatenateAPDUs ?cid (int (unat (NLME_CONTRACT_ATTRIBUTES.m_unAssignedMaxNSDUSize c)) - 16)
        (g_ucHandle u) (word_of_int (fst tv)) w u = (out, v)" by fastforce
    note uv = concatenate_requests [OF o]
    note out = concatenate_out [OF u o]
    have size: "length out \<le> unat (NLME_CONTRACT_ATTRIBUTES.m_unAssignedMaxNSDUSize c) - 16" using out by (intro room_bound) blast
    define rq where "rq = \<lparr>rq_contract = w, rq_priority = APDU_IDTF_TX.m_ucPriorityAndFlags idtf, rq_data = out,
      rq_handle = g_ucHandle v, rq_src = APDU_IDTF_TX.m_ucSrcTSAPID idtf, rq_dst = APDU_IDTF_TX.m_ucDstTSAPID idtf,
      rq_encrypt = APDU_IDTF_TX.m_ucAllowEncryption idtf\<rparr>"
    have rq: "rq_contract rq = w" "rq_data rq = out" "rq_handle rq = g_ucHandle v" by (simp_all add: rq_def)
    have t: "t = on_contract w (\<lambda>c. (ASLDE_RecordPacketNextTXTime tv c)\<lparr>m_unPktCount := m_unPktCount c + 1\<rparr>)
        (v\<lparr>tl_requests := tl_requests v @ [rq], g_ucHandle := g_ucHandle v + 1\<rparr>)"
      using b w o by (simp add: t_def ASLDE_flushAPDUBuffer_def rq_def)
    have tx: "g_oAslMsgListTx t = g_oAslMsgListTx v" by (simp add: t)
    have rqs: "tl_requests t = tl_requests s @ [rq]" "g_ucHandle t = g_ucHandle s + 1" "rq_handle rq = g_ucHandle s"
      "g_ucHandle u = g_ucHandle s"
      using su uv rq by (auto simp: t same_requests_def on_contract_def store_contract_def split: option.split)
    show ?thesis
      using rqs out size w(2) rq(1,2) asl_invD(1) [OF u w(2)] tx by (intro disjI2 exI [of _ rq] exI [of _ c]) simp
  qed
qed

theorem tsdu_is_concatenation_witness:
  "\<exists>rq. tl_requests (ASLDE_flushAPDUBuffer (1000, 0) with_request) = [rq] \<and> length (rq_data rq) \<le> 84"
proof -
  have "tl_requests (ASLDE_flushAPDUBuffer (1000, 0) with_request) \<noteq> tl_requests with_request" "tl_requests with_request = []"
    by (simp_all add: with_sent_steps)
  moreover have "NLME_CONTRACT_ATTRIBUTES.m_unAssignedMaxNSDUSize c = 100"
    if "lock w (fst (ASLDE_searchHighestPriority (1000, 0) with_request)) = Some c" for w c
    using that by (auto simp: with_sent_steps split: if_splits)
  ultimately show ?thesis using tsdu_is_concatenation [OF with_request_reach, of "(1000, 0)"] by fastforce
qed

section \<open>One response, one request\<close>

lemma same_terms_dest:
  "same_terms c d \<Longrightarrow> NLME_CONTRACT_ATTRIBUTES.m_aDestAddress d = NLME_CONTRACT_ATTRIBUTES.m_aDestAddress c"
  by (simp add: same_terms_def)

lemma answers_after_update:
  assumes "\<And>c. same_terms c (f c)"
  shows "answers rid dst src idtf (on_contract w f s) x = answers rid dst src idtf s x"
  using same_terms_dest [OF assms]
  by (auto simp: answers_def Let_def lock_on_contract split: option.splits)

text \<open>
  A response is matched with the first queued request that it answers, and that request no longer
  answers to it: of the requests that match, exactly one is taken by each response, so that a duplicate
  of the response is not matched with it again. If none matches nothing changes.
\<close>
lemma response_matches_once:
  fixes now :: u32
  assumes "ASLDE_SearchOriginalRequest now rid dst src idtf s = (t, r)"
  defines "a \<equiv> \<lambda>s. filter (answers rid dst src idtf s) (g_oAslMsgListTx s)"
  shows "(r = None \<longleftrightarrow> a s = []) \<and> (r = None \<longrightarrow> t = s)
    \<and> (r \<noteq> None \<longrightarrow> a t = tl (a s) \<and> fst (the r) = m_oTxApduData (hd (a s)))"
proof (cases "List.extract (answers rid dst src idtf s) (g_oAslMsgListTx s)")
  case None
  then have "t = s" "r = None" using assms(1) by (simp_all add: ASLDE_SearchOriginalRequest_def)
  then show ?thesis using None by (simp add: a_def extract_None_iff filter_empty_conv)
next
  case (Some e)
  obtain ys x zs where e: "e = (ys, x, zs)" by (cases e)
  let ?a = "answers rid dst src idtf"
  have q: "g_oAslMsgListTx s = ys @ x # zs" "?a s x" "filter (?a s) ys = []"
    using Some e by (auto simp: extract_Some_iff filter_empty_conv)
  have "?a (s\<lparr>g_oAslMsgListTx := q\<rparr>) = ?a s" for s q by (simp add: answers_def fun_eq_iff)
  then have "?a t = ?a s" "g_oAslMsgListTx t = ys @ set_status APDU_READY_TO_CLEAR x # zs"
    "r = Some (m_oTxApduData x, m_unAPDULen (m_stQueueHdr x), m_unAppHandle (m_stQueueHdr x))"
    using assms(1) Some e
    by (auto simp: ASLDE_SearchOriginalRequest_def Let_def fun_eq_iff answers_after_update same_terms_updates split: if_splits)
  moreover have "\<not> ?a s (set_status APDU_READY_TO_CLEAR x)" by (simp add: answers_def Let_def)
  ultimately show ?thesis using q by (simp add: a_def)
qed

definition sample_answer :: APDU_IDTF where
  "sample_answer = \<lparr>m_aucAddr = replicate 16 3, m_ucSrcTSAPID = 3, m_ucDstTSAPID = 2, m_ucPriorityAndFlags = 0,
     m_ucTransportTime = 0, m_ucSecurityCtrl = 0, m_unDataLen = 5, m_tvTxTime = (0, 0)\<rparr>"

theorem response_matches_once_witness:
  "\<exists>t r. ASLDE_SearchOriginalRequest 1002 5 300 7 sample_answer with_sent = (t, Some r)
     \<and> filter (answers 5 300 7 sample_answer t) (g_oAslMsgListTx t) = []"
proof -
  obtain t r where e: "ASLDE_SearchOriginalRequest 1002 5 300 7 sample_answer with_sent = (t, r)" by fastforce
  have "length (filter (answers 5 300 7 sample_answer with_sent) (g_oAslMsgListTx with_sent)) = 1"
    by (simp add: with_sent_steps answers_def sample_answer_def EXEC_REQ_SRVC.make_def)
  then show ?thesis using response_matches_once [OF e] e by (cases r) (auto simp: length_Suc_conv)
qed

section \<open>A window slot that is not given back\<close>

text \<open>
  When the transport layer confirms an outstanding request with \<^verbatim>\<open>SFC_NO_CONTRACT\<close>, the message
  is erased from the queue, but its contract goes on counting it in the sliding window: the slot
  is not given back.
\<close>
lemma no_contract_confirm_leaks_slot:
  "g_oAslMsgListTx (ASLDE_checkTLConfirms (TLDE_DATA_Confirm 0 SFC_NO_CONTRACT with_sent)) = [] \<and>
   map_option m_nInUseWndSize (lock (7, 0) (ASLDE_checkTLConfirms (TLDE_DATA_Confirm 0 SFC_NO_CONTRACT with_sent))) = Some 1"
  by (simp add: with_sent_steps TLDE_DATA_Confirm_def confirm_message_def map_filter_simps)

end
