(* ===== verification/Ccm.thy ===== *)
theory Ccm
  imports Isa_Prelude "HOL-Library.Monad_Syntax"
begin

text \<open>
  Counter mode with CBC-MAC (\<^verbatim>\<open>Ccm.cpp\<close>, \<^verbatim>\<open>Ccm.h\<close>) and the wrappers the security and
  transport layers call (\<^verbatim>\<open>porting.cpp\<close>). The class is a record, the heap-allocated work buffer a
  list of the size the code allocates, and a write outside it is \<open>None\<close>; sizes and indices keep their
  16 bits. The AES block function is the parameter \<open>E\<close>: \<open>E key b i\<close> is octet \<open>i\<close> of the encrypted block,
  so that \<open>rijndaelKeySetupEnc\<close> and \<open>rijndaelEncrypt\<close> together are \<open>E key\<close>. Nothing is assumed of it.

  The reference definitions at the end of the model are those of RFC 3610; the theorems show that the
  buffer manipulation of the class computes them, that decryption accepts exactly what encryption
  produces, and when the 16-bit buffer size is too small.
\<close>

type_synonym aes = "u8 list \<Rightarrow> u8 list \<Rightarrow> nat \<Rightarrow> u8"

section \<open>The class\<close>

record Ccm =
  m_rguiT :: "u8 list"
  m_rguiU :: "u8 list"
  m_puiKey :: "u8 list"
  m_puiNonce :: mem
  m_prguiWorkBuf :: "u8 list"
  m_uiWorkBufSz :: u16
  m_uiWorkBufIdx :: u16
  m_uiAuthFldSz :: u16
  m_uiLenFldSz :: u16
  m_uiNonceSz :: u16
  m_uiMsgOffset :: u16

definition rijndaelEncrypt :: "aes \<Rightarrow> u8 list \<Rightarrow> u8 list \<Rightarrow> u8 list" where
  "rijndaelEncrypt E key b = map (E key b) [0..<16]"

definition ROUND_UP_TO_MUL_16 :: "nat \<Rightarrow> nat" where
  "ROUND_UP_TO_MUL_16 n = n + (16 - n mod 16) mod 16"

text \<open>\<^verbatim>\<open>Ccm::Ccm\<close>; the two blocks are not initialised by the constructor, zero stands for their content.\<close>

definition Ccm_init :: Ccm where
  "Ccm_init = \<lparr>m_rguiT = replicate 16 0, m_rguiU = replicate 16 0, m_puiKey = [], m_puiNonce = (\<lambda>_. 0),
     m_prguiWorkBuf = [], m_uiWorkBufSz = 0, m_uiWorkBufIdx = 0, m_uiAuthFldSz = 0, m_uiLenFldSz = 0,
     m_uiNonceSz = 0, m_uiMsgOffset = 0\<rparr>"

definition SetAuthenFldSz :: "u16 \<Rightarrow> Ccm \<Rightarrow> Ccm" where
  "SetAuthenFldSz p_authFldSz c =
     (if p_authFldSz \<le> 16 \<and> (p_authFldSz = 0 \<or> 4 \<le> p_authFldSz) then c\<lparr>m_uiAuthFldSz := p_authFldSz\<rparr> else c)"

definition SetLenFldSz :: "u16 \<Rightarrow> Ccm \<Rightarrow> Ccm" where
  "SetLenFldSz p_lenFldSz c = c\<lparr>m_uiLenFldSz := p_lenFldSz\<rparr>"

text \<open>A \<^verbatim>\<open>memcpy\<close> into the work buffer.\<close>

definition put :: "u16 \<Rightarrow> u8 list \<Rightarrow> Ccm \<Rightarrow> Ccm option" where
  "put i bs c = (let buf = m_prguiWorkBuf c; k = unat i in
     if k + length bs \<le> length buf
     then Some (c\<lparr>m_prguiWorkBuf := take k buf @ bs @ drop (k + length bs) buf\<rparr>) else None)"

text \<open>\<^verbatim>\<open>m_prguiWorkBuf + m_uiWorkBufIdx\<close> receives the octets and the index moves behind them.\<close>

definition push :: "u8 list \<Rightarrow> Ccm \<Rightarrow> Ccm option" where
  "push bs c = map_option (\<lambda>c. c\<lparr>m_uiWorkBufIdx := m_uiWorkBufIdx c + of_nat (length bs)\<rparr>)
     (put (m_uiWorkBufIdx c) bs c)"

definition be16 :: "u16 \<Rightarrow> u8 list" where
  "be16 w = [ucast (drop_bit 8 w), ucast (w AND 0xFF)]"

definition pushBlock0 :: "u16 \<Rightarrow> u16 \<Rightarrow> Ccm \<Rightarrow> Ccm option" where
  "pushBlock0 p_aadSz p_msgSz c =
     (let c = c\<lparr>m_uiWorkBufIdx := 0\<rparr>;
          adata = (if p_aadSz \<noteq> 0 then 64 else 0);
          flags = (if m_uiAuthFldSz c \<noteq> 0 then adata + 4 * (m_uiAuthFldSz c - 2) + (m_uiLenFldSz c - 1)
                   else adata + (m_uiLenFldSz c - 1)) in
      push [ucast flags] c \<bind> push (mem_bytes (m_puiNonce c) 0 (unat (m_uiNonceSz c))) \<bind> push (be16 p_msgSz))"

definition round_index :: "Ccm \<Rightarrow> Ccm" where
  "round_index c = c\<lparr>m_uiWorkBufIdx := of_nat (ROUND_UP_TO_MUL_16 (unat (m_uiWorkBufIdx c)))\<rparr>"

definition pushAad :: "mem \<Rightarrow> u16 \<Rightarrow> Ccm \<Rightarrow> Ccm option" where
  "pushAad p_aad p_aadSz c = (if p_aadSz = 0 then Some c else
     map_option round_index (push (be16 p_aadSz) c \<bind> push (mem_bytes p_aad 0 (unat p_aadSz))))"

definition pushMsg :: "mem \<Rightarrow> u16 \<Rightarrow> Ccm \<Rightarrow> Ccm option" where
  "pushMsg p_msg p_msgSz c = (if p_msgSz = 0 then Some c else
     map_option round_index (push (mem_bytes p_msg 0 (unat p_msgSz)) c))"

section \<open>CBC-MAC and counter mode\<close>

definition xor_bytes :: "u8 list \<Rightarrow> u8 list \<Rightarrow> u8 list" where
  "xor_bytes xs ys = map2 (XOR) xs ys"

text \<open>
  The loop of \<^verbatim>\<open>Ccm::cbcMac\<close>. \<^verbatim>\<open>m_uiWorkBufSz\<close> is a multiple of 16 below \<open>2^16\<close>, so that the 16-bit
  iterator reaches it without wrap-around.
\<close>

function cbc_loop :: "aes \<Rightarrow> u8 list \<Rightarrow> u8 list \<Rightarrow> nat \<Rightarrow> nat \<Rightarrow> u8 list \<Rightarrow> u8 list" where
  "cbc_loop E key buf sz blk_it X_1 =
     (if blk_it < sz
      then cbc_loop E key buf sz (blk_it + 16) (rijndaelEncrypt E key (xor_bytes X_1 (take 16 (drop blk_it buf))))
      else X_1)"
  by auto
termination by (relation "measure (\<lambda>(E, key, buf, sz, blk_it, X_1). sz - blk_it)") auto

declare cbc_loop.simps [simp del]

definition cbcMac :: "aes \<Rightarrow> Ccm \<Rightarrow> Ccm" where
  "cbcMac E c = c\<lparr>m_rguiT := cbc_loop E (m_puiKey c) (m_prguiWorkBuf c) (unat (m_uiWorkBufSz c)) 16
     (rijndaelEncrypt E (m_puiKey c) (take 16 (m_prguiWorkBuf c)))\<rparr>"

text \<open>The inner loop of \<^verbatim>\<open>Ccm::saltCtr\<close>: \<open>S\<close> is xored into the buffer up to \<open>msgEnd\<close>.\<close>

fun salt_block :: "nat \<Rightarrow> u8 list \<Rightarrow> nat \<Rightarrow> u8 list \<Rightarrow> (nat \<times> u8 list) option" where
  "salt_block msgEnd [] msgIdx buf = Some (msgIdx, buf)"
| "salt_block msgEnd (s # S) msgIdx buf =
     (if msgIdx < msgEnd
      then if msgIdx < length buf then salt_block msgEnd S (Suc msgIdx) (buf[msgIdx := buf ! msgIdx XOR s]) else None
      else Some (msgIdx, buf))"

lemma salt_block_index:
  "salt_block msgEnd S msgIdx buf = Some (j, buf') \<Longrightarrow> msgIdx \<le> msgEnd \<Longrightarrow> j = min msgEnd (msgIdx + length S)"
proof (induction S arbitrary: msgIdx buf)
  case (Cons s S)
  show ?case
    using Cons.IH [of "Suc msgIdx" "buf[msgIdx := buf ! msgIdx XOR s]"] Cons.prems by (auto split: if_splits)
qed simp

text \<open>
  The outer loop. The index is kept as a number: the buffer has fewer than \<open>2^16\<close> octets and a step outside
  it ends the loop, so that the 16-bit index of the code never wraps.
\<close>

definition set_counter :: "u16 \<Rightarrow> u8 list \<Rightarrow> u8 list" where
  "set_counter s_blk A = A[14 := ucast (drop_bit 8 s_blk), 15 := ucast (s_blk AND 0xFF)]"

function salt_loop :: "aes \<Rightarrow> u8 list \<Rightarrow> u8 list \<Rightarrow> nat \<Rightarrow> u16 \<Rightarrow> nat \<Rightarrow> u8 list \<Rightarrow> u8 list option" where
  "salt_loop E key A msgEnd s_blk msgIdx buf =
     (if msgIdx < msgEnd
      then let s_blk = s_blk + 1;
               A = set_counter s_blk A in
           case salt_block msgEnd (rijndaelEncrypt E key A) msgIdx buf of
             None \<Rightarrow> None
           | Some (msgIdx, buf) \<Rightarrow> salt_loop E key A msgEnd s_blk msgIdx buf
      else Some buf)"
  by auto
termination
  by (relation "measure (\<lambda>(E, key, A, msgEnd, s_blk, msgIdx, buf). msgEnd - msgIdx)")
    (auto simp: rijndaelEncrypt_def dest!: salt_block_index)

declare salt_loop.simps [simp del]

text \<open>
  The counter block \<open>A\<close>. Octets that a shorter nonce would leave uninitialised are zero; the stack sets a
  length field of 2, for which the nonce fills the block.
\<close>

definition counter_block :: "Ccm \<Rightarrow> u8 list" where
  "counter_block c = (take 16 (ucast (m_uiLenFldSz c - 1) # mem_bytes (m_puiNonce c) 0 (unat (m_uiNonceSz c))
     @ replicate 16 0))[14 := 0, 15 := 0]"

definition saltCtr :: "aes \<Rightarrow> u16 \<Rightarrow> Ccm \<Rightarrow> Ccm option" where
  "saltCtr E p_msgSz c =
     (let A = counter_block c;
          c = c\<lparr>m_rguiU := xor_bytes (m_rguiT c) (rijndaelEncrypt E (m_puiKey c) A)\<rparr> in
      if p_msgSz = 0 then Some c
      else map_option (\<lambda>buf. c\<lparr>m_prguiWorkBuf := buf\<rparr>)
        (salt_loop E (m_puiKey c) A (unat (m_uiMsgOffset c) + unat p_msgSz) 0 (unat (m_uiMsgOffset c)) (m_prguiWorkBuf c)))"

section \<open>Encryption and decryption\<close>

text \<open>Sizes, key and nonce as both entry points set them, and the zeroed work buffer.\<close>

definition prepare :: "u8 list \<Rightarrow> mem \<Rightarrow> u16 \<Rightarrow> u16 \<Rightarrow> Ccm \<Rightarrow> Ccm" where
  "prepare p_key p_nonce p_aadSz p_msgSz c =
     (let offset = of_nat (16 + ROUND_UP_TO_MUL_16 (if p_aadSz \<noteq> 0 then 2 + unat p_aadSz else 0));
          sz = of_nat (unat offset + ROUND_UP_TO_MUL_16 (unat p_msgSz)) in
      c\<lparr>m_uiNonceSz := 15 - m_uiLenFldSz c, m_puiKey := p_key, m_puiNonce := p_nonce,
        m_uiMsgOffset := offset, m_uiWorkBufSz := sz, m_prguiWorkBuf := replicate (unat sz) 0\<rparr>)"

text \<open>
  A pointer argument is the memory from its address on, or \<open>None\<close> for \<^verbatim>\<open>NULL\<close>. The result holds the object,
  the octets written to \<^verbatim>\<open>p_out\<close> and the return value; \<open>None\<close> is a write outside the work buffer.
\<close>

definition AuthEncrypt :: "aes \<Rightarrow> u8 list \<Rightarrow> mem \<Rightarrow> mem option \<Rightarrow> u16 \<Rightarrow> mem option \<Rightarrow> u16 \<Rightarrow> Ccm
    \<Rightarrow> (Ccm \<times> u8 list \<times> u16) option" where
  "AuthEncrypt E p_key p_nonce p_aad p_aadSz p_msg p_msgSz c =
     (if \<not> (m_uiLenFldSz c \<noteq> 0 \<and> (p_aad \<noteq> None \<and> p_aadSz \<noteq> 0 \<or> p_aadSz = 0) \<and>
            (p_msg \<noteq> None \<and> p_msgSz \<noteq> 0 \<or> p_msgSz = 0) \<and> p_aadSz < 0xFF00)
      then Some (c, [], 0)
      else do {
        c \<leftarrow> pushBlock0 p_aadSz p_msgSz (prepare p_key p_nonce p_aadSz p_msgSz c);
        c \<leftarrow> pushAad (the p_aad) p_aadSz c;
        c \<leftarrow> pushMsg (the p_msg) p_msgSz c;
        c \<leftarrow> saltCtr E p_msgSz (cbcMac E c);
        Some (c\<lparr>m_prguiWorkBuf := []\<rparr>,
          mem_bytes (the p_aad) 0 (unat p_aadSz)
            @ take (unat p_msgSz) (drop (unat (m_uiMsgOffset c)) (m_prguiWorkBuf c))
            @ take (unat (m_uiAuthFldSz c)) (m_rguiU c),
          p_aadSz + p_msgSz + m_uiAuthFldSz c) })"

text \<open>
  The received authentication field overwrites the first octets of \<^verbatim>\<open>m_rguiT\<close>. The inner result is \<open>None\<close>
  for the return value \<^verbatim>\<open>false\<close> and otherwise the octets written to \<^verbatim>\<open>p_out\<close>, which is not \<^verbatim>\<open>NULL\<close>, as the key
  and the nonce are not.
\<close>

definition CheckAuthDecrypt :: "aes \<Rightarrow> u8 list \<Rightarrow> mem \<Rightarrow> mem option \<Rightarrow> u16 \<Rightarrow> mem option \<Rightarrow> u16 \<Rightarrow> Ccm
    \<Rightarrow> (Ccm \<times> u8 list option) option" where
  "CheckAuthDecrypt E p_key p_nonce p_aad p_aadSz p_encMsg p_encMsgSz c =
     (if \<not> (m_uiLenFldSz c \<noteq> 0 \<and> (p_aad \<noteq> None \<and> p_aadSz \<noteq> 0 \<or> p_aadSz = 0) \<and>
            (p_encMsg \<noteq> None \<and> p_encMsgSz \<noteq> 0) \<and> p_aadSz < 0xFF00 \<and> m_uiAuthFldSz c \<le> p_encMsgSz)
      then Some (c, None)
      else
        let sz = p_encMsgSz - m_uiAuthFldSz c; M = unat (m_uiAuthFldSz c) in do {
          c \<leftarrow> pushBlock0 p_aadSz sz ((prepare p_key p_nonce p_aadSz sz c)\<lparr>m_uiWorkBufIdx := 0\<rparr>);
          c \<leftarrow> pushAad (the p_aad) p_aadSz c;
          c \<leftarrow> pushMsg (the p_encMsg) sz c;
          c \<leftarrow> saltCtr E sz (c\<lparr>m_rguiT := mem_bytes (the p_encMsg) (unat sz) M @ drop M (m_rguiT c)\<rparr>);
          c \<leftarrow> Some (cbcMac E c);
          Some (if take M (m_rguiT c) \<noteq> take M (m_rguiU c)
                then (c\<lparr>m_prguiWorkBuf := [], m_rguiT := replicate 16 0, m_rguiU := replicate 16 0\<rparr>, None)
                else (c\<lparr>m_prguiWorkBuf := []\<rparr>,
                  Some (take (unat sz) (drop (unat (m_uiMsgOffset c)) (m_prguiWorkBuf c))))) })"

section \<open>The wrappers of porting.cpp\<close>

text \<open>
  The object of \<^verbatim>\<open>porting.cpp\<close> as its initialisation leaves it. The list arguments of the wrappers are the octets
  at the pointers, their lengths the sizes the caller passes; the result is the object, the return code and the
  octets then at \<^verbatim>\<open>p_pucToEncrypt\<close> or \<^verbatim>\<open>p_pucToDecrypt\<close>.
\<close>

definition ccm :: Ccm where
  "ccm = SetLenFldSz 2 (SetAuthenFldSz 4 Ccm_init)"

abbreviation (input) AES_SUCCESS :: u8 where "AES_SUCCESS \<equiv> 0"
abbreviation (input) AES_ERROR :: u8 where "AES_ERROR \<equiv> 1"

definition AES_Crypt_User :: "aes \<Rightarrow> u8 list \<Rightarrow> u8 list \<Rightarrow> u8 list \<Rightarrow> u8 list \<Rightarrow> Ccm \<Rightarrow> (Ccm \<times> u8 \<times> u8 list) option" where
  "AES_Crypt_User E p_pucKey p_pucNonce toAuthOnly toEncrypt c =
     map_option (\<lambda>(c, work, ret). if ret = 0 then (c, AES_ERROR, toEncrypt)
         else (c, AES_SUCCESS, take (length toEncrypt + 4) (drop (length toAuthOnly) work)))
       (AuthEncrypt E p_pucKey (mem_of p_pucNonce) (Some (mem_of toAuthOnly)) (of_nat (length toAuthOnly))
         (Some (mem_of toEncrypt)) (of_nat (length toEncrypt)) c)"

definition decrypt_into :: "u8 list \<Rightarrow> Ccm \<times> u8 list option \<Rightarrow> Ccm \<times> u8 \<times> u8 list" where
  "decrypt_into toDecrypt r = (case r of (c, None) \<Rightarrow> (c, AES_ERROR, toDecrypt)
     | (c, Some out) \<Rightarrow> (c, AES_SUCCESS, out @ drop (length out) toDecrypt))"

definition AES_Decrypt_User :: "aes \<Rightarrow> u8 list \<Rightarrow> u8 list \<Rightarrow> u8 list \<Rightarrow> u8 list \<Rightarrow> Ccm \<Rightarrow> (Ccm \<times> u8 \<times> u8 list) option" where
  "AES_Decrypt_User E p_pucKey p_pucNonce toAuthOnly toDecrypt c =
     map_option (decrypt_into toDecrypt)
       (CheckAuthDecrypt E p_pucKey (mem_of p_pucNonce) (Some (mem_of toAuthOnly)) (of_nat (length toAuthOnly))
         (Some (mem_of toDecrypt)) (of_nat (length toDecrypt)) c)"

definition AES_Decrypt_User_NoMIC :: "aes \<Rightarrow> u8 list \<Rightarrow> u8 list \<Rightarrow> u8 list \<Rightarrow> u8 list \<Rightarrow> Ccm \<Rightarrow> (Ccm \<times> u8 \<times> u8 list) option" where
  "AES_Decrypt_User_NoMIC E p_pucKey p_pucNonce toAuthOnly toDecrypt c =
     map_option (\<lambda>r. case decrypt_into toDecrypt r of (c, rc, buf) \<Rightarrow> (SetAuthenFldSz 4 c, rc, buf))
       (CheckAuthDecrypt E p_pucKey (mem_of p_pucNonce) (Some (mem_of toAuthOnly)) (of_nat (length toAuthOnly))
         (Some (mem_of toDecrypt)) (of_nat (length toDecrypt)) (SetAuthenFldSz 0 c))"

text \<open>
  A call as the other layers see it, on the object the initialisation leaves: what earlier calls leave in the object
  does not change what a later call returns (lemmas \<open>crypt_seals\<close> and \<open>decrypt_opens\<close> hold for every state of
  the object that keeps its setting).
\<close>

definition aes_crypt :: "aes \<Rightarrow> u8 list \<Rightarrow> u8 list \<Rightarrow> u8 list \<Rightarrow> u8 list \<Rightarrow> u8 \<times> u8 list" where
  "aes_crypt E key nonce aad msg = (case AES_Crypt_User E key nonce aad msg ccm of Some (_, r) \<Rightarrow> r | None \<Rightarrow> (AES_ERROR, msg))"

definition aes_decrypt :: "aes \<Rightarrow> u8 list \<Rightarrow> u8 list \<Rightarrow> u8 list \<Rightarrow> u8 list \<Rightarrow> u8 \<times> u8 list" where
  "aes_decrypt E key nonce aad enc = (case AES_Decrypt_User E key nonce aad enc ccm of Some (_, r) \<Rightarrow> r | None \<Rightarrow> (AES_ERROR, enc))"

section \<open>The reference: RFC 3610\<close>

text \<open>
  With a length field of two octets and a nonce of 13: the authenticated blocks, the CBC-MAC over them, the
  key stream and the authentication value of \<open>M\<close> octets.
\<close>

definition pad16 :: "u8 list \<Rightarrow> u8 list" where
  "pad16 xs = xs @ replicate ((16 - length xs mod 16) mod 16) 0"

definition auth_flags :: "nat \<Rightarrow> u8 list \<Rightarrow> u8" where
  "auth_flags M aad = (if aad = [] then 0 else 64) + (if M = 0 then 0 else of_nat (4 * (M - 2))) + 1"

definition auth_blocks :: "nat \<Rightarrow> u8 list \<Rightarrow> u8 list \<Rightarrow> u8 list \<Rightarrow> u8 list" where
  "auth_blocks M nonce aad msg =
     (auth_flags M aad # nonce @ be16 (of_nat (length msg)))
     @ pad16 (if aad = [] then [] else be16 (of_nat (length aad)) @ aad) @ pad16 msg"

fun cbc :: "aes \<Rightarrow> u8 list \<Rightarrow> u8 list \<Rightarrow> u8 list \<Rightarrow> u8 list" where
  "cbc E key X [] = X"
| "cbc E key X (b # bs) =
     cbc E key (rijndaelEncrypt E key (xor_bytes X (take 16 (b # bs)))) (drop 16 (b # bs))"

definition ccm_stream :: "aes \<Rightarrow> u8 list \<Rightarrow> u8 list \<Rightarrow> nat \<Rightarrow> u8 list" where
  "ccm_stream E key nonce i = rijndaelEncrypt E key (1 # nonce @ be16 (of_nat i))"

definition ccm_crypt :: "aes \<Rightarrow> u8 list \<Rightarrow> u8 list \<Rightarrow> u8 list \<Rightarrow> u8 list" where
  "ccm_crypt E key nonce xs =
     map (\<lambda>i. xs ! i XOR ccm_stream E key nonce (1 + i div 16) ! (i mod 16)) [0..<length xs]"

definition ccm_mic :: "aes \<Rightarrow> nat \<Rightarrow> u8 list \<Rightarrow> u8 list \<Rightarrow> u8 list \<Rightarrow> u8 list \<Rightarrow> u8 list" where
  "ccm_mic E M key nonce aad msg =
     take M (xor_bytes (cbc E key (replicate 16 0) (auth_blocks M nonce aad msg)) (ccm_stream E key nonce 0))"

definition ccm_seal :: "aes \<Rightarrow> nat \<Rightarrow> u8 list \<Rightarrow> u8 list \<Rightarrow> u8 list \<Rightarrow> u8 list \<Rightarrow> u8 list" where
  "ccm_seal E M key nonce aad msg = ccm_crypt E key nonce msg @ ccm_mic E M key nonce aad msg"

section \<open>Counter mode computes the key stream\<close>

lemma xor_cancel [simp]: "(x XOR y) XOR y = (x :: u8)"
  by (simp add: xor.assoc)

lemma salt_loop_done: "\<not> msgIdx < msgEnd \<Longrightarrow> salt_loop E key A msgEnd s_blk msgIdx buf = Some buf"
  by (subst salt_loop.simps) simp

lemma length_rijndaelEncrypt [simp]: "length (rijndaelEncrypt E key b) = 16"
  by (simp add: rijndaelEncrypt_def)

lemma length_xor_bytes [simp]: "length (xor_bytes xs ys) = min (length xs) (length ys)"
  by (simp add: xor_bytes_def)

lemma nth_xor_bytes [simp]: "i < length xs \<Longrightarrow> i < length ys \<Longrightarrow> xor_bytes xs ys ! i = xs ! i XOR ys ! i"
  by (simp add: xor_bytes_def)

lemma xor_bytes_cancel [simp]: "length xs \<le> length ys \<Longrightarrow> xor_bytes (xor_bytes xs ys) ys = xs"
  by (rule nth_equalityI) auto

lemma xor_bytes_eq_iff: "length xs = length ys \<Longrightarrow> length xs \<le> length zs \<Longrightarrow> xor_bytes xs zs = xor_bytes ys zs \<longleftrightarrow> xs = ys"
  by (metis xor_bytes_cancel)

lemma length_ccm_crypt [simp]: "length (ccm_crypt E key nonce xs) = length xs"
  by (simp add: ccm_crypt_def)

lemma ccm_crypt_involutive [simp]: "ccm_crypt E key nonce (ccm_crypt E key nonce xs) = xs"
  by (rule nth_equalityI) (auto simp: ccm_crypt_def)

lemma set_counter_again [simp]: "set_counter m (set_counter n A) = set_counter m A"
  by (simp add: set_counter_def list_update_swap [of 14 15])

lemma salt_block_nth:
  assumes "msgIdx \<le> msgEnd" and "msgEnd \<le> length buf"
  shows "\<exists>buf'. salt_block msgEnd S msgIdx buf = Some (min msgEnd (msgIdx + length S), buf') \<and> length buf' = length buf
     \<and> (\<forall>j<length buf. buf' ! j = (if msgIdx \<le> j \<and> j < min msgEnd (msgIdx + length S) then buf ! j XOR S ! (j - msgIdx) else buf ! j))"
  using assms
proof (induction S arbitrary: msgIdx buf)
  case (Cons s S)
  show ?case
  proof (cases "msgIdx < msgEnd")
    case True
    let ?buf = "buf[msgIdx := buf ! msgIdx XOR s]"
    from True Cons.prems obtain buf' where b: "salt_block msgEnd S (Suc msgIdx) ?buf = Some (min msgEnd (Suc msgIdx + length S), buf')"
      "length buf' = length buf"
      "\<And>j. j < length buf \<Longrightarrow> buf' ! j = (if Suc msgIdx \<le> j \<and> j < min msgEnd (Suc msgIdx + length S) then ?buf ! j XOR S ! (j - Suc msgIdx) else ?buf ! j)"
      using Cons.IH [of "Suc msgIdx" ?buf] by auto
    have "buf' ! j = (if msgIdx \<le> j \<and> j < min msgEnd (msgIdx + length (s # S)) then buf ! j XOR (s # S) ! (j - msgIdx) else buf ! j)"
      if "j < length buf" for j
      using b(3) [OF that] that True by (cases "j = msgIdx") (auto simp: nth_Cons')
    then show ?thesis using b(1,2) True Cons.prems by auto
  qed (use Cons.prems in auto)
qed auto

lemma salt_loop_nth:
  assumes "msgIdx \<le> msgEnd" and "msgEnd \<le> length buf"
  shows "\<exists>buf'. salt_loop E key A msgEnd s_blk msgIdx buf = Some buf' \<and> length buf' = length buf
     \<and> (\<forall>j<length buf. buf' ! j = (if msgIdx \<le> j \<and> j < msgEnd
          then buf ! j XOR rijndaelEncrypt E key (set_counter (s_blk + of_nat (1 + (j - msgIdx) div 16)) A) ! ((j - msgIdx) mod 16)
          else buf ! j))"
  using assms
proof (induction E key A msgEnd s_blk msgIdx buf rule: salt_loop.induct)
  case (1 E key A msgEnd s_blk msgIdx buf)
  show ?case
  proof (cases "msgIdx < msgEnd")
    case True
    let ?A = "set_counter (s_blk + 1) A" and ?i = "min msgEnd (msgIdx + 16)"
    obtain b1 where b1: "salt_block msgEnd (rijndaelEncrypt E key ?A) msgIdx buf = Some (?i, b1)" "length b1 = length buf"
      "\<And>j. j < length buf \<Longrightarrow> b1 ! j = (if msgIdx \<le> j \<and> j < ?i then buf ! j XOR rijndaelEncrypt E key ?A ! (j - msgIdx) else buf ! j)"
      using salt_block_nth [OF 1(2,3), of "rijndaelEncrypt E key ?A", unfolded length_rijndaelEncrypt] by blast
    have le: "?i \<le> msgEnd" "msgEnd \<le> length b1" using 1(3) b1(2) by simp_all
    obtain b2 where b2: "salt_loop E key ?A msgEnd (s_blk + 1) ?i b1 = Some b2" "length b2 = length buf"
      "\<And>j. j < length buf \<Longrightarrow> b2 ! j = (if ?i \<le> j \<and> j < msgEnd
          then b1 ! j XOR rijndaelEncrypt E key (set_counter (s_blk + 1 + of_nat (1 + (j - ?i) div 16)) A) ! ((j - ?i) mod 16)
          else b1 ! j)"
      using 1(1) [OF True refl refl b1(1) refl le, unfolded set_counter_again b1(2)] by blast
    have "b2 ! j = (if msgIdx \<le> j \<and> j < msgEnd
          then buf ! j XOR rijndaelEncrypt E key (set_counter (s_blk + of_nat (1 + (j - msgIdx) div 16)) A) ! ((j - msgIdx) mod 16)
          else buf ! j)" if j: "j < length buf" for j
    proof -
      consider "j < msgIdx \<or> msgEnd \<le> j" | "msgIdx \<le> j" "j < ?i" | "?i \<le> j" "j < msgEnd" by linarith
      then show ?thesis
      proof cases
        case 3
        then have "?i = msgIdx + 16" "msgIdx + 16 \<le> j" by auto
        moreover from this obtain d where "j = msgIdx + 16 + d" using le_Suc_ex by blast
        ultimately show ?thesis using 3 b2(3) [OF j] b1(3) [OF j] by (simp add: add_ac div_add_self2)
      qed (use b2(3) [OF j] b1(3) [OF j] in \<open>auto simp: add_ac\<close>)
    qed
    moreover have "salt_loop E key A msgEnd s_blk msgIdx buf = Some b2"
      by (subst salt_loop.simps) (use True b1(1) b2(1) in \<open>simp add: Let_def\<close>)
    ultimately show ?thesis using b2(2) by auto
  qed (auto simp: salt_loop_done)
qed

lemma set_counter_block: "length nonce = 13 \<Longrightarrow> set_counter n (f # nonce @ [0, 0]) = f # nonce @ be16 n"
  by (auto simp: set_counter_def be16_def list_update_append nth_append numeral_eq_Suc length_Suc_conv)

lemma counter_block_13:
  "length nonce = 13 \<Longrightarrow> (take 16 (f # nonce @ replicate 16 0))[14 := 0, 15 := 0] = f # nonce @ [0, 0]"
  by (auto simp: numeral_eq_Suc length_Suc_conv)

lemma salt_region:
  assumes "length nonce = 13"
  shows "salt_loop E key (1 # nonce @ [0, 0]) (length hs + length xs) 0 (length hs) (hs @ xs @ ys) =
    Some (hs @ ccm_crypt E key nonce xs @ ys)"
proof -
  let ?buf = "hs @ xs @ ys"
  obtain buf' where b: "salt_loop E key (1 # nonce @ [0, 0]) (length hs + length xs) 0 (length hs) ?buf = Some buf'"
    "length buf' = length ?buf"
    "\<And>j. j < length ?buf \<Longrightarrow> buf' ! j = (if length hs \<le> j \<and> j < length hs + length xs
        then ?buf ! j XOR rijndaelEncrypt E key (set_counter (0 + of_nat (1 + (j - length hs) div 16)) (1 # nonce @ [0, 0]))
          ! ((j - length hs) mod 16) else ?buf ! j)"
    using salt_loop_nth [of "length hs" "length hs + length xs" ?buf E key "1 # nonce @ [0, 0]" 0] by auto
  have "buf' = hs @ ccm_crypt E key nonce xs @ ys"
    by (rule nth_equalityI)
      (auto simp: b(2,3) nth_append ccm_crypt_def ccm_stream_def set_counter_block [OF assms] simp del: of_nat_Suc of_nat_add)
  with b(1) show ?thesis by simp
qed

section \<open>The work buffer holds the authenticated blocks\<close>

lemma length_be16 [simp]: "length (be16 w) = 2"
  by (simp add: be16_def)

lemma length_pad16: "length (pad16 xs) = ROUND_UP_TO_MUL_16 (length xs)"
  by (simp add: pad16_def ROUND_UP_TO_MUL_16_def)

lemma ROUND_UP_dvd: "16 dvd ROUND_UP_TO_MUL_16 n"
proof -
  have "ROUND_UP_TO_MUL_16 n = 16 * (n div 16) + (n mod 16 + (16 - n mod 16) mod 16)"
    by (simp add: ROUND_UP_TO_MUL_16_def)
  moreover have "16 dvd r + (16 - r) mod 16" if "r < 16" for r :: nat
    using that by (cases "r = 0") auto
  ultimately show ?thesis by (metis dvd_add dvd_triv_left mod_less_divisor zero_less_numeral)
qed

lemma ROUND_UP_ge: "n \<le> ROUND_UP_TO_MUL_16 n"
  by (simp add: ROUND_UP_TO_MUL_16_def)

lemma ROUND_UP_less: "ROUND_UP_TO_MUL_16 n < 16 + n"
  by (simp add: ROUND_UP_TO_MUL_16_def)

lemma ROUND_UP_u16: "ROUND_UP_TO_MUL_16 (unat (w :: u16)) \<le> 65536"
  using ROUND_UP_less [of "unat w"] ROUND_UP_dvd [of "unat w"] unat_u16_less [of w] by (auto elim!: dvdE)

lemma ROUND_UP_0 [simp]: "ROUND_UP_TO_MUL_16 0 = 0"
  by (simp add: ROUND_UP_TO_MUL_16_def)

lemma pad16_Nil [simp]: "pad16 [] = []"
  by (simp add: pad16_def)

lemma pad16_append: "16 dvd length hs \<Longrightarrow> pad16 (hs @ xs) = hs @ pad16 xs"
  by (auto simp: pad16_def elim!: dvdE)

lemma ROUND_UP_add: "16 dvd k \<Longrightarrow> ROUND_UP_TO_MUL_16 (k + n) = k + ROUND_UP_TO_MUL_16 n"
  by (auto simp: ROUND_UP_TO_MUL_16_def elim!: dvdE)

text \<open>The buffer is written up to \<^verbatim>\<open>m_uiWorkBufIdx\<close>, and \<open>n\<close> zero octets follow.\<close>

definition filled :: "u8 list \<Rightarrow> nat \<Rightarrow> Ccm \<Rightarrow> Ccm" where
  "filled xs n c = c\<lparr>m_prguiWorkBuf := xs @ replicate n 0, m_uiWorkBufIdx := of_nat (length xs)\<rparr>"

lemma filled_fields [simp]:
  "m_puiNonce (filled xs n c) = m_puiNonce c" "m_uiNonceSz (filled xs n c) = m_uiNonceSz c"
  "m_uiAuthFldSz (filled xs n c) = m_uiAuthFldSz c" "m_uiLenFldSz (filled xs n c) = m_uiLenFldSz c"
  "m_puiKey (filled xs n c) = m_puiKey c" "m_uiMsgOffset (filled xs n c) = m_uiMsgOffset c"
  "m_uiWorkBufSz (filled xs n c) = m_uiWorkBufSz c" "m_rguiT (filled xs n c) = m_rguiT c"
  "m_prguiWorkBuf (filled xs n c) = xs @ replicate n 0"
  by (simp_all add: filled_def)

lemma unat_of_nat_u16: "n < 65536 \<Longrightarrow> unat (of_nat n :: u16) = n"
  by (simp add: unat_of_nat take_bit_nat_eq_self)

lemma push_filled:
  "length xs + n < 65536 \<Longrightarrow> length bs \<le> n \<Longrightarrow> push bs (filled xs n c) = Some (filled (xs @ bs) (n - length bs) c)"
  by (simp add: push_def put_def filled_def unat_of_nat_u16 Let_def)

lemma round_filled:
  assumes "ROUND_UP_TO_MUL_16 (length xs) \<le> length xs + n" and "length xs + n < 65536"
  shows "round_index (filled xs n c) = filled (pad16 xs) (length xs + n - length (pad16 xs)) c"
proof -
  let ?k = "(16 - length xs mod 16) mod 16"
  have "replicate n (0 :: u8) = replicate ?k 0 @ replicate (n - ?k) 0"
    using assms(1) by (simp add: replicate_add [symmetric] ROUND_UP_TO_MUL_16_def)
  moreover have "unat (of_nat (length xs) :: u16) = length xs" using assms(2) by (simp add: unat_of_nat_u16)
  ultimately show ?thesis by (simp add: round_index_def filled_def length_pad16) (simp add: pad16_def ROUND_UP_TO_MUL_16_def)
qed

lemma cbc_loop_cbc:
  "length buf = sz \<Longrightarrow> cbc_loop E key buf sz blk_it X = cbc E key X (drop blk_it buf)"
proof (induction E key buf sz blk_it X rule: cbc_loop.induct)
  case (1 E key buf sz blk_it X)
  show ?case
  proof (cases "blk_it < sz")
    case True
    then obtain b bs where d: "drop blk_it buf = b # bs" using 1(2) by (cases "drop blk_it buf") auto
    have "drop (blk_it + 16) buf = drop 16 (drop blk_it buf)" by (simp add: add.commute)
    then show ?thesis using 1 True d by (subst cbc_loop.simps) simp
  qed (use 1(2) in \<open>subst cbc_loop.simps, simp\<close>)
qed

lemma xor_bytes_zeros [simp]: "length xs \<le> n \<Longrightarrow> xor_bytes (replicate n 0) xs = xs"
  by (rule nth_equalityI) auto

lemma cbcMac_blocks:
  assumes "m_prguiWorkBuf c = buf" and "unat (m_uiWorkBufSz c) = length buf" and "buf \<noteq> []"
  shows "cbcMac E c = c\<lparr>m_rguiT := cbc E (m_puiKey c) (replicate 16 0) buf\<rparr>"
proof -
  obtain b bs where "buf = b # bs" using assms(3) by (cases buf) auto
  then show ?thesis using assms(1,2) by (simp add: cbcMac_def cbc_loop_cbc)
qed

lemma length_cbc: "length X = 16 \<Longrightarrow> length (cbc E key X bs) = 16"
  by (induction E key X bs rule: cbc.induct) simp_all

text \<open>The setting of the stack: a length field of two octets, and four octets of authentication or none.\<close>

definition configured :: "Ccm \<Rightarrow> bool" where
  "configured c \<longleftrightarrow> m_uiLenFldSz c = 2 \<and> (m_uiAuthFldSz c = 4 \<or> m_uiAuthFldSz c = 0)"

text \<open>Sizes for which the work buffer has fewer than \<open>2^16\<close> octets.\<close>

definition buffer_size :: "nat \<Rightarrow> nat \<Rightarrow> nat" where
  "buffer_size aadSz msgSz =
     16 + ROUND_UP_TO_MUL_16 (if aadSz = 0 then 0 else 2 + aadSz) + ROUND_UP_TO_MUL_16 msgSz"

definition auth_header :: "nat \<Rightarrow> u8 list \<Rightarrow> u8 list \<Rightarrow> nat \<Rightarrow> u8 list" where
  "auth_header M nonce aad len = (auth_flags M aad # nonce @ be16 (of_nat len))
     @ pad16 (if aad = [] then [] else be16 (of_nat (length aad)) @ aad)"

lemma auth_blocks_header: "auth_blocks M nonce aad msg = auth_header M nonce aad (length msg) @ pad16 msg"
  by (simp add: auth_blocks_def auth_header_def)

lemma length_auth_header:
  "length nonce = 13 \<Longrightarrow> length (auth_header M nonce aad len) = 16 + ROUND_UP_TO_MUL_16 (if aad = [] then 0 else 2 + length aad)"
  by (simp add: auth_header_def length_pad16)

lemma auth_header_dvd: "length nonce = 13 \<Longrightarrow> 16 dvd length (auth_header M nonce aad len)"
  by (simp add: length_auth_header ROUND_UP_dvd)

lemma pushBlock0_filled:
  assumes "configured c" and "m_uiNonceSz c = 13" and "16 \<le> n" and "n < 65536"
  shows "pushBlock0 p_aadSz p_msgSz (c\<lparr>m_prguiWorkBuf := replicate n 0\<rparr>) =
    Some (filled (auth_flags (unat (m_uiAuthFldSz c)) (mem_bytes a 0 (unat p_aadSz)) # mem_bytes (m_puiNonce c) 0 13 @ be16 p_msgSz) (n - 16) c)"
proof -
  have "c\<lparr>m_prguiWorkBuf := replicate n 0, m_uiWorkBufIdx := 0\<rparr> = filled [] n c" by (simp add: filled_def)
  moreover have "mem_bytes a 0 (unat p_aadSz) = [] \<longleftrightarrow> p_aadSz = 0"
    by (metis length_0_conv length_mem_bytes unat_0 unat_eq_zero)
  ultimately show ?thesis using assms
    by (auto simp: pushBlock0_def Let_def push_filled auth_flags_def configured_def)
qed

lemma push_padded:
  assumes "16 dvd length xs" and "length xs + n < 65536" and le: "ROUND_UP_TO_MUL_16 (length bs) \<le> n"
  shows "map_option round_index (push bs (filled xs n c)) = Some (filled (xs @ pad16 bs) (n - ROUND_UP_TO_MUL_16 (length bs)) c)"
proof -
  have "length bs \<le> n" using le ROUND_UP_ge le_trans by blast
  moreover from this have "round_index (filled (xs @ bs) (n - length bs) c) = filled (pad16 (xs @ bs)) (n - ROUND_UP_TO_MUL_16 (length bs)) c"
    using assms by (subst round_filled) (auto simp: ROUND_UP_add length_pad16)
  ultimately show ?thesis using assms by (simp add: push_filled pad16_append)
qed

lemma pushMsg_filled:
  assumes "16 dvd length xs" and "length xs + n < 65536" and "ROUND_UP_TO_MUL_16 (unat p_msgSz) \<le> n"
  shows "pushMsg p_msg p_msgSz (filled xs n c) =
    Some (filled (xs @ pad16 (mem_bytes p_msg 0 (unat p_msgSz))) (n - ROUND_UP_TO_MUL_16 (unat p_msgSz)) c)"
  using push_padded [OF assms(1,2), of "mem_bytes p_msg 0 (unat p_msgSz)"] assms(3) by (auto simp: pushMsg_def)

lemma pushAad_filled:
  fixes p_aad p_aadSz
  defines "aad \<equiv> mem_bytes p_aad 0 (unat p_aadSz)"
  defines "field \<equiv> if aad = [] then [] else be16 (of_nat (length aad)) @ aad"
  assumes xs: "16 dvd length xs" "length xs + n < 65536" and le: "ROUND_UP_TO_MUL_16 (length field) \<le> n"
  shows "pushAad p_aad p_aadSz (filled xs n c) = Some (filled (xs @ pad16 field) (n - ROUND_UP_TO_MUL_16 (length field)) c)"
proof (cases "p_aadSz = 0")
  case False
  then have f: "field = be16 p_aadSz @ aad" by (auto simp: field_def aad_def unat_eq_zero simp flip: length_0_conv)
  have "length field \<le> n" using le ROUND_UP_ge le_trans by blast
  then have "push (be16 p_aadSz) (filled xs n c) \<bind> push aad = push field (filled xs n c)"
    using xs(2) by (simp add: push_filled f)
  then show ?thesis using False push_padded [OF xs le] by (simp add: pushAad_def aad_def)
qed (simp add: pushAad_def field_def aad_def)

text \<open>Both entry points fill the buffer with the authenticated blocks of the message they are given.\<close>

lemma fill_blocks:
  fixes p_nonce p_aad p_msg p_aadSz p_msgSz
  defines "aad \<equiv> mem_bytes p_aad 0 (unat p_aadSz)" and "msg \<equiv> mem_bytes p_msg 0 (unat p_msgSz)"
    and "nonce \<equiv> mem_bytes p_nonce 0 13"
  assumes c: "configured c" and fits: "buffer_size (unat p_aadSz) (unat p_msgSz) < 65536"
    and prep: "c' = prepare p_key p_nonce p_aadSz p_msgSz c"
  shows "pushBlock0 p_aadSz p_msgSz c' \<bind> pushAad p_aad p_aadSz \<bind> pushMsg p_msg p_msgSz =
      Some (filled (auth_blocks (unat (m_uiAuthFldSz c)) nonce aad msg) 0 c')"
    and "unat (m_uiMsgOffset c') = length (auth_header (unat (m_uiAuthFldSz c)) nonce aad (length msg))"
    and "unat (m_uiWorkBufSz c') = length (auth_blocks (unat (m_uiAuthFldSz c)) nonce aad msg)"
proof -
  let ?M = "unat (m_uiAuthFldSz c)"
  define field where "field = (if aad = [] then [] else be16 (of_nat (length aad)) @ aad)"
  let ?B0 = "auth_flags ?M aad # nonce @ be16 p_msgSz"
  define n where "n = buffer_size (unat p_aadSz) (unat p_msgSz)"
  have aad: "aad = [] \<longleftrightarrow> p_aadSz = 0" "length aad = unat p_aadSz" and msg: "length msg = unat p_msgSz" and nonce: "length nonce = 13"
    by (auto simp: aad_def msg_def nonce_def unat_eq_zero simp flip: length_0_conv)
  have n: "n = 16 + ROUND_UP_TO_MUL_16 (length field) + ROUND_UP_TO_MUL_16 (length msg)"
    using aad msg by (auto simp: n_def buffer_size_def field_def)
  show off: "unat (m_uiMsgOffset c') = length (auth_header ?M nonce aad (length msg))"
    using fits aad nonce by (auto simp: prep prepare_def Let_def length_auth_header unat_of_nat_u16 buffer_size_def unat_eq_zero simp del: of_nat_add of_nat_Suc)
  show "unat (m_uiWorkBufSz c') = length (auth_blocks ?M nonce aad msg)"
    using fits aad msg off nonce
    by (auto simp: prep prepare_def Let_def auth_blocks_header length_auth_header length_pad16 unat_of_nat_u16 buffer_size_def unat_eq_zero simp del: of_nat_add of_nat_Suc)
  then have sz: "unat (m_uiWorkBufSz c') = n"
    using nonce aad by (auto simp: n auth_blocks_header length_auth_header length_pad16 field_def)
  have c': "configured c'" "m_uiNonceSz c' = 13" "m_puiNonce c' = p_nonce" "m_uiAuthFldSz c' = m_uiAuthFldSz c"
    "c'\<lparr>m_prguiWorkBuf := replicate n 0\<rparr> = c'"
    using c sz by (auto simp: prep prepare_def Let_def configured_def)
  have "pushBlock0 p_aadSz p_msgSz c' = Some (filled ?B0 (n - 16) c')"
    using pushBlock0_filled [OF c'(1,2), of n p_aadSz p_msgSz p_aad] c'(3-5) fits
    by (simp add: n aad_def nonce_def flip: n_def)
  moreover have "pushAad p_aad p_aadSz (filled ?B0 (n - 16) c') =
      Some (filled (?B0 @ pad16 field) (n - 16 - ROUND_UP_TO_MUL_16 (length field)) c')"
    using pushAad_filled [of ?B0 "n - 16" p_aad p_aadSz c', folded aad_def, folded field_def] fits nonce by (simp add: n_def [symmetric]) (simp add: n)
  moreover have "pushMsg p_msg p_msgSz (filled (?B0 @ pad16 field) (n - 16 - ROUND_UP_TO_MUL_16 (length field)) c') =
      Some (filled (?B0 @ pad16 field @ pad16 msg) 0 c')"
    using pushMsg_filled [of "?B0 @ pad16 field" "n - 16 - ROUND_UP_TO_MUL_16 (length field)" p_msgSz p_msg c'] fits nonce msg
    by (simp add: n_def [symmetric] msg_def [symmetric] length_pad16 ROUND_UP_dvd) (simp add: n)
  ultimately show "pushBlock0 p_aadSz p_msgSz c' \<bind> pushAad p_aad p_aadSz \<bind> pushMsg p_msg p_msgSz =
      Some (filled (auth_blocks ?M nonce aad msg) 0 c')"
    using msg by (simp add: auth_blocks_def field_def)
qed

section \<open>The class computes CCM\<close>

lemma saltCtr_region:
  assumes "configured c" and "m_uiNonceSz c = 13" and "unat (m_uiMsgOffset c) = length hs"
    and "m_prguiWorkBuf c = hs @ xs @ ys" and "length xs = unat p_msgSz"
  shows "saltCtr E p_msgSz c = Some (c\<lparr>m_rguiU := xor_bytes (m_rguiT c) (ccm_stream E (m_puiKey c) (mem_bytes (m_puiNonce c) 0 13) 0),
    m_prguiWorkBuf := hs @ ccm_crypt E (m_puiKey c) (mem_bytes (m_puiNonce c) 0 13) xs @ ys\<rparr>)"
proof -
  let ?nonce = "mem_bytes (m_puiNonce c) 0 13"
  have "counter_block c = (take 16 (1 # ?nonce @ replicate 16 0))[14 := 0, 15 := 0]"
    using assms(1,2) by (simp add: counter_block_def configured_def)
  also have "\<dots> = 1 # ?nonce @ [0, 0]" by (rule counter_block_13) simp
  finally have "counter_block c = 1 # ?nonce @ [0, 0]" .
  moreover have "be16 0 = [0, 0]" by (simp add: be16_def)
  moreover have "xs = []" if "p_msgSz = 0" using assms(5) that by simp
  ultimately show ?thesis
    using salt_region [of ?nonce E "m_puiKey c" hs xs ys] assms(3-5)
    by (auto simp: saltCtr_def Let_def ccm_stream_def ccm_crypt_def)
qed

lemma take_pad16 [simp]: "take (length xs) (pad16 xs) = xs"
  by (simp add: pad16_def)

lemma auth_blocks_split:
  "auth_blocks M nonce aad msg = auth_header M nonce aad (length msg) @ msg @ drop (length msg) (pad16 msg)"
  by (simp add: auth_blocks_header) (metis append_take_drop_id take_pad16)

lemma take_xor_bytes: "take n (xor_bytes xs ys) = xor_bytes (take n xs) (take n ys)"
  by (simp add: xor_bytes_def take_map take_zip)

text \<open>Decrypting the received field and encrypting the computed one compare the same.\<close>

lemma mic_check:
  assumes "length T = length S" and "length mic = M" and "M \<le> length S"
  shows "take M T = take M (xor_bytes (mic @ ys) S) \<longleftrightarrow> mic = take M (xor_bytes T S)"
proof -
  have "take M (xor_bytes (mic @ ys) S) = xor_bytes mic (take M S)" using assms(2) by (simp add: take_xor_bytes)
  moreover have "take M (xor_bytes T S) = xor_bytes (take M T) (take M S)" by (rule take_xor_bytes)
  ultimately show ?thesis using assms by (metis length_take order_refl xor_bytes_cancel min.absorb2)
qed

lemma auth_blocks_nonempty: "auth_blocks M nonce aad msg \<noteq> []"
  by (simp add: auth_blocks_def)

text \<open>The object after a call keeps its configuration, whatever else the call left in it.\<close>

definition same_setting :: "Ccm \<Rightarrow> Ccm \<Rightarrow> bool" where
  "same_setting c c' \<longleftrightarrow> m_uiLenFldSz c' = m_uiLenFldSz c \<and> m_uiAuthFldSz c' = m_uiAuthFldSz c"

lemma prepare_fields [simp]:
  "m_uiLenFldSz (prepare k n a m c) = m_uiLenFldSz c" "m_uiAuthFldSz (prepare k n a m c) = m_uiAuthFldSz c"
  "m_puiKey (prepare k n a m c) = k" "m_puiNonce (prepare k n a m c) = n"
  "m_uiNonceSz (prepare k n a m c) = 15 - m_uiLenFldSz c" "m_rguiT (prepare k n a m c) = m_rguiT c"
  by (simp_all add: prepare_def Let_def)

lemma AuthEncrypt_seal:
  fixes p_nonce p_aad p_msg p_aadSz p_msgSz
  defines "aad \<equiv> mem_bytes (the p_aad) 0 (unat p_aadSz)" and "msg \<equiv> mem_bytes (the p_msg) 0 (unat p_msgSz)"
    and "nonce \<equiv> mem_bytes p_nonce 0 13"
  assumes c: "configured c" and fits: "buffer_size (unat p_aadSz) (unat p_msgSz) < 65536"
    and ptrs: "p_aadSz < 0xFF00" "p_aad \<noteq> None \<or> p_aadSz = 0" "p_msg \<noteq> None \<or> p_msgSz = 0"
  shows "\<exists>c'. AuthEncrypt E p_key p_nonce p_aad p_aadSz p_msg p_msgSz c =
     Some (c', aad @ ccm_seal E (unat (m_uiAuthFldSz c)) p_key nonce aad msg, p_aadSz + p_msgSz + m_uiAuthFldSz c)
     \<and> same_setting c c'"
proof -
  let ?M = "unat (m_uiAuthFldSz c)" and ?c = "prepare p_key p_nonce p_aadSz p_msgSz c"
  let ?buf = "auth_blocks ?M nonce aad msg" and ?hs = "auth_header ?M nonce aad (length msg)"
  note fill = fill_blocks [OF c fits refl, where p_nonce = p_nonce and p_key = p_key and p_aad = "the p_aad" and p_msg = "the p_msg",
      folded aad_def msg_def nonce_def]
  let ?T = "cbc E p_key (replicate 16 0) ?buf" and ?S = "ccm_stream E p_key nonce 0"
  have mac: "cbcMac E (filled ?buf 0 ?c) = (filled ?buf 0 ?c)\<lparr>m_rguiT := ?T\<rparr>"
    using cbcMac_blocks [of "filled ?buf 0 ?c" ?buf E] fill(3) by (simp add: auth_blocks_nonempty)
  have salt: "saltCtr E p_msgSz ((filled ?buf 0 ?c)\<lparr>m_rguiT := ?T\<rparr>) = Some ((filled ?buf 0 ?c)\<lparr>m_rguiT := ?T, m_rguiU := xor_bytes ?T ?S,
      m_prguiWorkBuf := ?hs @ ccm_crypt E p_key nonce msg @ drop (length msg) (pad16 msg)\<rparr>)"
    using saltCtr_region [of "(filled ?buf 0 ?c)\<lparr>m_rguiT := ?T\<rparr>" ?hs msg "drop (length msg) (pad16 msg)" p_msgSz E] c fill(2)
    by (simp add: configured_def nonce_def [symmetric] auth_blocks_split) (simp add: msg_def)
  have len: "unat p_msgSz = length msg" by (simp add: msg_def)
  have guard: "\<not> (\<not> (m_uiLenFldSz c \<noteq> 0 \<and> (p_aad \<noteq> None \<and> p_aadSz \<noteq> 0 \<or> p_aadSz = 0) \<and>
            (p_msg \<noteq> None \<and> p_msgSz \<noteq> 0 \<or> p_msgSz = 0) \<and> p_aadSz < 0xFF00))"
    using c ptrs by (auto simp: configured_def)
  show ?thesis
    unfolding AuthEncrypt_def if_not_P [OF guard] bind_assoc [symmetric] fill(1)
    using fill(2) by (simp add: mac salt same_setting_def ccm_seal_def ccm_mic_def len aad_def [symmetric])
qed

lemma CheckAuthDecrypt_open:
  fixes E p_key p_nonce p_aad p_encMsg p_aadSz p_encMsgSz c
  defines "M \<equiv> unat (m_uiAuthFldSz c)"
  defines "aad \<equiv> mem_bytes (the p_aad) 0 (unat p_aadSz)" and "enc \<equiv> mem_bytes (the p_encMsg) 0 (unat p_encMsgSz)"
    and "nonce \<equiv> mem_bytes p_nonce 0 13"
  defines "msg \<equiv> ccm_crypt E p_key nonce (take (unat p_encMsgSz - M) enc)"
  assumes c: "configured c" and fits: "buffer_size (unat p_aadSz) (unat p_encMsgSz - M) < 65536"
    and ptrs: "p_aadSz < 0xFF00" "p_aad \<noteq> None \<or> p_aadSz = 0" "p_encMsg \<noteq> None" "p_encMsgSz \<noteq> 0" "m_uiAuthFldSz c \<le> p_encMsgSz"
  shows "\<exists>c'. CheckAuthDecrypt E p_key p_nonce p_aad p_aadSz p_encMsg p_encMsgSz c =
     Some (c', if enc = ccm_seal E M p_key nonce aad msg then Some msg else None)
     \<and> same_setting c c'"
proof -
  let ?sz = "p_encMsgSz - m_uiAuthFldSz c" and ?c = "(prepare p_key p_nonce p_aadSz (p_encMsgSz - m_uiAuthFldSz c) c)\<lparr>m_uiWorkBufIdx := 0\<rparr>"
  have sz: "unat ?sz = unat p_encMsgSz - M" and M: "M \<le> unat p_encMsgSz"
    using ptrs(5) by (simp_all add: M_def unat_sub word_le_nat_alt)
  define ct where "ct = mem_bytes (the p_encMsg) 0 (unat ?sz)"
  define mic where "mic = mem_bytes (the p_encMsg) (unat ?sz) M"
  have enc: "enc = ct @ mic" "length ct = unat ?sz" "length mic = M"
    using M mem_bytes_add [of "the p_encMsg" 0 "unat ?sz" M] by (simp_all add: enc_def ct_def mic_def sz)
  have msg: "msg = ccm_crypt E p_key nonce ct" "length msg = length ct" by (simp_all add: msg_def enc sz)
  let ?hs = "auth_header M nonce aad (length ct)" and ?ys = "drop (length ct) (pad16 ct)"
  have "buffer_size (unat p_aadSz) (unat ?sz) < 65536" using fits by (simp add: sz)
  note fill = fill_blocks [OF c this refl, where p_nonce = p_nonce and p_key = p_key and p_aad = "the p_aad" and p_msg = "the p_encMsg",
      folded aad_def ct_def nonce_def, folded M_def]
  have filled_idx: "pushBlock0 p_aadSz ?sz ?c = pushBlock0 p_aadSz ?sz (prepare p_key p_nonce p_aadSz ?sz c)"
    by (simp add: pushBlock0_def Let_def)
  define d where "d = (filled (auth_blocks M nonce aad ct) 0 (prepare p_key p_nonce p_aadSz ?sz c))
    \<lparr>m_rguiT := mic @ drop M (m_rguiT c)\<rparr>"
  have pad: "drop (unat ?sz) (pad16 (ccm_crypt E p_key nonce ct)) = drop (unat ?sz) (pad16 ct)"
    by (simp add: pad16_def enc(2))
  define U where "U = xor_bytes (mic @ drop M (m_rguiT c)) (ccm_stream E p_key nonce 0)"
  have salt: "saltCtr E ?sz d = Some (d\<lparr>m_rguiU := U, m_prguiWorkBuf := auth_blocks M nonce aad msg\<rparr>)"
    using saltCtr_region [of d ?hs ct ?ys ?sz E] c fill(2) enc(2) msg
    by (simp add: d_def U_def configured_def nonce_def [symmetric] auth_blocks_split pad)
  define T where "T = cbc E p_key (replicate 16 0) (auth_blocks M nonce aad msg)"
  have "length (auth_blocks M nonce aad msg) = length (auth_blocks M nonce aad ct)"
    by (simp add: auth_blocks_header msg(2) length_pad16)
  then have mac: "cbcMac E (d\<lparr>m_rguiU := U, m_prguiWorkBuf := auth_blocks M nonce aad msg\<rparr>) =
      d\<lparr>m_rguiU := U, m_prguiWorkBuf := auth_blocks M nonce aad msg, m_rguiT := T\<rparr>"
    using cbcMac_blocks [of "d\<lparr>m_rguiU := U, m_prguiWorkBuf := auth_blocks M nonce aad msg\<rparr>" "auth_blocks M nonce aad msg" E] fill(3)
    by (simp add: auth_blocks_nonempty d_def T_def)
  have "M \<le> 16" using c by (auto simp: M_def configured_def)
  then have "take M T = take M U \<longleftrightarrow> mic = ccm_mic E M p_key nonce aad msg"
    using mic_check [of T "ccm_stream E p_key nonce 0" mic M] enc(3)
    by (simp add: U_def T_def ccm_mic_def length_cbc ccm_stream_def)
  moreover have "enc = ccm_seal E M p_key nonce aad msg \<longleftrightarrow> mic = ccm_mic E M p_key nonce aad msg"
    by (simp add: enc msg ccm_seal_def)
  moreover have "take (unat ?sz) (drop (unat (m_uiMsgOffset d)) (auth_blocks M nonce aad msg)) = msg"
    using fill(2) enc(2) msg(2) by (simp add: d_def auth_blocks_split)
  moreover have "m_uiLenFldSz d = m_uiLenFldSz c" "m_uiAuthFldSz d = m_uiAuthFldSz c" by (simp_all add: d_def)
  moreover have guard: "\<not> (\<not> (m_uiLenFldSz c \<noteq> 0 \<and> (p_aad \<noteq> None \<and> p_aadSz \<noteq> 0 \<or> p_aadSz = 0) \<and>
            (p_encMsg \<noteq> None \<and> p_encMsgSz \<noteq> 0) \<and> p_aadSz < 0xFF00 \<and> m_uiAuthFldSz c \<le> p_encMsgSz))"
    using c ptrs by (auto simp: configured_def)
  ultimately show ?thesis
    unfolding CheckAuthDecrypt_def if_not_P [OF guard] filled_idx bind_assoc [symmetric] fill(1) Let_def
    by (simp add: salt mac same_setting_def mic_def [symmetric] flip: M_def d_def)
qed

section \<open>What the callers get\<close>

lemma mem_bytes_mem_of [simp]: "length xs = n \<Longrightarrow> mem_bytes (mem_of xs) 0 n = xs"
  using holds_mem_of [of xs] by (simp add: holds_iff_mem_bytes)

lemma length_ccm_mic: "M \<le> 16 \<Longrightarrow> length (ccm_mic E M key nonce aad msg) = M"
  by (simp add: ccm_mic_def length_cbc ccm_stream_def)

lemma length_ccm_seal: "length (ccm_seal E 4 key nonce aad msg) = length msg + 4"
  by (simp add: ccm_seal_def length_ccm_mic)

text \<open>The object the wrappers share, in the state every call finds it.\<close>

definition ccm_ready :: "Ccm \<Rightarrow> bool" where
  "ccm_ready c \<longleftrightarrow> m_uiLenFldSz c = 2 \<and> m_uiAuthFldSz c = 4"

definition ccm_fits :: "u8 list \<Rightarrow> u8 list \<Rightarrow> nat \<Rightarrow> bool" where
  "ccm_fits nonce aad n \<longleftrightarrow> length nonce = 13 \<and> length aad < 0xFF00 \<and> buffer_size (length aad) n < 65536"

lemma ccm_fitsD:
  assumes "ccm_fits nonce aad n"
  shows "length nonce = 13" and "length aad < 0xFF00" and "buffer_size (length aad) n < 65536"
    and "length aad + n + 16 < 65536" and "(of_nat (length aad) :: u16) < 0xFF00" and "unat (of_nat (length aad) :: u16) = length aad"
proof -
  show "length nonce = 13" and a: "length aad < 0xFF00" and b: "buffer_size (length aad) n < 65536"
    using assms by (simp_all add: ccm_fits_def)
  have "length aad \<le> ROUND_UP_TO_MUL_16 (if length aad = 0 then 0 else 2 + length aad)"
    using ROUND_UP_ge [of "2 + length aad"] by auto
  then show "length aad + n + 16 < 65536" using b ROUND_UP_ge [of n] by (simp add: buffer_size_def)
  show l: "unat (of_nat (length aad) :: u16) = length aad" using a by (simp add: unat_of_nat_u16)
  show "(of_nat (length aad) :: u16) < 0xFF00" using a by (simp add: word_less_nat_alt l)
qed

lemma ccm_is_ready: "ccm_ready ccm"
  by (simp add: ccm_ready_def ccm_def SetLenFldSz_def SetAuthenFldSz_def Ccm_init_def)

lemma crypt_seals:
  assumes "ccm_ready c" and f: "ccm_fits nonce aad (length msg)"
  shows "\<exists>c'. AES_Crypt_User E key nonce aad msg c = Some (c', AES_SUCCESS, ccm_seal E 4 key nonce aad msg) \<and> ccm_ready c'"
proof -
  note f = ccm_fitsD [OF f]
  have u: "unat (of_nat (length msg) :: u16) = length msg" using f(4) by (simp add: unat_of_nat_u16)
  have "unat (of_nat (length aad + length msg + 4) :: u16) = length aad + length msg + 4" using f(4) by (subst unat_of_nat_u16) auto
  then have "(of_nat (length aad) + of_nat (length msg) + 4 :: u16) \<noteq> 0"
    by (metis add_eq_0_iff_both_eq_0 of_nat_add of_nat_numeral unat_0 zero_neq_numeral)
  moreover obtain c' where "AuthEncrypt E key (mem_of nonce) (Some (mem_of aad)) (of_nat (length aad)) (Some (mem_of msg)) (of_nat (length msg)) c =
      Some (c', aad @ ccm_seal E 4 key nonce aad msg, of_nat (length aad) + of_nat (length msg) + 4)" "ccm_ready c'"
    using AuthEncrypt_seal [of c "of_nat (length aad)" "of_nat (length msg)" "Some (mem_of aad)" "Some (mem_of msg)" E key "mem_of nonce"] assms f u
    by (auto simp: configured_def ccm_ready_def same_setting_def)
  ultimately show ?thesis by (simp add: AES_Crypt_User_def length_ccm_seal)
qed

lemma decrypt_opens:
  assumes "ccm_ready c" and "4 \<le> length enc" and f: "ccm_fits nonce aad (length enc - 4)"
  shows "\<exists>c'. AES_Decrypt_User E key nonce aad enc c = Some (c',
      let msg = ccm_crypt E key nonce (take (length enc - 4) enc) in
      if enc = ccm_seal E 4 key nonce aad msg then (AES_SUCCESS, msg @ drop (length msg) enc) else (AES_ERROR, enc))
    \<and> ccm_ready c'"
proof -
  note f = ccm_fitsD [OF f]
  have u: "unat (of_nat (length enc) :: u16) = length enc" using f(4) by (simp add: unat_of_nat_u16)
  then have "(of_nat (length enc) :: u16) \<noteq> 0" "(4 :: u16) \<le> of_nat (length enc)" using assms(2) by (auto simp: word_le_nat_alt)
  then show ?thesis
    using CheckAuthDecrypt_open [of c "of_nat (length aad)" "of_nat (length enc)" "Some (mem_of aad)" "Some (mem_of enc)" E key "mem_of nonce"] assms f u
    by (auto simp: configured_def ccm_ready_def same_setting_def AES_Decrypt_User_def Let_def decrypt_into_def)
qed

lemma nomic_opens:
  assumes "m_uiLenFldSz c = 2" and "enc \<noteq> []" and f: "ccm_fits nonce aad (length enc)"
  shows "\<exists>c'. AES_Decrypt_User_NoMIC E key nonce aad enc c = Some (c', AES_SUCCESS, ccm_crypt E key nonce enc) \<and> ccm_ready c'"
proof -
  note f = ccm_fitsD [OF f]
  have u: "unat (of_nat (length enc) :: u16) = length enc" using f(4) by (simp add: unat_of_nat_u16)
  then have "(of_nat (length enc) :: u16) \<noteq> 0" using assms(2) by auto
  moreover have "ccm_seal E 0 key nonce aad (ccm_crypt E key nonce enc) = enc" by (simp add: ccm_seal_def ccm_mic_def)
  ultimately obtain c' where "CheckAuthDecrypt E key (mem_of nonce) (Some (mem_of aad)) (of_nat (length aad)) (Some (mem_of enc)) (of_nat (length enc))
      (SetAuthenFldSz 0 c) = Some (c', Some (ccm_crypt E key nonce enc))" "m_uiLenFldSz c' = 2"
    using CheckAuthDecrypt_open [of "SetAuthenFldSz 0 c" "of_nat (length aad)" "of_nat (length enc)" "Some (mem_of aad)" "Some (mem_of enc)" E key "mem_of nonce"] assms f u
    by (auto simp: configured_def SetAuthenFldSz_def same_setting_def)
  then show ?thesis by (simp add: AES_Decrypt_User_NoMIC_def decrypt_into_def ccm_ready_def SetAuthenFldSz_def)
qed

lemma aes_crypt_seal:
  "ccm_fits nonce aad (length msg) \<Longrightarrow> aes_crypt E key nonce aad msg = (AES_SUCCESS, ccm_seal E 4 key nonce aad msg)"
  using crypt_seals [OF ccm_is_ready, of nonce aad msg E key] by (auto simp: aes_crypt_def)

lemma aes_decrypt_open:
  assumes "4 \<le> length enc" and "ccm_fits nonce aad (length enc - 4)"
  shows "aes_decrypt E key nonce aad enc = (let msg = ccm_crypt E key nonce (take (length enc - 4) enc) in
      if enc = ccm_seal E 4 key nonce aad msg then (AES_SUCCESS, msg @ drop (length msg) enc) else (AES_ERROR, enc))"
  using decrypt_opens [OF ccm_is_ready assms, of E key] by (auto simp: aes_decrypt_def)

lemma ccm_seal_recovers: "ccm_crypt E key nonce (take (length msg) (ccm_seal E M key nonce aad msg)) = msg"
  by (simp add: ccm_seal_def)

lemma aes_decrypt_crypt:
  assumes "ccm_fits nonce aad (length msg)"
  shows "aes_decrypt E key nonce aad (ccm_seal E 4 key nonce aad msg) = (AES_SUCCESS, msg @ ccm_mic E 4 key nonce aad msg)"
  using aes_decrypt_open [of "ccm_seal E 4 key nonce aad msg" nonce aad E key] assms
  by (simp add: length_ccm_seal ccm_seal_recovers Let_def) (simp add: ccm_seal_def)

section \<open>Properties\<close>

text \<open>C15:
  Authenticated encryption is CCM. For a 13-octet nonce and sizes whose blocks fit the 16-bit work buffer, the
  wrapper returns success and leaves in the caller's buffer the ciphertext and the 4-octet authentication value
  of RFC 3610, for every block cipher and whatever earlier calls left in the shared object.
\<close>
theorem encryption_is_ccm:
  assumes "ccm_ready c" and "ccm_fits nonce aad (length msg)"
  shows "\<exists>c'. AES_Crypt_User E key nonce aad msg c = Some (c', AES_SUCCESS, ccm_seal E 4 key nonce aad msg) \<and> ccm_ready c'"
  by (rule crypt_seals [OF assms])

definition sample_aes :: aes where
  "sample_aes key b i = b ! i XOR key ! i XOR 0x5A"

theorem encryption_is_ccm_witness:
  "\<exists>c'. AES_Crypt_User sample_aes (replicate 16 7) (replicate 13 1) [1, 2] [10, 20, 30] ccm =
     Some (c', AES_SUCCESS, ccm_seal sample_aes 4 (replicate 16 7) (replicate 13 1) [1, 2] [10, 20, 30]) \<and> ccm_ready c'"
  by (rule encryption_is_ccm [OF ccm_is_ready]) (simp add: ccm_fits_def buffer_size_def ROUND_UP_TO_MUL_16_def)

text \<open>C16:
  Decryption accepts exactly what encryption produces. Of a buffer with at least the authentication value, it
  recovers the message whose encryption under the same key, nonce and additional data is the buffer, if there is
  one; otherwise it reports an error and the caller's buffer is as it was.
\<close>
theorem decryption_accepts_exactly_sealed:
  assumes "ccm_ready c" and "4 \<le> length enc" and "ccm_fits nonce aad (length enc - 4)"
  shows "\<exists>c' rc out. AES_Decrypt_User E key nonce aad enc c = Some (c', rc, out) \<and> ccm_ready c'
    \<and> (if rc = AES_SUCCESS
       then \<exists>c''. AES_Crypt_User E key nonce aad (take (length enc - 4) out) c = Some (c'', AES_SUCCESS, enc)
       else rc = AES_ERROR \<and> out = enc \<and> (\<nexists>msg c''. AES_Crypt_User E key nonce aad msg c = Some (c'', AES_SUCCESS, enc)
           \<and> length msg + 4 = length enc))"
proof -
  define msg where "msg = ccm_crypt E key nonce (take (length enc - 4) enc)"
  have len: "length msg = length enc - 4" by (simp add: msg_def)
  obtain c' where d: "AES_Decrypt_User E key nonce aad enc c = Some (c',
      if enc = ccm_seal E 4 key nonce aad msg then (AES_SUCCESS, msg @ drop (length msg) enc) else (AES_ERROR, enc))" "ccm_ready c'"
    using decrypt_opens [OF assms, of E key, unfolded Let_def, folded msg_def] by blast
  have crypt: "\<exists>c''. AES_Crypt_User E key nonce aad m c = Some (c'', AES_SUCCESS, ccm_seal E 4 key nonce aad m)"
    if "length m = length enc - 4" for m using crypt_seals [OF assms(1), of nonce aad m E key] assms(3) that by auto
  have only: "enc = ccm_seal E 4 key nonce aad msg" if "AES_Crypt_User E key nonce aad m c = Some (c'', AES_SUCCESS, enc)"
    "length m + 4 = length enc" for m c''
  proof -
    have e: "enc = ccm_seal E 4 key nonce aad m" using crypt [of m] that by auto
    then have "take (length enc - 4) enc = ccm_crypt E key nonce m" using that(2) by (auto simp: ccm_seal_def)
    then show ?thesis using e by (simp add: msg_def)
  qed
  show ?thesis
  proof (cases "enc = ccm_seal E 4 key nonce aad msg")
    case True
    then show ?thesis using d crypt [OF len] len by auto
  next
    case False
    then show ?thesis using d only by auto
  qed
qed

theorem decryption_accepts_exactly_sealed_witness:
  "\<exists>c' rc out. AES_Decrypt_User sample_aes (replicate 16 7) (replicate 13 1) [1, 2] [10, 20, 30, 40, 50] ccm = Some (c', rc, out)"
  using decryption_accepts_exactly_sealed [OF ccm_is_ready, of "[10, 20, 30, 40, 50]" "replicate 13 1" "[1, 2]" sample_aes "replicate 16 7"]
  by (auto simp: ccm_fits_def buffer_size_def ROUND_UP_TO_MUL_16_def)

lemma prepare_sizes:
  fixes p_aadSz p_msgSz :: u16
  defines "off \<equiv> 16 + ROUND_UP_TO_MUL_16 (if unat p_aadSz = 0 then 0 else 2 + unat p_aadSz)"
  shows "off < 65536 \<Longrightarrow> unat (m_uiMsgOffset (prepare k n p_aadSz p_msgSz c)) = off"
    and "length (m_prguiWorkBuf (prepare k n p_aadSz p_msgSz c)) =
      (unat (m_uiMsgOffset (prepare k n p_aadSz p_msgSz c)) + ROUND_UP_TO_MUL_16 (unat p_msgSz)) mod 65536"
  unfolding off_def
  by (auto simp: prepare_def Let_def unat_of_nat_u16 unat_eq_zero unat_of_nat take_bit_eq_mod simp del: of_nat_add of_nat_Suc split: if_splits)

lemma put_SomeD: "put i bs c = Some c' \<Longrightarrow> length (m_prguiWorkBuf c') = length (m_prguiWorkBuf c) \<and> m_uiWorkBufIdx c' = m_uiWorkBufIdx c
    \<and> unat i + length bs \<le> length (m_prguiWorkBuf c) \<and> m_uiNonceSz c' = m_uiNonceSz c \<and> m_puiNonce c' = m_puiNonce c"
  by (auto simp: put_def Let_def split: if_splits)

lemma push_SomeD: "push bs c = Some c' \<Longrightarrow> length (m_prguiWorkBuf c') = length (m_prguiWorkBuf c)
    \<and> m_uiWorkBufIdx c' = m_uiWorkBufIdx c + of_nat (length bs)
    \<and> unat (m_uiWorkBufIdx c) + length bs \<le> length (m_prguiWorkBuf c) \<and> m_uiNonceSz c' = m_uiNonceSz c \<and> m_puiNonce c' = m_puiNonce c"
  by (auto simp: push_def dest!: put_SomeD)

lemma pushBlock0_SomeD:
  assumes "pushBlock0 a m c = Some c'" and "m_uiNonceSz c = 13"
  shows "length (m_prguiWorkBuf c') = length (m_prguiWorkBuf c) \<and> m_uiWorkBufIdx c' = 16"
  using assms by (auto simp: pushBlock0_def Let_def bind_eq_Some_conv dest!: push_SomeD)

lemma pushAad_SomeD:
  assumes "pushAad p a c = Some c'" and "m_uiWorkBufIdx c = 16" and "a < 0xFF00"
  shows "length (m_prguiWorkBuf c') = length (m_prguiWorkBuf c)
    \<and> unat (m_uiWorkBufIdx c') = 16 + ROUND_UP_TO_MUL_16 (if unat a = 0 then 0 else 2 + unat a)"
proof (cases "a = 0")
  case False
  let ?n = "2 + unat a"
  have a: "unat a < 0xFF00" using assms(3) by (simp add: word_less_nat_alt)
  have i: "m_uiWorkBufIdx c + 2 + a = of_nat (16 + ?n)" by (simp add: assms(2))
  have "unat (of_nat (ROUND_UP_TO_MUL_16 (unat (of_nat (16 + ?n) :: u16))) :: u16) = 16 + ROUND_UP_TO_MUL_16 ?n"
    using a ROUND_UP_less [of ?n] by (simp only: unat_of_nat_u16 ROUND_UP_add [OF dvd_refl])
  then show ?thesis using assms(1) False i
    by (auto simp: pushAad_def round_index_def bind_eq_Some_conv add.assoc unat_eq_zero dest!: push_SomeD)
qed (use assms in \<open>simp add: pushAad_def\<close>)

lemma load_overruns:
  assumes nonce: "m_uiNonceSz c = 13" and aad: "p_aadSz < 0xFF00" and small:
    "length (m_prguiWorkBuf c) \<le> 16 + ROUND_UP_TO_MUL_16 (if unat p_aadSz = 0 then 0 else 2 + unat p_aadSz)" and "p_msgSz \<noteq> 0"
  shows "pushBlock0 p_aadSz p_msgSz c \<bind> pushAad p_aad p_aadSz \<bind> pushMsg p_msg p_msgSz = None"
proof (rule ccontr)
  assume "\<not> ?thesis"
  then obtain c1 c2 c3 where p: "pushBlock0 p_aadSz p_msgSz c = Some c1" "pushAad p_aad p_aadSz c1 = Some c2"
      "push (mem_bytes p_msg 0 (unat p_msgSz)) c2 = Some c3"
    using assms(4) by (auto simp: bind_eq_Some_conv pushMsg_def)
  note c1 = pushBlock0_SomeD [OF p(1) nonce]
  note c2 = pushAad_SomeD [OF p(2) conjunct2 [OF c1] aad]
  have "unat p_msgSz \<noteq> 0" using assms(4) by (simp add: unat_eq_zero)
  then show False using push_SomeD [OF p(3)] c1 c2 small by simp
qed

text \<open>
  The work buffer is large enough exactly when the rounded sizes stay below \<open>2^16\<close>: for larger messages the 16-bit
  buffer size wraps around and the message is copied beyond the allocated octets.
\<close>
lemma encryption_overruns_iff:
  assumes "ccm_ready c" and "p_aadSz < 0xFF00"
  shows "AuthEncrypt E key nonce (Some p_aad) p_aadSz (Some p_msg) p_msgSz c = None \<longleftrightarrow>
    65536 \<le> buffer_size (unat p_aadSz) (unat p_msgSz)"
proof -
  let ?off = "16 + ROUND_UP_TO_MUL_16 (if unat p_aadSz = 0 then 0 else 2 + unat p_aadSz)"
  let ?c = "prepare key nonce p_aadSz p_msgSz c"
  have c: "configured c" "m_uiNonceSz ?c = 13" using assms(1) by (auto simp: configured_def ccm_ready_def)
  have None: "AuthEncrypt E key nonce (Some p_aad) p_aadSz (Some p_msg) p_msgSz c = None"
    if big: "65536 \<le> buffer_size (unat p_aadSz) (unat p_msgSz)"
  proof -
    have a: "unat p_aadSz < 0xFF00" using assms(2) by (simp add: word_less_nat_alt)
    then have off: "?off < 65536" using ROUND_UP_less [of "2 + unat p_aadSz"] by auto
    have "length (m_prguiWorkBuf ?c) = (?off + ROUND_UP_TO_MUL_16 (unat p_msgSz)) mod 65536"
      using prepare_sizes(2) [of key nonce p_aadSz p_msgSz c] prepare_sizes(1) [OF off] by simp
    also have "\<dots> = ?off + ROUND_UP_TO_MUL_16 (unat p_msgSz) - 65536"
      using big off ROUND_UP_u16 [of p_msgSz] by (simp add: mod_if buffer_size_def)
    finally have "length (m_prguiWorkBuf ?c) \<le> ?off" using ROUND_UP_u16 [of p_msgSz] by linarith
    moreover have "p_msgSz \<noteq> 0" using big off by (auto simp: buffer_size_def)
    ultimately have "pushBlock0 p_aadSz p_msgSz ?c \<bind> pushAad p_aad p_aadSz \<bind> pushMsg p_msg p_msgSz = None"
      using load_overruns [OF c(2) assms(2)] by blast
    then show ?thesis
      unfolding AuthEncrypt_def bind_assoc [symmetric] using assms c \<open>p_msgSz \<noteq> 0\<close> by (auto simp: ccm_ready_def)
  qed
  show ?thesis
    using None AuthEncrypt_seal [OF c(1), of p_aadSz p_msgSz "Some p_aad" "Some p_msg" E key nonce] assms(2) by force
qed

theorem encryption_overruns_iff_witness:
  "AuthEncrypt sample_aes (replicate 16 7) (\<lambda>_. 1) (Some (\<lambda>_. 2)) 10 (Some (\<lambda>_. 3)) 65500 ccm = None"
proof -
  have "(10 :: u16) < 0xFF00" and "65536 \<le> buffer_size (unat (10 :: u16)) (unat (65500 :: u16))"
    by (simp_all add: buffer_size_def ROUND_UP_TO_MUL_16_def)
  then show ?thesis using encryption_overruns_iff [OF ccm_is_ready] by blast
qed

end
