(* ===== verification/Hmac.thy ===== *)
theory Hmac
  imports Ccm Dmap_Utils
begin

text \<open>
  The hash function and the keyed hash that authenticate the join of a device
  (\<^verbatim>\<open>Crypto_Hash_Function\<close> and \<^verbatim>\<open>Keyed_Hash_MAC\<close> of \<^verbatim>\<open>porting.cpp\<close>). Both work in place on
  memory: the block cipher writes every intermediate result over the first 16 octets of the buffer the
  message is read from. The loop is a partial function, so that its termination is a theorem; the
  pointers, the 16-bit length and the two flags of the C code are the fields of a record.

  The reference definitions are the Matyas-Meyer-Oseas hash over a padded message and the HMAC
  construction on top of it; the theorems show that the code ends after the expected number of blocks
  and computes them whatever the block cipher is and whatever the stack held before.
\<close>

abbreviation (input) MAX_HMAC_INPUT_SIZE :: nat where "MAX_HMAC_INPUT_SIZE \<equiv> 86"

text \<open>A \<^verbatim>\<open>memcpy\<close> to address \<open>a\<close>.\<close>

definition mem_write :: "mem \<Rightarrow> addr \<Rightarrow> u8 list \<Rightarrow> mem" where
  "mem_write m a bs x = (if a \<le> x \<and> x < a + length bs then bs ! (x - a) else m x)"

record hash_state =
  hash_mem :: mem
  p_pucInputBuff :: addr
  p_unInputBuffLen :: u16
  aucInput :: "u8 list"
  ucNextBlock :: bool
  ucLastBlock :: bool

text \<open>The block built when fewer than 16 octets are left; \<open>init\<close> is \<^verbatim>\<open>unInitialLen\<close>.\<close>

definition padded_block :: "hash_state \<Rightarrow> hash_state" where
  "padded_block st =
     (let n = unat (p_unInputBuffLen st); input = mem_bytes (hash_mem st) (p_pucInputBuff st) n in
      if n = 0
      then st\<lparr>aucInput := 0x80 # replicate 13 0 @ drop 14 (aucInput st), ucLastBlock := True\<rparr>
      else if n \<le> 16 - 3
      then st\<lparr>aucInput := input @ [0x80] @ replicate (16 - 2 - (n + 1)) 0 @ drop 14 (aucInput st),
              p_unInputBuffLen := p_unInputBuffLen st + 1, ucLastBlock := True\<rparr>
      else if \<not> ucNextBlock st \<and> 16 - 2 \<le> n
      then st\<lparr>aucInput := input @ [0x80] @ (if n = 16 - 2 then [0] else []), ucNextBlock := True\<rparr>
      else st\<lparr>aucInput := replicate 14 0 @ drop 14 (aucInput st), ucLastBlock := True\<rparr>)"

definition closing_block :: "u16 \<Rightarrow> hash_state \<Rightarrow> hash_state" where
  "closing_block unInitialLen st =
     (if ucLastBlock st
      then st\<lparr>aucInput := (aucInput st)[14 := ucast (drop_bit 5 unInitialLen), 15 := ucast (push_bit 3 unInitialLen)]\<rparr>
      else st)"

definition hash_step :: "aes \<Rightarrow> addr \<Rightarrow> u16 \<Rightarrow> hash_state \<Rightarrow> hash_state" where
  "hash_step E pucBuffRes unInitialLen st =
     (let key = aucInput st;
          st = (if 16 \<le> p_unInputBuffLen st
                then st\<lparr>aucInput := mem_bytes (hash_mem st) (p_pucInputBuff st) 16,
                        p_unInputBuffLen := p_unInputBuffLen st - 16, p_pucInputBuff := p_pucInputBuff st + 16\<rparr>
                else closing_block unInitialLen (padded_block st));
          out = rijndaelEncrypt E key (aucInput st) in
      st\<lparr>hash_mem := mem_write (hash_mem st) pucBuffRes out, aucInput := xor_bytes (aucInput st) out\<rparr>)"

partial_function (option) hash_loop :: "aes \<Rightarrow> addr \<Rightarrow> u16 \<Rightarrow> hash_state \<Rightarrow> hash_state option" where
  "hash_loop E pucBuffRes unInitialLen st =
     (if ucLastBlock st then Some st else hash_loop E pucBuffRes unInitialLen (hash_step E pucBuffRes unInitialLen st))"

definition hash_start :: "mem \<Rightarrow> addr \<Rightarrow> u16 \<Rightarrow> hash_state" where
  "hash_start m a len = \<lparr>hash_mem = m, p_pucInputBuff = a, p_unInputBuffLen = len, aucInput = replicate 16 0,
     ucNextBlock = False, ucLastBlock = False\<rparr>"

definition Crypto_Hash_Function :: "aes \<Rightarrow> mem \<Rightarrow> addr \<Rightarrow> u16 \<Rightarrow> (mem \<times> u8) option" where
  "Crypto_Hash_Function E m a len =
     (if len < 16 then Some (m, SFC_FAILURE)
      else if 8192 < len then Some (m, SFC_FAILURE)
      else map_option (\<lambda>st. (mem_write (hash_mem st) a (aucInput st), SFC_SUCCESS)) (hash_loop E a len (hash_start m a len)))"

text \<open>\<open>aucK0\<close> is the array on the stack with whatever it holds, \<open>m\<close> the memory of the caller.\<close>

definition Keyed_Hash_MAC :: "aes \<Rightarrow> u8 list \<Rightarrow> mem \<Rightarrow> mem \<Rightarrow> addr \<Rightarrow> u16 \<Rightarrow> (mem \<times> u8) option" where
  "Keyed_Hash_MAC E p_pucKey aucK0 m a len =
     (if MAX_HMAC_INPUT_SIZE < unat len then Some (m, SFC_FAILURE)
      else if len < 16 then Some (m, SFC_FAILURE)
      else
        let aucK0 = mem_write aucK0 16 (map (\<lambda>b. b XOR 0x36) (take 16 p_pucKey));
            aucK0 = mem_write aucK0 32 (mem_bytes m a (unat len)) in
        case Crypto_Hash_Function E aucK0 16 (16 + len) of
          None \<Rightarrow> None
        | Some (aucK0, sfc) \<Rightarrow>
            if sfc \<noteq> SFC_SUCCESS then Some (m, SFC_FAILURE)
            else
              let aucK0 = mem_write aucK0 0 (map (\<lambda>b. b XOR 0x5C) (take 16 p_pucKey)) in
              (case Crypto_Hash_Function E aucK0 0 (2 * 16) of
                 None \<Rightarrow> None
               | Some (aucK0, sfc) \<Rightarrow>
                   if sfc \<noteq> SFC_SUCCESS then Some (m, SFC_FAILURE)
                   else Some (mem_write m a (mem_bytes aucK0 0 16), SFC_SUCCESS)))"

section \<open>Reference definitions\<close>

function mmo :: "aes \<Rightarrow> u8 list \<Rightarrow> u8 list \<Rightarrow> u8 list" where
  "mmo E h bs =
     (if bs = [] then h else mmo E (xor_bytes (take 16 bs) (rijndaelEncrypt E h (take 16 bs))) (drop 16 bs))"
  by pat_completeness auto
termination by (relation "measure (\<lambda>(E, h, bs). length bs)") auto

definition bit_length :: "u16 \<Rightarrow> u8 list" where
  "bit_length n = DMAP_InsertUint16 (8 * n)"

definition padding :: "nat \<Rightarrow> u8 list" where
  "padding n = 0x80 # replicate ((29 - n mod 16) mod 16) 0"

definition mmo_hash :: "aes \<Rightarrow> u8 list \<Rightarrow> u8 list" where
  "mmo_hash E msg = mmo E (replicate 16 0) (msg @ padding (length msg) @ bit_length (of_nat (length msg)))"

definition hmac :: "aes \<Rightarrow> u8 list \<Rightarrow> u8 list \<Rightarrow> u8 list" where
  "hmac E key msg =
     mmo_hash E (map (\<lambda>b. b XOR 0x5C) key @ mmo_hash E (map (\<lambda>b. b XOR 0x36) key @ msg))"

section \<open>The loop computes the hash\<close>

declare mmo.simps [simp del]

lemma mmo_Nil [simp]: "mmo E h [] = h"
  by (simp add: mmo.simps)

lemma mmo_block: "length b = 16 \<Longrightarrow> mmo E h (b @ bs) = mmo E (xor_bytes b (rijndaelEncrypt E h b)) bs"
  by (subst mmo.simps) (auto)

lemma mmo_last: "length b = 16 \<Longrightarrow> mmo E h b = xor_bytes b (rijndaelEncrypt E h b)"
  using mmo_block [of b E h "[]"] by simp

lemma length_mmo: "length h = 16 \<Longrightarrow> 16 dvd length bs \<Longrightarrow> length (mmo E h bs) = 16"
proof (induction E h bs rule: mmo.induct)
  case (1 E h bs)
  show ?case
  proof (cases "bs = []")
    case False
    then have "16 \<le> length bs" using "1.prems"(2) by (auto dest: dvd_imp_le)
    then have "16 dvd length (drop 16 bs)" using "1.prems"(2) by (simp add: dvd_diff_nat)
    moreover have "length (xor_bytes (take 16 bs) (rijndaelEncrypt E h (take 16 bs))) = 16"
      using \<open>16 \<le> length bs\<close> by (simp add: length_rijndaelEncrypt)
    ultimately have "length (mmo E (xor_bytes (take 16 bs) (rijndaelEncrypt E h (take 16 bs))) (drop 16 bs)) = 16"
      using "1.IH" False by blast
    then show ?thesis using False by (subst mmo.simps) (simp only: if_False)
  qed (use "1.prems" in simp)
qed

lemma length_padded: "16 dvd n + length (padding n @ bit_length k)"
proof -
  have "(n + (3 + k mod 16)) mod 16 = (n mod 16 + (3 + k)) mod 16" for k :: nat
    by (metis mod_add_left_eq mod_add_right_eq)
  then have "(n + (3 + (29 - n mod 16) mod 16)) mod 16 = (n mod 16 + (3 + (29 - n mod 16))) mod 16" .
  also have "n mod 16 + (3 + (29 - n mod 16)) = 2 * 16"
    using mod_less_divisor [of 16 n] by linarith
  finally have "16 dvd n + (3 + (29 - n mod 16) mod 16)" by (simp add: mod_eq_0_iff_dvd)
  moreover have "n + length (padding n @ bit_length k) = n + (3 + (29 - n mod 16) mod 16)"
    by (simp add: padding_def bit_length_def DMAP_InsertUint16_def)
  ultimately show ?thesis by simp
qed

lemma length_mmo_hash [simp]: "length (mmo_hash E msg) = 16"
  using length_padded [of "length msg"] by (simp add: mmo_hash_def length_mmo)

lemma mem_write_outside: "x < a \<or> a + length bs \<le> x \<Longrightarrow> mem_write m a bs x = m x"
  by (auto simp: mem_write_def)

lemma mem_bytes_write_other: "p + n \<le> a \<or> a + length bs \<le> p \<Longrightarrow> mem_bytes (mem_write m a bs) p n = mem_bytes m p n"
  by (rule mem_bytes_cong) (auto simp: mem_write_def)

lemma mem_bytes_write_same [simp]: "n = length bs \<Longrightarrow> mem_bytes (mem_write m a bs) a n = bs"
  by (simp add: mem_bytes_eq_iff_nth mem_write_def)

lemma mem_write_write: "length bs = length cs \<Longrightarrow> mem_write (mem_write m a bs) a cs = mem_write m a cs"
  by (auto simp: mem_write_def fun_eq_iff)

lemma bit_length_octets: "[ucast (drop_bit 5 (n :: u16)), ucast (push_bit 3 n)] = bit_length n"
proof -
  have "8 * n = push_bit 3 n" by (simp add: push_bit_eq_mult)
  moreover have "ucast (drop_bit 5 n) = (ucast (drop_bit 8 (push_bit 3 n)) :: u8)"
    by (rule bit_word_eqI) (auto simp: bit_simps)
  ultimately show ?thesis by (simp add: bit_length_def DMAP_InsertUint16_def)
qed

text \<open>
  A run of the loop from a state whose input lies behind the octets it overwrites: it ends after the stated
  number of steps, with the hash of the rest of the message in \<^verbatim>\<open>aucInput\<close> and only the first 16
  octets of the buffer changed.
\<close>

definition overwritten :: "addr \<Rightarrow> mem \<Rightarrow> mem \<Rightarrow> bool" where
  "overwritten a m m' \<longleftrightarrow> (\<exists>bs. length bs = 16 \<and> m' = mem_write m a bs)"

definition hash_done :: "aes \<Rightarrow> addr \<Rightarrow> u16 \<Rightarrow> hash_state \<Rightarrow> bool" where
  "hash_done E a init st =
     (let n = unat (p_unInputBuffLen st); st' = (hash_step E a init ^^ ((n + 18) div 16)) st in
      hash_loop E a init st = Some st' \<and>
      aucInput st' = mmo E (aucInput st) (mem_bytes (hash_mem st) (p_pucInputBuff st) n @ padding n @ bit_length init) \<and>
      overwritten a (hash_mem st) (hash_mem st'))"

lemma overwritten_block [simp]: "overwritten a m (mem_write m a (rijndaelEncrypt E k b))"
  unfolding overwritten_def by (rule exI [of _ "rijndaelEncrypt E k b"]) (simp add: length_rijndaelEncrypt)

lemma overwritten_again: "overwritten a (mem_write m a bs) m' \<Longrightarrow> length bs = 16 \<Longrightarrow> overwritten a m m'"
  by (auto simp: overwritten_def mem_write_write)

lemma hash_loop_step:
  "\<not> ucLastBlock st \<Longrightarrow> hash_loop E a init st = hash_loop E a init (hash_step E a init st)"
  by (subst hash_loop.simps) simp

lemma hash_loop_last: "ucLastBlock st \<Longrightarrow> hash_loop E a init st = Some st"
  by (subst hash_loop.simps) simp

lemma hash_step_block:
  "16 \<le> p_unInputBuffLen st \<Longrightarrow> hash_step E a init st =
    (let b = mem_bytes (hash_mem st) (p_pucInputBuff st) 16; out = rijndaelEncrypt E (aucInput st) b in
     st\<lparr>hash_mem := mem_write (hash_mem st) a out, p_pucInputBuff := p_pucInputBuff st + 16,
        p_unInputBuffLen := p_unInputBuffLen st - 16, aucInput := xor_bytes b out\<rparr>)"
  by (simp add: hash_step_def Let_def)

text \<open>The block the step encrypts when fewer than 16 octets are left.\<close>

lemma hash_step_tail:
  "unat (p_unInputBuffLen st) < 16 \<Longrightarrow> hash_step E a init st =
    (let t = closing_block init (padded_block st); out = rijndaelEncrypt E (aucInput st) (aucInput t) in
     t\<lparr>hash_mem := mem_write (hash_mem t) a out, aucInput := xor_bytes (aucInput t) out\<rparr>)"
  by (simp add: hash_step_def Let_def word_le_nat_alt)

lemma tail_mem [simp]: "hash_mem (closing_block init (padded_block st)) = hash_mem st"
  by (simp add: closing_block_def padded_block_def Let_def)

lemma two_last: "length xs = 16 \<Longrightarrow> (xs[14 := x, 15 := y]) = take 14 xs @ [x, y]"
  by (rule nth_equalityI) (auto simp: nth_append nth_list_update less_Suc_eq numeral_eq_Suc)

lemma padding_short: "n \<le> 13 \<Longrightarrow> padding n = 0x80 # replicate (13 - n) 0"
  by (simp add: padding_def mod_if)

lemma length_bit_length [simp]: "length (bit_length n) = 2"
  by (simp add: bit_length_def DMAP_InsertUint16_def)

lemma short_tail:
  fixes st init
  defines "n \<equiv> unat (p_unInputBuffLen st)" and "t \<equiv> closing_block init (padded_block st)"
  assumes "n \<le> 13" and "length (aucInput st) = 16"
  shows "ucLastBlock t" and "aucInput t = mem_bytes (hash_mem st) (p_pucInputBuff st) n @ padding n @ bit_length init"
proof -
  show "ucLastBlock t"
    using assms by (simp add: closing_block_def padded_block_def Let_def)
  show "aucInput t = mem_bytes (hash_mem st) (p_pucInputBuff st) n @ padding n @ bit_length init"
    using assms(3,4) unfolding t_def closing_block_def padded_block_def Let_def n_def [symmetric] padding_short [OF assms(3)]
    by (auto simp: two_last bit_length_octets take_Cons')
qed

lemma long_tail:
  fixes st init
  defines "n \<equiv> unat (p_unInputBuffLen st)" and "t \<equiv> closing_block init (padded_block st)"
  assumes "n = 14 \<or> n = 15" and "\<not> ucNextBlock st" and "\<not> ucLastBlock st"
  shows "ucNextBlock t" and "\<not> ucLastBlock t" and "p_unInputBuffLen t = p_unInputBuffLen st"
    and "aucInput t @ replicate 14 0 = mem_bytes (hash_mem st) (p_pucInputBuff st) n @ padding n"
  using assms(3-5) unfolding t_def n_def [symmetric]
  by (auto simp: closing_block_def padded_block_def Let_def n_def [symmetric] padding_def replicate_append_same
    simp flip: replicate_Suc)

lemma extra_block:
  fixes st init
  defines "t \<equiv> closing_block init (padded_block st)"
  assumes "14 \<le> unat (p_unInputBuffLen st)" and "ucNextBlock st" and "length (aucInput st) = 16"
  shows "ucLastBlock t" and "aucInput t = replicate 14 0 @ bit_length init"
  using assms(2-) unfolding t_def
  by (auto simp: closing_block_def padded_block_def Let_def two_last bit_length_octets)

lemma hash_doneI:
  assumes "hash_step E a init st = t" and "\<not> ucLastBlock st" and "hash_done E a init t"
    and "unat (p_unInputBuffLen st) = unat (p_unInputBuffLen t) + 16"
    and "p_pucInputBuff t = p_pucInputBuff st + 16" and "hash_mem t = mem_write (hash_mem st) a out" and "length out = 16"
    and "a + 16 \<le> p_pucInputBuff t"
    and "aucInput t = xor_bytes (mem_bytes (hash_mem st) (p_pucInputBuff st) 16)
           (rijndaelEncrypt E (aucInput st) (mem_bytes (hash_mem st) (p_pucInputBuff st) 16))"
  shows "hash_done E a init st"
proof -
  let ?n = "unat (p_unInputBuffLen t)"
  have count: "(hash_step E a init ^^ ((?n + 16 + 18) div 16)) st = (hash_step E a init ^^ ((?n + 18) div 16)) t"
    using div_add_self2 [of 16 "?n + 18"] assms(1) by (simp add: add.commute add.left_commute funpow_swap1)
  have "mem_bytes (hash_mem t) (p_pucInputBuff t) ?n = mem_bytes (hash_mem st) (p_pucInputBuff t) ?n"
    using assms(6-8) by (simp add: mem_bytes_write_other)
  moreover have "padding (?n + 16) = padding ?n" by (simp add: padding_def)
  moreover have "mem_bytes (hash_mem st) (p_pucInputBuff st) (?n + 16) =
      mem_bytes (hash_mem st) (p_pucInputBuff st) 16 @ mem_bytes (hash_mem st) (p_pucInputBuff t) ?n"
    using mem_bytes_add [of "hash_mem st" "p_pucInputBuff st" 16 ?n] by (simp add: assms(5) add.commute)
  ultimately show ?thesis
    using assms(3,9) unfolding hash_done_def Let_def assms(4) count hash_loop_step [OF assms(2)] assms(1)
    by (auto simp: mmo_block assms(6) intro: overwritten_again assms(7))
qed

lemma hash_done_tail:
  assumes "unat (p_unInputBuffLen st) \<le> 13" and "\<not> ucLastBlock st" and "length (aucInput st) = 16"
  shows "hash_done E a init st"
proof -
  note t = short_tail [OF assms(1,3)]
  have l: "length (aucInput (closing_block init (padded_block st))) = 16"
    using t(2) assms(1) by (simp add: padding_short)
  have "(unat (p_unInputBuffLen st) + 18) div 16 = 1" using assms(1) by simp
  then show ?thesis
    using assms t l unfolding hash_done_def hash_loop_step [OF assms(2)]
    by (auto simp: hash_step_tail Let_def hash_loop_last mmo_last length_rijndaelEncrypt)
qed

text \<open>Fourteen or fifteen octets leave no room for the length, which gets a block of its own.\<close>

lemma hash_done_long_tail:
  assumes "unat (p_unInputBuffLen st) = 14 \<or> unat (p_unInputBuffLen st) = 15"
    and "\<not> ucLastBlock st" and "\<not> ucNextBlock st" and "length (aucInput st) = 16"
  shows "hash_done E a init st"
proof -
  let ?n = "unat (p_unInputBuffLen st)" and ?t = "hash_step E a init st" and ?b = "aucInput (closing_block init (padded_block st))"
  let ?u = "hash_step E a init ?t"
  note b = long_tail [OF assms(1,3,2)]
  have lb: "length ?b = 16" using assms(1) arg_cong [OF b(4), of length] by (auto simp: padding_def)
  have t: "ucNextBlock ?t" "\<not> ucLastBlock ?t" "p_unInputBuffLen ?t = p_unInputBuffLen st" "length (aucInput ?t) = 16"
      "aucInput ?t = xor_bytes ?b (rijndaelEncrypt E (aucInput st) ?b)"
      "hash_mem ?t = mem_write (hash_mem st) a (rijndaelEncrypt E (aucInput st) ?b)"
    using assms(1) b(1-3) lb by (auto simp: hash_step_tail Let_def length_rijndaelEncrypt)
  have "14 \<le> unat (p_unInputBuffLen ?t)" using assms(1) t(3) by auto
  note e = extra_block [OF this t(1,4)]
  have msg: "mem_bytes (hash_mem st) (p_pucInputBuff st) ?n @ padding ?n @ bit_length init = ?b @ replicate 14 0 @ bit_length init"
    using b(4) by (metis append.assoc)
  have "(?n + 18) div 16 = 2" using assms(1) by auto
  moreover have "ucLastBlock ?u" "aucInput ?u = mmo E (aucInput ?t) (replicate 14 0 @ bit_length init)"
      "overwritten a (hash_mem ?t) (hash_mem ?u)"
    using assms(1) t(3) e by (auto simp: hash_step_tail [of ?t] Let_def mmo_last length_rijndaelEncrypt)
  ultimately show ?thesis
    using t(5,6) lb unfolding hash_done_def Let_def msg hash_loop_step [OF assms(2)] hash_loop_step [OF t(2)]
    by (auto simp: hash_loop_last mmo_block numeral_2_eq_2 length_rijndaelEncrypt intro: overwritten_again)
qed

lemma hash_runs:
  assumes "\<not> ucLastBlock st" and "\<not> ucNextBlock st" and "length (aucInput st) = 16"
    and "a + 16 \<le> p_pucInputBuff st \<or> a = p_pucInputBuff st \<and> 16 \<le> p_unInputBuffLen st"
  shows "hash_done E a init st"
  using assms
proof (induction "unat (p_unInputBuffLen st)" arbitrary: st rule: less_induct)
  case less
  show ?case
  proof (cases "16 \<le> p_unInputBuffLen st")
    case True
    then have "16 \<le> unat (p_unInputBuffLen st)" by (simp add: word_le_nat_alt)
    then have len: "unat (p_unInputBuffLen st) = unat (p_unInputBuffLen st - 16) + 16"
      using True by (simp add: unat_sub)
    let ?t = "hash_step E a init st"
    have "hash_done E a init ?t"
      by (rule less.hyps) (use True len less.prems in \<open>auto simp: hash_step_block Let_def length_rijndaelEncrypt\<close>)
    then show ?thesis
      by (rule hash_doneI [OF refl less.prems(1), where out = "rijndaelEncrypt E (aucInput st) (mem_bytes (hash_mem st) (p_pucInputBuff st) 16)"])
        (use True len less.prems in \<open>auto simp: hash_step_block Let_def length_rijndaelEncrypt\<close>)
  next
    case False
    then have "unat (p_unInputBuffLen st) < 16" by (simp add: word_le_nat_alt)
    then consider "unat (p_unInputBuffLen st) \<le> 13" | "unat (p_unInputBuffLen st) = 14 \<or> unat (p_unInputBuffLen st) = 15" by linarith
    then show ?thesis
      by cases (use less.prems in \<open>simp_all add: hash_done_tail hash_done_long_tail\<close>)
  qed
qed

lemma Crypto_Hash_runs:
  assumes "16 \<le> unat len" and "unat len \<le> 8192"
  shows "Crypto_Hash_Function E m a len = Some (mem_write m a (mmo_hash E (mem_bytes m a (unat len))), SFC_SUCCESS)"
proof -
  have "hash_done E a len (hash_start m a len)"
    by (rule hash_runs) (use assms in \<open>simp_all add: hash_start_def word_le_nat_alt\<close>)
  then obtain st bs where st: "hash_loop E a len (hash_start m a len) = Some st" "length bs = 16" "hash_mem st = mem_write m a bs"
      "aucInput st = mmo_hash E (mem_bytes m a (unat len))"
    by (auto simp: hash_done_def Let_def overwritten_def hash_start_def mmo_hash_def)
  then show ?thesis
    using assms by (simp add: Crypto_Hash_Function_def word_less_nat_alt mem_write_write)
qed

section \<open>Termination and correctness\<close>

text \<open>
  The hash loop ends for every message the function accepts: from the initial state it makes exactly one
  iteration per block of the padded message (the message, the octet 0x80 and two octets of length, rounded up to 16)
  and returns the state that many iterations lead to.
\<close>
lemma hash_loop_ends:
  assumes "16 \<le> unat len"
  shows "hash_loop E a len (hash_start m a len) =
    Some ((hash_step E a len ^^ ((unat len + 3 + 15) div 16)) (hash_start m a len))"
proof -
  have "hash_done E a len (hash_start m a len)"
    by (rule hash_runs) (use assms in \<open>simp_all add: hash_start_def word_le_nat_alt\<close>)
  moreover have "unat len + 3 + 15 = unat len + 18" by simp
  ultimately show ?thesis by (simp only: hash_done_def Let_def hash_start_def hash_state.simps)
qed

definition sample_hash_aes :: aes where
  "sample_hash_aes key b i = key ! i + 2 * b ! i + 1"

theorem hash_loop_ends_witness:
  "hash_loop sample_hash_aes 0 20 (hash_start (\<lambda>i. of_nat i) 0 20) =
     Some (hash_step sample_hash_aes 0 20 (hash_step sample_hash_aes 0 20 (hash_start (\<lambda>i. of_nat i) 0 20)))"
  using hash_loop_ends [of 20 sample_hash_aes 0 "\<lambda>i. of_nat i"]
  by simp (simp add: numeral_2_eq_2)

lemma Keyed_Hash_runs:
  assumes "length key = 16"
  shows "Keyed_Hash_MAC E key aucK0 m a len = Some
    (if 16 \<le> unat len \<and> unat len \<le> MAX_HMAC_INPUT_SIZE
     then (mem_write m a (hmac E key (mem_bytes m a (unat len))), SFC_SUCCESS) else (m, SFC_FAILURE))"
proof (cases "16 \<le> unat len \<and> unat len \<le> MAX_HMAC_INPUT_SIZE")
  case True
  let ?i = "map (\<lambda>b. b XOR 0x36) key" and ?o = "map (\<lambda>b. b XOR 0x5C) key" and ?msg = "mem_bytes m a (unat len)"
  let ?k1 = "mem_write (mem_write aucK0 16 ?i) 32 ?msg"
  have len: "unat (16 + len) = 16 + unat len" using True by (simp add: unat_word_ariths)
  have "mem_bytes ?k1 16 (16 + unat len) = mem_bytes ?k1 16 (length ?i) @ mem_bytes ?k1 32 (length ?msg)"
    using assms by (simp add: mem_bytes_add)
  also have "mem_bytes ?k1 16 (length ?i) = ?i"
    using assms by (subst mem_bytes_write_other) simp_all
  finally have inner: "Crypto_Hash_Function E ?k1 16 (16 + len) = Some (mem_write ?k1 16 (mmo_hash E (?i @ ?msg)), SFC_SUCCESS)"
    using True len by (simp add: Crypto_Hash_runs)
  let ?k2 = "mem_write (mem_write ?k1 16 (mmo_hash E (?i @ ?msg))) 0 ?o"
  have "mem_bytes ?k2 0 32 = mem_bytes ?k2 0 (length ?o) @ mem_bytes ?k2 16 (length (mmo_hash E (?i @ ?msg)))"
    using assms mem_bytes_add [of ?k2 0 16 16] by simp
  also have "mem_bytes ?k2 16 (length (mmo_hash E (?i @ ?msg))) = mmo_hash E (?i @ ?msg)"
    using assms by (subst mem_bytes_write_other) simp_all
  finally have outer: "Crypto_Hash_Function E ?k2 0 32 = Some (mem_write ?k2 0 (hmac E key ?msg), SFC_SUCCESS)"
    by (simp add: Crypto_Hash_runs hmac_def)
  have "mem_bytes (mem_write ?k2 0 (hmac E key ?msg)) 0 16 = hmac E key ?msg"
    by (simp add: hmac_def)
  then show ?thesis
    using True assms inner outer by (simp add: Keyed_Hash_MAC_def word_less_nat_alt Let_def)
next
  case False
  then show ?thesis by (auto simp: Keyed_Hash_MAC_def word_less_nat_alt)
qed

text \<open>C19:
  The keyed hash that authenticates a join is the HMAC construction over the Matyas-Meyer-Oseas hash: for a key of
  16 octets and a message of 16 to 86 octets the call returns success with the first 16 octets of the buffer
  replaced by the HMAC of the message and nothing else changed, whatever the stack held before and whatever the
  block cipher computes; any other length is refused and leaves the buffer as it was.
\<close>
theorem keyed_hash_is_hmac:
  assumes "length key = 16"
  shows "Keyed_Hash_MAC E key aucK0 m a len = Some
    (if 16 \<le> unat len \<and> unat len \<le> MAX_HMAC_INPUT_SIZE
     then (mem_write m a (hmac E key (mem_bytes m a (unat len))), SFC_SUCCESS) else (m, SFC_FAILURE))"
  by (rule Keyed_Hash_runs [OF assms])

theorem keyed_hash_is_hmac_witness:
  "Keyed_Hash_MAC sample_hash_aes (replicate 16 7) (\<lambda>_. 9) (\<lambda>i. of_nat i) 100 20 =
     Some (mem_write (\<lambda>i. of_nat i) 100 (hmac sample_hash_aes (replicate 16 7) (mem_bytes (\<lambda>i. of_nat i) 100 20)), SFC_SUCCESS)
   \<and> Keyed_Hash_MAC sample_hash_aes (replicate 16 7) (\<lambda>_. 9) (\<lambda>i. of_nat i) 100 87 = Some (\<lambda>i. of_nat i, SFC_FAILURE)"
  using keyed_hash_is_hmac [of "replicate 16 7" sample_hash_aes "\<lambda>_. 9" "\<lambda>i. of_nat i" 100] by simp

end
