(* ===== verification/Tlde_Duplicates.thy ===== *)
theory Tlde_Duplicates
  imports Isa_Prelude
begin

text \<open>
  The history by which the transport layer recognises a datagram it has already delivered (the end of
  \<^verbatim>\<open>tlde.cpp\<close>): a ring of entries that is searched from the newest to the oldest and overwritten at its index.

  Times are C \<^verbatim>\<open>int\<close>s, that is 32-bit words compared as signed numbers, whose sum wraps; indices are mathematical integers, since
  they stay between \<open>-1\<close> and the size. A \<^verbatim>\<open>NULL\<close> array is \<open>None\<close>. A result \<open>None\<close> of an operation means that the code
  leaves the array or does not return.
\<close>

section \<open>Data and operations\<close>

record TDuplicateHistEntry =
  m_nTime :: u32
  m_aKey :: "u8 list"

record duplicate_state =
  s_nDuplicateHistTimeWindow :: u32
  s_nDuplicateHistSize :: int
  s_aDuplicateHistArray :: "TDuplicateHistEntry list option"
  s_unDuplicateIdx :: int

definition no_entry :: TDuplicateHistEntry where
  "no_entry = \<lparr>m_nTime = 0, m_aKey = replicate 26 0\<rparr>"

text \<open>The index is not reset, as in the code.\<close>

definition TLDE_Duplicate_Init :: "int \<Rightarrow> u32 \<Rightarrow> duplicate_state \<Rightarrow> duplicate_state" where
  "TLDE_Duplicate_Init p_nSize p_nSeconds s = s\<lparr>s_aDuplicateHistArray := Some (replicate (nat p_nSize) no_entry),
     s_nDuplicateHistSize := p_nSize, s_nDuplicateHistTimeWindow := p_nSeconds\<rparr>"

partial_function (option) dup_loop :: "TDuplicateHistEntry list \<Rightarrow> int \<Rightarrow> int \<Rightarrow> u8 list \<Rightarrow> u32 \<Rightarrow> int \<Rightarrow> bool option" where
  "dup_loop h sz idx p_pKey p_nCrtTime uIdx =
     (if uIdx = idx then Some False
      else if uIdx < 0 then dup_loop h sz idx p_pKey p_nCrtTime (sz - 1)
      else if int (length h) \<le> uIdx then None
      else if sint (m_nTime (h ! nat uIdx)) < sint p_nCrtTime then Some False
      else if p_pKey = m_aKey (h ! nat uIdx) then Some True
      else dup_loop h sz idx p_pKey p_nCrtTime (uIdx - 1))"

definition TLDE_IsDuplicate :: "u8 list \<Rightarrow> u32 \<Rightarrow> duplicate_state \<Rightarrow> (duplicate_state \<times> u8) option" where
  "TLDE_IsDuplicate p_pKey p_nCrtTime s =
     (case s_aDuplicateHistArray s of
        None \<Rightarrow> Some (s, 0)
      | Some h \<Rightarrow>
          let idx = s_unDuplicateIdx s in
          case dup_loop h (s_nDuplicateHistSize s) idx p_pKey p_nCrtTime (idx - 1) of
            None \<Rightarrow> None
          | Some True \<Rightarrow> Some (s, 1)
          | Some False \<Rightarrow>
              if idx < 0 \<or> int (length h) \<le> idx then None
              else Some (s\<lparr>s_aDuplicateHistArray :=
                    Some (h[nat idx := \<lparr>m_nTime = p_nCrtTime + s_nDuplicateHistTimeWindow s, m_aKey = p_pKey\<rparr>]),
                  s_unDuplicateIdx := (if idx + 1 \<ge> s_nDuplicateHistSize s then 0 else idx + 1)\<rparr>, 0))"

section \<open>The history as a list\<close>

text \<open>The entries from the newest to the oldest, and the search in such a list.\<close>

definition dup_inv :: "duplicate_state \<Rightarrow> bool" where
  "dup_inv s \<longleftrightarrow> (case s_aDuplicateHistArray s of None \<Rightarrow> False
     | Some h \<Rightarrow> s_nDuplicateHistSize s = int (length h) \<and> 0 \<le> s_unDuplicateIdx s \<and> s_unDuplicateIdx s < int (length h))"

definition recent :: "duplicate_state \<Rightarrow> TDuplicateHistEntry list" where
  "recent s = (let h = the (s_aDuplicateHistArray s); i = nat (s_unDuplicateIdx s) in rev (take i h) @ rev (drop i h))"

fun dup_scan :: "u8 list \<Rightarrow> u32 \<Rightarrow> TDuplicateHistEntry list \<Rightarrow> bool" where
  "dup_scan k t [] = False"
| "dup_scan k t (e # es) = (if sint (m_nTime e) < sint t then False else if k = m_aKey e then True else dup_scan k t es)"

lemma dup_loop_upper:
  "i + n < length h \<Longrightarrow>
    dup_loop h (int (length h)) (int i) k t (int (i + n)) = Some (dup_scan k t (rev (take n (drop (Suc i) h))))"
proof (induction n)
  case 0
  show ?case by (subst dup_loop.simps) simp
next
  case (Suc n)
  have "take (Suc n) (drop (Suc i) h) = take n (drop (Suc i) h) @ [h ! (i + Suc n)]"
    using Suc.prems by (simp add: take_Suc_conv_app_nth)
  moreover have step: "int (Suc (i + n)) - 1 = int (i + n)" by simp
  ultimately show ?case using Suc.IH Suc.prems by (subst dup_loop.simps) (simp add: step del: of_nat_add of_nat_Suc)
qed

lemma dup_loop_lower:
  assumes "n \<le> i" and "i < length h"
  shows "dup_loop h (int (length h)) (int i) k t (int n - 1) = Some (dup_scan k t (rev (take n h) @ rev (drop (Suc i) h)))"
  using assms
proof (induction n)
  case 0
  have "int (length h) - 1 = int (i + (length h - Suc i))" using 0 by simp
  then have "dup_loop h (int (length h)) (int i) k t (int (length h) - 1) = Some (dup_scan k t (rev (drop (Suc i) h)))"
    using dup_loop_upper [of i "length h - Suc i" h k t] 0 by (simp del: of_nat_add)
  then show ?case by (subst dup_loop.simps) simp
next
  case (Suc n)
  have "take (Suc n) h = take n h @ [h ! n]" using Suc.prems by (simp add: take_Suc_conv_app_nth)
  moreover have "int n \<noteq> int i" "\<not> int (length h) \<le> int n" using Suc.prems by simp_all
  moreover have "int (Suc n) - 1 = int n" by simp
  ultimately show ?case using Suc.IH Suc.prems by (subst dup_loop.simps) simp
qed

lemma butlast_recent:
  assumes "i < length h"
  shows "butlast (rev (take i h) @ rev (drop i h)) = rev (take i h) @ rev (drop (Suc i) h)"
  using Cons_nth_drop_Suc [OF assms, symmetric] by (simp add: butlast_append)

lemma recent_record:
  assumes "i < length h"
  shows "rev (take (Suc i) (h[i := e])) @ rev (drop (Suc i) (h[i := e])) = e # butlast (rev (take i h) @ rev (drop i h))"
  using assms by (simp add: butlast_recent take_Suc_conv_app_nth)

text \<open>
  The abstract history: a repetition is found among all entries but the oldest, and a new message takes the place of
  the oldest entry.
\<close>

definition dup_spec :: "u32 \<Rightarrow> u8 list \<Rightarrow> u32 \<Rightarrow> TDuplicateHistEntry list \<Rightarrow> TDuplicateHistEntry list \<times> u8" where
  "dup_spec w k t es = (if dup_scan k t (butlast es) then (es, 1) else (\<lparr>m_nTime = t + w, m_aKey = k\<rparr> # butlast es, 0))"

lemma IsDuplicate_spec:
  assumes "dup_inv s"
  shows "\<exists>s' r. TLDE_IsDuplicate k t s = Some (s', r) \<and> dup_inv s'
    \<and> s_nDuplicateHistTimeWindow s' = s_nDuplicateHistTimeWindow s
    \<and> (recent s', r) = dup_spec (s_nDuplicateHistTimeWindow s) k t (recent s)"
proof -
  obtain h where h: "s_aDuplicateHistArray s = Some h" and sz: "s_nDuplicateHistSize s = int (length h)"
    using assms by (auto simp: dup_inv_def split: option.splits)
  obtain i where i: "s_unDuplicateIdx s = int i" "i < length h"
    using assms h by (auto simp: dup_inv_def intro!: that [of "nat (s_unDuplicateIdx s)"])
  have loop: "dup_loop h (int (length h)) (int i) k t (int i - 1) = Some (dup_scan k t (butlast (recent s)))"
    using dup_loop_lower [OF order_refl i(2)] butlast_recent [OF i(2)] h i(1) by (simp add: recent_def Let_def)
  let ?e = "\<lparr>m_nTime = t + s_nDuplicateHistTimeWindow s, m_aKey = k\<rparr>"
  let ?s = "s\<lparr>s_aDuplicateHistArray := Some (h[i := ?e]), s_unDuplicateIdx := (if int i + 1 \<ge> int (length h) then 0 else int i + 1)\<rparr>"
  have "recent ?s = ?e # butlast (recent s)"
  proof (cases "Suc i = length h")
    case True
    then have "recent ?s = rev (take (Suc i) (h[i := ?e])) @ rev (drop (Suc i) (h[i := ?e]))" by (simp add: recent_def)
    then show ?thesis using recent_record [OF i(2), of ?e] h i(1) by (simp add: recent_def Let_def)
  next
    case False
    then have "nat (int i + 1) = Suc i" "\<not> int (length h) \<le> int i + 1" using i(2) by simp_all
    then have "recent ?s = rev (take (Suc i) (h[i := ?e])) @ rev (drop (Suc i) (h[i := ?e]))" by (simp add: recent_def Let_def)
    then show ?thesis using recent_record [OF i(2), of ?e] h i(1) by (simp add: recent_def Let_def)
  qed
  moreover have "dup_inv ?s" using sz i by (auto simp: dup_inv_def)
  ultimately show ?thesis
    using assms loop h sz i by (auto simp: TLDE_IsDuplicate_def dup_spec_def Let_def)
qed

section \<open>Sequences of datagrams\<close>

text \<open>The answers to a sequence of keys and times, in the code and in the abstract history.\<close>

fun dup_run :: "(u8 list \<times> u32) list \<Rightarrow> duplicate_state \<Rightarrow> (duplicate_state \<times> u8 list) option" where
  "dup_run [] s = Some (s, [])"
| "dup_run ((k, t) # cs) s = (case TLDE_IsDuplicate k t s of
     None \<Rightarrow> None | Some (s, r) \<Rightarrow> map_option (\<lambda>(s, rs). (s, r # rs)) (dup_run cs s))"

fun history_run :: "u32 \<Rightarrow> (u8 list \<times> u32) list \<Rightarrow> TDuplicateHistEntry list \<Rightarrow> TDuplicateHistEntry list \<times> u8 list" where
  "history_run w [] es = (es, [])"
| "history_run w ((k, t) # cs) es = (let (es, r) = dup_spec w k t es; (es, rs) = history_run w cs es in (es, r # rs))"

lemma dup_run_spec:
  assumes "dup_inv s"
  shows "\<exists>s' rs. dup_run cs s = Some (s', rs) \<and> dup_inv s'
    \<and> s_nDuplicateHistTimeWindow s' = s_nDuplicateHistTimeWindow s
    \<and> (recent s', rs) = history_run (s_nDuplicateHistTimeWindow s) cs (recent s)"
  using assms
proof (induction cs arbitrary: s)
  case (Cons c cs)
  obtain k t where c: "c = (k, t)" by (cases c)
  obtain s1 r where s1: "TLDE_IsDuplicate k t s = Some (s1, r)" "dup_inv s1"
      "s_nDuplicateHistTimeWindow s1 = s_nDuplicateHistTimeWindow s"
      "(recent s1, r) = dup_spec (s_nDuplicateHistTimeWindow s) k t (recent s)"
    using IsDuplicate_spec [OF Cons.prems] by blast
  obtain s2 rs where "dup_run cs s1 = Some (s2, rs)" "dup_inv s2"
      "s_nDuplicateHistTimeWindow s2 = s_nDuplicateHistTimeWindow s1"
      "(recent s2, rs) = history_run (s_nDuplicateHistTimeWindow s1) cs (recent s1)"
    using Cons.IH [OF s1(2)] by blast
  then show ?case using s1 by (auto simp: c split: prod.splits)
qed simp

text \<open>A run puts entries of its own datagrams in front of the old ones.\<close>

definition entries_of :: "u32 \<Rightarrow> (u8 list \<times> u32) list \<Rightarrow> TDuplicateHistEntry set" where
  "entries_of w cs = (\<lambda>(k, t). \<lparr>m_nTime = t + w, m_aKey = k\<rparr>) ` set cs"

lemma entries_of_Cons: "entries_of w ((k, t) # cs) = insert \<lparr>m_nTime = t + w, m_aKey = k\<rparr> (entries_of w cs)"
  by (simp add: entries_of_def)

lemma entries_of_key: "e \<in> entries_of w cs \<Longrightarrow> m_aKey e \<in> fst ` set cs"
  by (force simp: entries_of_def)

lemma dup_spec_entries:
  assumes "es \<noteq> []"
  shows "\<exists>new. fst (dup_spec w k t es) = take (length es) (new @ es) \<and> length new \<le> 1
    \<and> set new \<subseteq> {\<lparr>m_nTime = t + w, m_aKey = k\<rparr>}"
proof (cases "dup_scan k t (butlast es)")
  case True
  then show ?thesis by (intro exI [of _ "[]"]) (simp add: dup_spec_def)
next
  case False
  then show ?thesis using assms
    by (intro exI [of _ "[\<lparr>m_nTime = t + w, m_aKey = k\<rparr>]"]) (cases "length es"; simp add: dup_spec_def butlast_conv_take)
qed

lemma spec_run_entries:
  assumes "es \<noteq> []"
  shows "\<exists>new. fst (history_run w cs es) = take (length es) (new @ es) \<and> length new \<le> length cs \<and> set new \<subseteq> entries_of w cs"
  using assms
proof (induction cs arbitrary: es)
  case (Cons c cs)
  obtain k t where c: "c = (k, t)" by (cases c)
  obtain e where e: "fst (dup_spec w k t es) = take (length es) (e @ es)" "length e \<le> 1" "set e \<subseteq> {\<lparr>m_nTime = t + w, m_aKey = k\<rparr>}"
    using dup_spec_entries [OF Cons.prems] by blast
  let ?es = "take (length es) (e @ es)"
  have len: "length ?es = length es" by simp
  then have "?es \<noteq> []" using Cons.prems by (metis length_0_conv)
  then obtain new where n: "fst (history_run w cs ?es) = take (length es) (new @ ?es)" "length new \<le> length cs" "set new \<subseteq> entries_of w cs"
    using Cons.IH len by metis
  have "take (length es) (new @ ?es) = take (length es) ((new @ e) @ es)" by (simp add: min_def)
  then show ?case using n e
    by (intro exI [of _ "new @ e"]) (auto simp: c entries_of_Cons Let_def split: prod.splits)
qed (auto intro: exI [of _ "[]"])

lemma dup_scan_found: "dup_scan k t es \<Longrightarrow> \<exists>e \<in> set es. m_aKey e = k"
  by (induction es) (auto split: if_splits)

lemma dup_scan_append: "dup_scan k t es \<Longrightarrow> dup_scan k t (es @ fs)"
  by (induction es) auto

lemma dup_scan_through:
  "(\<forall>e \<in> set es. sint t \<le> sint (m_nTime e)) \<Longrightarrow> \<exists>e \<in> set es. m_aKey e = k \<Longrightarrow> dup_scan k t es"
  by (induction es) auto

lemma length_recent: "dup_inv s \<Longrightarrow> length (recent s) = nat (s_nDuplicateHistSize s) \<and> recent s \<noteq> []"
  by (auto simp: dup_inv_def recent_def Let_def split: option.splits)

section \<open>Properties\<close>


definition sample_history :: duplicate_state where
  "sample_history = TLDE_Duplicate_Init 4 60 \<lparr>s_nDuplicateHistTimeWindow = 0, s_nDuplicateHistSize = 0,
     s_aDuplicateHistArray = None, s_unDuplicateIdx = 0\<rparr>"

lemma sample_history_inv: "dup_inv sample_history" and sample_history_window: "s_nDuplicateHistTimeWindow sample_history = 60"
    and sample_history_size: "s_nDuplicateHistSize sample_history = 4" and sample_history_recent: "recent sample_history = replicate 4 no_entry"
  by (simp_all add: sample_history_def TLDE_Duplicate_Init_def dup_inv_def recent_def)

lemma sample_recorded: "\<exists>s. TLDE_IsDuplicate (replicate 26 7) 1000 sample_history = Some (s, 0) \<and> dup_inv s"
  using IsDuplicate_spec [OF sample_history_inv, of "replicate 26 7" 1000]
  by (auto simp: dup_spec_def sample_history_recent no_entry_def eval_nat_numeral)


text \<open>
  A datagram the device has not seen before is never taken for a repetition: after the initialisation and any
  datagrams, a key that none of them had (and that is not the all-zero key of the empty entries) is answered with 0.
\<close>
lemma new_datagram_delivered:
  assumes "0 < n" and "s_unDuplicateIdx s0 = 0" and "dup_run cs (TLDE_Duplicate_Init n w s0) = Some (s, rs)"
    and "k \<noteq> replicate 26 0" and "k \<notin> fst ` set cs"
  shows "\<exists>s'. TLDE_IsDuplicate k t s = Some (s', 0)"
proof -
  let ?s = "TLDE_Duplicate_Init n w s0"
  have i: "dup_inv ?s" "recent ?s = replicate (nat n) no_entry" using assms(1,2) by (simp_all add: TLDE_Duplicate_Init_def dup_inv_def recent_def)
  have inv: "dup_inv s" and r: "recent s = fst (history_run (s_nDuplicateHistTimeWindow ?s) cs (recent ?s))"
    using dup_run_spec [OF i(1), of cs] assms(3) by (auto dest: sym)
  obtain new where new: "recent s = take (length (recent ?s)) (new @ recent ?s)" "set new \<subseteq> entries_of (s_nDuplicateHistTimeWindow ?s) cs"
    using spec_run_entries [of "recent ?s"] r length_recent [OF i(1)] by metis
  have "m_aKey e \<noteq> k" if "e \<in> set (butlast (recent s))" for e
  proof -
    have "e \<in> set new \<or> e = no_entry" using in_set_butlastD [OF that] i(2) by (auto simp: new(1) dest: in_set_takeD split: if_splits)
    then show ?thesis using new(2) assms(4,5) entries_of_key by (auto simp: no_entry_def)
  qed
  then have "\<not> dup_scan k t (butlast (recent s))" using dup_scan_found by blast
  then show ?thesis using IsDuplicate_spec [OF inv, of k t] by (auto simp: dup_spec_def)
qed

theorem new_datagram_delivered_witness:
  "\<exists>s rs s'. dup_run [(replicate 26 8, 990)] sample_history = Some (s, rs) \<and> TLDE_IsDuplicate (replicate 26 7) 1000 s = Some (s', 0)"
proof -
  obtain s rs where s: "dup_run [(replicate 26 8, 990)] sample_history = Some (s, rs)"
    using dup_run_spec [OF sample_history_inv] by blast
  have "replicate 26 7 \<noteq> replicate 26 (0 :: u8)" "replicate 26 7 \<noteq> replicate 26 (8 :: u8)" by simp_all
  then show ?thesis using new_datagram_delivered [OF _ _ s [unfolded sample_history_def]] s by auto
qed

end
