(* ===== verification/Slme_Keys.thy ===== *)
theory Slme_Keys
  imports Nlme Row_Table
begin

text \<open>
  The key table of the security layer management entity (\<^verbatim>\<open>slme.cpp\<close>, \<^verbatim>\<open>slme.h\<close>): a map from key categories
  (peer and ports for session keys, one category for all others) to lists of keys kept in the order the sender
  prefers them, with the operations that add, delete, find and choose a key, the failure counters with their
  alerts, and the attributes of the device security object.

  The \<^verbatim>\<open>std::map\<close> is an association list in the order of its comparator, which is the instance of
  \<open>linorder\<close> below; a \<^verbatim>\<open>shared_ptr\<close> to a list or a key is the list or key itself, since no two places share
  one; the two counters of \<^verbatim>\<open>SLME_KEY\<close> that no code uses are left out. A pointer argument that may be \<^verbatim>\<open>NULL\<close> is an option. \<open>now\<close> is what \<^verbatim>\<open>MLSM_GetCrtTaiSec\<close> returns.
\<close>

section \<open>Data (slme.h)\<close>

record SLME_ALERT_ST =
  m_ulFailPeriod :: u32
  m_unFailCount :: u16
  m_stAlertDesc :: APP_ALERT_DESCRIPTOR
  m_unAttrFailLimit :: u16
  m_unAttrFailPeriod :: u16

record DSMO_ATTRIBUTES =
  m_ucProtocolVer :: u8
  m_ucDLSecurityLevel :: u8
  m_ucTLSecurityLevel :: u8
  m_unJoinTimeout :: u16
  m_stDLAlert :: SLME_ALERT_ST
  m_stTLAlert :: SLME_ALERT_ST
  m_stKeyAlert :: SLME_ALERT_ST
  m_unPDUMaxAge :: u16

record SLME_KEY =
  m_aPeerIPv6Address :: ipv6
  m_unUdpSPort :: u16
  m_unUdpDPort :: u16
  m_ucKeyID :: u8
  m_ucUsage :: u8
  m_ucPolicy :: u8
  m_ulValidNotBefore :: u32
  m_ulSoftLifetime :: u32
  m_ulHardLifetime :: u32
  m_aKey :: "u8 list"
  m_aIssuerEUI64 :: "u8 list"

datatype SLME_KEY_CATEGORY = KeyCat (cat_dport: u16) (cat_sport: u16) (cat_peer: ipv6)

text \<open>\<^verbatim>\<open>memcmp\<close> of two byte strings of the same length is less than zero.\<close>

fun memcmp_less :: "u8 list \<Rightarrow> u8 list \<Rightarrow> bool" where
  "memcmp_less [] ys \<longleftrightarrow> ys \<noteq> []"
| "memcmp_less (x # xs) [] \<longleftrightarrow> False"
| "memcmp_less (x # xs) (y # ys) \<longleftrightarrow> x < y \<or> x = y \<and> memcmp_less xs ys"

lemma memcmp_less_irrefl: "\<not> memcmp_less xs xs"
  by (induction xs) auto

lemma memcmp_less_trans: "memcmp_less xs ys \<Longrightarrow> memcmp_less ys zs \<Longrightarrow> memcmp_less xs zs"
proof (induction xs ys arbitrary: zs rule: memcmp_less.induct)
  case (1 ys)
  then show ?case by (cases zs) (auto elim: memcmp_less.elims)
next
  case (3 x xs y ys)
  then show ?case by (cases zs) auto
qed simp

lemma memcmp_less_total: "xs \<noteq> ys \<Longrightarrow> memcmp_less xs ys \<or> memcmp_less ys xs"
  by (induction xs ys rule: memcmp_less.induct) auto

text \<open>\<^verbatim>\<open>CompareKeyCategory\<close>: destination port, then source port, then peer address.\<close>

instantiation SLME_KEY_CATEGORY :: linorder
begin

definition less_SLME_KEY_CATEGORY :: "SLME_KEY_CATEGORY \<Rightarrow> SLME_KEY_CATEGORY \<Rightarrow> bool" where
  "lhs < rhs \<longleftrightarrow>
     (if cat_dport lhs \<noteq> cat_dport rhs then cat_dport lhs < cat_dport rhs
      else if cat_sport lhs \<noteq> cat_sport rhs then cat_sport lhs < cat_sport rhs
      else memcmp_less (cat_peer lhs) (cat_peer rhs))"

definition less_eq_SLME_KEY_CATEGORY :: "SLME_KEY_CATEGORY \<Rightarrow> SLME_KEY_CATEGORY \<Rightarrow> bool" where
  "lhs \<le> (rhs :: SLME_KEY_CATEGORY) \<longleftrightarrow> lhs = rhs \<or> lhs < rhs"

instance
proof
  fix x y z :: SLME_KEY_CATEGORY
  have irrefl: "\<not> x < x" for x :: SLME_KEY_CATEGORY
    by (simp add: less_SLME_KEY_CATEGORY_def memcmp_less_irrefl)
  have trans: "x < y \<Longrightarrow> y < z \<Longrightarrow> x < z" for x y z :: SLME_KEY_CATEGORY
    by (cases x; cases y; cases z) (auto simp: less_SLME_KEY_CATEGORY_def split: if_splits intro: memcmp_less_trans)
  have asym: "\<not> (x < y \<and> y < x)" for x y :: SLME_KEY_CATEGORY
    using trans irrefl by blast
  show "x < y \<longleftrightarrow> x \<le> y \<and> \<not> y \<le> x" using asym irrefl by (auto simp: less_eq_SLME_KEY_CATEGORY_def)
  show "x \<le> x" by (simp add: less_eq_SLME_KEY_CATEGORY_def)
  show "x \<le> y \<Longrightarrow> y \<le> z \<Longrightarrow> x \<le> z" using trans by (auto simp: less_eq_SLME_KEY_CATEGORY_def)
  show "x \<le> y \<Longrightarrow> y \<le> x \<Longrightarrow> x = y" using asym by (auto simp: less_eq_SLME_KEY_CATEGORY_def)
  show "x \<le> y \<or> y \<le> x"
    using memcmp_less_total [of "cat_peer x" "cat_peer y"]
    by (cases x; cases y) (auto simp: less_eq_SLME_KEY_CATEGORY_def less_SLME_KEY_CATEGORY_def)
qed

end

type_synonym key_map = "(SLME_KEY_CATEGORY \<times> SLME_KEY list) list"

record slme_state =
  g_nSLMEKeysNo :: u16
  g_oSlmeKeysCatMap :: key_map
  g_stDSMO :: DSMO_ATTRIBUTES
  g_unRenewTimeout :: u16
  slme_alerts :: "raised_alert list"

abbreviation (input) SLM_KEY_USAGE_DLL :: u8 where "SLM_KEY_USAGE_DLL \<equiv> 0"
abbreviation (input) SLM_KEY_USAGE_SESSION :: u8 where "SLM_KEY_USAGE_SESSION \<equiv> 1"
abbreviation (input) SLM_KEY_USAGE_MASTER :: u8 where "SLM_KEY_USAGE_MASTER \<equiv> 2"
abbreviation (input) MAX_SLME_KEYS_NO :: nat where "MAX_SLME_KEYS_NO \<equiv> 5000"
abbreviation (input) SECURITY_NONE :: u8 where "SECURITY_NONE \<equiv> 0"
abbreviation (input) SECURITY_MIC_32 :: u8 where "SECURITY_MIC_32 \<equiv> 1"

definition initial_alert :: "u16 \<Rightarrow> u16 \<Rightarrow> SLME_ALERT_ST" where
  "initial_alert limit period = \<lparr>m_ulFailPeriod = 0, m_unFailCount = 0,
     m_stAlertDesc = \<lparr>m_bAlertReportDisabled = 0, APP_ALERT_DESCRIPTOR.m_ucPriority = 6\<rparr>,
     m_unAttrFailLimit = limit, m_unAttrFailPeriod = period\<rparr>"

definition c_stInitDSMO :: DSMO_ATTRIBUTES where
  "c_stInitDSMO = \<lparr>m_ucProtocolVer = 1, m_ucDLSecurityLevel = SECURITY_MIC_32, m_ucTLSecurityLevel = SECURITY_NONE,
     m_unJoinTimeout = 60, m_stDLAlert = initial_alert 5 60, m_stTLAlert = initial_alert 5 5,
     m_stKeyAlert = initial_alert 1 1, m_unPDUMaxAge = 510\<rparr>"

definition SLME_Init :: "slme_state \<Rightarrow> slme_state" where
  "SLME_Init s = s\<lparr>g_nSLMEKeysNo := 0, g_oSlmeKeysCatMap := [], g_stDSMO := c_stInitDSMO\<rparr>"

section \<open>The category map\<close>

text \<open>
  \<^verbatim>\<open>put_cat\<close> is the insertion of a list at a new key of the map, or the change of the list the map already has.
\<close>

fun put_cat :: "SLME_KEY_CATEGORY \<Rightarrow> SLME_KEY list \<Rightarrow> key_map \<Rightarrow> key_map" where
  "put_cat c ks [] = [(c, ks)]"
| "put_cat c ks ((c', ks') # m) =
     (if c < c' then (c, ks) # (c', ks') # m else if c = c' then (c, ks) # m else (c', ks') # put_cat c ks m)"

definition zero_cat :: SLME_KEY_CATEGORY where
  "zero_cat = KeyCat 0 0 (replicate 16 0)"

definition key_category :: "ipv6 option \<Rightarrow> u16 \<Rightarrow> u16 \<Rightarrow> u8 \<Rightarrow> SLME_KEY_CATEGORY" where
  "key_category p_pucPeerIPv6Address p_unUdpSPort p_unUdpDPort p_ucKeyUsage =
     (if p_ucKeyUsage = SLM_KEY_USAGE_SESSION
      then KeyCat p_unUdpDPort p_unUdpSPort
        (case p_pucPeerIPv6Address of Some a \<Rightarrow> a | None \<Rightarrow> replicate 16 0)
      else zero_cat)"

definition SLME_FindKeyCatIt :: "ipv6 option \<Rightarrow> u16 \<Rightarrow> u16 \<Rightarrow> u8 \<Rightarrow> slme_state \<Rightarrow> SLME_KEY list option" where
  "SLME_FindKeyCatIt peer sport dport usage s = map_of (g_oSlmeKeysCatMap s) (key_category peer sport dport usage)"

text \<open>The insertion dereferences the peer of a session category; \<open>None\<close> is the null pointer there.\<close>

definition SLME_InsertKeyCat :: "ipv6 option \<Rightarrow> u16 \<Rightarrow> u16 \<Rightarrow> u8 \<Rightarrow> SLME_KEY list \<Rightarrow> slme_state \<Rightarrow> slme_state option" where
  "SLME_InsertKeyCat peer sport dport usage ks s =
     (if usage = SLM_KEY_USAGE_SESSION \<and> peer = None then None
      else Some (s\<lparr>g_oSlmeKeysCatMap := put_cat (key_category peer sport dport usage) ks (g_oSlmeKeysCatMap s)\<rparr>))"

section \<open>Keys\<close>

definition has_id :: "u8 \<Rightarrow> u8 \<Rightarrow> SLME_KEY \<Rightarrow> bool" where
  "has_id usage i k \<longleftrightarrow> m_ucUsage k = usage \<and> m_ucKeyID k = i"

fun erase_first :: "('a \<Rightarrow> bool) \<Rightarrow> 'a list \<Rightarrow> 'a list" where
  "erase_first P [] = []"
| "erase_first P (x # xs) = (if P x then xs else x # erase_first P xs)"

definition SLME_DeleteKey :: "ipv6 option \<Rightarrow> u16 \<Rightarrow> u16 \<Rightarrow> u8 \<Rightarrow> u8 \<Rightarrow> slme_state \<Rightarrow> slme_state \<times> u8" where
  "SLME_DeleteKey peer sport dport i usage s =
     (case SLME_FindKeyCatIt peer sport dport usage s of
        None \<Rightarrow> (s, SFC_INVALID_ELEMENT_INDEX)
      | Some ks \<Rightarrow>
          if list_ex (has_id usage i) ks
          then (s\<lparr>g_oSlmeKeysCatMap := put_cat (key_category peer sport dport usage)
                    (erase_first (has_id usage i) ks) (g_oSlmeKeysCatMap s),
                  g_nSLMEKeysNo := g_nSLMEKeysNo s - 1\<rparr>, SFC_SUCCESS)
          else (s, SFC_INVALID_ELEMENT_INDEX))"

text \<open>The loop that looks for the position of the new key stops before the first key that comes behind it.\<close>

definition stops :: "SLME_KEY \<Rightarrow> SLME_KEY \<Rightarrow> bool" where
  "stops new k \<longleftrightarrow>
     (if m_ucUsage k < m_ucUsage new then False
      else if m_ucUsage k > m_ucUsage new then True
      else if m_ulHardLifetime new > m_ulHardLifetime k then True
      else if m_ulHardLifetime new < m_ulHardLifetime k then False
      else if m_ulSoftLifetime new > m_ulSoftLifetime k then True
      else if m_ulSoftLifetime new < m_ulSoftLifetime k then False
      else m_ucKeyID new > m_ucKeyID k)"

fun insert_key :: "SLME_KEY \<Rightarrow> SLME_KEY list \<Rightarrow> SLME_KEY list" where
  "insert_key new [] = [new]"
| "insert_key new (k # ks) = (if stops new k then new # k # ks else k # insert_key new ks)"

definition new_slme_key :: "u32 \<Rightarrow> ipv6 option \<Rightarrow> u16 \<Rightarrow> u16 \<Rightarrow> u8 \<Rightarrow> u8 list \<Rightarrow> u8 list option
    \<Rightarrow> u32 \<Rightarrow> u32 \<Rightarrow> u32 \<Rightarrow> u8 \<Rightarrow> u8 \<Rightarrow> SLME_KEY" where
  "new_slme_key now peer sport dport i key issuer notBefore soft hard usage policy =
     (let session = (usage = SLM_KEY_USAGE_SESSION);
          start = (if notBefore = 0 then now else notBefore) in
      \<lparr>m_aPeerIPv6Address = (if session \<and> peer \<noteq> None then the peer else replicate 16 0),
       m_unUdpSPort = (if session then sport else 0), m_unUdpDPort = (if session then dport else 0),
       m_ucKeyID = i, m_ucUsage = usage, m_ucPolicy = policy, m_ulValidNotBefore = notBefore,
       m_ulSoftLifetime = (if soft \<noteq> 0 then start + soft else 0xFFFFFFFF),
       m_ulHardLifetime = (if hard \<noteq> 0 then start + hard else 0xFFFFFFFF),
       m_aKey = key, m_aIssuerEUI64 = (case issuer of Some e \<Rightarrow> e | None \<Rightarrow> replicate 8 0)\<rparr>)"

definition file_key :: "ipv6 option \<Rightarrow> u16 \<Rightarrow> u16 \<Rightarrow> SLME_KEY \<Rightarrow> slme_state \<Rightarrow> (slme_state \<times> u8) option" where
  "file_key peer sport dport new s =
     (let usage = m_ucUsage new; s = fst (SLME_DeleteKey peer sport dport (m_ucKeyID new) usage s) in
      if MAX_SLME_KEYS_NO \<le> unat (g_nSLMEKeysNo s) then Some (s, SFC_INSUFFICIENT_DEVICE_RESOURCES)
      else
        let s' = (case SLME_FindKeyCatIt peer sport dport usage s of
              None \<Rightarrow> SLME_InsertKeyCat peer sport dport usage [new] s
            | Some ks \<Rightarrow> Some (s\<lparr>g_oSlmeKeysCatMap :=
                put_cat (key_category peer sport dport usage) (insert_key new ks) (g_oSlmeKeysCatMap s)\<rparr>)) in
        map_option (\<lambda>s. (s\<lparr>g_nSLMEKeysNo := g_nSLMEKeysNo s + 1, g_unRenewTimeout := 0\<rparr>, SFC_SUCCESS)) s')"

definition SLME_SetKey :: "u32 \<Rightarrow> ipv6 option \<Rightarrow> u16 \<Rightarrow> u16 \<Rightarrow> u8 \<Rightarrow> u8 list \<Rightarrow> u8 list option
    \<Rightarrow> u32 \<Rightarrow> u32 \<Rightarrow> u32 \<Rightarrow> u8 \<Rightarrow> u8 \<Rightarrow> slme_state \<Rightarrow> (slme_state \<times> u8) option" where
  "SLME_SetKey now peer sport dport i key issuer notBefore soft hard usage policy s =
     file_key peer sport dport (new_slme_key now peer sport dport i key issuer notBefore soft hard usage policy) s"

definition SLME_FindKey :: "ipv6 option \<Rightarrow> u16 \<Rightarrow> u16 \<Rightarrow> u8 \<Rightarrow> u8 \<Rightarrow> slme_state \<Rightarrow> SLME_KEY option" where
  "SLME_FindKey peer sport dport i usage s =
     (case SLME_FindKeyCatIt peer sport dport usage s of
        None \<Rightarrow> None
      | Some ks \<Rightarrow> find (has_id usage i) ks)"

definition SLME_GetNonSessionKey :: "u8 \<Rightarrow> u8 \<Rightarrow> slme_state \<Rightarrow> SLME_KEY option" where
  "SLME_GetNonSessionKey i usage s = SLME_FindKey None 0 0 i usage s"

fun tx_loop :: "u32 \<Rightarrow> SLME_KEY list \<Rightarrow> SLME_KEY option \<Rightarrow> u8 \<Rightarrow> SLME_KEY option \<times> u8" where
  "tx_loop now [] found count = (found, count)"
| "tx_loop now (k # ks) found count =
     (let found = (if found = None \<and> m_ulValidNotBefore k \<le> now then Some k else found); count = count + 1 in
      if 1 < count \<and> found \<noteq> None then (found, count) else tx_loop now ks found count)"

text \<open>The key and the number stored at \<^verbatim>\<open>p_pucKeyCount\<close>, which is not written when there is no category.\<close>

definition SLME_FindTxKey :: "u32 \<Rightarrow> ipv6 option \<Rightarrow> u16 \<Rightarrow> u16 \<Rightarrow> slme_state \<Rightarrow> SLME_KEY option \<times> u8 option" where
  "SLME_FindTxKey now peer sport dport s =
     (case SLME_FindKeyCatIt peer sport dport SLM_KEY_USAGE_SESSION s of
        None \<Rightarrow> (None, None)
      | Some ks \<Rightarrow> (let (k, n) = tx_loop now ks None 0 in (k, Some n)))"

definition searchForActiveKey :: "u32 \<Rightarrow> SLME_KEY \<Rightarrow> slme_state \<Rightarrow> bool" where
  "searchForActiveKey now k s =
     (case SLME_FindKeyCatIt (Some (m_aPeerIPv6Address k)) (m_unUdpSPort k) (m_unUdpDPort k) SLM_KEY_USAGE_SESSION s of
        None \<Rightarrow> False
      | Some ks \<Rightarrow> list_ex (\<lambda>j. now \<le> m_ulSoftLifetime j \<and> m_ucUsage j = m_ucUsage k) ks)"

definition SLME_UpdateJoinSessionsKeys :: "u8 list \<Rightarrow> ipv6 \<Rightarrow> slme_state \<Rightarrow> slme_state" where
  "SLME_UpdateJoinSessionsKeys issuer peer s = s\<lparr>g_oSlmeKeysCatMap :=
     map (\<lambda>(c, ks). (c, map (\<lambda>k. if m_ucUsage k = SLM_KEY_USAGE_SESSION
         then k\<lparr>m_aIssuerEUI64 := issuer, m_aPeerIPv6Address := peer\<rparr> else k) ks)) (g_oSlmeKeysCatMap s)\<rparr>"

section \<open>Failure counters\<close>

text \<open>The counter and the alerts raised; \<open>bbr\<close> says that a callback for alerts of the Linux backbone router is set.\<close>

definition SLME_ckAlert :: "bool \<Rightarrow> SLME_ALERT_ST \<Rightarrow> u8 \<Rightarrow> SLME_ALERT_ST \<times> raised_alert list" where
  "SLME_ckAlert bbr a typ' =
     (let (a, alerts) =
        (if \<not> bbr \<and> m_unAttrFailLimit a \<le> m_unFailCount a
         then (a\<lparr>m_unFailCount := 0\<rparr>,
           if m_bAlertReportDisabled (m_stAlertDesc a) = 0
           then [(\<lparr>m_unDetObjTLPort = 0xF0B0, m_unDetObjID = 3, m_ucClass = 0, m_ucDirection = 1, m_ucCategory = 2,
                   m_ucType = typ', m_ucPriority = APP_ALERT_DESCRIPTOR.m_ucPriority (m_stAlertDesc a), m_unSize = 2\<rparr>,
                  [ucast (drop_bit 8 (m_unFailCount a)), ucast (m_unFailCount a AND 0xFF)])]
           else [])
         else (a, [])) in
      (if m_ulFailPeriod a \<noteq> 0 then a\<lparr>m_ulFailPeriod := m_ulFailPeriod a - 1\<rparr>
       else a\<lparr>m_ulFailPeriod := (if typ' = 2 then ucast (m_unAttrFailPeriod a) * 3600 else ucast (m_unAttrFailPeriod a)),
              m_unFailCount := 0\<rparr>, alerts))"

definition fail_report :: "SLME_ALERT_ST \<Rightarrow> SLME_ALERT_ST" where
  "fail_report a = a\<lparr>m_unFailCount := m_unFailCount a + 1\<rparr>"

definition in_dsmo :: "(DSMO_ATTRIBUTES \<Rightarrow> DSMO_ATTRIBUTES) \<Rightarrow> slme_state \<Rightarrow> slme_state" where
  "in_dsmo f s = s\<lparr>g_stDSMO := f (g_stDSMO s)\<rparr>"

definition SLME_TL_FailReport :: "slme_state \<Rightarrow> slme_state" where
  "SLME_TL_FailReport = in_dsmo (\<lambda>d. d\<lparr>m_stTLAlert := fail_report (m_stTLAlert d)\<rparr>)"

definition SLME_KeyFailReport :: "slme_state \<Rightarrow> slme_state" where
  "SLME_KeyFailReport = in_dsmo (\<lambda>d. d\<lparr>m_stKeyAlert := fail_report (m_stKeyAlert d)\<rparr>)"

definition ck_alerts :: "bool \<Rightarrow> slme_state \<Rightarrow> slme_state" where
  "ck_alerts bbr s =
     (let d = g_stDSMO s; (dl, a0) = SLME_ckAlert bbr (m_stDLAlert d) 0; (tl, a1) = SLME_ckAlert bbr (m_stTLAlert d) 1;
          (ky, a2) = SLME_ckAlert bbr (m_stKeyAlert d) 2 in
      s\<lparr>g_stDSMO := d\<lparr>m_stDLAlert := dl, m_stTLAlert := tl, m_stKeyAlert := ky\<rparr>,
        slme_alerts := slme_alerts s @ a0 @ a1 @ a2\<rparr>)"

end
