(* ===== verification/Slme_Table.thy ===== *)
theory Slme_Table
  imports Slme_Keys
begin

text \<open>
  The key table is a bounded map: what \<^verbatim>\<open>SLME_SetKey\<close> and \<^verbatim>\<open>SLME_DeleteKey\<close> do to the sorted map of sorted
  lists is an update of a partial map from category, usage and identifier to the key, with 5000 rows. The
  invariant says that categories and keys are in order, that no key has a twin, that every key is filed under its
  own category and that the counter is the number of keys. The choice of the key to send with rests on the order.
\<close>

section \<open>Lists of keys\<close>

definition key_id :: "SLME_KEY \<Rightarrow> u8 \<times> u8" where
  "key_id k = (m_ucUsage k, m_ucKeyID k)"

definition key_rows :: "SLME_KEY list \<Rightarrow> ((u8 \<times> u8) \<times> SLME_KEY) list" where
  "key_rows ks = map (\<lambda>k. (key_id k, k)) ks"

definition keys_ok :: "SLME_KEY list \<Rightarrow> bool" where
  "keys_ok ks \<longleftrightarrow> sorted_wrt stops ks \<and> distinct (map key_id ks)"

lemma has_id_iff: "has_id u i k \<longleftrightarrow> key_id k = (u, i)"
  by (auto simp: has_id_def key_id_def)

lemma find_key_rows: "find (has_id u i) ks = map_of (key_rows ks) (u, i)"
  by (induction ks) (auto simp: key_rows_def has_id_iff)

lemma key_rows_None_iff: "map_of (key_rows ks) x = None \<longleftrightarrow> x \<notin> key_id ` set ks"
  by (simp add: key_rows_def map_of_eq_None_iff image_image)

lemma key_rows_SomeD: "map_of (key_rows ks) x = Some k \<Longrightarrow> k \<in> set ks \<and> key_id k = x"
  by (auto simp: key_rows_def dest: map_of_SomeD)

lemma stops_irrefl: "\<not> stops a a"
  by (simp add: stops_def)

lemma stops_trans: "stops a b \<Longrightarrow> stops b c \<Longrightarrow> stops a c"
  unfolding stops_def by (auto split: if_splits)

lemma stops_total: "key_id a \<noteq> key_id b \<Longrightarrow> stops a b \<or> stops b a"
  unfolding stops_def key_id_def by (auto split: if_splits)

lemma set_insert_key [simp]: "set (insert_key new ks) = insert new (set ks)"
  by (induction ks) auto

lemma length_insert_key [simp]: "length (insert_key new ks) = Suc (length ks)"
  by (induction ks) auto

lemma insert_key_rows:
  "key_id new \<notin> key_id ` set ks \<Longrightarrow> map_of (key_rows (insert_key new ks)) = (map_of (key_rows ks))(key_id new \<mapsto> new)"
  by (induction ks) (auto simp: key_rows_def fun_upd_twist)

lemma insert_key_ok:
  assumes "keys_ok ks" and "key_id new \<notin> key_id ` set ks"
  shows "keys_ok (insert_key new ks)"
  using assms
proof (induction ks)
  case (Cons k ks)
  have ne: "key_id new \<noteq> key_id k" using Cons.prems by auto
  have IH: "keys_ok (insert_key new ks)" using Cons by (auto simp: keys_ok_def)
  show ?case
  proof (cases "stops new k")
    case True
    then have "stops new x" if "x \<in> set ks" for x using Cons.prems(1) that stops_trans by (auto simp: keys_ok_def)
    then show ?thesis using True Cons.prems by (auto simp: keys_ok_def)
  next
    case False
    then have "stops k new" using stops_total ne by blast
    then show ?thesis using False IH Cons.prems by (auto simp: keys_ok_def)
  qed
qed (simp add: keys_ok_def)

lemma set_erase_first: "set (erase_first P ks) \<subseteq> set ks"
  by (induction ks) auto

lemma length_erase_first: "list_ex P ks \<Longrightarrow> Suc (length (erase_first P ks)) = length ks"
  by (induction ks) auto

lemma sorted_erase_first: "sorted_wrt r ks \<Longrightarrow> sorted_wrt r (erase_first P ks)"
proof (induction ks)
  case (Cons k ks)
  then show ?case using set_erase_first [of P ks] by auto
qed simp

lemma distinct_map_erase_first: "distinct (map f ks) \<Longrightarrow> distinct (map f (erase_first P ks))"
proof (induction ks)
  case (Cons k ks)
  then show ?case using set_erase_first [of P ks] by auto
qed simp

lemma erase_first_ok: "keys_ok ks \<Longrightarrow> keys_ok (erase_first P ks)"
  by (simp add: keys_ok_def sorted_erase_first distinct_map_erase_first)

lemma erase_first_rows:
  "distinct (map key_id ks) \<Longrightarrow> map_of (key_rows (erase_first (has_id u i) ks)) = (map_of (key_rows ks))((u, i) := None)"
proof (induction ks)
  case (Cons k ks)
  then show ?case
    by (auto simp: key_rows_def has_id_iff fun_eq_iff map_of_eq_None_iff image_iff)
qed (simp add: key_rows_def)

section \<open>The category map\<close>

definition cats_sorted :: "key_map \<Rightarrow> bool" where
  "cats_sorted m \<longleftrightarrow> sorted_wrt (<) (map fst m)"

definition key_total :: "key_map \<Rightarrow> nat" where
  "key_total m = sum_list (map (length \<circ> snd) m)"

abbreviation cat_keys :: "key_map \<Rightarrow> SLME_KEY_CATEGORY \<Rightarrow> SLME_KEY list" where
  "cat_keys m c \<equiv> (case map_of m c of None \<Rightarrow> [] | Some ks \<Rightarrow> ks)"

lemma map_of_put_cat [simp]: "map_of (put_cat c ks m) = (map_of m)(c \<mapsto> ks)"
  by (induction c ks m rule: put_cat.induct) (auto simp: fun_eq_iff)

lemma fst_put_cat: "fst ` set (put_cat c ks m) = insert c (fst ` set m)"
  by (induction c ks m rule: put_cat.induct) (auto simp: insert_commute)

lemma put_cat_sorted: "cats_sorted m \<Longrightarrow> cats_sorted (put_cat c ks m)"
proof (induction c ks m rule: put_cat.induct)
  case (2 c ks c' ks' m)
  then show ?case using fst_put_cat [of c ks m]
    by (auto simp: cats_sorted_def neq_iff)
qed (simp add: cats_sorted_def)

lemma cats_sorted_wf: "cats_sorted m \<Longrightarrow> wf_alist m"
  by (auto simp: cats_sorted_def wf_alist_def strict_sorted_iff)

lemma cats_sorted_notin: "cats_sorted ((c', ks') # m) \<Longrightarrow> c \<le> c' \<Longrightarrow> map_of m c = None"
  by (force simp: cats_sorted_def map_of_eq_None_iff)

lemma key_total_put_cat:
  assumes "cats_sorted m"
  shows "key_total (put_cat c ks m) + length (cat_keys m c) = key_total m + length ks"
  using assms
proof (induction c ks m rule: put_cat.induct)
  case (2 c ks c' ks' m)
  have "map_of m c = None" if "c \<le> c'" using cats_sorted_notin [OF 2(2) that] .
  moreover have "cats_sorted m" using 2(2) by (simp add: cats_sorted_def)
  ultimately show ?case using 2(1) by (auto simp: key_total_def)
qed (simp add: key_total_def)

section \<open>The table as a map\<close>

type_synonym key_row = "SLME_KEY_CATEGORY \<times> u8 \<times> u8"

definition look_key :: "slme_state \<Rightarrow> key_row \<Rightarrow> SLME_KEY option" where
  "look_key s = (\<lambda>(c, x). case map_of (g_oSlmeKeysCatMap s) c of None \<Rightarrow> None | Some ks \<Rightarrow> map_of (key_rows ks) x)"

definition key_cat :: "SLME_KEY \<Rightarrow> SLME_KEY_CATEGORY" where
  "key_cat k = (if m_ucUsage k = SLM_KEY_USAGE_SESSION
     then KeyCat (m_unUdpDPort k) (m_unUdpSPort k) (m_aPeerIPv6Address k) else zero_cat)"

definition slme_inv :: "slme_state \<Rightarrow> bool" where
  "slme_inv s \<longleftrightarrow> cats_sorted (g_oSlmeKeysCatMap s)
     \<and> (\<forall>(c, ks) \<in> set (g_oSlmeKeysCatMap s). keys_ok ks \<and> (\<forall>k \<in> set ks. key_cat k = c))
     \<and> unat (g_nSLMEKeysNo s) = key_total (g_oSlmeKeysCatMap s) \<and> key_total (g_oSlmeKeysCatMap s) \<le> MAX_SLME_KEYS_NO"

definition flat_keys :: "key_map \<Rightarrow> (key_row \<times> SLME_KEY) list" where
  "flat_keys m = concat (map (\<lambda>(c, ks). map (\<lambda>k. ((c, key_id k), k)) ks) m)"

lemma flat_keys_Cons: "flat_keys ((c, ks) # m) = map (\<lambda>k. ((c, key_id k), k)) ks @ flat_keys m"
  by (simp add: flat_keys_def)

lemma length_flat_keys: "length (flat_keys m) = key_total m"
  by (simp add: flat_keys_def key_total_def length_concat comp_def case_prod_beta)

lemma map_of_row: "map_of (map (\<lambda>k. ((c, key_id k), k)) ks) (c', x) = (if c' = c then map_of (key_rows ks) x else None)"
  by (induction ks) (auto simp: key_rows_def)

lemma fst_flat_keys: "(c, x) \<in> fst ` set (flat_keys m) \<Longrightarrow> c \<in> fst ` set m"
  by (force simp: flat_keys_def)

lemma map_of_flat_keys:
  "wf_alist m \<Longrightarrow> map_of (flat_keys m) (c, x) = (case map_of m c of None \<Rightarrow> None | Some ks \<Rightarrow> map_of (key_rows ks) x)"
proof (induction m)
  case (Cons e m)
  obtain c' ks where e: "e = (c', ks)" by (cases e)
  have "map_of (flat_keys m) (c', x) = None"
    using Cons.prems fst_flat_keys [of c' x m] by (auto simp: e wf_alist_def map_of_eq_None_iff)
  then show ?case using Cons by (auto simp: e flat_keys_Cons map_add_def map_of_row wf_alist_def split: option.split)
qed (simp add: flat_keys_def)

lemma wf_flat_keys:
  assumes "wf_alist m" and "\<forall>(c, ks) \<in> set m. distinct (map key_id ks)"
  shows "wf_alist (flat_keys m)"
  using assms
proof (induction m)
  case (Cons e m)
  obtain c ks where e: "e = (c, ks)" by (cases e)
  have "distinct (map (\<lambda>k. (c, key_id k)) ks)" using Cons.prems(2) by (auto simp: e distinct_map inj_on_def)
  moreover have "(c, x) \<notin> fst ` set (flat_keys m)" for x
    using Cons.prems(1) fst_flat_keys [of c x m] by (auto simp: e wf_alist_def)
  ultimately show ?case using Cons by (auto simp: e flat_keys_Cons wf_alist_def comp_def)
qed (simp add: flat_keys_def)

lemma slme_invD:
  assumes "slme_inv s"
  shows "cats_sorted (g_oSlmeKeysCatMap s)" and "unat (g_nSLMEKeysNo s) = key_total (g_oSlmeKeysCatMap s)"
    and "key_total (g_oSlmeKeysCatMap s) \<le> MAX_SLME_KEYS_NO"
    and "map_of (g_oSlmeKeysCatMap s) c = Some ks \<Longrightarrow> keys_ok ks \<and> (\<forall>k \<in> set ks. key_cat k = c)"
  using assms by (auto simp: slme_inv_def dest!: map_of_SomeD)

lemma slme_inv_count:
  assumes "slme_inv s"
  shows "finite (dom (look_key s)) \<and> unat (g_nSLMEKeysNo s) = card (dom (look_key s)) \<and> unat (g_nSLMEKeysNo s) \<le> MAX_SLME_KEYS_NO"
proof -
  let ?m = "g_oSlmeKeysCatMap s"
  have wf: "wf_alist ?m" using slme_invD(1) [OF assms] by (rule cats_sorted_wf)
  have "wf_alist (flat_keys ?m)" using assms by (intro wf_flat_keys [OF wf]) (auto simp: slme_inv_def keys_ok_def)
  moreover have "look_key s = map_of (flat_keys ?m)" using map_of_flat_keys [OF wf] by (auto simp: look_key_def fun_eq_iff)
  ultimately show ?thesis
    using wf_alist_size_card [of "flat_keys ?m"] slme_invD(2,3) [OF assms] by (simp add: length_flat_keys finite_dom_map_of)
qed

text \<open>Changing the list of one category, with the counter that belongs to it.\<close>

lemma put_cat_inv:
  assumes "slme_inv s" and "keys_ok ks" and "\<forall>k \<in> set ks. key_cat k = c"
    and "unat n + length (cat_keys (g_oSlmeKeysCatMap s) c) = unat (g_nSLMEKeysNo s) + length ks" and "unat n \<le> MAX_SLME_KEYS_NO"
  shows "slme_inv (s\<lparr>g_oSlmeKeysCatMap := put_cat c ks (g_oSlmeKeysCatMap s), g_nSLMEKeysNo := n\<rparr>)"
proof -
  note i = slme_invD [OF assms(1)]
  have sorted: "cats_sorted (put_cat c ks (g_oSlmeKeysCatMap s))" by (rule put_cat_sorted [OF i(1)])
  have "keys_ok ks' \<and> (\<forall>k \<in> set ks'. key_cat k = c')" if "(c', ks') \<in> set (put_cat c ks (g_oSlmeKeysCatMap s))" for c' ks'
    using map_of_is_SomeI [OF _ that] cats_sorted_wf [OF sorted] i(4) [of c' ks'] assms(2,3)
    by (auto simp: wf_alist_def split: if_splits)
  then show ?thesis
    using sorted assms(4,5) i(2) key_total_put_cat [OF i(1), of c ks] by (auto simp: slme_inv_def)
qed

lemma look_key_put_cat:
  "look_key (s\<lparr>g_oSlmeKeysCatMap := put_cat c ks (g_oSlmeKeysCatMap s), g_nSLMEKeysNo := n\<rparr>) =
    (\<lambda>(c', x). if c' = c then map_of (key_rows ks) x else look_key s (c', x))"
  by (auto simp: look_key_def fun_eq_iff)

section \<open>The operations refine a bounded map\<close>

lemma DeleteKey_cases:
  assumes "slme_inv s" and "c = key_category peer sport dport u"
  shows "slme_inv (fst (SLME_DeleteKey peer sport dport i u s))"
    and "look_key (fst (SLME_DeleteKey peer sport dport i u s)) = (look_key s)((c, u, i) := None)"
    and "snd (SLME_DeleteKey peer sport dport i u s) = (if look_key s (c, u, i) = None then SFC_INVALID_ELEMENT_INDEX else SFC_SUCCESS)"
    and "unat (g_nSLMEKeysNo (fst (SLME_DeleteKey peer sport dport i u s))) =
      (if look_key s (c, u, i) = None then unat (g_nSLMEKeysNo s) else unat (g_nSLMEKeysNo s) - 1)"
proof -
  let ?s = "fst (SLME_DeleteKey peer sport dport i u s)"
  have "slme_inv ?s \<and> look_key ?s = (look_key s)((c, u, i) := None)
    \<and> snd (SLME_DeleteKey peer sport dport i u s) = (if look_key s (c, u, i) = None then SFC_INVALID_ELEMENT_INDEX else SFC_SUCCESS)
    \<and> unat (g_nSLMEKeysNo ?s) = (if look_key s (c, u, i) = None then unat (g_nSLMEKeysNo s) else unat (g_nSLMEKeysNo s) - 1)"
  proof (cases "look_key s (c, u, i)")
    case None
    have "\<not> list_ex (has_id u i) ks" if "map_of (g_oSlmeKeysCatMap s) c = Some ks" for ks
      using None that by (auto simp: look_key_def list_ex_iff has_id_iff key_rows_None_iff image_iff)
    then have "SLME_DeleteKey peer sport dport i u s = (s, SFC_INVALID_ELEMENT_INDEX)"
      by (auto simp: SLME_DeleteKey_def SLME_FindKeyCatIt_def assms(2) split: option.split)
    then show ?thesis using None assms(1) by (simp add: fun_upd_idem)
  next
    case (Some k)
    then obtain ks where ks: "map_of (g_oSlmeKeysCatMap s) c = Some ks" "map_of (key_rows ks) (u, i) = Some k"
      by (auto simp: look_key_def split: option.splits)
    let ?ks = "erase_first (has_id u i) ks" and ?n = "g_nSLMEKeysNo s - 1"
    have ex: "list_ex (has_id u i) ks" using key_rows_SomeD [OF ks(2)] by (auto simp: list_ex_iff has_id_iff)
    note ok = slme_invD(4) [OF assms(1) ks(1)]
    have d: "SLME_DeleteKey peer sport dport i u s =
        (s\<lparr>g_oSlmeKeysCatMap := put_cat c ?ks (g_oSlmeKeysCatMap s), g_nSLMEKeysNo := ?n\<rparr>, SFC_SUCCESS)"
      using ks(1) ex by (simp add: SLME_DeleteKey_def SLME_FindKeyCatIt_def assms(2))
    have "0 < card (dom (look_key s))" using slme_inv_count [OF assms(1)] Some by (auto simp: card_gt_0_iff)
    then have pos: "0 < unat (g_nSLMEKeysNo s)" using slme_inv_count [OF assms(1)] by simp
    then have n: "unat ?n = unat (g_nSLMEKeysNo s) - 1" by (intro unat_minus_one) auto
    have "slme_inv (s\<lparr>g_oSlmeKeysCatMap := put_cat c ?ks (g_oSlmeKeysCatMap s), g_nSLMEKeysNo := ?n\<rparr>)"
      using ok n pos length_erase_first [OF ex] set_erase_first [of "has_id u i" ks] slme_inv_count [OF assms(1)] ks(1)
      by (intro put_cat_inv [OF assms(1)]) (auto simp: erase_first_ok)
    moreover have "look_key (s\<lparr>g_oSlmeKeysCatMap := put_cat c ?ks (g_oSlmeKeysCatMap s), g_nSLMEKeysNo := ?n\<rparr>) = (look_key s)((c, u, i) := None)"
      using ok ks(1) by (auto simp: look_key_put_cat erase_first_rows keys_ok_def look_key_def fun_eq_iff)
    ultimately show ?thesis using d Some n by simp
  qed
  then show "slme_inv ?s" and "look_key ?s = (look_key s)((c, u, i) := None)"
    and "snd (SLME_DeleteKey peer sport dport i u s) = (if look_key s (c, u, i) = None then SFC_INVALID_ELEMENT_INDEX else SFC_SUCCESS)"
    and "unat (g_nSLMEKeysNo ?s) = (if look_key s (c, u, i) = None then unat (g_nSLMEKeysNo s) else unat (g_nSLMEKeysNo s) - 1)"
    by auto
qed

lemma renew_timeout_irrelevant [simp]:
  "look_key (s\<lparr>g_unRenewTimeout := t\<rparr>) = look_key s" "slme_inv (s\<lparr>g_unRenewTimeout := t\<rparr>) = slme_inv s"
  by (simp_all add: look_key_def slme_inv_def)

text \<open>Filing a key whose place is free.\<close>

lemma file_free:
  assumes "slme_inv s" and "c = key_category peer sport dport (m_ucUsage new)" and "key_cat new = c"
    and "look_key s (c, key_id new) = None" and "unat (g_nSLMEKeysNo s) < MAX_SLME_KEYS_NO"
  shows "slme_inv (s\<lparr>g_oSlmeKeysCatMap := put_cat c (insert_key new (cat_keys (g_oSlmeKeysCatMap s) c)) (g_oSlmeKeysCatMap s),
        g_nSLMEKeysNo := g_nSLMEKeysNo s + 1\<rparr>)"
    and "look_key (s\<lparr>g_oSlmeKeysCatMap := put_cat c (insert_key new (cat_keys (g_oSlmeKeysCatMap s) c)) (g_oSlmeKeysCatMap s),
        g_nSLMEKeysNo := g_nSLMEKeysNo s + 1\<rparr>) = (look_key s)((c, key_id new) \<mapsto> new)"
proof -
  let ?ks = "cat_keys (g_oSlmeKeysCatMap s) c"
  have ok: "keys_ok ?ks" "\<forall>k \<in> set ?ks. key_cat k = c"
    using slme_invD(4) [OF assms(1), of c] by (cases "map_of (g_oSlmeKeysCatMap s) c"; simp add: keys_ok_def)+
  have rows: "map_of (key_rows ?ks) x = look_key s (c, x)" for x
    by (auto simp: look_key_def key_rows_def split: option.split)
  then have free: "key_id new \<notin> key_id ` set ?ks" using assms(4) key_rows_None_iff by metis
  have n: "unat (g_nSLMEKeysNo s + 1) = unat (g_nSLMEKeysNo s) + 1" using assms(5) by (simp add: unat_word_ariths)
  show "slme_inv (s\<lparr>g_oSlmeKeysCatMap := put_cat c (insert_key new ?ks) (g_oSlmeKeysCatMap s), g_nSLMEKeysNo := g_nSLMEKeysNo s + 1\<rparr>)"
    using insert_key_ok [OF ok(1) free] ok(2) assms(3,5) n by (intro put_cat_inv [OF assms(1)]) auto
  show "look_key (s\<lparr>g_oSlmeKeysCatMap := put_cat c (insert_key new ?ks) (g_oSlmeKeysCatMap s), g_nSLMEKeysNo := g_nSLMEKeysNo s + 1\<rparr>) =
      (look_key s)((c, key_id new) \<mapsto> new)"
    using rows by (auto simp: look_key_put_cat insert_key_rows [OF free] fun_eq_iff)
qed

lemma file_key_cases:
  assumes "slme_inv s" and c: "c = key_category peer sport dport (m_ucUsage new)" "key_cat new = c"
    and peer: "m_ucUsage new = SLM_KEY_USAGE_SESSION \<Longrightarrow> peer \<noteq> None"
  shows "\<exists>t r. file_key peer sport dport new s = Some (t, r) \<and> slme_inv t
    \<and> (if look_key s (c, key_id new) = None \<and> MAX_SLME_KEYS_NO \<le> unat (g_nSLMEKeysNo s)
       then look_key t = look_key s \<and> r = SFC_INSUFFICIENT_DEVICE_RESOURCES
       else look_key t = (look_key s)((c, key_id new) \<mapsto> new) \<and> r = SFC_SUCCESS)"
proof -
  define d where "d = fst (SLME_DeleteKey peer sport dport (m_ucKeyID new) (m_ucUsage new) s)"
  have id: "key_id new = (m_ucUsage new, m_ucKeyID new)" by (simp add: key_id_def)
  have inv: "slme_inv d" unfolding d_def by (rule DeleteKey_cases(1) [OF assms(1) c(1)])
  have look: "look_key d = (look_key s)((c, key_id new) := None)" unfolding d_def id by (rule DeleteKey_cases(2) [OF assms(1) c(1)])
  have n: "unat (g_nSLMEKeysNo d) = (if look_key s (c, key_id new) = None then unat (g_nSLMEKeysNo s) else unat (g_nSLMEKeysNo s) - 1)"
    unfolding d_def id by (rule DeleteKey_cases(4) [OF assms(1) c(1)])
  have pos: "0 < unat (g_nSLMEKeysNo s)" if "look_key s (c, key_id new) \<noteq> None"
    using slme_inv_count [OF assms(1)] that by (auto simp: card_gt_0_iff)
  have full: "MAX_SLME_KEYS_NO \<le> unat (g_nSLMEKeysNo d) \<longleftrightarrow> look_key s (c, key_id new) = None \<and> MAX_SLME_KEYS_NO \<le> unat (g_nSLMEKeysNo s)"
    using n pos slme_inv_count [OF assms(1)] by auto
  show ?thesis
  proof (cases "MAX_SLME_KEYS_NO \<le> unat (g_nSLMEKeysNo d)")
    case True
    then have "file_key peer sport dport new s = Some (d, SFC_INSUFFICIENT_DEVICE_RESOURCES)"
      by (simp add: file_key_def Let_def d_def)
    then show ?thesis using inv look True full by (simp add: fun_upd_idem)
  next
    case False
    let ?m = "g_oSlmeKeysCatMap d"
    let ?t = "d\<lparr>g_oSlmeKeysCatMap := put_cat c (insert_key new (cat_keys ?m c)) ?m, g_nSLMEKeysNo := g_nSLMEKeysNo d + 1\<rparr>"
    have "look_key d (c, key_id new) = None" by (simp add: look)
    note t = file_free [OF inv c this] False
    have "file_key peer sport dport new s = Some (?t\<lparr>g_unRenewTimeout := 0\<rparr>, SFC_SUCCESS)"
      using False peer unfolding file_key_def Let_def d_def [symmetric]
      by (auto simp: SLME_FindKeyCatIt_def SLME_InsertKeyCat_def c(1) [symmetric] split: option.split)
    then show ?thesis using t full look False by auto
  qed
qed

text \<open>The operations with the row of the table as their argument.\<close>

definition put_key :: "key_row \<Rightarrow> SLME_KEY \<Rightarrow> slme_state \<Rightarrow> slme_state \<times> u8" where
  "put_key = (\<lambda>(c, _) k s. the (file_key (Some (cat_peer c)) (cat_sport c) (cat_dport c) k s))"

definition del_key :: "key_row \<Rightarrow> slme_state \<Rightarrow> slme_state \<times> u8" where
  "del_key = (\<lambda>(c, u, i) s. SLME_DeleteKey (Some (cat_peer c)) (cat_sport c) (cat_dport c) i u s)"

definition row_ok :: "key_row \<Rightarrow> bool" where
  "row_ok = (\<lambda>(c, u, i). u = SLM_KEY_USAGE_SESSION \<or> c = zero_cat)"

definition files_under :: "key_row \<Rightarrow> SLME_KEY \<Rightarrow> bool" where
  "files_under = (\<lambda>(c, x) k. key_cat k = c \<and> key_id k = x)"

lemma row_category: "row_ok (c, u, i) \<Longrightarrow> key_category (Some (cat_peer c)) (cat_sport c) (cat_dport c) u = c"
  by (cases c) (auto simp: row_ok_def key_category_def)

lemma files_under_category:
  "files_under (c, x) k \<Longrightarrow> key_category (Some (cat_peer c)) (cat_sport c) (cat_dport c) (m_ucUsage k) = c"
  by (auto simp: files_under_def key_category_def key_cat_def)

lemma put_key_cases:
  assumes "slme_inv s" and "files_under (c, x) k"
  shows "slme_inv (fst (put_key (c, x) k s))
    \<and> (if look_key s (c, x) = None \<and> MAX_SLME_KEYS_NO \<le> unat (g_nSLMEKeysNo s)
       then look_key (fst (put_key (c, x) k s)) = look_key s \<and> snd (put_key (c, x) k s) = SFC_INSUFFICIENT_DEVICE_RESOURCES
       else look_key (fst (put_key (c, x) k s)) = (look_key s)((c, x) \<mapsto> k) \<and> snd (put_key (c, x) k s) = SFC_SUCCESS)"
  using file_key_cases [OF assms(1) files_under_category [OF assms(2), symmetric]] assms(2)
  by (auto simp: put_key_def files_under_def split: if_splits)

interpretation session_keys: row_table look_key "\<lambda>s. unat (g_nSLMEKeysNo s)" put_key del_key MAX_SLME_KEYS_NO slme_inv files_under row_ok
proof
  fix s and r :: key_row and k
  obtain c u i where r: "r = (c, u, i)" by (rule prod_cases3)
  assume inv: "slme_inv s"
  then show "finite (dom (look_key s)) \<and> unat (g_nSLMEKeysNo s) = card (dom (look_key s)) \<and> unat (g_nSLMEKeysNo s) \<le> MAX_SLME_KEYS_NO"
    by (rule slme_inv_count)
  note put = put_key_cases [OF inv, of c "(u, i)" k]
  show "files_under r k \<Longrightarrow> look_key s r \<noteq> None \<or> unat (g_nSLMEKeysNo s) < MAX_SLME_KEYS_NO \<Longrightarrow>
      look_key (fst (put_key r k s)) = (look_key s)(r \<mapsto> k) \<and> snd (put_key r k s) = SFC_SUCCESS"
    using put by (auto simp: r split: if_splits)
  show "files_under r k \<Longrightarrow> look_key s r = None \<Longrightarrow> MAX_SLME_KEYS_NO \<le> unat (g_nSLMEKeysNo s) \<Longrightarrow>
      look_key (fst (put_key r k s)) = look_key s \<and> snd (put_key r k s) = SFC_INSUFFICIENT_DEVICE_RESOURCES"
    using put by (auto simp: r)
  show "files_under r k \<Longrightarrow> slme_inv (fst (put_key r k s))" using put by (simp add: r)
  show "row_ok r \<Longrightarrow> look_key (fst (del_key r s)) = (look_key s)(r := None)"
    using DeleteKey_cases(2) [OF inv row_category [symmetric]] by (simp add: r del_key_def)
  show "row_ok r \<Longrightarrow> slme_inv (fst (del_key r s))"
    using DeleteKey_cases(1) [OF inv row_category [symmetric]] by (simp add: r del_key_def)
qed

section \<open>The key to send with\<close>

lemma FindKey_look: "SLME_FindKey peer sport dport i u s = look_key s (key_category peer sport dport u, u, i)"
  by (simp add: SLME_FindKey_def SLME_FindKeyCatIt_def look_key_def find_key_rows split: option.split)

lemma tx_loop_keeps: "fst (tx_loop now ks (Some k) n) = Some k"
  by (induction ks arbitrary: n) (auto simp: Let_def)

lemma tx_loop_first: "fst (tx_loop now ks None n) = find (\<lambda>k. m_ulValidNotBefore k \<le> now) ks"
  by (induction ks arbitrary: n) (auto simp: Let_def tx_loop_keeps)

lemma tx_loop_count:
  assumes "unat n + length ks < 256" and "fst (tx_loop now ks f n) \<noteq> None" and "n \<le> 1 \<or> f = None"
  shows "1 < snd (tx_loop now ks f n) \<longleftrightarrow> 1 < unat n + length ks"
  using assms
proof (induction ks arbitrary: f n)
  case Nil
  then show ?case by (simp add: word_less_nat_alt)
next
  case (Cons k ks)
  let ?f = "if f = None \<and> m_ulValidNotBefore k \<le> now then Some k else f"
  have n: "unat (n + 1) = unat n + 1" using Cons.prems(1) by (simp add: unat_word_ariths)
  show ?case
  proof (cases "1 < n + 1 \<and> ?f \<noteq> None")
    case True
    then have "1 < unat n + length (k # ks)" using n by (simp add: word_less_nat_alt)
    then show ?thesis using True by (auto simp: Let_def)
  next
    case False
    then have "n + 1 \<le> 1 \<or> ?f = None" by (auto simp: not_less)
    then have "1 < snd (tx_loop now ks ?f (n + 1)) \<longleftrightarrow> 1 < unat (n + 1) + length ks"
      using Cons.prems False n by (intro Cons.IH) (auto simp: Let_def)
    then show ?thesis using False n by (auto simp: Let_def)
  qed
qed

lemma stops_hard: "stops a b \<Longrightarrow> m_ucUsage a = m_ucUsage b \<Longrightarrow> m_ulHardLifetime b \<le> m_ulHardLifetime a"
  by (auto simp: stops_def split: if_splits)

lemma find_longest:
  assumes "sorted_wrt stops ks" and "find P ks = Some k" and "k' \<in> set ks" "P k'" "m_ucUsage k' = m_ucUsage k"
  shows "m_ulHardLifetime k' \<le> m_ulHardLifetime k"
  using assms
proof (induction ks)
  case (Cons a ks)
  then show ?case using stops_hard [of k k'] by (auto split: if_splits)
qed simp

section \<open>Properties\<close>

text \<open>C26:
  The key table is a map with a capacity. After any sequence of keys filed and keys deleted, whatever categories
  and lifetimes they have, a search by category, usage and identifier finds the key last set there unless the
  5000 rows were in use; the lists stay in order, no key has a twin, and the counter is the number of keys.
\<close>
theorem key_table_refinement:
  assumes "slme_inv s" and "list_all (op_ok files_under row_ok) ops"
  shows "slme_inv (run_rows put_key del_key ops s)
    \<and> SLME_FindKey peer sport dport i u (run_rows put_key del_key ops s) =
        spec_run MAX_SLME_KEYS_NO ops (look_key s) (key_category peer sport dport u, u, i)
    \<and> unat (g_nSLMEKeysNo (run_rows put_key del_key ops s)) = card (dom (spec_run MAX_SLME_KEYS_NO ops (look_key s)))"
  using session_keys.run_refines [OF assms] session_keys.count_rows by (simp add: FindKey_look)

definition empty_slme :: slme_state where
  "empty_slme = SLME_Init \<lparr>g_nSLMEKeysNo = 3, g_oSlmeKeysCatMap = [], g_stDSMO = c_stInitDSMO, g_unRenewTimeout = 0, slme_alerts = []\<rparr>"

lemma empty_slme_inv: "slme_inv empty_slme"
  by (simp add: empty_slme_def SLME_Init_def slme_inv_def cats_sorted_def key_total_def)

definition sample_key :: "u8 \<Rightarrow> u32 \<Rightarrow> SLME_KEY" where
  "sample_key i hard = new_slme_key 1000 (Some (replicate 16 5)) 0xF0B0 0xF0B1 i (replicate 16 9) None 0 (hard div 2) hard 1 0"

definition sample_row :: "u8 \<Rightarrow> key_row" where
  "sample_row i = (KeyCat 0xF0B1 0xF0B0 (replicate 16 5), 1, i)"

theorem key_table_refinement_witness:
  "SLME_FindKey (Some (replicate 16 5)) 0xF0B0 0xF0B1 7 1 (run_rows put_key del_key
     [SetRow (sample_row 7) (sample_key 7 60), SetRow (sample_row 8) (sample_key 8 90), DelRow (sample_row 8)] empty_slme) =
   Some (sample_key 7 60)"
proof -
  have ops: "list_all (op_ok files_under row_ok)
      [SetRow (sample_row 7) (sample_key 7 60), SetRow (sample_row 8) (sample_key 8 90), DelRow (sample_row 8)]"
    by (simp add: files_under_def row_ok_def sample_row_def sample_key_def new_slme_key_def Let_def key_cat_def key_id_def)
  have "look_key empty_slme = Map.empty"
    by (rule ext) (simp add: look_key_def empty_slme_def SLME_Init_def split: prod.split)
  then show ?thesis
    using key_table_refinement [OF empty_slme_inv ops, of "Some (replicate 16 5)" "0xF0B0" "0xF0B1" 7 1]
    by (simp add: spec_set_def key_category_def sample_row_def)
qed

text \<open>
  The sender's choice. Of the keys of a peer and its ports, the transport layer encrypts with one that is already
  valid and that no other valid key of the same usage outlives, and finds one exactly when there is one; the key
  count it is told exceeds one exactly when the peer has several keys, as long as it has fewer than 256.
\<close>
lemma tx_key_outlives_others:
  assumes "slme_inv s" and "SLME_FindKeyCatIt peer sport dport SLM_KEY_USAGE_SESSION s = Some ks"
    and "SLME_FindTxKey now peer sport dport s = (r, n)"
  shows "case r of
      None \<Rightarrow> \<not> list_ex (\<lambda>k. m_ulValidNotBefore k \<le> now) ks
    | Some k \<Rightarrow> k \<in> set ks \<and> m_ulValidNotBefore k \<le> now
        \<and> list_all (\<lambda>k'. m_ulValidNotBefore k' \<le> now \<and> m_ucUsage k' = m_ucUsage k \<longrightarrow> m_ulHardLifetime k' \<le> m_ulHardLifetime k) ks
        \<and> (length ks < 256 \<longrightarrow> (\<exists>c. n = Some c \<and> (1 < c \<longleftrightarrow> 1 < length ks)))"
proof -
  have r: "r = fst (tx_loop now ks None 0)" "n = Some (snd (tx_loop now ks None 0))"
    using assms(2,3) by (auto simp: SLME_FindTxKey_def case_prod_beta)
  have f: "r = find (\<lambda>k. m_ulValidNotBefore k \<le> now) ks" using r(1) by (simp add: tx_loop_first)
  have ok: "sorted_wrt stops ks"
    using slme_invD(4) [OF assms(1)] assms(2) by (auto simp: SLME_FindKeyCatIt_def keys_ok_def)
  show ?thesis
  proof (cases r)
    case None
    then have "find (\<lambda>k. m_ulValidNotBefore k \<le> now) ks = None" using f by simp
    then show ?thesis using None by (simp add: find_None_iff list_ex_iff)
  next
    case (Some k)
    have "find (\<lambda>k. m_ulValidNotBefore k \<le> now) ks = Some k" using f Some by simp
    then have k: "k \<in> set ks" "m_ulValidNotBefore k \<le> now" by (auto simp: find_Some_iff in_set_conv_nth)
    have "m_ulHardLifetime k' \<le> m_ulHardLifetime k" if "k' \<in> set ks" "m_ulValidNotBefore k' \<le> now" "m_ucUsage k' = m_ucUsage k" for k'
      using find_longest [OF ok, of "\<lambda>k. m_ulValidNotBefore k \<le> now" k k'] f Some that by simp
    moreover have "1 < snd (tx_loop now ks None 0) \<longleftrightarrow> 1 < length ks" if "length ks < 256"
      using tx_loop_count [of 0 ks now None] that r(1) [symmetric] Some by simp
    ultimately show ?thesis using k r(2) Some by (simp add: list_all_iff)
  qed
qed

text \<open>A table of two keys of one peer.\<close>

definition sample_slme :: slme_state where
  "sample_slme = empty_slme\<lparr>g_oSlmeKeysCatMap := [(KeyCat 0xF0B1 0xF0B0 (replicate 16 5), [sample_key 8 90, sample_key 7 60])],
     g_nSLMEKeysNo := 2\<rparr>"

lemma sample_key_fields:
  "m_ulValidNotBefore (sample_key i h) = 0" "m_ucUsage (sample_key i h) = 1" "m_ucKeyID (sample_key i h) = i"
  "m_ulHardLifetime (sample_key 8 90) = 1090" "m_ulHardLifetime (sample_key 7 60) = 1060"
  by (simp_all add: sample_key_def new_slme_key_def Let_def)

lemma sample_slme_inv: "slme_inv sample_slme"
  by (simp add: sample_slme_def slme_inv_def cats_sorted_def key_total_def keys_ok_def stops_def key_id_def sample_key_fields
      empty_slme_def SLME_Init_def)
    (simp add: key_cat_def sample_key_def new_slme_key_def Let_def)

theorem tx_key_outlives_others_witness:
  "fst (SLME_FindTxKey 1010 (Some (replicate 16 5)) 0xF0B0 0xF0B1 sample_slme) = Some (sample_key 8 90)"
proof -
  let ?r = "SLME_FindTxKey 1010 (Some (replicate 16 5)) 0xF0B0 0xF0B1 sample_slme"
  have "SLME_FindKeyCatIt (Some (replicate 16 5)) 0xF0B0 0xF0B1 1 sample_slme = Some [sample_key 8 90, sample_key 7 60]"
    by (simp add: SLME_FindKeyCatIt_def key_category_def sample_slme_def)
  then have "case fst ?r of None \<Rightarrow> False | Some k \<Rightarrow> k \<in> {sample_key 8 90, sample_key 7 60} \<and> 1090 \<le> m_ulHardLifetime k"
    using tx_key_outlives_others [OF sample_slme_inv, of "Some (replicate 16 5)" "0xF0B0" "0xF0B1" _ 1010 "fst ?r" "snd ?r"]
    by (auto simp: sample_key_fields split: option.splits)
  then show ?thesis by (auto simp: sample_key_fields split: option.splits)
qed

end
