(* ===== verification/Tlme.thy ===== *)
theory Tlme
  imports Nlme
begin

text \<open>
  The transport layer management entity (\<^verbatim>\<open>tlme.cpp\<close>, \<^verbatim>\<open>tlme.h\<close>): the counters of protocol data units
  per device and port, the attributes the system manager reads and writes, and the alerts. The port table
  is the list of its used rows, whose length is \<^verbatim>\<open>m_ucNbOfPorts\<close>; the counters of a row are indexed by the
  port action, as the array is in the code.
\<close>

section \<open>Data (tlme.h)\<close>

datatype PORT_ACTION = TLME_PORT_TPDU_IN_OK | TLME_PORT_TPDU_IN | TLME_PORT_TPDU_OUT_OK | TLME_PORT_TPDU_OUT

datatype TLME_ALERT_TYPE = TLME_ILLEGAL_USE_OF_PORT | TLME_TPDU_ON_UNREG_PORT | TLME_TPDU_OUT_OF_SEC_POL

type_synonym tpdu_counters = "PORT_ACTION \<Rightarrow> u32"

record TLME_PORT_INFO =
  m_aIpv6Addr :: ipv6
  m_unPortNb :: u16
  m_unUID :: u32
  m_aTPDUCount :: tpdu_counters

record TLME_STRUCT =
  m_unMaxTSDUsize :: u16
  m_unMaxNbOfPorts :: u16
  m_aTPDUCount :: tpdu_counters
  m_aAlertDesc :: "TLME_ALERT_TYPE \<Rightarrow> u8"
  m_aPortInfo :: "TLME_PORT_INFO list"
  tlme_alerts :: "raised_alert list"

record TLME_PORT_RANGE_INFO =
  m_unNbActivePorts :: u16
  m_unFirstActivePort :: u16
  m_unLastActivePort :: u16

abbreviation (input) MAX_NB_OF_PORTS :: nat where "MAX_NB_OF_PORTS \<equiv> 16"

section \<open>Operations\<close>

definition TLME_Init :: "TLME_STRUCT \<Rightarrow> TLME_STRUCT" where
  "TLME_Init t = \<lparr>m_unMaxTSDUsize = 88, m_unMaxNbOfPorts = 16, m_aTPDUCount = (\<lambda>_. 0),
     m_aAlertDesc = (\<lambda>_. 0)(TLME_ILLEGAL_USE_OF_PORT := 8, TLME_TPDU_ON_UNREG_PORT := 4, TLME_TPDU_OUT_OF_SEC_POL := 2),
     m_aPortInfo = [], tlme_alerts = tlme_alerts t\<rparr>"

definition TLME_Reset :: "u8 \<Rightarrow> TLME_STRUCT \<Rightarrow> TLME_STRUCT" where
  "TLME_Reset p_ucForced t = TLME_Init t"

definition range_step :: "TLME_PORT_RANGE_INFO \<Rightarrow> u16 \<Rightarrow> TLME_PORT_RANGE_INFO" where
  "range_step r port =
     (let r = (if m_unNbActivePorts r = 0 then r\<lparr>m_unFirstActivePort := port, m_unLastActivePort := port\<rparr>
               else if port < m_unFirstActivePort r then r\<lparr>m_unFirstActivePort := port\<rparr>
               else if m_unLastActivePort r < port then r\<lparr>m_unLastActivePort := port\<rparr> else r) in
      r\<lparr>m_unNbActivePorts := m_unNbActivePorts r + 1\<rparr>)"

definition TLME_GetPortRangeInfo :: "ipv6 \<Rightarrow> TLME_STRUCT \<Rightarrow> TLME_PORT_RANGE_INFO" where
  "TLME_GetPortRangeInfo addr t =
     foldl (\<lambda>r p. if m_aIpv6Addr p = addr then range_step r (m_unPortNb p) else r)
       \<lparr>m_unNbActivePorts = 0, m_unFirstActivePort = 0, m_unLastActivePort = 0\<rparr> (m_aPortInfo t)"

text \<open>The pointer to a row is its index.\<close>

definition port_matches :: "ipv6 \<Rightarrow> u16 \<Rightarrow> TLME_PORT_INFO \<Rightarrow> bool" where
  "port_matches addr port p \<longleftrightarrow> m_aIpv6Addr p = addr \<and> (port = 0 \<or> port = m_unPortNb p)"

fun first_index :: "('a \<Rightarrow> bool) \<Rightarrow> 'a list \<Rightarrow> nat option" where
  "first_index P [] = None"
| "first_index P (x # xs) = (if P x then Some 0 else map_option Suc (first_index P xs))"

definition TLME_findPortInfo :: "ipv6 \<Rightarrow> u16 \<Rightarrow> TLME_STRUCT \<Rightarrow> nat option" where
  "TLME_findPortInfo addr port t = first_index (port_matches addr port) (m_aPortInfo t)"

definition rejected_counts :: "TLME_PORT_INFO \<Rightarrow> TLME_PORT_INFO" where
  "rejected_counts p = (let n = TLME_PORT_INFO.m_aTPDUCount p in
     p\<lparr>TLME_PORT_INFO.m_aTPDUCount :=
         n(TLME_PORT_TPDU_IN := n TLME_PORT_TPDU_IN - n TLME_PORT_TPDU_IN_OK,
           TLME_PORT_TPDU_OUT := n TLME_PORT_TPDU_OUT - n TLME_PORT_TPDU_OUT_OK)\<rparr>)"

definition TLME_GetPortInfo :: "ipv6 \<Rightarrow> u16 \<Rightarrow> TLME_STRUCT \<Rightarrow> u8 \<times> TLME_PORT_INFO option" where
  "TLME_GetPortInfo addr port t = (case TLME_findPortInfo addr port t of
     Some i \<Rightarrow> (SFC_SUCCESS, Some (rejected_counts (m_aPortInfo t ! i)))
   | None \<Rightarrow> (SFC_INVALID_ELEMENT_INDEX, None))"

definition TLME_GetNextPortInfo :: "ipv6 \<Rightarrow> u16 \<Rightarrow> TLME_STRUCT \<Rightarrow> u8 \<times> TLME_PORT_INFO option" where
  "TLME_GetNextPortInfo addr port t = (case TLME_findPortInfo addr port t of
     Some i \<Rightarrow> (case find (\<lambda>p. m_aIpv6Addr p = addr) (drop i (m_aPortInfo t)) of
         Some p \<Rightarrow> (SFC_SUCCESS, Some (rejected_counts p))
       | None \<Rightarrow> (SFC_INVALID_ELEMENT_INDEX, None))
   | None \<Rightarrow> (SFC_INVALID_ELEMENT_INDEX, None))"

definition bump :: "PORT_ACTION \<Rightarrow> tpdu_counters \<Rightarrow> tpdu_counters" where
  "bump a n = n(a := n a + 1)"

definition TLME_SetPortInfo :: "ipv6 \<Rightarrow> u16 \<Rightarrow> PORT_ACTION \<Rightarrow> TLME_STRUCT \<Rightarrow> TLME_STRUCT" where
  "TLME_SetPortInfo addr port action t =
     (let (row, t) = (case TLME_findPortInfo addr port t of
            Some i \<Rightarrow> (Some i, t)
          | None \<Rightarrow>
              if length (m_aPortInfo t) < MAX_NB_OF_PORTS
              then (Some (length (m_aPortInfo t)),
                    t\<lparr>m_aPortInfo := m_aPortInfo t @
                        [\<lparr>m_aIpv6Addr = addr, m_unPortNb = port, m_unUID = ucast (port AND 0x0F),
                          m_aTPDUCount = (\<lambda>_. 0)\<rparr>]\<rparr>)
              else (None, t));
          t = t\<lparr>TLME_STRUCT.m_aTPDUCount := bump action (TLME_STRUCT.m_aTPDUCount t)\<rparr> in
      case row of None \<Rightarrow> t
      | Some i \<Rightarrow> t\<lparr>m_aPortInfo := (m_aPortInfo t)[i := (m_aPortInfo t ! i)
            \<lparr>TLME_PORT_INFO.m_aTPDUCount := bump action (TLME_PORT_INFO.m_aTPDUCount (m_aPortInfo t ! i))\<rparr>]\<rparr>)"

definition alert_code :: "TLME_ALERT_TYPE \<Rightarrow> u8" where
  "alert_code a = (case a of TLME_ILLEGAL_USE_OF_PORT \<Rightarrow> 0 | TLME_TPDU_ON_UNREG_PORT \<Rightarrow> 1 | TLME_TPDU_OUT_OF_SEC_POL \<Rightarrow> 2)"

definition TLME_Alert :: "TLME_ALERT_TYPE \<Rightarrow> u8 list \<Rightarrow> TLME_STRUCT \<Rightarrow> TLME_STRUCT" where
  "TLME_Alert a p_pData t =
     (if m_aAlertDesc t a AND 0x80 \<noteq> 0
      then t\<lparr>tlme_alerts := tlme_alerts t @
          [(\<lparr>m_unDetObjTLPort = 0xF0B0, m_unDetObjID = 6, m_ucClass = 0, m_ucDirection = 1, m_ucCategory = 1,
             m_ucType = alert_code a, m_ucPriority = m_aAlertDesc t a AND 0x7F,
             m_unSize = of_nat (length p_pData)\<rparr>, p_pData)]\<rparr>
      else t)"

section \<open>Attributes\<close>

text \<open>Rows 9 to 11 are the alert descriptors; \<open>tlme_writable\<close> and \<open>tlme_size\<close> are \<^verbatim>\<open>c_aTLME_AttributesParams\<close>.\<close>

definition tlme_writable :: "u8 \<Rightarrow> bool" where
  "tlme_writable a \<longleftrightarrow> a = 2 \<or> a = 9 \<or> a = 10 \<or> a = 11"

definition tlme_size :: "u8 \<Rightarrow> u8" where
  "tlme_size a = (if a = 0 then 0 else if 3 \<le> a \<and> a \<le> 8 then 4 else 2)"

definition alert_of_row :: "u8 \<Rightarrow> TLME_ALERT_TYPE" where
  "alert_of_row a = (if a = 9 then TLME_ILLEGAL_USE_OF_PORT else if a = 10 then TLME_TPDU_ON_UNREG_PORT
     else TLME_TPDU_OUT_OF_SEC_POL)"

definition native_u32 :: "u32 \<Rightarrow> u8 list" where
  "native_u32 v = [ucast v, ucast (drop_bit 8 v), ucast (drop_bit 16 v), ucast (drop_bit 24 v)]"

definition u16_of_native :: "u8 list \<Rightarrow> u16" where
  "u16_of_native bs = push_bit 8 (ucast (bs ! 1)) OR ucast (bs ! 0)"

definition TLME_SetRow :: "u8 \<Rightarrow> u32 \<Rightarrow> u8 list \<Rightarrow> u8 \<Rightarrow> TLME_STRUCT \<Rightarrow> TLME_STRUCT \<times> u8" where
  "TLME_SetRow attr p_ulTaiCutover p_pData p_ucDataLen t =
     (if 12 \<le> attr then (t, SFC_INVALID_ATTRIBUTE)
      else if \<not> tlme_writable attr then (t, SFC_READ_ONLY_ATTRIBUTE)
      else if p_ucDataLen \<noteq> tlme_size attr then (t, SFC_INVALID_SIZE)
      else if attr = 2 then (t\<lparr>m_unMaxNbOfPorts := u16_of_native p_pData\<rparr>, SFC_SUCCESS)
      else if 9 \<le> attr \<and> attr \<le> 11
      then (t\<lparr>m_aAlertDesc := (m_aAlertDesc t)(alert_of_row attr := DMAP_WriteCompressAlertDescriptor (mem_of p_pData) 0)\<rparr>,
            SFC_SUCCESS)
      else (t, SFC_INCOMPATIBLE_MODE))"

text \<open>The feedback code, the octets at \<^verbatim>\<open>p_pData\<close> and the length stored, if one is.\<close>

definition TLME_GetRow :: "u8 \<Rightarrow> u8 list \<Rightarrow> u8 \<Rightarrow> TLME_STRUCT \<Rightarrow> u8 \<times> u8 list \<times> u8 option" where
  "TLME_GetRow attr p_pIdxData p_ucIdxDataLen t =
     (let n = TLME_STRUCT.m_aTPDUCount t; sz = Some (tlme_size attr) in
      if 12 \<le> attr then (SFC_INVALID_ATTRIBUTE, [], None)
      else if attr = 1 then (SFC_SUCCESS, native_u16 (m_unMaxTSDUsize t), sz)
      else if attr = 2 then (SFC_SUCCESS, native_u16 (m_unMaxNbOfPorts t), sz)
      else if attr = 3 then (SFC_SUCCESS, native_u32 (n TLME_PORT_TPDU_IN), sz)
      else if attr = 5 then (SFC_SUCCESS, native_u32 (n TLME_PORT_TPDU_IN_OK), sz)
      else if attr = 6 then (SFC_SUCCESS, native_u32 (n TLME_PORT_TPDU_OUT), sz)
      else if attr = 8 then (SFC_SUCCESS, native_u32 (n TLME_PORT_TPDU_OUT_OK), sz)
      else if 9 \<le> attr \<and> attr \<le> 11
      then (let (bs, k) = DMAP_ReadCompressAlertDescriptor (m_aAlertDesc t (alert_of_row attr)) in (SFC_SUCCESS, bs, Some k))
      else if attr = 4 then (SFC_SUCCESS, native_u32 (n TLME_PORT_TPDU_IN - n TLME_PORT_TPDU_IN_OK), sz)
      else if attr = 7 then (SFC_SUCCESS, native_u32 (n TLME_PORT_TPDU_OUT - n TLME_PORT_TPDU_OUT_OK), sz)
      else (SFC_INCOMPATIBLE_MODE, [], sz))"

section \<open>The port table\<close>

lemma first_index_SomeD: "first_index P xs = Some i \<Longrightarrow> i < length xs \<and> P (xs ! i) \<and> (\<forall>j<i. \<not> P (xs ! j))"
  by (induction xs arbitrary: i) (auto simp: less_Suc_eq_0_disj split: if_splits)

lemma first_index_None: "first_index P xs = None \<longleftrightarrow> (\<forall>x\<in>set xs. \<not> P x)"
  by (induction xs) auto

lemma first_index_find: "find P xs = map_option ((!) xs) (first_index P xs)"
  by (induction xs) (auto simp: option.map_comp o_def)

text \<open>A history of calls of \<^verbatim>\<open>TLME_SetPortInfo\<close>, and how often it counts an action.\<close>

type_synonym port_event = "ipv6 \<times> u16 \<times> PORT_ACTION"

definition run_events :: "port_event list \<Rightarrow> TLME_STRUCT \<Rightarrow> TLME_STRUCT" where
  "run_events es t = foldl (\<lambda>t (addr, port, a). TLME_SetPortInfo addr port a t) t es"

definition port_count :: "ipv6 \<Rightarrow> u16 \<Rightarrow> PORT_ACTION \<Rightarrow> port_event list \<Rightarrow> nat" where
  "port_count addr port a es = length (filter (\<lambda>e. e = (addr, port, a)) es)"

definition total_count :: "PORT_ACTION \<Rightarrow> port_event list \<Rightarrow> nat" where
  "total_count a es = length (filter (\<lambda>(_, _, b). b = a) es)"

definition port_key :: "TLME_PORT_INFO \<Rightarrow> ipv6 \<times> u16" where
  "port_key p = (m_aIpv6Addr p, m_unPortNb p)"

text \<open>The different ports of a history, in the order of their first event.\<close>

definition ports_of :: "port_event list \<Rightarrow> (ipv6 \<times> u16) list" where
  "ports_of es = rev (remdups (rev (map (\<lambda>(addr, port, _). (addr, port)) es)))"

text \<open>What the table records of a history: its first sixteen different ports, with all their events.\<close>

definition records_events :: "port_event list \<Rightarrow> TLME_STRUCT \<Rightarrow> bool" where
  "records_events es t \<longleftrightarrow>
     (\<forall>a. TLME_STRUCT.m_aTPDUCount t a = of_nat (total_count a es)) \<and>
     distinct (map port_key (m_aPortInfo t)) \<and>
     list_all (\<lambda>p. \<forall>a. TLME_PORT_INFO.m_aTPDUCount p a = of_nat (port_count (m_aIpv6Addr p) (m_unPortNb p) a es)) (m_aPortInfo t) \<and>
     map port_key (m_aPortInfo t) = take MAX_NB_OF_PORTS (ports_of es)"

lemma ports_of_snoc:
  "ports_of (es @ [(addr, port, a)]) = (if (addr, port) \<in> set (ports_of es) then ports_of es else ports_of es @ [(addr, port)])"
  by (auto simp: ports_of_def)

lemma port_count_snoc:
  "port_count x y b (es @ [(addr, port, a)]) = port_count x y b es + (if (x, y, b) = (addr, port, a) then 1 else 0)"
  by (auto simp: port_count_def)

lemma port_count_unseen: "(addr, port) \<notin> set (ports_of es) \<Longrightarrow> port_count addr port a es = 0"
  by (force simp: port_count_def ports_of_def filter_empty_conv)

lemma total_count_snoc: "total_count b (es @ [(addr, port, a)]) = total_count b es + (if b = a then 1 else 0)"
  by (auto simp: total_count_def)

lemma findPortInfo_Some:
  assumes "port \<noteq> 0" and "TLME_findPortInfo addr port t = Some i"
  shows "i < length (m_aPortInfo t)" and "port_key (m_aPortInfo t ! i) = (addr, port)"
  using assms by (auto simp: TLME_findPortInfo_def port_matches_def port_key_def dest!: first_index_SomeD)

lemma findPortInfo_None:
  assumes "port \<noteq> 0" and "TLME_findPortInfo addr port t = None"
  shows "(addr, port) \<notin> set (map port_key (m_aPortInfo t))"
  using assms by (auto simp: TLME_findPortInfo_def first_index_None port_matches_def port_key_def)

lemma records_step:
  assumes r: "records_events es t" and port: "port \<noteq> 0"
  shows "records_events (es @ [(addr, port, a)]) (TLME_SetPortInfo addr port a t)"
proof (cases "TLME_findPortInfo addr port t")
  case (Some i)
  note i = findPortInfo_Some [OF port Some]
  let ?p = "m_aPortInfo t ! i"
  let ?q = "?p\<lparr>TLME_PORT_INFO.m_aTPDUCount := bump a (TLME_PORT_INFO.m_aTPDUCount ?p)\<rparr>"
  have key: "port_key ?q = port_key ?p" by (simp add: port_key_def)
  have "(addr, port) \<in> set (map port_key (m_aPortInfo t))" using i by (metis length_map nth_map nth_mem)
  then have seen: "(addr, port) \<in> set (ports_of es)" using r in_set_takeD unfolding records_events_def by metis
  have d: "distinct (map port_key (m_aPortInfo t))" using r unfolding records_events_def by blast
  have other: "port_key (m_aPortInfo t ! j) \<noteq> (addr, port)" if "j < length (m_aPortInfo t)" "j \<noteq> i" for j
    using nth_eq_iff_index_eq [OF d, of j i] i that by auto
  have "map port_key ((m_aPortInfo t)[i := ?q]) = map port_key (m_aPortInfo t)"
    using i key by (simp add: map_update list_update_same_conv)
  then show ?thesis
    using r i other seen Some
    by (auto simp: records_events_def TLME_SetPortInfo_def Let_def ports_of_snoc total_count_snoc port_count_snoc
        bump_def port_key_def list_all_length nth_list_update)
next
  case None
  note notin = findPortInfo_None [OF port None]
  have absent: "\<not> (m_aIpv6Addr p = addr \<and> m_unPortNb p = port)" if "p \<in> set (m_aPortInfo t)" for p
    using notin that by (auto simp: port_key_def image_iff)
  have keys: "map port_key (m_aPortInfo t) = take 16 (ports_of es)" using r unfolding records_events_def by blast
  have len: "length (m_aPortInfo t) = min (length (ports_of es)) 16" using arg_cong [OF keys, of length] by simp
  show ?thesis
  proof (cases "length (m_aPortInfo t) < 16")
    case True
    then have "ports_of es = map port_key (m_aPortInfo t)" using keys len by simp
    moreover from this notin have "port_count addr port b es = 0" for b by (simp add: port_count_unseen)
    ultimately show ?thesis using r None True notin
      by (auto simp: records_events_def TLME_SetPortInfo_def Let_def ports_of_snoc total_count_snoc port_count_snoc
          bump_def port_key_def list_all_iff)
  next
    case False
    then have "16 \<le> length (ports_of es)" using len by simp
    then show ?thesis using r None False notin absent
      by (auto simp: records_events_def TLME_SetPortInfo_def Let_def ports_of_snoc total_count_snoc port_count_snoc
          bump_def port_key_def list_all_iff)
  qed
qed

lemma run_events_snoc: "run_events (es @ [(addr, port, a)]) t = TLME_SetPortInfo addr port a (run_events es t)"
  by (simp add: run_events_def)

text \<open>
  The transport counters tell the history. After any sequence of packets on non-zero ports since the
  initialisation, each counter of the layer is the number of its events modulo \<open>2^32\<close>, the table holds
  the first sixteen different pairs of device and port in the order they appeared and no pair twice, and
  the counters of each row are the numbers of the events of that device and port.
\<close>
lemma port_table_records_history:
  assumes "\<forall>(addr, port, a) \<in> set es. port \<noteq> 0"
  shows "records_events es (run_events es (TLME_Init t))"
  using assms
proof (induction es rule: rev_induct)
  case Nil
  show ?case by (simp add: run_events_def records_events_def TLME_Init_def total_count_def ports_of_def)
next
  case (snoc e es)
  obtain addr port a where e: "e = (addr, port, a)" by (rule prod_cases3)
  show ?case using records_step [of es "run_events es (TLME_Init t)" port addr a] snoc by (simp add: e run_events_snoc)
qed

definition sample_tlme :: TLME_STRUCT where
  "sample_tlme = \<lparr>m_unMaxTSDUsize = 0, m_unMaxNbOfPorts = 0, m_aTPDUCount = (\<lambda>_. 9), m_aAlertDesc = (\<lambda>_. 0),
     m_aPortInfo = [], tlme_alerts = []\<rparr>"

theorem port_table_records_history_witness:
  "records_events [([1], 0xB0F0, TLME_PORT_TPDU_IN), ([1], 0xB0F0, TLME_PORT_TPDU_IN_OK), ([2], 0xB1F0, TLME_PORT_TPDU_OUT)]
     (run_events [([1], 0xB0F0, TLME_PORT_TPDU_IN), ([1], 0xB0F0, TLME_PORT_TPDU_IN_OK), ([2], 0xB1F0, TLME_PORT_TPDU_OUT)] (TLME_Init sample_tlme))"
  by (rule port_table_records_history) simp

text \<open>
  The request for the information of the port after a given one answers with the given port itself: the
  search starts at the row that was found instead of behind it.
\<close>
lemma next_port_is_same_port:
  "TLME_GetNextPortInfo addr port t = TLME_GetPortInfo addr port t"
proof (cases "TLME_findPortInfo addr port t")
  case (Some i)
  then have i: "i < length (m_aPortInfo t)" "m_aIpv6Addr (m_aPortInfo t ! i) = addr"
    by (auto simp: TLME_findPortInfo_def port_matches_def dest!: first_index_SomeD)
  then show ?thesis using Some
    by (simp add: TLME_GetNextPortInfo_def TLME_GetPortInfo_def Cons_nth_drop_Suc [symmetric])
qed (simp add: TLME_GetNextPortInfo_def TLME_GetPortInfo_def)

end
