(* ===== verification/Tlde.thy ===== *)
theory Tlde
  imports Tlde_Duplicates Slme_Table Tlme Ccm
begin

text \<open>
  The transport layer data entity (\<^verbatim>\<open>tlde.cpp\<close>): it puts the UDP and security headers in front of the octets of the
  application sublayer, encrypts and authenticates them with the session key of the peer, and on the way back
  checks, decrypts and passes them on, unless it has delivered the same datagram before.

  \<open>tl_env\<close> holds what the code reads elsewhere: the time, the quarter of the second, the addresses of the device and
  the block cipher. Requests to the network layer, confirmations and indications are outputs. The received datagram
  is a memory \<open>p\<close> and a length; the ports and the security header are read before the length is checked, as in the
  code. The data of a request is shorter than \<open>2^16 - 16\<close>
  octets, as its 16-bit length and the buffers of the callers guarantee. A result \<open>None\<close> means that the code writes outside a buffer, or does not return.
\<close>

section \<open>Data\<close>

record tl_env =
  tl_now :: u32
  m_uc250msStep :: u8
  tl_address :: ipv6
  tl_EUI64 :: "u8 list"
  tl_cipher :: aes

record IPV6_PSEUDO_HDR =
  m_aIpv6SrcAddr :: ipv6
  m_aIpv6DstAddr :: ipv6
  m_aPadding :: "u8 list"
  m_ucNextHdr :: u8
  m_aSrcPort :: "u8 list"
  m_aDstPort :: "u8 list"

text \<open>The octets of the pseudo header in front of its security header.\<close>

definition pseudo_octets :: "IPV6_PSEUDO_HDR \<Rightarrow> u8 list" where
  "pseudo_octets h = m_aIpv6SrcAddr h @ m_aIpv6DstAddr h @ m_aPadding h @ [m_ucNextHdr h] @ m_aSrcPort h @ m_aDstPort h"

text \<open>The three layouts of \<^verbatim>\<open>TL_HDR\<close>: the UDP header and the security header.\<close>

definition tl_hdr_octets :: "u16 \<Rightarrow> u16 \<Rightarrow> u16 \<Rightarrow> u16 \<Rightarrow> u8 list \<Rightarrow> u8 list" where
  "tl_hdr_octets sport dport len cksum security =
     DMAP_InsertUint16 sport @ DMAP_InsertUint16 dport @ DMAP_InsertUint16 len @ DMAP_InsertUint16 cksum @ security"

record NL_REQUEST =
  nl_dst :: ipv6
  nl_contract :: NLME_CONTRACT_ATTRIBUTES
  nl_priority :: u8
  nl_header :: "u8 list"
  nl_data :: "u8 list"
  nl_handle :: u16

datatype TL_EVENT =
    TL_CONFIRM u16 u8
  | TL_INDICATION (ind_addr: ipv6) (ind_sport: u8) (ind_priority: u8) (ind_data: "u8 list") (ind_dport: u8)
      (ind_traveling: u8) (ind_tx_time: "int \<times> int") (ind_security: u8)

record tlde_state =
  g_stTlme :: TLME_STRUCT
  g_stSlme :: slme_state
  g_ucMsgIncrement :: u8
  g_oDuplicates :: duplicate_state
  nl_requests :: "NL_REQUEST list"
  tl_events :: "TL_EVENT list"

abbreviation (input) SECURITY_ENC_MIC_32 :: u8 where "SECURITY_ENC_MIC_32 \<equiv> 5"
abbreviation (input) SECURITY_CTRL_ENC_MIC_32 :: u8 where "SECURITY_CTRL_ENC_MIC_32 \<equiv> 13"

section \<open>Checksum\<close>

fun TLDE_IcmpInterimChksum :: "u8 list \<Rightarrow> u32 \<Rightarrow> u32" where
  "TLDE_IcmpInterimChksum [] p_ulPrevCheckSum = p_ulPrevCheckSum"
| "TLDE_IcmpInterimChksum [b] p_ulPrevCheckSum = p_ulPrevCheckSum + push_bit 8 (ucast b)"
| "TLDE_IcmpInterimChksum (b # c # bs) p_ulPrevCheckSum = TLDE_IcmpInterimChksum bs (p_ulPrevCheckSum + push_bit 8 (ucast b) + ucast c)"

definition TLDE_IcmpGetFinalCksum :: "u32 \<Rightarrow> u16" where
  "TLDE_IcmpGetFinalCksum p_ulPrevCheckSum =
     (let unResult = NOT (ucast p_ulPrevCheckSum + ucast (drop_bit 16 p_ulPrevCheckSum)) :: u16 in
      if unResult = 0 then 0xFFFF else unResult)"

section \<open>Encryption\<close>

text \<open>
  \<open>auth\<close> is the pseudo header with the security header; the last two octets of its authenticated part are the time
  octet and the message counter.
\<close>

definition tl_nonce :: "u8 list \<Rightarrow> u32 \<Rightarrow> u8 list \<Rightarrow> nat \<Rightarrow> u8 list" where
  "tl_nonce eui t auth unAuthLen =
     eui @ [ucast (drop_bit 14 t), ucast (drop_bit 6 t), auth ! (unAuthLen - 2), auth ! (unAuthLen - 1), 0xFF]"

definition TLDE_encryptTLPayload :: "tl_env \<Rightarrow> u8 list \<Rightarrow> u8 list \<Rightarrow> nat \<Rightarrow> u8 list \<Rightarrow> u32 \<Rightarrow> u8 list option" where
  "TLDE_encryptTLPayload env p_pAppData p_pAuth p_unSecHeaderLen p_pKey p_ulCrtTai =
     (let unAuthLen = 44 - 4 + p_unSecHeaderLen - 8 in
      map_option (\<lambda>(c, rc, out). out)
        (AES_Crypt_User (tl_cipher env) p_pKey (tl_nonce (tl_EUI64 env) p_ulCrtTai p_pAuth unAuthLen)
          (take unAuthLen p_pAuth) p_pAppData ccm))"

text \<open>The return code and the octets behind the header after the call.\<close>

definition TLDE_decryptTLPayload :: "tl_env \<Rightarrow> SLME_KEY \<Rightarrow> u32 \<Rightarrow> u8 list \<Rightarrow> nat \<Rightarrow> u8 list \<Rightarrow> (u8 \<times> u8 list) option" where
  "TLDE_decryptTLPayload env p_pKey p_ulIssueTime p_pAuth p_unSecHeaderLen p_pTLData =
     (let unAuthLen = 44 - 4 + p_unSecHeaderLen - 8 in
      map_option snd
        (AES_Decrypt_User (tl_cipher env) (SLME_KEY.m_aKey p_pKey) (tl_nonce (m_aIssuerEUI64 p_pKey) p_ulIssueTime p_pAuth unAuthLen)
          (take unAuthLen p_pAuth) p_pTLData ccm))"

section \<open>Sending\<close>

definition in_tlme :: "(TLME_STRUCT \<Rightarrow> TLME_STRUCT) \<Rightarrow> tlde_state \<Rightarrow> tlde_state" where
  "in_tlme f s = s\<lparr>g_stTlme := f (g_stTlme s)\<rparr>"

definition udp_port :: "u8 \<Rightarrow> u16" where
  "udp_port p = 0xF0B0 OR ucast p"

definition tx_pseudo :: "tl_env \<Rightarrow> ipv6 \<Rightarrow> u8 \<Rightarrow> u8 \<Rightarrow> IPV6_PSEUDO_HDR" where
  "tx_pseudo env dst sp dp = \<lparr>m_aIpv6SrcAddr = tl_address env, m_aIpv6DstAddr = dst, m_aPadding = [0, 0, 0], m_ucNextHdr = 17,
     m_aSrcPort = [0xF0, 0xB0 OR sp], m_aDstPort = [0xF0, 0xB0 OR dp]\<rparr>"

text \<open>The key to encrypt with and the number of keys of the peer, when the datagram is to be encrypted.\<close>

definition must_encrypt :: "u8 \<Rightarrow> slme_state \<Rightarrow> bool" where
  "must_encrypt p_ucAllowEncryption s \<longleftrightarrow> p_ucAllowEncryption \<noteq> 0 \<and> m_ucTLSecurityLevel (g_stDSMO s) \<noteq> SECURITY_NONE"

definition tx_key :: "tl_env \<Rightarrow> ipv6 \<Rightarrow> u8 \<Rightarrow> u8 \<Rightarrow> u8 \<Rightarrow> slme_state \<Rightarrow> SLME_KEY option \<times> u8 option" where
  "tx_key env dst sp dp p_ucAllowEncryption s =
     (if must_encrypt p_ucAllowEncryption s
      then SLME_FindTxKey (tl_now env) (Some dst) (udp_port sp) (udp_port dp) s else (None, None))"

definition time_and_counter :: "tl_env \<Rightarrow> u8" where
  "time_and_counter env = ucast (push_bit 2 (tl_now env)) OR m_uc250msStep env"

definition security_header :: "SLME_KEY option \<Rightarrow> u8 option \<Rightarrow> u8 \<Rightarrow> u8 \<Rightarrow> u8 list" where
  "security_header pKey ucKeysNo tc counter =
     (case pKey of
        None \<Rightarrow> [SECURITY_NONE, tc, counter]
      | Some k \<Rightarrow> if ucKeysNo \<noteq> None \<and> 1 < the ucKeysNo then [SECURITY_CTRL_ENC_MIC_32, m_ucKeyID k, tc, counter]
                  else [SECURITY_ENC_MIC_32, tc, counter])"

text \<open>
  The checksum of the datagram: the pseudo header carries the length, and the fourth octet of the security header is
  the first octet of the data when the security header has only three.
\<close>

definition send_checksum :: "IPV6_PSEUDO_HDR \<Rightarrow> u8 list \<Rightarrow> u8 list \<Rightarrow> u16" where
  "send_checksum h security data =
     (let len = of_nat (length data) + of_nat (8 + length security) :: u32;
          bEvenHeader = (length security = 4);
          hdr = h\<lparr>m_aPadding := DMAP_InsertUint16 (ucast len) @ [0]\<rparr>;
          fourth = (if bEvenHeader then [] else [if data = [] then 0 else data ! 0]);
          ck = TLDE_IcmpInterimChksum (pseudo_octets hdr @ security @ fourth) len;
          k = (if bEvenHeader then 0 else 1) in
      TLDE_IcmpGetFinalCksum (if k < length data then TLDE_IcmpInterimChksum (drop k data) ck else ck))"

definition TLDE_DATA_Request ::
    "tl_env \<Rightarrow> u8 list option \<Rightarrow> NLME_CONTRACT_ATTRIBUTES \<Rightarrow> u8 \<Rightarrow> u8 list \<Rightarrow> u16 \<Rightarrow> u8 \<Rightarrow> u8 \<Rightarrow> u8 \<Rightarrow> tlde_state \<Rightarrow> tlde_state option" where
  "TLDE_DATA_Request env p_pEUI64DestAddr p_pContract p_ucPriorityAndFlags p_pAppData p_appHandle
       p_uc4BitSrcPort p_uc4BitDstPort p_ucAllowEncryption s =
     (if p_pEUI64DestAddr \<noteq> None then Some s
      else
        let dst = m_aDestAddress p_pContract;
            h = tx_pseudo env dst p_uc4BitSrcPort p_uc4BitDstPort;
            s = in_tlme (TLME_SetPortInfo dst (u16_of_native (m_aSrcPort h)) TLME_PORT_TPDU_OUT) s;
            (pKey, ucKeysNo) = tx_key env dst p_uc4BitSrcPort p_uc4BitDstPort p_ucAllowEncryption (g_stSlme s) in
        if must_encrypt p_ucAllowEncryption (g_stSlme s) \<and> pKey = None
        then Some (s\<lparr>tl_events := tl_events s @ [TL_CONFIRM p_appHandle SFC_NO_KEY]\<rparr>)
        else
          let s = in_tlme (TLME_SetPortInfo dst (u16_of_native (m_aSrcPort h)) TLME_PORT_TPDU_OUT_OK) s;
              counter = g_ucMsgIncrement s + 1;
              s = s\<lparr>g_ucMsgIncrement := counter\<rparr>;
              security = security_header pKey ucKeysNo (time_and_counter env) counter;
              unHdrLen = 8 + length security in
          map_option (\<lambda>data. s\<lparr>nl_requests := nl_requests s @
              [\<lparr>nl_dst = dst, nl_contract = p_pContract, nl_priority = p_ucPriorityAndFlags,
                nl_header = tl_hdr_octets (udp_port p_uc4BitSrcPort) (udp_port p_uc4BitDstPort)
                  (of_nat (length data) + of_nat unHdrLen) (send_checksum h security data) security,
                nl_data = data, nl_handle = p_appHandle\<rparr>]\<rparr>)
            (case pKey of
               None \<Rightarrow> Some p_pAppData
             | Some k \<Rightarrow> TLDE_encryptTLPayload env p_pAppData (pseudo_octets h @ security) unHdrLen (SLME_KEY.m_aKey k) (tl_now env)))"

definition NLDE_DATA_Confirm :: "u16 \<Rightarrow> u8 \<Rightarrow> tlde_state \<Rightarrow> tlde_state" where
  "NLDE_DATA_Confirm p_hTLHandle p_ucStatus s = s\<lparr>tl_events := tl_events s @ [TL_CONFIRM p_hTLHandle p_ucStatus]\<rparr>"

section \<open>Receiving\<close>

text \<open>The seconds since the datagram was issued, from the six bits of its time octet, and the time within the second.\<close>

definition time_traveling :: "u32 \<Rightarrow> u8 \<Rightarrow> u8" where
  "time_traveling ulCrtTime tc =
     (let tt = ucast (ulCrtTime AND 0x3F) - drop_bit 2 tc in if tt AND 0x80 \<noteq> 0 then tt + 0x40 else tt)"

definition tx_usec :: "u8 \<Rightarrow> u8 \<Rightarrow> int" where
  "tx_usec tc counter =
     (let u = uint (push_bit 8 (ucast (tc AND 3)) OR ucast counter :: u32) in
      if 1000 \<le> u then 1000 * 1000 - (1025 - u) else u * 1000)"

definition rx_pseudo :: "tl_env \<Rightarrow> ipv6 \<Rightarrow> mem \<Rightarrow> IPV6_PSEUDO_HDR" where
  "rx_pseudo env p_pSrcAddr p = \<lparr>m_aIpv6SrcAddr = p_pSrcAddr, m_aIpv6DstAddr = tl_address env, m_aPadding = [0, 0, 0],
     m_ucNextHdr = 17, m_aSrcPort = mem_bytes p 0 2, m_aDstPort = mem_bytes p 2 2\<rparr>"

definition receive_checksum :: "IPV6_PSEUDO_HDR \<Rightarrow> mem \<Rightarrow> u16 \<Rightarrow> u16" where
  "receive_checksum h p len =
     (let ck = TLDE_IcmpInterimChksum (pseudo_octets (h\<lparr>m_aPadding := DMAP_InsertUint16 len @ [0]\<rparr>)) (ucast len) in
      TLDE_IcmpGetFinalCksum (TLDE_IcmpInterimChksum (mem_bytes p 8 (unat len - 8)) ck))"

text \<open>The key of a protected datagram, the length of its header, its time octet and its counter.\<close>

definition rx_key :: "tl_env \<Rightarrow> ipv6 \<Rightarrow> mem \<Rightarrow> slme_state \<Rightarrow> SLME_KEY option \<times> nat \<times> u8 \<times> u8" where
  "rx_key env p_pSrcAddr p s =
     (let sport = fst (DMAP_ExtractUint16 p 0); dport = fst (DMAP_ExtractUint16 p 2) in
      if p 8 = SECURITY_ENC_MIC_32
      then (fst (SLME_FindTxKey (tl_now env) (Some p_pSrcAddr) dport sport s), 11, p 9, p 10)
      else (SLME_FindKey (Some p_pSrcAddr) dport sport (p 9) SLM_KEY_USAGE_SESSION s, 12, p 10, p 11))"

definition duplicate_key :: "u8 \<Rightarrow> u8 \<Rightarrow> ipv6 \<Rightarrow> u32 \<Rightarrow> mem \<Rightarrow> u8 list" where
  "duplicate_key tc counter p_pSrcAddr ulCrtTime p = [counter, tc] @ p_pSrcAddr @ native_u32 ulCrtTime @ mem_bytes p 0 4"

text \<open>The end of the function, once the data is known to be good.\<close>

definition deliver :: "tl_env \<Rightarrow> ipv6 \<Rightarrow> u8 \<Rightarrow> mem \<Rightarrow> u8 \<Rightarrow> u8 \<Rightarrow> u8 list \<Rightarrow> tlde_state \<Rightarrow> tlde_state option" where
  "deliver env p_pSrcAddr prio p tc counter data s =
     (let ulCrtTime = tl_now env + 2;
          tt = time_traveling ulCrtTime tc;
          tvTxTime = (sint (ulCrtTime - ucast tt), tx_usec tc counter);
          ucTimeTraveling = (if 2 < tt then tt - 2 else 0);
          ulCrtTime = ulCrtTime - ucast ucTimeTraveling in
      case TLDE_IsDuplicate (duplicate_key tc counter p_pSrcAddr ulCrtTime p) ulCrtTime (g_oDuplicates s) of
        None \<Rightarrow> None
      | Some (d, r) \<Rightarrow>
          let s = s\<lparr>g_oDuplicates := d\<rparr> in
          if r \<noteq> 0 then Some s
          else let s = in_tlme (TLME_SetPortInfo p_pSrcAddr (u16_of_native (mem_bytes p 2 2)) TLME_PORT_TPDU_IN_OK) s in
               Some (s\<lparr>tl_events := tl_events s @
                 [TL_INDICATION p_pSrcAddr (p 1 AND 0x0F) prio data (p 3 AND 0x0F) ucTimeTraveling tvTxTime (p 8)]\<rparr>))"

definition policy_alert :: "mem \<Rightarrow> u16 \<Rightarrow> tlde_state \<Rightarrow> tlde_state" where
  "policy_alert p len = in_tlme (TLME_Alert TLME_TPDU_OUT_OF_SEC_POL (mem_bytes p 0 (if len < 40 then unat len else 40)))"

definition receive_protected :: "tl_env \<Rightarrow> ipv6 \<Rightarrow> u16 \<Rightarrow> mem \<Rightarrow> u8 \<Rightarrow> tlde_state \<Rightarrow> tlde_state option" where
  "receive_protected env p_pSrcAddr len p prio s =
     (case rx_key env p_pSrcAddr p (g_stSlme s) of
        (None, _) \<Rightarrow> Some (policy_alert p len s)
      | (Some k, unHeaderLen, tc, counter) \<Rightarrow>
          if unat len \<le> unHeaderLen + 4 then Some s
          else
            let ulCrtTime = tl_now env + 2 in
            case TLDE_decryptTLPayload env k (ulCrtTime - ucast (time_traveling ulCrtTime tc))
                (pseudo_octets (rx_pseudo env p_pSrcAddr p) @ mem_bytes p 8 4) unHeaderLen
                (mem_bytes p unHeaderLen (unat len - unHeaderLen)) of
              None \<Rightarrow> None
            | Some (rc, out) \<Rightarrow>
                if rc \<noteq> AES_SUCCESS then Some (s\<lparr>g_stSlme := SLME_TL_FailReport (g_stSlme s)\<rparr>)
                else deliver env p_pSrcAddr prio p tc counter (take (unat len - (unHeaderLen + 4)) out) s)"

definition NLDE_DATA_Indication :: "tl_env \<Rightarrow> ipv6 \<Rightarrow> u16 \<Rightarrow> mem \<Rightarrow> u8 \<Rightarrow> tlde_state \<Rightarrow> tlde_state option" where
  "NLDE_DATA_Indication env p_pSrcAddr p_unTLDataLen p m_ucPriorityAndFlags s =
     (let h = rx_pseudo env p_pSrcAddr p;
          s = in_tlme (TLME_SetPortInfo p_pSrcAddr (u16_of_native (m_aDstPort h)) TLME_PORT_TPDU_IN) s in
      if MAX_NB_OF_PORTS \<le> unat (p 3 AND 0x0F) then Some (in_tlme (TLME_Alert TLME_ILLEGAL_USE_OF_PORT (m_aDstPort h)) s)
      else if p_unTLDataLen \<le> 11 then Some s
      else if DMAP_InsertUint16 (receive_checksum h p p_unTLDataLen) \<noteq> [p 6, p 7] then Some s
      else
        let s = (if m_ucTLSecurityLevel (g_stDSMO (g_stSlme s)) \<noteq> SECURITY_NONE \<and> p 8 = SECURITY_NONE
                 then policy_alert p p_unTLDataLen s else s) in
        if p 8 = SECURITY_ENC_MIC_32 \<or> p 8 = SECURITY_CTRL_ENC_MIC_32
        then receive_protected env p_pSrcAddr p_unTLDataLen p m_ucPriorityAndFlags s
        else if p 8 = SECURITY_NONE
        then deliver env p_pSrcAddr m_ucPriorityAndFlags p (p 9) (p 10) (mem_bytes p 11 (unat p_unTLDataLen - 11)) s
        else Some (policy_alert p p_unTLDataLen s))"

end
