(* ===== verification/Tlde_Checksum.thy ===== *)
theory Tlde_Checksum
  imports Tlde
begin

text \<open>
  The checksum of the transport layer against its reference, the Internet checksum of RFC 1071, which adds the carry
  out of 16 bits back until there is none.
\<close>

definition fold_carry :: "u32 \<Rightarrow> u32" where
  "fold_carry s = (s AND 0xFFFF) + drop_bit 16 s"

definition internet_checksum :: "u32 \<Rightarrow> u16" where
  "internet_checksum s = (let r = NOT (ucast (fold_carry (fold_carry s))) :: u16 in if r = 0 then 0xFFFF else r)"

lemma unat_u32_less: "unat (s :: u32) < 4294967296"
  using unsigned_less [of s] by simp

lemma folded_less: "unat (s :: u32) mod 65536 + unat s div 65536 < 131071"
proof -
  have "unat s mod 65536 < 65536" "unat s div 65536 < 65536" using unat_u32_less [of s] by (simp_all add: div_less_iff_less_mult)
  then show ?thesis by linarith
qed

lemma unat_low: "unat (s AND 0xFFFF :: u32) = unat s mod 65536"
proof -
  have "s AND 0xFFFF = take_bit 16 s" by (simp add: take_bit_eq_mask mask_eq_exp_minus_1)
  then have "s AND 0xFFFF = s mod 65536" by (simp add: take_bit_eq_mod)
  then show ?thesis by (simp add: unat_mod)
qed

lemma unat_high: "unat (drop_bit 16 (s :: u32)) = unat s div 65536"
  by (simp add: drop_bit_eq_div unat_div)

lemma unat_fold_carry: "unat (fold_carry s) = unat s mod 65536 + unat s div 65536"
proof -
  have "unat s mod 65536 + unat s div 65536 < 4294967296" using folded_less [of s] by simp
  then show ?thesis by (simp add: fold_carry_def unat_plus_if_size word_size unat_low unat_high)
qed

lemma unat_ucast_u32_u16: "unat (ucast (s :: u32) :: u16) = unat s mod 65536"
  by (simp add: unsigned_ucast_eq take_bit_eq_mod)

text \<open>The value the code complements, and the value the reference complements.\<close>

lemma plain_sum: "unat (ucast s + ucast (drop_bit 16 s) :: u16) = (unat s mod 65536 + unat s div 65536) mod 65536" for s :: u32
  by (simp add: unat_word_ariths unat_ucast_u32_u16 unat_high mod_simps)

lemma reference_sum:
  fixes s :: u32
  defines "t \<equiv> unat s mod 65536 + unat s div 65536"
  shows "unat (ucast (fold_carry (fold_carry s)) :: u16) = (if t < 65536 then t else t - 65535)"
proof -
  have t: "t < 131071" unfolding t_def by (rule folded_less)
  have "unat (fold_carry (fold_carry s)) = t mod 65536 + t div 65536" by (simp add: unat_fold_carry t_def)
  then show ?thesis using t by (cases "t < 65536") (auto simp: unat_ucast_u32_u16 mod_if div_if)
qed

text \<open>
  The code computes the Internet checksum of RFC 1071 exactly when folding the sum once leaves no carry. Otherwise it
  drops the carry, and its checksum differs from the one every other UDP stack computes.
\<close>
lemma checksum_correct_without_carry:
  "TLDE_IcmpGetFinalCksum s = internet_checksum s \<longleftrightarrow> unat s mod 65536 + unat s div 65536 < 65536"
proof -
  let ?t = "unat s mod 65536 + unat s div 65536"
  let ?x = "ucast s + ucast (drop_bit 16 s) :: u16" and ?y = "ucast (fold_carry (fold_carry s)) :: u16"
  have t: "?t < 131071" by (rule folded_less)
  show ?thesis
  proof (cases "?t < 65536")
    case True
    then have "?x = ?y" using plain_sum [of s] reference_sum [of s] by (simp add: word_unat_eq_iff)
    then show ?thesis using True by (simp add: TLDE_IcmpGetFinalCksum_def internet_checksum_def Let_def)
  next
    case False
    then have y: "unat ?y = ?t - 65535" using reference_sum [of s] by simp
    have "?t mod 65536 = (?t - 65536) mod 65536" using False by (intro le_mod_geq) simp
    moreover have "?t - 65536 < 65536" using t by linarith
    ultimately have x: "unat ?x = ?t - 65536" unfolding plain_sum by simp
    have m: "(0xFFFF :: u16) = NOT 0" by simp
    have "?x \<noteq> 0xFFFF" using x t by (auto simp: word_unat_eq_iff)
    then have "NOT ?x \<noteq> 0" unfolding m by (metis bit.double_compl)
    moreover have "unat ?x \<noteq> unat ?y" unfolding x y using False by linarith
    then have "NOT ?x \<noteq> NOT ?y" by (metis bit.double_compl)
    moreover have "NOT ?x \<noteq> 0xFFFF" if "NOT ?y = 0"
    proof
      assume "NOT ?x = 0xFFFF"
      then have "?x = 0" unfolding m by (metis bit.double_compl)
      moreover have "?y = 0xFFFF" using that unfolding m by (metis bit.double_compl)
      ultimately show False using x y False by simp
    qed
    ultimately have "TLDE_IcmpGetFinalCksum s \<noteq> internet_checksum s"
      by (simp add: TLDE_IcmpGetFinalCksum_def internet_checksum_def Let_def)
    then show ?thesis using False by simp
  qed
qed

end
