(* ===== verification/Slme_Task.thy ===== *)
theory Slme_Task
  imports Slme_Table Ccm Asl_Reach
begin

text \<open>
  The security layer at work (\<^verbatim>\<open>slme.cpp\<close>): the task that removes expired keys and asks for new ones every second,
  the request for a new session key, which it hands to the application sublayer, and the methods of the device
  security object by which the security manager sets and deletes keys.

  \<open>slme_env\<close> holds what the code reads elsewhere: the time, the addresses of the device and of the security manager,
  the message counter, whether the backbone router's alert callback is set, and the block cipher.
\<close>

record slme_env =
  crt_tai :: u32
  c_oEUI64BE :: "u8 list"
  c_oSecManagerEUI64BE :: "u8 list"
  dmo_address :: ipv6
  msg_increment :: u8
  alert_tr_callback :: bool
  block_cipher :: aes
  asl_cfg :: asl_config

section \<open>Asking for a session key\<close>

text \<open>The nonce of the device: its address, the time shifted by ten bits with the message counter, and 0xFF.\<close>

definition nonce_time :: "slme_env \<Rightarrow> u8 list" where
  "nonce_time env = DMAP_InsertUint32 (push_bit 10 (crt_tai env) OR ucast (msg_increment env))"

definition device_nonce :: "slme_env \<Rightarrow> u8 list" where
  "device_nonce env = c_oEUI64BE env @ nonce_time env @ [0xFF]"

definition session_request :: "slme_env \<Rightarrow> ipv6 \<Rightarrow> u16 \<Rightarrow> u16 \<Rightarrow> SLME_KEY \<Rightarrow> u8 list" where
  "session_request env peer sport dport master =
     (let params = dmo_address env @ DMAP_InsertUint16 sport @ peer @ DMAP_InsertUint16 dport
            @ [1, 1, 0x09, m_ucKeyID master] @ nonce_time env in
      params @ snd (aes_crypt (block_cipher env) (m_aKey master) (device_nonce env) params []))"

definition session_request_args :: "asl_config \<Rightarrow> ADD_ARGS" where
  "session_request_args cfg = \<lparr>p_ucPriority = 0, p_ucSrcTSAPID = 0, p_ucDstTSAPID = 1, p_unAppHandler = 0, p_pDstAddr = None,
     p_unContractID = g_unSysMngContractID cfg, p_ucObeyContractBandwidth = 0, p_ucAllowEncryption = 1,
     p_ucNoRspExpected = 0, p_unAPDULifetime = 300\<rparr>"

definition SLME_GenerateNewSessionKeyRequest ::
    "slme_env \<Rightarrow> ipv6 \<Rightarrow> u16 \<Rightarrow> u16 \<Rightarrow> slme_state \<Rightarrow> asl_state \<Rightarrow> asl_state \<times> u8" where
  "SLME_GenerateNewSessionKeyRequest env peer sport dport s a =
     (case SLME_GetNonSessionKey 0 SLM_KEY_USAGE_MASTER s of
        None \<Rightarrow> (a, SFC_FAILURE)
      | Some master \<Rightarrow>
          let data = session_request env peer sport dport master in
          ASLSRVC_AddGenericObject (asl_cfg env) (mem_of data) (session_request_args (asl_cfg env))
            (Service (ExecReq (EXEC_REQ_SRVC.make 3 6 0 6 (of_nat (length data)) 0))) a)"

section \<open>The task of every second\<close>

type_synonym task_state = "bool \<times> slme_state \<times> asl_state"

definition renew_key :: "slme_env \<Rightarrow> SLME_KEY \<Rightarrow> task_state \<Rightarrow> task_state" where
  "renew_key env k = (\<lambda>(allows, s, a).
     if allows \<and> m_ulSoftLifetime k \<le> crt_tai env \<and> \<not> searchForActiveKey (crt_tai env) k s
     then let (a, r) = SLME_GenerateNewSessionKeyRequest env (m_aPeerIPv6Address k) (m_unUdpSPort k) (m_unUdpDPort k) s a in
          if r = SFC_SUCCESS then (False, s, a) else (True, s\<lparr>g_unRenewTimeout := 0\<rparr>, a)
     else (allows, s, a))"

text \<open>The list of a category is \<open>kept @ ks\<close>, of which the loop has seen the keys \<open>kept\<close>.\<close>

fun key_loop :: "slme_env \<Rightarrow> SLME_KEY_CATEGORY \<Rightarrow> SLME_KEY list \<Rightarrow> SLME_KEY list \<Rightarrow> task_state \<Rightarrow> task_state" where
  "key_loop env c kept [] st = st"
| "key_loop env c kept (k # ks) (allows, s, a) =
     (if m_ulHardLifetime k \<le> crt_tai env
      then key_loop env c kept ks (allows, s\<lparr>g_oSlmeKeysCatMap := put_cat c (kept @ ks) (g_oSlmeKeysCatMap s),
             g_nSLMEKeysNo := g_nSLMEKeysNo s - 1\<rparr>, a)
      else key_loop env c (kept @ [k]) ks (renew_key env k (allows, s, a)))"

fun cat_loop :: "slme_env \<Rightarrow> SLME_KEY_CATEGORY list \<Rightarrow> task_state \<Rightarrow> task_state" where
  "cat_loop env [] st = st"
| "cat_loop env (c # cs) (allows, s, a) =
     (let (allows, s, a) = key_loop env c [] (cat_keys (g_oSlmeKeysCatMap s) c) (allows, s, a);
          s = (if cat_keys (g_oSlmeKeysCatMap s) c = []
               then s\<lparr>g_oSlmeKeysCatMap := AList.delete c (g_oSlmeKeysCatMap s)\<rparr> else s) in
      cat_loop env cs (allows, s, a))"

definition SLME_KeyUpdateTask :: "slme_env \<Rightarrow> slme_state \<Rightarrow> asl_state \<Rightarrow> slme_state \<times> asl_state" where
  "SLME_KeyUpdateTask env s a =
     (let s = ck_alerts (alert_tr_callback env) s;
          allows = (g_unRenewTimeout s = 0);
          s = s\<lparr>g_unRenewTimeout := (if allows then 600 else g_unRenewTimeout s - 1)\<rparr>;
          (_, s, a) = cat_loop env (map fst (g_oSlmeKeysCatMap s)) (allows, s, a) in
      (s, a))"

section \<open>The methods of the device security object\<close>

text \<open>
  \<open>req i\<close> is octet \<open>i\<close> of the request data and \<open>len\<close> its length; the result is the state, the feedback code, the
  response data and the peers reported to \<^verbatim>\<open>DMO_NotifyNewKeyAdded\<close>. \<open>None\<close> is a null pointer read. The length of
  the request is checked after its times are read, as in the code.
\<close>

definition u24_at :: "mem \<Rightarrow> nat \<Rightarrow> u32" where
  "u24_at req p = push_bit 16 (ucast (req p)) OR push_bit 8 (ucast (req (p + 1))) OR ucast (req (p + 2))"

definition u16_at :: "mem \<Rightarrow> nat \<Rightarrow> u16" where
  "u16_at req p = push_bit 8 (ucast (req p)) OR ucast (req (p + 1))"

text \<open>The octets the granularity saves, both times in seconds, and the offset of the policy behind them.\<close>

definition key_times :: "mem \<Rightarrow> nat \<times> u32 \<times> u32 \<times> nat" where
  "key_times req =
     (let g = req 0 AND 0x03 in
      if g = 1 then (1, fst (DMAP_ExtractUint32 req 1) * 60, u24_at req 5 * 60, 8)
      else if g = 2 then (3, u24_at req 1 * 3600, ucast (u16_at req 4) * 3600, 6)
      else if g = 3 then (4, ucast (u16_at req 1) * 86400, ucast (u16_at req 3) * 86400, 5)
      else (0, fst (DMAP_ExtractUint32 req 1), fst (DMAP_ExtractUint32 req 5), 9))"

definition manager_nonce :: "slme_env \<Rightarrow> mem \<Rightarrow> nat \<Rightarrow> u8 list" where
  "manager_nonce env req p = c_oSecManagerEUI64BE env @ mem_bytes req p 4 @ [0xFF]"

type_synonym execute_result = "slme_state \<times> u8 \<times> u8 list \<times> (ipv6 \<times> u16 \<times> u16) list"

definition reject_key :: "slme_state \<Rightarrow> execute_result" where
  "reject_key s = (SLME_KeyFailReport s, SFC_FAILURE, [], [])"

definition DSMO_NewKey :: "slme_env \<Rightarrow> mem \<Rightarrow> u16 \<Rightarrow> slme_state \<Rightarrow> execute_result option" where
  "DSMO_NewKey env req len s =
     (let usage = drop_bit 2 (req 0 AND 0x1C);
          (saved, notBefore, hard, pol) = key_times req;
          sz = 66 - (if usage = SLM_KEY_USAGE_DLL \<or> usage = SLM_KEY_USAGE_MASTER then 28 else 0) - saved;
          st = sz - 28 in
      if unat len < sz then Some (s, SFC_INVALID_SIZE, [], [])
      else case SLME_GetNonSessionKey (req (st + 2)) SLM_KEY_USAGE_MASTER s of
        None \<Rightarrow> Some (reject_key s)
      | Some master \<Rightarrow>
          if req (st + 1) AND 0x1F \<noteq> 0x0D then Some (reject_key s)
          else let (rc, out) = aes_decrypt (block_cipher env) (m_aKey master) (manager_nonce env req (st + 3))
                     (mem_bytes req 0 (sz - 20)) (mem_bytes req (sz - 20) 20) in
          if rc \<noteq> AES_SUCCESS then Some (reject_key s)
          else
            let session = (usage = SLM_KEY_USAGE_SESSION);
                eui = (if usage = SLM_KEY_USAGE_MASTER then Some (c_oSecManagerEUI64BE env)
                       else if session then Some (mem_bytes req (pol + 3) 8) else None);
                peer = (if session then Some (mem_bytes req (pol + 11) 16) else None);
                sport = (if session then u16_at req (pol + 1) else 0);
                dport = (if session then u16_at req (pol + 27) else 0) in
            map_option (\<lambda>(s, status).
                let head = [if status = SFC_SUCCESS then SFC_SUCCESS else SFC_FAILURE, 0x09, m_ucKeyID master] @ nonce_time env;
                    mic = snd (aes_crypt (block_cipher env) (m_aKey master) (device_nonce env) head []) in
                (s, SFC_SUCCESS, head @ mic,
                 if status = SFC_SUCCESS \<and> session then [(the peer, sport, dport)] else []))
              (SLME_SetKey (crt_tai env) peer sport dport (req (st + 7)) (take 16 out) eui notBefore (drop_bit 1 hard) hard
                 usage (req pol) s))"

definition authentic :: "slme_env \<Rightarrow> mem \<Rightarrow> nat \<Rightarrow> slme_state \<Rightarrow> bool" where
  "authentic env req sz s =
     (case SLME_GetNonSessionKey (req 1) SLM_KEY_USAGE_MASTER s of
        None \<Rightarrow> False
      | Some master \<Rightarrow> fst (aes_decrypt (block_cipher env) (m_aKey master) (manager_nonce env req (sz - 8))
          (mem_bytes req 0 (sz - 4)) (mem_bytes req (sz - 4) 4)) = AES_SUCCESS)"

definition DSMO_DeleteKey :: "slme_env \<Rightarrow> mem \<Rightarrow> u16 \<Rightarrow> slme_state \<Rightarrow> execute_result" where
  "DSMO_DeleteKey env req len s =
     (let session = (req 0 = SLM_KEY_USAGE_SESSION); sz = (if session then 31 else 11) in
      if unat len < sz then (s, SFC_INVALID_SIZE, [], [])
      else if \<not> authentic env req sz s then reject_key s
      else let (s, r) = (if session then SLME_DeleteKey (Some (mem_bytes req 5 16)) (u16_at req 3) (u16_at req 21) (req 2) (req 0) s
                         else SLME_DeleteKey None 0 0 (req 2) (req 0) s) in (s, r, [], []))"

text \<open>
  The key a policy update is about. The peer is read one octet behind where the deletion reads it.
\<close>

definition policy_target :: "slme_env \<Rightarrow> mem \<Rightarrow> nat \<Rightarrow> slme_state \<Rightarrow> SLME_KEY option" where
  "policy_target env req sz s =
     (if \<not> authentic env req sz s then None
      else if req 0 \<noteq> SLM_KEY_USAGE_SESSION then SLME_GetNonSessionKey (req 2) (req 0) s
      else SLME_FindKey (Some (mem_bytes req 6 16)) (u16_at req 3) (u16_at req 21) (req 2) (req 0) s)"

text \<open>
  The policy update sets the success code when it finds its target, and then runs on into the failure report and
  the failure code in every case.
\<close>

definition DSMO_PolicyUpdate :: "slme_env \<Rightarrow> mem \<Rightarrow> u16 \<Rightarrow> slme_state \<Rightarrow> execute_result" where
  "DSMO_PolicyUpdate env req len s =
     (let sz = (if req 0 = SLM_KEY_USAGE_SESSION then 32 else 12) in
      if unat len < sz then (s, SFC_INVALID_SIZE, [], [])
      else let answer = (if policy_target env req sz s \<noteq> None then (s, SFC_SUCCESS) else (s, SFC_FAILURE)) in
           reject_key (fst answer))"

definition DSMO_Execute :: "slme_env \<Rightarrow> u8 \<Rightarrow> mem \<Rightarrow> u16 \<Rightarrow> slme_state \<Rightarrow> execute_result option" where
  "DSMO_Execute env meth req len s =
     (if meth = 1 then DSMO_NewKey env req len s
      else if meth = 2 then Some (DSMO_DeleteKey env req len s)
      else if meth = 3 then Some (DSMO_PolicyUpdate env req len s)
      else Some (s, SFC_INVALID_METHOD, [], []))"

section \<open>Attributes\<close>

text \<open>\<^verbatim>\<open>c_aDSMOFct\<close>: a row that reads, and writes unless it is read-only, one field of the object.\<close>

definition dsmo_row :: "u8 \<Rightarrow> (DSMO_ATTRIBUTES \<Rightarrow> u8 \<Rightarrow> u8 list \<times> u8) \<Rightarrow> (mem \<Rightarrow> addr \<Rightarrow> DSMO_ATTRIBUTES \<Rightarrow> DSMO_ATTRIBUTES) option
    \<Rightarrow> slme_state DMAP_FCT_STRUCT" where
  "dsmo_row sz rd wr = \<lparr>DMAP_FCT_STRUCT.m_ucSize = sz, m_pReadFct = (\<lambda>s. rd (g_stDSMO s)),
     m_pWriteFct = map_option (\<lambda>w s m p. Some (in_dsmo (w m p) s)) wr\<rparr>"

definition dsmo_u16 :: "(DSMO_ATTRIBUTES \<Rightarrow> u16) \<Rightarrow> (u16 \<Rightarrow> DSMO_ATTRIBUTES \<Rightarrow> DSMO_ATTRIBUTES) \<Rightarrow> slme_state DMAP_FCT_STRUCT" where
  "dsmo_u16 get upd = dsmo_row 2 (\<lambda>d. DMAP_ReadUint16 (get d)) (Some (\<lambda>m p. upd (DMAP_WriteUint16 m p)))"

definition dsmo_desc :: "(DSMO_ATTRIBUTES \<Rightarrow> SLME_ALERT_ST) \<Rightarrow> (SLME_ALERT_ST \<Rightarrow> DSMO_ATTRIBUTES \<Rightarrow> DSMO_ATTRIBUTES) \<Rightarrow> slme_state DMAP_FCT_STRUCT" where
  "dsmo_desc get upd = dsmo_row 2 (\<lambda>d. DMAP_ReadAlertDescriptor (m_stAlertDesc (get d)))
     (Some (\<lambda>m p d. upd ((get d)\<lparr>m_stAlertDesc := DMAP_WriteAlertDescriptor m p\<rparr>) d))"

definition c_aDSMOFct :: "slme_state DMAP_FCT_STRUCT list" where
  "c_aDSMOFct =
     [\<lparr>DMAP_FCT_STRUCT.m_ucSize = 0, m_pReadFct = (\<lambda>s. DMAP_EmptyReadFunc), m_pWriteFct = None\<rparr>,
      dsmo_row 1 (\<lambda>d. DMAP_ReadUint8 (m_ucProtocolVer d)) None,
      dsmo_row 1 (\<lambda>d. DMAP_ReadUint8 (m_ucDLSecurityLevel d)) (Some (\<lambda>m p d. d\<lparr>m_ucDLSecurityLevel := DMAP_WriteUint8 m p\<rparr>)),
      dsmo_row 1 (\<lambda>d. DMAP_ReadUint8 (m_ucTLSecurityLevel d)) (Some (\<lambda>m p d. d\<lparr>m_ucTLSecurityLevel := DMAP_WriteUint8 m p\<rparr>)),
      dsmo_u16 m_unJoinTimeout (\<lambda>v d. d\<lparr>m_unJoinTimeout := v\<rparr>),
      dsmo_u16 (\<lambda>d. m_unAttrFailLimit (m_stDLAlert d)) (\<lambda>v d. d\<lparr>m_stDLAlert := (m_stDLAlert d)\<lparr>m_unAttrFailLimit := v\<rparr>\<rparr>),
      dsmo_u16 (\<lambda>d. m_unAttrFailPeriod (m_stDLAlert d)) (\<lambda>v d. d\<lparr>m_stDLAlert := (m_stDLAlert d)\<lparr>m_unAttrFailPeriod := v\<rparr>\<rparr>),
      dsmo_u16 (\<lambda>d. m_unAttrFailLimit (m_stTLAlert d)) (\<lambda>v d. d\<lparr>m_stTLAlert := (m_stTLAlert d)\<lparr>m_unAttrFailLimit := v\<rparr>\<rparr>),
      dsmo_u16 (\<lambda>d. m_unAttrFailPeriod (m_stTLAlert d)) (\<lambda>v d. d\<lparr>m_stTLAlert := (m_stTLAlert d)\<lparr>m_unAttrFailPeriod := v\<rparr>\<rparr>),
      dsmo_u16 (\<lambda>d. m_unAttrFailLimit (m_stKeyAlert d)) (\<lambda>v d. d\<lparr>m_stKeyAlert := (m_stKeyAlert d)\<lparr>m_unAttrFailLimit := v\<rparr>\<rparr>),
      dsmo_u16 (\<lambda>d. m_unAttrFailPeriod (m_stKeyAlert d)) (\<lambda>v d. d\<lparr>m_stKeyAlert := (m_stKeyAlert d)\<lparr>m_unAttrFailPeriod := v\<rparr>\<rparr>),
      dsmo_desc m_stDLAlert (\<lambda>v d. d\<lparr>m_stDLAlert := v\<rparr>),
      dsmo_desc m_stTLAlert (\<lambda>v d. d\<lparr>m_stTLAlert := v\<rparr>),
      dsmo_desc m_stKeyAlert (\<lambda>v d. d\<lparr>m_stKeyAlert := v\<rparr>),
      dsmo_u16 m_unPDUMaxAge (\<lambda>v d. d\<lparr>m_unPDUMaxAge := v\<rparr>)]"

section \<open>The task removes exactly the expired keys\<close>

abbreviation (input) alive :: "u32 \<Rightarrow> SLME_KEY \<Rightarrow> bool" where
  "alive now k \<equiv> \<not> m_ulHardLifetime k \<le> now"

definition clean_keys :: "u32 \<Rightarrow> key_map \<Rightarrow> key_map" where
  "clean_keys now m = filter (\<lambda>(c, ks). ks \<noteq> []) (map (\<lambda>(c, ks). (c, filter (alive now) ks)) m)"

lemma put_cat_mid: "cats_sorted (P @ (c, ks) # R) \<Longrightarrow> put_cat c ks' (P @ (c, ks) # R) = P @ (c, ks') # R"
  by (induction P) (force simp: cats_sorted_def)+

lemma cats_sorted_mid: "cats_sorted (P @ (c, ks) # R) \<Longrightarrow> cats_sorted (P @ (c, ks') # R) \<and> cats_sorted (P @ R)"
  by (auto simp: cats_sorted_def sorted_wrt_append)

lemma cat_keys_mid: "cats_sorted (P @ (c, ks) # R) \<Longrightarrow> map_of (P @ (c, ks) # R) c = Some ks"
  by (induction P) (auto simp: cats_sorted_def)

lemma delete_mid: "cats_sorted (P @ (c, ks) # R) \<Longrightarrow> AList.delete c (P @ (c, ks) # R) = P @ R"
proof (induction P)
  case Nil
  then have "c \<notin> fst ` set R" by (auto simp: cats_sorted_def)
  then show ?case by simp
next
  case (Cons x P)
  then show ?case by (cases x) (auto simp: cats_sorted_def)
qed

lemma renew_key_frame:
  assumes "renew_key env k (allows, s, a) = (allows', s', a')"
  shows "s' = s\<lparr>g_unRenewTimeout := g_unRenewTimeout s'\<rparr>"
  using assms by (auto simp: renew_key_def Let_def split: if_splits prod.splits)

lemma key_loop_result:
  assumes "g_oSlmeKeysCatMap s = P @ (c, kept @ ks) # R" and "cats_sorted (g_oSlmeKeysCatMap s)"
    and "key_loop env c kept ks (allows, s, a) = (allows', s', a')"
  shows "s' = s\<lparr>g_oSlmeKeysCatMap := P @ (c, kept @ filter (alive (crt_tai env)) ks) # R,
    g_nSLMEKeysNo := g_nSLMEKeysNo s - of_nat (length (filter (\<lambda>k. m_ulHardLifetime k \<le> crt_tai env) ks)),
    g_unRenewTimeout := g_unRenewTimeout s'\<rparr>"
  using assms
proof (induction ks arbitrary: kept allows s a)
  case Nil
  then show ?case by simp
next
  case (Cons k ks)
  show ?case
  proof (cases "alive (crt_tai env) k")
    case True
    obtain al s1 a1 where r: "renew_key env k (allows, s, a) = (al, s1, a1)" by (rule prod_cases3)
    obtain t where t: "s1 = s\<lparr>g_unRenewTimeout := t\<rparr>" using renew_key_frame [OF r] by metis
    have l: "key_loop env c (kept @ [k]) ks (al, s1, a1) = (allows', s', a')" using Cons.prems(3) True r by simp
    have "g_oSlmeKeysCatMap s1 = P @ (c, (kept @ [k]) @ ks) # R" "cats_sorted (g_oSlmeKeysCatMap s1)"
      using Cons.prems t by simp_all
    from Cons.IH [OF this l] show ?thesis using True t by simp
  next
    case False
    let ?s = "s\<lparr>g_oSlmeKeysCatMap := put_cat c (kept @ ks) (g_oSlmeKeysCatMap s), g_nSLMEKeysNo := g_nSLMEKeysNo s - 1\<rparr>"
    have m: "g_oSlmeKeysCatMap ?s = P @ (c, kept @ ks) # R" "cats_sorted (g_oSlmeKeysCatMap ?s)"
      using Cons.prems(1,2) cats_sorted_mid [of P c "kept @ k # ks" R "kept @ ks"] by (simp_all add: put_cat_mid)
    have l: "key_loop env c kept ks (allows, ?s, a) = (allows', s', a')" using Cons.prems(3) False by simp
    from Cons.IH [OF m l] show ?thesis using False by (simp add: diff_diff_eq)
  qed
qed

lemma cat_loop_result:
  assumes "g_oSlmeKeysCatMap s = P @ R" and "cats_sorted (g_oSlmeKeysCatMap s)"
    and "cat_loop env (map fst R) (allows, s, a) = (allows', s', a')"
  shows "s' = s\<lparr>g_oSlmeKeysCatMap := P @ clean_keys (crt_tai env) R,
    g_nSLMEKeysNo := g_nSLMEKeysNo s - of_nat (length (filter (\<lambda>k. m_ulHardLifetime k \<le> crt_tai env) (concat (map snd R)))),
    g_unRenewTimeout := g_unRenewTimeout s'\<rparr>"
  using assms
proof (induction R arbitrary: P allows s a)
  case Nil
  then show ?case by (simp add: clean_keys_def)
next
  case (Cons e R)
  obtain c ks where e: "e = (c, ks)" by (cases e)
  have keys: "cat_keys (g_oSlmeKeysCatMap s) c = ks" using cat_keys_mid [of P c ks R] Cons.prems(1,2) by (simp add: e)
  obtain al s1 a1 where l: "key_loop env c [] ks (allows, s, a) = (al, s1, a1)" by (rule prod_cases3)
  let ?ks = "filter (alive (crt_tai env)) ks"
  have s1: "s1 = s\<lparr>g_oSlmeKeysCatMap := P @ (c, ?ks) # R,
      g_nSLMEKeysNo := g_nSLMEKeysNo s - of_nat (length (filter (\<lambda>k. m_ulHardLifetime k \<le> crt_tai env) ks)),
      g_unRenewTimeout := g_unRenewTimeout s1\<rparr>"
    using key_loop_result [of s P c "[]" ks R] Cons.prems(1,2) l by (simp add: e)
  have m1: "g_oSlmeKeysCatMap s1 = P @ (c, ?ks) # R" by (subst s1) simp
  have sorted: "cats_sorted (P @ (c, ?ks) # R)" "cats_sorted (P @ R)"
    using cats_sorted_mid [of P c ks R ?ks] Cons.prems(1,2) by (simp_all add: e)
  define s2 where "s2 = (if ?ks = [] then s1\<lparr>g_oSlmeKeysCatMap := P @ R\<rparr> else s1)"
  have "cat_loop env (map fst R) (al, s2, a1) = (allows', s', a')"
    using Cons.prems(3) keys l m1 cat_keys_mid [OF sorted(1)] delete_mid [OF sorted(1)] by (simp add: e s2_def cong: if_cong)
  moreover define Q where "Q = (if ?ks = [] then P else P @ [(c, ?ks)])"
  have "g_oSlmeKeysCatMap s2 = Q @ R" "cats_sorted (g_oSlmeKeysCatMap s2)" using m1 sorted by (simp_all add: s2_def Q_def)
  ultimately have "s' = s2\<lparr>g_oSlmeKeysCatMap := Q @ clean_keys (crt_tai env) R,
    g_nSLMEKeysNo := g_nSLMEKeysNo s2 - of_nat (length (filter (\<lambda>k. m_ulHardLifetime k \<le> crt_tai env) (concat (map snd R)))),
    g_unRenewTimeout := g_unRenewTimeout s'\<rparr>" using Cons.IH by blast
  moreover have "\<exists>t. s1 = s\<lparr>g_oSlmeKeysCatMap := P @ (c, ?ks) # R,
      g_nSLMEKeysNo := g_nSLMEKeysNo s - of_nat (length (filter (\<lambda>k. m_ulHardLifetime k \<le> crt_tai env) ks)), g_unRenewTimeout := t\<rparr>"
    by (rule exI) (rule s1)
  then obtain t where t: "s1 = s\<lparr>g_oSlmeKeysCatMap := P @ (c, ?ks) # R,
      g_nSLMEKeysNo := g_nSLMEKeysNo s - of_nat (length (filter (\<lambda>k. m_ulHardLifetime k \<le> crt_tai env) ks)), g_unRenewTimeout := t\<rparr>" ..
  have "s2 = s\<lparr>g_oSlmeKeysCatMap := Q @ R,
      g_nSLMEKeysNo := g_nSLMEKeysNo s - of_nat (length (filter (\<lambda>k. m_ulHardLifetime k \<le> crt_tai env) ks)), g_unRenewTimeout := t\<rparr>"
    unfolding s2_def Q_def by (subst (1 2) t) simp
  moreover have "P @ clean_keys (crt_tai env) ((c, ks) # R) = Q @ clean_keys (crt_tai env) R" by (simp add: Q_def clean_keys_def)
  ultimately show ?case by (simp add: e diff_diff_eq)
qed

lemma clean_keys_sorted: "cats_sorted m \<Longrightarrow> cats_sorted (clean_keys now m)"
  by (induction m) (auto simp: clean_keys_def cats_sorted_def)

lemma map_of_clean_keys:
  "cats_sorted m \<Longrightarrow> map_of (clean_keys now m) c =
     (case map_of m c of None \<Rightarrow> None | Some ks \<Rightarrow> if filter (alive now) ks = [] then None else Some (filter (alive now) ks))"
proof (induction m)
  case (Cons e m)
  obtain c' ks where e: "e = (c', ks)" by (cases e)
  have "cats_sorted m" using Cons.prems by (simp add: cats_sorted_def)
  moreover have "map_of m c' = None" using cats_sorted_notin Cons.prems by (metis e order_refl)
  ultimately show ?case using Cons.IH by (auto simp: e clean_keys_def split: option.split)
qed (simp add: clean_keys_def)

lemma key_total_clean:
  "key_total (clean_keys now m) + length (filter (\<lambda>k. m_ulHardLifetime k \<le> now) (concat (map snd m))) = key_total m"
proof (induction m)
  case (Cons e m)
  have "length (filter (alive now) (snd e)) + length (filter (\<lambda>k. m_ulHardLifetime k \<le> now) (snd e)) = length (snd e)"
    using sum_length_filter_compl [of "alive now" "snd e"] by simp
  moreover have "key_total (clean_keys now (e # m)) = length (filter (alive now) (snd e)) + key_total (clean_keys now m)"
    by (cases e) (auto simp: key_total_def clean_keys_def)
  ultimately show ?case using Cons by (simp add: key_total_def)
qed (simp add: key_total_def clean_keys_def)

lemma key_rows_filter: "distinct (map key_id ks) \<Longrightarrow>
    map_of (key_rows (filter P ks)) x = (case map_of (key_rows ks) x of None \<Rightarrow> None | Some k \<Rightarrow> if P k then Some k else None)"
proof (induction ks)
  case (Cons k ks)
  have "map_of (key_rows ks) (key_id k) = None" using Cons.prems by (simp add: key_rows_None_iff)
  then show ?case using Cons by (auto simp: key_rows_def split: option.split)
qed (simp add: key_rows_def)

lemma keys_ok_filter: "keys_ok ks \<Longrightarrow> keys_ok (filter P ks)"
  by (simp add: keys_ok_def sorted_wrt_filter distinct_map_filter)

lemma ck_alerts_frame:
  "\<exists>d as. ck_alerts bbr s = s\<lparr>g_stDSMO := d, slme_alerts := as\<rparr>"
  by (auto simp: ck_alerts_def Let_def split: prod.split)

lemma KeyUpdateTask_result:
  assumes "slme_inv s" and "SLME_KeyUpdateTask env s a = (s', a')"
  shows "g_oSlmeKeysCatMap s' = clean_keys (crt_tai env) (g_oSlmeKeysCatMap s)"
    and "g_nSLMEKeysNo s' = g_nSLMEKeysNo s -
      of_nat (length (filter (\<lambda>k. m_ulHardLifetime k \<le> crt_tai env) (concat (map snd (g_oSlmeKeysCatMap s)))))"
proof -
  obtain d as where ck: "ck_alerts (alert_tr_callback env) s = s\<lparr>g_stDSMO := d, slme_alerts := as\<rparr>"
    using ck_alerts_frame by blast
  let ?t = "if g_unRenewTimeout s = 0 then 600 else g_unRenewTimeout s - 1"
  define s1 where "s1 = s\<lparr>g_stDSMO := d, slme_alerts := as, g_unRenewTimeout := ?t\<rparr>"
  obtain al where l: "cat_loop env (map fst (g_oSlmeKeysCatMap s1)) (g_unRenewTimeout s = 0, s1, a) = (al, s', a')"
    using assms(2) by (auto simp: SLME_KeyUpdateTask_def ck s1_def Let_def split: prod.splits cong: if_cong)
  have "g_oSlmeKeysCatMap s1 = [] @ g_oSlmeKeysCatMap s1" "cats_sorted (g_oSlmeKeysCatMap s1)"
    using slme_invD(1) [OF assms(1)] by (simp_all add: s1_def)
  from cat_loop_result [OF this l] obtain t where "s' = s1\<lparr>g_oSlmeKeysCatMap := clean_keys (crt_tai env) (g_oSlmeKeysCatMap s1),
      g_nSLMEKeysNo := g_nSLMEKeysNo s1 -
        of_nat (length (filter (\<lambda>k. m_ulHardLifetime k \<le> crt_tai env) (concat (map snd (g_oSlmeKeysCatMap s1))))),
      g_unRenewTimeout := t\<rparr>" by auto
  then show "g_oSlmeKeysCatMap s' = clean_keys (crt_tai env) (g_oSlmeKeysCatMap s)" and "g_nSLMEKeysNo s' = g_nSLMEKeysNo s -
      of_nat (length (filter (\<lambda>k. m_ulHardLifetime k \<le> crt_tai env) (concat (map snd (g_oSlmeKeysCatMap s)))))"
    by (simp_all add: s1_def)
qed

lemma KeyUpdateTask_inv:
  assumes "slme_inv s" and "SLME_KeyUpdateTask env s a = (s', a')"
  shows "slme_inv s'"
proof -
  note r = KeyUpdateTask_result [OF assms] and i = slme_invD [OF assms(1)]
  let ?m = "g_oSlmeKeysCatMap s"
  have sorted: "cats_sorted (clean_keys (crt_tai env) ?m)" by (rule clean_keys_sorted [OF i(1)])
  have "keys_ok ks \<and> (\<forall>k \<in> set ks. key_cat k = c)" if "(c, ks) \<in> set (clean_keys (crt_tai env) ?m)" for c ks
    using map_of_is_SomeI [OF _ that] cats_sorted_wf [OF sorted] i(4) keys_ok_filter
    by (auto simp: wf_alist_def map_of_clean_keys [OF i(1)] split: option.splits if_splits)
  moreover have n: "unat (of_nat (length (filter (\<lambda>k. m_ulHardLifetime k \<le> crt_tai env) (concat (map snd ?m)))) :: u16) =
      length (filter (\<lambda>k. m_ulHardLifetime k \<le> crt_tai env) (concat (map snd ?m)))"
    using key_total_clean [of "crt_tai env" ?m] i(3) by (intro unat_of_nat_u16) linarith
  then have "unat (g_nSLMEKeysNo s') = key_total (clean_keys (crt_tai env) ?m)"
    using key_total_clean [of "crt_tai env" ?m] i(2) by (simp add: r(2) unat_sub word_le_nat_alt)
  ultimately show ?thesis
    using sorted key_total_clean [of "crt_tai env" ?m] i(3) by (auto simp: slme_inv_def r(1))
qed

lemma KeyUpdateTask_look:
  assumes "slme_inv s" and "SLME_KeyUpdateTask env s a = (s', a')"
  shows "look_key s' x = (case look_key s x of None \<Rightarrow> None | Some k \<Rightarrow> if m_ulHardLifetime k \<le> crt_tai env then None else Some k)"
proof -
  obtain c y where x: "x = (c, y)" by (cases x)
  note i = slme_invD [OF assms(1)]
  show ?thesis
  proof (cases "map_of (g_oSlmeKeysCatMap s) c")
    case (Some ks)
    then have "distinct (map key_id ks)" using i(4) [OF Some] by (simp add: keys_ok_def)
    note rows = key_rows_filter [OF this, of "alive (crt_tai env)" y]
    have "map_of (key_rows (filter (alive (crt_tai env)) ks)) y = None" if "filter (alive (crt_tai env)) ks = []"
      unfolding that by (simp add: key_rows_def)
    then show ?thesis using Some rows
      by (auto simp: x look_key_def KeyUpdateTask_result(1) [OF assms] map_of_clean_keys [OF i(1)] split: option.splits if_splits)
  qed (simp add: x look_key_def KeyUpdateTask_result(1) [OF assms] map_of_clean_keys [OF i(1)])
qed

section \<open>Requests for new keys\<close>

abbreviation (input) tx_size :: "asl_state \<Rightarrow> nat" where
  "tx_size a \<equiv> length (g_oAslMsgListTx a)"

lemma tx_size_store_contract [simp]: "g_oAslMsgListTx (store_contract w c a) = g_oAslMsgListTx a"
  by (simp add: store_contract_def split: prod.split)

lemma AddGenericObject_size:
  assumes "ASLSRVC_AddGenericObject cfg m x y a = (a', r)"
  shows "tx_size a' \<le> tx_size a + 1" and "r \<noteq> SFC_SUCCESS \<Longrightarrow> tx_size a' = tx_size a" and "tx_size a \<le> tx_size a'"
  using assms
  by (auto simp: ASLSRVC_AddGenericObject_def ASLSRVC_AddGenericObjectEncryptable_def ASLSRVC_AddGenericObjectEncryptableCore_def Let_def
      split: option.splits if_splits)

lemma session_request_size:
  assumes "SLME_GenerateNewSessionKeyRequest env peer sport dport s a = (a', r)"
  shows "tx_size a' \<le> tx_size a + 1" and "r \<noteq> SFC_SUCCESS \<Longrightarrow> tx_size a' = tx_size a"
  using assms AddGenericObject_size
  by (auto simp: SLME_GenerateNewSessionKeyRequest_def Let_def split: option.splits)

text \<open>While renewal is allowed nothing is queued; when it no longer is, at most one request is.\<close>

definition one_request :: "nat \<Rightarrow> task_state \<Rightarrow> bool" where
  "one_request n = (\<lambda>(allows, s, a). if allows then tx_size a = n else tx_size a \<le> n + 1)"

lemma renew_key_one_request: "one_request n st \<Longrightarrow> one_request n (renew_key env k st)"
  using session_request_size
  by (cases st) (fastforce simp: one_request_def renew_key_def Let_def split: if_splits prod.splits)

lemma renew_key_forbidden: "\<not> fst st \<Longrightarrow> renew_key env k st = st"
  by (cases st) (simp add: renew_key_def)

lemma key_loop_one_request: "one_request n st \<Longrightarrow> one_request n (key_loop env c kept ks st)"
proof (induction ks arbitrary: kept st)
  case (Cons k ks)
  obtain al s a where st: "st = (al, s, a)" by (rule prod_cases3)
  show ?case using Cons renew_key_one_request [OF Cons.prems, of env k] by (auto simp: st one_request_def)
qed simp

lemma cat_loop_one_request: "one_request n st \<Longrightarrow> one_request n (cat_loop env cs st)"
proof (induction cs arbitrary: st)
  case (Cons c cs)
  obtain al s a where st: "st = (al, s, a)" by (rule prod_cases3)
  obtain al1 s1 a1 where l: "key_loop env c [] (cat_keys (g_oSlmeKeysCatMap s) c) (al, s, a) = (al1, s1, a1)" by (rule prod_cases3)
  have "one_request n (al1, s1, a1)" using key_loop_one_request [OF Cons.prems(1) [unfolded st], of env c "[]"] l by metis
  then have "one_request n (al1, t, a1)" for t by (simp add: one_request_def)
  then show ?case using Cons.IH by (simp add: st l)
qed simp

lemma key_loop_forbidden: "key_loop env c kept ks (False, s, a) = (al, s', a') \<Longrightarrow> \<not> al \<and> a' = a \<and> g_unRenewTimeout s' = g_unRenewTimeout s"
  by (induction ks arbitrary: kept s) (auto simp: renew_key_forbidden split: if_splits)

lemma cat_loop_forbidden: "cat_loop env cs (False, s, a) = (al, s', a') \<Longrightarrow> a' = a \<and> g_unRenewTimeout s' = g_unRenewTimeout s"
proof (induction cs arbitrary: s)
  case (Cons c cs)
  obtain al1 s1 a1 where l: "key_loop env c [] (cat_keys (g_oSlmeKeysCatMap s) c) (False, s, a) = (al1, s1, a1)" by (rule prod_cases3)
  then show ?case using key_loop_forbidden [OF l] Cons by (fastforce simp: Let_def split: if_splits)
qed simp

section \<open>Properties\<close>

text \<open>C27:
  Expired keys are gone after the task of the second, and only they: a search finds exactly the keys it found before
  whose hard lifetime is not over, the key counter and the order of the table are right again, and no category is
  left without a key.
\<close>
theorem task_removes_expired_keys:
  assumes "slme_inv s" and "SLME_KeyUpdateTask env s a = (s', a')"
  shows "slme_inv s' \<and> list_all (\<lambda>(c, ks). ks \<noteq> []) (g_oSlmeKeysCatMap s')
    \<and> SLME_FindKey peer sport dport i u s' =
        (case SLME_FindKey peer sport dport i u s of
           None \<Rightarrow> None | Some k \<Rightarrow> if m_ulHardLifetime k \<le> crt_tai env then None else Some k)"
proof -
  have "list_all (\<lambda>(c, ks). ks \<noteq> []) (g_oSlmeKeysCatMap s')"
    using KeyUpdateTask_result(1) [OF assms] by (auto simp: clean_keys_def list_all_iff)
  then show ?thesis
    using KeyUpdateTask_inv [OF assms] KeyUpdateTask_look [OF assms] by (simp add: FindKey_look)
qed

definition sample_env :: "u32 \<Rightarrow> slme_env" where
  "sample_env now = \<lparr>crt_tai = now, c_oEUI64BE = replicate 8 2, c_oSecManagerEUI64BE = replicate 8 6,
     dmo_address = replicate 16 4, msg_increment = 1, alert_tr_callback = False, block_cipher = sample_aes,
     asl_cfg = sample_config\<rparr>"

theorem task_removes_expired_keys_witness:
  "let s = fst (SLME_KeyUpdateTask (sample_env 1070) sample_slme start_state) in
   SLME_FindKey (Some (replicate 16 5)) 0xF0B0 0xF0B1 7 1 s = None
   \<and> SLME_FindKey (Some (replicate 16 5)) 0xF0B0 0xF0B1 8 1 s = Some (sample_key 8 90)"
proof -
  let ?r = "SLME_KeyUpdateTask (sample_env 1070) sample_slme start_state"
  have "SLME_FindKey (Some (replicate 16 5)) 0xF0B0 0xF0B1 i 1 sample_slme = find (has_id 1 i) [sample_key 8 90, sample_key 7 60]" for i
    by (simp add: SLME_FindKey_def SLME_FindKeyCatIt_def key_category_def sample_slme_def)
  then show ?thesis
    using task_removes_expired_keys [OF sample_slme_inv, of "sample_env 1070" start_state "fst ?r" "snd ?r"
        "Some (replicate 16 5)" "0xF0B0" "0xF0B1" _ 1]
    by (simp add: sample_env_def has_id_def sample_key_fields Let_def)
qed

text \<open>
  Renewal requests are limited: within the ten minutes after a request the task sends nothing and only counts down,
  and one run of the task queues at most one request, however many keys are past their soft lifetime.
\<close>
lemma renewal_is_limited:
  assumes "SLME_KeyUpdateTask env s a = (s', a')"
  shows "(g_unRenewTimeout s \<noteq> 0 \<longrightarrow> a' = a \<and> g_unRenewTimeout s' = g_unRenewTimeout s - 1)
    \<and> length (g_oAslMsgListTx a') \<le> length (g_oAslMsgListTx a) + 1"
proof -
  obtain d as where ck: "ck_alerts (alert_tr_callback env) s = s\<lparr>g_stDSMO := d, slme_alerts := as\<rparr>"
    using ck_alerts_frame by blast
  let ?t = "if g_unRenewTimeout s = 0 then 600 else g_unRenewTimeout s - 1"
  define s1 where "s1 = s\<lparr>g_stDSMO := d, slme_alerts := as, g_unRenewTimeout := ?t\<rparr>"
  obtain al where l: "cat_loop env (map fst (g_oSlmeKeysCatMap s1)) (g_unRenewTimeout s = 0, s1, a) = (al, s', a')"
    using assms by (auto simp: SLME_KeyUpdateTask_def ck s1_def Let_def split: prod.splits cong: if_cong)
  have "one_request (tx_size a) (cat_loop env (map fst (g_oSlmeKeysCatMap s1)) (g_unRenewTimeout s = 0, s1, a))"
    by (rule cat_loop_one_request) (simp add: one_request_def)
  then have "tx_size a' \<le> tx_size a + 1" by (auto simp: l one_request_def split: if_splits)
  moreover have "a' = a \<and> g_unRenewTimeout s' = g_unRenewTimeout s - 1" if "g_unRenewTimeout s \<noteq> 0"
    using cat_loop_forbidden [of env "map fst (g_oSlmeKeysCatMap s1)" s1 a al s' a'] l that by (simp add: s1_def)
  ultimately show ?thesis by blast
qed

theorem renewal_is_limited_witness:
  "let r = SLME_KeyUpdateTask (sample_env 1070) (sample_slme\<lparr>g_unRenewTimeout := 5\<rparr>) start_state in
   snd r = start_state \<and> g_unRenewTimeout (fst r) = 4"
  using renewal_is_limited [of "sample_env 1070" "sample_slme\<lparr>g_unRenewTimeout := 5\<rparr>" start_state, OF prod.collapse [symmetric]]
  by (simp add: Let_def)

end
