(* ===== verification/Slme_Dsmo.thy ===== *)
theory Slme_Dsmo
  imports Slme_Task
begin

text \<open>
  What the methods of the device security object do for the security manager and against everyone else: only a
  request sealed with a master key of the table changes a key, and a session key that the manager sends in its
  format is found afterwards under the peer and the ports it was sent for.
\<close>

section \<open>Requests without the master key\<close>

lemma KeyFailReport_map [simp]: "g_oSlmeKeysCatMap (SLME_KeyFailReport s) = g_oSlmeKeysCatMap s"
  by (simp add: SLME_KeyFailReport_def in_dsmo_def)

lemma reject_key_map: "reject_key s = (s', r) \<Longrightarrow> g_oSlmeKeysCatMap s' = g_oSlmeKeysCatMap s"
  by (auto simp: reject_key_def)

lemma length_manager_nonce: "length (c_oSecManagerEUI64BE env) = 8 \<Longrightarrow> length (manager_nonce env req p) = 13"
  by (simp add: manager_nonce_def)

text \<open>A request is a head and what the manager has sealed with a master key under that head.\<close>

definition sealed_request :: "slme_env \<Rightarrow> mem \<Rightarrow> nat \<Rightarrow> nat \<Rightarrow> SLME_KEY \<Rightarrow> bool" where
  "sealed_request env req n sz master \<longleftrightarrow>
     (\<exists>p msg. mem_bytes req n (sz - n) =
        ccm_seal (block_cipher env) 4 (m_aKey master) (manager_nonce env req p) (mem_bytes req 0 n) msg)"

lemma decrypt_request_sealed:
  assumes "fst (aes_decrypt (block_cipher env) (m_aKey master) (manager_nonce env req p) (mem_bytes req 0 n) (mem_bytes req n k)) = AES_SUCCESS"
    and "length (c_oSecManagerEUI64BE env) = 8" and "4 \<le> k" and "k \<le> 20" and "n \<le> 60"
  shows "sealed_request env req n (n + k) master"
proof -
  have r: "ROUND_UP_TO_MUL_16 m < m + 16" for m using ROUND_UP_less [of m] by simp
  have "buffer_size n (k - 4) < 65536"
    using r [of "2 + n"] r [of "k - 4"] assms(4,5) by (auto simp: buffer_size_def)
  then have "ccm_fits (manager_nonce env req p) (mem_bytes req 0 n) (length (mem_bytes req n k) - 4)"
    using length_manager_nonce [OF assms(2)] assms(5) by (simp add: ccm_fits_def)
  from aes_decrypt_open [OF _ this, of "block_cipher env" "m_aKey master"] assms(1,3) show ?thesis
    by (auto simp: sealed_request_def Let_def split: if_splits)
qed

lemma NewKey_authentic:
  assumes "DSMO_NewKey env req len s = Some (s', r)" and "g_oSlmeKeysCatMap s' \<noteq> g_oSlmeKeysCatMap s"
  shows "\<exists>master sz. 34 \<le> sz \<and> sz \<le> 66 \<and> sz \<le> unat len \<and> SLME_GetNonSessionKey (req (sz - 28 + 2)) SLM_KEY_USAGE_MASTER s = Some master
    \<and> fst (aes_decrypt (block_cipher env) (m_aKey master) (manager_nonce env req (sz - 28 + 3))
        (mem_bytes req 0 (sz - 20)) (mem_bytes req (sz - 20) 20)) = AES_SUCCESS"
proof -
  obtain saved notBefore hard pol where t: "key_times req = (saved, notBefore, hard, pol)" by (rule prod_cases4)
  then have saved: "saved \<le> 4" by (auto simp: key_times_def Let_def split: if_splits)
  define usage where "usage = drop_bit 2 (req 0 AND 0x1C)"
  define sz where "sz = (66 :: nat) - (if usage = SLM_KEY_USAGE_DLL \<or> usage = SLM_KEY_USAGE_MASTER then 28 else 0) - saved"
  have "34 \<le> sz" "sz \<le> 66" using saved by (auto simp: sz_def)
  moreover have "sz \<le> unat len \<and> (\<exists>master. SLME_GetNonSessionKey (req (sz - 28 + 2)) SLM_KEY_USAGE_MASTER s = Some master
    \<and> fst (aes_decrypt (block_cipher env) (m_aKey master) (manager_nonce env req (sz - 28 + 3))
        (mem_bytes req 0 (sz - 20)) (mem_bytes req (sz - 20) 20)) = AES_SUCCESS)"
    using assms unfolding DSMO_NewKey_def t usage_def [symmetric] Let_def prod.case sz_def [symmetric]
    by (auto simp: reject_key_def split: if_splits option.splits prod.splits)
  ultimately show ?thesis by blast
qed

lemma DeleteKey_authentic:
  assumes "DSMO_DeleteKey env req len s = (s', r)" and "g_oSlmeKeysCatMap s' \<noteq> g_oSlmeKeysCatMap s"
  shows "\<exists>master sz. 11 \<le> sz \<and> sz \<le> 31 \<and> sz \<le> unat len \<and> SLME_GetNonSessionKey (req 1) SLM_KEY_USAGE_MASTER s = Some master
    \<and> fst (aes_decrypt (block_cipher env) (m_aKey master) (manager_nonce env req (sz - 8))
        (mem_bytes req 0 (sz - 4)) (mem_bytes req (sz - 4) 4)) = AES_SUCCESS"
proof -
  define sz :: nat where "sz = (if req 0 = SLM_KEY_USAGE_SESSION then 31 else 11)"
  have "11 \<le> sz" "sz \<le> 31" by (simp_all add: sz_def)
  moreover have "sz \<le> unat len \<and> authentic env req sz s"
    using assms unfolding DSMO_DeleteKey_def Let_def sz_def [symmetric] by (auto simp: reject_key_def split: if_splits)
  ultimately show ?thesis by (auto simp: authentic_def split: option.splits)
qed

section \<open>A session key from the manager\<close>

text \<open>The request for a session key with its times in seconds, as the security manager builds it.\<close>

record new_key =
  nk_notBefore :: u32
  nk_hard :: u32
  nk_policy :: u8
  nk_sport :: u16
  nk_eui :: "u8 list"
  nk_peer :: ipv6
  nk_dport :: u16
  nk_time :: "u8 list"
  nk_id :: u8
  nk_key :: "u8 list"

definition new_key_ok :: "new_key \<Rightarrow> bool" where
  "new_key_ok x \<longleftrightarrow> length (nk_eui x) = 8 \<and> length (nk_peer x) = 16 \<and> length (nk_time x) = 4 \<and> length (nk_key x) = 16"

definition new_key_head :: "u8 \<Rightarrow> new_key \<Rightarrow> u8 list" where
  "new_key_head masterId x = [4] @ DMAP_InsertUint32 (nk_notBefore x) @ DMAP_InsertUint32 (nk_hard x) @ [nk_policy x]
     @ DMAP_InsertUint16 (nk_sport x) @ nk_eui x @ nk_peer x @ DMAP_InsertUint16 (nk_dport x)
     @ [0, 0x0D, masterId] @ nk_time x @ [nk_id x]"

definition new_key_request :: "slme_env \<Rightarrow> SLME_KEY \<Rightarrow> u8 \<Rightarrow> new_key \<Rightarrow> u8 list" where
  "new_key_request env master masterId x = (let head = new_key_head masterId x in
     head @ ccm_seal (block_cipher env) 4 (m_aKey master) (c_oSecManagerEUI64BE env @ nk_time x @ [0xFF]) head (nk_key x))"

lemma length_new_key_head: "new_key_ok x \<Longrightarrow> length (new_key_head i x) = 46"
  by (simp add: new_key_head_def new_key_ok_def codec_defs)

lemma holds_bytes: "holds m a bs \<Longrightarrow> length bs = n \<Longrightarrow> mem_bytes m a n = bs"
  by (simp add: holds_iff_mem_bytes)

lemma new_key_octets:
  fixes env master i x
  defines "p \<equiv> mem_of (new_key_request env master i x)"
  assumes "new_key_ok x"
  shows "p 0 = 4" and "fst (DMAP_ExtractUint32 p 1) = nk_notBefore x" and "fst (DMAP_ExtractUint32 p 5) = nk_hard x" and "p 9 = nk_policy x"
    and "u16_at p 10 = nk_sport x" and "mem_bytes p 12 8 = nk_eui x" and "mem_bytes p 20 16 = nk_peer x" and "u16_at p 36 = nk_dport x"
    and "p 39 = 0x0D" and "p 40 = i" and "mem_bytes p 41 4 = nk_time x" and "p 45 = nk_id x"
    and "mem_bytes p 0 46 = new_key_head i x"
    and "mem_bytes p 46 20 = ccm_seal (block_cipher env) 4 (m_aKey master) (c_oSecManagerEUI64BE env @ nk_time x @ [0xFF]) (new_key_head i x) (nk_key x)"
proof -
  note l = assms(2) [unfolded new_key_ok_def]
  let ?seal = "ccm_seal (block_cipher env) 4 (m_aKey master) (c_oSecManagerEUI64BE env @ nk_time x @ [0xFF]) (new_key_head i x) (nk_key x)"
  have h: "holds p 0 (new_key_head i x @ ?seal)" unfolding p_def new_key_request_def Let_def by (rule holds_mem_of)
  have len: "length ?seal = 20" using l by (simp add: length_ccm_seal)
  then show "mem_bytes p 0 46 = new_key_head i x" "mem_bytes p 46 20 = ?seal"
    using h length_new_key_head [OF assms(2), of i] by (auto intro!: holds_bytes)
  have n: "length (DMAP_InsertUint32 v) = 4" "length (DMAP_InsertUint16 w) = 2" for v w by (simp_all add: codec_defs)
  have hs: "holds p 0 [4]" "holds p 1 (DMAP_InsertUint32 (nk_notBefore x))" "holds p 5 (DMAP_InsertUint32 (nk_hard x))"
      "holds p 9 [nk_policy x]" "holds p 10 (DMAP_InsertUint16 (nk_sport x))" "holds p 12 (nk_eui x)" "holds p 20 (nk_peer x)"
      "holds p 36 (DMAP_InsertUint16 (nk_dport x))" "holds p 38 [0, 0x0D, i]" "holds p 41 (nk_time x)" "holds p 45 [nk_id x]"
    using h l by (auto simp: new_key_head_def n)
  show "p 0 = 4" "p 9 = nk_policy x" "p 39 = 0x0D" "p 40 = i" "p 45 = nk_id x" using hs(1,4,9,11) by (simp_all add: eval_nat_numeral)
  show "fst (DMAP_ExtractUint32 p 1) = nk_notBefore x" "fst (DMAP_ExtractUint32 p 5) = nk_hard x"
    using hs(2,3) by (simp_all add: uint32_codec.ext_ins)
  have "fst (DMAP_ExtractUint16 p 10) = nk_sport x" "fst (DMAP_ExtractUint16 p 36) = nk_dport x"
    using hs(5,8) by (simp_all add: uint16_codec.ext_ins)
  then show "u16_at p 10 = nk_sport x" "u16_at p 36 = nk_dport x" by (simp_all add: u16_at_def DMAP_ExtractUint16_def)
  show "mem_bytes p 12 8 = nk_eui x" "mem_bytes p 20 16 = nk_peer x" "mem_bytes p 41 4 = nk_time x"
    using hs(6,7,10) l by (auto intro!: holds_bytes)
qed

lemma session_key_stored:
  assumes "slme_inv s" and "new_key_ok x" and "SLME_GetNonSessionKey i SLM_KEY_USAGE_MASTER s = Some master"
    and "unat (g_nSLMEKeysNo s) < MAX_SLME_KEYS_NO" and "length (c_oSecManagerEUI64BE env) = 8" and "length (c_oEUI64BE env) = 8"
  shows "\<exists>s'. DSMO_Execute env 1 (mem_of (new_key_request env master i x)) 66 s =
      Some (s', SFC_SUCCESS, let head = [SFC_SUCCESS, 0x09, m_ucKeyID master] @ nonce_time env in
          head @ ccm_seal (block_cipher env) 4 (m_aKey master) (device_nonce env) head [], [(nk_peer x, nk_sport x, nk_dport x)])
    \<and> slme_inv s'
    \<and> SLME_FindKey (Some (nk_peer x)) (nk_sport x) (nk_dport x) (nk_id x) SLM_KEY_USAGE_SESSION s' =
        Some (new_slme_key (crt_tai env) (Some (nk_peer x)) (nk_sport x) (nk_dport x) (nk_id x) (nk_key x) (Some (nk_eui x))
          (nk_notBefore x) (nk_hard x div 2) (nk_hard x) SLM_KEY_USAGE_SESSION (nk_policy x))"
proof -
  let ?p = "mem_of (new_key_request env master i x)"
  note o = new_key_octets [OF assms(2), of env master i]
  define new where "new = new_slme_key (crt_tai env) (Some (nk_peer x)) (nk_sport x) (nk_dport x) (nk_id x) (nk_key x) (Some (nk_eui x))
      (nk_notBefore x) (nk_hard x div 2) (nk_hard x) SLM_KEY_USAGE_SESSION (nk_policy x)"
  let ?c = "KeyCat (nk_dport x) (nk_sport x) (nk_peer x)"
  have new: "m_ucUsage new = 1" "m_ucKeyID new = nk_id x" "key_cat new = ?c"
    by (simp_all add: new_def new_slme_key_def Let_def key_cat_def)
  obtain t where t: "file_key (Some (nk_peer x)) (nk_sport x) (nk_dport x) new s = Some (t, SFC_SUCCESS)" "slme_inv t"
      "look_key t = (look_key s)((?c, key_id new) \<mapsto> new)"
    using file_key_cases [OF assms(1), of ?c "Some (nk_peer x)" "nk_sport x" "nk_dport x" new] new assms(4)
    by (auto simp: key_category_def split: if_splits)
  have nonce: "manager_nonce env ?p 41 = c_oSecManagerEUI64BE env @ nk_time x @ [0xFF]" using o(11) by (simp add: manager_nonce_def)
  have fits: "ccm_fits (c_oSecManagerEUI64BE env @ nk_time x @ [0xFF]) (new_key_head i x) (length (nk_key x))"
    using assms(2,5) by (simp add: ccm_fits_def length_new_key_head buffer_size_def ROUND_UP_TO_MUL_16_def new_key_ok_def)
  have dec: "aes_decrypt (block_cipher env) (m_aKey master) (manager_nonce env ?p 41) (mem_bytes ?p 0 46) (mem_bytes ?p 46 20) =
      (AES_SUCCESS, nk_key x @ ccm_mic (block_cipher env) 4 (m_aKey master) (c_oSecManagerEUI64BE env @ nk_time x @ [0xFF]) (new_key_head i x) (nk_key x))"
    unfolding nonce o(13,14) by (rule aes_decrypt_crypt [OF fits])
  have times: "key_times ?p = (0, nk_notBefore x, nk_hard x, 9)" using o(1-3) by (simp add: key_times_def Let_def)
  have half: "drop_bit (Suc 0) (nk_hard x) = nk_hard x div 2" by (simp add: drop_bit_eq_div)
  let ?head = "[SFC_SUCCESS, 0x09, m_ucKeyID master] @ nonce_time env"
  have "ccm_fits (device_nonce env) ?head (length ([] :: u8 list))"
    using assms(6) by (simp add: ccm_fits_def device_nonce_def nonce_time_def codec_defs buffer_size_def ROUND_UP_TO_MUL_16_def)
  note mic = aes_crypt_seal [OF this, of "block_cipher env" "m_aKey master"]
  have set: "SLME_SetKey (crt_tai env) (Some (nk_peer x)) (nk_sport x) (nk_dport x) (nk_id x) (nk_key x) (Some (nk_eui x))
      (nk_notBefore x) (nk_hard x div 2) (nk_hard x) 1 (nk_policy x) s = Some (t, SFC_SUCCESS)"
    using t(1) by (simp add: SLME_SetKey_def new_def)
  have usage: "drop_bit 2 (?p 0 AND 0x1C) = 1" by (simp add: o(1))
  have "take 16 (nk_key x @ ys) = nk_key x" for ys using assms(2) by (simp add: new_key_ok_def)
  then have "DSMO_Execute env 1 ?p 66 s = Some (t, SFC_SUCCESS,
      ?head @ ccm_seal (block_cipher env) 4 (m_aKey master) (device_nonce env) ?head [], [(nk_peer x, nk_sport x, nk_dport x)])"
    using assms(3) dec set mic
    by (simp add: DSMO_Execute_def DSMO_NewKey_def times usage o half Let_def)
  moreover have "SLME_FindKey (Some (nk_peer x)) (nk_sport x) (nk_dport x) (nk_id x) 1 t = Some new"
    using t(3) new by (simp add: FindKey_look key_category_def key_id_def)
  ultimately show ?thesis using t(2) by (simp add: new_def Let_def)
qed

section \<open>Properties\<close>

text \<open>C25:
  The key table is changed by the security manager only: when a method of the device security object leaves a
  different table of keys, then the request was long enough and its end is a CCM encryption under one of the
  master keys the table had, with the rest of the request authenticated by it. Every other request leaves the keys
  alone.
\<close>
theorem key_changes_need_master_key:
  assumes "DSMO_Execute env meth req len s = Some (s', sfc, rsp, notes)" and "g_oSlmeKeysCatMap s' \<noteq> g_oSlmeKeysCatMap s"
    and "length (c_oSecManagerEUI64BE env) = 8"
  shows "\<exists>i master n sz. SLME_GetNonSessionKey i SLM_KEY_USAGE_MASTER s = Some master
    \<and> n + 4 \<le> sz \<and> sz \<le> unat len \<and> 7 \<le> n \<and> sealed_request env req n sz master"
proof -
  consider (new) "meth = 1" "DSMO_NewKey env req len s = Some (s', sfc, rsp, notes)"
    | (del) "meth = 2" "DSMO_DeleteKey env req len s = (s', sfc, rsp, notes)"
    using assms(1,2) by (auto simp: DSMO_Execute_def DSMO_PolicyUpdate_def Let_def dest: reject_key_map split: if_splits)
  then show ?thesis
  proof cases
    case new
    obtain master sz where sz: "34 \<le> sz" "sz \<le> 66" "sz \<le> unat len"
        and m: "SLME_GetNonSessionKey (req (sz - 28 + 2)) SLM_KEY_USAGE_MASTER s = Some master"
        and a: "fst (aes_decrypt (block_cipher env) (m_aKey master) (manager_nonce env req (sz - 28 + 3))
          (mem_bytes req 0 (sz - 20)) (mem_bytes req (sz - 20) 20)) = AES_SUCCESS"
      using NewKey_authentic [OF new(2) assms(2)] by blast
    have "sealed_request env req (sz - 20) (sz - 20 + 20) master" by (rule decrypt_request_sealed [OF a assms(3)]) (use sz in simp_all)
    then show ?thesis using sz m by (intro exI [of _ "req (sz - 28 + 2)"] exI [of _ master] exI [of _ "sz - 20"] exI [of _ sz]) auto
  next
    case del
    obtain master sz where sz: "11 \<le> sz" "sz \<le> 31" "sz \<le> unat len"
        and m: "SLME_GetNonSessionKey (req 1) SLM_KEY_USAGE_MASTER s = Some master"
        and a: "fst (aes_decrypt (block_cipher env) (m_aKey master) (manager_nonce env req (sz - 8))
          (mem_bytes req 0 (sz - 4)) (mem_bytes req (sz - 4) 4)) = AES_SUCCESS"
      using DeleteKey_authentic [OF del(2) assms(2)] by blast
    have "sealed_request env req (sz - 4) (sz - 4 + 4) master" by (rule decrypt_request_sealed [OF a assms(3)]) (use sz in simp_all)
    then show ?thesis using sz m by (intro exI [of _ "req 1"] exI [of _ master] exI [of _ "sz - 4"] exI [of _ sz]) auto
  qed
qed

definition master_key :: SLME_KEY where
  "master_key = new_slme_key 1000 None 0 0 0 (replicate 16 3) None 0 0 0 SLM_KEY_USAGE_MASTER 0"

definition joined_slme :: slme_state where
  "joined_slme = empty_slme\<lparr>g_oSlmeKeysCatMap := [(zero_cat, [master_key])], g_nSLMEKeysNo := 1\<rparr>"

definition sample_new_key :: new_key where
  "sample_new_key = \<lparr>nk_notBefore = 0, nk_hard = 600, nk_policy = 0, nk_sport = 0xF0B0, nk_eui = replicate 8 7, nk_peer = replicate 16 5,
     nk_dport = 0xF0B1, nk_time = [1, 2, 3, 4], nk_id = 9, nk_key = replicate 16 0xAB\<rparr>"

lemma joined_slme_facts:
  "slme_inv joined_slme" "SLME_GetNonSessionKey 0 SLM_KEY_USAGE_MASTER joined_slme = Some master_key"
  "unat (g_nSLMEKeysNo joined_slme) < MAX_SLME_KEYS_NO" "new_key_ok sample_new_key"
  "length (c_oSecManagerEUI64BE (sample_env now)) = 8" "length (c_oEUI64BE (sample_env now)) = 8"
  "SLME_FindKey (Some (replicate 16 5)) 0xF0B0 0xF0B1 9 SLM_KEY_USAGE_SESSION joined_slme = None"
  by (simp_all add: joined_slme_def slme_inv_def cats_sorted_def key_total_def keys_ok_def empty_slme_def SLME_Init_def master_key_def
      new_slme_key_def Let_def key_cat_def SLME_GetNonSessionKey_def SLME_FindKey_def SLME_FindKeyCatIt_def key_category_def has_id_def
      sample_new_key_def new_key_ok_def sample_env_def zero_cat_def)

theorem key_changes_need_master_key_witness:
  "\<exists>n sz. n + 4 \<le> sz \<and> sz \<le> 66 \<and> 7 \<le> n
     \<and> sealed_request (sample_env 2000) (mem_of (new_key_request (sample_env 2000) master_key 0 sample_new_key)) n sz master_key"
proof -
  obtain s' r where s': "DSMO_Execute (sample_env 2000) 1 (mem_of (new_key_request (sample_env 2000) master_key 0 sample_new_key)) 66 joined_slme =
      Some (s', r)" and f: "SLME_FindKey (Some (replicate 16 5)) 0xF0B0 0xF0B1 9 SLM_KEY_USAGE_SESSION s' \<noteq> None"
    using session_key_stored [OF joined_slme_facts(1,4,2,3,5,6), of 2000] by (auto simp: sample_new_key_def)
  obtain sfc rsp ns where r: "r = (sfc, rsp, ns)" by (rule prod_cases3)
  have "g_oSlmeKeysCatMap s' \<noteq> g_oSlmeKeysCatMap joined_slme"
    using f joined_slme_facts(7) by (auto simp: SLME_FindKey_def SLME_FindKeyCatIt_def)
  from key_changes_need_master_key [OF s' [unfolded r] this joined_slme_facts(5)] obtain i master n sz where
      "SLME_GetNonSessionKey i SLM_KEY_USAGE_MASTER joined_slme = Some master" "n + 4 \<le> sz" "sz \<le> 66" "7 \<le> n"
      "sealed_request (sample_env 2000) (mem_of (new_key_request (sample_env 2000) master_key 0 sample_new_key)) n sz master" by auto
  moreover from this(1) have "master = master_key"
    by (auto simp: SLME_GetNonSessionKey_def SLME_FindKey_def SLME_FindKeyCatIt_def key_category_def joined_slme_def split: if_splits)
  ultimately show ?thesis by blast
qed

text \<open>C24:
  A session key the manager sends arrives: when the table has the master key that seals the request and room for
  one more key, then the method answers with success, sealed with the same master key, reports the peer to the
  contract management, keeps the table in order, and the key is found with exactly the lifetimes, policy and
  octets of the request under the peer, the ports and the identifier it was sent for.
\<close>
theorem session_key_arrives:
  assumes "slme_inv s" and "new_key_ok x" and "SLME_GetNonSessionKey i SLM_KEY_USAGE_MASTER s = Some master"
    and "unat (g_nSLMEKeysNo s) < MAX_SLME_KEYS_NO" and "length (c_oSecManagerEUI64BE env) = 8" and "length (c_oEUI64BE env) = 8"
  shows "\<exists>s'. DSMO_Execute env 1 (mem_of (new_key_request env master i x)) 66 s =
      Some (s', SFC_SUCCESS, let head = [SFC_SUCCESS, 0x09, m_ucKeyID master] @ nonce_time env in
          head @ ccm_seal (block_cipher env) 4 (m_aKey master) (device_nonce env) head [], [(nk_peer x, nk_sport x, nk_dport x)])
    \<and> slme_inv s'
    \<and> SLME_FindKey (Some (nk_peer x)) (nk_sport x) (nk_dport x) (nk_id x) SLM_KEY_USAGE_SESSION s' =
        Some (new_slme_key (crt_tai env) (Some (nk_peer x)) (nk_sport x) (nk_dport x) (nk_id x) (nk_key x) (Some (nk_eui x))
          (nk_notBefore x) (nk_hard x div 2) (nk_hard x) SLM_KEY_USAGE_SESSION (nk_policy x))"
  by (rule session_key_stored [OF assms])

theorem session_key_arrives_witness:
  "\<exists>s' rsp. DSMO_Execute (sample_env 2000) 1 (mem_of (new_key_request (sample_env 2000) master_key 0 sample_new_key)) 66 joined_slme =
     Some (s', SFC_SUCCESS, rsp, [(replicate 16 5, 0xF0B0, 0xF0B1)])
   \<and> map_option m_ulHardLifetime (SLME_FindKey (Some (replicate 16 5)) 0xF0B0 0xF0B1 9 SLM_KEY_USAGE_SESSION s') = Some 2600"
  using session_key_arrives [OF joined_slme_facts(1,4,2,3,5,6), of 2000]
  by (auto simp: sample_new_key_def new_slme_key_def Let_def sample_env_def)

end
