(* ===== verification/Std_Map.thy ===== *)
theory Std_Map
  imports Isa_Prelude
begin

text \<open>
  \<^verbatim>\<open>std::map\<close> where the order of iteration matters: an association list sorted by strictly increasing keys. \<open>map_put\<close> is
  \<^verbatim>\<open>m[k] = v\<close> (or \<^verbatim>\<open>erase\<close> followed by \<^verbatim>\<open>insert\<close>), \<open>map_insert\<close> is \<^verbatim>\<open>insert\<close>, which leaves an existing entry as it
  is, and \<open>map_erase\<close> is \<^verbatim>\<open>erase\<close>; \<^verbatim>\<open>find\<close> is \<open>map_of\<close> and iteration is the list from left to right.
\<close>

fun map_put :: "'k::linorder \<Rightarrow> 'v \<Rightarrow> ('k \<times> 'v) list \<Rightarrow> ('k \<times> 'v) list" where
  "map_put k v [] = [(k, v)]"
| "map_put k v ((k', v') # m) =
     (if k < k' then (k, v) # (k', v') # m else if k = k' then (k, v) # m else (k', v') # map_put k v m)"

definition map_insert :: "'k::linorder \<Rightarrow> 'v \<Rightarrow> ('k \<times> 'v) list \<Rightarrow> ('k \<times> 'v) list" where
  "map_insert k v m = (if map_of m k = None then map_put k v m else m)"

definition map_erase :: "'k \<Rightarrow> ('k \<times> 'v) list \<Rightarrow> ('k \<times> 'v) list" where
  "map_erase k = filter (\<lambda>e. fst e \<noteq> k)"

definition sorted_map :: "('k::linorder \<times> 'v) list \<Rightarrow> bool" where
  "sorted_map m \<longleftrightarrow> sorted_wrt (<) (map fst m)"

section \<open>The map it stands for\<close>

lemma sorted_map_Nil [simp]: "sorted_map []"
  by (simp add: sorted_map_def)

lemma sorted_map_Cons: "sorted_map ((k, v) # m) \<longleftrightarrow> (\<forall>j\<in>set (map fst m). k < j) \<and> sorted_map m"
  by (simp add: sorted_map_def)

lemma sorted_map_distinct: "sorted_map m \<Longrightarrow> distinct (map fst m)"
  by (simp add: sorted_map_def strict_sorted_iff)

lemma map_of_put [simp]: "sorted_map m \<Longrightarrow> map_of (map_put k v m) = (map_of m)(k \<mapsto> v)"
  by (induction m) (auto simp: sorted_map_Cons fun_eq_iff)

lemma keys_put: "set (map fst (map_put k v m)) = insert k (set (map fst m))"
proof (induction m)
  case (Cons e m)
  then show ?case by (cases e) (simp add: insert_commute del: set_map)
qed simp

lemma set_map_put: "set (map_put k v m) \<subseteq> insert (k, v) (set m)"
  by (induction m) (auto split: if_splits)

lemma sorted_map_put [simp]: "sorted_map m \<Longrightarrow> sorted_map (map_put k v m)"
proof (induction m)
  case (Cons e m)
  obtain k' v' where e: "e = (k', v')" by fastforce
  with Cons.prems have s: "\<forall>j\<in>set (map fst m). k' < j" "sorted_map m" by (simp_all add: sorted_map_Cons)
  consider "k < k'" | "k = k'" | "k' < k" by fastforce
  then show ?case
  proof cases
    case 1
    with s show ?thesis by (fastforce simp: e sorted_map_Cons)
  next
    case 2
    with s show ?thesis by (simp add: e sorted_map_Cons)
  next
    case 3
    then have "map_put k v (e # m) = (k', v') # map_put k v m" using less_not_sym less_imp_neq by (force simp: e)
    with 3 s Cons.IH show ?thesis by (simp add: sorted_map_Cons keys_put del: set_map)
  qed
qed (simp add: sorted_map_Cons)

lemma map_of_erase [simp]: "map_of (map_erase k m) = (map_of m)(k := None)"
  by (induction m) (auto simp: map_erase_def)

lemma sorted_map_filter [simp]: "sorted_map m \<Longrightarrow> sorted_map (filter P m)"
  by (induction m) (auto simp: sorted_map_Cons)

lemma sorted_map_erase [simp]: "sorted_map m \<Longrightarrow> sorted_map (map_erase k m)"
  by (simp add: map_erase_def)

lemma length_map_put: "sorted_map m \<Longrightarrow> length (map_put k v m) = (if map_of m k = None then Suc (length m) else length m)"
proof (induction m)
  case (Cons e m)
  obtain k' v' where e: "e = (k', v')" by fastforce
  with Cons.prems have "\<forall>j\<in>set (map fst m). k' < j" "sorted_map m" by (simp_all add: sorted_map_Cons)
  moreover have "k < k' \<Longrightarrow> map_of m k = None"
    using calculation(1) by (auto simp: map_of_eq_None_iff)
  ultimately show ?case using Cons.IH by (auto simp: e)
qed simp

lemma length_map_erase: "length (map_erase k m) \<le> length m"
  by (simp add: map_erase_def)

lemma sorted_map_insert [simp]: "sorted_map m \<Longrightarrow> sorted_map (map_insert k v m)"
  by (simp add: map_insert_def)

lemma map_of_insert: "sorted_map m \<Longrightarrow> map_of (map_insert k v m) = (if map_of m k = None then (map_of m)(k \<mapsto> v) else map_of m)"
  by (simp add: map_insert_def)

lemma card_dom_sorted: "sorted_map m \<Longrightarrow> card (dom (map_of m)) = length m"
  using distinct_card [OF sorted_map_distinct, of m] by (simp add: dom_map_of_conv_image_fst)

lemma sorted_map_set: "sorted_map m \<Longrightarrow> (k, v) \<in> set m \<longleftrightarrow> map_of m k = Some v"
  by (simp add: sorted_map_distinct)

lemma sorted_map_values [simp]: "sorted_map (map (\<lambda>(k, v). (k, f k v)) m) = sorted_map m"
proof -
  have "map fst (map (\<lambda>(k, v). (k, f k v)) m) = map fst m" by (induction m) auto
  then show ?thesis by (simp only: sorted_map_def)
qed

end
