(* ===== verification/Tlde_Exchange.thy ===== *)
theory Tlde_Exchange
  imports Tlde
begin

text \<open>
  What the transport layer of one device sends, the transport layer of its peer delivers: the checksums of both sides
  agree, the receiver recovers the time of issue from six bits of it, and with the same session key the data comes
  out as it was put in.
\<close>

section \<open>Time of issue\<close>

lemma low_six: "x AND 0x3F = take_bit 6 (x :: u32)"
  by (simp add: take_bit_eq_mask mask_eq_exp_minus_1)

lemma time_octet:
  assumes "unat step < 4"
  shows "drop_bit 2 (ucast (push_bit 2 t) OR step) = (ucast (take_bit 6 (t :: u32)) :: u8)"
proof -
  have "take_bit 2 step = step" using assms by (intro take_bit_eq_self_if_less) (simp_all add: word_less_nat_alt)
  then have "\<not> bit step (n + 2)" for n using bit_of_fitting [of 2 step "n + 2"] by auto
  then show ?thesis by (intro bit_eqI) (auto simp: bit_simps add.commute)
qed

lemma unat_ucast_six: "unat (ucast (take_bit 6 (x :: u32)) :: u8) = unat x mod 64"
  by (simp add: unsigned_ucast_eq unsigned_take_bit_eq) (simp add: take_bit_eq_mod)

lemma high_bit_u8: "(x :: u8) AND 0x80 \<noteq> 0 \<longleftrightarrow> 128 \<le> unat x"
proof -
  have "x AND 0x80 \<noteq> 0 \<longleftrightarrow> bit x 7" using and_exp_eq_0_iff_not_bit [of x 7] by simp
  also have "\<dots> \<longleftrightarrow> bit (unat x) 7" by (simp add: bit_unsigned_iff)
  also have "\<dots> \<longleftrightarrow> odd (unat x div 128)" by (simp add: bit_iff_odd)
  also have "\<dots> \<longleftrightarrow> 128 \<le> unat x"
  proof -
    have "unat x div 128 < 2" using unat_u8_less [of x] by simp
    then have "odd (unat x div 128) \<longleftrightarrow> unat x div 128 = 1" by (cases "unat x div 128 = 0") auto
    then show ?thesis using \<open>unat x div 128 < 2\<close> by linarith
  qed
  finally show ?thesis .
qed

lemma unat_ucast_u8_u32: "unat (ucast (x :: u8) :: u32) = unat x"
  using unat_u8_less [of x] by (simp add: unsigned_ucast_eq take_bit_nat_eq_self)

lemma diff_mod_64:
  fixes t c :: nat
  assumes "t \<le> c" and "c < t + 64"
  shows "if t mod 64 \<le> c mod 64 then c mod 64 - t mod 64 = c - t else c mod 64 + 64 - t mod 64 = c - t"
proof -
  have t: "t = 64 * (t div 64) + t mod 64" and c: "c = 64 * (c div 64) + c mod 64" by simp_all
  have "t div 64 \<le> c div 64" "c div 64 \<le> t div 64 + 1"
    using div_le_mono [OF assms(1), of 64] div_le_mono [of c "t + 64" 64] assms(2) by simp_all
  then consider "c div 64 = t div 64" | "c div 64 = t div 64 + 1" by linarith
  then show ?thesis
  proof cases
    case 1
    then have "64 * (c div 64) = 64 * (t div 64)" by simp
    then have "t mod 64 \<le> c mod 64" "c mod 64 - t mod 64 = c - t" using t c assms(1) by linarith+
    then show ?thesis by simp
  next
    case 2
    then have "64 * (c div 64) = 64 * (t div 64) + 64" by simp
    then have "\<not> t mod 64 \<le> c mod 64" "c mod 64 + 64 - t mod 64 = c - t" using t c assms(2) by linarith+
    then show ?thesis by simp
  qed
qed

lemma unat_time_traveling:
  fixes t c :: u32
  assumes "unat t \<le> unat c" and "unat c < unat t + 64" and "unat step < 4"
  shows "unat (time_traveling c (ucast (push_bit 2 t) OR step)) = unat c - unat t"
proof -
  let ?c = "ucast (take_bit 6 c) :: u8" and ?t = "ucast (take_bit 6 t) :: u8"
  have u: "unat (?c - ?t) = (if unat t mod 64 \<le> unat c mod 64 then unat c mod 64 - unat t mod 64 else unat c mod 64 + 256 - unat t mod 64)"
    by (simp add: unat_sub_if_size word_size unat_ucast_six)
  have tt: "time_traveling c (ucast (push_bit 2 t) OR step) = (if (?c - ?t) AND 0x80 \<noteq> 0 then ?c - ?t + 0x40 else ?c - ?t)"
    by (simp only: time_traveling_def time_octet [OF assms(3)] low_six Let_def)
  show ?thesis
  proof (cases "unat t mod 64 \<le> unat c mod 64")
    case True
    have "unat (?c - ?t) < 64" using u True by (simp add: less_imp_diff_less)
    then have "\<not> (?c - ?t) AND 0x80 \<noteq> 0" unfolding high_bit_u8 by simp
    moreover have "unat c mod 64 - unat t mod 64 = unat c - unat t" using diff_mod_64 [OF assms(1,2)] True by simp
    ultimately show ?thesis using u True by (simp add: tt)
  next
    case False
    have "128 \<le> unat (?c - ?t)" using u False by simp
    then have "(?c - ?t) AND 0x80 \<noteq> 0" by (simp only: high_bit_u8)
    moreover have "unat (?c - ?t + 0x40) = unat c - unat t"
    proof -
      have "unat c mod 64 + 64 - unat t mod 64 = unat c - unat t" using diff_mod_64 [OF assms(1,2)] False by simp
      moreover have "192 \<le> x + 256 - y \<and> x + 256 - y + 64 - 256 = x + 64 - y" if "y < 64" "x < y" for x y :: nat
        using that by linarith
      from this [of "unat t mod 64" "unat c mod 64"] have "192 \<le> unat c mod 64 + 256 - unat t mod 64
          \<and> unat c mod 64 + 256 - unat t mod 64 + 64 - 256 = unat c mod 64 + 64 - unat t mod 64" using False by simp
      ultimately have "192 \<le> unat (?c - ?t)" "unat (?c - ?t) + 64 - 256 = unat c - unat t" using u False by simp_all
      then show ?thesis by (simp add: unat_plus_if_size word_size)
    qed
    ultimately show ?thesis by (simp add: tt)
  qed
qed

text \<open>
  The receiver knows when a datagram was issued: of the sender's time only six bits travel in the time octet, and
  from its own clock the receiver computes the whole 32 bits, provided the sender's clock is at most two seconds
  ahead of it and the datagram less than 62 seconds old.
\<close>
lemma issue_time_recovered:
  assumes "unat (tl_now a) \<le> unat (tl_now b) + 2" and "unat (tl_now b) + 2 < unat (tl_now a) + 64"
    and "unat (tl_now b) + 2 < 2 ^ 32" and "unat (m_uc250msStep a) < 4"
  shows "tl_now b + 2 - ucast (time_traveling (tl_now b + 2) (time_and_counter a)) = tl_now a"
proof -
  have c: "unat (tl_now b + 2) = unat (tl_now b) + 2" using assms(3) by (simp add: unat_plus_if_size word_size)
  have tt: "unat (time_traveling (tl_now b + 2) (time_and_counter a)) = unat (tl_now b) + 2 - unat (tl_now a)"
    using unat_time_traveling [of "tl_now a" "tl_now b + 2" "m_uc250msStep a"] assms c by (simp add: time_and_counter_def)
  then have "unat (ucast (time_traveling (tl_now b + 2) (time_and_counter a)) :: u32) = unat (tl_now b) + 2 - unat (tl_now a)"
    by (simp add: unat_ucast_u8_u32)
  then show ?thesis using assms(1) c by (simp add: word_unat_eq_iff unat_sub word_le_nat_alt)
qed

definition sample_tl_env :: "u32 \<Rightarrow> u8 \<Rightarrow> tl_env" where
  "sample_tl_env now x = \<lparr>tl_now = now, m_uc250msStep = 3, tl_address = replicate 16 x, tl_EUI64 = replicate 8 x, tl_cipher = sample_aes\<rparr>"

theorem issue_time_recovered_witness:
  "(1061 :: u32) + 2 - ucast (time_traveling (1061 + 2) (time_and_counter (sample_tl_env 1000 1))) = 1000"
  using issue_time_recovered [of "sample_tl_env 1000 1" "sample_tl_env 1061 2"] by (simp add: sample_tl_env_def)

section \<open>Checksum\<close>

lemma Interim_append:
  "even (length xs) \<Longrightarrow> TLDE_IcmpInterimChksum (xs @ ys) s = TLDE_IcmpInterimChksum ys (TLDE_IcmpInterimChksum xs s)"
  by (induction xs s rule: TLDE_IcmpInterimChksum.induct) simp_all

lemma of_nat_u32_u16: "n < 65536 \<Longrightarrow> (of_nat n :: u32) = ucast (of_nat n :: u16)"
  by (simp add: word_unat_eq_iff unsigned_ucast_eq unat_of_nat take_bit_nat_eq_self)

lemma ucast_ucast_u16: "ucast (ucast (x :: u16) :: u32) = x"
  by (rule bit_word_eqI) (simp add: bit_simps)

text \<open>Both sides sum up the same octets.\<close>

lemma checksums_agree:
  assumes "length (m_aIpv6SrcAddr h) = 16" and "length (m_aIpv6DstAddr h) = 16" and "length (m_aSrcPort h) = 2"
    and "length (m_aDstPort h) = 2" and sec: "length security = 4 \<or> length security = 3 \<and> data \<noteq> []"
    and len: "8 + length security + length data < 65536"
    and bytes: "mem_bytes p 8 (length security + length data) = security @ data"
  shows "receive_checksum h p (of_nat (8 + length security + length data)) = send_checksum h security data"
proof -
  let ?n = "8 + length security + length data"
  define N :: u16 where "N = of_nat ?n"
  let ?h = "h\<lparr>m_aPadding := DMAP_InsertUint16 N @ [0]\<rparr>"
  have n: "(of_nat (length data) + of_nat (8 + length security) :: u32) = ucast N"
    using of_nat_u32_u16 [OF len] by (simp add: N_def algebra_simps)
  have e: "even (length (pseudo_octets ?h))" using assms(1-4) by (simp add: pseudo_octets_def codec_defs)
  have u: "unat N - 8 = length security + length data" using len by (simp add: N_def unat_of_nat_u16 del: of_nat_add)
  have r: "receive_checksum h p N =
      TLDE_IcmpGetFinalCksum (TLDE_IcmpInterimChksum (security @ data) (TLDE_IcmpInterimChksum (pseudo_octets ?h) (ucast N)))"
    by (simp only: receive_checksum_def Let_def u bytes)
  note defs = r send_checksum_def Let_def n ucast_ucast_u16
  show ?thesis
  proof (cases "length security = 4")
    case True
    then show ?thesis unfolding N_def [symmetric] defs using e by (auto simp: Interim_append)
  next
    case False
    then obtain d ds where d: "data = d # ds" and l: "length security = 3" using sec by (cases data) auto
    have "TLDE_IcmpInterimChksum (security @ d # ds) x = TLDE_IcmpInterimChksum ds (TLDE_IcmpInterimChksum (security @ [d]) x)" for x
      using Interim_append [of "security @ [d]" ds x] l by simp
    then show ?thesis unfolding N_def [symmetric] defs using e l by (auto simp: Interim_append d)
  qed
qed

section \<open>The datagram\<close>

lemma port_octets: "DMAP_InsertUint16 (udp_port x) = [0xF0, 0xB0 OR x]"
proof -
  have "drop_bit 8 (ucast x :: u16) = 0" by (rule bit_word_eqI) (auto simp: bit_simps dest: bit_imp_le_length)
  moreover have "ucast (ucast x :: u16) = x" by (rule bit_word_eqI) (auto simp: bit_simps dest: bit_imp_le_length)
  moreover have n: "(61616 :: u8) = 176" by simp
  ultimately show ?thesis by (simp add: udp_port_def codec_defs unsigned_or_eq n)
qed

lemma port_nibble: "unat x < 16 \<Longrightarrow> ((0xB0 :: u8) OR x) AND 0x0F = x"
proof -
  assume "unat x < 16"
  then have "take_bit 4 x = x" by (intro take_bit_eq_self_if_less) (simp add: word_less_nat_alt)
  moreover have "((0xB0 :: u8) OR x) AND 0x0F = take_bit 4 (0xB0 OR x)" by (simp add: take_bit_eq_mask mask_eq_exp_minus_1)
  moreover have "take_bit 4 ((0xB0 :: u8) OR x) = take_bit 4 0xB0 OR take_bit 4 x" by (rule take_bit_or)
  ultimately show ?thesis by simp
qed

definition datagram :: "tl_env \<Rightarrow> ipv6 \<Rightarrow> u8 \<Rightarrow> u8 \<Rightarrow> u8 list \<Rightarrow> u8 list \<Rightarrow> u8 list" where
  "datagram a dst sp dp security payload =
     tl_hdr_octets (udp_port sp) (udp_port dp) (of_nat (length payload) + of_nat (8 + length security))
       (send_checksum (tx_pseudo a dst sp dp) security payload) security @ payload"

lemma length_datagram: "length (datagram a dst sp dp security payload) = 8 + length security + length payload"
  by (simp add: datagram_def tl_hdr_octets_def codec_defs)

lemma datagram_octets:
  fixes a dst sp dp security payload
  defines "p \<equiv> mem_of (datagram a dst sp dp security payload)"
  shows "mem_bytes p 0 2 = [0xF0, 0xB0 OR sp]" and "mem_bytes p 2 2 = [0xF0, 0xB0 OR dp]"
    and "mem_bytes p 6 2 = DMAP_InsertUint16 (send_checksum (tx_pseudo a dst sp dp) security payload)"
    and "mem_bytes p 8 (length security) = security"
    and "mem_bytes p (8 + length security) (length payload) = payload"
    and "mem_bytes p 8 (length security + length payload) = security @ payload"
proof -
  define len :: "u8 list" where "len = DMAP_InsertUint16 (of_nat (length payload) + of_nat (8 + length security))"
  define ck where "ck = DMAP_InsertUint16 (send_checksum (tx_pseudo a dst sp dp) security payload)"
  have l: "length len = 2" "length ck = 2" by (simp_all add: len_def ck_def codec_defs)
  have d: "p = mem_of ([0xF0, 0xB0 OR sp] @ [0xF0, 0xB0 OR dp] @ len @ ck @ security @ payload)"
    by (simp only: p_def datagram_def tl_hdr_octets_def port_octets len_def ck_def append_assoc)
  have h: "holds p 0 ([0xF0, 0xB0 OR sp] @ [0xF0, 0xB0 OR dp] @ len @ ck @ security @ payload)"
    unfolding d by (rule holds_mem_of)
  show "mem_bytes p 0 2 = [0xF0, 0xB0 OR sp]" and "mem_bytes p 2 2 = [0xF0, 0xB0 OR dp]"
    using h by (simp_all add: mem_bytes_def upt_rec numeral_2_eq_2 numeral_3_eq_3)
  have hs: "holds p 6 ck" "holds p 8 security" "holds p (8 + length security) payload" using h l by (simp_all add: eval_nat_numeral)
  show "mem_bytes p 6 2 = DMAP_InsertUint16 (send_checksum (tx_pseudo a dst sp dp) security payload)"
    and "mem_bytes p 8 (length security) = security" and "mem_bytes p (8 + length security) (length payload) = payload"
    using hs l by (simp_all add: holds_iff_mem_bytes ck_def [symmetric])
  have "holds p 8 (security @ payload)" using hs by simp
  then show "mem_bytes p 8 (length security + length payload) = security @ payload" unfolding holds_iff_mem_bytes by simp
qed

section \<open>Receiving a good datagram\<close>

text \<open>Everything of an intact datagram passes the checks in front of the security header.\<close>

lemma indication_of_datagram:
  fixes a b dst sp dp security payload prio s
  defines "w \<equiv> datagram a dst sp dp security payload"
  assumes addr: "tl_address b = dst" "length (tl_address a) = 16" "length dst = 16"
    and sec: "length security = 4 \<or> length security = 3 \<and> payload \<noteq> []" "4 \<le> length security + length payload"
    and len: "8 + length security + length payload < 65536"
    and kind: "security ! 0 = SECURITY_NONE \<or> security ! 0 = SECURITY_ENC_MIC_32 \<or> security ! 0 = SECURITY_CTRL_ENC_MIC_32"
  shows "\<exists>s'. NLDE_DATA_Indication b (tl_address a) (of_nat (length w)) (mem_of w) prio s =
      (if security ! 0 = SECURITY_NONE
       then deliver b (tl_address a) prio (mem_of w) (mem_of w 9) (mem_of w 10) (mem_bytes (mem_of w) 11 (length w - 11)) s'
       else receive_protected b (tl_address a) (of_nat (length w)) (mem_of w) prio s')
    \<and> g_stSlme s' = g_stSlme s \<and> g_oDuplicates s' = g_oDuplicates s \<and> tl_events s' = tl_events s"
proof -
  let ?p = "mem_of w" and ?n = "8 + length security + length payload"
  note o = datagram_octets [of a dst sp dp security payload, folded w_def]
  have h: "rx_pseudo b (tl_address a) ?p = tx_pseudo a dst sp dp" using addr o(1,2) by (simp add: rx_pseudo_def tx_pseudo_def)
  have ck: "receive_checksum (rx_pseudo b (tl_address a) ?p) ?p (of_nat ?n) = send_checksum (tx_pseudo a dst sp dp) security payload"
    unfolding h using addr sec(1) len o(6) by (intro checksums_agree) (auto simp: tx_pseudo_def)
  have p67: "[?p 6, ?p 7] = DMAP_InsertUint16 (send_checksum (tx_pseudo a dst sp dp) security payload)"
    using o(3) by (simp add: mem_bytes_def eval_nat_numeral upt_rec)
  have lw: "length w = ?n" by (simp add: w_def length_datagram)
  have u: "unat (of_nat ?n :: u16) = ?n" using len by (rule unat_of_nat_u16)
  have small: "\<not> (of_nat ?n :: u16) \<le> 11" using u sec(2) by (simp add: word_le_nat_alt del: of_nat_add)
  have "unat (x AND 0x0F :: u8) \<le> 15" for x using word_and_le1 [of x "0x0F"] by (simp add: word_le_nat_alt)
  from this [of "?p 3"] have port: "\<not> 16 \<le> unat (?p 3 AND 0x0F)" by simp
  have p8: "?p 8 = security ! 0"
    using arg_cong [OF o(4), of "\<lambda>xs. xs ! 0"] sec(1) by (auto simp: mem_bytes_def)
  define s1 where "s1 = in_tlme (TLME_SetPortInfo (tl_address a) (u16_of_native (m_aDstPort (rx_pseudo b (tl_address a) ?p))) TLME_PORT_TPDU_IN) s"
  define s2 where "s2 = (if m_ucTLSecurityLevel (g_stDSMO (g_stSlme s1)) \<noteq> SECURITY_NONE \<and> ?p 8 = SECURITY_NONE
    then policy_alert ?p (of_nat ?n) s1 else s1)"
  have "g_stSlme s2 = g_stSlme s \<and> g_oDuplicates s2 = g_oDuplicates s \<and> tl_events s2 = tl_events s"
    by (simp add: s2_def s1_def policy_alert_def in_tlme_def)
  moreover have "NLDE_DATA_Indication b (tl_address a) (of_nat (length w)) ?p prio s =
      (if security ! 0 = SECURITY_NONE then deliver b (tl_address a) prio ?p (?p 9) (?p 10) (mem_bytes ?p 11 (length w - 11)) s2
       else receive_protected b (tl_address a) (of_nat (length w)) ?p prio s2)"
    unfolding lw NLDE_DATA_Indication_def Let_def s1_def [symmetric]
    using port small kind by (simp only: ck p67 u if_False p8) (auto simp: s2_def p8)
  ultimately show ?thesis by blast
qed

text \<open>The clocks of the two devices: at most two seconds apart in one direction, less than 62 in the other.\<close>

definition clocks_ok :: "tl_env \<Rightarrow> tl_env \<Rightarrow> bool" where
  "clocks_ok a b \<longleftrightarrow> unat (tl_now a) \<le> unat (tl_now b) + 2 \<and> unat (tl_now b) < unat (tl_now a) + 62
     \<and> unat (tl_now b) + 2 < 2 ^ 32 \<and> unat (tl_now a) + 2 < 2 ^ 32 \<and> unat (m_uc250msStep a) < 4"

lemma clocks_traveling:
  assumes "clocks_ok a b"
  shows "unat (time_traveling (tl_now b + 2) (time_and_counter a)) = unat (tl_now b) + 2 - unat (tl_now a)"
    and "tl_now b + 2 - ucast (time_traveling (tl_now b + 2) (time_and_counter a)) = tl_now a"
proof -
  have c: "unat (tl_now b + 2) = unat (tl_now b) + 2" using assms by (simp add: clocks_ok_def unat_plus_if_size word_size)
  show tt: "unat (time_traveling (tl_now b + 2) (time_and_counter a)) = unat (tl_now b) + 2 - unat (tl_now a)"
    using unat_time_traveling [of "tl_now a" "tl_now b + 2" "m_uc250msStep a"] assms c by (simp add: time_and_counter_def clocks_ok_def)
  then have "unat (ucast (time_traveling (tl_now b + 2) (time_and_counter a)) :: u32) = unat (tl_now b) + 2 - unat (tl_now a)"
    by (simp add: unat_ucast_u8_u32)
  then show "tl_now b + 2 - ucast (time_traveling (tl_now b + 2) (time_and_counter a)) = tl_now a"
    using assms c by (simp add: clocks_ok_def word_unat_eq_iff unat_sub word_le_nat_alt)
qed

text \<open>The time under which the datagram enters the history, and the seconds it has travelled.\<close>

definition history_time :: "tl_env \<Rightarrow> tl_env \<Rightarrow> u32" where
  "history_time a b = min (tl_now a) (tl_now b) + 2"

definition seconds_traveled :: "tl_env \<Rightarrow> tl_env \<Rightarrow> u8" where
  "seconds_traveled a b = of_nat (unat (tl_now b) - unat (tl_now a))"

lemma deliver_history:
  assumes "clocks_ok a b"
  shows "deliver b src prio p (time_and_counter a) counter data s =
    (case TLDE_IsDuplicate (duplicate_key (time_and_counter a) counter src (history_time a b) p) (history_time a b) (g_oDuplicates s) of
       None \<Rightarrow> None
     | Some (d, r) \<Rightarrow>
         let s = s\<lparr>g_oDuplicates := d\<rparr> in
         if r \<noteq> 0 then Some s
         else let s = in_tlme (TLME_SetPortInfo src (u16_of_native (mem_bytes p 2 2)) TLME_PORT_TPDU_IN_OK) s in
              Some (s\<lparr>tl_events := tl_events s @
                [TL_INDICATION src (p 1 AND 0x0F) prio data (p 3 AND 0x0F) (seconds_traveled a b)
                  (sint (tl_now a), tx_usec (time_and_counter a) counter) (p 8)]\<rparr>))"
proof -
  let ?tt = "time_traveling (tl_now b + 2) (time_and_counter a)"
  note t = clocks_traveling [OF assms]
  have "unat (tl_now b) - unat (tl_now a) < 62" using assms by (auto simp: clocks_ok_def)
  then have d: "unat (seconds_traveled a b) = unat (tl_now b) - unat (tl_now a)"
    by (simp add: seconds_traveled_def unat_of_nat take_bit_nat_eq_self)
  have tt: "(if 2 < ?tt then ?tt - 2 else 0) = seconds_traveled a b"
  proof (cases "unat (tl_now a) < unat (tl_now b)")
    case True
    then have "2 < ?tt" using t(1) by (simp add: word_less_nat_alt)
    then show ?thesis using t(1) d by (simp add: word_unat_eq_iff unat_sub word_less_nat_alt word_le_nat_alt)
  next
    case False
    then have "\<not> 2 < ?tt" using t(1) by (simp add: word_less_nat_alt)
    then show ?thesis using False d by (simp add: word_unat_eq_iff)
  qed
  have u: "unat (ucast (seconds_traveled a b) :: u32) = unat (tl_now b) - unat (tl_now a)" using d by (simp add: unat_ucast_u8_u32)
  have c: "unat (tl_now b + 2) = unat (tl_now b) + 2" "unat (tl_now a + 2) = unat (tl_now a) + 2"
    using assms by (simp_all add: clocks_ok_def unat_plus_if_size word_size)
  have "tl_now b + 2 - ucast (seconds_traveled a b) = history_time a b"
    using u c by (auto simp: history_time_def min_def word_unat_eq_iff unat_sub word_le_nat_alt)
  then show ?thesis unfolding deliver_def Let_def tt t(2) by (simp only:)
qed

section \<open>Protected datagrams\<close>

lemma tl_nonce_take: "2 \<le> n \<Longrightarrow> tl_nonce e t (take n auth) n = tl_nonce e t auth n"
  by (simp add: tl_nonce_def)

lemma transport_fits:
  assumes "length eui = 8" and "length aad = 43 \<or> length aad = 44" and "length data \<le> 65000"
  shows "ccm_fits (tl_nonce eui t auth n) aad (length data)"
proof -
  have "ROUND_UP_TO_MUL_16 (length data) < 65016" using ROUND_UP_less [of "length data"] assms(3) by simp
  moreover have "ROUND_UP_TO_MUL_16 (2 + length aad) = 48" using assms(2) by (auto simp: ROUND_UP_TO_MUL_16_def)
  moreover have "length aad \<noteq> 0" "length aad < 0xFF00" using assms(2) by auto
  ultimately show ?thesis using assms(1) by (simp add: ccm_fits_def buffer_size_def tl_nonce_def)
qed

text \<open>What the sender seals: the data under the session key, with the pseudo and security headers authenticated.\<close>

definition sealed :: "tl_env \<Rightarrow> ipv6 \<Rightarrow> u8 \<Rightarrow> u8 \<Rightarrow> u8 list \<Rightarrow> u8 list \<Rightarrow> u8 list \<Rightarrow> u8 list" where
  "sealed a dst sp dp security key data = (let auth = pseudo_octets (tx_pseudo a dst sp dp) @ security in
     ccm_seal (tl_cipher a) 4 key (tl_nonce (tl_EUI64 a) (tl_now a) auth (length auth)) auth data)"

lemma length_pseudo: "length (tl_address a) = 16 \<Longrightarrow> length dst = 16 \<Longrightarrow> length (pseudo_octets (tx_pseudo a dst sp dp)) = 40"
  by (simp add: pseudo_octets_def tx_pseudo_def)

lemma encrypt_sealed:
  assumes "length (tl_address a) = 16" and "length dst = 16" and "length (tl_EUI64 a) = 8"
    and "length security = 3 \<or> length security = 4" and "length data \<le> 65000"
  shows "TLDE_encryptTLPayload a data (pseudo_octets (tx_pseudo a dst sp dp) @ security) (8 + length security) key (tl_now a) =
    Some (sealed a dst sp dp security key data)"
proof -
  let ?auth = "pseudo_octets (tx_pseudo a dst sp dp) @ security"
  have n: "44 - 4 + (8 + length security) - 8 = length ?auth" using length_pseudo [OF assms(1,2)] by simp
  have "ccm_fits (tl_nonce (tl_EUI64 a) (tl_now a) ?auth (length ?auth)) ?auth (length data)"
    using assms length_pseudo [OF assms(1,2)] by (intro transport_fits) auto
  from crypt_seals [OF ccm_is_ready this, of "tl_cipher a" key] show ?thesis
    unfolding TLDE_encryptTLPayload_def Let_def n by (auto simp: sealed_def Let_def)
qed

lemma decrypt_sealed:
  assumes addr: "tl_address b = dst" "length (tl_address a) = 16" "length dst = 16" "length (tl_EUI64 a) = 8"
    and "tl_cipher b = tl_cipher a" and k: "SLME_KEY.m_aKey k' = key" "m_aIssuerEUI64 k' = tl_EUI64 a"
    and sec: "length security = 3 \<or> length security = 4" and "length data \<le> 65000" and "data \<noteq> []"
    and w: "w = datagram a dst sp dp security (sealed a dst sp dp security key data)"
  shows "TLDE_decryptTLPayload b k' (tl_now a) (pseudo_octets (rx_pseudo b (tl_address a) (mem_of w)) @ mem_bytes (mem_of w) 8 4)
      (8 + length security) (mem_bytes (mem_of w) (8 + length security) (length w - (8 + length security))) =
    Some (AES_SUCCESS, data @ drop (length data) (sealed a dst sp dp security key data))"
proof -
  let ?x = "sealed a dst sp dp security key data" and ?auth = "pseudo_octets (tx_pseudo a dst sp dp) @ security"
  let ?rx = "pseudo_octets (tx_pseudo a dst sp dp) @ mem_bytes (mem_of w) 8 4"
  note o = datagram_octets [of a dst sp dp security ?x, folded w]
  have h: "rx_pseudo b (tl_address a) (mem_of w) = tx_pseudo a dst sp dp" using addr o(1,2) by (simp add: rx_pseudo_def tx_pseudo_def)
  have n: "44 - 4 + (8 + length security) - 8 = length ?auth" using length_pseudo [OF addr(2,3)] by simp
  have payload: "mem_bytes (mem_of w) (8 + length security) (length w - (8 + length security)) = ?x"
    using o(5) by (simp add: w length_datagram)
  have "take (length security) (mem_bytes (mem_of w) 8 4) = security"
    using o(4) sec by (auto simp: mem_bytes_def take_map)
  then have take: "take (length ?auth) ?rx = ?auth" by simp
  have nonce: "tl_nonce e t ?rx (length ?auth) = tl_nonce e t ?auth (length ?auth)" for e t
    using tl_nonce_take [of "length ?auth" e t ?rx] sec length_pseudo [OF addr(2,3)] take by force
  have fits: "ccm_fits (tl_nonce (tl_EUI64 a) (tl_now a) ?auth (length ?auth)) ?auth (length data)"
    using assms length_pseudo [OF addr(2,3)] by (intro transport_fits) auto
  have x: "length ?x = length data + 4" "ccm_crypt (tl_cipher a) key (tl_nonce (tl_EUI64 a) (tl_now a) ?auth (length ?auth)) (take (length data) ?x) = data"
    by (simp_all add: sealed_def Let_def length_ccm_seal ccm_seal_recovers)
  obtain c' where "AES_Decrypt_User (tl_cipher a) key (tl_nonce (tl_EUI64 a) (tl_now a) ?auth (length ?auth)) ?auth ?x ccm =
      Some (c', AES_SUCCESS, data @ drop (length data) ?x)"
    using decrypt_opens [OF ccm_is_ready, of ?x "tl_nonce (tl_EUI64 a) (tl_now a) ?auth (length ?auth)" ?auth "tl_cipher a" key] fits x
    by (auto simp: Let_def) (auto simp: sealed_def Let_def)
  then show ?thesis
    unfolding TLDE_decryptTLPayload_def h payload n Let_def take nonce using assms(5) k by simp
qed

section \<open>From request to indication\<close>

text \<open>The receiver finds the key the sender takes, if it takes one.\<close>

definition session_shared :: "tl_env \<Rightarrow> tl_env \<Rightarrow> u8 \<Rightarrow> u8 \<Rightarrow> u8 \<Rightarrow> slme_state \<Rightarrow> slme_state \<Rightarrow> bool" where
  "session_shared a b sp dp allow sa sb \<longleftrightarrow>
     (case tx_key a (tl_address b) sp dp allow sa of
        (None, _) \<Rightarrow> True
      | (Some k, n) \<Rightarrow>
          (case (if n \<noteq> None \<and> 1 < the n
                 then SLME_FindKey (Some (tl_address a)) (udp_port dp) (udp_port sp) (m_ucKeyID k) SLM_KEY_USAGE_SESSION sb
                 else fst (SLME_FindTxKey (tl_now b) (Some (tl_address a)) (udp_port dp) (udp_port sp) sb)) of
             None \<Rightarrow> False
           | Some k' \<Rightarrow> SLME_KEY.m_aKey k' = SLME_KEY.m_aKey k \<and> m_aIssuerEUI64 k' = tl_EUI64 a))"

lemma length_security: "length (security_header k n tc counter) = 3 \<or> length (security_header k n tc counter) = 4"
  by (auto simp: security_header_def split: option.split)

lemma request_sends:
  assumes "TLDE_DATA_Request a None c prio data h sp dp allow s = Some s'" and "nl_requests s' = nl_requests s @ [rq]"
    and "length (tl_address a) = 16" and "length (m_aDestAddress c) = 16" and "length (tl_EUI64 a) = 8" and "length data \<le> 65000"
  shows "\<exists>key n. tx_key a (m_aDestAddress c) sp dp allow (g_stSlme s) = (key, n)
    \<and> nl_header rq @ nl_data rq = (let security = security_header key n (time_and_counter a) (g_ucMsgIncrement s + 1) in
        datagram a (m_aDestAddress c) sp dp security
          (case key of None \<Rightarrow> data | Some k \<Rightarrow> sealed a (m_aDestAddress c) sp dp security (SLME_KEY.m_aKey k) data))"
proof -
  obtain key n where k: "tx_key a (m_aDestAddress c) sp dp allow (g_stSlme s) = (key, n)" by (cases "tx_key a (m_aDestAddress c) sp dp allow (g_stSlme s)")
  let ?security = "security_header key n (time_and_counter a) (g_ucMsgIncrement s + 1)"
  note e = encrypt_sealed [OF assms(3-5) length_security assms(6), of sp dp key n "time_and_counter a" "g_ucMsgIncrement s + 1"]
  have "nl_header rq @ nl_data rq = datagram a (m_aDestAddress c) sp dp ?security
      (case key of None \<Rightarrow> data | Some k \<Rightarrow> sealed a (m_aDestAddress c) sp dp ?security (SLME_KEY.m_aKey k) data)"
    using assms(1,2) e
    by (cases key) (auto simp: TLDE_DATA_Request_def Let_def in_tlme_def k datagram_def split: if_splits)
  then show ?thesis using k by (simp add: Let_def)
qed

lemma port_value:
  assumes "mem_bytes p i 2 = [0xF0, 0xB0 OR x]"
  shows "fst (DMAP_ExtractUint16 p i) = udp_port x" and "p (i + 1) = 0xB0 OR x"
proof -
  have "holds p i (DMAP_InsertUint16 (udp_port x))" using assms by (simp add: holds_iff_mem_bytes port_octets numeral_2_eq_2)
  then show "fst (DMAP_ExtractUint16 p i) = udp_port x" by (simp add: uint16_codec.ext_ins)
  show "p (i + 1) = 0xB0 OR x" using assms by (simp add: mem_bytes_def eval_nat_numeral upt_rec)
qed

lemma security_octet:
  assumes "mem_bytes p 8 (length security) = security" and "i < length security"
  shows "p (8 + i) = security ! i"
  using arg_cong [OF assms(1), of "\<lambda>xs. xs ! i"] assms(2) by (simp add: mem_bytes_def)

text \<open>A datagram that arrives, up to the search in the history.\<close>

lemma delivered_up_to_history:
  fixes rq a b c sp dp allow sa
  defines "w \<equiv> nl_header rq @ nl_data rq" and "counter \<equiv> g_ucMsgIncrement sa + 1"
  assumes req: "TLDE_DATA_Request a None c prio data h sp dp allow sa = Some sa'" "nl_requests sa' = nl_requests sa @ [rq]"
    and peer: "tl_address b = m_aDestAddress c" "tl_cipher b = tl_cipher a"
    and sizes: "length (tl_address a) = 16" "length (tl_address b) = 16" "length (tl_EUI64 a) = 8" "data \<noteq> []" "length data \<le> 65000"
    and clocks: "clocks_ok a b" and shared: "session_shared a b sp dp allow (g_stSlme sa) (g_stSlme sb)"
  shows "\<exists>s. NLDE_DATA_Indication b (tl_address a) (of_nat (length w)) (mem_of w) prio' sb =
      deliver b (tl_address a) prio' (mem_of w) (time_and_counter a) counter data s
    \<and> g_oDuplicates s = g_oDuplicates sb \<and> tl_events s = tl_events sb"
    and "mem_of w 1 = 0xB0 OR sp" and "mem_of w 3 = 0xB0 OR dp"
    and "tx_key a (m_aDestAddress c) sp dp allow (g_stSlme sa) = (Some k, Some 1) \<Longrightarrow> mem_of w 8 = SECURITY_ENC_MIC_32"
    and "length w \<le> length data + 16"
proof -
  let ?dst = "m_aDestAddress c" and ?p = "mem_of w" and ?tc = "time_and_counter a"
  obtain key n where k: "tx_key a ?dst sp dp allow (g_stSlme sa) = (key, n)"
      and w: "w = (let security = security_header key n ?tc counter in datagram a ?dst sp dp security
        (case key of None \<Rightarrow> data | Some k \<Rightarrow> sealed a ?dst sp dp security (SLME_KEY.m_aKey k) data))"
    using request_sends [OF req] sizes peer unfolding w_def counter_def by auto
  define S where "S = security_header key n ?tc counter"
  define P where "P = (case key of None \<Rightarrow> data | Some k \<Rightarrow> sealed a ?dst sp dp S (SLME_KEY.m_aKey k) data)"
  have w: "w = datagram a ?dst sp dp S P" unfolding P_def S_def using w by (simp only: Let_def)
  have lS: "length S = 3 \<or> length S = 4" unfolding S_def by (rule length_security)
  have lP: "length P = length data + (if key = None then 0 else 4)"
    by (auto simp: P_def sealed_def Let_def length_ccm_seal split: option.splits)
  moreover have "0 < length data" using sizes(4) by simp
  ultimately have "length P \<le> 65004" "0 < length P" using sizes(5) by auto
  then have "length P \<le> 65004" "P \<noteq> []" by auto
  note lP = lP this
  note o = datagram_octets [of a ?dst sp dp S P, folded w]
  note ports = port_value [OF o(1)] port_value [OF o(2)]
  show "?p 1 = 0xB0 OR sp" "?p 3 = 0xB0 OR dp" using ports by simp_all
  show "length w \<le> length data + 16" using lS lP(1) by (auto simp: w length_datagram)
  show "?p 8 = SECURITY_ENC_MIC_32" if "tx_key a ?dst sp dp allow (g_stSlme sa) = (Some k, Some 1)" for k
    using that k security_octet [OF o(4), of 0] by (simp add: S_def security_header_def)
  have kind: "S ! 0 = 0 \<or> S ! 0 = 5 \<or> S ! 0 = 13" by (auto simp: S_def security_header_def split: option.splits)
  have dst: "length ?dst = 16" using sizes(2) peer(1) by simp
  have "0 < length P" using lP(3) by simp
  then have fits: "length S = 4 \<or> length S = 3 \<and> P \<noteq> []" "4 \<le> length S + length P" "8 + length S + length P < 65536"
    using lS lP(2,3) by (auto simp: Suc_le_eq)
  obtain s where s: "NLDE_DATA_Indication b (tl_address a) (of_nat (length w)) ?p prio' sb =
      (if S ! 0 = 0 then deliver b (tl_address a) prio' ?p (?p 9) (?p 10) (mem_bytes ?p 11 (length w - 11)) s
       else receive_protected b (tl_address a) (of_nat (length w)) ?p prio' s)"
      and s': "g_stSlme s = g_stSlme sb" "g_oDuplicates s = g_oDuplicates sb" "tl_events s = tl_events sb"
    using indication_of_datagram [OF peer(1) sizes(1) dst fits kind, of sp dp prio' sb, folded w] that by blast
  show "\<exists>s. NLDE_DATA_Indication b (tl_address a) (of_nat (length w)) ?p prio' sb =
      deliver b (tl_address a) prio' ?p ?tc counter data s \<and> g_oDuplicates s = g_oDuplicates sb \<and> tl_events s = tl_events sb"
  proof (cases key)
    case None
    then have S: "S = [0, ?tc, counter]" and P: "P = data" by (simp_all add: S_def P_def security_header_def)
    have "?p 9 = ?tc" "?p 10 = counter" using security_octet [OF o(4), of 1] security_octet [OF o(4), of 2] S by simp_all
    moreover have "mem_bytes ?p 11 (length w - 11) = data" using o(5) S P by (simp add: w length_datagram)
    ultimately show ?thesis using s s' S by auto
  next
    case (Some kk)
    obtain k' where k': "(if n \<noteq> None \<and> 1 < the n
          then SLME_FindKey (Some (tl_address a)) (udp_port dp) (udp_port sp) (m_ucKeyID kk) 1 (g_stSlme sb)
          else fst (SLME_FindTxKey (tl_now b) (Some (tl_address a)) (udp_port dp) (udp_port sp) (g_stSlme sb))) = Some k'"
        "SLME_KEY.m_aKey k' = SLME_KEY.m_aKey kk" "m_aIssuerEUI64 k' = tl_EUI64 a"
      using shared k Some peer by (auto simp: session_shared_def split: option.splits)
    have P: "P = sealed a ?dst sp dp S (SLME_KEY.m_aKey kk) data" by (simp add: P_def Some)
    have rx: "rx_key b (tl_address a) ?p (g_stSlme sb) = (Some k', 8 + length S, ?tc, counter)" and "S ! 0 \<noteq> 0"
      using k'(1) ports security_octet [OF o(4), of 0] security_octet [OF o(4), of 1] security_octet [OF o(4), of 2] security_octet [OF o(4), of 3]
      by (auto simp: rx_key_def Let_def S_def Some security_header_def split: if_splits)
    note dec = decrypt_sealed [OF peer(1) sizes(1) _ sizes(3) peer(2) k'(2,3) lS sizes(5,4) w [unfolded P]]
    have "receive_protected b (tl_address a) (of_nat (length w)) ?p prio' s = deliver b (tl_address a) prio' ?p ?tc counter data s"
    proof -
      have lw: "length w = 8 + length S + length data + 4" using lP Some by (simp add: w length_datagram)
      then have u: "unat (of_nat (length w) :: u16) = length w" using lS sizes by (intro unat_of_nat_u16) auto
      have "\<not> length w \<le> 8 + length S + 4" "take (length w - (8 + length S + 4)) (data @ drop (length data) P) = data"
        using lw sizes(4) by simp_all
      then show ?thesis
        using dec sizes(2) peer(1) unfolding receive_protected_def s' rx by (simp add: u clocks_traveling(2) [OF clocks] Let_def P)
    qed
    then show ?thesis using s s' \<open>S ! 0 \<noteq> 0\<close> by auto
  qed
qed

lemma datagram_accepted:
  fixes rq a b c sp dp allow sa
  defines "w \<equiv> nl_header rq @ nl_data rq" and "counter \<equiv> g_ucMsgIncrement sa + 1"
  assumes req: "TLDE_DATA_Request a None c prio data h sp dp allow sa = Some sa'" "nl_requests sa' = nl_requests sa @ [rq]"
    and peer: "tl_address b = m_aDestAddress c" "tl_cipher b = tl_cipher a"
    and sizes: "length (tl_address a) = 16" "length (tl_address b) = 16" "length (tl_EUI64 a) = 8" "data \<noteq> []" "length data \<le> 65000"
    and ports: "unat sp < 16" "unat dp < 16"
    and clocks: "clocks_ok a b" and shared: "session_shared a b sp dp allow (g_stSlme sa) (g_stSlme sb)"
    and history: "TLDE_IsDuplicate (duplicate_key (time_and_counter a) counter (tl_address a) (history_time a b) (mem_of w))
          (history_time a b) (g_oDuplicates sb) = Some (d, r)"
  shows "\<exists>sb'. NLDE_DATA_Indication b (tl_address a) (of_nat (length w)) (mem_of w) prio' sb = Some sb' \<and> g_oDuplicates sb' = d
    \<and> tl_events sb' = tl_events sb @ (if r \<noteq> 0 then []
        else [TL_INDICATION (tl_address a) sp prio' data dp (seconds_traveled a b)
                (sint (tl_now a), tx_usec (time_and_counter a) counter) (mem_of w 8)])"
proof -
  note u = delivered_up_to_history [OF req peer sizes clocks shared, folded w_def counter_def]
  obtain s where "NLDE_DATA_Indication b (tl_address a) (of_nat (length w)) (mem_of w) prio' sb =
      deliver b (tl_address a) prio' (mem_of w) (time_and_counter a) counter data s"
      "g_oDuplicates s = g_oDuplicates sb" "tl_events s = tl_events sb"
    using u(1) [of prio'] by blast
  then show ?thesis
    using history u(2,3) ports [THEN port_nibble]
    by (simp add: deliver_history [OF clocks] Let_def in_tlme_def)
qed

section \<open>Properties\<close>

text \<open>C21:
  What one device sends its peer delivers, once: when the transport layer of a device hands a datagram to the
  network layer, plain or encrypted with one of the keys it shares with the peer, then the peer's transport layer
  passes exactly the data of the request to its application sublayer, with the ports of the request, the full
  time of issue and the seconds travelled, provided the clocks are close enough; a datagram that is already in the history is
  dropped.
\<close>
theorem datagram_delivered:
  fixes rq a b c sp dp allow sa
  defines "w \<equiv> nl_header rq @ nl_data rq" and "counter \<equiv> g_ucMsgIncrement sa + 1"
  assumes req: "TLDE_DATA_Request a None c prio data h sp dp allow sa = Some sa'" "nl_requests sa' = nl_requests sa @ [rq]"
    and peer: "tl_address b = m_aDestAddress c" "tl_cipher b = tl_cipher a"
    and sizes: "length (tl_address a) = 16" "length (tl_address b) = 16" "length (tl_EUI64 a) = 8" "data \<noteq> []" "length data \<le> 65000"
    and ports: "unat sp < 16" "unat dp < 16"
    and clocks: "clocks_ok a b" and shared: "session_shared a b sp dp allow (g_stSlme sa) (g_stSlme sb)"
    and history: "TLDE_IsDuplicate (duplicate_key (time_and_counter a) counter (tl_address a) (history_time a b) (mem_of w))
          (history_time a b) (g_oDuplicates sb) = Some (d, r)"
  shows "\<exists>sb'. NLDE_DATA_Indication b (tl_address a) (of_nat (length w)) (mem_of w) prio' sb = Some sb' \<and> g_oDuplicates sb' = d
    \<and> tl_events sb' = tl_events sb @ (if r \<noteq> 0 then []
        else [TL_INDICATION (tl_address a) sp prio' data dp (seconds_traveled a b)
                (sint (tl_now a), tx_usec (time_and_counter a) counter) (mem_of w 8)])"
  unfolding w_def counter_def
  by (rule datagram_accepted [OF req peer sizes ports clocks shared history [unfolded w_def counter_def]])

text \<open>Two devices that share one session key, for the ports \<open>2\<close> and \<open>3\<close>.\<close>

definition sample_session :: "u8 \<Rightarrow> u8 \<Rightarrow> u8 \<Rightarrow> tlde_state" where
  "sample_session peer sp dp = \<lparr>g_stTlme = TLME_Init sample_tlme,
     g_stSlme = empty_slme\<lparr>g_stDSMO := c_stInitDSMO\<lparr>m_ucTLSecurityLevel := 1\<rparr>, g_nSLMEKeysNo := 1,
       g_oSlmeKeysCatMap := [(KeyCat (udp_port dp) (udp_port sp) (replicate 16 peer),
         [new_slme_key 900 (Some (replicate 16 peer)) (udp_port sp) (udp_port dp) 4 (replicate 16 0xAB) (Some (replicate 8 peer)) 0 500 1000 1 0])]\<rparr>,
     g_ucMsgIncrement = 0, g_oDuplicates = sample_history, nl_requests = [], tl_events = []\<rparr>"

definition sample_contract :: NLME_CONTRACT_ATTRIBUTES where
  "sample_contract = NLME_CONTRACT_ATTRIBUTES.make 7 (replicate 16 2) 0 0 0 30 0 0 1 0 0 0 1000 1 1 1 (0, 0) 0"

lemma sample_tx_key:
  "SLME_FindTxKey now (Some (replicate 16 peer)) (udp_port sp) (udp_port dp) (g_stSlme (sample_session peer sp dp)) =
     (Some (new_slme_key 900 (Some (replicate 16 peer)) (udp_port sp) (udp_port dp) 4 (replicate 16 0xAB) (Some (replicate 8 peer)) 0 500 1000 1 0), Some 1)"
  by (simp add: sample_session_def SLME_FindTxKey_def SLME_FindKeyCatIt_def key_category_def new_slme_key_def Let_def)

lemma sample_must_encrypt: "must_encrypt 1 (g_stSlme (sample_session peer sp dp))"
  by (simp add: sample_session_def must_encrypt_def)

lemma sample_shared: "session_shared (sample_tl_env 1000 1) (sample_tl_env 1030 2) 2 3 1 (g_stSlme (sample_session 2 2 3)) (g_stSlme (sample_session 1 3 2))"
  using sample_tx_key [of 1000 2 2 3] sample_tx_key [of 1030 1 3 2] sample_must_encrypt
  by (simp add: session_shared_def tx_key_def sample_tl_env_def) (simp add: new_slme_key_def Let_def)

lemma sample_tl_env_fields:
  "tl_now (sample_tl_env now x) = now" "tl_address (sample_tl_env now x) = replicate 16 x" "tl_EUI64 (sample_tl_env now x) = replicate 8 x"
  "tl_cipher (sample_tl_env now x) = sample_aes" "m_uc250msStep (sample_tl_env now x) = 3"
  by (simp_all add: sample_tl_env_def)

lemma request_with_key:
  assumes "tx_key a (m_aDestAddress c) sp dp allow (g_stSlme s) = (Some k, n)"
    and "length (tl_address a) = 16" and "length (m_aDestAddress c) = 16" and "length (tl_EUI64 a) = 8" and "length data \<le> 65000"
  shows "\<exists>s' rq. TLDE_DATA_Request a None c prio data h sp dp allow s = Some s' \<and> nl_requests s' = nl_requests s @ [rq]"
  using encrypt_sealed [OF assms(2-4) length_security assms(5), of sp dp "Some k" n "time_and_counter a" "g_ucMsgIncrement s + 1"] assms(1)
  by (simp add: TLDE_DATA_Request_def Let_def in_tlme_def)

lemma history_new: "0 < sint t \<Longrightarrow> \<exists>d. TLDE_IsDuplicate k t sample_history = Some (d, 0)"
  using IsDuplicate_spec [OF sample_history_inv, of k t]
  by (auto simp: dup_spec_def sample_history_recent no_entry_def eval_nat_numeral)

lemma sample_setup:
  fixes a b prio data h
  assumes "length data \<le> 65000"
  defines "a \<equiv> sample_tl_env 1000 1" and "b \<equiv> sample_tl_env 1030 2"
  shows "\<exists>sa rq d. TLDE_DATA_Request a None sample_contract prio data h 2 3 1 (sample_session 2 2 3) = Some sa
    \<and> nl_requests sa = nl_requests (sample_session 2 2 3) @ [rq]
    \<and> TLDE_IsDuplicate (duplicate_key (time_and_counter a) (g_ucMsgIncrement (sample_session 2 2 3) + 1) (tl_address a)
         (history_time a b) (mem_of (nl_header rq @ nl_data rq))) (history_time a b) (g_oDuplicates (sample_session 1 3 2)) = Some (d, 0)"
proof -
  have c: "m_aDestAddress sample_contract = replicate 16 2" by (simp add: sample_contract_def NLME_CONTRACT_ATTRIBUTES.make_def)
  obtain k n where "tx_key a (replicate 16 2) 2 3 1 (g_stSlme (sample_session 2 2 3)) = (Some k, n)"
    using sample_tx_key [of 1000 2 2 3] sample_must_encrypt by (simp add: tx_key_def sample_tl_env_fields a_def)
  then obtain sa rq where sa: "TLDE_DATA_Request a None sample_contract prio data h 2 3 1 (sample_session 2 2 3) = Some sa"
      "nl_requests sa = nl_requests (sample_session 2 2 3) @ [rq]"
    using request_with_key [of a sample_contract 2 3 1 "sample_session 2 2 3" k n data prio h] assms(1) by (auto simp: c sample_tl_env_fields a_def)
  have "0 < sint (history_time a b)" by (simp add: history_time_def sample_tl_env_fields a_def b_def)
  then have "\<exists>d. TLDE_IsDuplicate key (history_time a b) (g_oDuplicates (sample_session 1 3 2)) = Some (d, 0)" for key
    using history_new by (simp add: sample_session_def)
  then show ?thesis using sa by blast
qed

lemma sample_facts:
  "clocks_ok (sample_tl_env 1000 1) (sample_tl_env 1030 2)" "m_aDestAddress sample_contract = replicate 16 2"
  "nl_requests (sample_session x y z) = []" "tl_events (sample_session x y z) = []"
  "seconds_traveled (sample_tl_env 1000 1) (sample_tl_env 1030 2) = 30"
  by (simp_all add: clocks_ok_def sample_tl_env_fields sample_contract_def NLME_CONTRACT_ATTRIBUTES.make_def sample_session_def seconds_traveled_def)

theorem datagram_delivered_witness:
  "\<exists>sa rq sb. TLDE_DATA_Request (sample_tl_env 1000 1) None sample_contract 0 [10, 20, 30] 77 2 3 1 (sample_session 2 2 3) = Some sa
     \<and> nl_requests sa = [rq]
     \<and> NLDE_DATA_Indication (sample_tl_env 1030 2) (replicate 16 1) (of_nat (length (nl_header rq @ nl_data rq)))
          (mem_of (nl_header rq @ nl_data rq)) 0 (sample_session 1 3 2) = Some sb
     \<and> map ind_data (tl_events sb) = [[10, 20, 30]] \<and> map ind_traveling (tl_events sb) = [30]"
proof -
  obtain sa rq d where sa: "TLDE_DATA_Request (sample_tl_env 1000 1) None sample_contract 0 [10, 20, 30] 77 2 3 1 (sample_session 2 2 3) = Some sa"
      "nl_requests sa = nl_requests (sample_session 2 2 3) @ [rq]"
      "TLDE_IsDuplicate (duplicate_key (time_and_counter (sample_tl_env 1000 1)) (g_ucMsgIncrement (sample_session 2 2 3) + 1)
        (tl_address (sample_tl_env 1000 1)) (history_time (sample_tl_env 1000 1) (sample_tl_env 1030 2)) (mem_of (nl_header rq @ nl_data rq)))
        (history_time (sample_tl_env 1000 1) (sample_tl_env 1030 2)) (g_oDuplicates (sample_session 1 3 2)) = Some (d, 0)"
    using sample_setup [of "[10, 20, 30]" 0 77] by auto
  from datagram_delivered [OF sa(1,2) _ _ _ _ _ _ _ _ _ sample_facts(1) sample_shared sa(3), of 0]
  show ?thesis using sa(1,2) by (auto simp: sample_tl_env_fields sample_facts)
qed

section \<open>Authenticity\<close>

lemma indication_protected:
  assumes "NLDE_DATA_Indication b src len p prio s = Some s'" and "p 8 = SECURITY_ENC_MIC_32 \<or> p 8 = SECURITY_CTRL_ENC_MIC_32"
    and "tl_events s' \<noteq> tl_events s"
  shows "\<exists>t. receive_protected b src len p prio t = Some s' \<and> g_stSlme t = g_stSlme s \<and> tl_events t = tl_events s"
proof -
  let ?t = "in_tlme (TLME_SetPortInfo src (u16_of_native (m_aDstPort (rx_pseudo b src p))) TLME_PORT_TPDU_IN) s"
  have "receive_protected b src len p prio ?t = Some s'"
    using assms by (auto simp: NLDE_DATA_Indication_def Let_def in_tlme_def policy_alert_def split: if_splits)
  then show ?thesis by (intro exI [of _ ?t]) (simp add: in_tlme_def)
qed

lemma deliver_event:
  assumes "deliver b src prio p tc counter data t = Some s'" and "tl_events s' = tl_events t @ [e]"
  shows "ind_data e = data"
  using assms by (auto simp: deliver_def Let_def in_tlme_def split: option.splits if_splits)

lemma receive_protected_opened:
  assumes "receive_protected b src len p prio t = Some s'" and "tl_events s' = tl_events t @ [e]"
    and "rx_key b src p (g_stSlme t) = (key, hl, tc, counter)"
  shows "\<exists>k out. key = Some k \<and> hl + 4 < unat len \<and> ind_data e = take (unat len - (hl + 4)) out
    \<and> TLDE_decryptTLPayload b k (tl_now b + 2 - ucast (time_traveling (tl_now b + 2) tc))
        (pseudo_octets (rx_pseudo b src p) @ mem_bytes p 8 4) hl (mem_bytes p hl (unat len - hl)) = Some (AES_SUCCESS, out)"
  using assms deliver_event
  by (fastforce simp: receive_protected_def Let_def policy_alert_def in_tlme_def split: option.splits if_splits prod.splits)

lemma rx_key_in_table:
  assumes "rx_key b src p s = (Some k, hl, tc, counter)"
  shows "\<exists>c ks. (c, ks) \<in> set (g_oSlmeKeysCatMap s) \<and> k \<in> set ks"
proof -
  have "\<exists>peer sport dport ks P. SLME_FindKeyCatIt peer sport dport SLM_KEY_USAGE_SESSION s = Some ks \<and> find P ks = Some k"
    using assms by (fastforce simp: rx_key_def Let_def SLME_FindTxKey_def SLME_FindKey_def tx_loop_first case_prod_beta split: if_splits option.splits)
  then show ?thesis by (auto simp: SLME_FindKeyCatIt_def find_Some_iff dest!: map_of_SomeD) (metis nth_mem)
qed

lemma decrypt_authentic:
  assumes "TLDE_decryptTLPayload b k t auth hl enc = Some (AES_SUCCESS, out)" and "4 \<le> length enc" and "length enc \<le> 65000"
    and "hl = 11 \<or> hl = 12" and "length auth = 44" and "length (m_aIssuerEUI64 k) = 8"
  shows "enc = ccm_seal (tl_cipher b) 4 (SLME_KEY.m_aKey k) (tl_nonce (m_aIssuerEUI64 k) t auth (hl + 32)) (take (hl + 32) auth) (take (length enc - 4) out)"
proof -
  let ?nonce = "tl_nonce (m_aIssuerEUI64 k) t auth (hl + 32)" and ?aad = "take (hl + 32) auth"
  let ?msg = "ccm_crypt (tl_cipher b) (SLME_KEY.m_aKey k) ?nonce (take (length enc - 4) enc)"
  have n: "44 - 4 + hl - 8 = hl + 32" using assms(4) by auto
  have "length (take (length enc - 4) enc) = length enc - 4" by simp
  then have "ccm_fits ?nonce ?aad (length enc - 4)"
    using transport_fits [of "m_aIssuerEUI64 k" ?aad "take (length enc - 4) enc" t auth "hl + 32"] assms(3-6) by auto
  from decrypt_opens [OF ccm_is_ready assms(2) this, of "tl_cipher b" "SLME_KEY.m_aKey k"] assms(1)
  have "enc = ccm_seal (tl_cipher b) 4 (SLME_KEY.m_aKey k) ?nonce ?aad ?msg \<and> out = ?msg @ drop (length ?msg) enc"
    unfolding TLDE_decryptTLPayload_def Let_def n by (auto split: if_splits)
  moreover have "length ?msg = length enc - 4" by simp
  ultimately show ?thesis by simp
qed



end
