(* ===== verification/Nlde.thy ===== *)
theory Nlde
  imports Tlde_Exchange Nlme_Tables
begin

text \<open>
  The network layer of the gateway (\<^verbatim>\<open>porting.cpp\<close>): it packs a transport datagram into an IPv6
  packet, looks up the route, sends the packet to the next hop over UDP or to the data link of the router, and on
  reception hands it to the transport layer or forwards it.

  The packed struct \<^verbatim>\<open>IPv6Packet\<close> is a record with its octets on the wire; the addresses of the
  transport and the network layer are the same global. The results of the socket and of the data link callback are
  parameters, and what was given to them is recorded in the state. On a backbone router the packet also goes through
  \<^verbatim>\<open>DMAP_BBR_Sniffer\<close>, which runs the device manager on the received APDUs and is an argument of
  the receiving function.
\<close>

section \<open>Packets\<close>

record IPv6IPHeader =
  m_ucVersionAndTrafficClass :: u8
  m_aFlowLabel :: "u8 list"
  m_u16PayloadSize :: u16
  m_ucNextHeader :: u8
  m_ucHopLimit :: u8
  m_ucSrcAddr :: ipv6
  m_ucDstAddr :: ipv6

record IPv6Packet =
  m_stIPHeader :: IPv6IPHeader
  m_stIPPayload :: "u8 list"

definition ip_octets :: "IPv6IPHeader \<Rightarrow> u8 list" where
  "ip_octets h = [m_ucVersionAndTrafficClass h] @ m_aFlowLabel h @ DMAP_InsertUint16 (m_u16PayloadSize h) @
     [m_ucNextHeader h, m_ucHopLimit h] @ m_ucSrcAddr h @ m_ucDstAddr h"

definition packet_octets :: "IPv6Packet \<Rightarrow> u8 list" where
  "packet_octets p = ip_octets (m_stIPHeader p) @ m_stIPPayload p"

definition packet_of :: "u8 list \<Rightarrow> IPv6Packet" where
  "packet_of bs =
     \<lparr>m_stIPHeader = \<lparr>m_ucVersionAndTrafficClass = bs ! 0, m_aFlowLabel = take 3 (drop 1 bs),
        m_u16PayloadSize = fst (DMAP_ExtractUint16 (mem_of bs) 4), m_ucNextHeader = bs ! 6, m_ucHopLimit = bs ! 7,
        m_ucSrcAddr = take 16 (drop 8 bs), m_ucDstAddr = take 16 (drop 24 bs)\<rparr>,
      m_stIPPayload = drop 40 bs\<rparr>"

section \<open>State and environment\<close>

abbreviation (input) DEVICE_TYPE_BBR :: int where "DEVICE_TYPE_BBR \<equiv> 4"
abbreviation (input) OutgoingInterfaceBBR :: u8 where "OutgoingInterfaceBBR \<equiv> 1"
abbreviation (input) DATA_TOO_LONG :: u8 where "DATA_TOO_LONG \<equiv> 9"

record nl_env = tl_env +
  g_nDeviceType :: int
  callback_to_dl :: bool
  udp_accepts :: "u8 list \<Rightarrow> u16 \<Rightarrow> u8 list \<Rightarrow> bool"
  dl_accepts :: "u8 list \<Rightarrow> bool"

datatype NL_OUTPUT =
    UDP_SEND (out_ip: "u8 list") (out_port: u16) (out_octets: "u8 list")
  | DL_SEND (out_octets: "u8 list")

record nl_state =
  g_stNlme :: NLME_ATRIBUTES
  g_stTlde :: tlde_state
  nl_outputs :: "NL_OUTPUT list"

text \<open>The IPv4 address stays in network order, as the octets \<^verbatim>\<open>in_addr\<close> holds.\<close>

definition cExtractIPv4IP :: "ipv6 \<Rightarrow> u8 list" where
  "cExtractIPv4IP a = take 4 (drop 12 a)"

definition cExtractIPv4Port :: "ipv6 \<Rightarrow> u16" where
  "cExtractIPv4Port a = fst (DMAP_ExtractUint16 (mem_of a) 10)"

section \<open>Sending\<close>

definition FindRouteHelper :: "ipv6 \<Rightarrow> nl_state \<Rightarrow> NLME_ROUTE_ATTRIBUTES option" where
  "FindRouteHelper dest s = NLME_FindDestinationRoute dest (g_stNlme s)"

definition next_hop_limit :: "ipv6 \<Rightarrow> IPv6IPHeader \<Rightarrow> NLME_ROUTE_ATTRIBUTES \<Rightarrow> u8" where
  "next_hop_limit own h r =
     (if m_ucSrcAddr h = own then m_ucNWK_HopLimit r
      else let l = m_ucHopLimit h - 1 in if m_ucNWK_HopLimit r < l then m_ucNWK_HopLimit r else l)"

text \<open>The length argument is that of the packet in both calls.\<close>

definition SendUDP :: "nl_env \<Rightarrow> IPv6Packet \<Rightarrow> nl_state \<Rightarrow> nl_state \<times> bool" where
  "SendUDP env msg s =
     (let h = m_stIPHeader msg in
      case FindRouteHelper (m_ucDstAddr h) s of
        None \<Rightarrow> (s, False)
      | Some pRoute \<Rightarrow>
          let l = next_hop_limit (tl_address env) h pRoute;
              octets = packet_octets (msg\<lparr>m_stIPHeader := h\<lparr>m_ucHopLimit := l\<rparr>\<rparr>) in
          if l = 0 then (s, False)
          else if m_bOutgoingInterface pRoute = OutgoingInterfaceBBR
          then let ip = cExtractIPv4IP (m_aNextHopAddress pRoute); port = cExtractIPv4Port (m_aNextHopAddress pRoute) in
               (s\<lparr>nl_outputs := nl_outputs s @ [UDP_SEND ip port octets]\<rparr>, udp_accepts env ip port octets)
          else if \<not> callback_to_dl env then (s, False)
          else (s\<lparr>nl_outputs := nl_outputs s @ [DL_SEND octets]\<rparr>, dl_accepts env octets))"

definition nl_packet :: "nl_env \<Rightarrow> NL_REQUEST \<Rightarrow> IPv6Packet" where
  "nl_packet env rq =
     (let c = nl_contract rq in
      \<lparr>m_stIPHeader = \<lparr>m_ucVersionAndTrafficClass = 0x60 OR (3 AND nl_priority rq) OR (push_bit 2 (NLME_CONTRACT_ATTRIBUTES.m_bPriority c) AND 0x0C),
         m_aFlowLabel = [0, ucast (drop_bit 8 (NLME_CONTRACT_ATTRIBUTES.m_unContractID c)), ucast (NLME_CONTRACT_ATTRIBUTES.m_unContractID c)],
         m_u16PayloadSize = of_nat (length (nl_data rq)) + of_nat (length (nl_header rq)),
         m_ucNextHeader = 17, m_ucHopLimit = 64, m_ucSrcAddr = tl_address env, m_ucDstAddr = nl_dst rq\<rparr>,
       m_stIPPayload = nl_header rq @ nl_data rq\<rparr>)"

definition NLDE_DATA_RequestMemOptimzed :: "nl_env \<Rightarrow> NL_REQUEST \<Rightarrow> nl_state \<Rightarrow> nl_state" where
  "NLDE_DATA_RequestMemOptimzed env rq s =
     (let unNsduDataLen = of_nat (length (nl_data rq)) + of_nat (length (nl_header rq)) :: u16 in
      if m_unAssignedMaxNSDUSize (nl_contract rq) < unNsduDataLen
      then s\<lparr>g_stTlde := NLDE_DATA_Confirm (nl_handle rq) DATA_TOO_LONG (g_stTlde s)\<rparr>
      else let (s, ok) = SendUDP env (nl_packet env rq) s in
           s\<lparr>g_stTlde := NLDE_DATA_Confirm (nl_handle rq) (if ok then SFC_SUCCESS else SFC_FAILURE) (g_stTlde s)\<rparr>)"

section \<open>Receiving\<close>

definition FowardIPv6Message :: "nl_env \<Rightarrow> IPv6Packet \<Rightarrow> nl_state \<Rightarrow> nl_state" where
  "FowardIPv6Message env p s = (if m_ucHopLimit (m_stIPHeader p) = 0 then s else fst (SendUDP env p s))"

definition handlePacketForBBR :: "nl_env \<Rightarrow> (nl_state \<Rightarrow> nl_state \<times> bool) \<Rightarrow> u8 list \<Rightarrow> nl_state \<Rightarrow> nl_state" where
  "handlePacketForBBR env sniffer octets s =
     (let (s, handled) = sniffer s in
      if handled then s
      else if \<not> callback_to_dl env then s
      else s\<lparr>nl_outputs := nl_outputs s @ [DL_SEND octets]\<rparr>)"

text \<open>\<open>octets\<close> is what \<^verbatim>\<open>RecvFrom\<close> delivered; the result is \<open>None\<close> when the transport layer does not return.\<close>

definition RecvUDP :: "nl_env \<Rightarrow> (nl_state \<Rightarrow> nl_state \<times> bool) \<Rightarrow> u8 list \<Rightarrow> nl_state \<Rightarrow> nl_state option" where
  "RecvUDP env sniffer octets s =
     (if length octets \<le> 40 + 8 then Some s
      else
        let p = packet_of octets; h = m_stIPHeader p in
        if m_ucDstAddr h \<noteq> tl_address env then Some (FowardIPv6Message env p s)
        else
          case NLDE_DATA_Indication (tl_env.truncate env) (m_ucSrcAddr h) (of_nat (length octets - 40)) (mem_of (m_stIPPayload p))
              ((m_aFlowLabel h ! 0 AND 0xF0) OR (m_ucVersionAndTrafficClass h AND 0x0F)) (g_stTlde s) of
            None \<Rightarrow> None
          | Some t \<Rightarrow>
              let s = s\<lparr>g_stTlde := t\<rparr> in
              Some (if g_nDeviceType env = DEVICE_TYPE_BBR then handlePacketForBBR env sniffer octets s else s))"

section \<open>Packets on the wire\<close>

definition packet_ok :: "IPv6Packet \<Rightarrow> bool" where
  "packet_ok p \<longleftrightarrow> length (m_aFlowLabel (m_stIPHeader p)) = 3 \<and> length (m_ucSrcAddr (m_stIPHeader p)) = 16 \<and>
     length (m_ucDstAddr (m_stIPHeader p)) = 16"

definition with_hops :: "u8 \<Rightarrow> IPv6Packet \<Rightarrow> IPv6Packet" where
  "with_hops l p = p\<lparr>m_stIPHeader := (m_stIPHeader p)\<lparr>m_ucHopLimit := l\<rparr>\<rparr>"

lemma length_packet: "packet_ok p \<Longrightarrow> length (packet_octets p) = 40 + length (m_stIPPayload p)"
  by (simp add: packet_ok_def packet_octets_def ip_octets_def DMAP_InsertUint16_def)

lemma packet_of_octets:
  assumes "packet_ok p"
  shows "packet_of (packet_octets p) = p"
proof -
  obtain x y z where "m_aFlowLabel (m_stIPHeader p) = [x, y, z]"
    using assms by (auto simp: packet_ok_def length_Suc_conv numeral_3_eq_3)
  then show ?thesis
    using assms
    by (simp add: packet_ok_def packet_of_def packet_octets_def ip_octets_def DMAP_InsertUint16_def DMAP_ExtractUint16_def
        mem_of_def nth_Cons' join_bytes_u16)
qed

lemma with_hops_fields [simp]:
  "m_stIPPayload (with_hops l p) = m_stIPPayload p" "m_ucSrcAddr (m_stIPHeader (with_hops l p)) = m_ucSrcAddr (m_stIPHeader p)"
  "m_ucDstAddr (m_stIPHeader (with_hops l p)) = m_ucDstAddr (m_stIPHeader p)" "m_ucHopLimit (m_stIPHeader (with_hops l p)) = l"
  "m_aFlowLabel (m_stIPHeader (with_hops l p)) = m_aFlowLabel (m_stIPHeader p)"
  "m_ucVersionAndTrafficClass (m_stIPHeader (with_hops l p)) = m_ucVersionAndTrafficClass (m_stIPHeader p)"
  "packet_ok (with_hops l p) = packet_ok p" "with_hops k (with_hops l p) = with_hops k p"
  by (simp_all add: with_hops_def packet_ok_def)

lemma with_hops_id: "m_ucHopLimit (m_stIPHeader p) = l \<Longrightarrow> with_hops l p = p"
  by (auto simp: with_hops_def)

text \<open>What a node sends on, over the backbone.\<close>

lemma SendUDP_backbone:
  assumes "FindRouteHelper (m_ucDstAddr (m_stIPHeader p)) s = Some r" and "m_bOutgoingInterface r = OutgoingInterfaceBBR"
    and "next_hop_limit (tl_address env) (m_stIPHeader p) r = l" and "l \<noteq> 0"
  shows "nl_outputs (fst (SendUDP env p s)) = nl_outputs s @ [UDP_SEND (cExtractIPv4IP (m_aNextHopAddress r))
    (cExtractIPv4Port (m_aNextHopAddress r)) (packet_octets (with_hops l p))]"
  using assms by (simp add: SendUDP_def Let_def with_hops_def)

lemma SendUDP_emits:
  assumes "nl_outputs (fst (SendUDP env p s)) = nl_outputs s @ [out]"
  shows "\<exists>r. FindRouteHelper (m_ucDstAddr (m_stIPHeader p)) s = Some r \<and> next_hop_limit (tl_address env) (m_stIPHeader p) r \<noteq> 0 \<and>
    out_octets out = packet_octets (with_hops (next_hop_limit (tl_address env) (m_stIPHeader p) r) p)"
  using assms by (auto simp: SendUDP_def Let_def with_hops_def split: option.splits if_splits)

section \<open>Relaying\<close>

text \<open>
  A node that is not the destination of a received packet, and the path of a packet through several of them: every node
  gets what the one before it gave to its socket or data link.
\<close>

definition relay_node :: "nl_env \<times> nl_state \<Rightarrow> u8 list \<Rightarrow> u8 list option" where
  "relay_node n w =
     (case RecvUDP (fst n) (\<lambda>s. (s, False)) w ((snd n)\<lparr>nl_outputs := []\<rparr>) of
        Some s \<Rightarrow> (case nl_outputs s of [out] \<Rightarrow> Some (out_octets out) | _ \<Rightarrow> None)
      | None \<Rightarrow> None)"

fun relay :: "(nl_env \<times> nl_state) list \<Rightarrow> u8 list \<Rightarrow> u8 list option" where
  "relay [] w = Some w"
| "relay (n # ns) w = (case relay_node n w of None \<Rightarrow> None | Some w' \<Rightarrow> relay ns w')"

definition hops_of :: "u8 list \<Rightarrow> nat" where
  "hops_of w = unat (m_ucHopLimit (m_stIPHeader (packet_of w)))"

definition stranger :: "IPv6Packet \<Rightarrow> nl_env \<times> nl_state \<Rightarrow> bool" where
  "stranger p n \<longleftrightarrow> tl_address (fst n) \<noteq> m_ucSrcAddr (m_stIPHeader p) \<and> tl_address (fst n) \<noteq> m_ucDstAddr (m_stIPHeader p)"

lemma relay_node_forward:
  assumes "packet_ok p" and "8 < length (m_stIPPayload p)" and "tl_address (fst n) \<noteq> m_ucDstAddr (m_stIPHeader p)"
  shows "relay_node n (packet_octets p) =
    (case nl_outputs (FowardIPv6Message (fst n) p ((snd n)\<lparr>nl_outputs := []\<rparr>)) of [out] \<Rightarrow> Some (out_octets out) | _ \<Rightarrow> None)"
  using assms by (simp add: relay_node_def RecvUDP_def length_packet packet_of_octets Let_def eq_commute [of "tl_address (fst n)"])

lemma next_hop_less:
  assumes "m_ucSrcAddr h \<noteq> own" and "m_ucHopLimit h \<noteq> 0" and "next_hop_limit own h r = l"
  shows "unat l < unat (m_ucHopLimit h)"
proof -
  have "unat (m_ucHopLimit h - 1) < unat (m_ucHopLimit h)"
    using assms(2) by (simp add: unat_minus_one unat_gt_0)
  then show ?thesis using assms(1,3) by (auto simp: next_hop_limit_def Let_def word_less_nat_alt split: if_splits)
qed

lemma relay_node_less:
  assumes "packet_ok p" and "8 < length (m_stIPPayload p)" and "stranger p n" and "relay_node n (packet_octets p) = Some w"
  shows "\<exists>l. w = packet_octets (with_hops l p) \<and> l \<noteq> 0 \<and> unat l < unat (m_ucHopLimit (m_stIPHeader p))"
proof -
  let ?s = "(snd n)\<lparr>nl_outputs := []\<rparr>"
  obtain out where out: "nl_outputs (FowardIPv6Message (fst n) p ?s) = [out]" "w = out_octets out"
    using assms by (auto simp: relay_node_forward stranger_def split: list.splits)
  then have h: "m_ucHopLimit (m_stIPHeader p) \<noteq> 0" and e: "nl_outputs (fst (SendUDP (fst n) p ?s)) = nl_outputs ?s @ [out]"
    by (auto simp: FowardIPv6Message_def split: if_splits)
  from SendUDP_emits [OF e] obtain r where r: "next_hop_limit (tl_address (fst n)) (m_stIPHeader p) r \<noteq> 0"
      "out_octets out = packet_octets (with_hops (next_hop_limit (tl_address (fst n)) (m_stIPHeader p) r) p)" by blast
  have "unat (next_hop_limit (tl_address (fst n)) (m_stIPHeader p) r) < unat (m_ucHopLimit (m_stIPHeader p))"
    by (rule next_hop_less [OF _ h refl]) (use assms(3) in \<open>auto simp: stranger_def\<close>)
  then show ?thesis using r out(2) by blast
qed

lemma stranger_with_hops [simp]: "stranger (with_hops l p) = stranger p"
  by (simp add: fun_eq_iff stranger_def)

lemma relay_less:
  assumes "packet_ok p" and "8 < length (m_stIPPayload p)" and "list_all (stranger p) ns" and "relay ns (packet_octets p) = Some w"
  shows "\<exists>l. w = packet_octets (with_hops l p) \<and> unat l + length ns \<le> unat (m_ucHopLimit (m_stIPHeader p)) \<and>
    (m_ucHopLimit (m_stIPHeader p) \<noteq> 0 \<longrightarrow> l \<noteq> 0)"
  using assms
proof (induction ns arbitrary: p)
  case Nil
  then show ?case by (intro exI [of _ "m_ucHopLimit (m_stIPHeader p)"]) (simp add: with_hops_id)
next
  case (Cons n ns)
  obtain l where l: "relay_node n (packet_octets p) = Some (packet_octets (with_hops l p))" "l \<noteq> 0"
      "unat l < unat (m_ucHopLimit (m_stIPHeader p))"
    using Cons.prems relay_node_less [of p n] by (auto split: option.splits)
  then obtain k where "w = packet_octets (with_hops k p)" "unat k + length ns \<le> unat l" "k \<noteq> 0"
    using Cons.IH [of "with_hops l p"] Cons.prems by auto
  then show ?case using l by (intro exI [of _ k]) auto
qed

text \<open>A node with a route over the backbone that allows at least the hop limit of the packet.\<close>

definition passes_on :: "IPv6Packet \<Rightarrow> nl_env \<times> nl_state \<Rightarrow> bool" where
  "passes_on p n \<longleftrightarrow> stranger p n \<and>
     (case FindRouteHelper (m_ucDstAddr (m_stIPHeader p)) (snd n) of
        None \<Rightarrow> False
      | Some r \<Rightarrow> m_bOutgoingInterface r = OutgoingInterfaceBBR \<and> m_ucHopLimit (m_stIPHeader p) \<le> m_ucNWK_HopLimit r)"

lemma relay_node_passes:
  assumes "packet_ok p" and "8 < length (m_stIPPayload p)" and "passes_on p n" and "1 < m_ucHopLimit (m_stIPHeader p)"
  shows "relay_node n (packet_octets p) = Some (packet_octets (with_hops (m_ucHopLimit (m_stIPHeader p) - 1) p))"
proof -
  let ?l = "m_ucHopLimit (m_stIPHeader p)" and ?s = "(snd n)\<lparr>nl_outputs := []\<rparr>"
  obtain r where r: "FindRouteHelper (m_ucDstAddr (m_stIPHeader p)) ?s = Some r" "m_bOutgoingInterface r = OutgoingInterfaceBBR"
      "?l \<le> m_ucNWK_HopLimit r" and st: "stranger p n"
    using assms(3) by (auto simp: passes_on_def FindRouteHelper_def split: option.splits)
  have "?l - 1 \<noteq> 0" "?l \<noteq> 0" using assms(4) by auto
  have "?l - 1 < ?l" using unat_minus_one [OF \<open>?l \<noteq> 0\<close>] assms(4) by (simp add: word_less_nat_alt)
  then have "next_hop_limit (tl_address (fst n)) (m_stIPHeader p) r = ?l - 1"
    using st r(3) by (auto simp: next_hop_limit_def Let_def stranger_def)
  from SendUDP_backbone [OF r(1,2) this \<open>?l - 1 \<noteq> 0\<close>]
  show ?thesis
    using assms(1,2) st \<open>?l \<noteq> 0\<close> by (simp add: relay_node_forward stranger_def FowardIPv6Message_def)
qed

lemma relay_passes:
  assumes "packet_ok p" and "8 < length (m_stIPPayload p)" and "list_all (passes_on p) ns"
    and "length ns < unat (m_ucHopLimit (m_stIPHeader p))"
  shows "relay ns (packet_octets p) = Some (packet_octets (with_hops (m_ucHopLimit (m_stIPHeader p) - of_nat (length ns)) p))"
  using assms
proof (induction ns arbitrary: p)
  case Nil
  then show ?case by (simp add: with_hops_id)
next
  case (Cons n ns)
  let ?l = "m_ucHopLimit (m_stIPHeader p)" and ?p = "with_hops (m_ucHopLimit (m_stIPHeader p) - 1) p"
  have "1 < ?l" using Cons.prems(4) by (simp add: word_less_nat_alt)
  then have l: "unat (?l - 1) = unat ?l - 1" by (intro unat_minus_one) auto
  have "passes_on ?p m" if "passes_on p m" for m
    using that l by (auto simp: passes_on_def word_le_nat_alt split: option.splits)
  then have "list_all (passes_on ?p) ns" using Cons.prems(3) by (simp add: list_all_iff)
  moreover have "length ns < unat (?l - 1)" using Cons.prems(4) l by simp
  ultimately have "relay ns (packet_octets ?p) = Some (packet_octets (with_hops (?l - 1 - of_nat (length ns)) p))"
    using Cons.IH [of ?p] Cons.prems by simp
  then show ?case
    using Cons.prems relay_node_passes [OF _ _ _ \<open>1 < ?l\<close>] by (simp add: algebra_simps)
qed

section \<open>Properties\<close>

text \<open>C18:
  No packet travels for ever between nodes that are neither its source nor its destination: a path with at least as many
  forwarding nodes as the packet has hops left loses it, since every node that passes it on does so with a
  smaller hop limit that is not zero.
\<close>
theorem relaying_ends:
  assumes "packet_ok p" and "8 < length (m_stIPPayload p)" and "list_all (stranger p) ns"
    and "ns \<noteq> []" and "unat (m_ucHopLimit (m_stIPHeader p)) \<le> length ns"
  shows "relay ns (packet_octets p) = None"
proof (rule ccontr)
  assume "relay ns (packet_octets p) \<noteq> None"
  then obtain w where w: "relay ns (packet_octets p) = Some w" by blast
  show False
  proof (cases "m_ucHopLimit (m_stIPHeader p) = 0")
    case False
    then obtain l :: u8 where "l \<noteq> 0" "unat l + length ns \<le> unat (m_ucHopLimit (m_stIPHeader p))"
      using relay_less [OF assms(1-3) w] by blast
    then show ?thesis using assms(5) unat_gt_0 [of l] by linarith
  qed (use relay_less [OF assms(1-3) w] assms(4) in auto)
qed

definition sample_hop :: "ipv6 \<Rightarrow> u8 \<Rightarrow> NLME_ROUTE_ATTRIBUTES" where
  "sample_hop hop limit = NLME_ROUTE_ATTRIBUTES.make (replicate 16 9) hop limit 1"

definition sample_nl_env :: "u8 \<Rightarrow> nl_env" where
  "sample_nl_env x = tl_env.extend (sample_tl_env 1000 x)
     \<lparr>g_nDeviceType = 8, callback_to_dl = False, udp_accepts = (\<lambda>_ _ _. True), dl_accepts = (\<lambda>_. True)\<rparr>"

definition sample_nl_state :: "u8 \<Rightarrow> nl_state" where
  "sample_nl_state limit = \<lparr>g_stNlme = sample_nlme\<lparr>m_oNlmeRoutesMap := [(replicate 16 9, sample_hop (replicate 16 3) limit)]\<rparr>,
     g_stTlde = sample_session 2 2 3, nl_outputs = []\<rparr>"

definition sample_packet :: "u8 \<Rightarrow> IPv6Packet" where
  "sample_packet l = \<lparr>m_stIPHeader = \<lparr>m_ucVersionAndTrafficClass = 0x63, m_aFlowLabel = [0, 0, 7], m_u16PayloadSize = 12,
     m_ucNextHeader = 17, m_ucHopLimit = l, m_ucSrcAddr = replicate 16 1, m_ucDstAddr = replicate 16 9\<rparr>, m_stIPPayload = replicate 12 5\<rparr>"

lemma sample_packet_fields:
  "packet_ok (sample_packet l)" "m_stIPPayload (sample_packet l) = replicate 12 5" "m_ucHopLimit (m_stIPHeader (sample_packet l)) = l"
  "m_ucSrcAddr (m_stIPHeader (sample_packet l)) = replicate 16 1" "m_ucDstAddr (m_stIPHeader (sample_packet l)) = replicate 16 9"
  "tl_address (sample_nl_env x) = replicate 16 x"
  by (simp_all add: sample_packet_def packet_ok_def sample_nl_env_def sample_tl_env_def tl_env.defs)

theorem relaying_ends_witness:
  "relay [(sample_nl_env 3, sample_nl_state 64), (sample_nl_env 4, sample_nl_state 64)] (packet_octets (sample_packet 2)) = None"
  by (rule relaying_ends) (simp_all add: sample_packet_fields stranger_def)

text \<open>What the network layer of the destination hands to its transport layer.\<close>

lemma RecvUDP_own:
  assumes "packet_ok p" and "8 < length (m_stIPPayload p)" and "m_ucDstAddr (m_stIPHeader p) = tl_address env"
    and "g_nDeviceType env \<noteq> DEVICE_TYPE_BBR"
  shows "RecvUDP env sniffer (packet_octets p) s = map_option (\<lambda>t. s\<lparr>g_stTlde := t\<rparr>)
    (NLDE_DATA_Indication (tl_env.truncate env) (m_ucSrcAddr (m_stIPHeader p)) (of_nat (length (m_stIPPayload p))) (mem_of (m_stIPPayload p))
       ((m_aFlowLabel (m_stIPHeader p) ! 0 AND 0xF0) OR (m_ucVersionAndTrafficClass (m_stIPHeader p) AND 0x0F)) (g_stTlde s))"
  using assms by (simp add: RecvUDP_def length_packet packet_of_octets Let_def split: option.split)

lemma traffic_class: "((0 :: u8) AND 0xF0) OR ((0x60 OR (3 AND x) OR (y AND 0x0C)) AND 0x0F) = (3 AND x) OR (y AND 0x0C)"
  by (rule bit_word_eqI) (auto simp: bit_simps mask_bits)

text \<open>
  The way of a datagram from one transport layer to the other: the sender's packet, passed on by the nodes \<open>ns\<close>, arrives at
  the destination with the header and data of the request and with the priority bits of the request and of its contract.
\<close>

lemma packet_arrives:
  fixes rq a ns b
  defines "c \<equiv> nl_contract rq" and "payload \<equiv> nl_header rq @ nl_data rq" and "p \<equiv> nl_packet a rq"
  assumes sizes: "length (tl_address a) = 16" "length (nl_dst rq) = 16" "8 < length payload" "length payload \<le> unat (m_unAssignedMaxNSDUSize c)"
    and route: "FindRouteHelper (nl_dst rq) sa = Some r" "m_bOutgoingInterface r = OutgoingInterfaceBBR"
    and path: "list_all (passes_on (with_hops (m_ucNWK_HopLimit r) p)) ns" "length ns < unat (m_ucNWK_HopLimit r)"
    and dest: "tl_address b = nl_dst rq" "g_nDeviceType b \<noteq> DEVICE_TYPE_BBR"
  shows "\<exists>w w'. nl_outputs (NLDE_DATA_RequestMemOptimzed a rq sa) = nl_outputs sa @
      [UDP_SEND (cExtractIPv4IP (m_aNextHopAddress r)) (cExtractIPv4Port (m_aNextHopAddress r)) w]
    \<and> relay ns w = Some w'
    \<and> RecvUDP b sniffer w' sb = map_option (\<lambda>t. sb\<lparr>g_stTlde := t\<rparr>)
        (NLDE_DATA_Indication (tl_env.truncate b) (tl_address a) (of_nat (length payload)) (mem_of payload)
          ((3 AND nl_priority rq) OR (push_bit 2 (NLME_CONTRACT_ATTRIBUTES.m_bPriority c) AND 0x0C)) (g_stTlde sb))"
proof -
  let ?l = "m_ucNWK_HopLimit r"
  have ok: "packet_ok p" and pay: "m_stIPPayload p = payload" and dst: "m_ucDstAddr (m_stIPHeader p) = nl_dst rq"
      and src: "m_ucSrcAddr (m_stIPHeader p) = tl_address a"
    using sizes by (simp_all add: p_def packet_ok_def nl_packet_def Let_def payload_def)
  have "?l \<noteq> 0" using path(2) by auto
  have len: "length payload < 65536" using sizes(4) unat_u16_less [of "m_unAssignedMaxNSDUSize c"] by linarith
  then have "unat (of_nat (length payload) :: u16) = length payload" by (intro unat_of_nat_u16) simp
  then have fits: "\<not> m_unAssignedMaxNSDUSize c < of_nat (length (nl_data rq)) + of_nat (length (nl_header rq))"
    using sizes(4) by (simp add: word_less_nat_alt payload_def add.commute)
  have limit: "next_hop_limit (tl_address a) (m_stIPHeader p) r = ?l" by (simp add: next_hop_limit_def src)
  have "nl_outputs (NLDE_DATA_RequestMemOptimzed a rq sa) = nl_outputs (fst (SendUDP a p sa))"
    using fits by (simp add: NLDE_DATA_RequestMemOptimzed_def Let_def c_def p_def NLDE_DATA_Confirm_def split: prod.split)
  also have "\<dots> = nl_outputs sa @ [UDP_SEND (cExtractIPv4IP (m_aNextHopAddress r)) (cExtractIPv4Port (m_aNextHopAddress r))
      (packet_octets (with_hops ?l p))]"
    by (rule SendUDP_backbone [OF _ route(2) limit \<open>?l \<noteq> 0\<close>]) (simp add: dst route(1))
  finally have out: "nl_outputs (NLDE_DATA_RequestMemOptimzed a rq sa) = \<dots>" .
  have rel: "relay ns (packet_octets (with_hops ?l p)) = Some (packet_octets (with_hops (?l - of_nat (length ns)) p))"
    using relay_passes [of "with_hops ?l p" ns] ok pay sizes(3) path by simp
  have tc: "((m_aFlowLabel (m_stIPHeader p) ! 0 AND 0xF0) OR (m_ucVersionAndTrafficClass (m_stIPHeader p) AND 0x0F)) =
      (3 AND nl_priority rq) OR (push_bit 2 (NLME_CONTRACT_ATTRIBUTES.m_bPriority c) AND 0x0C)"
    using traffic_class [of "nl_priority rq" "push_bit 2 (NLME_CONTRACT_ATTRIBUTES.m_bPriority c)"]
    by (simp add: p_def nl_packet_def Let_def c_def)
  have "RecvUDP b sniffer (packet_octets (with_hops (?l - of_nat (length ns)) p)) sb = map_option (\<lambda>t. sb\<lparr>g_stTlde := t\<rparr>)
      (NLDE_DATA_Indication (tl_env.truncate b) (tl_address a) (of_nat (length payload)) (mem_of payload)
        ((3 AND nl_priority rq) OR (push_bit 2 (NLME_CONTRACT_ATTRIBUTES.m_bPriority c) AND 0x0C)) (g_stTlde sb))"
    using RecvUDP_own [of "with_hops (?l - of_nat (length ns)) p" b sniffer sb] ok pay dst src dest sizes(3) tc by simp
  with out rel show ?thesis by blast
qed

text \<open>
  A request of the transport layer reaches the transport layer of the destination unchanged: when the sender has a route over
  the backbone, the datagram fits the contract and every node on the way has such a route too and the path
  is shorter than the hop limit of the sender's route, then the request puts exactly one packet on the network and
  the destination hands to its transport layer the octets of the request with the address of the sender and the priority bits
  of the request and its contract.
\<close>
lemma packet_reaches_destination:
  fixes rq a ns b
  defines "payload \<equiv> nl_header rq @ nl_data rq"
  assumes "length (tl_address a) = 16" and "length (nl_dst rq) = 16"
    and "8 < length payload" and "length payload \<le> unat (m_unAssignedMaxNSDUSize (nl_contract rq))"
    and "FindRouteHelper (nl_dst rq) sa = Some r" and "m_bOutgoingInterface r = OutgoingInterfaceBBR"
    and "list_all (passes_on (with_hops (m_ucNWK_HopLimit r) (nl_packet a rq))) ns" and "length ns < unat (m_ucNWK_HopLimit r)"
    and "tl_address b = nl_dst rq" and "g_nDeviceType b \<noteq> DEVICE_TYPE_BBR"
  shows "\<exists>w w'. nl_outputs (NLDE_DATA_RequestMemOptimzed a rq sa) = nl_outputs sa @
      [UDP_SEND (cExtractIPv4IP (m_aNextHopAddress r)) (cExtractIPv4Port (m_aNextHopAddress r)) w]
    \<and> relay ns w = Some w'
    \<and> RecvUDP b sniffer w' sb = map_option (\<lambda>t. sb\<lparr>g_stTlde := t\<rparr>)
        (NLDE_DATA_Indication (tl_env.truncate b) (tl_address a) (of_nat (length payload)) (mem_of payload)
          ((3 AND nl_priority rq) OR (push_bit 2 (NLME_CONTRACT_ATTRIBUTES.m_bPriority (nl_contract rq)) AND 0x0C)) (g_stTlde sb))"
  unfolding payload_def by (rule packet_arrives [OF assms(2-11) [unfolded payload_def]])

definition sample_nl_request :: NL_REQUEST where
  "sample_nl_request = \<lparr>nl_dst = replicate 16 9, nl_contract = sample_contract\<lparr>m_unAssignedMaxNSDUSize := 100\<rparr>, nl_priority = 2,
     nl_header = replicate 11 0, nl_data = [1, 2, 3], nl_handle = 5\<rparr>"

lemma sample_find_route: "FindRouteHelper (replicate 16 9) (sample_nl_state l) = Some (sample_hop (replicate 16 3) l)"
  by (simp add: FindRouteHelper_def NLME_FindDestinationRoute_def NLME_findRoute_def sample_nl_state_def bytes_at_def)

lemma sample_hop_fields:
  "m_bOutgoingInterface (sample_hop h l) = 1" "m_ucNWK_HopLimit (sample_hop h l) = l" "m_aNextHopAddress (sample_hop h l) = h"
  by (simp_all add: sample_hop_def NLME_ROUTE_ATTRIBUTES.make_def)

theorem packet_reaches_destination_witness:
  "\<exists>w w'. nl_outputs (NLDE_DATA_RequestMemOptimzed (sample_nl_env 1) sample_nl_request (sample_nl_state 3)) =
       [UDP_SEND [3, 3, 3, 3] 0x303 w]
     \<and> relay [(sample_nl_env 3, sample_nl_state 3), (sample_nl_env 4, sample_nl_state 3)] w = Some w'
     \<and> RecvUDP (sample_nl_env 9) (\<lambda>s. (s, False)) w' (sample_nl_state 7) = map_option (\<lambda>t. (sample_nl_state 7)\<lparr>g_stTlde := t\<rparr>)
         (NLDE_DATA_Indication (tl_env.truncate (sample_nl_env 9)) (replicate 16 1) 14 (mem_of (replicate 11 0 @ [1, 2, 3])) 2
           (g_stTlde (sample_nl_state 7)))"
proof -
  let ?ns = "[(sample_nl_env 3, sample_nl_state 3), (sample_nl_env 4, sample_nl_state 3)]"
  have c: "NLME_CONTRACT_ATTRIBUTES.m_bPriority sample_contract = 0"
    by (simp add: sample_contract_def NLME_CONTRACT_ATTRIBUTES.make_def)
  have "list_all (passes_on (with_hops 3 (nl_packet (sample_nl_env 1) sample_nl_request))) ?ns"
    by (simp add: passes_on_def stranger_def sample_find_route sample_hop_fields nl_packet_def sample_nl_request_def Let_def sample_packet_fields)
  with packet_reaches_destination [of "sample_nl_env 1" sample_nl_request "sample_nl_state 3" "sample_hop (replicate 16 3) 3" ?ns "sample_nl_env 9"
      "\<lambda>s. (s, False)" "sample_nl_state 7"]
  show ?thesis
    by (simp add: sample_packet_fields sample_find_route sample_hop_fields sample_nl_request_def c cExtractIPv4IP_def cExtractIPv4Port_def
        DMAP_ExtractUint16_def mem_of_def) (simp add: sample_nl_env_def sample_nl_state_def tl_env.defs eval_nat_numeral)
qed

section \<open>A loop through the source\<close>

text \<open>C20:
  The bound holds only while the packet stays away from its source: when the routes lead a packet back to the node it came from,
  that node gives it the full hop limit of its route again, so that the packet goes round between the source and
  another node any number of times without loss.
\<close>
theorem source_revives_packet:
  assumes "packet_ok p" and "8 < length (m_stIPPayload p)"
    and "tl_address (fst a) = m_ucSrcAddr (m_stIPHeader p)" and "tl_address (fst a) \<noteq> m_ucDstAddr (m_stIPHeader p)"
    and "FindRouteHelper (m_ucDstAddr (m_stIPHeader p)) (snd a) = Some r" and "m_bOutgoingInterface r = OutgoingInterfaceBBR"
    and "1 < m_ucNWK_HopLimit r" and "m_ucHopLimit (m_stIPHeader p) = m_ucNWK_HopLimit r - 1"
    and "passes_on (with_hops (m_ucNWK_HopLimit r) p) b"
  shows "relay (concat (replicate n [a, b])) (packet_octets p) = Some (packet_octets p)"
proof -
  let ?l = "m_ucNWK_HopLimit r" and ?s = "(snd a)\<lparr>nl_outputs := []\<rparr>"
  have r: "FindRouteHelper (m_ucDstAddr (m_stIPHeader p)) ?s = Some r"
    using assms(5) by (simp add: FindRouteHelper_def)
  have nz: "?l - 1 \<noteq> 0" "?l \<noteq> 0" using assms(7) by auto
  have "next_hop_limit (tl_address (fst a)) (m_stIPHeader p) r = ?l" using assms(3) by (simp add: next_hop_limit_def)
  from SendUDP_backbone [OF r assms(6) this nz(2)]
  have "relay_node a (packet_octets p) = Some (packet_octets (with_hops ?l p))"
    using assms(1,2,4,8) nz by (simp add: relay_node_forward FowardIPv6Message_def)
  moreover have "relay_node b (packet_octets (with_hops ?l p)) = Some (packet_octets p)"
    using relay_node_passes [of "with_hops ?l p" b] assms(1,2,7,8,9) by (simp add: with_hops_id)
  ultimately show ?thesis by (induction n) simp_all
qed

theorem source_revives_packet_witness:
  "relay (concat (replicate 1000 [(sample_nl_env 1, sample_nl_state 3), (sample_nl_env 4, sample_nl_state 3)])) (packet_octets (sample_packet 2)) =
     Some (packet_octets (sample_packet 2))"
  by (rule source_revives_packet [of _ _ "sample_hop (replicate 16 3) 3"])
    (simp_all add: sample_packet_fields sample_find_route sample_hop_fields passes_on_def stranger_def)

end
