(* ===== verification/Stack.thy ===== *)
theory Stack
  imports Nlde Asl_Reach
begin

text \<open>
  The layers of one device together. The calls between them are direct in the code: the application sublayer calls
  \<^verbatim>\<open>TLDE_DATA_Request\<close>, which calls \<^verbatim>\<open>NLDE_DATA_RequestMemOptimzed\<close>, which confirms at once; in the other
  direction \<^verbatim>\<open>RecvUDP\<close> calls \<^verbatim>\<open>NLDE_DATA_Indication\<close> and this \<^verbatim>\<open>TLDE_DATA_Indication\<close>. The component
  theories record such calls as outputs; here they are carried out. The network layer object of the device is one, in the
  state of the application sublayer.
\<close>

record device =
  dv_asl :: asl_state
  dv_tl :: tlde_state
  dv_out :: "NL_OUTPUT list"

definition nl_view :: "device \<Rightarrow> nl_state" where
  "nl_view d = nl_state.make (asl_state.g_stNlme (dv_asl d)) (dv_tl d) (dv_out d)"

definition hand_down :: "nl_env \<Rightarrow> device \<Rightarrow> device" where
  "hand_down env d =
     (let rqs = nl_requests (dv_tl d);
          s = fold (NLDE_DATA_RequestMemOptimzed env) rqs (nl_view (d\<lparr>dv_tl := (dv_tl d)\<lparr>nl_requests := []\<rparr>\<rparr>)) in
      d\<lparr>dv_tl := g_stTlde s, dv_out := nl_outputs s\<rparr>)"

fun tl_event :: "asl_config \<Rightarrow> u32 \<Rightarrow> TL_EVENT \<Rightarrow> asl_state \<Rightarrow> asl_state" where
  "tl_event cfg now (TL_CONFIRM h sfc) s = TLDE_DATA_Confirm (ucast h) sfc s"
| "tl_event cfg now (TL_INDICATION adr sp prio data dp tt tx sec) s = TLDE_DATA_Indication cfg now adr sp prio data dp tt tx sec s"

definition hand_up :: "asl_config \<Rightarrow> u32 \<Rightarrow> device \<Rightarrow> device" where
  "hand_up cfg now d = d\<lparr>dv_asl := fold (tl_event cfg now) (tl_events (dv_tl d)) (dv_asl d), dv_tl := (dv_tl d)\<lparr>tl_events := []\<rparr>\<rparr>"

text \<open>A TSDU of the application sublayer on its way down, and a packet on its way up.\<close>

definition send_tsdu :: "nl_env \<Rightarrow> asl_config \<Rightarrow> TL_REQUEST \<Rightarrow> device \<Rightarrow> device option" where
  "send_tsdu env cfg r d =
     (case lock (rq_contract r) (dv_asl d) of
        None \<Rightarrow> None
      | Some c \<Rightarrow>
          map_option (\<lambda>t. hand_up cfg (tl_now env) (hand_down env (d\<lparr>dv_tl := t\<rparr>)))
            (TLDE_DATA_Request (tl_env.truncate env) None c (rq_priority r) (rq_data r) (ucast (rq_handle r))
               (rq_src r) (rq_dst r) (rq_encrypt r) (dv_tl d)))"

definition receive_packet :: "nl_env \<Rightarrow> asl_config \<Rightarrow> (nl_state \<Rightarrow> nl_state \<times> bool) \<Rightarrow> u8 list \<Rightarrow> device \<Rightarrow> device option" where
  "receive_packet env cfg sniffer octets d =
     map_option (\<lambda>s. hand_up cfg (tl_now env) (d\<lparr>dv_tl := g_stTlde s, dv_out := nl_outputs s\<rparr>)) (RecvUDP env sniffer octets (nl_view d))"

section \<open>One datagram\<close>

lemma truncate_fields [simp]:
  "tl_address (tl_env.truncate a) = tl_address a" "tl_now (tl_env.truncate a) = tl_now a" "tl_EUI64 (tl_env.truncate a) = tl_EUI64 a"
  "tl_cipher (tl_env.truncate a) = tl_cipher a"
  by (simp_all add: tl_env.defs)

text \<open>The transport layer always sends when it has the key it needs.\<close>

lemma request_goes_out:
  assumes "must_encrypt allow (g_stSlme s) \<Longrightarrow> fst (tx_key a (m_aDestAddress c) sp dp allow (g_stSlme s)) \<noteq> None"
    and "length (tl_address a) = 16" and "length (m_aDestAddress c) = 16" and "length (tl_EUI64 a) = 8" and "length data \<le> 65000"
  shows "\<exists>s' rq. TLDE_DATA_Request a None c prio data h sp dp allow s = Some s' \<and> nl_requests s' = nl_requests s @ [rq] \<and>
    tl_events s' = tl_events s \<and> nl_dst rq = m_aDestAddress c \<and> nl_contract rq = c \<and> nl_priority rq = prio"
proof -
  obtain key n where k: "tx_key a (m_aDestAddress c) sp dp allow (g_stSlme s) = (key, n)" by (metis prod.collapse)
  note e = encrypt_sealed [OF assms(2-4) length_security assms(5), of sp dp key n "time_and_counter a" "g_ucMsgIncrement s + 1"]
  show ?thesis
    using assms(1) e k by (cases key) (auto simp: TLDE_DATA_Request_def Let_def in_tlme_def)
qed

lemma packet_length:
  assumes "TLDE_DATA_Request a None c prio data h sp dp allow s = Some s'" and "nl_requests s' = nl_requests s @ [rq]"
    and "length (tl_address a) = 16" and "length (m_aDestAddress c) = 16" and "length (tl_EUI64 a) = 8" and "length data \<le> 65000"
  shows "8 < length (nl_header rq @ nl_data rq)" and "length (nl_header rq @ nl_data rq) \<le> length data + 16"
    and "mem_bytes (mem_of (nl_header rq @ nl_data rq)) 0 4 = DMAP_InsertUint16 (udp_port sp) @ DMAP_InsertUint16 (udp_port dp)"
proof -
  let ?w = "nl_header rq @ nl_data rq"
  obtain key n where k: "?w = (let security = security_header key n (time_and_counter a) (g_ucMsgIncrement s + 1) in
      datagram a (m_aDestAddress c) sp dp security
        (case key of None \<Rightarrow> data | Some k \<Rightarrow> sealed a (m_aDestAddress c) sp dp security (SLME_KEY.m_aKey k) data))"
    using request_sends [OF assms] by blast
  let ?S = "security_header key n (time_and_counter a) (g_ucMsgIncrement s + 1)"
  let ?P = "case key of None \<Rightarrow> data | Some k \<Rightarrow> sealed a (m_aDestAddress c) sp dp ?S (SLME_KEY.m_aKey k) data"
  have w: "?w = datagram a (m_aDestAddress c) sp dp ?S ?P" using k by (simp only: Let_def)
  have P: "length ?P \<le> length data + 4" by (auto simp: sealed_def Let_def length_ccm_seal split: option.splits)
  have S: "length ?S = 3 \<or> length ?S = 4" by (rule length_security)
  show "8 < length ?w" using S by (auto simp: w length_datagram)
  show "length ?w \<le> length data + 16" using S P by (auto simp: w length_datagram)
  have four: "(4 :: nat) = 2 + 2" by simp
  show "mem_bytes (mem_of ?w) 0 4 = DMAP_InsertUint16 (udp_port sp) @ DMAP_InsertUint16 (udp_port dp)"
    unfolding four mem_bytes_add add_0 datagram_octets(1,2) [of a "m_aDestAddress c" sp dp ?S ?P, folded w] port_octets ..
qed

lemma duplicate_key_ports:
  "mem_bytes p 0 4 = mem_bytes p' 0 4 \<Longrightarrow> duplicate_key tc counter adr t p = duplicate_key tc counter adr t p'"
  by (simp add: duplicate_key_def)

lemma hand_up_out [simp]: "dv_out (hand_up cfg now d) = dv_out d"
  by (simp add: hand_up_def)

lemma hand_down_single:
  "nl_requests (dv_tl d) = [rq] \<Longrightarrow>
    dv_out (hand_down env d) = nl_outputs (NLDE_DATA_RequestMemOptimzed env rq (nl_view (d\<lparr>dv_tl := (dv_tl d)\<lparr>nl_requests := []\<rparr>\<rparr>)))"
  by (simp add: hand_down_def Let_def)

text \<open>What the peer knows of the way of a datagram: routes, addresses, sessions and the history.\<close>

definition connected :: "nl_env \<Rightarrow> nl_env \<Rightarrow> (nl_env \<times> nl_state) list \<Rightarrow> NLME_CONTRACT_ATTRIBUTES \<Rightarrow> NLME_ROUTE_ATTRIBUTES \<Rightarrow> TL_REQUEST \<Rightarrow> device \<Rightarrow> bool" where
  "connected a b ns c r rq da \<longleftrightarrow>
     FindRouteHelper (m_aDestAddress c) (nl_view da) = Some r \<and> m_bOutgoingInterface r = OutgoingInterfaceBBR \<and>
     length ns < unat (m_ucNWK_HopLimit r) \<and> tl_address b = m_aDestAddress c \<and> g_nDeviceType b \<noteq> DEVICE_TYPE_BBR \<and>
     list_all (\<lambda>n. tl_address (fst n) \<noteq> tl_address a \<and> tl_address (fst n) \<noteq> m_aDestAddress c \<and>
       (case FindRouteHelper (m_aDestAddress c) (snd n) of None \<Rightarrow> False
        | Some r' \<Rightarrow> m_bOutgoingInterface r' = OutgoingInterfaceBBR \<and> m_ucNWK_HopLimit r \<le> m_ucNWK_HopLimit r')) ns"

definition trusted :: "nl_env \<Rightarrow> nl_env \<Rightarrow> TL_REQUEST \<Rightarrow> device \<Rightarrow> device \<Rightarrow> bool" where
  "trusted a b rq da db \<longleftrightarrow>
     tl_cipher b = tl_cipher a \<and> length (tl_address a) = 16 \<and> length (tl_address b) = 16 \<and> length (tl_EUI64 a) = 8 \<and>
     unat (rq_src rq) < 16 \<and> unat (rq_dst rq) < 16 \<and> clocks_ok (tl_env.truncate a) (tl_env.truncate b) \<and>
     session_shared (tl_env.truncate a) (tl_env.truncate b) (rq_src rq) (rq_dst rq) (rq_encrypt rq) (g_stSlme (dv_tl da)) (g_stSlme (dv_tl db)) \<and>
     (must_encrypt (rq_encrypt rq) (g_stSlme (dv_tl da)) \<longrightarrow>
        fst (tx_key (tl_env.truncate a) (tl_address b) (rq_src rq) (rq_dst rq) (rq_encrypt rq) (g_stSlme (dv_tl da))) \<noteq> None)"

definition not_in_history :: "tl_env \<Rightarrow> tl_env \<Rightarrow> TL_REQUEST \<Rightarrow> device \<Rightarrow> device \<Rightarrow> bool" where
  "not_in_history a b rq da db \<longleftrightarrow>
     (\<exists>d. TLDE_IsDuplicate (duplicate_key (time_and_counter a) (g_ucMsgIncrement (dv_tl da) + 1) (tl_address a) (history_time a b)
           (mem_of (DMAP_InsertUint16 (udp_port (rq_src rq)) @ DMAP_InsertUint16 (udp_port (rq_dst rq)))))
        (history_time a b) (g_oDuplicates (dv_tl db)) = Some (d, 0))"

lemma connected_path:
  assumes "connected a b ns c r rq da" and "nl_dst nrq = m_aDestAddress c"
  shows "list_all (passes_on (with_hops (m_ucNWK_HopLimit r) (nl_packet a nrq))) ns"
  using assms by (auto simp: connected_def passes_on_def stranger_def nl_packet_def Let_def list_all_iff split: option.splits)

text \<open>The packet that carries a TSDU, on the wire and at the destination.\<close>

lemma tsdu_arrives:
  fixes a b ns c r rq da db
  assumes contract: "lock (rq_contract rq) (dv_asl da) = Some c" "length (rq_data rq) + 16 \<le> unat (m_unAssignedMaxNSDUSize c)"
      "rq_data rq \<noteq> []" "length (rq_data rq) \<le> 65000"
    and idle: "nl_requests (dv_tl da) = []" "tl_events (dv_tl da) = []" "tl_events (dv_tl db) = []"
    and way: "connected a b ns c r rq da" and trust: "trusted a b rq da db"
    and fresh: "not_in_history (tl_env.truncate a) (tl_env.truncate b) rq da db"
  shows "\<exists>da' db' w w' prio tt tx sec. send_tsdu a cfg rq da = Some da'
    \<and> dv_out da' = dv_out da @ [UDP_SEND (cExtractIPv4IP (m_aNextHopAddress r)) (cExtractIPv4Port (m_aNextHopAddress r)) w]
    \<and> relay ns w = Some w' \<and> receive_packet b cfg' sniffer w' db = Some db'
    \<and> dv_asl db' = TLDE_DATA_Indication cfg' (tl_now b) (tl_address a) (rq_src rq) prio (rq_data rq) (rq_dst rq) tt tx sec (dv_asl db)"
proof -
  let ?ta = "tl_env.truncate a" and ?tb = "tl_env.truncate b"
  have dst: "length (m_aDestAddress c) = 16" "tl_address b = m_aDestAddress c" using way trust by (auto simp: connected_def trusted_def)
  obtain s' nrq where s': "TLDE_DATA_Request ?ta None c (rq_priority rq) (rq_data rq) (ucast (rq_handle rq)) (rq_src rq) (rq_dst rq) (rq_encrypt rq) (dv_tl da) = Some s'"
      "nl_requests s' = nl_requests (dv_tl da) @ [nrq]" "tl_events s' = tl_events (dv_tl da)"
      "nl_dst nrq = m_aDestAddress c" "nl_contract nrq = c"
    using request_goes_out [of "rq_encrypt rq" "dv_tl da" ?ta c "rq_src rq" "rq_dst rq" "rq_data rq" "rq_priority rq" "ucast (rq_handle rq)"] trust dst contract(4)
    by (auto simp: trusted_def)
  let ?pay = "nl_header nrq @ nl_data nrq"
  have tr: "length (tl_address ?ta) = 16" "length (tl_EUI64 ?ta) = 8" using trust by (simp_all add: trusted_def)
  note len = packet_length [OF s'(1,2) tr(1) dst(1) tr(2) contract(4)]
  let ?d = "da\<lparr>dv_tl := s'\<rparr>"
  let ?v = "nl_view (?d\<lparr>dv_tl := (dv_tl ?d)\<lparr>nl_requests := []\<rparr>\<rparr>)"
  have route: "FindRouteHelper (nl_dst nrq) ?v = Some r" "nl_outputs ?v = dv_out da"
    using way s'(4) by (simp_all add: connected_def FindRouteHelper_def nl_view_def nl_state.make_def)
  obtain w w' where w: "nl_outputs (NLDE_DATA_RequestMemOptimzed a nrq ?v) = nl_outputs ?v @
        [UDP_SEND (cExtractIPv4IP (m_aNextHopAddress r)) (cExtractIPv4Port (m_aNextHopAddress r)) w]"
      "relay ns w = Some w'"
      "RecvUDP b sniffer w' (nl_view db) = map_option (\<lambda>t. (nl_view db)\<lparr>g_stTlde := t\<rparr>)
        (NLDE_DATA_Indication ?tb (tl_address a) (of_nat (length ?pay)) (mem_of ?pay)
          ((3 AND nl_priority nrq) OR (push_bit 2 (NLME_CONTRACT_ATTRIBUTES.m_bPriority c) AND 0x0C)) (dv_tl db))"
    using packet_arrives [of a nrq ?v r ns b sniffer "nl_view db"] len(1,2) contract(2) way trust dst s'(4,5) route connected_path [OF way s'(4)]
    by (auto simp: connected_def trusted_def nl_view_def nl_state.make_def)
  let ?ports = "DMAP_InsertUint16 (udp_port (rq_src rq)) @ DMAP_InsertUint16 (udp_port (rq_dst rq))"
  have "length ?ports = 4" by (simp add: DMAP_InsertUint16_def)
  then have "mem_bytes (mem_of ?pay) 0 4 = mem_bytes (mem_of ?ports) 0 4"
    using holds_mem_of [of ?ports] unfolding len(3) by (metis holds_iff_mem_bytes)
  note key = duplicate_key_ports [OF this]
  obtain d where "TLDE_IsDuplicate (duplicate_key (time_and_counter ?ta) (g_ucMsgIncrement (dv_tl da) + 1) (tl_address ?ta) (history_time ?ta ?tb) (mem_of ?pay))
      (history_time ?ta ?tb) (g_oDuplicates (dv_tl db)) = Some (d, 0)"
    using fresh unfolding not_in_history_def key by blast
  note acc = datagram_accepted [OF s'(1,2) _ _ _ _ _ contract(3,4) _ _ _ _ this]
  obtain tb where tb: "NLDE_DATA_Indication ?tb (tl_address a) (of_nat (length ?pay)) (mem_of ?pay)
        ((3 AND nl_priority nrq) OR (push_bit 2 (NLME_CONTRACT_ATTRIBUTES.m_bPriority c) AND 0x0C)) (dv_tl db) = Some tb"
      "\<exists>prio tt tx sec. tl_events tb = [TL_INDICATION (tl_address a) (rq_src rq) prio (rq_data rq) (rq_dst rq) tt tx sec]"
    using acc [of "(3 AND nl_priority nrq) OR (push_bit 2 (NLME_CONTRACT_ATTRIBUTES.m_bPriority c) AND 0x0C)"] trust dst idle(3)
    by (auto simp: trusted_def)
  from tb(2) obtain prio tt tx sec where ev: "tl_events tb = [TL_INDICATION (tl_address a) (rq_src rq) prio (rq_data rq) (rq_dst rq) tt tx sec]" by blast
  have "send_tsdu a cfg rq da = Some (hand_up cfg (tl_now a) (hand_down a ?d))"
    using contract(1) s'(1) by (simp add: send_tsdu_def)
  moreover have "dv_out (hand_up cfg (tl_now a) (hand_down a ?d)) = dv_out da @
      [UDP_SEND (cExtractIPv4IP (m_aNextHopAddress r)) (cExtractIPv4Port (m_aNextHopAddress r)) w]"
    using w(1) route(2) s'(2) idle(1) hand_down_single [of ?d nrq a] by simp
  moreover have "\<exists>db'. receive_packet b cfg' sniffer w' db = Some db' \<and>
      dv_asl db' = TLDE_DATA_Indication cfg' (tl_now b) (tl_address a) (rq_src rq) prio (rq_data rq) (rq_dst rq) tt tx sec (dv_asl db)"
    using w(3) tb(1) ev by (simp add: receive_packet_def hand_up_def)
  ultimately show ?thesis using w(2) by blast
qed

section \<open>The received APDU\<close>

definition no_apdu_waiting :: "u8 \<Rightarrow> asl_state \<Rightarrow> bool" where
  "no_apdu_waiting sap s \<longleftrightarrow> list_all (\<lambda>x. \<not> (APDU_IDTF.m_ucDstTSAPID (m_stApduIdtf x) = sap \<and>
     CAslRxMsg.m_ucStatus x = APDU_NOT_PROCESSED)) (g_oAslMsgListRx s)"

lemma extract_last:
  assumes "list_all (\<lambda>x. \<not> P x) xs" and "P y"
  shows "List.extract P (xs @ [y]) = Some (xs, y, [])"
proof -
  have "dropWhile (Not \<circ> P) (xs @ [y]) = [y]" "takeWhile (Not \<circ> P) (xs @ [y]) = xs"
    using assms by (induction xs) auto
  then show ?thesis by (simp add: List.extract_def)
qed

lemma indication_is_next:
  assumes "no_apdu_waiting dp s" and "3 \<le> length data" and "length data < 65536"
  shows "\<exists>idtf. snd (ASLDE_GetMyAPDUfromBuff dp (TLDE_DATA_Indication cfg now adr sp prio data dp tt tx sec s)) = Some (idtf, data)
    \<and> m_aucAddr idtf = adr \<and> APDU_IDTF.m_ucSrcTSAPID idtf = sp \<and> unat (m_unDataLen idtf) = length data"
proof -
  have "unat (word_of_nat (length data) :: u16) = length data" using assms(3) by (intro unat_of_nat_u16) simp
  moreover have "\<exists>msg. g_oAslMsgListRx (TLDE_DATA_Indication cfg now adr sp prio data dp tt tx sec s) = g_oAslMsgListRx s @ [msg] \<and>
      m_stApduIdtf msg = \<lparr>m_aucAddr = adr, m_ucSrcTSAPID = sp, m_ucDstTSAPID = dp, m_ucPriorityAndFlags = prio, m_ucTransportTime = tt,
        m_ucSecurityCtrl = sec, m_unDataLen = word_of_nat (length data), m_tvTxTime = tx\<rparr> \<and> CAslRxMsg.m_ucStatus msg = APDU_NOT_PROCESSED \<and> m_oVecData msg = data"
    using assms(2) by (simp add: TLDE_DATA_Indication_def Let_def)
  ultimately show ?thesis
    using assms(1) unfolding ASLDE_GetMyAPDUfromBuff_def no_apdu_waiting_def
    by (auto simp: extract_last)
qed

end
