(* ===== verification/Dmo.thy ===== *)
theory Dmo
  imports Slme_Dsmo Std_Map Stack
begin

text \<open>
  The device management object (\<^verbatim>\<open>dmap_dmo.cpp\<close>): the contract table the system manager writes, the requests for new contracts
  that wait for a session key or for the answer of the system manager, the answers, the time-outs and the tasks of every second.

  A contract object belongs to one map at a time, so the maps hold the objects themselves. \<open>dmo_env\<close> holds what the code gets from
  elsewhere: the environment of the security layer, \<^verbatim>\<open>random()\<close>, \<^verbatim>\<open>rand() >> 8\<close>, and the contents of fresh objects and
  of an uninitialized local. Calls into the application processes and the alert object are recorded in order in \<open>dmo_events\<close>.
\<close>

unbundle bit_operations_syntax

abbreviation (input) SFC_INCOMPATIBLE_ATTRIBUTE :: u8 where "SFC_INCOMPATIBLE_ATTRIBUTE \<equiv> 15"
abbreviation (input) SFC_DEVICE_SOFTWARE_CONDITION :: u8 where "SFC_DEVICE_SOFTWARE_CONDITION \<equiv> 24"
abbreviation (input) SFC_DUPLICATE :: u8 where "SFC_DUPLICATE \<equiv> 131"
abbreviation (input) SRVC_PERIODIC_COMM :: u8 where "SRVC_PERIODIC_COMM \<equiv> 0"
abbreviation (input) SRVC_APERIODIC_COMM :: u8 where "SRVC_APERIODIC_COMM \<equiv> 1"
abbreviation (input) ANY_SERVICE_TYPE :: u8 where "ANY_SERVICE_TYPE \<equiv> 255"
abbreviation (input) CONTRACT_RSP_OK :: u8 where "CONTRACT_RSP_OK \<equiv> 0"
abbreviation (input) CONTRACT_PENDING_NO_KEY :: u8 where "CONTRACT_PENDING_NO_KEY \<equiv> 7"
abbreviation (input) CONTRACT_PENDING :: u8 where "CONTRACT_PENDING \<equiv> 8"
abbreviation (input) CONTRACT_PENDING_FAILED :: u8 where "CONTRACT_PENDING_FAILED \<equiv> 9"
abbreviation (input) CONTRACT_REQ_TYPE_NEW :: u8 where "CONTRACT_REQ_TYPE_NEW \<equiv> 0"
abbreviation (input) DMO_CONTRACT_BUF_SIZE :: nat where "DMO_CONTRACT_BUF_SIZE \<equiv> 41"
abbreviation (input) DMO_CONTRACT_TABLE :: u16 where "DMO_CONTRACT_TABLE \<equiv> 26"
abbreviation (input) DMO_TERMINATE_CONTRACT :: u8 where "DMO_TERMINATE_CONTRACT \<equiv> 1"
abbreviation (input) DMO_MODIFY_CONTRACT :: u8 where "DMO_MODIFY_CONTRACT \<equiv> 2"
abbreviation (input) ISA100_DMAP_PORT :: u16 where "ISA100_DMAP_PORT \<equiv> 0xF0B0"
abbreviation (input) ISA100_SMAP_PORT :: u16 where "ISA100_SMAP_PORT \<equiv> 0xF0B1"
abbreviation (input) DMAP_DMO_OBJ_ID :: u16 where "DMAP_DMO_OBJ_ID \<equiv> 1"
abbreviation (input) SM_SCO_OBJ_ID :: u16 where "SM_SCO_OBJ_ID \<equiv> 3"
abbreviation (input) SCO_REQ_CONTRACT :: u8 where "SCO_REQ_CONTRACT \<equiv> 1"
abbreviation (input) SCO_TERMINATE_CONTRACT :: u8 where "SCO_TERMINATE_CONTRACT \<equiv> 2"
abbreviation (input) JOIN_CONTRACT_ID :: u16 where "JOIN_CONTRACT_ID \<equiv> 1"
abbreviation (input) MAX_DATAGRAM_SIZE :: u16 where "MAX_DATAGRAM_SIZE \<equiv> 65467"
abbreviation (input) DEVICE_SEND_SEC_CONFIRM_REQ :: u8 where "DEVICE_SEND_SEC_CONFIRM_REQ \<equiv> 11"
abbreviation (input) DEVICE_JOINED :: u8 where "DEVICE_JOINED \<equiv> 13"

section \<open>State\<close>

record DMO_ATTRIBUTES =
  m_unRestartCount :: u16
  m_aucTagName :: "u8 list"
  m_ulNextDriftTAI :: u32
  m_unCrtUTCDrift :: u16
  m_unNextUTCDrift :: u16
  m_ulUsedDevMem :: u32
  m_auc128BitAddr :: ipv6
  m_aucSysMng128BitAddr :: ipv6
  m_ulUptime :: u32
  m_unShortAddr :: u16
  m_unSysMngShortAddr :: u16
  m_unSysMngEUI64 :: "u8 list"
  m_unAssignedDevRole :: u16
  m_ucPWRStatus :: u8
  m_ucDMAPState :: u8
  m_unStaticRevLevel :: u16
  m_unContractReqTimeout :: u16
  m_unMaxRetryToutInterval :: u16
  m_unWarmRestartAttemptTout :: u16
  m_ucMaxClntSrvRetries :: u8
  m_ucJoinCommand :: u8
  m_stPwrAlertDescriptor :: APP_ALERT_DESCRIPTOR

datatype DMO_EVENT =
    UAP_NotifyAddContract DMO_CONTRACT_ATTRIBUTE
  | UAP_NotifyContractDeletion u16
  | UAP_NotifyContractFailure DMO_CONTRACT_ATTRIBUTE
  | ARMO_CONTRACT_ADDED DMO_CONTRACT_ATTRIBUTE
  | ARMO_ALERT raised_alert
  | DPO_ResetToDefault
  | DMAP_DLMO_ResetStack

record dmo_env =
  sl_env :: slme_env
  new_nl_contract :: NLME_CONTRACT_ATTRIBUTES
  new_contract :: DMO_CONTRACT_ATTRIBUTE
  random_octet :: u8
  rand_octet :: u8
  local_octet :: u8

type_synonym contract_map = "(u16 \<times> DMO_CONTRACT_ATTRIBUTE) list"
type_synonym pending_map = "(u8 \<times> DMO_CONTRACT_ATTRIBUTE) list"

record dmo_state =
  g_stDMO :: DMO_ATTRIBUTES
  g_oDmoContractsMap :: contract_map
  g_oPendingContractRspMap :: pending_map
  g_ucContractRspPending :: u8
  s_ucContractReqID :: u8
  ucLastPwrStatus :: u8
  g_unSysMngContractID :: u16
  g_ucJoinStatus :: u8
  g_unAppHandle :: u16
  dm_asl :: asl_state
  dm_slme :: slme_state
  dmo_events :: "DMO_EVENT list"

abbreviation "now_of env \<equiv> crt_tai (sl_env env)"

definition tell :: "DMO_EVENT list \<Rightarrow> dmo_state \<Rightarrow> dmo_state" where
  "tell es s = s\<lparr>dmo_events := dmo_events s @ es\<rparr>"

definition in_nlme :: "(NLME_ATRIBUTES \<Rightarrow> NLME_ATRIBUTES) \<Rightarrow> dmo_state \<Rightarrow> dmo_state" where
  "in_nlme f s = s\<lparr>dm_asl := asl_state.g_stNlme_update f (dm_asl s)\<rparr>"

text \<open>The configuration the application sublayer reads: the retries, the addresses and the contract are those of this object.\<close>

definition current_cfg :: "dmo_env \<Rightarrow> dmo_state \<Rightarrow> asl_config" where
  "current_cfg env s = (asl_cfg (sl_env env))\<lparr>g_ucDmapMaxRetry := m_ucMaxClntSrvRetries (g_stDMO s),
     g_unDmapRetryTout := m_unMaxRetryToutInterval (g_stDMO s),
     asl_config.m_aucSysMng128BitAddr := DMO_ATTRIBUTES.m_aucSysMng128BitAddr (g_stDMO s),
     asl_config.g_unSysMngContractID := g_unSysMngContractID s\<rparr>"

section \<open>Rows of the contract table\<close>

definition DMO_ExtractBandwidthInfo :: "u8 \<Rightarrow> DMO_CONTRACT_BANDWIDTH reader" where
  "DMO_ExtractBandwidthInfo p_ucServiceType m p b =
     (let (v, p) = DMAP_ExtractUint16 m p; b = b\<lparr>DMO_CONTRACT_BANDWIDTH.m_nComittedBurst := v\<rparr> in
      if p_ucServiceType = SRVC_PERIODIC_COMM
      then let b = b\<lparr>DMO_CONTRACT_BANDWIDTH.m_ucMaxSendWindow := m p\<rparr>; (d, p) = DMAP_ExtractUint16 m (p + 1)
           in (b\<lparr>DMO_CONTRACT_BANDWIDTH.m_nExcessBurst := d\<rparr>, p)
      else let (e, p) = DMAP_ExtractUint16 m p
           in (b\<lparr>DMO_CONTRACT_BANDWIDTH.m_nExcessBurst := e, DMO_CONTRACT_BANDWIDTH.m_ucMaxSendWindow := m p\<rparr>, p + 1))"

definition DMO_InsertBandwidthInfo :: "DMO_CONTRACT_BANDWIDTH \<Rightarrow> u8 \<Rightarrow> u8 list" where
  "DMO_InsertBandwidthInfo b p_ucServiceType =
     DMAP_InsertUint16 (DMO_CONTRACT_BANDWIDTH.m_nComittedBurst b) @
     (if p_ucServiceType = SRVC_PERIODIC_COMM
      then [DMO_CONTRACT_BANDWIDTH.m_ucMaxSendWindow b] @ DMAP_InsertUint16 (DMO_CONTRACT_BANDWIDTH.m_nExcessBurst b)
      else DMAP_InsertUint16 (DMO_CONTRACT_BANDWIDTH.m_nExcessBurst b) @ [DMO_CONTRACT_BANDWIDTH.m_ucMaxSendWindow b])"

definition read_bandwidth :: "DMO_CONTRACT_ATTRIBUTE reader" where
  "read_bandwidth m p c =
     (let (b, p) = DMO_ExtractBandwidthInfo (m_ucServiceType c) m p (m_stBandwidth c) in (c\<lparr>m_stBandwidth := b\<rparr>, p))"

definition read_dst_address :: "DMO_CONTRACT_ATTRIBUTE reader" where
  "read_dst_address m p c = (c\<lparr>m_aDstAddr128 := mem_bytes m p 16\<rparr>, p + 16)"

definition DMO_parseContract :: "mem \<Rightarrow> addr \<Rightarrow> DMO_CONTRACT_ATTRIBUTE \<Rightarrow> DMO_CONTRACT_ATTRIBUTE" where
  "DMO_parseContract m p c = fst (read_fields
     [read_u16 (\<lambda>v c. c\<lparr>DMO_CONTRACT_ATTRIBUTE.m_unContractID := v\<rparr>),
      read_u8 (\<lambda>v c. c\<lparr>m_ucContractStatus := v\<rparr>),
      read_u8 (\<lambda>v c. c\<lparr>m_ucServiceType := v\<rparr>),
      read_u32 (\<lambda>v c. c\<lparr>m_ulActivationTAI := v\<rparr>),
      read_u16 (\<lambda>v c. c\<lparr>m_unSrcTLPort := v\<rparr>),
      read_dst_address,
      read_u16 (\<lambda>v c. c\<lparr>m_unDstTLPort := v\<rparr>),
      read_u32 (\<lambda>v c. c\<lparr>m_ulAssignedExpTime := v\<rparr>),
      read_u8 (\<lambda>v c. c\<lparr>DMO_CONTRACT_ATTRIBUTE.m_ucPriority := v\<rparr>),
      read_u16 (\<lambda>v c. c\<lparr>DMO_CONTRACT_ATTRIBUTE.m_unAssignedMaxNSDUSize := v\<rparr>),
      read_u8 (\<lambda>v c. c\<lparr>m_ucReliability := v\<rparr>),
      read_bandwidth] m p c)"

definition contract_row :: "DMO_CONTRACT_ATTRIBUTE \<Rightarrow> u8 list" where
  "contract_row c =
     DMAP_InsertUint16 (DMO_CONTRACT_ATTRIBUTE.m_unContractID c) @ [m_ucContractStatus c] @ [m_ucServiceType c]
     @ DMAP_InsertUint32 (m_ulActivationTAI c) @ DMAP_InsertUint16 (m_unSrcTLPort c) @ m_aDstAddr128 c
     @ DMAP_InsertUint16 (m_unDstTLPort c) @ DMAP_InsertUint32 (m_ulAssignedExpTime c)
     @ [DMO_CONTRACT_ATTRIBUTE.m_ucPriority c] @ DMAP_InsertUint16 (DMO_CONTRACT_ATTRIBUTE.m_unAssignedMaxNSDUSize c)
     @ [m_ucReliability c] @ DMO_InsertBandwidthInfo (m_stBandwidth c) (m_ucServiceType c)"

text \<open>The feedback code and, on success, the octets put into the buffer and their number.\<close>

definition DMO_binarizeContract :: "DMO_CONTRACT_ATTRIBUTE \<Rightarrow> u16 \<Rightarrow> u8 \<times> (u8 list \<times> u16) option" where
  "DMO_binarizeContract c p_unBufLen =
     (if unat p_unBufLen < DMO_CONTRACT_BUF_SIZE then (SFC_DEVICE_SOFTWARE_CONDITION, None)
      else (SFC_SUCCESS, Some (contract_row c, of_nat (length (contract_row c)))))"

section \<open>The contract table\<close>

definition DMO_FindContract :: "u16 \<Rightarrow> dmo_state \<Rightarrow> DMO_CONTRACT_ATTRIBUTE option" where
  "DMO_FindContract cid s = map_of (g_oDmoContractsMap s) cid"

definition DMO_deleteContract :: "u16 \<Rightarrow> dmo_state \<Rightarrow> dmo_state \<times> u8" where
  "DMO_deleteContract cid s =
     (case map_of (g_oDmoContractsMap s) cid of
        None \<Rightarrow> (s, SFC_INVALID_ELEMENT_INDEX)
      | Some c \<Rightarrow>
          (in_nlme (\<lambda>n. fst (NLME_DeleteContract cid n))
             (tell [UAP_NotifyContractDeletion cid]
               (s\<lparr>g_oDmoContractsMap := map_erase cid (g_oDmoContractsMap s)\<rparr>)), SFC_SUCCESS))"

definition DMO_setContract :: "dmo_env \<Rightarrow> u16 \<Rightarrow> mem \<Rightarrow> addr \<Rightarrow> u8 \<Rightarrow> dmo_state \<Rightarrow> dmo_state \<times> u8" where
  "DMO_setContract env p_unDeleteIndex m p_pData p_ucDataLen s =
     (if unat p_ucDataLen < DMO_CONTRACT_BUF_SIZE then (s, SFC_INVALID_SIZE)
      else
        let unIndex = DMAP_WriteUint16 m p_pData;
            s = (if p_unDeleteIndex \<noteq> unIndex then fst (DMO_deleteContract p_unDeleteIndex s) else s);
            old = DMO_FindContract unIndex s
        in if old = None \<and> MAX_CONTRACT_NO \<le> length (g_oDmoContractsMap s) then (s, SFC_INSUFFICIENT_DEVICE_RESOURCES)
           else
             let c = (case old of None \<Rightarrow> (new_contract env)\<lparr>m_nUsageCount := 0\<rparr> | Some c \<Rightarrow> c);
                 c = DMO_parseContract m p_pData c;
                 s = tell [UAP_NotifyAddContract c] (s\<lparr>g_oDmoContractsMap := map_put unIndex c (g_oDmoContractsMap s)\<rparr>)
             in (in_nlme (\<lambda>n. fst (NLME_AddDmoContract (new_nl_contract env) (random_octet env) c n)) s, SFC_SUCCESS))"

definition matches :: "ipv6 \<Rightarrow> u16 \<Rightarrow> u16 \<Rightarrow> DMO_CONTRACT_ATTRIBUTE \<Rightarrow> bool" where
  "matches p_pDstAddr128 p_unDstTLPort p_unSrcTLPort c \<longleftrightarrow>
     m_unDstTLPort c = p_unDstTLPort \<and> m_unSrcTLPort c = p_unSrcTLPort \<and> m_aDstAddr128 c = p_pDstAddr128"

definition DMO_GetContract :: "ipv6 \<Rightarrow> u16 \<Rightarrow> u16 \<Rightarrow> u8 \<Rightarrow> dmo_state \<Rightarrow> DMO_CONTRACT_ATTRIBUTE option" where
  "DMO_GetContract p_pDstAddr128 p_unDstTLPort p_unSrcTLPort p_ucSrvcType s =
     find (\<lambda>c. m_ucServiceType c = p_ucSrvcType \<and> matches p_pDstAddr128 p_unDstTLPort p_unSrcTLPort c)
       (map snd (g_oDmoContractsMap s))"

text \<open>
  \<^verbatim>\<open>DMO_Execute\<close>. The cut-over time is assembled from the first four octets of the request, which are those of the
  attribute identifier, and then handed to an operation that does not look at it.
\<close>

definition DMO_Execute :: "dmo_env \<Rightarrow> u8 \<Rightarrow> u8 \<Rightarrow> mem \<Rightarrow> dmo_state \<Rightarrow> dmo_state \<times> u8" where
  "DMO_Execute env p_ucMethodID p_ucReqLen req s =
     (if p_ucMethodID = DMO_MODIFY_CONTRACT \<or> p_ucMethodID = DMO_TERMINATE_CONTRACT
      then if p_ucReqLen < 6 then (s, SFC_INVALID_SIZE)
        else if DMAP_WriteUint16 req 0 \<noteq> DMO_CONTRACT_TABLE then (s, SFC_INCOMPATIBLE_ATTRIBUTE)
        else if p_ucMethodID = DMO_MODIFY_CONTRACT
        then if p_ucReqLen - 6 < 2 then (s, SFC_INVALID_SIZE)
             else DMO_setContract env (DMAP_WriteUint16 req 6) req 8 (p_ucReqLen - 6 - 2) s
        else if p_ucReqLen - 6 \<noteq> 2 then (s, SFC_INVALID_SIZE)
             else DMO_deleteContract (DMAP_WriteUint16 req 6) s
      else (s, SFC_INVALID_METHOD))"

definition DMO_Read_contract :: "u16 \<Rightarrow> u16 \<Rightarrow> dmo_state \<Rightarrow> u8 \<times> (u8 list \<times> u16) option" where
  "DMO_Read_contract p_unIndex1 p_unBufLen s =
     (case DMO_FindContract p_unIndex1 s of
        None \<Rightarrow> (SFC_INVALID_ELEMENT_INDEX, Some ([], 0))
      | Some c \<Rightarrow> DMO_binarizeContract c p_unBufLen)"

section \<open>Rows are what was written\<close>

lemma insert_extract:
  "DMAP_InsertUint16 (fst (DMAP_ExtractUint16 m p)) = mem_bytes m p 2"
  "DMAP_InsertUint32 (fst (DMAP_ExtractUint32 m p)) = mem_bytes m p 4"
  by (simp_all only: DMAP_InsertUint16_def DMAP_ExtractUint16_def DMAP_InsertUint32_def DMAP_ExtractUint32_def fst_conv
      split_join_u16 split_join_u32) (simp_all add: mem_bytes_def upt_rec numeral_eq_Suc)

lemma extract_next [simp]: "snd (DMAP_ExtractUint16 m p) = p + 2" "snd (DMAP_ExtractUint32 m p) = p + 4"
  by (simp_all add: DMAP_ExtractUint16_def DMAP_ExtractUint32_def)

lemma extract_index: "fst (DMAP_ExtractUint16 m p) = DMAP_WriteUint16 m p"
  by (simp add: DMAP_ExtractUint16_def DMAP_WriteUint16_def)

lemma mem_bytes_1: "mem_bytes m p (Suc 0) = [m p]"
  by (simp add: mem_bytes_def)

lemma mem_bytes_split: "a + n = b \<Longrightarrow> mem_bytes m a n @ mem_bytes m b k = mem_bytes m a (n + k)"
  "a + n = b \<Longrightarrow> mem_bytes m a n @ mem_bytes m b k @ bs = mem_bytes m a (n + k) @ bs"
  by (auto simp: mem_bytes_add)

lemma cons_mem_bytes: "m p # bs = mem_bytes m p 1 @ bs"
  by (simp add: mem_bytes_def)

lemma bandwidth_row:
  "DMO_InsertBandwidthInfo (fst (DMO_ExtractBandwidthInfo t m p b)) t = mem_bytes m p 5"
  by (simp add: DMO_InsertBandwidthInfo_def DMO_ExtractBandwidthInfo_def insert_extract Let_def case_prod_unfold cong: if_cong)
    (simp add: cons_mem_bytes mem_bytes_split)

lemma row_of_parse: "contract_row (DMO_parseContract m p c) = mem_bytes m p DMO_CONTRACT_BUF_SIZE"
  by (simp add: contract_row_def DMO_parseContract_def read_u8_def read_u16_def read_u32_def read_bandwidth_def read_dst_address_def
      insert_extract bandwidth_row Let_def case_prod_unfold)
    (simp add: cons_mem_bytes mem_bytes_split)

lemma parse_index: "DMO_CONTRACT_ATTRIBUTE.m_unContractID (DMO_parseContract m p c) = DMAP_WriteUint16 m p"
  by (simp add: DMO_parseContract_def read_u8_def read_u16_def read_u32_def read_bandwidth_def read_dst_address_def
      extract_index Let_def case_prod_unfold)

section \<open>The table as a map of rows\<close>

definition dmo_inv :: "dmo_state \<Rightarrow> bool" where
  "dmo_inv s \<longleftrightarrow> sorted_map (g_oDmoContractsMap s) \<and> length (g_oDmoContractsMap s) \<le> MAX_CONTRACT_NO"

definition look_row :: "dmo_state \<Rightarrow> u16 \<Rightarrow> u8 list option" where
  "look_row s k = map_option contract_row (DMO_FindContract k s)"

text \<open>The requests of the system manager: the attribute, a time, the index and, for a change, the row.\<close>

definition table_request :: "u32 \<Rightarrow> u16 \<Rightarrow> u8 list \<Rightarrow> u8 list" where
  "table_request t k row = DMAP_InsertUint16 DMO_CONTRACT_TABLE @ DMAP_InsertUint32 t @ DMAP_InsertUint16 k @ row"

definition put_row :: "dmo_env \<Rightarrow> u32 \<Rightarrow> u16 \<Rightarrow> u8 list \<Rightarrow> dmo_state \<Rightarrow> dmo_state \<times> u8" where
  "put_row env t k row =
     DMO_Execute env DMO_MODIFY_CONTRACT (of_nat (length (table_request t k row))) (mem_of (table_request t k row))"

definition del_row :: "dmo_env \<Rightarrow> u32 \<Rightarrow> u16 \<Rightarrow> dmo_state \<Rightarrow> dmo_state \<times> u8" where
  "del_row env t k = DMO_Execute env DMO_TERMINATE_CONTRACT 8 (mem_of (table_request t k []))"

definition row_of :: "u16 \<Rightarrow> u8 list \<Rightarrow> bool" where
  "row_of k row \<longleftrightarrow> length row = DMO_CONTRACT_BUF_SIZE \<and> DMAP_WriteUint16 (mem_of row) 0 = k"

lemma table_frame [simp]:
  "g_oDmoContractsMap (tell es s) = g_oDmoContractsMap s" "g_oDmoContractsMap (in_nlme f s) = g_oDmoContractsMap s"
  "g_oPendingContractRspMap (tell es s) = g_oPendingContractRspMap s" "g_oPendingContractRspMap (in_nlme f s) = g_oPendingContractRspMap s"
  by (simp_all add: tell_def in_nlme_def)

lemma write_uint16_holds: "holds m p (DMAP_InsertUint16 v) \<Longrightarrow> DMAP_WriteUint16 m p = v"
  by (simp add: DMAP_InsertUint16_def DMAP_WriteUint16_def join_bytes_u16)

lemma table_request_holds:
  "length (table_request t k row) = 8 + length row"
  "DMAP_WriteUint16 (mem_of (table_request t k row)) 0 = DMO_CONTRACT_TABLE"
  "DMAP_WriteUint16 (mem_of (table_request t k row)) 6 = k"
  "mem_bytes (mem_of (table_request t k row)) 8 (length row) = row"
proof -
  have l: "length (DMAP_InsertUint16 v) = 2" "length (DMAP_InsertUint32 w) = 4" for v w
    by (simp_all add: DMAP_InsertUint16_def DMAP_InsertUint32_def)
  have h: "holds (mem_of (table_request t k row)) 0 (table_request t k row)" by (rule holds_mem_of)
  show "length (table_request t k row) = 8 + length row" by (simp add: table_request_def l)
  show "DMAP_WriteUint16 (mem_of (table_request t k row)) 0 = DMO_CONTRACT_TABLE"
    "DMAP_WriteUint16 (mem_of (table_request t k row)) 6 = k"
    using h by (auto simp: table_request_def l intro: write_uint16_holds)
  show "mem_bytes (mem_of (table_request t k row)) 8 (length row) = row"
    using h by (simp add: table_request_def l holds_iff_mem_bytes [symmetric])
qed

lemma row_index:
  assumes "mem_bytes m p (length row) = row" and "2 \<le> length row"
  shows "DMAP_WriteUint16 m p = DMAP_WriteUint16 (mem_of row) 0"
proof -
  have "m (p + i) = mem_of row i" if "i < length row" for i
    using assms(1) that by (simp add: mem_bytes_eq_iff_nth mem_of_def)
  from this [of 0] this [of 1] assms(2) show ?thesis by (cases row; cases "tl row") (simp_all add: DMAP_WriteUint16_def)
qed

lemma put_row_is_set:
  assumes "row_of k row"
  shows "put_row env t k row = DMO_setContract env k (mem_of (table_request t k row)) 8 41"
  using assms by (intro ext) (simp add: put_row_def DMO_Execute_def table_request_holds row_of_def)

lemma del_row_is_delete: "del_row env t k = DMO_deleteContract k"
  by (intro ext) (simp add: del_row_def DMO_Execute_def table_request_holds)

lemma put_row_eq:
  assumes "row_of k row"
  shows "snd (put_row env t k row s) = (if DMO_FindContract k s = None \<and> MAX_CONTRACT_NO \<le> length (g_oDmoContractsMap s)
      then SFC_INSUFFICIENT_DEVICE_RESOURCES else SFC_SUCCESS)"
    and "\<exists>c. contract_row c = row \<and> g_oDmoContractsMap (fst (put_row env t k row s)) =
      (if DMO_FindContract k s = None \<and> MAX_CONTRACT_NO \<le> length (g_oDmoContractsMap s)
       then g_oDmoContractsMap s else map_put k c (g_oDmoContractsMap s))"
proof -
  let ?m = "mem_of (table_request t k row)"
  have r: "mem_bytes ?m 8 41 = row" "length row = 41" using table_request_holds(4) [of t k row] assms by (simp_all add: row_of_def)
  then have k: "DMAP_WriteUint16 ?m 8 = k" using row_index [of ?m 8 row] assms by (simp add: row_of_def)
  show "snd (put_row env t k row s) = (if DMO_FindContract k s = None \<and> MAX_CONTRACT_NO \<le> length (g_oDmoContractsMap s)
      then SFC_INSUFFICIENT_DEVICE_RESOURCES else SFC_SUCCESS)"
    by (simp add: put_row_is_set [OF assms] DMO_setContract_def k Let_def)
  let ?c = "DMO_parseContract ?m 8 (case DMO_FindContract k s of None \<Rightarrow> (new_contract env)\<lparr>m_nUsageCount := 0\<rparr> | Some c \<Rightarrow> c)"
  show "\<exists>c. contract_row c = row \<and> g_oDmoContractsMap (fst (put_row env t k row s)) =
      (if DMO_FindContract k s = None \<and> MAX_CONTRACT_NO \<le> length (g_oDmoContractsMap s)
       then g_oDmoContractsMap s else map_put k c (g_oDmoContractsMap s))"
    by (intro exI [of _ ?c]) (simp add: put_row_is_set [OF assms] row_of_parse r(1) DMO_setContract_def k Let_def)
qed

lemma look_row_dom: "dom (look_row s) = dom (map_of (g_oDmoContractsMap s))"
  by (auto simp: look_row_def DMO_FindContract_def)

interpretation dmo_rows: row_table
  look_row "\<lambda>s. length (g_oDmoContractsMap s)" "put_row env t" "del_row env t" MAX_CONTRACT_NO dmo_inv row_of "\<lambda>_. True" for env t
proof
  fix s :: dmo_state and k v
  assume inv: "dmo_inv s"
  then have srt: "sorted_map (g_oDmoContractsMap s)" by (simp add: dmo_inv_def)
  show "finite (dom (look_row s)) \<and> length (g_oDmoContractsMap s) = card (dom (look_row s))
      \<and> length (g_oDmoContractsMap s) \<le> MAX_CONTRACT_NO"
    using inv by (simp add: look_row_dom card_dom_sorted finite_dom_map_of dmo_inv_def)
  show "look_row (fst (del_row env t k s)) = (look_row s)(k := None)"
    by (auto simp: look_row_def DMO_FindContract_def del_row_is_delete DMO_deleteContract_def split: option.splits)
  show "dmo_inv (fst (del_row env t k s))"
    using inv length_map_erase [of k "g_oDmoContractsMap s"] by (auto simp: dmo_inv_def del_row_is_delete DMO_deleteContract_def split: option.splits)
  assume ok: "row_of k v"
  obtain c where c: "contract_row c = v" "g_oDmoContractsMap (fst (put_row env t k v s)) =
      (if DMO_FindContract k s = None \<and> MAX_CONTRACT_NO \<le> length (g_oDmoContractsMap s)
       then g_oDmoContractsMap s else map_put k c (g_oDmoContractsMap s))"
    using put_row_eq(2) [OF ok] by blast
  show "look_row s k \<noteq> None \<or> length (g_oDmoContractsMap s) < MAX_CONTRACT_NO \<Longrightarrow>
      look_row (fst (put_row env t k v s)) = (look_row s)(k \<mapsto> v) \<and> snd (put_row env t k v s) = SFC_SUCCESS"
    using c srt by (auto simp: put_row_eq(1) [OF ok] look_row_def DMO_FindContract_def)
  show "look_row s k = None \<Longrightarrow> MAX_CONTRACT_NO \<le> length (g_oDmoContractsMap s) \<Longrightarrow>
      look_row (fst (put_row env t k v s)) = look_row s \<and> snd (put_row env t k v s) = SFC_INSUFFICIENT_DEVICE_RESOURCES"
    using c by (auto simp: put_row_eq(1) [OF ok] look_row_def DMO_FindContract_def)
  show "dmo_inv (fst (put_row env t k v s))"
    using c(2) inv by (auto simp: dmo_inv_def length_map_put DMO_FindContract_def split: if_splits option.splits)
qed

section \<open>Properties\<close>

text \<open>C30:
  The contract table the system manager sees is a map of rows with room for 5000 of them. After any sequence of requests that change
  or terminate contracts, carried out by the method of the object, reading the table returns for every index the row last written
  there, octet for octet, and an error for an index that was never written, was terminated or did not fit.
\<close>
theorem contract_rows_refinement:
  assumes "dmo_inv s" and "list_all (op_ok row_of (\<lambda>_. True)) ops" and "41 \<le> unat len"
  shows "DMO_Read_contract k len (run_rows (put_row env t) (del_row env t) ops s) =
    (case spec_run MAX_CONTRACT_NO ops (look_row s) k of
       None \<Rightarrow> (SFC_INVALID_ELEMENT_INDEX, Some ([], 0)) | Some row \<Rightarrow> (SFC_SUCCESS, Some (row, of_nat (length row))))"
proof -
  let ?s = "run_rows (put_row env t) (del_row env t) ops s"
  have "look_row ?s = spec_run MAX_CONTRACT_NO ops (look_row s)"
    using dmo_rows.run_refines [OF assms(1,2)] by blast
  moreover have "DMO_Read_contract k len ?s = (case look_row ?s k of
       None \<Rightarrow> (SFC_INVALID_ELEMENT_INDEX, Some ([], 0)) | Some row \<Rightarrow> (SFC_SUCCESS, Some (row, of_nat (length row))))"
    using assms(3) by (simp add: DMO_Read_contract_def DMO_binarizeContract_def look_row_def split: option.split)
  ultimately show ?thesis by simp
qed

definition sample_bandwidth :: DMO_CONTRACT_BANDWIDTH where
  "sample_bandwidth = DMO_CONTRACT_BANDWIDTH.make (-15) 1 5"

definition blank_contract :: DMO_CONTRACT_ATTRIBUTE where
  "blank_contract = DMO_CONTRACT_ATTRIBUTE.make 0 0 0 0 0 0 0 0 0 0 (replicate 16 0) sample_bandwidth 0 0"

definition blank_dmo :: DMO_ATTRIBUTES where
  "blank_dmo = \<lparr>DMO_ATTRIBUTES.m_unRestartCount = 0, m_aucTagName = replicate 16 0, m_ulNextDriftTAI = 0, m_unCrtUTCDrift = 0, m_unNextUTCDrift = 0,
     m_ulUsedDevMem = 0, m_auc128BitAddr = replicate 16 9, m_aucSysMng128BitAddr = replicate 16 1, m_ulUptime = 0, m_unShortAddr = 2,
     m_unSysMngShortAddr = 1, m_unSysMngEUI64 = replicate 8 0, m_unAssignedDevRole = 0, m_ucPWRStatus = 0, m_ucDMAPState = 1,
     m_unStaticRevLevel = 0, m_unContractReqTimeout = 90, m_unMaxRetryToutInterval = 30, m_unWarmRestartAttemptTout = 60,
     m_ucMaxClntSrvRetries = 3, m_ucJoinCommand = 0,
     m_stPwrAlertDescriptor = APP_ALERT_DESCRIPTOR.make 0 7\<rparr>"

definition sample_dmo_env :: "u32 \<Rightarrow> dmo_env" where
  "sample_dmo_env now = \<lparr>sl_env = sample_env now, new_nl_contract = sample_contract, new_contract = blank_contract,
     random_octet = 7, rand_octet = 0, local_octet = 0\<rparr>"

definition empty_dmo :: dmo_state where
  "empty_dmo = \<lparr>g_stDMO = blank_dmo, g_oDmoContractsMap = [], g_oPendingContractRspMap = [], g_ucContractRspPending = 0,
     s_ucContractReqID = 1, ucLastPwrStatus = 0xFF, g_unSysMngContractID = 0, g_ucJoinStatus = DEVICE_JOINED, g_unAppHandle = 0,
     dm_asl = start_state, dm_slme = empty_slme, dmo_events = []\<rparr>"

definition sample_table_row :: "u8 \<Rightarrow> u8 list" where
  "sample_table_row k = [0, k] @ replicate 39 4"

theorem contract_rows_refinement_witness:
  "DMO_Read_contract 7 100 (run_rows (put_row (sample_dmo_env 1000) 5) (del_row (sample_dmo_env 1000) 5)
     [SetRow 7 (sample_table_row 7), SetRow 8 (sample_table_row 8), DelRow 8] empty_dmo) = (SFC_SUCCESS, Some (sample_table_row 7, 41))"
proof -
  have "row_of 7 (sample_table_row 7)" "row_of 8 (sample_table_row 8)"
    by (simp_all add: row_of_def sample_table_row_def DMAP_WriteUint16_def mem_of_def)
  then have "list_all (op_ok row_of (\<lambda>_. True)) [SetRow 7 (sample_table_row 7), SetRow 8 (sample_table_row 8), DelRow 8]" by simp
  moreover have "dmo_inv empty_dmo" by (simp add: dmo_inv_def empty_dmo_def)
  moreover have "look_row empty_dmo = Map.empty" by (auto simp: look_row_def DMO_FindContract_def empty_dmo_def)
  ultimately show ?thesis
    using contract_rows_refinement [of empty_dmo "[SetRow 7 (sample_table_row 7), SetRow 8 (sample_table_row 8), DelRow 8]" 100 7]
    by (simp add: spec_set_def sample_table_row_def)
qed

end
