(* ===== verification/Dmo_Attributes.thy ===== *)
theory Dmo_Attributes
  imports Dmo
begin

text \<open>
  The attributes of the device management object (\<^verbatim>\<open>c_aDMOFct\<close>, \<^verbatim>\<open>DMO_Read\<close> and \<^verbatim>\<open>DMO_Write\<close> of
  \<^verbatim>\<open>dmap_dmo.cpp\<close>). The table depends on the number of octets of a write, because a string is copied with that length; a copy
  that goes past the field of the structure is \<open>None\<close>, which \<open>DMAP_WriteAttr\<close> turns into \<open>Fault\<close>.
\<close>

unbundle bit_operations_syntax

record dmo_constants =
  dc_device_role :: u16
  c_aucModelID :: "u8 list"
  c_aucSWRevInfo :: "u8 list"

definition DMAP_ReadVisibleString :: "u8 list \<Rightarrow> u8 \<Rightarrow> u8 list \<times> u8" where
  "DMAP_ReadVisibleString v sz = (take (unat sz) v, sz)"

definition DMAP_WriteVisibleString :: "u8 \<Rightarrow> mem \<Rightarrow> addr \<Rightarrow> u8 list \<Rightarrow> u8 list option" where
  "DMAP_WriteVisibleString sz m p v = (if length v < unat sz then None else Some (mem_bytes m p (unat sz) @ drop (unat sz) v))"

definition DMAP_ReadContractMeta :: "dmo_state \<Rightarrow> u8 list \<times> u8" where
  "DMAP_ReadContractMeta s = (DMAP_InsertUint16 (of_nat MAX_CONTRACT_NO) @ DMAP_InsertUint16 (of_nat (length (g_oDmoContractsMap s))), 4)"

definition in_dmo :: "(DMO_ATTRIBUTES \<Rightarrow> DMO_ATTRIBUTES) \<Rightarrow> dmo_state \<Rightarrow> dmo_state" where
  "in_dmo f s = s\<lparr>g_stDMO := f (g_stDMO s)\<rparr>"

definition ro :: "u8 \<Rightarrow> (dmo_state \<Rightarrow> u8 \<Rightarrow> u8 list \<times> u8) \<Rightarrow> dmo_state DMAP_FCT_STRUCT" where
  "ro sz rd = \<lparr>DMAP_FCT_STRUCT.m_ucSize = sz, m_pReadFct = rd, m_pWriteFct = None\<rparr>"

definition rw :: "u8 \<Rightarrow> (DMO_ATTRIBUTES \<Rightarrow> u8 \<Rightarrow> u8 list \<times> u8) \<Rightarrow> (mem \<Rightarrow> addr \<Rightarrow> DMO_ATTRIBUTES \<Rightarrow> DMO_ATTRIBUTES) \<Rightarrow> dmo_state DMAP_FCT_STRUCT" where
  "rw sz rd wr = \<lparr>DMAP_FCT_STRUCT.m_ucSize = sz, m_pReadFct = (\<lambda>s. rd (g_stDMO s)), m_pWriteFct = Some (\<lambda>s m p. Some (in_dmo (wr m p) s))\<rparr>"

definition rw8 :: "(DMO_ATTRIBUTES \<Rightarrow> u8) \<Rightarrow> (u8 \<Rightarrow> DMO_ATTRIBUTES \<Rightarrow> DMO_ATTRIBUTES) \<Rightarrow> dmo_state DMAP_FCT_STRUCT" where
  "rw8 get upd = rw 1 (\<lambda>d. DMAP_ReadUint8 (get d)) (\<lambda>m p. upd (DMAP_WriteUint8 m p))"

definition rw16 :: "(DMO_ATTRIBUTES \<Rightarrow> u16) \<Rightarrow> (u16 \<Rightarrow> DMO_ATTRIBUTES \<Rightarrow> DMO_ATTRIBUTES) \<Rightarrow> dmo_state DMAP_FCT_STRUCT" where
  "rw16 get upd = rw 2 (\<lambda>d. DMAP_ReadUint16 (get d)) (\<lambda>m p. upd (DMAP_WriteUint16 m p))"

definition rw_string :: "u8 \<Rightarrow> u8 \<Rightarrow> (DMO_ATTRIBUTES \<Rightarrow> u8 list) \<Rightarrow> (u8 list \<Rightarrow> DMO_ATTRIBUTES \<Rightarrow> DMO_ATTRIBUTES) \<Rightarrow> dmo_state DMAP_FCT_STRUCT" where
  "rw_string len sz get upd = \<lparr>DMAP_FCT_STRUCT.m_ucSize = sz, m_pReadFct = (\<lambda>s. DMAP_ReadVisibleString (get (g_stDMO s))),
     m_pWriteFct = Some (\<lambda>s m p. map_option (\<lambda>v. in_dmo (upd v) s) (DMAP_WriteVisibleString len m p (get (g_stDMO s))))\<rparr>"

definition c_aucObjList :: "u8 list" where
  "c_aucObjList = concat (map (\<lambda>(i, t). [0, i, t, 0, 0])
     [(1, 127), (2, 126), (3, 125), (4, 124), (5, 123), (6, 122), (7, 121), (8, 3), (9, 120), (10, 4)])"

text \<open>
  Attribute 37 is a 16 bit field read as 32 bits: the four octets are those of the field and of the two that follow it in the structure,
  the lower half of \<^verbatim>\<open>m_ulUsedDevMem\<close>, which on a little-endian host is the upper half of the number.
\<close>

definition next_drift_word :: "DMO_ATTRIBUTES \<Rightarrow> u32" where
  "next_drift_word d = push_bit 16 (ucast (ucast (m_ulUsedDevMem d) :: u16)) OR ucast (m_unNextUTCDrift d)"

definition c_aDMOFct :: "dmo_env \<Rightarrow> dmo_constants \<Rightarrow> u8 \<Rightarrow> dmo_state DMAP_FCT_STRUCT list" where
  "c_aDMOFct env k len =
     [ro 0 (\<lambda>s. DMAP_EmptyReadFunc),
      ro 8 (\<lambda>s. DMAP_ReadVisibleString (c_oEUI64BE (sl_env env))),
      rw16 m_unShortAddr (\<lambda>v d. d\<lparr>m_unShortAddr := v\<rparr>),
      rw_string len 16 DMO_ATTRIBUTES.m_auc128BitAddr (\<lambda>v d. d\<lparr>DMO_ATTRIBUTES.m_auc128BitAddr := v\<rparr>),
      ro 2 (\<lambda>s. DMAP_ReadUint16 (dc_device_role k)),
      rw16 m_unAssignedDevRole (\<lambda>v d. d\<lparr>m_unAssignedDevRole := v\<rparr>),
      ro 5 (\<lambda>s. DMAP_ReadVisibleString [78, 73, 86, 73, 83]),
      ro 16 (\<lambda>s. DMAP_ReadVisibleString (c_aucModelID k)),
      rw_string len 16 m_aucTagName (\<lambda>v d. d\<lparr>m_aucTagName := v\<rparr>),
      ro 4 (\<lambda>s. DMAP_ReadVisibleString [49, 50, 51, 52]),
      rw8 m_ucPWRStatus (\<lambda>v d. d\<lparr>m_ucPWRStatus := v\<rparr>),
      rw 2 (\<lambda>d. DMAP_ReadAlertDescriptor (m_stPwrAlertDescriptor d)) (\<lambda>m p d. d\<lparr>m_stPwrAlertDescriptor := DMAP_WriteAlertDescriptor m p\<rparr>),
      ro 1 (\<lambda>s. DMAP_ReadUint8 (m_ucDMAPState (g_stDMO s))),
      rw8 m_ucJoinCommand (\<lambda>v d. d\<lparr>m_ucJoinCommand := v\<rparr>),
      ro 2 (\<lambda>s. DMAP_ReadUint16 (m_unStaticRevLevel (g_stDMO s))),
      ro 2 (\<lambda>s. DMAP_ReadUint16 (m_unRestartCount (g_stDMO s))),
      ro 4 (\<lambda>s. DMAP_ReadUint32 (m_ulUptime (g_stDMO s))),
      ro 4 (\<lambda>s. DMAP_ReadUint32 0x2000),
      ro 4 (\<lambda>s. DMAP_ReadUint32 (m_ulUsedDevMem (g_stDMO s))),
      ro 4 (\<lambda>s sz. DMAP_ReadUint32 (now_of env) 4),
      ro 1 (\<lambda>s. DMAP_ReadUint8 0),
      ro 1 (\<lambda>s. DMAP_ReadUint8 0),
      ro 16 (\<lambda>s. DMAP_ReadVisibleString (c_aucSWRevInfo k)),
      rw_string len 16 DMO_ATTRIBUTES.m_aucSysMng128BitAddr (\<lambda>v d. d\<lparr>DMO_ATTRIBUTES.m_aucSysMng128BitAddr := v\<rparr>),
      rw_string len 8 m_unSysMngEUI64 (\<lambda>v d. d\<lparr>m_unSysMngEUI64 := v\<rparr>),
      rw16 m_unSysMngShortAddr (\<lambda>v d. d\<lparr>m_unSysMngShortAddr := v\<rparr>),
      ro 41 (\<lambda>s sz. ([], sz)),
      rw16 m_unContractReqTimeout (\<lambda>v d. d\<lparr>m_unContractReqTimeout := v\<rparr>),
      rw8 m_ucMaxClntSrvRetries (\<lambda>v d. d\<lparr>m_ucMaxClntSrvRetries := v\<rparr>),
      rw16 m_unMaxRetryToutInterval (\<lambda>v d. d\<lparr>m_unMaxRetryToutInterval := v\<rparr>),
      ro 1 (\<lambda>s. DMAP_ReadUint8 10),
      ro 50 (\<lambda>s. DMAP_ReadVisibleString c_aucObjList),
      ro 4 (\<lambda>s sz. DMAP_ReadContractMeta s),
      ro 1 (\<lambda>s. DMAP_ReadUint8 0),
      rw16 m_unWarmRestartAttemptTout (\<lambda>v d. d\<lparr>m_unWarmRestartAttemptTout := v\<rparr>),
      ro 2 (\<lambda>s. DMAP_ReadUint16 (m_unCrtUTCDrift (g_stDMO s))),
      ro 4 (\<lambda>s. DMAP_ReadUint32 (m_ulNextDriftTAI (g_stDMO s))),
      ro 2 (\<lambda>s. DMAP_ReadUint32 (next_drift_word (g_stDMO s)))]"

definition DMO_Read :: "dmo_env \<Rightarrow> dmo_constants \<Rightarrow> ATTR_IDTF \<Rightarrow> u16 \<Rightarrow> dmo_state \<Rightarrow> u8 \<times> (u8 list \<times> u16) option" where
  "DMO_Read env k a p_unBufLen s =
     (if m_unAttrID a = DMO_CONTRACT_TABLE then DMO_Read_contract (m_unIndex1 a) p_unBufLen s
      else DMAP_ReadAttr (m_unAttrID a) s (c_aDMOFct env k 0))"

definition DMO_Write :: "dmo_env \<Rightarrow> dmo_constants \<Rightarrow> u16 \<Rightarrow> u8 \<Rightarrow> mem \<Rightarrow> addr \<Rightarrow> dmo_state \<Rightarrow> dmo_state write_result" where
  "DMO_Write env k p_unAttrID p_ucBufferSize m p s = DMAP_WriteAttr p_unAttrID p_ucBufferSize m p s (c_aDMOFct env k p_ucBufferSize)"

section \<open>Reading what was written\<close>

text \<open>The attributes of fixed size that can be written, with their sizes, and the strings with the sizes of their fields.\<close>

definition fixed_attributes :: "(u16 \<times> u8) list" where
  "fixed_attributes = [(2, 2), (5, 2), (10, 1), (11, 2), (13, 1), (25, 2), (27, 2), (28, 1), (29, 2), (34, 2)]"

definition string_attributes :: "(u16 \<times> u8) list" where
  "string_attributes = [(3, 16), (8, 16), (23, 16), (24, 8)]"

definition attribute :: "u16 \<Rightarrow> ATTR_IDTF" where
  "attribute i = \<lparr>m_ucAttrFormat = 0, m_unAttrID = i, m_unIndex1 = 0, m_unIndex2 = 0\<rparr>"

definition string_fields :: "DMO_ATTRIBUTES \<Rightarrow> bool" where
  "string_fields d \<longleftrightarrow> length (DMO_ATTRIBUTES.m_auc128BitAddr d) = 16 \<and> length (m_aucTagName d) = 16
     \<and> length (DMO_ATTRIBUTES.m_aucSysMng128BitAddr d) = 16 \<and> length (m_unSysMngEUI64 d) = 8"

lemmas row_defs = ro_def rw_def rw8_def rw16_def rw_string_def

lemma length_c_aDMOFct: "length (c_aDMOFct env k len) = 38"
  by (simp add: c_aDMOFct_def)

lemma mem_bytes_2: "mem_bytes m p 2 = [m p, m (p + 1)]"
  by (simp add: mem_bytes_def upt_rec numeral_2_eq_2)

lemma fixed_write_read:
  assumes "(i, n) \<in> set fixed_attributes"
  shows "\<exists>s'. DMO_Write env k i len m p s = Written SFC_SUCCESS s'
    \<and> DMO_Read env k (attribute i) l s' = (SFC_SUCCESS, Some (mem_bytes m p (unat n), ucast n))"
  using assms
  by (auto simp: fixed_attributes_def DMO_Write_def DMO_Read_def DMAP_WriteAttr_def DMAP_ReadAttr_def length_c_aDMOFct attribute_def)
    (simp_all add: c_aDMOFct_def row_defs in_dmo_def read_write_bytes mem_bytes_1 mem_bytes_2)

lemma string_write_read:
  assumes "(i, n) \<in> set string_attributes" and "string_fields (g_stDMO s)"
  shows "\<exists>s'. DMO_Write env k i n m p s = Written SFC_SUCCESS s'
    \<and> DMO_Read env k (attribute i) l s' = (SFC_SUCCESS, Some (mem_bytes m p (unat n), ucast n))"
  using assms
  by (auto simp: string_attributes_def string_fields_def DMO_Write_def DMO_Read_def DMAP_WriteAttr_def DMAP_ReadAttr_def length_c_aDMOFct attribute_def)
    (simp_all add: c_aDMOFct_def row_defs in_dmo_def DMAP_WriteVisibleString_def DMAP_ReadVisibleString_def)

lemma string_write_overruns:
  assumes "(i, n) \<in> set string_attributes" and "string_fields (g_stDMO s)"
  shows "DMO_Write env k i len m p s = Fault \<longleftrightarrow> n < len"
  using assms
  by (auto simp: string_attributes_def string_fields_def DMO_Write_def DMAP_WriteAttr_def length_c_aDMOFct split: option.splits)
    (auto simp: c_aDMOFct_def row_defs in_dmo_def DMAP_WriteVisibleString_def word_less_nat_alt split: if_splits)

section \<open>Properties\<close>

text \<open>
  The attributes of the device management object can be read back as they were written: each attribute of fixed size for any length
  of the write request, because the length is not looked at, and each string when the request has the length of the string. A longer
  string, on the other hand, is copied past the end of its field.
\<close>
lemma dmo_attributes_write_read:
  assumes "string_fields (g_stDMO s)"
  shows "((i, n) \<in> set fixed_attributes \<or> (i, n) \<in> set string_attributes \<and> len = n \<longrightarrow>
      (\<exists>s'. DMO_Write env k i len m p s = Written SFC_SUCCESS s'
        \<and> DMO_Read env k (attribute i) l s' = (SFC_SUCCESS, Some (mem_bytes m p (unat n), ucast n))))
    \<and> ((i, n) \<in> set string_attributes \<and> n < len \<longrightarrow> DMO_Write env k i len m p s = Fault)"
  using fixed_write_read [of i n env k len m p s l] string_write_read [OF _ assms, of i n env k m p l]
    string_write_overruns [OF _ assms, of i n env k len m p] by auto

theorem dmo_attributes_write_read_witness:
  "\<exists>s'. DMO_Write (sample_dmo_env 1000) \<lparr>dc_device_role = 4, c_aucModelID = replicate 16 32, c_aucSWRevInfo = replicate 16 32\<rparr> 27 2 (mem_of [1, 2]) 0 empty_dmo
      = Written SFC_SUCCESS s'
    \<and> DMO_Read (sample_dmo_env 1000) \<lparr>dc_device_role = 4, c_aucModelID = replicate 16 32, c_aucSWRevInfo = replicate 16 32\<rparr> (attribute 27) 100 s'
      = (SFC_SUCCESS, Some ([1, 2], 2))"
proof -
  have "string_fields (g_stDMO empty_dmo)" by (simp add: string_fields_def empty_dmo_def blank_dmo_def)
  moreover have "(27, 2) \<in> set fixed_attributes" by (simp add: fixed_attributes_def)
  ultimately show ?thesis
    using dmo_attributes_write_read [of empty_dmo 27 2 2 "sample_dmo_env 1000"
        "\<lparr>dc_device_role = 4, c_aucModelID = replicate 16 32, c_aucSWRevInfo = replicate 16 32\<rparr>" "mem_of [1, 2]" 0 100]
    by (simp add: mem_bytes_def upt_rec mem_of_def)
qed

text \<open>
  The announced drift of the time cannot be read. Attribute 37 always returns two octets that are the lower half of the memory in use,
  whatever the drift is.
\<close>
lemma next_drift_unreadable:
  "\<exists>rest. DMO_Read env k (attribute 37) l s = (SFC_SUCCESS, Some (DMAP_InsertUint16 (ucast (m_ulUsedDevMem (g_stDMO s))) @ rest, 2))"
proof -
  have "ucast (drop_bit 24 (next_drift_word d)) = (ucast (drop_bit 8 (ucast (m_ulUsedDevMem d) :: u16)) :: u8)"
    "ucast (drop_bit 16 (next_drift_word d)) = (ucast (ucast (m_ulUsedDevMem d) :: u16) :: u8)" for d
    unfolding next_drift_word_def by (rule bit_word_eqI; auto simp: bit_simps dest: bit_imp_le_length)+
  then show ?thesis
    by (simp add: DMO_Read_def DMAP_ReadAttr_def attribute_def length_c_aDMOFct c_aDMOFct_def ro_def DMAP_ReadUint32_def DMAP_InsertUint16_def)
qed

end
