(* ===== verification/Dmo_Requests.thy ===== *)
theory Dmo_Requests
  imports Dmo
begin

text \<open>
  Contract requests of the device management object (\<^verbatim>\<open>dmap_dmo.cpp\<close>, with \<^verbatim>\<open>MULTICONTRACTS\<close>): a request waits in the
  pending map under its request identifier, first for a session key (\<^verbatim>\<open>CONTRACT_PENDING_NO_KEY\<close>), then for the answer of the
  system manager (\<^verbatim>\<open>CONTRACT_PENDING\<close>); a request that was refused or timed out stays there as
  \<^verbatim>\<open>CONTRACT_PENDING_FAILED\<close> until its identifier is used again.
\<close>

unbundle bit_operations_syntax

section \<open>Searching the pending requests\<close>

record scan =
  ucTentativeReqID :: u8
  ucTentativeReqIDWrapped :: u8
  ucReclaimableReqID :: u8
  bFoundReclaimableID :: bool

definition scan_entry :: "u8 \<Rightarrow> DMO_CONTRACT_ATTRIBUTE \<Rightarrow> scan \<Rightarrow> scan" where
  "scan_entry start c z =
     (let i = DMO_CONTRACT_ATTRIBUTE.m_unContractID c;
          z = (if ucast (ucTentativeReqID z) = i then z\<lparr>ucTentativeReqID := ucTentativeReqID z + 1\<rparr> else z);
          z = (if ucast (ucTentativeReqIDWrapped z) = i \<and> ucTentativeReqIDWrapped z < start
               then z\<lparr>ucTentativeReqIDWrapped := ucTentativeReqIDWrapped z + 1\<rparr> else z)
      in if m_ucContractStatus c = CONTRACT_PENDING_FAILED
         then let z = (if bFoundReclaimableID z then z else z\<lparr>bFoundReclaimableID := True, ucReclaimableReqID := ucast i\<rparr>)
              in if ucReclaimableReqID z < start \<and> ucast start \<le> i then z\<lparr>ucReclaimableReqID := ucast i\<rparr> else z
         else z)"

definition wanted :: "u8 \<Rightarrow> DMO_CONTRACT_ATTRIBUTE \<Rightarrow> bool" where
  "wanted p_ucPendingState c \<longleftrightarrow> m_ucContractStatus c = CONTRACT_PENDING_NO_KEY \<or> m_ucContractStatus c = p_ucPendingState"

text \<open>
  How the loop over the pending map ends: with a contract it returns, with a contract of the same service that has failed, or with
  what it has gathered from all entries.
\<close>

datatype scan_result = Pending u8 DMO_CONTRACT_ATTRIBUTE | NotPending DMO_CONTRACT_ATTRIBUTE | Absent scan

fun pending_scan :: "u8 \<Rightarrow> ipv6 \<Rightarrow> u16 \<Rightarrow> u16 \<Rightarrow> u8 \<Rightarrow> u8 \<Rightarrow> pending_map \<Rightarrow> scan \<Rightarrow> scan_result" where
  "pending_scan st dst dport sport srv start [] z = Absent z"
| "pending_scan st dst dport sport srv start ((k, c) # m) z =
     (let z = scan_entry start c z in
      if matches dst dport sport c \<and> srv = ANY_SERVICE_TYPE \<and> wanted st c then Pending k c
      else if matches dst dport sport c \<and> srv = m_ucServiceType c then if wanted st c then Pending k c else NotPending c
      else pending_scan st dst dport sport srv start m z)"

text \<open>
  The state, the contract returned with its key, and what is stored at \<^verbatim>\<open>p_pnRequestId\<close>, which is a null pointer when \<open>want\<close> is
  false. \<open>None\<close> is the use of the end iterator that \<^verbatim>\<open>find\<close> returns for an identifier that is not in the map.
\<close>

definition DMO_IsPendingContractRequest :: "dmo_env \<Rightarrow> u8 \<Rightarrow> ipv6 \<Rightarrow> u16 \<Rightarrow> u16 \<Rightarrow> u8 \<Rightarrow> bool \<Rightarrow> dmo_state
    \<Rightarrow> (dmo_state \<times> (u8 \<times> DMO_CONTRACT_ATTRIBUTE) option \<times> u8 option) option" where
  "DMO_IsPendingContractRequest env st dst dport sport srv want s =
     (let start = s_ucContractReqID s in
      case pending_scan st dst dport sport srv start (g_oPendingContractRspMap s)
          \<lparr>ucTentativeReqID = start, ucTentativeReqIDWrapped = 0, ucReclaimableReqID = rand_octet env, bFoundReclaimableID = False\<rparr> of
        Pending k c \<Rightarrow> Some (s, Some (k, c), if want \<and> srv \<noteq> ANY_SERVICE_TYPE then Some (ucast (DMO_CONTRACT_ATTRIBUTE.m_unContractID c)) else None)
      | NotPending c \<Rightarrow> Some (s, None, if want then Some (ucast (DMO_CONTRACT_ATTRIBUTE.m_unContractID c)) else None)
      | Absent z \<Rightarrow>
          if \<not> want \<or> srv = ANY_SERVICE_TYPE then Some (s, None, None)
          else if start \<le> ucTentativeReqID z
          then Some (s\<lparr>s_ucContractReqID := ucTentativeReqID z + 1\<rparr>, None, Some (ucTentativeReqID z))
          else if ucTentativeReqIDWrapped z < start
          then Some (s\<lparr>s_ucContractReqID := ucTentativeReqIDWrapped z + 1\<rparr>, None, Some (ucTentativeReqIDWrapped z))
          else (case map_of (g_oPendingContractRspMap s) (ucReclaimableReqID z) of
                  None \<Rightarrow> None
                | Some c \<Rightarrow>
                    let c = c\<lparr>m_ucContractStatus := CONTRACT_PENDING_FAILED\<rparr> in
                    Some (tell [UAP_NotifyContractFailure c] (s\<lparr>g_ucContractRspPending := g_ucContractRspPending s - 1,
                        g_oPendingContractRspMap := map_put (ucReclaimableReqID z) c (g_oPendingContractRspMap s),
                        s_ucContractReqID := ucReclaimableReqID z + 1\<rparr>), None, Some (ucReclaimableReqID z))))"

section \<open>Sending requests\<close>

definition contract_request :: "DMO_CONTRACT_ATTRIBUTE \<Rightarrow> u8 \<Rightarrow> u8 list" where
  "contract_request c p_ucRequestType =
     [ucast (DMO_CONTRACT_ATTRIBUTE.m_unContractID c), p_ucRequestType]
     @ (if p_ucRequestType \<noteq> CONTRACT_REQ_TYPE_NEW then DMAP_InsertUint16 (DMO_CONTRACT_ATTRIBUTE.m_unContractID c) else [])
     @ [m_ucServiceType c] @ DMAP_InsertUint16 (m_unSrcTLPort c) @ m_aDstAddr128 c @ DMAP_InsertUint16 (m_unDstTLPort c)
     @ [0] @ DMAP_InsertUint32 (m_ulAssignedExpTime c) @ [DMO_CONTRACT_ATTRIBUTE.m_ucPriority c]
     @ DMAP_InsertUint16 (DMO_CONTRACT_ATTRIBUTE.m_unAssignedMaxNSDUSize c) @ [m_ucReliability c]
     @ DMO_InsertBandwidthInfo (m_stBandwidth c) (m_ucServiceType c)"

definition manager_args :: "DMO_CONTRACT_ATTRIBUTE \<Rightarrow> u16 \<Rightarrow> ADD_ARGS" where
  "manager_args sm h = \<lparr>p_ucPriority = DMO_CONTRACT_ATTRIBUTE.m_ucPriority sm, p_ucSrcTSAPID = ucast (m_unSrcTLPort sm - ISA100_DMAP_PORT),
     p_ucDstTSAPID = ucast (m_unDstTLPort sm - ISA100_DMAP_PORT), p_unAppHandler = h, p_pDstAddr = None,
     p_unContractID = DMO_CONTRACT_ATTRIBUTE.m_unContractID sm, p_ucObeyContractBandwidth = 0, p_ucAllowEncryption = 1,
     p_ucNoRspExpected = 0, p_unAPDULifetime = 300\<rparr>"

text \<open>An execute request to the system manager's object \<^verbatim>\<open>SM_SCO_OBJ_ID\<close> over the contract \<open>sm\<close>, with the next application handle.\<close>

definition send_to_manager :: "dmo_env \<Rightarrow> DMO_CONTRACT_ATTRIBUTE \<Rightarrow> u8 \<Rightarrow> u8 list \<Rightarrow> dmo_state \<Rightarrow> dmo_state \<times> u8" where
  "send_to_manager env sm meth req s =
     (let h = (g_unAppHandle s + 1) AND 0xFFF; s = s\<lparr>g_unAppHandle := h\<rparr>;
          (a, r) = ASLSRVC_AddGenericObject (current_cfg env s) (mem_of req) (manager_args sm h)
            (Service (ExecReq (EXEC_REQ_SRVC.make DMAP_DMO_OBJ_ID SM_SCO_OBJ_ID 0 meth (of_nat (length req)) 0))) (dm_asl s)
      in (s\<lparr>dm_asl := a\<rparr>, r))"

definition deadline :: "dmo_env \<Rightarrow> dmo_state \<Rightarrow> u32" where
  "deadline env s = now_of env + ucast (m_unContractReqTimeout (g_stDMO s))"

text \<open>\<open>c\<close> is the object of the pending map under \<open>k\<close>, which a request that was sent changes.\<close>

definition DMO_sendContractRequest :: "dmo_env \<Rightarrow> u8 \<Rightarrow> DMO_CONTRACT_ATTRIBUTE \<Rightarrow> u8 \<Rightarrow> dmo_state \<Rightarrow> dmo_state \<times> u8" where
  "DMO_sendContractRequest env k c p_ucRequestType s =
     (case DMO_FindContract (g_unSysMngContractID s) s of
        None \<Rightarrow> (s, SFC_INCOMPATIBLE_MODE)
      | Some sm \<Rightarrow>
          let (s, r) = send_to_manager env sm SCO_REQ_CONTRACT (contract_request c p_ucRequestType) s in
          if r = SFC_SUCCESS
          then (s\<lparr>g_oPendingContractRspMap := map_put k (c\<lparr>m_ucContractReqType := p_ucRequestType, m_ulActivationTAI := deadline env s\<rparr>)
                    (g_oPendingContractRspMap s), g_ucContractRspPending := g_ucContractRspPending s + 1\<rparr>, SFC_SUCCESS)
          else (s, SFC_INSUFFICIENT_DEVICE_RESOURCES))"

definition requested_contract :: "dmo_env \<Rightarrow> ipv6 \<Rightarrow> u16 \<Rightarrow> u16 \<Rightarrow> u32 \<Rightarrow> u8 \<Rightarrow> u8 \<Rightarrow> u16 \<Rightarrow> u8 \<Rightarrow> DMO_CONTRACT_BANDWIDTH
    \<Rightarrow> u8 \<Rightarrow> dmo_state \<Rightarrow> DMO_CONTRACT_ATTRIBUTE" where
  "requested_contract env dst dport sport life srv prio maxSize rel bw i s = (new_contract env)\<lparr>
     m_aDstAddr128 := dst, m_stBandwidth := bw, m_unSrcTLPort := sport, m_unDstTLPort := dport, m_ucServiceType := srv,
     m_ulAssignedExpTime := life, DMO_CONTRACT_ATTRIBUTE.m_ucPriority := prio,
     DMO_CONTRACT_ATTRIBUTE.m_unAssignedMaxNSDUSize := maxSize, m_ucReliability := rel,
     DMO_CONTRACT_ATTRIBUTE.m_unContractID := ucast i, m_ulActivationTAI := deadline env s\<rparr>"

text \<open>The state, the feedback code and the request identifier when one is stored at \<^verbatim>\<open>p_pucContractRequestId\<close>.\<close>

definition DMO_RequestNewContract :: "dmo_env \<Rightarrow> ipv6 \<Rightarrow> u16 \<Rightarrow> u16 \<Rightarrow> u32 \<Rightarrow> u8 \<Rightarrow> u8 \<Rightarrow> u16 \<Rightarrow> u8 \<Rightarrow> DMO_CONTRACT_BANDWIDTH
    \<Rightarrow> dmo_state \<Rightarrow> (dmo_state \<times> u8 \<times> u8 option) option" where
  "DMO_RequestNewContract env dst dport sport life srv prio maxSize rel bw s =
     (case DMO_GetContract dst dport sport srv s of
        Some c \<Rightarrow> Some (tell [UAP_NotifyAddContract c] s, SFC_DUPLICATE, None)
      | None \<Rightarrow>
          (case DMO_IsPendingContractRequest env CONTRACT_PENDING dst dport sport srv True s of
             None \<Rightarrow> None
           | Some (s, Some _, _) \<Rightarrow> Some (s, SFC_DUPLICATE, None)
           | Some (s, None, r) \<Rightarrow>
               if g_ucJoinStatus s \<noteq> DEVICE_JOINED then Some (s, SFC_INSUFFICIENT_DEVICE_RESOURCES, None)
               else if MAX_CONTRACT_NO \<le> length (g_oDmoContractsMap s) then Some (s, SFC_INSUFFICIENT_DEVICE_RESOURCES, None)
               else
                 let i = (case r of Some i \<Rightarrow> i | None \<Rightarrow> local_octet env);
                     c = requested_contract env dst dport sport life srv prio maxSize rel bw i s
                 in if m_ucTLSecurityLevel (slme_state.g_stDSMO (dm_slme s)) \<noteq> SECURITY_NONE
                       \<and> fst (SLME_FindTxKey (now_of env) (Some dst) sport dport (dm_slme s)) = None
                    then
                      let (a, sfc) = SLME_GenerateNewSessionKeyRequest ((sl_env env)\<lparr>asl_cfg := current_cfg env s\<rparr>) dst sport dport
                            (dm_slme s) (dm_asl s);
                          s = s\<lparr>dm_asl := a\<rparr>
                      in if sfc = SFC_SUCCESS
                         then Some (s\<lparr>g_ucContractRspPending := g_ucContractRspPending s + 1,
                                g_oPendingContractRspMap := map_put i (c\<lparr>m_ucContractStatus := CONTRACT_PENDING_NO_KEY\<rparr>)
                                  (g_oPendingContractRspMap s)\<rparr>, SFC_SUCCESS, Some i)
                         else Some (s, SFC_INSUFFICIENT_DEVICE_RESOURCES, Some i)
                    else
                      let c = c\<lparr>m_ucContractStatus := CONTRACT_PENDING\<rparr>;
                          (s, sfc) = DMO_sendContractRequest env i c CONTRACT_REQ_TYPE_NEW
                            (s\<lparr>g_oPendingContractRspMap := map_put i c (g_oPendingContractRspMap s)\<rparr>)
                      in Some (s, sfc, Some i)))"

text \<open>The loop of \<^verbatim>\<open>DMO_NotifyNewKeyAdded\<close> over the requests that wait for the key, and its body.\<close>

definition release_one :: "dmo_env \<Rightarrow> u8 \<Rightarrow> DMO_CONTRACT_ATTRIBUTE \<Rightarrow> dmo_state \<Rightarrow> dmo_state" where
  "release_one env k c s =
     (let c = c\<lparr>m_ucContractStatus := CONTRACT_PENDING\<rparr> in
      fst (DMO_sendContractRequest env k c CONTRACT_REQ_TYPE_NEW
        (s\<lparr>g_ucContractRspPending := g_ucContractRspPending s - 1,
           g_oPendingContractRspMap := map_put k c (g_oPendingContractRspMap s)\<rparr>)))"

partial_function (option) key_added_loop :: "dmo_env \<Rightarrow> ipv6 \<Rightarrow> u16 \<Rightarrow> u16 \<Rightarrow> dmo_state \<Rightarrow> dmo_state option" where
  "key_added_loop env peer sport dport s =
     (case DMO_IsPendingContractRequest env CONTRACT_PENDING_NO_KEY peer dport sport ANY_SERVICE_TYPE False s of
        None \<Rightarrow> None
      | Some (s, None, _) \<Rightarrow> Some s
      | Some (s, Some (k, c), _) \<Rightarrow> key_added_loop env peer sport dport (release_one env k c s))"

definition DMO_NotifyNewKeyAdded :: "dmo_env \<Rightarrow> ipv6 \<Rightarrow> u16 \<Rightarrow> u16 \<Rightarrow> dmo_state \<Rightarrow> dmo_state option" where
  "DMO_NotifyNewKeyAdded env peer sport dport s =
     (if g_ucContractRspPending s = 0 then Some s else key_added_loop env peer sport dport s)"

definition DMO_RequestContractTermination :: "dmo_env \<Rightarrow> u16 \<Rightarrow> u8 \<Rightarrow> dmo_state \<Rightarrow> dmo_state \<times> u8" where
  "DMO_RequestContractTermination env cid p_ucOperation s =
     (if g_ucJoinStatus s \<noteq> DEVICE_JOINED then (s, SFC_INSUFFICIENT_DEVICE_RESOURCES)
      else if DMO_FindContract cid s = None then (s, SFC_NO_CONTRACT)
      else case DMO_FindContract (g_unSysMngContractID s) s of
        None \<Rightarrow> (s, SFC_INCOMPATIBLE_MODE)
      | Some sm \<Rightarrow> send_to_manager env sm SCO_TERMINATE_CONTRACT (DMAP_InsertUint16 cid @ [p_ucOperation]) s)"

section \<open>Answers of the system manager\<close>

definition fail_contract :: "dmo_env \<Rightarrow> DMO_CONTRACT_ATTRIBUTE \<Rightarrow> DMO_CONTRACT_ATTRIBUTE" where
  "fail_contract env c = c\<lparr>m_ulActivationTAI := now_of env, m_ucContractStatus := CONTRACT_PENDING_FAILED\<rparr>"

text \<open>The assigned parameters, from the third octet of the answer on. The length of the answer is not looked at.\<close>

definition granted_contract :: "mem \<Rightarrow> DMO_CONTRACT_ATTRIBUTE \<Rightarrow> DMO_CONTRACT_ATTRIBUTE" where
  "granted_contract rsp c = (fst (read_fields
     [read_u16 (\<lambda>v c. c\<lparr>DMO_CONTRACT_ATTRIBUTE.m_unContractID := v, m_ucContractStatus := CONTRACT_RSP_OK\<rparr>),
      read_u8 (\<lambda>v c. c\<lparr>m_ucServiceType := v, m_ulActivationTAI := 0\<rparr>),
      read_u32 (\<lambda>v c. c\<lparr>m_ulAssignedExpTime := v\<rparr>),
      read_u8 (\<lambda>v c. c\<lparr>DMO_CONTRACT_ATTRIBUTE.m_ucPriority := v\<rparr>),
      read_u16 (\<lambda>v c. c\<lparr>DMO_CONTRACT_ATTRIBUTE.m_unAssignedMaxNSDUSize := v\<rparr>),
      read_u8 (\<lambda>v c. c\<lparr>m_ucReliability := v\<rparr>),
      read_bandwidth] rsp 2 c))\<lparr>m_nUsageCount := 0\<rparr>"

text \<open>\<open>req0\<close> is the first octet of the request the answer belongs to, \<open>sfc\<close> and \<open>rsp\<close> the feedback code and the data of the answer.\<close>

definition DMO_ProcessContractResponse :: "dmo_env \<Rightarrow> u8 \<Rightarrow> u8 \<Rightarrow> mem \<Rightarrow> dmo_state \<Rightarrow> dmo_state" where
  "DMO_ProcessContractResponse env req0 sfc rsp s =
     (if sfc \<noteq> SFC_SUCCESS
      then case map_of (g_oPendingContractRspMap s) req0 of
             None \<Rightarrow> s
           | Some c \<Rightarrow> tell [UAP_NotifyContractFailure (fail_contract env c)]
               (s\<lparr>g_oPendingContractRspMap := map_put req0 (fail_contract env c) (g_oPendingContractRspMap s)\<rparr>)
      else case map_of (g_oPendingContractRspMap s) (rsp 0) of
        None \<Rightarrow> s
      | Some c \<Rightarrow>
          let s = s\<lparr>g_oPendingContractRspMap := map_erase (rsp 0) (g_oPendingContractRspMap s)\<rparr> in
          if m_ucContractStatus c = CONTRACT_PENDING_FAILED then s
          else let s = s\<lparr>g_ucContractRspPending := g_ucContractRspPending s - 1\<rparr> in
          if rsp 1 \<noteq> CONTRACT_RSP_OK then tell [UAP_NotifyContractFailure (fail_contract env c)] s
          else if m_ucContractReqType c = CONTRACT_REQ_TYPE_NEW \<and> MAX_CONTRACT_NO \<le> length (g_oDmoContractsMap s)
          then tell [UAP_NotifyContractFailure (fail_contract env c)] s
          else
            let c = granted_contract rsp c;
                s = tell [UAP_NotifyAddContract c] (s\<lparr>g_oDmoContractsMap :=
                      map_insert (DMO_CONTRACT_ATTRIBUTE.m_unContractID c) c (g_oDmoContractsMap s)\<rparr>)
            in tell [ARMO_CONTRACT_ADDED c] (in_nlme (\<lambda>n. fst (NLME_AddDmoContract (new_nl_contract env) (random_octet env) c n)) s))"

text \<open>The contract of the join response, and its first rows in both contract tables.\<close>

definition first_contract :: "dmo_env \<Rightarrow> mem \<Rightarrow> dmo_state \<Rightarrow> DMO_CONTRACT_ATTRIBUTE" where
  "first_contract env rsp s =
     (let c = fst (read_fields
            [read_u16 (\<lambda>v c. c\<lparr>DMO_CONTRACT_ATTRIBUTE.m_unContractID := v, m_ucContractStatus := CONTRACT_RSP_OK,
               m_ucServiceType := SRVC_APERIODIC_COMM, m_ulActivationTAI := 0, m_unSrcTLPort := ISA100_DMAP_PORT,
               m_aDstAddr128 := DMO_ATTRIBUTES.m_aucSysMng128BitAddr (g_stDMO s), m_unDstTLPort := ISA100_SMAP_PORT,
               m_ulAssignedExpTime := 0xFFFFFFFF, DMO_CONTRACT_ATTRIBUTE.m_ucPriority := 0\<rparr>),
             read_u16 (\<lambda>v c. c\<lparr>DMO_CONTRACT_ATTRIBUTE.m_unAssignedMaxNSDUSize := v\<rparr>),
             read_bandwidth] rsp 0 (new_contract env))
      in if DMO_CONTRACT_ATTRIBUTE.m_unAssignedMaxNSDUSize c < 16
         then c\<lparr>DMO_CONTRACT_ATTRIBUTE.m_unAssignedMaxNSDUSize := MAX_DATAGRAM_SIZE\<rparr> else c)"

definition set_first_nl_contract :: "dmo_env \<Rightarrow> mem \<Rightarrow> DMO_CONTRACT_ATTRIBUTE \<Rightarrow> DMO_ATTRIBUTES \<Rightarrow> NLME_ATRIBUTES \<Rightarrow> NLME_ATRIBUTES \<times> u8" where
  "set_first_nl_contract env rsp c d n =
     (let own = DMO_ATTRIBUTES.m_auc128BitAddr d; i = DMAP_InsertUint16 (DMO_CONTRACT_ATTRIBUTE.m_unContractID c) in
      NLME_setContract own (random_octet env)
        (i @ own @ i @ own @ DMO_ATTRIBUTES.m_aucSysMng128BitAddr d @ [push_bit 2 (rsp 9 AND 0x04)])
        (DMO_CONTRACT_ATTRIBUTE.m_unAssignedMaxNSDUSize c) (DMO_CONTRACT_BANDWIDTH.m_ucMaxSendWindow (m_stBandwidth c))
        (DMO_CONTRACT_BANDWIDTH.m_nComittedBurst (m_stBandwidth c)) (DMO_CONTRACT_BANDWIDTH.m_nExcessBurst (m_stBandwidth c)) n)"

definition inherit_request_id :: "u16 \<Rightarrow> u8 \<Rightarrow> NLME_ATRIBUTES \<Rightarrow> NLME_ATRIBUTES" where
  "inherit_request_id cid q n =
     (case map_of (m_oContractsMap n) cid of
        None \<Rightarrow> n
      | Some (r, c) \<Rightarrow> n\<lparr>m_oContractsMap := AList.update cid (r, c\<lparr>NLME_CONTRACT_ATTRIBUTES.m_ucReqID := q\<rparr>) (m_oContractsMap n)\<rparr>)"

definition DMO_ProcessFirstContract :: "dmo_env \<Rightarrow> u8 \<Rightarrow> u16 \<Rightarrow> mem \<Rightarrow> dmo_state \<Rightarrow> dmo_state" where
  "DMO_ProcessFirstContract env sfc len rsp s =
     (if sfc \<noteq> SFC_SUCCESS then s
      else if MAX_CONTRACT_NO \<le> length (g_oDmoContractsMap s) then s
      else if len < 28 then s
      else
        let n = asl_state.g_stNlme (dm_asl s);
            saved = (case NLME_FindContract JOIN_CONTRACT_ID n of Some c \<Rightarrow> NLME_CONTRACT_ATTRIBUTES.m_ucReqID c | None \<Rightarrow> 0);
            c = first_contract env rsp s; cid = DMO_CONTRACT_ATTRIBUTE.m_unContractID c;
            (n, r) = set_first_nl_contract env rsp c (g_stDMO s) (n\<lparr>m_oContractsMap := []\<rparr>)
        in in_nlme (\<lambda>_. inherit_request_id cid saved n)
             (s\<lparr>g_oDmoContractsMap := [(cid, c\<lparr>m_nUsageCount := 0\<rparr>)], g_unSysMngContractID := cid,
                g_ucJoinStatus := (if r = SFC_SUCCESS then DEVICE_SEND_SEC_CONFIRM_REQ else g_ucJoinStatus s)\<rparr>))"

section \<open>Time\<close>

definition expired :: "u32 \<Rightarrow> DMO_CONTRACT_ATTRIBUTE \<Rightarrow> bool" where
  "expired now c \<longleftrightarrow> m_ulActivationTAI c < now \<and> m_ucContractStatus c \<noteq> CONTRACT_PENDING_FAILED"

definition time_out :: "u32 \<Rightarrow> DMO_CONTRACT_ATTRIBUTE \<Rightarrow> DMO_CONTRACT_ATTRIBUTE" where
  "time_out now c = (if expired now c then c\<lparr>m_ucContractStatus := CONTRACT_PENDING_FAILED\<rparr> else c)"

definition DMO_TimeoutContractReqs :: "dmo_env \<Rightarrow> dmo_state \<Rightarrow> dmo_state" where
  "DMO_TimeoutContractReqs env s =
     (let late = filter (\<lambda>(k, c). expired (now_of env) c) (g_oPendingContractRspMap s) in
      tell (map (\<lambda>(k, c). UAP_NotifyContractFailure (time_out (now_of env) c)) late)
        (s\<lparr>g_oPendingContractRspMap := map (\<lambda>(k, c). (k, time_out (now_of env) c)) (g_oPendingContractRspMap s),
           g_ucContractRspPending := g_ucContractRspPending s - of_nat (length late)\<rparr>))"

text \<open>\<^verbatim>\<open>DMO_Init\<close>: the structure from \<^verbatim>\<open>m_ulUptime\<close> on is cleared; the device has no non-volatile memory, so no restart alarm.\<close>

definition DMO_Init :: "dmo_state \<Rightarrow> dmo_state" where
  "DMO_Init s =
     (let d = g_stDMO s in
      s\<lparr>g_stDMO := d\<lparr>m_unRestartCount := m_unRestartCount d + 1, m_ulUsedDevMem := 0, m_ulUptime := 0, m_unShortAddr := 0,
          m_unSysMngShortAddr := 0, m_unSysMngEUI64 := replicate 8 0, m_unAssignedDevRole := 0, m_ucPWRStatus := 0,
          m_ucDMAPState := 0, m_unStaticRevLevel := 0,
          m_unContractReqTimeout := ucast (m_ucMaxClntSrvRetries d) * m_unMaxRetryToutInterval d,
          m_unWarmRestartAttemptTout := 60, m_ucJoinCommand := 0,
          m_stPwrAlertDescriptor := APP_ALERT_DESCRIPTOR.make 0 0\<rparr>,
        g_ucContractRspPending := 0, g_oDmoContractsMap := [], g_oPendingContractRspMap := []\<rparr>)"

definition power_alert :: "DMO_ATTRIBUTES \<Rightarrow> raised_alert" where
  "power_alert d = (ALERT_INFO.make 0xF0B0 DMAP_DMO_OBJ_ID 0 0 1 0 (APP_ALERT_DESCRIPTOR.m_ucPriority (m_stPwrAlertDescriptor d)) 1, [m_ucPWRStatus d])"

definition DMO_checkPowerStatusAlert :: "dmo_state \<Rightarrow> dmo_state" where
  "DMO_checkPowerStatusAlert s =
     (let d = g_stDMO s;
          s' = (if ucLastPwrStatus s \<noteq> 0xFF \<and> ucLastPwrStatus s \<noteq> m_ucPWRStatus d
                   \<and> m_bAlertReportDisabled (m_stPwrAlertDescriptor d) \<noteq> 0
                then tell [ARMO_ALERT (power_alert d)] s else s)
      in s'\<lparr>ucLastPwrStatus := m_ucPWRStatus d\<rparr>)"

definition one_second_counters :: "dmo_env \<Rightarrow> dmo_state \<Rightarrow> dmo_state" where
  "one_second_counters env s =
     DMO_TimeoutContractReqs env (s\<lparr>g_stDMO := (g_stDMO s)\<lparr>m_ulUptime := m_ulUptime (g_stDMO s) + 1\<rparr>\<rparr>)"

definition DMO_PerformOneSecondTasks :: "dmo_env \<Rightarrow> dmo_state \<Rightarrow> dmo_state" where
  "DMO_PerformOneSecondTasks env s =
     (let s = one_second_counters env s;
          cmd = m_ucJoinCommand (g_stDMO s);
          s = (if cmd = 4 then tell [DPO_ResetToDefault, DMAP_DLMO_ResetStack] s
               else if cmd = 3 \<or> cmd = 2 then tell [DMAP_DLMO_ResetStack] s else s)
      in if g_ucJoinStatus s = DEVICE_JOINED then DMO_checkPowerStatusAlert s else s)"

section \<open>Pending requests stand under their identifiers\<close>

definition keyed :: "pending_map \<Rightarrow> bool" where
  "keyed m \<longleftrightarrow> sorted_map m \<and> (\<forall>(k, c)\<in>set m. DMO_CONTRACT_ATTRIBUTE.m_unContractID c = ucast k)"

definition req_inv :: "dmo_state \<Rightarrow> bool" where
  "req_inv s \<longleftrightarrow> keyed (g_oPendingContractRspMap s) \<and> sorted_map (g_oDmoContractsMap s)
     \<and> (\<forall>(k, c)\<in>set (g_oDmoContractsMap s). DMO_CONTRACT_ATTRIBUTE.m_unContractID c = k)"

lemma keyed_put: "keyed m \<Longrightarrow> DMO_CONTRACT_ATTRIBUTE.m_unContractID c = ucast k \<Longrightarrow> keyed (map_put k c m)"
  using set_map_put [of k c m] by (auto simp: keyed_def)

lemma keyed_erase: "keyed m \<Longrightarrow> keyed (map_erase k m)"
  by (auto simp: keyed_def map_erase_def)

lemma keyed_look: "keyed m \<Longrightarrow> map_of m k = Some c \<Longrightarrow> DMO_CONTRACT_ATTRIBUTE.m_unContractID c = ucast k"
  by (auto simp: keyed_def dest: map_of_SomeD)

lemma unat_ucast_u8_u16 [simp]: "unat (ucast (x :: u8) :: u16) = unat x"
  using unat_u8_less [of x] by (simp add: unsigned_ucast_eq take_bit_nat_eq_self)

lemma ucast_u8_u16_eq [simp]: "(ucast (a :: u8) :: u16) = ucast b \<longleftrightarrow> a = b"
  by (metis unat_ucast_u8_u16 word_unat_eq_iff)

text \<open>The first identifier from \<open>t\<close> on that is not in a sorted list, as the loop finds it.\<close>

fun first_free :: "u8 \<Rightarrow> u8 list \<Rightarrow> u8" where
  "first_free t [] = t"
| "first_free t (k # ks) = first_free (if t = k then t + 1 else t) ks"

fun first_free_below :: "u8 \<Rightarrow> u8 \<Rightarrow> u8 list \<Rightarrow> u8" where
  "first_free_below b t [] = t"
| "first_free_below b t (k # ks) = first_free_below b (if t = k \<and> t < b then t + 1 else t) ks"

lemma unat_u8_Suc: "unat ((x :: u8) + 1) = (if unat x = 255 then 0 else Suc (unat x))"
  using unat_u8_less [of x] by (simp add: unat_word_ariths mod_Suc)

lemma first_free:
  assumes "sorted_wrt (<) ks"
  shows "t \<le> first_free t ks \<and> first_free t ks \<notin> set ks \<and> (\<forall>j\<ge>t. j < first_free t ks \<longrightarrow> j \<in> set ks)
     \<or> first_free t ks = 0 \<and> (\<forall>j\<ge>t. j \<in> set ks)"
  using assms
proof (induction ks arbitrary: t)
  case (Cons k ks)
  then have ks: "sorted_wrt (<) ks" "\<forall>j\<in>set ks. k < j" by simp_all
  show ?case
  proof (cases "t = k")
    case True
    show ?thesis
    proof (cases "unat k = 255")
      case max: True
      then have "ks = []" using ks(2) unat_u8_less [of "hd ks"] by (cases ks) (auto simp: word_less_nat_alt)
      moreover have "k + 1 = 0" using max by (simp add: word_unat_eq_iff unat_u8_Suc)
      moreover have "j = k" if "k \<le> j" for j
        using that max unat_u8_less [of j] by (simp add: word_unat_eq_iff word_le_nat_alt)
      ultimately show ?thesis using True by auto
    next
      case False
      then have "k + 1 \<le> j \<longleftrightarrow> k < j" for j by (simp add: word_le_nat_alt word_less_nat_alt unat_u8_Suc Suc_le_eq)
      with Cons.IH [OF ks(1), of "k + 1"] True show ?thesis
        by (auto simp: le_less)
    qed
  next
    case False
    have "first_free t ks \<noteq> k" if "t \<le> first_free t ks" "\<forall>j\<ge>t. j < first_free t ks \<longrightarrow> j \<in> set ks"
      using that ks(2) False by (metis order_le_less order_less_asym)
    with Cons.IH [OF ks(1), of t] False show ?thesis by auto
  qed
qed (simp add: leD)

lemma first_free_below:
  assumes "sorted_wrt (<) ks" and "t \<le> b"
  shows "t \<le> first_free_below b t ks \<and> first_free_below b t ks < b \<and> first_free_below b t ks \<notin> set ks
       \<and> (\<forall>j\<ge>t. j < first_free_below b t ks \<longrightarrow> j \<in> set ks)
     \<or> first_free_below b t ks = b \<and> (\<forall>j\<ge>t. j < b \<longrightarrow> j \<in> set ks)"
  using assms
proof (induction ks arbitrary: t)
  case (Cons k ks)
  then have ks: "sorted_wrt (<) ks" "\<forall>j\<in>set ks. k < j" by simp_all
  show ?case
  proof (cases "t = k \<and> t < b")
    case True
    then have "unat k \<noteq> 255" using unat_u8_less [of b] by (auto simp: word_less_nat_alt)
    then have "k + 1 \<le> j \<longleftrightarrow> k < j" for j by (simp add: word_le_nat_alt word_less_nat_alt unat_u8_Suc Suc_le_eq)
    moreover have "first_free_below b t (k # ks) = first_free_below b (k + 1) ks" using True by auto
    moreover define r where "r = first_free_below b (k + 1) ks"
    moreover have "k + 1 \<le> r \<and> r < b \<and> r \<notin> set ks \<and> (\<forall>j\<ge>k + 1. j < r \<longrightarrow> j \<in> set ks) \<or> r = b \<and> (\<forall>j\<ge>k + 1. j < b \<longrightarrow> j \<in> set ks)"
      using Cons.IH [OF ks(1), of "k + 1"] calculation(1) True unfolding r_def by blast
    ultimately show ?thesis using True by (metis insert_iff less_le list.simps(15) order_less_imp_not_eq2)
  next
    case False
    have "first_free_below b t ks \<noteq> k" if "t \<le> first_free_below b t ks" "first_free_below b t ks < b"
      "\<forall>j\<ge>t. j < first_free_below b t ks \<longrightarrow> j \<in> set ks"
      using that ks(2) False by (metis order_le_less order_less_asym)
    moreover have "first_free_below b t (k # ks) = first_free_below b t ks" using False by auto
    ultimately show ?thesis using Cons.IH [OF ks(1), of t] Cons.prems(2) by auto
  qed
qed (auto simp: le_less)

definition concerns :: "u8 \<Rightarrow> ipv6 \<Rightarrow> u16 \<Rightarrow> u16 \<Rightarrow> u8 \<Rightarrow> DMO_CONTRACT_ATTRIBUTE \<Rightarrow> bool" where
  "concerns st dst dport sport srv c \<longleftrightarrow>
     matches dst dport sport c \<and> (srv = ANY_SERVICE_TYPE \<and> wanted st c \<or> srv = m_ucServiceType c)"

lemma scan_cases:
  "(\<exists>k c. (k, c) \<in> set m \<and> concerns st dst dport sport srv c
      \<and> pending_scan st dst dport sport srv start m z = (if wanted st c then Pending k c else NotPending c))
   \<or> (\<forall>(k, c)\<in>set m. \<not> concerns st dst dport sport srv c) \<and> (\<exists>z'. pending_scan st dst dport sport srv start m z = Absent z')"
proof (induction m arbitrary: z)
  case (Cons e m)
  obtain k c where e: "e = (k, c)" by fastforce
  show ?case
  proof (cases "concerns st dst dport sport srv c")
    case True
    then have "pending_scan st dst dport sport srv start (e # m) z = (if wanted st c then Pending k c else NotPending c)"
      by (auto simp: e concerns_def Let_def)
    with True show ?thesis unfolding e by (intro disjI1 exI [of _ k] exI [of _ c]) (simp del: pending_scan.simps)
  next
    case False
    then have step: "pending_scan st dst dport sport srv start (e # m) z = pending_scan st dst dport sport srv start m (scan_entry start c z)"
      by (auto simp: e concerns_def Let_def)
    from Cons.IH [of "scan_entry start c z"] show ?thesis
    proof
      assume "\<exists>k c'. (k, c') \<in> set m \<and> concerns st dst dport sport srv c'
        \<and> pending_scan st dst dport sport srv start m (scan_entry start c z) = (if wanted st c' then Pending k c' else NotPending c')"
      then show ?thesis by (intro disjI1) (metis step list.set_intros(2))
    next
      assume "(\<forall>(k, c)\<in>set m. \<not> concerns st dst dport sport srv c)
        \<and> (\<exists>z'. pending_scan st dst dport sport srv start m (scan_entry start c z) = Absent z')"
      with False show ?thesis unfolding step by (intro disjI2) (simp add: e)
    qed
  qed
qed simp

lemma scan_entry_fields:
  assumes "DMO_CONTRACT_ATTRIBUTE.m_unContractID c = ucast k"
  shows "ucTentativeReqID (scan_entry start c z) = (if ucTentativeReqID z = k then ucTentativeReqID z + 1 else ucTentativeReqID z)"
    and "ucTentativeReqIDWrapped (scan_entry start c z) =
      (if ucTentativeReqIDWrapped z = k \<and> ucTentativeReqIDWrapped z < start then ucTentativeReqIDWrapped z + 1 else ucTentativeReqIDWrapped z)"
  by (auto simp: scan_entry_def Let_def assms)

lemma scan_absent:
  assumes "keyed m" and "pending_scan st dst dport sport srv start m z = Absent z'"
  shows "ucTentativeReqID z' = first_free (ucTentativeReqID z) (map fst m)
    \<and> ucTentativeReqIDWrapped z' = first_free_below start (ucTentativeReqIDWrapped z) (map fst m)"
  using assms
proof (induction m arbitrary: z)
  case (Cons e m)
  obtain k c where e: "e = (k, c)" by fastforce
  with Cons.prems have "keyed m" and k: "DMO_CONTRACT_ATTRIBUTE.m_unContractID c = ucast k"
    by (auto simp: keyed_def sorted_map_Cons)
  moreover have "pending_scan st dst dport sport srv start m (scan_entry start c z) = Absent z'"
    using Cons.prems(2) by (auto simp: e Let_def split: if_splits)
  ultimately show ?case using Cons.IH [of "scan_entry start c z"] by (simp add: e scan_entry_fields)
qed simp

lemma keyed_sorted_keys: "keyed m \<Longrightarrow> sorted_wrt (<) (map fst m)"
  by (simp add: keyed_def sorted_map_def)

lemma all_ids_used: "(\<forall>j :: u8. j \<in> set (map fst m)) \<longleftrightarrow> set (map fst m) = UNIV"
  by auto

lemma ids_available:
  assumes "length m < 256"
  shows "\<exists>j :: u8. j \<notin> set (map fst m)"
proof -
  have "card (set (map fst m)) < card (UNIV :: u8 set)"
    using assms card_length [of "map fst m"] by (simp add: card_word)
  then show ?thesis by (metis UNIV_I UNIV_eq_I less_irrefl)
qed

lemma scan_bounds:
  assumes inv: "keyed m" and z: "pending_scan st dst dport sport srv b m
      \<lparr>ucTentativeReqID = b, ucTentativeReqIDWrapped = 0, ucReclaimableReqID = r, bFoundReclaimableID = False\<rparr> = Absent z"
  shows "b \<le> ucTentativeReqID z \<and> ucTentativeReqID z \<notin> set (map fst m)
    \<or> ucTentativeReqID z = 0 \<and> (\<forall>j\<ge>b. j \<in> set (map fst m))"
    and "ucTentativeReqIDWrapped z < b \<and> ucTentativeReqIDWrapped z \<notin> set (map fst m)
    \<or> ucTentativeReqIDWrapped z = b \<and> (\<forall>j<b. j \<in> set (map fst m))"
proof -
  have "ucTentativeReqID z = first_free b (map fst m)" "ucTentativeReqIDWrapped z = first_free_below b 0 (map fst m)"
    using scan_absent [OF inv z] by simp_all
  then show "b \<le> ucTentativeReqID z \<and> ucTentativeReqID z \<notin> set (map fst m)
    \<or> ucTentativeReqID z = 0 \<and> (\<forall>j\<ge>b. j \<in> set (map fst m))"
    "ucTentativeReqIDWrapped z < b \<and> ucTentativeReqIDWrapped z \<notin> set (map fst m)
    \<or> ucTentativeReqIDWrapped z = b \<and> (\<forall>j<b. j \<in> set (map fst m))"
    using first_free [OF keyed_sorted_keys [OF inv], of b] first_free_below [OF keyed_sorted_keys [OF inv], of 0 b]
    by (metis word_zero_le)+
qed

lemma new_request_id:
  assumes inv: "keyed (g_oPendingContractRspMap s)" and srv: "srv \<noteq> ANY_SERVICE_TYPE"
    and none: "\<forall>(k, c)\<in>set (g_oPendingContractRspMap s). \<not> concerns st dst dport sport srv c"
    and free: "length (g_oPendingContractRspMap s) < 256"
  shows "\<exists>i. DMO_IsPendingContractRequest env st dst dport sport srv True s = Some (s\<lparr>s_ucContractReqID := i + 1\<rparr>, None, Some i)
    \<and> map_of (g_oPendingContractRspMap s) i = None"
proof -
  let ?m = "g_oPendingContractRspMap s" and ?b = "s_ucContractReqID s"
  let ?z = "\<lparr>ucTentativeReqID = ?b, ucTentativeReqIDWrapped = 0, ucReclaimableReqID = rand_octet env, bFoundReclaimableID = False\<rparr>"
  obtain z where z: "pending_scan st dst dport sport srv ?b ?m ?z = Absent z"
    using scan_cases [of ?m st dst dport sport srv ?b ?z] none by blast
  note b = scan_bounds [OF inv z]
  show ?thesis
  proof (cases "?b \<le> ucTentativeReqID z \<and> ucTentativeReqID z \<notin> set (map fst ?m)")
    case True
    then show ?thesis by (intro exI [of _ "ucTentativeReqID z"]) (simp add: DMO_IsPendingContractRequest_def z srv map_of_eq_None_iff)
  next
    case False
    then have all: "ucTentativeReqID z = 0" "\<forall>j\<ge>?b. j \<in> set (map fst ?m)" using b(1) by blast+
    then have low: "ucTentativeReqIDWrapped z < ?b" "ucTentativeReqIDWrapped z \<notin> set (map fst ?m)"
      using b(2) ids_available [OF free] by (metis linorder_not_less)+
    then have "\<not> ?b \<le> ucTentativeReqID z" using all(1) by (metis linorder_not_less order_le_less_trans word_zero_le)
    with low show ?thesis
      by (intro exI [of _ "ucTentativeReqIDWrapped z"]) (simp add: DMO_IsPendingContractRequest_def z srv map_of_eq_None_iff)
  qed
qed

text \<open>The identifier that is reclaimed is always in the map: the search does not come to it unless all of them are.\<close>

lemma search_returns:
  assumes inv: "keyed (g_oPendingContractRspMap s)"
  shows "DMO_IsPendingContractRequest env st dst dport sport srv want s \<noteq> None"
proof -
  let ?m = "g_oPendingContractRspMap s" and ?b = "s_ucContractReqID s"
  let ?z = "\<lparr>ucTentativeReqID = ?b, ucTentativeReqIDWrapped = 0, ucReclaimableReqID = rand_octet env, bFoundReclaimableID = False\<rparr>"
  consider k c where "pending_scan st dst dport sport srv ?b ?m ?z = (if wanted st c then Pending k c else NotPending c)"
    | z where "pending_scan st dst dport sport srv ?b ?m ?z = Absent z"
    using scan_cases [of ?m st dst dport sport srv ?b ?z] by blast
  then show ?thesis
  proof cases
    case 1
    then show ?thesis by (simp add: DMO_IsPendingContractRequest_def)
  next
    case 2
    note b = scan_bounds [OF inv 2]
    show ?thesis
    proof (cases "?b \<le> ucTentativeReqID z \<or> ucTentativeReqIDWrapped z < ?b")
      case True
      then show ?thesis by (auto simp: DMO_IsPendingContractRequest_def 2 Let_def)
    next
      case False
      then have "ucReclaimableReqID z \<in> set (map fst ?m)" using b by (metis linorder_not_less)
      then obtain c where "map_of ?m (ucReclaimableReqID z) = Some c" by (cases "map_of ?m (ucReclaimableReqID z)") (auto simp: map_of_eq_None_iff)
      then show ?thesis using False by (simp add: DMO_IsPendingContractRequest_def 2 Let_def)
    qed
  qed
qed

lemma search_found:
  assumes "DMO_IsPendingContractRequest env st dst dport sport srv want s = Some (s', Some (k, c), r)"
  shows "s' = s" and "(k, c) \<in> set (g_oPendingContractRspMap s)" and "matches dst dport sport c" and "wanted st c"
proof -
  let ?m = "g_oPendingContractRspMap s" and ?b = "s_ucContractReqID s"
  let ?z = "\<lparr>ucTentativeReqID = ?b, ucTentativeReqIDWrapped = 0, ucReclaimableReqID = rand_octet env, bFoundReclaimableID = False\<rparr>"
  have p: "pending_scan st dst dport sport srv ?b ?m ?z = Pending k c" and "s' = s"
    using assms by (auto simp: DMO_IsPendingContractRequest_def Let_def split: scan_result.splits if_splits option.splits)
  then show "s' = s" "(k, c) \<in> set (g_oPendingContractRspMap s)" "matches dst dport sport c" "wanted st c"
    using scan_cases [of ?m st dst dport sport srv ?b ?z] by (auto simp: concerns_def split: if_splits)
qed

lemma search_frame:
  assumes "DMO_IsPendingContractRequest env st dst dport sport srv want s = Some (s', p, r)"
  shows "g_oDmoContractsMap s' = g_oDmoContractsMap s" and "keyed (g_oPendingContractRspMap s) \<Longrightarrow> keyed (g_oPendingContractRspMap s')"
    and "\<not> want \<Longrightarrow> s' = s" and "want \<Longrightarrow> srv \<noteq> ANY_SERVICE_TYPE \<Longrightarrow> r \<noteq> None"
  using assms by (auto simp: DMO_IsPendingContractRequest_def Let_def keyed_put keyed_look
      split: scan_result.splits if_splits option.splits)

section \<open>A request to the system manager is queued\<close>

lemma length_contract_request: "length (m_aDstAddr128 c) = 16 \<Longrightarrow> length (contract_request c t) \<le> 39"
  by (simp add: contract_request_def DMO_InsertBandwidthInfo_def DMAP_InsertUint16_def DMAP_InsertUint32_def)

definition carries :: "u8 \<Rightarrow> u8 list \<Rightarrow> CAslTxMsg \<Rightarrow> bool" where
  "carries meth req msg \<longleftrightarrow> (\<exists>q n. ASLSRVC_setExecuteReqObj (mem_of req)
     (EXEC_REQ_SRVC.make DMAP_DMO_OBJ_ID SM_SCO_OBJ_ID q meth (of_nat (length req)) 0) n = Some (m_oTxApduData msg))"

text \<open>The device has a contract with the system manager, also in the network layer, and is not a backbone router that keeps quiet.\<close>

definition manager_known :: "dmo_env \<Rightarrow> dmo_state \<Rightarrow> bool" where
  "manager_known env s \<longleftrightarrow> \<not> device_is_bbr (asl_cfg (sl_env env)) \<and>
     (case DMO_FindContract (g_unSysMngContractID s) s of None \<Rightarrow> False
      | Some sm \<Rightarrow> find_ref (DMO_CONTRACT_ATTRIBUTE.m_unContractID sm) (dm_asl s) \<noteq> None)"

lemma lock_find_ref: "find_ref cid a = Some w \<Longrightarrow> \<exists>c. lock w a = Some c"
  by (auto simp: find_ref_def lock_def)

lemma find_ref_store: "lock w a = Some c \<Longrightarrow> find_ref j (store_contract w d a) = find_ref j a"
  by (auto simp: find_ref_def lock_def store_contract_def map_of_AList_update split: option.splits if_splits)

lemma exec_request_msg:
  fixes req :: "u8 list" and src dst :: u16 and meth :: u8
  defines "y \<equiv> \<lambda>q. EXEC_REQ_SRVC.make src dst q meth (of_nat (length req)) 0"
  assumes "\<not> device_is_bbr cfg" and "p_pDstAddr x = None" and w: "find_ref (p_unContractID x) a = Some w" and c: "lock w a = Some c"
    and "length req \<le> 1000"
  defines "q \<equiv> NLME_CONTRACT_ATTRIBUTES.m_ucReqID c"
  shows "\<exists>apdu. ASLSRVC_setExecuteReqObj (mem_of req) (y q) 65535 = Some apdu
    \<and> ASLSRVC_AddGenericObject cfg (mem_of req) x (Service (ExecReq (y 0))) a =
        ((store_contract w (c\<lparr>NLME_CONTRACT_ATTRIBUTES.m_ucReqID := q + 1\<rparr>) a)\<lparr>g_oAslMsgListTx := g_oAslMsgListTx a
           @ [\<lparr>m_pWeakContract = w, m_stQueueHdr = queue_header cfg (mem_of req) (x\<lparr>ADD_ARGS.p_ucAllowEncryption := 1\<rparr>) (Service (ExecReq (y q))) c apdu,
               m_oTxApduData = apdu\<rparr>]\<rparr>, SFC_SUCCESS)"
proof -
  have u: "unat (of_nat (length req) :: u16) = length req"
    using assms(6) by (simp add: unsigned_of_nat take_bit_nat_eq_self)
  obtain apdu where n: "ASLSRVC_setExecuteReqObj (mem_of req) (y q) 65535 = Some apdu"
    using assms(6) u by (auto simp: y_def ASLSRVC_setExecuteReqObj_def EXEC_REQ_SRVC.make_def)
  have y: "assign_request_id q (Service (ExecReq (y 0))) = Service (ExecReq (y q))" by (simp add: y_def EXEC_REQ_SRVC.make_def)
  have r: "request_id (Service (ExecReq (y q))) = Some q" by (simp add: y_def EXEC_REQ_SRVC.make_def)
  define x' where "x' = x\<lparr>ADD_ARGS.p_ucAllowEncryption := 1\<rparr>"
  have x: "p_pDstAddr x' = None" "p_unContractID x' = p_unContractID x" using assms(3) by (simp_all add: x'_def)
  let ?a = "store_contract w (c\<lparr>NLME_CONTRACT_ATTRIBUTES.m_ucReqID := q + 1\<rparr>) a"
  have "ASLSRVC_AddGenericObject cfg (mem_of req) x (Service (ExecReq (y 0))) a =
      ASLSRVC_AddGenericObjectEncryptableCore cfg (mem_of req) x' (Service (ExecReq (y q))) (Some w) a"
    unfolding ASLSRVC_AddGenericObject_def ASLSRVC_AddGenericObjectEncryptable_def x'_def [symmetric] x(2)
    by (simp add: w c y [unfolded q_def] q_def del: assign_request_id.simps)
  also have "\<dots> = (?a\<lparr>g_oAslMsgListTx := g_oAslMsgListTx ?a @ [\<lparr>m_pWeakContract = w,
      m_stQueueHdr = queue_header cfg (mem_of req) x' (Service (ExecReq (y q))) c apdu, m_oTxApduData = apdu\<rparr>]\<rparr>, SFC_SUCCESS)"
    using assms(2) by (simp add: ASLSRVC_AddGenericObjectEncryptableCore_def x(1) c r n q_def [symmetric] Let_def del: request_id.simps)
  finally show ?thesis using n by (simp add: x'_def)
qed

lemma exec_request_queued:
  assumes "\<not> device_is_bbr cfg" and "p_pDstAddr x = None" and "find_ref (p_unContractID x) a \<noteq> None" and "length req \<le> 1000"
  shows "\<exists>a' msg q. ASLSRVC_AddGenericObject cfg (mem_of req) x
      (Service (ExecReq (EXEC_REQ_SRVC.make src dst 0 meth (of_nat (length req)) 0))) a = (a', SFC_SUCCESS)
    \<and> g_oAslMsgListTx a' = g_oAslMsgListTx a @ [msg]
    \<and> ASLSRVC_setExecuteReqObj (mem_of req) (EXEC_REQ_SRVC.make src dst q meth (of_nat (length req)) 0) 65535 = Some (m_oTxApduData msg)
    \<and> (\<forall>j. find_ref j a' = find_ref j a)"
proof -
  obtain w c where w: "find_ref (p_unContractID x) a = Some w" "lock w a = Some c" using assms(3) lock_find_ref by blast
  have "find_ref j ((store_contract w d a)\<lparr>g_oAslMsgListTx := t\<rparr>) = find_ref j a" for j d t
    using find_ref_store [OF w(2), of j] by (simp add: find_ref_def)
  then show ?thesis using exec_request_msg [OF assms(1,2) w assms(4), of src dst meth] by fastforce
qed

lemma send_to_manager_frame:
  assumes "send_to_manager env sm meth req s = (s', r)"
  shows "\<exists>h a. s' = s\<lparr>g_unAppHandle := h, dm_asl := a\<rparr>"
  using assms by (auto simp: send_to_manager_def Let_def split: prod.splits)

lemma send_frame:
  assumes "DMO_sendContractRequest env k c t s = (s', r)"
  shows "\<exists>h a. s' = (if r = SFC_SUCCESS
     then s\<lparr>g_unAppHandle := h, dm_asl := a, g_oPendingContractRspMap := map_put k (c\<lparr>m_ucContractReqType := t, m_ulActivationTAI := deadline env s\<rparr>)
       (g_oPendingContractRspMap s), g_ucContractRspPending := g_ucContractRspPending s + 1\<rparr>
     else s\<lparr>g_unAppHandle := h, dm_asl := a\<rparr>)"
proof (cases "DMO_FindContract (g_unSysMngContractID s) s")
  case None
  with assms show ?thesis by (intro exI [of _ "g_unAppHandle s"] exI [of _ "dm_asl s"]) (simp add: DMO_sendContractRequest_def)
next
  case (Some sm)
  obtain s1 r1 where 1: "send_to_manager env sm SCO_REQ_CONTRACT (contract_request c t) s = (s1, r1)" by fastforce
  obtain h a where "s1 = s\<lparr>g_unAppHandle := h, dm_asl := a\<rparr>" using send_to_manager_frame [OF 1] by blast
  with assms Some 1 show ?thesis
    by (intro exI [of _ h] exI [of _ a]) (auto simp: DMO_sendContractRequest_def deadline_def split: if_splits)
qed

lemma send_queued:
  assumes "manager_known env s" and "length (m_aDstAddr128 c) = 16"
  shows "\<exists>s' msg. DMO_sendContractRequest env k c t s = (s', SFC_SUCCESS) \<and> manager_known env s'
    \<and> g_oAslMsgListTx (dm_asl s') = g_oAslMsgListTx (dm_asl s) @ [msg] \<and> carries SCO_REQ_CONTRACT (contract_request c t) msg"
proof -
  obtain sm where sm: "DMO_FindContract (g_unSysMngContractID s) s = Some sm"
      "find_ref (DMO_CONTRACT_ATTRIBUTE.m_unContractID sm) (dm_asl s) \<noteq> None" "\<not> device_is_bbr (asl_cfg (sl_env env))"
    using assms(1) by (auto simp: manager_known_def split: option.splits)
  define h where "h = (g_unAppHandle s + 1) AND 0xFFF"
  let ?req = "contract_request c t" and ?s = "s\<lparr>g_unAppHandle := h\<rparr>"
  obtain a' msg where q: "ASLSRVC_AddGenericObject (current_cfg env ?s) (mem_of ?req) (manager_args sm h)
      (Service (ExecReq (EXEC_REQ_SRVC.make DMAP_DMO_OBJ_ID SM_SCO_OBJ_ID 0 SCO_REQ_CONTRACT (of_nat (length ?req)) 0))) (dm_asl s) = (a', SFC_SUCCESS)"
      "g_oAslMsgListTx a' = g_oAslMsgListTx (dm_asl s) @ [msg]" "carries SCO_REQ_CONTRACT ?req msg" "\<forall>j. find_ref j a' = find_ref j (dm_asl s)"
    using exec_request_queued [of "current_cfg env ?s" "manager_args sm h" "dm_asl s" ?req DMAP_DMO_OBJ_ID SM_SCO_OBJ_ID SCO_REQ_CONTRACT] sm
      length_contract_request [OF assms(2), of t] by (auto simp: current_cfg_def manager_args_def carries_def)
  have "send_to_manager env sm SCO_REQ_CONTRACT ?req s = (?s\<lparr>dm_asl := a'\<rparr>, SFC_SUCCESS)"
    by (simp add: send_to_manager_def h_def [symmetric] q(1) Let_def)
  then show ?thesis
    using sm q(2-4) by (simp add: DMO_sendContractRequest_def manager_known_def DMO_FindContract_def)
qed

section \<open>A new key releases the requests that wait for it\<close>

definition waiting :: "ipv6 \<Rightarrow> u16 \<Rightarrow> u16 \<Rightarrow> DMO_CONTRACT_ATTRIBUTE \<Rightarrow> bool" where
  "waiting peer dport sport c \<longleftrightarrow> matches peer dport sport c \<and> m_ucContractStatus c = CONTRACT_PENDING_NO_KEY"

definition released :: "DMO_CONTRACT_ATTRIBUTE \<Rightarrow> DMO_CONTRACT_ATTRIBUTE \<Rightarrow> bool" where
  "released c d \<longleftrightarrow> (\<exists>a t. d = c\<lparr>m_ucContractStatus := CONTRACT_PENDING, m_ulActivationTAI := a, m_ucContractReqType := t\<rparr>)"

definition no_any :: "ipv6 \<Rightarrow> u16 \<Rightarrow> u16 \<Rightarrow> pending_map \<Rightarrow> bool" where
  "no_any peer dport sport m \<longleftrightarrow> (\<forall>(k, c)\<in>set m. matches peer dport sport c \<longrightarrow> m_ucServiceType c \<noteq> ANY_SERVICE_TYPE)"

lemma key_search:
  assumes "keyed (g_oPendingContractRspMap s)" and "no_any peer dport sport (g_oPendingContractRspMap s)"
  obtains (wait) k c where "map_of (g_oPendingContractRspMap s) k = Some c" "waiting peer dport sport c"
      "DMO_IsPendingContractRequest env CONTRACT_PENDING_NO_KEY peer dport sport ANY_SERVICE_TYPE False s = Some (s, Some (k, c), None)"
    | (finished) "\<forall>(k, c)\<in>set (g_oPendingContractRspMap s). \<not> waiting peer dport sport c"
      "DMO_IsPendingContractRequest env CONTRACT_PENDING_NO_KEY peer dport sport ANY_SERVICE_TYPE False s = Some (s, None, None)"
proof -
  let ?m = "g_oPendingContractRspMap s" and ?b = "s_ucContractReqID s"
  let ?z = "\<lparr>ucTentativeReqID = ?b, ucTentativeReqIDWrapped = 0, ucReclaimableReqID = rand_octet env, bFoundReclaimableID = False\<rparr>"
  have c: "concerns CONTRACT_PENDING_NO_KEY peer dport sport ANY_SERVICE_TYPE c \<longleftrightarrow> waiting peer dport sport c" if "(k, c) \<in> set ?m" for k c
    using assms(2) that by (auto simp: concerns_def waiting_def wanted_def no_any_def)
  consider k c where "(k, c) \<in> set ?m" "waiting peer dport sport c"
      "pending_scan CONTRACT_PENDING_NO_KEY peer dport sport ANY_SERVICE_TYPE ?b ?m ?z = Pending k c"
    | z where "\<forall>(k, c)\<in>set ?m. \<not> waiting peer dport sport c"
      "pending_scan CONTRACT_PENDING_NO_KEY peer dport sport ANY_SERVICE_TYPE ?b ?m ?z = Absent z"
    using scan_cases [of ?m CONTRACT_PENDING_NO_KEY peer dport sport ANY_SERVICE_TYPE ?b ?z] c
    by (fastforce simp: waiting_def wanted_def)
  then show thesis
  proof cases
    case 1
    then show ?thesis using assms(1) sorted_map_set [of ?m k c]
      by (intro wait [of k c]) (simp_all add: DMO_IsPendingContractRequest_def keyed_def)
  next
    case 2
    then show ?thesis by (intro finished) (simp_all add: DMO_IsPendingContractRequest_def)
  qed
qed

definition waiting_ids :: "ipv6 \<Rightarrow> u16 \<Rightarrow> u16 \<Rightarrow> dmo_state \<Rightarrow> u8 set" where
  "waiting_ids peer dport sport s = {k. \<exists>c. map_of (g_oPendingContractRspMap s) k = Some c \<and> waiting peer dport sport c}"

lemma finite_waiting: "finite (waiting_ids peer dport sport s)"
  by (rule finite_subset [OF subset_UNIV]) (simp add: finite)

text \<open>One round: the request found is marked, and sent if the application sublayer takes it.\<close>

lemma release_round:
  assumes inv: "keyed (g_oPendingContractRspMap s)" "no_any peer dport sport (g_oPendingContractRspMap s)"
    and c: "map_of (g_oPendingContractRspMap s) k = Some c" "waiting peer dport sport c"
    and s': "s' = release_one env k c s"
  shows "keyed (g_oPendingContractRspMap s')" and "no_any peer dport sport (g_oPendingContractRspMap s')"
    and "\<exists>d. released c d \<and> map_of (g_oPendingContractRspMap s') = (map_of (g_oPendingContractRspMap s))(k \<mapsto> d)"
    and "waiting_ids peer dport sport s' = waiting_ids peer dport sport s - {k}"
proof -
  let ?c = "c\<lparr>m_ucContractStatus := CONTRACT_PENDING\<rparr>"
  define s0 where "s0 = s\<lparr>g_ucContractRspPending := g_ucContractRspPending s - 1,
      g_oPendingContractRspMap := map_put k ?c (g_oPendingContractRspMap s)\<rparr>"
  obtain r where r: "DMO_sendContractRequest env k ?c CONTRACT_REQ_TYPE_NEW s0 = (s', r)"
    unfolding s' release_one_def Let_def s0_def by (metis prod.collapse)
  have srt: "sorted_map (g_oPendingContractRspMap s)" using inv(1) by (simp add: keyed_def)
  have id: "DMO_CONTRACT_ATTRIBUTE.m_unContractID c = ucast k" by (rule keyed_look [OF inv(1) c(1)])
  have "\<exists>d. released c d \<and> g_oPendingContractRspMap s' \<in> {map_put k d (g_oPendingContractRspMap s), map_put k d (map_put k ?c (g_oPendingContractRspMap s))}"
  proof (cases "r = SFC_SUCCESS")
    case True
    with send_frame [OF r] have "g_oPendingContractRspMap s' =
        map_put k (?c\<lparr>m_ucContractReqType := 0, m_ulActivationTAI := deadline env s0\<rparr>) (map_put k ?c (g_oPendingContractRspMap s))"
      by (auto simp: s0_def)
    moreover have "released c (?c\<lparr>m_ucContractReqType := 0, m_ulActivationTAI := deadline env s0\<rparr>)"
      unfolding released_def by (intro exI [of _ "deadline env s0"] exI [of _ 0]) simp
    ultimately show ?thesis by blast
  next
    case False
    with send_frame [OF r] have "g_oPendingContractRspMap s' = map_put k ?c (g_oPendingContractRspMap s)" by (auto simp: s0_def)
    moreover have "released c ?c"
      unfolding released_def by (intro exI [of _ "m_ulActivationTAI c"] exI [of _ "m_ucContractReqType c"]) simp
    ultimately show ?thesis by blast
  qed
  then obtain d where d: "released c d"
      "g_oPendingContractRspMap s' \<in> {map_put k d (g_oPendingContractRspMap s), map_put k d (map_put k ?c (g_oPendingContractRspMap s))}" by blast
  have dk: "DMO_CONTRACT_ATTRIBUTE.m_unContractID d = ucast k" "m_ucServiceType d = m_ucServiceType c" "\<not> waiting peer dport sport d"
    using d(1) id c(2) by (auto simp: released_def waiting_def)
  show kd: "keyed (g_oPendingContractRspMap s')" using d(2) inv(1) dk(1) id by (auto intro!: keyed_put)
  have m: "map_of (g_oPendingContractRspMap s') = (map_of (g_oPendingContractRspMap s))(k \<mapsto> d)" using d(2) srt by auto
  with d(1) show "\<exists>d. released c d \<and> map_of (g_oPendingContractRspMap s') = (map_of (g_oPendingContractRspMap s))(k \<mapsto> d)" by blast
  show "waiting_ids peer dport sport s' = waiting_ids peer dport sport s - {k}"
    using dk(3) by (auto simp: waiting_ids_def m)
  have "m_ucServiceType c \<noteq> ANY_SERVICE_TYPE"
    using inv(2) c(2) map_of_SomeD [OF c(1)] by (auto simp: no_any_def waiting_def)
  then show "no_any peer dport sport (g_oPendingContractRspMap s')"
    using inv(2) dk(2) srt kd by (fastforce simp: no_any_def keyed_def sorted_map_set m split: if_splits)
qed

definition all_released :: "ipv6 \<Rightarrow> u16 \<Rightarrow> u16 \<Rightarrow> pending_map \<Rightarrow> pending_map \<Rightarrow> bool" where
  "all_released peer dport sport m m' \<longleftrightarrow> (\<forall>k. case map_of m k of
     None \<Rightarrow> map_of m' k = None
   | Some c \<Rightarrow> if waiting peer dport sport c then \<exists>d. map_of m' k = Some d \<and> released c d else map_of m' k = Some c)"

definition all_sent :: "ipv6 \<Rightarrow> u16 \<Rightarrow> u16 \<Rightarrow> dmo_state \<Rightarrow> CAslTxMsg list \<Rightarrow> bool" where
  "all_sent peer dport sport s msgs \<longleftrightarrow> length msgs = card (waiting_ids peer dport sport s)
     \<and> (\<forall>k c. map_of (g_oPendingContractRspMap s) k = Some c \<longrightarrow> waiting peer dport sport c \<longrightarrow>
          (\<exists>msg\<in>set msgs. carries SCO_REQ_CONTRACT (contract_request c CONTRACT_REQ_TYPE_NEW) msg))"

lemma released_again: "released c d \<Longrightarrow> \<not> waiting peer dport sport d"
  by (auto simp: released_def waiting_def)

lemma all_released_step:
  assumes "map_of m1 = (map_of m)(k \<mapsto> d)" and "map_of m k = Some c" and "waiting peer dport sport c" and "released c d"
    and "all_released peer dport sport m1 m'"
  shows "all_released peer dport sport m m'"
  unfolding all_released_def
proof
  fix j
  show "case map_of m j of None \<Rightarrow> map_of m' j = None
    | Some c \<Rightarrow> if waiting peer dport sport c then \<exists>d. map_of m' j = Some d \<and> released c d else map_of m' j = Some c"
    using assms(5) [unfolded all_released_def, rule_format, of j] assms(1-4) released_again [OF assms(4)]
    by (cases "j = k") (auto split: option.splits)
qed

lemma release_one_sent:
  assumes "manager_known env s" and "length (m_aDstAddr128 c) = 16"
  shows "\<exists>msg. manager_known env (release_one env k c s) \<and> carries SCO_REQ_CONTRACT (contract_request c CONTRACT_REQ_TYPE_NEW) msg
    \<and> g_oAslMsgListTx (dm_asl (release_one env k c s)) = g_oAslMsgListTx (dm_asl s) @ [msg]"
proof -
  let ?c = "c\<lparr>m_ucContractStatus := CONTRACT_PENDING\<rparr>"
  let ?s = "s\<lparr>g_ucContractRspPending := g_ucContractRspPending s - 1, g_oPendingContractRspMap := map_put k ?c (g_oPendingContractRspMap s)\<rparr>"
  have "manager_known env ?s" using assms(1) by (simp add: manager_known_def DMO_FindContract_def split: option.splits)
  moreover have "contract_request ?c 0 = contract_request c 0" by (simp add: contract_request_def)
  ultimately show ?thesis using send_queued [of env ?s ?c k 0] assms(2) by (auto simp: release_one_def)
qed

lemma key_loop_releases:
  assumes "keyed (g_oPendingContractRspMap s)" and "no_any peer dport sport (g_oPendingContractRspMap s)"
  shows "\<exists>s'. key_added_loop env peer sport dport s = Some s' \<and> all_released peer dport sport (g_oPendingContractRspMap s) (g_oPendingContractRspMap s')
    \<and> (manager_known env s \<longrightarrow> length peer = 16 \<longrightarrow>
         (\<exists>msgs. g_oAslMsgListTx (dm_asl s') = g_oAslMsgListTx (dm_asl s) @ msgs \<and> all_sent peer dport sport s msgs))"
  using assms
proof (induction "card (waiting_ids peer dport sport s)" arbitrary: s rule: less_induct)
  case less
  note inv = less.prems
  show ?case
  proof (cases rule: key_search [OF inv, where env = env, case_names wait finished])
    case finished
    then have none: "\<not> waiting peer dport sport c" if "map_of (g_oPendingContractRspMap s) k = Some c" for k c
      using map_of_SomeD [OF that] by auto
    then have "all_released peer dport sport (g_oPendingContractRspMap s) (g_oPendingContractRspMap s)" "all_sent peer dport sport s []"
      by (auto simp: all_released_def all_sent_def waiting_ids_def split: option.split)
    moreover have "key_added_loop env peer sport dport s = Some s" by (subst key_added_loop.simps) (simp add: finished(2))
    ultimately show ?thesis by (intro exI [of _ s]) auto
  next
    case (wait k c)
    define s1 where "s1 = release_one env k c s"
    note round = release_round [OF inv wait(1,2) s1_def]
    have step: "key_added_loop env peer sport dport s = key_added_loop env peer sport dport s1"
      by (subst key_added_loop.simps) (simp add: wait(3) s1_def)
    have k: "k \<in> waiting_ids peer dport sport s" using wait(1,2) by (auto simp: waiting_ids_def)
    then have card: "Suc (card (waiting_ids peer dport sport s1)) = card (waiting_ids peer dport sport s)"
      unfolding round(4) using card_Suc_Diff1 [OF finite_waiting] by blast
    then obtain s' where s': "key_added_loop env peer sport dport s1 = Some s'"
        "all_released peer dport sport (g_oPendingContractRspMap s1) (g_oPendingContractRspMap s')"
        "manager_known env s1 \<longrightarrow> length peer = 16 \<longrightarrow>
           (\<exists>msgs. g_oAslMsgListTx (dm_asl s') = g_oAslMsgListTx (dm_asl s1) @ msgs \<and> all_sent peer dport sport s1 msgs)"
      using less.hyps [OF _ round(1,2)] by auto
    obtain d where d: "released c d" "map_of (g_oPendingContractRspMap s1) = (map_of (g_oPendingContractRspMap s))(k \<mapsto> d)"
      using round(3) by blast
    have "\<exists>msgs. g_oAslMsgListTx (dm_asl s') = g_oAslMsgListTx (dm_asl s) @ msgs \<and> all_sent peer dport sport s msgs"
      if mk: "manager_known env s" and l: "length peer = 16"
    proof -
      have "length (m_aDstAddr128 c) = 16" using wait(2) l by (simp add: waiting_def matches_def)
      then obtain msg where 1: "manager_known env s1" "carries SCO_REQ_CONTRACT (contract_request c CONTRACT_REQ_TYPE_NEW) msg"
          "g_oAslMsgListTx (dm_asl s1) = g_oAslMsgListTx (dm_asl s) @ [msg]"
        using release_one_sent [OF mk] unfolding s1_def by blast
      then obtain msgs where 2: "g_oAslMsgListTx (dm_asl s') = g_oAslMsgListTx (dm_asl s1) @ msgs" "all_sent peer dport sport s1 msgs"
        using s'(3) l by blast
      have "all_sent peer dport sport s (msg # msgs)"
        unfolding all_sent_def
      proof (intro conjI allI impI)
        show "length (msg # msgs) = card (waiting_ids peer dport sport s)" using 2(2) card by (simp add: all_sent_def)
        fix j e
        assume "map_of (g_oPendingContractRspMap s) j = Some e" "waiting peer dport sport e"
        then show "\<exists>m\<in>set (msg # msgs). carries SCO_REQ_CONTRACT (contract_request e CONTRACT_REQ_TYPE_NEW) m"
          using 1(2) 2(2) wait(1) d(2) by (cases "j = k") (auto simp: all_sent_def, metis)
      qed
      with 1(3) 2(1) show ?thesis by (intro exI [of _ "msg # msgs"]) simp
    qed
    with s'(1) all_released_step [OF d(2) wait(1,2) d(1) s'(2)] show ?thesis unfolding step by blast
  qed
qed

section \<open>Granted contracts\<close>

lemma granted_fields [simp]:
  "DMO_CONTRACT_ATTRIBUTE.m_unContractID (granted_contract rsp c) = DMAP_WriteUint16 rsp 2"
  "m_unDstTLPort (granted_contract rsp c) = m_unDstTLPort c" "m_unSrcTLPort (granted_contract rsp c) = m_unSrcTLPort c"
  "m_aDstAddr128 (granted_contract rsp c) = m_aDstAddr128 c" "m_ucServiceType (granted_contract rsp c) = rsp 4"
  "m_ucContractStatus (granted_contract rsp c) = CONTRACT_RSP_OK"
  by (simp_all add: granted_contract_def read_u8_def read_u16_def read_u32_def read_bandwidth_def extract_index Let_def case_prod_unfold)

lemma dmo_parameters_in_nlme:
  assumes "map_of (m_oContractsMap n) (DMO_CONTRACT_ATTRIBUTE.m_unContractID c) \<noteq> None \<or> length (m_oContractsMap n) < MAX_CONTRACT_NO"
  shows "\<exists>nc. NLME_FindContract (DMO_CONTRACT_ATTRIBUTE.m_unContractID c) (fst (NLME_AddDmoContract junk rnd c n)) = Some nc
    \<and> NLME_CONTRACT_ATTRIBUTES.m_unAssignedMaxNSDUSize nc = DMO_CONTRACT_ATTRIBUTE.m_unAssignedMaxNSDUSize c
    \<and> NLME_CONTRACT_ATTRIBUTES.m_ucMaxSendWindow nc = DMO_CONTRACT_BANDWIDTH.m_ucMaxSendWindow (m_stBandwidth c)
    \<and> (map_of (m_oContractsMap n) (DMO_CONTRACT_ATTRIBUTE.m_unContractID c) = None \<longrightarrow> NLME_CONTRACT_ATTRIBUTES.m_aDestAddress nc = m_aDstAddr128 c)"
  using assms by (auto simp: NLME_AddDmoContract_def NLME_FindContract_def Let_def map_of_AList_update split: option.splits)

lemma request_accepted:
  assumes req: "DMO_RequestNewContract env dst dport sport life srv prio maxSize rel bw s = Some (s1, SFC_SUCCESS, Some i)"
  shows "DMO_GetContract dst dport sport srv s = None" and "g_oDmoContractsMap s1 = g_oDmoContractsMap s"
    and "keyed (g_oPendingContractRspMap s) \<Longrightarrow> \<exists>c. map_of (g_oPendingContractRspMap s1) i = Some c \<and> matches dst dport sport c
      \<and> m_ucContractStatus c \<noteq> CONTRACT_PENDING_FAILED \<and> keyed (g_oPendingContractRspMap s1)"
proof -
  show none: "DMO_GetContract dst dport sport srv s = None"
    using req by (simp add: DMO_RequestNewContract_def split: option.splits)
  obtain s0 r where s0: "DMO_IsPendingContractRequest env CONTRACT_PENDING dst dport sport srv True s = Some (s0, None, r)"
    using req none by (auto simp: DMO_RequestNewContract_def split: option.splits)
  define i0 where "i0 = (case r of Some i \<Rightarrow> i | None \<Rightarrow> local_octet env)"
  define c where "c = requested_contract env dst dport sport life srv prio maxSize rel bw i0 s0"
  note eq = req [unfolded DMO_RequestNewContract_def none s0, simplified, folded i0_def, unfolded Let_def, folded c_def]
  note frame = search_frame [OF s0]
  have m: "matches dst dport sport c" "DMO_CONTRACT_ATTRIBUTE.m_unContractID c = ucast i0"
    by (simp_all add: c_def requested_contract_def matches_def)
  have "i = i0 \<and> g_oDmoContractsMap s1 = g_oDmoContractsMap s0 \<and> (\<exists>d m. g_oPendingContractRspMap s1 = map_put i0 d m \<and> matches dst dport sport d
      \<and> DMO_CONTRACT_ATTRIBUTE.m_unContractID d = ucast i0 \<and> m_ucContractStatus d \<noteq> CONTRACT_PENDING_FAILED
      \<and> m \<in> {g_oPendingContractRspMap s0, map_put i0 (c\<lparr>m_ucContractStatus := CONTRACT_PENDING\<rparr>) (g_oPendingContractRspMap s0)})"
  proof (cases "m_ucTLSecurityLevel (slme_state.g_stDSMO (dm_slme s0)) \<noteq> SECURITY_NONE
      \<and> fst (SLME_FindTxKey (now_of env) (Some dst) sport dport (dm_slme s0)) = None")
    case True
    obtain a where "i = i0" "s1 = s0\<lparr>dm_asl := a, g_ucContractRspPending := g_ucContractRspPending s0 + 1,
        g_oPendingContractRspMap := map_put i0 (c\<lparr>m_ucContractStatus := CONTRACT_PENDING_NO_KEY\<rparr>) (g_oPendingContractRspMap s0)\<rparr>"
      using eq True by (auto split: if_splits prod.splits)
    then show ?thesis using m
      by (intro conjI exI [of _ "c\<lparr>m_ucContractStatus := CONTRACT_PENDING_NO_KEY\<rparr>"] exI [of _ "g_oPendingContractRspMap s0"])
        (simp_all add: matches_def)
  next
    case False
    let ?c = "c\<lparr>m_ucContractStatus := CONTRACT_PENDING\<rparr>"
    let ?m = "map_put i0 ?c (g_oPendingContractRspMap s0)"
    have "i = i0" and snt: "DMO_sendContractRequest env i0 ?c CONTRACT_REQ_TYPE_NEW (s0\<lparr>g_oPendingContractRspMap := ?m\<rparr>) = (s1, SFC_SUCCESS)"
      using eq False by (auto split: if_splits prod.splits)
    let ?d = "?c\<lparr>m_ucContractReqType := 0, m_ulActivationTAI := deadline env (s0\<lparr>g_oPendingContractRspMap := ?m\<rparr>)\<rparr>"
    have "g_oPendingContractRspMap s1 = map_put i0 ?d ?m" "g_oDmoContractsMap s1 = g_oDmoContractsMap s0"
      using send_frame [OF snt] by auto
    then show ?thesis using m \<open>i = i0\<close> by (intro conjI exI [of _ ?d] exI [of _ ?m]) (simp_all add: matches_def)
  qed
  then obtain d m where d: "i = i0" "g_oDmoContractsMap s1 = g_oDmoContractsMap s0" "g_oPendingContractRspMap s1 = map_put i0 d m"
      "matches dst dport sport d" "DMO_CONTRACT_ATTRIBUTE.m_unContractID d = ucast i0" "m_ucContractStatus d \<noteq> CONTRACT_PENDING_FAILED"
      "m \<in> {g_oPendingContractRspMap s0, map_put i0 (c\<lparr>m_ucContractStatus := CONTRACT_PENDING\<rparr>) (g_oPendingContractRspMap s0)}" by blast
  show "g_oDmoContractsMap s1 = g_oDmoContractsMap s" using d(2) frame(1) by simp
  assume "keyed (g_oPendingContractRspMap s)"
  then have "keyed m" using d(7) frame(2) m(2) by (auto intro: keyed_put)
  moreover have "map_of (g_oPendingContractRspMap s1) i0 = Some d" using calculation d(3) by (simp add: keyed_def)
  ultimately show "\<exists>c. map_of (g_oPendingContractRspMap s1) i = Some c \<and> matches dst dport sport c
      \<and> m_ucContractStatus c \<noteq> CONTRACT_PENDING_FAILED \<and> keyed (g_oPendingContractRspMap s1)"
    using d(1,4-6) keyed_put [of m d i0] by (simp add: d(3))
qed

lemma find_only:
  assumes "(k, c) \<in> set m" and "P c" and "\<And>j d. (j, d) \<in> set m \<Longrightarrow> P d \<Longrightarrow> d = c"
  shows "find P (map snd m) = Some c"
proof -
  have "find P (map snd m) \<noteq> None" using assms(1,2) unfolding find_None_iff by force
  then obtain d where d: "find P (map snd m) = Some d" by blast
  then have "d \<in> set (map snd m)" "P d" by (auto simp: find_Some_iff)
  with d assms(3) show ?thesis by force
qed

lemma granted_result:
  assumes inv: "req_inv s" and c: "map_of (g_oPendingContractRspMap s) (rsp 0) = Some c" "m_ucContractStatus c \<noteq> CONTRACT_PENDING_FAILED"
    and ok: "rsp 1 = CONTRACT_RSP_OK" and new: "length (g_oDmoContractsMap s) < MAX_CONTRACT_NO"
      "DMO_FindContract (DMAP_WriteUint16 rsp 2) s = None"
    and s': "s' = DMO_ProcessContractResponse env i SFC_SUCCESS rsp s"
  shows "g_oDmoContractsMap s' = map_put (DMAP_WriteUint16 rsp 2) (granted_contract rsp c) (g_oDmoContractsMap s)"
    and "map_of (g_oPendingContractRspMap s') (rsp 0) = None"
    and "asl_state.g_stNlme (dm_asl s') =
      fst (NLME_AddDmoContract (new_nl_contract env) (random_octet env) (granted_contract rsp c) (asl_state.g_stNlme (dm_asl s)))"
  using assms by (auto simp: DMO_ProcessContractResponse_def DMO_FindContract_def map_insert_def tell_def in_nlme_def Let_def)

end
