(* ===== verification/Dmo_Reach.thy ===== *)
theory Dmo_Reach
  imports Dmo_Requests
begin

text \<open>
  The device management object over time: every operation that changes its tables is a step, requests and contracts stand under their
  identifiers in every state that steps lead to, and the properties of requests, answers, keys and time-outs.
\<close>

section \<open>Reachable states\<close>

inductive dmo_step :: "dmo_state \<Rightarrow> dmo_state \<Rightarrow> bool" where
  execute: "dmo_step s (fst (DMO_Execute env meth len req s))"
| request: "DMO_RequestNewContract env dst dport sport life srv prio maxSize rel bw s = Some (s', sfc, i) \<Longrightarrow> dmo_step s s'"
| key_added: "DMO_NotifyNewKeyAdded env peer sport dport s = Some s' \<Longrightarrow> dmo_step s s'"
| terminate: "dmo_step s (fst (DMO_RequestContractTermination env cid opn s))"
| response: "dmo_step s (DMO_ProcessContractResponse env req0 sfc rsp s)"
| first: "dmo_step s (DMO_ProcessFirstContract env sfc len rsp s)"
| second: "dmo_step s (DMO_PerformOneSecondTasks env s)"
| restart: "dmo_step s (DMO_Init s)"
| other_layers: "dmo_step s (s\<lparr>dm_asl := a, dm_slme := k, g_ucJoinStatus := j, g_stDMO := d\<rparr>)"

inductive dmo_reach :: "dmo_state \<Rightarrow> bool" where
  init: "dmo_reach (DMO_Init s)"
| step: "dmo_reach s \<Longrightarrow> dmo_step s s' \<Longrightarrow> dmo_reach s'"

lemma contracts_keyed_put:
  assumes "sorted_map m" and "\<forall>(k, c)\<in>set m. DMO_CONTRACT_ATTRIBUTE.m_unContractID c = k" and "DMO_CONTRACT_ATTRIBUTE.m_unContractID c = k"
  shows "sorted_map (map_put k c m)" and "\<forall>(k, c)\<in>set (map_put k c m). DMO_CONTRACT_ATTRIBUTE.m_unContractID c = k"
  using assms set_map_put [of k c m] by auto

lemma req_inv_frame [simp]:
  "req_inv (tell es s) = req_inv s" "req_inv (in_nlme f s) = req_inv s" "req_inv (s\<lparr>g_ucContractRspPending := n\<rparr>) = req_inv s"
  "req_inv (s\<lparr>dm_asl := a\<rparr>) = req_inv s" "req_inv (s\<lparr>g_unAppHandle := h\<rparr>) = req_inv s" "req_inv (s\<lparr>ucLastPwrStatus := p\<rparr>) = req_inv s"
  "req_inv (s\<lparr>g_stDMO := d\<rparr>) = req_inv s" "req_inv (s\<lparr>s_ucContractReqID := i\<rparr>) = req_inv s" "req_inv (s\<lparr>dm_slme := k\<rparr>) = req_inv s"
  "req_inv (s\<lparr>g_ucJoinStatus := j\<rparr>) = req_inv s"
  by (simp_all add: req_inv_def)

lemma delete_inv: "req_inv s \<Longrightarrow> req_inv (fst (DMO_deleteContract k s))"
  by (auto simp: DMO_deleteContract_def req_inv_def map_erase_def split: option.splits)

lemma set_inv:
  assumes "req_inv s"
  shows "req_inv (fst (DMO_setContract env k m p n s))"
proof -
  define s1 where "s1 = (if k \<noteq> DMAP_WriteUint16 m p then fst (DMO_deleteContract k s) else s)"
  have 1: "req_inv s1" using assms delete_inv by (simp add: s1_def)
  then have "sorted_map (g_oDmoContractsMap s1)" "\<forall>(k, c)\<in>set (g_oDmoContractsMap s1). DMO_CONTRACT_ATTRIBUTE.m_unContractID c = k"
    by (simp_all add: req_inv_def)
  note put = contracts_keyed_put [OF this parse_index, of m p]
  show ?thesis
    using assms 1 put by (auto simp: DMO_setContract_def s1_def [symmetric] req_inv_def Let_def split: option.splits)
qed

lemma execute_inv: "req_inv s \<Longrightarrow> req_inv (fst (DMO_Execute env meth len req s))"
  by (simp add: DMO_Execute_def set_inv delete_inv)

lemma send_inv:
  assumes "req_inv s" and "DMO_CONTRACT_ATTRIBUTE.m_unContractID c = ucast k"
  shows "req_inv (fst (DMO_sendContractRequest env k c t s))"
proof -
  obtain s' r where r: "DMO_sendContractRequest env k c t s = (s', r)" by fastforce
  show ?thesis using send_frame [OF r] assms by (auto simp: r req_inv_def intro!: keyed_put split: if_splits)
qed

lemma search_inv:
  assumes "req_inv s" and "DMO_IsPendingContractRequest env st dst dport sport srv want s = Some (s', p, r)"
  shows "req_inv s'"
  using assms(1) search_frame(1,2) [OF assms(2)] by (simp add: req_inv_def)

lemma request_inv:
  assumes "req_inv s" and req: "DMO_RequestNewContract env dst dport sport life srv prio maxSize rel bw s = Some (s', sfc, i)"
  shows "req_inv s'"
proof (cases "DMO_GetContract dst dport sport srv s")
  case (Some c)
  with assms show ?thesis by (simp add: DMO_RequestNewContract_def) (metis req_inv_frame(1))
next
  case None
  obtain s0 p r where s0: "DMO_IsPendingContractRequest env CONTRACT_PENDING dst dport sport srv True s = Some (s0, p, r)"
    using req None by (auto simp: DMO_RequestNewContract_def split: option.splits)
  have inv0: "req_inv s0" by (rule search_inv [OF assms(1) s0])
  define i0 where "i0 = (case r of Some i \<Rightarrow> i | None \<Rightarrow> local_octet env)"
  define c where "c = requested_contract env dst dport sport life srv prio maxSize rel bw i0 s0"
  have c: "DMO_CONTRACT_ATTRIBUTE.m_unContractID (c\<lparr>m_ucContractStatus := x\<rparr>) = ucast i0" for x
    by (simp add: c_def requested_contract_def)
  have put: "req_inv (s0\<lparr>g_oPendingContractRspMap := map_put i0 (c\<lparr>m_ucContractStatus := x\<rparr>) (g_oPendingContractRspMap s0)\<rparr>)" for x
    using inv0 keyed_put [OF _ c] by (simp add: req_inv_def)
  note eq = req [unfolded DMO_RequestNewContract_def None s0, simplified, folded i0_def, unfolded Let_def, folded c_def]
  show ?thesis
  proof (cases p)
    case (Some q)
    with eq inv0 show ?thesis by simp
  next
    case None
    have "req_inv (s0\<lparr>dm_asl := a, g_ucContractRspPending := n,
        g_oPendingContractRspMap := map_put i0 (c\<lparr>m_ucContractStatus := CONTRACT_PENDING_NO_KEY\<rparr>) (g_oPendingContractRspMap s0)\<rparr>)" for a n
      using put by (simp add: req_inv_def)
    moreover have "req_inv (fst (DMO_sendContractRequest env i0 (c\<lparr>m_ucContractStatus := CONTRACT_PENDING\<rparr>) CONTRACT_REQ_TYPE_NEW
        (s0\<lparr>g_oPendingContractRspMap := map_put i0 (c\<lparr>m_ucContractStatus := CONTRACT_PENDING\<rparr>) (g_oPendingContractRspMap s0)\<rparr>)))"
      by (rule send_inv [OF put c])
    ultimately show ?thesis using eq [unfolded None, simplified] inv0 by (auto split: if_splits prod.splits)
  qed
qed

lemma release_inv:
  assumes "req_inv s" and "map_of (g_oPendingContractRspMap s) k = Some c"
  shows "req_inv (release_one env k c s)"
proof -
  have "DMO_CONTRACT_ATTRIBUTE.m_unContractID (c\<lparr>m_ucContractStatus := CONTRACT_PENDING\<rparr>) = ucast k"
    using keyed_look [OF _ assms(2)] assms(1) by (simp add: req_inv_def)
  with assms(1) show ?thesis unfolding release_one_def Let_def by (intro send_inv) (auto simp: req_inv_def intro: keyed_put)
qed

lemma key_loop_inv:
  assumes "key_added_loop env peer sport dport s = Some s'"
  shows "req_inv s \<longrightarrow> req_inv s'"
proof (rule key_added_loop.raw_induct [OF _ assms, where P = "\<lambda>env peer sport dport s s'. req_inv s \<longrightarrow> req_inv s'"])
  fix loop :: "dmo_env \<Rightarrow> ipv6 \<Rightarrow> u16 \<Rightarrow> u16 \<Rightarrow> dmo_state \<Rightarrow> dmo_state option" and env peer sport dport s s'
  assume 1: "\<And>env peer sport dport s s'. loop env peer sport dport s = Some s' \<Longrightarrow> req_inv s \<longrightarrow> req_inv s'"
    and 2: "(case DMO_IsPendingContractRequest env CONTRACT_PENDING_NO_KEY peer dport sport ANY_SERVICE_TYPE False s of
        None \<Rightarrow> None | Some (s, None, _) \<Rightarrow> Some s
      | Some (s, Some (k, c), _) \<Rightarrow> loop env peer sport dport (release_one env k c s)) = Some s'"
  show "req_inv s \<longrightarrow> req_inv s'"
  proof
    assume inv: "req_inv s"
    obtain s0 p r where s0: "DMO_IsPendingContractRequest env CONTRACT_PENDING_NO_KEY peer dport sport ANY_SERVICE_TYPE False s = Some (s0, p, r)"
      using 2 by (auto split: option.splits)
    have inv0: "req_inv s0" by (rule search_inv [OF inv s0])
    show "req_inv s'"
    proof (cases p)
      case None
      with 2 s0 inv0 show ?thesis by simp
    next
      case (Some q)
      obtain k c where q: "q = (k, c)" by fastforce
      have "s0 = s" "(k, c) \<in> set (g_oPendingContractRspMap s)" using search_found [of env _ _ _ _ _ _ s s0 k c r] s0 Some q by blast+
      then have "map_of (g_oPendingContractRspMap s0) k = Some c" using inv by (simp add: req_inv_def keyed_def sorted_map_distinct)
      with release_inv [OF inv0] 1 [of env peer sport dport "release_one env k c s0" s'] 2 s0 Some q show ?thesis by simp
    qed
  qed
qed

lemma dmo_response_inv:
  assumes "req_inv s"
  shows "req_inv (DMO_ProcessContractResponse env req0 sfc rsp s)"
proof -
  have k: "keyed (g_oPendingContractRspMap s)" and c: "sorted_map (g_oDmoContractsMap s)"
      "\<forall>(k, c)\<in>set (g_oDmoContractsMap s). DMO_CONTRACT_ATTRIBUTE.m_unContractID c = k"
    using assms by (simp_all add: req_inv_def)
  have f: "DMO_CONTRACT_ATTRIBUTE.m_unContractID (fail_contract env c) = DMO_CONTRACT_ATTRIBUTE.m_unContractID c" for c
    by (simp add: fail_contract_def)
  note put = contracts_keyed_put [OF c granted_fields(1)]
  show ?thesis
    using assms k c f put
    by (auto simp: DMO_ProcessContractResponse_def req_inv_def Let_def map_insert_def keyed_erase intro!: keyed_put
        dest: keyed_look [OF k] split: option.splits)
qed

lemma first_inv: "req_inv s \<Longrightarrow> req_inv (DMO_ProcessFirstContract env sfc len rsp s)"
  by (simp add: DMO_ProcessFirstContract_def req_inv_def sorted_map_Cons Let_def split: prod.split)

lemma timeout_inv:
  assumes "req_inv s"
  shows "req_inv (DMO_TimeoutContractReqs env s)"
proof -
  have "keyed (map (\<lambda>(k, c). (k, time_out now c)) m)" if "keyed m" for now and m :: pending_map
    using that sorted_map_values [of "\<lambda>_. time_out now" m] by (auto simp: keyed_def time_out_def)
  with assms show ?thesis by (simp add: DMO_TimeoutContractReqs_def req_inv_def Let_def)
qed

lemma dmo_second_inv: "req_inv s \<Longrightarrow> req_inv (DMO_PerformOneSecondTasks env s)"
  by (simp add: DMO_PerformOneSecondTasks_def one_second_counters_def DMO_checkPowerStatusAlert_def timeout_inv Let_def)

lemma terminate_inv: "req_inv s \<Longrightarrow> req_inv (fst (DMO_RequestContractTermination env cid opn s))"
  by (auto simp: DMO_RequestContractTermination_def send_to_manager_def Let_def split: option.splits prod.splits)

lemma Init_inv: "req_inv (DMO_Init s)"
  by (simp add: DMO_Init_def req_inv_def keyed_def Let_def)

lemma step_inv: "dmo_step s s' \<Longrightarrow> req_inv s \<Longrightarrow> req_inv s'"
proof (induction rule: dmo_step.induct)
  case (key_added env peer sport dport s s')
  then show ?case using key_loop_inv by (auto simp: DMO_NotifyNewKeyAdded_def split: if_splits)
qed (simp_all add: execute_inv request_inv terminate_inv dmo_response_inv first_inv dmo_second_inv Init_inv)

lemma reach_inv: "dmo_reach s \<Longrightarrow> req_inv s"
  by (induction rule: dmo_reach.induct) (simp_all add: Init_inv step_inv)

lemma request_keeps_others:
  assumes inv: "req_inv s" and srv: "srv \<noteq> ANY_SERVICE_TYPE"
    and new: "\<forall>(k, c)\<in>set (g_oPendingContractRspMap s). \<not> (matches dst dport sport c \<and> m_ucServiceType c = srv)"
    and free: "length (g_oPendingContractRspMap s) < 256"
    and req: "DMO_RequestNewContract env dst dport sport life srv prio maxSize rel bw s = Some (s', sfc, Some i)"
  shows "map_of (g_oPendingContractRspMap s) i = None" and "j \<noteq> i \<Longrightarrow> map_of (g_oPendingContractRspMap s') j = map_of (g_oPendingContractRspMap s) j"
proof -
  have kd: "keyed (g_oPendingContractRspMap s)" and srt: "sorted_map (g_oPendingContractRspMap s)" using inv by (simp_all add: req_inv_def keyed_def)
  have none: "DMO_GetContract dst dport sport srv s = None" using req by (simp add: DMO_RequestNewContract_def split: option.splits)
  have "\<forall>(k, c)\<in>set (g_oPendingContractRspMap s). \<not> concerns CONTRACT_PENDING dst dport sport srv c"
    using new srv by (auto simp: concerns_def)
  then obtain i0 where i0: "DMO_IsPendingContractRequest env CONTRACT_PENDING dst dport sport srv True s = Some (s\<lparr>s_ucContractReqID := i0 + 1\<rparr>, None, Some i0)"
      "map_of (g_oPendingContractRspMap s) i0 = None"
    using new_request_id [OF kd srv _ free] by blast
  note eq = req [unfolded DMO_RequestNewContract_def none i0(1), simplified, unfolded Let_def]
  have "i = i0 \<and> (j \<noteq> i0 \<longrightarrow> map_of (g_oPendingContractRspMap s') j = map_of (g_oPendingContractRspMap s) j)"
    using eq srt by (auto simp: dest!: send_frame split: if_splits prod.splits)
  with i0(2) show "map_of (g_oPendingContractRspMap s) i = None" "j \<noteq> i \<Longrightarrow> map_of (g_oPendingContractRspMap s') j = map_of (g_oPendingContractRspMap s) j"
    by auto
qed

lemma request_returns:
  assumes "req_inv s"
  shows "\<exists>s' sfc r. DMO_RequestNewContract env dst dport sport life srv prio maxSize rel bw s = Some (s', sfc, r)"
proof -
  have "DMO_IsPendingContractRequest env CONTRACT_PENDING dst dport sport srv True s \<noteq> None"
    using assms search_returns by (simp add: req_inv_def)
  then show ?thesis by (auto simp: DMO_RequestNewContract_def Let_def split: option.split prod.split)
qed

abbreviation (input) nl_contracts :: "asl_state \<Rightarrow> nat" where
  "nl_contracts a \<equiv> length (m_oContractsMap (asl_state.g_stNlme a))"

lemma length_update_present: "map_of al k \<noteq> None \<Longrightarrow> length (AList.update k v al) = length al"
  by (induction al) auto

lemma store_contract_length: "lock w a = Some c \<Longrightarrow> nl_contracts (store_contract w d a) = nl_contracts a"
  by (auto simp: lock_def store_contract_def length_update_present split: option.splits)

lemma add_object_length: "nl_contracts (fst (ASLSRVC_AddGenericObject cfg m x y a)) = nl_contracts a"
  by (auto simp: ASLSRVC_AddGenericObject_def ASLSRVC_AddGenericObjectEncryptable_def ASLSRVC_AddGenericObjectEncryptableCore_def
      store_contract_length Let_def split: option.splits)

lemma key_request_length: "nl_contracts (fst (SLME_GenerateNewSessionKeyRequest e peer sport dport k a)) = nl_contracts a"
  by (simp add: SLME_GenerateNewSessionKeyRequest_def add_object_length Let_def split: option.split)

lemma send_length: "nl_contracts (dm_asl (fst (DMO_sendContractRequest env k c t s))) = nl_contracts (dm_asl s)"
proof -
  have "nl_contracts (dm_asl (fst (send_to_manager env sm meth req s))) = nl_contracts (dm_asl s)" for sm meth req
    using add_object_length [of _ _ _ _ "dm_asl s"] by (simp add: send_to_manager_def Let_def case_prod_unfold)
  then show ?thesis by (simp add: DMO_sendContractRequest_def Let_def case_prod_unfold split: option.split)
qed

lemma search_asl: "DMO_IsPendingContractRequest env st dst dport sport srv want s = Some (s', p, r) \<Longrightarrow> dm_asl s' = dm_asl s"
  by (auto simp: DMO_IsPendingContractRequest_def Let_def tell_def split: scan_result.splits if_splits option.splits)

lemma request_length:
  assumes "DMO_RequestNewContract env dst dport sport life srv prio maxSize rel bw s = Some (s', sfc, r)"
  shows "nl_contracts (dm_asl s') = nl_contracts (dm_asl s)"
proof (cases "DMO_GetContract dst dport sport srv s")
  case (Some c)
  with assms show ?thesis by (auto simp: DMO_RequestNewContract_def tell_def)
next
  case None
  obtain s0 p r where s0: "DMO_IsPendingContractRequest env CONTRACT_PENDING dst dport sport srv True s = Some (s0, p, r)"
    using assms None by (auto simp: DMO_RequestNewContract_def split: option.splits)
  note eq = assms [unfolded DMO_RequestNewContract_def None s0, simplified, unfolded Let_def]
  have k: "nl_contracts a = nl_contracts (dm_asl s0)" if "SLME_GenerateNewSessionKeyRequest e peer sp dp k (dm_asl s0) = (a, x)" for e peer sp dp k a x
    using key_request_length [of e peer sp dp k "dm_asl s0"] that by simp
  have t: "nl_contracts (dm_asl s') = nl_contracts (dm_asl z)" if "DMO_sendContractRequest env i c t z = (s', x)" for i c t z x
    using send_length [of env i c t z] that by simp
  have "nl_contracts (dm_asl s') = nl_contracts (dm_asl s0)"
    using eq by (auto dest: k t split: option.splits if_splits prod.splits)
  then show ?thesis using search_asl [OF s0] by simp
qed

section \<open>Properties\<close>


text \<open>
  In every reachable state of the device management object each contract of the contract table and each pending request stands under its own
  identifier, and no identifier is there twice: a request that is answered, refused or timed out by its identifier is the one that was made
  under it.
\<close>
lemma contract_tables_keyed:
  assumes "dmo_reach s"
  shows "sorted_map (g_oDmoContractsMap s) \<and> sorted_map (g_oPendingContractRspMap s)
    \<and> (\<forall>k c. map_of (g_oDmoContractsMap s) k = Some c \<longrightarrow> DMO_CONTRACT_ATTRIBUTE.m_unContractID c = k)
    \<and> (\<forall>k c. map_of (g_oPendingContractRspMap s) k = Some c \<longrightarrow> DMO_CONTRACT_ATTRIBUTE.m_unContractID c = ucast k)"
  using reach_inv [OF assms] by (fastforce simp: req_inv_def keyed_def dest: map_of_SomeD)

text \<open>
  Asking for a contract always comes back, and while fewer than 256 requests are pending, a request for something not yet asked for gets an
  identifier that no pending request has and leaves all the others as they are, wherever the counter of identifiers stands.
\<close>
lemma request_id_unused:
  assumes "dmo_reach s" and "srv \<noteq> ANY_SERVICE_TYPE" and "length (g_oPendingContractRspMap s) < 256"
    and "\<forall>(k, c)\<in>set (g_oPendingContractRspMap s). \<not> (matches dst dport sport c \<and> m_ucServiceType c = srv)"
  shows "\<exists>s' sfc r. DMO_RequestNewContract env dst dport sport life srv prio maxSize rel bw s = Some (s', sfc, r)
    \<and> (\<forall>i. r = Some i \<longrightarrow> map_of (g_oPendingContractRspMap s) i = None
         \<and> (\<forall>j. j \<noteq> i \<longrightarrow> map_of (g_oPendingContractRspMap s') j = map_of (g_oPendingContractRspMap s) j))"
  using request_returns [OF reach_inv [OF assms(1)]] request_keeps_others [OF reach_inv [OF assms(1)] assms(2,4,3)] by metis


text \<open>
  A request that could not be sent is not counted but stays pending. When the device has no contract with the system manager the caller
  is told so, yet asking again is refused as a duplicate, and when the request times out the counter of pending requests
  wraps around to 255 although nothing is pending.
\<close>
lemma unsent_request_wraps_counter:
  assumes idle: "g_oPendingContractRspMap s = []" "g_ucContractRspPending s = 0" "DMO_GetContract dst dport sport srv s = None"
    and no_manager: "DMO_FindContract (g_unSysMngContractID s) s = None" "g_ucJoinStatus s = DEVICE_JOINED"
      "length (g_oDmoContractsMap s) < MAX_CONTRACT_NO" "m_ucTLSecurityLevel (slme_state.g_stDSMO (dm_slme s)) = SECURITY_NONE"
    and srv: "srv \<noteq> ANY_SERVICE_TYPE" and late: "deadline env s < now_of env'"
  shows "\<exists>s' i. DMO_RequestNewContract env dst dport sport life srv prio maxSize rel bw s = Some (s', SFC_INCOMPATIBLE_MODE, Some i)
    \<and> DMO_RequestNewContract env dst dport sport life srv prio maxSize rel bw s' = Some (s', SFC_DUPLICATE, None)
    \<and> g_ucContractRspPending (DMO_TimeoutContractReqs env' s') = 255"
proof -
  let ?i = "s_ucContractReqID s"
  define s0 where "s0 = s\<lparr>s_ucContractReqID := ?i + 1\<rparr>"
  define c where "c = requested_contract env dst dport sport life srv prio maxSize rel bw ?i s0"
  define s' where "s' = s0\<lparr>g_oPendingContractRspMap := [(?i, c\<lparr>m_ucContractStatus := CONTRACT_PENDING\<rparr>)]\<rparr>"
  have "DMO_RequestNewContract env dst dport sport life srv prio maxSize rel bw s = Some (s', SFC_INCOMPATIBLE_MODE, Some ?i)"
    using assms by (simp add: DMO_RequestNewContract_def DMO_IsPendingContractRequest_def DMO_sendContractRequest_def DMO_FindContract_def
        s'_def c_def s0_def Let_def)
  moreover have "DMO_RequestNewContract env dst dport sport life srv prio maxSize rel bw s' = Some (s', SFC_DUPLICATE, None)"
    using idle(3) srv by (simp add: DMO_RequestNewContract_def DMO_IsPendingContractRequest_def DMO_GetContract_def matches_def wanted_def
        s'_def c_def s0_def requested_contract_def Let_def)
  moreover have "g_ucContractRspPending (DMO_TimeoutContractReqs env' s') = 255"
    using late idle(2) by (simp add: DMO_TimeoutContractReqs_def tell_def expired_def s'_def c_def s0_def requested_contract_def deadline_def Let_def)
  ultimately show ?thesis by blast
qed

section \<open>Witnesses\<close>

definition managed_dmo :: "slme_state \<Rightarrow> dmo_state" where
  "managed_dmo k = fst (put_row (sample_dmo_env 1000) 5 0 (replicate 41 0) (DMO_Init (empty_dmo\<lparr>dm_slme := k\<rparr>)))"

lemma managed_row: "row_of 0 (replicate 41 0)"
  by (simp add: row_of_def DMAP_WriteUint16_def mem_of_def)

lemma managed_reach: "dmo_reach (managed_dmo k)"
  unfolding managed_dmo_def put_row_def by (rule dmo_reach.step [OF dmo_reach.init execute])

lemma managed_facts:
  obtains c r nc where "contract_row c = replicate 41 0" "DMO_CONTRACT_ATTRIBUTE.m_unContractID c = 0" "g_oDmoContractsMap (managed_dmo k) = [(0, c)]"
    "g_oPendingContractRspMap (managed_dmo k) = []" "g_unSysMngContractID (managed_dmo k) = 0" "g_ucJoinStatus (managed_dmo k) = DEVICE_JOINED"
    "m_oContractsMap (asl_state.g_stNlme (dm_asl (managed_dmo k))) = [(0, r, nc)]" "dm_slme (managed_dmo k) = k"
    "g_ucContractRspPending (managed_dmo k) = 0"
    "s_ucContractReqID (managed_dmo k) = 1"
proof -
  let ?m = "mem_of (table_request 5 0 (replicate 41 0))"
  have r: "mem_bytes ?m 8 41 = replicate 41 0" using table_request_holds(4) [of 5 0 "replicate 41 0"] by simp
  then have i: "DMAP_WriteUint16 ?m 8 = 0" using row_index [of ?m 8 "replicate 41 0"] managed_row by (simp add: row_of_def)
  let ?c = "DMO_parseContract ?m 8 (blank_contract\<lparr>m_nUsageCount := 0\<rparr>)"
  have e: "managed_dmo k = in_nlme (\<lambda>n. fst (NLME_AddDmoContract sample_contract 7 ?c n))
      (tell [UAP_NotifyAddContract ?c] ((DMO_Init (empty_dmo\<lparr>dm_slme := k\<rparr>))\<lparr>g_oDmoContractsMap := [(0, ?c)]\<rparr>))"
    by (simp add: managed_dmo_def put_row_is_set [OF managed_row] DMO_setContract_def i DMO_FindContract_def DMO_Init_def sample_dmo_env_def
        Let_def)
  have p: "DMO_CONTRACT_ATTRIBUTE.m_unContractID ?c = 0" by (simp add: parse_index i)
  show ?thesis
    by (rule that [of ?c "(0::nat)"])
      (simp_all add: e p row_of_parse r in_nlme_def tell_def DMO_Init_def empty_dmo_def start_state_def ASLDE_Init_queues_def empty_nlme_def
        NLME_AddDmoContract_def Let_def)
qed

lemma managed_known: "manager_known (sample_dmo_env t) (managed_dmo k)"
proof -
  obtain c r nc where "DMO_CONTRACT_ATTRIBUTE.m_unContractID c = 0" "g_oDmoContractsMap (managed_dmo k) = [(0, c)]"
      "g_unSysMngContractID (managed_dmo k) = 0" "m_oContractsMap (asl_state.g_stNlme (dm_asl (managed_dmo k))) = [(0, r, nc)]"
    using managed_facts [of k] by metis
  then show ?thesis
    by (simp add: manager_known_def DMO_FindContract_def find_ref_def sample_dmo_env_def sample_env_def sample_config_def)
qed

abbreviation (input) sample_request :: "dmo_state \<Rightarrow> (dmo_state \<times> u8 \<times> u8 option) option" where
  "sample_request s \<equiv> DMO_RequestNewContract (sample_dmo_env 1000) (replicate 16 5) 0xF0B1 0xF0B0 60 SRVC_APERIODIC_COMM 0 100 1 sample_bandwidth s"

lemma managed_row_address:
  assumes "contract_row c = replicate 41 0" and "matches (replicate 16 5) 0xF0B1 0xF0B0 c"
  shows False
proof -
  have "contract_row c ! 8 = 0xF0" using assms(2) by (simp add: contract_row_def matches_def DMAP_InsertUint16_def DMAP_InsertUint32_def nth_append)
  then show False using assms(1) by simp
qed

lemma managed_no_contract: "DMO_GetContract (replicate 16 5) 0xF0B1 0xF0B0 srv (managed_dmo k) = None"
proof -
  obtain c where c: "contract_row c = replicate 41 0" "g_oDmoContractsMap (managed_dmo k) = [(0, c)]" using managed_facts [of k] by metis
  then show ?thesis using managed_row_address [OF c(1)] by (auto simp: DMO_GetContract_def)
qed

lemma managed_request_accepted: "\<exists>s1. sample_request (managed_dmo empty_slme) = Some (s1, SFC_SUCCESS, Some 1)"
proof -
  let ?s = "managed_dmo empty_slme"
  obtain c where m: "g_oDmoContractsMap ?s = [(0, c)]" "g_oPendingContractRspMap ?s = []" "g_ucJoinStatus ?s = DEVICE_JOINED"
      "s_ucContractReqID ?s = 1" "dm_slme ?s = empty_slme" using managed_facts [of empty_slme] by metis
  define s0 where "s0 = ?s\<lparr>s_ucContractReqID := 2\<rparr>"
  define d where "d = requested_contract (sample_dmo_env 1000) (replicate 16 5) 0xF0B1 0xF0B0 60 SRVC_APERIODIC_COMM 0 100 1 sample_bandwidth 1 s0"
  let ?d = "d\<lparr>m_ucContractStatus := CONTRACT_PENDING\<rparr>"
  have "manager_known (sample_dmo_env 1000) (s0\<lparr>g_oPendingContractRspMap := [(1, ?d)]\<rparr>)"
    using managed_known [of 1000 empty_slme] by (simp add: s0_def manager_known_def DMO_FindContract_def split: option.splits)
  then obtain s1 where "DMO_sendContractRequest (sample_dmo_env 1000) 1 ?d CONTRACT_REQ_TYPE_NEW (s0\<lparr>g_oPendingContractRspMap := [(1, ?d)]\<rparr>) = (s1, SFC_SUCCESS)"
    using send_queued [of "sample_dmo_env 1000" "s0\<lparr>g_oPendingContractRspMap := [(1, ?d)]\<rparr>" ?d 1 0] by (auto simp: d_def requested_contract_def)
  then have "sample_request ?s = Some (s1, SFC_SUCCESS, Some 1)"
    using m by (simp add: DMO_RequestNewContract_def managed_no_contract DMO_IsPendingContractRequest_def s0_def d_def Let_def
        empty_slme_def SLME_Init_def c_stInitDSMO_def)
  then show ?thesis by blast
qed


theorem contract_tables_keyed_witness:
  "sorted_map (g_oDmoContractsMap (managed_dmo empty_slme)) \<and> sorted_map (g_oPendingContractRspMap (managed_dmo empty_slme))
    \<and> (\<forall>k c. map_of (g_oDmoContractsMap (managed_dmo empty_slme)) k = Some c \<longrightarrow> DMO_CONTRACT_ATTRIBUTE.m_unContractID c = k)
    \<and> map_of (g_oDmoContractsMap (managed_dmo empty_slme)) 0 \<noteq> None"
proof -
  obtain c where "g_oDmoContractsMap (managed_dmo empty_slme) = [(0, c)]" using managed_facts [of empty_slme] by metis
  then have "map_of (g_oDmoContractsMap (managed_dmo empty_slme)) 0 \<noteq> None" by simp
  with contract_tables_keyed [OF managed_reach, of empty_slme] show ?thesis by blast
qed

theorem request_id_unused_witness:
  "\<exists>s' sfc r. sample_request (managed_dmo empty_slme) = Some (s', sfc, r)
    \<and> (\<forall>i. r = Some i \<longrightarrow> map_of (g_oPendingContractRspMap (managed_dmo empty_slme)) i = None
         \<and> (\<forall>j. j \<noteq> i \<longrightarrow> map_of (g_oPendingContractRspMap s') j = map_of (g_oPendingContractRspMap (managed_dmo empty_slme)) j))"
proof (rule request_id_unused [OF managed_reach])
  have p: "g_oPendingContractRspMap (managed_dmo empty_slme) = []" using managed_facts [of empty_slme] by metis
  show "length (g_oPendingContractRspMap (managed_dmo empty_slme)) < 256"
    "\<forall>(k, c)\<in>set (g_oPendingContractRspMap (managed_dmo empty_slme)). \<not> (matches (replicate 16 5) 0xF0B1 0xF0B0 c \<and> m_ucServiceType c = SRVC_APERIODIC_COMM)"
    by (simp_all add: p)
qed simp

definition secure_slme :: slme_state where
  "secure_slme = joined_slme\<lparr>slme_state.g_stDSMO := c_stInitDSMO\<lparr>m_ucTLSecurityLevel := 1\<rparr>\<rparr>"

definition waiting_dmo :: dmo_state where
  "waiting_dmo = fst (the (sample_request (managed_dmo secure_slme)))"

lemma session_request_length:
  assumes "length (c_oEUI64BE env) = 8" and "length (dmo_address env) = 16" and "length peer = 16"
  shows "length (session_request env peer sport dport k) = 48"
proof -
  let ?p = "dmo_address env @ DMAP_InsertUint16 sport @ peer @ DMAP_InsertUint16 dport @ [1, 1, 0x09, m_ucKeyID k] @ nonce_time env"
  have l: "length ?p = 44" "length (device_nonce env) = 13"
    using assms by (simp_all add: device_nonce_def nonce_time_def DMAP_InsertUint16_def DMAP_InsertUint32_def)
  then have "ccm_fits (device_nonce env) ?p 0" by (simp only: ccm_fits_def buffer_size_def ROUND_UP_TO_MUL_16_def l) simp
  then have "length (snd (aes_crypt (block_cipher env) (SLME_KEY.m_aKey k) (device_nonce env) ?p [])) = 4"
    using aes_crypt_seal [of "device_nonce env" ?p "[]" "block_cipher env" "SLME_KEY.m_aKey k"] by (simp only: list.size snd_conv length_ccm_seal)
  with l(1) show ?thesis unfolding session_request_def Let_def by (simp only: length_append)
qed

lemma waiting_dmo_reach:
  "dmo_reach waiting_dmo" "manager_known (sample_dmo_env 2000) waiting_dmo" "g_ucContractRspPending waiting_dmo = 1"
  "\<exists>c. g_oPendingContractRspMap waiting_dmo = [(1, c)] \<and> waiting (replicate 16 5) 0xF0B1 0xF0B0 c \<and> m_ucServiceType c = SRVC_APERIODIC_COMM"
proof -
  let ?s = "managed_dmo secure_slme" and ?env = "sample_dmo_env 1000"
  obtain c r nc where m: "g_oDmoContractsMap ?s = [(0, c)]" "g_oPendingContractRspMap ?s = []" "g_ucJoinStatus ?s = DEVICE_JOINED"
      "s_ucContractReqID ?s = 1" "dm_slme ?s = secure_slme" "g_ucContractRspPending ?s = 0" "DMO_CONTRACT_ATTRIBUTE.m_unContractID c = 0"
      "g_unSysMngContractID ?s = 0" "m_oContractsMap (asl_state.g_stNlme (dm_asl ?s)) = [(0, r, nc)]"
    using managed_facts [of secure_slme] by metis
  define s0 where "s0 = ?s\<lparr>s_ucContractReqID := 2\<rparr>"
  define d where "d = requested_contract ?env (replicate 16 5) 0xF0B1 0xF0B0 60 SRVC_APERIODIC_COMM 0 100 1 sample_bandwidth 1 s0"
  let ?e = "(sl_env ?env)\<lparr>asl_cfg := current_cfg ?env s0\<rparr>"
  have "length (session_request ?e (replicate 16 5) 0xF0B0 0xF0B1 master_key) = 48"
    by (intro session_request_length) (simp_all add: sample_dmo_env_def sample_env_def)
  moreover have "\<not> device_is_bbr (current_cfg ?env s0)" "find_ref (p_unContractID (session_request_args (current_cfg ?env s0))) (dm_asl s0) \<noteq> None"
    "p_pDstAddr (session_request_args (current_cfg ?env s0)) = None"
    using m by (simp_all add: current_cfg_def sample_dmo_env_def sample_env_def sample_config_def session_request_args_def find_ref_def s0_def)
  ultimately obtain a where a: "SLME_GenerateNewSessionKeyRequest ?e (replicate 16 5) 0xF0B0 0xF0B1 secure_slme (dm_asl s0) = (a, SFC_SUCCESS)"
      "\<forall>j. find_ref j a = find_ref j (dm_asl s0)"
    using exec_request_queued [of "current_cfg ?env s0" "session_request_args (current_cfg ?env s0)" "dm_asl s0"
        "session_request ?e (replicate 16 5) 0xF0B0 0xF0B1 master_key" 3 6 6] joined_slme_facts(2)
    by (auto simp: SLME_GenerateNewSessionKeyRequest_def secure_slme_def SLME_GetNonSessionKey_def SLME_FindKey_def SLME_FindKeyCatIt_def)
  have k: "SLME_FindTxKey 1000 (Some (replicate 16 5)) 0xF0B0 0xF0B1 secure_slme = (None, None)"
    by (simp add: SLME_FindTxKey_def SLME_FindKeyCatIt_def key_category_def secure_slme_def joined_slme_def zero_cat_def)
  define s1 where "s1 = s0\<lparr>dm_asl := a, g_ucContractRspPending := 1, g_oPendingContractRspMap := [(1, d\<lparr>m_ucContractStatus := CONTRACT_PENDING_NO_KEY\<rparr>)]\<rparr>"
  have req: "sample_request ?s = Some (s1, SFC_SUCCESS, Some 1)"
    using m a(1) k by (simp add: DMO_RequestNewContract_def managed_no_contract DMO_IsPendingContractRequest_def s0_def d_def s1_def Let_def)
      (simp add: secure_slme_def sample_dmo_env_def sample_env_def)
  then have w: "waiting_dmo = s1" by (simp add: waiting_dmo_def)
  show "dmo_reach waiting_dmo" unfolding w by (rule dmo_reach.step [OF managed_reach request [OF req]])
  show "manager_known (sample_dmo_env 2000) waiting_dmo"
    using managed_known [of 2000 secure_slme] a(2) unfolding w
    by (simp add: s1_def s0_def manager_known_def DMO_FindContract_def split: option.splits)
  show "g_ucContractRspPending waiting_dmo = 1" by (simp add: w s1_def)
  show "\<exists>c. g_oPendingContractRspMap waiting_dmo = [(1, c)] \<and> waiting (replicate 16 5) 0xF0B1 0xF0B0 c \<and> m_ucServiceType c = SRVC_APERIODIC_COMM"
    by (simp add: w s1_def d_def requested_contract_def waiting_def matches_def)
qed


theorem unsent_request_wraps_counter_witness:
  "\<exists>s' i. sample_request (DMO_Init empty_dmo) = Some (s', SFC_INCOMPATIBLE_MODE, Some i)
    \<and> sample_request s' = Some (s', SFC_DUPLICATE, None) \<and> g_ucContractRspPending (DMO_TimeoutContractReqs (sample_dmo_env 2000) s') = 255"
  by (rule unsent_request_wraps_counter)
    (simp_all add: DMO_Init_def empty_dmo_def DMO_GetContract_def DMO_FindContract_def empty_slme_def SLME_Init_def c_stInitDSMO_def
      deadline_def sample_dmo_env_def sample_env_def blank_dmo_def Let_def)

end
