(* ===== verification/Armo.thy ===== *)
theory Armo
  imports Dmo_Reach
begin

text \<open>
  The alert reporting object (\<^verbatim>\<open>dmap_armo.cpp\<close>): the queue of alerts, which keeps the newest that fit into its buffer, the report of queued
  alerts to the alert master of their category until they are acknowledged, the contracts with the alert masters, the recovery of alarms on
  request, and the time-out that restarts the stack.

  The buffer \<^verbatim>\<open>g_aucARMOQueue\<close> holds the alerts one behind the other, each a structure of 24 octets and its data, padded to a multiple of
  four; the model has the list of them, and \<open>queue_end\<close> is the distance of \<^verbatim>\<open>g_pARMOQueueEnd\<close> from the start. An alert category is an index
  into \<^verbatim>\<open>g_aARMO\<close>; \<open>None\<close> is an access outside of that array.
\<close>

unbundle bit_operations_syntax

abbreviation (input) SFC_OBJECT_STATE_CONFLICT :: u8 where "SFC_OBJECT_STATE_CONFLICT \<equiv> 17"
abbreviation (input) ARMO_QUEUE_SIZE :: nat where "ARMO_QUEUE_SIZE \<equiv> 16384"
abbreviation (input) ALERT_CAT_NO :: nat where "ALERT_CAT_NO \<equiv> 4"
abbreviation (input) ALERT_CAT_PROCESS :: u8 where "ALERT_CAT_PROCESS \<equiv> 3"
abbreviation (input) ARMO_NO_CONTR :: u8 where "ARMO_NO_CONTR \<equiv> 0"
abbreviation (input) ARMO_AWAIT_CONTRACT_ESTABLISHMENT :: u8 where "ARMO_AWAIT_CONTRACT_ESTABLISHMENT \<equiv> 1"
abbreviation (input) ARMO_CONTRACT_ACTIVE :: u8 where "ARMO_CONTRACT_ACTIVE \<equiv> 2"
abbreviation (input) ARMO_WAITING_CONTRACT_TERMINATION :: u8 where "ARMO_WAITING_CONTRACT_TERMINATION \<equiv> 3"
abbreviation (input) RECOVERY_DISABLED :: u8 where "RECOVERY_DISABLED \<equiv> 0"
abbreviation (input) RECOVERY_ENABLED :: u8 where "RECOVERY_ENABLED \<equiv> 1"
abbreviation (input) RECOVERY_START_SENT :: u8 where "RECOVERY_START_SENT \<equiv> 2"
abbreviation (input) RECOVERY_DONE :: u8 where "RECOVERY_DONE \<equiv> 3"
abbreviation (input) CONTRACT_WAIT_TIMEOUT :: int where "CONTRACT_WAIT_TIMEOUT \<equiv> 192"
abbreviation (input) ARMO_ALERT_ACK_TIMEOUT :: u8 where "ARMO_ALERT_ACK_TIMEOUT \<equiv> 180"
abbreviation (input) DMAP_ARMO_OBJ_ID :: u16 where "DMAP_ARMO_OBJ_ID \<equiv> 2"
abbreviation (input) SM_ARO_OBJ_ID :: u16 where "SM_ARO_OBJ_ID \<equiv> 8"
abbreviation (input) MAX_APDU_SIZE :: u16 where "MAX_APDU_SIZE \<equiv> 65451"

section \<open>State\<close>

record ALERT_COMM_ENDPOINT =
  m_aNetworkAddr :: ipv6
  m_unTLPort :: u16
  m_unObjID :: u16
  m_unContractID :: u16
  m_ucContractStatus :: u8

record ARMO_STRUCT =
  m_stAlertMaster :: ALERT_COMM_ENDPOINT
  m_ucConfTimeout :: u8
  m_ucAlertsDisable :: u8
  m_stRecoveryDescr :: APP_ALERT_DESCRIPTOR
  m_ucState :: u8
  m_ucLastID :: u8
  m_ucAlertsNo :: u8

datatype ARMO_EVENT = g_pCallbackSendAlertTR "u8 list" "u8 list" | UAP_NotifyAlertAcknowledge u8 | ARMO_ResetStack

type_synonym queued_alert = "ALERT \<times> u8 list"

record armo_state =
  g_aARMO :: "ARMO_STRUCT list"
  g_unContractReqTimestamp :: u16
  g_ucAlarmTimeout :: u8
  g_aucARMOQueue :: "queued_alert list"
  ar_dmo :: dmo_state
  armo_events :: "ARMO_EVENT list"

text \<open>\<open>tai_fract\<close> is the fraction of the second of \<^verbatim>\<open>MLSM_GetCrtTaiTime\<close>; \<open>stack_octets\<close> are the octets of a local variable that was not written.\<close>

record armo_env =
  ar_env :: dmo_env
  tai_fract :: u16
  stack_octets :: "u8 list"

definition category :: "u8 \<Rightarrow> armo_state \<Rightarrow> ARMO_STRUCT option" where
  "category i s = (if unat i < length (g_aARMO s) then Some (g_aARMO s ! unat i) else None)"

definition in_category :: "u8 \<Rightarrow> (ARMO_STRUCT \<Rightarrow> ARMO_STRUCT) \<Rightarrow> armo_state \<Rightarrow> armo_state" where
  "in_category i f s = s\<lparr>g_aARMO := (g_aARMO s)[unat i := f (g_aARMO s ! unat i)]\<rparr>"

definition in_master :: "(ALERT_COMM_ENDPOINT \<Rightarrow> ALERT_COMM_ENDPOINT) \<Rightarrow> ARMO_STRUCT \<Rightarrow> ARMO_STRUCT" where
  "in_master f a = a\<lparr>m_stAlertMaster := f (m_stAlertMaster a)\<rparr>"

abbreviation contract_status :: "ARMO_STRUCT \<Rightarrow> u8" where
  "contract_status a \<equiv> ALERT_COMM_ENDPOINT.m_ucContractStatus (m_stAlertMaster a)"

section \<open>The queue\<close>

definition alert_length :: "ALERT \<Rightarrow> u16" where
  "alert_length a = DMAP_GetAlignedLength (24 + ALERT_INFO.m_unSize a)"

definition queue_end :: "queued_alert list \<Rightarrow> nat" where
  "queue_end q = sum_list (map (\<lambda>(a, d). unat (alert_length a)) q)"

definition ARMO_getNextAlertId :: "u8 \<Rightarrow> ARMO_STRUCT \<Rightarrow> u8" where
  "ARMO_getNextAlertId c a = push_bit 6 c OR (m_ucAlertsNo a AND 0x3F)"

text \<open>The search for the alert that is acknowledged; the first one with the identifier is removed.\<close>

fun remove_alert :: "u8 \<Rightarrow> queued_alert list \<Rightarrow> queued_alert list" where
  "remove_alert i [] = []"
| "remove_alert i ((a, d) # q) = (if m_ucID a = i then q else (a, d) # remove_alert i q)"

definition ARMO_ProcessAlertAck :: "u8 \<Rightarrow> armo_state \<Rightarrow> armo_state" where
  "ARMO_ProcessAlertAck i s =
     (let s = s\<lparr>g_ucAlarmTimeout := 0, g_aucARMOQueue := remove_alert i (g_aucARMOQueue s)\<rparr> in
      if drop_bit 6 i = ALERT_CAT_PROCESS then s\<lparr>armo_events := armo_events s @ [UAP_NotifyAlertAcknowledge i]\<rparr> else s)"

text \<open>The loop that removes the oldest alerts until there is room for \<open>n\<close> octets.\<close>

fun make_room :: "nat \<Rightarrow> queued_alert list \<Rightarrow> queued_alert list" where
  "make_room n [] = []"
| "make_room n (e # q) = (if queue_end (e # q) + n > ARMO_QUEUE_SIZE then make_room n q else e # q)"

definition stamped :: "armo_env \<Rightarrow> ALERT \<Rightarrow> u8 \<Rightarrow> ALERT" where
  "stamped env a i = a\<lparr>m_ucID := i, m_ulNextSendTAI := 0, m_ulSeconds := now_of (ar_env env), m_unFract := tai_fract env\<rparr>"

text \<open>The packed structure \<^verbatim>\<open>ALERT_BBR2TR\<close> in network order; its last field, the size, is never assigned.\<close>

definition ARMO_FwAlertToTR :: "armo_env \<Rightarrow> ALERT \<Rightarrow> u8 list \<Rightarrow> armo_state \<Rightarrow> armo_state" where
  "ARMO_FwAlertToTR env a data s = s\<lparr>armo_events := armo_events s @ [g_pCallbackSendAlertTR
     (DMAP_InsertUint16 (m_unDetObjTLPort a) @ DMAP_InsertUint16 (m_unDetObjID a) @ DMAP_InsertUint32 (m_ulSeconds a)
      @ DMAP_InsertUint16 (m_unFract a) @ [m_ucID a, m_ucClass a, m_ucDirection a, m_ucCategory a, ALERT_INFO.m_ucType a, ALERT_INFO.m_ucPriority a]
      @ take 2 (stack_octets env)) data]\<rparr>"

text \<open>The result is \<open>None\<close> for a category that does not exist and when the data is copied past the end of the buffer.\<close>

definition ARMO_AddAlertToQueue :: "armo_env \<Rightarrow> ALERT \<Rightarrow> mem \<Rightarrow> armo_state \<Rightarrow> (armo_state \<times> u8) option" where
  "ARMO_AddAlertToQueue env a p_pBuf s =
     (let data = mem_bytes p_pBuf 0 (unat (ALERT_INFO.m_unSize a)) in
      if alert_tr_callback (sl_env (ar_env env))
      then Some (ARMO_ProcessAlertAck (m_ucID a) (ARMO_FwAlertToTR env a data s), SFC_SUCCESS)
      else let unLen = unat (alert_length a) in
      if ARMO_QUEUE_SIZE < unLen then Some (s, SFC_INVALID_SIZE)
      else case category (m_ucCategory a) s of
        None \<Rightarrow> None
      | Some c \<Rightarrow>
          if m_ucAlertsDisable c = 0 \<and> unLen < ARMO_QUEUE_SIZE
          then let q = make_room unLen (g_aucARMOQueue s) in
            if queue_end q + 24 + length data > ARMO_QUEUE_SIZE then None
            else Some (in_category (m_ucCategory a) (\<lambda>c. c\<lparr>m_ucAlertsNo := m_ucAlertsNo c + 1\<rparr>)
                   (s\<lparr>g_aucARMOQueue := q @ [(stamped env a (ARMO_getNextAlertId (m_ucCategory a) c), data)]\<rparr>), SFC_SUCCESS)
          else Some (s, SFC_OBJECT_STATE_CONFLICT))"

section \<open>Contracts with the alert masters\<close>

definition ARMO_Init :: "armo_state \<Rightarrow> armo_state" where
  "ARMO_Init s = s\<lparr>g_aARMO := map (\<lambda>a. if m_ucConfTimeout a = 0
     then a\<lparr>m_ucConfTimeout := 10, m_stAlertMaster := (m_stAlertMaster a)\<lparr>
            m_aNetworkAddr := DMO_ATTRIBUTES.m_aucSysMng128BitAddr (dmo_state.g_stDMO (ar_dmo s)), m_unTLPort := ISA100_SMAP_PORT,
            m_unObjID := SM_ARO_OBJ_ID, ALERT_COMM_ENDPOINT.m_ucContractStatus := ARMO_NO_CONTR\<rparr>\<rparr>
     else a) (g_aARMO s)\<rparr>"

definition alert_bandwidth :: DMO_CONTRACT_BANDWIDTH where
  "alert_bandwidth = DMO_CONTRACT_BANDWIDTH.make (-15) 1 5"

text \<open>A contract that is found makes the endpoint active; the request that follows all the same is then refused as a duplicate.\<close>

definition ARMO_configureEndpoint :: "armo_env \<Rightarrow> u8 \<Rightarrow> armo_state \<Rightarrow> armo_state option" where
  "ARMO_configureEndpoint env i s =
     (let e = m_stAlertMaster (g_aARMO s ! unat i) in
      if m_unTLPort e = 0 then Some s
      else
        let s = (case DMO_GetContract (m_aNetworkAddr e) (m_unTLPort e) ISA100_DMAP_PORT SRVC_APERIODIC_COMM (ar_dmo s) of
                   None \<Rightarrow> s
                 | Some c \<Rightarrow> in_category i (in_master (\<lambda>e. e\<lparr>ALERT_COMM_ENDPOINT.m_unContractID := DMO_CONTRACT_ATTRIBUTE.m_unContractID c,
                     ALERT_COMM_ENDPOINT.m_ucContractStatus := ARMO_CONTRACT_ACTIVE\<rparr>)) s)
        in map_option (\<lambda>(d, sfc, _).
             let s = s\<lparr>ar_dmo := d\<rparr> in
             if sfc = SFC_SUCCESS
             then in_category i (in_master (\<lambda>e. e\<lparr>ALERT_COMM_ENDPOINT.m_ucContractStatus := ARMO_AWAIT_CONTRACT_ESTABLISHMENT\<rparr>))
                    (s\<lparr>g_unContractReqTimestamp := ucast (now_of (ar_env env))\<rparr>)
             else s)
           (DMO_RequestNewContract (ar_env env) (m_aNetworkAddr e) (m_unTLPort e) ISA100_DMAP_PORT 0xFFFFFFFF SRVC_APERIODIC_COMM 0
              MAX_APDU_SIZE 1 alert_bandwidth (ar_dmo s)))"

text \<open>Both times are 16 bits wide and promoted to \<^verbatim>\<open>int\<close> before they are subtracted.\<close>

definition contract_wait_over :: "u32 \<Rightarrow> u16 \<Rightarrow> bool" where
  "contract_wait_over now timestamp \<longleftrightarrow> uint (ucast now :: u16) - uint timestamp > CONTRACT_WAIT_TIMEOUT"

definition check_contract :: "armo_env \<Rightarrow> u8 \<Rightarrow> armo_state \<Rightarrow> armo_state option" where
  "check_contract env i s =
     (let st = contract_status (g_aARMO s ! unat i) in
      if st = ARMO_AWAIT_CONTRACT_ESTABLISHMENT \<or> st = ARMO_WAITING_CONTRACT_TERMINATION
      then Some (if contract_wait_over (now_of (ar_env env)) (g_unContractReqTimestamp s)
                 then in_category i (in_master (\<lambda>e. e\<lparr>ALERT_COMM_ENDPOINT.m_ucContractStatus := ARMO_NO_CONTR\<rparr>)) s else s)
      else if st = ARMO_NO_CONTR then ARMO_configureEndpoint env i s
      else Some s)"

fun over_categories :: "(u8 \<Rightarrow> 's \<Rightarrow> 's option) \<Rightarrow> u8 list \<Rightarrow> 's \<Rightarrow> 's option" where
  "over_categories f [] s = Some s"
| "over_categories f (i # is) s = (case f i s of None \<Rightarrow> None | Some s \<Rightarrow> over_categories f is s)"

definition ARMO_checkAlarmContracts :: "armo_env \<Rightarrow> armo_state \<Rightarrow> armo_state option" where
  "ARMO_checkAlarmContracts env = over_categories (check_contract env) [0, 1, 2, 3]"

definition ARMO_NotifyAddContract :: "DMO_CONTRACT_ATTRIBUTE \<Rightarrow> armo_state \<Rightarrow> armo_state" where
  "ARMO_NotifyAddContract c s = s\<lparr>g_aARMO := map (\<lambda>a.
     if contract_status a = ARMO_AWAIT_CONTRACT_ESTABLISHMENT \<and> m_unTLPort (m_stAlertMaster a) = m_unDstTLPort c
        \<and> m_aNetworkAddr (m_stAlertMaster a) = m_aDstAddr128 c
     then in_master (\<lambda>e. e\<lparr>ALERT_COMM_ENDPOINT.m_unContractID := DMO_CONTRACT_ATTRIBUTE.m_unContractID c,
            ALERT_COMM_ENDPOINT.m_ucContractStatus := ARMO_CONTRACT_ACTIVE\<rparr>) a
     else a) (g_aARMO s)\<rparr>"

section \<open>Reports\<close>

definition alert_args :: "ARMO_STRUCT \<Rightarrow> u8 \<Rightarrow> ADD_ARGS" where
  "alert_args c prio = \<lparr>p_ucPriority = prio, p_ucSrcTSAPID = 0, p_ucDstTSAPID = ucast (m_unTLPort (m_stAlertMaster c) AND 0x0F),
     p_unAppHandler = 0, p_pDstAddr = None, p_unContractID = ALERT_COMM_ENDPOINT.m_unContractID (m_stAlertMaster c),
     p_ucObeyContractBandwidth = 0, p_ucAllowEncryption = 1, p_ucNoRspExpected = 0, p_unAPDULifetime = 300\<rparr>"

definition report_alert :: "armo_env \<Rightarrow> ARMO_STRUCT \<Rightarrow> u8 \<Rightarrow> queued_alert \<Rightarrow> armo_state \<Rightarrow> armo_state \<times> u8" where
  "report_alert env c prio e s =
     (let (x, r) = ASLSRVC_AddGenericObject (current_cfg (ar_env env) (ar_dmo s)) (mem_of (snd e)) (alert_args c prio)
            (Service (AlertRep (ALERT_REP_SRVC.make DMAP_ARMO_OBJ_ID (m_unObjID (m_stAlertMaster c)) (fst e) 0))) (dm_asl (ar_dmo s))
      in (s\<lparr>ar_dmo := (ar_dmo s)\<lparr>dm_asl := x\<rparr>\<rparr>, r))"

text \<open>The fields of the event that are not assigned, the next report and the place of the data, are not sent: its data is empty.\<close>

definition ARMO_generateRecoveryEvent :: "armo_env \<Rightarrow> u8 \<Rightarrow> u8 \<Rightarrow> armo_state \<Rightarrow> armo_state \<times> u8" where
  "ARMO_generateRecoveryEvent env i ty s =
     (let c = g_aARMO s ! unat i in
      if contract_status c \<noteq> ARMO_CONTRACT_ACTIVE then (s, SFC_NO_CONTRACT)
      else if m_bAlertReportDisabled (m_stRecoveryDescr c) \<noteq> 0 then (s, SFC_SUCCESS)
      else let prio = APP_ALERT_DESCRIPTOR.m_ucPriority (m_stRecoveryDescr c);
               a = \<lparr>m_unDetObjTLPort = 0xF0B0, m_unDetObjID = DMAP_ARMO_OBJ_ID, m_ucClass = 0, m_ucDirection = 0, m_ucCategory = i, m_ucType = ty,
                    m_ucPriority = prio, m_unSize = 0, m_ulNextSendTAI = 0, m_ulSeconds = now_of (ar_env env), m_unFract = tai_fract env,
                    m_ucID = ARMO_getNextAlertId i c\<rparr>
           in report_alert env c prio (a, []) (in_category i (\<lambda>c. c\<lparr>m_ucAlertsNo := m_ucAlertsNo c + 1\<rparr>) s))"

definition recoverable :: "u8 \<Rightarrow> u8 \<Rightarrow> ALERT \<Rightarrow> bool" where
  "recoverable i p_ucLastID a \<longleftrightarrow> m_ucCategory a = i \<and>
     (p_ucLastID < m_ucID a \<or> (61 < p_ucLastID AND 0x3F \<and> m_ucID a AND 0x3F < 3))"

definition ARMO_recoverNextAlarm :: "armo_env \<Rightarrow> u8 \<Rightarrow> u8 \<Rightarrow> armo_state \<Rightarrow> armo_state \<times> u8" where
  "ARMO_recoverNextAlarm env i p_ucLastID s =
     (let c = g_aARMO s ! unat i in
      case List.find (\<lambda>(a, d). recoverable i p_ucLastID a \<and> contract_status c = ARMO_CONTRACT_ACTIVE) (g_aucARMOQueue s) of
        None \<Rightarrow> (s, SFC_FAILURE)
      | Some e \<Rightarrow>
          let (s, r) = report_alert env c (APP_ALERT_DESCRIPTOR.m_ucPriority (m_stRecoveryDescr c)) e s in
          (if r = SFC_SUCCESS then in_category i (\<lambda>c. c\<lparr>m_ucLastID := m_ucID (fst e)\<rparr>) s else s, SFC_SUCCESS))"

definition set_recovery :: "u8 \<Rightarrow> u8 \<Rightarrow> armo_state \<Rightarrow> armo_state" where
  "set_recovery i st = in_category i (\<lambda>c. c\<lparr>m_ucState := st\<rparr>)"

definition recover_category :: "armo_env \<Rightarrow> u8 \<Rightarrow> armo_state \<Rightarrow> armo_state" where
  "recover_category env i s =
     (let st = m_ucState (g_aARMO s ! unat i) in
      if st = RECOVERY_ENABLED
      then let (s, r) = ARMO_generateRecoveryEvent env i 0 s in if r = SFC_SUCCESS then set_recovery i RECOVERY_START_SENT s else s
      else if st = RECOVERY_START_SENT
      then let (s, r) = ARMO_recoverNextAlarm env i (m_ucLastID (g_aARMO s ! unat i)) s in if r \<noteq> SFC_SUCCESS then set_recovery i RECOVERY_DONE s else s
      else if st = RECOVERY_DONE
      then let (s, r) = ARMO_generateRecoveryEvent env i 1 s in if r = SFC_SUCCESS then set_recovery i RECOVERY_DISABLED s else s
      else s)"

definition ARMO_checkRecoveryState :: "armo_env \<Rightarrow> armo_state \<Rightarrow> armo_state \<times> bool" where
  "ARMO_checkRecoveryState env s =
     (case List.find (\<lambda>i. m_ucState (g_aARMO s ! unat i) \<noteq> RECOVERY_DISABLED) [0, 1, 2, 3] of
        None \<Rightarrow> (s, False)
      | Some i \<Rightarrow> (recover_category env i s, True))"

definition start_ack_timeout :: "armo_state \<Rightarrow> armo_state" where
  "start_ack_timeout s = (if g_ucAlarmTimeout s = 0 then s\<lparr>g_ucAlarmTimeout := 1\<rparr> else s)"

text \<open>The loop over the queue: the alerts that were reported get the time of their next report.\<close>

fun report_due :: "armo_env \<Rightarrow> queued_alert list \<Rightarrow> armo_state \<Rightarrow> (queued_alert list \<times> armo_state) option" where
  "report_due env [] s = Some ([], s)"
| "report_due env ((a, d) # q) s =
     (case category (m_ucCategory a) s of
        None \<Rightarrow> None
      | Some c \<Rightarrow>
          let (e, s) =
            (if contract_status c = ARMO_CONTRACT_ACTIVE \<and> m_ulNextSendTAI a < now_of (ar_env env)
             then let (s, r) = report_alert env c (ALERT_INFO.m_ucPriority a) (a, d) s in
                  (if r = SFC_SUCCESS then (a\<lparr>m_ulNextSendTAI := now_of (ar_env env) + ucast (m_ucConfTimeout c)\<rparr>, d) else (a, d), s)
             else ((a, d), s))
          in map_option (\<lambda>(q, s). (e # q, s)) (report_due env q (start_ack_timeout s)))"

definition ARMO_Task :: "armo_env \<Rightarrow> armo_state \<Rightarrow> armo_state option" where
  "ARMO_Task env s =
     (case ARMO_checkAlarmContracts env s of
        None \<Rightarrow> None
      | Some s \<Rightarrow>
          let (s, recovering) = ARMO_checkRecoveryState env s in
          if recovering then Some (if g_aucARMOQueue s \<noteq> [] then start_ack_timeout s else s)
          else map_option (\<lambda>(q, s). s\<lparr>g_aucARMOQueue := q\<rparr>) (report_due env (g_aucARMOQueue s) s))"

definition ARMO_Execute :: "u8 \<Rightarrow> u16 \<Rightarrow> mem \<Rightarrow> armo_state \<Rightarrow> armo_state \<times> u8" where
  "ARMO_Execute p_ucMethID p_unReqSize p_pReqBuf s =
     (if p_ucMethID \<noteq> 1 then (s, SFC_INVALID_METHOD)
      else if p_unReqSize \<noteq> 1 then (s, SFC_INVALID_SIZE)
      else let i = p_pReqBuf 0 in
      if 4 \<le> i then (s, SFC_INCONSISTENT_CONTENT)
      else if m_ucState (g_aARMO s ! unat i) \<noteq> RECOVERY_DISABLED then (s, SFC_OBJECT_STATE_CONFLICT)
      else (set_recovery i RECOVERY_ENABLED s, SFC_SUCCESS))"

definition ARMO_CheckAlertAckTimeout :: "armo_state \<Rightarrow> armo_state" where
  "ARMO_CheckAlertAckTimeout s =
     (if g_ucAlarmTimeout s \<noteq> 0
      then let s = s\<lparr>g_ucAlarmTimeout := g_ucAlarmTimeout s + 1\<rparr> in
           if ARMO_ALERT_ACK_TIMEOUT < g_ucAlarmTimeout s then s\<lparr>armo_events := armo_events s @ [ARMO_ResetStack]\<rparr> else s
      else s)"

section \<open>Attributes\<close>

definition ARMO_readAlertCommEndpoint :: "ALERT_COMM_ENDPOINT \<Rightarrow> u8 list \<times> u8" where
  "ARMO_readAlertCommEndpoint e = (m_aNetworkAddr e @ DMAP_InsertUint16 (m_unTLPort e) @ DMAP_InsertUint16 (m_unObjID e), 20)"

definition ARMO_writeAlertCommEndpoint :: "mem \<Rightarrow> addr \<Rightarrow> ALERT_COMM_ENDPOINT \<Rightarrow> ALERT_COMM_ENDPOINT" where
  "ARMO_writeAlertCommEndpoint m p e = e\<lparr>m_aNetworkAddr := mem_bytes m p 16, m_unTLPort := fst (DMAP_ExtractUint16 m (p + 16)),
     m_unObjID := fst (DMAP_ExtractUint16 m (p + 18)), ALERT_COMM_ENDPOINT.m_ucContractStatus := ARMO_NO_CONTR\<rparr>"

definition armo_row :: "u8 \<Rightarrow> u8 \<Rightarrow> (ARMO_STRUCT \<Rightarrow> u8 \<Rightarrow> u8 list \<times> u8) \<Rightarrow> (mem \<Rightarrow> addr \<Rightarrow> ARMO_STRUCT \<Rightarrow> ARMO_STRUCT) \<Rightarrow> armo_state DMAP_FCT_STRUCT" where
  "armo_row i sz rd wr = \<lparr>DMAP_FCT_STRUCT.m_ucSize = sz, m_pReadFct = (\<lambda>s. rd (g_aARMO s ! unat i)),
     m_pWriteFct = Some (\<lambda>s m p. Some (in_category i (wr m p) s))\<rparr>"

definition armo_category_rows :: "u8 \<Rightarrow> armo_state DMAP_FCT_STRUCT list" where
  "armo_category_rows i =
     [armo_row i 24 (\<lambda>c _. ARMO_readAlertCommEndpoint (m_stAlertMaster c)) (\<lambda>m p. in_master (ARMO_writeAlertCommEndpoint m p)),
      armo_row i 1 (\<lambda>c. DMAP_ReadUint8 (m_ucConfTimeout c)) (\<lambda>m p c. c\<lparr>m_ucConfTimeout := DMAP_WriteUint8 m p\<rparr>),
      armo_row i 1 (\<lambda>c. DMAP_ReadUint8 (m_ucAlertsDisable c)) (\<lambda>m p c. c\<lparr>m_ucAlertsDisable := DMAP_WriteUint8 m p\<rparr>)]"

definition armo_recovery_row :: "u8 \<Rightarrow> armo_state DMAP_FCT_STRUCT" where
  "armo_recovery_row i = armo_row i 2 (\<lambda>c. DMAP_ReadAlertDescriptor (m_stRecoveryDescr c))
     (\<lambda>m p c. c\<lparr>m_stRecoveryDescr := DMAP_WriteAlertDescriptor m p\<rparr>)"

definition c_aARMOFct :: "armo_state DMAP_FCT_STRUCT list" where
  "c_aARMOFct = [\<lparr>DMAP_FCT_STRUCT.m_ucSize = 0, m_pReadFct = (\<lambda>_. DMAP_EmptyReadFunc), m_pWriteFct = None\<rparr>]
     @ armo_category_rows 0 @ armo_category_rows 1 @ armo_category_rows 2 @ armo_category_rows 3
     @ [armo_recovery_row 1, armo_recovery_row 2, armo_recovery_row 0, armo_recovery_row 3]"

definition ARMO_Read :: "u16 \<Rightarrow> armo_state \<Rightarrow> u8 \<times> (u8 list \<times> u16) option" where
  "ARMO_Read p_unAttrID s = DMAP_ReadAttr p_unAttrID s c_aARMOFct"

definition ARMO_Write :: "u16 \<Rightarrow> u8 \<Rightarrow> mem \<Rightarrow> addr \<Rightarrow> armo_state \<Rightarrow> armo_state write_result" where
  "ARMO_Write p_unAttrID p_ucBufferSize m p s = DMAP_WriteAttr p_unAttrID p_ucBufferSize m p s c_aARMOFct"

end
