(* ===== verification/Armo_Reports.thy ===== *)
theory Armo_Reports
  imports Armo
begin

text \<open>
  The alert reporting object over time: what the queue keeps, that the task returns in every reachable state and reports exactly the alerts that
  are due, how the recovery of alarms ends or does not, when the stack is restarted, and the contract with an alert master through the device
  management object.
\<close>

unbundle bit_operations_syntax

section \<open>The queue\<close>

lemma queue_end_simps [simp]:
  "queue_end [] = 0" "queue_end ((a, d) # q) = unat (alert_length a) + queue_end q" "queue_end (p @ q) = queue_end p + queue_end q"
  by (simp_all add: queue_end_def)

lemma make_room_drop:
  "\<exists>k \<le> length q. make_room n q = drop k q \<and> (\<forall>j<k. ARMO_QUEUE_SIZE < queue_end (drop j q) + n)
     \<and> (make_room n q \<noteq> [] \<longrightarrow> queue_end (make_room n q) + n \<le> ARMO_QUEUE_SIZE)"
proof (induction q)
  case (Cons e q)
  show ?case
  proof (cases "ARMO_QUEUE_SIZE < queue_end (e # q) + n")
    case True
    from Cons obtain k where "k \<le> length q" "make_room n q = drop k q" "\<forall>j<k. ARMO_QUEUE_SIZE < queue_end (drop j q) + n"
        "make_room n q \<noteq> [] \<longrightarrow> queue_end (make_room n q) + n \<le> ARMO_QUEUE_SIZE" by blast
    with True show ?thesis by (intro exI [of _ "Suc k"]) (auto simp: less_Suc_eq_0_disj)
  next
    case False
    then show ?thesis by (intro exI [of _ 0]) simp
  qed
qed simp

lemma set_make_room: "set (make_room n q) \<subseteq> set q"
  using make_room_drop [of q n] by (metis set_drop_subset)

lemma make_room_fits: "n \<le> ARMO_QUEUE_SIZE \<Longrightarrow> queue_end (make_room n q) + n \<le> ARMO_QUEUE_SIZE"
  using make_room_drop [of q n] by (cases "make_room n q") auto

lemma set_remove_alert: "set (remove_alert i q) \<subseteq> set q"
  by (induction i q rule: remove_alert.induct) auto

lemma queue_end_remove: "queue_end (remove_alert i q) \<le> queue_end q"
  by (induction i q rule: remove_alert.induct) auto

text \<open>An alert whose data is not longer than the queue takes up its header, its data and less than four octets.\<close>

definition fits :: "ALERT \<Rightarrow> bool" where
  "fits a \<longleftrightarrow> 24 + unat (ALERT_INFO.m_unSize a) \<le> ARMO_QUEUE_SIZE"

lemma unat_alert_size: "fits a \<Longrightarrow> unat (24 + ALERT_INFO.m_unSize a) = 24 + unat (ALERT_INFO.m_unSize a)"
  by (simp add: fits_def unat_word_ariths)

lemma alert_length_bounds:
  assumes "fits a"
  shows "24 + unat (ALERT_INFO.m_unSize a) \<le> unat (alert_length a)" and "unat (alert_length a) < 28 + unat (ALERT_INFO.m_unSize a)"
    and "unat (alert_length a) \<le> ARMO_QUEUE_SIZE"
  using assms aligned_length_eq [of "24 + ALERT_INFO.m_unSize a"] unat_alert_size [OF assms]
  by (auto simp: alert_length_def fits_def)

section \<open>Reachable states\<close>

definition queued_ok :: "queued_alert \<Rightarrow> bool" where
  "queued_ok = (\<lambda>(a, d). fits a \<and> length d = unat (ALERT_INFO.m_unSize a) \<and> m_ucCategory a < 4 \<and> drop_bit 6 (m_ucID a) = m_ucCategory a)"

definition armo_inv :: "armo_state \<Rightarrow> bool" where
  "armo_inv s \<longleftrightarrow> length (g_aARMO s) = ALERT_CAT_NO \<and> queue_end (g_aucARMOQueue s) \<le> ARMO_QUEUE_SIZE
     \<and> (\<forall>e\<in>set (g_aucARMOQueue s). queued_ok e) \<and> req_inv (ar_dmo s)"

inductive armo_step :: "armo_state \<Rightarrow> armo_state \<Rightarrow> bool" where
  start: "armo_step s (ARMO_Init s)"
| add: "ARMO_AddAlertToQueue env a buf s = Some (s', sfc) \<Longrightarrow> armo_step s s'"
| ack: "armo_step s (ARMO_ProcessAlertAck i s)"
| task: "ARMO_Task env s = Some s' \<Longrightarrow> armo_step s s'"
| execute: "armo_step s (fst (ARMO_Execute meth len req s))"
| tick: "armo_step s (ARMO_CheckAlertAckTimeout s)"
| granted: "armo_step s (ARMO_NotifyAddContract c s)"
| attribute_written: "ARMO_Write i len m p s = Written sfc s' \<Longrightarrow> armo_step s s'"
| dmo: "dmo_step (ar_dmo s) d \<Longrightarrow> armo_step s (s\<lparr>ar_dmo := d\<rparr>)"

text \<open>At the start the structures of the four categories are zero and the queue is empty.\<close>

definition blank_endpoint :: ALERT_COMM_ENDPOINT where
  "blank_endpoint = ALERT_COMM_ENDPOINT.make (replicate 16 0) 0 0 0 0"

definition blank_category :: ARMO_STRUCT where
  "blank_category = ARMO_STRUCT.make blank_endpoint 0 0 (APP_ALERT_DESCRIPTOR.make 0 0) 0 0 0"

definition armo_start :: "dmo_state \<Rightarrow> armo_state" where
  "armo_start d = armo_state.make (replicate 4 blank_category) 0 0 [] d []"

inductive armo_reach :: "armo_state \<Rightarrow> bool" where
  init: "dmo_reach d \<Longrightarrow> armo_reach (armo_start d)"
| step: "armo_reach s \<Longrightarrow> armo_step s s' \<Longrightarrow> armo_reach s'"

lemma in_category_frame [simp]:
  "g_aucARMOQueue (in_category i f s) = g_aucARMOQueue s" "ar_dmo (in_category i f s) = ar_dmo s"
  "length (g_aARMO (in_category i f s)) = length (g_aARMO s)" "g_ucAlarmTimeout (in_category i f s) = g_ucAlarmTimeout s"
  "armo_events (in_category i f s) = armo_events s" "g_unContractReqTimestamp (in_category i f s) = g_unContractReqTimestamp s"
  by (simp_all add: in_category_def)

lemma in_category_other [simp]: "unat j \<noteq> unat i \<Longrightarrow> g_aARMO (in_category i f s) ! unat j = g_aARMO s ! unat j"
  by (simp add: in_category_def)

lemma in_category_same [simp]:
  "unat i < length (g_aARMO s) \<Longrightarrow> g_aARMO (in_category i f s) ! unat i = f (g_aARMO s ! unat i)"
  by (simp add: in_category_def)

lemma armo_inv_frame [simp]:
  "armo_inv (in_category i f s) = armo_inv s" "armo_inv (s\<lparr>g_unContractReqTimestamp := t\<rparr>) = armo_inv s"
  "armo_inv (s\<lparr>armo_events := es\<rparr>) = armo_inv s" "armo_inv (s\<lparr>g_ucAlarmTimeout := u\<rparr>) = armo_inv s"
  "armo_inv (set_recovery i st s) = armo_inv s" "armo_inv (start_ack_timeout s) = armo_inv s"
  by (simp_all add: armo_inv_def set_recovery_def start_ack_timeout_def)

lemma category_cases:
  assumes "(c :: u8) < 4"
  obtains "c = 0" | "c = 1" | "c = 2" | "c = 3"
proof -
  have "unat c = 0 \<or> unat c = 1 \<or> unat c = 2 \<or> unat c = 3" using assms by (auto simp: word_less_nat_alt)
  then show thesis using that by (auto simp: word_unat_eq_iff)
qed

lemma next_id_category:
  assumes "c < 4"
  shows "drop_bit 6 (ARMO_getNextAlertId c a) = c"
proof -
  have "m_ucAlertsNo a AND 0x3F = take_bit 6 (m_ucAlertsNo a)" by (simp add: take_bit_eq_mask mask_eq_exp_minus_1)
  then have "drop_bit 6 (m_ucAlertsNo a AND 0x3F) = 0" by (simp add: drop_bit_take_bit)
  then show ?thesis by (rule_tac category_cases [OF assms]) (simp_all add: ARMO_getNextAlertId_def drop_bit_or)
qed

lemma ack_inv: "armo_inv s \<Longrightarrow> armo_inv (ARMO_ProcessAlertAck i s)"
  using set_remove_alert [of i "g_aucARMOQueue s"] queue_end_remove [of i "g_aucARMOQueue s"]
  by (auto simp: ARMO_ProcessAlertAck_def armo_inv_def Let_def)

lemma add_inv:
  assumes "armo_inv s" and "ARMO_AddAlertToQueue env a buf s = Some (s', sfc)"
  shows "armo_inv s'"
proof (cases "alert_tr_callback (sl_env (ar_env env))")
  case True
  then show ?thesis using assms by (auto simp: ARMO_AddAlertToQueue_def ARMO_FwAlertToTR_def Let_def intro!: ack_inv)
next
  case False
  define q where "q = make_room (unat (alert_length a)) (g_aucARMOQueue s)"
  let ?d = "mem_bytes buf 0 (unat (ALERT_INFO.m_unSize a))"
  define t where "t c = in_category (m_ucCategory a) (\<lambda>c. c\<lparr>m_ucAlertsNo := m_ucAlertsNo c + 1\<rparr>)
        (s\<lparr>g_aucARMOQueue := q @ [(stamped env a (ARMO_getNextAlertId (m_ucCategory a) c), ?d)]\<rparr>)" for c
  note eq = assms(2) [unfolded ARMO_AddAlertToQueue_def, simplified Let_def False if_False, folded q_def, folded t_def]
  consider "s' = s" | c where "category (m_ucCategory a) s = Some c" "unat (alert_length a) < ARMO_QUEUE_SIZE"
      "queue_end q + 24 + length ?d \<le> ARMO_QUEUE_SIZE" "s' = t c"
  proof (cases "category (m_ucCategory a) s")
    case None
    then show ?thesis using eq that(1) by (simp split: if_splits)
  next
    case (Some c)
    then show ?thesis using eq that(1) that(2) [of c] by (simp split: if_splits)
  qed
  then show ?thesis
  proof cases
    case 1
    then show ?thesis using assms(1) by simp
  next
    case (2 c)
    have i: "m_ucCategory a < 4" using 2(1) assms(1) by (auto simp: category_def armo_inv_def word_less_nat_alt split: if_splits)
    have f: "fits a" using 2(3) by (simp add: fits_def)
    have "queued_ok (stamped env a (ARMO_getNextAlertId (m_ucCategory a) c), ?d)"
      using i f by (simp add: queued_ok_def stamped_def fits_def next_id_category)
    moreover have "queue_end q + unat (alert_length a) \<le> ARMO_QUEUE_SIZE"
      using make_room_fits alert_length_bounds(3) [OF f] by (simp add: q_def)
    moreover have "alert_length (stamped env a k) = alert_length a" for k by (simp add: alert_length_def stamped_def)
    ultimately show ?thesis
      using assms(1) set_make_room [of "unat (alert_length a)" "g_aucARMOQueue s"] unfolding 2(4) t_def
      by (auto simp: armo_inv_def q_def)
  qed
qed

lemma configure_returns:
  assumes "armo_inv s"
  shows "\<exists>s'. ARMO_configureEndpoint env i s = Some s' \<and> armo_inv s' \<and> g_aucARMOQueue s' = g_aucARMOQueue s"
proof -
  define e where "e = m_stAlertMaster (g_aARMO s ! unat i)"
  define s1 where "s1 = (case DMO_GetContract (m_aNetworkAddr e) (m_unTLPort e) ISA100_DMAP_PORT SRVC_APERIODIC_COMM (ar_dmo s) of
       None \<Rightarrow> s
     | Some c \<Rightarrow> in_category i (in_master (\<lambda>e. e\<lparr>ALERT_COMM_ENDPOINT.m_unContractID := DMO_CONTRACT_ATTRIBUTE.m_unContractID c,
         ALERT_COMM_ENDPOINT.m_ucContractStatus := ARMO_CONTRACT_ACTIVE\<rparr>)) s)"
  have 1: "armo_inv s1" "ar_dmo s1 = ar_dmo s" "g_aucARMOQueue s1 = g_aucARMOQueue s" using assms by (auto simp: s1_def split: option.split)
  then have r: "req_inv (ar_dmo s1)" by (simp add: armo_inv_def)
  obtain d sfc k where q: "DMO_RequestNewContract (ar_env env) (m_aNetworkAddr e) (m_unTLPort e) ISA100_DMAP_PORT 0xFFFFFFFF SRVC_APERIODIC_COMM 0
      MAX_APDU_SIZE 1 alert_bandwidth (ar_dmo s1) = Some (d, sfc, k)" using request_returns [OF r] by blast
  have "armo_inv (s1\<lparr>ar_dmo := d\<rparr>)" using 1(1) request_inv [OF r q] by (simp add: armo_inv_def)
  then show ?thesis
    using assms 1(3) q by (simp add: ARMO_configureEndpoint_def e_def [symmetric] s1_def [symmetric] Let_def)
qed

lemma check_returns:
  assumes "armo_inv s"
  shows "\<exists>s'. check_contract env i s = Some s' \<and> armo_inv s' \<and> g_aucARMOQueue s' = g_aucARMOQueue s"
  using assms configure_returns [OF assms] by (simp add: check_contract_def Let_def)

lemma over_categories_returns:
  assumes "\<And>i s. armo_inv s \<Longrightarrow> \<exists>s'. f i s = Some s' \<and> armo_inv s' \<and> g_aucARMOQueue s' = g_aucARMOQueue s" and "armo_inv s"
  shows "\<exists>s'. over_categories f is s = Some s' \<and> armo_inv s' \<and> g_aucARMOQueue s' = g_aucARMOQueue s"
  using assms(2)
proof (induction "is" arbitrary: s)
  case (Cons i "is")
  then show ?case using assms(1) [OF Cons.prems, of i] by (metis option.simps(5) over_categories.simps(2))
qed simp

lemma contracts_return:
  "armo_inv s \<Longrightarrow> \<exists>s'. ARMO_checkAlarmContracts env s = Some s' \<and> armo_inv s' \<and> g_aucARMOQueue s' = g_aucARMOQueue s"
  unfolding ARMO_checkAlarmContracts_def by (intro over_categories_returns check_returns)

lemma report_frame:
  assumes "report_alert env c prio e s = (s', r)"
  obtains x where "s' = s\<lparr>ar_dmo := (ar_dmo s)\<lparr>dm_asl := x\<rparr>\<rparr>"
  using assms that by (auto simp: report_alert_def split: prod.splits)

lemma report_inv: "report_alert env c prio e s = (s', r) \<Longrightarrow> armo_inv s' = armo_inv s"
  by (erule report_frame) (simp add: armo_inv_def)

lemma report_inv_fst [simp]: "armo_inv (fst (report_alert env c prio e s)) = armo_inv s"
  by (metis prod.collapse report_inv)

lemma event_inv: "armo_inv (fst (ARMO_generateRecoveryEvent env i ty s)) = armo_inv s"
  by (simp add: ARMO_generateRecoveryEvent_def Let_def)

lemma recover_inv: "armo_inv (fst (ARMO_recoverNextAlarm env i l s)) = armo_inv s"
  by (auto simp: ARMO_recoverNextAlarm_def Let_def dest: report_inv split: option.split prod.split)

lemma recovery_inv: "armo_inv (recover_category env i s) = armo_inv s"
  using event_inv [of env i 0 s] event_inv [of env i 1 s] recover_inv [of env i "m_ucLastID (g_aARMO s ! unat i)" s]
  by (auto simp: recover_category_def Let_def split: prod.split)

text \<open>What the loop over the queue does to an alert: nothing but the time of the next report changes.\<close>

definition same_alert :: "queued_alert \<Rightarrow> queued_alert \<Rightarrow> bool" where
  "same_alert e e' \<longleftrightarrow> (\<exists>t. e' = ((fst e)\<lparr>m_ulNextSendTAI := t\<rparr>, snd e))"

lemma same_alert_refl [simp]: "same_alert e e"
  unfolding same_alert_def by (rule exI [of _ "m_ulNextSendTAI (fst e)"]) simp

lemma same_alert_later [simp]: "same_alert (a, d) (a\<lparr>m_ulNextSendTAI := t\<rparr>, d)"
  by (auto simp: same_alert_def)

lemma same_alerts_ok: "list_all2 same_alert q q' \<Longrightarrow> (\<forall>e\<in>set q. queued_ok e) \<Longrightarrow> (\<forall>e\<in>set q'. queued_ok e)"
  by (induction rule: list_all2_induct) (auto simp: same_alert_def queued_ok_def fits_def)

lemma same_alerts_end: "list_all2 same_alert q q' \<Longrightarrow> queue_end q' = queue_end q"
  by (induction rule: list_all2_induct) (auto simp: same_alert_def alert_length_def)

lemma category_ok: "armo_inv s \<Longrightarrow> queued_ok (a, d) \<Longrightarrow> category (m_ucCategory a) s = Some (g_aARMO s ! unat (m_ucCategory a))"
  by (auto simp: category_def armo_inv_def queued_ok_def word_less_nat_alt)

lemma due_returns:
  assumes "armo_inv s" and "\<forall>e\<in>set q. queued_ok e"
  shows "\<exists>q' s'. report_due env q s = Some (q', s') \<and> list_all2 same_alert q q' \<and> armo_inv s'"
  using assms
proof (induction q arbitrary: s)
  case (Cons e q)
  obtain a d where e: "e = (a, d)" by fastforce
  let ?c = "g_aARMO s ! unat (m_ucCategory a)"
  have cat: "category (m_ucCategory a) s = Some ?c" using category_ok [of s a d] Cons.prems e by simp
  obtain s1 r where r: "report_alert env ?c (ALERT_INFO.m_ucPriority a) (a, d) s = (s1, r)" by fastforce
  note i = report_inv [OF r]
  have q: "\<forall>e\<in>set q. queued_ok e" using Cons.prems(2) by simp
  have "armo_inv (start_ack_timeout s1)" "armo_inv (start_ack_timeout s)" using i Cons.prems(1) by simp_all
  note IH = Cons.IH [OF this(1) q] Cons.IH [OF this(2) q]
  show ?case using IH by (auto simp: e cat r Let_def)
qed simp

lemma task_returns:
  assumes "armo_inv s"
  shows "\<exists>s'. ARMO_Task env s = Some s' \<and> armo_inv s'"
proof -
  obtain s1 where 1: "ARMO_checkAlarmContracts env s = Some s1" "armo_inv s1" using contracts_return [OF assms] by blast
  obtain s2 b where 2: "ARMO_checkRecoveryState env s1 = (s2, b)" by fastforce
  have i: "armo_inv s2" using 2 1(2) recovery_inv by (auto simp: ARMO_checkRecoveryState_def split: option.splits)
  then have "\<forall>e\<in>set (g_aucARMOQueue s2). queued_ok e" by (simp add: armo_inv_def)
  then obtain q' s3 where 3: "report_due env (g_aucARMOQueue s2) s2 = Some (q', s3)" "list_all2 same_alert (g_aucARMOQueue s2) q'" "armo_inv s3"
    using due_returns [OF i] by blast
  have "armo_inv (s3\<lparr>g_aucARMOQueue := q'\<rparr>)"
    using 3(3) i same_alerts_ok [OF 3(2)] same_alerts_end [OF 3(2)] by (simp add: armo_inv_def)
  then show ?thesis using i by (simp add: ARMO_Task_def 1(1) 2 3(1))
qed

lemma execute_queue_inv: "armo_inv (fst (ARMO_Execute meth len req s)) = armo_inv s"
  by (simp add: ARMO_Execute_def Let_def)

text \<open>Every attribute that can be written is in the structure of a category.\<close>

lemma armo_writers:
  "\<forall>r\<in>set c_aARMOFct. m_pWriteFct r = None \<or> (\<exists>i f. m_pWriteFct r = Some (\<lambda>s m p. Some (in_category i (f m p) s)))"
  unfolding c_aARMOFct_def armo_category_rows_def armo_recovery_row_def armo_row_def by auto

lemma write_queue_inv:
  assumes "ARMO_Write k len m p s = Written sfc s'"
  shows "armo_inv s' = armo_inv s"
proof (cases "k = 0 \<or> length c_aARMOFct \<le> unat k")
  case True
  then show ?thesis using assms by (auto simp: ARMO_Write_def DMAP_WriteAttr_def)
next
  case False
  then have "c_aARMOFct ! unat k \<in> set c_aARMOFct" by simp
  from bspec [OF armo_writers this] show ?thesis using False assms by (auto simp: ARMO_Write_def DMAP_WriteAttr_def)
qed

lemma simple_steps_inv [simp]:
  "armo_inv (ARMO_CheckAlertAckTimeout s) = armo_inv s" "armo_inv (ARMO_NotifyAddContract c s) = armo_inv s" "armo_inv (ARMO_Init s) = armo_inv s"
  by (simp_all add: ARMO_CheckAlertAckTimeout_def Let_def) (simp_all add: ARMO_NotifyAddContract_def ARMO_Init_def armo_inv_def)

lemma armo_step_inv: "armo_step s s' \<Longrightarrow> armo_inv s \<Longrightarrow> armo_inv s'"
proof (induction rule: armo_step.induct)
  case (task env s s')
  then show ?case using task_returns [of s env] by auto
next
  case (dmo s d)
  then show ?case using step_inv by (auto simp: armo_inv_def)
qed (simp_all add: add_inv ack_inv execute_queue_inv write_queue_inv)

lemma armo_start_inv: "dmo_reach d \<Longrightarrow> armo_inv (armo_start d)"
  by (simp add: reach_inv armo_start_def armo_inv_def armo_state.defs)

lemma armo_reach_inv: "armo_reach s \<Longrightarrow> armo_inv s"
  by (induction rule: armo_reach.induct) (simp_all add: armo_step_inv armo_start_inv)

section \<open>Reports\<close>

definition reachable_master :: "armo_env \<Rightarrow> ARMO_STRUCT \<Rightarrow> armo_state \<Rightarrow> bool" where
  "reachable_master env c s \<longleftrightarrow> \<not> device_is_bbr (current_cfg (ar_env env) (ar_dmo s))
     \<and> find_ref (ALERT_COMM_ENDPOINT.m_unContractID (m_stAlertMaster c)) (dm_asl (ar_dmo s)) \<noteq> None"

text \<open>\<open>carries_alert c e msg\<close>: the message is the report of the alert \<open>e\<close> to the alert master of \<open>c\<close>.\<close>

definition carries_alert :: "ARMO_STRUCT \<Rightarrow> queued_alert \<Rightarrow> CAslTxMsg \<Rightarrow> bool" where
  "carries_alert c e msg \<longleftrightarrow>
     ASLSRVC_setAlertRepObj (mem_of (snd e)) (ALERT_REP_SRVC.make DMAP_ARMO_OBJ_ID (m_unObjID (m_stAlertMaster c)) (fst e) 0) 65535
       = Some (m_oTxApduData msg)"

lemma report_sent:
  assumes "reachable_master env c s" and "fits (fst e)"
  obtains msg where "report_alert env c prio e s = (s\<lparr>ar_dmo := (ar_dmo s)\<lparr>dm_asl := (dm_asl (ar_dmo s))\<lparr>g_oAslMsgListTx :=
      g_oAslMsgListTx (dm_asl (ar_dmo s)) @ [msg]\<rparr>\<rparr>\<rparr>, SFC_SUCCESS)" and "carries_alert c e msg"
proof -
  let ?a = "dm_asl (ar_dmo s)" and ?y = "ALERT_REP_SRVC.make DMAP_ARMO_OBJ_ID (m_unObjID (m_stAlertMaster c)) (fst e) 0"
  obtain w where w: "find_ref (ALERT_COMM_ENDPOINT.m_unContractID (m_stAlertMaster c)) ?a = Some w"
    using assms(1) by (auto simp: reachable_master_def)
  then obtain nc where nc: "lock w ?a = Some nc" using lock_find_ref by blast
  obtain apdu where apdu: "ASLSRVC_setAlertRepObj (mem_of (snd e)) ?y 65535 = Some apdu"
    using assms(2) by (auto simp: ASLSRVC_setAlertRepObj_def ALERT_REP_SRVC.make_def fits_def Let_def)
  define msg where "msg = \<lparr>m_pWeakContract = w, m_stQueueHdr = queue_header (current_cfg (ar_env env) (ar_dmo s)) (mem_of (snd e))
      (alert_args c prio) (Service (AlertRep ?y)) nc apdu, m_oTxApduData = apdu\<rparr>"
  show ?thesis
  proof (rule that [of msg])
    show "carries_alert c e msg" using apdu by (simp add: carries_alert_def msg_def)
    show "report_alert env c prio e s = (s\<lparr>ar_dmo := (ar_dmo s)\<lparr>dm_asl := ?a\<lparr>g_oAslMsgListTx := g_oAslMsgListTx ?a @ [msg]\<rparr>\<rparr>\<rparr>, SFC_SUCCESS)"
      using assms(1) w nc apdu
      by (simp add: report_alert_def ASLSRVC_AddGenericObject_def ASLSRVC_AddGenericObjectEncryptable_def
          ASLSRVC_AddGenericObjectEncryptableCore_def reachable_master_def alert_args_def msg_def Let_def)
  qed
qed

definition due :: "armo_env \<Rightarrow> armo_state \<Rightarrow> queued_alert \<Rightarrow> bool" where
  "due env s = (\<lambda>(a, d). contract_status (g_aARMO s ! unat (m_ucCategory a)) = ARMO_CONTRACT_ACTIVE \<and> m_ulNextSendTAI a < now_of (ar_env env))"

definition after_report :: "armo_env \<Rightarrow> armo_state \<Rightarrow> queued_alert \<Rightarrow> queued_alert" where
  "after_report env s = (\<lambda>(a, d). if due env s (a, d)
     then (a\<lparr>m_ulNextSendTAI := now_of (ar_env env) + ucast (m_ucConfTimeout (g_aARMO s ! unat (m_ucCategory a)))\<rparr>, d) else (a, d))"

lemma due_reported:
  assumes "armo_inv s" and "\<forall>e\<in>set q. queued_ok e" and "\<forall>c\<in>set (g_aARMO s). contract_status c = ARMO_CONTRACT_ACTIVE \<longrightarrow> reachable_master env c s"
  shows "\<exists>s' msgs. report_due env q s = Some (map (after_report env s) q, s')
    \<and> list_all2 (\<lambda>e. carries_alert (g_aARMO s ! unat (m_ucCategory (fst e))) e) (filter (due env s) q) msgs
    \<and> g_oAslMsgListTx (dm_asl (ar_dmo s')) = g_oAslMsgListTx (dm_asl (ar_dmo s)) @ msgs"
  using assms
proof (induction q arbitrary: s)
  case (Cons e q)
  obtain a d where e: "e = (a, d)" by fastforce
  let ?c = "g_aARMO s ! unat (m_ucCategory a)" and ?a = "dm_asl (ar_dmo s)"
  have cat: "category (m_ucCategory a) s = Some ?c" using category_ok [of s a d] Cons.prems e by simp
  then have c: "?c \<in> set (g_aARMO s)" by (auto simp: category_def split: if_splits)
  have f: "fits a" using Cons.prems(2) by (auto simp: e queued_ok_def)
  have IH: "\<exists>s' msgs. report_due env q t = Some (map (after_report env s) q, s')
      \<and> list_all2 (\<lambda>e. carries_alert (g_aARMO s ! unat (m_ucCategory (fst e))) e) (filter (due env s) q) msgs
      \<and> g_oAslMsgListTx (dm_asl (ar_dmo s')) = g_oAslMsgListTx (dm_asl (ar_dmo t)) @ msgs"
    if "armo_inv t" "g_aARMO t = g_aARMO s" "\<forall>c. reachable_master env c t = reachable_master env c s" for t
  proof -
    have "due env t = due env s" "after_report env t = after_report env s" using that(2) by (auto simp: due_def after_report_def fun_eq_iff)
    then show ?thesis using Cons.IH [OF that(1)] that(2,3) Cons.prems(2,3) by simp
  qed
  show ?case
  proof (cases "due env s (a, d)")
    case False
    have t: "armo_inv (start_ack_timeout s)" "g_aARMO (start_ack_timeout s) = g_aARMO s" "ar_dmo (start_ack_timeout s) = ar_dmo s"
      using Cons.prems(1) by (simp_all add: start_ack_timeout_def)
    from False have "\<not> (contract_status ?c = ARMO_CONTRACT_ACTIVE \<and> m_ulNextSendTAI a < now_of (ar_env env))" by (simp add: due_def)
    then have step: "report_due env (e # q) s = map_option (\<lambda>(q, s). ((a, d) # q, s)) (report_due env q (start_ack_timeout s))"
      by (simp only: e report_due.simps cat option.case Let_def if_False case_prod_conv)
    show ?thesis using IH [OF t(1,2)] t(3) False unfolding step by (auto simp: e after_report_def reachable_master_def)
  next
    case True
    then have act: "contract_status ?c = ARMO_CONTRACT_ACTIVE" "m_ulNextSendTAI a < now_of (ar_env env)" by (simp_all add: due_def)
    obtain msg where m: "report_alert env ?c (ALERT_INFO.m_ucPriority a) (a, d) s = (s\<lparr>ar_dmo := (ar_dmo s)\<lparr>dm_asl := ?a\<lparr>g_oAslMsgListTx :=
        g_oAslMsgListTx ?a @ [msg]\<rparr>\<rparr>\<rparr>, SFC_SUCCESS)" "carries_alert ?c (a, d) msg"
      using report_sent [of env ?c s "(a, d)" "ALERT_INFO.m_ucPriority a"] act(1) c Cons.prems(3) f by auto
    define t where "t = start_ack_timeout (s\<lparr>ar_dmo := (ar_dmo s)\<lparr>dm_asl := ?a\<lparr>g_oAslMsgListTx := g_oAslMsgListTx ?a @ [msg]\<rparr>\<rparr>\<rparr>)"
    have t: "armo_inv t" "g_aARMO t = g_aARMO s" "dm_asl (ar_dmo t) = ?a\<lparr>g_oAslMsgListTx := g_oAslMsgListTx ?a @ [msg]\<rparr>"
        "current_cfg (ar_env env) (ar_dmo t) = current_cfg (ar_env env) (ar_dmo s)"
      using Cons.prems(1) by (simp_all add: t_def armo_inv_def) (simp_all add: start_ack_timeout_def current_cfg_def)
    have step: "report_due env (e # q) s = map_option (\<lambda>(q, u). (after_report env s (a, d) # q, u)) (report_due env q t)"
      using True act by (simp add: e cat m(1) t_def [symmetric] after_report_def)
    show ?thesis using IH [OF t(1,2)] t(3,4) True m(2) unfolding step by (auto simp: e reachable_master_def find_ref_def)
  qed
qed simp

lemma recovery_queue:
  "g_aucARMOQueue (recover_category env i s) = g_aucARMOQueue s"
proof -
  have r: "g_aucARMOQueue (fst (report_alert env c prio e t)) = g_aucARMOQueue t" for c prio e t
    by (simp add: report_alert_def split: prod.split)
  have "g_aucARMOQueue (fst (ARMO_generateRecoveryEvent env i ty s)) = g_aucARMOQueue s" for ty
    by (simp add: ARMO_generateRecoveryEvent_def Let_def r)
  moreover have "g_aucARMOQueue (fst (ARMO_recoverNextAlarm env i l s)) = g_aucARMOQueue s" for l
    using r by (auto simp: ARMO_recoverNextAlarm_def Let_def split: option.split prod.split) (metis fst_conv)+
  ultimately show ?thesis by (auto simp: recover_category_def set_recovery_def Let_def split: prod.split) (metis fst_conv)+
qed

lemma no_recovery:
  assumes "armo_inv s" and "\<forall>c\<in>set (g_aARMO s). m_ucState c = RECOVERY_DISABLED"
  shows "ARMO_checkRecoveryState env s = (s, False)"
  using assms by (simp add: ARMO_checkRecoveryState_def armo_inv_def)

lemma task_keeps_queue:
  assumes "armo_inv s" and "ARMO_Task env s = Some s'"
  shows "list_all2 same_alert (g_aucARMOQueue s) (g_aucARMOQueue s')"
proof -
  obtain s1 where 1: "ARMO_checkAlarmContracts env s = Some s1" "armo_inv s1" "g_aucARMOQueue s1 = g_aucARMOQueue s"
    using contracts_return [OF assms(1)] by blast
  obtain s2 b where 2: "ARMO_checkRecoveryState env s1 = (s2, b)" by fastforce
  have i: "armo_inv s2" "g_aucARMOQueue s2 = g_aucARMOQueue s"
    using 2 1(2,3) recovery_inv recovery_queue by (auto simp: ARMO_checkRecoveryState_def split: option.splits)
  then have "\<forall>e\<in>set (g_aucARMOQueue s2). queued_ok e" by (simp add: armo_inv_def)
  then obtain q' s3 where 3: "report_due env (g_aucARMOQueue s2) s2 = Some (q', s3)" "list_all2 same_alert (g_aucARMOQueue s2) q'"
    using due_returns [OF i(1)] by blast
  have "list_all2 same_alert (g_aucARMOQueue s) (g_aucARMOQueue s)" by (simp add: list_all2_refl)
  then show ?thesis using assms(2) i(2) 3 by (auto simp: ARMO_Task_def 1(1) 2 start_ack_timeout_def split: if_splits)
qed

section \<open>Recovery\<close>

text \<open>One call of the recovery of a category whose start was reported.\<close>

lemma recover_one:
  assumes "unat i < length (g_aARMO s)" and "m_ucState (g_aARMO s ! unat i) = RECOVERY_START_SENT"
    and "contract_status (g_aARMO s ! unat i) = ARMO_CONTRACT_ACTIVE" and "reachable_master env (g_aARMO s ! unat i) s"
    and "\<forall>e\<in>set (g_aucARMOQueue s). fits (fst e)"
    and f: "List.find (\<lambda>(a, d). recoverable i (m_ucLastID (g_aARMO s ! unat i)) a) (g_aucARMOQueue s) = Some e"
  obtains msg where "recover_category env i s = in_category i (\<lambda>c. c\<lparr>m_ucLastID := m_ucID (fst e)\<rparr>)
      (s\<lparr>ar_dmo := (ar_dmo s)\<lparr>dm_asl := (dm_asl (ar_dmo s))\<lparr>g_oAslMsgListTx := g_oAslMsgListTx (dm_asl (ar_dmo s)) @ [msg]\<rparr>\<rparr>\<rparr>)"
    and "carries_alert (g_aARMO s ! unat i) e msg"
proof -
  let ?c = "g_aARMO s ! unat i" and ?a = "dm_asl (ar_dmo s)"
  have "e \<in> set (g_aucARMOQueue s)" using f by (metis find_Some_iff nth_mem)
  then obtain msg where m: "report_alert env ?c (APP_ALERT_DESCRIPTOR.m_ucPriority (m_stRecoveryDescr ?c)) e s =
      (s\<lparr>ar_dmo := (ar_dmo s)\<lparr>dm_asl := ?a\<lparr>g_oAslMsgListTx := g_oAslMsgListTx ?a @ [msg]\<rparr>\<rparr>\<rparr>, SFC_SUCCESS)" "carries_alert ?c e msg"
    using report_sent [OF assms(4), of e] assms(5) by blast
  have "ARMO_recoverNextAlarm env i (m_ucLastID ?c) s = (in_category i (\<lambda>c. c\<lparr>m_ucLastID := m_ucID (fst e)\<rparr>)
      (s\<lparr>ar_dmo := (ar_dmo s)\<lparr>dm_asl := ?a\<lparr>g_oAslMsgListTx := g_oAslMsgListTx ?a @ [msg]\<rparr>\<rparr>\<rparr>), SFC_SUCCESS)"
    using f assms(3) m(1) by (simp add: ARMO_recoverNextAlarm_def)
  then show ?thesis using that [OF _ m(2)] assms(2) by (simp add: recover_category_def)
qed

lemma filter_above:
  assumes "sorted_wrt (\<lambda>x y. (f x :: 'a :: linorder) < f y) xs" and "filter (\<lambda>x. l < f x) xs = e # ys"
  shows "filter (\<lambda>x. f e < f x) xs = ys"
  using assms
proof (induction xs)
  case (Cons x xs)
  show ?case
  proof (cases "l < f x")
    case True
    then have "\<forall>y\<in>set xs. l < f y" using Cons.prems(1) by (auto intro: less_trans)
    then have "e = x" "ys = xs" using Cons.prems(2) True by auto
    then show ?thesis using Cons.prems(1) by simp
  next
    case False
    then have f: "filter (\<lambda>x. l < f x) xs = e # ys" using Cons.prems(2) by simp
    then have "e \<in> set xs" by (metis filter_eq_ConsD in_set_conv_decomp)
    then have "\<not> f e < f x" using Cons.prems(1) by (auto dest: less_asym)
    then show ?thesis using Cons.IH f Cons.prems(1) by simp
  qed
qed simp

lemma find_filter: "List.find P xs = (case filter P xs of [] \<Rightarrow> None | x # _ \<Rightarrow> Some x)"
  by (induction xs) auto

text \<open>Identifiers of a category in the order of the queue, none of them at the end of the range where the numbering starts again.\<close>

definition of_category :: "u8 \<Rightarrow> queued_alert list \<Rightarrow> queued_alert list" where
  "of_category i q = filter (\<lambda>(a, d). m_ucCategory a = i) q"

definition no_overflow :: "u8 \<Rightarrow> queued_alert list \<Rightarrow> bool" where
  "no_overflow i q \<longleftrightarrow> sorted_wrt (\<lambda>x y. m_ucID (fst x) < m_ucID (fst y)) (of_category i q) \<and> (\<forall>(a, d)\<in>set q. m_ucID a AND 0x3F \<le> 61)"

definition to_recover :: "u8 \<Rightarrow> u8 \<Rightarrow> queued_alert list \<Rightarrow> queued_alert list" where
  "to_recover i l q = filter (\<lambda>(a, d). recoverable i l a) q"

lemma to_recover_above: "l AND 0x3F \<le> 61 \<Longrightarrow> to_recover i l q = filter (\<lambda>x. l < m_ucID (fst x)) (of_category i q)"
  by (induction q) (auto simp: to_recover_def of_category_def recoverable_def)

lemma to_recover_next:
  assumes "l AND 0x3F \<le> 61" and "no_overflow i q" and "to_recover i l q = e # es"
  shows "to_recover i (m_ucID (fst e)) q = es" and "m_ucID (fst e) AND 0x3F \<le> 61"
proof -
  have "e \<in> set q" using assms(3) by (metis to_recover_def filter_is_subset list.set_intros(1) subsetD)
  then show l: "m_ucID (fst e) AND 0x3F \<le> 61" using assms(2) by (auto simp: no_overflow_def)
  show "to_recover i (m_ucID (fst e)) q = es"
    using assms filter_above [of "\<lambda>x. m_ucID (fst x)" "of_category i q" l e es] by (simp add: to_recover_above [OF l] to_recover_above [OF assms(1)] no_overflow_def)
qed

lemma recovery_run:
  assumes "armo_inv s" and "i < 4" and "m_ucState (g_aARMO s ! unat i) = RECOVERY_START_SENT"
    and "contract_status (g_aARMO s ! unat i) = ARMO_CONTRACT_ACTIVE" and "\<forall>env\<in>set envs. reachable_master env (g_aARMO s ! unat i) s"
    and "no_overflow i (g_aucARMOQueue s)" and "m_ucLastID (g_aARMO s ! unat i) AND 0x3F \<le> 61"
    and "to_recover i (m_ucLastID (g_aARMO s ! unat i)) (g_aucARMOQueue s) = es" and "length envs = Suc (length es)"
  shows "\<exists>s' msgs. fold (\<lambda>env. recover_category env i) envs s = s' \<and> m_ucState (g_aARMO s' ! unat i) = RECOVERY_DONE
    \<and> g_oAslMsgListTx (dm_asl (ar_dmo s')) = g_oAslMsgListTx (dm_asl (ar_dmo s)) @ msgs \<and> list_all2 (carries_alert (g_aARMO s ! unat i)) es msgs"
  using assms
proof (induction es arbitrary: s envs)
  case Nil
  then obtain env where env: "envs = [env]" by (auto simp: length_Suc_conv)
  have i: "unat i < length (g_aARMO s)" using Nil.prems(1,2) by (simp add: armo_inv_def word_less_nat_alt)
  have "ARMO_recoverNextAlarm env i (m_ucLastID (g_aARMO s ! unat i)) s = (s, SFC_FAILURE)"
    using Nil.prems(4,8) by (simp add: ARMO_recoverNextAlarm_def find_filter to_recover_def)
  then have "recover_category env i s = set_recovery i RECOVERY_DONE s" using Nil.prems(3) by (simp add: recover_category_def)
  then show ?case using i by (simp add: env set_recovery_def)
next
  case (Cons e es)
  let ?c = "g_aARMO s ! unat i" and ?a = "dm_asl (ar_dmo s)"
  obtain env envs' where envs: "envs = env # envs'" "length envs' = Suc (length es)" using Cons.prems(9) by (auto simp: length_Suc_conv)
  have i: "unat i < length (g_aARMO s)" using Cons.prems(1,2) by (simp add: armo_inv_def word_less_nat_alt)
  have f: "List.find (\<lambda>(a, d). recoverable i (m_ucLastID ?c) a) (g_aucARMOQueue s) = Some e"
    using Cons.prems(8) by (simp add: find_filter to_recover_def)
  have "\<forall>e\<in>set (g_aucARMOQueue s). fits (fst e)" using Cons.prems(1) by (auto simp: armo_inv_def queued_ok_def)
  then obtain msg where m: "recover_category env i s = in_category i (\<lambda>c. c\<lparr>m_ucLastID := m_ucID (fst e)\<rparr>)
      (s\<lparr>ar_dmo := (ar_dmo s)\<lparr>dm_asl := ?a\<lparr>g_oAslMsgListTx := g_oAslMsgListTx ?a @ [msg]\<rparr>\<rparr>\<rparr>)" "carries_alert ?c e msg"
    using recover_one [OF i Cons.prems(3,4) _ _ f, of env] Cons.prems(5) envs(1) by auto
  define t where "t = recover_category env i s"
  have t: "armo_inv t" "g_aARMO t ! unat i = ?c\<lparr>m_ucLastID := m_ucID (fst e)\<rparr>" "g_aucARMOQueue t = g_aucARMOQueue s"
      "dm_asl (ar_dmo t) = ?a\<lparr>g_oAslMsgListTx := g_oAslMsgListTx ?a @ [msg]\<rparr>"
      "\<And>env. current_cfg (ar_env env) (ar_dmo t) = current_cfg (ar_env env) (ar_dmo s)"
    using Cons.prems(1) i by (simp_all add: t_def m(1) armo_inv_def) (simp_all add: current_cfg_def)
  note nxt = to_recover_next [OF Cons.prems(7,6,8)]
  have "carries_alert (?c\<lparr>m_ucLastID := l\<rparr>) = carries_alert ?c" for l by (simp add: carries_alert_def fun_eq_iff)
  then show ?case
    using Cons.IH [OF t(1) Cons.prems(2), of envs'] Cons.prems(3-6) nxt envs m(2)
    by (auto simp: t(2,3,4,5) t_def [symmetric] reachable_master_def find_ref_def)
qed

lemma category_ids:
  assumes "drop_bit 6 (x :: u8) = i"
  shows "x \<le> push_bit 6 i OR 63"
proof -
  have "x = x AND (push_bit 6 i OR 63)"
    unfolding assms [symmetric] by (rule bit_word_eqI) (auto simp: bit_simps mask_bits)
  then show ?thesis by (metis word_and_le1)
qed

text \<open>An alarm at the end of the numbering and one at its start always give a next alarm to recover.\<close>

lemma wrapped_find:
  assumes "(a, d) \<in> set q" "(a', d') \<in> set q" and "m_ucCategory a = i" "m_ucCategory a' = i"
    and "m_ucID a = push_bit 6 i OR 63" "m_ucID a' = push_bit 6 i" and "l \<le> push_bit 6 i OR 63" and "i < 4"
  shows "\<exists>e\<in>set q. recoverable i l (fst e) \<and> List.find (\<lambda>(a, d). recoverable i l a) q = Some e"
proof -
  have "recoverable i l a \<or> recoverable i l a'"
  proof (cases "l = push_bit 6 i OR 63")
    case True
    then show ?thesis using assms(3-6,8) by (auto simp: recoverable_def elim!: category_cases)
  next
    case False
    then have "l < push_bit 6 i OR 63" using assms(7) by (rule order.not_eq_order_implies_strict)
    then show ?thesis using assms(3,5) by (simp add: recoverable_def)
  qed
  then have "List.find (\<lambda>(a, d). recoverable i l a) q \<noteq> None" using assms(1,2) by (auto simp: find_None_iff)
  then obtain e where e: "List.find (\<lambda>(a, d). recoverable i l a) q = Some e" by blast
  then have "e \<in> set q" "recoverable i l (fst e)" by (auto simp: find_Some_iff case_prod_beta)
  with e show ?thesis by blast
qed

lemma recover_goes_on:
  fixes env :: armo_env
  assumes "armo_inv s" and "i < 4" and "m_ucState (g_aARMO s ! unat i) = RECOVERY_START_SENT"
    and "contract_status (g_aARMO s ! unat i) = ARMO_CONTRACT_ACTIVE" and "m_ucLastID (g_aARMO s ! unat i) \<le> push_bit 6 i OR 63"
    and "(a, d) \<in> set (g_aucARMOQueue s)" "(a', d') \<in> set (g_aucARMOQueue s)" and "m_ucCategory a = i" "m_ucCategory a' = i"
    and "m_ucID a = push_bit 6 i OR 63" "m_ucID a' = push_bit 6 i"
  defines "t \<equiv> recover_category env i s"
  shows "armo_inv t" and "m_ucState (g_aARMO t ! unat i) = RECOVERY_START_SENT" and "contract_status (g_aARMO t ! unat i) = ARMO_CONTRACT_ACTIVE"
    and "m_ucLastID (g_aARMO t ! unat i) \<le> push_bit 6 i OR 63" and "g_aucARMOQueue t = g_aucARMOQueue s"
proof -
  let ?c = "g_aARMO s ! unat i"
  obtain e where e: "e \<in> set (g_aucARMOQueue s)" "recoverable i (m_ucLastID ?c) (fst e)"
      "List.find (\<lambda>(a, d). recoverable i (m_ucLastID ?c) a) (g_aucARMOQueue s) = Some e"
    using wrapped_find [OF assms(6-11) assms(5,2)] by blast
  obtain u r where u: "report_alert env ?c (APP_ALERT_DESCRIPTOR.m_ucPriority (m_stRecoveryDescr ?c)) e s = (u, r)" by fastforce
  have ug: "g_aARMO u = g_aARMO s" "g_aucARMOQueue u = g_aucARMOQueue s" by (rule report_frame [OF u]; simp)+
  have i: "unat i < length (g_aARMO u)" using assms(1,2) ug by (simp add: armo_inv_def word_less_nat_alt)
  have t: "t = (if r = SFC_SUCCESS then in_category i (\<lambda>c. c\<lparr>m_ucLastID := m_ucID (fst e)\<rparr>) u else u)"
    using e(3) assms(3,4) u by (simp add: t_def recover_category_def ARMO_recoverNextAlarm_def)
  have "drop_bit 6 (m_ucID (fst e)) = i" using e assms(1) by (auto simp: armo_inv_def queued_ok_def recoverable_def)
  then have "m_ucID (fst e) \<le> push_bit 6 i OR 63" by (rule category_ids)
  then show "armo_inv t" "m_ucState (g_aARMO t ! unat i) = RECOVERY_START_SENT" "contract_status (g_aARMO t ! unat i) = ARMO_CONTRACT_ACTIVE"
    "m_ucLastID (g_aARMO t ! unat i) \<le> push_bit 6 i OR 63" "g_aucARMOQueue t = g_aucARMOQueue s"
    using assms(1,3-5) ug i report_inv [OF u] by (simp_all add: t)
qed

section \<open>Properties\<close>

text \<open>C33:
  The queue keeps the newest alerts. An alert of an enabled category that is smaller than the buffer is always taken, stamped with the
  time, the next identifier of its category and "not yet reported"; of the old ones exactly as many are dropped, from the oldest on, as
  have to go for the new one to fit, and the end of the queue stays inside the buffer.
\<close>
theorem alert_queue_keeps_newest:
  assumes "armo_reach s" and "\<not> alert_tr_callback (sl_env (ar_env env))" and "m_ucCategory a < 4"
    and "m_ucAlertsDisable (g_aARMO s ! unat (m_ucCategory a)) = 0" and "fits a" and "unat (alert_length a) < ARMO_QUEUE_SIZE"
  shows "\<exists>s' k. ARMO_AddAlertToQueue env a buf s = Some (s', SFC_SUCCESS) \<and> k \<le> length (g_aucARMOQueue s)
    \<and> g_aucARMOQueue s' = drop k (g_aucARMOQueue s) @ [(stamped env a (ARMO_getNextAlertId (m_ucCategory a) (g_aARMO s ! unat (m_ucCategory a))),
         mem_bytes buf 0 (unat (ALERT_INFO.m_unSize a)))]
    \<and> (\<forall>j<k. ARMO_QUEUE_SIZE < queue_end (drop j (g_aucARMOQueue s)) + unat (alert_length a))
    \<and> queue_end (g_aucARMOQueue s') \<le> ARMO_QUEUE_SIZE"
proof -
  let ?n = "unat (alert_length a)" and ?q = "g_aucARMOQueue s"
  have inv: "armo_inv s" by (rule armo_reach_inv [OF assms(1)])
  obtain k where k: "k \<le> length ?q" "make_room ?n ?q = drop k ?q" "\<forall>j<k. ARMO_QUEUE_SIZE < queue_end (drop j ?q) + ?n"
    using make_room_drop [of ?q ?n] by blast
  have c: "category (m_ucCategory a) s = Some (g_aARMO s ! unat (m_ucCategory a))"
    using assms(3) inv by (simp add: category_def armo_inv_def word_less_nat_alt)
  have e: "queue_end (drop k ?q) + ?n \<le> ARMO_QUEUE_SIZE" using make_room_fits [of ?n ?q] alert_length_bounds(3) [OF assms(5)] k(2) by simp
  obtain s' where s': "ARMO_AddAlertToQueue env a buf s = Some (s', SFC_SUCCESS)"
      "g_aucARMOQueue s' = drop k ?q @ [(stamped env a (ARMO_getNextAlertId (m_ucCategory a) (g_aARMO s ! unat (m_ucCategory a))),
         mem_bytes buf 0 (unat (ALERT_INFO.m_unSize a)))]"
    using assms(2,4,6) c k(2) e alert_length_bounds(1) [OF assms(5)] by (simp add: ARMO_AddAlertToQueue_def Let_def)
  have "queue_end (g_aucARMOQueue s') \<le> ARMO_QUEUE_SIZE" using add_inv [OF inv s'(1)] by (simp add: armo_inv_def)
  with k(1,3) s' show ?thesis by blast
qed

text \<open>C34:
  The task of the alert reporting object always comes back, from every state the object can get into: the search for a request identifier ends,
  and no category, structure or alert outside of its array or buffer is read. It neither loses nor reorders alerts and changes of
  each nothing but the time of its next report.
\<close>
theorem armo_task_returns:
  assumes "armo_reach s"
  shows "\<exists>s'. ARMO_Task env s = Some s' \<and> list_all2 same_alert (g_aucARMOQueue s) (g_aucARMOQueue s')
    \<and> queue_end (g_aucARMOQueue s') \<le> ARMO_QUEUE_SIZE"
proof -
  obtain s' where s': "ARMO_Task env s = Some s'" "armo_inv s'" using task_returns armo_reach_inv [OF assms] by blast
  then show ?thesis using task_keeps_queue [OF armo_reach_inv [OF assms] s'(1)] by (simp add: armo_inv_def)
qed

text \<open>C35:
  When no recovery is under way, the task reports exactly the alerts that are due. With the contracts looked after (the state \<open>s1\<close>), and every
  active contract known to the network layer, the transmit queue gets one message for each alert of a category with an active contract
  whose time has come, in the order of the queue and with the alert in it, and nothing else; each reported alert is due again
  after the confirmation time-out of its category, the others stay as they are.
\<close>
theorem due_alerts_reported:
  assumes "armo_inv s" and contracts: "ARMO_checkAlarmContracts env s = Some s1"
    and "\<forall>c\<in>set (g_aARMO s1). m_ucState c = RECOVERY_DISABLED"
    and "\<forall>c\<in>set (g_aARMO s1). contract_status c = ARMO_CONTRACT_ACTIVE \<longrightarrow> reachable_master env c s1"
  shows "\<exists>s' msgs. ARMO_Task env s = Some s' \<and> g_aucARMOQueue s' = map (after_report env s1) (g_aucARMOQueue s)
    \<and> g_oAslMsgListTx (dm_asl (ar_dmo s')) = g_oAslMsgListTx (dm_asl (ar_dmo s1)) @ msgs
    \<and> list_all2 (\<lambda>e. carries_alert (g_aARMO s1 ! unat (m_ucCategory (fst e))) e) (filter (due env s1) (g_aucARMOQueue s)) msgs"
proof -
  have inv: "armo_inv s1" "g_aucARMOQueue s1 = g_aucARMOQueue s" using contracts_return [OF assms(1), of env] contracts by auto
  then have idle: "ARMO_checkRecoveryState env s1 = (s1, False)" by (simp add: no_recovery assms(3))
  have "\<forall>e\<in>set (g_aucARMOQueue s). queued_ok e" using inv by (simp add: armo_inv_def)
  from due_reported [OF inv(1) this assms(4)] show ?thesis by (auto simp: ARMO_Task_def contracts idle inv(2))
qed

text \<open>
  A wait for a contract that began late in a period of \<open>2 ^ 16\<close> seconds never ends. The elapsed time is a difference of two 16 bit times computed
  as \<^verbatim>\<open>int\<close>: once the request was made at a time from 65343 on, modulo 65536,, no clock reading makes the wait time out, the category stays in
  its state, and no request is made again.
\<close>
lemma contract_wait_never_over:
  assumes "65343 \<le> g_unContractReqTimestamp s"
    and "contract_status (g_aARMO s ! unat i) \<in> {ARMO_AWAIT_CONTRACT_ESTABLISHMENT, ARMO_WAITING_CONTRACT_TERMINATION}"
  shows "\<forall>env. check_contract env i s = Some s"
proof
  fix env :: armo_env
  have "uint (ucast (now_of (ar_env env)) :: u16) < 65536" using uint_bounded [of "ucast (now_of (ar_env env)) :: u16"] by simp
  moreover have "65343 \<le> uint (g_unContractReqTimestamp s)" using assms(1) by (simp add: word_le_def)
  ultimately have "\<not> contract_wait_over (now_of (ar_env env)) (g_unContractReqTimestamp s)" by (simp add: contract_wait_over_def)
  with assms(2) show "check_contract env i s = Some s" by (auto simp: check_contract_def Let_def)
qed

text \<open>
  Without an acknowledgement the stack is restarted after 180 seconds and not before: of the one-second calls after the time-out was started,
  the first 179 do nothing but count, and the 180th and each one after it, until the counter wraps, asks for the restart.
\<close>
lemma unacknowledged_alert_restarts:
  assumes "g_ucAlarmTimeout s = 1" and "n \<le> 254"
  shows "(ARMO_CheckAlertAckTimeout ^^ n) s = s\<lparr>g_ucAlarmTimeout := of_nat (Suc n),
    armo_events := armo_events s @ replicate (n - 179) ARMO_ResetStack\<rparr>"
  using assms(2)
proof (induction n)
  case 0
  then show ?case using assms(1) by simp
next
  case (Suc n)
  have u: "unat (of_nat (Suc n) :: u8) = Suc n" "unat (of_nat (Suc (Suc n)) :: u8) = Suc (Suc n)"
    using Suc.prems by (simp_all add: unsigned_of_nat take_bit_nat_eq_self del: of_nat_Suc)
  have w: "(of_nat (Suc n) :: u8) + 1 = of_nat (Suc (Suc n))" by simp
  have "(of_nat (Suc n) :: u8) \<noteq> 0" using u(1) by (metis nat.distinct(1) unat_0)
  moreover have "(180 :: u8) < of_nat (Suc (Suc n)) \<longleftrightarrow> 179 \<le> n" using u(2) by (auto simp: word_less_nat_alt simp del: of_nat_Suc)
  moreover have "Suc n - 179 = (if 179 \<le> n then Suc (n - 179) else n - 179)" by auto
  ultimately show ?case
    using Suc by (simp add: ARMO_CheckAlertAckTimeout_def w Let_def replicate_append_same [symmetric] del: of_nat_Suc)
qed

text \<open>
  The recovery of a category reports each of its alarms once and ends. When the start of the recovery was reported, the contract is active and
  known to the network layer, and the identifiers of the category have not started again at 0, then one call for each alarm after the last one reported
  and one more put one message for each into the transmit queue, in the order of the queue, and leave the recovery done.
\<close>
lemma recovery_reports_all:
  assumes "armo_inv s" and "i < 4" and "m_ucState (g_aARMO s ! unat i) = RECOVERY_START_SENT"
    and "contract_status (g_aARMO s ! unat i) = ARMO_CONTRACT_ACTIVE" and "\<forall>env\<in>set envs. reachable_master env (g_aARMO s ! unat i) s"
    and "no_overflow i (g_aucARMOQueue s)" and "m_ucLastID (g_aARMO s ! unat i) AND 0x3F \<le> 61"
    and "length envs = Suc (length (to_recover i (m_ucLastID (g_aARMO s ! unat i)) (g_aucARMOQueue s)))"
  shows "\<exists>s' msgs. fold (\<lambda>env. recover_category env i) envs s = s' \<and> m_ucState (g_aARMO s' ! unat i) = RECOVERY_DONE
    \<and> g_oAslMsgListTx (dm_asl (ar_dmo s')) = g_oAslMsgListTx (dm_asl (ar_dmo s)) @ msgs
    \<and> list_all2 (carries_alert (g_aARMO s ! unat i)) (to_recover i (m_ucLastID (g_aARMO s ! unat i)) (g_aucARMOQueue s)) msgs"
  by (rule recovery_run [OF assms(1) assms(2-7) refl assms(8)])

text \<open>
  The recovery does not end when the identifiers of a category have started again at 0. While the alarm with the last identifier of the
  category and the one with its first are both in the queue, there is always a next alarm to recover: the one follows the other
  and the other the one, whatever the number of calls, so the end of the recovery is never reported and no other category gets its turn.
\<close>
lemma recovery_goes_round:
  assumes "armo_inv s" and "i < 4" and "m_ucState (g_aARMO s ! unat i) = RECOVERY_START_SENT"
    and "contract_status (g_aARMO s ! unat i) = ARMO_CONTRACT_ACTIVE" and "m_ucLastID (g_aARMO s ! unat i) \<le> push_bit 6 i OR 63"
    and "(a, d) \<in> set (g_aucARMOQueue s)" "(a', d') \<in> set (g_aucARMOQueue s)" and "m_ucCategory a = i" "m_ucCategory a' = i"
    and "m_ucID a = push_bit 6 i OR 63" "m_ucID a' = push_bit 6 i"
  shows "m_ucState (g_aARMO (fold (\<lambda>env. recover_category env i) envs s) ! unat i) = RECOVERY_START_SENT"
  using assms(1,3-7)
proof (induction envs arbitrary: s)
  case (Cons env envs)
  note step = recover_goes_on [OF Cons.prems(1) assms(2) Cons.prems(2-6) assms(8-11), of env]
  then show ?case using Cons.IH [OF step(1-4)] Cons.prems(5,6) by simp
qed simp

section \<open>Witnesses\<close>

text \<open>A device whose contract 0 leads from its management port to the management port of the alert master, and an alert of category 0.\<close>

definition alert_row :: "u8 list" where
  "alert_row = [0, 0, 0, 1, 0, 0, 0, 0, 0xF0, 0xB0, 5, 5, 5, 5, 5, 5, 5, 5, 5, 5, 5, 5, 5, 5, 5, 5, 0xF0, 0xB1, 0, 0, 0, 60, 0, 0, 100, 0, 0, 1, 0, 1, 5]"

definition alert_dmo :: dmo_state where
  "alert_dmo = fst (put_row (sample_dmo_env 1000) 5 0 alert_row (DMO_Init empty_dmo))"

lemma alert_row_of: "row_of 0 alert_row"
  by (simp add: row_of_def alert_row_def DMAP_WriteUint16_def mem_of_def)

lemma alert_dmo_reach: "dmo_reach alert_dmo"
  unfolding alert_dmo_def put_row_def by (rule dmo_reach.step [OF dmo_reach.init dmo_step.execute])

lemma mem_bytes_part: "j + k \<le> n \<Longrightarrow> take k (drop j (mem_bytes m p n)) = mem_bytes m (p + j) k"
  by (rule nth_equalityI) (simp_all add: add.assoc)

lemma parsed_fields:
  "m_ucServiceType (DMO_parseContract m p c) = m (p + 3)" "m_unSrcTLPort (DMO_parseContract m p c) = DMAP_WriteUint16 m (p + 8)"
  "m_aDstAddr128 (DMO_parseContract m p c) = mem_bytes m (p + 10) 16" "m_unDstTLPort (DMO_parseContract m p c) = DMAP_WriteUint16 m (p + 26)"
  by (simp_all add: DMO_parseContract_def read_u8_def read_u16_def read_u32_def read_bandwidth_def read_dst_address_def
      extract_index Let_def case_prod_unfold DMAP_ExtractUint16_def DMAP_ExtractUint32_def DMAP_WriteUint16_def add.commute numeral_3_eq_3)

lemma alert_dmo_facts:
  obtains c r nc where "matches (replicate 16 5) 0xF0B1 0xF0B0 c" "DMO_CONTRACT_ATTRIBUTE.m_unContractID c = 0" "m_ucServiceType c = SRVC_APERIODIC_COMM"
    "g_oDmoContractsMap alert_dmo = [(0, c)]" "m_oContractsMap (asl_state.g_stNlme (dm_asl alert_dmo)) = [(0, r, nc)]"
    "g_oAslMsgListTx (dm_asl alert_dmo) = []"
proof -
  let ?m = "mem_of (table_request 5 0 alert_row)"
  have l: "length alert_row = 41" by (simp add: alert_row_def)
  have b: "mem_bytes ?m 8 41 = alert_row" using table_request_holds(4) [of 5 0 alert_row] by (simp add: l)
  have m: "?m (8 + j) = alert_row ! j" if "j < 41" for j
    using that b nth_mem_bytes [of j 41 ?m 8] by metis
  have w: "DMAP_WriteUint16 ?m 8 = 0" "?m 11 = SRVC_APERIODIC_COMM" "DMAP_WriteUint16 ?m 16 = 0xF0B0" "DMAP_WriteUint16 ?m 34 = 0xF0B1"
    using m [of 0] m [of 1] m [of 3] m [of 8] m [of 9] m [of 26] m [of 27] by (simp_all add: alert_row_def DMAP_WriteUint16_def)
  have "mem_bytes ?m 18 16 = take 16 (drop 10 alert_row)" using mem_bytes_part [of 10 16 41 ?m 8] b by simp
  then have d: "mem_bytes ?m 18 16 = replicate 16 5" by (simp add: alert_row_def eval_nat_numeral)
  let ?c = "DMO_parseContract ?m 8 (blank_contract\<lparr>m_nUsageCount := 0\<rparr>)"
  have e: "alert_dmo = in_nlme (\<lambda>n. fst (NLME_AddDmoContract sample_contract 7 ?c n))
      (tell [UAP_NotifyAddContract ?c] ((DMO_Init empty_dmo)\<lparr>g_oDmoContractsMap := [(0, ?c)]\<rparr>))"
    by (simp add: alert_dmo_def put_row_is_set [OF alert_row_of] DMO_setContract_def w DMO_FindContract_def DMO_Init_def sample_dmo_env_def Let_def)
  show ?thesis
    by (rule that [of ?c "(0::nat)"])
      (simp_all add: e matches_def parsed_fields parse_index w d in_nlme_def tell_def DMO_Init_def empty_dmo_def start_state_def ASLDE_Init_queues_def
        empty_nlme_def NLME_AddDmoContract_def Let_def)
qed

text \<open>The state with that contract, the structure of category 0 given and the others blank.\<close>

definition sample_alert :: "u8 \<Rightarrow> queued_alert" where
  "sample_alert i = (\<lparr>m_unDetObjTLPort = 0xF0B0, m_unDetObjID = 1, m_ucClass = 1, m_ucDirection = 1, m_ucCategory = 0, m_ucType = 2, m_ucPriority = 3,
     m_unSize = 2, m_ulNextSendTAI = 0, m_ulSeconds = 900, m_unFract = 0, m_ucID = i\<rparr>, [4, 5])"

definition active_category :: "u8 \<Rightarrow> u8 \<Rightarrow> ARMO_STRUCT" where
  "active_category st l = ARMO_STRUCT.make (ALERT_COMM_ENDPOINT.make (replicate 16 5) 0xF0B1 8 0 ARMO_CONTRACT_ACTIVE) 10 0
     (APP_ALERT_DESCRIPTOR.make 0 7) st l 0"

definition sample_armo :: "ARMO_STRUCT \<Rightarrow> queued_alert list \<Rightarrow> armo_state" where
  "sample_armo c q = armo_state.make [c, blank_category, blank_category, blank_category] 0 0 q alert_dmo []"

definition sample_armo_env :: armo_env where
  "sample_armo_env = armo_env.make (sample_dmo_env 1000) 0 [0, 0]"

lemma sample_armo_fields [simp]:
  "g_aARMO (sample_armo c q) = [c, blank_category, blank_category, blank_category]" "g_aucARMOQueue (sample_armo c q) = q"
  "ar_dmo (sample_armo c q) = alert_dmo" "g_ucAlarmTimeout (sample_armo c q) = 0" "now_of (ar_env sample_armo_env) = 1000"
  "alert_tr_callback (sl_env (ar_env sample_armo_env)) = False"
  by (simp_all add: sample_armo_def armo_state.defs sample_armo_env_def armo_env.defs sample_dmo_env_def sample_env_def)

lemma category_samples [simp]:
  "m_ucState (active_category st l) = st" "m_ucLastID (active_category st l) = l" "contract_status (active_category st l) = ARMO_CONTRACT_ACTIVE"
  "m_ucState blank_category = 0" "contract_status blank_category = ARMO_NO_CONTR" "m_unTLPort (m_stAlertMaster blank_category) = 0"
  "m_ucAlertsDisable (active_category st l) = 0"
  by (simp_all add: active_category_def blank_category_def blank_endpoint_def ARMO_STRUCT.defs ALERT_COMM_ENDPOINT.defs)

lemma sample_alert_fields [simp]:
  "m_ucCategory (fst (sample_alert i)) = 0" "m_ucID (fst (sample_alert i)) = i" "m_ulNextSendTAI (fst (sample_alert i)) = 0"
  "ALERT_INFO.m_unSize (fst (sample_alert i)) = 2" "snd (sample_alert i) = [4, 5]"
  by (simp_all add: sample_alert_def)

lemma sample_alert_ok: "drop_bit 6 i = 0 \<Longrightarrow> queued_ok (sample_alert i)"
  by (simp add: queued_ok_def case_prod_beta fits_def)

lemma sample_alert_length [simp]: "unat (alert_length (fst (sample_alert i))) = 28"
  by (simp add: alert_length_def DMAP_GetAlignedLength_def)

lemma sample_armo_inv:
  assumes "\<forall>e\<in>set q. queued_ok e" and "queue_end q \<le> ARMO_QUEUE_SIZE"
  shows "armo_inv (sample_armo c q)"
  using assms reach_inv [OF alert_dmo_reach] by (simp add: armo_inv_def)

lemma sample_reachable: "reachable_master sample_armo_env (active_category st l) (sample_armo c q)"
proof -
  obtain r nc where "m_oContractsMap (asl_state.g_stNlme (dm_asl alert_dmo)) = [(0, r, nc)]" using alert_dmo_facts by metis
  then show ?thesis
    by (simp add: reachable_master_def active_category_def ARMO_STRUCT.defs ALERT_COMM_ENDPOINT.defs find_ref_def sample_armo_env_def armo_env.defs
        current_cfg_def sample_dmo_env_def sample_env_def sample_config_def)
qed

theorem alert_queue_keeps_newest_witness:
  "\<exists>s'. ARMO_AddAlertToQueue sample_armo_env (fst (sample_alert 0)) (mem_of [4, 5]) (ARMO_Init (armo_start alert_dmo)) = Some (s', SFC_SUCCESS)
     \<and> length (g_aucARMOQueue s') = 1"
proof -
  let ?s = "ARMO_Init (armo_start alert_dmo)"
  have f: "g_aucARMOQueue ?s = []" "m_ucAlertsDisable (g_aARMO ?s ! 0) = 0"
    by (simp_all add: ARMO_Init_def armo_start_def armo_state.defs blank_category_def ARMO_STRUCT.defs)
  have "armo_reach ?s" using armo_reach.step [OF armo_reach.init [OF alert_dmo_reach] armo_step.start] .
  from alert_queue_keeps_newest [OF this, of sample_armo_env "fst (sample_alert 0)" "mem_of [4, 5]"] f show ?thesis
    by (auto simp: fits_def)
qed

theorem armo_task_returns_witness: "\<exists>s'. ARMO_Task sample_armo_env (ARMO_Init (armo_start alert_dmo)) = Some s'"
  using armo_task_returns [OF armo_reach.step [OF armo_reach.init [OF alert_dmo_reach] armo_step.start], of sample_armo_env] by blast

theorem due_alerts_reported_witness:
  "\<exists>s' msg. ARMO_Task sample_armo_env (sample_armo (active_category 0 0) [sample_alert 0]) = Some s'
     \<and> g_oAslMsgListTx (dm_asl (ar_dmo s')) = [msg] \<and> carries_alert (active_category 0 0) (sample_alert 0) msg"
proof -
  let ?s = "sample_armo (active_category 0 0) [sample_alert 0]"
  have c: "ARMO_checkAlarmContracts sample_armo_env ?s = Some ?s"
    by (simp add: ARMO_checkAlarmContracts_def check_contract_def ARMO_configureEndpoint_def Let_def)
  have q: "queue_end [sample_alert 0] = 28" by (metis add_0_right prod.collapse queue_end_simps(1,2) sample_alert_length)
  have i: "armo_inv ?s" using sample_alert_ok [of 0] q by (intro sample_armo_inv) simp_all
  have d: "filter (due sample_armo_env ?s) [sample_alert 0] = [sample_alert 0]" by (simp add: due_def case_prod_beta)
  have t: "g_oAslMsgListTx (dm_asl alert_dmo) = []" using alert_dmo_facts by metis
  have "\<forall>c\<in>set (g_aARMO ?s). m_ucState c = RECOVERY_DISABLED" by simp
  moreover have "\<forall>c\<in>set (g_aARMO ?s). contract_status c = ARMO_CONTRACT_ACTIVE \<longrightarrow> reachable_master sample_armo_env c ?s"
    using sample_reachable by simp
  ultimately show ?thesis
    using due_alerts_reported [OF i c] d t by (auto simp: list_all2_Cons1)
qed

theorem contract_wait_never_over_witness:
  "check_contract sample_armo_env 0
     ((sample_armo (active_category 0 0\<lparr>m_stAlertMaster := ALERT_COMM_ENDPOINT.make (replicate 16 5) 0xF0B1 8 0 1\<rparr>) [])\<lparr>g_unContractReqTimestamp := 65400\<rparr>)
   = Some ((sample_armo (active_category 0 0\<lparr>m_stAlertMaster := ALERT_COMM_ENDPOINT.make (replicate 16 5) 0xF0B1 8 0 1\<rparr>) [])\<lparr>g_unContractReqTimestamp := 65400\<rparr>)"
  by (rule contract_wait_never_over [rule_format]) (simp_all add: ALERT_COMM_ENDPOINT.defs)

theorem unacknowledged_alert_restarts_witness:
  "armo_events ((ARMO_CheckAlertAckTimeout ^^ 180) (start_ack_timeout (sample_armo (active_category 0 0) []))) = [ARMO_ResetStack]"
  using unacknowledged_alert_restarts [of "start_ack_timeout (sample_armo (active_category 0 0) [])" 180]
  by (simp add: start_ack_timeout_def sample_armo_def armo_state.defs)

theorem recovery_reports_all_witness:
  "\<exists>s' msg. fold (\<lambda>env. recover_category env 0) [sample_armo_env, sample_armo_env] (sample_armo (active_category 2 0) [sample_alert 0, sample_alert 1]) = s'
     \<and> m_ucState (g_aARMO s' ! 0) = RECOVERY_DONE \<and> g_oAslMsgListTx (dm_asl (ar_dmo s')) = [msg]
     \<and> carries_alert (active_category 2 0) (sample_alert 1) msg"
proof -
  let ?s = "sample_armo (active_category 2 0) [sample_alert 0, sample_alert 1]"
  have q: "queue_end [sample_alert 0, sample_alert 1] = 56"
    by (metis (no_types) add_0_right prod.collapse queue_end_simps(1,2) sample_alert_length numeral_Bit0)
  have i: "armo_inv ?s" using sample_alert_ok [of 0] sample_alert_ok [of 1] q by (intro sample_armo_inv) simp_all
  have r: "to_recover 0 0 [sample_alert 0, sample_alert 1] = [sample_alert 1]" by (simp add: to_recover_def recoverable_def case_prod_beta)
  have n: "no_overflow 0 [sample_alert 0, sample_alert 1]" by (simp add: no_overflow_def of_category_def case_prod_beta)
  have t: "g_oAslMsgListTx (dm_asl alert_dmo) = []" using alert_dmo_facts by metis
  show ?thesis
    using recovery_reports_all [OF i, of 0 "[sample_armo_env, sample_armo_env]"] sample_reachable n r t by (auto simp: list_all2_Cons1)
qed

theorem recovery_goes_round_witness:
  "m_ucState (g_aARMO (fold (\<lambda>env. recover_category env 0) (replicate 1000 sample_armo_env)
     (sample_armo (active_category 2 62) [sample_alert 63, sample_alert 0])) ! 0) = RECOVERY_START_SENT"
proof -
  let ?s = "sample_armo (active_category 2 62) [sample_alert 63, sample_alert 0]"
  have q: "queue_end [sample_alert 63, sample_alert 0] = 56"
    by (metis (no_types) add_0_right prod.collapse queue_end_simps(1,2) sample_alert_length numeral_Bit0)
  have e: "(fst (sample_alert k), [4, 5]) = sample_alert k" for k by (simp add: sample_alert_def)
  have i: "armo_inv ?s" using sample_alert_ok [of 0] sample_alert_ok [of 63] q by (intro sample_armo_inv) simp_all
  show ?thesis
    using recovery_goes_round [OF i, of 0 "fst (sample_alert 63)" "snd (sample_alert 63)" "fst (sample_alert 0)" "snd (sample_alert 0)"
        "replicate 1000 sample_armo_env"]
    by (simp add: e)
qed

end
