(* ===== verification/Dmap.thy ===== *)
theory Dmap
  imports Armo Dmo_Attributes Hmac
begin

text \<open>
  The device manager application process (\<^verbatim>\<open>dmap.cpp\<close>) as the objects' front end: attributes and methods are looked up by object
  identifier, requests are answered over the contract with the system manager. The provisioning object (\<^verbatim>\<open>dmap_dpo.cpp\<close>) and the
  management object of the applications (\<^verbatim>\<open>uap_mo.cpp\<close>) are small tables and stand here too.

  \<open>dmap_env\<close> holds what the code gets from elsewhere: the environment of the alert object, the constants of the device, \<^verbatim>\<open>random()\<close>
  and \<^verbatim>\<open>rand()\<close>, and the contents of local variables that are used before they are written. A result \<open>None\<close> is undefined behaviour.
\<close>

unbundle bit_operations_syntax

abbreviation (input) SFC_INVALID_OBJ_ID :: u8 where "SFC_INVALID_OBJ_ID \<equiv> 4"
abbreviation (input) SFC_VALUE_LIMITED :: u8 where "SFC_VALUE_LIMITED \<equiv> 28"
abbreviation (input) DMAP_DSMO_OBJ_ID :: u16 where "DMAP_DSMO_OBJ_ID \<equiv> 3"
abbreviation (input) DMAP_NLMO_OBJ_ID :: u16 where "DMAP_NLMO_OBJ_ID \<equiv> 5"
abbreviation (input) DMAP_TLMO_OBJ_ID :: u16 where "DMAP_TLMO_OBJ_ID \<equiv> 6"
abbreviation (input) DMAP_ASLMO_OBJ_ID :: u16 where "DMAP_ASLMO_OBJ_ID \<equiv> 7"
abbreviation (input) DMAP_DPO_OBJ_ID :: u16 where "DMAP_DPO_OBJ_ID \<equiv> 9"
abbreviation (input) UAP_MO_OBJ_ID :: u16 where "UAP_MO_OBJ_ID \<equiv> 1"
abbreviation (input) UAP_DMAP_ID :: u8 where "UAP_DMAP_ID \<equiv> 0"
abbreviation (input) UAP_SMAP_ID :: u8 where "UAP_SMAP_ID \<equiv> 1"
abbreviation (input) TLDE_ECN_MASK :: u8 where "TLDE_ECN_MASK \<equiv> 0x40"
abbreviation (input) MAX_GENERIC_VAL_SIZE :: u8 where "MAX_GENERIC_VAL_SIZE \<equiv> 100"

section \<open>State\<close>

record DPO_STRUCT =
  m_ucJoinMethodCapability :: u8
  m_ucAllowProvisioning :: u8
  m_ucAllowOverTheAirProvisioning :: u8
  m_ucAllowOOBProvisioning :: u8
  m_ucAllowResetToFactoryDefaults :: u8
  m_ucAllowDefaultJoin :: u8
  m_ucTargetJoinMethod :: u8
  m_unTargetNwkBitMask :: u16
  m_unTargetNwkID :: u16
  m_aJoinKey :: "u8 list"
  m_aTargetSecurityMngrEUI :: "u8 list"
  m_unTargetFreqList :: u16
  m_nCurrentUTCAdjustment :: u16
  m_unDeviceRole :: u16

datatype DMAP_EVENT = UAP_OnJoin | UAP_OnJoinReset

record dmap_state =
  dp_armo :: armo_state
  dp_tlme :: TLME_STRUCT
  dp_aslmo :: aslmo_state
  g_stDPO :: DPO_STRUCT
  g_ucUAPCommand :: u8
  g_stJoinRetryCntrl :: u16
  g_aulNewNodeChallenge :: "u32 list"
  g_aucSecMngChallenge :: "u8 list"
  dmap_events :: "DMAP_EVENT list"

record dmap_env =
  dp_env :: armo_env
  dp_const :: dmo_constants
  g_unDllSubnetId :: u16
  random_long :: u32
  rand_long :: u32
  c_ucBackboneCapable :: u8
  local_mem :: mem
  local_FECCE :: u8
  local_SFC :: u8
  local_alert :: ALERT
  local_unions :: "nat \<Rightarrow> SRVC_UNION"
  response_union :: SRVC_UNION

abbreviation "dmo_env_of env \<equiv> ar_env (dp_env env)"
abbreviation "slme_env_of env \<equiv> sl_env (dmo_env_of env)"
abbreviation "dmo_of s \<equiv> ar_dmo (dp_armo s)"
abbreviation "asl_of s \<equiv> dm_asl (dmo_of s)"
abbreviation "slme_of s \<equiv> dm_slme (dmo_of s)"
abbreviation "join_status s \<equiv> dmo_state.g_ucJoinStatus (dmo_of s)"

definition on_armo :: "(armo_state \<Rightarrow> armo_state) \<Rightarrow> dmap_state \<Rightarrow> dmap_state" where
  "on_armo f s = s\<lparr>dp_armo := f (dp_armo s)\<rparr>"

definition on_dmo :: "(dmo_state \<Rightarrow> dmo_state) \<Rightarrow> dmap_state \<Rightarrow> dmap_state" where
  "on_dmo f s = s\<lparr>dp_armo := (dp_armo s)\<lparr>ar_dmo := f (dmo_of s)\<rparr>\<rparr>"

definition on_asl :: "(asl_state \<Rightarrow> asl_state) \<Rightarrow> dmap_state \<Rightarrow> dmap_state" where
  "on_asl f = on_dmo (\<lambda>d. d\<lparr>dm_asl := f (dm_asl d)\<rparr>)"

definition on_slme :: "(slme_state \<Rightarrow> slme_state) \<Rightarrow> dmap_state \<Rightarrow> dmap_state" where
  "on_slme f = on_dmo (\<lambda>d. d\<lparr>dm_slme := f (dm_slme d)\<rparr>)"

definition nlme_env_of :: "dmap_env \<Rightarrow> dmap_state \<Rightarrow> nlme_env" where
  "nlme_env_of env s = \<lparr>g_aIPv6Address = DMO_ATTRIBUTES.m_auc128BitAddr (dmo_state.g_stDMO (dmo_of s)),
     g_unShortAddr = m_unShortAddr (dmo_state.g_stDMO (dmo_of s)), c_ucBackboneCapable = dmap_env.c_ucBackboneCapable env,
     random_octet = dmo_env.random_octet (dmo_env_of env)\<rparr>"

text \<open>
  An operation of the device management object with the calls of the alert object that it makes, which the model of that object only
  records: the notice of a new contract and a new alert. Both come last in the operations, and neither reads what they change.
\<close>

fun carry_out :: "dmap_env \<Rightarrow> DMO_EVENT list \<Rightarrow> dmap_state \<Rightarrow> dmap_state option" where
  "carry_out env [] s = Some s"
| "carry_out env (ARMO_CONTRACT_ADDED c # es) s = carry_out env es (on_armo (ARMO_NotifyAddContract c) s)"
| "carry_out env (ARMO_ALERT (info, data) # es) s =
     (let l = local_alert env; a = ALERT_INFO.extend info (ALERT.fields (m_ulNextSendTAI l) (m_ulSeconds l) (m_unFract l) (m_ucID l)) in
      case ARMO_AddAlertToQueue (dp_env env) a (mem_of data) (dp_armo s) of
        None \<Rightarrow> None
      | Some (x, _) \<Rightarrow> carry_out env es (on_armo (\<lambda>_. x) s))"
| "carry_out env (e # es) s = carry_out env es s"

definition with_dmo :: "dmap_env \<Rightarrow> (dmo_state \<Rightarrow> dmo_state) \<Rightarrow> dmap_state \<Rightarrow> dmap_state option" where
  "with_dmo env f s =
     (let d = f (dmo_of s) in carry_out env (drop (length (dmo_events (dmo_of s))) (dmo_events d)) (on_dmo (\<lambda>_. d) s))"

section \<open>The provisioning object and the management object of the applications\<close>

definition c_aulWellKnownISAKey :: "u8 list" where
  "c_aulWellKnownISAKey = [0x00, 0x49, 0x00, 0x53, 0x00, 0x41, 0x00, 0x20, 0x00, 0x31, 0x00, 0x30, 0x00, 0x30, 0x00, 0x00]"

definition dm_ro :: "u8 \<Rightarrow> (dmap_state \<Rightarrow> u8 \<Rightarrow> u8 list \<times> u8) \<Rightarrow> dmap_state DMAP_FCT_STRUCT" where
  "dm_ro sz rd = \<lparr>DMAP_FCT_STRUCT.m_ucSize = sz, m_pReadFct = rd, m_pWriteFct = None\<rparr>"

definition dpo_u8 :: "(DPO_STRUCT \<Rightarrow> u8) \<Rightarrow> dmap_state DMAP_FCT_STRUCT" where
  "dpo_u8 get = dm_ro 1 (\<lambda>s. DMAP_ReadUint8 (get (g_stDPO s)))"

definition dpo_u16 :: "(DPO_STRUCT \<Rightarrow> u16) \<Rightarrow> dmap_state DMAP_FCT_STRUCT" where
  "dpo_u16 get = dm_ro 2 (\<lambda>s. DMAP_ReadUint16 (get (g_stDPO s)))"

text \<open>
  \<^verbatim>\<open>c_aDPOFct\<close> on a backbone router. The write functions are not reached, because \<^verbatim>\<open>DPO_Write\<close> is a constant. Attribute 17 has a read
  function that does nothing, so its size stays and no octet is stored.
\<close>

definition c_aDPOFct :: "dmap_state DMAP_FCT_STRUCT list" where
  "c_aDPOFct =
     [dm_ro 0 (\<lambda>s. DMAP_EmptyReadFunc),
      dm_ro 2 (\<lambda>s. DMAP_ReadUint16 1),
      dm_ro 16 (\<lambda>s. DMAP_ReadVisibleString c_aulWellKnownISAKey),
      dm_ro 16 (\<lambda>s. DMAP_ReadVisibleString c_aulWellKnownISAKey),
      dm_ro 2 (\<lambda>s. DMAP_ReadUint16 0xFFFF),
      dpo_u8 m_ucJoinMethodCapability, dpo_u8 m_ucAllowProvisioning, dpo_u8 m_ucAllowOverTheAirProvisioning,
      dpo_u8 m_ucAllowOOBProvisioning, dpo_u8 m_ucAllowResetToFactoryDefaults, dpo_u8 m_ucAllowDefaultJoin,
      dpo_u16 m_unTargetNwkID, dpo_u16 m_unTargetNwkBitMask, dpo_u8 m_ucTargetJoinMethod,
      dm_ro 8 (\<lambda>s. DMAP_ReadVisibleString (m_aTargetSecurityMngrEUI (g_stDPO s))),
      dm_ro 16 (\<lambda>s. DMAP_ReadVisibleString (DMO_ATTRIBUTES.m_aucSysMng128BitAddr (dmo_state.g_stDMO (dmo_of s)))),
      dpo_u16 m_unTargetFreqList,
      dm_ro MAX_GENERIC_VAL_SIZE (\<lambda>s sz. ([], sz))]
     @ replicate 8 (dm_ro 0 (\<lambda>s. DMAP_EmptyReadFunc))"

definition DPO_Init :: "dmap_state \<Rightarrow> dmap_state" where
  "DPO_Init s = s\<lparr>g_stDPO := (g_stDPO s)\<lparr>m_unDeviceRole := 8\<rparr>\<rparr>"

definition DPO_Read :: "u16 \<Rightarrow> dmap_state \<Rightarrow> u8 \<times> (u8 list \<times> u16) option" where
  "DPO_Read p_unAttrID s = DMAP_ReadAttr p_unAttrID s c_aDPOFct"

definition g_pstUAPObjectTable :: "(u16 \<times> u8 list) list" where
  "g_pstUAPObjectTable = [(1, [1, 0, 0]), (129, [129, 0, 0]), (4, [4, 0, 0]), (6, [130, 0, 0])]"

definition UAP_GetObjectTable :: "u8 list \<times> u8" where
  "UAP_GetObjectTable = (concat (map (\<lambda>(i, t). DMAP_InsertUint16 i @ t) g_pstUAPObjectTable), 20)"

definition c_aUapMoAttributes :: "dmap_env \<Rightarrow> dmap_state DMAP_FCT_STRUCT list" where
  "c_aUapMoAttributes env =
     [dm_ro 0 (\<lambda>s. DMAP_EmptyReadFunc),
      dm_ro 10 (\<lambda>s. DMAP_ReadVisibleString [85, 65, 80, 32, 118, 49, 46, 48, 46, 49]),
      dm_ro 1 (\<lambda>s. DMAP_ReadUint8 1),
      \<lparr>DMAP_FCT_STRUCT.m_ucSize = 1, m_pReadFct = (\<lambda>s. DMAP_ReadUint8 (g_ucUAPCommand s)),
       m_pWriteFct = Some (\<lambda>s m p. Some (s\<lparr>g_ucUAPCommand := DMAP_WriteUint8 m p\<rparr>))\<rparr>,
      dm_ro 1 (\<lambda>s. DMAP_ReadUint8 (g_ucMaxUAPRetries (asl_cfg (slme_env_of env)))),
      dm_ro 0 (\<lambda>s sz. ([], sz)), dm_ro 0 (\<lambda>s sz. ([], sz)), dm_ro 0 (\<lambda>s sz. ([], sz)),
      dm_ro 1 (\<lambda>s. DMAP_ReadUint8 4),
      dm_ro 20 (\<lambda>s sz. UAP_GetObjectTable),
      dm_ro 2 (\<lambda>s. DMAP_ReadUint16 1)]"

section \<open>Methods of the transport and network layer objects\<close>

definition c_aTLMEMethParamLen :: "u16 list" where
  "c_aTLMEMethParamLen = [1, 18, 16, 18, 18]"

definition port_info_octets :: "u16 \<Rightarrow> TLME_PORT_INFO \<Rightarrow> u8 list" where
  "port_info_octets port i = DMAP_InsertUint16 port @ DMAP_InsertUint32 (m_unUID i) @ [0]
     @ concat (map (\<lambda>a. DMAP_InsertUint32 (TLME_PORT_INFO.m_aTPDUCount i a))
         [TLME_PORT_TPDU_IN_OK, TLME_PORT_TPDU_IN, TLME_PORT_TPDU_OUT_OK, TLME_PORT_TPDU_OUT])"

text \<open>
  The state, the feedback code and the octets of the response; \<open>buf\<close> is the response buffer before the call. The port is looked up for
  the address that the response buffer happens to hold behind its first octet.
\<close>

definition TLMO_execute :: "mem \<Rightarrow> u8 \<Rightarrow> u16 \<Rightarrow> mem \<Rightarrow> TLME_STRUCT \<Rightarrow> TLME_STRUCT \<times> u8 \<times> u8 list" where
  "TLMO_execute buf p_ucMethID p_unReqSize req t =
     (if p_ucMethID = 0 \<or> 6 \<le> p_ucMethID then (t, SFC_INVALID_METHOD, [])
      else if p_unReqSize \<noteq> c_aTLMEMethParamLen ! (unat p_ucMethID - 1) then (t, SFC_INVALID_SIZE, [])
      else if p_ucMethID = 1 then (TLME_Reset (req 0) t, SFC_SUCCESS, [0])
      else if p_ucMethID = 2 then (t, SFC_SUCCESS, [0])
      else if p_ucMethID = 3 then
        let r = TLME_GetPortRangeInfo (mem_bytes req 0 16) t in
        (t, SFC_SUCCESS, [0] @ DMAP_InsertUint16 (m_unNbActivePorts r) @ DMAP_InsertUint16 (m_unFirstActivePort r)
           @ DMAP_InsertUint16 (m_unLastActivePort r))
      else
        let port = u16_at req 16;
            (sfc, i) = (if p_ucMethID = 4 then TLME_GetPortInfo (mem_bytes buf 1 16) port t
                        else TLME_GetNextPortInfo (mem_bytes buf 1 16) port t)
        in case i of
             Some i \<Rightarrow> (t, SFC_SUCCESS, [0] @ port_info_octets port i)
           | None \<Rightarrow> (t, SFC_SUCCESS, [1]))"

definition is_row_read :: "u8 \<Rightarrow> bool" where
  "is_row_read meth \<longleftrightarrow> meth = 2 \<or> meth = 5 \<or> meth = 8"

definition note_row_request :: "u8 \<Rightarrow> u16 \<Rightarrow> NLME_ATRIBUTES \<Rightarrow> NLME_ATRIBUTES" where
  "note_row_request meth attr n =
     (if meth \<in> {1, 2, 3, 7, 8, 9} \<and> (attr = 5 \<or> attr = 9)
      then n\<lparr>g_nRequestForLinuxBbr := True, g_nATT_TR_Changed := True\<rparr> else n)"

text \<open>The state, the feedback code, the octets stored at \<^verbatim>\<open>p_pRspBuf\<close> and the size left at \<^verbatim>\<open>p_pRspSize\<close>.\<close>

definition NLMO_execute :: "nlme_env \<Rightarrow> u8 \<Rightarrow> u16 \<Rightarrow> mem \<Rightarrow> u16 \<Rightarrow> NLME_ATRIBUTES \<Rightarrow> NLME_ATRIBUTES \<times> u8 \<times> u8 list \<times> u16" where
  "NLMO_execute env p_ucMethID p_unReqSize req p_pRspSize n =
     (if p_unReqSize < 2 then (n, SFC_INVALID_SIZE, [], p_pRspSize)
      else if \<not> is_row_read p_ucMethID \<and> p_unReqSize - 2 < 4 then (n, SFC_INVALID_SIZE, [], p_pRspSize)
      else
        let attr = u16_at req 0;
            (p, len) = (if is_row_read p_ucMethID then (2, p_unReqSize - 2) else (6, p_unReqSize - 2 - 4));
            data = mem_bytes req p (unat len);
            n = note_row_request p_ucMethID attr n
        in if is_row_read p_ucMethID then
             let (sfc, bs, sz) = NLME_GetRow env (ucast attr) data (ucast len) n in
             (n, sfc, bs, case sz of Some k \<Rightarrow> ucast k | None \<Rightarrow> ucast (ucast p_pRspSize :: u8))
           else if p_ucMethID = 1 \<or> p_ucMethID = 4 \<or> p_ucMethID = 7 then
             let (n, sfc) = NLME_SetRow env (ucast attr) data (ucast len) n in (n, sfc, [], 0)
           else if p_ucMethID = 3 \<or> p_ucMethID = 6 \<or> p_ucMethID = 9 then
             let (n, sfc) = NLME_DeleteRow (ucast attr) data (ucast len) n in (n, sfc, [], 0)
           else (n, SFC_INVALID_METHOD, [], 0))"

section \<open>Attributes by object\<close>

definition written :: "('s \<Rightarrow> dmap_state) \<Rightarrow> 's write_result \<Rightarrow> (dmap_state \<times> u8) option" where
  "written upd r = (case r of Written sfc x \<Rightarrow> Some (upd x, sfc) | Fault \<Rightarrow> None)"

text \<open>A write of \<open>len\<close> octets at \<open>p\<close>. The lengths the objects get are 8 bits wide.\<close>

definition SetGenericAttribute :: "dmap_env \<Rightarrow> u8 \<Rightarrow> u16 \<Rightarrow> u16 \<Rightarrow> mem \<Rightarrow> addr \<Rightarrow> u16 \<Rightarrow> dmap_state \<Rightarrow> (dmap_state \<times> u8) option" where
  "SetGenericAttribute env p_ucTSAPID p_unObjID attr m p len s =
     (if p_ucTSAPID = UAP_DMAP_ID then
        if p_unObjID = DMAP_NLMO_OBJ_ID then
          let (n, sfc) = NLMO_Write (nlme_env_of env s) attr (ucast len) (mem_bytes m p (unat len)) (asl_state.g_stNlme (asl_of s)) in
          Some (on_dmo (in_nlme (\<lambda>_. n)) s, sfc)
        else if p_unObjID = DMAP_DMO_OBJ_ID then
          written (\<lambda>d. on_dmo (\<lambda>_. d) s) (DMO_Write (dmo_env_of env) (dp_const env) attr (ucast len) m p (dmo_of s))
        else if p_unObjID = DMAP_ARMO_OBJ_ID then written (\<lambda>a. on_armo (\<lambda>_. a) s) (ARMO_Write attr (ucast len) m p (dp_armo s))
        else if p_unObjID = DMAP_DSMO_OBJ_ID then
          written (\<lambda>x. on_slme (\<lambda>_. x) s) (DMAP_WriteAttr attr (ucast len) m p (slme_of s) c_aDSMOFct)
        else if p_unObjID = DMAP_DPO_OBJ_ID then Some (s, SFC_READ_ONLY_ATTRIBUTE)
        else if p_unObjID = DMAP_ASLMO_OBJ_ID then
          written (\<lambda>x. s\<lparr>dp_aslmo := x\<rparr>) (DMAP_WriteAttr attr (ucast len) m p (dp_aslmo s) c_aASLMOFct)
        else if p_unObjID = DMAP_TLMO_OBJ_ID \<and> len < 0xFF then
          let (x, sfc) = TLME_SetRow (ucast attr) 0 (mem_bytes m p (unat len)) (ucast len) (dp_tlme s) in Some (s\<lparr>dp_tlme := x\<rparr>, sfc)
        else Some (s, SFC_INVALID_OBJ_ID)
      else if p_unObjID = UAP_MO_OBJ_ID then
        written (\<lambda>x. x) (DMAP_WriteAttr attr (ucast len) m p s (c_aUapMoAttributes env))
      else Some (s, SFC_INVALID_OBJ_ID))"

text \<open>
  A read with room for \<open>len\<close> octets: the state, which a read of the network layer object changes, the feedback code, the octets stored
  in the buffer and the length left at \<^verbatim>\<open>p_punLen\<close>.
\<close>

definition attr_read :: "u16 \<Rightarrow> dmap_state \<Rightarrow> u8 \<times> (u8 list \<times> u16) option \<Rightarrow> dmap_state \<times> u8 \<times> u8 list \<times> u16" where
  "attr_read len s r = (case r of (sfc, None) \<Rightarrow> (s, sfc, [], len) | (sfc, Some (bs, n)) \<Rightarrow> (s, sfc, bs, n))"

definition GetGenericAttribute :: "dmap_env \<Rightarrow> u8 \<Rightarrow> u16 \<Rightarrow> ATTR_IDTF \<Rightarrow> u16 \<Rightarrow> dmap_state \<Rightarrow> (dmap_state \<times> u8 \<times> u8 list \<times> u16) option" where
  "GetGenericAttribute env p_ucTSAPID p_unObjID idtf len s =
     (let attr = m_unAttrID idtf in
      if p_ucTSAPID = UAP_DMAP_ID then
        if p_unObjID = DMAP_NLMO_OBJ_ID then
          let (n, sfc, bs, k, over) = NLMO_Read (nlme_env_of env s) attr (asl_state.g_stNlme (asl_of s)) in
          if 0 < over then None
          else Some (on_dmo (in_nlme (\<lambda>_. n)) s, sfc, bs, case k of None \<Rightarrow> len | Some k \<Rightarrow> k)
        else if p_unObjID = DMAP_DMO_OBJ_ID then Some (attr_read len s (DMO_Read (dmo_env_of env) (dp_const env) idtf len (dmo_of s)))
        else if p_unObjID = DMAP_DSMO_OBJ_ID then Some (attr_read len s (DMAP_ReadAttr attr (slme_of s) c_aDSMOFct))
        else if p_unObjID = DMAP_ARMO_OBJ_ID then Some (attr_read len s (ARMO_Read attr (dp_armo s)))
        else if p_unObjID = DMAP_DPO_OBJ_ID then Some (attr_read len s (DPO_Read attr s))
        else if p_unObjID = DMAP_ASLMO_OBJ_ID then Some (attr_read len s (DMAP_ReadAttr attr (dp_aslmo s) c_aASLMOFct))
        else if p_unObjID = DMAP_TLMO_OBJ_ID then
          let (sfc, bs, k) = TLME_GetRow (ucast attr) [] 0 (dp_tlme s) in
          Some (s, sfc, bs, case k of None \<Rightarrow> 0 | Some k \<Rightarrow> ucast k)
        else Some (s, SFC_INVALID_OBJ_ID, [], 0)
      else if p_unObjID = UAP_MO_OBJ_ID then Some (attr_read len s (DMAP_ReadAttr attr s (c_aUapMoAttributes env)))
      else Some (s, SFC_INVALID_OBJ_ID, [], 0))"

section \<open>Methods by object\<close>

text \<open>The contract requests that wait for the keys of a list of sessions are released one after the other.\<close>

fun notify_new_keys :: "dmo_env \<Rightarrow> (ipv6 \<times> u16 \<times> u16) list \<Rightarrow> dmo_state \<Rightarrow> dmo_state option" where
  "notify_new_keys env [] d = Some d"
| "notify_new_keys env ((peer, sport, dport) # ks) d =
     (case DMO_NotifyNewKeyAdded env peer sport dport d of None \<Rightarrow> None | Some d \<Rightarrow> notify_new_keys env ks d)"

text \<open>The result is the state, the feedback code, the response data and its length. \<open>sfc\<close> is what the response holds before.\<close>

definition DMAP_ExecuteGenericMethod :: "dmap_env \<Rightarrow> u8 \<Rightarrow> u16 \<Rightarrow> u8 \<Rightarrow> u16 \<Rightarrow> mem \<Rightarrow> u8 \<Rightarrow> dmap_state
    \<Rightarrow> (dmap_state \<times> u8 \<times> u8 list \<times> u16) option" where
  "DMAP_ExecuteGenericMethod env p_ucTSAPID obj meth len req sfc s =
     (if p_ucTSAPID \<noteq> UAP_DMAP_ID then Some (s, sfc, [], 0)
      else if obj = DMAP_TLMO_OBJ_ID then
        let (x, sfc, bs) = TLMO_execute (local_mem env) meth len req (dp_tlme s) in Some (s\<lparr>dp_tlme := x\<rparr>, sfc, bs, of_nat (length bs))
      else if obj = DMAP_NLMO_OBJ_ID then
        let (n, sfc, bs, k) = NLMO_execute (nlme_env_of env s) meth len req 0 (asl_state.g_stNlme (asl_of s)) in
        Some (on_dmo (in_nlme (\<lambda>_. n)) s, sfc, bs, k)
      else if obj = DMAP_DMO_OBJ_ID then
        let (d, sfc) = DMO_Execute (dmo_env_of env) meth (ucast len) req (dmo_of s) in Some (on_dmo (\<lambda>_. d) s, sfc, [], 0)
      else if obj = DMAP_DSMO_OBJ_ID then
        (case DSMO_Execute (slme_env_of env) meth req len (slme_of s) of
           None \<Rightarrow> None
         | Some (x, sfc, bs, ks) \<Rightarrow>
             map_option (\<lambda>d. (on_dmo (\<lambda>_. d) s, sfc, bs, of_nat (length bs)))
               (notify_new_keys (dmo_env_of env) ks ((dmo_of s)\<lparr>dm_slme := x\<rparr>)))
      else if obj = DMAP_DPO_OBJ_ID then Some (s, SFC_OBJECT_STATE_CONFLICT, [], 0)
      else if obj = DMAP_ARMO_OBJ_ID then
        let (a, sfc) = ARMO_Execute meth len req (dp_armo s) in Some (on_armo (\<lambda>_. a) s, sfc, [], 0)
      else if obj = DMAP_ASLMO_OBJ_ID then
        let (x, sfc) = ASLMO_Execute meth len req 0 (dp_aslmo s) in Some (s\<lparr>dp_aslmo := x\<rparr>, sfc, [], 0)
      else Some (s, SFC_INVALID_OBJ_ID, [], 0))"

section \<open>Requests and their answers\<close>

definition dmap_args :: "u8 \<Rightarrow> u8 \<Rightarrow> u8 \<Rightarrow> u16 \<Rightarrow> u16 \<Rightarrow> ADD_ARGS" where
  "dmap_args prio src dst h cid = \<lparr>p_ucPriority = prio, p_ucSrcTSAPID = src, p_ucDstTSAPID = dst, p_unAppHandler = h, p_pDstAddr = None,
     p_unContractID = cid, p_ucObeyContractBandwidth = 0, p_ucAllowEncryption = 1, p_ucNoRspExpected = 0, p_unAPDULifetime = 300\<rparr>"

text \<open>A call of \<^verbatim>\<open>ASLSRVC_AddGenericObject\<close> with a new application handle; \<open>m\<close> holds the data of the service.\<close>

definition add_object :: "dmap_env \<Rightarrow> mem \<Rightarrow> u8 \<Rightarrow> u8 \<Rightarrow> u8 \<Rightarrow> u16 \<Rightarrow> ASL_SRVC \<Rightarrow> dmap_state \<Rightarrow> dmap_state \<times> u8" where
  "add_object env m prio src dst cid x s =
     (let h = (g_unAppHandle (dmo_of s) + 1) AND 0xFFF;
          s = on_dmo (\<lambda>d. d\<lparr>g_unAppHandle := h\<rparr>) s;
          (a, r) = ASLSRVC_AddGenericObject (current_cfg (dmo_env_of env) (dmo_of s)) m (dmap_args prio src dst h cid) (Service x) (asl_of s)
      in (on_asl (\<lambda>_. a) s, r))"

abbreviation "manager_contract s \<equiv> dmo_state.g_unSysMngContractID (dmo_of s)"

definition respond :: "dmap_env \<Rightarrow> u8 list \<Rightarrow> APDU_IDTF \<Rightarrow> ASL_SRVC \<Rightarrow> dmap_state \<Rightarrow> dmap_state" where
  "respond env bs idtf x s = fst (add_object env (mem_write (local_mem env) 0 bs) 0 (APDU_IDTF.m_ucDstTSAPID idtf) (APDU_IDTF.m_ucSrcTSAPID idtf)
     (manager_contract s) x s)"

text \<open>The congestion flag of a response: \<^verbatim>\<open>m_ucFECCE\<close> is written only when the request carries the congestion bit.\<close>

definition response_FECCE :: "dmap_env \<Rightarrow> APDU_IDTF \<Rightarrow> u8" where
  "response_FECCE env idtf = (if APDU_IDTF.m_ucPriorityAndFlags idtf AND TLDE_ECN_MASK = TLDE_ECN_MASK then 1 else local_FECCE env)"

definition DMAP_processReadRequest :: "dmap_env \<Rightarrow> READ_REQ_SRVC \<Rightarrow> APDU_IDTF \<Rightarrow> dmap_state \<Rightarrow> dmap_state option" where
  "DMAP_processReadRequest env x idtf s =
     map_option (\<lambda>(s, sfc, bs, n). respond env bs idtf (ReadRsp (READ_RSP_SRVC.make (SRVC_OIDS.m_unDstOID x) (SRVC_OIDS.m_unSrcOID x)
         (SRVC_REQID.m_ucReqID x) (response_FECCE env idtf) sfc n 0)) s)
       (GetGenericAttribute env UAP_DMAP_ID (SRVC_OIDS.m_unDstOID x) (READ_REQ_SRVC.m_stAttrIdtf x) (ucast MAX_GENERIC_VAL_SIZE) s)"

definition DMAP_processWriteRequest :: "dmap_env \<Rightarrow> mem \<Rightarrow> WRITE_REQ_SRVC \<Rightarrow> APDU_IDTF \<Rightarrow> dmap_state \<Rightarrow> dmap_state option" where
  "DMAP_processWriteRequest env m x idtf s =
     map_option (\<lambda>(s, sfc). respond env [] idtf (WriteRsp (WRITE_RSP_SRVC.make (SRVC_OIDS.m_unDstOID x) (SRVC_OIDS.m_unSrcOID x)
         (SRVC_REQID.m_ucReqID x) (response_FECCE env idtf) sfc)) s)
       (SetGenericAttribute env UAP_DMAP_ID (SRVC_OIDS.m_unDstOID x) (m_unAttrID (WRITE_REQ_SRVC.m_stAttrIdtf x)) m
          (WRITE_REQ_SRVC.p_pReqData x) (WRITE_REQ_SRVC.m_unLen x) s)"

definition at_addr :: "mem \<Rightarrow> addr \<Rightarrow> mem" where
  "at_addr m p i = m (p + i)"

definition DMAP_processExecuteRequest :: "dmap_env \<Rightarrow> mem \<Rightarrow> EXEC_REQ_SRVC \<Rightarrow> APDU_IDTF \<Rightarrow> dmap_state \<Rightarrow> dmap_state option" where
  "DMAP_processExecuteRequest env m x idtf s =
     map_option (\<lambda>(s, sfc, bs, n). respond env bs idtf (ExecRsp (EXEC_RSP_SRVC.make (SRVC_OIDS.m_unDstOID x) (SRVC_OIDS.m_unSrcOID x)
         (SRVC_REQID.m_ucReqID x) (response_FECCE env idtf) sfc n 0)) s)
       (DMAP_ExecuteGenericMethod env UAP_DMAP_ID (SRVC_OIDS.m_unDstOID x) (m_ucMethID x) (EXEC_REQ_SRVC.m_unLen x)
          (at_addr m (EXEC_REQ_SRVC.p_pReqData x)) (local_SFC env) s)"

end
