(* ===== verification/Dmap_Join.thy ===== *)
theory Dmap_Join
  imports Dmap
begin

text \<open>
  The join of the device (\<^verbatim>\<open>dmap.cpp\<close>): the state machine that sends the security join request, the join request to the system manager,
  the contract request and the confirmation one after the other, the checks of the answers, the watchdog over the link to the system
  manager and the restart of the stack. The values of the states are those of \<^verbatim>\<open>mlde.h\<close>.
\<close>

unbundle bit_operations_syntax

abbreviation (input) DEVICE_DISCOVERY :: u8 where "DEVICE_DISCOVERY \<equiv> 0"
abbreviation (input) DEVICE_SECURITY_JOIN_REQ_SENT :: u8 where "DEVICE_SECURITY_JOIN_REQ_SENT \<equiv> 4"
abbreviation (input) DEVICE_SEND_SM_JOIN_REQ :: u8 where "DEVICE_SEND_SM_JOIN_REQ \<equiv> 5"
abbreviation (input) DEVICE_SM_JOIN_REQ_SENT :: u8 where "DEVICE_SM_JOIN_REQ_SENT \<equiv> 6"
abbreviation (input) DEVICE_SEND_SM_CONTR_REQ :: u8 where "DEVICE_SEND_SM_CONTR_REQ \<equiv> 7"
abbreviation (input) DEVICE_SM_CONTR_REQ_SENT :: u8 where "DEVICE_SM_CONTR_REQ_SENT \<equiv> 8"
abbreviation (input) DEVICE_SEC_CONFIRM_REQ_SENT :: u8 where "DEVICE_SEC_CONFIRM_REQ_SENT \<equiv> 12"
abbreviation (input) DMO_PROXY_SM_JOIN_REQ :: u8 where "DMO_PROXY_SM_JOIN_REQ \<equiv> 3"
abbreviation (input) DMO_PROXY_SM_CONTR_REQ :: u8 where "DMO_PROXY_SM_CONTR_REQ \<equiv> 4"
abbreviation (input) DMO_PROXY_SEC_SYM_REQ :: u8 where "DMO_PROXY_SEC_SYM_REQ \<equiv> 5"
abbreviation (input) PSMO_SECURITY_JOIN_CONF :: u8 where "PSMO_SECURITY_JOIN_CONF \<equiv> 2"
abbreviation (input) SM_STSO_OBJ_ID :: u16 where "SM_STSO_OBJ_ID \<equiv> 1"
abbreviation (input) SM_PSMO_OBJ_ID :: u16 where "SM_PSMO_OBJ_ID \<equiv> 6"
abbreviation (input) STSO_CTR_UTC_OFFSET :: u16 where "STSO_CTR_UTC_OFFSET \<equiv> 1"
abbreviation (input) STSO_NEXT_UTC_TIME :: u16 where "STSO_NEXT_UTC_TIME \<equiv> 2"
abbreviation (input) STSO_NEXT_UTC_OFFSET :: u16 where "STSO_NEXT_UTC_OFFSET \<equiv> 3"
abbreviation (input) SEC_JOIN_RESP_SIZE :: nat where "SEC_JOIN_RESP_SIZE \<equiv> 71"
abbreviation (input) MAX_PARAM_SIZE :: nat where "MAX_PARAM_SIZE \<equiv> 130"

definition set_join_status :: "u8 \<Rightarrow> dmap_state \<Rightarrow> dmap_state" where
  "set_join_status st = on_dmo (\<lambda>d. d\<lparr>dmo_state.g_ucJoinStatus := st\<rparr>)"

abbreviation "dmo_attrs s \<equiv> dmo_state.g_stDMO (dmo_of s)"
abbreviation "own_address s \<equiv> DMO_ATTRIBUTES.m_auc128BitAddr (dmo_attrs s)"
abbreviation "manager_address s \<equiv> DMO_ATTRIBUTES.m_aucSysMng128BitAddr (dmo_attrs s)"
abbreviation "device_eui env \<equiv> c_oEUI64BE (slme_env_of env)"
abbreviation "manager_eui env \<equiv> c_oSecManagerEUI64BE (slme_env_of env)"
abbreviation "cipher_of env \<equiv> block_cipher (slme_env_of env)"
abbreviation "join_key s \<equiv> DPO_STRUCT.m_aJoinKey (g_stDPO s)"
abbreviation "tai_now env \<equiv> crt_tai (slme_env_of env)"

section \<open>Initialisation and restart\<close>

text \<open>The list of devices that join through this one is never used in this build; its length is left out.\<close>

definition DMAP_Init :: "dmap_env \<Rightarrow> dmap_state \<Rightarrow> dmap_state" where
  "DMAP_Init env s =
     (let s = on_dmo (\<lambda>d. d\<lparr>dmo_state.g_unSysMngContractID := 0, dmo_state.g_ucJoinStatus := DEVICE_DISCOVERY\<rparr>) s;
          s = DPO_Init s;
          s = on_dmo DMO_Init s;
          s = on_armo ARMO_Init s
      in on_asl (\<lambda>a. a\<lparr>g_ucSMLinkTimeout := g_ucSMLinkTimeoutConf (asl_cfg (slme_env_of env))\<rparr>) s)"

definition DMAP_ResetStack :: "dmap_env \<Rightarrow> dmap_state \<Rightarrow> dmap_state" where
  "DMAP_ResetStack env s =
     (let s = on_asl ASLDE_Init_queues (s\<lparr>dp_aslmo := ASLDE_Init_aslmo (dp_aslmo s), dp_tlme := TLME_Init (dp_tlme s)\<rparr>);
          s = on_slme SLME_Init (on_dmo (in_nlme NLME_Init) s);
          s = DMAP_Init env s
      in s\<lparr>dmap_events := dmap_events s @ [UAP_OnJoinReset]\<rparr>)"

section \<open>Requests\<close>

text \<open>The octets of \<^verbatim>\<open>g_aulNewNodeChallenge\<close> on a little-endian host.\<close>

definition challenge :: "dmap_state \<Rightarrow> u8 list" where
  "challenge s = concat (map native_u32 (g_aulNewNodeChallenge s))"

text \<open>The fourth word of the challenge is never written.\<close>

definition DMO_generateSecJoinReqBuffer :: "dmap_env \<Rightarrow> dmap_state \<Rightarrow> dmap_state \<times> u8 list" where
  "DMO_generateSecJoinReqBuffer env s =
     (let s = s\<lparr>g_aulNewNodeChallenge := (g_aulNewNodeChallenge s)[0 := random_long env, 1 := rand_long env, 2 := tai_now env]\<rparr>;
          head = device_eui env @ challenge s @ [0x00, 0x01];
          mic = snd (aes_crypt (cipher_of env) (join_key s) (take 13 (challenge s)) head [])
      in (s, head @ take 4 (mic @ mem_bytes (local_mem env) 26 4)))"

definition DLMO_InsertExtDLUint :: "u16 \<Rightarrow> u8 list" where
  "DLMO_InsertExtDLUint v =
     (if v < 0x80 then [ucast (push_bit 1 v)] else [ucast (push_bit 1 v) OR 0x01, ucast (drop_bit 7 v)])"

definition DLMO_ReadDeviceCapability :: "u8 list" where
  "DLMO_ReadDeviceCapability =
     DLMO_InsertExtDLUint 4 @ [8] @ DMAP_InsertUint16 0xFFFF @ [0x04] @ DMAP_InsertUint16 0x7FFF
     @ DLMO_InsertExtDLUint 3600 @ DLMO_InsertExtDLUint 600 @ DLMO_InsertExtDLUint 120
     @ DMAP_InsertUint16 0x7FFF @ DLMO_InsertExtDLUint 100 @ DLMO_InsertExtDLUint 200 @ [0, 5]"

definition DMO_generateSMJoinReqBuffer :: "dmap_env \<Rightarrow> dmap_state \<Rightarrow> u8 list" where
  "DMO_generateSMJoinReqBuffer env s =
     device_eui env @ DMAP_InsertUint16 (g_unDllSubnetId env) @ DMAP_InsertUint16 (m_unDeviceRole (g_stDPO s))
     @ [16] @ m_aucTagName (dmo_attrs s) @ [0, 0]
     @ [of_nat (length (c_aucSWRevInfo (dp_const env)))] @ c_aucSWRevInfo (dp_const env) @ DLMO_ReadDeviceCapability"

text \<open>
  An execute request of the device management object: to the same object of the advertising router over the join contract, or to an
  object of the system manager.
\<close>

definition send_join_request :: "dmap_env \<Rightarrow> mem \<Rightarrow> u8 \<Rightarrow> u8 \<Rightarrow> u16 \<Rightarrow> u16 \<Rightarrow> u8 \<Rightarrow> u16 \<Rightarrow> dmap_state \<Rightarrow> dmap_state \<times> u8" where
  "send_join_request env m prio dst cid obj meth len =
     add_object env m prio UAP_DMAP_ID dst cid (ExecReq (EXEC_REQ_SRVC.make DMAP_DMO_OBJ_ID obj 0 meth len 0))"

text \<open>\<^verbatim>\<open>m_mfDllJoinBackTimeout\<close> of \<^verbatim>\<open>c_stDefJoinInfo\<close>: the lower half is the exponent of the time-out in seconds.\<close>

definition join_timeout :: u16 where
  "join_timeout = push_bit (unat ((0x24 :: u8) AND 0x0F)) 1"

definition await_answer :: "u8 \<Rightarrow> dmap_state \<Rightarrow> dmap_state" where
  "await_answer st s = set_join_status st (s\<lparr>g_stJoinRetryCntrl := join_timeout\<rparr>)"

definition sent_or_again :: "u8 \<Rightarrow> dmap_state \<times> u8 \<Rightarrow> dmap_state" where
  "sent_or_again st r = (case r of (s, sfc) \<Rightarrow> if sfc = SFC_SUCCESS then await_answer st s else s)"

definition DMAP_startJoin :: "dmap_env \<Rightarrow> dmap_state \<Rightarrow> dmap_state" where
  "DMAP_startJoin env s =
     (let (s, req) = DMO_generateSecJoinReqBuffer env s;
          (s, _) = send_join_request env (mem_of req) 0 UAP_DMAP_ID JOIN_CONTRACT_ID DMAP_DMO_OBJ_ID DMO_PROXY_SEC_SYM_REQ (of_nat (length req)) s
      in await_answer DEVICE_SECURITY_JOIN_REQ_SENT s)"

definition NLMO_prepareJoinSMIBS :: "dmap_env \<Rightarrow> dmap_state \<Rightarrow> dmap_state" where
  "NLMO_prepareJoinSMIBS env s =
     (let own = own_address s; sm = manager_address s; e = nlme_env_of env s;
          contract = [0, 1] @ own @ [0, 1] @ own @ sm @ [0x03];
          route = sm @ sm @ sm @ [1, 1];
          s = on_dmo (in_nlme (\<lambda>n. fst (NLME_SetRow e 8 contract 53 n))) s
      in on_dmo (in_nlme (\<lambda>n. fst (NLME_SetRow e 5 route 50 n))) s)"

definition NLMO_updateJoinSMIBS :: "dmap_env \<Rightarrow> dmap_state \<Rightarrow> dmap_state \<times> u8" where
  "NLMO_updateJoinSMIBS env s =
     (let sm = manager_address s;
          (n, sfc) = NLME_SetRow (nlme_env_of env s) 9 (sm @ sm @ DMAP_InsertUint16 (m_unSysMngShortAddr (dmo_attrs s))) 34
            (asl_state.g_stNlme (asl_of s))
      in (on_dmo (in_nlme (\<lambda>_. n)) s, sfc))"

definition confirm_input :: "dmap_env \<Rightarrow> dmap_state \<Rightarrow> u8 list" where
  "confirm_input env s = challenge s @ g_aucSecMngChallenge s @ device_eui env @ manager_eui env"

definition DMAP_joinStateMachine :: "dmap_env \<Rightarrow> dmap_state \<Rightarrow> dmap_state option" where
  "DMAP_joinStateMachine env s =
     (let st = join_status s in
      if st = DEVICE_DISCOVERY then
        Some (if tai_now env > 1576800000 then DMAP_startJoin env (NLMO_prepareJoinSMIBS env s) else s)
      else if st = DEVICE_SECURITY_JOIN_REQ_SENT \<or> st = DEVICE_SM_JOIN_REQ_SENT \<or> st = DEVICE_SM_CONTR_REQ_SENT \<or> st = DEVICE_SEC_CONFIRM_REQ_SENT then
        Some (if g_stJoinRetryCntrl s = 0 then DMAP_ResetStack env s else s)
      else if st = DEVICE_SEND_SM_JOIN_REQ then
        let req = DMO_generateSMJoinReqBuffer env s in
        Some (sent_or_again DEVICE_SM_JOIN_REQ_SENT
          (send_join_request env (mem_of req) 3 UAP_DMAP_ID JOIN_CONTRACT_ID DMAP_DMO_OBJ_ID DMO_PROXY_SM_JOIN_REQ (of_nat (length req)) s))
      else if st = DEVICE_SEND_SM_CONTR_REQ then
        Some (sent_or_again DEVICE_SM_CONTR_REQ_SENT
          (send_join_request env (mem_of (device_eui env)) 3 UAP_DMAP_ID JOIN_CONTRACT_ID DMAP_DMO_OBJ_ID DMO_PROXY_SM_CONTR_REQ 8 s))
      else if st = DEVICE_SEND_SEC_CONFIRM_REQ then
        (case Keyed_Hash_MAC (cipher_of env) (join_key s) (local_mem env) (mem_of (confirm_input env s)) 0 48 of
           None \<Rightarrow> None
         | Some (aucTemp, sfc) \<Rightarrow>
             Some (if sfc = SFC_SUCCESS
                   then sent_or_again DEVICE_SEC_CONFIRM_REQ_SENT
                     (send_join_request env aucTemp 3 UAP_SMAP_ID (manager_contract s) SM_PSMO_OBJ_ID PSMO_SECURITY_JOIN_CONF 16 s)
                   else s))
      else Some s)"

section \<open>Answers\<close>

text \<open>
  The keys of an answer that was found authentic: the master key is computed, the two keys of the answer are decrypted with it, and the
  master key and the session key with the system manager are stored. \<open>h\<close> is the buffer that was hashed; its octets 32 to 47 still hold
  both identifiers.
\<close>

definition install_join_keys :: "dmap_env \<Rightarrow> mem \<Rightarrow> mem \<Rightarrow> dmap_state \<Rightarrow> dmap_state option" where
  "install_join_keys env h rsp s =
     (let s = s\<lparr>g_aucSecMngChallenge := mem_bytes rsp 0 16\<rparr>;
          h = mem_write (mem_write h 0 (challenge s)) 16 (mem_bytes rsp 0 16) in
      case Keyed_Hash_MAC (cipher_of env) (join_key s) (local_mem env) h 0 48 of
        None \<Rightarrow> None
      | Some (h, _) \<Rightarrow>
          let master = mem_bytes h 0 16 in
          (case AES_Decrypt_User_NoMIC (cipher_of env) master (take 13 (challenge s)) [] (mem_bytes rsp 39 32) ccm of
             None \<Rightarrow> None
           | Some (_, _, keys) \<Rightarrow>
               let pKey = drop 16 keys; life = ucast (u16_at rsp 36) :: u32 in
               (case SLME_SetKey (tai_now env) None ISA100_DMAP_PORT ISA100_DMAP_PORT 0 master (Some (manager_eui env)) 0 0 0 SLM_KEY_USAGE_MASTER 0
                       (slme_of s) of
                  None \<Rightarrow> None
                | Some (x, _) \<Rightarrow>
                    map_option (\<lambda>x. set_join_status DEVICE_SEND_SM_JOIN_REQ (on_slme (\<lambda>_. x) s))
                      (if life \<noteq> 0 \<or> pKey \<noteq> replicate 16 0
                       then map_option fst (SLME_SetKey (tai_now env) (Some (manager_address s)) ISA100_DMAP_PORT ISA100_SMAP_PORT 0 pKey None 0
                              (life * 1800) (life * 1800 * 2) SLM_KEY_USAGE_SESSION 0 x)
                       else Some x))))"

text \<open>What the security manager authenticates: both challenges, both identifiers, the key policies and the keys, without the key identifier.\<close>

definition join_hash_input :: "dmap_env \<Rightarrow> mem \<Rightarrow> dmap_state \<Rightarrow> u8 list" where
  "join_hash_input env rsp s = mem_bytes rsp 0 16 @ challenge s @ device_eui env @ manager_eui env @ mem_bytes rsp 32 6 @ mem_bytes rsp 39 32"

definition DMO_checkSecJoinResponse :: "dmap_env \<Rightarrow> u8 \<Rightarrow> u16 \<Rightarrow> mem \<Rightarrow> dmap_state \<Rightarrow> dmap_state option" where
  "DMO_checkSecJoinResponse env sfc len rsp s =
     (if sfc = SFC_VALUE_LIMITED then Some (s\<lparr>g_stJoinRetryCntrl := 0\<rparr>)
      else if sfc \<noteq> SFC_SUCCESS then Some s
      else if unat len < SEC_JOIN_RESP_SIZE then Some s
      else case Keyed_Hash_MAC (cipher_of env) (join_key s) (local_mem env) (mem_of (join_hash_input env rsp s)) 0 (of_nat MAX_HMAC_INPUT_SIZE) of
             None \<Rightarrow> None
           | Some (h, r) \<Rightarrow>
               if r = SFC_SUCCESS \<and> mem_bytes rsp 16 16 = mem_bytes h 0 16 then install_join_keys env h rsp s else Some s)"

definition DMO_checkSMJoinResponse :: "u8 \<Rightarrow> u16 \<Rightarrow> mem \<Rightarrow> dmap_state \<Rightarrow> dmap_state" where
  "DMO_checkSMJoinResponse sfc len rsp s =
     (if sfc = SFC_VALUE_LIMITED then s\<lparr>g_stJoinRetryCntrl := 0\<rparr>
      else if sfc \<noteq> SFC_SUCCESS then s
      else if len < 46 then s
      else
        let s = on_dmo (in_dmo (\<lambda>d. d\<lparr>DMO_ATTRIBUTES.m_auc128BitAddr := mem_bytes rsp 0 16, m_unShortAddr := u16_at rsp 16,
                m_unAssignedDevRole := u16_at rsp 18, DMO_ATTRIBUTES.m_aucSysMng128BitAddr := mem_bytes rsp 20 16,
                m_unSysMngShortAddr := u16_at rsp 36, m_unSysMngEUI64 := mem_bytes rsp 38 8\<rparr>)) s;
            s = on_slme (SLME_UpdateJoinSessionsKeys (m_unSysMngEUI64 (dmo_attrs s)) (manager_address s)) s
        in set_join_status DEVICE_SEND_SM_CONTR_REQ s)"

definition DMAP_DMO_applyJoinStatus :: "dmap_env \<Rightarrow> u8 \<Rightarrow> dmap_state \<Rightarrow> dmap_state" where
  "DMAP_DMO_applyJoinStatus env sfc s =
     (if sfc \<noteq> SFC_SUCCESS then DMAP_ResetStack env s
      else let s = set_join_status DEVICE_JOINED s in s\<lparr>dmap_events := dmap_events s @ [UAP_OnJoin]\<rparr>)"

text \<open>The answer to the contract request of the join, which also makes the transport layer encrypt when there is a key for it.\<close>

definition first_contract_answer :: "dmap_env \<Rightarrow> u8 \<Rightarrow> u16 \<Rightarrow> mem \<Rightarrow> dmap_state \<Rightarrow> dmap_state" where
  "first_contract_answer env sfc len rsp s =
     (let s = on_dmo (DMO_ProcessFirstContract (dmo_env_of env) sfc len rsp) s in
      if join_status s = DEVICE_SEND_SEC_CONFIRM_REQ then
        let (s, status) = NLMO_updateJoinSMIBS env s in
        if status \<noteq> SFC_SUCCESS then DMAP_ResetStack env s
        else if fst (SLME_FindTxKey (tai_now env) (Some (manager_address s)) ISA100_DMAP_PORT ISA100_SMAP_PORT (slme_of s)) \<noteq> None
        then on_slme (Slme_Keys.in_dsmo (\<lambda>d. d\<lparr>m_ucTLSecurityLevel := SECURITY_ENC_MIC_32\<rparr>)) s
        else s
      else s)"

text \<open>
  \<open>obj\<close> is the object the answer is from, \<open>meth\<close> the method of the request it answers and \<open>req0\<close> the first octet of that request.
\<close>

definition DMAP_processDMOResponse :: "dmap_env \<Rightarrow> u16 \<Rightarrow> u8 \<Rightarrow> u8 \<Rightarrow> u8 \<Rightarrow> u16 \<Rightarrow> mem \<Rightarrow> dmap_state \<Rightarrow> dmap_state option" where
  "DMAP_processDMOResponse env obj meth req0 sfc len rsp s =
     (let st = join_status s in
      if obj = DMAP_DMO_OBJ_ID then
        if meth = DMO_PROXY_SEC_SYM_REQ \<and> st = DEVICE_SECURITY_JOIN_REQ_SENT then DMO_checkSecJoinResponse env sfc len rsp s
        else if meth = DMO_PROXY_SM_JOIN_REQ \<and> st = DEVICE_SM_JOIN_REQ_SENT then Some (DMO_checkSMJoinResponse sfc len rsp s)
        else if meth = DMO_PROXY_SM_CONTR_REQ \<and> st = DEVICE_SM_CONTR_REQ_SENT then Some (first_contract_answer env sfc len rsp s)
        else Some s
      else if obj = SM_PSMO_OBJ_ID then
        Some (if meth = PSMO_SECURITY_JOIN_CONF \<and> st = DEVICE_SEC_CONFIRM_REQ_SENT then DMAP_DMO_applyJoinStatus env sfc s else s)
      else if obj = SM_SCO_OBJ_ID then
        if meth = SCO_REQ_CONTRACT then with_dmo env (DMO_ProcessContractResponse (dmo_env_of env) req0 sfc rsp) s else Some s
      else Some s)"

end
