(* ===== verification/Dmap_Task.thy ===== *)
theory Dmap_Task
  imports Dmap_Join
begin

text \<open>
  The task of the device manager application process and its tasks of every second (\<^verbatim>\<open>dmap.cpp\<close>): the objects of a received APDU are
  handed to the handlers one after the other, answers are matched with the requests in the queue, the link to the system manager is
  watched.
\<close>

unbundle bit_operations_syntax

section \<open>Answers and their requests\<close>

text \<open>
  The request a received answer belongs to, as it is parsed from the queued APDU, and that APDU. Its source address is a null pointer, so
  that a malformed request is not counted. \<^verbatim>\<open>DMO_NotifyCongestion\<close>, which the callers may call next, has no body.
\<close>

definition original_request :: "dmap_env \<Rightarrow> u8 \<Rightarrow> u16 \<Rightarrow> u16 \<Rightarrow> APDU_IDTF \<Rightarrow> dmap_state \<Rightarrow> (dmap_state \<times> (ASL_SRVC \<times> u8 list) option) option" where
  "original_request env rid src dst idtf s =
     (let (a, r) = ASLDE_SearchOriginalRequest (tai_now env) rid src dst idtf (asl_of s); s = on_asl (\<lambda>_. a) s in
      case r of
        None \<Rightarrow> Some (s, None)
      | Some (apdu, len, _) \<Rightarrow>
          (case ASLSRVC_GetGenericObject (g_bNativePublish a) (mem_of apdu) 0 len (response_union env) None (dp_aslmo s) of
             Some (Some (_, Some x), Some _, z) \<Rightarrow> Some (s\<lparr>dp_aslmo := z\<rparr>, Some (x, apdu))
           | Some (_, _, z) \<Rightarrow> Some (s\<lparr>dp_aslmo := z\<rparr>, None)
           | None \<Rightarrow> None))"

definition apply_time :: "u16 \<Rightarrow> u16 \<Rightarrow> mem \<Rightarrow> dmap_state \<Rightarrow> dmap_state" where
  "apply_time attr len rsp s =
     (if attr = STSO_CTR_UTC_OFFSET \<and> len = 2 then s\<lparr>g_stDPO := (g_stDPO s)\<lparr>m_nCurrentUTCAdjustment := u16_at rsp 0\<rparr>\<rparr>
      else if attr = STSO_NEXT_UTC_TIME \<and> len = 4 then on_dmo (in_dmo (\<lambda>d. d\<lparr>m_ulNextDriftTAI := fst (DMAP_ExtractUint32 rsp 0)\<rparr>)) s
      else if attr = STSO_NEXT_UTC_OFFSET \<and> len = 2 then on_dmo (in_dmo (\<lambda>d. d\<lparr>m_unNextUTCDrift := u16_at rsp 0\<rparr>)) s
      else s)"

definition DMAP_processReadResponse :: "dmap_env \<Rightarrow> mem \<Rightarrow> READ_RSP_SRVC \<Rightarrow> APDU_IDTF \<Rightarrow> dmap_state \<Rightarrow> dmap_state option" where
  "DMAP_processReadResponse env m x idtf s =
     (case original_request env (SRVC_REQID.m_ucReqID x) (SRVC_OIDS.m_unSrcOID x) (SRVC_OIDS.m_unDstOID x) idtf s of
        None \<Rightarrow> None
      | Some (s, Some (ReadReq r, apdu)) \<Rightarrow>
          Some (if SRVC_OIDS.m_unDstOID r = SRVC_OIDS.m_unSrcOID x \<and> READ_RSP_SRVC.m_ucSFC x = SFC_SUCCESS \<and> SRVC_OIDS.m_unSrcOID x = SM_STSO_OBJ_ID
                then apply_time (m_unAttrID (READ_REQ_SRVC.m_stAttrIdtf r)) (READ_RSP_SRVC.m_unLen x) (at_addr m (READ_RSP_SRVC.m_pRspData x)) s
                else s)
      | Some (s, _) \<Rightarrow> Some s)"

definition DMAP_processExecuteResponse :: "dmap_env \<Rightarrow> mem \<Rightarrow> EXEC_RSP_SRVC \<Rightarrow> APDU_IDTF \<Rightarrow> dmap_state \<Rightarrow> dmap_state option" where
  "DMAP_processExecuteResponse env m x idtf s =
     (case original_request env (SRVC_REQID.m_ucReqID x) (SRVC_OIDS.m_unSrcOID x) (SRVC_OIDS.m_unDstOID x) idtf s of
        None \<Rightarrow> None
      | Some (s, Some (ExecReq r, apdu)) \<Rightarrow>
          if SRVC_OIDS.m_unDstOID r = SRVC_OIDS.m_unSrcOID x \<and> SRVC_OIDS.m_unDstOID x = DMAP_DMO_OBJ_ID
          then DMAP_processDMOResponse env (SRVC_OIDS.m_unSrcOID x) (m_ucMethID r) (mem_of apdu (EXEC_REQ_SRVC.p_pReqData r))
                 (EXEC_RSP_SRVC.m_ucSFC x) (EXEC_RSP_SRVC.m_unLen x) (at_addr m (EXEC_RSP_SRVC.p_pRspData x)) s
          else Some s
      | Some (s, _) \<Rightarrow> Some s)"

section \<open>The objects of a received APDU\<close>

fun dmap_dispatch :: "dmap_env \<Rightarrow> mem \<Rightarrow> APDU_IDTF \<Rightarrow> ASL_SRVC \<Rightarrow> dmap_state \<Rightarrow> dmap_state option" where
  "dmap_dispatch env m idtf (ReadReq x) s = DMAP_processReadRequest env x idtf s"
| "dmap_dispatch env m idtf (WriteReq x) s = DMAP_processWriteRequest env m x idtf s"
| "dmap_dispatch env m idtf (ExecReq x) s = DMAP_processExecuteRequest env m x idtf s"
| "dmap_dispatch env m idtf (ReadRsp x) s = DMAP_processReadResponse env m x idtf s"
| "dmap_dispatch env m idtf (ExecRsp x) s = DMAP_processExecuteResponse env m x idtf s"
| "dmap_dispatch env m idtf (AlertAck x) s = Some (on_armo (ARMO_ProcessAlertAck (m_ucAlertID x)) s)"
| "dmap_dispatch env m idtf x s = Some s"

definition bbr_request :: "dmap_state \<Rightarrow> bool" where
  "bbr_request s = g_nRequestForLinuxBbr (asl_state.g_stNlme (asl_of s))"

definition clear_bbr_request :: "dmap_state \<Rightarrow> dmap_state" where
  "clear_bbr_request = on_dmo (in_nlme (\<lambda>n. n\<lparr>g_nRequestForLinuxBbr := False\<rparr>))"

text \<open>
  The loop over the objects, of \<^verbatim>\<open>DMAP_Task\<close> and, with \<open>sniff\<close>, of \<^verbatim>\<open>DMAP_BBR_Sniffer\<close>, which asks of every object whether it was a request
  for the backbone router. An answer decrypts its keys in place, within its own data, which no later object reads.
\<close>

function dmap_objects :: "bool \<Rightarrow> dmap_env \<Rightarrow> mem \<Rightarrow> APDU_IDTF \<Rightarrow> nat \<Rightarrow> addr \<Rightarrow> u16 \<Rightarrow> bool \<Rightarrow> dmap_state \<Rightarrow> (dmap_state \<times> bool) option" where
  "dmap_objects sniff env m idtf i p n flag s =
     (case ASLSRVC_GetGenericObject (g_bNativePublish (asl_of s)) m p n (local_unions env i) (Some (m_aucAddr idtf)) (dp_aslmo s) of
        Some (Some (t, Some x), Some q, z) \<Rightarrow>
          (case dmap_dispatch env m idtf x ((if sniff then clear_bbr_request s else s)\<lparr>dp_aslmo := z\<rparr>) of
             None \<Rightarrow> None
           | Some s \<Rightarrow> dmap_objects sniff env m idtf (Suc i) q (n - word_of_nat (q - p)) (flag \<and> bbr_request s) s)
      | Some (_, _, z) \<Rightarrow> Some (s\<lparr>dp_aslmo := z\<rparr>, flag)
      | None \<Rightarrow> None)"
  by pat_completeness auto

termination dmap_objects
  by (relation "measure (\<lambda>(sniff, env, m, idtf, i, p, n, flag, s). unat n)")
    (auto simp del: of_nat_diff intro: GetGenericObject_shrinks)

declare dmap_objects.simps [simp del]

text \<open>The next APDU for the device manager, when there is one.\<close>

definition process_apdu :: "dmap_env \<Rightarrow> dmap_state \<Rightarrow> dmap_state option" where
  "process_apdu env s =
     (case ASLDE_GetMyAPDUfromBuff UAP_DMAP_ID (asl_of s) of
        (a, None) \<Rightarrow> Some (on_asl (\<lambda>_. a) s)
      | (a, Some (idtf, data)) \<Rightarrow>
          map_option fst (dmap_objects False env (mem_of data) idtf 0 0 (m_unDataLen idtf) True (on_asl (\<lambda>_. a) s)))"

text \<open>\<open>recv\<close> is the call of \<^verbatim>\<open>RecvUDP\<close>, which may put an APDU into the queue.\<close>

definition DMAP_Task :: "dmap_env \<Rightarrow> (dmap_state \<Rightarrow> dmap_state) \<Rightarrow> dmap_state \<Rightarrow> dmap_state option" where
  "DMAP_Task env recv s =
     (case (if join_status s \<noteq> DEVICE_JOINED then DMAP_joinStateMachine env s else Some s) of
        None \<Rightarrow> None
      | Some s \<Rightarrow>
          (case process_apdu env (recv s) of
             None \<Rightarrow> None
           | Some s \<Rightarrow> if join_status s = DEVICE_JOINED then map_option (\<lambda>a. on_armo (\<lambda>_. a) s) (ARMO_Task (dp_env env) (dp_armo s)) else Some s))"

partial_function (option) sniff_apdus :: "dmap_env \<Rightarrow> nat \<Rightarrow> bool \<Rightarrow> dmap_state \<Rightarrow> (dmap_state \<times> nat \<times> bool) option" where
  "sniff_apdus env nMsg nLastMsgRet s =
     (case ASLDE_GetMyAPDUfromBuff UAP_DMAP_ID (asl_of s) of
        (a, None) \<Rightarrow> Some (on_asl (\<lambda>_. a) s, nMsg, nLastMsgRet)
      | (a, Some (idtf, data)) \<Rightarrow>
          (case dmap_objects True env (mem_of data) idtf 0 0 (m_unDataLen idtf) True (on_asl (\<lambda>_. a) s) of
             None \<Rightarrow> None
           | Some (s, flag) \<Rightarrow> sniff_apdus env (Suc nMsg) flag s))"

definition DMAP_BBR_Sniffer :: "dmap_env \<Rightarrow> dmap_state \<Rightarrow> (dmap_state \<times> bool) option" where
  "DMAP_BBR_Sniffer env s = map_option (\<lambda>(s, nMsg, nLastMsgRet). (s, nMsg = 1 \<and> nLastMsgRet)) (sniff_apdus env 0 False s)"

section \<open>Every second\<close>

text \<open>The retry time is cut to 8 bits before it is multiplied with the number of retries.\<close>

definition retry_timeout :: "dmap_state \<Rightarrow> u8" where
  "retry_timeout s = (case NLME_FindContract (manager_contract s) (asl_state.g_stNlme (asl_of s)) of
     Some c \<Rightarrow> word_of_int (m_nRTO c) | None \<Rightarrow> ucast (m_unMaxRetryToutInterval (dmo_attrs s)))"

definition probe_due :: "dmap_state \<Rightarrow> bool" where
  "probe_due s \<longleftrightarrow> unat (g_ucSMLinkTimeout (asl_of s)) \<le> unat (m_ucMaxClntSrvRetries (dmo_attrs s)) * unat (retry_timeout s)
     \<and> g_ucLinkProbed (asl_of s) = 0"

text \<open>The request that keeps the link alive. Its indices are not written and, without an index, not sent.\<close>

definition probe_link :: "dmap_env \<Rightarrow> dmap_state \<Rightarrow> dmap_state" where
  "probe_link env s =
     (let (s, r) = add_object env (local_mem env) 3 UAP_DMAP_ID UAP_SMAP_ID (manager_contract s)
            (ReadReq (READ_REQ_SRVC.make DMAP_DMO_OBJ_ID SM_STSO_OBJ_ID 0 (attribute STSO_CTR_UTC_OFFSET))) s
      in if r = SFC_SUCCESS then on_asl (\<lambda>a. a\<lparr>g_ucLinkProbed := 1\<rparr>) s else s)"

definition DMAP_DMO_CheckSMLink :: "dmap_env \<Rightarrow> dmap_state \<Rightarrow> dmap_state" where
  "DMAP_DMO_CheckSMLink env s =
     (if join_status s \<noteq> DEVICE_JOINED then s
      else if g_ucSMLinkTimeout (asl_of s) \<noteq> 0 then
        let s = (if probe_due s then probe_link env s else s)
        in on_asl (\<lambda>a. a\<lparr>g_ucSMLinkTimeout := g_ucSMLinkTimeout a - 1\<rparr>) s
      else on_asl (\<lambda>a. a\<lparr>g_ucSMLinkTimeout := g_ucSMLinkTimeoutConf (asl_cfg (slme_env_of env))\<rparr>) (DMAP_ResetStack env s))"

text \<open>\<^verbatim>\<open>DMO_PerformOneSecondTasks\<close> with the restart carried out where the code calls it; the reset to factory defaults does nothing here.\<close>

definition one_second_tasks :: "dmap_env \<Rightarrow> dmap_state \<Rightarrow> dmap_state option" where
  "one_second_tasks env s =
     (let s = on_dmo (one_second_counters (dmo_env_of env)) s;
          cmd = m_ucJoinCommand (dmo_attrs s);
          s = (if cmd = 4 \<or> cmd = 3 \<or> cmd = 2 then DMAP_ResetStack env s else s)
      in if join_status s = DEVICE_JOINED then with_dmo env DMO_checkPowerStatusAlert s else Some s)"

definition DMAP_CheckSecondCounter :: "dmap_env \<Rightarrow> dmap_state \<Rightarrow> dmap_state option" where
  "DMAP_CheckSecondCounter env s =
     (let s = (if g_stJoinRetryCntrl s \<noteq> 0 then s\<lparr>g_stJoinRetryCntrl := g_stJoinRetryCntrl s - 1\<rparr> else s)
      in one_second_tasks env (DMAP_DMO_CheckSMLink env s))"

end
