(* ===== verification/Dmap_Keys.thy ===== *)
theory Dmap_Keys
  imports Dmap_Join Armo_Reports
begin

text \<open>
  The answer of the security manager: what it changes and when, and that device and security manager end up with the same keys.
\<close>

unbundle bit_operations_syntax

section \<open>What an answer to the security join request does\<close>

definition join_ready :: "dmap_env \<Rightarrow> dmap_state \<Rightarrow> bool" where
  "join_ready env s \<longleftrightarrow> length (join_key s) = 16 \<and> length (g_aulNewNodeChallenge s) = 4 \<and> length (device_eui env) = 8 \<and> length (manager_eui env) = 8"

lemma length_challenge: "length (g_aulNewNodeChallenge s) = 4 \<Longrightarrow> length (challenge s) = 16"
  by (auto simp: challenge_def native_u32_def length_Suc_conv numeral_eq_Suc)

lemma length_hmac [simp]: "length (hmac E key msg) = 16"
  by (simp add: hmac_def)

lemma length_join_hash_input: "join_ready env s \<Longrightarrow> length (join_hash_input env rsp s) = MAX_HMAC_INPUT_SIZE"
  by (simp add: join_hash_input_def join_ready_def length_challenge)

lemma checkSec_eq:
  assumes "join_ready env s"
  shows "DMO_checkSecJoinResponse env sfc len rsp s =
    (if sfc = SFC_VALUE_LIMITED then Some (s\<lparr>g_stJoinRetryCntrl := 0\<rparr>)
     else if sfc = SFC_SUCCESS \<and> SEC_JOIN_RESP_SIZE \<le> unat len
          \<and> mem_bytes rsp 16 16 = hmac (cipher_of env) (join_key s) (join_hash_input env rsp s)
     then install_join_keys env (mem_write (mem_of (join_hash_input env rsp s)) 0 (hmac (cipher_of env) (join_key s) (join_hash_input env rsp s))) rsp s
     else Some s)"
  using assms length_join_hash_input [OF assms, of rsp]
  by (auto simp: DMO_checkSecJoinResponse_def join_ready_def Keyed_Hash_runs)

definition join_master :: "dmap_env \<Rightarrow> mem \<Rightarrow> dmap_state \<Rightarrow> u8 list" where
  "join_master env rsp s = hmac (cipher_of env) (join_key s) (challenge s @ mem_bytes rsp 0 16 @ device_eui env @ manager_eui env)"

lemma identifiers_left:
  assumes "join_ready env s" and "length h = 16"
  shows "mem_bytes (mem_write (mem_write (mem_write (mem_of (join_hash_input env rsp s)) 0 h) 0 (challenge s)) 16 (mem_bytes rsp 0 16)) 0 48 =
    challenge s @ mem_bytes rsp 0 16 @ device_eui env @ manager_eui env"
proof -
  let ?i = "join_hash_input env rsp s"
  let ?m = "mem_write (mem_write (mem_write (mem_of ?i) 0 h) 0 (challenge s)) 16 (mem_bytes rsp 0 16)"
  note l = assms(1) [unfolded join_ready_def] length_challenge [of s]
  have "holds (mem_of ?i) 32 (device_eui env @ manager_eui env)"
    using holds_mem_of [of ?i] l by (simp add: join_hash_input_def)
  then have "mem_bytes (mem_of ?i) 32 16 = device_eui env @ manager_eui env" using l by (simp add: holds_iff_mem_bytes mem_bytes_add [of _ 32 8 8, simplified])
  moreover have "mem_bytes ?m 32 16 = mem_bytes (mem_of ?i) 32 16" using l assms(2) by (simp add: mem_bytes_write_other)
  moreover have "mem_bytes ?m 0 16 = challenge s" using l by (simp add: mem_bytes_write_other)
  moreover have "mem_bytes ?m 16 16 = mem_bytes rsp 0 16" by simp
  moreover have "mem_bytes ?m 0 48 = mem_bytes ?m 0 16 @ mem_bytes ?m 16 16 @ mem_bytes ?m 32 16"
    using mem_bytes_add [of ?m 0 16 32] mem_bytes_add [of ?m 16 16 16] by simp
  ultimately show ?thesis by simp
qed

lemma ucast_u16_eq_0: "(ucast (w :: u16) :: u32) = 0 \<longleftrightarrow> w = 0"
  by transfer simp

lemma file_key_new:
  assumes "SLME_FindKeyCatIt peer sport dport (m_ucUsage new) x = None" and "unat (g_nSLMEKeysNo x) < MAX_SLME_KEYS_NO"
    and "m_ucUsage new = SLM_KEY_USAGE_SESSION \<Longrightarrow> peer \<noteq> None"
  shows "file_key peer sport dport new x = Some (x\<lparr>g_oSlmeKeysCatMap := put_cat (key_category peer sport dport (m_ucUsage new)) [new] (g_oSlmeKeysCatMap x),
    g_nSLMEKeysNo := g_nSLMEKeysNo x + 1, g_unRenewTimeout := 0\<rparr>, SFC_SUCCESS)"
  using assms by (auto simp: file_key_def SLME_DeleteKey_def SLME_InsertKeyCat_def Let_def)

definition no_keys :: "slme_state \<Rightarrow> bool" where
  "no_keys x \<longleftrightarrow> g_oSlmeKeysCatMap x = [] \<and> g_nSLMEKeysNo x = 0"

text \<open>The two keys of the answer in the clear, and the keys that are filed.\<close>

definition answer_keys :: "dmap_env \<Rightarrow> mem \<Rightarrow> dmap_state \<Rightarrow> u8 list" where
  "answer_keys env rsp s = ccm_crypt (cipher_of env) (join_master env rsp s) (take 13 (challenge s)) (mem_bytes rsp 39 32)"

definition filed_master :: "dmap_env \<Rightarrow> mem \<Rightarrow> dmap_state \<Rightarrow> SLME_KEY" where
  "filed_master env rsp s = new_slme_key (tai_now env) None ISA100_DMAP_PORT ISA100_DMAP_PORT 0 (join_master env rsp s) (Some (manager_eui env)) 0 0 0
     SLM_KEY_USAGE_MASTER 0"

definition filed_session :: "dmap_env \<Rightarrow> mem \<Rightarrow> dmap_state \<Rightarrow> SLME_KEY" where
  "filed_session env rsp s = new_slme_key (tai_now env) (Some (manager_address s)) ISA100_DMAP_PORT ISA100_SMAP_PORT 0 (drop 16 (answer_keys env rsp s)) None 0
     (ucast (u16_at rsp 36) * 1800) (ucast (u16_at rsp 36) * 1800 * 2) SLM_KEY_USAGE_SESSION 0"

definition with_join_keys :: "dmap_env \<Rightarrow> mem \<Rightarrow> dmap_state \<Rightarrow> slme_state" where
  "with_join_keys env rsp s = (slme_of s)\<lparr>g_oSlmeKeysCatMap :=
     put_cat (KeyCat ISA100_SMAP_PORT ISA100_DMAP_PORT (manager_address s)) [filed_session env rsp s] [(zero_cat, [filed_master env rsp s])],
     g_nSLMEKeysNo := 2, g_unRenewTimeout := 0\<rparr>"

lemma length_answer_keys [simp]: "length (answer_keys env rsp s) = 32"
  by (simp add: answer_keys_def)

lemma filed_fields [simp]:
  "m_ucUsage (filed_master env rsp s) = SLM_KEY_USAGE_MASTER" "m_ucUsage (filed_session env rsp s) = SLM_KEY_USAGE_SESSION"
  "m_ucKeyID (filed_master env rsp s) = 0" "m_ulValidNotBefore (filed_session env rsp s) = 0"
  "SLME_KEY.m_aKey (filed_master env rsp s) = join_master env rsp s" "SLME_KEY.m_aKey (filed_session env rsp s) = drop 16 (answer_keys env rsp s)"
  by (simp_all add: filed_master_def filed_session_def new_slme_key_def Let_def)

lemma install_eq:
  assumes "join_ready env s" and "length h = 16" and "no_keys (slme_of s)"
    and "u16_at rsp 36 \<noteq> 0 \<or> drop 16 (answer_keys env rsp s) \<noteq> replicate 16 0"
  shows "install_join_keys env (mem_write (mem_of (join_hash_input env rsp s)) 0 h) rsp s =
    Some (set_join_status DEVICE_SEND_SM_JOIN_REQ (on_slme (\<lambda>_. with_join_keys env rsp s) (s\<lparr>g_aucSecMngChallenge := mem_bytes rsp 0 16\<rparr>)))"
proof -
  let ?s = "s\<lparr>g_aucSecMngChallenge := mem_bytes rsp 0 16\<rparr>"
  let ?m = "mem_write (mem_write (mem_write (mem_of (join_hash_input env rsp s)) 0 h) 0 (challenge s)) 16 (mem_bytes rsp 0 16)"
  have c: "challenge ?s = challenge s" by (simp add: challenge_def)
  have key: "length (join_key s) = 16" and chal: "length (challenge s) = 16" using assms(1) by (simp_all add: join_ready_def length_challenge)
  have hash: "Keyed_Hash_MAC (cipher_of env) (join_key s) (local_mem env) ?m 0 48 = Some (mem_write ?m 0 (join_master env rsp s), SFC_SUCCESS)"
    using identifiers_left [OF assms(1,2), of rsp] by (simp add: Keyed_Hash_runs [OF key] join_master_def)
  have master: "mem_bytes (mem_write ?m 0 (join_master env rsp s)) 0 16 = join_master env rsp s" by (simp add: join_master_def)
  have "ccm_fits (take 13 (challenge s)) [] (length (mem_bytes rsp 39 32))"
    using chal by (simp add: ccm_fits_def buffer_size_def ROUND_UP_TO_MUL_16_def)
  then obtain c' where dec: "AES_Decrypt_User_NoMIC (cipher_of env) (join_master env rsp s) (take 13 (challenge s)) [] (mem_bytes rsp 39 32) ccm =
      Some (c', AES_SUCCESS, answer_keys env rsp s)"
    using nomic_opens [of ccm "mem_bytes rsp 39 32" "take 13 (challenge s)" "[]" "cipher_of env" "join_master env rsp s"] ccm_is_ready
    by (auto simp: answer_keys_def ccm_ready_def mem_bytes_def)
  define x where "x = (slme_of s)\<lparr>g_oSlmeKeysCatMap := [(zero_cat, [filed_master env rsp s])], g_nSLMEKeysNo := 1, g_unRenewTimeout := 0\<rparr>"
  have m1: "SLME_SetKey (tai_now env) None ISA100_DMAP_PORT ISA100_DMAP_PORT 0 (join_master env rsp s) (Some (manager_eui env)) 0 0 0 SLM_KEY_USAGE_MASTER 0
      (slme_of s) = Some (x, SFC_SUCCESS)"
    using assms(3) file_key_new [of None ISA100_DMAP_PORT ISA100_DMAP_PORT "filed_master env rsp s" "slme_of s"]
    by (simp add: SLME_SetKey_def filed_master_def [symmetric] SLME_FindKeyCatIt_def no_keys_def key_category_def x_def)
  have "SLME_SetKey (tai_now env) (Some (manager_address s)) ISA100_DMAP_PORT ISA100_SMAP_PORT 0 (drop 16 (answer_keys env rsp s)) None 0
      (ucast (u16_at rsp 36) * 1800) (ucast (u16_at rsp 36) * 1800 * 2) SLM_KEY_USAGE_SESSION 0 x =
      file_key (Some (manager_address s)) ISA100_DMAP_PORT ISA100_SMAP_PORT (filed_session env rsp s) x"
    by (simp only: SLME_SetKey_def filed_session_def)
  also have "\<dots> = Some (with_join_keys env rsp s, SFC_SUCCESS)"
    using file_key_new [of "Some (manager_address s)" ISA100_DMAP_PORT ISA100_SMAP_PORT "filed_session env rsp s" x]
    by (simp add: SLME_FindKeyCatIt_def key_category_def x_def zero_cat_def with_join_keys_def del: put_cat.simps)
  finally have m2: "SLME_SetKey (tai_now env) (Some (manager_address s)) ISA100_DMAP_PORT ISA100_SMAP_PORT 0 (drop 16 (answer_keys env rsp s)) None 0
      (ucast (u16_at rsp 36) * 1800) (ucast (u16_at rsp 36) * 1800 * 2) SLM_KEY_USAGE_SESSION 0 x = Some (with_join_keys env rsp s, SFC_SUCCESS)" .
  have "(ucast (u16_at rsp 36) :: u32) \<noteq> 0 \<longleftrightarrow> u16_at rsp 36 \<noteq> 0"
    by (simp add: ucast_u16_eq_0)
  then show ?thesis
    using hash master dec m1 m2 assms(4) by (simp add: install_join_keys_def c Let_def)
qed

section \<open>The security manager's side\<close>

text \<open>
  The answer a security manager gives that knows the join key: its challenge, the keyed hash, the policies of the two keys, the
  identifier of the first one and both keys, encrypted with the master key that follows from the two challenges.
\<close>

definition agreed_master :: "dmap_env \<Rightarrow> u8 list \<Rightarrow> dmap_state \<Rightarrow> u8 list" where
  "agreed_master env chal s = hmac (cipher_of env) (join_key s) (challenge s @ chal @ device_eui env @ manager_eui env)"

definition sealed_keys :: "dmap_env \<Rightarrow> u8 list \<Rightarrow> u8 list \<Rightarrow> dmap_state \<Rightarrow> u8 list" where
  "sealed_keys env chal ks s = ccm_crypt (cipher_of env) (agreed_master env chal s) (take 13 (challenge s)) ks"

definition security_answer :: "dmap_env \<Rightarrow> u8 list \<Rightarrow> u8 list \<Rightarrow> u8 \<Rightarrow> u8 list \<Rightarrow> dmap_state \<Rightarrow> u8 list" where
  "security_answer env chal policies kid ks s =
     chal @ hmac (cipher_of env) (join_key s) (chal @ challenge s @ device_eui env @ manager_eui env @ policies @ sealed_keys env chal ks s)
     @ policies @ [kid] @ sealed_keys env chal ks s"

definition key_lifetime :: "u8 list \<Rightarrow> u16" where
  "key_lifetime policies = push_bit 8 (ucast (policies ! 4)) OR ucast (policies ! 5)"

lemma answer_fields:
  assumes "holds rsp 0 (security_answer env chal policies kid ks s)" and "length chal = 16" "length policies = 6" "length ks = 32"
  shows "mem_bytes rsp 0 16 = chal" "mem_bytes rsp 32 6 = policies" "mem_bytes rsp 39 32 = sealed_keys env chal ks s"
    "mem_bytes rsp 16 16 = hmac (cipher_of env) (join_key s) (chal @ challenge s @ device_eui env @ manager_eui env @ policies @ sealed_keys env chal ks s)"
    "u16_at rsp 36 = key_lifetime policies"
proof -
  have length_sealed: "length (sealed_keys env chal ks s) = length ks" by (simp add: sealed_keys_def)
  have h: "holds rsp 0 chal" "holds rsp 32 policies" "holds rsp 39 (sealed_keys env chal ks s)"
    "holds rsp 16 (hmac (cipher_of env) (join_key s) (chal @ challenge s @ device_eui env @ manager_eui env @ policies @ sealed_keys env chal ks s))"
    using assms by (simp_all add: security_answer_def)
  show p: "mem_bytes rsp 0 16 = chal" "mem_bytes rsp 32 6 = policies" "mem_bytes rsp 39 32 = sealed_keys env chal ks s"
    "mem_bytes rsp 16 16 = hmac (cipher_of env) (join_key s) (chal @ challenge s @ device_eui env @ manager_eui env @ policies @ sealed_keys env chal ks s)"
    using h assms(2-4) by (simp_all add: holds_iff_mem_bytes length_sealed)
  have "rsp (32 + k) = policies ! k" if "k < 6" for k using that nth_mem_bytes [of k 6 rsp 32] by (simp add: p(2))
  from this [of 4] this [of 5] show "u16_at rsp 36 = key_lifetime policies" by (simp add: u16_at_def key_lifetime_def)
qed

lemma answer_accepted:
  assumes "join_ready env s" "no_keys (slme_of s)" "length chal = 16" "length policies = 6" "length ks = 32"
    and "key_lifetime policies \<noteq> 0 \<or> drop 16 ks \<noteq> replicate 16 0"
    and "holds rsp 0 (security_answer env chal policies kid ks s)" "SEC_JOIN_RESP_SIZE \<le> unat len"
  shows "DMO_checkSecJoinResponse env SFC_SUCCESS len rsp s =
      Some (set_join_status DEVICE_SEND_SM_JOIN_REQ (on_slme (\<lambda>_. with_join_keys env rsp s) (s\<lparr>g_aucSecMngChallenge := chal\<rparr>)))"
    and "answer_keys env rsp s = ks" and "join_master env rsp s = agreed_master env chal s"
proof -
  note f = answer_fields [OF assms(7,3,4,5)]
  show m: "join_master env rsp s = agreed_master env chal s" by (simp add: join_master_def agreed_master_def f)
  then show k: "answer_keys env rsp s = ks" by (simp add: answer_keys_def f(3)) (simp add: sealed_keys_def)
  have "mem_bytes rsp 16 16 = hmac (cipher_of env) (join_key s) (join_hash_input env rsp s)" by (simp add: f join_hash_input_def)
  then show "DMO_checkSecJoinResponse env SFC_SUCCESS len rsp s =
      Some (set_join_status DEVICE_SEND_SM_JOIN_REQ (on_slme (\<lambda>_. with_join_keys env rsp s) (s\<lparr>g_aucSecMngChallenge := chal\<rparr>)))"
    using assms(8) install_eq [OF assms(1) length_hmac assms(2), of rsp "cipher_of env" "join_key s" "join_hash_input env rsp s"] assms(6) k f(1,5)
    by (simp add: checkSec_eq [OF assms(1)])
qed

lemma zero_cat_other: "KeyCat ISA100_SMAP_PORT ISA100_DMAP_PORT a \<noteq> zero_cat"
  by (simp add: zero_cat_def)

lemma join_keys_found:
  "SLME_GetNonSessionKey 0 SLM_KEY_USAGE_MASTER (with_join_keys env rsp s) = Some (filed_master env rsp s)"
  "fst (SLME_FindTxKey (tai_now env) (Some (manager_address s)) ISA100_DMAP_PORT ISA100_SMAP_PORT (with_join_keys env rsp s)) = Some (filed_session env rsp s)"
  using zero_cat_other [of "manager_address s"]
  by (simp_all add: SLME_GetNonSessionKey_def SLME_FindKey_def SLME_FindTxKey_def SLME_FindKeyCatIt_def key_category_def with_join_keys_def has_id_def
      Let_def del: put_cat.simps)

section \<open>A device before it joins\<close>

definition blank_dpo :: DPO_STRUCT where
  "blank_dpo = DPO_STRUCT.make 0 0 0 0 0 0 0 0 0 (replicate 16 7) (replicate 8 0) 0 0 8"

definition joining_dmo :: "u8 \<Rightarrow> dmo_state" where
  "joining_dmo st = empty_dmo\<lparr>dmo_state.g_ucJoinStatus := st\<rparr>"

definition joining :: "u8 \<Rightarrow> u16 \<Rightarrow> dmap_state" where
  "joining st wait = dmap_state.make (armo_state.make (replicate 4 blank_category) 0 0 [] (joining_dmo st) []) sample_tlme sample_aslmo blank_dpo 0 wait
     (replicate 4 1) (replicate 16 0) []"

definition joining_env :: "u32 \<Rightarrow> dmap_env" where
  "joining_env now = dmap_env.make (armo_env.make (sample_dmo_env now) 0 [0, 0])
     \<lparr>dc_device_role = 4, c_aucModelID = replicate 16 32, c_aucSWRevInfo = replicate 16 32\<rparr> 1 2 3 1 (\<lambda>_. 0) 0 0
     (ALERT.make 0 0 0 0 0 0 0 0 0 0 0 0) (\<lambda>_. zero_union) zero_union"

lemma joining_simps [simp]:
  "dmo_of (joining st w) = joining_dmo st" "dp_aslmo (joining st w) = sample_aslmo" "g_stDPO (joining st w) = blank_dpo"
  "g_stJoinRetryCntrl (joining st w) = w" "g_aulNewNodeChallenge (joining st w) = replicate 4 1"
  "dmo_env_of (joining_env now) = sample_dmo_env now" "dmo_state.g_ucJoinStatus (joining_dmo st) = st"
  "dm_asl (joining_dmo st) = start_state" "dm_slme (joining_dmo st) = empty_slme" "dmo_state.g_stDMO (joining_dmo st) = blank_dmo"
  by (simp_all add: joining_def joining_env_def joining_dmo_def dmap_state.defs armo_state.defs dmap_env.defs armo_env.defs empty_dmo_def)

lemma joining_ready: "join_ready (joining_env now) (joining st w)"
  by (simp add: join_ready_def blank_dpo_def DPO_STRUCT.defs sample_dmo_env_def sample_env_def)

lemma joining_no_keys: "no_keys (slme_of (joining st w))"
  by (simp add: no_keys_def empty_slme_def SLME_Init_def)

section \<open>Properties\<close>


text \<open>The answer of the samples, and the device after it.\<close>

definition joining_answer :: "u32 \<Rightarrow> mem" where
  "joining_answer now = mem_of (security_answer (joining_env now) (replicate 16 9) [0, 0, 0, 0, 0, 1] 0 (replicate 16 5 @ replicate 16 6) (joining 4 16))"

lemma joining_answer_holds:
  "holds (joining_answer now) 0 (security_answer (joining_env now) (replicate 16 9) [0, 0, 0, 0, 0, 1] 0 (replicate 16 5 @ replicate 16 6) (joining 4 16))"
  by (simp add: joining_answer_def holds_mem_of)

lemma sample_lifetime: "key_lifetime [0, 0, 0, 0, 0, 1] = 1"
  by (simp add: key_lifetime_def)

lemma joining_accepted:
  "\<exists>s'. DMO_checkSecJoinResponse (joining_env now) SFC_SUCCESS 71 (joining_answer now) (joining 4 16) = Some s' \<and> join_status s' = 5"
  using answer_accepted(1) [OF joining_ready joining_no_keys _ _ _ _ joining_answer_holds, of 71] sample_lifetime
  by (simp add: set_join_status_def on_dmo_def)


text \<open>C5:
  Device and security manager agree on the keys. When a device without keys gets the answer of a security manager with the same join
  key, it accepts it, goes on to the join request, and then holds the master key that the security manager computed and, as the key
  for the system manager, the session key that the answer carried in encrypted form.
\<close>
theorem join_keys_agree:
  assumes "join_ready env s" "no_keys (slme_of s)" "length chal = 16" "length policies = 6" "length dll = 16" "length sess = 16"
    and "key_lifetime policies \<noteq> 0 \<or> sess \<noteq> replicate 16 0"
    and "holds rsp 0 (security_answer env chal policies kid (dll @ sess) s)" "SEC_JOIN_RESP_SIZE \<le> unat len"
  shows "\<exists>s' k1 k2. DMO_checkSecJoinResponse env SFC_SUCCESS len rsp s = Some s' \<and> join_status s' = DEVICE_SEND_SM_JOIN_REQ
    \<and> SLME_GetNonSessionKey 0 SLM_KEY_USAGE_MASTER (slme_of s') = Some k1 \<and> SLME_KEY.m_aKey k1 = agreed_master env chal s
    \<and> fst (SLME_FindTxKey (tai_now env) (Some (manager_address s)) ISA100_DMAP_PORT ISA100_SMAP_PORT (slme_of s')) = Some k2 \<and> SLME_KEY.m_aKey k2 = sess"
proof -
  let ?s = "set_join_status DEVICE_SEND_SM_JOIN_REQ (on_slme (\<lambda>_. with_join_keys env rsp s) (s\<lparr>g_aucSecMngChallenge := chal\<rparr>))"
  note a = answer_accepted [OF assms(1-4) _ _ assms(8,9)]
  have "slme_of ?s = with_join_keys env rsp s" "join_status ?s = DEVICE_SEND_SM_JOIN_REQ"
    by (simp_all add: set_join_status_def on_slme_def on_dmo_def)
  moreover have "SLME_KEY.m_aKey (filed_session env rsp s) = sess" "SLME_KEY.m_aKey (filed_master env rsp s) = agreed_master env chal s"
    using a(2,3) assms(5-7) by simp_all
  ultimately show ?thesis
    using a(1) assms(5-7) join_keys_found [where env = env and rsp = rsp and s = s]
    by (intro exI [of _ ?s] exI [of _ "filed_master env rsp s"] exI [of _ "filed_session env rsp s"]) simp
qed

theorem join_keys_agree_witness:
  "\<exists>s' k1 k2. DMO_checkSecJoinResponse (joining_env 1000) SFC_SUCCESS 71 (joining_answer 1000) (joining 4 16) = Some s' \<and> join_status s' = DEVICE_SEND_SM_JOIN_REQ
    \<and> SLME_GetNonSessionKey 0 SLM_KEY_USAGE_MASTER (slme_of s') = Some k1
    \<and> SLME_KEY.m_aKey k1 = agreed_master (joining_env 1000) (replicate 16 9) (joining 4 16)
    \<and> fst (SLME_FindTxKey 1000 (Some (manager_address (joining 4 16))) ISA100_DMAP_PORT ISA100_SMAP_PORT (slme_of s')) = Some k2
    \<and> SLME_KEY.m_aKey k2 = replicate 16 6"
  using join_keys_agree [OF joining_ready joining_no_keys _ _ _ _ _ joining_answer_holds, of 71] sample_lifetime
  by (simp add: sample_dmo_env_def sample_env_def)

text \<open>
  The security join request proves that the device knows the join key. It has thirty octets, the identifier of the device, its new
  challenge, two constants and an authentication value, and a receiver that checks this value with the join key and the first thirteen
  octets of the challenge as nonce accepts it. Of the challenge only three quarters are new: the last word is the one of the challenge before.
\<close>
lemma join_request_verifiable:
  assumes "join_ready env s" and "DMO_generateSecJoinReqBuffer env s = (s', req)"
  shows "length req = 30 \<and> take 8 req = device_eui env \<and> take 16 (drop 8 req) = challenge s'
    \<and> fst (aes_decrypt (cipher_of env) (join_key s) (take 13 (challenge s')) (take 26 req) (drop 26 req)) = AES_SUCCESS
    \<and> g_aulNewNodeChallenge s' ! 3 = g_aulNewNodeChallenge s ! 3"
proof -
  define c where "c = challenge s'"
  have s': "s' = s\<lparr>g_aulNewNodeChallenge := (g_aulNewNodeChallenge s)[0 := random_long env, 1 := rand_long env, 2 := tai_now env]\<rparr>"
    using assms(2) by (simp add: DMO_generateSecJoinReqBuffer_def Let_def)
  have len: "length c = 16" "length (device_eui env) = 8" "length (join_key s) = 16"
    using assms(1) length_challenge [of s'] by (simp_all add: c_def s' join_ready_def)
  let ?head = "device_eui env @ c @ [0x00, 0x01]"
  have fits: "ccm_fits (take 13 c) ?head (length ([] :: u8 list))"
    using len by (simp add: ccm_fits_def buffer_size_def ROUND_UP_TO_MUL_16_def)
  let ?mic = "ccm_seal (cipher_of env) 4 (join_key s) (take 13 c) ?head []"
  have mic: "length ?mic = 4" by (simp add: length_ccm_seal)
  have "join_key s' = join_key s" by (simp add: s')
  then have req: "req = ?head @ ?mic"
    using assms(2) aes_crypt_seal [OF fits, of "cipher_of env" "join_key s"] mic
    by (simp add: DMO_generateSecJoinReqBuffer_def Let_def c_def s')
  then have p: "take 26 req = ?head" "drop 26 req = ?mic" "length req = 30" using len mic by simp_all
  have "fst (aes_decrypt (cipher_of env) (join_key s) (take 13 c) ?head ?mic) = AES_SUCCESS"
    using aes_decrypt_crypt [OF fits, of "cipher_of env" "join_key s"] by simp
  then show ?thesis using p req len by (simp add: c_def [symmetric]) (simp add: s')
qed

theorem join_request_verifiable_witness:
  "length (snd (DMO_generateSecJoinReqBuffer (joining_env 1000) (joining 0 0))) = 30"
  using join_request_verifiable [OF joining_ready, of 1000 0 0 "fst (DMO_generateSecJoinReqBuffer (joining_env 1000) (joining 0 0))"
      "snd (DMO_generateSecJoinReqBuffer (joining_env 1000) (joining 0 0))"] by simp

end
