(* ===== verification/Dmap_Order.thy ===== *)
theory Dmap_Order
  imports Dmap_Task Dmap_Keys "HOL-Library.Sublist"
begin

text \<open>
  The order of the join. Every handler of the device manager application process either leaves the join status alone or takes one of the
  few steps of the state machine; the objects of a received APDU can take one such step, and one run of the task two.
\<close>

unbundle bit_operations_syntax

section \<open>What the other objects leave alone\<close>

text \<open>The join status and the keys.\<close>

abbreviation (input) status_of :: "dmo_state \<Rightarrow> u8 \<times> slme_state" where
  "status_of d \<equiv> (dmo_state.g_ucJoinStatus d, dm_slme d)"

lemma write_attr_keeps:
  assumes "DMAP_WriteAttr attr len m p s tbl = Written sfc s'"
    and "list_all (\<lambda>x. \<forall>w s m p s'. m_pWriteFct x = Some w \<longrightarrow> w s m p = Some s' \<longrightarrow> f s' = f s) tbl"
  shows "f s' = f s"
  using assms by (auto simp: DMAP_WriteAttr_def list_all_length not_le split: if_splits option.splits)

lemma tell_status [simp]: "dmo_state.g_ucJoinStatus (tell es d) = dmo_state.g_ucJoinStatus d" "dm_slme (tell es d) = dm_slme d"
  by (simp_all add: tell_def)

lemma in_nlme_status [simp]: "dmo_state.g_ucJoinStatus (in_nlme f d) = dmo_state.g_ucJoinStatus d" "dm_slme (in_nlme f d) = dm_slme d"
  by (simp_all add: in_nlme_def)

lemma in_dmo_status [simp]: "dmo_state.g_ucJoinStatus (in_dmo f d) = dmo_state.g_ucJoinStatus d" "dm_slme (in_dmo f d) = dm_slme d"
  by (simp_all add: in_dmo_def)

lemma write_dmo_status: "DMO_Write env k attr len m p d = Written sfc d' \<Longrightarrow> status_of d' = status_of d"
  unfolding DMO_Write_def by (erule write_attr_keeps) (auto simp: c_aDMOFct_def row_defs)

lemma search_status: "DMO_IsPendingContractRequest env st dst dport sport srv want d = Some (d', r) \<Longrightarrow> status_of d' = status_of d"
  by (auto simp: DMO_IsPendingContractRequest_def Let_def split: scan_result.splits if_splits option.splits)

lemma send_status: "DMO_sendContractRequest env k c t d = (d', r) \<Longrightarrow> status_of d' = status_of d"
  by (auto dest!: send_frame)

lemma new_contract_status:
  assumes "DMO_RequestNewContract env dst dport sport life srv prio maxSize rel bw d = Some (d', sfc, r)"
  shows "status_of d' = status_of d"
proof (cases "DMO_GetContract dst dport sport srv d")
  case None
  then obtain d1 p q where d1: "DMO_IsPendingContractRequest env CONTRACT_PENDING dst dport sport srv True d = Some (d1, p, q)"
    using assms by (auto simp: DMO_RequestNewContract_def split: option.splits)
  then have "status_of d1 = status_of d" by (rule search_status)
  moreover have "status_of d' = status_of d1"
    using assms None d1 by (auto simp: DMO_RequestNewContract_def Let_def dest!: send_status split: option.splits if_splits prod.splits)
  ultimately show ?thesis by simp
next
  case (Some c)
  then show ?thesis using assms by (auto simp: DMO_RequestNewContract_def)
qed

lemma release_status [simp]:
  "dmo_state.g_ucJoinStatus (release_one env k c d) = dmo_state.g_ucJoinStatus d" "dm_slme (release_one env k c d) = dm_slme d"
proof -
  let ?c = "c\<lparr>DMO_CONTRACT_ATTRIBUTE.m_ucContractStatus := CONTRACT_PENDING\<rparr>"
  let ?d = "d\<lparr>g_ucContractRspPending := g_ucContractRspPending d - 1, g_oPendingContractRspMap := map_put k ?c (g_oPendingContractRspMap d)\<rparr>"
  obtain d' r where "DMO_sendContractRequest env k ?c CONTRACT_REQ_TYPE_NEW ?d = (d', r)" by fastforce
  then show "dmo_state.g_ucJoinStatus (release_one env k c d) = dmo_state.g_ucJoinStatus d" "dm_slme (release_one env k c d) = dm_slme d"
    using send_status [of env k ?c CONTRACT_REQ_TYPE_NEW ?d] by (simp_all add: release_one_def)
qed

lemma key_added_status: "key_added_loop env peer sport dport d = Some d' \<Longrightarrow> status_of d' = status_of d"
  by (rule key_added_loop.raw_induct [where P = "\<lambda>env peer sport dport d d'. status_of d' = status_of d"])
    (auto dest!: search_status split: option.splits)

lemma notify_keys_status: "notify_new_keys env ks d = Some d' \<Longrightarrow> status_of d' = status_of d"
  by (induction env ks d rule: notify_new_keys.induct)
    (auto simp: DMO_NotifyNewKeyAdded_def dest: key_added_status split: option.splits if_splits)

lemma delete_status: "status_of (fst (DMO_deleteContract cid d)) = status_of d"
  by (simp add: DMO_deleteContract_def split: option.splits)

lemma execute_dmo_status: "DMO_Execute env meth len req d = (d', sfc) \<Longrightarrow> status_of d' = status_of d"
  using delete_status [of _ d]
  by (auto simp: DMO_Execute_def DMO_setContract_def Let_def split: if_splits option.splits) (metis fst_conv)+

lemma contract_response_status [simp]:
  "dmo_state.g_ucJoinStatus (DMO_ProcessContractResponse env req0 sfc rsp d) = dmo_state.g_ucJoinStatus d"
  by (simp add: DMO_ProcessContractResponse_def Let_def split: option.splits)

lemma ack_dmo [simp]: "ar_dmo (ARMO_ProcessAlertAck i a) = ar_dmo a"
  by (simp add: ARMO_ProcessAlertAck_def Let_def)

lemma in_category_dmo [simp]: "ar_dmo (in_category i f a) = ar_dmo a"
  by (simp add: in_category_def)

lemma notify_dmo [simp]: "ar_dmo (ARMO_NotifyAddContract c a) = ar_dmo a"
  by (simp add: ARMO_NotifyAddContract_def)

lemma armo_init_dmo [simp]: "ar_dmo (ARMO_Init a) = ar_dmo a"
  by (simp add: ARMO_Init_def)

lemma add_alert_dmo: "ARMO_AddAlertToQueue env x m a = Some (a', r) \<Longrightarrow> ar_dmo a' = ar_dmo a"
  by (auto simp: ARMO_AddAlertToQueue_def ARMO_FwAlertToTR_def Let_def split: if_splits option.splits)

lemma execute_armo_dmo: "ARMO_Execute meth len req a = (a', r) \<Longrightarrow> ar_dmo a' = ar_dmo a"
  by (auto simp: ARMO_Execute_def set_recovery_def Let_def split: if_splits)

lemma write_armo_dmo: "ARMO_Write attr len m p a = Written sfc a' \<Longrightarrow> ar_dmo a' = ar_dmo a"
  unfolding ARMO_Write_def
  by (erule write_attr_keeps) (auto simp: c_aARMOFct_def armo_category_rows_def armo_recovery_row_def armo_row_def)

lemma report_status: "report_alert env c prio e a = (a', r) \<Longrightarrow> status_of (ar_dmo a') = status_of (ar_dmo a)"
  by (auto simp: report_alert_def split: prod.splits)

lemma recover_status [simp]:
  "dmo_state.g_ucJoinStatus (ar_dmo (recover_category env i a)) = dmo_state.g_ucJoinStatus (ar_dmo a)"
  "dm_slme (ar_dmo (recover_category env i a)) = dm_slme (ar_dmo a)"
  by (auto simp: recover_category_def ARMO_generateRecoveryEvent_def ARMO_recoverNextAlarm_def set_recovery_def Let_def
      dest!: report_status split: prod.splits if_splits option.splits)

lemma check_contract_status: "check_contract env i a = Some a' \<Longrightarrow> status_of (ar_dmo a') = status_of (ar_dmo a)"
  by (auto simp: check_contract_def ARMO_configureEndpoint_def Let_def dest!: new_contract_status split: if_splits option.splits)

lemma over_categories_keeps:
  assumes "over_categories f is s = Some s'" and "\<And>i s s'. f i s = Some s' \<Longrightarrow> g s' = g s"
  shows "g s' = g s"
  using assms(1) by (induction "is" arbitrary: s) (auto dest!: assms(2) split: option.splits)

lemma report_due_status: "report_due env q a = Some (q', a') \<Longrightarrow> status_of (ar_dmo a') = status_of (ar_dmo a)"
  by (induction env q a arbitrary: q' rule: report_due.induct)
    (auto simp: start_ack_timeout_def Let_def dest!: report_status split: option.splits if_splits prod.splits)

lemma armo_task_status:
  assumes "ARMO_Task env a = Some a'"
  shows "status_of (ar_dmo a') = status_of (ar_dmo a)"
proof -
  obtain b where b: "ARMO_checkAlarmContracts env a = Some b" using assms by (auto simp: ARMO_Task_def split: option.splits)
  then have "status_of (ar_dmo b) = status_of (ar_dmo a)"
    unfolding ARMO_checkAlarmContracts_def by (rule over_categories_keeps) (rule check_contract_status)
  moreover have "status_of (ar_dmo a') = status_of (ar_dmo b)"
    using assms b by (auto simp: ARMO_Task_def ARMO_checkRecoveryState_def start_ack_timeout_def dest!: report_due_status split: option.splits if_splits)
  ultimately show ?thesis by simp
qed

section \<open>The handlers\<close>

definition same_join :: "dmap_state \<Rightarrow> dmap_state \<Rightarrow> bool" where
  "same_join s s' \<longleftrightarrow> join_status s' = join_status s \<and> g_stJoinRetryCntrl s' = g_stJoinRetryCntrl s"

lemma on_simps [simp]:
  "dmo_of (on_dmo f s) = f (dmo_of s)" "dmo_of (on_armo g s) = ar_dmo (g (dp_armo s))"
  "g_stJoinRetryCntrl (on_dmo f s) = g_stJoinRetryCntrl s" "g_stJoinRetryCntrl (on_armo g s) = g_stJoinRetryCntrl s"
  "dp_armo (on_armo g s) = g (dp_armo s)"
  by (simp_all add: on_dmo_def on_armo_def)

lemma on_layers [simp]:
  "join_status (on_asl f s) = join_status s" "join_status (on_slme g s) = join_status s"
  "g_stJoinRetryCntrl (on_asl f s) = g_stJoinRetryCntrl s" "g_stJoinRetryCntrl (on_slme g s) = g_stJoinRetryCntrl s"
  by (simp_all add: on_asl_def on_slme_def)

lemma carry_out_same: "carry_out env es s = Some s' \<Longrightarrow> same_join s s'"
  by (induction env es s rule: carry_out.induct)
    (auto simp: same_join_def Let_def dest!: add_alert_dmo split: option.splits)

lemma with_dmo_same: "with_dmo env f s = Some s' \<Longrightarrow> dmo_state.g_ucJoinStatus (f (dmo_of s)) = join_status s \<Longrightarrow> same_join s s'"
  by (auto simp: with_dmo_def Let_def same_join_def dest!: carry_out_same)

lemma add_object_same: "add_object env m prio src dst cid x s = (s', r) \<Longrightarrow> same_join s s'"
  by (auto simp: add_object_def Let_def same_join_def split: prod.splits)

lemma respond_same: "same_join s s' \<Longrightarrow> same_join s (respond env bs idtf x s')"
  by (cases "add_object env (mem_write (local_mem env) 0 bs) 0 (APDU_IDTF.m_ucDstTSAPID idtf) (APDU_IDTF.m_ucSrcTSAPID idtf) (manager_contract s') x s'")
    (auto simp: respond_def same_join_def dest!: add_object_same)

lemma write_uap_same: "DMAP_WriteAttr attr len m p s (c_aUapMoAttributes env) = Written sfc s' \<Longrightarrow> same_join s s'"
  using write_attr_keeps [of attr len m p s "c_aUapMoAttributes env" sfc s' "\<lambda>s. (join_status s, g_stJoinRetryCntrl s)"]
  by (auto simp: same_join_def c_aUapMoAttributes_def dm_ro_def)

lemma set_attribute_same: "SetGenericAttribute env tsap obj attr m p len s = Some (s', sfc) \<Longrightarrow> same_join s s'"
  by (auto simp: SetGenericAttribute_def written_def same_join_def
      dest!: write_dmo_status write_armo_dmo write_uap_same split: if_splits write_result.splits prod.splits)

lemma get_attribute_same: "GetGenericAttribute env tsap obj idtf len s = Some (s', r) \<Longrightarrow> same_join s s'"
  by (auto simp: GetGenericAttribute_def attr_read_def same_join_def Let_def split: if_splits prod.splits option.splits)

lemma execute_method_same: "DMAP_ExecuteGenericMethod env tsap obj meth len req sfc s = Some (s', r) \<Longrightarrow> same_join s s'"
  by (auto simp: DMAP_ExecuteGenericMethod_def same_join_def
      dest!: execute_dmo_status execute_armo_dmo notify_keys_status split: if_splits prod.splits option.splits)

lemma requests_same:
  "DMAP_processReadRequest env x idtf s = Some s' \<Longrightarrow> same_join s s'"
  "DMAP_processWriteRequest env m y idtf s = Some s' \<Longrightarrow> same_join s s'"
  "DMAP_processExecuteRequest env m z idtf s = Some s' \<Longrightarrow> same_join s s'"
  by (auto simp: DMAP_processReadRequest_def DMAP_processWriteRequest_def DMAP_processExecuteRequest_def
      intro!: respond_same dest: get_attribute_same set_attribute_same execute_method_same)

lemma original_request_same: "original_request env rid src dst idtf s = Some (s', r) \<Longrightarrow> same_join s s'"
  by (auto simp: original_request_def same_join_def Let_def split: prod.splits option.splits)

lemma apply_time_same: "same_join s s' \<Longrightarrow> same_join s (apply_time attr len rsp s')"
  by (simp add: apply_time_def same_join_def)

lemma read_response_same: "DMAP_processReadResponse env m x idtf s = Some s' \<Longrightarrow> same_join s s'"
  by (auto simp: DMAP_processReadResponse_def intro!: apply_time_same dest!: original_request_same split: option.splits prod.splits ASL_SRVC.splits if_splits)

section \<open>The steps of the join\<close>

text \<open>The steps an answer can make, and the steps of the state machine.\<close>

definition answer_step :: "u8 \<Rightarrow> u8 \<Rightarrow> bool" where
  "answer_step st st' \<longleftrightarrow> st' = st \<or> (st, st') \<in> {(4, 5), (6, 7), (8, DEVICE_SEND_SEC_CONFIRM_REQ), (8, 0), (12, DEVICE_JOINED), (12, 0)}"

definition machine_step :: "u8 \<Rightarrow> u8 \<Rightarrow> bool" where
  "machine_step st st' \<longleftrightarrow> st' = st \<or> (st, st') \<in> {(0, 4), (4, 0), (5, 6), (6, 0), (7, 8), (8, 0), (DEVICE_SEND_SEC_CONFIRM_REQ, 12), (12, 0)}"

text \<open>No two steps of answers follow one another.\<close>

lemma answer_step_trans: "answer_step a b \<Longrightarrow> answer_step b c \<Longrightarrow> answer_step a c"
  by (auto simp: answer_step_def)

lemma set_join_status_simps [simp]:
  "join_status (set_join_status st s) = st" "g_stJoinRetryCntrl (set_join_status st s) = g_stJoinRetryCntrl s"
  by (simp_all add: set_join_status_def)

lemma reset_simps [simp]:
  "join_status (DMAP_ResetStack env s) = DEVICE_DISCOVERY" "g_stJoinRetryCntrl (DMAP_ResetStack env s) = g_stJoinRetryCntrl s"
  by (simp_all add: DMAP_ResetStack_def DMAP_Init_def DPO_Init_def DMO_Init_def Let_def)

definition answered :: "dmap_state \<Rightarrow> dmap_state \<Rightarrow> bool" where
  "answered s s' \<longleftrightarrow> answer_step (join_status s) (join_status s') \<and> g_stJoinRetryCntrl s' \<in> {g_stJoinRetryCntrl s, 0}"

lemma same_refl [simp]: "same_join s s"
  by (simp add: same_join_def)

lemma same_answered: "same_join s s' \<Longrightarrow> answered s s'"
  by (simp add: same_join_def answered_def answer_step_def)

lemma answered_trans: "answered a b \<Longrightarrow> answered b c \<Longrightarrow> answered a c"
  by (auto simp: answered_def intro: answer_step_trans)

lemma install_status:
  "install_join_keys env h rsp s = Some s' \<Longrightarrow> join_status s' = DEVICE_SEND_SM_JOIN_REQ \<and> g_stJoinRetryCntrl s' = g_stJoinRetryCntrl s"
  by (auto simp: install_join_keys_def Let_def split: option.splits if_splits)

lemma sec_answered:
  assumes "DMO_checkSecJoinResponse env sfc len rsp s = Some s'" and "join_status s = 4"
  shows "answered s s'"
  using assms by (auto simp: DMO_checkSecJoinResponse_def answered_def answer_step_def dest!: install_status split: if_splits option.splits)

lemma sm_answered: "join_status s = 6 \<Longrightarrow> answered s (DMO_checkSMJoinResponse sfc len rsp s)"
  by (auto simp: DMO_checkSMJoinResponse_def answered_def answer_step_def Let_def)

lemma contract_answered:
  assumes "join_status s = 8"
  shows "answered s (first_contract_answer env sfc len rsp s)"
proof -
  have "dmo_state.g_ucJoinStatus (DMO_ProcessFirstContract (dmo_env_of env) sfc len rsp (dmo_of s)) \<in> {8, DEVICE_SEND_SEC_CONFIRM_REQ}"
    using assms by (simp add: DMO_ProcessFirstContract_def Let_def split: prod.splits)
  then show ?thesis
    using assms by (auto simp: first_contract_answer_def NLMO_updateJoinSMIBS_def answered_def answer_step_def Let_def split: prod.splits)
qed

lemma status_answered: "join_status s = 12 \<Longrightarrow> answered s (DMAP_DMO_applyJoinStatus env sfc s)"
  by (simp add: DMAP_DMO_applyJoinStatus_def answered_def answer_step_def Let_def)

lemma response_answered:
  assumes "DMAP_processDMOResponse env obj meth req0 sfc len rsp s = Some s'"
  shows "answered s s'"
proof -
  have id: "answered s s" by (simp add: same_answered same_join_def)
  show ?thesis
    using assms id
    by (auto simp: DMAP_processDMOResponse_def Let_def sec_answered sm_answered contract_answered status_answered same_answered
        dest: with_dmo_same split: if_splits)
qed

lemma dispatch_answered:
  assumes "dmap_dispatch env m idtf x s = Some s'"
  shows "answered s s'"
proof (cases x)
  case (ExecRsp y)
  then obtain t r where t: "original_request env (SRVC_REQID.m_ucReqID y) (SRVC_OIDS.m_unSrcOID y) (SRVC_OIDS.m_unDstOID y) idtf s = Some (t, r)"
    using assms by (auto simp: DMAP_processExecuteResponse_def split: option.splits)
  then have 1: "answered s t" by (rule original_request_same [THEN same_answered])
  have "t = s' \<or> answered t s'"
    using assms ExecRsp t by (auto simp: DMAP_processExecuteResponse_def dest!: response_answered split: option.splits prod.splits ASL_SRVC.splits if_splits)
  with 1 show ?thesis using answered_trans by blast
qed (use assms in \<open>auto intro!: same_answered dest: requests_same read_response_same simp: same_join_def\<close>)

lemma clear_bbr_simps [simp]: "join_status (clear_bbr_request s) = join_status s" "g_stJoinRetryCntrl (clear_bbr_request s) = g_stJoinRetryCntrl s"
  by (simp_all add: clear_bbr_request_def)

lemma objects_answered: "dmap_objects sniff env m idtf i p n flag s = Some (s', b) \<Longrightarrow> answered s s'"
proof (induction sniff env m idtf i p n flag s rule: dmap_objects.induct)
  case (1 sniff env m idtf i p n flag s)
  let ?get = "ASLSRVC_GetGenericObject (g_bNativePublish (asl_of s)) m p n (local_unions env i) (Some (m_aucAddr idtf)) (dp_aslmo s)"
  have fin: "answered s (s\<lparr>dp_aslmo := z\<rparr>)" for z by (simp add: same_answered same_join_def)
  show ?case
  proof (cases "\<exists>t x q z. ?get = Some (Some (t, Some x), Some q, z)")
    case True
    then obtain t x q z where g: "?get = Some (Some (t, Some x), Some q, z)" by blast
    let ?s = "(if sniff then clear_bbr_request s else s)\<lparr>dp_aslmo := z\<rparr>"
    obtain u where u: "dmap_dispatch env m idtf x ?s = Some u"
      using "1.prems" g by (auto simp: dmap_objects.simps [of sniff env m idtf i p n flag s] split: option.splits)
    have "dmap_objects sniff env m idtf (Suc i) q (n - word_of_nat (q - p)) (flag \<and> bbr_request u) u = Some (s', b)"
      using "1.prems" g u by (simp add: dmap_objects.simps [of sniff env m idtf i p n flag s])
    then have "answered u s'" by (rule "1.IH" [OF g refl refl refl refl refl refl u])
    moreover have "answered s ?s" by (simp add: same_answered same_join_def)
    ultimately show ?thesis using dispatch_answered [OF u] answered_trans by blast
  next
    case False
    then show ?thesis using "1.prems" fin
      by (auto simp: dmap_objects.simps [of sniff env m idtf i p n flag s] split: option.splits prod.splits)
  qed
qed

definition machined :: "dmap_state \<Rightarrow> dmap_state \<Rightarrow> bool" where
  "machined s s' \<longleftrightarrow> machine_step (join_status s) (join_status s') \<and> g_stJoinRetryCntrl s' \<in> {g_stJoinRetryCntrl s, join_timeout}"

lemma sent_machined:
  assumes "send_join_request env m prio dst cid obj meth len s = r" and "machine_step (join_status s) st"
  shows "machined s (sent_or_again st r)"
proof (cases r)
  case (Pair u sfc)
  then have "join_status u = join_status s" "g_stJoinRetryCntrl u = g_stJoinRetryCntrl s"
    using add_object_same [OF assms(1) [unfolded send_join_request_def Pair]] by (simp_all add: same_join_def)
  then show ?thesis using assms(2) Pair by (simp add: sent_or_again_def await_answer_def machined_def) (simp add: machine_step_def)
qed

lemma prepare_same: "same_join s (NLMO_prepareJoinSMIBS env s)"
  by (simp add: NLMO_prepareJoinSMIBS_def same_join_def Let_def)

lemma start_machined:
  assumes "join_status s = 0" shows "machined s (DMAP_startJoin env (NLMO_prepareJoinSMIBS env s))"
  by (auto simp: DMAP_startJoin_def await_answer_def machined_def machine_step_def assms split: prod.splits)

lemma reset_machined: "machine_step (join_status s) 0 \<Longrightarrow> machined s (DMAP_ResetStack env s)"
  by (simp add: machined_def)

lemma machine_machined:
  assumes "DMAP_joinStateMachine env s = Some s'"
  shows "machined s s'"
proof -
  have id: "machined s s" by (simp add: machined_def machine_step_def)
  have steps: "machine_step 4 0" "machine_step 6 0" "machine_step 8 0" "machine_step 12 0" "machine_step 5 6" "machine_step 7 8" "machine_step 11 12"
    by (simp_all add: machine_step_def)
  show ?thesis
    using assms id steps
    by (auto simp: DMAP_joinStateMachine_def Let_def split: if_splits option.splits
        intro!: sent_machined [OF refl] start_machined reset_machined)
qed

section \<open>The task and the second\<close>

definition task_step :: "u8 \<Rightarrow> u8 \<Rightarrow> bool" where
  "task_step st st' \<longleftrightarrow> (\<exists>mid. machine_step st mid \<and> answer_step mid st')"

lemma apdu_answered: "process_apdu env s = Some s' \<Longrightarrow> answered s s'"
  by (auto simp: process_apdu_def same_answered same_join_def dest!: objects_answered split: prod.splits option.splits)
    (auto simp: answered_def)

lemma armo_task_same: "ARMO_Task (dp_env env) (dp_armo s) = Some a \<Longrightarrow> same_join s (on_armo (\<lambda>_. a) s)"
  by (auto simp: same_join_def dest: armo_task_status)

lemma task_ordered:
  assumes "DMAP_Task env recv s = Some s'" and "\<forall>x. same_join x (recv x)"
  shows "task_step (join_status s) (join_status s')"
    and "g_stJoinRetryCntrl s \<le> join_timeout \<Longrightarrow> g_stJoinRetryCntrl s' \<le> join_timeout"
proof -
  obtain t where t: "(if join_status s \<noteq> DEVICE_JOINED then DMAP_joinStateMachine env s else Some s) = Some t"
    using assms(1) unfolding DMAP_Task_def by (auto split: option.splits)
  then have m: "machined s t"
    using machine_machined [of env s t] by (auto simp: machined_def machine_step_def split: if_splits)
  obtain v where v: "process_apdu env (recv t) = Some v"
    using assms(1) t unfolding DMAP_Task_def by (simp split: option.splits)
  have "same_join v s'"
    using assms(1) t v by (auto simp: DMAP_Task_def dest: armo_task_same split: if_splits)
  moreover have "same_join t (recv t)" using assms(2) by blast
  ultimately have "answered t s'" using apdu_answered [OF v] by (blast intro: same_answered answered_trans)
  with m show "task_step (join_status s) (join_status s')"
    and "g_stJoinRetryCntrl s \<le> join_timeout \<Longrightarrow> g_stJoinRetryCntrl s' \<le> join_timeout"
    by (auto simp: machined_def answered_def task_step_def)
qed

lemma check_link_simps:
  "join_status (DMAP_DMO_CheckSMLink env s) \<in> {join_status s, 0}" "g_stJoinRetryCntrl (DMAP_DMO_CheckSMLink env s) = g_stJoinRetryCntrl s"
proof -
  obtain u r where u: "add_object env (local_mem env) 3 UAP_DMAP_ID UAP_SMAP_ID (manager_contract s)
      (ReadReq (READ_REQ_SRVC.make DMAP_DMO_OBJ_ID SM_STSO_OBJ_ID 0 (attribute STSO_CTR_UTC_OFFSET))) s = (u, r)" by fastforce
  then have "same_join s (probe_link env s)"
    using add_object_same [OF u] by (simp add: probe_link_def same_join_def)
  then show "join_status (DMAP_DMO_CheckSMLink env s) \<in> {join_status s, 0}" "g_stJoinRetryCntrl (DMAP_DMO_CheckSMLink env s) = g_stJoinRetryCntrl s"
    by (simp_all add: DMAP_DMO_CheckSMLink_def same_join_def Let_def)
qed

lemma one_second_simps:
  assumes "one_second_tasks env s = Some s'"
  shows "join_status s' \<in> {join_status s, 0}" "g_stJoinRetryCntrl s' = g_stJoinRetryCntrl s"
proof -
  define t where "t = on_dmo (one_second_counters (dmo_env_of env)) s"
  define u where "u = (if m_ucJoinCommand (dmo_attrs t) \<in> {4, 3, 2} then DMAP_ResetStack env t else t)"
  have "dmo_state.g_ucJoinStatus (DMO_checkPowerStatusAlert d) = dmo_state.g_ucJoinStatus d" for d by (simp add: DMO_checkPowerStatusAlert_def Let_def)
  then have "same_join u s'"
    using assms by (auto simp: one_second_tasks_def t_def [symmetric] u_def Let_def dest: with_dmo_same split: if_splits)
  moreover have "same_join s t"
    by (simp add: same_join_def t_def one_second_counters_def DMO_TimeoutContractReqs_def Let_def)
  ultimately show "join_status s' \<in> {join_status s, 0}" "g_stJoinRetryCntrl s' = g_stJoinRetryCntrl s"
    by (auto simp: same_join_def u_def split: if_splits)
qed

lemma second_ordered:
  assumes "DMAP_CheckSecondCounter env s = Some s'"
  shows "join_status s' \<in> {join_status s, 0}" "g_stJoinRetryCntrl s' = g_stJoinRetryCntrl s - (if g_stJoinRetryCntrl s = 0 then 0 else 1)"
proof -
  define t where "t = (if g_stJoinRetryCntrl s \<noteq> 0 then s\<lparr>g_stJoinRetryCntrl := g_stJoinRetryCntrl s - 1\<rparr> else s)"
  have "join_status t = join_status s" "g_stJoinRetryCntrl t = g_stJoinRetryCntrl s - (if g_stJoinRetryCntrl s = 0 then 0 else 1)"
    by (simp_all add: t_def)
  moreover have "one_second_tasks env (DMAP_DMO_CheckSMLink env t) = Some s'"
    using assms by (simp add: DMAP_CheckSecondCounter_def t_def)
  ultimately show "join_status s' \<in> {join_status s, 0}" "g_stJoinRetryCntrl s' = g_stJoinRetryCntrl s - (if g_stJoinRetryCntrl s = 0 then 0 else 1)"
    using one_second_simps [of env "DMAP_DMO_CheckSMLink env t" s'] check_link_simps [of env t] by auto
qed

section \<open>Runs\<close>

text \<open>
  Runs of the device manager: its task and its tasks of every second in any order, with the join status after each of them, the
  latest first. The receiver, which the task calls, leaves the join alone.
\<close>

inductive join_run :: "dmap_state \<Rightarrow> u8 list \<Rightarrow> dmap_state \<Rightarrow> bool" for s where
  start: "join_run s [join_status s] s"
| task: "join_run s hs t \<Longrightarrow> \<forall>x. same_join x (recv x) \<Longrightarrow> DMAP_Task env recv t = Some u \<Longrightarrow> join_run s (join_status u # hs) u"
| second: "join_run s hs t \<Longrightarrow> DMAP_CheckSecondCounter env t = Some u \<Longrightarrow> join_run s (join_status u # hs) u"

text \<open>The part of a run since the device was last in discovery, and the stations of the join that lie before each status.\<close>

definition last_attempt :: "u8 list \<Rightarrow> u8 list" where
  "last_attempt hs = takeWhile (\<lambda>st. st \<noteq> DEVICE_DISCOVERY) hs"

definition stations :: "u8 \<Rightarrow> u8 list" where
  "stations st =
     (if st \<in> {5, 6} then [5] else if st \<in> {7, 8} then [7, 5]
      else if st \<in> {DEVICE_SEND_SEC_CONFIRM_REQ, 12} then [DEVICE_SEND_SEC_CONFIRM_REQ, 7, 5]
      else if st = DEVICE_JOINED then [DEVICE_JOINED, DEVICE_SEND_SEC_CONFIRM_REQ, 7, 5] else [])"

lemma station_passed:
  assumes "st' = 0 \<or> task_step st st'" and "subseq (stations st) (last_attempt hs)"
  shows "subseq (stations st') (last_attempt (st' # hs))"
proof (cases "st' = 0")
  case False
  then have "stations st' = stations st \<or> stations st' = st' # stations st \<or> stations st' = []"
    using assms(1) by (auto simp: task_step_def machine_step_def answer_step_def stations_def)
  then show ?thesis using False assms(2) by (auto simp: last_attempt_def intro: list_emb_Cons)
qed (simp add: stations_def)

lemma run_stations:
  assumes "join_run s hs t" and "join_status s = DEVICE_DISCOVERY"
  shows "subseq (stations (join_status t)) (last_attempt hs)"
  using assms(1)
proof (induction rule: join_run.induct)
  case start
  show ?case using assms(2) by (simp add: stations_def)
next
  case (task hs t recv env u)
  then show ?case using station_passed task_ordered(1) by blast
next
  case (second hs t env u)
  have "task_step (join_status t) (join_status t)" by (auto simp: task_step_def machine_step_def answer_step_def)
  then show ?case using station_passed [of "join_status u" "join_status t" hs] second second_ordered(1) [of env t u] by auto
qed

end
