(* ===== verification/Dmap_Watch.thy ===== *)
theory Dmap_Watch
  imports Dmap_Order
begin

text \<open>
  The two watchdogs of the device manager: the time-out of a join attempt, and the link to the system manager. Both end in a restart of
  the stack, after which nothing of the old network is left.
\<close>

unbundle bit_operations_syntax

section \<open>After a restart\<close>

text \<open>In discovery, without keys, contracts, routes and address translations, with empty queues.\<close>

definition fresh_start :: "dmap_state \<Rightarrow> bool" where
  "fresh_start s \<longleftrightarrow> join_status s = DEVICE_DISCOVERY \<and> manager_contract s = 0 \<and> no_keys (slme_of s)
     \<and> g_oDmoContractsMap (dmo_of s) = [] \<and> g_oPendingContractRspMap (dmo_of s) = []
     \<and> m_oContractsMap (asl_state.g_stNlme (asl_of s)) = [] \<and> m_oNlmeRoutesMap (asl_state.g_stNlme (asl_of s)) = []
     \<and> m_oAttMap16toEntry (asl_state.g_stNlme (asl_of s)) = [] \<and> m_oAttMap2toEntry (asl_state.g_stNlme (asl_of s)) = []
     \<and> g_oAslMsgListTx (asl_of s) = [] \<and> g_oAslMsgListRx (asl_of s) = []"

lemma reset_fresh: "fresh_start (DMAP_ResetStack env s)"
  by (simp add: fresh_start_def DMAP_ResetStack_def DMAP_Init_def DPO_Init_def DMO_Init_def on_asl_def on_slme_def ASLDE_Init_queues_def in_nlme_def
      NLME_Init_def SLME_Init_def no_keys_def Let_def)

section \<open>The time-out of a join attempt\<close>

definition waiting :: "u8 \<Rightarrow> bool" where
  "waiting st \<longleftrightarrow> st \<in> {4, 6, 8, 12}"

fun seconds :: "dmap_env list \<Rightarrow> dmap_state \<Rightarrow> dmap_state option" where
  "seconds [] s = Some s"
| "seconds (env # envs) s = (case DMAP_CheckSecondCounter env s of None \<Rightarrow> None | Some s \<Rightarrow> seconds envs s)"

definition no_command :: "dmap_state \<Rightarrow> bool" where
  "no_command s \<longleftrightarrow> m_ucJoinCommand (dmo_attrs s) \<notin> {2, 3, 4}"

lemma waiting_second:
  assumes "waiting (join_status s)" and "no_command s"
  shows "\<exists>s'. DMAP_CheckSecondCounter env s = Some s' \<and> join_status s' = join_status s \<and> no_command s'
    \<and> g_stJoinRetryCntrl s' = g_stJoinRetryCntrl s - (if g_stJoinRetryCntrl s = 0 then 0 else 1)"
proof -
  define t where "t = (if g_stJoinRetryCntrl s \<noteq> 0 then s\<lparr>g_stJoinRetryCntrl := g_stJoinRetryCntrl s - 1\<rparr> else s)"
  define u where "u = on_dmo (one_second_counters (dmo_env_of env)) t"
  have t: "join_status t = join_status s" "no_command t" "g_stJoinRetryCntrl t = g_stJoinRetryCntrl s - (if g_stJoinRetryCntrl s = 0 then 0 else 1)"
    using assms(2) by (simp_all add: t_def no_command_def)
  have nj: "join_status s \<noteq> DEVICE_JOINED" using assms(1) by (auto simp: waiting_def)
  have u: "join_status u = join_status s" "no_command u" "g_stJoinRetryCntrl u = g_stJoinRetryCntrl t"
    using t by (simp_all add: u_def no_command_def one_second_counters_def DMO_TimeoutContractReqs_def tell_def Let_def)
  have "DMAP_DMO_CheckSMLink env t = t" using nj t(1) by (simp add: DMAP_DMO_CheckSMLink_def)
  then have "DMAP_CheckSecondCounter env s = Some u"
    using u nj unfolding DMAP_CheckSecondCounter_def t_def [symmetric] one_second_tasks_def Let_def by (simp add: u_def no_command_def)
  then show ?thesis using u t by auto
qed

lemma seconds_wait:
  assumes "waiting (join_status s)" and "no_command s"
  shows "\<exists>s'. seconds envs s = Some s' \<and> join_status s' = join_status s \<and> unat (g_stJoinRetryCntrl s') = unat (g_stJoinRetryCntrl s) - length envs"
  using assms
proof (induction envs arbitrary: s)
  case (Cons env envs)
  obtain t where t: "DMAP_CheckSecondCounter env s = Some t" "join_status t = join_status s" "no_command t"
    "g_stJoinRetryCntrl t = g_stJoinRetryCntrl s - (if g_stJoinRetryCntrl s = 0 then 0 else 1)"
    using waiting_second [OF Cons.prems] by blast
  have "unat (g_stJoinRetryCntrl t) = unat (g_stJoinRetryCntrl s) - 1" by (simp add: t(4) unat_minus_one)
  then show ?case using Cons.IH [of t] Cons.prems(1) t(1-3) by fastforce
qed simp

lemma run_wait:
  assumes "join_run s0 hs s" and "g_stJoinRetryCntrl s0 \<le> join_timeout"
  shows "g_stJoinRetryCntrl s \<le> join_timeout"
  using assms(1)
proof (induction rule: join_run.induct)
  case (second hs t env u)
  have "w - 1 \<le> w" if "w \<noteq> 0" for w :: u16 using that by (simp add: word_le_nat_alt unat_minus_one)
  then show ?case using second.IH second_ordered(2) [OF second.hyps(2)] by (auto split: if_splits intro: order_trans)
qed (use assms(2) task_ordered(2) in blast)+

section \<open>The link to the system manager\<close>

lemma add_object_grows:
  assumes "add_object env m prio src dst cid x s = (s', r)"
  shows "length (g_oAslMsgListTx (asl_of s')) \<le> length (g_oAslMsgListTx (asl_of s)) + (if r = SFC_SUCCESS then 1 else 0)"
    and "g_ucSMLinkTimeout (asl_of s') = g_ucSMLinkTimeout (asl_of s)" and "g_ucLinkProbed (asl_of s') = g_ucLinkProbed (asl_of s)"
proof -
  have core: "length (g_oAslMsgListTx a') \<le> length (g_oAslMsgListTx a) + (if r = SFC_SUCCESS then 1 else 0)
      \<and> g_ucSMLinkTimeout a' = g_ucSMLinkTimeout a \<and> g_ucLinkProbed a' = g_ucLinkProbed a"
    if "ASLSRVC_AddGenericObject cfg m y z a = (a', r)" for cfg y z a a'
    using that by (auto simp: ASLSRVC_AddGenericObject_def ASLSRVC_AddGenericObjectEncryptable_def ASLSRVC_AddGenericObjectEncryptableCore_def
        store_contract_def Let_def split: if_splits option.splits)
  show "length (g_oAslMsgListTx (asl_of s')) \<le> length (g_oAslMsgListTx (asl_of s)) + (if r = SFC_SUCCESS then 1 else 0)"
    "g_ucSMLinkTimeout (asl_of s') = g_ucSMLinkTimeout (asl_of s)" "g_ucLinkProbed (asl_of s') = g_ucLinkProbed (asl_of s)"
    using assms by (auto simp: add_object_def on_asl_def Let_def dest!: core split: prod.splits)
qed

text \<open>The requests in the queue, with one more to come as long as the link was not probed.\<close>

definition probe_room :: "dmap_state \<Rightarrow> nat" where
  "probe_room s = length (g_oAslMsgListTx (asl_of s)) + (if g_ucLinkProbed (asl_of s) = 0 then 1 else 0)"

lemma check_link_joined:
  assumes "join_status s = DEVICE_JOINED" and "g_ucSMLinkTimeout (asl_of s) \<noteq> 0"
  shows "join_status (DMAP_DMO_CheckSMLink env s) = DEVICE_JOINED"
    and "g_ucSMLinkTimeout (asl_of (DMAP_DMO_CheckSMLink env s)) = g_ucSMLinkTimeout (asl_of s) - 1"
    and "probe_room (DMAP_DMO_CheckSMLink env s) \<le> probe_room s"
proof -
  obtain u r where u: "add_object env (local_mem env) 3 UAP_DMAP_ID UAP_SMAP_ID (manager_contract s)
      (ReadReq (READ_REQ_SRVC.make DMAP_DMO_OBJ_ID SM_STSO_OBJ_ID 0 (attribute STSO_CTR_UTC_OFFSET))) s = (u, r)" by fastforce
  note g = add_object_grows [OF u] add_object_same [OF u, unfolded same_join_def]
  show "join_status (DMAP_DMO_CheckSMLink env s) = DEVICE_JOINED"
    "g_ucSMLinkTimeout (asl_of (DMAP_DMO_CheckSMLink env s)) = g_ucSMLinkTimeout (asl_of s) - 1"
    "probe_room (DMAP_DMO_CheckSMLink env s) \<le> probe_room s"
    using assms u g by (auto simp: DMAP_DMO_CheckSMLink_def probe_link_def probe_due_def probe_room_def on_asl_def Let_def split: if_splits)
qed

abbreviation (input) link_checks :: "dmap_env list \<Rightarrow> dmap_state \<Rightarrow> dmap_state" where
  "link_checks envs s \<equiv> fold DMAP_DMO_CheckSMLink envs s"

lemma unjoined_checks: "join_status s \<noteq> DEVICE_JOINED \<Longrightarrow> link_checks envs s = s"
  by (induction envs) (simp_all add: DMAP_DMO_CheckSMLink_def)

lemma check_link_over:
  assumes "join_status s = DEVICE_JOINED" and "g_ucSMLinkTimeout (asl_of s) = 0"
  shows "fresh_start (DMAP_DMO_CheckSMLink env s)"
  using assms reset_fresh [of env s] by (simp add: DMAP_DMO_CheckSMLink_def fresh_start_def on_asl_def)

lemma link_checks_run:
  assumes "join_status s = DEVICE_JOINED"
  shows "(if length envs \<le> unat (g_ucSMLinkTimeout (asl_of s)) then join_status (link_checks envs s) = DEVICE_JOINED else fresh_start (link_checks envs s))
    \<and> length (g_oAslMsgListTx (asl_of (link_checks envs s))) \<le> probe_room s"
  using assms
proof (induction envs arbitrary: s)
  case Nil
  then show ?case by (simp add: probe_room_def)
next
  case (Cons env envs)
  let ?s = "DMAP_DMO_CheckSMLink env s"
  show ?case
  proof (cases "g_ucSMLinkTimeout (asl_of s) = 0")
    case True
    then have f: "fresh_start ?s" using check_link_over Cons.prems by blast
    then have "link_checks envs ?s = ?s" by (intro unjoined_checks) (simp add: fresh_start_def)
    with f show ?thesis using True by (simp add: fresh_start_def)
  next
    case False
    note j = check_link_joined [OF Cons.prems False, of env]
    have "unat (g_ucSMLinkTimeout (asl_of ?s)) = unat (g_ucSMLinkTimeout (asl_of s)) - 1" "0 < unat (g_ucSMLinkTimeout (asl_of s))"
      using False by (simp_all add: j(2) unat_minus_one unat_gt_0)
    then show ?thesis using Cons.IH [OF j(1)] j(3) by (auto split: if_splits)
  qed
qed

section \<open>Properties\<close>



text \<open>C28:
  The link to the system manager is watched. A device that has joined and hears nothing from the system manager stays joined for exactly
  as many seconds as its time-out says and then starts again from nothing; in all this time it queues at most one request to find
  out whether the system manager still answers.
\<close>
theorem sm_link_watchdog:
  assumes "join_status s = DEVICE_JOINED"
  shows "(if length envs \<le> unat (g_ucSMLinkTimeout (asl_of s)) then join_status (fold DMAP_DMO_CheckSMLink envs s) = DEVICE_JOINED
      else fresh_start (fold DMAP_DMO_CheckSMLink envs s))
    \<and> length (g_oAslMsgListTx (asl_of (fold DMAP_DMO_CheckSMLink envs s))) \<le> length (g_oAslMsgListTx (asl_of s)) + 1"
  using link_checks_run [OF assms, of envs] by (auto simp: probe_room_def split: if_splits)

theorem sm_link_watchdog_witness:
  "fresh_start (fold DMAP_DMO_CheckSMLink (replicate 300 (joining_env 1000)) (joining DEVICE_JOINED 0))"
  using sm_link_watchdog [of "joining DEVICE_JOINED 0" "replicate 300 (joining_env 1000)"] unat_u8_less [of "g_ucSMLinkTimeout start_state"] by simp

end
