(* ===== verification/Dmap_Exchange.thy ===== *)
theory Dmap_Exchange
  imports Dmap_Watch
begin

text \<open>
  A request of the device manager and its answer: the task queues the request, the answer is found among the received APDUs, matched
  with the request and handed to the object that asked.
\<close>

unbundle bit_operations_syntax

section \<open>What an exchange leaves alone\<close>

text \<open>The same device but for its queues and contracts, its application handle, its join status and its time-out.\<close>

definition forget :: "dmap_state \<Rightarrow> dmap_state" where
  "forget s = s\<lparr>g_stJoinRetryCntrl := 0, dp_armo := (dp_armo s)\<lparr>ar_dmo := (dmo_of s)\<lparr>dm_asl := start_state, g_unAppHandle := 0, g_ucJoinStatus := 0\<rparr>\<rparr>\<rparr>"

definition same_device :: "dmap_state \<Rightarrow> dmap_state \<Rightarrow> bool" where
  "same_device b s \<longleftrightarrow> forget s = forget b"

lemma same_device_refl [simp]: "same_device s s"
  by (simp add: same_device_def)

lemma same_device_trans [trans]: "same_device a b \<Longrightarrow> same_device b c \<Longrightarrow> same_device a c"
  by (simp add: same_device_def)

lemma forget_fields:
  "dmo_attrs (forget s) = dmo_attrs s" "slme_of (forget s) = slme_of s" "manager_contract (forget s) = manager_contract s"
  "g_oDmoContractsMap (dmo_of (forget s)) = g_oDmoContractsMap (dmo_of s)" "g_oPendingContractRspMap (dmo_of (forget s)) = g_oPendingContractRspMap (dmo_of s)"
  "g_stDPO (forget s) = g_stDPO s" "g_aulNewNodeChallenge (forget s) = g_aulNewNodeChallenge s" "g_aucSecMngChallenge (forget s) = g_aucSecMngChallenge s"
  "g_aucARMOQueue (dp_armo (forget s)) = g_aucARMOQueue (dp_armo s)" "g_aARMO (dp_armo (forget s)) = g_aARMO (dp_armo s)"
  by (simp_all add: forget_def)

lemma same_device_fields:
  assumes "same_device b s"
  shows "dmo_attrs s = dmo_attrs b" "slme_of s = slme_of b" "manager_contract s = manager_contract b" "g_oDmoContractsMap (dmo_of s) = g_oDmoContractsMap (dmo_of b)"
    "g_oPendingContractRspMap (dmo_of s) = g_oPendingContractRspMap (dmo_of b)" "g_stDPO s = g_stDPO b" "g_aulNewNodeChallenge s = g_aulNewNodeChallenge b"
    "g_aucSecMngChallenge s = g_aucSecMngChallenge b" "g_aucARMOQueue (dp_armo s) = g_aucARMOQueue (dp_armo b)" "g_aARMO (dp_armo s) = g_aARMO (dp_armo b)"
  using assms unfolding same_device_def by (metis forget_fields)+

lemma forget_on [simp]:
  "forget (on_asl f s) = forget s" "forget (set_join_status st s) = forget s" "forget (s\<lparr>g_stJoinRetryCntrl := w\<rparr>) = forget s"
  "forget (on_dmo (\<lambda>d. d\<lparr>g_unAppHandle := h\<rparr>) s) = forget s"
  by (simp_all add: forget_def on_asl_def on_dmo_def set_join_status_def)

section \<open>Asking\<close>

definition cleared :: "CAslTxMsg list \<Rightarrow> bool" where
  "cleared ms \<longleftrightarrow> (\<forall>x\<in>set ms. ASL_QUEUE_HDR.m_ucStatus (m_stQueueHdr x) = APDU_READY_TO_CLEAR)"

text \<open>A contract with the manager and no message left over; and the same with a request that waits for its answer.\<close>

definition channel :: "u16 \<Rightarrow> contract_ref \<Rightarrow> dmap_state \<Rightarrow> bool" where
  "channel cid w s \<longleftrightarrow> find_ref cid (asl_of s) = Some w \<and> map_option NLME_CONTRACT_ATTRIBUTES.m_aDestAddress (lock w (asl_of s)) = Some (manager_address s)"

text \<open>The address translations, which an exchange does not change.\<close>

definition att_tables :: "dmap_state \<Rightarrow> (ipv6 \<times> NLME_ADDR_TRANS_ATTRIBUTES ref) list \<times> (u8 list \<times> NLME_ADDR_TRANS_ATTRIBUTES ref) list" where
  "att_tables s = (m_oAttMap16toEntry (asl_state.g_stNlme (asl_of s)), m_oAttMap2toEntry (asl_state.g_stNlme (asl_of s)))"

definition quiet :: "u16 \<Rightarrow> dmap_state \<Rightarrow> bool" where
  "quiet cid s \<longleftrightarrow> (\<exists>w. channel cid w s) \<and> cleared (g_oAslMsgListTx (asl_of s)) \<and> g_oAslMsgListRx (asl_of s) = []"

lemma quietI: "channel cid w s \<Longrightarrow> cleared (g_oAslMsgListTx (asl_of s)) \<Longrightarrow> g_oAslMsgListRx (asl_of s) = [] \<Longrightarrow> quiet cid s"
  unfolding quiet_def by blast

definition is_request :: "contract_ref \<Rightarrow> u8 \<Rightarrow> u16 \<Rightarrow> u8 \<Rightarrow> u8 list \<Rightarrow> CAslTxMsg \<Rightarrow> bool" where
  "is_request w sap obj meth req msg \<longleftrightarrow>
     (let h = m_stQueueHdr msg; q = ASL_QUEUE_HDR.m_ucReqID h in
      m_pWeakContract msg = w \<and> ASL_QUEUE_HDR.m_ucStatus h = APDU_READY_TO_SEND \<and> ASL_QUEUE_HDR.m_unSrcOID h = DMAP_DMO_OBJ_ID
      \<and> ASL_QUEUE_HDR.m_unDstOID h = obj \<and> ASL_QUEUE_HDR.m_ucSrcSAP h = UAP_DMAP_ID \<and> ASL_QUEUE_HDR.m_ucDstSAP h = sap
      \<and> m_unAPDULen h = word_of_nat (length (m_oTxApduData msg)) \<and> \<not> m_bInSlidingWindow h
      \<and> ASLSRVC_setExecuteReqObj (mem_of req) (EXEC_REQ_SRVC.make DMAP_DMO_OBJ_ID obj q meth (of_nat (length req)) 0) 65535 = Some (m_oTxApduData msg))"

definition asked :: "u16 \<Rightarrow> u8 \<Rightarrow> u16 \<Rightarrow> u8 \<Rightarrow> u8 list \<Rightarrow> dmap_state \<Rightarrow> bool" where
  "asked cid sap obj meth req s \<longleftrightarrow> (\<exists>w ms msg. channel cid w s \<and> g_oAslMsgListTx (asl_of s) = ms @ [msg] \<and> cleared ms \<and> is_request w sap obj meth req msg
     \<and> g_oAslMsgListRx (asl_of s) = [])"

abbreviation "speaks env \<equiv> \<not> device_is_bbr (asl_cfg (slme_env_of env))"

lemma find_ref_tx [simp]: "find_ref j (a\<lparr>g_oAslMsgListTx := t\<rparr>) = find_ref j a"
  by (simp add: find_ref_def)

lemma store_rx [simp]: "g_oAslMsgListRx (store_contract w c a) = g_oAslMsgListRx a"
  by (simp add: store_contract_def)

lemma request_sent:
  assumes "speaks env" "quiet cid s" "length req \<le> 1000"
  shows "\<exists>s'. send_join_request env (mem_of req) prio sap cid obj meth (of_nat (length req)) s = (s', SFC_SUCCESS)
    \<and> same_device s s' \<and> join_status s' = join_status s \<and> att_tables s' = att_tables s \<and> asked cid sap obj meth req s'"
proof -
  obtain w where w: "channel cid w s" using assms(2) by (auto simp: quiet_def)
  then obtain c where c: "lock w (asl_of s) = Some c" "NLME_CONTRACT_ATTRIBUTES.m_aDestAddress c = manager_address s" by (auto simp: channel_def)
  define h where "h = (g_unAppHandle (dmo_of s) + 1) AND 0xFFF"
  let ?x = "dmap_args prio UAP_DMAP_ID sap h cid"
  let ?cfg = "current_cfg (dmo_env_of env) ((dmo_of s)\<lparr>g_unAppHandle := h\<rparr>)"
  let ?q = "NLME_CONTRACT_ATTRIBUTES.m_ucReqID c"
  have b: "\<not> device_is_bbr ?cfg" "p_pDstAddr ?x = None" "p_unContractID ?x = cid"
    using assms(1) by (simp_all add: current_cfg_def dmap_args_def)
  obtain apdu where apdu: "ASLSRVC_setExecuteReqObj (mem_of req) (EXEC_REQ_SRVC.make DMAP_DMO_OBJ_ID obj ?q meth (of_nat (length req)) 0) 65535 = Some apdu"
    "ASLSRVC_AddGenericObject ?cfg (mem_of req) ?x (Service (ExecReq (EXEC_REQ_SRVC.make DMAP_DMO_OBJ_ID obj 0 meth (of_nat (length req)) 0))) (asl_of s) =
       ((store_contract w (c\<lparr>NLME_CONTRACT_ATTRIBUTES.m_ucReqID := ?q + 1\<rparr>) (asl_of s))\<lparr>g_oAslMsgListTx := g_oAslMsgListTx (asl_of s)
           @ [\<lparr>m_pWeakContract = w, m_stQueueHdr = queue_header ?cfg (mem_of req) (?x\<lparr>ADD_ARGS.p_ucAllowEncryption := 1\<rparr>)
                 (Service (ExecReq (EXEC_REQ_SRVC.make DMAP_DMO_OBJ_ID obj ?q meth (of_nat (length req)) 0))) c apdu, m_oTxApduData = apdu\<rparr>]\<rparr>, SFC_SUCCESS)"
    using exec_request_msg [of ?cfg ?x "asl_of s" w c req DMAP_DMO_OBJ_ID obj meth] b w c(1) assms(3) by (auto simp: channel_def)
  define msg where "msg = \<lparr>m_pWeakContract = w, m_stQueueHdr = queue_header ?cfg (mem_of req) (?x\<lparr>ADD_ARGS.p_ucAllowEncryption := 1\<rparr>)
     (Service (ExecReq (EXEC_REQ_SRVC.make DMAP_DMO_OBJ_ID obj ?q meth (of_nat (length req)) 0))) c apdu, m_oTxApduData = apdu\<rparr>"
  define a where "a = (store_contract w (c\<lparr>NLME_CONTRACT_ATTRIBUTES.m_ucReqID := ?q + 1\<rparr>) (asl_of s))\<lparr>g_oAslMsgListTx := g_oAslMsgListTx (asl_of s) @ [msg]\<rparr>"
  define s' where "s' = on_asl (\<lambda>_. a) (on_dmo (\<lambda>d. d\<lparr>g_unAppHandle := h\<rparr>) s)"
  have "send_join_request env (mem_of req) prio sap cid obj meth (of_nat (length req)) s = (s', SFC_SUCCESS)"
    using apdu(2) by (simp add: send_join_request_def add_object_def h_def [symmetric] s'_def a_def msg_def)
  moreover have "same_device s s'" by (simp add: same_device_def s'_def)
  moreover have "join_status s' = join_status s" "asl_of s' = a" "manager_address s' = manager_address s" by (simp_all add: s'_def on_asl_def)
  moreover have "att_tables s' = att_tables s" by (simp add: att_tables_def s'_def a_def on_asl_def store_contract_def)
  moreover have "is_request w sap obj meth req msg"
    using apdu(1) by (simp add: is_request_def msg_def queue_header_def dmap_args_def EXEC_REQ_SRVC.make_def Let_def)
  moreover have "channel cid w s'"
    using w c calculation(4,5) find_ref_store [OF c(1), of cid] by (simp add: channel_def a_def)
  moreover have "g_oAslMsgListTx a = g_oAslMsgListTx (asl_of s) @ [msg]" "g_oAslMsgListRx a = []"
    using assms(2) by (simp_all add: a_def quiet_def)
  ultimately show ?thesis using assms(2) unfolding asked_def quiet_def by metis
qed

section \<open>Being answered\<close>

definition answer_apdu :: "u16 \<Rightarrow> u8 \<Rightarrow> u8 \<Rightarrow> u8 list \<Rightarrow> u8 list" where
  "answer_apdu obj q sfc data =
     (case ASLSRVC_setExecuteRspObj (mem_of data) (EXEC_RSP_SRVC.make obj DMAP_DMO_OBJ_ID q 0 sfc (of_nat (length data)) 0) 65535 of
        Some bs \<Rightarrow> bs | None \<Rightarrow> [])"

text \<open>An answer to the last request of the queue, as the transport layer hands it up.\<close>

definition reply :: "dmap_env \<Rightarrow> u8 \<Rightarrow> u16 \<Rightarrow> u8 \<Rightarrow> (dmap_state \<Rightarrow> u8 list) \<Rightarrow> dmap_state \<Rightarrow> dmap_state" where
  "reply env sap obj sfc data s =
     on_asl (\<lambda>a. TLDE_DATA_Indication (current_cfg (dmo_env_of env) (dmo_of s)) (tai_now env) (manager_address s) sap 0
       (answer_apdu obj (ASL_QUEUE_HDR.m_ucReqID (m_stQueueHdr (List.last (g_oAslMsgListTx a)))) sfc (data s)) UAP_DMAP_ID 0 (0, 0) 0 a) s"

lemma reply_same: "same_join s (reply env sap obj sfc data s)"
  by (simp add: same_join_def reply_def)

lemma answer_apdu_bytes:
  assumes "length data \<le> 1000"
  shows "ASLSRVC_binarize (mem_of data) (ExecRsp (EXEC_RSP_SRVC.make obj DMAP_DMO_OBJ_ID q 0 sfc (of_nat (length data)) 0)) 65535 = Some (answer_apdu obj q sfc data)"
    and "length (answer_apdu obj q sfc data) < 65536" and "3 \<le> length (answer_apdu obj q sfc data)"
proof -
  have u: "unat (of_nat (length data) :: u16) = length data" using assms by (simp add: unsigned_of_nat take_bit_nat_eq_self)
  show "ASLSRVC_binarize (mem_of data) (ExecRsp (EXEC_RSP_SRVC.make obj DMAP_DMO_OBJ_ID q 0 sfc (of_nat (length data)) 0)) 65535 = Some (answer_apdu obj q sfc data)"
    "length (answer_apdu obj q sfc data) < 65536" "3 \<le> length (answer_apdu obj q sfc data)"
    using assms u by (auto simp: answer_apdu_def ASLSRVC_setExecuteRspObj_def EXEC_RSP_SRVC.make_def ASLSRVC_insertAPDUHeader_def
        ASLSRVC_insertExtensibleValue_def Let_def)
qed

lemma find_ref_on [simp]: "find_ref j (on_contract w f a) = find_ref j a"
  by (simp add: on_contract_def find_ref_store split: option.split)

lemma first_bit_clear:
  assumes "ASLSRVC_setExecuteReqObj m x n = Some apdu"
  shows "\<not> bit (apdu ! 0) 7"
proof -
  have a: "ASLSRVC_binarize m (ExecReq x) n = Some apdu" using assms by simp
  then have "mem_of apdu 0 AND 0x9F = wire_type (ExecReq x)" by (rule binarize_first_octet) (rule holds_mem_of)
  moreover have "mem_of apdu 0 = apdu ! 0" using binarize_nonempty [OF a] by (simp add: mem_of_def)
  ultimately have "bit ((apdu ! 0) AND 0x9F) 7 = bit (5 :: u8) 7" by simp
  then show ?thesis by (simp add: bit_and_iff)
qed

lemma exec_apdu_length: "ASLSRVC_setExecuteReqObj m x n = Some apdu \<Longrightarrow> length apdu \<le> 9 + unat (EXEC_REQ_SRVC.m_unLen x)"
  by (auto simp: ASLSRVC_setExecuteReqObj_def ASLSRVC_insertAPDUHeader_def ASLSRVC_insertExtensibleValue_def Let_def split: if_splits)

lemma timeout_dest [simp]: "NLME_CONTRACT_ATTRIBUTES.m_aDestAddress (ASLDE_computeTXtimeout rtt c) = NLME_CONTRACT_ATTRIBUTES.m_aDestAddress c"
  by (simp add: ASLDE_computeTXtimeout_def rtt_estimate_def Let_def)

lemma asl_on_asl [simp]: "asl_of (on_asl f s) = f (asl_of s)" "dmo_attrs (on_asl f s) = dmo_attrs s" "dp_aslmo (on_asl f s) = dp_aslmo s"
  "on_asl g (on_asl f s) = on_asl (\<lambda>a. g (f a)) s"
  by (simp_all add: on_asl_def on_dmo_def)

lemma request_found:
  assumes "asked cid sap obj meth req s" "length req \<le> 1000"
    and "m_aucAddr idtf = manager_address s" "APDU_IDTF.m_ucSrcTSAPID idtf = sap" "APDU_IDTF.m_ucDstTSAPID idtf = UAP_DMAP_ID"
  defines "q \<equiv> ASL_QUEUE_HDR.m_ucReqID (m_stQueueHdr (List.last (g_oAslMsgListTx (asl_of s))))"
  shows "\<exists>a p apdu. original_request env q obj DMAP_DMO_OBJ_ID idtf s =
      Some (on_asl (\<lambda>_. a) s, Some (ExecReq (EXEC_REQ_SRVC.make DMAP_DMO_OBJ_ID obj q meth (of_nat (length req)) p), apdu))
    \<and> quiet cid (on_asl (\<lambda>_. a) s) \<and> att_tables (on_asl (\<lambda>_. a) s) = att_tables s"
proof -
  obtain w ms msg where m: "channel cid w s" "g_oAslMsgListTx (asl_of s) = ms @ [msg]" "cleared ms" "is_request w sap obj meth req msg"
    "g_oAslMsgListRx (asl_of s) = []" using assms(1) by (auto simp: asked_def)
  define a where "a = on_contract w (ASLDE_computeTXtimeout (tai_now env - m_unSendTime (m_stQueueHdr msg))) (asl_of s)"
  let ?a = "a\<lparr>g_oAslMsgListTx := ms @ [set_status APDU_READY_TO_CLEAR msg]\<rparr>"
  have q: "q = ASL_QUEUE_HDR.m_ucReqID (m_stQueueHdr msg)" by (simp add: q_def m(2))
  have b: "ASLSRVC_binarize (mem_of req) (ExecReq (EXEC_REQ_SRVC.make DMAP_DMO_OBJ_ID obj q meth (of_nat (length req)) 0)) 65535 = Some (m_oTxApduData msg)"
    using m(4) by (simp add: is_request_def q Let_def)
  have "\<forall>x\<in>set ms. \<not> answers q obj DMAP_DMO_OBJ_ID idtf (asl_of s) x" using m(3) by (auto simp: cleared_def answers_def Let_def)
  moreover have "answers q obj DMAP_DMO_OBJ_ID idtf (asl_of s) msg"
    using m(1,4) assms(3-5) first_bit_clear [of "mem_of req" _ 65535 "m_oTxApduData msg"] b
    by (auto simp: answers_def Let_def is_request_def q channel_def split: option.splits)
  ultimately have "List.extract (answers q obj DMAP_DMO_OBJ_ID idtf (asl_of s)) (g_oAslMsgListTx (asl_of s)) = Some (ms, msg, [])"
    by (auto simp: m(2) extract_Some_iff)
  moreover have "\<not> m_bInSlidingWindow (m_stQueueHdr msg)" "m_pWeakContract msg = w" using m(4) by (simp_all add: is_request_def Let_def)
  ultimately have f: "ASLDE_SearchOriginalRequest (tai_now env) q obj DMAP_DMO_OBJ_ID idtf (asl_of s) =
      (?a, Some (m_oTxApduData msg, m_unAPDULen (m_stQueueHdr msg), m_unAppHandle (m_stQueueHdr msg)))"
    by (simp add: ASLDE_SearchOriginalRequest_def a_def Let_def)
  have "length (m_oTxApduData msg) \<le> 1009"
    using exec_apdu_length b assms(2) by (fastforce simp: EXEC_REQ_SRVC.make_def unsigned_of_nat take_bit_nat_eq_self)
  then have len: "length (m_oTxApduData msg) \<le> unat (m_unAPDULen (m_stQueueHdr msg))"
    using m(4) by (simp add: is_request_def Let_def unsigned_of_nat take_bit_nat_eq_self)
  have t: "transportable (ExecReq (EXEC_REQ_SRVC.make DMAP_DMO_OBJ_ID obj q meth (of_nat (length req)) 0))"
    using assms(2) by (simp add: EXEC_REQ_SRVC.make_def word_le_nat_alt unsigned_of_nat take_bit_nat_eq_self)
  note g = GetGenericObject_roundtrip [OF b t holds_mem_of len]
  have "channel cid w (on_asl (\<lambda>_. ?a) s)"
    using m(1) by (auto simp: channel_def a_def on_asl_def lock_on_contract timeout_dest)
  moreover have "cleared (ms @ [set_status APDU_READY_TO_CLEAR msg])" using m(3) by (simp add: cleared_def)
  moreover have "g_oAslMsgListRx ?a = []" using m(5) by (simp add: a_def on_contract_def split: option.split)
  ultimately have "quiet cid (on_asl (\<lambda>_. ?a) s)" by (intro quietI) (simp_all add: on_asl_def)
  moreover have "att_tables (on_asl (\<lambda>_. ?a) s) = att_tables s"
    by (simp add: att_tables_def a_def on_contract_def store_contract_def on_asl_def split: option.split)
  moreover have "as_received u p (ExecReq (EXEC_REQ_SRVC.make DMAP_DMO_OBJ_ID obj q meth n 0)) = ExecReq (EXEC_REQ_SRVC.make DMAP_DMO_OBJ_ID obj q meth n p)" for u p n
    by (simp add: EXEC_REQ_SRVC.make_def)
  ultimately show ?thesis
    using f g [of "g_bNativePublish ?a" "response_union env" None "dp_aslmo (on_asl (\<lambda>_. ?a) s)"]
    by (intro exI [of _ ?a] exI [of _ "length (m_oTxApduData msg) - length (payload (mem_of req)
        (ExecReq (EXEC_REQ_SRVC.make DMAP_DMO_OBJ_ID obj q meth (of_nat (length req)) 0)))"] exI [of _ "m_oTxApduData msg"])
      (simp add: original_request_def del: as_received.simps payload.simps)
qed

lemma channel_on_asl:
  "asl_state.g_stNlme (f (asl_of s)) = asl_state.g_stNlme (asl_of s) \<Longrightarrow> channel cid w (on_asl f s) = channel cid w s"
  by (simp add: channel_def find_ref_def lock_def)

lemma answer_parsed:
  fixes data :: "u8 list" and obj :: u16 and q sfc :: u8
  assumes "length data \<le> 1000"
  defines "apdu \<equiv> answer_apdu obj q sfc data"
  shows "\<exists>y. ASLSRVC_GetGenericObject g (mem_of apdu) 0 (word_of_nat (length apdu)) u adr z =
      Some (Some (SRVC_EXEC_RSP, Some (ExecRsp y)), Some (length apdu), z)
    \<and> SRVC_REQID.m_ucReqID y = q \<and> SRVC_OIDS.m_unSrcOID y = obj \<and> SRVC_OIDS.m_unDstOID y = DMAP_DMO_OBJ_ID \<and> EXEC_RSP_SRVC.m_ucSFC y = sfc
    \<and> EXEC_RSP_SRVC.m_unLen y = of_nat (length data) \<and> holds (at_addr (mem_of apdu) (EXEC_RSP_SRVC.p_pRspData y)) 0 data"
proof -
  let ?x = "EXEC_RSP_SRVC.make obj DMAP_DMO_OBJ_ID q 0 sfc (of_nat (length data)) 0"
  note ab = answer_apdu_bytes [OF assms(1), of obj q sfc, folded apdu_def]
  have n: "unat (of_nat (length data) :: u16) = length data" using assms(1) by (simp add: unsigned_of_nat take_bit_nat_eq_self)
  have t: "transportable (ExecRsp ?x)" using assms(1) n by (simp add: EXEC_RSP_SRVC.make_def word_le_nat_alt)
  have l: "length apdu \<le> unat (word_of_nat (length apdu) :: u16)" using ab(2) by (simp add: unsigned_of_nat take_bit_nat_eq_self)
  let ?p = "0 + length apdu - length (payload (mem_of data) (ExecRsp ?x))"
  let ?y = "?x\<lparr>EXEC_RSP_SRVC.p_pRspData := (if EXEC_RSP_SRVC.m_unLen ?x = 0 then EXEC_RSP_SRVC.p_pRspData (m_stExecRsp u) else ?p)\<rparr>"
  have y: "as_received u ?p (ExecRsp ?x) = ExecRsp ?y" by (simp add: EXEC_RSP_SRVC.make_def)
  have "payload (mem_of apdu) (ExecRsp ?y) = payload (mem_of data) (ExecRsp ?x)"
    using payload_roundtrip [OF ab(1) t holds_mem_of l, of u] unfolding y .
  moreover have "payload (mem_of data) (ExecRsp ?x) = data"
    using holds_mem_of [of data] n by (simp add: EXEC_RSP_SRVC.make_def holds_iff_mem_bytes)
  moreover have "payload m (ExecRsp ?y) = mem_bytes m (EXEC_RSP_SRVC.p_pRspData ?y) (length data)" for m using n by (simp add: EXEC_RSP_SRVC.make_def)
  ultimately have "mem_bytes (mem_of apdu) (EXEC_RSP_SRVC.p_pRspData ?y) (length data) = data" by metis
  then have "holds (at_addr (mem_of apdu) (EXEC_RSP_SRVC.p_pRspData ?y)) 0 data"
    by (simp only: holds_iff_nth at_addr_def mem_bytes_eq_iff_nth) simp
  moreover have "ASLSRVC_GetGenericObject g (mem_of apdu) 0 (word_of_nat (length apdu)) u adr z =
      Some (Some (SRVC_EXEC_RSP, Some (ExecRsp ?y)), Some (length apdu), z)"
    using GetGenericObject_roundtrip [OF ab(1) t holds_mem_of l, of g u adr z] unfolding y by simp
  ultimately show ?thesis by (intro exI [of _ ?y]) (simp add: EXEC_RSP_SRVC.make_def)
qed

text \<open>The answer is taken from the queue, matched with its request and handed on.\<close>

lemma answer_fetched:
  assumes "asked cid sap obj meth req s" "length (data s) \<le> 1000"
  shows "\<exists>a q idtf. ASLDE_GetMyAPDUfromBuff UAP_DMAP_ID (asl_of (reply env sap obj sfc data s)) = (a, Some (idtf, answer_apdu obj q sfc (data s)))
    \<and> q = ASL_QUEUE_HDR.m_ucReqID (m_stQueueHdr (List.last (g_oAslMsgListTx a)))
    \<and> asked cid sap obj meth req (on_asl (\<lambda>_. a) s) \<and> att_tables (on_asl (\<lambda>_. a) s) = att_tables s \<and> m_aucAddr idtf = manager_address s \<and> APDU_IDTF.m_ucSrcTSAPID idtf = sap
    \<and> APDU_IDTF.m_ucDstTSAPID idtf = UAP_DMAP_ID \<and> m_unDataLen idtf = word_of_nat (length (answer_apdu obj q sfc (data s)))"
proof -
  obtain w ms msg where m: "channel cid w s" "g_oAslMsgListTx (asl_of s) = ms @ [msg]" "cleared ms" "is_request w sap obj meth req msg"
    "g_oAslMsgListRx (asl_of s) = []" using assms(1) by (auto simp: asked_def)
  define q where "q = ASL_QUEUE_HDR.m_ucReqID (m_stQueueHdr msg)"
  define apdu where "apdu = answer_apdu obj q sfc (data s)"
  note ab = answer_apdu_bytes [OF assms(2), of obj q sfc, folded apdu_def]
  have lu: "unat (word_of_nat (length apdu) :: u16) = length apdu" using ab(2) by (simp add: unsigned_of_nat take_bit_nat_eq_self)
  define idtf where "idtf = \<lparr>m_aucAddr = manager_address s, m_ucSrcTSAPID = sap, m_ucDstTSAPID = UAP_DMAP_ID, m_ucPriorityAndFlags = 0,
    m_ucTransportTime = 0, m_ucSecurityCtrl = 0, m_unDataLen = word_of_nat (length apdu), m_tvTxTime = (0, 0)\<rparr>"
  define a where "a = fst (ASLDE_GetMyAPDUfromBuff UAP_DMAP_ID (asl_of (reply env sap obj sfc data s)))"
  have get: "ASLDE_GetMyAPDUfromBuff UAP_DMAP_ID (asl_of (reply env sap obj sfc data s)) = (a, Some (idtf, apdu))"
    and a: "g_oAslMsgListRx a = []" "g_oAslMsgListTx a = ms @ [msg]" "asl_state.g_stNlme a = asl_state.g_stNlme (asl_of s)"
    using m(2,5) ab(3) lu
    by (auto simp: a_def reply_def TLDE_DATA_Indication_def ASLDE_GetMyAPDUfromBuff_def extract_Cons_code q_def [symmetric] apdu_def [symmetric] idtf_def Let_def)
  have "asked cid sap obj meth req (on_asl (\<lambda>_. a) s)"
    using m(1,3,4) a channel_on_asl [of "\<lambda>_. a" s cid w]
    unfolding asked_def by (intro exI [of _ w] exI [of _ ms] exI [of _ msg]) simp
  with get show ?thesis by (intro exI [of _ a] exI [of _ q] exI [of _ idtf]) (simp add: a(2,3) q_def apdu_def idtf_def att_tables_def)
qed

lemma no_more_objects: "dmap_objects sniff env m idtf i p 0 f s = Some (s, f)"
  by (subst dmap_objects.simps) (simp add: ASLSRVC_GetGenericObject_def)

lemma answer_processed:
  assumes "asked cid sap obj meth req s" "length req \<le> 1000" "length (data s) \<le> 1000"
  shows "\<exists>a rsp r0. process_apdu env (reply env sap obj sfc data s) =
      DMAP_processDMOResponse env obj meth r0 sfc (of_nat (length (data s))) rsp (on_asl (\<lambda>_. a) s)
    \<and> quiet cid (on_asl (\<lambda>_. a) s) \<and> att_tables (on_asl (\<lambda>_. a) s) = att_tables s \<and> holds rsp 0 (data s)"
proof -
  obtain a1 q idtf where get: "ASLDE_GetMyAPDUfromBuff UAP_DMAP_ID (asl_of (reply env sap obj sfc data s)) = (a1, Some (idtf, answer_apdu obj q sfc (data s)))"
    and i: "q = ASL_QUEUE_HDR.m_ucReqID (m_stQueueHdr (List.last (g_oAslMsgListTx a1)))" "m_aucAddr idtf = manager_address s"
      "APDU_IDTF.m_ucSrcTSAPID idtf = sap" "APDU_IDTF.m_ucDstTSAPID idtf = UAP_DMAP_ID" "m_unDataLen idtf = word_of_nat (length (answer_apdu obj q sfc (data s)))"
    and asked: "asked cid sap obj meth req (on_asl (\<lambda>_. a1) s)" and same: "att_tables (on_asl (\<lambda>_. a1) s) = att_tables s"
    using answer_fetched [where data = data, OF assms(1,3)] by metis
  let ?s = "on_asl (\<lambda>_. a1) s" and ?apdu = "answer_apdu obj q sfc (data s)"
  obtain a p r where o: "original_request env q obj DMAP_DMO_OBJ_ID idtf ?s =
      Some (on_asl (\<lambda>_. a) s, Some (ExecReq (EXEC_REQ_SRVC.make DMAP_DMO_OBJ_ID obj q meth (of_nat (length req)) p), r))"
    and quiet: "quiet cid (on_asl (\<lambda>_. a) s)" "att_tables (on_asl (\<lambda>_. a) s) = att_tables s"
    using request_found [OF asked assms(2), of idtf env] i same by auto
  obtain y where y: "ASLSRVC_GetGenericObject (g_bNativePublish a1) (mem_of ?apdu) 0 (word_of_nat (length ?apdu)) (local_unions env 0) (Some (m_aucAddr idtf)) (dp_aslmo s) =
      Some (Some (SRVC_EXEC_RSP, Some (ExecRsp y)), Some (length ?apdu), dp_aslmo s)"
    and f: "SRVC_REQID.m_ucReqID y = q" "SRVC_OIDS.m_unSrcOID y = obj" "SRVC_OIDS.m_unDstOID y = DMAP_DMO_OBJ_ID" "EXEC_RSP_SRVC.m_ucSFC y = sfc"
      "EXEC_RSP_SRVC.m_unLen y = of_nat (length (data s))" and rsp: "holds (at_addr (mem_of ?apdu) (EXEC_RSP_SRVC.p_pRspData y)) 0 (data s)"
    using answer_parsed [OF assms(3), of "g_bNativePublish a1" obj q sfc "local_unions env 0" "Some (m_aucAddr idtf)" "dp_aslmo s"] by metis
  have e: "?s\<lparr>dp_aslmo := dp_aslmo s\<rparr> = ?s" by (simp add: on_asl_def on_dmo_def)
  have d: "dmap_dispatch env (mem_of ?apdu) idtf (ExecRsp y) (?s\<lparr>dp_aslmo := dp_aslmo s\<rparr>) = DMAP_processDMOResponse env obj meth (mem_of r p) sfc
      (of_nat (length (data s))) (at_addr (mem_of ?apdu) (EXEC_RSP_SRVC.p_pRspData y)) (on_asl (\<lambda>_. a) s)"
    unfolding e using o by (simp add: DMAP_processExecuteResponse_def f EXEC_REQ_SRVC.make_def)
  have "process_apdu env (reply env sap obj sfc data s) =
      map_option fst (dmap_objects False env (mem_of ?apdu) idtf 0 0 (word_of_nat (length ?apdu)) True ?s)"
    using get by (simp add: process_apdu_def reply_def i(5))
  also have "\<dots> = dmap_dispatch env (mem_of ?apdu) idtf (ExecRsp y) (?s\<lparr>dp_aslmo := dp_aslmo s\<rparr>)"
    using y by (subst dmap_objects.simps) (simp add: no_more_objects split: option.split del: dmap_dispatch.simps)
  finally show ?thesis using d quiet rsp by auto
qed

section \<open>Two runs of the task\<close>

lemma nothing_received: "g_oAslMsgListRx (asl_of s) = [] \<Longrightarrow> process_apdu env s = Some s"
  by (simp add: process_apdu_def ASLDE_GetMyAPDUfromBuff_def extract_Nil_code) (simp add: on_asl_def on_dmo_def)

lemma await_fields [simp]:
  "join_status (await_answer st s) = st" "g_stJoinRetryCntrl (await_answer st s) = join_timeout" "asl_of (await_answer st s) = asl_of s"
  "forget (await_answer st s) = forget s" "dmo_attrs (await_answer st s) = dmo_attrs s"
  by (simp_all add: await_answer_def) (simp_all add: set_join_status_def)

lemma asked_cong: "asl_of s' = asl_of s \<Longrightarrow> dmo_attrs s' = dmo_attrs s \<Longrightarrow> asked cid sap obj meth req s' = asked cid sap obj meth req s"
  by (simp add: asked_def channel_def)

lemma quiet_cong: "asl_of s' = asl_of s \<Longrightarrow> manager_address s' = manager_address s \<Longrightarrow> quiet cid s' = quiet cid s"
  by (simp add: quiet_def channel_def)

text \<open>Runs of the task, with what is received in each of them.\<close>

fun tasks :: "dmap_env \<Rightarrow> (dmap_state \<Rightarrow> dmap_state) list \<Rightarrow> dmap_state \<Rightarrow> dmap_state option" where
  "tasks env [] s = Some s"
| "tasks env (recv # rs) s = (case DMAP_Task env recv s of None \<Rightarrow> None | Some s \<Rightarrow> tasks env rs s)"

lemma tasks_append: "tasks env (rs @ ts) s = (case tasks env rs s of None \<Rightarrow> None | Some s \<Rightarrow> tasks env ts s)"
  by (induction env rs s rule: tasks.induct) (simp_all split: option.split)

lemma tasks_run:
  "tasks env rs s = Some u \<Longrightarrow> \<forall>recv\<in>set rs. \<forall>x. same_join x (recv x) \<Longrightarrow> join_run s0 hs s \<Longrightarrow> \<exists>hs'. join_run s0 hs' u"
proof (induction env rs s arbitrary: hs rule: tasks.induct)
  case (2 env recv rs s)
  then obtain t where t: "DMAP_Task env recv s = Some t" "tasks env rs t = Some u" by (auto split: option.splits)
  have "join_run s0 (join_status t # hs) t" using "2.prems"(2) by (intro join_run.task [OF "2.prems"(3) _ t(1)]) simp
  then show ?case using "2.IH" t "2.prems"(2) by simp
qed auto

text \<open>
  The request is sent by one run of the task and answered in the next. \<open>b\<close> is the device when it sends; \<open>d\<close> is what the answer says.
\<close>

lemma exchange:
  assumes "join_status s \<noteq> DEVICE_JOINED" and "speaks env" "quiet cid b" "length req \<le> 1000" "length d \<le> 1000" "waiting st"
    and machine: "DMAP_joinStateMachine env s = Some (sent_or_again st (send_join_request env (mem_of req) prio sap cid obj meth (of_nat (length req)) b))"
    and data: "\<And>x. same_device b x \<Longrightarrow> data x = d"
  shows "\<exists>t rsp r0. same_device b t \<and> join_status t = st \<and> quiet cid t \<and> att_tables t = att_tables b \<and> holds rsp 0 d
    \<and> (\<forall>u. DMAP_processDMOResponse env obj meth r0 sfc (of_nat (length d)) rsp t = Some u \<longrightarrow>
         tasks env [\<lambda>x. x, reply env sap obj sfc data] s =
           (if join_status u = DEVICE_JOINED then map_option (\<lambda>x. on_armo (\<lambda>_. x) u) (ARMO_Task (dp_env env) (dp_armo u)) else Some u))"
proof -
  obtain b' where b: "send_join_request env (mem_of req) prio sap cid obj meth (of_nat (length req)) b = (b', SFC_SUCCESS)" "same_device b b'"
    "att_tables b' = att_tables b" "asked cid sap obj meth req b'"
    using request_sent [OF assms(2-4)] by metis
  define v where "v = await_answer st b'"
  have v: "same_device b v" "join_status v = st" "g_stJoinRetryCntrl v = join_timeout" "att_tables v = att_tables b" "asked cid sap obj meth req v"
    using b asked_cong [of v b' cid sap obj meth req] by (simp_all add: v_def same_device_def att_tables_def)
  have st: "st \<noteq> DEVICE_JOINED" "join_timeout \<noteq> 0" using assms(6) by (auto simp: waiting_def join_timeout_def)
  have "g_oAslMsgListRx (asl_of v) = []" using v(5) by (auto simp: asked_def)
  then have task1: "DMAP_Task env (\<lambda>x. x) s = Some v"
    using machine b(1) assms(1) v(2) st by (simp add: DMAP_Task_def sent_or_again_def v_def [symmetric] nothing_received)
  have d: "data v = d" using data v(1) by blast
  obtain a rsp r0 where a: "process_apdu env (reply env sap obj sfc data v) = DMAP_processDMOResponse env obj meth r0 sfc (of_nat (length d)) rsp (on_asl (\<lambda>_. a) v)"
    "quiet cid (on_asl (\<lambda>_. a) v)" "att_tables (on_asl (\<lambda>_. a) v) = att_tables v" "holds rsp 0 d"
    using answer_processed [where data = data, OF v(5) assms(4), of env sfc] assms(5) d by auto
  have "DMAP_joinStateMachine env v = Some v"
    using assms(6) v(2,3) st by (auto simp: DMAP_joinStateMachine_def waiting_def)
  then have "DMAP_Task env (reply env sap obj sfc data) v = (case DMAP_processDMOResponse env obj meth r0 sfc (of_nat (length d)) rsp (on_asl (\<lambda>_. a) v) of
      None \<Rightarrow> None | Some u \<Rightarrow> if join_status u = DEVICE_JOINED then map_option (\<lambda>x. on_armo (\<lambda>_. x) u) (ARMO_Task (dp_env env) (dp_armo u)) else Some u)"
    using a(1) v(2) st by (simp add: DMAP_Task_def)
  with task1 have "tasks env [\<lambda>x. x, reply env sap obj sfc data] s =
      (if join_status u = DEVICE_JOINED then map_option (\<lambda>x. on_armo (\<lambda>_. x) u) (ARMO_Task (dp_env env) (dp_armo u)) else Some u)"
    if "DMAP_processDMOResponse env obj meth r0 sfc (of_nat (length d)) rsp (on_asl (\<lambda>_. a) v) = Some u" for u
    using that by (simp split: option.split)
  moreover have "same_device b (on_asl (\<lambda>_. a) v)" "join_status (on_asl (\<lambda>_. a) v) = st" using v(1,2) by (simp_all add: same_device_def)
  ultimately show ?thesis using a(2-4) v(4) by metis
qed

lemma exchange_cases:
  assumes "join_status s \<noteq> DEVICE_JOINED" and "speaks env" "quiet cid b" "length req \<le> 1000" "length d \<le> 1000" "waiting st"
    and "DMAP_joinStateMachine env s = Some (sent_or_again st (send_join_request env (mem_of req) prio sap cid obj meth (of_nat (length req)) b))"
    and "\<And>x. same_device b x \<Longrightarrow> data x = d"
  shows "\<exists>t rsp r0. same_device b t \<and> join_status t = st \<and> quiet cid t \<and> att_tables t = att_tables b \<and> holds rsp 0 d
    \<and> (\<forall>u. DMAP_processDMOResponse env obj meth r0 sfc (of_nat (length d)) rsp t = Some u \<longrightarrow> join_status u \<noteq> DEVICE_JOINED
         \<longrightarrow> tasks env [\<lambda>x. x, reply env sap obj sfc data] s = Some u)
    \<and> (\<forall>u x. DMAP_processDMOResponse env obj meth r0 sfc (of_nat (length d)) rsp t = Some u \<longrightarrow> join_status u = DEVICE_JOINED
         \<longrightarrow> ARMO_Task (dp_env env) (dp_armo u) = Some x \<longrightarrow> tasks env [\<lambda>x. x, reply env sap obj sfc data] s = Some (on_armo (\<lambda>_. x) u))"
proof -
  obtain t rsp r0 where t: "same_device b t" "join_status t = st" "quiet cid t" "att_tables t = att_tables b" "holds rsp 0 d"
    and u: "\<And>u. DMAP_processDMOResponse env obj meth r0 sfc (of_nat (length d)) rsp t = Some u \<Longrightarrow>
         tasks env [\<lambda>x. x, reply env sap obj sfc data] s =
           (if join_status u = DEVICE_JOINED then map_option (\<lambda>x. on_armo (\<lambda>_. x) u) (ARMO_Task (dp_env env) (dp_armo u)) else Some u)"
    using exchange [where sfc = sfc and data = data, OF assms] by blast
  have 1: "tasks env [\<lambda>x. x, reply env sap obj sfc data] s = Some u"
    if "DMAP_processDMOResponse env obj meth r0 sfc (of_nat (length d)) rsp t = Some u" "join_status u \<noteq> DEVICE_JOINED" for u
    unfolding u [OF that(1)] using that(2) by simp
  have 2: "tasks env [\<lambda>x. x, reply env sap obj sfc data] s = Some (on_armo (\<lambda>_. x) u)"
    if "DMAP_processDMOResponse env obj meth r0 sfc (of_nat (length d)) rsp t = Some u" "join_status u = DEVICE_JOINED"
      "ARMO_Task (dp_env env) (dp_armo u) = Some x" for u x
    unfolding u [OF that(1)] using that(2,3) by simp
  show ?thesis using t 1 2 by blast
qed

end
