(* ===== verification/Dmap_Joined.thy ===== *)
theory Dmap_Joined
  imports Dmap_Exchange
begin

text \<open>
  A join that succeeds. A device that starts from nothing makes four exchanges with a manager that holds its join key and is joined
  afterwards: the security join, the join with the system manager, the contract with it and the confirmation.
\<close>

unbundle bit_operations_syntax

section \<open>What stays\<close>

definition kept :: "dmap_state \<Rightarrow> dmap_state \<Rightarrow> bool" where
  "kept s u \<longleftrightarrow> g_stDPO u = g_stDPO s \<and> g_oPendingContractRspMap (dmo_of u) = g_oPendingContractRspMap (dmo_of s)
     \<and> g_aucARMOQueue (dp_armo u) = g_aucARMOQueue (dp_armo s) \<and> g_aARMO (dp_armo u) = g_aARMO (dp_armo s)"

lemma kept_trans: "kept a b \<Longrightarrow> kept b c \<Longrightarrow> kept a c"
  by (simp add: kept_def)

lemma same_device_kept: "same_device s u \<Longrightarrow> kept s u"
  using same_device_fields by (simp add: kept_def)

lemma kept_on [simp]:
  "kept s (on_asl f u) = kept s u" "kept s (on_slme g u) = kept s u" "kept s (set_join_status st u) = kept s u"
  "kept s (u\<lparr>g_aucSecMngChallenge := c\<rparr>) = kept s u" "kept s (on_dmo (in_nlme h) u) = kept s u" "kept s (on_dmo (Dmo_Attributes.in_dmo k) u) = kept s u"
  by (simp_all add: kept_def on_asl_def on_slme_def on_dmo_def set_join_status_def in_nlme_def Dmo_Attributes.in_dmo_def)

section \<open>The first request\<close>

definition prepared :: "dmap_env \<Rightarrow> dmap_state \<Rightarrow> dmap_state" where
  "prepared env s = fst (DMO_generateSecJoinReqBuffer env (NLMO_prepareJoinSMIBS env s))"

lemma set_contract_row:
  assumes "length own = 16" "length sm = 16" "m_oContractsMap n = []" "g_aIPv6Address e = own"
  shows "\<exists>c. m_oContractsMap (fst (NLME_SetRow e 8 ([0, 1] @ own @ [0, 1] @ own @ sm @ [0x03]) 53 n)) = [(1, next_ref n, c)]
    \<and> NLME_CONTRACT_ATTRIBUTES.m_aDestAddress c = sm"
  using assms by (simp add: NLME_SetRow_def NLME_SetRowWithDMOContractParams_def c_aAttributesParams_def NLME_setContract_def bytes_at_def Nlme.be16_def Let_def)

lemma contract_row_att:
  "m_oAttMap16toEntry (fst (NLME_SetRow e 8 d k n)) = m_oAttMap16toEntry n" "m_oAttMap2toEntry (fst (NLME_SetRow e 8 d k n)) = m_oAttMap2toEntry n"
  by (simp_all add: NLME_SetRow_def NLME_SetRowWithDMOContractParams_def c_aAttributesParams_def NLME_setContract_def NLME_delContract_def Let_def split: option.split)

lemma route_row_tables:
  "m_oContractsMap (fst (NLME_SetRow e 5 d k n)) = m_oContractsMap n" "m_oAttMap16toEntry (fst (NLME_SetRow e 5 d k n)) = m_oAttMap16toEntry n"
  "m_oAttMap2toEntry (fst (NLME_SetRow e 5 d k n)) = m_oAttMap2toEntry n"
  by (simp_all add: NLME_SetRow_def NLME_SetRowWithDMOContractParams_def c_aAttributesParams_def NLME_setRoute_def NLME_delRoute_def Let_def split: option.split)

lemma channelI:
  "map_of (m_oContractsMap (asl_state.g_stNlme (asl_of s))) cid = Some (r, c) \<Longrightarrow> NLME_CONTRACT_ATTRIBUTES.m_aDestAddress c = manager_address s
    \<Longrightarrow> channel cid (cid, r) s"
  by (simp add: channel_def find_ref_def lock_def)

lemma prepared_fields:
  "join_status (prepared env s) = join_status s" "dmo_attrs (prepared env s) = dmo_attrs s" "slme_of (prepared env s) = slme_of s"
  "kept s (prepared env s)" "g_oDmoContractsMap (dmo_of (prepared env s)) = g_oDmoContractsMap (dmo_of s)"
  "join_ready env s \<Longrightarrow> join_ready env (prepared env s)"
  by (simp_all add: prepared_def DMO_generateSecJoinReqBuffer_def NLMO_prepareJoinSMIBS_def on_dmo_def in_nlme_def kept_def join_ready_def Let_def)

lemma prepared_quiet:
  assumes "fresh_start s" "length (own_address s) = 16" "length (manager_address s) = 16"
  shows "quiet JOIN_CONTRACT_ID (prepared env s)" "att_tables (prepared env s) = ([], [])"
proof -
  let ?n = "asl_state.g_stNlme (asl_of s)" and ?e = "nlme_env_of env s"
  let ?row = "[0, 1] @ own_address s @ [0, 1] @ own_address s @ manager_address s @ [0x03]"
  define n where "n = fst (NLME_SetRow ?e 8 ?row 53 ?n)"
  obtain c where c: "m_oContractsMap n = [(1, next_ref ?n, c)]" "NLME_CONTRACT_ATTRIBUTES.m_aDestAddress c = manager_address s"
    using set_contract_row [of "own_address s" "manager_address s" ?n ?e] assms by (auto simp: n_def fresh_start_def nlme_env_of_def)
  let ?r = "manager_address s @ manager_address s @ manager_address s @ [1, 1]"
  have "asl_of (prepared env s) = (asl_of s)\<lparr>asl_state.g_stNlme := fst (NLME_SetRow ?e 5 ?r 50 n)\<rparr>"
    by (simp add: prepared_def DMO_generateSecJoinReqBuffer_def NLMO_prepareJoinSMIBS_def on_dmo_def in_nlme_def n_def nlme_env_of_def Let_def)
  then have n': "asl_state.g_stNlme (asl_of (prepared env s)) = fst (NLME_SetRow ?e 5 ?r 50 n)" "g_oAslMsgListTx (asl_of (prepared env s)) = []"
    "g_oAslMsgListRx (asl_of (prepared env s)) = []" using assms(1) by (simp_all add: fresh_start_def)
  then have "channel JOIN_CONTRACT_ID (1, next_ref ?n) (prepared env s)"
    using c prepared_fields(2) [of env s] by (intro channelI [of _ _ _ c]) (simp_all add: route_row_tables)
  then show "quiet JOIN_CONTRACT_ID (prepared env s)" using n'(2,3) by (intro quietI) (simp_all add: cleared_def)
  show "att_tables (prepared env s) = ([], [])"
    using n'(1) assms(1) by (simp add: att_tables_def route_row_tables n_def contract_row_att fresh_start_def)
qed

definition first_request :: "dmap_env \<Rightarrow> dmap_state \<Rightarrow> u8 list" where
  "first_request env s = snd (DMO_generateSecJoinReqBuffer env (NLMO_prepareJoinSMIBS env s))"

lemma length_first_request: "join_ready env s \<Longrightarrow> length (first_request env s) = 30"
  by (simp add: first_request_def DMO_generateSecJoinReqBuffer_def NLMO_prepareJoinSMIBS_def on_dmo_def join_ready_def length_challenge Let_def)

lemma machine_starts:
  assumes "fresh_start s" "length (own_address s) = 16" "length (manager_address s) = 16" "speaks env" "join_ready env s" "1576800000 < tai_now env"
  shows "DMAP_joinStateMachine env s = Some (sent_or_again 4 (send_join_request env (mem_of (first_request env s)) 0 UAP_DMAP_ID JOIN_CONTRACT_ID DMAP_DMO_OBJ_ID
    DMO_PROXY_SEC_SYM_REQ (of_nat (length (first_request env s))) (prepared env s)))"
proof -
  obtain b' where "send_join_request env (mem_of (first_request env s)) 0 UAP_DMAP_ID JOIN_CONTRACT_ID DMAP_DMO_OBJ_ID
    DMO_PROXY_SEC_SYM_REQ (of_nat (length (first_request env s))) (prepared env s) = (b', SFC_SUCCESS)"
    using request_sent [OF assms(4) prepared_quiet(1) [OF assms(1-3)], of "first_request env s" 0 UAP_DMAP_ID DMAP_DMO_OBJ_ID DMO_PROXY_SEC_SYM_REQ env]
      length_first_request [OF assms(5)] by auto
  then show ?thesis
    using assms(1,6) by (simp add: DMAP_joinStateMachine_def fresh_start_def DMAP_startJoin_def prepared_def first_request_def sent_or_again_def split_beta)
qed

section \<open>The security join\<close>

text \<open>A session key that is filed for the system manager and valid from the start.\<close>

definition has_session :: "ipv6 \<Rightarrow> u8 list \<Rightarrow> slme_state \<Rightarrow> bool" where
  "has_session sm key x \<longleftrightarrow> (\<exists>k. map_of (g_oSlmeKeysCatMap x) (KeyCat ISA100_SMAP_PORT ISA100_DMAP_PORT sm) = Some [k] \<and> m_ulValidNotBefore k = 0
     \<and> m_ucUsage k = SLM_KEY_USAGE_SESSION \<and> SLME_KEY.m_aKey k = key)"

lemma session_found:
  "has_session sm key x \<Longrightarrow> \<exists>k. fst (SLME_FindTxKey now (Some sm) ISA100_DMAP_PORT ISA100_SMAP_PORT x) = Some k \<and> SLME_KEY.m_aKey k = key"
  by (auto simp: has_session_def SLME_FindTxKey_def SLME_FindKeyCatIt_def key_category_def Let_def)

lemma session_updated: "has_session sm key x \<Longrightarrow> has_session sm key (SLME_UpdateJoinSessionsKeys issuer sm x)"
  by (auto simp: has_session_def SLME_UpdateJoinSessionsKeys_def map_of_map)

lemma session_filed: "drop 16 (answer_keys env rsp t) = key \<Longrightarrow> has_session (manager_address t) key (with_join_keys env rsp t)"
  using zero_cat_other [of "manager_address t"] by (simp add: has_session_def with_join_keys_def del: put_cat.simps)

definition answer_1 :: "dmap_env \<Rightarrow> u8 list \<Rightarrow> u8 list \<Rightarrow> u8 list \<Rightarrow> dmap_state \<Rightarrow> dmap_state" where
  "answer_1 env chal policies ks = reply env UAP_DMAP_ID DMAP_DMO_OBJ_ID SFC_SUCCESS (security_answer env chal policies 0 ks)"

lemma security_joined:
  assumes "fresh_start s" "length (own_address s) = 16" "length (manager_address s) = 16" "speaks env" "join_ready env s" "1576800000 < tai_now env"
    and "length chal = 16" "length policies = 6" "length ks = 32" "key_lifetime policies \<noteq> 0 \<or> drop 16 ks \<noteq> replicate 16 0"
  shows "\<exists>u. tasks env [\<lambda>x. x, answer_1 env chal policies ks] s = Some u \<and> join_status u = DEVICE_SEND_SM_JOIN_REQ \<and> quiet JOIN_CONTRACT_ID u
    \<and> att_tables u = ([], []) \<and> dmo_attrs u = dmo_attrs s \<and> kept s u \<and> g_oDmoContractsMap (dmo_of u) = [] \<and> length (g_aulNewNodeChallenge u) = 4
    \<and> g_aucSecMngChallenge u = chal \<and> has_session (manager_address s) (drop 16 ks) (slme_of u)"
proof -
  let ?b = "prepared env s" and ?d = "security_answer env chal policies 0 ks"
  note pq = prepared_quiet [OF assms(1-3), of env]
  have dat: "?d x = ?d ?b" if "same_device ?b x" for x
    using same_device_fields [OF that] by (simp add: security_answer_def sealed_keys_def agreed_master_def challenge_def)
  have len: "length (?d ?b) = 71" using assms(7-9) by (simp add: security_answer_def sealed_keys_def)
  have s: "join_status s \<noteq> DEVICE_JOINED" using assms(1) by (simp add: fresh_start_def)
  have small: "length (first_request env s) \<le> 1000" "length (?d ?b) \<le> 1000" "waiting 4"
    using length_first_request [OF assms(5)] len by (simp_all add: waiting_def)
  obtain t rsp r0 where t: "same_device ?b t" "join_status t = 4" "quiet JOIN_CONTRACT_ID t" "att_tables t = att_tables ?b" "holds rsp 0 (?d ?b)"
    and run: "\<And>u. DMAP_processDMOResponse env DMAP_DMO_OBJ_ID DMO_PROXY_SEC_SYM_REQ r0 SFC_SUCCESS (of_nat (length (?d ?b))) rsp t = Some u \<Longrightarrow>
      join_status u \<noteq> DEVICE_JOINED \<Longrightarrow> tasks env [\<lambda>x. x, answer_1 env chal policies ks] s = Some u"
    using exchange_cases [where sfc = SFC_SUCCESS and data = ?d, OF s assms(4) pq(1) small machine_starts [OF assms(1-6)] dat] unfolding answer_1_def by blast
  note f = same_device_fields [OF t(1)]
  have ready: "join_ready env t" using prepared_fields(6) [OF assms(5)] f by (simp add: join_ready_def)
  have nk: "no_keys (slme_of t)" using assms(1) f(2) prepared_fields(3) [of env s] by (simp add: fresh_start_def)
  have h: "holds rsp 0 (?d t)" using t(5) dat [OF t(1)] by simp
  let ?u = "set_join_status DEVICE_SEND_SM_JOIN_REQ (on_slme (\<lambda>_. with_join_keys env rsp t) (t\<lparr>g_aucSecMngChallenge := chal\<rparr>))"
  note acc = answer_accepted [OF ready nk assms(7-10) h, of 71]
  have "DMAP_processDMOResponse env DMAP_DMO_OBJ_ID DMO_PROXY_SEC_SYM_REQ r0 SFC_SUCCESS (of_nat (length (?d ?b))) rsp t = Some ?u"
    using acc(1) t(2) len by (simp add: DMAP_processDMOResponse_def)
  from run [OF this] have "tasks env [\<lambda>x. x, answer_1 env chal policies ks] s = Some ?u" by simp
  moreover have "has_session (manager_address t) (drop 16 ks) (slme_of ?u)"
    using session_filed [of env rsp t] acc(2) by (simp add: set_join_status_def on_slme_def)
  moreover have "kept s ?u" using kept_trans [OF prepared_fields(4) same_device_kept [OF t(1)]] by simp
  moreover have "quiet JOIN_CONTRACT_ID ?u" using t(3) quiet_cong [of ?u t] by (simp add: set_join_status_def on_slme_def)
  ultimately show ?thesis
    using f ready t(4) pq(2) prepared_fields(2,5) [of env s] assms(1)
    by (intro exI [of _ ?u]) (simp add: att_tables_def set_join_status_def on_slme_def on_dmo_def join_ready_def fresh_start_def)
qed

section \<open>The join with the system manager\<close>

text \<open>The addresses and the role of the device, then the addresses and the identifier of the system manager.\<close>

definition manager_answer :: "u8 list \<Rightarrow> u16 \<Rightarrow> u16 \<Rightarrow> u8 list \<Rightarrow> u16 \<Rightarrow> u8 list \<Rightarrow> u8 list" where
  "manager_answer own short role sm smShort eui = own @ DMAP_InsertUint16 short @ DMAP_InsertUint16 role @ sm @ DMAP_InsertUint16 smShort @ eui"

definition answer_2 :: "dmap_env \<Rightarrow> u8 list \<Rightarrow> dmap_state \<Rightarrow> dmap_state" where
  "answer_2 env d = reply env UAP_DMAP_ID DMAP_DMO_OBJ_ID SFC_SUCCESS (\<lambda>_. d)"

lemma manager_answer_fields:
  assumes "holds rsp 0 (manager_answer own short role sm smShort eui)" "length own = 16" "length sm = 16" "length eui = 8"
  shows "mem_bytes rsp 0 16 = own" "mem_bytes rsp 20 16 = sm" "mem_bytes rsp 38 8 = eui"
proof -
  have "holds rsp 0 own" "holds rsp 20 sm" "holds rsp 38 eui"
    using assms by (simp_all add: manager_answer_def DMAP_InsertUint16_def)
  then show "mem_bytes rsp 0 16 = own" "mem_bytes rsp 20 16 = sm" "mem_bytes rsp 38 8 = eui"
    using assms(2-4) by (simp_all add: holds_iff_mem_bytes)
qed

lemma length_join_request:
  assumes "length (device_eui env) = 8" "length (m_aucTagName (dmo_attrs s)) = 16" "length (c_aucSWRevInfo (dp_const env)) \<le> 255"
  shows "length (DMO_generateSMJoinReqBuffer env s) \<le> 1000"
  using assms by (simp add: DMO_generateSMJoinReqBuffer_def DLMO_ReadDeviceCapability_def DLMO_InsertExtDLUint_def DMAP_InsertUint16_def)

lemma manager_joined:
  fixes short role smShort :: u16
  assumes "join_status s = DEVICE_SEND_SM_JOIN_REQ" "quiet JOIN_CONTRACT_ID s" "speaks env" "length (DMO_generateSMJoinReqBuffer env s) \<le> 1000"
    and "length own = 16" "length (manager_address s) = 16" "length eui = 8" "has_session (manager_address s) key (slme_of s)"
  defines "d \<equiv> manager_answer own short role (manager_address s) smShort eui"
  shows "\<exists>u. tasks env [\<lambda>x. x, answer_2 env d] s = Some u \<and> join_status u = DEVICE_SEND_SM_CONTR_REQ \<and> quiet JOIN_CONTRACT_ID u \<and> att_tables u = att_tables s
    \<and> own_address u = own \<and> manager_address u = manager_address s \<and> kept s u \<and> g_oDmoContractsMap (dmo_of u) = g_oDmoContractsMap (dmo_of s)
    \<and> g_aulNewNodeChallenge u = g_aulNewNodeChallenge s \<and> g_aucSecMngChallenge u = g_aucSecMngChallenge s \<and> has_session (manager_address s) key (slme_of u)"
proof -
  let ?req = "DMO_generateSMJoinReqBuffer env s"
  have len: "length d = 46" using assms(5-7) by (simp add: d_def manager_answer_def DMAP_InsertUint16_def)
  have s: "join_status s \<noteq> DEVICE_JOINED" using assms(1) by simp
  have m: "DMAP_joinStateMachine env s = Some (sent_or_again 6 (send_join_request env (mem_of ?req) 3 UAP_DMAP_ID JOIN_CONTRACT_ID DMAP_DMO_OBJ_ID
      DMO_PROXY_SM_JOIN_REQ (of_nat (length ?req)) s))"
    using assms(1) by (simp add: DMAP_joinStateMachine_def Let_def)
  have small: "length d \<le> 1000" "waiting 6" using len by (simp_all add: waiting_def)
  obtain t rsp r0 where t: "same_device s t" "join_status t = 6" "quiet JOIN_CONTRACT_ID t" "att_tables t = att_tables s" "holds rsp 0 d"
    and run: "\<And>u. DMAP_processDMOResponse env DMAP_DMO_OBJ_ID DMO_PROXY_SM_JOIN_REQ r0 SFC_SUCCESS (of_nat (length d)) rsp t = Some u \<Longrightarrow>
      join_status u \<noteq> DEVICE_JOINED \<Longrightarrow> tasks env [\<lambda>x. x, answer_2 env d] s = Some u"
    using exchange_cases [where sfc = SFC_SUCCESS and data = "\<lambda>_. d", OF s assms(3,2,4) small m refl] unfolding answer_2_def by blast
  note f = same_device_fields [OF t(1)] and a = manager_answer_fields [OF t(5) [unfolded d_def] assms(5-7)]
  define u where "u = DMO_checkSMJoinResponse SFC_SUCCESS 46 rsp t"
  have u: "join_status u = 7" "asl_of u = asl_of t" "own_address u = own" "manager_address u = manager_address s" "kept t u"
    "g_oDmoContractsMap (dmo_of u) = g_oDmoContractsMap (dmo_of t)" "g_aulNewNodeChallenge u = g_aulNewNodeChallenge t"
    "g_aucSecMngChallenge u = g_aucSecMngChallenge t" "slme_of u = SLME_UpdateJoinSessionsKeys eui (manager_address s) (slme_of t)"
    using a by (simp_all add: u_def DMO_checkSMJoinResponse_def Let_def on_slme_def on_dmo_def set_join_status_def kept_def Dmo_Attributes.in_dmo_def)
  have "DMAP_processDMOResponse env DMAP_DMO_OBJ_ID DMO_PROXY_SM_JOIN_REQ r0 SFC_SUCCESS (of_nat (length d)) rsp t = Some u"
    using t(2) len by (simp add: DMAP_processDMOResponse_def u_def)
  from run [OF this] have "tasks env [\<lambda>x. x, answer_2 env d] s = Some u" by (simp add: u(1))
  moreover have "quiet JOIN_CONTRACT_ID u" using t(3) quiet_cong [of u t] u(2,4) f(1) by simp
  moreover have "kept s u" using kept_trans [OF same_device_kept [OF t(1)] u(5)] .
  moreover have "has_session (manager_address s) key (slme_of u)" using session_updated [OF assms(8)] u(9) f(2) by simp
  ultimately show ?thesis using u f t(4) by (intro exI [of _ u]) (simp add: att_tables_def)
qed

section \<open>The contract\<close>

definition answer_3 :: "dmap_env \<Rightarrow> u8 list \<Rightarrow> dmap_state \<Rightarrow> dmap_state" where
  "answer_3 env d = reply env UAP_DMAP_ID DMAP_DMO_OBJ_ID SFC_SUCCESS (\<lambda>_. d)"

lemma first_nl_contract:
  assumes "length (DMO_ATTRIBUTES.m_auc128BitAddr d) = 16" "length (DMO_ATTRIBUTES.m_aucSysMng128BitAddr d) = 16" "m_oContractsMap n = []"
  shows "\<exists>n' nc. set_first_nl_contract env rsp c d n = (n', SFC_SUCCESS) \<and> m_oContractsMap n' = [(DMO_CONTRACT_ATTRIBUTE.m_unContractID c, next_ref n, nc)]
    \<and> NLME_CONTRACT_ATTRIBUTES.m_aDestAddress nc = DMO_ATTRIBUTES.m_aucSysMng128BitAddr d
    \<and> m_oAttMap16toEntry n' = m_oAttMap16toEntry n \<and> m_oAttMap2toEntry n' = m_oAttMap2toEntry n"
  using assms
  by (simp add: set_first_nl_contract_def NLME_setContract_def bytes_at_def Nlme.be16_def DMAP_InsertUint16_def Let_def join_bytes_u16)

lemma first_contract_processed:
  assumes "28 \<le> len" "g_oDmoContractsMap x = []" "length (DMO_ATTRIBUTES.m_auc128BitAddr (dmo_state.g_stDMO x)) = 16"
    "length (DMO_ATTRIBUTES.m_aucSysMng128BitAddr (dmo_state.g_stDMO x)) = 16"
  shows "\<exists>n r c nc. DMO_ProcessFirstContract env SFC_SUCCESS len rsp x = in_nlme (\<lambda>_. n)
      (x\<lparr>g_oDmoContractsMap := [(DMO_CONTRACT_ATTRIBUTE.m_unContractID c, c)], dmo_state.g_unSysMngContractID := DMO_CONTRACT_ATTRIBUTE.m_unContractID c,
         dmo_state.g_ucJoinStatus := DEVICE_SEND_SEC_CONFIRM_REQ\<rparr>)
    \<and> m_oContractsMap n = [(DMO_CONTRACT_ATTRIBUTE.m_unContractID c, r, nc)]
    \<and> NLME_CONTRACT_ATTRIBUTES.m_aDestAddress nc = DMO_ATTRIBUTES.m_aucSysMng128BitAddr (dmo_state.g_stDMO x)
    \<and> m_oAttMap16toEntry n = m_oAttMap16toEntry (asl_state.g_stNlme (dm_asl x)) \<and> m_oAttMap2toEntry n = m_oAttMap2toEntry (asl_state.g_stNlme (dm_asl x))"
proof -
  define c where "c = first_contract env rsp x"
  let ?n = "(asl_state.g_stNlme (dm_asl x))\<lparr>m_oContractsMap := []\<rparr>" and ?cid = "DMO_CONTRACT_ATTRIBUTE.m_unContractID c"
  obtain n nc where n: "set_first_nl_contract env rsp c (dmo_state.g_stDMO x) ?n = (n, SFC_SUCCESS)" "m_oContractsMap n = [(?cid, next_ref ?n, nc)]"
    "NLME_CONTRACT_ATTRIBUTES.m_aDestAddress nc = DMO_ATTRIBUTES.m_aucSysMng128BitAddr (dmo_state.g_stDMO x)"
    "m_oAttMap16toEntry n = m_oAttMap16toEntry ?n" "m_oAttMap2toEntry n = m_oAttMap2toEntry ?n"
    using first_nl_contract [OF assms(3,4), of ?n env rsp c] by auto
  define saved where "saved = (case NLME_FindContract JOIN_CONTRACT_ID (asl_state.g_stNlme (dm_asl x)) of Some c \<Rightarrow> NLME_CONTRACT_ATTRIBUTES.m_ucReqID c | None \<Rightarrow> 0)"
  have "DMO_ProcessFirstContract env SFC_SUCCESS len rsp x = in_nlme (\<lambda>_. inherit_request_id ?cid saved n)
      (x\<lparr>g_oDmoContractsMap := [(?cid, c\<lparr>m_nUsageCount := 0\<rparr>)], dmo_state.g_unSysMngContractID := ?cid, dmo_state.g_ucJoinStatus := DEVICE_SEND_SEC_CONFIRM_REQ\<rparr>)"
    using assms(1,2) n(1) by (simp add: DMO_ProcessFirstContract_def c_def [symmetric] saved_def Let_def not_less)
  moreover have "inherit_request_id ?cid saved n = n\<lparr>m_oContractsMap := [(?cid, next_ref ?n, nc\<lparr>NLME_CONTRACT_ATTRIBUTES.m_ucReqID := saved\<rparr>)]\<rparr>"
    using n(2) by (simp add: inherit_request_id_def)
  ultimately show ?thesis
    using n(3-5)
    by (intro exI [of _ "inherit_request_id ?cid saved n"] exI [of _ "next_ref ?n"] exI [of _ "c\<lparr>m_nUsageCount := 0\<rparr>"]
        exI [of _ "nc\<lparr>NLME_CONTRACT_ATTRIBUTES.m_ucReqID := saved\<rparr>"]) simp
qed

lemma att_row_set:
  assumes "length sm = 16" "length short = 2" "m_oAttMap16toEntry n = []" "m_oAttMap2toEntry n = []"
  shows "snd (NLME_SetRow e 9 (sm @ sm @ short) 34 n) = SFC_SUCCESS" "m_oContractsMap (fst (NLME_SetRow e 9 (sm @ sm @ short) 34 n)) = m_oContractsMap n"
  using assms by (simp_all add: NLME_SetRow_def NLME_SetRowWithDMOContractParams_def c_aAttributesParams_def NLME_setATT_def bytes_at_def Let_def)

lemma contract_answered_well:
  fixes env :: dmap_env and rsp :: mem
  assumes "28 \<le> len" "join_status t = 8" "g_oDmoContractsMap (dmo_of t) = []" "length (own_address t) = 16" "length (manager_address t) = 16"
    and "att_tables t = ([], [])" "has_session (manager_address t) key (slme_of t)" "cleared (g_oAslMsgListTx (asl_of t))" "g_oAslMsgListRx (asl_of t) = []"
  defines "u \<equiv> first_contract_answer env SFC_SUCCESS len rsp t"
  shows "join_status u = DEVICE_SEND_SEC_CONFIRM_REQ" "quiet (manager_contract u) u" "kept t u" "manager_address u = manager_address t"
    "\<exists>c. g_oDmoContractsMap (dmo_of u) = [(DMO_CONTRACT_ATTRIBUTE.m_unContractID c, c)]"
    "g_aulNewNodeChallenge u = g_aulNewNodeChallenge t" "g_aucSecMngChallenge u = g_aucSecMngChallenge t"
    "has_session (manager_address t) key (slme_of u)" "m_ucTLSecurityLevel (slme_state.g_stDSMO (slme_of u)) = SECURITY_ENC_MIC_32"
proof -
  obtain n r c nc where p: "DMO_ProcessFirstContract (dmo_env_of env) SFC_SUCCESS len rsp (dmo_of t) = in_nlme (\<lambda>_. n)
      ((dmo_of t)\<lparr>g_oDmoContractsMap := [(DMO_CONTRACT_ATTRIBUTE.m_unContractID c, c)], dmo_state.g_unSysMngContractID := DMO_CONTRACT_ATTRIBUTE.m_unContractID c,
         dmo_state.g_ucJoinStatus := DEVICE_SEND_SEC_CONFIRM_REQ\<rparr>)"
    and n: "m_oContractsMap n = [(DMO_CONTRACT_ATTRIBUTE.m_unContractID c, r, nc)]" "NLME_CONTRACT_ATTRIBUTES.m_aDestAddress nc = manager_address t"
      "m_oAttMap16toEntry n = []" "m_oAttMap2toEntry n = []"
    using first_contract_processed [OF assms(1,3-5), of "dmo_env_of env" rsp] assms(6) by (auto simp: att_tables_def)
  define s1 where "s1 = on_dmo (DMO_ProcessFirstContract (dmo_env_of env) SFC_SUCCESS len rsp) t"
  have s1: "join_status s1 = DEVICE_SEND_SEC_CONFIRM_REQ" "asl_state.g_stNlme (asl_of s1) = n" "dmo_attrs s1 = dmo_attrs t" "slme_of s1 = slme_of t"
    "g_oAslMsgListTx (asl_of s1) = g_oAslMsgListTx (asl_of t)" "g_oAslMsgListRx (asl_of s1) = []" "manager_contract s1 = DMO_CONTRACT_ATTRIBUTE.m_unContractID c"
    "g_oDmoContractsMap (dmo_of s1) = [(DMO_CONTRACT_ATTRIBUTE.m_unContractID c, c)]" "kept t s1"
    "g_aulNewNodeChallenge s1 = g_aulNewNodeChallenge t" "g_aucSecMngChallenge s1 = g_aucSecMngChallenge t"
    using assms(9) by (simp_all add: s1_def p in_nlme_def kept_def on_dmo_def)
  let ?row = "manager_address t @ manager_address t @ DMAP_InsertUint16 (m_unSysMngShortAddr (dmo_attrs t))"
  define s2 where "s2 = on_dmo (in_nlme (\<lambda>_. fst (NLME_SetRow (nlme_env_of env s1) 9 ?row 34 n))) s1"
  have row: "snd (NLME_SetRow e 9 ?row 34 n) = SFC_SUCCESS" "m_oContractsMap (fst (NLME_SetRow e 9 ?row 34 n)) = m_oContractsMap n" for e
    using att_row_set [OF assms(5) _ n(3,4)] by (simp_all add: DMAP_InsertUint16_def)
  have upd: "NLMO_updateJoinSMIBS env s1 = (s2, SFC_SUCCESS)"
    using row(1) [of "nlme_env_of env s1"] by (simp add: NLMO_updateJoinSMIBS_def s1 s2_def Let_def split_beta)
  have s2: "join_status s2 = join_status s1" "m_oContractsMap (asl_state.g_stNlme (asl_of s2)) = m_oContractsMap n" "dmo_attrs s2 = dmo_attrs s1" "slme_of s2 = slme_of s1"
    "g_oAslMsgListTx (asl_of s2) = g_oAslMsgListTx (asl_of s1)" "g_oAslMsgListRx (asl_of s2) = g_oAslMsgListRx (asl_of s1)" "manager_contract s2 = manager_contract s1"
    "g_oDmoContractsMap (dmo_of s2) = g_oDmoContractsMap (dmo_of s1)" "kept t s2"
    "g_aulNewNodeChallenge s2 = g_aulNewNodeChallenge s1" "g_aucSecMngChallenge s2 = g_aucSecMngChallenge s1"
    using s1(9) row(2) by (simp_all add: s2_def in_nlme_def kept_def on_dmo_def)
  obtain k where "fst (SLME_FindTxKey (tai_now env) (Some (manager_address t)) ISA100_DMAP_PORT ISA100_SMAP_PORT (slme_of s2)) = Some k"
    using session_found [OF assms(7)] s1(4) s2(4) by metis
  then have u: "u = on_slme (Slme_Keys.in_dsmo (\<lambda>d. d\<lparr>m_ucTLSecurityLevel := SECURITY_ENC_MIC_32\<rparr>)) s2"
    using upd s1(1,3) s2(3) by (simp add: u_def first_contract_answer_def s1_def [symmetric])
  show "join_status u = DEVICE_SEND_SEC_CONFIRM_REQ" "kept t u" "manager_address u = manager_address t"
    "\<exists>c. g_oDmoContractsMap (dmo_of u) = [(DMO_CONTRACT_ATTRIBUTE.m_unContractID c, c)]"
    "g_aulNewNodeChallenge u = g_aulNewNodeChallenge t" "g_aucSecMngChallenge u = g_aucSecMngChallenge t"
    "m_ucTLSecurityLevel (slme_state.g_stDSMO (slme_of u)) = SECURITY_ENC_MIC_32" "has_session (manager_address t) key (slme_of u)"
    using s1 s2 assms(7) by (simp_all add: u) (auto simp: on_slme_def on_dmo_def Slme_Keys.in_dsmo_def has_session_def)
  have "asl_of u = asl_of s2" "manager_contract u = manager_contract s2" "manager_address u = manager_address t" using s1(3) s2(3) by (simp_all add: u on_slme_def)
  then have "channel (manager_contract u) (manager_contract u, r) u"
    using n(1,2) s1(7) s2(2,7) by (intro channelI [of _ _ _ nc]) simp_all
  then show "quiet (manager_contract u) u"
    using \<open>asl_of u = asl_of s2\<close> s1(5,6) s2(5,6) assms(8) by (intro quietI) simp_all
qed

lemma contract_joined:
  assumes "join_status s = DEVICE_SEND_SM_CONTR_REQ" "quiet JOIN_CONTRACT_ID s" "speaks env" "length (device_eui env) = 8" "28 \<le> length d" "length d \<le> 1000"
    and "g_oDmoContractsMap (dmo_of s) = []" "length (own_address s) = 16" "length (manager_address s) = 16" "att_tables s = ([], [])"
    and "has_session (manager_address s) key (slme_of s)"
  shows "\<exists>u. tasks env [\<lambda>x. x, answer_3 env d] s = Some u \<and> join_status u = DEVICE_SEND_SEC_CONFIRM_REQ \<and> quiet (manager_contract u) u \<and> kept s u
    \<and> (\<exists>c. g_oDmoContractsMap (dmo_of u) = [(DMO_CONTRACT_ATTRIBUTE.m_unContractID c, c)]) \<and> manager_address u = manager_address s
    \<and> g_aulNewNodeChallenge u = g_aulNewNodeChallenge s \<and> g_aucSecMngChallenge u = g_aucSecMngChallenge s
    \<and> has_session (manager_address s) key (slme_of u) \<and> m_ucTLSecurityLevel (slme_state.g_stDSMO (slme_of u)) = SECURITY_ENC_MIC_32"
proof -
  have s: "join_status s \<noteq> DEVICE_JOINED" using assms(1) by simp
  have m: "DMAP_joinStateMachine env s = Some (sent_or_again 8 (send_join_request env (mem_of (device_eui env)) 3 UAP_DMAP_ID JOIN_CONTRACT_ID DMAP_DMO_OBJ_ID
      DMO_PROXY_SM_CONTR_REQ (of_nat (length (device_eui env))) s))"
    using assms(1,4) by (simp add: DMAP_joinStateMachine_def Let_def)
  have small: "length (device_eui env) \<le> 1000" "length d \<le> 1000" "waiting 8" using assms(4,6) by (simp_all add: waiting_def)
  obtain t rsp r0 where t: "same_device s t" "join_status t = 8" "quiet JOIN_CONTRACT_ID t" "att_tables t = att_tables s" "holds rsp 0 d"
    and run: "\<And>u. DMAP_processDMOResponse env DMAP_DMO_OBJ_ID DMO_PROXY_SM_CONTR_REQ r0 SFC_SUCCESS (of_nat (length d)) rsp t = Some u \<Longrightarrow>
      join_status u \<noteq> DEVICE_JOINED \<Longrightarrow> tasks env [\<lambda>x. x, answer_3 env d] s = Some u"
    using exchange_cases [where sfc = SFC_SUCCESS and data = "\<lambda>_. d", OF s assms(3,2) small m refl] unfolding answer_3_def by blast
  note f = same_device_fields [OF t(1)]
  have len: "28 \<le> (of_nat (length d) :: u16)" using assms(5,6) by (simp add: word_le_nat_alt unsigned_of_nat take_bit_nat_eq_self)
  define u where "u = first_contract_answer env SFC_SUCCESS (of_nat (length d)) rsp t"
  note u = contract_answered_well [OF len t(2), of key env rsp, folded u_def]
  have pre: "g_oDmoContractsMap (dmo_of t) = []" "length (own_address t) = 16" "length (manager_address t) = 16" "att_tables t = ([], [])"
    "has_session (manager_address t) key (slme_of t)" "cleared (g_oAslMsgListTx (asl_of t))" "g_oAslMsgListRx (asl_of t) = []"
    using assms(7-11) f t(3,4) by (simp_all add: quiet_def)
  have "DMAP_processDMOResponse env DMAP_DMO_OBJ_ID DMO_PROXY_SM_CONTR_REQ r0 SFC_SUCCESS (of_nat (length d)) rsp t = Some u"
    using t(2) by (simp add: DMAP_processDMOResponse_def u_def)
  from run [OF this] have "tasks env [\<lambda>x. x, answer_3 env d] s = Some u" using u(1) [OF pre] by simp
  moreover have "kept s u" using kept_trans [OF same_device_kept [OF t(1)] u(3) [OF pre]] .
  ultimately show ?thesis using u [OF pre] f by (intro exI [of _ u]) simp
qed

section \<open>The confirmation\<close>

definition answer_4 :: "dmap_env \<Rightarrow> dmap_state \<Rightarrow> dmap_state" where
  "answer_4 env = reply env UAP_SMAP_ID SM_PSMO_OBJ_ID SFC_SUCCESS (\<lambda>_. [])"

lemma add_object_cong:
  assumes "\<And>q. object_apdu m (assign_request_id q y) = object_apdu m' (assign_request_id q y)" "\<And>q. object_oids m (assign_request_id q y) = object_oids m' (assign_request_id q y)"
  shows "ASLSRVC_AddGenericObject cfg m x y a = ASLSRVC_AddGenericObject cfg m' x y a"
  unfolding ASLSRVC_AddGenericObject_def ASLSRVC_AddGenericObjectEncryptable_def ASLSRVC_AddGenericObjectEncryptableCore_def queue_header_def assms ..

lemma send_reads_octets:
  "send_join_request env m prio sap cid obj meth n s = send_join_request env (mem_of (mem_bytes m 0 (unat n))) prio sap cid obj meth n s"
proof -
  have "mem_bytes (mem_of (mem_bytes m 0 k)) 0 k = mem_bytes m 0 k" for k using holds_mem_of [of "mem_bytes m 0 k"] by (simp add: holds_iff_mem_bytes)
  then have "ASLSRVC_AddGenericObject cfg m x (Service (ExecReq (EXEC_REQ_SRVC.make src obj 0 meth n 0))) a =
      ASLSRVC_AddGenericObject cfg (mem_of (mem_bytes m 0 (unat n))) x (Service (ExecReq (EXEC_REQ_SRVC.make src obj 0 meth n 0))) a" for cfg x src a
    by (intro add_object_cong) (simp_all add: ASLSRVC_setExecuteReqObj_def EXEC_REQ_SRVC.make_def)
  then show ?thesis by (simp add: send_join_request_def add_object_def)
qed

lemma confirmed:
  assumes "join_status s = DEVICE_SEND_SEC_CONFIRM_REQ" "quiet (manager_contract s) s" "speaks env" "join_ready env s" "length (g_aucSecMngChallenge s) = 16"
    and "armo_inv (dp_armo s)"
  shows "\<exists>u. tasks env [\<lambda>x. x, answer_4 env] s = Some u \<and> join_status u = DEVICE_JOINED \<and> slme_of u = slme_of s"
proof -
  let ?req = "hmac (cipher_of env) (join_key s) (confirm_input env s)"
  have s: "join_status s \<noteq> DEVICE_JOINED" using assms(1) by simp
  have "length (confirm_input env s) = 48" using assms(4,5) by (simp add: confirm_input_def join_ready_def length_challenge)
  then have "Keyed_Hash_MAC (cipher_of env) (join_key s) (local_mem env) (mem_of (confirm_input env s)) 0 48 =
      Some (mem_write (mem_of (confirm_input env s)) 0 ?req, SFC_SUCCESS)"
    using assms(4) holds_mem_of [of "confirm_input env s"] by (simp add: join_ready_def Keyed_Hash_runs holds_iff_mem_bytes)
  then have m: "DMAP_joinStateMachine env s = Some (sent_or_again 12 (send_join_request env (mem_of ?req) 3 UAP_SMAP_ID (manager_contract s) SM_PSMO_OBJ_ID
      PSMO_SECURITY_JOIN_CONF (of_nat (length ?req)) s))"
    using assms(1) send_reads_octets [of env "mem_write (mem_of (confirm_input env s)) 0 ?req" 3 UAP_SMAP_ID "manager_contract s" SM_PSMO_OBJ_ID
        PSMO_SECURITY_JOIN_CONF 16 s]
    by (simp add: DMAP_joinStateMachine_def Let_def)
  have small: "length ?req \<le> 1000" "length ([] :: u8 list) \<le> 1000" "waiting 12" by (simp_all add: waiting_def)
  obtain t rsp r0 where t: "same_device s t" "join_status t = 12"
    and run: "\<And>u x. DMAP_processDMOResponse env SM_PSMO_OBJ_ID PSMO_SECURITY_JOIN_CONF r0 SFC_SUCCESS (of_nat (length ([] :: u8 list))) rsp t = Some u \<Longrightarrow>
      join_status u = DEVICE_JOINED \<Longrightarrow> ARMO_Task (dp_env env) (dp_armo u) = Some x \<Longrightarrow> tasks env [\<lambda>x. x, answer_4 env] s = Some (on_armo (\<lambda>_. x) u)"
    using exchange_cases [where sfc = SFC_SUCCESS and data = "\<lambda>_. []", OF s assms(3,2) small m refl] unfolding answer_4_def by blast
  note f = same_device_fields [OF t(1)]
  define u where "u = DMAP_DMO_applyJoinStatus env SFC_SUCCESS t"
  have u: "DMAP_processDMOResponse env SM_PSMO_OBJ_ID PSMO_SECURITY_JOIN_CONF r0 SFC_SUCCESS (of_nat (length ([] :: u8 list))) rsp t = Some u"
    "join_status u = DEVICE_JOINED" using t(2) by (simp_all add: DMAP_processDMOResponse_def u_def DMAP_DMO_applyJoinStatus_def Let_def)
  have "armo_inv (dp_armo u)"
    using assms(6) f by (simp add: u_def DMAP_DMO_applyJoinStatus_def Let_def armo_inv_def req_inv_def set_join_status_def on_dmo_def)
  then obtain x where x: "ARMO_Task (dp_env env) (dp_armo u) = Some x" using task_returns by blast
  from run [OF u this] have "tasks env [\<lambda>x. x, answer_4 env] s = Some (on_armo (\<lambda>_. x) u)" .
  moreover have "join_status (on_armo (\<lambda>_. x) u) = DEVICE_JOINED" using armo_task_status [OF x] u(2) by simp
  moreover have "slme_of (on_armo (\<lambda>_. x) u) = slme_of s"
    using armo_task_status [OF x] f(2) by (simp add: u_def DMAP_DMO_applyJoinStatus_def set_join_status_def Let_def)
  ultimately show ?thesis by blast
qed

section \<open>All four\<close>

text \<open>What the device receives in its eight runs: nothing, or the answer to its last request.\<close>

definition join_script :: "dmap_env \<Rightarrow> u8 list \<Rightarrow> u8 list \<Rightarrow> u8 list \<Rightarrow> u8 list \<Rightarrow> u8 list \<Rightarrow> (dmap_state \<Rightarrow> dmap_state) list" where
  "join_script env chal policies ks d2 d3 =
     [\<lambda>x. x, answer_1 env chal policies ks] @ [\<lambda>x. x, answer_2 env d2] @ [\<lambda>x. x, answer_3 env d3] @ [\<lambda>x. x, answer_4 env]"

lemma script_same: "\<forall>recv\<in>set (join_script env chal policies ks d2 d3). \<forall>x. same_join x (recv x)"
  by (simp add: join_script_def answer_1_def answer_2_def answer_3_def answer_4_def reply_same)

text \<open>A device and its surroundings that are fit to join.\<close>

definition can_join :: "dmap_env \<Rightarrow> dmap_state \<Rightarrow> bool" where
  "can_join env s \<longleftrightarrow> fresh_start s \<and> armo_inv (dp_armo s) \<and> join_ready env s \<and> speaks env \<and> 1576800000 < tai_now env
     \<and> length (own_address s) = 16 \<and> length (manager_address s) = 16 \<and> length (m_aucTagName (dmo_attrs s)) = 16 \<and> length (c_aucSWRevInfo (dp_const env)) \<le> 255"

lemma join_completed:
  assumes "can_join env s"
    and "length chal = 16" "length policies = 6" "length ks = 32" "key_lifetime policies \<noteq> 0 \<or> drop 16 ks \<noteq> replicate 16 0"
    and "length own = 16" "length eui = 8" "28 \<le> length d" "length d \<le> 1000"
  shows "\<exists>u. tasks env (join_script env chal policies ks (manager_answer own short role (manager_address s) smShort eui) d) s = Some u
    \<and> join_status u = DEVICE_JOINED \<and> has_session (manager_address s) (drop 16 ks) (slme_of u)
    \<and> m_ucTLSecurityLevel (slme_state.g_stDSMO (slme_of u)) = SECURITY_ENC_MIC_32"
proof -
  have c: "fresh_start s" "length (own_address s) = 16" "length (manager_address s) = 16" "speaks env" "join_ready env s" "1576800000 < tai_now env"
    "armo_inv (dp_armo s)" "length (m_aucTagName (dmo_attrs s)) = 16" "length (c_aucSWRevInfo (dp_const env)) \<le> 255"
    using assms(1) by (simp_all add: can_join_def)
  have eui: "length (device_eui env) = 8" "length (manager_eui env) = 8" "length (join_key s) = 16" using c(5) by (simp_all add: join_ready_def)
  obtain u1 where t1: "tasks env [\<lambda>x. x, answer_1 env chal policies ks] s = Some u1" and u1: "join_status u1 = DEVICE_SEND_SM_JOIN_REQ"
    "quiet JOIN_CONTRACT_ID u1" "att_tables u1 = ([], [])" "dmo_attrs u1 = dmo_attrs s" "kept s u1" "g_oDmoContractsMap (dmo_of u1) = []"
    "length (g_aulNewNodeChallenge u1) = 4" "g_aucSecMngChallenge u1 = chal" "has_session (manager_address s) (drop 16 ks) (slme_of u1)"
    using security_joined [OF c(1-6) assms(2-5)] by blast
  let ?d = "manager_answer own short role (manager_address s) smShort eui"
  have "length (DMO_generateSMJoinReqBuffer env u1) \<le> 1000" using length_join_request [OF eui(1) _ c(9)] c(8) u1(4) by simp
  from manager_joined [OF u1(1,2) c(4) this assms(6) _ assms(7), of "drop 16 ks" short role smShort]
  obtain u2 where t2: "tasks env [\<lambda>x. x, answer_2 env ?d] u1 = Some u2" and u2: "join_status u2 = DEVICE_SEND_SM_CONTR_REQ"
    "quiet JOIN_CONTRACT_ID u2" "att_tables u2 = ([], [])" "own_address u2 = own" "manager_address u2 = manager_address s" "kept u1 u2"
    "g_oDmoContractsMap (dmo_of u2) = []" "g_aulNewNodeChallenge u2 = g_aulNewNodeChallenge u1" "g_aucSecMngChallenge u2 = chal"
    "has_session (manager_address s) (drop 16 ks) (slme_of u2)" using c(3) u1 by auto
  from contract_joined [OF u2(1,2) c(4) eui(1) assms(8,9) u2(7), of "drop 16 ks"]
  obtain u3 where t3: "tasks env [\<lambda>x. x, answer_3 env d] u2 = Some u3" and u3: "join_status u3 = DEVICE_SEND_SEC_CONFIRM_REQ"
    "quiet (manager_contract u3) u3" "kept u2 u3" "\<exists>c. g_oDmoContractsMap (dmo_of u3) = [(DMO_CONTRACT_ATTRIBUTE.m_unContractID c, c)]"
    "g_aulNewNodeChallenge u3 = g_aulNewNodeChallenge u1" "g_aucSecMngChallenge u3 = chal" "has_session (manager_address s) (drop 16 ks) (slme_of u3)"
    "m_ucTLSecurityLevel (slme_state.g_stDSMO (slme_of u3)) = SECURITY_ENC_MIC_32"
    using c(3) u2 assms(6) by auto
  have k: "kept s u3" using u1(5) u2(6) u3(3) kept_trans by blast
  then have ready: "join_ready env u3" using eui u1(7) u3(5) by (simp add: join_ready_def kept_def)
  have "armo_inv (dp_armo u3)" using c(7) k u3(4) by (auto simp: armo_inv_def kept_def req_inv_def sorted_map_def)
  from confirmed [OF u3(1,2) c(4) ready _ this] obtain u where t4: "tasks env [\<lambda>x. x, answer_4 env] u3 = Some u" and u: "join_status u = DEVICE_JOINED" "slme_of u = slme_of u3"
    using u3(6) assms(2) by auto
  show ?thesis
    using t1 t2 t3 t4 u u3(7,8) by (intro exI [of _ u]) (simp only: join_script_def tasks_append option.case simp_thms)
qed

lemma joining_can_join: "can_join (joining_env 1600000000) (joining 0 0)"
proof -
  have "fresh_start (joining 0 0)"
    using joining_no_keys [of 0 0] by (simp add: fresh_start_def joining_dmo_def empty_dmo_def start_state_def ASLDE_Init_queues_def empty_nlme_def)
  moreover have "armo_inv (dp_armo (joining 0 0))"
    by (simp add: armo_inv_def joining_def dmap_state.defs armo_state.defs joining_dmo_def empty_dmo_def req_inv_def keyed_def sorted_map_def queue_end_def)
  moreover have "speaks (joining_env 1600000000)" "1576800000 < tai_now (joining_env 1600000000)"
    by (simp_all add: sample_dmo_env_def sample_env_def sample_config_def)
  moreover have "length (c_aucSWRevInfo (dp_const (joining_env 1600000000))) \<le> 255" by (simp add: joining_env_def dmap_env.defs)
  ultimately show ?thesis using joining_ready by (simp add: can_join_def blank_dmo_def)
qed

section \<open>Properties\<close>

text \<open>C2:
  A join succeeds. A freshly started device whose manager holds the same join key, eight runs of the task long with an answer to its
  request in every second one, is joined: it has passed the checks of all four answers, the session key that the security manager
  issued is the one it uses towards the system manager, and its transport layer encrypts.
\<close>
theorem join_succeeds:
  assumes "can_join env s"
    and "length chal = 16" "length policies = 6" "length dll = 16" "length sess = 16" "key_lifetime policies \<noteq> 0 \<or> sess \<noteq> replicate 16 0"
    and "length own = 16" "length eui = 8" "28 \<le> length d" "length d \<le> 1000"
  shows "\<exists>u k. tasks env (join_script env chal policies (dll @ sess) (manager_answer own short role (manager_address s) smShort eui) d) s = Some u
    \<and> join_status u = DEVICE_JOINED
    \<and> fst (SLME_FindTxKey (tai_now env) (Some (manager_address s)) ISA100_DMAP_PORT ISA100_SMAP_PORT (slme_of u)) = Some k \<and> SLME_KEY.m_aKey k = sess
    \<and> m_ucTLSecurityLevel (slme_state.g_stDSMO (slme_of u)) = SECURITY_ENC_MIC_32"
proof -
  have ks: "length (dll @ sess) = 32" "drop 16 (dll @ sess) = sess" using assms(4,5) by simp_all
  obtain u where u: "tasks env (join_script env chal policies (dll @ sess) (manager_answer own short role (manager_address s) smShort eui) d) s = Some u"
    "join_status u = DEVICE_JOINED" "has_session (manager_address s) sess (slme_of u)" "m_ucTLSecurityLevel (slme_state.g_stDSMO (slme_of u)) = SECURITY_ENC_MIC_32"
    using join_completed [OF assms(1-3) ks(1) _ assms(7-10), of short role smShort] assms(6) ks(2) by auto
  then show ?thesis using session_found [OF u(3)] by blast
qed

theorem join_succeeds_witness:
  "\<exists>u k. tasks (joining_env 1600000000) (join_script (joining_env 1600000000) (replicate 16 9) [0, 0, 0, 0, 0, 1] (replicate 16 5 @ replicate 16 6)
      (manager_answer (replicate 16 3) 7 1 (manager_address (joining 0 0)) 8 (replicate 8 4)) (replicate 28 0)) (joining 0 0) = Some u
    \<and> join_status u = DEVICE_JOINED
    \<and> fst (SLME_FindTxKey 1600000000 (Some (manager_address (joining 0 0))) ISA100_DMAP_PORT ISA100_SMAP_PORT (slme_of u)) = Some k
    \<and> SLME_KEY.m_aKey k = replicate 16 6 \<and> m_ucTLSecurityLevel (slme_state.g_stDSMO (slme_of u)) = SECURITY_ENC_MIC_32"
proof -
  have "tai_now (joining_env 1600000000) = 1600000000" by (simp add: sample_dmo_env_def sample_env_def)
  with join_succeeds [OF joining_can_join, of "replicate 16 9" "[0, 0, 0, 0, 0, 1]" "replicate 16 5" "replicate 16 6" "replicate 16 3" "replicate 8 4" "replicate 28 0" 7 1 8]
  show ?thesis using sample_lifetime by simp
qed

text \<open>C4:
  A device joins in the order of the protocol. Whatever it receives and whenever its tasks run, a device that started in discovery and
  has joined has, since it was last in discovery, accepted an answer of the security manager, then the join response of the system
  manager, then the contract with it, and then the confirmation; none of these stations is skipped.
\<close>
theorem joined_only_in_order:
  assumes "join_run s hs t" and "join_status s = DEVICE_DISCOVERY" and "join_status t = DEVICE_JOINED"
  shows "subseq [DEVICE_JOINED, DEVICE_SEND_SEC_CONFIRM_REQ, DEVICE_SEND_SM_CONTR_REQ, DEVICE_SEND_SM_JOIN_REQ] (last_attempt hs)"
  using run_stations [OF assms(1,2)] assms(3) by (simp add: stations_def)

theorem joined_only_in_order_witness:
  "\<exists>hs t. join_run (joining 0 0) hs t \<and> join_status t = DEVICE_JOINED
    \<and> subseq [DEVICE_JOINED, DEVICE_SEND_SEC_CONFIRM_REQ, DEVICE_SEND_SM_CONTR_REQ, DEVICE_SEND_SM_JOIN_REQ] (last_attempt hs)"
proof -
  obtain t where "tasks (joining_env 1600000000) (join_script (joining_env 1600000000) (replicate 16 9) [0, 0, 0, 0, 0, 1] (replicate 32 5)
      (manager_answer (replicate 16 3) 7 1 (manager_address (joining 0 0)) 8 (replicate 8 4)) (replicate 28 0)) (joining 0 0) = Some t" "join_status t = DEVICE_JOINED"
    using join_completed [OF joining_can_join, of "replicate 16 9" "[0, 0, 0, 0, 0, 1]" "replicate 32 5" "replicate 16 3" "replicate 8 4" "replicate 28 0" 7 1 8] sample_lifetime
    by auto
  moreover from this obtain hs where "join_run (joining 0 0) hs t" using tasks_run [OF _ script_same join_run.start] by blast
  ultimately show ?thesis using joined_only_in_order [of "joining 0 0" hs t] by auto
qed

end
