(* ===== verification/Bbr_Packet.thy ===== *)
theory Bbr_Packet
  imports Nlme
begin

text \<open>
  The packets of the backbone router (\<^verbatim>\<open>Shared/ProtocolPacket.cpp\<close>): a buffer with room in front of and behind the octets of the packet, so
  that layers put their headers on and take them off without copying. The pointers are positions in the buffer. The octets of a new
  buffer are unspecified: \<open>junk i\<close> is what position \<open>i\<close> of it holds.
\<close>

record ProtocolPacket =
  m_pBuf :: "u8 list"
  m_pHead :: nat
  m_pTail :: nat

definition packet_wf :: "ProtocolPacket \<Rightarrow> bool" where
  "packet_wf p \<longleftrightarrow> m_pHead p \<le> m_pTail p \<and> m_pTail p \<le> length (m_pBuf p)"

definition Data :: "ProtocolPacket \<Rightarrow> u8 list" where
  "Data p = drop (m_pHead p) (take (m_pTail p) (m_pBuf p))"

definition DataLen :: "ProtocolPacket \<Rightarrow> nat" where
  "DataLen p = m_pTail p - m_pHead p"

definition PushFront :: "u8 list \<Rightarrow> ProtocolPacket \<Rightarrow> ProtocolPacket \<times> bool" where
  "PushFront bs p =
     (if m_pHead p < length bs then (p, False)
      else (p\<lparr>m_pHead := m_pHead p - length bs, m_pBuf := take (m_pHead p - length bs) (m_pBuf p) @ bs @ drop (m_pHead p) (m_pBuf p)\<rparr>, True))"

definition PopFront :: "nat \<Rightarrow> ProtocolPacket \<Rightarrow> ProtocolPacket \<times> u8 list option" where
  "PopFront n p =
     (if m_pTail p < m_pHead p + n then (p, None)
      else (p\<lparr>m_pHead := m_pHead p + n\<rparr>, Some (take n (drop (m_pHead p) (m_pBuf p)))))"

definition PushBack :: "u8 list \<Rightarrow> ProtocolPacket \<Rightarrow> ProtocolPacket \<times> bool" where
  "PushBack bs p =
     (if length (m_pBuf p) < m_pTail p + length bs then (p, False)
      else (p\<lparr>m_pTail := m_pTail p + length bs, m_pBuf := take (m_pTail p) (m_pBuf p) @ bs @ drop (m_pTail p + length bs) (m_pBuf p)\<rparr>, True))"

text \<open>
  \<open>out\<close> tells whether the caller wants the octets. The result is the packet, the value returned and the octets; the value is false when
  octets were handed out.
\<close>

definition PopBack :: "bool \<Rightarrow> nat \<Rightarrow> ProtocolPacket \<Rightarrow> ProtocolPacket \<times> bool \<times> u8 list" where
  "PopBack out n p =
     (if n = 0 then (p, True, [])
      else if m_pTail p < m_pHead p + n then (p, False, [])
      else if \<not> out then (p\<lparr>m_pTail := m_pTail p - n\<rparr>, True, [])
      else (p\<lparr>m_pTail := m_pTail p - n\<rparr>, False, take n (drop (m_pTail p - n) (m_pBuf p))))"

text \<open>The size of the buffer is kept in 16 bits; with more octets than that the copy would write behind the buffer.\<close>

definition AllocateCopy :: "(nat \<Rightarrow> u8) \<Rightarrow> u8 list \<Rightarrow> nat \<Rightarrow> nat \<Rightarrow> ProtocolPacket option" where
  "AllocateCopy junk msg headSpare tailSpare =
     (if 65536 \<le> headSpare + length msg + tailSpare then None
      else Some \<lparr>m_pBuf = map junk [0..<headSpare] @ msg @ map junk [headSpare + length msg..<headSpare + length msg + tailSpare],
             m_pHead = headSpare, m_pTail = headSpare + length msg\<rparr>)"

text \<open>\<open>n\<close> octets from position \<open>off\<close> behind the head on, as \<^verbatim>\<open>memcpy\<close> reads them; undefined outside of the buffer.\<close>

definition read_at :: "ProtocolPacket \<Rightarrow> nat \<Rightarrow> nat \<Rightarrow> u8 list option" where
  "read_at p off n = (if m_pHead p + off + n \<le> length (m_pBuf p) then Some (take n (drop (m_pHead p + off) (m_pBuf p))) else None)"

section \<open>A packet is a sequence of octets\<close>

lemma length_Data: "packet_wf p \<Longrightarrow> length (Data p) = DataLen p"
  by (simp add: Data_def DataLen_def packet_wf_def)

lemma PushFront_data:
  assumes "packet_wf p" and "length bs \<le> m_pHead p"
  shows "snd (PushFront bs p)" "Data (fst (PushFront bs p)) = bs @ Data p" "packet_wf (fst (PushFront bs p))"
    "m_pHead (fst (PushFront bs p)) = m_pHead p - length bs"
    "length (m_pBuf (fst (PushFront bs p))) - m_pTail (fst (PushFront bs p)) = length (m_pBuf p) - m_pTail p"
proof -
  let ?h = "m_pHead p" and ?n = "length bs" and ?t = "m_pTail p"
  have a: "?n \<le> ?h" "?h \<le> ?t" "?t \<le> length (m_pBuf p)" using assms by (simp_all add: packet_wf_def)
  then have eqs: "?t - (?h - ?n) - ?n = ?t - ?h" "?n \<le> ?t - (?h - ?n)" "min (length (m_pBuf p)) (?h - ?n) = ?h - ?n" by simp_all
  show "snd (PushFront bs p)" "packet_wf (fst (PushFront bs p))" "m_pHead (fst (PushFront bs p)) = ?h - ?n"
    "length (m_pBuf (fst (PushFront bs p))) - m_pTail (fst (PushFront bs p)) = length (m_pBuf p) - ?t"
    using a eqs by (simp_all add: PushFront_def packet_wf_def)
  show "Data (fst (PushFront bs p)) = bs @ Data p" using a eqs by (simp add: PushFront_def Data_def drop_take)
qed

lemma PopFront_data:
  assumes "packet_wf p" and "n \<le> length (Data p)"
  shows "snd (PopFront n p) = Some (take n (Data p))" "Data (fst (PopFront n p)) = drop n (Data p)" "packet_wf (fst (PopFront n p))"
proof -
  have n: "m_pHead p + n \<le> m_pTail p" using assms by (auto simp: length_Data DataLen_def packet_wf_def)
  have "take n (drop (m_pHead p) (m_pBuf p)) = take n (Data p)" using n by (simp add: Data_def drop_take min_def)
  then show "snd (PopFront n p) = Some (take n (Data p))" "Data (fst (PopFront n p)) = drop n (Data p)" "packet_wf (fst (PopFront n p))"
    using assms n by (simp_all add: PopFront_def Data_def packet_wf_def add.commute)
qed

lemma PopFront_short:
  assumes "packet_wf p" and "length (Data p) < n"
  shows "PopFront n p = (p, None)"
  using assms by (auto simp: PopFront_def length_Data DataLen_def packet_wf_def)

lemma PushBack_data:
  assumes "packet_wf p" and "m_pTail p + length bs \<le> length (m_pBuf p)"
  shows "snd (PushBack bs p)" "Data (fst (PushBack bs p)) = Data p @ bs" "packet_wf (fst (PushBack bs p))"
  using assms by (auto simp: PushBack_def Data_def packet_wf_def)

lemma AllocateCopy_data:
  assumes "h + length msg + t < 65536"
  obtains p where "AllocateCopy junk msg h t = Some p" "Data p = msg" "packet_wf p" "m_pHead p = h" "length (m_pBuf p) = m_pTail p + t"
proof
  let ?p = "\<lparr>m_pBuf = map junk [0..<h] @ msg @ map junk [h + length msg..<h + length msg + t], m_pHead = h, m_pTail = h + length msg\<rparr>"
  show "AllocateCopy junk msg h t = Some ?p" using assms by (simp add: AllocateCopy_def)
  show "Data ?p = msg" by (simp add: Data_def)
qed (simp_all add: packet_wf_def)

end
