(* ===== verification/Bbr_Defrgm.thy ===== *)
theory Bbr_Defrgm
  imports Bbr_Packet
begin

text \<open>
  The table in which the backbone router puts the fragments of 6LoWPAN datagrams together (\<^verbatim>\<open>BackBone/DeFrgmTbl.cpp\<close>), with the binary search
  of \<^verbatim>\<open>Shared/h.h\<close>. The table is the list of the first \<^verbatim>\<open>m_uiLength\<close> entries of \<^verbatim>\<open>m_aFrgTbl\<close>. A result \<open>None\<close> is undefined
  behaviour: a shift by 32 or more places (\<^verbatim>\<open>unsigned long\<close> has 32 bits on the target).
\<close>

unbundle bit_operations_syntax

section \<open>Binary search\<close>

function bin_loop :: "('a \<Rightarrow> int) \<Rightarrow> 'a list \<Rightarrow> int \<Rightarrow> int \<Rightarrow> bool \<times> int" where
  "bin_loop compare hay low high =
     (if low \<le> high then
        let mid = (low + high) div 2; rv = compare (hay ! nat mid) in
        if rv = 0 then (True, mid)
        else if rv < 0 then bin_loop compare hay low (mid - 1)
        else bin_loop compare hay (mid + 1) high
      else (False, low))"
  by pat_completeness auto

termination bin_loop
  by (relation "measure (\<lambda>(compare, hay, low, high). nat (high - low + 1))") auto

declare bin_loop.simps [simp del]

definition binSearch :: "nat \<Rightarrow> 'k \<Rightarrow> 'a list \<Rightarrow> ('k \<Rightarrow> 'a \<Rightarrow> int) \<Rightarrow> bool \<times> int" where
  "binSearch p_iHayStackSz p_tNeedle p_tHayStack compare = bin_loop (compare p_tNeedle) p_tHayStack 0 (int p_iHayStackSz - 1)"

section \<open>The table\<close>

record MsgHandle =
  bitfield :: u32
  TagShortAddr :: u32
  timestamp :: int
  msgPtr :: "u8 list"
  dstAddr :: u16
  msgSz :: u16
  frgSz :: u16
  u8TrafficClass :: u8
  pu8IPv6 :: "u8 list option"

definition FRGM_KEY :: "u16 \<Rightarrow> u16 \<Rightarrow> u32" where
  "FRGM_KEY TAG ADDR = push_bit 16 (ucast TAG) OR ucast ADDR"

definition compareTagAddr :: "u32 \<Rightarrow> MsgHandle \<Rightarrow> int" where
  "compareTagAddr key m = (if key < TagShortAddr m then - 1 else if key \<noteq> TagShortAddr m then 1 else 0)"

definition new_handle :: "int \<Rightarrow> (nat \<Rightarrow> u8) \<Rightarrow> u32 \<Rightarrow> u16 \<Rightarrow> u8 \<Rightarrow> u16 \<Rightarrow> u16 \<Rightarrow> u8 list option \<Rightarrow> MsgHandle" where
  "new_handle now junk key p_dstAddr p_u8TrafficClass p_msgSz p_frgSz p_pu8Ipv6 =
     \<lparr>bitfield = push_bit ((unat p_msgSz - 1) div unat p_frgSz) 0xFFFFFFFE, TagShortAddr = key, timestamp = now,
      msgPtr = map junk [0..<unat p_msgSz], dstAddr = p_dstAddr, msgSz = p_msgSz, frgSz = p_frgSz, u8TrafficClass = p_u8TrafficClass,
      pu8IPv6 = p_pu8Ipv6\<rparr>"

definition startMsg :: "int \<Rightarrow> (nat \<Rightarrow> u8) \<Rightarrow> u16 \<Rightarrow> u16 \<Rightarrow> u16 \<Rightarrow> u8 \<Rightarrow> u16 \<Rightarrow> u16 \<Rightarrow> u8 list option \<Rightarrow> MsgHandle list
    \<Rightarrow> (MsgHandle list \<times> bool) option" where
  "startMsg now junk dgramTag srcAddr p_dstAddr p_u8TrafficClass p_msgSz p_frgSz p_pu8Ipv6 t =
     (if p_frgSz < 1280 div 32 then Some (t, False)
      else if p_frgSz > p_msgSz then Some (t, False)
      else if length t \<ge> 256 then Some (t, False)
      else
        let key = FRGM_KEY dgramTag srcAddr; (found, i) = binSearch (length t) key t compareTagAddr in
        if found then Some (t, False)
        else
          if 32 \<le> (unat p_msgSz - 1) div unat p_frgSz then None
          else Some (take (nat i) t @ [new_handle now junk key p_dstAddr p_u8TrafficClass p_msgSz p_frgSz p_pu8Ipv6] @ drop (nat i) t, True))"

definition put_fragment :: "nat \<Rightarrow> u8 list \<Rightarrow> MsgHandle \<Rightarrow> MsgHandle" where
  "put_fragment off frg m =
     m\<lparr>bitfield := bitfield m OR push_bit (off div unat (frgSz m)) 1,
       msgPtr := take off (msgPtr m) @ frg @ drop (off + length frg) (msgPtr m)\<rparr>"

definition addFragment_tbl :: "u16 \<Rightarrow> u16 \<Rightarrow> u16 \<Rightarrow> u8 list \<Rightarrow> MsgHandle list \<Rightarrow> (MsgHandle list \<times> bool) option" where
  "addFragment_tbl dgramTag srcAddr dgramOff frg t =
     (if t = [] then Some (t, False)
      else
        let (found, i) = binSearch (length t) (FRGM_KEY dgramTag srcAddr) t compareTagAddr; m = t ! nat i in
        if \<not> found then Some (t, False)
        else if unat dgramOff + length frg > unat (msgSz m) then Some (t, False)
        else
          let n = unat dgramOff div unat (frgSz m) in
          if 32 \<le> n then None
          else if bitfield m AND push_bit n 1 \<noteq> 0 then Some (t, False)
          else Some (t[nat i := put_fragment (unat dgramOff) frg m], True))"

definition dropMsg :: "nat \<Rightarrow> 'a list \<Rightarrow> 'a list" where
  "dropMsg idx t = take idx t @ drop (Suc idx) t"

primrec drop_loop :: "int \<Rightarrow> nat \<Rightarrow> MsgHandle list \<Rightarrow> MsgHandle list" where
  "drop_loop tExpirationTime 0 t = t"
| "drop_loop tExpirationTime (Suc i) t = drop_loop tExpirationTime i (if tExpirationTime > timestamp (t ! i) then dropMsg i t else t)"

definition dropExpired :: "int \<Rightarrow> MsgHandle list \<Rightarrow> MsgHandle list" where
  "dropExpired now t = drop_loop (now - 120) (length t) t"

text \<open>\<^verbatim>\<open>NetMsgTrToBbrHeader\<close> as it lies in memory: the traffic class and both short addresses, in the order of a little-endian host.\<close>

definition tr_header :: "u8 \<Rightarrow> u16 \<Rightarrow> u16 \<Rightarrow> u8 list" where
  "tr_header tc src dst = [tc] @ native_u16 src @ native_u16 dst"

definition full_packet :: "(nat \<Rightarrow> u8) \<Rightarrow> MsgHandle \<Rightarrow> ProtocolPacket option" where
  "full_packet junk m =
     map_option (\<lambda>p.
         let p = (case pu8IPv6 m of Some a \<Rightarrow> fst (PushFront a p) | None \<Rightarrow> p)
         in fst (PushFront (tr_header 0 (ucast (TagShortAddr m)) (dstAddr m)) p))
       (AllocateCopy junk (msgPtr m) (5 + (case pu8IPv6 m of Some _ \<Rightarrow> 16 | None \<Rightarrow> 0)) 0)"

fun full_loop :: "nat \<Rightarrow> MsgHandle list \<Rightarrow> nat option" where
  "full_loop i [] = None"
| "full_loop i (m # t) = (if bitfield m = 0xFFFFFFFF then Some i else full_loop (Suc i) t)"

definition hasFullMsg :: "(nat \<Rightarrow> u8) \<Rightarrow> MsgHandle list \<Rightarrow> (MsgHandle list \<times> ProtocolPacket option) option" where
  "hasFullMsg junk t =
     (case full_loop 0 t of
        None \<Rightarrow> Some (t, None)
      | Some i \<Rightarrow> map_option (\<lambda>p. (dropMsg i t, Some p)) (full_packet junk (t ! i)))"

section \<open>The search finds\<close>

lemma bin_loop_cases:
  assumes "low \<le> high" "mid = (low + high) div 2"
  shows "bin_loop compare hay low high =
    (if compare (hay ! nat mid) = 0 then (True, mid)
     else if compare (hay ! nat mid) < 0 then bin_loop compare hay low (mid - 1) else bin_loop compare hay (mid + 1) high)"
  using assms by (subst bin_loop.simps) (simp add: Let_def)

lemma bin_loop_found:
  assumes "0 \<le> low" "high < int (length hay)" and "bin_loop compare hay low high = (True, i)"
  shows "0 \<le> i \<and> i < int (length hay) \<and> compare (hay ! nat i) = 0"
  using assms
proof (induction compare hay low high rule: bin_loop.induct)
  case (1 compare hay low high)
  have le: "low \<le> high" using 1(5) by (subst (asm) bin_loop.simps) (simp split: if_splits)
  define mid where "mid = (low + high) div 2"
  have m: "low \<le> mid" "mid \<le> high" using le by (simp_all add: mid_def)
  note step = 1(5) [unfolded bin_loop_cases [OF le mid_def]]
  consider "compare (hay ! nat mid) = 0" | "compare (hay ! nat mid) < 0" | "compare (hay ! nat mid) > 0" by linarith
  then show ?case
  proof cases
    case 1
    then show ?thesis using step m \<open>0 \<le> low\<close> \<open>high < int (length hay)\<close> by simp
  next
    case 2
    then show ?thesis using step m 1(3,4) by (intro 1(1) [OF le mid_def refl]) simp_all
  next
    case 3
    then show ?thesis using step m 1(3,4) by (intro 1(2) [OF le mid_def refl]) simp_all
  qed
qed

text \<open>A comparison that follows the order of the list: behind an element that is not before the needle all are behind it.\<close>

definition ordered_by :: "('a \<Rightarrow> int) \<Rightarrow> 'a list \<Rightarrow> bool" where
  "ordered_by compare hay \<longleftrightarrow> (\<forall>k<length hay. \<forall>j<k. compare (hay ! j) \<le> 0 \<longrightarrow> compare (hay ! k) < 0)"

lemma bin_loop_absent:
  assumes "ordered_by compare hay" and "0 \<le> low" "low \<le> high + 1" "high < int (length hay)" and "bin_loop compare hay low high = (False, i)"
    and "\<forall>j. int j < low \<longrightarrow> compare (hay ! j) > 0" and "\<forall>j<length hay. high < int j \<longrightarrow> compare (hay ! j) < 0"
  shows "0 \<le> i \<and> i \<le> int (length hay) \<and> (\<forall>j<nat i. compare (hay ! j) > 0) \<and> (\<forall>j<length hay. nat i \<le> j \<longrightarrow> compare (hay ! j) < 0)"
  using assms
proof (induction compare hay low high rule: bin_loop.induct)
  case (1 compare hay low high)
  show ?case
  proof (cases "low \<le> high")
    case False
    then have "i = low" "high + 1 = low" using 1(5,7) by (simp_all add: bin_loop.simps)
    then show ?thesis using 1(4,6,8,9) by (simp add: nat_less_iff nat_le_iff)
  next
    case True
    define mid where "mid = (low + high) div 2"
    have m: "low \<le> mid" "mid \<le> high" using True by (simp_all add: mid_def)
    note step = 1(7) [unfolded bin_loop_cases [OF True mid_def]]
    have nz: "compare (hay ! nat mid) \<noteq> 0" using step by (auto split: if_splits)
    show ?thesis
    proof (cases "compare (hay ! nat mid) < 0")
      case neg: True
      have "\<forall>j<length hay. mid - 1 < int j \<longrightarrow> compare (hay ! j) < 0"
      proof (intro allI impI)
        fix j assume j: "j < length hay" "mid - 1 < int j"
        then consider "j = nat mid" | "nat mid < j" by linarith
        then show "compare (hay ! j) < 0"
          by cases (use neg 1(3) j in \<open>auto simp: ordered_by_def\<close>)
      qed
      then show ?thesis
        using step m nz neg 1(3-8) by (intro 1(1) [OF True mid_def refl nz neg]) simp_all
    next
      case pos: False
      have "\<forall>j. int j < mid + 1 \<longrightarrow> compare (hay ! j) > 0"
      proof (intro allI impI)
        fix j assume j: "int j < mid + 1"
        then consider "j = nat mid" | "j < nat mid" by linarith
        then show "compare (hay ! j) > 0"
        proof cases
          case 2
          have "nat mid < length hay" using m 1(4,6) by linarith
          then show ?thesis using pos 2 1(3) by (fastforce simp: ordered_by_def not_le)
        qed (use pos nz in simp)
      qed
      then show ?thesis
        using step m nz pos 1(3-7,9) by (intro 1(2) [OF True mid_def refl nz pos]) simp_all
    qed
  qed
qed

section \<open>The table is a map\<close>

definition keys_sorted :: "MsgHandle list \<Rightarrow> bool" where
  "keys_sorted t \<longleftrightarrow> sorted_wrt (<) (map TagShortAddr t)"

definition look :: "MsgHandle list \<Rightarrow> u32 \<Rightarrow> MsgHandle option" where
  "look t = map_of (map (\<lambda>m. (TagShortAddr m, m)) t)"

lemma compare_sign [simp]:
  "compareTagAddr k m < 0 \<longleftrightarrow> k < TagShortAddr m" "compareTagAddr k m > 0 \<longleftrightarrow> TagShortAddr m < k"
  "compareTagAddr k m \<le> 0 \<longleftrightarrow> k \<le> TagShortAddr m" "compareTagAddr k m = 0 \<longleftrightarrow> TagShortAddr m = k"
  by (auto simp: compareTagAddr_def)

lemma compare_ordered: "keys_sorted t \<Longrightarrow> ordered_by (compareTagAddr k) t"
  by (auto simp: keys_sorted_def ordered_by_def sorted_wrt_iff_nth_less intro: le_less_trans)

lemma frgm_search_found:
  assumes "binSearch (length t) k t compareTagAddr = (True, i)"
  shows "nat i < length t" "TagShortAddr (t ! nat i) = k"
proof -
  have "0 \<le> i \<and> i < int (length t) \<and> compareTagAddr k (t ! nat i) = 0"
    using assms by (intro bin_loop_found [of 0 "int (length t) - 1"]) (simp_all add: binSearch_def)
  then show "nat i < length t" "TagShortAddr (t ! nat i) = k" by auto
qed

lemma search_absent:
  assumes "keys_sorted t" and "binSearch (length t) k t compareTagAddr = (False, i)"
  shows "nat i \<le> length t" "\<forall>m\<in>set (take (nat i) t). TagShortAddr m < k" "\<forall>m\<in>set (drop (nat i) t). k < TagShortAddr m"
proof -
  have a: "0 \<le> i \<and> i \<le> int (length t) \<and> (\<forall>j<nat i. compareTagAddr k (t ! j) > 0) \<and> (\<forall>j<length t. nat i \<le> j \<longrightarrow> compareTagAddr k (t ! j) < 0)"
    using assms by (intro bin_loop_absent [of _ t 0 "int (length t) - 1"] compare_ordered) (simp_all add: binSearch_def)
  then show "nat i \<le> length t" by linarith
  then show "\<forall>m\<in>set (take (nat i) t). TagShortAddr m < k" "\<forall>m\<in>set (drop (nat i) t). k < TagShortAddr m"
    using a by (auto simp: in_set_conv_nth)
qed

lemma look_None_iff: "look t k = None \<longleftrightarrow> k \<notin> TagShortAddr ` set t"
  by (auto simp: look_def map_of_eq_None_iff image_image)

lemma look_nth:
  assumes "keys_sorted t" and "i < length t"
  shows "look t (TagShortAddr (t ! i)) = Some (t ! i)"
proof -
  have "distinct (map fst (map (\<lambda>m. (TagShortAddr m, m)) t))" using assms(1) by (simp add: keys_sorted_def strict_sorted_iff comp_def)
  then show ?thesis unfolding look_def by (rule map_of_is_SomeI) (use assms(2) in auto)
qed

lemma look_Some:
  assumes "look t k = Some m"
  shows "m \<in> set t" "TagShortAddr m = k"
  using map_of_SomeD [OF assms [unfolded look_def]] by auto

lemma search_look:
  assumes "keys_sorted t"
  shows "fst (binSearch (length t) k t compareTagAddr) \<longleftrightarrow> look t k \<noteq> None"
proof (cases "binSearch (length t) k t compareTagAddr")
  case (Pair b i)
  show ?thesis
  proof (cases b)
    case True
    then show ?thesis using Pair frgm_search_found [of t k i] look_nth [OF assms, of "nat i"] by auto
  next
    case False
    then have "k \<notin> TagShortAddr ` set (take (nat i) t @ drop (nat i) t)"
      using Pair search_absent [OF assms, of k i] by (auto simp del: append_take_drop_id)
    then show ?thesis using False Pair by (simp add: look_None_iff)
  qed
qed

lemma insert_sorted_look:
  assumes "keys_sorted t" and "\<forall>m\<in>set (take i t). TagShortAddr m < TagShortAddr x" "\<forall>m\<in>set (drop i t). TagShortAddr x < TagShortAddr m"
  shows "keys_sorted (take i t @ x # drop i t)" "look (take i t @ x # drop i t) = (look t)(TagShortAddr x \<mapsto> x)"
proof -
  have "sorted_wrt (<) (map TagShortAddr (take i t @ drop i t))" using assms(1) by (simp add: keys_sorted_def)
  then show "keys_sorted (take i t @ x # drop i t)"
    using assms(2,3) unfolding keys_sorted_def map_append sorted_wrt_append by auto
  have "look (take i t @ drop i t) k = look (drop i t) k" if "look (take i t) k = None" for k
    using that by (simp add: look_def map_add_def del: append_take_drop_id)
  moreover have "look (take i t) (TagShortAddr x) = None" using assms(2) by (auto simp: look_None_iff)
  ultimately show "look (take i t @ x # drop i t) = (look t)(TagShortAddr x \<mapsto> x)"
    unfolding look_def map_append list.map map_of_append
    by (subst (3) append_take_drop_id [of i t, symmetric]) (auto simp: map_add_def fun_eq_iff split: option.splits simp del: append_take_drop_id)
qed

lemma look_iff:
  assumes "keys_sorted t"
  shows "look t k = Some m \<longleftrightarrow> (\<exists>i<length t. t ! i = m \<and> TagShortAddr m = k)"
  using look_nth [OF assms] look_Some [of t k m] by (auto simp: in_set_conv_nth)

lemma update_look:
  assumes "keys_sorted t" and "i < length t" and "TagShortAddr x = TagShortAddr (t ! i)"
  shows "keys_sorted (t[i := x])" "look (t[i := x]) = (look t)(TagShortAddr x \<mapsto> x)"
proof -
  have "map TagShortAddr (t[i := x]) = map TagShortAddr t"
    using assms(2,3) by (intro nth_equalityI) (auto simp: nth_list_update)
  then show s: "keys_sorted (t[i := x])" using assms(1) by (simp add: keys_sorted_def)
  have inj: "j = i" if "j < length t" "TagShortAddr (t ! j) = TagShortAddr x" for j
    using that assms nth_eq_iff_index_eq [of "map TagShortAddr t" j i] by (simp add: keys_sorted_def strict_sorted_iff)
  have "look (t[i := x]) k = Some m \<longleftrightarrow> ((look t)(TagShortAddr x \<mapsto> x)) k = Some m" for k m
    using assms inj by (auto simp: look_iff [OF s] look_iff [OF assms(1)] nth_list_update) metis
  then show "look (t[i := x]) = (look t)(TagShortAddr x \<mapsto> x)" by (intro ext) (metis not_None_eq)
qed

lemma dropMsg_look:
  assumes "keys_sorted t" and "i < length t"
  shows "keys_sorted (dropMsg i t)" "look (dropMsg i t) = (look t)(TagShortAddr (t ! i) := None)"
proof -
  let ?k = "TagShortAddr (t ! i)"
  have t: "t = take i t @ t ! i # drop (Suc i) t" using assms(2) by (rule id_take_nth_drop)
  then have "sorted_wrt (<) (map TagShortAddr (take i t @ t ! i # drop (Suc i) t))" using assms(1) by (simp add: keys_sorted_def)
  then have s: "keys_sorted (dropMsg i t)" and k: "\<forall>m\<in>set (take i t). TagShortAddr m < ?k" "\<forall>m\<in>set (drop (Suc i) t). ?k < TagShortAddr m"
    unfolding keys_sorted_def dropMsg_def map_append sorted_wrt_append by auto
  show "keys_sorted (dropMsg i t)" by (rule s)
  have d: "take i (dropMsg i t) = take i t" "drop i (dropMsg i t) = drop (Suc i) t" using assms(2) by (simp_all add: dropMsg_def)
  have "look t = (look (dropMsg i t))(?k \<mapsto> t ! i)"
    using insert_sorted_look(2) [OF s, of i "t ! i"] k t by (simp add: d)
  moreover have "look (dropMsg i t) ?k = None" using k by (auto simp: look_None_iff dropMsg_def)
  ultimately show "look (dropMsg i t) = (look t)(?k := None)" by (auto simp: fun_eq_iff)
qed

section \<open>The operations on the map\<close>

definition last_fragment :: "MsgHandle \<Rightarrow> nat" where
  "last_fragment m = (unat (msgSz m) - 1) div unat (frgSz m)"

definition handle_ok :: "MsgHandle \<Rightarrow> bool" where
  "handle_ok m \<longleftrightarrow> length (msgPtr m) = unat (msgSz m) \<and> 40 \<le> unat (frgSz m) \<and> frgSz m \<le> msgSz m \<and> last_fragment m < 32
     \<and> (\<forall>i<32. last_fragment m < i \<longrightarrow> bit (bitfield m) i)"

definition table_ok :: "MsgHandle list \<Rightarrow> bool" where
  "table_ok t \<longleftrightarrow> keys_sorted t \<and> length t \<le> 256 \<and> (\<forall>m\<in>set t. handle_ok m)"

lemma table_okD: "table_ok t \<Longrightarrow> keys_sorted t" "table_ok t \<Longrightarrow> look t k = Some m \<Longrightarrow> handle_ok m" "table_ok t \<Longrightarrow> length t \<le> 256"
  using look_Some by (auto simp: table_ok_def)

lemma bit_unused: "bit (push_bit n (0xFFFFFFFE :: u32)) i \<longleftrightarrow> n < i \<and> i < 32"
proof -
  have "(0xFFFFFFFE :: u32) = NOT 1" by simp
  then show ?thesis by (auto simp only: bit_push_bit_iff bit_not_iff bit_1_iff) (auto simp: possible_bit_word)
qed

lemma new_handle_ok:
  assumes "1280 div 32 \<le> f" "f \<le> n" "(unat n - 1) div unat f < 32"
  shows "handle_ok (new_handle now junk k dst tc n f ip)"
  using assms by (simp add: handle_ok_def new_handle_def last_fragment_def bit_unused word_le_nat_alt)

lemma put_fragment_ok:
  assumes "handle_ok m" and "off + length frg \<le> unat (msgSz m)"
  shows "handle_ok (put_fragment off frg m)"
  using assms by (simp add: handle_ok_def put_fragment_def last_fragment_def bit_or_iff)

definition may_start :: "MsgHandle list \<Rightarrow> u32 \<Rightarrow> u16 \<Rightarrow> u16 \<Rightarrow> bool" where
  "may_start t k n f \<longleftrightarrow> 40 \<le> f \<and> f \<le> n \<and> length t < 256 \<and> look t k = None"

lemma startMsg_refused:
  assumes "table_ok t" and "\<not> may_start t (FRGM_KEY tag src) n f"
  shows "startMsg now junk tag src dst tc n f ip t = Some (t, False)"
  using assms search_look [OF table_okD(1) [OF assms(1)], of "FRGM_KEY tag src"]
  by (auto simp: startMsg_def may_start_def not_less not_le Let_def split: prod.splits)

lemma startMsg_undefined:
  assumes "table_ok t" and "may_start t (FRGM_KEY tag src) n f" and "32 \<le> (unat n - 1) div unat f"
  shows "startMsg now junk tag src dst tc n f ip t = None"
  using assms search_look [OF table_okD(1) [OF assms(1)], of "FRGM_KEY tag src"]
  by (auto simp: startMsg_def may_start_def not_less not_le Let_def split: prod.splits)

lemma startMsg_accepted:
  assumes "table_ok t" and "may_start t (FRGM_KEY tag src) n f" and "(unat n - 1) div unat f < 32"
  obtains t' where "startMsg now junk tag src dst tc n f ip t = Some (t', True)" "table_ok t'" "length t' = Suc (length t)"
    "look t' = (look t)(FRGM_KEY tag src \<mapsto> new_handle now junk (FRGM_KEY tag src) dst tc n f ip)"
proof -
  let ?k = "FRGM_KEY tag src"
  let ?m = "new_handle now junk ?k dst tc n f ip"
  obtain i where i: "binSearch (length t) ?k t compareTagAddr = (False, i)"
    using assms(2) search_look [OF table_okD(1) [OF assms(1)], of ?k] by (cases "binSearch (length t) ?k t compareTagAddr") (simp add: may_start_def)
  note s = search_absent [OF table_okD(1) [OF assms(1)] i]
  have k: "TagShortAddr ?m = ?k" by (simp add: new_handle_def)
  let ?t = "take (nat i) t @ ?m # drop (nat i) t"
  note l = insert_sorted_look [OF table_okD(1) [OF assms(1)], of "nat i" ?m, unfolded k, OF s(2,3)]
  have "\<forall>m\<in>set ?t. handle_ok m"
    using assms new_handle_ok [of f n now junk ?k dst tc ip] by (auto simp: table_ok_def may_start_def dest: in_set_takeD in_set_dropD)
  then have "table_ok ?t" using assms(2) l(1) s(1) by (simp add: table_ok_def may_start_def)
  moreover have "startMsg now junk tag src dst tc n f ip t = Some (?t, True)"
    using assms(2,3) i by (auto simp: startMsg_def may_start_def not_less not_le Let_def)
  ultimately show thesis using that l(2) s(1) by simp
qed

text \<open>The fragment belongs to an entry, lies within its message and is not there yet.\<close>

definition takes :: "MsgHandle \<Rightarrow> nat \<Rightarrow> nat \<Rightarrow> bool" where
  "takes m off n \<longleftrightarrow> off + n \<le> unat (msgSz m) \<and> off div unat (frgSz m) < 32 \<and> \<not> bit (bitfield m) (off div unat (frgSz m))"

lemma addFragment_absent:
  assumes "table_ok t" and "look t (FRGM_KEY tag src) = None"
  shows "addFragment_tbl tag src off frg t = Some (t, False)"
  using assms search_look [OF table_okD(1) [OF assms(1)], of "FRGM_KEY tag src"] by (auto simp: addFragment_tbl_def Let_def split: prod.splits)

lemma addFragment_entry:
  assumes "table_ok t" and "look t (FRGM_KEY tag src) = Some m"
  obtains i where "i < length t" "t ! i = m"
    "addFragment_tbl tag src off frg t =
      (if unat off + length frg > unat (msgSz m) then Some (t, False)
       else if 32 \<le> unat off div unat (frgSz m) then None
       else if bit (bitfield m) (unat off div unat (frgSz m)) then Some (t, False)
       else Some (t[i := put_fragment (unat off) frg m], True))"
proof -
  let ?k = "FRGM_KEY tag src"
  obtain i where i: "binSearch (length t) ?k t compareTagAddr = (True, i)"
    using assms(2) search_look [OF table_okD(1) [OF assms(1)], of ?k] by (cases "binSearch (length t) ?k t compareTagAddr") simp
  have n: "nat i < length t" "t ! nat i = m"
    using frgm_search_found [OF i] look_nth [OF table_okD(1) [OF assms(1)], of "nat i"] assms(2) by auto
  then have "t \<noteq> []" by auto
  then show thesis
    using n i by (intro that [of "nat i"]) (simp_all add: addFragment_tbl_def Let_def and_exp_eq_0_iff_not_bit not_le)
qed

lemma addFragment_taken:
  assumes "table_ok t" and "look t (FRGM_KEY tag src) = Some m" and "takes m (unat off) (length frg)"
  obtains t' where "addFragment_tbl tag src off frg t = Some (t', True)" "table_ok t'" "length t' = length t"
    "look t' = (look t)(FRGM_KEY tag src \<mapsto> put_fragment (unat off) frg m)"
proof -
  obtain i where i: "i < length t" "t ! i = m" "addFragment_tbl tag src off frg t = Some (t[i := put_fragment (unat off) frg m], True)"
    using addFragment_entry [OF assms(1,2), of off frg] assms(3) by (auto simp: takes_def)
  have k: "TagShortAddr (put_fragment (unat off) frg m) = FRGM_KEY tag src" using look_Some [OF assms(2)] by (simp add: put_fragment_def)
  note u = update_look [OF table_okD(1) [OF assms(1)] i(1), of "put_fragment (unat off) frg m", unfolded k]
  have "handle_ok (put_fragment (unat off) frg m)"
    using put_fragment_ok [OF table_okD(2) [OF assms(1,2)]] assms(3) by (simp add: takes_def)
  then have "\<forall>x\<in>set (t[i := put_fragment (unat off) frg m]). handle_ok x"
    using assms(1) set_update_subset_insert [of t i "put_fragment (unat off) frg m"] by (auto simp: table_ok_def)
  then have "table_ok (t[i := put_fragment (unat off) frg m])"
    using assms(1) u(1) i(2) look_Some [OF assms(2)] by (simp add: table_ok_def)
  then show thesis using that i u look_Some [OF assms(2)] by simp
qed

definition complete :: "MsgHandle \<Rightarrow> bool" where
  "complete m \<longleftrightarrow> bitfield m = 0xFFFFFFFF"

definition message_octets :: "MsgHandle \<Rightarrow> u8 list" where
  "message_octets m = tr_header 0 (ucast (TagShortAddr m)) (dstAddr m) @ (case pu8IPv6 m of Some a \<Rightarrow> a | None \<Rightarrow> []) @ msgPtr m"

definition packet_fits :: "MsgHandle \<Rightarrow> bool" where
  "packet_fits m \<longleftrightarrow> length (msgPtr m) < 65515 \<and> (\<forall>a. pu8IPv6 m = Some a \<longrightarrow> length a = 16)"

lemma length_tr_header [simp]: "length (tr_header tc src dst) = 5"
  by (simp add: tr_header_def native_u16_def)

lemma full_packet_octets:
  assumes "packet_fits m"
  obtains p where "full_packet junk m = Some p" "Data p = message_octets m" "packet_wf p"
proof -
  let ?h = "tr_header 0 (ucast (TagShortAddr m)) (dstAddr m)"
  show thesis
  proof (cases "pu8IPv6 m")
    case None
    obtain p where p: "AllocateCopy junk (msgPtr m) 5 0 = Some p" "Data p = msgPtr m" "packet_wf p" "m_pHead p = 5"
      using assms AllocateCopy_data [of 5 "msgPtr m" 0 junk] by (auto simp: packet_fits_def)
    show thesis
      using PushFront_data [of p ?h] p None by (intro that [of "fst (PushFront ?h p)"]) (simp_all add: full_packet_def message_octets_def)
  next
    case (Some a)
    then have a: "length a = 16" using assms by (simp add: packet_fits_def)
    obtain p where p: "AllocateCopy junk (msgPtr m) 21 0 = Some p" "Data p = msgPtr m" "packet_wf p" "m_pHead p = 21"
      using assms AllocateCopy_data [of 21 "msgPtr m" 0 junk] by (auto simp: packet_fits_def)
    note q = PushFront_data [of p a]
    show thesis
      using PushFront_data [of "fst (PushFront a p)" ?h] p q Some a
      by (intro that [of "fst (PushFront ?h (fst (PushFront a p)))"]) (simp_all add: full_packet_def message_octets_def)
  qed
qed

lemma full_loop_None: "full_loop j t = None \<longleftrightarrow> (\<forall>m\<in>set t. \<not> complete m)"
  by (induction t arbitrary: j) (auto simp: complete_def)

lemma full_loop_Some: "full_loop j t = Some i \<Longrightarrow> j \<le> i \<and> i < j + length t \<and> complete (t ! (i - j))"
proof (induction t arbitrary: j)
  case (Cons m t)
  show ?case
  proof (cases "complete m")
    case False
    then have "full_loop (Suc j) t = Some i" using Cons.prems by (simp add: complete_def)
    from Cons.IH [OF this] show ?thesis by (auto simp: nth_Cons')
  qed (use Cons.prems in \<open>auto simp: complete_def\<close>)
qed simp

lemma hasFullMsg_None: "\<forall>m\<in>set t. \<not> complete m \<Longrightarrow> hasFullMsg junk t = Some (t, None)"
  using full_loop_None [of 0 t] by (simp add: hasFullMsg_def)

lemma hasFullMsg_one:
  assumes "table_ok t" and "look t k = Some m" "complete m" "packet_fits m" and "\<forall>x\<in>set t. complete x \<longrightarrow> TagShortAddr x = k"
  obtains t' p where "hasFullMsg junk t = Some (t', Some p)" "Data p = message_octets m" "packet_wf p" "table_ok t'"
    "look t' = (look t)(k := None)" "length t' = length t - 1" "\<forall>x\<in>set t'. \<not> complete x"
proof -
  obtain i where "full_loop 0 t = Some i" using full_loop_None [of 0 t] look_Some [OF assms(2)] assms(3) by auto
  note i = this full_loop_Some [OF this]
  have "TagShortAddr (t ! i) = k" using i(2) assms(5) by simp
  then have ti: "t ! i = m" using look_nth [OF table_okD(1) [OF assms(1)], of i] i(2) assms(2) by auto
  obtain p where p: "full_packet junk m = Some p" "Data p = message_octets m" "packet_wf p" by (rule full_packet_octets [OF assms(4)])
  have "i < length t" using i(2) by simp
  note d = dropMsg_look [OF table_okD(1) [OF assms(1)] this]
  have sub: "set (dropMsg i t) \<subseteq> set t" by (auto simp: dropMsg_def dest: in_set_takeD in_set_dropD)
  have len: "length (dropMsg i t) = length t - 1" using \<open>i < length t\<close> by (simp add: dropMsg_def)
  have "k \<notin> TagShortAddr ` set (dropMsg i t)" using d(2) look_None_iff [of "dropMsg i t" k] ti look_Some [OF assms(2)] by simp
  then have "\<forall>x\<in>set (dropMsg i t). \<not> complete x" using sub assms(5) by blast
  moreover have "table_ok (dropMsg i t)" using assms(1) d(1) sub len by (auto simp: table_ok_def)
  ultimately show thesis
    using i p ti d(2) look_Some [OF assms(2)] len by (intro that [of "dropMsg i t" p]) (simp_all add: hasFullMsg_def)
qed

lemma dropExpired_filter: "dropExpired now t = filter (\<lambda>m. now - 120 \<le> timestamp m) t"
proof -
  have "drop_loop e (length xs) (xs @ ys) = filter (\<lambda>m. e \<le> timestamp m) xs @ ys" for e xs ys
  proof (induction xs arbitrary: ys rule: rev_induct)
    case (snoc x xs)
    then show ?case using snoc [of "x # ys"] by (simp add: dropMsg_def nth_append)
  qed simp
  from this [of "now - 120" t "[]"] show ?thesis by (simp add: dropExpired_def)
qed

end
