(* ===== verification/Bbr_Tunnel.thy ===== *)
theory Bbr_Tunnel
  imports Bbr_Defrgm
begin

text \<open>
  Fragments between the backbone router and its transceiver (\<^verbatim>\<open>BackBone/LowPANTunnel.cpp\<close>). What arrives is put together in the table of
  fragments. \<open>now\<close> is \<^verbatim>\<open>time(0)\<close> and \<open>junk\<close> the contents of new memory.
\<close>

unbundle bit_operations_syntax

section \<open>From the transceiver\<close>

text \<open>A 16 bit value as it lies in the memory of a little-endian host.\<close>

definition native16_at :: "u8 list \<Rightarrow> nat \<Rightarrow> u16" where
  "native16_at bs i = ucast (bs ! i) OR push_bit 8 (ucast (bs ! Suc i))"

definition hdr_tc :: "u8 list \<Rightarrow> u8" where "hdr_tc h = h ! 0"
definition hdr_src :: "u8 list \<Rightarrow> u16" where "hdr_src h = native16_at h 1"
definition hdr_dst :: "u8 list \<Rightarrow> u16" where "hdr_dst h = native16_at h 3"

definition dgram_size :: "u8 list \<Rightarrow> u16" where
  "dgram_size fh = push_bit 8 (ucast (fh ! 0 AND 0x07)) OR ucast (fh ! 1)"

definition dgram_tag :: "u8 list \<Rightarrow> u16" where
  "dgram_tag fh = push_bit 8 (ucast (fh ! 2)) OR ucast (fh ! 3)"

text \<open>What \<^verbatim>\<open>addFragment\<close> does once the headers are off; \<open>h\<close>, \<open>d\<close> and \<open>fh\<close> are the octets that were taken off.\<close>

definition enter_fragment :: "int \<Rightarrow> (nat \<Rightarrow> u8) \<Rightarrow> u8 list \<Rightarrow> u8 list option \<Rightarrow> u8 list \<Rightarrow> u8 list \<Rightarrow> ProtocolPacket \<Rightarrow> MsgHandle list
    \<Rightarrow> (ProtocolPacket \<times> MsgHandle list) option" where
  "enter_fragment now junk h ip d fh pkt t =
     (let dgramSz = dgram_size fh; dgramTag = dgram_tag fh; u8Dpatch = drop_bit 5 (d ! 0) in
      if u8Dpatch = 6 then
        (case startMsg now junk dgramTag (hdr_src h) (hdr_dst h) (hdr_tc h) dgramSz (of_nat (DataLen pkt)) ip t of
           None \<Rightarrow> None
         | Some (t, False) \<Rightarrow> Some (pkt, t)
         | Some (t, True) \<Rightarrow> map_option (\<lambda>(t, _). (pkt, t)) (addFragment_tbl dgramTag (hdr_src h) 0 (Data pkt) t))
      else if u8Dpatch = 7 then
        (case PopFront 1 pkt of
           (pkt, None) \<Rightarrow> Some (pkt, t)
         | (pkt, Some dgramOff) \<Rightarrow>
             map_option (\<lambda>(t, _). (pkt, t)) (addFragment_tbl dgramTag (hdr_src h) (ucast (dgramOff ! 0) * 8) (Data pkt) t))
      else Some (pkt, t))"

definition addFragment :: "int \<Rightarrow> (nat \<Rightarrow> u8) \<Rightarrow> ProtocolPacket \<Rightarrow> MsgHandle list \<Rightarrow> (ProtocolPacket \<times> MsgHandle list) option" where
  "addFragment now junk pkt t =
     (case PopFront 5 pkt of
        (pkt, None) \<Rightarrow> Some (pkt, t)
      | (pkt, Some h) \<Rightarrow>
          let local = hdr_dst h = 0 \<and> hdr_src h = 0 in
          (case (if local then PopFront 16 pkt else (pkt, Some [])) of
             (pkt, None) \<Rightarrow> Some (pkt, t)
           | (pkt, Some a) \<Rightarrow>
               (case PopFront 1 pkt of
                  (pkt, None) \<Rightarrow> Some (pkt, t)
                | (pkt, Some d) \<Rightarrow>
                    (case PopFront 4 pkt of
                       (pkt, None) \<Rightarrow> Some (pkt, t)
                     | (pkt, Some fh) \<Rightarrow> enter_fragment now junk h (if local then Some a else None) d fh pkt t))))"

definition handleNetPkt :: "int \<Rightarrow> (nat \<Rightarrow> u8) \<Rightarrow> ProtocolPacket \<Rightarrow> MsgHandle list \<Rightarrow> (ProtocolPacket \<times> MsgHandle list \<times> bool) option" where
  "handleNetPkt now junk pkt t =
     (if DataLen pkt < 5 + 1 then Some (pkt, t, False)
      else
        let local = hdr_dst (Data pkt) = 0 \<and> hdr_src (Data pkt) = 0 in
        if local \<and> DataLen pkt < 16 + 5 + 1 then Some (pkt, t, False)
        else
          let dpatch3b = drop_bit 5 (Data pkt ! (if local then 5 + 16 else 5)) in
          if dpatch3b \<noteq> 6 \<and> dpatch3b \<noteq> 7 then Some (pkt, t, True)
          else
            (case addFragment now junk pkt t of
               None \<Rightarrow> None
             | Some (pkt, t) \<Rightarrow>
                 (case hasFullMsg junk t of
                    None \<Rightarrow> None
                  | Some (t, None) \<Rightarrow> Some (pkt, t, False)
                  | Some (t, Some full_msg) \<Rightarrow> Some (full_msg, t, True))))"

text \<open>Packets one after the other, each with the time it arrives and the memory it finds, and those handed on.\<close>

fun net_packets :: "(int \<times> (nat \<Rightarrow> u8) \<times> ProtocolPacket) list \<Rightarrow> MsgHandle list \<Rightarrow> (MsgHandle list \<times> u8 list list) option" where
  "net_packets [] t = Some (t, [])"
| "net_packets ((now, junk, pkt) # ps) t =
     (case handleNetPkt now junk pkt t of
        None \<Rightarrow> None
      | Some (p, t, full) \<Rightarrow> map_option (\<lambda>(t, out). (t, (if full then [Data p] else []) @ out)) (net_packets ps t))"

section \<open>The packets the table sees\<close>

text \<open>The octets of a fragment behind its headers, and the entry a packet belongs to.\<close>

definition frag_at :: "u8 list \<Rightarrow> nat" where
  "frag_at ds = (if hdr_dst ds = 0 \<and> hdr_src ds = 0 then 21 else 5)"

definition packet_key :: "u8 list \<Rightarrow> u32 option" where
  "packet_key ds = (if length ds < frag_at ds + 5 then None else Some (FRGM_KEY (dgram_tag (drop (frag_at ds + 1) ds)) (hdr_src ds)))"

lemma hdr_take [simp]: "5 \<le> n \<Longrightarrow> hdr_tc (take n ds) = hdr_tc ds" "5 \<le> n \<Longrightarrow> hdr_src (take n ds) = hdr_src ds" "5 \<le> n \<Longrightarrow> hdr_dst (take n ds) = hdr_dst ds"
  by (simp_all add: hdr_tc_def hdr_src_def hdr_dst_def native16_at_def)

lemma addFragment_headers:
  assumes "packet_wf pkt" and "frag_at (Data pkt) + 5 \<le> length (Data pkt)"
  obtains p where "packet_wf p" "Data p = drop (frag_at (Data pkt) + 5) (Data pkt)"
    "addFragment now junk pkt t = enter_fragment now junk (take 5 (Data pkt)) (if frag_at (Data pkt) = 21 then Some (take 16 (drop 5 (Data pkt))) else None)
       [Data pkt ! frag_at (Data pkt)] (take 4 (drop (frag_at (Data pkt) + 1) (Data pkt))) p t"
proof -
  let ?d = "Data pkt"
  obtain p1 where 1: "PopFront 5 pkt = (p1, Some (take 5 ?d))" "Data p1 = drop 5 ?d" "packet_wf p1"
    using PopFront_data [OF assms(1), of 5] assms(2) by (cases "PopFront 5 pkt") (auto simp: frag_at_def split: if_splits)
  show thesis
  proof (cases "hdr_dst ?d = 0 \<and> hdr_src ?d = 0")
    case True
    then have at: "frag_at ?d = 21" by (simp add: frag_at_def)
    obtain p2 where 2: "PopFront 16 p1 = (p2, Some (take 16 (drop 5 ?d)))" "Data p2 = drop 21 ?d" "packet_wf p2"
      using PopFront_data [OF 1(3), of 16] 1(2) assms(2) at by (cases "PopFront 16 p1") auto
    obtain p3 where 3: "PopFront 1 p2 = (p3, Some [?d ! 21])" "Data p3 = drop 22 ?d" "packet_wf p3"
      using PopFront_data [OF 2(3), of 1] 2(2) assms(2) at by (cases "PopFront 1 p2") (auto simp: hd_drop_conv_nth take_Suc)
    obtain p4 where 4: "PopFront 4 p3 = (p4, Some (take 4 (drop 22 ?d)))" "Data p4 = drop 26 ?d" "packet_wf p4"
      using PopFront_data [OF 3(3), of 4] 3(2) assms(2) at by (cases "PopFront 4 p3") auto
    show thesis using True at 1 2 3 4 by (intro that [of p4]) (simp_all add: addFragment_def Let_def)
  next
    case False
    then have at: "frag_at ?d = 5" by (simp add: frag_at_def)
    obtain p3 where 3: "PopFront 1 p1 = (p3, Some [?d ! 5])" "Data p3 = drop 6 ?d" "packet_wf p3"
      using PopFront_data [OF 1(3), of 1] 1(2) assms(2) at by (cases "PopFront 1 p1") (auto simp: hd_drop_conv_nth take_Suc)
    obtain p4 where 4: "PopFront 4 p3 = (p4, Some (take 4 (drop 6 ?d)))" "Data p4 = drop 10 ?d" "packet_wf p4"
      using PopFront_data [OF 3(3), of 4] 3(2) assms(2) at by (cases "PopFront 4 p3") auto
    show thesis using False at 1 3 4 by (intro that [of p4]) (auto simp: addFragment_def Let_def)
  qed
qed

lemma addFragment_short:
  assumes "packet_wf pkt" and "length (Data pkt) < frag_at (Data pkt) + 5"
  shows "\<exists>p. addFragment now junk pkt t = Some (p, t)"
proof -
  let ?d = "Data pkt"
  have pop: "(\<exists>q. PopFront n p = (q, None) \<and> length (Data p) < n) \<or> (\<exists>q. PopFront n p = (q, Some (take n (Data p))) \<and> Data q = drop n (Data p) \<and> n \<le> length (Data p) \<and> packet_wf q)"
    if "packet_wf p" for n p
    using that PopFront_data [of p n] PopFront_short [of p n] by (cases "n \<le> length (Data p)") (auto simp: prod_eq_iff)
  show ?thesis
  proof (cases "length ?d < 5")
    case True
    then show ?thesis using PopFront_short [OF assms(1)] by (simp add: addFragment_def)
  next
    case False
    then obtain p1 where 1: "PopFront 5 pkt = (p1, Some (take 5 ?d))" "Data p1 = drop 5 ?d" "packet_wf p1"
      using PopFront_data [OF assms(1), of 5] by (cases "PopFront 5 pkt") auto
    show ?thesis
    proof (cases "hdr_dst ?d = 0 \<and> hdr_src ?d = 0")
      case True
      then have at: "frag_at ?d = 21" by (simp add: frag_at_def)
      from pop [OF 1(3), of 16] show ?thesis
      proof (elim disjE exE conjE)
        fix q assume "PopFront 16 p1 = (q, None)"
        then show ?thesis using True 1 by (simp add: addFragment_def Let_def)
      next
        fix q assume q: "PopFront 16 p1 = (q, Some (take 16 (Data p1)))" "Data q = drop 16 (Data p1)" "packet_wf q"
        show ?thesis
          using pop [OF q(3), of 1] pop [of "fst (PopFront 1 q)" 4] True 1 q at assms(2) by (auto simp: addFragment_def Let_def)
      qed
    next
      case False
      then have at: "frag_at ?d = 5" by (simp add: frag_at_def)
      show ?thesis
        using pop [OF 1(3), of 1] pop [of "fst (PopFront 1 p1)" 4] False 1 at assms(2) by (auto simp: addFragment_def Let_def)
    qed
  qed
qed

end
