(* ===== verification/Bbr_Reassembly.thy ===== *)
theory Bbr_Reassembly
  imports Bbr_Tunnel
begin

text \<open>
  What comes out of the table of fragments: the invariant between two packets, what a packet of one datagram leaves alone of the others,
  and that a datagram whose fragments all arrive is handed on as it was.
\<close>

unbundle bit_operations_syntax

section \<open>One packet\<close>

definition tunnel_ok :: "MsgHandle list \<Rightarrow> bool" where
  "tunnel_ok t \<longleftrightarrow> table_ok t \<and> (\<forall>m\<in>set t. packet_fits m \<and> \<not> complete m)"

lemma tunnel_okD: "tunnel_ok t \<Longrightarrow> table_ok t" "tunnel_ok t \<Longrightarrow> look t k = Some m \<Longrightarrow> packet_fits m \<and> \<not> complete m \<and> handle_ok m"
  using look_Some [of t k m] table_okD(2) [of t k m] by (auto simp: tunnel_ok_def)

text \<open>A table that differs from another in one entry at most.\<close>

definition touches :: "u32 \<Rightarrow> MsgHandle list \<Rightarrow> MsgHandle list \<Rightarrow> bool" where
  "touches k t t' \<longleftrightarrow> table_ok t' \<and> (\<forall>j. j \<noteq> k \<longrightarrow> look t' j = look t j) \<and> (\<forall>m. look t' k = Some m \<longrightarrow> packet_fits m)"

lemma touches_refl: "tunnel_ok t \<Longrightarrow> touches k t t"
  using tunnel_okD by (auto simp: touches_def)

lemma touches_others:
  assumes "touches k t t'" and "tunnel_ok t" and "x \<in> set t'"
  shows "packet_fits x" "complete x \<Longrightarrow> TagShortAddr x = k"
proof -
  obtain i where "i < length t'" "x = t' ! i" using assms(3) by (auto simp: in_set_conv_nth)
  then have l: "look t' (TagShortAddr x) = Some x" using look_nth table_okD(1) assms(1) by (auto simp: touches_def)
  show "packet_fits x" using l assms(1,2) tunnel_okD(2) [OF assms(2), of "TagShortAddr x" x] by (cases "TagShortAddr x = k") (auto simp: touches_def)
  show "complete x \<Longrightarrow> TagShortAddr x = k" using l assms(1) tunnel_okD(2) [OF assms(2), of "TagShortAddr x" x] by (auto simp: touches_def)
qed

lemma dgram_size_bound: "unat (dgram_size fh) < 2048"
proof -
  have m: "(0x07 :: u8) = mask 3" by (simp add: mask_eq_exp_minus_1)
  have "take_bit 11 (dgram_size fh) = dgram_size fh"
    unfolding dgram_size_def m
    by (rule bit_word_eqI) (auto simp: bit_take_bit_iff bit_or_iff bit_push_bit_iff bit_and_iff bit_mask_iff bit_unsigned_iff dest: bit_imp_possible_bit simp: possible_bit_word)
  then have "unat (dgram_size fh) = take_bit 11 (unat (dgram_size fh))" by (metis unsigned_take_bit_eq)
  then show ?thesis using take_bit_nat_less_exp [of 11 "unat (dgram_size fh)"] by simp
qed

lemma start_touches:
  assumes "tunnel_ok t" and "startMsg now junk tag src dst tc n f ip t = Some (t', b)" and "unat n < 2048" and "\<And>a. ip = Some a \<Longrightarrow> length a = 16"
  shows "touches (FRGM_KEY tag src) t t'"
proof (cases "may_start t (FRGM_KEY tag src) n f")
  case True
  then have "(unat n - 1) div unat f < 32" using assms(2) startMsg_undefined [OF tunnel_okD(1) [OF assms(1)] True] by (cases "32 \<le> (unat n - 1) div unat f") auto
  from startMsg_accepted [OF tunnel_okD(1) [OF assms(1)] True this, of now junk dst tc ip]
  have "table_ok t'" "look t' = (look t)(FRGM_KEY tag src \<mapsto> new_handle now junk (FRGM_KEY tag src) dst tc n f ip)" using assms(2) by auto
  moreover have "packet_fits (new_handle now junk (FRGM_KEY tag src) dst tc n f ip)" using assms(3,4) by (simp add: packet_fits_def new_handle_def)
  ultimately show ?thesis by (simp add: touches_def)
next
  case False
  then show ?thesis using assms(1,2) startMsg_refused [OF tunnel_okD(1) [OF assms(1)] False] touches_refl by auto
qed

lemma put_fragment_fits: "packet_fits m \<Longrightarrow> handle_ok m \<Longrightarrow> off + length frg \<le> unat (msgSz m) \<Longrightarrow> packet_fits (put_fragment off frg m)"
  by (simp add: packet_fits_def put_fragment_def handle_ok_def)

lemma add_touches:
  assumes "table_ok t" "\<And>m. look t (FRGM_KEY tag src) = Some m \<Longrightarrow> packet_fits m" and "addFragment_tbl tag src off frg t = Some (t', b)"
  shows "touches (FRGM_KEY tag src) t t'"
proof (cases "look t (FRGM_KEY tag src)")
  case None
  then have "t' = t" using addFragment_absent [OF assms(1) None, of off frg] assms(3) by simp
  then show ?thesis using None assms(1) by (simp add: touches_def)
next
  case (Some m)
  show ?thesis
  proof (cases "takes m (unat off) (length frg)")
    case True
    from addFragment_taken [OF assms(1) Some True]
    have "table_ok t'" "look t' = (look t)(FRGM_KEY tag src \<mapsto> put_fragment (unat off) frg m)" using assms(3) by auto
    moreover have "packet_fits (put_fragment (unat off) frg m)"
      using True assms(2) [OF Some] table_okD(2) [OF assms(1) Some] by (intro put_fragment_fits) (simp_all add: takes_def)
    ultimately show ?thesis by (simp add: touches_def)
  next
    case False
    obtain i where "addFragment_tbl tag src off frg t =
      (if unat off + length frg > unat (msgSz m) then Some (t, False)
       else if 32 \<le> unat off div unat (frgSz m) then None
       else if bit (bitfield m) (unat off div unat (frgSz m)) then Some (t, False)
       else Some (t[i := put_fragment (unat off) frg m], True))"
      by (rule addFragment_entry [OF assms(1) Some])
    then have "t' = t" using False assms(3) by (auto simp: takes_def split: if_splits)
    then show ?thesis using Some assms(1,2) by (simp add: touches_def)
  qed
qed

lemma touches_trans: "touches k t u \<Longrightarrow> touches k u v \<Longrightarrow> touches k t v"
  by (simp add: touches_def)

lemma enter_touches:
  assumes "tunnel_ok t" and "enter_fragment now junk h ip d fh p t = Some (p', t')" and "\<And>a. ip = Some a \<Longrightarrow> length a = 16"
  shows "touches (FRGM_KEY (dgram_tag fh) (hdr_src h)) t t'"
proof -
  let ?k = "FRGM_KEY (dgram_tag fh) (hdr_src h)"
  have add: "touches ?k t t'" if "touches ?k t u" "addFragment_tbl (dgram_tag fh) (hdr_src h) off frg u = Some (t', b)" for u off frg b
    using touches_trans [OF that(1) add_touches [OF _ _ that(2)]] that(1) by (simp add: touches_def)
  have start: "touches ?k t u" if "startMsg now junk (dgram_tag fh) (hdr_src h) dst tc (dgram_size fh) f ip t = Some (u, b)" for dst tc f u b
    using start_touches [OF assms(1) that dgram_size_bound assms(3)] .
  have refl: "touches ?k t t" by (rule touches_refl [OF assms(1)])
  show ?thesis
    using assms(2) refl by (auto simp: enter_fragment_def Let_def split: if_splits option.splits prod.splits bool.splits intro: start add [OF start] add [OF refl])
qed

lemma full_tunnel_ok:
  assumes "tunnel_ok t" and "touches k t u" and "hasFullMsg junk u = Some (t', r)"
  shows "tunnel_ok t' \<and> (\<forall>j. j \<noteq> k \<longrightarrow> look t' j = look t j) \<and> (\<forall>p. r = Some p \<longrightarrow> packet_wf p)"
proof -
  have u: "table_ok u" "\<And>j. j \<noteq> k \<Longrightarrow> look u j = look t j" using assms(2) by (simp_all add: touches_def)
  note o = touches_others [OF assms(2,1)]
  show ?thesis
  proof (cases "\<exists>x\<in>set u. complete x")
    case True
    then obtain x where x: "x \<in> set u" "complete x" "TagShortAddr x = k" using o(2) by blast
    then obtain m where m: "look u k = Some m" using look_None_iff [of u k] by (cases "look u k") auto
    have "x = m" using m x look_iff [OF table_okD(1) [OF u(1)], of k x] by (auto simp: in_set_conv_nth)
    with x have m': "complete m" "packet_fits m" using o(1) by auto
    obtain v p where v: "hasFullMsg junk u = Some (v, Some p)" "packet_wf p" "table_ok v" "look v = (look u)(k := None)" "\<forall>x\<in>set v. \<not> complete x"
      by (rule hasFullMsg_one [OF u(1) m m', of junk]) (use o(2) in auto)
    have "packet_fits y" if "y \<in> set v" for y
    proof -
      obtain i where "i < length v" "y = v ! i" using \<open>y \<in> set v\<close> by (auto simp: in_set_conv_nth)
      then have "look v (TagShortAddr y) = Some y" using look_nth table_okD(1) v(3) by auto
      then show ?thesis using o(1) look_Some(1) [of u "TagShortAddr y" y] v(4) by (auto split: if_splits)
    qed
    then show ?thesis using v assms(3) u(2) by (auto simp: tunnel_ok_def)
  next
    case False
    then have "t' = u" "r = None" using hasFullMsg_None [of u junk] assms(3) by auto
    then show ?thesis using False u o(1) by (simp add: tunnel_ok_def)
  qed
qed

lemma handle_other:
  assumes "tunnel_ok t" "packet_wf pkt" and "handleNetPkt now junk pkt t = Some (p, t', b)"
  shows "tunnel_ok t' \<and> (\<forall>k. packet_key (Data pkt) \<noteq> Some k \<longrightarrow> look t' k = look t k)"
proof (cases "length (Data pkt) < frag_at (Data pkt) + 5")
  case True
  obtain q where "addFragment now junk pkt t = Some (q, t)" using addFragment_short [OF assms(2) True] by blast
  moreover have "hasFullMsg junk t = Some (t, None)" using assms(1) by (intro hasFullMsg_None) (simp add: tunnel_ok_def)
  ultimately have "t' = t" using assms(3) by (auto simp: handleNetPkt_def Let_def split: if_splits)
  then show ?thesis using assms(1) by simp
next
  case False
  then obtain q where q: "addFragment now junk pkt t = enter_fragment now junk (take 5 (Data pkt))
      (if frag_at (Data pkt) = 21 then Some (take 16 (drop 5 (Data pkt))) else None)
      [Data pkt ! frag_at (Data pkt)] (take 4 (drop (frag_at (Data pkt) + 1) (Data pkt))) q t"
    using addFragment_headers [OF assms(2), of now junk t] by (metis not_less)
  let ?k = "FRGM_KEY (dgram_tag (take 4 (drop (frag_at (Data pkt) + 1) (Data pkt)))) (hdr_src (take 5 (Data pkt)))"
  have k: "packet_key (Data pkt) = Some ?k" using False by (simp add: packet_key_def dgram_tag_def)
  have t: "touches ?k t u" if "addFragment now junk pkt t = Some (r, u)" for r u
    using that False unfolding q by (intro enter_touches [OF assms(1)]) (auto split: if_splits)
  have full: "tunnel_ok t' \<and> (\<forall>j. j \<noteq> ?k \<longrightarrow> look t' j = look t j)"
    if "addFragment now junk pkt t = Some (r, u)" "hasFullMsg junk u = Some (t', x)" for r u x
    using full_tunnel_ok [OF assms(1) t [OF that(1)] that(2)] by simp
  show ?thesis
    using assms(1,3) unfolding k by (auto simp: handleNetPkt_def Let_def split: if_splits option.splits prod.splits dest!: full)
qed

section \<open>A datagram and its fragments\<close>

text \<open>
  A datagram as the transceiver cuts it: addresses, an IPv6 address when both short addresses are 0, the tag, the octets and
  the size of all fragments but the last.
\<close>

record DATAGRAM =
  dg_src :: u16
  dg_dst :: u16
  dg_ip :: "u8 list"
  dg_tag :: u16
  dg_octets :: "u8 list"
  dg_frag :: nat

abbreviation "dg_key D \<equiv> FRGM_KEY (dg_tag D) (dg_src D)"
abbreviation "dg_local D \<equiv> dg_dst D = 0 \<and> dg_src D = 0"

definition dg_last :: "DATAGRAM \<Rightarrow> nat" where
  "dg_last D = (length (dg_octets D) - 1) div dg_frag D"

definition dg_ok :: "DATAGRAM \<Rightarrow> bool" where
  "dg_ok D \<longleftrightarrow> length (dg_ip D) = (if dg_local D then 16 else 0) \<and> 40 \<le> dg_frag D \<and> 8 dvd dg_frag D
     \<and> dg_frag D < length (dg_octets D) \<and> length (dg_octets D) \<le> 2047 \<and> dg_last D < 32"

definition chunk :: "DATAGRAM \<Rightarrow> nat \<Rightarrow> u8 list" where
  "chunk D i = take (dg_frag D) (drop (i * dg_frag D) (dg_octets D))"

definition fragment_octets :: "DATAGRAM \<Rightarrow> u8 \<Rightarrow> nat \<Rightarrow> u8 list" where
  "fragment_octets D tc i = tr_header tc (dg_src D) (dg_dst D) @ dg_ip D @ [if i = 0 then 0xC0 else 0xE0]
     @ DMAP_InsertUint16 (of_nat (length (dg_octets D))) @ DMAP_InsertUint16 (dg_tag D)
     @ (if i = 0 then [] else [of_nat (i * dg_frag D div 8)]) @ chunk D i"

definition is_fragment :: "DATAGRAM \<Rightarrow> nat \<Rightarrow> ProtocolPacket \<Rightarrow> bool" where
  "is_fragment D i p \<longleftrightarrow> packet_wf p \<and> i \<le> dg_last D \<and> (\<exists>tc. Data p = fragment_octets D tc i)"

lemma native16_native [simp]: "native16_at (native_u16 v @ bs) 0 = v" "native16_at (native_u16 v) 0 = v"
  by (rule bit_word_eqI; auto simp: native16_at_def native_u16_def bit_or_iff bit_push_bit_iff bit_unsigned_iff bit_drop_bit_eq)+

lemma tr_header_fields [simp]:
  "hdr_tc (tr_header tc src dst @ bs) = tc" "hdr_src (tr_header tc src dst @ bs) = src" "hdr_dst (tr_header tc src dst @ bs) = dst"
proof -
  have n: "native16_at (native_u16 a @ native_u16 b @ x) 2 = b" for a b x using native16_native(1) [of b x] by (simp add: native16_at_def native_u16_def)
  show "hdr_tc (tr_header tc src dst @ bs) = tc" by (simp add: hdr_tc_def tr_header_def)
  show "hdr_src (tr_header tc src dst @ bs) = src"
    using native16_native(1) [of src "native_u16 dst @ bs"] by (simp add: hdr_src_def tr_header_def native16_at_def)
  show "hdr_dst (tr_header tc src dst @ bs) = dst"
    using n [of src dst bs] by (simp add: hdr_dst_def tr_header_def native16_at_def)
qed

lemma frag_header_fields:
  assumes "n < 2048"
  shows "dgram_size (DMAP_InsertUint16 (of_nat n) @ DMAP_InsertUint16 tag @ bs) = of_nat n" "dgram_tag (DMAP_InsertUint16 v @ DMAP_InsertUint16 tag @ bs) = tag"
proof -
  show "dgram_tag (DMAP_InsertUint16 v @ DMAP_InsertUint16 tag @ bs) = tag"
    by (rule bit_word_eqI) (auto simp: dgram_tag_def DMAP_InsertUint16_def bit_or_iff bit_push_bit_iff bit_unsigned_iff bit_drop_bit_eq)
  have "take_bit 11 (of_nat n :: u16) = of_nat n" using assms by (simp add: take_bit_of_nat take_bit_nat_eq_self)
  then have b: "i < 11" if "bit (of_nat n :: u16) i" for i using that by (metis bit_take_bit_iff)
  have m: "(0x07 :: u8) = mask 3" by (simp add: mask_eq_exp_minus_1)
  show "dgram_size (DMAP_InsertUint16 (of_nat n) @ DMAP_InsertUint16 tag @ bs) = of_nat n"
    unfolding dgram_size_def m
    by (rule bit_word_eqI)
      (auto simp: DMAP_InsertUint16_def bit_or_iff bit_push_bit_iff bit_and_iff bit_mask_iff bit_unsigned_iff bit_drop_bit_eq dest: b)
qed

lemma fragment_headers:
  assumes "dg_ok D" and "Data p = fragment_octets D tc i"
  shows "frag_at (Data p) = 5 + length (dg_ip D)" "packet_key (Data p) = Some (dg_key D)" "frag_at (Data p) + 5 \<le> length (Data p)"
    "Data p ! frag_at (Data p) = (if i = 0 then 0xC0 else 0xE0)"
    "take 4 (drop (frag_at (Data p) + 1) (Data p)) = DMAP_InsertUint16 (of_nat (length (dg_octets D))) @ DMAP_InsertUint16 (dg_tag D)"
    "drop (frag_at (Data p) + 5) (Data p) = (if i = 0 then [] else [of_nat (i * dg_frag D div 8)]) @ chunk D i"
    "take 16 (drop 5 (Data p)) = (if dg_local D then dg_ip D else take 16 (drop 5 (Data p)))"
proof -
  let ?r = "DMAP_InsertUint16 (of_nat (length (dg_octets D))) @ DMAP_InsertUint16 (dg_tag D)"
  let ?z = "(if i = 0 then [] else [of_nat (i * dg_frag D div 8)]) @ chunk D i"
  have d: "Data p = tr_header tc (dg_src D) (dg_dst D) @ dg_ip D @ [if i = 0 then 0xC0 else 0xE0] @ ?r @ ?z"
    using assms(2) by (simp add: fragment_octets_def)
  have r: "length ?r = 4" by (simp add: DMAP_InsertUint16_def)
  show at: "frag_at (Data p) = 5 + length (dg_ip D)" using assms(1) by (simp add: frag_at_def d dg_ok_def)
  show "Data p ! frag_at (Data p) = (if i = 0 then 0xC0 else 0xE0)" unfolding at by (simp add: d nth_append)
  have dr: "drop (frag_at (Data p) + 1) (Data p) = ?r @ ?z" unfolding at by (simp add: d)
  then show "take 4 (drop (frag_at (Data p) + 1) (Data p)) = ?r" using r by simp
  have "drop (frag_at (Data p) + 5) (Data p) = drop 4 (drop (frag_at (Data p) + 1) (Data p))" by (simp add: add.commute)
  then show "drop (frag_at (Data p) + 5) (Data p) = ?z" unfolding dr using r by simp
  show le: "frag_at (Data p) + 5 \<le> length (Data p)" unfolding at using r by (simp add: d)
  show "packet_key (Data p) = Some (dg_key D)"
    using le dr frag_header_fields(2) [of 0 "of_nat (length (dg_octets D))" "dg_tag D" ?z] by (simp add: packet_key_def) (simp add: d)
  show "take 16 (drop 5 (Data p)) = (if dg_local D then dg_ip D else take 16 (drop 5 (Data p)))"
    using assms(1) by (simp add: d dg_ok_def)
qed

lemma fragment_start: "dg_ok D \<Longrightarrow> i \<le> dg_last D \<Longrightarrow> i * dg_frag D < length (dg_octets D)"
  using less_eq_div_iff_mult_less_eq [of "dg_frag D" i "length (dg_octets D) - 1"] by (auto simp: dg_ok_def dg_last_def)

lemma offset_octet:
  assumes "dg_ok D" and "i \<le> dg_last D"
  shows "unat (ucast (of_nat (i * dg_frag D div 8) :: u8) * 8 :: u16) = i * dg_frag D"
proof -
  have le: "i * dg_frag D < 2048" using fragment_start [OF assms] assms(1) by (simp add: dg_ok_def)
  then have "unat (of_nat (i * dg_frag D div 8) :: u8) = i * dg_frag D div 8" by (simp add: unat_of_nat take_bit_nat_eq_self)
  moreover have "8 * (i * dg_frag D div 8) = i * dg_frag D" using assms(1) by (simp add: dg_ok_def)
  ultimately show ?thesis using le by (simp add: unat_word_ariths unsigned_ucast_eq take_bit_nat_eq_self mult.commute)
qed

section \<open>The entry of a datagram\<close>

text \<open>The entry when the fragments of \<open>R\<close> have been put in.\<close>

definition entered :: "DATAGRAM \<Rightarrow> nat set \<Rightarrow> MsgHandle \<Rightarrow> bool" where
  "entered D R m \<longleftrightarrow> TagShortAddr m = dg_key D \<and> dstAddr m = dg_dst D \<and> pu8IPv6 m = (if dg_local D then Some (dg_ip D) else None)
     \<and> unat (msgSz m) = length (dg_octets D) \<and> unat (frgSz m) = dg_frag D
     \<and> length (msgPtr m) = length (dg_octets D)
     \<and> (\<forall>i<32. bit (bitfield m) i \<longleftrightarrow> i \<in> R \<or> dg_last D < i)
     \<and> (\<forall>j<length (dg_octets D). j div dg_frag D \<in> R \<longrightarrow> msgPtr m ! j = dg_octets D ! j)"

lemma entered_new:
  assumes "dg_ok D"
  shows "entered D {} (new_handle now junk (dg_key D) (dg_dst D) tc (of_nat (length (dg_octets D))) (of_nat (dg_frag D))
    (if dg_local D then Some (dg_ip D) else None))"
proof -
  have n: "unat (of_nat (length (dg_octets D)) :: u16) = length (dg_octets D)" "unat (of_nat (dg_frag D) :: u16) = dg_frag D"
    using assms by (simp_all add: dg_ok_def unat_of_nat take_bit_nat_eq_self)
  then show ?thesis by (simp add: entered_def new_handle_def bit_unused dg_last_def)
qed

lemma entered_put:
  assumes "dg_ok D" "entered D R m" "i \<le> dg_last D"
  shows "entered D (insert i R) (put_fragment (i * dg_frag D) (chunk D i) m)"
proof -
  let ?f = "dg_frag D" and ?n = "length (dg_octets D)"
  have f: "0 < ?f" "dg_last D < 32" using assms(1) by (simp_all add: dg_ok_def)
  have len: "length (chunk D i) = min ?f (?n - i * ?f)" by (simp add: chunk_def)
  have m: "unat (frgSz m) = ?f" "length (msgPtr m) = ?n" using assms(2) by (simp_all add: entered_def)
  have st: "i * ?f < ?n" by (rule fragment_start [OF assms(1,3)])
  let ?p = "take (i * ?f) (msgPtr m) @ chunk D i @ drop (i * ?f + length (chunk D i)) (msgPtr m)"
  have bits: "bit (bitfield m OR push_bit (i * ?f div ?f) 1) j \<longleftrightarrow> j \<in> insert i R \<or> dg_last D < j" if "j < 32" for j
    using assms(2) that f by (auto simp: entered_def bit_or_iff bit_exp_iff possible_bit_word)
  have "?p ! j = dg_octets D ! j" if j: "j < ?n" "j div ?f \<in> insert i R" for j
  proof -
    consider "j < i * ?f" | "i * ?f \<le> j" "j < i * ?f + ?f" | "i * ?f + ?f \<le> j" by linarith
    then show ?thesis
    proof cases
      case 1
      then have "j div ?f < i" using f by (simp add: less_mult_imp_div_less)
      then show ?thesis using 1 j assms(2) m st by (auto simp: nth_append entered_def)
    next
      case 2
      then have "j - i * ?f < length (chunk D i)" using j(1) len by linarith
      then show ?thesis using 2 m st by (simp add: nth_append chunk_def)
    next
      case 3
      then have "i < j div ?f" using f by (simp add: less_eq_div_iff_mult_less_eq Suc_le_eq [symmetric])
      moreover have "length (chunk D i) = ?f" using 3 j len by simp
      ultimately show ?thesis using 3 j assms(2) m st by (auto simp: nth_append entered_def)
    qed
  qed
  moreover have "length ?p = ?n" using m st len by simp
  ultimately show ?thesis using assms(2) bits m by (simp add: entered_def put_fragment_def)
qed

lemma entered_complete:
  assumes "entered D R m" "dg_ok D" "R \<subseteq> {..dg_last D}"
  shows "complete m \<longleftrightarrow> R = {..dg_last D}"
proof -
  have "complete m \<longleftrightarrow> (\<forall>i<32. bit (bitfield m) i)"
  proof -
    have "(0xFFFFFFFF :: u32) = -1" by simp
    then show ?thesis unfolding complete_def by (simp only: bit_eq_iff bit_minus_1_iff) (auto simp: possible_bit_word dest: bit_imp_possible_bit)
  qed
  also have "\<dots> \<longleftrightarrow> (\<forall>i<32. i \<in> R \<or> dg_last D < i)" using assms(1) by (simp add: entered_def)
  also have "\<dots> \<longleftrightarrow> R = {..dg_last D}"
  proof
    assume a: "\<forall>i<32. i \<in> R \<or> dg_last D < i"
    have "x \<in> R" if "x \<le> dg_last D" for x using a that assms(2) by (meson dg_ok_def not_less order_le_less_trans)
    then show "R = {..dg_last D}" using assms(3) by auto
  qed (auto simp: not_less)
  finally show ?thesis .
qed

lemma entered_message:
  assumes "entered D {..dg_last D} m" "dg_ok D"
  shows "message_octets m = tr_header 0 (dg_src D) (dg_dst D) @ dg_ip D @ dg_octets D"
proof -
  have "j div dg_frag D \<le> dg_last D" if "j < length (dg_octets D)" for j
    using that assms(2) unfolding dg_last_def by (intro div_le_mono) auto
  then have "msgPtr m = dg_octets D" using assms(1) by (intro nth_equalityI) (auto simp: entered_def)
  moreover have "ucast (dg_key D) = dg_src D"
    by (rule bit_word_eqI) (auto simp: FRGM_KEY_def bit_unsigned_iff bit_or_iff bit_push_bit_iff)
  ultimately show ?thesis using assms by (auto simp: message_octets_def entered_def dg_ok_def)
qed

section \<open>The arrival of a fragment\<close>

lemma handle_fragment:
  assumes "dg_ok D" "is_fragment D i p"
  shows "handleNetPkt now junk p t =
    (case addFragment now junk p t of
       None \<Rightarrow> None
     | Some (pkt, t) \<Rightarrow>
         (case hasFullMsg junk t of
            None \<Rightarrow> None
          | Some (t, None) \<Rightarrow> Some (pkt, t, False)
          | Some (t, Some full_msg) \<Rightarrow> Some (full_msg, t, True)))"
proof -
  obtain tc where p: "packet_wf p" "Data p = fragment_octets D tc i" using assms(2) by (auto simp: is_fragment_def)
  note h = fragment_headers [OF assms(1) p(2)]
  have at: "frag_at (Data p) = (if hdr_dst (Data p) = 0 \<and> hdr_src (Data p) = 0 then 5 + 16 else 5)" by (simp add: frag_at_def)
  have "drop_bit 5 (Data p ! frag_at (Data p)) = 6 \<or> drop_bit 5 (Data p ! frag_at (Data p)) = 7" unfolding h(4) by simp
  then show ?thesis using h(3) at length_Data [OF p(1)] by (auto simp: handleNetPkt_def Let_def split: if_splits)
qed

lemma fragment_entry:
  assumes "dg_ok D" "is_fragment D i p"
  obtains q tc where "addFragment now junk p t =
    (if i = 0 then
       (case startMsg now junk (dg_tag D) (dg_src D) (dg_dst D) tc (of_nat (length (dg_octets D))) (of_nat (dg_frag D))
               (if dg_local D then Some (dg_ip D) else None) t of
          None \<Rightarrow> None
        | Some (t, False) \<Rightarrow> Some (q, t)
        | Some (t, True) \<Rightarrow> map_option (\<lambda>(t, _). (q, t)) (addFragment_tbl (dg_tag D) (dg_src D) 0 (chunk D 0) t))
     else map_option (\<lambda>(t, _). (q, t)) (addFragment_tbl (dg_tag D) (dg_src D) (ucast (of_nat (i * dg_frag D div 8) :: u8) * 8) (chunk D i) t))"
proof -
  obtain tc where p: "packet_wf p" "Data p = fragment_octets D tc i" using assms(2) by (auto simp: is_fragment_def)
  note h = fragment_headers [OF assms(1) p(2)]
  let ?d = "Data p"
  let ?fh = "DMAP_InsertUint16 (of_nat (length (dg_octets D))) @ DMAP_InsertUint16 (dg_tag D)"
  let ?ip = "if dg_local D then Some (dg_ip D) else None"
  obtain q where q: "packet_wf q" "Data q = drop (frag_at ?d + 5) ?d"
    "addFragment now junk p t = enter_fragment now junk (take 5 ?d) (if frag_at ?d = 21 then Some (take 16 (drop 5 ?d)) else None)
       [?d ! frag_at ?d] (take 4 (drop (frag_at ?d + 1) ?d)) q t"
    by (rule addFragment_headers [OF p(1) h(3)])
  have hd: "hdr_src (take 5 ?d) = dg_src D" "hdr_dst (take 5 ?d) = dg_dst D" "hdr_tc (take 5 ?d) = tc"
    using tr_header_fields [where bs = "[]"] by (simp_all add: p(2) fragment_octets_def)
  have n: "length (dg_octets D) < 2048" using assms(1) by (simp add: dg_ok_def)
  have fh: "dgram_size ?fh = of_nat (length (dg_octets D))" "dgram_tag ?fh = dg_tag D"
    using frag_header_fields [OF n, where bs = "[]"] by simp_all
  have ip: "(if frag_at ?d = 21 then Some (take 16 (drop 5 ?d)) else None) = ?ip"
    using h(1,7) assms(1) by (auto simp: dg_ok_def)
  have e: "addFragment now junk p t = enter_fragment now junk (take 5 ?d) ?ip [if i = 0 then 0xC0 else 0xE0] ?fh q t"
    using q(3) unfolding ip h(4,5) .
  show thesis
  proof (cases "i = 0")
    case True
    then have dq: "Data q = chunk D 0" using q(2) h(6) by simp
    then have len: "DataLen q = dg_frag D" using length_Data [OF q(1)] assms(1) by (simp add: chunk_def dg_ok_def)
    show thesis by (rule that [of q tc]) (unfold e enter_fragment_def Let_def hd fh dq len, use True in simp)
  next
    case False
    then have dq: "Data q = of_nat (i * dg_frag D div 8) # chunk D i" using q(2) h(6) by simp
    obtain r where r: "PopFront 1 q = (r, Some [of_nat (i * dg_frag D div 8)])" "Data r = chunk D i"
      using PopFront_data [OF q(1), of 1] dq by (cases "PopFront 1 q") simp
    show thesis using False r by (intro that [of r tc]) (simp add: e enter_fragment_def Let_def hd fh)
  qed
qed

lemma entered_takes:
  assumes "dg_ok D" "entered D R m" "i \<le> dg_last D" "i \<notin> R"
  shows "takes m (i * dg_frag D) (length (chunk D i))"
  using assms fragment_start [OF assms(1,3)] by (auto simp: takes_def entered_def chunk_def dg_ok_def)

text \<open>Once the fragment is in the table, the datagram is handed on if it is complete and kept otherwise.\<close>

lemma fragment_taken:
  assumes "dg_ok D" "tunnel_ok t" "is_fragment D i p" "R \<subseteq> {..dg_last D}" "i \<notin> R" "entered D R m"
    and "addFragment now junk p t = Some (q, u)" "table_ok u" "look u = (look t)(dg_key D \<mapsto> put_fragment (i * dg_frag D) (chunk D i) m)" "packet_fits m"
    "handle_ok m"
  shows "if insert i R = {..dg_last D}
    then \<exists>q t'. handleNetPkt now junk p t = Some (q, t', True) \<and> Data q = tr_header 0 (dg_src D) (dg_dst D) @ dg_ip D @ dg_octets D
      \<and> packet_wf q \<and> look t' (dg_key D) = None
    else handleNetPkt now junk p t = Some (q, u, False) \<and> entered D (insert i R) (put_fragment (i * dg_frag D) (chunk D i) m)"
proof -
  let ?m = "put_fragment (i * dg_frag D) (chunk D i) m"
  have i: "i \<le> dg_last D" using assms(3) by (simp add: is_fragment_def)
  have e: "entered D (insert i R) ?m" by (rule entered_put [OF assms(1,6) i])
  have c: "complete ?m \<longleftrightarrow> insert i R = {..dg_last D}" using assms(4) i by (intro entered_complete [OF e assms(1)]) simp
  have f: "packet_fits ?m"
    using entered_takes [OF assms(1,6) i assms(5)] assms(10,11) by (intro put_fragment_fits) (simp_all add: takes_def)
  have l: "look u (dg_key D) = Some ?m" using assms(9) by simp
  have touch: "touches (dg_key D) t u" using assms(8,9) f by (simp add: touches_def)
  note o = touches_others [OF touch assms(2)]
  note h = handle_fragment [OF assms(1,3), of now junk t, unfolded assms(7), simplified]
  show ?thesis
  proof (cases "insert i R = {..dg_last D}")
    case True
    then obtain t' r where t': "hasFullMsg junk u = Some (t', Some r)" "Data r = message_octets ?m" "packet_wf r" "look t' = (look u)(dg_key D := None)"
      using c by (auto intro: hasFullMsg_one [OF assms(8) l _ f, of junk] simp: o(2))
    show ?thesis using True t' h e entered_message [OF _ assms(1), of ?m] by simp
  next
    case False
    have "\<not> complete x" if x: "x \<in> set u" for x
    proof
      assume "complete x"
      then have "TagShortAddr x = dg_key D" by (rule o(2) [OF x])
      then have "x = ?m" using l look_iff [OF table_okD(1) [OF assms(8)], of "dg_key D" x] x by (auto simp: in_set_conv_nth)
      then show False using \<open>complete x\<close> c False by simp
    qed
    then have "hasFullMsg junk u = Some (u, None)" by (intro hasFullMsg_None) simp
    then show ?thesis using False h e by simp
  qed
qed

lemma first_arrives:
  assumes "dg_ok D" "tunnel_ok t" "is_fragment D 0 p" "look t (dg_key D) = None" "length t < 256"
  obtains q t' m where "handleNetPkt now junk p t = Some (q, t', False)" "look t' (dg_key D) = Some m" "entered D {0} m"
    "look t' = (look t)(dg_key D \<mapsto> m)" "length t' = Suc (length t)"
proof -
  let ?ip = "if dg_local D then Some (dg_ip D) else None"
  let ?n = "of_nat (length (dg_octets D)) :: u16" and ?f = "of_nat (dg_frag D) :: u16"
  have u: "unat ?n = length (dg_octets D)" "unat ?f = dg_frag D" using assms(1) by (simp_all add: dg_ok_def unat_of_nat take_bit_nat_eq_self)
  obtain q tc where a: "addFragment now junk p t =
       (case startMsg now junk (dg_tag D) (dg_src D) (dg_dst D) tc ?n ?f ?ip t of
          None \<Rightarrow> None
        | Some (t, False) \<Rightarrow> Some (q, t)
        | Some (t, True) \<Rightarrow> map_option (\<lambda>(t, _). (q, t)) (addFragment_tbl (dg_tag D) (dg_src D) 0 (chunk D 0) t))"
    using fragment_entry [OF assms(1,3), of now junk t] by auto
  let ?m = "new_handle now junk (dg_key D) (dg_dst D) tc ?n ?f ?ip"
  have ms: "may_start t (dg_key D) ?n ?f" using assms u by (simp add: may_start_def word_le_nat_alt dg_ok_def)
  have sh: "(unat ?n - 1) div unat ?f < 32" using assms(1) unfolding u by (simp add: dg_ok_def dg_last_def)
  obtain t1 where t1: "startMsg now junk (dg_tag D) (dg_src D) (dg_dst D) tc ?n ?f ?ip t = Some (t1, True)" "table_ok t1" "look t1 = (look t)(dg_key D \<mapsto> ?m)"
      "length t1 = Suc (length t)"
    by (rule startMsg_accepted [OF tunnel_okD(1) [OF assms(2)] ms sh])
  have e: "entered D {} ?m" by (rule entered_new [OF assms(1)])
  have l: "look t1 (dg_key D) = Some ?m" using t1(3) by simp
  have tk: "takes ?m (unat (0 :: u16)) (length (chunk D 0))" using entered_takes [OF assms(1) e, of 0] by simp
  obtain t2 where t2: "addFragment_tbl (dg_tag D) (dg_src D) 0 (chunk D 0) t1 = Some (t2, True)" "table_ok t2"
    "look t2 = (look t1)(dg_key D \<mapsto> put_fragment (unat (0 :: u16)) (chunk D 0) ?m)" "length t2 = length t1"
    by (rule addFragment_taken [OF t1(2) l tk])
  have one: "insert 0 {} \<noteq> {..dg_last D}"
  proof -
    have "1 \<le> dg_last D" using assms(1) by (auto simp: dg_ok_def dg_last_def less_eq_div_iff_mult_less_eq)
    then have "1 \<in> {..dg_last D}" by simp
    then show ?thesis by (metis insert_iff empty_iff zero_neq_one)
  qed
  have "packet_fits ?m" using assms(1) u by (simp add: packet_fits_def new_handle_def dg_ok_def)
  then have "handleNetPkt now junk p t = Some (q, t2, False) \<and> entered D {0} (put_fragment 0 (chunk D 0) ?m)"
    using fragment_taken [OF assms(1-3) _ _ e, of now junk q t2] one a t1 t2 table_okD(2) [OF t1(2) l] by (simp split: if_splits)
  then show thesis using that [of q t2 "put_fragment 0 (chunk D 0) ?m"] t1(3,4) t2(3,4) by simp
qed

lemma next_arrives:
  assumes "dg_ok D" "tunnel_ok t" "is_fragment D i p" "look t (dg_key D) = Some m" "entered D R m" "R \<subseteq> {..dg_last D}" "0 \<in> R"
  shows "if i \<in> R then \<exists>q. handleNetPkt now junk p t = Some (q, t, False)
    else if insert i R = {..dg_last D}
    then \<exists>q t'. handleNetPkt now junk p t = Some (q, t', True) \<and> Data q = tr_header 0 (dg_src D) (dg_dst D) @ dg_ip D @ dg_octets D
      \<and> packet_wf q \<and> look t' (dg_key D) = None
    else \<exists>q t' m'. handleNetPkt now junk p t = Some (q, t', False) \<and> look t' (dg_key D) = Some m' \<and> entered D (insert i R) m'"
proof -
  note ok = tunnel_okD(1) [OF assms(2)] tunnel_okD(2) [OF assms(2,4)]
  have i: "i \<le> dg_last D" using assms(3) by (simp add: is_fragment_def)
  let ?off = "ucast (of_nat (i * dg_frag D div 8) :: u8) * 8 :: u16"
  note off = offset_octet [OF assms(1) i]
  obtain q tc where a: "addFragment now junk p t =
    (if i = 0 then
       (case startMsg now junk (dg_tag D) (dg_src D) (dg_dst D) tc (of_nat (length (dg_octets D))) (of_nat (dg_frag D))
               (if dg_local D then Some (dg_ip D) else None) t of
          None \<Rightarrow> None
        | Some (t, False) \<Rightarrow> Some (q, t)
        | Some (t, True) \<Rightarrow> map_option (\<lambda>(t, _). (q, t)) (addFragment_tbl (dg_tag D) (dg_src D) 0 (chunk D 0) t))
     else map_option (\<lambda>(t, _). (q, t)) (addFragment_tbl (dg_tag D) (dg_src D) ?off (chunk D i) t))"
    by (rule fragment_entry [OF assms(1,3)])
  have start: "startMsg now junk (dg_tag D) (dg_src D) (dg_dst D) tc n f ip t = Some (t, False)" for n f ip
    by (rule startMsg_refused [OF ok(1)]) (simp add: may_start_def assms(4))
  have none: "hasFullMsg junk t = Some (t, None)" using assms(2) by (intro hasFullMsg_None) (simp add: tunnel_ok_def)
  obtain j where add: "addFragment_tbl (dg_tag D) (dg_src D) ?off (chunk D i) t =
      (if unat ?off + length (chunk D i) > unat (msgSz m) then Some (t, False)
       else if 32 \<le> unat ?off div unat (frgSz m) then None
       else if bit (bitfield m) (unat ?off div unat (frgSz m)) then Some (t, False)
       else Some (t[j := put_fragment (unat ?off) (chunk D i) m], True))"
    by (rule addFragment_entry [OF ok(1) assms(4)])
  show ?thesis
  proof (cases "i \<in> R")
    case True
    have "i * dg_frag D + length (chunk D i) \<le> length (dg_octets D)" using fragment_start [OF assms(1) i] by (simp add: chunk_def)
    then have "addFragment_tbl (dg_tag D) (dg_src D) ?off (chunk D i) t = Some (t, False)"
      unfolding add off using assms(1,5) True i by (auto simp: entered_def dg_ok_def)
    then have "addFragment now junk p t = Some (q, t)" unfolding a start by simp
    then show ?thesis using True none handle_fragment [OF assms(1,3), of now junk t] by simp
  next
    case False
    have tk: "takes m (unat ?off) (length (chunk D i))" using entered_takes [OF assms(1,5) i] False unfolding off by simp
    obtain u where u: "addFragment_tbl (dg_tag D) (dg_src D) ?off (chunk D i) t = Some (u, True)" "table_ok u"
      "look u = (look t)(dg_key D \<mapsto> put_fragment (unat ?off) (chunk D i) m)"
      by (rule addFragment_taken [OF ok(1) assms(4) tk])
    have "i \<noteq> 0" using False assms(7) by metis
    then have "addFragment now junk p t = Some (q, u)" using a u by simp
    from fragment_taken [OF assms(1-3,6) _ assms(5) this u(2)] False u(3) ok(2) show ?thesis unfolding off by (auto split: if_splits)
  qed
qed

section \<open>All fragments arrive\<close>

text \<open>A packet that is a fragment of the datagram, or of another one.\<close>

definition arrives :: "DATAGRAM \<Rightarrow> int \<times> (nat \<Rightarrow> u8) \<times> ProtocolPacket \<Rightarrow> nat option \<Rightarrow> bool" where
  "arrives D x o' = (case o' of
     Some i \<Rightarrow> is_fragment D i (snd (snd x))
   | None \<Rightarrow> packet_wf (snd (snd x)) \<and> packet_key (Data (snd (snd x))) \<noteq> Some (dg_key D))"

lemma packets_entered:
  assumes "dg_ok D" "list_all2 (arrives D) ps os"
  shows "tunnel_ok t \<Longrightarrow> look t (dg_key D) = Some m \<Longrightarrow> entered D R m \<Longrightarrow> R \<subseteq> {..dg_last D} \<Longrightarrow> 0 \<in> R \<Longrightarrow> net_packets ps t = Some (t', out)
    \<Longrightarrow> R \<union> {i. Some i \<in> set os} \<subset> {..dg_last D}
    \<Longrightarrow> tunnel_ok t' \<and> (\<exists>m'. look t' (dg_key D) = Some m' \<and> entered D (R \<union> {i. Some i \<in> set os}) m')"
  using assms(2)
proof (induction ps os arbitrary: t m R out rule: list_all2_induct)
  case Nil
  then show ?case by auto
next
  case (Cons x ps o' os)
  obtain now junk p where x: "x = (now, junk, p)" by (cases x)
  obtain q u b out' where h: "handleNetPkt now junk p t = Some (q, u, b)" "net_packets ps u = Some (t', out')"
    using Cons.prems(6) x by (auto split: option.splits)
  have wf: "packet_wf p" using Cons.hyps(1) x by (auto simp: arrives_def is_fragment_def split: option.splits)
  note frame = handle_other [OF Cons.prems(1) wf h(1)]
  show ?case
  proof (cases o')
    case None
    then have "look u (dg_key D) = Some m" using frame Cons.hyps(1) Cons.prems(2) x by (simp add: arrives_def)
    then show ?thesis using Cons.IH [of u m R] Cons.prems frame h(2) None by simp
  next
    case (Some i)
    then have i: "is_fragment D i p" using Cons.hyps(1) x by (simp add: arrives_def)
    have ne: "insert i R \<noteq> {..dg_last D}" "insert i R \<subseteq> {..dg_last D}" using Cons.prems(7) Some by auto
    have un: "R \<union> {j. Some j \<in> set (o' # os)} = insert i R \<union> {j. Some j \<in> set os}" using Some by auto
    note n = next_arrives [OF assms(1) Cons.prems(1) i Cons.prems(2-5), of now junk]
    obtain m' where m': "look u (dg_key D) = Some m'" "entered D (insert i R) m'"
      using n h(1) ne(1) Cons.prems(2,3) by (cases "i \<in> R") (auto simp: insert_absorb)
    show ?thesis unfolding un using Cons.IH [of u m' "insert i R"] Cons.prems(5,7) frame h(2) m' ne(2) unfolding un by auto
  qed
qed

lemma packets_ok: "\<forall>x\<in>set ps. packet_wf (snd (snd x)) \<Longrightarrow> tunnel_ok t \<Longrightarrow> net_packets ps t = Some (t', out) \<Longrightarrow> tunnel_ok t'"
proof (induction ps arbitrary: t out)
  case (Cons x ps)
  obtain now junk p where x: "x = (now, junk, p)" by (cases x)
  obtain q u b out' where h: "handleNetPkt now junk p t = Some (q, u, b)" "net_packets ps u = Some (t', out')"
    using Cons.prems(3) x by (auto split: option.splits)
  then show ?case using Cons.IH [of u out'] handle_other [OF Cons.prems(2) _ h(1)] Cons.prems(1) x by simp
qed simp

lemma tunnel_ok_Nil: "tunnel_ok []"
  by (simp add: tunnel_ok_def table_ok_def keys_sorted_def)

text \<open>C36:
  A datagram is put together from its fragments. After any packets, when the table has room and no entry with the tag and the sender of the
  datagram, let its first fragment arrive, then packets among which fragments of the datagram may come in any order and
  repeatedly, mixed with any packets of others, and then a fragment with which all are there. This one makes the backbone router hand
  on the datagram, octet by octet, behind a header with its addresses, and the entry is gone.
\<close>
theorem datagram_reassembled:
  assumes "net_packets before [] = Some (t, out)" "\<forall>x\<in>set before. packet_wf (snd (snd x))"
    and "dg_ok D" "look t (dg_key D) = None" "length t < 256"
    and "is_fragment D 0 p0" "list_all2 (arrives D) ps os" "net_packets ((now0, junk0, p0) # ps) t = Some (t1, out1)"
    and "is_fragment D j p" "j \<notin> insert 0 {i. Some i \<in> set os}" "insert j (insert 0 {i. Some i \<in> set os}) = {..dg_last D}"
  shows "\<exists>q t2. handleNetPkt now junk p t1 = Some (q, t2, True) \<and> Data q = tr_header 0 (dg_src D) (dg_dst D) @ dg_ip D @ dg_octets D
    \<and> look t2 (dg_key D) = None"
proof -
  have t: "tunnel_ok t" by (rule packets_ok [OF assms(2) tunnel_ok_Nil assms(1)])
  obtain q u m where u: "handleNetPkt now0 junk0 p0 t = Some (q, u, False)" "look u (dg_key D) = Some m" "entered D {0} m"
    by (rule first_arrives [OF assms(3) t assms(6,4,5)])
  obtain out2 where n: "net_packets ps u = Some (t1, out2)" using assms(8) u(1) by (auto split: option.splits)
  have "tunnel_ok u" using handle_other [OF t _ u(1)] assms(6) by (simp add: is_fragment_def)
  moreover have "insert 0 {i. Some i \<in> set os} \<subset> {..dg_last D}" using assms(10,11) by blast
  ultimately obtain m' where "tunnel_ok t1" "look t1 (dg_key D) = Some m'" "entered D (insert 0 {i. Some i \<in> set os}) m'"
    using packets_entered [OF assms(3,7) _ u(2,3) _ _ n] by auto
  from next_arrives [OF assms(3) this(1) assms(9) this(2,3), of now junk] assms(10,11) show ?thesis by auto
qed

definition packet_of_octets :: "u8 list \<Rightarrow> ProtocolPacket" where
  "packet_of_octets bs = \<lparr>m_pBuf = bs, m_pHead = 0, m_pTail = length bs\<rparr>"

lemma packet_of_octets_simps [simp]: "packet_wf (packet_of_octets bs)" "Data (packet_of_octets bs) = bs"
  by (simp_all add: packet_of_octets_def packet_wf_def Data_def)

definition sample_datagram :: DATAGRAM where
  "sample_datagram = \<lparr>dg_src = 7, dg_dst = 1, dg_ip = [], dg_tag = 3, dg_octets = replicate 90 5, dg_frag = 40\<rparr>"

lemma sample_datagram: "dg_ok sample_datagram" "dg_last sample_datagram = 2"
  by (simp_all add: dg_ok_def dg_last_def sample_datagram_def)

lemma sample_fragment: "i \<le> 2 \<Longrightarrow> is_fragment sample_datagram i (packet_of_octets (fragment_octets sample_datagram 0 i))"
  by (auto simp: is_fragment_def sample_datagram)

theorem datagram_reassembled_witness:
  "\<exists>t1 out1 q t2. net_packets [(0, \<lambda>_. 0, packet_of_octets (fragment_octets sample_datagram 0 0)), (1, \<lambda>_. 0, packet_of_octets [1, 2, 3]),
       (1, \<lambda>_. 0, packet_of_octets (fragment_octets sample_datagram 0 2))] [] = Some (t1, out1)
     \<and> handleNetPkt 2 (\<lambda>_. 0) (packet_of_octets (fragment_octets sample_datagram 0 1)) t1 = Some (q, t2, True)
     \<and> Data q = [0, 7, 0, 1, 0] @ replicate 90 5"
proof -
  let ?D = sample_datagram and ?j = "\<lambda>_ :: nat. 0 :: u8"
  let ?p = "\<lambda>i. packet_of_octets (fragment_octets ?D 0 i)"
  let ?o = "packet_of_octets [1, 2, 3]"
  have len: "length ([] :: MsgHandle list) < 256" by simp
  have l: "look [] (dg_key ?D) = None" by (simp add: look_def)
  obtain q u m where u: "handleNetPkt 0 ?j (?p 0) [] = Some (q, u, False)" "look u (dg_key ?D) = Some m" "entered ?D {0} m"
    by (rule first_arrives [OF sample_datagram(1) tunnel_ok_Nil sample_fragment [of 0, simplified] l len])
  have ok: "tunnel_ok u" using handle_other [OF tunnel_ok_Nil _ u(1)] by simp
  have o1: "handleNetPkt 1 ?j ?o u = Some (?o, u, False)" by (simp add: handleNetPkt_def DataLen_def packet_of_octets_def)
  have "insert 2 {0} \<noteq> {..2 :: nat}"
  proof
    assume "insert 2 {0} = {..2 :: nat}"
    then have "1 \<in> insert 2 {0 :: nat}" by simp
    then show False by simp
  qed
  then obtain q' v where v: "handleNetPkt 1 ?j (?p 2) u = Some (q', v, False)"
    using next_arrives [OF sample_datagram(1) ok sample_fragment [of 2] u(2,3), of 1 ?j] by (auto simp: sample_datagram)
  have run: "net_packets [(0, ?j, ?p 0), (1, ?j, ?o), (1, ?j, ?p 2)] [] = Some (v, [])" using u(1) o1 v by simp
  have key: "packet_key [1, 2, 3] \<noteq> Some (dg_key ?D)" by (simp add: packet_key_def)
  have all: "list_all2 (arrives ?D) [(1, ?j, ?o), (1, ?j, ?p 2)] [None, Some 2]"
    using key sample_fragment [of 2] by (simp add: arrives_def)
  have idx: "insert 1 (insert 0 {i. Some i \<in> set [None, Some 2]}) = {..dg_last ?D}" by (auto simp: sample_datagram)
  have "\<exists>q t2. handleNetPkt 2 ?j (?p 1) v = Some (q, t2, True) \<and> Data q = tr_header 0 (dg_src ?D) (dg_dst ?D) @ dg_ip ?D @ dg_octets ?D
      \<and> look t2 (dg_key ?D) = None"
    by (rule datagram_reassembled [OF _ _ sample_datagram(1) l len sample_fragment all run sample_fragment _ idx, where before = "[]" and out = "[]"]) simp_all
  then show ?thesis using run by (fastforce simp: sample_datagram_def tr_header_def native_u16_def)
qed

section \<open>Fragments that do not arrive\<close>

lemma blocked_packet:
  assumes "tunnel_ok t" "256 \<le> length t" "packet_wf p" "\<And>k. packet_key (Data p) = Some k \<Longrightarrow> look t k = None"
  shows "\<exists>q b. handleNetPkt now junk p t = Some (q, t, b) \<and> (b \<longrightarrow> q = p)"
proof -
  let ?d = "Data p"
  note ok = tunnel_okD(1) [OF assms(1)]
  have none: "hasFullMsg junk t = Some (t, None)" using assms(1) by (intro hasFullMsg_None) (simp add: tunnel_ok_def)
  have "\<exists>q. addFragment now junk p t = Some (q, t)"
  proof (cases "length ?d < frag_at ?d + 5")
    case True
    then show ?thesis by (rule addFragment_short [OF assms(3)])
  next
    case False
    then have at: "frag_at ?d + 5 \<le> length ?d" by simp
    let ?fh = "take 4 (drop (frag_at ?d + 1) ?d)"
    have k: "packet_key ?d = Some (FRGM_KEY (dgram_tag ?fh) (hdr_src (take 5 ?d)))" using at by (simp add: packet_key_def dgram_tag_def)
    have add: "addFragment_tbl (dgram_tag ?fh) (hdr_src (take 5 ?d)) off frg t = Some (t, False)" for off frg
      by (rule addFragment_absent [OF ok assms(4) [OF k]])
    have start: "startMsg now junk (dgram_tag ?fh) (hdr_src (take 5 ?d)) dst tc n f ip t = Some (t, False)" for dst tc n f ip
      using assms(2) by (intro startMsg_refused [OF ok]) (simp add: may_start_def)
    obtain q where "addFragment now junk p t = enter_fragment now junk (take 5 ?d) (if frag_at ?d = 21 then Some (take 16 (drop 5 ?d)) else None)
        [?d ! frag_at ?d] ?fh q t"
      by (rule addFragment_headers [OF assms(3) at])
    then show ?thesis unfolding enter_fragment_def Let_def add start by (auto split: prod.splits option.splits)
  qed
  then show ?thesis using none by (auto simp: handleNetPkt_def Let_def)
qed

lemma blocked_packets:
  assumes "tunnel_ok t" "256 \<le> length t"
  shows "\<forall>x\<in>set ps. packet_wf (snd (snd x)) \<and> (\<forall>k. packet_key (Data (snd (snd x))) = Some k \<longrightarrow> look t k = None)
    \<Longrightarrow> \<exists>out. net_packets ps t = Some (t, out) \<and> set out \<subseteq> (\<lambda>x. Data (snd (snd x))) ` set ps"
proof (induction ps)
  case (Cons x ps)
  obtain now junk p where x: "x = (now, junk, p)" by (cases x)
  obtain q b where h: "handleNetPkt now junk p t = Some (q, t, b)" "b \<longrightarrow> q = p"
    using blocked_packet [OF assms, of p now junk] Cons.prems x by auto
  moreover obtain out where "net_packets ps t = Some (t, out)" "set out \<subseteq> (\<lambda>x. Data (snd (snd x))) ` set ps" using Cons by auto
  ultimately show ?case using x by auto
qed simp

lemma first_fragments:
  assumes "list_all2 (\<lambda>x D. dg_ok D \<and> is_fragment D 0 (snd (snd x))) ps Ds"
  shows "tunnel_ok t \<Longrightarrow> length t + length Ds \<le> 256 \<Longrightarrow> distinct (map (\<lambda>D. dg_key D) Ds) \<Longrightarrow> dom (look t) \<inter> (\<lambda>D. dg_key D) ` set Ds = {}
    \<Longrightarrow> \<exists>t'. net_packets ps t = Some (t', []) \<and> tunnel_ok t' \<and> length t' = length t + length Ds
      \<and> dom (look t') = dom (look t) \<union> (\<lambda>D. dg_key D) ` set Ds"
  using assms
proof (induction ps Ds arbitrary: t rule: list_all2_induct)
  case (Cons x ps D Ds)
  obtain now junk p where x: "x = (now, junk, p)" by (cases x)
  have f: "dg_ok D" "is_fragment D 0 p" "look t (dg_key D) = None" "length t < 256" using Cons.hyps(1) Cons.prems(2,4) x by auto
  obtain q u m where u: "handleNetPkt now junk p t = Some (q, u, False)" "look u = (look t)(dg_key D \<mapsto> m)" "length u = Suc (length t)"
    by (rule first_arrives [OF f(1) Cons.prems(1) f(2-4)])
  have ok: "tunnel_ok u" using handle_other [OF Cons.prems(1) _ u(1)] f(2) by (simp add: is_fragment_def)
  have dom: "dom (look u) = insert (dg_key D) (dom (look t))" by (simp add: u(2))
  have dj: "dom (look u) \<inter> (\<lambda>D. dg_key D) ` set Ds = {}" unfolding dom using Cons.prems(3,4) by auto
  have "\<exists>t'. net_packets ps u = Some (t', []) \<and> tunnel_ok t' \<and> length t' = length u + length Ds
      \<and> dom (look t') = dom (look u) \<union> (\<lambda>D. dg_key D) ` set Ds"
    using Cons.prems(2,3) u(3) dj by (intro Cons.IH [OF ok]) simp_all
  then show ?case using x u dom by auto
qed simp

text \<open>C37:
  Lost fragments block the table for good. When 256 datagrams have begun to arrive and the rest of them never comes, then from then on, however
  much time passes, no fragment of any other datagram is taken: the table stays as it is, and only packets that are not fragmented are
  handed on, as they came.
\<close>
theorem lost_fragments_block:
  assumes "length Ds = 256" "distinct (map (\<lambda>D. dg_key D) Ds)" "list_all2 (\<lambda>x D. dg_ok D \<and> is_fragment D 0 (snd (snd x))) ps Ds"
    and "\<forall>x\<in>set later. packet_wf (snd (snd x)) \<and> packet_key (Data (snd (snd x))) \<notin> (\<lambda>D. Some (dg_key D)) ` set Ds"
  shows "\<exists>t out. net_packets ps [] = Some (t, []) \<and> net_packets later t = Some (t, out) \<and> set out \<subseteq> (\<lambda>x. Data (snd (snd x))) ` set later"
proof -
  have l: "look [] = Map.empty" by (simp add: look_def)
  obtain t where t: "net_packets ps [] = Some (t, [])" "tunnel_ok t" "length t = 256" "dom (look t) = (\<lambda>D. dg_key D) ` set Ds"
    using first_fragments [OF assms(3) tunnel_ok_Nil] assms(1,2) by (auto simp: l)
  have "look t k = None" if "x \<in> set later" "packet_key (Data (snd (snd x))) = Some k" for x k
  proof -
    have "k \<notin> dom (look t)" using assms(4) that unfolding t(4) by auto
    then show ?thesis by (simp add: domIff)
  qed
  then show ?thesis using blocked_packets [OF t(2), of later] t(1,3) assms(4) by auto
qed

definition numbered :: "nat \<Rightarrow> DATAGRAM" where
  "numbered i = sample_datagram\<lparr>dg_tag := of_nat i\<rparr>"

lemma FRGM_KEY_inj: "FRGM_KEY a s = FRGM_KEY b s \<Longrightarrow> a = b"
proof (rule bit_word_eqI)
  fix n assume "FRGM_KEY a s = FRGM_KEY b s" "n < LENGTH(16)"
  then have "bit (FRGM_KEY a s) (n + 16) = bit (FRGM_KEY b s) (n + 16)" by simp
  then show "bit a n = bit b n" using \<open>n < LENGTH(16)\<close> by (auto simp: FRGM_KEY_def bit_or_iff bit_push_bit_iff bit_unsigned_iff dest: bit_imp_le_length)
qed

theorem lost_fragments_block_witness:
  "\<exists>t out. net_packets (map (\<lambda>i. (int i, \<lambda>_. 0, packet_of_octets (fragment_octets (numbered i) 0 0))) [0..<256]) [] = Some (t, [])
     \<and> net_packets [(1000000, \<lambda>_. 0, packet_of_octets (fragment_octets (numbered 300) 0 0))] t = Some (t, out)
     \<and> set out \<subseteq> {fragment_octets (numbered 300) 0 0}"
proof -
  let ?f = "\<lambda>i. packet_of_octets (fragment_octets (numbered i) 0 0)"
  have ok: "dg_ok (numbered i)" "is_fragment (numbered i) 0 (?f i)" for i
    by (auto simp: numbered_def dg_ok_def dg_last_def is_fragment_def sample_datagram_def)
  have inj: "i = j" if "dg_key (numbered i) = dg_key (numbered j)" "i < 65536" "j < 65536" for i j
  proof -
    have "(of_nat i :: u16) = of_nat j" using FRGM_KEY_inj that(1) by (simp add: numbered_def)
    from arg_cong [OF this, of unat] that(2,3) show ?thesis by (simp add: unat_of_nat take_bit_nat_eq_self)
  qed
  have d: "distinct (map (\<lambda>D. dg_key D) (map numbered [0..<256]))"
    by (auto simp: distinct_map comp_def inj_on_def intro: inj)
  have l: "list_all2 (\<lambda>x D. dg_ok D \<and> is_fragment D 0 (snd (snd x))) (map (\<lambda>i. (int i, \<lambda>_. 0, ?f i)) [0..<256]) (map numbered [0..<256])"
    using ok by (simp add: list_all2_conv_all_nth)
  have k: "packet_key (Data (?f 300)) = Some (dg_key (numbered 300))" by (rule fragment_headers(2) [OF ok(1)]) simp
  have "packet_key (Data (?f 300)) \<notin> (\<lambda>D. Some (dg_key D)) ` set (map numbered [0..<256])"
    unfolding k using inj by fastforce
  then show ?thesis using lost_fragments_block [OF _ d l, of "[(1000000, \<lambda>_. 0, ?f 300)]"] by simp
qed

section \<open>Fragments that are too short\<close>

text \<open>C38:
  A fragment that is too short counts as if it were whole. A second fragment without any octet completes a message of 80 octets after
  a first fragment of 40: the message is handed on with 40 octets that nobody sent, the contents of newly allocated memory.
\<close>
theorem empty_fragment_completes:
  "\<exists>t1 t2 t3 t4 p. startMsg now junk tag src dst tc 80 40 None [] = Some (t1, True) \<and> addFragment_tbl tag src 0 (replicate 40 b) t1 = Some (t2, True)
     \<and> addFragment_tbl tag src 40 [] t2 = Some (t3, True) \<and> hasFullMsg junk' t3 = Some (t4, Some p)
     \<and> Data p = tr_header 0 src dst @ replicate 40 b @ map junk [40..<80]"
proof -
  let ?k = "FRGM_KEY tag src"
  let ?m = "new_handle now junk ?k dst tc 80 40 None"
  let ?m1 = "put_fragment 0 (replicate 40 b) ?m"
  let ?m2 = "put_fragment 40 [] ?m1"
  have s0: "binSearch 0 ?k [] compareTagAddr = (False, 0)" by (simp add: binSearch_def bin_loop.simps)
  have s1: "binSearch (length [m]) ?k [m] compareTagAddr = (True, 0)" if "TagShortAddr m = ?k" for m
    using that by (simp add: binSearch_def bin_loop.simps [of _ _ 0 0] compareTagAddr_def)
  have k: "TagShortAddr ?m = ?k" "TagShortAddr ?m1 = ?k" by (simp_all add: put_fragment_def new_handle_def)
  have f: "unat (frgSz ?m) = 40" "unat (frgSz ?m1) = 40" "unat (msgSz ?m) = 80" "unat (msgSz ?m1) = 80"
    "bitfield ?m = push_bit 1 0xFFFFFFFE" "bitfield ?m1 = bitfield ?m OR 1" by (simp_all add: put_fragment_def new_handle_def)
  have a1: "startMsg now junk tag src dst tc 80 40 None [] = Some ([?m], True)" using s0 by (simp add: startMsg_def)
  have a2: "addFragment_tbl tag src 0 (replicate 40 b) [?m] = Some ([?m1], True)"
    using s1 [OF k(1)] by (simp add: addFragment_tbl_def Let_def f)
  have a3: "addFragment_tbl tag src 40 [] [?m1] = Some ([?m2], True)"
    using s1 [OF k(2)] by (simp add: addFragment_tbl_def Let_def f)
  have "bitfield ?m2 = bitfield ?m1 OR push_bit (40 div unat (frgSz ?m1)) 1" by (simp add: put_fragment_def)
  then have "complete ?m2" unfolding complete_def f by simp
  moreover have m2: "msgPtr ?m2 = replicate 40 b @ map junk [40..<80]" "pu8IPv6 ?m2 = None" "TagShortAddr ?m2 = ?k" "dstAddr ?m2 = dst"
    by (simp_all add: put_fragment_def new_handle_def drop_map)
  moreover have src: "ucast ?k = src" by (rule bit_word_eqI) (auto simp: FRGM_KEY_def bit_unsigned_iff bit_or_iff bit_push_bit_iff)
  moreover obtain p where p: "full_packet junk' ?m2 = Some p" "Data p = message_octets ?m2"
    by (rule full_packet_octets [of ?m2 junk']) (simp add: packet_fits_def m2)
  ultimately have "hasFullMsg junk' [?m2] = Some ([], Some p)" "Data p = tr_header 0 src dst @ replicate 40 b @ map junk [40..<80]"
    by (simp_all add: hasFullMsg_def complete_def dropMsg_def message_octets_def)
  then show ?thesis using a1 a2 a3 by blast
qed

end
