(* ===== verification/Bbr_Serial.thy ===== *)
theory Bbr_Serial
  imports Bbr_Packet
begin

text \<open>
  The serial line between the backbone router and its transceiver: the check sum and the frames of \<^verbatim>\<open>Shared/h.cpp\<close>, and the link that
  collects what the line delivers until a frame is whole (\<^verbatim>\<open>common/TtyLink.cpp\<close>, \<^verbatim>\<open>common/EncaseLayer.cpp\<close>).
\<close>

unbundle bit_operations_syntax

section \<open>The check sum\<close>

definition crctable :: "u16 list" where
  "crctable =
     [0x0, 0x1021, 0x2042, 0x3063, 0x4084, 0x50A5, 0x60C6, 0x70E7, 0x8108, 0x9129, 0xA14A, 0xB16B, 0xC18C, 0xD1AD, 0xE1CE, 0xF1EF,
      0x1231, 0x210, 0x3273, 0x2252, 0x52B5, 0x4294, 0x72F7, 0x62D6, 0x9339, 0x8318, 0xB37B, 0xA35A, 0xD3BD, 0xC39C, 0xF3FF, 0xE3DE,
      0x2462, 0x3443, 0x420, 0x1401, 0x64E6, 0x74C7, 0x44A4, 0x5485, 0xA56A, 0xB54B, 0x8528, 0x9509, 0xE5EE, 0xF5CF, 0xC5AC, 0xD58D,
      0x3653, 0x2672, 0x1611, 0x630, 0x76D7, 0x66F6, 0x5695, 0x46B4, 0xB75B, 0xA77A, 0x9719, 0x8738, 0xF7DF, 0xE7FE, 0xD79D, 0xC7BC,
      0x48C4, 0x58E5, 0x6886, 0x78A7, 0x840, 0x1861, 0x2802, 0x3823, 0xC9CC, 0xD9ED, 0xE98E, 0xF9AF, 0x8948, 0x9969, 0xA90A, 0xB92B,
      0x5AF5, 0x4AD4, 0x7AB7, 0x6A96, 0x1A71, 0xA50, 0x3A33, 0x2A12, 0xDBFD, 0xCBDC, 0xFBBF, 0xEB9E, 0x9B79, 0x8B58, 0xBB3B, 0xAB1A,
      0x6CA6, 0x7C87, 0x4CE4, 0x5CC5, 0x2C22, 0x3C03, 0xC60, 0x1C41, 0xEDAE, 0xFD8F, 0xCDEC, 0xDDCD, 0xAD2A, 0xBD0B, 0x8D68, 0x9D49,
      0x7E97, 0x6EB6, 0x5ED5, 0x4EF4, 0x3E13, 0x2E32, 0x1E51, 0xE70, 0xFF9F, 0xEFBE, 0xDFDD, 0xCFFC, 0xBF1B, 0xAF3A, 0x9F59, 0x8F78,
      0x9188, 0x81A9, 0xB1CA, 0xA1EB, 0xD10C, 0xC12D, 0xF14E, 0xE16F, 0x1080, 0xA1, 0x30C2, 0x20E3, 0x5004, 0x4025, 0x7046, 0x6067,
      0x83B9, 0x9398, 0xA3FB, 0xB3DA, 0xC33D, 0xD31C, 0xE37F, 0xF35E, 0x2B1, 0x1290, 0x22F3, 0x32D2, 0x4235, 0x5214, 0x6277, 0x7256,
      0xB5EA, 0xA5CB, 0x95A8, 0x8589, 0xF56E, 0xE54F, 0xD52C, 0xC50D, 0x34E2, 0x24C3, 0x14A0, 0x481, 0x7466, 0x6447, 0x5424, 0x4405,
      0xA7DB, 0xB7FA, 0x8799, 0x97B8, 0xE75F, 0xF77E, 0xC71D, 0xD73C, 0x26D3, 0x36F2, 0x691, 0x16B0, 0x6657, 0x7676, 0x4615, 0x5634,
      0xD94C, 0xC96D, 0xF90E, 0xE92F, 0x99C8, 0x89E9, 0xB98A, 0xA9AB, 0x5844, 0x4865, 0x7806, 0x6827, 0x18C0, 0x8E1, 0x3882, 0x28A3,
      0xCB7D, 0xDB5C, 0xEB3F, 0xFB1E, 0x8BF9, 0x9BD8, 0xABBB, 0xBB9A, 0x4A75, 0x5A54, 0x6A37, 0x7A16, 0xAF1, 0x1AD0, 0x2AB3, 0x3A92,
      0xFD2E, 0xED0F, 0xDD6C, 0xCD4D, 0xBDAA, 0xAD8B, 0x9DE8, 0x8DC9, 0x7C26, 0x6C07, 0x5C64, 0x4C45, 0x3CA2, 0x2C83, 0x1CE0, 0xCC1,
      0xEF1F, 0xFF3E, 0xCF5D, 0xDF7C, 0xAF9B, 0xBFBA, 0x8FD9, 0x9FF8, 0x6E17, 0x7E36, 0x4E55, 0x5E74, 0x2E93, 0x3EB2, 0xED1, 0x1EF0]"

definition crc_step :: "u16 \<Rightarrow> u8 \<Rightarrow> u16" where
  "crc_step nAcumulator b = push_bit 8 nAcumulator XOR crctable ! unat (ucast (drop_bit 8 nAcumulator) XOR b :: u8)"

text \<open>The value that is stored in network order, the octet of the higher bits first.\<close>

definition computeCRC :: "u8 list \<Rightarrow> u16" where
  "computeCRC buff = foldl crc_step 0xFFFF buff"

text \<open>The remainder by the polynomial of the CRC-16 of the ITU-T, bit by bit.\<close>

definition crc_bit :: "u16 \<Rightarrow> u16" where
  "crc_bit a = (if bit a 15 then push_bit 1 a XOR 0x1021 else push_bit 1 a)"

definition crc_octet :: "u16 \<Rightarrow> u8 \<Rightarrow> u16" where
  "crc_octet a b = (crc_bit ^^ 8) (a XOR push_bit 8 (ucast b))"

lemma crc_bit_xor: "crc_bit (a XOR b) = crc_bit a XOR crc_bit b"
  by (rule bit_word_eqI) (auto simp: crc_bit_def bit_xor_iff bit_push_bit_iff)

lemma crc_bits_xor: "(crc_bit ^^ n) (a XOR b) = (crc_bit ^^ n) a XOR (crc_bit ^^ n) b"
  by (induction n) (simp_all add: crc_bit_xor)

lemma crc_bits_shift: "(\<And>i. 16 \<le> i + n \<Longrightarrow> \<not> bit a i) \<Longrightarrow> (crc_bit ^^ n) a = push_bit n a"
proof (induction n)
  case (Suc n)
  have "(crc_bit ^^ n) a = push_bit n a" using Suc.prems by (intro Suc.IH) simp
  moreover have "\<not> bit (push_bit n a) 15" using Suc.prems [of "15 - n"] by (auto simp: bit_push_bit_iff)
  ultimately show ?case by (simp add: crc_bit_def [of "push_bit n a"])
qed simp

text \<open>The entries of the table in pairs: each entry is one bit further than the one with half its index.\<close>

lemma crctable_pairs: "crctable = concat (map (\<lambda>a. [crc_bit a, crc_bit a XOR 0x1021]) (take 128 crctable))"
  by (simp add: crctable_def crc_bit_def bit_numeral_word_iff)

lemma length_crctable: "length crctable = 256"
  by (simp add: crctable_def)


lemma nth_concat_pairs:
  "i < length xs \<Longrightarrow> concat (map (\<lambda>a. [f a, g a]) xs) ! (2 * i) = f (xs ! i)"
  "i < length xs \<Longrightarrow> concat (map (\<lambda>a. [f a, g a]) xs) ! Suc (2 * i) = g (xs ! i)"
  by (induction xs arbitrary: i) (auto simp: nth_Cons split: nat.splits)

lemma crctable_step:
  assumes "i < 128"
  shows "crctable ! (2 * i) = crc_bit (crctable ! i)" "crctable ! Suc (2 * i) = crc_bit (crctable ! i) XOR 0x1021"
proof -
  have i: "i < length (take 128 crctable)" using assms by (simp add: length_crctable)
  show "crctable ! (2 * i) = crc_bit (crctable ! i)"
    by (subst crctable_pairs) (simp add: nth_concat_pairs(1) [OF i] assms)
  show "crctable ! Suc (2 * i) = crc_bit (crctable ! i) XOR 0x1021"
    by (subst crctable_pairs) (simp add: nth_concat_pairs(2) [OF i] assms)
qed

lemma crc_bits_0 [simp]: "(crc_bit ^^ n) 0 = 0"
  by (induction n) (simp_all add: crc_bit_def)

lemma crc_bits_256: "(crc_bit ^^ 8) 256 = 0x1021"
proof -
  have "bit (256 :: u16) i \<longleftrightarrow> i = 8" for i using bit_exp_iff [where 'a = u16, of 8 i] by auto
  then have "(crc_bit ^^ 7) 256 = push_bit 7 256" by (intro crc_bits_shift) simp
  moreover have "(crc_bit ^^ 8) 256 = crc_bit ((crc_bit ^^ 7) 256)" by (simp only: funpow.simps o_apply numeral_eq_Suc pred_numeral_simps BitM.simps)
  ultimately show ?thesis by (simp add: crc_bit_def bit_numeral_word_iff)
qed

lemma crc_bit_even:
  assumes "j < 128"
  shows "crc_bit (push_bit 8 (of_nat j)) = push_bit 8 (of_nat (2 * j))"
proof -
  have "\<not> bit (push_bit 8 (of_nat j) :: u16) 15"
    using assms by (simp add: bit_push_bit_iff bit_of_nat_iff bit_nat_def)
  then show ?thesis by (simp add: crc_bit_def push_bit_eq_mult algebra_simps)
qed

lemma crctable_bits: "i < 256 \<Longrightarrow> crctable ! i = (crc_bit ^^ 8) (push_bit 8 (of_nat i))"
proof (induction i rule: less_induct)
  case (less i)
  consider "i = 0" | j where "i = 2 * j" "0 < j" | j where "i = Suc (2 * j)" by (metis oddE evenE Suc_eq_plus1 gr0I mult_0_right)
  then show ?case
  proof cases
    case 1
    then show ?thesis by (simp add: crctable_def)
  next
    case (2 j)
    then have "crctable ! i = crc_bit ((crc_bit ^^ 8) (push_bit 8 (of_nat j)))"
      using less by (simp add: crctable_step(1))
    also have "\<dots> = (crc_bit ^^ 8) (crc_bit (push_bit 8 (of_nat j)))" by (rule funpow_swap1)
    finally show ?thesis using 2 less.prems by (simp add: crc_bit_even)
  next
    case (3 j)
    have "of_nat (2 * j) XOR (1 :: u16) = of_nat i" using 3 by (simp add: xor_one_eq)
    then have "push_bit 8 (of_nat i) = push_bit 8 (of_nat (2 * j)) XOR push_bit 8 (1 :: u16)" by (simp only: push_bit_xor [symmetric])
    then have "push_bit 8 (of_nat i) = push_bit 8 (of_nat (2 * j)) XOR (256 :: u16)" by simp
    moreover have "crctable ! i = crc_bit ((crc_bit ^^ 8) (push_bit 8 (of_nat j))) XOR 0x1021"
      using 3 less by (simp add: crctable_step(2))
    moreover have "crc_bit ((crc_bit ^^ 8) (push_bit 8 (of_nat j))) = (crc_bit ^^ 8) (push_bit 8 (of_nat (2 * j)))"
      using 3 less.prems by (simp add: funpow_swap1 [of crc_bit] crc_bit_even)
    ultimately show ?thesis by (simp add: crc_bits_xor crc_bits_256)
  qed
qed

lemma crc_step_octet: "crc_step a b = crc_octet a b"
proof -
  let ?x = "ucast (drop_bit 8 a) XOR b :: u8"
  have "unat ?x < 256" using unsigned_less [of ?x] by simp
  then have t: "crctable ! unat ?x = (crc_bit ^^ 8) (push_bit 8 (ucast ?x))" by (simp add: crctable_bits)
  have "(crc_bit ^^ 8) (take_bit 8 a) = push_bit 8 (take_bit 8 a)" by (rule crc_bits_shift) (simp add: bit_take_bit_iff)
  also have "\<dots> = push_bit 8 a" by (rule bit_word_eqI) (auto simp: bit_push_bit_iff bit_take_bit_iff)
  finally have s: "(crc_bit ^^ 8) (take_bit 8 a) = push_bit 8 a" .
  have "a XOR push_bit 8 (ucast b) = take_bit 8 a XOR push_bit 8 (ucast ?x)"
    by (rule bit_word_eqI) (auto simp: bit_xor_iff bit_push_bit_iff bit_take_bit_iff bit_unsigned_iff bit_drop_bit_eq)
  then show ?thesis by (simp add: crc_octet_def crc_step_def t crc_bits_xor s)
qed

lemma computeCRC_bits: "computeCRC buff = foldl crc_octet 0xFFFF buff"
  by (simp add: computeCRC_def crc_step_octet [abs_def])

text \<open>Different registers stay different.\<close>

lemma crc_xor_cancel: "a XOR c = b XOR c \<Longrightarrow> a = (b :: u16)"
  by (metis xor.assoc xor_self_eq xor.right_neutral)

lemma crc_bit_inj: "inj crc_bit"
proof (rule injI)
  fix a b assume e: "crc_bit a = crc_bit b"
  have "bit (crc_bit x) 0 = bit x 15" for x by (simp add: crc_bit_def bit_xor_iff bit_push_bit_iff bit_numeral_word_iff del: push_bit_Suc push_bit_numeral One_nat_def)
  then have top: "bit a 15 = bit b 15" using e by metis
  then have "push_bit 1 a = push_bit 1 b"
    using e crc_xor_cancel [of "push_bit 1 a" "0x1021" "push_bit 1 b"] by (cases "bit b 15") (simp_all add: crc_bit_def)
  moreover have "n < 15 \<Longrightarrow> bit x n = bit (push_bit 1 x) (Suc n)" for x :: u16 and n using bit_push_bit_iff [of 1 x "Suc n"] by simp
  ultimately have "n < 15 \<Longrightarrow> bit a n = bit b n" for n by simp
  note low = this
  show "a = b"
  proof (rule bit_word_eqI)
    fix n assume "n < LENGTH(16)"
    then consider "n < 15" | "n = 15" by fastforce
    then show "bit a n = bit b n" using low top by cases auto
  qed
qed

lemma crc_bits_inj: "inj (crc_bit ^^ n)"
  using crc_bit_inj by (rule inj_fn)

lemma crc_octet_inj: "crc_octet a b = crc_octet a' b \<Longrightarrow> a = a'"
  unfolding crc_octet_def by (rule crc_xor_cancel) (rule injD [OF crc_bits_inj])

lemma crc_octets_inj: "foldl crc_octet a bs = foldl crc_octet a' bs \<Longrightarrow> a = a'"
  by (induction bs arbitrary: a a') (auto dest: crc_octet_inj)

text \<open>Two octets go into the register as one word of 16 bits.\<close>

definition octet_pair :: "u8 \<Rightarrow> u8 \<Rightarrow> u16" where
  "octet_pair h l = push_bit 8 (ucast h) OR ucast l"

lemma octet_pair_inj: "octet_pair h l = octet_pair h' l' \<Longrightarrow> h = h' \<and> l = l'"
proof -
  assume "octet_pair h l = octet_pair h' l'"
  then have "bit (octet_pair h l) n = bit (octet_pair h' l') n" for n by simp
  then have "bit (octet_pair h l) (n + 8) = bit (octet_pair h' l') (n + 8)" "n < 8 \<Longrightarrow> bit (octet_pair h l) n = bit (octet_pair h' l') n" for n by auto
  moreover have "bit (octet_pair a b) (n + 8) = bit a n" "n < 8 \<Longrightarrow> bit (octet_pair a b) n = bit b n" for a b n
    by (auto simp: octet_pair_def bit_or_iff bit_push_bit_iff bit_unsigned_iff dest: bit_imp_le_length)
  ultimately show ?thesis by (intro conjI bit_word_eqI) simp_all
qed

lemma crc_two_octets: "crc_octet (crc_octet a h) l = (crc_bit ^^ 16) (a XOR octet_pair h l)"
proof -
  have "(crc_bit ^^ 8) (ucast l) = push_bit 8 (ucast l)"
    by (rule crc_bits_shift) (auto simp: bit_unsigned_iff dest: bit_imp_le_length)
  moreover have "octet_pair h l = push_bit 8 (ucast h) XOR ucast l"
    by (rule bit_word_eqI) (auto simp: octet_pair_def bit_or_iff bit_xor_iff bit_push_bit_iff bit_unsigned_iff dest: bit_imp_le_length)
  moreover have "(crc_bit ^^ 16) x = (crc_bit ^^ 8) ((crc_bit ^^ 8) x)" for x using funpow_add [of 8 8 crc_bit] by simp
  ultimately show ?thesis by (simp only: crc_octet_def crc_bits_xor xor.assoc)
qed

lemma crc_residue: "foldl crc_octet a [h, l] = 0 \<longleftrightarrow> a = octet_pair h l"
proof -
  have z: "(crc_bit ^^ 16) x = 0 \<longleftrightarrow> x = 0" for x
    using injD [OF crc_bits_inj, of 16 x 0] by (auto simp only: crc_bits_0)
  have "foldl crc_octet a [h, l] = (crc_bit ^^ 16) (a XOR octet_pair h l)" by (simp only: foldl.simps crc_two_octets)
  moreover have "a XOR octet_pair h l = 0 \<longleftrightarrow> a = octet_pair h l"
    using crc_xor_cancel [of a "octet_pair h l" "octet_pair h l"] by (auto simp only: xor_self_eq)
  ultimately show ?thesis by (simp only: z)
qed

lemma crc_burst: "foldl crc_octet a (pre @ [x, y] @ post) = foldl crc_octet a (pre @ [x', y'] @ post) \<Longrightarrow> x = x' \<and> y = y'"
proof -
  assume "foldl crc_octet a (pre @ [x, y] @ post) = foldl crc_octet a (pre @ [x', y'] @ post)"
  then have "(crc_bit ^^ 16) (foldl crc_octet a pre XOR octet_pair x y) = (crc_bit ^^ 16) (foldl crc_octet a pre XOR octet_pair x' y')"
    by (auto simp: crc_two_octets dest: crc_octets_inj)
  then have "foldl crc_octet a pre XOR octet_pair x y = foldl crc_octet a pre XOR octet_pair x' y'" using injD [OF crc_bits_inj] by blast
  then have "octet_pair x y XOR foldl crc_octet a pre = octet_pair x' y' XOR foldl crc_octet a pre" by (simp only: xor.commute)
  then show ?thesis by (intro octet_pair_inj) (rule crc_xor_cancel)
qed

section \<open>Packets with a check sum\<close>

definition net_u16 :: "u16 \<Rightarrow> u8 list" where
  "net_u16 x = [ucast (drop_bit 8 x), ucast x]"

text \<open>The packet that is put into the queue, with the handle it carries.\<close>

definition addPktToTty :: "u8 \<Rightarrow> u16 \<Rightarrow> ProtocolPacket \<Rightarrow> u16 \<times> ProtocolPacket" where
  "addPktToTty p_ucMsgType m_hHandle pkt =
     (let m_hHandle = (m_hHandle + 1) AND 0x7FFF;
          pkt = fst (PushFront ([p_ucMsgType] @ net_u16 m_hHandle) pkt)
      in (m_hHandle, fst (PushBack (net_u16 (computeCRC (Data pkt))) pkt)))"

text \<open>The part of the reception that checks a packet; \<open>None\<close> when it is dropped.\<close>

definition check_crc :: "ProtocolPacket \<Rightarrow> ProtocolPacket option" where
  "check_crc pkt =
     (if DataLen pkt < 3 + 2 then None
      else case PopBack True 2 pkt of (pkt, _, in_mic) \<Rightarrow> if in_mic \<noteq> net_u16 (computeCRC (Data pkt)) then None else Some pkt)"

lemma net_u16_pair: "net_u16 x = [h, l] \<longleftrightarrow> x = octet_pair h l"
proof -
  have "octet_pair (ucast (drop_bit 8 x)) (ucast x) = x"
    by (rule bit_word_eqI) (auto simp: octet_pair_def bit_or_iff bit_push_bit_iff bit_unsigned_iff bit_drop_bit_eq)
  then show ?thesis using octet_pair_inj [of "ucast (drop_bit 8 x)" "ucast x" h l] by (auto simp: net_u16_def)
qed

lemma crc_sealed: "foldl crc_octet 0xFFFF (d @ net_u16 (computeCRC d)) = 0"
proof -
  obtain u v where uv: "net_u16 (computeCRC d) = [u, v]" by (simp add: net_u16_def)
  then have "foldl crc_octet (computeCRC d) [u, v] = 0" by (simp only: crc_residue net_u16_pair)
  then show ?thesis unfolding foldl_append uv by (simp only: computeCRC_bits)
qed

lemma split_last_two: "length xs = n + 2 \<Longrightarrow> \<exists>bs k l. xs = bs @ [k, l] \<and> length bs = n"
  by (cases xs rule: rev_cases; cases "butlast xs" rule: rev_cases) auto

lemma PopBack_two:
  assumes "packet_wf p" "Data p = bs @ [h, l]"
  shows "PopBack True 2 p = (p\<lparr>m_pTail := m_pTail p - 2\<rparr>, False, [h, l])" "Data (p\<lparr>m_pTail := m_pTail p - 2\<rparr>) = bs"
proof -
  let ?h = "m_pHead p" and ?t = "m_pTail p" and ?b = "m_pBuf p"
  have n: "?t - ?h = length bs + 2" using length_Data [OF assms(1)] assms(2) by (simp add: DataLen_def)
  have w: "?h \<le> ?t" "?t \<le> length ?b" using assms(1) by (simp_all add: packet_wf_def)
  then have e: "?t - 2 = length bs + ?h" using n by simp
  have "take 2 (drop (?t - 2) ?b) = drop (?t - 2) (take ?t ?b)" using n by (simp add: drop_take)
  also have "\<dots> = drop (length bs) (Data p)" by (simp only: Data_def drop_drop e)
  finally have "take 2 (drop (?t - 2) ?b) = [h, l]" by (simp add: assms(2))
  then show "PopBack True 2 p = (p\<lparr>m_pTail := ?t - 2\<rparr>, False, [h, l])" using n by (simp add: PopBack_def)
  have "?t - 2 - ?h = length bs" using e by simp
  then have "drop ?h (take (?t - 2) ?b) = take (length bs) (drop ?h (take ?t ?b))" by (simp only: drop_take n take_take) simp
  then show "Data (p\<lparr>m_pTail := ?t - 2\<rparr>) = bs" using assms(2) by (simp add: Data_def)
qed

lemma check_crc_iff:
  assumes "packet_wf p" "Data p = bs @ [h, l]" "3 \<le> length bs"
  shows "check_crc p = (if foldl crc_octet 0xFFFF (Data p) = 0 then Some (p\<lparr>m_pTail := m_pTail p - 2\<rparr>) else None)"
proof -
  have "DataLen p = length bs + 2" using assms(2) length_Data [OF assms(1)] by simp
  moreover have "[h, l] = net_u16 (computeCRC bs) \<longleftrightarrow> foldl crc_octet 0xFFFF (Data p) = 0"
    using net_u16_pair [of "computeCRC bs" h l] crc_residue [of "foldl crc_octet 0xFFFF bs" h l] by (auto simp: assms(2) computeCRC_bits)
  ultimately show ?thesis using assms(3) by (simp add: check_crc_def PopBack_two [OF assms(1,2)])
qed

lemma addPktToTty_data:
  assumes "packet_wf p" "3 \<le> m_pHead p" "m_pTail p + 2 \<le> length (m_pBuf p)" "addPktToTty t h p = (h', sent)"
  shows "Data sent = ([t] @ net_u16 h' @ Data p) @ net_u16 (computeCRC ([t] @ net_u16 h' @ Data p))"
proof -
  let ?q = "fst (PushFront ([t] @ net_u16 h') p)"
  have l: "length ([t] @ net_u16 h') = 3" by (simp add: net_u16_def)
  note f = PushFront_data [OF assms(1), of "[t] @ net_u16 h'", unfolded l, OF assms(2)]
  have "m_pTail ?q + 2 \<le> length (m_pBuf ?q)" using f(5) assms(3) by simp
  then have "m_pTail ?q + length (net_u16 x) \<le> length (m_pBuf ?q)" for x by (simp add: net_u16_def)
  note b = PushBack_data(2) [OF f(3) this]
  have "sent = fst (PushBack (net_u16 (computeCRC (Data ?q))) ?q)" using assms(4) by (auto simp: addPktToTty_def Let_def)
  then show ?thesis by (simp only: b f(2) append.assoc)
qed



section \<open>Frames\<close>

definition STX :: u8 where "STX = 0xF0"
definition ETX :: u8 where "ETX = 0xF1"
definition CHX :: u8 where "CHX = 0xF2"

definition escape_octet :: "u8 \<Rightarrow> u8 list" where
  "escape_octet b =
     (if b = STX then [CHX, NOT STX] else if b = ETX then [CHX, NOT ETX] else if b = CHX then [CHX, NOT CHX] else [b])"

definition EscapeMsg :: "u8 list \<Rightarrow> u8 list" where
  "EscapeMsg msg = [STX] @ concat (map escape_octet msg) @ [ETX]"

text \<open>In place: the message without the escapes and its length; \<open>None\<close> when the last octet is an escape and the octet behind the message is read.\<close>

fun unescape_loop :: "u8 list \<Rightarrow> u8 list option" where
  "unescape_loop [] = Some []"
| "unescape_loop (b # bs) =
     (if b \<noteq> CHX then map_option (Cons b) (unescape_loop bs)
      else case bs of [] \<Rightarrow> None | c # cs \<Rightarrow> map_option (Cons (NOT c)) (unescape_loop cs))"

definition UnescapeMsg :: "u8 list \<Rightarrow> (u8 list \<times> nat) option" where
  "UnescapeMsg msg = map_option (\<lambda>out. (out @ drop (length out) msg, length out)) (unescape_loop msg)"

text \<open>The search for the end of the frame, from position \<open>i\<close> of the buffer on; \<open>None\<close> when another frame begins.\<close>

fun scan_etx :: "nat \<Rightarrow> u8 list \<Rightarrow> nat option" where
  "scan_etx i [] = Some 0"
| "scan_etx i (b # bs) = (if b = STX then None else if b = ETX then Some (i - 1) else scan_etx (Suc i) bs)"

definition ParseRxMessage :: "u8 list \<Rightarrow> u8 list \<times> nat" where
  "ParseRxMessage p_buf =
     (let buf = dropWhile (\<lambda>b. b \<noteq> STX) p_buf in
      if buf = [] then ([], 0)
      else case scan_etx 1 (tl buf) of None \<Rightarrow> ([], 0) | Some n \<Rightarrow> (buf, n))"

section \<open>The link\<close>

text \<open>
  The line holds the octets that will arrive. \<open>Some k\<close> stands for at most \<open>k\<close> of them being there when the code looks, \<open>None\<close> for an error. The
  descriptor is open or not; opening it again, which the code tries until it succeeds, is counted.
\<close>

record CTtyLink =
  m_buf :: "u8 list"
  link_open :: bool
  m_nothingReadTime :: int
  m_NoOpTimeout :: int
  reopened :: nat

definition reopenLink :: "CTtyLink \<Rightarrow> CTtyLink" where
  "reopenLink s = s\<lparr>link_open := True, reopened := Suc (reopened s)\<rparr>"

definition readBlock :: "bool \<Rightarrow> nat option \<Rightarrow> nat \<Rightarrow> u8 list \<Rightarrow> u8 list option \<times> u8 list" where
  "readBlock is_open arrived p_nMaxBlockLen line =
     (case arrived of
        None \<Rightarrow> (None, line)
      | Some k \<Rightarrow>
          if \<not> is_open then (None, line)
          else if take k line = [] then (Some [], line)
          else if p_nMaxBlockLen = 0 then (None, line)
          else (Some (take (min k p_nMaxBlockLen) line), drop (min k p_nMaxBlockLen) line))"

definition TTY_BUF_SIZE :: nat where "TTY_BUF_SIZE = 512"

text \<open>How long nothing has been read.\<close>

definition note_read :: "int \<Rightarrow> u8 list \<Rightarrow> CTtyLink \<Rightarrow> CTtyLink" where
  "note_read now bs s =
     (if bs = [] then
        (if m_nothingReadTime s = 0 then s\<lparr>m_nothingReadTime := now\<rparr>
         else if now - m_nothingReadTime s > m_NoOpTimeout s then (reopenLink s)\<lparr>m_nothingReadTime := 0\<rparr>
         else s)
      else s\<lparr>m_nothingReadTime := 0\<rparr>)"

definition GetMsgLen :: "int \<Rightarrow> nat option \<Rightarrow> u8 list \<Rightarrow> CTtyLink \<Rightarrow> nat \<times> u8 list \<times> CTtyLink" where
  "GetMsgLen now arrived line s =
     (let s = (if \<not> link_open s then (reopenLink s)\<lparr>m_nothingReadTime := 0\<rparr> else s);
          (buf, len) = ParseRxMessage (m_buf s); s = s\<lparr>m_buf := buf\<rparr> in
      if len > 0 then (len, line, s)
      else
        let s = (if TTY_BUF_SIZE \<le> length (m_buf s) then s\<lparr>m_buf := []\<rparr> else s) in
        case readBlock (link_open s) arrived (TTY_BUF_SIZE - length (m_buf s)) line of
          (None, line) \<Rightarrow> (0, line, reopenLink s)
        | (Some bs, line) \<Rightarrow>
            let s = note_read now bs s; (buf, len) = ParseRxMessage (m_buf s @ bs)
            in (len, line, s\<lparr>m_buf := buf\<rparr>))"

definition TtyLink_Read :: "nat \<Rightarrow> CTtyLink \<Rightarrow> u8 list \<times> CTtyLink" where
  "TtyLink_Read msgSz s = (take msgSz (drop 1 (m_buf s)), s\<lparr>m_buf := drop (msgSz + 2) (m_buf s)\<rparr>)"

text \<open>A packet around a message that was read into a buffer with room in front and behind.\<close>

definition SetIn :: "u8 list \<Rightarrow> nat \<Rightarrow> nat \<Rightarrow> nat \<Rightarrow> ProtocolPacket" where
  "SetIn buf cargoSize headSpare tailSpare =
     \<lparr>m_pBuf = take (headSpare + cargoSize + tailSpare) buf, m_pHead = headSpare, m_pTail = headSpare + cargoSize\<rparr>"

text \<open>The layer on top: \<open>spare\<close> is the pair of head and tail spare, \<open>esc\<close> whether messages are escaped. \<open>None\<close> is a read behind the message.\<close>

definition Encase_Read :: "(nat \<Rightarrow> u8) \<Rightarrow> nat \<times> nat \<Rightarrow> bool \<Rightarrow> int \<Rightarrow> nat option \<Rightarrow> u8 list \<Rightarrow> CTtyLink
    \<Rightarrow> (ProtocolPacket option \<times> u8 list \<times> CTtyLink) option" where
  "Encase_Read junk spare esc now arrived line s =
     (let (rb, line, s) = GetMsgLen now arrived line s in
      if rb = 0 then Some (None, line, s)
      else
        let (msg, s) = TtyLink_Read rb s;
            h = map junk [0..<fst spare]; t = map junk [fst spare + rb..<fst spare + rb + snd spare] in
        if esc then map_option (\<lambda>(msg, n). (Some (SetIn (h @ msg @ t) n (fst spare) (snd spare)), line, s)) (UnescapeMsg msg)
        else Some (Some (SetIn (h @ msg @ t) rb (fst spare) (snd spare)), line, s))"

text \<open>The escaped message is written to a buffer of twice the length of the packet; \<open>None\<close> when it does not fit.\<close>

definition Encase_Write :: "bool \<Rightarrow> ProtocolPacket \<Rightarrow> u8 list option" where
  "Encase_Write esc pkt =
     (if \<not> esc then Some (Data pkt)
      else let emsg = EscapeMsg (Data pkt) in if length emsg \<le> 2 * DataLen pkt then Some emsg else None)"

text \<open>Reads one after the other, and the packets they give.\<close>

fun reads :: "(nat \<Rightarrow> u8) \<Rightarrow> nat \<times> nat \<Rightarrow> (int \<times> nat option) list \<Rightarrow> u8 list \<Rightarrow> CTtyLink \<Rightarrow> (u8 list list \<times> u8 list \<times> CTtyLink) option" where
  "reads junk spare [] line s = Some ([], line, s)"
| "reads junk spare ((now, arrived) # es) line s =
     (case Encase_Read junk spare True now arrived line s of
        None \<Rightarrow> None
      | Some (p, line, s) \<Rightarrow> map_option (\<lambda>(out, r). ((case p of None \<Rightarrow> [] | Some p \<Rightarrow> [Data p]) @ out, r)) (reads junk spare es line s))"


section \<open>Frames carry messages\<close>

lemmas frame_octets = STX_def ETX_def CHX_def

lemma unescape_escape: "unescape_loop (escape_octet b @ bs) = map_option (Cons b) (unescape_loop bs)"
  by (simp add: escape_octet_def frame_octets)

lemma unescape_roundtrip: "unescape_loop (concat (map escape_octet msg)) = Some msg"
  by (induction msg) (simp_all add: unescape_escape)

lemma escaped_free: "b \<in> set (concat (map escape_octet msg)) \<Longrightarrow> b \<noteq> STX \<and> b \<noteq> ETX"
  by (auto simp: escape_octet_def frame_octets split: if_splits)

lemma escaped_length: "length msg \<le> length (concat (map escape_octet msg))"
  by (induction msg) (auto simp: escape_octet_def)

lemma scan_etx_end: "\<forall>b\<in>set bs. b \<noteq> STX \<and> b \<noteq> ETX \<Longrightarrow> scan_etx i (bs @ ETX # rest) = Some (i + length bs - 1)"
  by (induction bs arbitrary: i) (simp_all add: frame_octets)

lemma scan_etx_open: "\<forall>b\<in>set bs. b \<noteq> STX \<and> b \<noteq> ETX \<Longrightarrow> scan_etx i bs = Some 0"
  by (induction bs arbitrary: i) simp_all

lemma parse_frame: "ParseRxMessage (EscapeMsg msg @ rest) = (EscapeMsg msg @ rest, length (concat (map escape_octet msg)))"
  using scan_etx_end [of "concat (map escape_octet msg)" 1 rest] escaped_free by (simp add: ParseRxMessage_def EscapeMsg_def)

text \<open>The beginning of a frame is kept.\<close>

lemma parse_part:
  assumes "EscapeMsg msg = buf @ tail" "tail \<noteq> []"
  shows "ParseRxMessage buf = (buf, 0)"
proof (cases buf)
  case Nil
  then show ?thesis by (simp add: ParseRxMessage_def)
next
  case (Cons b bs)
  then have e: "b = STX" "concat (map escape_octet msg) @ [ETX] = bs @ tail" using assms(1) by (simp_all add: EscapeMsg_def)
  obtain tail' where "tail = tail' @ [ETX]" using e(2) assms(2) by (metis append_butlast_last_id last_appendR last_snoc)
  then have "set bs \<subseteq> set (concat (map escape_octet msg))" using e(2) by auto
  then have "scan_etx 1 bs = Some 0" using escaped_free by (intro scan_etx_open) blast
  then show ?thesis using Cons e(1) by (simp add: ParseRxMessage_def)
qed

text \<open>A frame that is cut off takes what follows it in the buffer with it, and an empty frame holds the buffer up.\<close>

lemma parse_cut_frame:
  "\<forall>b\<in>set bs. b \<noteq> STX \<and> b \<noteq> ETX \<Longrightarrow> ParseRxMessage (STX # bs @ EscapeMsg msg @ rest) = ([], 0)"
proof -
  assume f: "\<forall>b\<in>set bs. b \<noteq> STX \<and> b \<noteq> ETX"
  have "scan_etx i (bs @ STX # r) = None" for i r using f by (induction bs arbitrary: i) simp_all
  then show ?thesis by (simp add: ParseRxMessage_def EscapeMsg_def)
qed

lemma parse_empty_frame: "ParseRxMessage (EscapeMsg [] @ rest) = (EscapeMsg [] @ rest, 0)"
  using parse_frame [of "[]" rest] by simp

section \<open>The link delivers\<close>

text \<open>What is in the buffer and on the line are the frames of the messages that are still to come.\<close>

definition frames_left :: "u8 list list \<Rightarrow> u8 list \<Rightarrow> CTtyLink \<Rightarrow> bool" where
  "frames_left ms line s \<longleftrightarrow> link_open s \<and> m_buf s @ line = concat (map EscapeMsg ms) \<and> (\<forall>m\<in>set ms. m \<noteq> [] \<and> length (EscapeMsg m) \<le> TTY_BUF_SIZE)"


lemma frames_left_next:
  assumes "frames_left (m # ms) line s"
  obtains rest where "m_buf s = EscapeMsg m @ rest" "rest @ line = concat (map EscapeMsg ms)"
    | tail where "EscapeMsg m = m_buf s @ tail" "tail \<noteq> []" "line = tail @ concat (map EscapeMsg ms)" "length (m_buf s) < TTY_BUF_SIZE"
proof -
  have e: "m_buf s @ line = EscapeMsg m @ concat (map EscapeMsg ms)" and l: "length (EscapeMsg m) \<le> TTY_BUF_SIZE"
    using assms by (simp_all add: frames_left_def)
  then consider us where "m_buf s = EscapeMsg m @ us" "us @ line = concat (map EscapeMsg ms)"
    | us where "m_buf s @ us = EscapeMsg m" "line = us @ concat (map EscapeMsg ms)"
    by (auto simp: append_eq_append_conv2)
  then show thesis
  proof cases
    case 1
    then show thesis by (rule that(1))
  next
    case (2 us)
    show thesis
    proof (cases "us = []")
      case True
      then show thesis using 2 by (intro that(1) [of "[]"]) simp_all
    next
      case False
      then have "length (m_buf s) < length (EscapeMsg m)" unfolding 2(1) [symmetric] by simp
      then show thesis using 2 False l by (intro that(2) [of us]) simp_all
    qed
  qed
qed

lemma escaped_nonempty: "m \<noteq> [] \<Longrightarrow> 0 < length (concat (map escape_octet m))"
  by (cases m) (simp_all add: escape_octet_def)

lemma parse_left:
  assumes "frames_left (m # ms) line s"
  obtains rest where "m_buf s = EscapeMsg m @ rest" "rest @ line = concat (map EscapeMsg ms)"
      "ParseRxMessage (m_buf s) = (m_buf s, length (concat (map escape_octet m)))"
    | "ParseRxMessage (m_buf s) = (m_buf s, 0)" "length (m_buf s) < TTY_BUF_SIZE" "line \<noteq> []"
  using assms
proof (cases rule: frames_left_next)
  case (1 rest)
  then show thesis by (intro that(1) [of rest]) (simp_all only: parse_frame)
next
  case (2 tail)
  then show thesis using parse_part [OF 2(1,2)] by (intro that(2)) simp_all
qed

lemma readBlock_some:
  "0 < n \<Longrightarrow> line \<noteq> [] \<Longrightarrow> readBlock True (Some k) n line = (Some (take (min k n) line), drop (min k n) line)"
  by (cases "k = 0") (simp_all add: readBlock_def)

lemma note_read_fields [simp]: "m_buf (note_read now bs s) = m_buf s" "link_open s \<Longrightarrow> link_open (note_read now bs s)"
  by (simp_all add: note_read_def reopenLink_def)

text \<open>One look at the line: a message is whole, or octets are taken from the line.\<close>

lemma GetMsgLen_frames:
  assumes f: "frames_left (m # ms) line s"
  obtains s' line' rest where "GetMsgLen now (Some k) line s = (length (concat (map escape_octet m)), line', s')" "link_open s'"
      "m_buf s' = EscapeMsg m @ rest" "rest @ line' = concat (map EscapeMsg ms)" "length line' \<le> length line"
    | s' line' where "GetMsgLen now (Some k) line s = (0, line', s')" "frames_left (m # ms) line' s'" "length line' \<le> length line"
      "0 < k \<Longrightarrow> length line' < length line"
  using f
proof (cases rule: parse_left)
  case (1 rest)
  have "m \<noteq> []" "link_open s" using f by (simp_all add: frames_left_def)
  then show thesis using 1 escaped_nonempty [of m] by (intro that(1) [of line s rest]) (simp_all add: GetMsgLen_def)
next
  case 2
  define n where "n = min k (TTY_BUF_SIZE - length (m_buf s))"
  define u where "u = (note_read now (take n line) s)\<lparr>m_buf := m_buf s @ take n line\<rparr>"
  have o: "link_open s" using f by (simp add: frames_left_def)
  have fu: "frames_left (m # ms) (drop n line) u" using f by (simp add: frames_left_def u_def)
  have g: "GetMsgLen now (Some k) line s = (snd (ParseRxMessage (m_buf u)), drop n line, u\<lparr>m_buf := fst (ParseRxMessage (m_buf u))\<rparr>)"
    using 2 o readBlock_some [of "TTY_BUF_SIZE - length (m_buf s)" line k]
    by (simp add: GetMsgLen_def Let_def u_def n_def split: prod.split)
  have less: "0 < k \<Longrightarrow> length (drop n line) < length line" using 2 by (simp add: n_def)
  show thesis using fu
  proof (cases rule: parse_left)
    case (1 rest)
    then show thesis using g fu by (intro that(1) [of "drop n line" u rest]) (simp_all add: frames_left_def)
  next
    case 2
    then show thesis using g fu less by (intro that(2) [of "drop n line" u]) simp_all
  qed
qed

lemma SetIn_data: "Data (SetIn (h @ msg @ t) n (length h) k) = take n (msg @ t)" if "n \<le> length msg"
  using that by (simp add: SetIn_def Data_def)

lemma Encase_Read_frames:
  assumes f: "frames_left (m # ms) line s"
  obtains p s' line' where "Encase_Read junk spare True now (Some k) line s = Some (Some p, line', s')" "Data p = m" "frames_left ms line' s'"
      "length line' \<le> length line"
    | s' line' where "Encase_Read junk spare True now (Some k) line s = Some (None, line', s')" "frames_left (m # ms) line' s'"
      "length line' \<le> length line" "0 < k \<Longrightarrow> length line' < length line"
  using f
proof (cases rule: GetMsgLen_frames [where now = now and k = k])
  case (1 s' line' rest)
  let ?e = "concat (map escape_octet m)"
  let ?p = "SetIn (map junk [0..<fst spare] @ (m @ drop (length m) ?e) @ map junk [fst spare + length ?e..<fst spare + length ?e + snd spare])
    (length m) (fst spare) (snd spare)"
  have m: "0 < length ?e" "m \<noteq> []" using f escaped_nonempty [of m] by (simp_all add: frames_left_def)
  have "take (length ?e) (drop 1 (m_buf s')) = ?e" "drop (length ?e + 2) (m_buf s') = rest"
    unfolding 1(3) by (simp_all add: EscapeMsg_def)
  then have r: "TtyLink_Read (length ?e) s' = (?e, s'\<lparr>m_buf := rest\<rparr>)" by (simp only: TtyLink_Read_def)
  have "Encase_Read junk spare True now (Some k) line s = Some (Some ?p, line', s'\<lparr>m_buf := rest\<rparr>)"
    using m(1) unfolding Encase_Read_def 1(1) by (simp only: Let_def split_conv r UnescapeMsg_def unescape_roundtrip option.map) simp
  moreover have "Data ?p = m" using SetIn_data [of "length m" "m @ drop (length m) ?e" "map junk [0..<fst spare]"] by simp
  moreover have "frames_left ms line' (s'\<lparr>m_buf := rest\<rparr>)" using f 1(2,4) by (simp add: frames_left_def)
  ultimately show thesis using 1(5) by (rule that(1))
next
  case (2 s' line')
  then show thesis by (intro that(2) [of line' s']) (simp_all add: Encase_Read_def)
qed

lemma Encase_Read_empty:
  assumes "frames_left [] line s"
  shows "\<exists>s'. Encase_Read junk spare True now (Some k) line s = Some (None, line, s') \<and> frames_left [] line s'"
proof -
  have e: "link_open s" "m_buf s = []" "line = []" using assms by (simp_all add: frames_left_def)
  have "ParseRxMessage [] = ([], 0)" by (simp add: ParseRxMessage_def)
  then have "GetMsgLen now (Some k) line s = (0, line, (note_read now [] (s\<lparr>m_buf := []\<rparr>))\<lparr>m_buf := []\<rparr>)"
    using e by (simp add: GetMsgLen_def readBlock_def TTY_BUF_SIZE_def)
  then show ?thesis using e by (simp add: Encase_Read_def frames_left_def)
qed

lemma reads_frames:
  "frames_left ms line s \<Longrightarrow> \<forall>e\<in>set es. snd e \<noteq> None \<Longrightarrow>
    \<exists>n line' s'. reads junk spare es line s = Some (take n ms, line', s') \<and> frames_left (drop n ms) line' s'
      \<and> (length line + length ms \<le> length (filter (\<lambda>e. snd e \<noteq> Some 0) es) \<longrightarrow> length ms \<le> n)"
proof (induction es arbitrary: ms line s)
  case Nil
  then show ?case by (intro exI [of _ 0]) simp
next
  case (Cons e es)
  obtain now k where e: "e = (now, Some k)" using Cons.prems(2) by (cases e) auto
  show ?case
  proof (cases ms)
    case Nil
    obtain s' where s': "Encase_Read junk spare True now (Some k) line s = Some (None, line, s')" "frames_left [] line s'"
      using Encase_Read_empty Cons.prems(1) Nil by blast
    from Cons.IH [OF this(2)] Cons.prems(2) show ?thesis using s' by (auto simp: e Nil)
  next
    case (Cons m ms')
    show ?thesis using Cons.prems(1) [unfolded Cons]
    proof (cases rule: Encase_Read_frames [where junk = junk and spare = spare and now = now and k = k])
      case (1 p s' line')
      obtain n l2 s2 where "reads junk spare es line' s' = Some (take n ms', l2, s2)" "frames_left (drop n ms') l2 s2"
          "length line' + length ms' \<le> length (filter (\<lambda>e. snd e \<noteq> Some 0) es) \<longrightarrow> length ms' \<le> n"
        using Cons.IH [OF 1(3)] Cons.prems(2) by auto
      then show ?thesis using 1 by (intro exI [of _ "Suc n"] exI [of _ l2] exI [of _ s2]) (auto simp: e Cons)
    next
      case (2 s' line')
      obtain n l2 s2 where "reads junk spare es line' s' = Some (take n ms, l2, s2)" "frames_left (drop n ms) l2 s2"
          "length line' + length ms \<le> length (filter (\<lambda>e. snd e \<noteq> Some 0) es) \<longrightarrow> length ms \<le> n"
        using Cons.IH [OF 2(2)] Cons.prems(2) Cons by auto
      then show ?thesis using 2 by (intro exI [of _ n] exI [of _ l2] exI [of _ s2]) (auto simp: e)
    qed
  qed
qed

text \<open>C39:
  The messages of the transceiver arrive. When the line carries the frames of messages that are not empty and whose frames fit the buffer, then in whatever pieces and at
  whatever times the octets come, with pauses in between, the packets that are read are these messages, unescaped, in order and without gaps;
  and all of them have been read after as many reads with something on the line as there are octets and messages.
\<close>
theorem serial_messages_arrive:
  assumes "link_open s" "m_buf s = []" "\<forall>m\<in>set ms. m \<noteq> [] \<and> length (EscapeMsg m) \<le> 512" "\<forall>e\<in>set es. snd e \<noteq> None"
  shows "\<exists>n line' s'. reads junk spare es (concat (map EscapeMsg ms)) s = Some (take n ms, line', s')
    \<and> (length (concat (map EscapeMsg ms)) + length ms \<le> length (filter (\<lambda>e. snd e \<noteq> Some 0) es) \<longrightarrow> n = length ms)"
proof -
  have "frames_left ms (concat (map EscapeMsg ms)) s" using assms(1-3) by (simp add: frames_left_def TTY_BUF_SIZE_def)
  from reads_frames [OF this assms(4), of junk spare] obtain n line' s' where
      r: "reads junk spare es (concat (map EscapeMsg ms)) s = Some (take n ms, line', s')"
      "length (concat (map EscapeMsg ms)) + length ms \<le> length (filter (\<lambda>e. snd e \<noteq> Some 0) es) \<longrightarrow> length ms \<le> n" by blast
  have "take (min n (length ms)) ms = take n ms" by (simp add: min_def)
  then show ?thesis using r by (intro exI [of _ "min n (length ms)"] exI [of _ line'] exI [of _ s']) auto
qed

definition sample_link :: CTtyLink where
  "sample_link = \<lparr>m_buf = [], link_open = True, m_nothingReadTime = 0, m_NoOpTimeout = 60, reopened = 0\<rparr>"

theorem serial_messages_arrive_witness:
  "\<exists>line' s'. reads (\<lambda>_. 0) (8, 4) (replicate 11 (5, Some 3)) [0xF0, 1, 0xF2, 0x0F, 0xF1, 0xF0, 7, 0xF1] sample_link
     = Some ([[1, 0xF0], [7]], line', s')"
proof -
  have f: "concat (map EscapeMsg [[1, 0xF0], [7]]) = [0xF0, 1, 0xF2, 0x0F, 0xF1, 0xF0, 7, 0xF1]"
    by (simp add: EscapeMsg_def escape_octet_def frame_octets)
  have "\<forall>m\<in>set [[1, 0xF0], [7]]. m \<noteq> [] \<and> length (EscapeMsg m) \<le> 512"
    by (simp add: EscapeMsg_def escape_octet_def frame_octets)
  from serial_messages_arrive [OF _ _ this, of sample_link "replicate 11 (5, Some 3)" "\<lambda>_. 0" "(8, 4)"]
  show ?thesis unfolding f by (auto simp: sample_link_def)
qed

text \<open>The buffer for the escaped message has room for it exactly when at least two octets of the packet need no escape.\<close>

lemma Encase_Write_defined:
  assumes "packet_wf pkt"
  shows "Encase_Write True pkt \<noteq> None \<longleftrightarrow> length (filter (\<lambda>b. b \<in> {STX, ETX, CHX}) (Data pkt)) + 2 \<le> length (Data pkt)"
proof -
  have "length (concat (map escape_octet m)) = length m + length (filter (\<lambda>b. b \<in> {STX, ETX, CHX}) m)" for m
    by (induction m) (simp_all add: escape_octet_def)
  then show ?thesis using length_Data [OF assms] by (simp add: Encase_Write_def Let_def EscapeMsg_def)
qed

end
