(* ===== verification/Spec2Isabelle.thy ===== *)
theory Spec2Isabelle
  imports Asl_Transmit Hmac Tlde_Checksum Dmo_Attributes Armo_Reports Dmap_Joined Bbr_Reassembly Bbr_Serial
begin

text \<open>
  Verification of the ISA100.11a device stack of the gateway (\<^verbatim>\<open>src/AccessNode/IsaGw/ISA100\<close>), the C++ program that lets a
  gateway, a system manager or a backbone router take part in an ISA100.11a network.

  \<^bold>\<open>The program.\<close> The stack is single-threaded. A main loop lets each layer do its task and, once a second, its upkeep. The application sublayer
  (\<^verbatim>\<open>aslde.cpp\<close>, \<^verbatim>\<open>aslsrvc.cpp\<close>) turns services into octets, queues them under contracts, concatenates them to TSDUs, repeats requests
  and matches responses. The transport layer (\<^verbatim>\<open>tlde.cpp\<close>, \<^verbatim>\<open>tlme.cpp\<close>) adds the UDP and security headers, encrypts, and on the way back checks, decrypts and
  drops duplicates; its keys are those of the security layer (\<^verbatim>\<open>slme.cpp\<close>), its cipher is CCM (\<^verbatim>\<open>Ccm.cpp\<close>). The network layer (\<^verbatim>\<open>nlme.cpp\<close>
  for the tables, \<^verbatim>\<open>porting.cpp\<close> for the packets) routes IPv6 packets over UDP sockets. Above the stack the device manager answers to the
  system manager: the objects for the device and its contracts (\<^verbatim>\<open>dmap_dmo.cpp\<close>), for alerts (\<^verbatim>\<open>dmap_armo.cpp\<close>), for provisioning
  (\<^verbatim>\<open>dmap_dpo.cpp\<close>), and the objects of the layers, all with attribute tables read through \<^verbatim>\<open>dmap_utils.cpp\<close>. Its front end and its task
  (\<^verbatim>\<open>dmap.cpp\<close>) hand received services to the objects and run the state machine by which a device joins the network: an exchange
  with the security manager that agrees on keys, a join request and a contract request to the system manager, and a confirmation.
  The backbone router (\<^verbatim>\<open>src/AccessNode/IsaGw/BackBone\<close>) is a program around the stack that connects the radio to the IPv6 network; it puts together the
  datagrams that its transceiver delivers in fragments.

  \<^bold>\<open>Conventions.\<close> \<^verbatim>\<open>uint8\<close>, \<^verbatim>\<open>uint16\<close> and \<^verbatim>\<open>uint32\<close> are words of their width and wrap; \<^verbatim>\<open>int\<close> is \<open>int\<close> where the code does not overflow. A struct is a
  record with the C field names. Memory that is read through a pointer is a function from addresses to octets; writers give the list of octets
  they put down. A \<^verbatim>\<open>std::map\<close> is an association list, sorted where the code relies on the order; a \<^verbatim>\<open>shared_ptr\<close> to a contract is a pair of
  the map key and a reference number, because the code compares and re-reads it. A feedback code is the word the code returns;
  \<open>None\<close> is a null pointer, or an access the C++ standard leaves undefined. Calls into a layer that is
  modelled are carried out; calls out of the modelled part (sockets, the user application, the restart of the stack) are recorded in a list. The
  clock, random numbers, the AES block function, the device configuration and octets of uninitialised storage are arguments.

  \<^bold>\<open>Theories.\<close>
  \<^item> \<open>Isa_Prelude\<close>: words, memory, the collections of simplification rules. \<open>Field_Codec\<close>: the locales \<open>field_codec\<close> and
    \<open>bounded_parser\<close>, the contracts between encoders and parsers. \<open>Row_Table\<close>: the locale \<open>row_table\<close>, what a table that is written by rows
    promises, and its refinement of a bounded map. \<open>Std_Map\<close>: sorted maps.
  \<^item> \<open>Dmap_Utils\<close> (\<^verbatim>\<open>dmap_utils.cpp\<close>): integers on the wire, attribute accessors and tables.
  \<^item> \<open>Asl_Fields\<close>, \<open>Asl_Services\<close>, \<open>Asl_Codecs\<close>, \<open>Asl_Dispatch\<close> (\<^verbatim>\<open>aslsrvc.cpp\<close>, the processing loop of \<^verbatim>\<open>dmap.cpp\<close>): every
    binarizer and parser, bounds and round trips, the dispatcher. \<open>Aslmo\<close> (\<^verbatim>\<open>aslde.cpp\<close>): the counters of malformed APDUs.
  \<^item> \<open>Asl_Window\<close>, \<open>Asl_Queue\<close> (\<^verbatim>\<open>aslde.cpp\<close>): flow control, the transmit and receive queues and the task. \<open>Asl_Accounting\<close>, \<open>Asl_Reach\<close>: the window
    accounting as an invariant of all reachable states, with the locale \<open>message_loop\<close> for the loops over the queue. \<open>Asl_Progress\<close>, \<open>Asl_Transmit\<close>: lifetimes,
    retries, priorities, what a TSDU consists of.
  \<^item> \<open>Nlme\<close>, \<open>Nlme_Tables\<close> (\<^verbatim>\<open>nlme.cpp\<close>): routes, contracts and address translations, refinement of maps, the two indices of the translation table.
  \<^item> \<open>Ccm\<close> (\<^verbatim>\<open>Ccm.cpp\<close>): the buffer code computes CCM of RFC 3610. \<open>Hmac\<close> (\<^verbatim>\<open>porting.cpp\<close>): the keyed hash.
  \<^item> \<open>Slme_Keys\<close>, \<open>Slme_Table\<close>, \<open>Slme_Task\<close>, \<open>Slme_Dsmo\<close> (\<^verbatim>\<open>slme.cpp\<close>): the key table, the choice of keys, their expiry and renewal, the device security object.
  \<^item> \<open>Tlme\<close> (\<^verbatim>\<open>tlme.cpp\<close>); \<open>Tlde_Duplicates\<close>, \<open>Tlde\<close>, \<open>Tlde_Checksum\<close>, \<open>Tlde_Exchange\<close> (\<^verbatim>\<open>tlde.cpp\<close>): both directions of the transport layer and what one
    device delivers of what its peer sends.
  \<^item> \<open>Nlde\<close> (\<^verbatim>\<open>porting.cpp\<close>): packets, hop limits, forwarding. \<open>Stack\<close>: the layers of a device together.
  \<^item> \<open>Dmo\<close>, \<open>Dmo_Requests\<close>, \<open>Dmo_Reach\<close>, \<open>Dmo_Attributes\<close> (\<^verbatim>\<open>dmap_dmo.cpp\<close>): the contract table, contract requests over their life, attributes.
  \<^item> \<open>Armo\<close>, \<open>Armo_Reports\<close> (\<^verbatim>\<open>dmap_armo.cpp\<close>): the alert queue, its reports and the recovery of alarms.
  \<^item> \<open>Dmap\<close>, \<open>Dmap_Join\<close>, \<open>Dmap_Task\<close> (\<^verbatim>\<open>dmap.cpp\<close>, \<^verbatim>\<open>dmap_dpo.cpp\<close>, \<^verbatim>\<open>uap_mo.cpp\<close>): the front end of the objects, the join, the task and the work
    of the second, in the configuration that the \<^verbatim>\<open>Makefile\<close> builds (\<^verbatim>\<open>BACKBONE_SUPPORT\<close>, \<^verbatim>\<open>DLL_KEY_ID_NOT_AUTHENTICATED\<close>). Their state \<open>dmap_state\<close> contains that of
    all objects and of the application sublayer, the network layer tables and the keys.
    \<open>Dmap_Keys\<close>: the cryptography of the join, against the answer a security manager computes. \<open>Dmap_Order\<close>: what every handler
    keeps of the join status, and the runs of a device as an inductive relation. \<open>Dmap_Watch\<close>: time-outs. \<open>Dmap_Exchange\<close>: one request of the join and its answer, from queue to
    queue; \<open>Dmap_Joined\<close>: a whole join.
  \<^item> \<open>Bbr_Packet\<close> (\<^verbatim>\<open>Shared/ProtocolPacket.cpp\<close>), \<open>Bbr_Defrgm\<close> (\<^verbatim>\<open>BackBone/DeFrgmTbl.cpp\<close>, \<^verbatim>\<open>binSearch\<close> of \<^verbatim>\<open>Shared/h.h\<close>), \<open>Bbr_Tunnel\<close>
    (\<^verbatim>\<open>BackBone/LowPANTunnel.cpp\<close>): the packets of the backbone router, its table of fragments as a sorted map, the handling of packets from the
    transceiver. \<open>Bbr_Reassembly\<close>: datagrams are put together whatever the order of their fragments, and what lost and short fragments do.
    \<open>Bbr_Serial\<close> (\<^verbatim>\<open>Shared/h.cpp\<close>, \<^verbatim>\<open>common/TtyLink.cpp\<close>, \<^verbatim>\<open>common/EncaseLayer.cpp\<close>): the table-driven check sum is the CRC-16 computed bit by bit
    and notices damage of neighbouring octets; frames arrive in whatever pieces the serial line delivers them.
  \<^item> This theory: a service from one device to another, through all layers.

  \<^bold>\<open>Loops and fuel.\<close> Loops over lists are recursive functions. The processing loop \<open>parse_apdus\<close> has as fuel the number of octets, which is enough because every parser moves
  forward. The loops that could run on, the search in the ring of the duplicate history (\<open>dup_loop\<close>), the hash (\<open>hash_loop\<close>) and the release of requests
  (\<open>key_added_loop\<close>), are partial functions with values in an option type, and that they return is proved. The loop over all
  received APDUs of the sniffer (\<open>sniff_apdus\<close>) is such a function too; no property is stated about it. The objects of one APDU (\<open>dmap_objects\<close>) end because the length left shrinks.

  \<^bold>\<open>Not modelled.\<close> The AES block cipher (third-party code, a parameter); sockets, the clock, configuration files and logging of \<^verbatim>\<open>porting.cpp\<close> and the callbacks
  (input and output; the call of \<^verbatim>\<open>RecvUDP\<close> in the task is its argument \<open>recv\<close>); the reading of the provisioning file (\<^verbatim>\<open>provision.cpp\<close>); the branches of \<^verbatim>\<open>dmap.cpp\<close> for
  devices with a radio of their own, which this build leaves out; of the backbone router the
  main loop, the sockets, the opening of the serial device, the queues towards the transceiver and the conversion of headers; the gateway application,
  the system manager and the monitoring host, which are programs of their own around the stack; the vendored libraries.
\<close>

section \<open>From service to service\<close>


definition sample_tl_request :: TL_REQUEST where
  "sample_tl_request = \<lparr>rq_contract = (7, 0), rq_priority = 2, rq_data = concat (replicate 2 [0x45, 0, 7, 1, 44, 9, 2, 3, 0xAA, 0xBB, 0xCC]),
     rq_handle = 5, rq_src = 2, rq_dst = 3, rq_encrypt = 1\<rparr>"

definition sample_device :: "u8 \<Rightarrow> u8 \<Rightarrow> u8 \<Rightarrow> device" where
  "sample_device peer sp dp = \<lparr>dv_asl = asl_state.g_stNlme_update (\<lambda>_. empty_nlme\<lparr>m_oContractsMap := [(7, 0, sample_contract)],
       m_oNlmeRoutesMap := [(replicate 16 2, sample_hop (replicate 16 4) 3)]\<rparr>) start_state,
     dv_tl = sample_session peer sp dp, dv_out = []\<rparr>"

definition sample_device_env :: "u32 \<Rightarrow> u8 \<Rightarrow> nl_env" where
  "sample_device_env now x = tl_env.extend (sample_tl_env now x)
     \<lparr>g_nDeviceType = 8, callback_to_dl = False, udp_accepts = (\<lambda>_ _ _. True), dl_accepts = (\<lambda>_. True)\<rparr>"

lemma sample_device_env_fields:
  "tl_env.truncate (sample_device_env now x) = sample_tl_env now x" "tl_address (sample_device_env now x) = replicate 16 x"
  "tl_EUI64 (sample_device_env now x) = replicate 8 x" "tl_cipher (sample_device_env now x) = sample_aes" "g_nDeviceType (sample_device_env now x) = 8"
  by (simp_all add: sample_device_env_def sample_tl_env_def tl_env.defs)

lemma sample_connected:
  "connected (sample_device_env 1000 1) (sample_device_env 1030 2) [(sample_device_env 1000 4, nl_view (sample_device 2 2 3))] sample_contract
     (sample_hop (replicate 16 4) 3) sample_tl_request (sample_device 2 2 3)"
  by (simp add: connected_def sample_device_env_fields sample_facts sample_hop_fields FindRouteHelper_def NLME_FindDestinationRoute_def NLME_findRoute_def
      sample_device_def nl_view_def nl_state.make_def bytes_at_def)

lemma sample_trusted: "trusted (sample_device_env 1000 1) (sample_device_env 1030 2) sample_tl_request (sample_device 2 2 3) (sample_device 1 3 2)"
  using sample_shared sample_tx_key [of 1000 2 2 3] sample_must_encrypt
  by (simp add: trusted_def sample_device_env_fields sample_facts sample_tl_request_def sample_device_def tx_key_def sample_tl_env_fields)

lemma sample_not_in_history:
  "not_in_history (sample_tl_env 1000 1) (sample_tl_env 1030 2) sample_tl_request (sample_device 2 2 3) (sample_device 1 3 2)"
  unfolding not_in_history_def
  using history_new [of "history_time (sample_tl_env 1000 1) (sample_tl_env 1030 2)"]
  by (simp add: sample_device_def sample_session_def history_time_def sample_tl_env_fields)


end
